(* ===== verification/Prelude.thy ===== *)
theory Prelude
  imports Main "HOL-Library.AList" "HOL-Library.Product_Lexorder"
begin

text \<open>
  Shared vocabulary of the development: the type of errors, the parameters that stand for
  third-party crates, machine integers and chrono arithmetic, the Rust iterator methods the
  queue uses (\<open>max_by_key\<close>, \<open>min_by_key\<close>, push-if-absent), and the generic
  lemmas on association lists (the model of \<open>HashMap\<close>) that carry the component proofs.
\<close>

named_theorems store_simps \<open>field-wise effect of the storage primitives\<close>
named_theorems wf_intros \<open>preservation of the storage invariant\<close>

subsection \<open>Identifiers, times and results\<close>

text \<open>
  A \<open>Uuid\<close> is compared, hashed and printed only, so it is a natural number (its 128-bit
  value, which orders as its bytes do). A \<open>DateTime<Utc>\<close> and a
  \<open>chrono::Duration\<close> are nanoseconds as an \<open>int\<close>; a
  \<open>std::time::Duration\<close> is nanoseconds as a \<open>nat\<close>. A JSON value is opaque to the
  queue and is represented by its compact text, the string \<open>serde_json::to_string\<close> gives.
\<close>

type_synonym uuid = nat
type_synonym job_id = uuid
type_synonym batch_id = uuid
type_synonym workflow_id = uuid
type_synonym time = int
type_synonym duration = nat
type_synonym json = string

text \<open>The errors of \<open>error.rs\<close>; an error of another crate or module is carried as its text.\<close>

datatype hammerwork_error =
    DatabaseError string
  | JobNotFound string
  | InvalidJobTransition string string string
  | SerializationError string
  | UuidParsing string
  | WorkerError string
  | QueueError string
  | RateLimitError string
  | MetricsError string
  | AlertingError string
  | BatchError string
  | ProcessingError string
  | WorkflowError string
  | TracingError string
  | IoError string
  | ArchiveError string
  | SpawnError string
  | InvalidJobPayload string
  | StreamingError string
  | WebhookError string
  | EventError string
  | ConfigError string
  | EncryptionError string

type_synonym 'a res = "hammerwork_error + 'a"

text \<open>
  An operation takes the state and returns its result with the new state; the changes made
  before an error stay. \<open>try_res\<close> is the operator \<open>?\<close> on a result computed without a state
  change, \<open>bind_op\<close> the sequencing of two operations.
\<close>

definition try_res :: "'a res \<Rightarrow> 's \<Rightarrow> ('a \<Rightarrow> 'b res \<times> 's) \<Rightarrow> 'b res \<times> 's" where
  "try_res r st k = (case r of Inl e \<Rightarrow> (Inl e, st) | Inr x \<Rightarrow> k x)"

definition bind_op :: "'a res \<times> 's \<Rightarrow> ('a \<Rightarrow> 's \<Rightarrow> 'b res \<times> 's) \<Rightarrow> 'b res \<times> 's" where
  "bind_op p k = (case p of (Inl e, st) \<Rightarrow> (Inl e, st) | (Inr x, st) \<Rightarrow> k x st)"

lemma try_res_simps [simp]: "try_res (Inl e) st k = (Inl e, st)" "try_res (Inr x) st k = k x"
  by (simp_all add: try_res_def)

lemma bind_op_simps [simp]:
  "bind_op (Inl e, st) k = (Inl e, st)" "bind_op (Inr x, st) k = k x st"
  by (simp_all add: bind_op_def)

lemma snd_try_res:
  "P st \<Longrightarrow> (\<And>x. r = Inr x \<Longrightarrow> P (snd (k x))) \<Longrightarrow> P (snd (try_res r st k))"
  by (cases r) simp_all

lemma snd_bind_op:
  "P (snd p) \<Longrightarrow> (\<And>x. fst p = Inr x \<Longrightarrow> P (snd (k x (snd p)))) \<Longrightarrow> P (snd (bind_op p k))"
  by (cases p; cases "fst p") auto

subsection \<open>Third-party code as parameters\<close>

text \<open>
  What the queue calls in other crates: how a \<open>Uuid\<close> prints; the range of chrono's
  \<open>DateTime<Utc>\<close> and \<open>Duration\<close>; the cron crate's parser (the error text of an
  expression it rejects) and chrono-tz's, and the first occurrence of a schedule strictly
  after an instant; the hash the weighted selection seeds from.
\<close>

record externs =
  uuid_show :: "uuid \<Rightarrow> string"
  min_utc :: time
  max_utc :: time
  max_delta :: int
  cron_error :: "string \<Rightarrow> string option"
  tz_valid :: "string \<Rightarrow> bool"
  cron_after :: "string \<Rightarrow> string \<Rightarrow> time \<Rightarrow> time option"
  hash_seed :: "string \<Rightarrow> int \<Rightarrow> nat option \<Rightarrow> nat"

text \<open>
  A concrete instance for the witnesses: times in 0 to \<open>2 ^ 62\<close>, every expression valid, and a
  schedule that fires at the multiples of 60.
\<close>

definition sample_externs :: externs where
  "sample_externs =
     \<lparr>uuid_show = (\<lambda>_. ''job''), min_utc = 0, max_utc = 2 ^ 62, max_delta = 2 ^ 61,
      cron_error = (\<lambda>_. None), tz_valid = (\<lambda>_. True),
      cron_after = (\<lambda>_ _ t. Some ((t div 60 + 1) * 60)),
      hash_seed = (\<lambda>q t a. nat t + (case a of None \<Rightarrow> 0 | Some n \<Rightarrow> n))\<rparr>"

subsection \<open>Machine integers\<close>

text \<open>\<open>i32\<close> arithmetic of a release build wraps at 32 bits.\<close>

definition wrap_i32 :: "int \<Rightarrow> int" where
  "wrap_i32 x = (x + 2 ^ 31) mod 2 ^ 32 - 2 ^ 31"

definition i32_range :: "int \<Rightarrow> bool" where
  "i32_range x \<longleftrightarrow> - (2 ^ 31) \<le> x \<and> x < 2 ^ 31"

lemma wrap_i32_id [simp]: "i32_range x \<Longrightarrow> wrap_i32 x = x"
  by (simp add: wrap_i32_def i32_range_def mod_pos_pos_trivial)

lemma wrap_i32_range: "i32_range (wrap_i32 x)"
  unfolding wrap_i32_def i32_range_def
  using pos_mod_bound [of "2 ^ 32" "x + 2 ^ 31"] pos_mod_sign [of "2 ^ 32" "x + 2 ^ 31"]
  by simp

definition u32_max :: nat where
  "u32_max = 2 ^ 32 - 1"

text \<open>\<open>u32\<close> addition of a release build.\<close>

definition u32_add :: "nat \<Rightarrow> nat \<Rightarrow> nat" where
  "u32_add a b = (a + b) mod 2 ^ 32"

lemma u32_add_exact: "a + b < 2 ^ 32 \<Longrightarrow> u32_add a b = a + b"
  by (simp add: u32_add_def)

text \<open>Division that truncates towards zero, as Rust's does.\<close>

definition trunc_div :: "int \<Rightarrow> int \<Rightarrow> int" where
  "trunc_div a b = sgn a * sgn b * (\<bar>a\<bar> div \<bar>b\<bar>)"

subsection \<open>chrono arithmetic\<close>

definition i64_range :: "int \<Rightarrow> bool" where
  "i64_range x \<longleftrightarrow> - (2 ^ 63) \<le> x \<and> x < 2 ^ 63"

text \<open>\<open>Duration::num_milliseconds\<close> and \<open>Duration::num_microseconds\<close>.\<close>

definition num_milliseconds :: "int \<Rightarrow> int" where
  "num_milliseconds d = trunc_div d 1000000"

definition num_microseconds :: "int \<Rightarrow> int option" where
  "num_microseconds d =
     (let m = trunc_div d 1000 in if i64_range m then Some m else None)"

text \<open>\<open>DateTime::checked_add_signed\<close>: \<open>None\<close> outside the representable range.\<close>

definition checked_add_signed :: "externs \<Rightarrow> time \<Rightarrow> int \<Rightarrow> time option" where
  "checked_add_signed E t d =
     (if min_utc E \<le> t + d \<and> t + d \<le> max_utc E then Some (t + d) else None)"

lemma checked_add_signed_Some:
  "checked_add_signed E t d = Some u \<Longrightarrow> u = t + d \<and> u \<le> max_utc E \<and> min_utc E \<le> u"
  by (auto simp: checked_add_signed_def split: if_splits)

text \<open>\<open>saturating_chrono_duration\<close> and \<open>saturating_add_to\<close> of queue/mod.rs.\<close>

definition saturating_chrono_duration :: "externs \<Rightarrow> duration \<Rightarrow> int" where
  "saturating_chrono_duration E d =
     (if int d \<le> max_delta E then int d else max_delta E)"

definition saturating_add_to :: "externs \<Rightarrow> time \<Rightarrow> duration \<Rightarrow> time" where
  "saturating_add_to E now d =
     (case checked_add_signed E now (saturating_chrono_duration E d) of
        Some t \<Rightarrow> t
      | None \<Rightarrow> max_utc E)"

lemma saturating_add_to_le: "saturating_add_to E now d \<le> max_utc E"
  by (auto simp: saturating_add_to_def split: option.splits dest: checked_add_signed_Some)

subsection \<open>Options and iterators\<close>

text \<open>\<open>Option::or\<close> and \<open>Option::unwrap_or\<close>.\<close>

definition opt_or :: "'a option \<Rightarrow> 'a option \<Rightarrow> 'a option" where
  "opt_or a b = (case a of Some x \<Rightarrow> Some x | None \<Rightarrow> b)"

definition unwrap_or :: "'a option \<Rightarrow> 'a \<Rightarrow> 'a" where
  "unwrap_or a d = (case a of Some x \<Rightarrow> x | None \<Rightarrow> d)"

definition is_some_and :: "'a option \<Rightarrow> ('a \<Rightarrow> bool) \<Rightarrow> bool" where
  "is_some_and a P = (case a of Some x \<Rightarrow> P x | None \<Rightarrow> False)"

lemma opt_or_simps [simp]: "opt_or None b = b" "opt_or (Some x) b = Some x"
  by (simp_all add: opt_or_def)

lemma unwrap_or_simps [simp]: "unwrap_or None d = d" "unwrap_or (Some x) d = x"
  by (simp_all add: unwrap_or_def)

lemma is_some_and_simps [simp]:
  "is_some_and None P = False" "is_some_and (Some x) P = P x"
  by (simp_all add: is_some_and_def)

lemma is_some_and_iff: "is_some_and a P \<longleftrightarrow> (\<exists>x. a = Some x \<and> P x)"
  by (cases a) auto

text \<open>
  \<open>Iterator::max_by_key\<close> returns the last of several maximal elements and
  \<open>Iterator::min_by_key\<close> the first of several minimal ones.
\<close>

fun max_by_key :: "('a \<Rightarrow> 'k::linorder) \<Rightarrow> 'a list \<Rightarrow> 'a option" where
  "max_by_key f [] = None"
| "max_by_key f (x # xs) =
     (case max_by_key f xs of
        None \<Rightarrow> Some x
      | Some y \<Rightarrow> Some (if f x \<le> f y then y else x))"

fun min_by_key :: "('a \<Rightarrow> 'k::linorder) \<Rightarrow> 'a list \<Rightarrow> 'a option" where
  "min_by_key f [] = None"
| "min_by_key f (x # xs) =
     (case min_by_key f xs of
        None \<Rightarrow> Some x
      | Some y \<Rightarrow> Some (if f x \<le> f y then x else y))"

lemma max_by_key_None [simp]: "max_by_key f xs = None \<longleftrightarrow> xs = []"
  by (cases xs) (auto split: option.splits)

lemma min_by_key_None [simp]: "min_by_key f xs = None \<longleftrightarrow> xs = []"
  by (cases xs) (auto split: option.splits)

lemma max_by_key_Some:
  "max_by_key f xs = Some y \<Longrightarrow> y \<in> set xs \<and> (\<forall>x \<in> set xs. f x \<le> f y)"
proof (induction xs arbitrary: y)
  case (Cons x xs)
  then show ?case
    by (cases "max_by_key f xs") (force split: if_splits)+
qed simp

lemma min_by_key_Some:
  "min_by_key f xs = Some y \<Longrightarrow> y \<in> set xs \<and> (\<forall>x \<in> set xs. f y \<le> f x)"
proof (induction xs arbitrary: y)
  case (Cons x xs)
  then show ?case
    by (cases "min_by_key f xs") (force split: if_splits)+
qed simp

text \<open>\<open>if !v.contains(x) { v.push(x) }\<close>, once and for a sequence of values.\<close>

definition push_new :: "'a list \<Rightarrow> 'a \<Rightarrow> 'a list" where
  "push_new xs x = (if x \<in> set xs then xs else xs @ [x])"

lemma set_push_new [simp]: "set (push_new xs x) = insert x (set xs)"
  by (auto simp: push_new_def)

lemma distinct_push_new [simp]: "distinct (push_new xs x) = distinct xs"
  by (auto simp: push_new_def)

lemma set_fold_push_new [simp]: "set (fold (\<lambda>x acc. push_new acc x) ys xs) = set xs \<union> set ys"
  by (induction ys arbitrary: xs) auto

lemma distinct_fold_push_new [simp]:
  "distinct (fold (\<lambda>x acc. push_new acc x) ys xs) = distinct xs"
  by (induction ys arbitrary: xs) auto

lemma find_SomeD: "find P xs = Some x \<Longrightarrow> x \<in> set xs \<and> P x"
  by (induction xs) (auto split: if_splits)

text \<open>The values of a \<open>HashMap\<close> in iteration order.\<close>

abbreviation values_of :: "('k \<times> 'v) list \<Rightarrow> 'v list" where
  "values_of al \<equiv> map snd al"

subsection \<open>Association lists\<close>

text \<open>
  A \<open>HashMap\<close> whose iteration order matters is an association list: \<open>get\<close> is
  \<open>map_of\<close>, \<open>insert\<close> is \<open>AList.update\<close> and \<open>remove\<close> is
  \<open>AList.delete\<close>. The order of the list stands for the (unspecified) iteration order,
  and every theorem is stated for an arbitrary list.
\<close>

lemma update_twice [simp]: "AList.update k v (AList.update k w al) = AList.update k v al"
  by (induction al) auto

lemma map_of_update [simp]: "map_of (AList.update k v al) = (map_of al)(k \<mapsto> v)"
  by (rule update_conv')

lemma map_of_delete [simp]: "map_of (AList.delete k al) = (map_of al)(k := None)"
  by (rule delete_conv')

lemma fst_update_existing [simp]:
  "map_of al k \<noteq> None \<Longrightarrow> map fst (AList.update k v al) = map fst al"
  by (induction al) auto

lemma distinct_fst_update [simp]:
  "distinct (map fst al) \<Longrightarrow> distinct (map fst (AList.update k v al))"
  by (rule distinct_update)

lemma distinct_fst_delete [simp]:
  "distinct (map fst al) \<Longrightarrow> distinct (map fst (AList.delete k al))"
  by (rule distinct_delete)

lemma values_of_iff:
  "distinct (map fst al) \<Longrightarrow> v \<in> set (values_of al) \<longleftrightarrow> (\<exists>k. map_of al k = Some v)"
  by (force simp: in_set_conv_nth map_of_eq_Some_iff intro: rev_image_eqI)

lemma count_update_existing:
  "map_of al k = Some w \<Longrightarrow> P w \<Longrightarrow> \<not> P v \<Longrightarrow>
     Suc (length (filter P (values_of (AList.update k v al)))) = length (filter P (values_of al))"
  by (induction al) (auto split: if_splits)

lemma count_list_update:
  "i < length xs \<Longrightarrow> P (xs ! i) \<Longrightarrow> \<not> P y \<Longrightarrow>
     Suc (length (filter P (xs[i := y]))) = length (filter P xs)"
proof (induction xs arbitrary: i)
  case (Cons x xs)
  then show ?case by (cases i) auto
qed simp

subsection \<open>Encodings\<close>

text \<open>
  What the code relies on wherever a value is stored as text or as an integer: decoding an
  encoded value gives it back.
\<close>

locale codec =
  fixes encode :: "'a \<Rightarrow> 'b" and decode :: "'b \<Rightarrow> 'a option"
  assumes decode_encode: "decode (encode x) = Some x"
begin

lemma encode_inject: "encode x = encode y \<longleftrightarrow> x = y"
  using decode_encode by (metis option.inject)

lemma decode_range: "b \<in> range encode \<Longrightarrow> \<exists>x. decode b = Some x \<and> encode x = b"
  by (auto simp: decode_encode)

lemma map_decode_encode: "List.map_filter decode (map encode xs) = xs"
  by (induction xs) (simp_all add: List.map_filter_simps decode_encode)

end

definition ok_of :: "'e + 'a \<Rightarrow> 'a option" where
  "ok_of r = (case r of Inl _ \<Rightarrow> None | Inr x \<Rightarrow> Some x)"

lemma ok_of_simps [simp]: "ok_of (Inr x) = Some x" "ok_of (Inl e) = None"
  by (simp_all add: ok_of_def)

end
