(* ===== verification/Priority.thy ===== *)
theory Priority
  imports Prelude "HOL-Library.Word"
begin

text \<open>
  Job priorities and weighted selection: \<open>src/src/priority.rs\<close> and
  \<open>pick_weighted_priority\<close> of \<open>src/src/queue/backend.rs\<close>. The priority levels with the
  order their \<open>#[derive(Ord)]\<close> gives, the integer and textual encodings with their round trips,
  the weight table, and the selection of one level from a seed. A weight is a \<open>u32\<close>, hence a
  32-bit word.
\<close>

subsection \<open>Levels\<close>

datatype job_priority = Background | Low | Normal | High | Critical

fun as_i32 :: "job_priority \<Rightarrow> int" where
  "as_i32 Background = 0"
| "as_i32 Low = 1"
| "as_i32 Normal = 2"
| "as_i32 High = 3"
| "as_i32 Critical = 4"

lemma as_i32_inject [simp]: "as_i32 p = as_i32 q \<longleftrightarrow> p = q"
  by (cases p; cases q) auto

lemma as_i32_bounds: "0 \<le> as_i32 p \<and> as_i32 p \<le> 4"
  by (cases p) auto

text \<open>The derived order follows the order of the variants.\<close>

instantiation job_priority :: linorder
begin

definition less_eq_job_priority :: "job_priority \<Rightarrow> job_priority \<Rightarrow> bool" where
  "less_eq_job_priority p q \<longleftrightarrow> as_i32 p \<le> as_i32 q"

definition less_job_priority :: "job_priority \<Rightarrow> job_priority \<Rightarrow> bool" where
  "less_job_priority p q \<longleftrightarrow> as_i32 p < as_i32 q"

instance
  by standard (auto simp: less_eq_job_priority_def less_job_priority_def)

end

datatype priority_error = InvalidPriorityValue int | InvalidPriorityString string

definition from_i32 :: "int \<Rightarrow> priority_error + job_priority" where
  "from_i32 v =
     (if v = 0 then Inr Background
      else if v = 1 then Inr Low
      else if v = 2 then Inr Normal
      else if v = 3 then Inr High
      else if v = 4 then Inr Critical
      else Inl (InvalidPriorityValue v))"

definition priority_or_normal :: "int \<Rightarrow> job_priority" where
  "priority_or_normal v = (case from_i32 v of Inr p \<Rightarrow> p | Inl _ \<Rightarrow> Normal)"

fun default_weight :: "job_priority \<Rightarrow> 32 word" where
  "default_weight Background = 1"
| "default_weight Low = 2"
| "default_weight Normal = 5"
| "default_weight High = 10"
| "default_weight Critical = 20"

definition all_priorities :: "job_priority list" where
  "all_priorities = [Background, Low, Normal, High, Critical]"

lemma set_all_priorities: "set all_priorities = UNIV"
proof -
  have "p \<in> set all_priorities" for p by (cases p) (simp_all add: all_priorities_def)
  then show ?thesis by auto
qed

fun priority_display :: "job_priority \<Rightarrow> string" where
  "priority_display Background = ''background''"
| "priority_display Low = ''low''"
| "priority_display Normal = ''normal''"
| "priority_display High = ''high''"
| "priority_display Critical = ''critical''"

text \<open>\<open>str::to_lowercase\<close> on ASCII text.\<close>

definition ascii_lower :: "char \<Rightarrow> char" where
  "ascii_lower c =
     (let n = of_char c :: nat in if 65 \<le> n \<and> n \<le> 90 then char_of (n + 32) else c)"

definition priority_from_str :: "string \<Rightarrow> priority_error + job_priority" where
  "priority_from_str s =
     (let l = map ascii_lower s in
      if l = ''background'' \<or> l = ''bg'' then Inr Background
      else if l = ''low'' \<or> l = ''l'' then Inr Low
      else if l = ''normal'' \<or> l = ''n'' \<or> l = ''default'' then Inr Normal
      else if l = ''high'' \<or> l = ''h'' then Inr High
      else if l = ''critical'' \<or> l = ''crit'' \<or> l = ''c'' then Inr Critical
      else Inl (InvalidPriorityString s))"

subsection \<open>Weights\<close>

record priority_weights =
  pw_weights :: "(job_priority \<times> 32 word) list"
  pw_strict :: bool

definition weights_new :: priority_weights where
  "weights_new =
     \<lparr>pw_weights = [(Background, 1), (Low, 2), (Normal, 5), (High, 10), (Critical, 20)],
      pw_strict = False\<rparr>"

definition weights_strict :: priority_weights where
  "weights_strict = \<lparr>pw_weights = [], pw_strict = True\<rparr>"

definition with_weight :: "priority_weights \<Rightarrow> job_priority \<Rightarrow> 32 word \<Rightarrow> priority_weights" where
  "with_weight w p v = w\<lparr>pw_weights := AList.update p v (pw_weights w)\<rparr>"

definition with_weights ::
  "priority_weights \<Rightarrow> (job_priority \<times> 32 word) list \<Rightarrow> priority_weights" where
  "with_weights w ws = w\<lparr>pw_weights := fold (\<lambda>(p, v). AList.update p v) ws (pw_weights w)\<rparr>"

definition with_strict_priority :: "priority_weights \<Rightarrow> bool \<Rightarrow> priority_weights" where
  "with_strict_priority w b = w\<lparr>pw_strict := b\<rparr>"

definition get_weight :: "priority_weights \<Rightarrow> job_priority \<Rightarrow> 32 word" where
  "get_weight w p =
     (if pw_strict w then word_of_int (as_i32 p) else unwrap_or (map_of (pw_weights w) p) 1)"

definition saturating_add_u32 :: "32 word \<Rightarrow> 32 word \<Rightarrow> 32 word" where
  "saturating_add_u32 a b = (if unat a + unat b < 2 ^ 32 then a + b else - 1)"

definition total_weight :: "priority_weights \<Rightarrow> 32 word" where
  "total_weight w =
     (if pw_strict w then sum_list (map (\<lambda>p. word_of_int (as_i32 p)) all_priorities)
      else fold (\<lambda>v total. saturating_add_u32 total v) (values_of (pw_weights w)) 0)"

subsection \<open>Weighted selection\<close>

text \<open>
  The sum over the candidates is taken in \<open>u64\<close>; at most five distinct levels of \<open>u32\<close> weights
  never overflow it (\<open>total_of_bound\<close>), so it is a natural number.
\<close>

definition total_of :: "priority_weights \<Rightarrow> job_priority list \<Rightarrow> nat" where
  "total_of w cs = sum_list (map (\<lambda>p. unat (get_weight w p)) cs)"

fun pick_point :: "priority_weights \<Rightarrow> job_priority list \<Rightarrow> nat \<Rightarrow> job_priority option" where
  "pick_point w [] point = None"
| "pick_point w (p # ps) point =
     (let weight = unat (get_weight w p) in
      if point < weight then Some p else pick_point w ps (point - weight))"

definition pick_weighted_priority ::
  "job_priority list \<Rightarrow> priority_weights \<Rightarrow> nat \<Rightarrow> job_priority option" where
  "pick_weighted_priority cs w seed =
     (let total = total_of w cs in
      if total = 0 then max_by_key (\<lambda>p. p) cs
      else pick_point w cs (seed mod total))"

subsection \<open>Encodings\<close>

lemma from_i32_Inr: "from_i32 v = Inr p \<longleftrightarrow> v = as_i32 p"
  by (cases p) (auto simp: from_i32_def split: if_splits)

lemma priority_or_normal_as_i32 [simp]: "priority_or_normal (as_i32 p) = p"
  by (cases p) (simp_all add: priority_or_normal_def from_i32_def)

lemma priority_from_str_display [simp]: "priority_from_str (priority_display p) = Inr p"
  by (cases p) (simp_all add: priority_from_str_def ascii_lower_def Let_def)

interpretation priority_int: codec as_i32 "\<lambda>v. ok_of (from_i32 v)"
  by unfold_locales (simp add: from_i32_Inr [THEN iffD2, OF refl])

interpretation priority_text: codec priority_display "\<lambda>s. ok_of (priority_from_str s)"
  by unfold_locales simp

lemma get_weight_new [simp]: "get_weight weights_new p = default_weight p"
  by (cases p) (simp_all add: get_weight_def weights_new_def)

lemma get_weight_strict: "unat (get_weight weights_strict p) = nat (as_i32 p)"
  by (cases p) (simp_all add: get_weight_def weights_strict_def)

lemma get_weight_with_weight:
  "\<not> pw_strict w \<Longrightarrow> get_weight (with_weight w p v) q = (if q = p then v else get_weight w q)"
  by (simp add: get_weight_def with_weight_def)

subsection \<open>The selection\<close>

lemma total_of_simps [simp]:
  "total_of w [] = 0" "total_of w (p # ps) = unat (get_weight w p) + total_of w ps"
  by (simp_all add: total_of_def)

lemma total_of_le_length: "total_of w cs \<le> length cs * (2 ^ 32 - 1)"
proof (induction cs)
  case (Cons p cs)
  have "unat (get_weight w p) \<le> 2 ^ 32 - 1"
    using unsigned_less [of "get_weight w p", where 'a = nat] by simp
  with Cons show ?case by simp
qed simp

lemma distinct_priorities_length: "distinct (cs :: job_priority list) \<Longrightarrow> length cs \<le> 5"
proof -
  assume "distinct cs"
  then have "length cs = card (set cs)" by (simp add: distinct_card)
  also have "\<dots> \<le> card (set all_priorities)"
    by (rule card_mono [OF finite_set]) (simp add: set_all_priorities)
  also have "\<dots> \<le> 5" using card_length [of all_priorities] by (simp add: all_priorities_def)
  finally show ?thesis .
qed

lemma total_of_bound: "distinct cs \<Longrightarrow> total_of w cs < 2 ^ 64"
  using total_of_le_length [of w cs] distinct_priorities_length [of cs]
    mult_le_mono1 [of "length cs" 5 "2 ^ 32 - 1"] by simp

lemma pick_point_in: "pick_point w cs x = Some p \<Longrightarrow> p \<in> set cs \<and> 0 < unat (get_weight w p)"
  by (induction w cs x rule: pick_point.induct) (auto simp: Let_def split: if_splits)

lemma pick_point_total: "x < total_of w cs \<Longrightarrow> \<exists>p. pick_point w cs x = Some p"
  by (induction w cs x rule: pick_point.induct) (auto simp: Let_def)

lemma pick_in_candidates: "pick_weighted_priority cs w seed = Some p \<Longrightarrow> p \<in> set cs"
  by (auto simp: pick_weighted_priority_def Let_def
      dest: pick_point_in max_by_key_Some split: if_splits)

lemma pick_None_iff [simp]: "pick_weighted_priority cs w seed = None \<longleftrightarrow> cs = []"
proof (cases "total_of w cs = 0")
  case True
  then show ?thesis by (simp add: pick_weighted_priority_def)
next
  case False
  then have "seed mod total_of w cs < total_of w cs" by simp
  then obtain p where "pick_point w cs (seed mod total_of w cs) = Some p"
    using pick_point_total by blast
  with False show ?thesis by (auto simp: pick_weighted_priority_def)
qed

text \<open>The points of the weight line that select a level are exactly as many as its weight.\<close>

lemma pick_point_share:
  assumes "distinct cs" and "p \<in> set cs"
  shows "card {x. x < total_of w cs \<and> pick_point w cs x = Some p} = unat (get_weight w p)"
  using assms
proof (induction cs)
  case (Cons q cs)
  let ?W = "unat (get_weight w q)"
  let ?S = "{x. x < total_of w cs \<and> pick_point w cs x = Some p}"
  let ?T = "{x. x < total_of w (q # cs) \<and> pick_point w (q # cs) x = Some p}"
  show ?case
  proof (cases "p = q")
    case True
    with Cons.prems have "\<And>x. pick_point w cs x \<noteq> Some p" using pick_point_in by fastforce
    with True have "?T = {..<?W}" by (auto simp: Let_def)
    with True show ?thesis by simp
  next
    case False
    have "?T = (\<lambda>x. x + ?W) ` ?S"
    proof (rule set_eqI)
      fix x
      show "x \<in> ?T \<longleftrightarrow> x \<in> (\<lambda>x. x + ?W) ` ?S"
        using False
        by (cases "x < ?W") (auto simp: Let_def image_iff not_less intro!: exI [of _ "x - ?W"])
    qed
    then have "card ?T = card ?S" by (simp add: card_image)
    with Cons False show ?thesis by simp
  qed
qed simp

end
