(* ===== verification/Retry.thy ===== *)
theory Retry
  imports Prelude Complex_Main
begin

text \<open>
  Retry strategies: \<open>src/src/retry.rs\<close>. The delay before each retry (fixed, linear,
  exponential with jitter, Fibonacci, custom), the validation of a strategy, and the
  hand-written serde implementations of \<open>JitterType\<close> and \<open>RetryStrategy\<close>.

  A \<open>Duration\<close> is its nanoseconds. An \<open>f64\<close> is a rational or one of the special values (the
  sign of zero is not kept); the environment's rounding function gives the result of every
  operation from the exact one, so the theorems hold for every rounding. \<open>powi\<close>, whose precision
  the standard library leaves open, and the random numbers of the \<open>rand\<close> crate are parameters.
\<close>

subsection \<open>Floating point\<close>

datatype f64 = NaN | Inf | NegInf | Fin rat

record float_env =
  fl_round :: "rat \<Rightarrow> f64"
  fl_powi :: "f64 \<Rightarrow> int \<Rightarrow> f64"

fun is_finite :: "f64 \<Rightarrow> bool" where
  "is_finite (Fin x) = True"
| "is_finite _ = False"

text \<open>A comparison with NaN is false.\<close>

fun f64_le :: "f64 \<Rightarrow> f64 \<Rightarrow> bool" where
  "f64_le (Fin x) (Fin y) = (x \<le> y)"
| "f64_le NegInf y = (y \<noteq> NaN)"
| "f64_le x Inf = (x \<noteq> NaN)"
| "f64_le _ _ = False"

fun f64_lt :: "f64 \<Rightarrow> f64 \<Rightarrow> bool" where
  "f64_lt (Fin x) (Fin y) = (x < y)"
| "f64_lt NegInf y = (y \<noteq> NaN \<and> y \<noteq> NegInf)"
| "f64_lt x Inf = (x \<noteq> NaN \<and> x \<noteq> Inf)"
| "f64_lt _ _ = False"

definition f64_eq :: "f64 \<Rightarrow> f64 \<Rightarrow> bool" where
  "f64_eq x y \<longleftrightarrow> x = y \<and> x \<noteq> NaN"

definition f64_min :: "f64 \<Rightarrow> f64 \<Rightarrow> f64" where
  "f64_min x y = (if x = NaN then y else if y = NaN then x else if f64_le x y then x else y)"

fun f64_add :: "float_env \<Rightarrow> f64 \<Rightarrow> f64 \<Rightarrow> f64" where
  "f64_add F (Fin x) (Fin y) = fl_round F (x + y)"
| "f64_add F NaN y = NaN"
| "f64_add F x NaN = NaN"
| "f64_add F Inf NegInf = NaN"
| "f64_add F NegInf Inf = NaN"
| "f64_add F Inf y = Inf"
| "f64_add F NegInf y = NegInf"
| "f64_add F x Inf = Inf"
| "f64_add F x NegInf = NegInf"

fun f64_neg :: "f64 \<Rightarrow> f64" where
  "f64_neg (Fin x) = Fin (- x)"
| "f64_neg Inf = NegInf"
| "f64_neg NegInf = Inf"
| "f64_neg NaN = NaN"

definition f64_signed_inf :: "rat \<Rightarrow> f64" where
  "f64_signed_inf s = (if 0 < s then Inf else if s < 0 then NegInf else NaN)"

fun f64_mul :: "float_env \<Rightarrow> f64 \<Rightarrow> f64 \<Rightarrow> f64" where
  "f64_mul F (Fin x) (Fin y) = fl_round F (x * y)"
| "f64_mul F NaN y = NaN"
| "f64_mul F x NaN = NaN"
| "f64_mul F Inf (Fin y) = f64_signed_inf y"
| "f64_mul F NegInf (Fin y) = f64_signed_inf (- y)"
| "f64_mul F (Fin x) Inf = f64_signed_inf x"
| "f64_mul F (Fin x) NegInf = f64_signed_inf (- x)"
| "f64_mul F Inf Inf = Inf"
| "f64_mul F NegInf NegInf = Inf"
| "f64_mul F Inf NegInf = NegInf"
| "f64_mul F NegInf Inf = NegInf"

text \<open>Exact arithmetic, the instance the witnesses evaluate.\<close>

definition exact_floats :: float_env where
  "exact_floats =
     \<lparr>fl_round = Fin,
      fl_powi = (\<lambda>x n. case x of Fin r \<Rightarrow> if 0 \<le> n then Fin (r ^ nat n) else Fin (inverse r ^ nat (- n))
                       | Inf \<Rightarrow> if n = 0 then Fin 1 else Inf
                       | NegInf \<Rightarrow> if n = 0 then Fin 1 else if even n then Inf else NegInf
                       | NaN \<Rightarrow> if n = 0 then Fin 1 else NaN)\<rparr>"

subsection \<open>Durations\<close>

definition DURATION_MAX :: duration where
  "DURATION_MAX = (2 ^ 64 - 1) * 10 ^ 9 + 999999999"

definition from_millis :: "nat \<Rightarrow> duration" where
  "from_millis ms = ms * 10 ^ 6"

text \<open>\<open>d.as_millis() as u64\<close>.\<close>

definition millis_u64 :: "duration \<Rightarrow> nat" where
  "millis_u64 d = (d div 10 ^ 6) mod 2 ^ 64"

definition saturating_add :: "duration \<Rightarrow> duration \<Rightarrow> duration" where
  "saturating_add a b = min (a + b) DURATION_MAX"

definition checked_mul :: "duration \<Rightarrow> nat \<Rightarrow> duration option" where
  "checked_mul d n = (if d * n \<le> DURATION_MAX then Some (d * n) else None)"

text \<open>The seconds and the fraction are converted and added separately.\<close>

definition as_secs_f64 :: "float_env \<Rightarrow> duration \<Rightarrow> f64" where
  "as_secs_f64 F d =
     f64_add F (fl_round F (of_nat (d div 10 ^ 9))) (fl_round F (of_nat (d mod 10 ^ 9) / 10 ^ 9))"

definition round_half_even :: "rat \<Rightarrow> int" where
  "round_half_even x =
     (let f = \<lfloor>x\<rfloor>; r = x - of_int f in
      if r < 1 / 2 then f else if 1 / 2 < r then f + 1 else if even f then f else f + 1)"

text \<open>\<open>None\<close> for a negative, infinite or NaN argument, and past the largest duration.\<close>

definition try_from_secs_f64 :: "f64 \<Rightarrow> duration option" where
  "try_from_secs_f64 x =
     (case x of
        Fin s \<Rightarrow>
          if s < 0 then None
          else (let n = nat (round_half_even (s * 10 ^ 9)) in
                if n \<le> DURATION_MAX then Some n else None)
      | _ \<Rightarrow> None)"

subsection \<open>Helpers of the strategies\<close>

definition sanitize_multiplier :: "f64 \<Rightarrow> f64" where
  "sanitize_multiplier m = (if m = NaN \<or> f64_lt m (Fin 0) then Fin 1 else m)"

definition saturating_mul_f64 :: "float_env \<Rightarrow> duration \<Rightarrow> f64 \<Rightarrow> duration" where
  "saturating_mul_f64 F d factor =
     (if factor = NaN \<or> f64_le factor (Fin 0) then 0
      else unwrap_or (try_from_secs_f64 (f64_mul F (as_secs_f64 F d) factor)) DURATION_MAX)"

definition cap_delay :: "duration \<Rightarrow> duration option \<Rightarrow> duration" where
  "cap_delay d max_delay = (case max_delay of Some m \<Rightarrow> min d m | None \<Rightarrow> d)"

text \<open>\<open>n\<close> rounds of the loop over \<open>u64\<close> values that saturate.\<close>

fun fib_loop :: "nat \<Rightarrow> nat \<Rightarrow> nat \<Rightarrow> nat" where
  "fib_loop 0 prev cur = cur"
| "fib_loop (Suc n) prev cur = fib_loop n cur (min (prev + cur) (2 ^ 64 - 1))"

definition fibonacci :: "nat \<Rightarrow> nat" where
  "fibonacci n = (if n = 0 then 0 else if n \<le> 2 then 1 else fib_loop (n - 2) 1 1)"

subsection \<open>Jitter\<close>

datatype jitter_type = Additive duration | Multiplicative f64

text \<open>\<open>rng.gen_range(0..=n)\<close>, \<open>rng.gen_bool(0.5)\<close> and \<open>rng.gen_range(lo..=hi)\<close>.\<close>

record rng =
  gen_u64 :: "nat \<Rightarrow> nat"
  gen_bool :: bool
  gen_f64 :: "f64 \<Rightarrow> f64 \<Rightarrow> f64"

text \<open>What \<open>rand\<close> documents: a number drawn from a range lies in the range.\<close>

definition rng_laws :: "rng \<Rightarrow> bool" where
  "rng_laws R \<longleftrightarrow> (\<forall>n. gen_u64 R n \<le> n) \<and>
     (\<forall>lo hi. f64_le lo hi \<longrightarrow> f64_le lo (gen_f64 R lo hi) \<and> f64_le (gen_f64 R lo hi) hi)"

fun jitter_apply :: "float_env \<Rightarrow> rng \<Rightarrow> jitter_type \<Rightarrow> duration \<Rightarrow> duration" where
  "jitter_apply F R (Additive amount) d =
     (let jitter = from_millis (gen_u64 R (millis_u64 amount)) in
      if gen_bool R then saturating_add d jitter else d - jitter)"
| "jitter_apply F R (Multiplicative factor) d =
     (if \<not> is_finite factor \<or> f64_le factor (Fin 0) then d
      else
        (let f = f64_min factor (Fin 1) in
         saturating_mul_f64 F d
           (gen_f64 R (f64_add F (Fin 1) (f64_neg f)) (f64_add F (Fin 1) f))))"

subsection \<open>Strategies\<close>

text \<open>A custom strategy is a shared closure: its address and the function.\<close>

datatype retry_strategy =
    Fixed duration
  | Linear duration duration "duration option"
  | Exponential duration f64 "duration option" "jitter_type option"
  | Fibonacci duration "duration option"
  | Custom nat "nat \<Rightarrow> duration"

definition exponential_delay :: "float_env \<Rightarrow> duration \<Rightarrow> f64 \<Rightarrow> duration option \<Rightarrow> nat \<Rightarrow> duration" where
  "exponential_delay F base multiplier max_delay attempt =
     (let exponent = min (attempt - 1) (2 ^ 31 - 1);
          delay_multiplier = fl_powi F (sanitize_multiplier multiplier) (int exponent) in
      cap_delay (saturating_mul_f64 F base delay_multiplier) max_delay)"

fun base_delay :: "float_env \<Rightarrow> rng \<Rightarrow> retry_strategy \<Rightarrow> nat \<Rightarrow> duration" where
  "base_delay F R (Fixed d) attempt = d"
| "base_delay F R (Linear base increment max_delay) attempt =
     cap_delay (saturating_add base (unwrap_or (checked_mul increment (attempt - 1)) DURATION_MAX)) max_delay"
| "base_delay F R (Exponential base multiplier max_delay jitter) attempt =
     (let capped_delay = exponential_delay F base multiplier max_delay attempt in
      case jitter of
        Some j \<Rightarrow> max (jitter_apply F R j capped_delay) (from_millis 1)
      | None \<Rightarrow> capped_delay)"
| "base_delay F R (Fibonacci base max_delay) attempt =
     cap_delay (saturating_mul_f64 F base (fl_round F (of_nat (fibonacci attempt)))) max_delay"
| "base_delay F R (Custom a func) attempt = func attempt"

definition calculate_delay :: "float_env \<Rightarrow> rng \<Rightarrow> retry_strategy \<Rightarrow> nat \<Rightarrow> duration" where
  "calculate_delay F R s attempt = max (base_delay F R s attempt) (from_millis 1)"

text \<open>\<open>show_f64\<close> is how \<open>format!\<close> prints the number.\<close>

definition retry_validate :: "(f64 \<Rightarrow> string) \<Rightarrow> retry_strategy \<Rightarrow> unit res" where
  "retry_validate show_f64 s =
     (case s of
        Exponential base multiplier max_delay jitter \<Rightarrow>
          if \<not> is_finite multiplier \<or> f64_le multiplier (Fin 0) then
            Inl (WorkerError (''exponential retry multiplier must be finite and > 0, got ''
              @ show_f64 multiplier))
          else
            (case jitter of
               Some (Multiplicative factor) \<Rightarrow>
                 if \<not> is_finite factor \<or> \<not> (f64_le (Fin 0) factor \<and> f64_le factor (Fin 1)) then
                   Inl (WorkerError (''multiplicative jitter factor must be within 0.0..=1.0, got ''
                     @ show_f64 factor))
                 else Inr ()
             | _ \<Rightarrow> Inr ())
      | _ \<Rightarrow> Inr ())"

fun jitter_eq :: "jitter_type \<Rightarrow> jitter_type \<Rightarrow> bool" where
  "jitter_eq (Additive a) (Additive b) = (a = b)"
| "jitter_eq (Multiplicative x) (Multiplicative y) = f64_eq x y"
| "jitter_eq _ _ = False"

fun retry_eq :: "retry_strategy \<Rightarrow> retry_strategy \<Rightarrow> bool" where
  "retry_eq (Fixed a) (Fixed b) = (a = b)"
| "retry_eq (Linear b i m) (Linear b' i' m') = (b = b' \<and> i = i' \<and> m = m')"
| "retry_eq (Exponential b x m j) (Exponential b' x' m' j') =
     (b = b' \<and> f64_eq x x' \<and> m = m' \<and>
      (case (j, j') of (Some k, Some k') \<Rightarrow> jitter_eq k k' | (None, None) \<Rightarrow> True | _ \<Rightarrow> False))"
| "retry_eq (Fibonacci b m) (Fibonacci b' m') = (b = b' \<and> m = m')"
| "retry_eq (Custom a f) (Custom b g) = (a = b)"
| "retry_eq _ _ = False"

subsection \<open>Serialization\<close>

text \<open>
  The values of serde's data model that the implementations write and read; a format that keeps
  them is between the two. A struct is the sequence of its fields.
\<close>

datatype serde_value =
    SvStr string
  | SvU64 nat
  | SvF64 f64
  | SvNone
  | SvStruct "(string \<times> serde_value) list"

datatype serde_error =
    DuplicateField string
  | MissingField string
  | UnknownVariant string "string list"
  | InvalidType
  | SerCustom string

fun jitter_serialize :: "jitter_type \<Rightarrow> serde_value" where
  "jitter_serialize (Additive d) =
     SvStruct [(''type'', SvStr ''Additive''), (''duration_ms'', SvU64 (millis_u64 d))]"
| "jitter_serialize (Multiplicative factor) =
     SvStruct [(''type'', SvStr ''Multiplicative''), (''factor'', SvF64 factor)]"

definition ser_option :: "('a \<Rightarrow> serde_value) \<Rightarrow> 'a option \<Rightarrow> serde_value" where
  "ser_option f x = (case x of None \<Rightarrow> SvNone | Some y \<Rightarrow> f y)"

fun retry_serialize :: "retry_strategy \<Rightarrow> serde_error + serde_value" where
  "retry_serialize (Fixed d) =
     Inr (SvStruct [(''type'', SvStr ''Fixed''), (''duration_ms'', SvU64 (millis_u64 d))])"
| "retry_serialize (Linear base increment max_delay) =
     Inr (SvStruct [(''type'', SvStr ''Linear''), (''base_ms'', SvU64 (millis_u64 base)),
       (''increment_ms'', SvU64 (millis_u64 increment)),
       (''max_delay_ms'', ser_option (\<lambda>d. SvU64 (millis_u64 d)) max_delay)])"
| "retry_serialize (Exponential base multiplier max_delay jitter) =
     Inr (SvStruct [(''type'', SvStr ''Exponential''), (''base_ms'', SvU64 (millis_u64 base)),
       (''multiplier'', SvF64 multiplier),
       (''max_delay_ms'', ser_option (\<lambda>d. SvU64 (millis_u64 d)) max_delay),
       (''jitter'', ser_option jitter_serialize jitter)])"
| "retry_serialize (Fibonacci base max_delay) =
     Inr (SvStruct [(''type'', SvStr ''Fibonacci''), (''base_ms'', SvU64 (millis_u64 base)),
       (''max_delay_ms'', ser_option (\<lambda>d. SvU64 (millis_u64 d)) max_delay)])"
| "retry_serialize (Custom a f) =
     Inl (SerCustom ''Cannot serialize custom retry strategy functions'')"

text \<open>\<open>map.next_value()\<close> at the types the visitors ask for. A number field also accepts an integer.\<close>

fun de_str :: "serde_value \<Rightarrow> serde_error + string" where
  "de_str (SvStr s) = Inr s"
| "de_str _ = Inl InvalidType"

fun de_u64 :: "serde_value \<Rightarrow> serde_error + nat" where
  "de_u64 (SvU64 n) = Inr n"
| "de_u64 _ = Inl InvalidType"

fun de_f64 :: "float_env \<Rightarrow> serde_value \<Rightarrow> serde_error + f64" where
  "de_f64 F (SvF64 x) = Inr x"
| "de_f64 F (SvU64 n) = Inr (fl_round F (of_nat n))"
| "de_f64 F _ = Inl InvalidType"

definition de_option :: "(serde_value \<Rightarrow> serde_error + 'a) \<Rightarrow> serde_value \<Rightarrow> serde_error + 'a option" where
  "de_option f v = (if v = SvNone then Inr None else map_sum (\<lambda>e. e) Some (f v))"

text \<open>One arm of a visitor's loop: a field seen twice is an error.\<close>

definition set_field :: "string \<Rightarrow> 'a option \<Rightarrow> serde_error + 'a \<Rightarrow> ('a \<Rightarrow> serde_error + 'c) \<Rightarrow> serde_error + 'c" where
  "set_field name seen read k =
     (if seen \<noteq> None then Inl (DuplicateField name)
      else case read of Inl e \<Rightarrow> Inl e | Inr x \<Rightarrow> k x)"

definition required :: "string \<Rightarrow> 'a option \<Rightarrow> ('a \<Rightarrow> serde_error + 'c) \<Rightarrow> serde_error + 'c" where
  "required name field k = (case field of None \<Rightarrow> Inl (MissingField name) | Some x \<Rightarrow> k x)"

record jitter_fields =
  jf_type :: "string option"
  jf_duration_ms :: "nat option"
  jf_factor :: "f64 option"

fun jitter_visit :: "float_env \<Rightarrow> (string \<times> serde_value) list \<Rightarrow> jitter_fields \<Rightarrow> serde_error + jitter_fields" where
  "jitter_visit F [] a = Inr a"
| "jitter_visit F ((key, v) # m) a =
     (if key = ''type'' then
        set_field key (jf_type a) (de_str v) (\<lambda>x. jitter_visit F m (a\<lparr>jf_type := Some x\<rparr>))
      else if key = ''duration_ms'' then
        set_field key (jf_duration_ms a) (de_u64 v) (\<lambda>x. jitter_visit F m (a\<lparr>jf_duration_ms := Some x\<rparr>))
      else if key = ''factor'' then
        set_field key (jf_factor a) (de_f64 F v) (\<lambda>x. jitter_visit F m (a\<lparr>jf_factor := Some x\<rparr>))
      else jitter_visit F m a)"

definition jitter_of_fields :: "jitter_fields \<Rightarrow> serde_error + jitter_type" where
  "jitter_of_fields a =
     required ''type'' (jf_type a) (\<lambda>t.
       if t = ''Additive'' then
         required ''duration_ms'' (jf_duration_ms a) (\<lambda>d. Inr (Additive (from_millis d)))
       else if t = ''Multiplicative'' then
         required ''factor'' (jf_factor a) (\<lambda>f. Inr (Multiplicative f))
       else Inl (UnknownVariant t [''Additive'', ''Multiplicative'']))"

definition jitter_deserialize :: "float_env \<Rightarrow> serde_value \<Rightarrow> serde_error + jitter_type" where
  "jitter_deserialize F v =
     (case v of
        SvStruct m \<Rightarrow>
          (case jitter_visit F m \<lparr>jf_type = None, jf_duration_ms = None, jf_factor = None\<rparr> of
             Inl e \<Rightarrow> Inl e
           | Inr a \<Rightarrow> jitter_of_fields a)
      | _ \<Rightarrow> Inl InvalidType)"

record strategy_fields =
  sf_type :: "string option"
  sf_duration_ms :: "nat option"
  sf_base_ms :: "nat option"
  sf_increment_ms :: "nat option"
  sf_max_delay_ms :: "nat option option"
  sf_multiplier :: "f64 option"
  sf_jitter :: "jitter_type option option"

definition strategy_fields_new :: strategy_fields where
  "strategy_fields_new =
     \<lparr>sf_type = None, sf_duration_ms = None, sf_base_ms = None, sf_increment_ms = None,
      sf_max_delay_ms = None, sf_multiplier = None, sf_jitter = None\<rparr>"

fun strategy_visit ::
  "float_env \<Rightarrow> (string \<times> serde_value) list \<Rightarrow> strategy_fields \<Rightarrow> serde_error + strategy_fields" where
  "strategy_visit F [] a = Inr a"
| "strategy_visit F ((key, v) # m) a =
     (if key = ''type'' then
        set_field key (sf_type a) (de_str v) (\<lambda>x. strategy_visit F m (a\<lparr>sf_type := Some x\<rparr>))
      else if key = ''duration_ms'' then
        set_field key (sf_duration_ms a) (de_u64 v) (\<lambda>x. strategy_visit F m (a\<lparr>sf_duration_ms := Some x\<rparr>))
      else if key = ''base_ms'' then
        set_field key (sf_base_ms a) (de_u64 v) (\<lambda>x. strategy_visit F m (a\<lparr>sf_base_ms := Some x\<rparr>))
      else if key = ''increment_ms'' then
        set_field key (sf_increment_ms a) (de_u64 v) (\<lambda>x. strategy_visit F m (a\<lparr>sf_increment_ms := Some x\<rparr>))
      else if key = ''max_delay_ms'' then
        set_field key (sf_max_delay_ms a) (de_option de_u64 v)
          (\<lambda>x. strategy_visit F m (a\<lparr>sf_max_delay_ms := Some x\<rparr>))
      else if key = ''multiplier'' then
        set_field key (sf_multiplier a) (de_f64 F v) (\<lambda>x. strategy_visit F m (a\<lparr>sf_multiplier := Some x\<rparr>))
      else if key = ''jitter'' then
        set_field key (sf_jitter a) (de_option (jitter_deserialize F) v)
          (\<lambda>x. strategy_visit F m (a\<lparr>sf_jitter := Some x\<rparr>))
      else strategy_visit F m a)"

definition opt_flatten :: "'a option option \<Rightarrow> 'a option" where
  "opt_flatten x = (case x of Some y \<Rightarrow> y | None \<Rightarrow> None)"

definition strategy_of_fields :: "strategy_fields \<Rightarrow> serde_error + retry_strategy" where
  "strategy_of_fields a =
     required ''type'' (sf_type a) (\<lambda>t.
       let max_delay = map_option from_millis (opt_flatten (sf_max_delay_ms a)) in
       if t = ''Fixed'' then
         required ''duration_ms'' (sf_duration_ms a) (\<lambda>d. Inr (Fixed (from_millis d)))
       else if t = ''Linear'' then
         required ''base_ms'' (sf_base_ms a) (\<lambda>b.
         required ''increment_ms'' (sf_increment_ms a) (\<lambda>i.
           Inr (Linear (from_millis b) (from_millis i) max_delay)))
       else if t = ''Exponential'' then
         required ''base_ms'' (sf_base_ms a) (\<lambda>b.
         required ''multiplier'' (sf_multiplier a) (\<lambda>x.
           Inr (Exponential (from_millis b) x max_delay (unwrap_or (sf_jitter a) None))))
       else if t = ''Fibonacci'' then
         required ''base_ms'' (sf_base_ms a) (\<lambda>b. Inr (Fibonacci (from_millis b) max_delay))
       else Inl (UnknownVariant t [''Fixed'', ''Linear'', ''Exponential'', ''Fibonacci'']))"

definition retry_deserialize :: "float_env \<Rightarrow> serde_value \<Rightarrow> serde_error + retry_strategy" where
  "retry_deserialize F v =
     (case v of
        SvStruct m \<Rightarrow>
          (case strategy_visit F m strategy_fields_new of
             Inl e \<Rightarrow> Inl e
           | Inr a \<Rightarrow> strategy_of_fields a)
      | _ \<Rightarrow> Inl InvalidType)"

subsection \<open>Delays\<close>

lemma cap_delay_le: "cap_delay d (Some m) \<le> m"
  by (simp add: cap_delay_def)

lemma cap_delay_mono: "d \<le> e \<Longrightarrow> cap_delay d m \<le> cap_delay e m"
  by (auto simp: cap_delay_def min_def split: option.split)

lemma try_from_secs_f64_max: "try_from_secs_f64 x = Some d \<Longrightarrow> d \<le> DURATION_MAX"
  by (auto simp: try_from_secs_f64_def Let_def split: f64.splits if_splits)

lemma saturating_mul_f64_max: "saturating_mul_f64 F d x \<le> DURATION_MAX"
  by (cases "try_from_secs_f64 (f64_mul F (as_secs_f64 F d) x)")
    (auto simp: saturating_mul_f64_def dest: try_from_secs_f64_max)

lemma saturating_add_max: "saturating_add a b \<le> DURATION_MAX"
  by (simp add: saturating_add_def)

lemma checked_mul_sat: "unwrap_or (checked_mul d n) DURATION_MAX = min (d * n) DURATION_MAX"
  by (auto simp: checked_mul_def)

text \<open>The reference sequence.\<close>

fun fib :: "nat \<Rightarrow> nat" where
  "fib 0 = 0"
| "fib (Suc 0) = 1"
| "fib (Suc (Suc n)) = fib n + fib (Suc n)"

lemma fib_loop_sat:
  "fib_loop n (min (fib k) (2 ^ 64 - 1)) (min (fib (Suc k)) (2 ^ 64 - 1)) = min (fib (Suc k + n)) (2 ^ 64 - 1)"
proof (induction n arbitrary: k)
  case (Suc n)
  have "min (min (fib k) (2 ^ 64 - 1) + min (fib (Suc k)) (2 ^ 64 - 1)) (2 ^ 64 - 1) =
    min (fib (Suc (Suc k))) (2 ^ 64 - 1)"
    by (simp add: min_def)
  with Suc.IH [of "Suc k"] show ?case by simp
qed simp

lemma fibonacci_sat: "fibonacci n = min (fib n) (2 ^ 64 - 1)"
proof -
  consider "n = 0" | "n = Suc 0" | k where "n = Suc (Suc k)" by (metis nat.exhaust)
  then show ?thesis
  proof cases
    case 3
    then show ?thesis using fib_loop_sat [of k 1] by (cases k) (simp_all add: fibonacci_def)
  qed (simp_all add: fibonacci_def)
qed

lemma fib_mono: "fib n \<le> fib (Suc n)"
  by (induction n rule: fib.induct) auto

lemma fib_mono_le: "m \<le> n \<Longrightarrow> fib m \<le> fib n"
  by (rule lift_Suc_mono_le [of fib]) (rule fib_mono)

text \<open>
  What is assumed of the arithmetic where a theorem compares two delays: rounding is monotone,
  keeps the sign and never makes a NaN, and a power of a multiplier of at least one does not
  shrink as the exponent grows.
\<close>

definition float_laws :: "float_env \<Rightarrow> bool" where
  "float_laws F \<longleftrightarrow>
     (\<forall>x y. x \<le> y \<longrightarrow> f64_le (fl_round F x) (fl_round F y)) \<and>
     (\<forall>x. 0 \<le> x \<longrightarrow> f64_le (Fin 0) (fl_round F x)) \<and>
     (\<forall>x m n. f64_le (Fin 1) x \<longrightarrow> 0 \<le> m \<longrightarrow> m \<le> n \<longrightarrow> f64_le (fl_powi F x m) (fl_powi F x n))"

lemma exact_floats_laws: "float_laws exact_floats"
proof -
  have "f64_le (fl_powi exact_floats x m) (fl_powi exact_floats x n)"
    if "f64_le (Fin 1) x" "0 \<le> m" "m \<le> n" for x m n
    using that by (cases x) (auto simp: exact_floats_def power_increasing)
  then show ?thesis by (simp add: float_laws_def exact_floats_def)
qed

lemma round_half_even_near:
  "of_int (round_half_even z) \<le> z + 1 / 2" "z - 1 / 2 \<le> of_int (round_half_even z)"
  unfolding round_half_even_def Let_def using floor_correct [of z]
  by (simp_all, linarith+)

lemma round_half_even_mono: "x \<le> y \<Longrightarrow> round_half_even x \<le> round_half_even y"
proof -
  assume le: "x \<le> y"
  show ?thesis
  proof (cases "\<lfloor>x\<rfloor> = \<lfloor>y\<rfloor>")
    case True
    with le show ?thesis by (auto simp: round_half_even_def Let_def)
  next
    case False
    with floor_mono [OF le] have "\<lfloor>x\<rfloor> + 1 \<le> \<lfloor>y\<rfloor>" by linarith
    moreover have "round_half_even x \<le> \<lfloor>x\<rfloor> + 1" "\<lfloor>y\<rfloor> \<le> round_half_even y"
      by (simp_all add: round_half_even_def Let_def)
    ultimately show ?thesis by linarith
  qed
qed

definition secs_or_max :: "f64 \<Rightarrow> duration" where
  "secs_or_max x = unwrap_or (try_from_secs_f64 x) DURATION_MAX"

lemma secs_or_max_mono:
  assumes "f64_le (Fin 0) x" and "f64_le x y"
  shows "secs_or_max x \<le> secs_or_max y"
proof (cases x; cases y)
  fix a b
  assume "x = Fin a" "y = Fin b"
  with assms have ab: "0 \<le> a" "a \<le> b" by auto
  then have "nat (round_half_even (a * 10 ^ 9)) \<le> nat (round_half_even (b * 10 ^ 9))"
    by (intro nat_mono round_half_even_mono) simp
  with ab show ?thesis
    by (auto simp: secs_or_max_def try_from_secs_f64_def Let_def \<open>x = Fin a\<close> \<open>y = Fin b\<close>)
qed (use assms in \<open>auto simp: secs_or_max_def try_from_secs_f64_def Let_def\<close>)

lemma as_secs_f64_nonneg:
  assumes "float_laws F"
  shows "f64_le (Fin 0) (as_secs_f64 F d)"
proof -
  have r: "f64_le (Fin 0) (fl_round F x)" if "0 \<le> x" for x using assms that by (simp add: float_laws_def)
  have "f64_le (Fin 0) (f64_add F u v)" if "f64_le (Fin 0) u" "f64_le (Fin 0) v" for u v
    using that by (cases u; cases v) (auto intro!: r)
  then show ?thesis by (simp add: as_secs_f64_def r)
qed

lemma saturating_mul_f64_mono:
  assumes F: "float_laws F" and le: "f64_le x y"
  shows "saturating_mul_f64 F d x \<le> saturating_mul_f64 F d y"
proof (cases "x = NaN \<or> f64_le x (Fin 0)")
  case False
  let ?s = "as_secs_f64 F d"
  note x = False
  from x le have y: "\<not> (y = NaN \<or> f64_le y (Fin 0))" by (cases x; cases y) auto
  have m: "saturating_mul_f64 F d z = secs_or_max (f64_mul F ?s z)" if "z = x \<or> z = y" for z
    using that x y by (auto simp: saturating_mul_f64_def secs_or_max_def)
  have top: "secs_or_max z = DURATION_MAX" if "\<not> is_finite z" for z
    using that by (cases z) (simp_all add: secs_or_max_def try_from_secs_f64_def)
  have bound: "secs_or_max z \<le> DURATION_MAX" for z
    by (cases "try_from_secs_f64 z") (auto simp: secs_or_max_def dest: try_from_secs_f64_max)
  show ?thesis
  proof (cases "\<exists>s a b. ?s = Fin s \<and> x = Fin a \<and> y = Fin b")
    case True
    then obtain s a b where eq: "?s = Fin s" "x = Fin a" "y = Fin b" by blast
    have s: "0 \<le> s" using as_secs_f64_nonneg [OF F, of d] eq by simp
    have a: "0 < a" "a \<le> b" using x le eq by auto
    have "f64_le (fl_round F (s * a)) (fl_round F (s * b))" "f64_le (Fin 0) (fl_round F (s * a))"
      using F s a by (auto simp: float_laws_def mult_left_mono)
    then show ?thesis using eq by (simp add: m secs_or_max_mono)
  next
    case False
    have "\<not> is_finite (f64_mul F ?s y)"
      using False as_secs_f64_nonneg [OF F, of d] le x y
      by (cases ?s; cases y; cases x) (auto simp: f64_signed_inf_def)
    then show ?thesis by (simp add: m top bound)
  qed
qed (simp add: saturating_mul_f64_def)

subsection \<open>The delay contract\<close>

text \<open>The largest delay a strategy may ask for, before the minimum of one millisecond.\<close>

fun delay_limit :: "retry_strategy \<Rightarrow> duration" where
  "delay_limit (Fixed d) = d"
| "delay_limit (Linear b i m) = unwrap_or m DURATION_MAX"
| "delay_limit (Exponential b x m None) = unwrap_or m DURATION_MAX"
| "delay_limit (Exponential b x m (Some (Additive a))) =
     min (unwrap_or m DURATION_MAX + from_millis (millis_u64 a)) DURATION_MAX"
| "delay_limit (Exponential b x m (Some (Multiplicative f))) = DURATION_MAX"
| "delay_limit (Fibonacci b m) = unwrap_or m DURATION_MAX"
| "delay_limit (Custom a f) = DURATION_MAX"

definition representable_delays :: "retry_strategy \<Rightarrow> bool" where
  "representable_delays s \<longleftrightarrow>
     (case s of Fixed d \<Rightarrow> d \<le> DURATION_MAX | Custom a f \<Rightarrow> \<forall>n. f n \<le> DURATION_MAX
      | Linear b i m \<Rightarrow> unwrap_or m 0 \<le> DURATION_MAX | Exponential b x m j \<Rightarrow> unwrap_or m 0 \<le> DURATION_MAX
      | Fibonacci b m \<Rightarrow> unwrap_or m 0 \<le> DURATION_MAX)"

lemma cap_delay_limit: "d \<le> DURATION_MAX \<Longrightarrow> cap_delay d m \<le> unwrap_or m DURATION_MAX"
  by (cases m) (simp_all add: cap_delay_def)

lemma cap_delay_max: "d \<le> DURATION_MAX \<Longrightarrow> cap_delay d m \<le> DURATION_MAX"
  by (cases m) (auto simp: cap_delay_def min_def)

lemma exponential_delay_limit:
  "exponential_delay F b x m n \<le> unwrap_or m DURATION_MAX" "exponential_delay F b x m n \<le> DURATION_MAX"
  by (simp_all add: exponential_delay_def Let_def cap_delay_limit cap_delay_max saturating_mul_f64_max)

lemma millisecond_le_max: "from_millis 1 \<le> DURATION_MAX"
  by (simp add: from_millis_def DURATION_MAX_def)

lemma additive_jitter_bounds:
  assumes "rng_laws R" and "d \<le> DURATION_MAX"
  shows "jitter_apply F R (Additive a) d \<le> min (d + from_millis (millis_u64 a)) DURATION_MAX"
    and "d - from_millis (millis_u64 a) \<le> jitter_apply F R (Additive a) d"
proof -
  have "gen_u64 R (millis_u64 a) \<le> millis_u64 a" using assms(1) by (simp add: rng_laws_def)
  then have "from_millis (gen_u64 R (millis_u64 a)) \<le> from_millis (millis_u64 a)" by (simp add: from_millis_def)
  with assms(2) show "jitter_apply F R (Additive a) d \<le> min (d + from_millis (millis_u64 a)) DURATION_MAX"
    "d - from_millis (millis_u64 a) \<le> jitter_apply F R (Additive a) d"
    by (auto simp: Let_def saturating_add_def)
qed

lemma jitter_apply_max: "d \<le> DURATION_MAX \<Longrightarrow> jitter_apply F R j d \<le> DURATION_MAX"
  by (cases j) (auto simp: Let_def saturating_add_max saturating_mul_f64_max)

lemma exponential_jitter_limit:
  assumes "rng_laws R"
  shows "jitter_apply F R j (exponential_delay F b x m n) \<le> delay_limit (Exponential b x m (Some j))"
proof (cases j)
  case (Additive a)
  note lim = exponential_delay_limit [of F b x m n]
  have "min (exponential_delay F b x m n + from_millis (millis_u64 a)) DURATION_MAX \<le>
    delay_limit (Exponential b x m (Some (Additive a)))"
    using lim(1) by simp
  with additive_jitter_bounds(1) [OF assms lim(2), of F a] show ?thesis
    unfolding Additive by (rule order_trans)
next
  case (Multiplicative f)
  then show ?thesis using jitter_apply_max [OF exponential_delay_limit(2), of F R j] by simp
qed

text \<open>
  Every delay is at least one millisecond and at most the limit of its strategy: the
  configured maximum, extended by no more than the additive jitter, whatever the attempt number,
  the multiplier (NaN and infinite ones included) and the rounding of the arithmetic.
\<close>

theorem calculate_delay_bounds:
  assumes "rng_laws R" and "representable_delays s"
  shows "from_millis 1 \<le> calculate_delay F R s attempt \<and>
    calculate_delay F R s attempt \<le> max (delay_limit s) (from_millis 1)"
proof -
  have "base_delay F R s attempt \<le> max (delay_limit s) (from_millis 1)"
  proof (cases s)
    case (Exponential b x m j)
    show ?thesis
    proof (cases j)
      case None
      then show ?thesis using exponential_delay_limit(1) by (simp add: Exponential le_max_iff_disj)
    next
      case (Some k)
      have "max (jitter_apply F R k (exponential_delay F b x m attempt)) (from_millis 1) \<le>
          max (delay_limit (Exponential b x m (Some k))) (from_millis 1)"
        by (intro max.mono exponential_jitter_limit [OF assms(1)] order_refl)
      then show ?thesis unfolding Exponential Some base_delay.simps Let_def option.case .
    qed
  qed (use assms(2) in \<open>auto simp: representable_delays_def cap_delay_limit saturating_add_max
        saturating_mul_f64_max le_max_iff_disj\<close>)
  then show ?thesis by (simp add: calculate_delay_def)
qed

definition sample_rng :: rng where
  "sample_rng = \<lparr>gen_u64 = (\<lambda>n. n), gen_bool = True, gen_f64 = (\<lambda>lo hi. hi)\<rparr>"

lemma f64_le_refl: "x \<noteq> NaN \<Longrightarrow> f64_le x x"
  by (cases x) simp_all

lemma sample_rng_laws: "rng_laws sample_rng"
proof -
  have "hi \<noteq> NaN" if "f64_le lo hi" for lo hi using that by (cases lo; cases hi) auto
  then show ?thesis by (auto simp: rng_laws_def sample_rng_def f64_le_refl)
qed

lemma calculate_delay_bounds_witness:
  "let d = calculate_delay exact_floats sample_rng
         (Exponential (from_millis 100) (Fin 2) (Some (from_millis 1000)) (Some (Additive (from_millis 50)))) 4 in
   d = from_millis 850 \<and> from_millis 1 \<le> d \<and> d \<le> from_millis 1050"
proof -
  let ?s = "Exponential (from_millis 100) (Fin 2) (Some (from_millis 1000)) (Some (Additive (from_millis 50)))"
  have "representable_delays ?s" by (simp add: representable_delays_def from_millis_def DURATION_MAX_def)
  from calculate_delay_bounds [OF sample_rng_laws this, of exact_floats 4]
  have "from_millis 1 \<le> calculate_delay exact_floats sample_rng ?s 4 \<and>
    calculate_delay exact_floats sample_rng ?s 4 \<le> from_millis 1050"
    by (simp add: from_millis_def millis_u64_def DURATION_MAX_def)
  moreover have "calculate_delay exact_floats sample_rng ?s 4 = from_millis 850"
    by (simp add: calculate_delay_def from_millis_def exponential_delay_def saturating_mul_f64_def
        as_secs_f64_def exact_floats_def sanitize_multiplier_def cap_delay_def try_from_secs_f64_def
        round_half_even_def DURATION_MAX_def millis_u64_def sample_rng_def saturating_add_def Let_def)
  ultimately show ?thesis by simp
qed

text \<open>
  The iterative Fibonacci loop over saturating 64-bit values computes the Fibonacci number
  of the recursive definition, capped at the largest value.
\<close>

theorem fibonacci_equiv: "fibonacci n = min (fib n) (2 ^ 64 - 1)"
  by (rule fibonacci_sat)

subsection \<open>Growth\<close>

fun growing :: "retry_strategy \<Rightarrow> bool" where
  "growing (Fixed d) = True"
| "growing (Linear b i m) = True"
| "growing (Exponential b x m j) = (f64_le (Fin 1) x \<and> j = None)"
| "growing (Fibonacci b m) = True"
| "growing (Custom a f) = False"

lemma sanitize_multiplier_ge_1: "f64_le (Fin 1) x \<Longrightarrow> sanitize_multiplier x = x"
  by (cases x) (auto simp: sanitize_multiplier_def)

lemma exponential_delay_mono:
  assumes F: "float_laws F" and x: "f64_le (Fin 1) x" and "k \<le> n"
  shows "exponential_delay F b x m k \<le> exponential_delay F b x m n"
proof -
  have "f64_le (fl_powi F x (int (min (k - 1) (2 ^ 31 - 1)))) (fl_powi F x (int (min (n - 1) (2 ^ 31 - 1))))"
    using F x assms(3) unfolding float_laws_def by auto
  then show ?thesis
    by (simp add: exponential_delay_def Let_def sanitize_multiplier_ge_1 [OF x] cap_delay_mono
        saturating_mul_f64_mono [OF F])
qed

lemma fibonacci_mono: "k \<le> n \<Longrightarrow> fibonacci k \<le> fibonacci n"
  using fib_mono_le [of k n] by (simp add: fibonacci_sat min_def)

text \<open>
  Back-off never shrinks: for a fixed, linear or Fibonacci strategy, and an exponential one
  with a multiplier of at least one and no jitter, a later attempt waits at least as long as an
  earlier one, saturation and caps included; a linear one waits exactly the base plus one
  increment per earlier attempt, up to its maximum.
\<close>

theorem delays_grow:
  assumes "float_laws F" and "growing s" and "k \<le> n"
  shows "calculate_delay F R s k \<le> calculate_delay F R s n \<and>
    calculate_delay F R (Linear b i (Some m)) (Suc n) =
      max (min (min (b + min (i * n) DURATION_MAX) DURATION_MAX) m) (from_millis 1)"
proof -
  have "base_delay F R s k \<le> base_delay F R s n"
  proof (cases s)
    case (Linear b i m)
    have "min (i * (k - 1)) DURATION_MAX \<le> min (i * (n - 1)) DURATION_MAX"
      using assms(3) by (intro min.mono mult_le_mono2) simp_all
    then show ?thesis
      by (auto simp: Linear checked_mul_sat saturating_add_def intro!: cap_delay_mono min.mono)
  next
    case (Exponential b x m j)
    then show ?thesis using assms by (simp add: exponential_delay_mono)
  next
    case (Fibonacci b m)
    have "f64_le (fl_round F (of_nat (fibonacci k))) (fl_round F (of_nat (fibonacci n)))"
      using assms(1) fibonacci_mono [OF assms(3)] by (simp add: float_laws_def)
    then show ?thesis by (simp add: Fibonacci cap_delay_mono saturating_mul_f64_mono [OF assms(1)])
  qed (use assms(2) in simp_all)
  then show ?thesis
    by (auto simp: calculate_delay_def checked_mul_sat saturating_add_def cap_delay_def max_def)
qed

lemma delays_grow_witness:
  "calculate_delay exact_floats sample_rng (Fibonacci (from_millis 10) None) 5 \<le>
     calculate_delay exact_floats sample_rng (Fibonacci (from_millis 10) None) 9 \<and>
   calculate_delay exact_floats sample_rng (Linear (from_millis 10) (from_millis 5) (Some (from_millis 50))) (Suc 9) =
     from_millis 50"
  using delays_grow [OF exact_floats_laws, of "Fibonacci (from_millis 10) None" 5 9 sample_rng
      "from_millis 10" "from_millis 5" "from_millis 50"]
  by (simp add: from_millis_def DURATION_MAX_def)

subsection \<open>Round trips\<close>

text \<open>What the serialized form keeps: whole milliseconds, modulo \<open>2 ^ 64\<close>.\<close>

definition to_millis :: "duration \<Rightarrow> duration" where
  "to_millis d = from_millis (millis_u64 d)"

definition whole_millis :: "duration \<Rightarrow> bool" where
  "whole_millis d \<longleftrightarrow> d mod 10 ^ 6 = 0 \<and> d div 10 ^ 6 < 2 ^ 64"

fun jitter_to_millis :: "jitter_type \<Rightarrow> jitter_type" where
  "jitter_to_millis (Additive d) = Additive (to_millis d)"
| "jitter_to_millis (Multiplicative x) = Multiplicative x"

fun strategy_to_millis :: "retry_strategy \<Rightarrow> retry_strategy" where
  "strategy_to_millis (Fixed d) = Fixed (to_millis d)"
| "strategy_to_millis (Linear b i m) = Linear (to_millis b) (to_millis i) (map_option to_millis m)"
| "strategy_to_millis (Exponential b x m j) =
     Exponential (to_millis b) x (map_option to_millis m) (map_option jitter_to_millis j)"
| "strategy_to_millis (Fibonacci b m) = Fibonacci (to_millis b) (map_option to_millis m)"
| "strategy_to_millis (Custom a f) = Custom a f"

lemma to_millis_iff: "to_millis d = d \<longleftrightarrow> whole_millis d"
proof
  assume eq: "to_millis d = d"
  then have "d mod 10 ^ 6 = 0" by (metis to_millis_def from_millis_def mod_mult_self2_is_0)
  moreover have "d div 10 ^ 6 < 2 ^ 64"
    by (metis eq to_millis_def from_millis_def millis_u64_def nonzero_mult_div_cancel_right
        mod_less_divisor zero_less_power zero_less_numeral power_eq_0_iff zero_neq_numeral)
  ultimately show "whole_millis d" by (simp add: whole_millis_def)
next
  assume "whole_millis d"
  then show "to_millis d = d"
    by (auto simp: to_millis_def from_millis_def millis_u64_def whole_millis_def)
qed

lemma set_field_simps [simp]:
  "set_field n None (Inr x) k = k x" "set_field n None (Inl e) k = Inl e"
  "set_field n (Some y) r k = Inl (DuplicateField n)"
  by (simp_all add: set_field_def)

lemma required_simps [simp]:
  "required n (Some x) k = k x" "required n None k = Inl (MissingField n)"
  by (simp_all add: required_def)

lemma de_option_ser [simp]:
  "de_option de_u64 (ser_option (\<lambda>d. SvU64 (millis_u64 d)) m) = Inr (map_option millis_u64 m)"
  by (cases m) (simp_all add: de_option_def ser_option_def)

lemma jitter_round_trip [simp]: "jitter_deserialize F (jitter_serialize j) = Inr (jitter_to_millis j)"
  by (cases j) (simp_all add: jitter_deserialize_def jitter_of_fields_def to_millis_def)

lemma de_option_jitter [simp]:
  "de_option (jitter_deserialize F) (ser_option jitter_serialize j) = Inr (map_option jitter_to_millis j)"
proof (cases j)
  case (Some k)
  have "jitter_serialize k \<noteq> SvNone" by (cases k) simp_all
  with Some show ?thesis by (simp add: de_option_def ser_option_def)
qed (simp add: de_option_def ser_option_def)

lemma map_from_millis: "map_option from_millis (map_option millis_u64 m) = map_option to_millis m"
  by (cases m) (simp_all add: to_millis_def)

lemma retry_round_trip:
  assumes "retry_serialize s = Inr v"
  shows "retry_deserialize F v = Inr (strategy_to_millis s)"
  using assms
  by (cases s) (auto simp: retry_deserialize_def strategy_fields_new_def strategy_of_fields_def
      Let_def opt_flatten_def to_millis_def map_from_millis)

text \<open>
  Reading back a serialized strategy gives the strategy with its durations cut to whole
  milliseconds (modulo 2 to the 64), hence the same strategy when they are whole and in range;
  only a custom strategy cannot be serialized.
\<close>

theorem retry_serde_round_trip:
  assumes "\<forall>a f. s \<noteq> Custom a f"
  shows "\<exists>v. retry_serialize s = Inr v \<and> retry_deserialize F v = Inr (strategy_to_millis s) \<and>
    (strategy_to_millis s = s \<longleftrightarrow>
      (case s of Fixed d \<Rightarrow> whole_millis d
       | Linear b i m \<Rightarrow> whole_millis b \<and> whole_millis i \<and> pred_option whole_millis m
       | Exponential b x m j \<Rightarrow> whole_millis b \<and> pred_option whole_millis m \<and>
           pred_option (\<lambda>k. case k of Additive d \<Rightarrow> whole_millis d | Multiplicative f \<Rightarrow> True) j
       | Fibonacci b m \<Rightarrow> whole_millis b \<and> pred_option whole_millis m
       | Custom a f \<Rightarrow> True))"
proof -
  obtain v where v: "retry_serialize s = Inr v" using assms by (cases s) auto
  have opt: "map_option to_millis m = m \<longleftrightarrow> pred_option whole_millis m" for m
    by (cases m) (simp_all add: to_millis_iff)
  have jit: "map_option jitter_to_millis j = j \<longleftrightarrow>
      pred_option (\<lambda>k. case k of Additive d \<Rightarrow> whole_millis d | Multiplicative f \<Rightarrow> True) j" for j
    by (cases j) (auto simp: to_millis_iff split: jitter_type.split)
  have "retry_deserialize F v = Inr (strategy_to_millis s)" by (rule retry_round_trip [OF v])
  with v show ?thesis by (cases s) (simp_all add: to_millis_iff opt jit)
qed

lemma retry_serde_witness:
  "\<exists>v. retry_serialize (Linear (from_millis 5) 1500000 None) = Inr v \<and>
     retry_deserialize exact_floats v = Inr (Linear (from_millis 5) (from_millis 1) None)"
  using retry_serde_round_trip [of "Linear (from_millis 5) 1500000 None" exact_floats]
  by (auto simp: to_millis_def millis_u64_def from_millis_def)

end
