(* ===== verification/Job.thy ===== *)
theory Job
  imports Priority Retry
begin

text \<open>
  The job record and its own operations: \<open>src/src/job.rs\<close>, with the dependency status of
  \<open>src/src/workflow.rs\<close>. The record has the fields of the Rust struct in a build without the
  \<open>encryption\<close> feature; a payload is its JSON text. \<open>Uuid::new_v4\<close> and \<open>Utc::now\<close> are
  arguments.
\<close>

subsection \<open>Statuses\<close>

datatype job_status =
  Pending | Running | Completed | Failed | Dead | TimedOut | Retrying | Archived

fun job_status_str :: "job_status \<Rightarrow> string" where
  "job_status_str Pending = ''Pending''"
| "job_status_str Running = ''Running''"
| "job_status_str Completed = ''Completed''"
| "job_status_str Failed = ''Failed''"
| "job_status_str Dead = ''Dead''"
| "job_status_str TimedOut = ''TimedOut''"
| "job_status_str Retrying = ''Retrying''"
| "job_status_str Archived = ''Archived''"

datatype dependency_status = DepNone | DepWaiting | DepSatisfied | DepFailed

fun dependency_status_str :: "dependency_status \<Rightarrow> string" where
  "dependency_status_str DepNone = ''none''"
| "dependency_status_str DepWaiting = ''waiting''"
| "dependency_status_str DepSatisfied = ''satisfied''"
| "dependency_status_str DepFailed = ''failed''"

definition dependency_status_parse :: "string \<Rightarrow> dependency_status res" where
  "dependency_status_parse s =
     (if s = ''none'' then Inr DepNone
      else if s = ''waiting'' then Inr DepWaiting
      else if s = ''satisfied'' then Inr DepSatisfied
      else if s = ''failed'' then Inr DepFailed
      else Inl (WorkflowError (''Invalid dependency status: '' @ s)))"

subsection \<open>The record\<close>

datatype result_storage = RsDatabase | RsMemory | RsNone

record result_config =
  rc_storage :: result_storage
  rc_ttl :: "duration option"
  rc_max_size_bytes :: "nat option"

definition result_config_default :: result_config where
  "result_config_default = \<lparr>rc_storage = RsNone, rc_ttl = None, rc_max_size_bytes = None\<rparr>"

record job =
  j_id :: job_id
  j_queue_name :: string
  j_payload :: json
  j_status :: job_status
  j_attempts :: int
  j_max_attempts :: int
  j_created_at :: time
  j_scheduled_at :: time
  j_started_at :: "time option"
  j_completed_at :: "time option"
  j_failed_at :: "time option"
  j_timed_out_at :: "time option"
  j_timeout :: "duration option"
  j_error_message :: "string option"
  j_priority :: job_priority
  j_cron_schedule :: "string option"
  j_next_run_at :: "time option"
  j_recurring :: bool
  j_timezone :: "string option"
  j_batch_id :: "batch_id option"
  j_result_config :: result_config
  j_result_data :: "json option"
  j_result_stored_at :: "time option"
  j_result_expires_at :: "time option"
  j_retry_strategy :: "retry_strategy option"
  j_depends_on :: "job_id list"
  j_dependents :: "job_id list"
  j_dependency_status :: dependency_status
  j_workflow_id :: "workflow_id option"
  j_workflow_name :: "string option"
  j_trace_id :: "string option"
  j_correlation_id :: "string option"
  j_parent_span_id :: "string option"
  j_span_context :: "string option"
  j_pii_fields :: "string list"
  j_is_encrypted :: bool

definition job_new :: "uuid \<Rightarrow> time \<Rightarrow> string \<Rightarrow> json \<Rightarrow> job" where
  "job_new uuid now queue_name payload =
     \<lparr>j_id = uuid, j_queue_name = queue_name, j_payload = payload, j_status = Pending,
      j_attempts = 0, j_max_attempts = 3, j_created_at = now, j_scheduled_at = now,
      j_started_at = None, j_completed_at = None, j_failed_at = None, j_timed_out_at = None,
      j_timeout = None, j_error_message = None, j_priority = Normal, j_cron_schedule = None,
      j_next_run_at = None, j_recurring = False, j_timezone = None, j_batch_id = None,
      j_result_config = result_config_default, j_result_data = None, j_result_stored_at = None,
      j_result_expires_at = None, j_retry_strategy = None,
      j_depends_on = [], j_dependents = [], j_dependency_status = DepNone,
      j_workflow_id = None, j_workflow_name = None, j_trace_id = None,
      j_correlation_id = None, j_parent_span_id = None, j_span_context = None,
      j_pii_fields = [], j_is_encrypted = False\<rparr>"

text \<open>A delay past the representable range saturates.\<close>

definition job_with_delay ::
  "externs \<Rightarrow> uuid \<Rightarrow> time \<Rightarrow> string \<Rightarrow> json \<Rightarrow> int \<Rightarrow> job" where
  "job_with_delay E uuid now queue_name payload delay =
     (job_new uuid now queue_name payload)
       \<lparr>j_scheduled_at := unwrap_or (checked_add_signed E now delay)
          (if 0 < delay then max_utc E else min_utc E)\<rparr>"

subsection \<open>Builders and predicates\<close>

definition job_depends_on :: "job \<Rightarrow> job_id \<Rightarrow> job" where
  "job_depends_on j i =
     j\<lparr>j_depends_on := j_depends_on j @ [i], j_dependency_status := DepWaiting\<rparr>"

definition job_depends_on_jobs :: "job \<Rightarrow> job_id list \<Rightarrow> job" where
  "job_depends_on_jobs j is =
     (let j' = j\<lparr>j_depends_on := j_depends_on j @ is\<rparr> in
      if is \<noteq> [] then j'\<lparr>j_dependency_status := DepWaiting\<rparr> else j')"

definition job_with_workflow :: "job \<Rightarrow> workflow_id \<Rightarrow> string \<Rightarrow> job" where
  "job_with_workflow j w name = j\<lparr>j_workflow_id := Some w, j_workflow_name := Some name\<rparr>"

definition has_exhausted_retries :: "job \<Rightarrow> bool" where
  "has_exhausted_retries j \<longleftrightarrow> j_max_attempts j \<le> j_attempts j"

definition should_timeout :: "externs \<Rightarrow> time \<Rightarrow> job \<Rightarrow> bool" where
  "should_timeout E now j =
     (case (j_started_at j, j_timeout j) of
        (Some started_at, Some timeout) \<Rightarrow>
          saturating_chrono_duration E timeout \<le> now - started_at
      | _ \<Rightarrow> False)"

definition processing_duration :: "time \<Rightarrow> job \<Rightarrow> int option" where
  "processing_duration now j =
     map_option
       (\<lambda>started. unwrap_or
          (opt_or (opt_or (j_completed_at j) (j_failed_at j)) (j_timed_out_at j)) now - started)
       (j_started_at j)"

definition dependencies_satisfied :: "job \<Rightarrow> bool" where
  "dependencies_satisfied j \<longleftrightarrow> j_dependency_status j \<in> {DepNone, DepSatisfied}"

definition dependencies_failed :: "job \<Rightarrow> bool" where
  "dependencies_failed j \<longleftrightarrow> j_dependency_status j = DepFailed"

text \<open>In a build without the \<open>encryption\<close> feature no job carries an encryption config.\<close>

definition has_encryption :: "job \<Rightarrow> bool" where
  "has_encryption j = False"

subsection \<open>Dependency limits\<close>

definition MAX_JOB_DEPENDENCIES :: nat where
  "MAX_JOB_DEPENDENCIES = 1000"

definition MAX_JOB_DEPENDENTS :: nat where
  "MAX_JOB_DEPENDENTS = 10000"

text \<open>Decimal text of a \<open>usize\<close>, as \<open>format!\<close> prints it.\<close>

fun show_nat :: "nat \<Rightarrow> string" where
  "show_nat n =
     (if n < 10 then [char_of (48 + n)] else show_nat (n div 10) @ [char_of (48 + n mod 10)])"

declare show_nat.simps [simp del]

definition validate_dependencies :: "externs \<Rightarrow> job \<Rightarrow> unit res" where
  "validate_dependencies E j =
     (if MAX_JOB_DEPENDENCIES < length (j_depends_on j) then
        Inl (WorkflowError
          (''Job '' @ uuid_show E (j_id j) @ '' depends on '' @ show_nat (length (j_depends_on j))
           @ '' jobs; a job can depend on at most '' @ show_nat MAX_JOB_DEPENDENCIES
           @ '' jobs (add intermediate jobs for a larger fan-in)''))
      else if MAX_JOB_DEPENDENTS < length (j_dependents j) then
        Inl (WorkflowError
          (''Job '' @ uuid_show E (j_id j) @ '' lists '' @ show_nat (length (j_dependents j))
           @ '' dependents; at most '' @ show_nat MAX_JOB_DEPENDENTS @ '' are allowed''))
      else Inr ())"

fun validate_dependency_limits :: "externs \<Rightarrow> job list \<Rightarrow> unit res" where
  "validate_dependency_limits E [] = Inr ()"
| "validate_dependency_limits E (j # js) =
     (case validate_dependencies E j of
        Inl e \<Rightarrow> Inl e
      | Inr _ \<Rightarrow> validate_dependency_limits E js)"

subsection \<open>Lemmas\<close>

lemma dependency_status_roundtrip [simp]:
  "dependency_status_parse (dependency_status_str s) = Inr s"
  by (cases s) (simp_all add: dependency_status_parse_def)

interpretation dependency_text: codec dependency_status_str "\<lambda>s. ok_of (dependency_status_parse s)"
  by unfold_locales simp

lemma job_status_str_inject [simp]: "job_status_str s = job_status_str t \<longleftrightarrow> s = t"
  by (cases s; cases t) simp_all

definition within_limits :: "job \<Rightarrow> bool" where
  "within_limits j \<longleftrightarrow>
     length (j_depends_on j) \<le> MAX_JOB_DEPENDENCIES \<and> length (j_dependents j) \<le> MAX_JOB_DEPENDENTS"

lemma validate_dependencies_ok:
  "validate_dependencies E j = Inr () \<longleftrightarrow> within_limits j"
  by (auto simp: validate_dependencies_def within_limits_def)

lemma validate_dependency_limits_ok:
  "validate_dependency_limits E js = Inr () \<longleftrightarrow> (\<forall>j \<in> set js. within_limits j)"
proof (induction js)
  case (Cons j js)
  then show ?case
    using validate_dependencies_ok [of E j]
    by (cases "validate_dependencies E j") auto
qed simp

lemma job_with_delay_scheduled:
  assumes "min_utc E \<le> now" and "now \<le> max_utc E"
  shows "j_scheduled_at (job_with_delay E u now q p d) = max (min_utc E) (min (max_utc E) (now + d))"
  using assms by (auto simp: job_with_delay_def checked_add_signed_def)

end
