(* ===== verification/Workflow.thy ===== *)
theory Workflow
  imports Job
begin

text \<open>
  Workflows: \<open>src/src/workflow.rs\<close>. The job group with its builders, the validation of a
  workflow (dependency references and the depth-first cycle detection) and the progress rule
  that turns counters into a workflow status. The recursion of \<open>has_cycle_dfs\<close> carries fuel;
  \<open>detect_cycles\<close> supplies as much as the workflow has job and dependency entries, which
  \<open>detect_cycles_total\<close> shows to be enough.
\<close>

subsection \<open>Data\<close>

datatype workflow_status = WfRunning | WfCompleted | WfFailed | WfCancelled

fun workflow_status_str :: "workflow_status \<Rightarrow> string" where
  "workflow_status_str WfRunning = ''running''"
| "workflow_status_str WfCompleted = ''completed''"
| "workflow_status_str WfFailed = ''failed''"
| "workflow_status_str WfCancelled = ''cancelled''"

definition workflow_status_parse :: "string \<Rightarrow> workflow_status res" where
  "workflow_status_parse s =
     (if s = ''running'' then Inr WfRunning
      else if s = ''completed'' then Inr WfCompleted
      else if s = ''failed'' then Inr WfFailed
      else if s = ''cancelled'' then Inr WfCancelled
      else Inl (WorkflowError (''Invalid workflow status: '' @ s)))"

datatype failure_policy = FailFast | ContinueOnFailure | Manual

fun failure_policy_str :: "failure_policy \<Rightarrow> string" where
  "failure_policy_str FailFast = ''fail_fast''"
| "failure_policy_str ContinueOnFailure = ''continue_on_failure''"
| "failure_policy_str Manual = ''manual''"

definition failure_policy_parse :: "string \<Rightarrow> failure_policy res" where
  "failure_policy_parse s =
     (if s = ''fail_fast'' then Inr FailFast
      else if s = ''continue_on_failure'' then Inr ContinueOnFailure
      else if s = ''manual'' then Inr Manual
      else Inl (WorkflowError (''Invalid failure policy: '' @ s)))"

record job_group =
  g_id :: workflow_id
  g_name :: string
  g_status :: workflow_status
  g_created_at :: time
  g_completed_at :: "time option"
  g_failed_at :: "time option"
  g_failure_policy :: failure_policy
  g_jobs :: "job list"
  g_dependencies :: "(job_id \<times> job_id list) list"
  g_total_jobs :: nat
  g_completed_jobs :: nat
  g_failed_jobs :: nat
  g_metadata :: json

definition group_new :: "uuid \<Rightarrow> time \<Rightarrow> string \<Rightarrow> job_group" where
  "group_new uuid now name =
     \<lparr>g_id = uuid, g_name = name, g_status = WfRunning, g_created_at = now,
      g_completed_at = None, g_failed_at = None, g_failure_policy = FailFast, g_jobs = [],
      g_dependencies = [], g_total_jobs = 0, g_completed_jobs = 0, g_failed_jobs = 0,
      g_metadata = ''{}''\<rparr>"

definition group_add_job :: "job_group \<Rightarrow> job \<Rightarrow> job_group" where
  "group_add_job g j =
     (let j' = j\<lparr>j_workflow_id := Some (g_id g), j_workflow_name := Some (g_name g)\<rparr>;
          js = g_jobs g @ [j'] in
      g\<lparr>g_jobs := js, g_total_jobs := length js\<rparr>)"

definition group_add_parallel_jobs :: "job_group \<Rightarrow> job list \<Rightarrow> job_group" where
  "group_add_parallel_jobs g js =
     (let js' = g_jobs g @
        map (\<lambda>j. j\<lparr>j_workflow_id := Some (g_id g), j_workflow_name := Some (g_name g)\<rparr>) js in
      g\<lparr>g_jobs := js', g_total_jobs := length js'\<rparr>)"

definition group_then :: "job_group \<Rightarrow> job \<Rightarrow> job_group" where
  "group_then g j =
     (let deps = map j_id (g_jobs g);
          j' = j\<lparr>j_workflow_id := Some (g_id g), j_workflow_name := Some (g_name g),
                 j_depends_on := deps,
                 j_dependency_status := (if deps = [] then DepNone else DepWaiting)\<rparr>;
          js = g_jobs g @ [j'] in
      g\<lparr>g_jobs := js, g_dependencies := AList.update (j_id j) deps (g_dependencies g),
        g_total_jobs := length js\<rparr>)"

definition group_with_failure_policy :: "job_group \<Rightarrow> failure_policy \<Rightarrow> job_group" where
  "group_with_failure_policy g p = g\<lparr>g_failure_policy := p\<rparr>"

definition group_ready_jobs :: "job_group \<Rightarrow> job list" where
  "group_ready_jobs g =
     filter (\<lambda>j. j_dependency_status j = DepNone \<or> j_dependency_status j = DepSatisfied)
       (g_jobs g)"

subsection \<open>Progress\<close>

record workflow_progress =
  p_completed :: nat
  p_failed :: nat

definition progress_status ::
  "workflow_progress \<Rightarrow> nat \<Rightarrow> failure_policy \<Rightarrow> workflow_status \<Rightarrow> workflow_status" where
  "progress_status p total_jobs policy current =
     (if current = WfCancelled then WfCancelled
      else if 0 < total_jobs \<and> total_jobs \<le> p_completed p then WfCompleted
      else if 0 < p_failed p \<and> (policy = FailFast \<or> total_jobs \<le> p_completed p + p_failed p)
      then WfFailed
      else WfRunning)"

text \<open>\<open>str::trim_matches('"')\<close>.\<close>

definition trim_quotes :: "string \<Rightarrow> string" where
  "trim_quotes s =
     rev (dropWhile (\<lambda>c. c = CHR 0x22) (rev (dropWhile (\<lambda>c. c = CHR 0x22) s)))"

text \<open>A negative count is read as zero (\<open>usize::try_from(count).unwrap_or(0)\<close>).\<close>

definition progress_add :: "string \<times> int \<Rightarrow> workflow_progress \<Rightarrow> workflow_progress" where
  "progress_add sc p =
     (let s = trim_quotes (fst sc); n = nat (snd sc) in
      if s = ''Completed'' then p\<lparr>p_completed := p_completed p + n\<rparr>
      else if s = ''Failed'' \<or> s = ''Dead'' \<or> s = ''TimedOut''
      then p\<lparr>p_failed := p_failed p + n\<rparr>
      else p)"

definition progress_from_status_counts :: "(string \<times> int) list \<Rightarrow> workflow_progress" where
  "progress_from_status_counts counts =
     fold progress_add counts \<lparr>p_completed = 0, p_failed = 0\<rparr>"

abbreviation terminal_failure :: "job_status \<Rightarrow> bool" where
  "terminal_failure s \<equiv> s = Failed \<or> s = Dead \<or> s = TimedOut"

definition group_update_statistics :: "time \<Rightarrow> job_group \<Rightarrow> job_group" where
  "group_update_statistics now g =
     (let c = length (filter (\<lambda>j. j_status j = Completed) (g_jobs g));
          f = length (filter (\<lambda>j. terminal_failure (j_status j)) (g_jobs g));
          s = progress_status \<lparr>p_completed = c, p_failed = f\<rparr> (g_total_jobs g)
                (g_failure_policy g) (g_status g);
          g' = g\<lparr>g_completed_jobs := c, g_failed_jobs := f, g_status := s\<rparr> in
      if s = WfCompleted \<and> g_completed_at g = None then g'\<lparr>g_completed_at := Some now\<rparr>
      else if s = WfFailed \<and> g_failed_at g = None then g'\<lparr>g_failed_at := Some now\<rparr>
      else g')"

subsection \<open>Validation\<close>

definition group_deps :: "job_group \<Rightarrow> job_id \<Rightarrow> job_id list" where
  "group_deps g i =
     (case find (\<lambda>j. j_id j = i) (g_jobs g) of
        Some j \<Rightarrow> j_depends_on j
      | None \<Rightarrow> [])"

text \<open>
  \<open>has_cycle_dfs\<close> with its two sets \<open>visited\<close> and \<open>rec_stack\<close> as the state; \<open>visit_deps\<close> is
  the loop over the dependencies of the job. \<open>None\<close> means out of fuel.
\<close>

fun has_cycle_dfs ::
  "nat \<Rightarrow> job_group \<Rightarrow> job_id \<Rightarrow> job_id set \<times> job_id set \<Rightarrow>
     (bool \<times> job_id set \<times> job_id set) option"
and visit_deps ::
  "nat \<Rightarrow> job_group \<Rightarrow> job_id list \<Rightarrow> job_id set \<times> job_id set \<Rightarrow>
     (bool \<times> job_id set \<times> job_id set) option" where
  "has_cycle_dfs 0 g i s = None"
| "has_cycle_dfs (Suc fuel) g i (visited, rec_stack) =
     (case visit_deps fuel g (group_deps g i) (insert i visited, insert i rec_stack) of
        None \<Rightarrow> None
      | Some (found, visited', rec_stack') \<Rightarrow>
          if found then Some (True, visited', rec_stack')
          else Some (False, visited', rec_stack' - {i}))"
| "visit_deps fuel g [] s = Some (False, s)"
| "visit_deps fuel g (d # ds) (visited, rec_stack) =
     (if d \<notin> visited then
        (case has_cycle_dfs fuel g d (visited, rec_stack) of
           None \<Rightarrow> None
         | Some (found, s) \<Rightarrow> if found then Some (True, s) else visit_deps fuel g ds s)
      else if d \<in> rec_stack then Some (True, visited, rec_stack)
      else visit_deps fuel g ds (visited, rec_stack))"

fun detect_loop ::
  "nat \<Rightarrow> job_group \<Rightarrow> job list \<Rightarrow> job_id set \<times> job_id set \<Rightarrow> unit res option" where
  "detect_loop fuel g [] s = Some (Inr ())"
| "detect_loop fuel g (j # js) s =
     (if j_id j \<notin> fst s then
        (case has_cycle_dfs fuel g (j_id j) s of
           None \<Rightarrow> None
         | Some (found, s') \<Rightarrow>
             if found then Some (Inl (WorkflowError ''Circular dependency detected in workflow''))
             else detect_loop fuel g js s')
      else detect_loop fuel g js s)"

definition dfs_fuel :: "job_group \<Rightarrow> nat" where
  "dfs_fuel g = length (map j_id (g_jobs g) @ concat (map j_depends_on (g_jobs g)))"

definition detect_cycles :: "job_group \<Rightarrow> unit res option" where
  "detect_cycles g = detect_loop (dfs_fuel g) g (g_jobs g) ({}, {})"

definition missing_dependency :: "job_group \<Rightarrow> (job_id \<times> job_id) option" where
  "missing_dependency g =
     (let ids = set (map j_id (g_jobs g)) in
      find (\<lambda>(i, d). d \<notin> ids)
        (concat (map (\<lambda>j. map (\<lambda>d. (j_id j, d)) (j_depends_on j)) (g_jobs g))))"

definition group_validate :: "externs \<Rightarrow> job_group \<Rightarrow> unit res option" where
  "group_validate E g =
     (case validate_dependency_limits E (g_jobs g) of
        Inl e \<Rightarrow> Some (Inl e)
      | Inr _ \<Rightarrow>
          (case missing_dependency g of
             Some (i, d) \<Rightarrow>
               Some (Inl (WorkflowError (''Job '' @ uuid_show E i
                 @ '' depends on non-existent job '' @ uuid_show E d)))
           | None \<Rightarrow> detect_cycles g))"

subsection \<open>Encodings and progress\<close>

lemma workflow_status_roundtrip [simp]:
  "workflow_status_parse (workflow_status_str s) = Inr s"
  by (cases s) (simp_all add: workflow_status_parse_def)

lemma failure_policy_roundtrip [simp]: "failure_policy_parse (failure_policy_str p) = Inr p"
  by (cases p) (simp_all add: failure_policy_parse_def)

interpretation workflow_text: codec workflow_status_str "\<lambda>s. ok_of (workflow_status_parse s)"
  by unfold_locales simp

interpretation policy_text: codec failure_policy_str "\<lambda>s. ok_of (failure_policy_parse s)"
  by unfold_locales simp

lemma progress_status_cancelled [simp]: "progress_status p n pol WfCancelled = WfCancelled"
  by (simp add: progress_status_def)

subsection \<open>Cycle detection: enough fuel\<close>

definition dep_edges :: "job_group \<Rightarrow> (job_id \<times> job_id) set" where
  "dep_edges g = {(i, d). d \<in> set (group_deps g i)}"

definition group_ids :: "job_group \<Rightarrow> job_id set" where
  "group_ids g = set (map j_id (g_jobs g) @ concat (map j_depends_on (g_jobs g)))"

lemma finite_group_ids [simp]: "finite (group_ids g)"
  by (simp add: group_ids_def)

lemma card_group_ids: "card (group_ids g) \<le> dfs_fuel g"
  unfolding group_ids_def dfs_fuel_def by (rule card_length)

lemma group_depsD:
  "d \<in> set (group_deps g i) \<Longrightarrow> \<exists>j \<in> set (g_jobs g). j_id j = i \<and> d \<in> set (j_depends_on j)"
  by (cases "find (\<lambda>j. j_id j = i) (g_jobs g)") (auto simp: group_deps_def dest!: find_SomeD)

lemma group_deps_in_ids: "set (group_deps g i) \<subseteq> group_ids g"
  by (fastforce simp: group_ids_def dest: group_depsD)

lemma card_unvisited_insert:
  assumes "finite U" and "i \<in> U - V"
  shows "card (U - insert i V) < card (U - V)"
  using assms by (intro psubset_card_mono) auto

lemma dfs_enough_fuel:
  "i \<in> group_ids g - fst s \<Longrightarrow> card (group_ids g - fst s) \<le> fuel \<Longrightarrow>
     \<exists>b s'. has_cycle_dfs fuel g i s = Some (b, s') \<and> fst s \<subseteq> fst s'"
  "set ds \<subseteq> group_ids g \<Longrightarrow> card (group_ids g - fst s) \<le> fuel \<Longrightarrow>
     \<exists>b s'. visit_deps fuel g ds s = Some (b, s') \<and> fst s \<subseteq> fst s'"
proof (induction fuel g i s and fuel g ds s rule: has_cycle_dfs_visit_deps.induct)
  case (1 g i s)
  then have "group_ids g - fst s = {}" by simp
  with 1 show ?case by blast
next
  case (2 fuel g i visited rec_stack)
  have "card (group_ids g - insert i visited) < card (group_ids g - visited)"
    using 2 by (intro card_unvisited_insert) auto
  then have "\<exists>b s'. visit_deps fuel g (group_deps g i) (insert i visited, insert i rec_stack)
      = Some (b, s') \<and> insert i visited \<subseteq> fst s'"
    using "2.IH" [OF group_deps_in_ids] "2.prems"(2) by simp
  then obtain b V R where
    "visit_deps fuel g (group_deps g i) (insert i visited, insert i rec_stack) = Some (b, V, R)"
    and "insert i visited \<subseteq> V" by auto
  then show ?case by auto
next
  case (3 fuel g s)
  then show ?case by auto
next
  case (4 fuel g d ds visited rec_stack)
  have mono: "card (group_ids g - V) \<le> fuel" if "visited \<subseteq> V" for V
    using card_mono [of "group_ids g - visited" "group_ids g - V"] 4 that by fastforce
  show ?case
  proof (cases "d \<in> visited")
    case True
    with 4 show ?thesis by auto
  next
    case False
    with 4 obtain b s' where 1: "has_cycle_dfs fuel g d (visited, rec_stack) = Some (b, s')"
      and 2: "visited \<subseteq> fst s'" by auto
    show ?thesis
    proof (cases b)
      case True
      with 1 2 False show ?thesis by (cases s') auto
    next
      case b: False
      from "4.IH"(2) [OF False 1 _ b] mono 2 "4.prems" obtain b2 s2 where
        "visit_deps fuel g ds s' = Some (b2, s2)" "fst s' \<subseteq> fst s2" by (cases s') auto
      with 1 2 False b show ?thesis by auto
    qed
  qed
qed

lemma detect_loop_total:
  "set (map j_id js) \<subseteq> group_ids g \<Longrightarrow> card (group_ids g - fst s) \<le> fuel \<Longrightarrow>
     \<exists>r. detect_loop fuel g js s = Some r"
proof (induction js arbitrary: s)
  case (Cons j js)
  show ?case
  proof (cases "j_id j \<in> fst s")
    case True
    with Cons show ?thesis by auto
  next
    case False
    with Cons.prems obtain b s' where 1: "has_cycle_dfs fuel g (j_id j) s = Some (b, s')"
      and 2: "fst s \<subseteq> fst s'" using dfs_enough_fuel(1) [of "j_id j" g s fuel] by auto
    have "card (group_ids g - fst s') \<le> fuel"
      using card_mono [of "group_ids g - fst s" "group_ids g - fst s'"] 2 Cons.prems by fastforce
    with Cons 1 False show ?thesis by auto
  qed
qed simp

lemma detect_cycles_total: "\<exists>r. detect_cycles g = Some r"
  unfolding detect_cycles_def
proof (rule detect_loop_total)
  show "set (map j_id (g_jobs g)) \<subseteq> group_ids g" by (auto simp: group_ids_def)
  show "card (group_ids g - fst ({}, {})) \<le> dfs_fuel g" using card_group_ids by simp
qed

subsection \<open>Cycle detection: correctness\<close>

text \<open>
  The jobs that are visited and no longer on the stack are closed under dependencies and carry
  no cycle; the jobs on the stack all lead to the one being visited.
\<close>

definition dfs_done :: "job_group \<Rightarrow> job_id set \<times> job_id set \<Rightarrow> bool" where
  "dfs_done g s \<longleftrightarrow>
     snd s \<subseteq> fst s \<and> dep_edges g `` (fst s - snd s) \<subseteq> fst s - snd s \<and>
     acyclic (dep_edges g \<inter> (fst s - snd s) \<times> UNIV)"

definition leads_to :: "job_group \<Rightarrow> job_id set \<Rightarrow> job_id \<Rightarrow> bool" where
  "leads_to g S i \<longleftrightarrow> (\<forall>x \<in> S. (x, i) \<in> (dep_edges g)\<^sup>*)"

lemma acyclic_extend:
  assumes D: "r `` D \<subseteq> D" and ac: "acyclic (r \<inter> D \<times> UNIV)" and v: "v \<notin> D" and rv: "r `` {v} \<subseteq> D"
  shows "acyclic (r \<inter> insert v D \<times> UNIV)"
proof (rule acyclicI, rule allI)
  fix x
  let ?q = "r \<inter> insert v D \<times> UNIV"
  have into: "b \<in> D \<and> (a, b) \<in> (if a = v then ?q\<^sup>+ else (r \<inter> D \<times> UNIV)\<^sup>+)" if "(a, b) \<in> ?q\<^sup>+" for a b
    using that
  proof (induction rule: trancl_induct)
    case (base y)
    then show ?case using D rv by auto
  next
    case (step y z)
    then have "(y, z) \<in> r \<inter> D \<times> UNIV" using v by auto
    with step D show ?case by (auto intro: trancl.trancl_into_trancl)
  qed
  show "(x, x) \<notin> ?q\<^sup>+"
  proof
    assume "(x, x) \<in> ?q\<^sup>+"
    from into [OF this] v ac show False by (auto simp: acyclic_def split: if_splits)
  qed
qed

lemma dfs_done_finish:
  assumes "dfs_done g (V, insert i R)" and "i \<notin> R" and "set (group_deps g i) \<subseteq> V - insert i R"
  shows "dfs_done g (V, R)"
proof -
  let ?D = "V - insert i R"
  have eq: "V - R = insert i ?D" using assms by (auto simp: dfs_done_def)
  have "acyclic (dep_edges g \<inter> insert i ?D \<times> UNIV)"
    using assms by (intro acyclic_extend) (auto simp: dfs_done_def dep_edges_def)
  with assms show ?thesis
    by (auto simp: dfs_done_def eq dep_edges_def)
qed

lemma dfs_invariant:
  "has_cycle_dfs fuel g i s = Some (b, s') \<Longrightarrow> dfs_done g s \<Longrightarrow> i \<notin> fst s \<Longrightarrow>
     leads_to g (snd s) i \<Longrightarrow>
     (if b then \<not> acyclic (dep_edges g)
      else dfs_done g s' \<and> fst s \<subseteq> fst s' \<and> snd s' = snd s \<and> i \<in> fst s')"
  "visit_deps fuel g ds s = Some (b, s') \<Longrightarrow> dfs_done g s \<Longrightarrow> leads_to g (snd s) i \<Longrightarrow>
     i \<in> snd s \<Longrightarrow> set ds \<subseteq> set (group_deps g i) \<Longrightarrow>
     (if b then \<not> acyclic (dep_edges g)
      else dfs_done g s' \<and> fst s \<subseteq> fst s' \<and> snd s' = snd s \<and> set ds \<subseteq> fst s' - snd s')"
proof (induction fuel g i s and fuel g ds s arbitrary: b s' and b s' i
    rule: has_cycle_dfs_visit_deps.induct)
  case (1 g i s)
  then show ?case by simp
next
  case (2 fuel g i visited rec_stack)
  then obtain c V R where v:
    "visit_deps fuel g (group_deps g i) (insert i visited, insert i rec_stack) = Some (c, V, R)"
    by (auto split: option.splits)
  have iR: "i \<notin> rec_stack" using "2.prems" by (auto simp: dfs_done_def)
  have "dfs_done g (insert i visited, insert i rec_stack)"
    using "2.prems" by (auto simp: dfs_done_def insert_Diff_if)
  moreover have "leads_to g (insert i rec_stack) i"
    using "2.prems" by (auto simp: leads_to_def)
  ultimately have IH: "if c then \<not> acyclic (dep_edges g)
      else dfs_done g (V, R) \<and> insert i visited \<subseteq> V \<and> R = insert i rec_stack \<and>
        set (group_deps g i) \<subseteq> V - R"
    using "2.IH" [OF v, of i] by (cases c) auto
  show ?case
  proof (cases c)
    case True
    with "2.prems" v IH show ?thesis by auto
  next
    case False
    with IH iR have "dfs_done g (V, rec_stack)" by (auto intro: dfs_done_finish)
    with False IH iR "2.prems" v show ?thesis by auto
  qed
next
  case (3 fuel g s)
  then show ?case by auto
next
  case (4 fuel g d ds visited rec_stack)
  have edge: "(i, d) \<in> dep_edges g" using "4.prems" by (auto simp: dep_edges_def)
  then have lead: "leads_to g rec_stack d"
    using "4.prems" by (auto simp: leads_to_def intro: rtrancl_into_rtrancl)
  consider "d \<in> visited" "d \<in> rec_stack" | "d \<in> visited" "d \<notin> rec_stack" | "d \<notin> visited"
    by blast
  then show ?case
  proof cases
    case 1
    have "(d, i) \<in> (dep_edges g)\<^sup>*" using 1 "4.prems" by (auto simp: leads_to_def)
    with edge have "\<not> acyclic (dep_edges g)"
      by (auto simp: acyclic_def intro: rtrancl_into_trancl1)
    with 1 "4.prems" show ?thesis by auto
  next
    case 2
    with "4.IH"(3) [of b s' i] "4.prems" show ?thesis by auto
  next
    case 3
    with "4.prems" obtain c t where h: "has_cycle_dfs fuel g d (visited, rec_stack) = Some (c, t)"
      by (auto split: option.splits)
    have IH: "if c then \<not> acyclic (dep_edges g)
        else dfs_done g t \<and> visited \<subseteq> fst t \<and> snd t = rec_stack \<and> d \<in> fst t"
      using "4.IH"(1) [OF 3 h] "4.prems" 3 lead by (cases c) auto
    show ?thesis
    proof (cases c)
      case True
      with 3 h "4.prems" IH show ?thesis by auto
    next
      case False
      have "d \<notin> rec_stack" using 3 "4.prems" by (auto simp: dfs_done_def)
      with "4.IH"(2) [OF 3 h refl False, of b s' i] False IH 3 h "4.prems"
      show ?thesis by (cases t) (auto, blast)
    qed
  qed
qed

lemma detect_loop_correct:
  "detect_loop fuel g js s = Some r \<Longrightarrow> dfs_done g s \<Longrightarrow> snd s = {} \<Longrightarrow>
     dep_edges g \<subseteq> (fst s \<union> set (map j_id js)) \<times> UNIV \<Longrightarrow>
     r = Inr () \<longleftrightarrow> acyclic (dep_edges g)"
proof (induction js arbitrary: s)
  case Nil
  then have "dep_edges g \<inter> (fst s - snd s) \<times> UNIV = dep_edges g" by auto
  with Nil show ?case by (auto simp: dfs_done_def)
next
  case (Cons j js)
  show ?case
  proof (cases "j_id j \<in> fst s")
    case True
    with Cons show ?thesis by (auto simp: insert_absorb)
  next
    case False
    with Cons.prems obtain c t where h: "has_cycle_dfs fuel g (j_id j) s = Some (c, t)"
      by (auto split: option.splits)
    have inv: "if c then \<not> acyclic (dep_edges g)
        else dfs_done g t \<and> fst s \<subseteq> fst t \<and> snd t = snd s \<and> j_id j \<in> fst t"
      using dfs_invariant(1) [OF h] Cons.prems False by (auto simp: leads_to_def)
    show ?thesis
    proof (cases c)
      case True
      with inv h False Cons.prems show ?thesis by auto
    next
      case c: False
      with inv Cons.prems have "dep_edges g \<subseteq> (fst t \<union> set (map j_id js)) \<times> UNIV" by auto
      with Cons.IH [of t] c inv h False Cons.prems show ?thesis by auto
    qed
  qed
qed

lemma dep_edges_from_jobs: "dep_edges g \<subseteq> set (map j_id (g_jobs g)) \<times> UNIV"
  by (force simp: dep_edges_def dest: group_depsD)

lemma detect_cycles_correct: "detect_cycles g = Some (Inr ()) \<longleftrightarrow> acyclic (dep_edges g)"
proof -
  obtain r where r: "detect_cycles g = Some r" using detect_cycles_total by blast
  have "r = Inr () \<longleftrightarrow> acyclic (dep_edges g)"
    using detect_loop_correct [OF r [unfolded detect_cycles_def]] dep_edges_from_jobs [of g]
    by (auto simp: dfs_done_def acyclic_def)
  with r show ?thesis by simp
qed

end
