(* ===== verification/Cron.thy ===== *)
theory Cron
  imports Workflow
begin

text \<open>
  Recurring jobs: \<open>src/src/cron.rs\<close>, the cron methods of \<open>src/src/job.rs\<close>,
  \<open>next_cron_run\<close> of \<open>src/src/queue/lifecycle.rs\<close> and the cron helpers of
  \<open>src/src/queue/backend.rs\<close>. The cron and chrono-tz crates are the fields \<open>cron_error\<close>,
  \<open>tz_valid\<close> and \<open>cron_after\<close> of the parameter record; \<open>cron_laws\<close> states what their
  documentation promises of \<open>Schedule::after\<close>: the first occurrence strictly after an instant.
\<close>

subsection \<open>Schedules\<close>

datatype cron_err = InvalidExpression string | InvalidTimezone string

fun cron_err_str :: "cron_err \<Rightarrow> string" where
  "cron_err_str (InvalidExpression s) = ''Invalid cron expression: '' @ s"
| "cron_err_str (InvalidTimezone s) = ''Invalid timezone: '' @ s"

text \<open>A parsed \<open>Schedule\<close> is the expression it was parsed from, a parsed \<open>Tz\<close> its name.\<close>

record cron_schedule =
  cs_expression :: string
  cs_timezone :: string
  cs_schedule :: "string option"
  cs_tz :: "string option"

definition cron_with_timezone ::
  "externs \<Rightarrow> string \<Rightarrow> string \<Rightarrow> cron_err + cron_schedule" where
  "cron_with_timezone E expression tz =
     (case cron_error E expression of
        Some e \<Rightarrow> Inl (InvalidExpression (expression @ '': '' @ e))
      | None \<Rightarrow>
          if \<not> tz_valid E tz then Inl (InvalidTimezone tz)
          else Inr \<lparr>cs_expression = expression, cs_timezone = tz,
                    cs_schedule = Some expression, cs_tz = Some tz\<rparr>)"

definition cron_new :: "externs \<Rightarrow> string \<Rightarrow> cron_err + cron_schedule" where
  "cron_new E expression = cron_with_timezone E expression ''UTC''"

definition next_execution :: "externs \<Rightarrow> cron_schedule \<Rightarrow> time \<Rightarrow> time option" where
  "next_execution E c after =
     (case cs_schedule c of
        None \<Rightarrow> None
      | Some schedule \<Rightarrow>
          (case cs_tz c of
             None \<Rightarrow> None
           | Some tz \<Rightarrow> cron_after E schedule tz after))"

definition reinitialize :: "externs \<Rightarrow> cron_schedule \<Rightarrow> cron_err + cron_schedule" where
  "reinitialize E c =
     (case cron_error E (cs_expression c) of
        Some e \<Rightarrow> Inl (InvalidExpression (cs_expression c @ '': '' @ e))
      | None \<Rightarrow>
          if \<not> tz_valid E (cs_timezone c) then Inl (InvalidTimezone (cs_timezone c))
          else Inr (c\<lparr>cs_schedule := Some (cs_expression c), cs_tz := Some (cs_timezone c)\<rparr>))"

definition get_cron_schedule :: "externs \<Rightarrow> job \<Rightarrow> (cron_err + cron_schedule) option" where
  "get_cron_schedule E j =
     map_option
       (\<lambda>expr. case j_timezone j of
          Some tz \<Rightarrow> cron_with_timezone E expr tz
        | None \<Rightarrow> cron_new E expr)
       (j_cron_schedule j)"

definition calculate_next_run :: "externs \<Rightarrow> time \<Rightarrow> job \<Rightarrow> time option" where
  "calculate_next_run E now j =
     (if \<not> j_recurring j then None
      else
        (case get_cron_schedule E j of
           Some (Inr schedule) \<Rightarrow> next_execution E schedule now
         | Some (Inl _) \<Rightarrow> None
         | None \<Rightarrow> None))"

definition prepare_for_next_run :: "externs \<Rightarrow> time \<Rightarrow> job \<Rightarrow> time option \<times> job" where
  "prepare_for_next_run E now j =
     (if \<not> j_recurring j then (None, j)
      else
        (case calculate_next_run E now j of
           None \<Rightarrow> (None, j)
         | Some t \<Rightarrow>
             (Some t,
              j\<lparr>j_status := Pending, j_attempts := 0, j_scheduled_at := t,
                j_next_run_at := Some t, j_started_at := None, j_completed_at := None,
                j_failed_at := None, j_timed_out_at := None, j_error_message := None\<rparr>)))"

subsection \<open>The next run of a recurring job\<close>

definition CRON_CATCH_UP_SCAN_LIMIT :: nat where
  "CRON_CATCH_UP_SCAN_LIMIT = 10000"

text \<open>The bounded scan of missed occurrences; its last resort is a run at \<open>now\<close>.\<close>

fun catch_up :: "externs \<Rightarrow> cron_schedule \<Rightarrow> time \<Rightarrow> nat \<Rightarrow> time \<Rightarrow> time" where
  "catch_up E c now 0 latest = now"
| "catch_up E c now (Suc n) latest =
     (case next_execution E c latest of
        Some occurrence \<Rightarrow> if occurrence \<le> now then catch_up E c now n occurrence else latest
      | None \<Rightarrow> latest)"

definition cron_slot :: "job \<Rightarrow> time" where
  "cron_slot j =
     (case j_next_run_at j of
        None \<Rightarrow> j_scheduled_at j
      | Some slot \<Rightarrow> min slot (j_scheduled_at j))"

definition cron_from :: "job \<Rightarrow> time" where
  "cron_from j =
     (case j_started_at j of
        Some started \<Rightarrow> if cron_slot j < started then started else cron_slot j
      | None \<Rightarrow> cron_slot j)"

definition next_cron_run :: "externs \<Rightarrow> job \<Rightarrow> time \<Rightarrow> time option" where
  "next_cron_run E j now =
     (case get_cron_schedule E j of
        Some (Inr schedule) \<Rightarrow>
          (case next_execution E schedule (cron_from j) of
             None \<Rightarrow> None
           | Some t \<Rightarrow>
               if now < t then Some t
               else Some (catch_up E schedule now CRON_CATCH_UP_SCAN_LIMIT t))
      | _ \<Rightarrow> None)"

subsection \<open>Queue helpers\<close>

definition not_a_cron_job :: "externs \<Rightarrow> job_id \<Rightarrow> hammerwork_error" where
  "not_a_cron_job E i =
     QueueError (''job '' @ uuid_show E i @ '' has no cron schedule, so it is not a recurring job'')"

text \<open>\<open>format!("{:?}", job.cron_schedule)\<close>, up to the escaping of the expression.\<close>

definition debug_schedule :: "string option \<Rightarrow> string" where
  "debug_schedule s =
     (case s of None \<Rightarrow> ''None'' | Some x \<Rightarrow> ''Some('' @ [CHR 0x22] @ x @ [CHR 0x22] @ '')'')"

definition prepare_cron_job :: "externs \<Rightarrow> time \<Rightarrow> job \<Rightarrow> job res" where
  "prepare_cron_job E now j =
     (case get_cron_schedule E j of
        None \<Rightarrow> Inl (QueueError ''Job must have a cron schedule'')
      | Some (Inl e) \<Rightarrow>
          Inl (QueueError (''Invalid cron schedule '' @ debug_schedule (j_cron_schedule j)
            @ '': '' @ cron_err_str e))
      | Some (Inr schedule) \<Rightarrow>
          (let j1 = j\<lparr>j_recurring := True\<rparr> in
           if j_next_run_at j \<noteq> None then Inr j1
           else
             (case next_execution E schedule now of
                None \<Rightarrow> Inr (j1\<lparr>j_next_run_at := None\<rparr>)
              | Some t \<Rightarrow> Inr (j1\<lparr>j_next_run_at := Some t, j_scheduled_at := t\<rparr>))))"

definition enabled_recurring_next_run :: "externs \<Rightarrow> job \<Rightarrow> time \<Rightarrow> time option res" where
  "enabled_recurring_next_run E j now =
     (case get_cron_schedule E j of
        None \<Rightarrow> Inl (not_a_cron_job E (j_id j))
      | Some (Inl e) \<Rightarrow>
          Inl (QueueError (''job '' @ uuid_show E (j_id j) @ '' has an invalid cron schedule ''
            @ debug_schedule (j_cron_schedule j) @ '': '' @ cron_err_str e))
      | Some (Inr schedule) \<Rightarrow>
          if j_status j = Running then Inr None
          else
            (case next_execution E schedule now of
               Some t \<Rightarrow> Inr (Some t)
             | None \<Rightarrow>
                 Inl (QueueError (''the cron schedule of job '' @ uuid_show E (j_id j)
                   @ '' has no next occurrence''))))"

subsection \<open>What the cron crate promises\<close>

definition cron_laws :: "externs \<Rightarrow> bool" where
  "cron_laws E \<longleftrightarrow>
     (\<forall>e z t u. cron_after E e z t = Some u \<longrightarrow>
        t < u \<and> (\<forall>t'. t \<le> t' \<and> t' < u \<longrightarrow> cron_after E e z t' = Some u))"

lemma cron_lawsD:
  "cron_laws E \<Longrightarrow> cron_after E e z t = Some u \<Longrightarrow> t < u"
  "cron_laws E \<Longrightarrow> cron_after E e z t = Some u \<Longrightarrow> t \<le> t' \<Longrightarrow> t' < u \<Longrightarrow>
     cron_after E e z t' = Some u"
  unfolding cron_laws_def by blast+

lemma next_execution_Some:
  "next_execution E c t = Some u \<longleftrightarrow>
     (\<exists>e z. cs_schedule c = Some e \<and> cs_tz c = Some z \<and> cron_after E e z t = Some u)"
  by (simp add: next_execution_def split: option.splits)

lemma next_execution_after: "cron_laws E \<Longrightarrow> next_execution E c t = Some u \<Longrightarrow> t < u"
  unfolding next_execution_Some by (blast dest: cron_lawsD(1))

lemma next_execution_first:
  "cron_laws E \<Longrightarrow> next_execution E c t = Some u \<Longrightarrow> t \<le> t' \<Longrightarrow> t' < u \<Longrightarrow>
     next_execution E c t' = Some u"
  unfolding next_execution_Some by (blast dest: cron_lawsD(2))

text \<open>The scan ends at the last occurrence that has passed, or gives up with a run at \<open>now\<close>.\<close>

lemma catch_up_spec:
  assumes "cron_laws E" and "latest \<le> now"
  shows "latest \<le> catch_up E c now n latest \<and> catch_up E c now n latest \<le> now \<and>
    (catch_up E c now n latest = now \<or>
     (\<forall>u. next_execution E c (catch_up E c now n latest) = Some u \<longrightarrow> now < u))"
  using assms(2)
proof (induction n arbitrary: latest)
  case (Suc n)
  show ?case
  proof (cases "next_execution E c latest")
    case None
    with Suc show ?thesis by simp
  next
    case (Some u)
    with assms(1) have "latest < u" by (rule next_execution_after)
    with Suc.IH [of u] Suc.prems Some show ?thesis by auto
  qed
qed simp

lemma cron_slot_le_from: "cron_slot j \<le> cron_from j"
  by (auto simp: cron_from_def split: option.splits)

lemma reinitialize_with_timezone:
  "cron_with_timezone E x z = Inr c \<Longrightarrow> reinitialize E c = Inr c"
  by (auto simp: cron_with_timezone_def reinitialize_def split: option.splits if_splits)

end
