(* ===== verification/Lifecycle.thy ===== *)
theory Lifecycle
  imports Cron
begin

text \<open>
  The lifecycle rules every backend shares: \<open>src/src/queue/lifecycle.rs\<close>. The manual
  transitions with the statuses they may start from, the outcomes a worker records and the
  guard that ties an outcome to the run it belongs to, the re-evaluation of a job's
  dependencies, and the settlement of jobs that are enqueued after their dependencies
  finished.
\<close>

subsection \<open>Manual transitions\<close>

datatype job_transition =
  Complete | Fail | Retry | MarkDead | MarkTimedOut | RescheduleCron | RetryDead

fun allowed_from :: "job_transition \<Rightarrow> job_status list" where
  "allowed_from Complete = [Pending, Running, Retrying]"
| "allowed_from Fail = [Pending, Running, Retrying]"
| "allowed_from Retry = [Running, Retrying, Failed, TimedOut]"
| "allowed_from MarkDead = [Pending, Running, Retrying, Failed, TimedOut]"
| "allowed_from MarkTimedOut = [Running]"
| "allowed_from RescheduleCron = [Pending, Running, Retrying, Failed, Dead, TimedOut]"
| "allowed_from RetryDead = [Dead, TimedOut]"

definition is_allowed_from :: "job_transition \<Rightarrow> job_status \<Rightarrow> bool" where
  "is_allowed_from t s \<longleftrightarrow> s \<in> set (allowed_from t)"

fun transition_str :: "job_transition \<Rightarrow> string" where
  "transition_str Complete = ''completed''"
| "transition_str Fail = ''failed''"
| "transition_str Retry = ''retried''"
| "transition_str MarkDead = ''marked dead''"
| "transition_str MarkTimedOut = ''marked timed out''"
| "transition_str RescheduleCron = ''rescheduled''"
| "transition_str RetryDead = ''retried from dead''"

fun join_with :: "string \<Rightarrow> string list \<Rightarrow> string" where
  "join_with sep [] = []"
| "join_with sep [x] = x"
| "join_with sep (x # y # xs) = x @ sep @ join_with sep (y # xs)"

definition sql_status_list :: "job_transition \<Rightarrow> string" where
  "sql_status_list t =
     join_with '', '' (map (\<lambda>s. [CHR 0x27] @ job_status_str s @ [CHR 0x27]) (allowed_from t))"

definition rejected :: "externs \<Rightarrow> job_transition \<Rightarrow> job_id \<Rightarrow> job_status \<Rightarrow> hammerwork_error" where
  "rejected E t i s = InvalidJobTransition (uuid_show E i) (job_status_str s) (transition_str t)"

text \<open>Old rows may hold the status JSON-quoted.\<close>

definition job_status_from_db :: "string \<Rightarrow> job_status option" where
  "job_status_from_db v =
     (let t = trim_quotes v in
      if t = ''Pending'' then Some Pending
      else if t = ''Running'' then Some Running
      else if t = ''Completed'' then Some Completed
      else if t = ''Failed'' then Some Failed
      else if t = ''Dead'' then Some Dead
      else if t = ''TimedOut'' then Some TimedOut
      else if t = ''Retrying'' then Some Retrying
      else if t = ''Archived'' then Some Archived
      else None)"

definition rejection_error ::
  "externs \<Rightarrow> job_id \<Rightarrow> job_transition \<Rightarrow> string option \<Rightarrow> hammerwork_error" where
  "rejection_error E i t current =
     (let other = (\<lambda>raw.
        if t = RescheduleCron
        then QueueError (''Job '' @ uuid_show E i @ '' is not a recurring job'')
        else InvalidJobTransition (uuid_show E i) raw (transition_str t)) in
      case current of
        None \<Rightarrow> JobNotFound (uuid_show E i)
      | Some raw \<Rightarrow>
          (case job_status_from_db raw of
             Some s \<Rightarrow> if \<not> is_allowed_from t s then rejected E t i s else other raw
           | None \<Rightarrow> other raw))"

subsection \<open>Run outcomes\<close>

datatype job_outcome =
    OutCompleted
  | OutRetry time string bool
  | OutDead string
  | OutTimedOut string

fun outcome_terminal_status :: "job_outcome \<Rightarrow> job_status option" where
  "outcome_terminal_status OutCompleted = Some Completed"
| "outcome_terminal_status (OutRetry retry_at err timed_out) = None"
| "outcome_terminal_status (OutDead err) = Some Dead"
| "outcome_terminal_status (OutTimedOut err) = Some TimedOut"

record recorded_outcome =
  o_status :: job_status
  o_next_run_at :: "time option"
  o_unblocked :: "job_id list"
  o_cancelled :: "job_id list"
  o_spawned :: "job_id list"

definition recorded_new :: "job_status \<Rightarrow> recorded_outcome" where
  "recorded_new s =
     \<lparr>o_status = s, o_next_run_at = None, o_unblocked = [], o_cancelled = [], o_spawned = []\<rparr>"

datatype target =
    TgtCompleted
  | TgtFailed string
  | TgtDead string
  | TgtTimedOut string
  | TgtRetry time "string option" bool

fun target_terminal_status :: "target \<Rightarrow> job_status option" where
  "target_terminal_status TgtCompleted = Some Completed"
| "target_terminal_status (TgtFailed e) = Some Failed"
| "target_terminal_status (TgtDead e) = Some Dead"
| "target_terminal_status (TgtTimedOut e) = Some TimedOut"
| "target_terminal_status (TgtRetry r e b) = None"

fun target_of_outcome :: "job_outcome \<Rightarrow> target" where
  "target_of_outcome OutCompleted = TgtCompleted"
| "target_of_outcome (OutRetry retry_at err timed_out) = TgtRetry retry_at (Some err) timed_out"
| "target_of_outcome (OutDead err) = TgtDead err"
| "target_of_outcome (OutTimedOut err) = TgtTimedOut err"

datatype guard = GuardManual job_transition | GuardRun job

text \<open>Times are compared with a tolerance of one millisecond.\<close>

definition is_same_run :: "job \<Rightarrow> job \<Rightarrow> bool" where
  "is_same_run current r =
     (if j_id current \<noteq> j_id r \<or> j_attempts current \<noteq> j_attempts r then False
      else
        (case (j_started_at current, j_started_at r) of
           (Some stored, Some claimed) \<Rightarrow>
             is_some_and (num_microseconds (stored - claimed)) (\<lambda>d. \<bar>d\<bar> < 1000)
         | (_, None) \<Rightarrow> True
         | (None, Some _) \<Rightarrow> False))"

fun guard_admits :: "guard \<Rightarrow> job \<Rightarrow> bool" where
  "guard_admits (GuardManual t) current = is_allowed_from t (j_status current)"
| "guard_admits (GuardRun r) current = (j_status current = Running \<and> is_same_run current r)"

text \<open>\<open>wall\<close> is the worker's own clock, read by \<open>Utc::now()\<close>.\<close>

definition on_db_clock :: "externs \<Rightarrow> time \<Rightarrow> target \<Rightarrow> guard \<Rightarrow> time \<Rightarrow> target" where
  "on_db_clock E wall tgt g db_now =
     (case (tgt, g) of
        (TgtRetry retry_at err timed_out, GuardRun _) \<Rightarrow>
          TgtRetry (unwrap_or (checked_add_signed E db_now (retry_at - wall)) retry_at)
            err timed_out
      | _ \<Rightarrow> tgt)"

datatype transition_result =
    Applied recorded_outcome
  | Rejected job_status
  | NotFound

fun into_manual ::
  "externs \<Rightarrow> transition_result \<Rightarrow> job_id \<Rightarrow> job_transition \<Rightarrow> recorded_outcome res" where
  "into_manual E (Applied r) i t = Inr r"
| "into_manual E (Rejected s) i t = Inl (rejected E t i s)"
| "into_manual E NotFound i t = Inl (JobNotFound (uuid_show E i))"

fun into_run :: "transition_result \<Rightarrow> recorded_outcome option" where
  "into_run (Applied r) = Some r"
| "into_run (Rejected s) = None"
| "into_run NotFound = None"

subsection \<open>Messages\<close>

definition dependency_failed_message :: "externs \<Rightarrow> job_id \<Rightarrow> string" where
  "dependency_failed_message E i = ''Dependency failed: job '' @ uuid_show E i @ '' failed''"

definition workflow_failed_message :: "externs \<Rightarrow> job_id \<Rightarrow> string" where
  "workflow_failed_message E i =
     ''Workflow failed: job '' @ uuid_show E i @ '' failed (fail-fast policy)''"

definition batch_failed_message :: "externs \<Rightarrow> job_id \<Rightarrow> string" where
  "batch_failed_message E i =
     ''Batch failed: job '' @ uuid_show E i @ '' failed (fail-fast mode)''"

definition WORKFLOW_CANCELLED_MESSAGE :: string where
  "WORKFLOW_CANCELLED_MESSAGE = ''Workflow cancelled''"

subsection \<open>Re-evaluating dependencies\<close>

definition reevaluate_error ::
  "externs \<Rightarrow> job \<Rightarrow> string \<Rightarrow> job_id \<Rightarrow> string \<Rightarrow> hammerwork_error" where
  "reevaluate_error E j action d problem =
     WorkflowError (''Job '' @ uuid_show E (j_id j) @ '' cannot be '' @ action
       @ '': its dependency '' @ uuid_show E d @ '' '' @ problem
       @ ''; retry or restore the dependency first'')"

fun reevaluate_loop ::
  "externs \<Rightarrow> job \<Rightarrow> (job_id \<rightharpoonup> job_status) \<Rightarrow> string \<Rightarrow> job_id list \<Rightarrow> bool \<Rightarrow> bool res" where
  "reevaluate_loop E j states action [] all_completed = Inr all_completed"
| "reevaluate_loop E j states action (d # ds) all_completed =
     (case states d of
        Some s \<Rightarrow>
          if s = Completed then reevaluate_loop E j states action ds all_completed
          else if terminal_failure s
          then Inl (reevaluate_error E j action d (''is '' @ job_status_str s))
          else reevaluate_loop E j states action ds False
      | None \<Rightarrow> Inl (reevaluate_error E j action d ''no longer exists''))"

definition reevaluate_dependencies ::
  "externs \<Rightarrow> job \<Rightarrow> (job_id \<rightharpoonup> job_status) \<Rightarrow> string \<Rightarrow> dependency_status res" where
  "reevaluate_dependencies E j states action =
     (if j_depends_on j = [] then Inr DepNone
      else if j_dependency_status j = DepSatisfied then Inr DepSatisfied
      else
        (case reevaluate_loop E j states action (j_depends_on j) True of
           Inl e \<Rightarrow> Inl e
         | Inr all_completed \<Rightarrow> Inr (if all_completed then DepSatisfied else DepWaiting)))"

subsection \<open>Jobs enqueued after their dependencies\<close>

datatype parent_state = PsCompleted | PsFailed | PsUnfinished

definition parent_state_from_db :: "string \<Rightarrow> string option \<Rightarrow> parent_state" where
  "parent_state_from_db s policy =
     (let manual = is_some_and policy (\<lambda>p. failure_policy_parse p = Inr Manual) in
      case job_status_from_db s of
        Some st \<Rightarrow>
          if st = Completed then PsCompleted
          else if terminal_failure st \<and> \<not> manual then PsFailed
          else PsUnfinished
      | None \<Rightarrow> PsUnfinished)"

definition parent_state_from_archived :: "string \<Rightarrow> parent_state" where
  "parent_state_from_archived s = parent_state_from_db s None"

text \<open>\<open>sort_unstable\<close> and \<open>dedup\<close> of a list of ids.\<close>

definition external_dependencies :: "job list \<Rightarrow> job_id list" where
  "external_dependencies jobs =
     remdups_adj (sort
       (filter (\<lambda>i. i \<notin> set (map j_id jobs))
         (concat (map j_depends_on
           (filter (\<lambda>j. j_dependency_status j = DepWaiting) jobs)))))"

text \<open>\<open>collect\<close> into a map keeps the last index of an id.\<close>

definition index_of :: "job list \<Rightarrow> job_id \<rightharpoonup> nat" where
  "index_of jobs = map_of (rev (zip (map j_id jobs) [0..<length jobs]))"

definition state_of ::
  "(job_id \<rightharpoonup> nat) \<Rightarrow> (job_id \<rightharpoonup> parent_state) \<Rightarrow> job list \<Rightarrow> job_id \<Rightarrow> parent_state" where
  "state_of index parents jobs p =
     (case index p of
        Some k \<Rightarrow>
          if j_status (jobs ! k) = Completed then PsCompleted
          else if terminal_failure (j_status (jobs ! k)) then PsFailed
          else PsUnfinished
      | None \<Rightarrow> unwrap_or (parents p) PsUnfinished)"

definition fail_new :: "externs \<Rightarrow> time \<Rightarrow> job_id \<Rightarrow> job \<Rightarrow> job" where
  "fail_new E now parent j =
     j\<lparr>j_status := Failed, j_dependency_status := DepFailed, j_failed_at := Some now,
       j_error_message := Some (dependency_failed_message E parent)\<rparr>"

definition settle_one ::
  "externs \<Rightarrow> time \<Rightarrow> (job_id \<rightharpoonup> nat) \<Rightarrow> (job_id \<rightharpoonup> parent_state) \<Rightarrow> nat \<Rightarrow>
     job list \<times> job_id list \<times> bool \<Rightarrow> job list \<times> job_id list \<times> bool" where
  "settle_one E now index parents i s =
     (case s of (jobs, failed, changed) \<Rightarrow>
        let j = jobs ! i in
        if j_dependency_status j \<noteq> DepWaiting \<or> j_depends_on j = [] then s
        else
          (case find (\<lambda>p. state_of index parents jobs p = PsFailed) (j_depends_on j) of
             Some failed_parent \<Rightarrow>
               (jobs[i := fail_new E now failed_parent j], failed @ [j_id j], True)
           | None \<Rightarrow>
               if list_all (\<lambda>p. state_of index parents jobs p = PsCompleted) (j_depends_on j)
               then (jobs[i := j\<lparr>j_dependency_status := DepSatisfied\<rparr>], failed, changed)
               else s))"

definition settle_pass ::
  "externs \<Rightarrow> time \<Rightarrow> (job_id \<rightharpoonup> nat) \<Rightarrow> (job_id \<rightharpoonup> parent_state) \<Rightarrow>
     job list \<times> job_id list \<Rightarrow> job list \<times> job_id list \<times> bool" where
  "settle_pass E now index parents s =
     fold (settle_one E now index parents) [0..<length (fst s)] (fst s, snd s, False)"

definition waiting_count :: "job list \<Rightarrow> nat" where
  "waiting_count jobs = length (filter (\<lambda>j. j_dependency_status j = DepWaiting) jobs)"

lemma waiting_count_update:
  assumes "i < length jobs" and "j_dependency_status (jobs ! i) = DepWaiting"
    and "j_dependency_status j \<noteq> DepWaiting"
  shows "waiting_count (jobs[i := j]) < waiting_count jobs"
  using count_list_update [of i jobs "\<lambda>j. j_dependency_status j = DepWaiting" j] assms
  by (simp add: waiting_count_def)

lemma settle_one_length [simp]:
  "length (fst (settle_one E now index parents i s)) = length (fst s)"
  by (cases s) (auto simp: settle_one_def Let_def split: option.splits)

lemma settle_fold_length [simp]:
  "length (fst (fold (settle_one E now index parents) is s)) = length (fst s)"
  by (induction "is" arbitrary: s) auto

lemma settle_one_count:
  assumes "i < length (fst s)"
  shows "waiting_count (fst (settle_one E now index parents i s)) +
      (if snd (snd (settle_one E now index parents i s)) \<and> \<not> snd (snd s) then 1 else 0)
    \<le> waiting_count (fst s)"
proof (cases s)
  case (fields jobs failed changed)
  have "waiting_count (jobs[i := fail_new E now p (jobs ! i)]) < waiting_count jobs"
    "waiting_count (jobs[i := (jobs ! i)\<lparr>j_dependency_status := DepSatisfied\<rparr>]) < waiting_count jobs"
    if "j_dependency_status (jobs ! i) = DepWaiting" for p
    using that assms fields by (auto intro!: waiting_count_update simp: fail_new_def)
  with fields show ?thesis
    by (auto simp: settle_one_def Let_def less_imp_le Suc_le_eq split: option.splits)
qed

lemma settle_fold_count:
  "(\<forall>i \<in> set is. i < length (fst s)) \<Longrightarrow>
     waiting_count (fst (fold (settle_one E now index parents) is s)) +
       (if snd (snd (fold (settle_one E now index parents) is s)) \<and> \<not> snd (snd s) then 1 else 0)
     \<le> waiting_count (fst s)"
proof (induction "is" arbitrary: s)
  case (Cons i "is")
  let ?s = "settle_one E now index parents i s"
  from Cons.prems have "i < length (fst s)" and "\<forall>k \<in> set is. k < length (fst ?s)" by auto
  with settle_one_count [of i s E now index parents] Cons.IH [of ?s]
  show ?case by (auto split: if_splits)
qed simp

lemma settle_pass_decreases:
  "settle_pass E now index parents s = (jobs, failed, True) \<Longrightarrow>
     waiting_count jobs < waiting_count (fst s)"
  using settle_fold_count [of "[0..<length (fst s)]" "(fst s, snd s, False)" E now index parents]
  by (simp add: settle_pass_def)

function settle_loop ::
  "externs \<Rightarrow> time \<Rightarrow> (job_id \<rightharpoonup> nat) \<Rightarrow> (job_id \<rightharpoonup> parent_state) \<Rightarrow>
     job list \<times> job_id list \<Rightarrow> job list \<times> job_id list" where
  "settle_loop E now index parents s =
     (case settle_pass E now index parents s of
        (jobs, failed, changed) \<Rightarrow>
          if changed then settle_loop E now index parents (jobs, failed) else (jobs, failed))"
  by pat_completeness auto
termination
  by (relation "measure (\<lambda>(E, now, index, parents, s). waiting_count (fst s))")
    (auto dest: settle_pass_decreases [OF sym])

declare settle_loop.simps [simp del]

definition settle_new_dependents ::
  "externs \<Rightarrow> job list \<Rightarrow> (job_id \<rightharpoonup> parent_state) \<Rightarrow> time \<Rightarrow> job list \<times> job_id list" where
  "settle_new_dependents E jobs parents now =
     settle_loop E now (index_of jobs) parents (jobs, [])"

end
