(* ===== verification/Batch.thy ===== *)
theory Batch
  imports Workflow
begin

text \<open>
  Job batches: \<open>src/src/batch.rs\<close>. The batch record with its builders, its validation, the
  split of a large batch into chunks, and the progress rule that turns the status counts of a
  batch's jobs into a batch status. \<open>Uuid::new_v4\<close> of the chunks is the function \<open>uuids\<close>.
\<close>

subsection \<open>Data\<close>

datatype partial_failure_mode = ContinueOnError | BatchFailFast | CollectErrors

datatype batch_status =
  BatchPending | BatchProcessing | BatchCompleted | BatchPartiallyFailed | BatchFailed

record job_batch =
  b_id :: batch_id
  b_name :: string
  b_jobs :: "job list"
  b_batch_size :: "nat option"
  b_failure_mode :: partial_failure_mode
  b_created_at :: time
  b_metadata :: "(string \<times> string) list"

record batch_result =
  r_batch_id :: batch_id
  r_total_jobs :: nat
  r_completed_jobs :: nat
  r_failed_jobs :: nat
  r_pending_jobs :: nat
  r_status :: batch_status
  r_created_at :: time
  r_completed_at :: "time option"
  r_error_summary :: "string option"
  r_job_errors :: "(job_id \<times> string) list"

definition batch_new :: "uuid \<Rightarrow> time \<Rightarrow> string \<Rightarrow> job_batch" where
  "batch_new uuid now name =
     \<lparr>b_id = uuid, b_name = name, b_jobs = [], b_batch_size = None,
      b_failure_mode = ContinueOnError, b_created_at = now, b_metadata = []\<rparr>"

definition batch_with_jobs :: "job_batch \<Rightarrow> job list \<Rightarrow> job_batch" where
  "batch_with_jobs b js = b\<lparr>b_jobs := js\<rparr>"

definition batch_add_job :: "job_batch \<Rightarrow> job \<Rightarrow> job_batch" where
  "batch_add_job b j = b\<lparr>b_jobs := b_jobs b @ [j]\<rparr>"

definition batch_with_size :: "job_batch \<Rightarrow> nat \<Rightarrow> job_batch" where
  "batch_with_size b n = b\<lparr>b_batch_size := Some n\<rparr>"

definition batch_with_failure_mode :: "job_batch \<Rightarrow> partial_failure_mode \<Rightarrow> job_batch" where
  "batch_with_failure_mode b m = b\<lparr>b_failure_mode := m\<rparr>"

definition batch_with_metadata :: "job_batch \<Rightarrow> string \<Rightarrow> string \<Rightarrow> job_batch" where
  "batch_with_metadata b k v = b\<lparr>b_metadata := AList.update k v (b_metadata b)\<rparr>"

subsection \<open>Validation\<close>

text \<open>The first job, by index, whose queue differs from that of the first job.\<close>

fun other_queue :: "string \<Rightarrow> nat \<Rightarrow> job list \<Rightarrow> (nat \<times> string) option" where
  "other_queue q i [] = None"
| "other_queue q i (j # js) =
     (if j_queue_name j \<noteq> q then Some (i, j_queue_name j) else other_queue q (Suc i) js)"

definition batch_validate :: "externs \<Rightarrow> job_batch \<Rightarrow> unit res" where
  "batch_validate E b =
     (if b_jobs b = [] then Inl (QueueError ''Batch cannot be empty'')
      else if 10000 < length (b_jobs b) then
        Inl (QueueError (''Batch size '' @ show_nat (length (b_jobs b))
          @ '' exceeds maximum allowed size of 10,000 jobs''))
      else
        (case validate_dependency_limits E (b_jobs b) of
           Inl e \<Rightarrow> Inl e
         | Inr _ \<Rightarrow>
             (let first_queue = j_queue_name (hd (b_jobs b)) in
              case other_queue first_queue 0 (b_jobs b) of
                Some (i, q) \<Rightarrow>
                  Inl (QueueError
                    (''All jobs in a batch must have the same queue name. Job at index ''
                     @ show_nat i @ '' has queue '' @ [CHR 0x27] @ q @ [CHR 0x27]
                     @ '' but expected '' @ [CHR 0x27] @ first_queue @ [CHR 0x27]))
              | None \<Rightarrow> Inr ())))"

subsection \<open>Chunks\<close>

text \<open>\<open>slice::chunks\<close>; it panics on a chunk size of zero, which \<open>into_chunks\<close> never passes.\<close>

function chunks :: "nat \<Rightarrow> 'a list \<Rightarrow> 'a list list" where
  "chunks n xs = (if xs = [] \<or> n = 0 then [] else take n xs # chunks n (drop n xs))"
  by pat_completeness auto
termination
  by (relation "measure (\<lambda>(n, xs). length xs)") auto

declare chunks.simps [simp del]

definition chunk_size :: "job_batch \<Rightarrow> nat" where
  "chunk_size b = (case b_batch_size b of Some n \<Rightarrow> if 0 < n then n else 1000 | None \<Rightarrow> 1000)"

definition into_chunks :: "(nat \<Rightarrow> uuid) \<Rightarrow> job_batch \<Rightarrow> job_batch list" where
  "into_chunks uuids b =
     (if length (b_jobs b) \<le> chunk_size b then [b]
      else map (\<lambda>(i, chunk).
             \<lparr>b_id = uuids i, b_name = b_name b @ ''_chunk_'' @ show_nat (i + 1), b_jobs = chunk,
              b_batch_size = b_batch_size b, b_failure_mode = b_failure_mode b,
              b_created_at = b_created_at b, b_metadata = b_metadata b\<rparr>)
           (List.enumerate 0 (chunks (chunk_size b) (b_jobs b))))"

subsection \<open>Progress\<close>

record batch_progress =
  bp_completed :: nat
  bp_failed :: nat
  bp_pending :: nat
  bp_status :: batch_status

text \<open>\<open>u32::try_from(count).unwrap_or(0)\<close>.\<close>

definition count_u32 :: "int \<Rightarrow> nat" where
  "count_u32 n = (if 0 \<le> n \<and> n < 2 ^ 32 then nat n else 0)"

fun tally :: "(string \<times> int) list \<Rightarrow> nat \<times> nat \<times> nat \<Rightarrow> nat \<times> nat \<times> nat" where
  "tally [] acc = acc"
| "tally ((s, n) # rest) (completed, failed, pending) =
     (let count = count_u32 n; t = trim_quotes s in
      if t = ''Completed'' then tally rest (u32_add completed count, failed, pending)
      else if t = ''Failed'' \<or> t = ''Dead'' \<or> t = ''TimedOut''
      then tally rest (completed, u32_add failed count, pending)
      else if t = ''Pending'' \<or> t = ''Retrying'' \<or> t = ''Running''
      then tally rest (completed, failed, u32_add pending count)
      else tally rest (completed, failed, pending))"

definition batch_status_of :: "nat \<Rightarrow> nat \<Rightarrow> nat \<Rightarrow> partial_failure_mode \<Rightarrow> batch_status" where
  "batch_status_of completed failed total_jobs mode =
     (let finished = u32_add completed failed in
      if 0 < failed \<and> mode = BatchFailFast then BatchFailed
      else if 0 < total_jobs \<and> total_jobs \<le> completed then BatchCompleted
      else if 0 < total_jobs \<and> total_jobs \<le> failed then BatchFailed
      else if 0 < total_jobs \<and> total_jobs \<le> finished then BatchPartiallyFailed
      else if finished = 0 then BatchPending
      else BatchProcessing)"

definition batch_progress_of ::
  "(string \<times> int) list \<Rightarrow> nat \<Rightarrow> partial_failure_mode \<Rightarrow> batch_progress" where
  "batch_progress_of counts total_jobs mode =
     (case tally counts (0, 0, 0) of
        (completed, failed, pending) \<Rightarrow>
          \<lparr>bp_completed = completed, bp_failed = failed, bp_pending = pending,
           bp_status = batch_status_of completed failed total_jobs mode\<rparr>)"

subsection \<open>Lemmas\<close>

lemma other_queue_None: "other_queue q i js = None \<longleftrightarrow> (\<forall>j \<in> set js. j_queue_name j = q)"
  by (induction js arbitrary: i) auto

lemma batch_validate_ok:
  "batch_validate E b = Inr () \<longleftrightarrow>
     b_jobs b \<noteq> [] \<and> length (b_jobs b) \<le> 10000 \<and> (\<forall>j \<in> set (b_jobs b). within_limits j) \<and>
     (\<forall>j \<in> set (b_jobs b). \<forall>k \<in> set (b_jobs b). j_queue_name j = j_queue_name k)"
proof (cases "b_jobs b = [] \<or> 10000 < length (b_jobs b)")
  case True
  then show ?thesis by (auto simp: batch_validate_def)
next
  case False
  then have hd: "hd (b_jobs b) \<in> set (b_jobs b)" by auto
  have "batch_validate E b = Inr () \<longleftrightarrow> validate_dependency_limits E (b_jobs b) = Inr () \<and>
      other_queue (j_queue_name (hd (b_jobs b))) 0 (b_jobs b) = None"
    using False by (simp add: batch_validate_def Let_def split: sum.splits option.splits)
  also have "\<dots> \<longleftrightarrow> (\<forall>j \<in> set (b_jobs b). within_limits j) \<and>
      (\<forall>j \<in> set (b_jobs b). j_queue_name j = j_queue_name (hd (b_jobs b)))"
    by (simp add: validate_dependency_limits_ok other_queue_None)
  finally show ?thesis using False hd by (metis not_less)
qed

lemma concat_chunks: "0 < n \<Longrightarrow> concat (chunks n xs) = xs"
proof (induction n xs rule: chunks.induct)
  case (1 n xs)
  then show ?case by (subst chunks.simps) auto
qed

lemma chunks_length: "ys \<in> set (chunks n xs) \<Longrightarrow> ys \<noteq> [] \<and> length ys \<le> n"
proof (induction n xs rule: chunks.induct)
  case (1 n xs)
  then show ?case
    by (subst (asm) chunks.simps) (auto split: if_splits)
qed

lemma chunk_size_pos: "0 < chunk_size b"
  by (auto simp: chunk_size_def split: option.splits)

lemma into_chunks_jobs: "map b_jobs (into_chunks uuids b) =
    (if length (b_jobs b) \<le> chunk_size b then [b_jobs b] else chunks (chunk_size b) (b_jobs b))"
  by (auto simp: into_chunks_def o_def split_beta enumerate_eq_zip)

end
