(* ===== verification/RateLimit.thy ===== *)
theory RateLimit
  imports Prelude
begin

text \<open>
  Rate limits and throttle configurations: the configuration half of
  \<open>src/src/rate_limit.rs\<close>. The constructors reject a rate or a burst of zero, so every value
  that exists can make progress.
\<close>

record rate_limit =
  rl_rate :: nat
  rl_per :: duration
  rl_burst_limit :: nat

abbreviation seconds :: "nat \<Rightarrow> duration" where
  "seconds n \<equiv> n * 1000000000"

definition rate_limit_try_new :: "nat \<Rightarrow> duration \<Rightarrow> string \<Rightarrow> rate_limit res" where
  "rate_limit_try_new rate per unit =
     (if rate = 0 then
        Inl (ConfigError (''rate limit must allow at least one operation per '' @ unit @ '' (got 0)''))
      else Inr \<lparr>rl_rate = rate, rl_per = per, rl_burst_limit = rate\<rparr>)"

definition per_second :: "nat \<Rightarrow> rate_limit res" where
  "per_second rate = rate_limit_try_new rate (seconds 1) ''second''"

definition per_minute :: "nat \<Rightarrow> rate_limit res" where
  "per_minute rate = rate_limit_try_new rate (seconds 60) ''minute''"

definition per_hour :: "nat \<Rightarrow> rate_limit res" where
  "per_hour rate = rate_limit_try_new rate (seconds 3600) ''hour''"

definition with_burst_limit :: "rate_limit \<Rightarrow> nat \<Rightarrow> rate_limit res" where
  "with_burst_limit r n =
     (if n = 0 then Inl (ConfigError ''rate limit burst limit must be at least 1 (got 0)'')
      else Inr (r\<lparr>rl_burst_limit := n\<rparr>))"

record throttle_config =
  t_max_concurrent :: "nat option"
  t_rate_per_minute :: "nat option"
  t_backoff_on_error :: "duration option"
  t_enabled :: bool

definition throttle_new :: throttle_config where
  "throttle_new =
     \<lparr>t_max_concurrent = None, t_rate_per_minute = None, t_backoff_on_error = None,
      t_enabled = True\<rparr>"

definition to_rate_limit :: "throttle_config \<Rightarrow> rate_limit option res" where
  "to_rate_limit c =
     (case t_rate_per_minute c of
        None \<Rightarrow> Inr None
      | Some rate \<Rightarrow>
          (case per_minute rate of
             Inl e \<Rightarrow> Inl e
           | Inr r \<Rightarrow> Inr (Some r)))"

definition throttle_validate :: "throttle_config \<Rightarrow> unit res" where
  "throttle_validate c =
     (if t_enabled c then
        (case to_rate_limit c of Inl e \<Rightarrow> Inl e | Inr _ \<Rightarrow> Inr ())
      else Inr ())"

text \<open>Every rate limit the constructors return has a positive rate, window and burst.\<close>

definition rate_limit_ok :: "rate_limit \<Rightarrow> bool" where
  "rate_limit_ok r \<longleftrightarrow> 0 < rl_rate r \<and> 0 < rl_per r \<and> 0 < rl_burst_limit r"

lemma constructors_ok:
  "per_second n = Inr r \<Longrightarrow> rate_limit_ok r"
  "per_minute n = Inr r \<Longrightarrow> rate_limit_ok r"
  "per_hour n = Inr r \<Longrightarrow> rate_limit_ok r"
  by (auto simp: per_second_def per_minute_def per_hour_def rate_limit_try_new_def
      rate_limit_ok_def split: if_splits)

lemma with_burst_limit_ok:
  "rate_limit_ok r \<Longrightarrow> with_burst_limit r n = Inr r' \<Longrightarrow> rate_limit_ok r'"
  by (auto simp: with_burst_limit_def rate_limit_ok_def split: if_splits)

lemma throttle_validate_ok:
  "throttle_validate c = Inr () \<longleftrightarrow> t_enabled c \<longrightarrow> t_rate_per_minute c \<noteq> Some 0"
  by (auto simp: throttle_validate_def to_rate_limit_def per_minute_def rate_limit_try_new_def
      split: option.splits if_splits)

end
