(* ===== verification/Storage.thy ===== *)
theory Storage
  imports Lifecycle Batch RateLimit
begin

text \<open>
  The state of the in-memory queue and the operations of \<open>TestStorage\<close>:
  \<open>src/src/queue/test.rs\<close>. Jobs by id, the index of job ids by queue and status, batches,
  workflows, dependency maps, results, pauses and leases, and the mock clock. The public queue
  operations are in \<open>TestQueue\<close>; the invariant that ties the index to the jobs is in
  \<open>StorageInv\<close>.

  A map whose iteration the code observes is an association list (its order stands for the
  iteration order of the \<open>HashMap\<close>); the others are partial functions.
\<close>

subsection \<open>State\<close>

record queue_pause_info =
  qp_queue_name :: string
  qp_paused_at :: time
  qp_paused_by :: "string option"
  qp_reason :: "string option"

record storage =
  s_jobs :: "(job_id \<times> job) list"
  s_queues :: "string \<rightharpoonup> (job_status \<rightharpoonup> job_id list)"
  s_batches :: "batch_id \<rightharpoonup> job_batch"
  s_batch_jobs :: "batch_id \<rightharpoonup> job_id list"
  s_workflows :: "(workflow_id \<times> job_group) list"
  s_dependencies :: "job_id \<rightharpoonup> job_id list"
  s_dependents :: "job_id \<rightharpoonup> job_id list"
  s_throttle_configs :: "(string \<times> throttle_config) list"
  s_job_results :: "(job_id \<times> json \<times> time option) list"
  s_paused_queues :: "(string \<times> queue_pause_info) list"
  s_leases :: "job_id \<rightharpoonup> time \<times> time"
  s_clock :: time

definition storage_new :: "time \<Rightarrow> storage" where
  "storage_new clock =
     \<lparr>s_jobs = [], s_queues = Map.empty, s_batches = Map.empty, s_batch_jobs = Map.empty,
      s_workflows = [], s_dependencies = Map.empty, s_dependents = Map.empty,
      s_throttle_configs = [], s_job_results = [], s_paused_queues = [],
      s_leases = Map.empty, s_clock = clock\<rparr>"

text \<open>\<open>MockClock::advance\<close> and \<open>MockClock::set_time\<close>.\<close>

definition clock_advance :: "int \<Rightarrow> storage \<Rightarrow> storage" where
  "clock_advance d st = st\<lparr>s_clock := s_clock st + d\<rparr>"

definition clock_set_time :: "time \<Rightarrow> storage \<Rightarrow> storage" where
  "clock_set_time t st = st\<lparr>s_clock := t\<rparr>"

definition lease_expiry :: "externs \<Rightarrow> time \<Rightarrow> duration \<Rightarrow> time" where
  "lease_expiry E now lease = (if lease = 0 then max_utc E else saturating_add_to E now lease)"

abbreviation get_stored :: "storage \<Rightarrow> job_id \<Rightarrow> job option" where
  "get_stored st i \<equiv> map_of (s_jobs st) i"

text \<open>\<open>jobs.get_mut(id)\<close> followed by an assignment to fields of the job.\<close>

definition modify_job :: "storage \<Rightarrow> job_id \<Rightarrow> (job \<Rightarrow> job) \<Rightarrow> storage" where
  "modify_job st i f =
     (case get_stored st i of
        None \<Rightarrow> st
      | Some j \<Rightarrow> st\<lparr>s_jobs := AList.update i (f j) (s_jobs st)\<rparr>)"

definition remove_lease :: "storage \<Rightarrow> job_id \<Rightarrow> storage" where
  "remove_lease st i = st\<lparr>s_leases := (s_leases st)(i := None)\<rparr>"

subsection \<open>The index by queue and status\<close>

definition status_jobs :: "storage \<Rightarrow> string \<Rightarrow> job_status \<Rightarrow> job_id list" where
  "status_jobs st q s = unwrap_or (Option.bind (s_queues st q) (\<lambda>m. m s)) []"

text \<open>\<open>entry(..).or_default()\<close> at both levels, then a push if the id is absent.\<close>

definition push_status :: "storage \<Rightarrow> string \<Rightarrow> job_status \<Rightarrow> job_id \<Rightarrow> storage" where
  "push_status st q s i =
     (let m = unwrap_or (s_queues st q) Map.empty; l = unwrap_or (m s) [] in
      st\<lparr>s_queues := (s_queues st)(q \<mapsto> m(s \<mapsto> push_new l i))\<rparr>)"

text \<open>\<open>get_mut\<close> at both levels, then a \<open>retain\<close> of the other ids.\<close>

definition retain_status :: "storage \<Rightarrow> string \<Rightarrow> job_status \<Rightarrow> job_id \<Rightarrow> storage" where
  "retain_status st q s i =
     (case s_queues st q of
        None \<Rightarrow> st
      | Some m \<Rightarrow>
          (case m s of
             None \<Rightarrow> st
           | Some l \<Rightarrow>
               st\<lparr>s_queues := (s_queues st)(q \<mapsto> m(s \<mapsto> filter (\<lambda>x. x \<noteq> i) l))\<rparr>))"

definition add_job_to_queue :: "storage \<Rightarrow> job \<Rightarrow> storage" where
  "add_job_to_queue st j = push_status st (j_queue_name j) (j_status j) (j_id j)"

definition insert_job :: "storage \<Rightarrow> job \<Rightarrow> storage" where
  "insert_job st j = st\<lparr>s_jobs := AList.update (j_id j) j (s_jobs st)\<rparr>"

subsection \<open>Status changes\<close>

definition check_transition :: "externs \<Rightarrow> storage \<Rightarrow> job_id \<Rightarrow> job_transition \<Rightarrow> unit res" where
  "check_transition E st i t =
     (case get_stored st i of
        None \<Rightarrow> Inl (JobNotFound (uuid_show E i))
      | Some j \<Rightarrow>
          if is_allowed_from t (j_status j) then Inr () else Inl (rejected E t i (j_status j)))"

text \<open>
  The body of \<open>update_job_status\<close> for a job that exists; a missing job is \<open>JobNotFound\<close> and
  changes nothing.
\<close>

definition set_status :: "storage \<Rightarrow> job_id \<Rightarrow> job \<Rightarrow> job_status \<Rightarrow> storage" where
  "set_status st i j s =
     push_status
       (modify_job (retain_status st (j_queue_name j) (j_status j) i) i (\<lambda>j. j\<lparr>j_status := s\<rparr>))
       (j_queue_name j) s i"

definition update_job_status :: "externs \<Rightarrow> storage \<Rightarrow> job_id \<Rightarrow> job_status \<Rightarrow> storage res" where
  "update_job_status E st i s =
     (case get_stored st i of
        None \<Rightarrow> Inl (JobNotFound (uuid_show E i))
      | Some j \<Rightarrow> Inr (set_status st i j s))"

definition reschedule_in_place ::
  "externs \<Rightarrow> storage \<Rightarrow> job_id \<Rightarrow> time \<Rightarrow> bool \<Rightarrow> storage res" where
  "reschedule_in_place E st i next_run_at keep_failure =
     (case update_job_status E st i Pending of
        Inl e \<Rightarrow> Inl e
      | Inr st1 \<Rightarrow>
          Inr (modify_job (remove_lease st1 i) i
            (\<lambda>j. let j' = j\<lparr>j_scheduled_at := next_run_at, j_next_run_at := Some next_run_at,
                            j_attempts := 0, j_started_at := None, j_completed_at := None\<rparr> in
                 if keep_failure then j'
                 else j'\<lparr>j_failed_at := None, j_timed_out_at := None, j_error_message := None\<rparr>)))"

definition stamp_enqueued :: "externs \<Rightarrow> time \<Rightarrow> job \<Rightarrow> job" where
  "stamp_enqueued E now j =
     j\<lparr>j_scheduled_at := unwrap_or
         (checked_add_signed E now (j_scheduled_at j - j_created_at j)) (j_scheduled_at j),
       j_created_at := now\<rparr>"

definition mark_failed :: "string \<Rightarrow> time \<Rightarrow> job \<Rightarrow> job" where
  "mark_failed err now j =
     (let j' = j\<lparr>j_failed_at := Some now, j_error_message := Some err\<rparr> in
      if j_dependency_status j = DepWaiting then j'\<lparr>j_dependency_status := DepFailed\<rparr> else j')"

definition fail_as_side_effect ::
  "externs \<Rightarrow> storage \<Rightarrow> job_id \<Rightarrow> string \<Rightarrow> time \<Rightarrow> storage" where
  "fail_as_side_effect E st i err now =
     (case update_job_status E st i Failed of
        Inl _ \<Rightarrow> st
      | Inr st1 \<Rightarrow> modify_job (remove_lease st1 i) i (mark_failed err now))"

subsection \<open>Failure propagation\<close>

definition workflow_of :: "storage \<Rightarrow> job_id \<Rightarrow> job_group option" where
  "workflow_of st i =
     opt_or
       (Option.bind (Option.bind (get_stored st i) j_workflow_id) (map_of (s_workflows st)))
       (find (\<lambda>w. \<exists>j \<in> set (g_jobs w). j_id j = i) (values_of (s_workflows st)))"

definition direct_dependents :: "storage \<Rightarrow> job_id \<Rightarrow> job_id list" where
  "direct_dependents st i =
     fold (\<lambda>j acc. if i \<in> set (j_depends_on j) then push_new acc (j_id j) else acc)
       (values_of (s_jobs st)) (unwrap_or (s_dependents st i) [])"

definition pending_dependent :: "storage \<Rightarrow> job_id \<Rightarrow> bool" where
  "pending_dependent st i \<longleftrightarrow>
     is_some_and (get_stored st i)
       (\<lambda>j. j_status j = Pending \<and> j_dependency_status j \<noteq> DepFailed)"

text \<open>
  The two loops of \<open>fail_dependents\<close>: over the dependents of one job, and over the stack of jobs
  to check (its top is the head of the list).
\<close>

fun fail_direct ::
  "externs \<Rightarrow> time \<Rightarrow> job_id \<Rightarrow> job_id list \<Rightarrow> storage \<times> job_id list \<times> job_id list \<Rightarrow>
     storage \<times> job_id list \<times> job_id list" where
  "fail_direct E now current [] s = s"
| "fail_direct E now current (i # is) (st, failed, to_check) =
     (if pending_dependent st i \<and> i \<notin> set failed then
        fail_direct E now current is
          (fail_as_side_effect E st i (dependency_failed_message E current) now,
           failed @ [i], i # to_check)
      else fail_direct E now current is (st, failed, to_check))"

definition pending_count :: "storage \<Rightarrow> nat" where
  "pending_count st = length (filter (\<lambda>j. j_status j = Pending) (values_of (s_jobs st)))"

lemma s_jobs_set_status:
  "get_stored st i = Some j \<Longrightarrow>
     s_jobs (set_status st i j s) = AList.update i (j\<lparr>j_status := s\<rparr>) (s_jobs st)"
  by (simp add: set_status_def push_status_def retain_status_def modify_job_def Let_def
      split: option.splits)

lemma s_jobs_fail_as_side_effect:
  "get_stored st i = Some j \<Longrightarrow>
     s_jobs (fail_as_side_effect E st i err now) =
       AList.update i (mark_failed err now (j\<lparr>j_status := Failed\<rparr>)) (s_jobs st)"
  by (simp add: fail_as_side_effect_def update_job_status_def modify_job_def remove_lease_def
      s_jobs_set_status)

lemma mark_failed_status [simp]: "j_status (mark_failed err now j) = j_status j"
  by (simp add: mark_failed_def Let_def)

lemma pending_count_fail:
  assumes "pending_dependent st i"
  shows "Suc (pending_count (fail_as_side_effect E st i err now)) = pending_count st"
proof -
  from assms obtain j where j: "get_stored st i = Some j" and p: "j_status j = Pending"
    by (auto simp: pending_dependent_def is_some_and_iff)
  from count_update_existing [OF j, of "\<lambda>j. j_status j = Pending"
      "mark_failed err now (j\<lparr>j_status := Failed\<rparr>)"] p
  show ?thesis by (simp add: pending_count_def s_jobs_fail_as_side_effect [OF j])
qed

lemma fail_direct_measure:
  "(case fail_direct E now current is (st, failed, to_check) of
      (st', failed', to_check') \<Rightarrow> 2 * pending_count st' + length to_check')
   \<le> 2 * pending_count st + length to_check"
proof (induction "is" arbitrary: st failed to_check)
  case (Cons i "is")
  let ?st = "fail_as_side_effect E st i (dependency_failed_message E current) now"
  show ?case
  proof (cases "pending_dependent st i \<and> i \<notin> set failed")
    case True
    with Cons.IH [of ?st "failed @ [i]" "i # to_check"]
      pending_count_fail [of st i E "dependency_failed_message E current" now]
    show ?thesis by simp
  next
    case False
    with Cons.IH [of st failed to_check] show ?thesis by auto
  qed
qed simp

function fail_dependents_loop ::
  "externs \<Rightarrow> time \<Rightarrow> storage \<Rightarrow> job_id list \<Rightarrow> job_id list \<Rightarrow> storage \<times> job_id list" where
  "fail_dependents_loop E now st failed [] = (st, failed)"
| "fail_dependents_loop E now st failed (current # to_check) =
     (case fail_direct E now current (direct_dependents st current) (st, failed, to_check) of
        (st', failed', to_check') \<Rightarrow> fail_dependents_loop E now st' failed' to_check')"
  by pat_completeness auto
termination
  by (relation "measure (\<lambda>(E, now, st, failed, to_check). 2 * pending_count st + length to_check)")
    (auto simp: less_Suc_eq_le fail_direct_measure)

definition fail_dependents :: "externs \<Rightarrow> storage \<Rightarrow> job_id \<Rightarrow> time \<Rightarrow> storage \<times> job_id list" where
  "fail_dependents E st failed_job_id now = fail_dependents_loop E now st [] [failed_job_id]"

definition unstarted :: "storage \<Rightarrow> job_id \<Rightarrow> bool" where
  "unstarted st i \<longleftrightarrow>
     is_some_and (get_stored st i) (\<lambda>j. j_status j = Pending \<or> j_status j = Retrying)"

text \<open>The loop over the jobs of a fail-fast workflow or batch.\<close>

fun fail_listed ::
  "externs \<Rightarrow> string \<Rightarrow> time \<Rightarrow> job_id list \<Rightarrow> storage \<times> job_id list \<Rightarrow> storage \<times> job_id list" where
  "fail_listed E err now [] s = s"
| "fail_listed E err now (i # is) (st, failed) =
     (if unstarted st i
      then fail_listed E err now is (fail_as_side_effect E st i err now, failed @ [i])
      else fail_listed E err now is (st, failed))"

definition apply_workflow_failure ::
  "externs \<Rightarrow> storage \<Rightarrow> job_id \<Rightarrow> time \<Rightarrow> storage \<times> job_id list" where
  "apply_workflow_failure E st i now =
     (case workflow_of st i of
        None \<Rightarrow> fail_dependents E st i now
      | Some w \<Rightarrow>
          (case g_failure_policy w of
             Manual \<Rightarrow> (st, [])
           | ContinueOnFailure \<Rightarrow> fail_dependents E st i now
           | FailFast \<Rightarrow>
               (case fail_listed E (workflow_failed_message E i) now
                       (filter (\<lambda>k. k \<noteq> i) (map j_id (g_jobs w))) (st, []) of
                  (st1, failed) \<Rightarrow>
                    (case fail_dependents E st1 i now of
                       (st2, rest) \<Rightarrow> (st2, fold (\<lambda>k acc. push_new acc k) rest failed)))))"

definition apply_batch_failure ::
  "externs \<Rightarrow> storage \<Rightarrow> job_id \<Rightarrow> time \<Rightarrow> storage \<times> job_id list" where
  "apply_batch_failure E st i now =
     (case Option.bind (get_stored st i) j_batch_id of
        None \<Rightarrow> (st, [])
      | Some b \<Rightarrow>
          if \<not> is_some_and (s_batches st b) (\<lambda>x. b_failure_mode x = BatchFailFast) then (st, [])
          else fail_listed E (batch_failed_message E i) now
                 (unwrap_or (s_batch_jobs st b) []) (st, []))"

subsection \<open>Selecting jobs\<close>

definition eligible_jobs :: "storage \<Rightarrow> string \<Rightarrow> job list" where
  "eligible_jobs st q =
     (if map_of (s_paused_queues st) q \<noteq> None then []
      else
        (case Option.bind (s_queues st q) (\<lambda>m. m Pending) of
           None \<Rightarrow> []
         | Some pending_jobs \<Rightarrow>
             filter (\<lambda>j. j_recurring j \<or> j_cron_schedule j = None)
               (filter (\<lambda>j. j_dependency_status j = DepNone \<or> j_dependency_status j = DepSatisfied)
                 (filter (\<lambda>j. j_scheduled_at j \<le> s_clock st)
                   (List.map_filter (get_stored st) pending_jobs)))))"

text \<open>Rust's \<open>Reverse(t)\<close> orders a time backwards.\<close>

abbreviation strict_key :: "job \<Rightarrow> int \<times> int" where
  "strict_key j \<equiv> (as_i32 (j_priority j), - j_scheduled_at j)"

definition get_next_job ::
  "externs \<Rightarrow> storage \<Rightarrow> string \<Rightarrow> priority_weights option \<Rightarrow> job_id option" where
  "get_next_job E st q weights =
     (let eligible = eligible_jobs st q in
      if eligible = [] then None
      else
        (case weights of
           None \<Rightarrow> map_option j_id (max_by_key strict_key eligible)
         | Some w \<Rightarrow>
             if pw_strict w then map_option j_id (max_by_key strict_key eligible)
             else
               (let candidates = rev (sort (remdups (map j_priority eligible))) in
                case pick_weighted_priority candidates w
                       (hash_seed E q (s_clock st div 1000000) None) of
                  None \<Rightarrow> None
                | Some p \<Rightarrow>
                    map_option j_id
                      (min_by_key j_scheduled_at (filter (\<lambda>j. j_priority j = p) eligible)))))"

text \<open>The levels are picked one after the other until the batch is full or no level is left.\<close>

function claim_levels ::
  "externs \<Rightarrow> storage \<Rightarrow> string \<Rightarrow> priority_weights \<Rightarrow> nat \<Rightarrow> job list \<Rightarrow> nat \<Rightarrow>
     job_priority list \<Rightarrow> job_id list \<Rightarrow> job_id list" where
  "claim_levels E st q w max_jobs eligible attempt candidates claimed =
     (if length claimed < max_jobs then
        (case pick_weighted_priority candidates w
                (hash_seed E q (s_clock st div 1000000) (Some attempt)) of
           None \<Rightarrow> claimed
         | Some p \<Rightarrow>
             claim_levels E st q w max_jobs eligible (Suc attempt)
               (filter (\<lambda>c. c \<noteq> p) candidates)
               (claimed @ map j_id (take (max_jobs - length claimed)
                  (filter (\<lambda>j. j_priority j = p) eligible))))
      else claimed)"
  by pat_completeness auto
termination
  by (relation "measure (\<lambda>(E, st, q, w, max_jobs, eligible, attempt, candidates, claimed).
        length candidates)")
    (auto dest!: pick_in_candidates intro!: length_filter_less)

declare claim_levels.simps [simp del]

abbreviation batch_key :: "job \<Rightarrow> int \<times> int \<times> int" where
  "batch_key j \<equiv> (- as_i32 (j_priority j), j_scheduled_at j, j_created_at j)"

definition get_next_jobs ::
  "externs \<Rightarrow> storage \<Rightarrow> string \<Rightarrow> priority_weights option \<Rightarrow> nat \<Rightarrow> job_id list" where
  "get_next_jobs E st q weights max_jobs =
     (let eligible = sort_key batch_key (eligible_jobs st q) in
      case weights of
        None \<Rightarrow> map j_id (take max_jobs eligible)
      | Some w \<Rightarrow>
          if pw_strict w then map j_id (take max_jobs eligible)
          else claim_levels E st q w max_jobs eligible 0
                 (fold (\<lambda>p acc. push_new acc p) (map j_priority eligible) []) [])"

subsection \<open>Dependencies\<close>

definition dependencies_of :: "storage \<Rightarrow> job_id \<Rightarrow> job_id list" where
  "dependencies_of st i =
     fold (\<lambda>d acc. push_new acc d) (unwrap_or (s_dependencies st i) [])
       (unwrap_or (map_option j_depends_on (get_stored st i)) [])"

definition status_with_archived :: "storage \<Rightarrow> job_id \<Rightarrow> job_status option" where
  "status_with_archived st i =
     map_option
       (\<lambda>j. if j_status j = Archived \<and> j_completed_at j \<noteq> None then Completed
            else if j_status j = Archived \<and> j_timed_out_at j \<noteq> None then TimedOut
            else if j_status j = Archived \<and> j_failed_at j \<noteq> None then Failed
            else j_status j)
       (get_stored st i)"

definition dependency_states :: "storage \<Rightarrow> job_id list \<Rightarrow> job_id \<rightharpoonup> job_status" where
  "dependency_states st ids =
     (\<lambda>i. if i \<in> set ids then status_with_archived st i else None)"

definition join_workflow :: "storage \<Rightarrow> workflow_id \<Rightarrow> job_id \<Rightarrow> storage" where
  "join_workflow st w i =
     (case get_stored st i of
        None \<Rightarrow> st
      | Some j \<Rightarrow>
          (case map_of (s_workflows st) w of
             None \<Rightarrow> st
           | Some g \<Rightarrow>
               if \<exists>k \<in> set (g_jobs g). j_id k = i then st
               else st\<lparr>s_workflows := AList.update w
                      (g\<lparr>g_jobs := g_jobs g @ [j], g_total_jobs := g_total_jobs g + 1\<rparr>)
                      (s_workflows st)\<rparr>))"

definition dependency_completed :: "storage \<Rightarrow> job_id \<Rightarrow> bool" where
  "dependency_completed st i \<longleftrightarrow>
     is_some_and (get_stored st i)
       (\<lambda>j. j_status j = Completed \<or> (j_status j = Archived \<and> j_completed_at j \<noteq> None))"

definition held_candidate :: "externs \<Rightarrow> job \<Rightarrow> bool" where
  "held_candidate E j \<longleftrightarrow>
     j_status j = Pending \<and>
     (j_dependency_status j = DepWaiting \<or>
      (j_dependency_status j = DepNone \<and> j_scheduled_at j = max_utc E))"

definition release_job :: "externs \<Rightarrow> time \<Rightarrow> job \<Rightarrow> job" where
  "release_job E now j =
     (let j1 = (if j_dependency_status j = DepWaiting
                then j\<lparr>j_dependency_status := DepSatisfied\<rparr> else j) in
      if j_scheduled_at j = max_utc E then j1\<lparr>j_scheduled_at := now\<rparr> else j1)"

fun resolve_loop ::
  "externs \<Rightarrow> time \<Rightarrow> job_id list \<Rightarrow> storage \<times> job_id list \<Rightarrow> storage \<times> job_id list" where
  "resolve_loop E now [] s = s"
| "resolve_loop E now (i # is) (st, resolved) =
     (if \<not> list_all (dependency_completed st) (dependencies_of st i)
      then resolve_loop E now is (st, resolved)
      else if get_stored st i \<noteq> None
      then resolve_loop E now is (modify_job st i (release_job E now), resolved @ [i])
      else resolve_loop E now is (st, resolved))"

definition resolve_candidates :: "externs \<Rightarrow> storage \<Rightarrow> job_id \<Rightarrow> job_id list" where
  "resolve_candidates E st completed_job_id =
     sort (filter (\<lambda>i. completed_job_id \<in> set (dependencies_of st i))
       (map j_id (filter (held_candidate E) (values_of (s_jobs st)))))"

definition resolve_dependents ::
  "externs \<Rightarrow> storage \<Rightarrow> job_id \<Rightarrow> time \<Rightarrow> storage \<times> job_id list" where
  "resolve_dependents E st completed_job_id now =
     resolve_loop E now (resolve_candidates E st completed_job_id) (st, [])"

definition parent_state_in :: "storage \<Rightarrow> job_id \<Rightarrow> parent_state option" where
  "parent_state_in st p =
     map_option
       (\<lambda>j. let manual = is_some_and (workflow_of st p) (\<lambda>w. g_failure_policy w = Manual) in
            if j_status j = Completed then PsCompleted
            else if terminal_failure (j_status j) \<and> \<not> manual then PsFailed
            else if j_status j = Archived \<and> j_completed_at j \<noteq> None then PsCompleted
            else if j_status j = Archived \<and> opt_or (j_failed_at j) (j_timed_out_at j) \<noteq> None
            then PsFailed
            else PsUnfinished)
       (get_stored st p)"

definition storage_settle :: "externs \<Rightarrow> storage \<Rightarrow> job list \<Rightarrow> time \<Rightarrow> job list \<times> job_id list" where
  "storage_settle E st jobs now =
     settle_new_dependents E jobs
       (\<lambda>p. if p \<in> set (external_dependencies jobs) then parent_state_in st p else None) now"

end
