(* ===== verification/TestQueue.thy ===== *)
theory TestQueue
  imports Storage
begin

text \<open>
  The core operations of the in-memory queue, \<open>impl DatabaseQueue for TestQueue\<close> of
  \<open>src/src/queue/test.rs\<close>: enqueueing, claiming, manual transitions, run outcomes, leases and
  the recovery of stale runs. Each method is one operation on the storage; it holds the write
  lock throughout, except \<open>finish_job_run\<close> and \<open>complete_job_run_with_children\<close>, which take the
  lock several times and are the sequential composition of their sections. The build has no
  \<open>encryption\<close> feature, so \<open>PayloadEncryption::seal\<close> leaves every job as it is.
\<close>

subsection \<open>Options\<close>

record dequeue_options =
  d_priority_weights :: "priority_weights option"
  d_lease_duration :: "duration option"
  d_max_jobs :: nat

definition MAX_DEQUEUE_BATCH_SIZE :: nat where
  "MAX_DEQUEUE_BATCH_SIZE = 1000"

definition DEFAULT_LEASE_DURATION :: duration where
  "DEFAULT_LEASE_DURATION = seconds 300"

definition STALE_JOB_ERROR_MESSAGE :: string where
  "STALE_JOB_ERROR_MESSAGE =
     ''Job lease expired while Running; the worker is presumed dead and the job was reclaimed''"

definition dequeue_options_default :: dequeue_options where
  "dequeue_options_default =
     \<lparr>d_priority_weights = None, d_lease_duration = None, d_max_jobs = 1\<rparr>"

definition options_batch :: "nat \<Rightarrow> dequeue_options" where
  "options_batch n = dequeue_options_default\<lparr>d_max_jobs := n\<rparr>"

definition options_lease :: "dequeue_options \<Rightarrow> duration" where
  "options_lease opts = unwrap_or (d_lease_duration opts) DEFAULT_LEASE_DURATION"

subsection \<open>Enqueue\<close>

definition enqueue :: "externs \<Rightarrow> job \<Rightarrow> storage \<Rightarrow> job_id res \<times> storage" where
  "enqueue E j st =
     try_res (validate_dependencies E j) st (\<lambda>_.
       let now = s_clock st;
           j1 = stamp_enqueued E now j;
           j2 = hd (fst (storage_settle E st [j1] now)) in
       (Inr (j_id j2), add_job_to_queue (insert_job st j2) j2))"

subsection \<open>Claims\<close>

definition set_lease :: "externs \<Rightarrow> storage \<Rightarrow> job_id \<Rightarrow> duration \<Rightarrow> storage" where
  "set_lease E st i lease =
     st\<lparr>s_leases := (s_leases st)(i \<mapsto> (s_clock st, lease_expiry E (s_clock st) lease))\<rparr>"

definition start_run :: "time \<Rightarrow> job \<Rightarrow> job" where
  "start_run now j = j\<lparr>j_started_at := Some now, j_attempts := wrap_i32 (j_attempts j + 1)\<rparr>"

definition claim_one ::
  "externs \<Rightarrow> string \<Rightarrow> priority_weights option \<Rightarrow> duration \<Rightarrow> storage \<Rightarrow>
     job option res \<times> storage" where
  "claim_one E q weights lease st =
     (case get_next_job E st q weights of
        None \<Rightarrow> (Inr None, st)
      | Some i \<Rightarrow>
          try_res (update_job_status E st i Running) st (\<lambda>st1.
            let st2 = modify_job (set_lease E st1 i lease) i (start_run (s_clock st1)) in
            (Inr (get_stored st2 i), st2)))"

fun claim_loop ::
  "externs \<Rightarrow> duration \<Rightarrow> job_id list \<Rightarrow> job list \<Rightarrow> storage \<Rightarrow> job list res \<times> storage" where
  "claim_loop E lease [] jobs st = (Inr jobs, st)"
| "claim_loop E lease (i # is) jobs st =
     try_res (update_job_status E st i Running) st (\<lambda>st1.
       let st2 = modify_job (set_lease E st1 i lease) i (start_run (s_clock st1)) in
       claim_loop E lease is
         (case get_stored st2 i of None \<Rightarrow> jobs | Some j \<Rightarrow> jobs @ [j]) st2)"

definition claim_many ::
  "externs \<Rightarrow> string \<Rightarrow> priority_weights option \<Rightarrow> duration \<Rightarrow> nat \<Rightarrow> storage \<Rightarrow>
     job list res \<times> storage" where
  "claim_many E q weights lease max_jobs st =
     claim_loop E lease (get_next_jobs E st q weights max_jobs) [] st"

definition dequeue ::
  "externs \<Rightarrow> string \<Rightarrow> dequeue_options \<Rightarrow> storage \<Rightarrow> job list res \<times> storage" where
  "dequeue E q opts st =
     (let weights = d_priority_weights opts; lease = options_lease opts;
          max_jobs = min (d_max_jobs opts) MAX_DEQUEUE_BATCH_SIZE in
      if max_jobs = 0 then (Inr [], st)
      else if max_jobs = 1 then
        bind_op (claim_one E q weights lease st)
          (\<lambda>r st'. (Inr (case r of None \<Rightarrow> [] | Some j \<Rightarrow> [j]), st'))
      else claim_many E q weights lease max_jobs st)"

definition dequeue_one :: "externs \<Rightarrow> string \<Rightarrow> storage \<Rightarrow> job option res \<times> storage" where
  "dequeue_one E q st =
     bind_op (dequeue E q dequeue_options_default st)
       (\<lambda>js st'. (Inr (case js of [] \<Rightarrow> None | j # _ \<Rightarrow> Some j), st'))"

definition runs_as :: "storage \<Rightarrow> job \<Rightarrow> bool" where
  "runs_as st r \<longleftrightarrow>
     is_some_and (get_stored st (j_id r)) (\<lambda>j. j_status j = Running \<and> is_same_run j r)"

definition release_job_run :: "externs \<Rightarrow> job \<Rightarrow> storage \<Rightarrow> bool res \<times> storage" where
  "release_job_run E r st =
     (if \<not> runs_as st r then (Inr False, st)
      else
        try_res (update_job_status E st (j_id r) Pending) st (\<lambda>st1.
          (Inr True,
           modify_job (remove_lease st1 (j_id r)) (j_id r)
             (\<lambda>j. j\<lparr>j_started_at := None,
                    j_attempts := max (wrap_i32 (j_attempts j - 1)) 0\<rparr>))))"

subsection \<open>Manual transitions\<close>

definition complete_and_resolve ::
  "externs \<Rightarrow> job_id \<Rightarrow> storage \<Rightarrow> job_id list res \<times> storage" where
  "complete_and_resolve E i st =
     try_res (check_transition E st i Complete) st (\<lambda>_.
     try_res (update_job_status E st i Completed) st (\<lambda>st1.
       let now = s_clock st1;
           st2 = modify_job (remove_lease st1 i) i (\<lambda>j. j\<lparr>j_completed_at := Some now\<rparr>) in
       case resolve_dependents E st2 i now of (st3, resolved) \<Rightarrow> (Inr resolved, st3)))"

definition complete_job :: "externs \<Rightarrow> job_id \<Rightarrow> storage \<Rightarrow> unit res \<times> storage" where
  "complete_job E i st = bind_op (complete_and_resolve E i st) (\<lambda>_ st'. (Inr (), st'))"

definition fail_job :: "externs \<Rightarrow> job_id \<Rightarrow> string \<Rightarrow> storage \<Rightarrow> unit res \<times> storage" where
  "fail_job E i err st =
     try_res (check_transition E st i Fail) st (\<lambda>_.
     try_res (update_job_status E st i Failed) st (\<lambda>st1.
       let now = s_clock st1;
           st2 = modify_job (remove_lease st1 i) i
                   (\<lambda>j. j\<lparr>j_failed_at := Some now, j_error_message := Some err\<rparr>);
           st3 = fst (apply_workflow_failure E st2 i now);
           st4 = fst (apply_batch_failure E st3 i now) in
       (Inr (), st4)))"

text \<open>The re-evaluated dependency status of a job retried or restored by hand.\<close>

definition retry_dependency_status ::
  "externs \<Rightarrow> storage \<Rightarrow> job_id \<Rightarrow> dependency_status option res" where
  "retry_dependency_status E st i =
     (case get_stored st i of
        None \<Rightarrow> Inr None
      | Some j \<Rightarrow>
          if j_depends_on j = [] then Inr None
          else
            (case reevaluate_dependencies E j (dependency_states st (j_depends_on j)) ''retried'' of
               Inl e \<Rightarrow> Inl e
             | Inr s \<Rightarrow> Inr (Some s)))"

definition retry_job :: "externs \<Rightarrow> job_id \<Rightarrow> time \<Rightarrow> storage \<Rightarrow> unit res \<times> storage" where
  "retry_job E i retry_at st =
     try_res (check_transition E st i Retry) st (\<lambda>_.
     try_res (retry_dependency_status E st i) st (\<lambda>dependency_status.
     try_res (update_job_status E st i Pending) st (\<lambda>st1.
       (Inr (),
        modify_job (remove_lease st1 i) i
          (\<lambda>j. let j' = j\<lparr>j_scheduled_at := retry_at, j_started_at := None\<rparr> in
               case dependency_status of
                 None \<Rightarrow> j'
               | Some s \<Rightarrow> j'\<lparr>j_dependency_status := s\<rparr>)))))"

text \<open>\<open>status\<close> is \<open>Dead\<close> or \<open>TimedOut\<close>.\<close>

definition end_with_failure ::
  "externs \<Rightarrow> job_id \<Rightarrow> job_status \<Rightarrow> string \<Rightarrow> bool \<Rightarrow> storage \<Rightarrow> job_id list res \<times> storage" where
  "end_with_failure E i s err apply_policy st =
     (let transition = (if s = TimedOut then MarkTimedOut else MarkDead) in
      try_res (check_transition E st i transition) st (\<lambda>_.
      try_res (update_job_status E st i s) st (\<lambda>st1.
        let now = s_clock st1;
            st2 = modify_job (remove_lease st1 i) i
                    (\<lambda>j. (if s = TimedOut then j\<lparr>j_timed_out_at := Some now\<rparr>
                          else j\<lparr>j_failed_at := Some now\<rparr>)\<lparr>j_error_message := Some err\<rparr>) in
        if \<not> apply_policy then (Inr [], st2)
        else
          (case apply_workflow_failure E st2 i now of
             (st3, cancelled) \<Rightarrow>
               (case apply_batch_failure E st3 i now of
                  (st4, ids) \<Rightarrow> (Inr (fold (\<lambda>k acc. push_new acc k) ids cancelled), st4))))))"

definition mark_job_dead :: "externs \<Rightarrow> job_id \<Rightarrow> string \<Rightarrow> storage \<Rightarrow> unit res \<times> storage" where
  "mark_job_dead E i err st =
     bind_op (end_with_failure E i Dead err True st) (\<lambda>_ st'. (Inr (), st'))"

definition mark_job_timed_out ::
  "externs \<Rightarrow> job_id \<Rightarrow> string \<Rightarrow> storage \<Rightarrow> unit res \<times> storage" where
  "mark_job_timed_out E i err st =
     bind_op (end_with_failure E i TimedOut err True st) (\<lambda>_ st'. (Inr (), st'))"

definition retry_dead_job :: "externs \<Rightarrow> job_id \<Rightarrow> storage \<Rightarrow> unit res \<times> storage" where
  "retry_dead_job E i st =
     try_res (check_transition E st i RetryDead) st (\<lambda>_.
     try_res (update_job_status E st i Pending) st (\<lambda>st1.
       (Inr (),
        modify_job (remove_lease st1 i) i
          (\<lambda>j. j\<lparr>j_attempts := 0, j_error_message := None, j_started_at := None,
                 j_failed_at := None, j_timed_out_at := None, j_scheduled_at := s_clock st1\<rparr>))))"

definition get_job :: "job_id \<Rightarrow> storage \<Rightarrow> job option res" where
  "get_job i st = Inr (get_stored st i)"

definition delete_job :: "externs \<Rightarrow> job_id \<Rightarrow> storage \<Rightarrow> unit res \<times> storage" where
  "delete_job E i st =
     (case get_stored st i of
        None \<Rightarrow> (Inl (JobNotFound (uuid_show E i)), st)
      | Some j \<Rightarrow>
          (let st1 = st\<lparr>s_jobs := AList.delete i (s_jobs st)\<rparr>;
               st2 = retain_status st1 (j_queue_name j) (j_status j) i;
               st3 = (case j_batch_id j of
                        None \<Rightarrow> st2
                      | Some b \<Rightarrow> st2\<lparr>s_batch_jobs :=
                          (s_batch_jobs st2)(b := map_option (filter (\<lambda>k. k \<noteq> i)) (s_batch_jobs st2 b))\<rparr>) in
           (Inr (),
            st3\<lparr>s_job_results := AList.delete i (s_job_results st3),
                s_dependencies := (s_dependencies st3)(i := None),
                s_dependents := (\<lambda>k. map_option (filter (\<lambda>x. x \<noteq> i)) (s_dependents st3 k))\<rparr>)))"

subsection \<open>Run outcomes\<close>

text \<open>\<open>wall\<close> is the wall clock \<open>Utc::now()\<close> the retry time is relative to.\<close>

definition record_outcome ::
  "externs \<Rightarrow> time \<Rightarrow> job_id \<Rightarrow> job_outcome \<Rightarrow> bool \<Rightarrow> storage \<Rightarrow>
     recorded_outcome res \<times> storage" where
  "record_outcome E wall i outcome apply_policy st =
     (case outcome of
        OutCompleted \<Rightarrow>
          if apply_policy then
            bind_op (complete_and_resolve E i st)
              (\<lambda>unblocked st'. (Inr ((recorded_new Completed)\<lparr>o_unblocked := unblocked\<rparr>), st'))
          else (Inr (recorded_new Completed), st)
      | OutRetry retry_at err timed_out \<Rightarrow>
          bind_op
            (retry_job E i
               (unwrap_or (checked_add_signed E (s_clock st) (retry_at - wall)) retry_at) st)
            (\<lambda>_ st'.
               (Inr (recorded_new Pending),
                modify_job st' i
                  (\<lambda>j. let j' = j\<lparr>j_error_message := Some err\<rparr> in
                       if timed_out then j'\<lparr>j_timed_out_at := Some (s_clock st')\<rparr> else j')))
      | OutDead err \<Rightarrow>
          bind_op (end_with_failure E i Dead err apply_policy st)
            (\<lambda>cancelled st'. (Inr ((recorded_new Dead)\<lparr>o_cancelled := cancelled\<rparr>), st'))
      | OutTimedOut err \<Rightarrow>
          bind_op (end_with_failure E i TimedOut err apply_policy st)
            (\<lambda>cancelled st'. (Inr ((recorded_new TimedOut)\<lparr>o_cancelled := cancelled\<rparr>), st')))"

definition outcome_next_run :: "externs \<Rightarrow> job \<Rightarrow> job_outcome \<Rightarrow> time \<Rightarrow> time option" where
  "outcome_next_run E current outcome now =
     (if outcome_terminal_status outcome \<noteq> None \<and> j_recurring current
      then next_cron_run E current now else None)"

definition finish_job_run ::
  "externs \<Rightarrow> time \<Rightarrow> job \<Rightarrow> job_outcome \<Rightarrow> storage \<Rightarrow> recorded_outcome option res \<times> storage" where
  "finish_job_run E wall r outcome st =
     (case get_stored st (j_id r) of
        None \<Rightarrow> (Inr None, st)
      | Some current \<Rightarrow>
          if \<not> guard_admits (GuardRun r) current then (Inr None, st)
          else
            (let next_run_at = outcome_next_run E current outcome (s_clock st) in
             bind_op (record_outcome E wall (j_id r) outcome (next_run_at = None) st)
               (\<lambda>recorded st1.
                  case next_run_at of
                    None \<Rightarrow> (Inr (Some recorded), st1)
                  | Some t \<Rightarrow>
                      try_res
                        (reschedule_in_place E st1 (j_id r) t (o_status recorded \<noteq> Completed)) st1
                        (\<lambda>st2. (Inr (Some (recorded\<lparr>o_status := Pending,
                                                    o_next_run_at := Some t\<rparr>)), st2)))))"

fun spawn_children ::
  "externs \<Rightarrow> job list \<Rightarrow> job_id list \<Rightarrow> storage \<Rightarrow> job_id list res \<times> storage" where
  "spawn_children E [] spawned st = (Inr spawned, st)"
| "spawn_children E (c # cs) spawned st =
     bind_op (enqueue E c st)
       (\<lambda>i st1. spawn_children E cs (spawned @ [i])
          (case j_workflow_id c of None \<Rightarrow> st1 | Some w \<Rightarrow> join_workflow st1 w i))"

definition complete_job_run_with_children ::
  "externs \<Rightarrow> time \<Rightarrow> job \<Rightarrow> job list \<Rightarrow> storage \<Rightarrow> recorded_outcome option res \<times> storage" where
  "complete_job_run_with_children E wall r children st =
     try_res (validate_dependency_limits E children) st (\<lambda>_.
       if \<not> is_some_and (get_stored st (j_id r)) (guard_admits (GuardRun r)) then (Inr None, st)
       else
         bind_op (spawn_children E children [] st) (\<lambda>spawned st1.
         bind_op (finish_job_run E wall r OutCompleted st1) (\<lambda>recorded st2.
           (Inr (map_option (\<lambda>x. x\<lparr>o_spawned := spawned\<rparr>) recorded), st2))))"

subsection \<open>Leases\<close>

definition heartbeat_job :: "externs \<Rightarrow> job \<Rightarrow> duration \<Rightarrow> storage \<Rightarrow> bool res \<times> storage" where
  "heartbeat_job E r lease st =
     (if \<not> runs_as st r then (Inr False, st) else (Inr True, set_lease E st (j_id r) lease))"

text \<open>Also returns the caller's run, whose start time is set.\<close>

definition start_claimed_run ::
  "externs \<Rightarrow> job \<Rightarrow> duration \<Rightarrow> storage \<Rightarrow> (bool \<times> job) res \<times> storage" where
  "start_claimed_run E r lease st =
     (if \<not> runs_as st r then (Inr (False, r), st)
      else
        (let now = s_clock st in
         (Inr (True, r\<lparr>j_started_at := Some now\<rparr>),
          set_lease E (modify_job st (j_id r) (\<lambda>j. j\<lparr>j_started_at := Some now\<rparr>)) (j_id r) lease)))"

record stale_job_recovery =
  sr_requeued :: "job_id list"
  sr_dead :: "job_id list"

definition is_stale :: "storage \<Rightarrow> job \<Rightarrow> bool" where
  "is_stale st j \<longleftrightarrow>
     is_some_and (j_started_at j)
       (\<lambda>started. is_some_and (s_leases st (j_id j))
          (\<lambda>(heartbeat, expires). started \<le> heartbeat \<and> expires < s_clock st))"

definition stale_jobs :: "storage \<Rightarrow> string option \<Rightarrow> (job_id \<times> bool) list" where
  "stale_jobs st q =
     map (\<lambda>j. (j_id j, has_exhausted_retries j))
       (filter (is_stale st)
         (filter (\<lambda>j. q = None \<or> q = Some (j_queue_name j))
           (filter (\<lambda>j. j_status j = Running) (values_of (s_jobs st)))))"

definition kill_stale ::
  "externs \<Rightarrow> time \<Rightarrow> job_id \<Rightarrow> storage \<Rightarrow> unit res \<times> storage" where
  "kill_stale E now i st =
     try_res (update_job_status E st i Dead) st (\<lambda>st1.
       let st2 = modify_job st1 i
             (\<lambda>j. j\<lparr>j_failed_at := Some now, j_error_message := Some STALE_JOB_ERROR_MESSAGE\<rparr>) in
       case Option.bind (get_stored st2 i)
              (\<lambda>j. if j_recurring j then next_cron_run E j now else None) of
         Some t \<Rightarrow> try_res (reschedule_in_place E st2 i t True) st2 (\<lambda>st3. (Inr (), st3))
       | None \<Rightarrow>
           (let st3 = fst (apply_workflow_failure E st2 i now) in
            (Inr (), fst (apply_batch_failure E st3 i now))))"

definition requeue_stale :: "externs \<Rightarrow> time \<Rightarrow> job_id \<Rightarrow> storage \<Rightarrow> unit res \<times> storage" where
  "requeue_stale E now i st =
     try_res (update_job_status E st i Pending) st (\<lambda>st1.
       (Inr (),
        modify_job st1 i
          (\<lambda>j. j\<lparr>j_scheduled_at := now, j_started_at := None,
                 j_error_message := Some STALE_JOB_ERROR_MESSAGE\<rparr>)))"

text \<open>The recovery is returned at the end only, so an error drops what was recorded so far.\<close>

fun recover_loop ::
  "externs \<Rightarrow> time \<Rightarrow> (job_id \<times> bool) list \<Rightarrow> stale_job_recovery \<Rightarrow> storage \<Rightarrow>
     stale_job_recovery res \<times> storage" where
  "recover_loop E now [] rec st = (Inr rec, st)"
| "recover_loop E now ((i, exhausted) # rest) rec st =
     (let st0 = remove_lease st i in
      if exhausted then
        bind_op (kill_stale E now i st0)
          (\<lambda>_ st'. recover_loop E now rest (rec\<lparr>sr_dead := sr_dead rec @ [i]\<rparr>) st')
      else
        bind_op (requeue_stale E now i st0)
          (\<lambda>_ st'. recover_loop E now rest (rec\<lparr>sr_requeued := sr_requeued rec @ [i]\<rparr>) st'))"

definition requeue_stale_jobs ::
  "externs \<Rightarrow> string option \<Rightarrow> storage \<Rightarrow> stale_job_recovery res \<times> storage" where
  "requeue_stale_jobs E q st =
     recover_loop E (s_clock st) (stale_jobs st q) \<lparr>sr_requeued = [], sr_dead = []\<rparr> st"

end
