(* ===== verification/Archive.thy ===== *)
theory Archive
  imports Lifecycle Complex_Main
begin

text \<open>
  Archival policies and the archived form of a job: the parts of \<open>src/src/archive.rs\<close> every
  backend uses. The \<open>f64\<close> compression ratio is a rational. Text is ASCII.
\<close>

datatype archival_reason = ArAutomatic | ArManual | ArCompliance | ArMaintenance

fun archival_reason_str :: "archival_reason \<Rightarrow> string" where
  "archival_reason_str ArAutomatic = ''Automatic''"
| "archival_reason_str ArManual = ''Manual''"
| "archival_reason_str ArCompliance = ''Compliance''"
| "archival_reason_str ArMaintenance = ''Maintenance''"

text \<open>\<open>str::trim\<close> and \<open>str::eq_ignore_ascii_case\<close>.\<close>

definition is_ascii_space :: "char \<Rightarrow> bool" where
  "is_ascii_space c = (let n = of_char c :: nat in (9 \<le> n \<and> n \<le> 13) \<or> n = 32)"

definition str_trim :: "string \<Rightarrow> string" where
  "str_trim s = rev (dropWhile is_ascii_space (rev (dropWhile is_ascii_space s)))"

definition eq_ignore_ascii_case :: "string \<Rightarrow> string \<Rightarrow> bool" where
  "eq_ignore_ascii_case a b \<longleftrightarrow> map ascii_lower a = map ascii_lower b"

definition archival_reason_parse_from_db :: "string \<Rightarrow> archival_reason option" where
  "archival_reason_parse_from_db v =
     (let cleaned = trim_quotes (str_trim v) in
      find (\<lambda>r. eq_ignore_ascii_case (archival_reason_str r) cleaned)
        [ArAutomatic, ArManual, ArCompliance, ArMaintenance])"

interpretation archival_reason_text: codec archival_reason_str archival_reason_parse_from_db
proof
  fix r
  show "archival_reason_parse_from_db (archival_reason_str r) = Some r"
    by (cases r) (simp_all add: archival_reason_parse_from_db_def eq_ignore_ascii_case_def
        trim_quotes_def str_trim_def is_ascii_space_def ascii_lower_def Let_def)
qed

subsection \<open>Policy\<close>

record archival_policy =
  ap_archive_completed_after :: "int option"
  ap_archive_failed_after :: "int option"
  ap_archive_dead_after :: "int option"
  ap_archive_timed_out_after :: "int option"
  ap_purge_archived_after :: "int option"
  ap_compress_payloads :: bool
  ap_batch_size :: nat
  ap_enabled :: bool

abbreviation days :: "int \<Rightarrow> int" where
  "days n \<equiv> n * 86400000000000"

definition archival_policy_default :: archival_policy where
  "archival_policy_default =
     \<lparr>ap_archive_completed_after = Some (days 30), ap_archive_failed_after = Some (days 90),
      ap_archive_dead_after = Some (days 90), ap_archive_timed_out_after = Some (days 90),
      ap_purge_archived_after = Some (days 365), ap_compress_payloads = True,
      ap_batch_size = 1000, ap_enabled = True\<rparr>"

fun status_threshold :: "archival_policy \<Rightarrow> job_status \<Rightarrow> int option" where
  "status_threshold p Completed = ap_archive_completed_after p"
| "status_threshold p Failed = ap_archive_failed_after p"
| "status_threshold p Dead = ap_archive_dead_after p"
| "status_threshold p TimedOut = ap_archive_timed_out_after p"
| "status_threshold p s = None"

definition should_archive :: "archival_policy \<Rightarrow> job_status \<Rightarrow> int \<Rightarrow> bool" where
  "should_archive p s age =
     (if \<not> ap_enabled p then False
      else is_some_and (status_threshold p s) (\<lambda>threshold. threshold \<le> age))"

lemma should_archive_terminal:
  "should_archive p s age \<Longrightarrow> s \<in> {Completed, Failed, Dead, TimedOut}"
  by (cases s) (simp_all add: should_archive_def split: if_splits)

subsection \<open>Archived jobs\<close>

record archival_stats =
  as_jobs_archived :: nat
  as_jobs_purged :: nat
  as_bytes_archived :: nat
  as_bytes_purged :: nat
  as_compression_ratio :: rat
  as_operation_duration :: duration
  as_last_run_at :: time

record archived_job =
  aj_id :: job_id
  aj_queue_name :: string
  aj_status :: job_status
  aj_created_at :: time
  aj_archived_at :: time
  aj_archival_reason :: archival_reason
  aj_original_payload_size :: "nat option"
  aj_payload_compressed :: bool
  aj_archived_by :: "string option"
  aj_workflow_id :: "workflow_id option"
  aj_workflow_name :: "string option"

text \<open>\<open>wall\<close> is \<open>Utc::now()\<close>.\<close>

definition reset_for_restore :: "time \<Rightarrow> job \<Rightarrow> job" where
  "reset_for_restore wall j =
     j\<lparr>j_status := Pending, j_attempts := 0, j_scheduled_at := wall, j_started_at := None,
       j_completed_at := None, j_failed_at := None, j_timed_out_at := None,
       j_error_message := None, j_result_data := None, j_result_stored_at := None,
       j_result_expires_at := None\<rparr>"

end
