(* ===== verification/TestQueueData.thy ===== *)
theory TestQueueData
  imports TestQueue Archive "HOL-Library.List_Lexorder" "HOL-Library.Char_ord"
begin

text \<open>
  The remaining operations of \<open>impl DatabaseQueue for TestQueue\<close>
  (\<open>src/src/queue/test.rs\<close>): batches, the dead-job queue, queue statistics, recurring jobs,
  throttle configurations, job results, workflows, archival and pauses. An operation that
  only reads returns its result; one that writes also returns the new storage. An \<open>f64\<close> of a
  statistic is a rational.
\<close>

subsection \<open>Removing stored jobs\<close>

text \<open>\<open>jobs.remove\<close> followed by a \<open>retain\<close> of the status list of the removed job.\<close>

definition remove_stored :: "job_id \<Rightarrow> storage \<Rightarrow> storage" where
  "remove_stored i st =
     (case get_stored st i of
        None \<Rightarrow> st
      | Some j \<Rightarrow>
          retain_status (st\<lparr>s_jobs := AList.delete i (s_jobs st)\<rparr>)
            (j_queue_name j) (j_status j) i)"

text \<open>A \<open>retain\<close> in every status list of a queue, and of every queue.\<close>

definition retain_all :: "job_id \<Rightarrow> (job_status \<rightharpoonup> job_id list) \<Rightarrow> (job_status \<rightharpoonup> job_id list)" where
  "retain_all i m = (\<lambda>s. map_option (filter (\<lambda>x. x \<noteq> i)) (m s))"

subsection \<open>Batches\<close>

text \<open>The loop that stores settled jobs.\<close>

definition store_jobs :: "job list \<Rightarrow> storage \<Rightarrow> storage" where
  "store_jobs jobs st = fold (\<lambda>j st. insert_job (add_job_to_queue st j) j) jobs st"

definition enqueue_batch :: "externs \<Rightarrow> job_batch \<Rightarrow> storage \<Rightarrow> batch_id res \<times> storage" where
  "enqueue_batch E b st =
     try_res (validate_dependency_limits E (b_jobs b)) st (\<lambda>_.
       let now = s_clock st;
           jobs = map (\<lambda>j. stamp_enqueued E now (j\<lparr>j_batch_id := Some (b_id b)\<rparr>)) (b_jobs b);
           jobs' = fst (storage_settle E st jobs now);
           st1 = store_jobs jobs' st in
       (Inr (b_id b),
        st1\<lparr>s_batch_jobs := (s_batch_jobs st1)(b_id b \<mapsto> map j_id jobs'),
            s_batches := (s_batches st1)(b_id b \<mapsto> b\<lparr>b_created_at := now\<rparr>)\<rparr>))"

definition count_status :: "(string \<times> int) list \<Rightarrow> string \<Rightarrow> (string \<times> int) list" where
  "count_status counts s = AList.update s (unwrap_or (map_of counts s) 0 + 1) counts"

definition batch_counts :: "storage \<Rightarrow> job_id list \<Rightarrow> (string \<times> int) list" where
  "batch_counts st ids =
     fold (\<lambda>i counts. case status_with_archived st i of
             None \<Rightarrow> counts
           | Some s \<Rightarrow> count_status counts (job_status_str s)) ids []"

definition batch_errors :: "storage \<Rightarrow> job_id list \<Rightarrow> (job_id \<times> string) list" where
  "batch_errors st ids =
     fold (\<lambda>i errs. case get_stored st i of
             None \<Rightarrow> errs
           | Some j \<Rightarrow>
               (case j_error_message j of
                  Some e \<Rightarrow> if j_status j \<noteq> Archived then AList.update (j_id j) e errs else errs
                | None \<Rightarrow> errs)) ids []"

definition get_batch_status :: "externs \<Rightarrow> batch_id \<Rightarrow> storage \<Rightarrow> batch_result res" where
  "get_batch_status E b st =
     (case (s_batches st b, s_batch_jobs st b) of
        (Some batch, Some ids) \<Rightarrow>
          (let total_jobs = (if length ids \<le> u32_max then length ids else u32_max);
               progress = batch_progress_of (batch_counts st ids) total_jobs (b_failure_mode batch) in
           Inr \<lparr>r_batch_id = b, r_total_jobs = total_jobs,
                r_completed_jobs = bp_completed progress, r_failed_jobs = bp_failed progress,
                r_pending_jobs = bp_pending progress, r_status = bp_status progress,
                r_created_at = b_created_at batch,
                r_completed_at =
                  (if bp_pending progress = 0 \<and> bp_status progress \<noteq> BatchPending
                   then Some (s_clock st) else None),
                r_error_summary =
                  (if 0 < bp_failed progress
                   then Some (show_nat (bp_failed progress) @ '' of '' @ show_nat total_jobs
                          @ '' jobs failed'')
                   else None),
                r_job_errors = batch_errors st ids\<rparr>)
      | _ \<Rightarrow> Inl (JobNotFound (uuid_show E b)))"

definition get_batch_jobs :: "externs \<Rightarrow> batch_id \<Rightarrow> storage \<Rightarrow> job list res" where
  "get_batch_jobs E b st =
     (case s_batch_jobs st b of
        None \<Rightarrow> Inl (BatchError (''Batch '' @ uuid_show E b @ '' not found''))
      | Some ids \<Rightarrow> Inr (List.map_filter (get_stored st) ids))"

definition delete_batch :: "batch_id \<Rightarrow> storage \<Rightarrow> unit res \<times> storage" where
  "delete_batch b st =
     (let st1 =
        (case s_batch_jobs st b of
           None \<Rightarrow> st
         | Some ids \<Rightarrow>
             fold remove_stored ids (st\<lparr>s_batch_jobs := (s_batch_jobs st)(b := None)\<rparr>)) in
      (Inr (), st1\<lparr>s_batches := (s_batches st1)(b := None)\<rparr>))"

subsection \<open>Dead jobs\<close>

definition job_end_time :: "job \<Rightarrow> time" where
  "job_end_time j = unwrap_or (opt_or (j_failed_at j) (j_timed_out_at j)) (j_created_at j)"

definition page :: "nat option \<Rightarrow> nat option \<Rightarrow> 'a list \<Rightarrow> 'a list" where
  "page limit offset xs = take (unwrap_or limit 100) (drop (unwrap_or offset 0) xs)"

definition get_dead_jobs :: "nat option \<Rightarrow> nat option \<Rightarrow> storage \<Rightarrow> job list res" where
  "get_dead_jobs limit offset st =
     Inr (page limit offset
       (sort_key (\<lambda>j. - job_end_time j)
         (filter (\<lambda>j. j_status j = Dead) (values_of (s_jobs st)))))"

definition get_dead_jobs_by_queue ::
  "string \<Rightarrow> nat option \<Rightarrow> nat option \<Rightarrow> storage \<Rightarrow> job list res" where
  "get_dead_jobs_by_queue q limit offset st =
     Inr (page limit offset
       (sort_key (\<lambda>j. - job_end_time j)
         (filter (\<lambda>j. j_queue_name j = q \<and> j_status j = Dead) (values_of (s_jobs st)))))"

definition purgeable_dead :: "time \<Rightarrow> job \<Rightarrow> bool" where
  "purgeable_dead older_than j \<longleftrightarrow>
     j_status j = Dead \<and> is_some_and (j_failed_at j) (\<lambda>t. t < older_than)"

definition purge_dead_jobs :: "time \<Rightarrow> storage \<Rightarrow> nat res \<times> storage" where
  "purge_dead_jobs older_than st =
     (let ids = map fst (filter (\<lambda>(i, j). purgeable_dead older_than j) (s_jobs st)) in
      (Inr (length ids), fold remove_stored ids st))"

record dead_job_summary =
  ds_total_dead_jobs :: nat
  ds_dead_jobs_by_queue :: "(string \<times> nat) list"
  ds_error_patterns :: "(string \<times> nat) list"
  ds_oldest_dead_job :: "time option"
  ds_newest_dead_job :: "time option"

definition bump :: "string \<Rightarrow> (string \<times> nat) list \<Rightarrow> (string \<times> nat) list" where
  "bump k al = AList.update k (unwrap_or (map_of al k) 0 + 1) al"

text \<open>\<open>error.split('\n').next()\<close>.\<close>

definition error_key :: "string \<Rightarrow> string" where
  "error_key e = takeWhile (\<lambda>c. c \<noteq> CHR 0x0A) e"

definition summarise_dead :: "job \<Rightarrow> dead_job_summary \<Rightarrow> dead_job_summary" where
  "summarise_dead j d =
     (if j_status j = Dead then
        (let t = job_end_time j in
         \<lparr>ds_total_dead_jobs = ds_total_dead_jobs d + 1,
          ds_dead_jobs_by_queue = bump (j_queue_name j) (ds_dead_jobs_by_queue d),
          ds_error_patterns =
            (case j_error_message j of
               None \<Rightarrow> ds_error_patterns d
             | Some e \<Rightarrow> bump (error_key e) (ds_error_patterns d)),
          ds_oldest_dead_job =
            (case ds_oldest_dead_job d of
               None \<Rightarrow> Some t
             | Some o' \<Rightarrow> if t < o' then Some t else Some o'),
          ds_newest_dead_job =
            (case ds_newest_dead_job d of
               None \<Rightarrow> Some t
             | Some n \<Rightarrow> if n < t then Some t else Some n)\<rparr>)
      else d)"

definition get_dead_job_summary :: "storage \<Rightarrow> dead_job_summary res" where
  "get_dead_job_summary st =
     Inr (fold summarise_dead (values_of (s_jobs st))
       \<lparr>ds_total_dead_jobs = 0, ds_dead_jobs_by_queue = [], ds_error_patterns = [],
        ds_oldest_dead_job = None, ds_newest_dead_job = None\<rparr>)"

subsection \<open>Statistics\<close>

record job_statistics =
  js_total_processed :: nat
  js_completed :: nat
  js_failed :: nat
  js_dead :: nat
  js_timed_out :: nat
  js_running :: nat
  js_avg_processing_time_ms :: rat
  js_min_processing_time_ms :: nat
  js_max_processing_time_ms :: nat
  js_throughput_per_minute :: rat
  js_error_rate :: rat
  js_time_window :: duration
  js_calculated_at :: time

record queue_stats =
  qs_queue_name :: string
  qs_pending_count :: nat
  qs_running_count :: nat
  qs_dead_count :: nat
  qs_timed_out_count :: nat
  qs_completed_count :: nat
  qs_statistics :: job_statistics

definition processing_time_ms :: "job \<Rightarrow> int option" where
  "processing_time_ms j =
     (case (j_started_at j, j_completed_at j) of
        (Some start, Some end_at) \<Rightarrow> Some (num_milliseconds (end_at - start))
      | _ \<Rightarrow> None)"

text \<open>\<open>as u64\<close> of an \<open>i64\<close>.\<close>

definition i64_as_u64 :: "int \<Rightarrow> nat" where
  "i64_as_u64 x = nat (x mod 2 ^ 64)"

definition get_job_count :: "string \<Rightarrow> job_status \<Rightarrow> storage \<Rightarrow> nat" where
  "get_job_count q s st = length (status_jobs st q s)"

definition get_all_jobs :: "storage \<Rightarrow> job list" where
  "get_all_jobs st = values_of (s_jobs st)"

definition get_queue_stats :: "string \<Rightarrow> storage \<Rightarrow> queue_stats res" where
  "get_queue_stats q st =
     (let pending = length (status_jobs st q Pending);
          running = length (status_jobs st q Running);
          completed = length (status_jobs st q Completed);
          dead = length (status_jobs st q Dead);
          timed_out = length (status_jobs st q TimedOut);
          completed_jobs = List.map_filter (get_stored st) (status_jobs st q Completed);
          times = List.map_filter processing_time_ms completed_jobs;
          avg = (if times \<noteq> [] then of_int (sum_list times) / of_nat (length times) else 0);
          one_minute_ago = s_clock st - 60000000000;
          per_minute =
            length (filter (\<lambda>j. one_minute_ago < unwrap_or (j_completed_at j) (j_created_at j))
              completed_jobs);
          total_processed = completed + dead + timed_out;
          failed = length (status_jobs st q Failed);
          error_rate =
            (if 0 < total_processed
             then of_nat (failed + dead + timed_out) / of_nat total_processed else 0) in
      Inr \<lparr>qs_queue_name = q, qs_pending_count = pending, qs_running_count = running,
           qs_dead_count = dead, qs_timed_out_count = timed_out, qs_completed_count = completed,
           qs_statistics =
             \<lparr>js_total_processed = total_processed, js_completed = completed, js_failed = failed,
              js_dead = dead, js_timed_out = timed_out, js_running = running,
              js_avg_processing_time_ms = avg,
              js_min_processing_time_ms =
                i64_as_u64 (unwrap_or (min_by_key (\<lambda>x. x) times) 0),
              js_max_processing_time_ms =
                i64_as_u64 (unwrap_or (max_by_key (\<lambda>x. x) times) 0),
              js_throughput_per_minute = of_nat per_minute, js_error_rate = error_rate,
              js_time_window = seconds 3600, js_calculated_at = s_clock st\<rparr>\<rparr>)"

definition all_statuses :: "job_status list" where
  "all_statuses = [Pending, Running, Completed, Failed, Dead, TimedOut, Retrying, Archived]"

definition get_job_counts_by_status :: "string \<Rightarrow> storage \<Rightarrow> (string \<rightharpoonup> nat) res" where
  "get_job_counts_by_status q st =
     Inr (map_of (map (\<lambda>s. (job_status_str s, length (status_jobs st q s)))
       (filter (\<lambda>s. status_jobs st q s \<noteq> []) all_statuses)))"

definition get_processing_times :: "string \<Rightarrow> time \<Rightarrow> storage \<Rightarrow> int list res" where
  "get_processing_times q since st =
     Inr (List.map_filter processing_time_ms
       (filter (\<lambda>j. j_queue_name j = q \<and> j_status j = Completed
                  \<and> since \<le> unwrap_or (j_completed_at j) (j_created_at j))
         (values_of (s_jobs st))))"

definition queue_matches :: "string option \<Rightarrow> job \<Rightarrow> bool" where
  "queue_matches q j = (case q of None \<Rightarrow> True | Some n \<Rightarrow> j_queue_name j = n)"

definition get_error_frequencies :: "string option \<Rightarrow> time \<Rightarrow> storage \<Rightarrow> (string \<times> nat) list res" where
  "get_error_frequencies q since st =
     Inr (fold (\<lambda>j freqs.
            if queue_matches q j \<and> terminal_failure (j_status j) \<and> since \<le> job_end_time j then
              (case j_error_message j of
                 None \<Rightarrow> freqs
               | Some e \<Rightarrow> bump (error_key e) freqs)
            else freqs) (values_of (s_jobs st)) [])"

definition get_jobs_completed_in_range ::
  "string option \<Rightarrow> time \<Rightarrow> time \<Rightarrow> nat option \<Rightarrow> storage \<Rightarrow> job list res" where
  "get_jobs_completed_in_range q start_time end_time limit st =
     (let matching =
        sort_key (\<lambda>j. - unwrap_or (j_completed_at j) 0)
          (filter (\<lambda>j. queue_matches q j \<and> j_status j = Completed \<and>
                is_some_and (j_completed_at j) (\<lambda>t. start_time \<le> t \<and> t < end_time))
            (values_of (s_jobs st))) in
      Inr (case limit of None \<Rightarrow> matching | Some n \<Rightarrow> take n matching))"

end
