(* ===== verification/TestQueueAdmin.thy ===== *)
theory TestQueueAdmin
  imports TestQueueData
begin

text \<open>
  The second half of the data operations of \<open>TestQueue\<close> (\<open>src/src/queue/test.rs\<close>): recurring
  jobs, throttle configurations, job results, workflows, archival and pauses.
\<close>

subsection \<open>Recurring jobs\<close>

definition enqueue_cron_job :: "externs \<Rightarrow> job \<Rightarrow> storage \<Rightarrow> job_id res \<times> storage" where
  "enqueue_cron_job E j st =
     (case j_cron_schedule j of
        None \<Rightarrow> (Inl (QueueError ''Job must have a cron schedule''), st)
      | Some expr \<Rightarrow>
          if cron_error E expr \<noteq> None then
            (Inl (QueueError (''Invalid cron schedule: '' @ debug_schedule (j_cron_schedule j))), st)
          else
            (let tz = (case j_timezone j of
                         Some z \<Rightarrow> if tz_valid E z then z else ''UTC''
                       | None \<Rightarrow> ''UTC'');
                 j1 = j\<lparr>j_recurring := True\<rparr> in
             enqueue E
               (case cron_after E expr tz (s_clock st) of
                  None \<Rightarrow> j1
                | Some t \<Rightarrow> j1\<lparr>j_next_run_at := Some t, j_scheduled_at := t\<rparr>) st))"

definition get_due_cron_jobs :: "string option \<Rightarrow> storage \<Rightarrow> job list res" where
  "get_due_cron_jobs q st =
     Inr (filter (\<lambda>j. j_recurring j \<and> j_status j = Pending
            \<and> (case j_next_run_at j of None \<Rightarrow> True | Some t \<Rightarrow> t \<le> s_clock st)
            \<and> queue_matches q j)
       (values_of (s_jobs st)))"

definition reschedule_cron_job :: "externs \<Rightarrow> job_id \<Rightarrow> time \<Rightarrow> storage \<Rightarrow> unit res \<times> storage" where
  "reschedule_cron_job E i next_run_at st =
     try_res (check_transition E st i RescheduleCron) st (\<lambda>_.
       if \<not> is_some_and (get_stored st i) j_recurring then
         (Inl (QueueError (''Job '' @ uuid_show E i @ '' is not a recurring job'')), st)
       else try_res (reschedule_in_place E st i next_run_at False) st (\<lambda>st'. (Inr (), st')))"

definition get_recurring_jobs :: "string \<Rightarrow> storage \<Rightarrow> job list res" where
  "get_recurring_jobs q st =
     Inr (filter (\<lambda>j. j_queue_name j = q \<and> j_recurring j) (values_of (s_jobs st)))"

definition disable_recurring_job :: "externs \<Rightarrow> job_id \<Rightarrow> storage \<Rightarrow> unit res \<times> storage" where
  "disable_recurring_job E i st =
     (case get_stored st i of
        None \<Rightarrow> (Inl (JobNotFound (uuid_show E i)), st)
      | Some j \<Rightarrow>
          if j_cron_schedule j = None then (Inl (not_a_cron_job E i), st)
          else (Inr (), modify_job st i (\<lambda>j. j\<lparr>j_recurring := False, j_next_run_at := None\<rparr>)))"

definition resume_recurring :: "time \<Rightarrow> job \<Rightarrow> job" where
  "resume_recurring t j =
     j\<lparr>j_recurring := True, j_scheduled_at := t, j_next_run_at := Some t, j_attempts := 0,
       j_started_at := None, j_completed_at := None, j_failed_at := None,
       j_timed_out_at := None, j_error_message := None\<rparr>"

definition enable_recurring_job :: "externs \<Rightarrow> job_id \<Rightarrow> storage \<Rightarrow> unit res \<times> storage" where
  "enable_recurring_job E i st =
     (case get_stored st i of
        None \<Rightarrow> (Inl (JobNotFound (uuid_show E i)), st)
      | Some j \<Rightarrow>
          try_res (enabled_recurring_next_run E j (s_clock st)) st (\<lambda>next_run_at.
            case next_run_at of
              None \<Rightarrow> (Inr (), modify_job st i (\<lambda>j. j\<lparr>j_recurring := True\<rparr>))
            | Some t \<Rightarrow>
                try_res (update_job_status E st i Pending) st (\<lambda>st1.
                  (Inr (), modify_job (remove_lease st1 i) i (resume_recurring t)))))"

subsection \<open>Throttling\<close>

definition set_throttle_config ::
  "string \<Rightarrow> throttle_config \<Rightarrow> storage \<Rightarrow> unit res \<times> storage" where
  "set_throttle_config q c st =
     try_res (throttle_validate c) st (\<lambda>_.
       (Inr (), st\<lparr>s_throttle_configs := AList.update q c (s_throttle_configs st)\<rparr>))"

definition get_throttle_config :: "string \<Rightarrow> storage \<Rightarrow> throttle_config option res" where
  "get_throttle_config q st = Inr (map_of (s_throttle_configs st) q)"

definition remove_throttle_config :: "string \<Rightarrow> storage \<Rightarrow> unit res \<times> storage" where
  "remove_throttle_config q st =
     (Inr (), st\<lparr>s_throttle_configs := AList.delete q (s_throttle_configs st)\<rparr>)"

definition get_all_throttle_configs :: "storage \<Rightarrow> (string \<times> throttle_config) list res" where
  "get_all_throttle_configs st = Inr (s_throttle_configs st)"

definition get_queue_depth :: "string \<Rightarrow> storage \<Rightarrow> nat res" where
  "get_queue_depth q st = Inr (length (status_jobs st q Pending))"

subsection \<open>Job results\<close>

definition store_job_result ::
  "externs \<Rightarrow> job_id \<Rightarrow> json \<Rightarrow> time option \<Rightarrow> storage \<Rightarrow> unit res \<times> storage" where
  "store_job_result E i data expires_at st =
     (if get_stored st i = None then (Inl (JobNotFound (uuid_show E i)), st)
      else (Inr (), st\<lparr>s_job_results := AList.update i (data, expires_at) (s_job_results st)\<rparr>))"

definition result_expired :: "time \<Rightarrow> time option \<Rightarrow> bool" where
  "result_expired now expires_at \<longleftrightarrow> is_some_and expires_at (\<lambda>t. t \<le> now)"

definition get_job_result :: "job_id \<Rightarrow> storage \<Rightarrow> json option res" where
  "get_job_result i st =
     (case map_of (s_job_results st) i of
        None \<Rightarrow> Inr None
      | Some (data, expires_at) \<Rightarrow>
          if result_expired (s_clock st) expires_at then Inr None else Inr (Some data))"

definition delete_job_result :: "job_id \<Rightarrow> storage \<Rightarrow> unit res \<times> storage" where
  "delete_job_result i st = (Inr (), st\<lparr>s_job_results := AList.delete i (s_job_results st)\<rparr>)"

definition cleanup_expired_results :: "storage \<Rightarrow> nat res \<times> storage" where
  "cleanup_expired_results st =
     (let ids = map fst (filter (\<lambda>(i, data, e). result_expired (s_clock st) e) (s_job_results st)) in
      (Inr (length ids), st\<lparr>s_job_results := fold AList.delete ids (s_job_results st)\<rparr>))"

subsection \<open>Workflows\<close>

text \<open>The dependency map extended by each job's own \<open>depends_on\<close>.\<close>

definition merged_dependencies :: "job_group \<Rightarrow> (job_id \<times> job_id list) list" where
  "merged_dependencies g =
     fold (\<lambda>j al.
       if j_depends_on j = [] then al
       else AList.update (j_id j)
              (fold (\<lambda>d acc. push_new acc d) (j_depends_on j) (unwrap_or (map_of al (j_id j)) []))
              al)
       (g_jobs g) (g_dependencies g)"

definition push_dependent :: "job_id \<Rightarrow> job_id \<Rightarrow> storage \<Rightarrow> storage" where
  "push_dependent i d st =
     st\<lparr>s_dependents := (s_dependents st)(d \<mapsto> unwrap_or (s_dependents st d) [] @ [i])\<rparr>"

definition store_dependencies :: "(job_id \<times> job_id list) list \<Rightarrow> storage \<Rightarrow> storage" where
  "store_dependencies deps st =
     fold (\<lambda>(i, ds) st.
       fold (push_dependent i) ds (st\<lparr>s_dependencies := (s_dependencies st)(i \<mapsto> ds)\<rparr>))
       deps st"

definition hold_dependent :: "externs \<Rightarrow> (job_id \<times> job_id list) list \<Rightarrow> job \<Rightarrow> job" where
  "hold_dependent E deps j =
     (if is_some_and (map_of deps (j_id j)) (\<lambda>ds. ds \<noteq> [])
      then j\<lparr>j_scheduled_at := max_utc E\<rparr> else j)"

definition release_settled :: "externs \<Rightarrow> time \<Rightarrow> job \<Rightarrow> job" where
  "release_settled E now j =
     (if j_dependency_status j = DepSatisfied \<and> j_scheduled_at j = max_utc E
      then j\<lparr>j_scheduled_at := now\<rparr> else j)"

definition enqueue_workflow :: "externs \<Rightarrow> job_group \<Rightarrow> storage \<Rightarrow> workflow_id res \<times> storage" where
  "enqueue_workflow E g st =
     try_res (validate_dependency_limits E (g_jobs g)) st (\<lambda>_.
       let now = s_clock st;
           g' = g\<lparr>g_created_at := now, g_dependencies := merged_dependencies g\<rparr>;
           st1 = store_dependencies (g_dependencies g') st;
           jobs = map (\<lambda>j. hold_dependent E (g_dependencies g') (stamp_enqueued E now j)) (g_jobs g');
           jobs' = map (release_settled E now) (fst (storage_settle E st1 jobs now));
           st2 = store_jobs jobs' st1 in
       (Inr (g_id g), st2\<lparr>s_workflows := AList.update (g_id g) g' (s_workflows st2)\<rparr>))"

definition workflow_progress_of :: "storage \<Rightarrow> job_group \<Rightarrow> workflow_progress" where
  "workflow_progress_of st g =
     fold (\<lambda>i p.
       case status_with_archived st i of
         None \<Rightarrow> p
       | Some s \<Rightarrow>
           if s = Completed then p\<lparr>p_completed := p_completed p + 1\<rparr>
           else if terminal_failure s then p\<lparr>p_failed := p_failed p + 1\<rparr>
           else p)
       (map j_id (g_jobs g)) \<lparr>p_completed = 0, p_failed = 0\<rparr>"

text \<open>\<open>Option::get_or_insert\<close>.\<close>

definition get_or_insert :: "'a option \<Rightarrow> 'a \<Rightarrow> 'a option" where
  "get_or_insert a x = opt_or a (Some x)"

definition get_workflow_status :: "workflow_id \<Rightarrow> storage \<Rightarrow> job_group option res" where
  "get_workflow_status w st =
     Inr (map_option
       (\<lambda>g. let p = workflow_progress_of st g;
                s = progress_status p (g_total_jobs g) (g_failure_policy g) (g_status g);
                g' = g\<lparr>g_completed_jobs := p_completed p, g_failed_jobs := p_failed p,
                       g_status := s\<rparr> in
            if s = WfCompleted
            then g'\<lparr>g_completed_at := get_or_insert (g_completed_at g') (s_clock st)\<rparr>
            else if s = WfFailed
            then g'\<lparr>g_failed_at := get_or_insert (g_failed_at g') (s_clock st)\<rparr>
            else g')
       (map_of (s_workflows st) w))"

definition resolve_job_dependencies :: "externs \<Rightarrow> job_id \<Rightarrow> storage \<Rightarrow> job_id list res \<times> storage" where
  "resolve_job_dependencies E i st =
     (case resolve_dependents E st i (s_clock st) of (st', resolved) \<Rightarrow> (Inr resolved, st'))"

definition get_ready_jobs :: "string \<Rightarrow> nat \<Rightarrow> storage \<Rightarrow> job list res" where
  "get_ready_jobs q limit st =
     Inr (take limit (sort_key batch_key
       (filter (\<lambda>j. j_queue_name j = q \<and> j_status j = Pending
              \<and> (j_dependency_status j = DepNone \<or> j_dependency_status j = DepSatisfied)
              \<and> j_scheduled_at j \<le> s_clock st)
         (values_of (s_jobs st)))))"

definition fail_job_dependencies :: "externs \<Rightarrow> job_id \<Rightarrow> storage \<Rightarrow> job_id list res \<times> storage" where
  "fail_job_dependencies E i st =
     (case apply_workflow_failure E st i (s_clock st) of (st', failed) \<Rightarrow> (Inr failed, st'))"

definition workflow_not_found :: "externs \<Rightarrow> workflow_id \<Rightarrow> hammerwork_error" where
  "workflow_not_found E w = WorkflowError (''Workflow '' @ uuid_show E w @ '' not found'')"

definition get_workflow_jobs :: "externs \<Rightarrow> workflow_id \<Rightarrow> storage \<Rightarrow> job list res" where
  "get_workflow_jobs E w st =
     (case map_of (s_workflows st) w of
        None \<Rightarrow> Inl (workflow_not_found E w)
      | Some g \<Rightarrow> Inr (List.map_filter (\<lambda>j. get_stored st (j_id j)) (g_jobs g)))"

definition unfinished :: "storage \<Rightarrow> job_id \<Rightarrow> bool" where
  "unfinished st i \<longleftrightarrow>
     is_some_and (get_stored st i)
       (\<lambda>j. j_status j = Pending \<or> j_status j = Running \<or> j_status j = Retrying)"

definition cancel_jobs :: "externs \<Rightarrow> time \<Rightarrow> job_id list \<Rightarrow> storage \<Rightarrow> storage" where
  "cancel_jobs E now ids st =
     fold (\<lambda>i st. if unfinished st i
                  then fail_as_side_effect E st i WORKFLOW_CANCELLED_MESSAGE now else st) ids st"

definition cancel_workflow :: "externs \<Rightarrow> workflow_id \<Rightarrow> storage \<Rightarrow> unit res \<times> storage" where
  "cancel_workflow E w st =
     (case map_of (s_workflows st) w of
        None \<Rightarrow> (Inl (workflow_not_found E w), st)
      | Some g \<Rightarrow>
          (let now = s_clock st;
               ids = map j_id (g_jobs g);
               joined = map j_id (filter (\<lambda>j. j_workflow_id j = Some w \<and> j_id j \<notin> set ids)
                          (values_of (s_jobs st)));
               st1 = cancel_jobs E now (ids @ joined) st in
           (Inr (),
            case map_of (s_workflows st1) w of
              None \<Rightarrow> st1
            | Some g1 \<Rightarrow>
                st1\<lparr>s_workflows := AList.update w
                  (g1\<lparr>g_status := WfCancelled, g_failed_at := get_or_insert (g_failed_at g1) now\<rparr>)
                  (s_workflows st1)\<rparr>)))"

subsection \<open>Archival\<close>

fun archive_age :: "time \<Rightarrow> job \<Rightarrow> int option" where
  "archive_age now j =
     (case j_status j of
        Completed \<Rightarrow> map_option (\<lambda>t. now - t) (j_completed_at j)
      | Failed \<Rightarrow> map_option (\<lambda>t. now - t) (j_failed_at j)
      | Dead \<Rightarrow> map_option (\<lambda>t. now - t) (j_failed_at j)
      | TimedOut \<Rightarrow> map_option (\<lambda>t. now - t) (j_timed_out_at j)
      | _ \<Rightarrow> None)"

definition archivable :: "string option \<Rightarrow> archival_policy \<Rightarrow> time \<Rightarrow> job \<Rightarrow> bool" where
  "archivable q policy now j \<longleftrightarrow>
     queue_matches q j \<and>
     is_some_and (archive_age now j) (\<lambda>age. should_archive policy (j_status j) age)"

definition jobs_to_archive :: "string option \<Rightarrow> archival_policy \<Rightarrow> storage \<Rightarrow> job_id list" where
  "jobs_to_archive q policy st =
     take (ap_batch_size policy)
       (map j_id (filter (archivable q policy (s_clock st)) (values_of (s_jobs st))))"

definition move_to_archived :: "job_id \<Rightarrow> string \<Rightarrow> storage \<Rightarrow> storage" where
  "move_to_archived i q st =
     (case s_queues st q of
        None \<Rightarrow> st
      | Some m \<Rightarrow>
          (let m' = retain_all i m in
           st\<lparr>s_queues := (s_queues st)(q \<mapsto>
             m'(Archived \<mapsto> unwrap_or (m' Archived) [] @ [i]))\<rparr>))"

text \<open>The first loop counts and marks the jobs, the second moves their index entries.\<close>

definition archive_mark :: "job_id list \<Rightarrow> nat \<times> nat \<times> storage \<Rightarrow> nat \<times> nat \<times> storage" where
  "archive_mark ids s =
     fold (\<lambda>i (n, bytes, st).
       case get_stored st i of
         None \<Rightarrow> (n, bytes, st)
       | Some j \<Rightarrow>
           (n + 1, bytes + length (j_payload j), modify_job st i (\<lambda>j. j\<lparr>j_status := Archived\<rparr>)))
       ids s"

definition archive_jobs ::
  "string option \<Rightarrow> archival_policy \<Rightarrow> storage \<Rightarrow> archival_stats res \<times> storage" where
  "archive_jobs q policy st =
     (let now = s_clock st; ids = jobs_to_archive q policy st in
      case archive_mark ids (0, 0, st) of
        (n, bytes, st1) \<Rightarrow>
          (let names = List.map_filter
                 (\<lambda>i. map_option (\<lambda>j. (i, j_queue_name j)) (get_stored st1 i)) ids;
               st2 = fold (\<lambda>(i, queue_name) st. move_to_archived i queue_name st) names st1 in
           (Inr \<lparr>as_jobs_archived = n, as_jobs_purged = 0, as_bytes_archived = bytes,
                 as_bytes_purged = 0,
                 as_compression_ratio = (if ap_compress_payloads policy then 7 / 10 else 1),
                 as_operation_duration = 100000000, as_last_run_at = now\<rparr>, st2)))"

definition move_to_pending :: "job_id \<Rightarrow> string \<Rightarrow> storage \<Rightarrow> storage" where
  "move_to_pending i q st =
     (case s_queues st q of
        None \<Rightarrow> st
      | Some m \<Rightarrow>
          (let m' = (case m Archived of
                       None \<Rightarrow> m
                     | Some l \<Rightarrow> m(Archived \<mapsto> filter (\<lambda>x. x \<noteq> i) l)) in
           st\<lparr>s_queues := (s_queues st)(q \<mapsto>
             m'(Pending \<mapsto> unwrap_or (m' Pending) [] @ [i]))\<rparr>))"

text \<open>\<open>wall\<close> is the \<open>Utc::now()\<close> of \<open>reset_for_restore\<close>, which the mock clock replaces.\<close>

definition restore_archived_job ::
  "externs \<Rightarrow> time \<Rightarrow> job_id \<Rightarrow> storage \<Rightarrow> job res \<times> storage" where
  "restore_archived_job E wall i st =
     (case get_stored st i of
        None \<Rightarrow> (Inl (JobNotFound (uuid_show E i)), st)
      | Some j \<Rightarrow>
          if j_status j \<noteq> Archived then (Inl (JobNotFound (uuid_show E i)), st)
          else
            try_res
              (if j_depends_on j = [] then Inr None
               else
                 (case reevaluate_dependencies E j (dependency_states st (j_depends_on j))
                         ''restored'' of
                    Inl e \<Rightarrow> Inl e
                  | Inr s \<Rightarrow> Inr (Some s))) st
              (\<lambda>dependency_status.
                 let j1 = (case dependency_status of
                             None \<Rightarrow> j
                           | Some s \<Rightarrow> j\<lparr>j_dependency_status := s\<rparr>);
                     restored = (reset_for_restore wall j1)\<lparr>j_scheduled_at := s_clock st\<rparr>;
                     st1 = modify_job st i (\<lambda>_. restored) in
                 (Inr restored, move_to_pending i (j_queue_name j) st1)))"

definition archived_view :: "time \<Rightarrow> job \<Rightarrow> archived_job" where
  "archived_view now j =
     \<lparr>aj_id = j_id j, aj_queue_name = j_queue_name j, aj_status = j_status j,
      aj_created_at = j_created_at j, aj_archived_at = now, aj_archival_reason = ArManual,
      aj_original_payload_size = Some (length (j_payload j)), aj_payload_compressed = False,
      aj_archived_by = Some ''test'', aj_workflow_id = j_workflow_id j,
      aj_workflow_name = j_workflow_name j\<rparr>"

definition list_archived_jobs ::
  "string option \<Rightarrow> nat option \<Rightarrow> nat option \<Rightarrow> storage \<Rightarrow> archived_job list res" where
  "list_archived_jobs q limit offset st =
     (let archived = sort_key (\<lambda>a. - aj_archived_at a)
            (map (archived_view (s_clock st))
              (filter (\<lambda>j. j_status j = Archived \<and> queue_matches q j) (values_of (s_jobs st))));
          off = unwrap_or offset 0;
          lim = unwrap_or limit 100 in
      if off < length archived
      then Inr (take (min (off + lim) (length archived) - off) (drop off archived))
      else Inr [])"

definition purge_one :: "job_id \<Rightarrow> storage \<Rightarrow> storage" where
  "purge_one i st =
     st\<lparr>s_jobs := AList.delete i (s_jobs st),
        s_queues := (\<lambda>q. map_option (retain_all i) (s_queues st q))\<rparr>"

definition purge_archived_jobs :: "time \<Rightarrow> storage \<Rightarrow> nat res \<times> storage" where
  "purge_archived_jobs older_than st =
     (let ids = map j_id (filter (\<lambda>j. j_status j = Archived \<and> j_created_at j < older_than)
            (values_of (s_jobs st))) in
      (Inr (length ids), fold purge_one ids st))"

definition purge_one_in_queue :: "string \<Rightarrow> job_id \<Rightarrow> storage \<Rightarrow> storage" where
  "purge_one_in_queue q i st =
     st\<lparr>s_jobs := AList.delete i (s_jobs st),
        s_queues := (s_queues st)(q := map_option (retain_all i) (s_queues st q))\<rparr>"

definition purge_archived_jobs_in_queue :: "string \<Rightarrow> time \<Rightarrow> storage \<Rightarrow> nat res \<times> storage" where
  "purge_archived_jobs_in_queue q older_than st =
     (let ids = map j_id (filter (\<lambda>j. j_status j = Archived \<and> j_queue_name j = q
                \<and> j_created_at j < older_than) (values_of (s_jobs st))) in
      (Inr (length ids), fold (purge_one_in_queue q) ids st))"

definition sorted_queue_names :: "string list \<Rightarrow> string list" where
  "sorted_queue_names names = remdups_adj (sort names)"

definition list_queue_names :: "storage \<Rightarrow> string list res" where
  "list_queue_names st = Inr (sorted_queue_names (map j_queue_name (values_of (s_jobs st))))"

definition get_archival_stats :: "string option \<Rightarrow> storage \<Rightarrow> archival_stats res" where
  "get_archival_stats q st =
     (let archived = filter (\<lambda>j. j_status j = Archived \<and> queue_matches q j)
            (values_of (s_jobs st)) in
      Inr \<lparr>as_jobs_archived = length archived, as_jobs_purged = 0,
           as_bytes_archived = sum_list (map (\<lambda>j. length (j_payload j)) archived),
           as_bytes_purged = 0, as_compression_ratio = 8 / 10,
           as_operation_duration = 50000000, as_last_run_at = s_clock st\<rparr>)"

subsection \<open>Pauses\<close>

definition pause_queue :: "string \<Rightarrow> string option \<Rightarrow> storage \<Rightarrow> unit res \<times> storage" where
  "pause_queue q paused_by st =
     (Inr (), st\<lparr>s_paused_queues := AList.update q
        \<lparr>qp_queue_name = q, qp_paused_at = s_clock st, qp_paused_by = paused_by,
         qp_reason = None\<rparr> (s_paused_queues st)\<rparr>)"

definition resume_queue :: "string \<Rightarrow> storage \<Rightarrow> unit res \<times> storage" where
  "resume_queue q st = (Inr (), st\<lparr>s_paused_queues := AList.delete q (s_paused_queues st)\<rparr>)"

definition is_queue_paused :: "string \<Rightarrow> storage \<Rightarrow> bool res" where
  "is_queue_paused q st = Inr (map_of (s_paused_queues st) q \<noteq> None)"

definition get_queue_pause_info :: "string \<Rightarrow> storage \<Rightarrow> queue_pause_info option res" where
  "get_queue_pause_info q st = Inr (map_of (s_paused_queues st) q)"

definition get_paused_queues :: "storage \<Rightarrow> queue_pause_info list res" where
  "get_paused_queues st = Inr (values_of (s_paused_queues st))"

end
