(* ===== verification/Settle.thy ===== *)
theory Settle
  imports Lifecycle
begin

text \<open>
  Correctness of \<open>settle_new_dependents\<close> (\<open>src/src/queue/lifecycle.rs\<close>): what enqueueing does to
  jobs whose dependencies finished before they were enqueued. A job is left alone, released or
  failed; a released or failed job was waiting; and the passes stop only when no waiting job
  has a failed dependency or has all its dependencies completed.
\<close>

definition settled_from :: "externs \<Rightarrow> time \<Rightarrow> job \<Rightarrow> job \<Rightarrow> bool" where
  "settled_from E now j j' \<longleftrightarrow>
     j' = j \<or>
     j_dependency_status j = DepWaiting \<and>
       (j' = j\<lparr>j_dependency_status := DepSatisfied\<rparr> \<or>
        (\<exists>p \<in> set (j_depends_on j). j' = fail_new E now p j))"

lemma settled_from_refl [simp]: "settled_from E now j j"
  by (simp add: settled_from_def)

lemma settled_from_waiting:
  "settled_from E now j j' \<Longrightarrow> j_dependency_status j' = DepWaiting \<Longrightarrow> j' = j"
  by (auto simp: settled_from_def fail_new_def)

lemma settled_from_trans:
  "settled_from E now j j' \<Longrightarrow> settled_from E now j' j'' \<Longrightarrow> settled_from E now j j''"
  by (metis settled_from_def settled_from_waiting)

lemma settled_from_fields:
  "settled_from E now j j' \<Longrightarrow>
     j_id j' = j_id j \<and> j_queue_name j' = j_queue_name j \<and> j_depends_on j' = j_depends_on j \<and>
     (j_status j' = j_status j \<or> j_status j' = Failed)"
  by (auto simp: settled_from_def fail_new_def)

abbreviation all_settled_from :: "externs \<Rightarrow> time \<Rightarrow> job list \<Rightarrow> job list \<Rightarrow> bool" where
  "all_settled_from E now \<equiv> list_all2 (settled_from E now)"

lemma all_settled_refl: "all_settled_from E now xs xs"
  by (simp add: list_all2_refl)

lemma all_settled_update:
  "i < length xs \<Longrightarrow> settled_from E now (xs ! i) j \<Longrightarrow> all_settled_from E now xs (xs[i := j])"
  by (simp add: list_all2_conv_all_nth nth_list_update)

lemma settle_one_from:
  assumes "i < length (fst s)"
  shows "all_settled_from E now (fst s) (fst (settle_one E now index parents i s))"
proof (cases s)
  case (fields jobs failed changed)
  have "settled_from E now (jobs ! i) (fail_new E now p (jobs ! i))"
    if "j_dependency_status (jobs ! i) = DepWaiting"
      "find (\<lambda>p. state_of index parents jobs p = PsFailed) (j_depends_on (jobs ! i)) = Some p" for p
    using that find_SomeD by (fastforce simp: settled_from_def)
  moreover have "settled_from E now (jobs ! i) ((jobs ! i)\<lparr>j_dependency_status := DepSatisfied\<rparr>)"
    if "j_dependency_status (jobs ! i) = DepWaiting"
    using that by (simp add: settled_from_def)
  ultimately show ?thesis
    using assms unfolding fields
    by (simp add: settle_one_def Let_def all_settled_update all_settled_refl split: option.split)
qed

lemma all_settled_trans:
  "all_settled_from E now xs ys \<Longrightarrow> all_settled_from E now ys zs \<Longrightarrow> all_settled_from E now xs zs"
  by (rule list_all2_trans [OF settled_from_trans])

lemma settle_fold_from:
  "(\<forall>i \<in> set is. i < length (fst s)) \<Longrightarrow>
     all_settled_from E now (fst s) (fst (fold (settle_one E now index parents) is s))"
proof (induction "is" arbitrary: s)
  case (Cons i "is")
  then have "i < length (fst s)" by simp
  from all_settled_trans [OF settle_one_from [OF this]
      Cons.IH [of "settle_one E now index parents i s"]] Cons.prems
  show ?case by simp
qed (simp add: all_settled_refl)

lemma settle_pass_from:
  "settle_pass E now index parents s = (jobs, failed, changed) \<Longrightarrow> all_settled_from E now (fst s) jobs"
  using settle_fold_from [of "[0..<length (fst s)]" "(fst s, snd s, False)" E now index parents]
  by (simp add: settle_pass_def)

lemma settle_loop_from:
  "all_settled_from E now (fst s) (fst (settle_loop E now index parents s))"
proof (induction E now index parents s rule: settle_loop.induct)
  case (1 E now index parents s)
  obtain jobs failed changed where
    p: "settle_pass E now index parents s = (jobs, failed, changed)" by (metis prod_cases3)
  with 1 settle_pass_from [OF p] show ?case
    by (subst settle_loop.simps) (auto intro: all_settled_trans)
qed

text \<open>The ids of the jobs that were failed, in the order of their failure.\<close>

definition newly_failed :: "job list \<Rightarrow> job list \<Rightarrow> job_id set" where
  "newly_failed xs ys =
     {j_id y | x y. (x, y) \<in> set (zip xs ys) \<and> j_dependency_status x = DepWaiting
        \<and> j_dependency_status y = DepFailed}"

lemma newly_failed_refl [simp]: "newly_failed xs xs = {}"
  by (auto simp: newly_failed_def zip_same_conv_map)

lemma newly_failed_nth:
  "length xs = length ys \<Longrightarrow>
     newly_failed xs ys = {j_id (ys ! k) | k. k < length xs \<and>
       j_dependency_status (xs ! k) = DepWaiting \<and> j_dependency_status (ys ! k) = DepFailed}"
  by (force simp: newly_failed_def set_zip)

lemma newly_failed_trans:
  assumes xy: "all_settled_from E now xs ys" and yz: "all_settled_from E now ys zs"
  shows "newly_failed xs zs = newly_failed xs ys \<union> newly_failed ys zs"
proof -
  have len: "length xs = length ys" "length ys = length zs"
    using xy yz by (auto dest: list_all2_lengthD)
  have step: "(j_dependency_status (xs ! k) = DepWaiting \<and> j_dependency_status (zs ! k) = DepFailed)
      \<longleftrightarrow> (j_dependency_status (xs ! k) = DepWaiting \<and> j_dependency_status (ys ! k) = DepFailed) \<or>
         (j_dependency_status (ys ! k) = DepWaiting \<and> j_dependency_status (zs ! k) = DepFailed)"
    and ids: "j_id (zs ! k) = j_id (ys ! k)" if "k < length xs" for k
  proof -
    have a: "settled_from E now (xs ! k) (ys ! k)" and b: "settled_from E now (ys ! k) (zs ! k)"
      using xy yz that len by (auto simp: list_all2_conv_all_nth)
    show "j_id (zs ! k) = j_id (ys ! k)" using settled_from_fields [OF b] by simp
    show "(j_dependency_status (xs ! k) = DepWaiting \<and> j_dependency_status (zs ! k) = DepFailed)
      \<longleftrightarrow> (j_dependency_status (xs ! k) = DepWaiting \<and> j_dependency_status (ys ! k) = DepFailed) \<or>
         (j_dependency_status (ys ! k) = DepWaiting \<and> j_dependency_status (zs ! k) = DepFailed)"
      using a b by (auto simp: settled_from_def fail_new_def)
  qed
  then show ?thesis
    using len by (auto simp: newly_failed_nth) (metis step)+
qed

lemma settle_one_failed:
  assumes "i < length (fst s)"
  shows "set (fst (snd (settle_one E now index parents i s))) =
    set (fst (snd s)) \<union> newly_failed (fst s) (fst (settle_one E now index parents i s))"
proof (cases s)
  case (fields jobs failed changed)
  then have "i < length jobs" using assms by simp
  then show ?thesis
    unfolding fields
    by (auto simp: settle_one_def Let_def newly_failed_nth nth_list_update fail_new_def
        split: option.splits if_splits)
qed

lemma settle_fold_failed:
  "(\<forall>i \<in> set is. i < length (fst s)) \<Longrightarrow>
     set (fst (snd (fold (settle_one E now index parents) is s))) =
       set (fst (snd s)) \<union> newly_failed (fst s) (fst (fold (settle_one E now index parents) is s))"
proof (induction "is" arbitrary: s)
  case (Cons i "is")
  let ?s = "settle_one E now index parents i s"
  have i: "i < length (fst s)" and rest: "\<forall>k \<in> set is. k < length (fst ?s)"
    using Cons.prems by auto
  show ?case
    using Cons.IH [OF rest] settle_one_failed [OF i, of E now index parents]
      newly_failed_trans [OF settle_one_from [OF i] settle_fold_from [OF rest]]
    by auto
qed simp

lemma settle_loop_failed:
  "set (snd (settle_loop E now index parents s)) =
     set (snd s) \<union> newly_failed (fst s) (fst (settle_loop E now index parents s))"
proof (induction E now index parents s rule: settle_loop.induct)
  case (1 E now index parents s)
  obtain jobs failed changed where
    p: "settle_pass E now index parents s = (jobs, failed, changed)" by (metis prod_cases3)
  have f: "set failed = set (snd s) \<union> newly_failed (fst s) jobs"
    using settle_fold_failed [of "[0..<length (fst s)]" "(fst s, snd s, False)" E now index parents] p
    by (simp add: settle_pass_def)
  have t: "newly_failed (fst s) (fst (settle_loop E now index parents (jobs, failed))) =
      newly_failed (fst s) jobs \<union>
      newly_failed jobs (fst (settle_loop E now index parents (jobs, failed)))"
    using newly_failed_trans [OF settle_pass_from [OF p], of
        "fst (settle_loop E now index parents (jobs, failed))"]
      settle_loop_from [of E now "(jobs, failed)" index parents] by simp
  show ?case
  proof (cases changed)
    case True
    with 1 [OF p [symmetric] refl] p f t show ?thesis
      by (simp add: settle_loop.simps [of E now index parents s] Un_assoc)
  next
    case False
    with p f show ?thesis by (simp add: settle_loop.simps [of E now index parents s])
  qed
qed

subsection \<open>The passes end in a fixed point\<close>

text \<open>A waiting job that no further pass would change.\<close>

definition undecided ::
  "(job_id \<rightharpoonup> nat) \<Rightarrow> (job_id \<rightharpoonup> parent_state) \<Rightarrow> job list \<Rightarrow> job \<Rightarrow> bool" where
  "undecided index parents jobs j \<longleftrightarrow>
     (\<forall>p \<in> set (j_depends_on j). state_of index parents jobs p \<noteq> PsFailed) \<and>
     (\<exists>p \<in> set (j_depends_on j). state_of index parents jobs p \<noteq> PsCompleted)"

definition index_in :: "(job_id \<rightharpoonup> nat) \<Rightarrow> nat \<Rightarrow> bool" where
  "index_in index n \<longleftrightarrow> (\<forall>k \<in> ran index. k < n)"

lemma state_of_cong:
  assumes "map j_status xs = map j_status ys" and "index_in index (length xs)"
  shows "state_of index parents xs = state_of index parents ys"
proof
  fix p
  show "state_of index parents xs p = state_of index parents ys p"
  proof (cases "index p")
    case (Some k)
    then have "k < length xs" using assms(2) by (auto simp: index_in_def ran_def)
    moreover have "length xs = length ys" using assms(1) by (rule map_eq_imp_length_eq)
    ultimately have "j_status (xs ! k) = j_status (ys ! k)"
      using assms(1) nth_map [of k xs j_status] nth_map [of k ys j_status] by simp
    with Some show ?thesis by (simp add: state_of_def)
  qed (simp add: state_of_def)
qed

lemma settle_one_unchanged:
  assumes "\<not> snd (snd (settle_one E now index parents i s))" and "i < length (fst s)"
  shows "\<not> snd (snd s)"
    and "map j_status (fst (settle_one E now index parents i s)) = map j_status (fst s)"
    and "k \<noteq> i \<Longrightarrow> fst (settle_one E now index parents i s) ! k = fst s ! k"
    and "let j = fst (settle_one E now index parents i s) ! i in
      j_dependency_status j = DepWaiting \<longrightarrow> j_depends_on j \<noteq> [] \<longrightarrow>
      undecided index parents (fst s) j"
proof -
  have upd: "map j_status (xs[i := (xs ! i)\<lparr>j_dependency_status := d\<rparr>]) = map j_status xs"
    if "i < length xs" for xs d
    using that by (simp add: map_update list_update_same_conv)
  obtain jobs failed changed where s: "s = (jobs, failed, changed)" by (metis prod_cases3)
  note defs = settle_one_def Let_def s
  show "\<not> snd (snd s)" using assms(1) by (auto simp: defs split: option.splits if_splits)
  show "map j_status (fst (settle_one E now index parents i s)) = map j_status (fst s)"
    using assms upd [of jobs] by (auto simp: defs split: option.splits if_splits)
  show "k \<noteq> i \<Longrightarrow> fst (settle_one E now index parents i s) ! k = fst s ! k"
    using assms(1) by (auto simp: defs split: option.splits if_splits)
  show "let j = fst (settle_one E now index parents i s) ! i in
      j_dependency_status j = DepWaiting \<longrightarrow> j_depends_on j \<noteq> [] \<longrightarrow>
      undecided index parents (fst s) j"
    using assms by (auto simp: defs undecided_def list_all_iff find_None_iff fail_new_def
        split: option.splits if_splits)
qed

lemma settle_fold_unchanged:
  assumes "\<not> snd (snd (fold (settle_one E now index parents) is s))"
    and "\<forall>i \<in> set is. i < length (fst s)" and "distinct is" and "index_in index (length (fst s))"
  shows "map j_status (fst (fold (settle_one E now index parents) is s)) = map j_status (fst s) \<and>
    (\<forall>i \<in> set is. let jobs = fst (fold (settle_one E now index parents) is s); j = jobs ! i in
       j_dependency_status j = DepWaiting \<longrightarrow> j_depends_on j \<noteq> [] \<longrightarrow> undecided index parents jobs j)"
  using assms
proof (induction "is" rule: rev_induct)
  case (snoc i "is")
  let ?t = "fold (settle_one E now index parents) is s"
  let ?u = "settle_one E now index parents i ?t"
  have i: "i < length (fst ?t)" and nc: "\<not> snd (snd ?u)" using snoc.prems by auto
  note one = settle_one_unchanged [OF nc i]
  from one(1) snoc have
    st: "map j_status (fst ?t) = map j_status (fst s)" and
    old: "\<And>k. k \<in> set is \<Longrightarrow> j_dependency_status (fst ?t ! k) = DepWaiting \<Longrightarrow>
      j_depends_on (fst ?t ! k) \<noteq> [] \<Longrightarrow> undecided index parents (fst ?t) (fst ?t ! k)"
    by (auto simp: Let_def)
  have same: "undecided index parents (fst ?u) = undecided index parents (fst ?t)"
    using state_of_cong [OF one(2), of index parents] snoc.prems(4)
    by (simp add: undecided_def fun_eq_iff)
  have "k \<noteq> i" if "k \<in> set is" for k using that snoc.prems(3) by auto
  with old one(3) one(4) st one(2) show ?case by (auto simp: Let_def same)
qed simp

lemma settle_loop_fixed:
  assumes "index_in index (length (fst s))"
  shows "\<forall>j \<in> set (fst (settle_loop E now index parents s)).
    j_dependency_status j = DepWaiting \<longrightarrow> j_depends_on j \<noteq> [] \<longrightarrow>
    undecided index parents (fst (settle_loop E now index parents s)) j"
  using assms
proof (induction E now index parents s rule: settle_loop.induct)
  case (1 E now index parents s)
  obtain jobs failed changed where
    p: "settle_pass E now index parents s = (jobs, failed, changed)" by (metis prod_cases3)
  have len: "length jobs = length (fst s)"
    using settle_pass_from [OF p] by (simp add: list_all2_lengthD)
  show ?case
  proof (cases changed)
    case True
    with 1(1) [OF p [symmetric] refl] 1(2) p len show ?thesis
      by (simp add: settle_loop.simps [of E now index parents s])
  next
    case False
    with settle_fold_unchanged [of E now index parents "[0..<length (fst s)]" "(fst s, snd s, False)"]
      1(2) p len show ?thesis
      by (auto simp: settle_loop.simps [of E now index parents s] settle_pass_def Let_def in_set_conv_nth)
  qed
qed

lemma index_of_in: "index_in (index_of jobs) (length jobs)"
  by (auto simp: index_in_def index_of_def ran_def dest!: map_of_SomeD set_zip_rightD)

lemma index_of_nth:
  assumes "distinct (map j_id jobs)" and "k < length jobs"
  shows "index_of jobs (j_id (jobs ! k)) = Some k"
proof -
  have "distinct (map fst (rev (zip (map j_id jobs) [0..<length jobs])))"
    using assms(1) by (simp add: rev_map [symmetric])
  moreover have "(j_id (jobs ! k), k) \<in> set (rev (zip (map j_id jobs) [0..<length jobs]))"
    using assms(2) by (auto simp: set_zip intro!: exI [of _ k])
  ultimately show ?thesis unfolding index_of_def by (rule map_of_is_SomeI)
qed

subsection \<open>Every decision is justified\<close>

text \<open>A failed job blames a dependency that failed; a released job has no dependency left.\<close>

definition justified ::
  "externs \<Rightarrow> time \<Rightarrow> (job_id \<rightharpoonup> nat) \<Rightarrow> (job_id \<rightharpoonup> parent_state) \<Rightarrow> job list \<Rightarrow> job \<Rightarrow> job \<Rightarrow> bool"
  where
  "justified E now index parents jobs j j' \<longleftrightarrow>
     j' = j \<or>
     j_dependency_status j = DepWaiting \<and>
       (j' = j\<lparr>j_dependency_status := DepSatisfied\<rparr> \<and>
          (\<forall>p \<in> set (j_depends_on j). state_of index parents jobs p = PsCompleted) \<or>
        (\<exists>p \<in> set (j_depends_on j).
           state_of index parents jobs p = PsFailed \<and> j' = fail_new E now p j))"

definition waiting_unfinished :: "job list \<Rightarrow> bool" where
  "waiting_unfinished jobs \<longleftrightarrow>
     (\<forall>j \<in> set jobs. j_dependency_status j = DepWaiting \<longrightarrow> j_status j \<noteq> Completed)"

lemma justified_settled: "justified E now index parents jobs j j' \<Longrightarrow> settled_from E now j j'"
  by (auto simp: justified_def settled_from_def)

lemma justified_refl: "justified E now index parents jobs j j"
  by (simp add: justified_def)

lemma waiting_unfinished_settled:
  assumes "waiting_unfinished xs" and "all_settled_from E now xs ys"
  shows "waiting_unfinished ys"
  using assms settled_from_waiting
  by (fastforce simp: waiting_unfinished_def list_all2_conv_all_nth in_set_conv_nth)

text \<open>A decided dependency stays decided.\<close>

lemma state_of_decided:
  assumes "all_settled_from E now xs ys" and "index_in index (length xs)"
    and "waiting_unfinished xs" and "state_of index parents xs p \<noteq> PsUnfinished"
  shows "state_of index parents ys p = state_of index parents xs p"
proof (cases "index p")
  case (Some k)
  then have k: "k < length xs" using assms(2) by (auto simp: index_in_def ran_def)
  then have "settled_from E now (xs ! k) (ys ! k)"
    and "j_dependency_status (xs ! k) = DepWaiting \<Longrightarrow> j_status (xs ! k) \<noteq> Completed"
    using assms(1,3) by (auto simp: list_all2_conv_all_nth waiting_unfinished_def)
  with Some assms(4) show ?thesis
    by (auto simp: state_of_def settled_from_def fail_new_def split: if_splits)
qed (simp add: state_of_def)

lemma justified_later:
  assumes "all_settled_from E now xs ys" and "index_in index (length xs)"
    and "waiting_unfinished xs" and "justified E now index parents xs j j'"
  shows "justified E now index parents ys j j'"
  using assms(4) state_of_decided [OF assms(1-3)] unfolding justified_def
  by (metis parent_state.distinct(3,5))

lemma justified_trans:
  assumes "justified E now index parents jobs j j'" and "justified E now index parents jobs j' j''"
  shows "justified E now index parents jobs j j''"
  using assms by (auto simp: justified_def fail_new_def)

lemma settle_one_justified:
  assumes "i < length (fst s)" and "index_in index (length (fst s))" and "waiting_unfinished (fst s)"
    and "k < length (fst s)"
  shows "justified E now index parents (fst (settle_one E now index parents i s))
    (fst s ! k) (fst (settle_one E now index parents i s) ! k)"
proof (rule justified_later [OF settle_one_from [OF assms(1)] assms(2,3)])
  show "justified E now index parents (fst s)
    (fst s ! k) (fst (settle_one E now index parents i s) ! k)"
    using assms(1,4)
    by (cases s) (auto simp: settle_one_def Let_def justified_def nth_list_update list_all_iff
        split: option.splits dest!: find_SomeD)
qed

lemma settle_fold_justified:
  assumes "\<forall>i \<in> set is. i < length (fst s)" and "index_in index (length (fst s))"
    and "waiting_unfinished (fst s)" and "k < length (fst s)"
  shows "justified E now index parents (fst (fold (settle_one E now index parents) is s))
    (fst s ! k) (fst (fold (settle_one E now index parents) is s) ! k)"
  using assms
proof (induction "is" arbitrary: s)
  case Nil
  show ?case by (simp add: justified_refl)
next
  case (Cons i "is")
  let ?s = "settle_one E now index parents i s"
  let ?t = "fold (settle_one E now index parents) is ?s"
  have i: "i < length (fst s)" and rest: "\<forall>k \<in> set is. k < length (fst ?s)"
    using Cons.prems by auto
  note from_s = settle_one_from [OF i, of E now index parents]
  have wu: "waiting_unfinished (fst ?s)"
    by (rule waiting_unfinished_settled [OF Cons.prems(3) from_s])
  have "justified E now index parents (fst ?t) (fst s ! k) (fst ?s ! k)"
    by (rule justified_later [OF settle_fold_from [OF rest] _ wu
          settle_one_justified [OF i Cons.prems(2,3,4)]]) (simp add: Cons.prems)
  moreover have "justified E now index parents (fst ?t) (fst ?s ! k) (fst ?t ! k)"
    using Cons.IH [OF rest _ wu] Cons.prems by simp
  ultimately have "justified E now index parents (fst ?t) (fst s ! k) (fst ?t ! k)"
    by (rule justified_trans)
  then show ?case by simp
qed

lemma settle_loop_justified:
  assumes "index_in index (length (fst s))" and "waiting_unfinished (fst s)"
    and "k < length (fst s)"
  shows "justified E now index parents (fst (settle_loop E now index parents s))
    (fst s ! k) (fst (settle_loop E now index parents s) ! k)"
  using assms
proof (induction E now index parents s rule: settle_loop.induct)
  case (1 E now index parents s)
  obtain jobs failed changed where
    p: "settle_pass E now index parents s = (jobs, failed, changed)" by (metis prod_cases3)
  note from_s = settle_pass_from [OF p]
  have len: "length jobs = length (fst s)" using from_s by (simp add: list_all2_lengthD)
  have wu: "waiting_unfinished jobs" by (rule waiting_unfinished_settled [OF 1(3) from_s])
  have here: "justified E now index parents jobs (fst s ! k) (jobs ! k)"
    using settle_fold_justified [of "[0..<length (fst s)]" "(fst s, snd s, False)" index k E now parents]
      1(2-4) p by (simp add: settle_pass_def)
  show ?case
  proof (cases changed)
    case True
    let ?t = "fst (settle_loop E now index parents (jobs, failed))"
    have "justified E now index parents ?t (fst s ! k) (jobs ! k)"
      using justified_later [OF _ _ wu here, of ?t] settle_loop_from [of E now "(jobs, failed)"]
        1(2) len by simp
    moreover have "justified E now index parents ?t (jobs ! k) (?t ! k)"
      using 1(1) [OF p [symmetric] refl True] 1(2,4) wu len by simp
    ultimately show ?thesis
      using True p by (simp add: settle_loop.simps [of E now index parents s] justified_trans)
  next
    case False
    with p here show ?thesis by (simp add: settle_loop.simps [of E now index parents s])
  qed
qed

subsection \<open>Properties\<close>

text \<open>
  C7: Jobs enqueued together are settled against their dependencies correctly and completely.
  Each job is unchanged, or was waiting and is now released with every dependency completed,
  or was waiting and is failed blaming a dependency that did fail. No waiting job with
  dependencies is left that has a failed dependency or only completed ones, and the returned
  ids are those of the jobs that were failed.
\<close>

theorem settle_new_dependents_correct:
  assumes "settle_new_dependents E jobs parents now = (jobs', failed)"
    and "waiting_unfinished jobs"
  shows "length jobs' = length jobs \<and>
    (\<forall>k < length jobs. justified E now (index_of jobs) parents jobs' (jobs ! k) (jobs' ! k)) \<and>
    (\<forall>j \<in> set jobs'. j_dependency_status j = DepWaiting \<longrightarrow> j_depends_on j \<noteq> [] \<longrightarrow>
       undecided (index_of jobs) parents jobs' j) \<and>
    set failed = newly_failed jobs jobs'"
proof -
  let ?r = "settle_loop E now (index_of jobs) parents (jobs, [])"
  have r: "jobs' = fst ?r" "failed = snd ?r" using assms(1) by (auto simp: settle_new_dependents_def)
  have "length jobs' = length jobs"
    using list_all2_lengthD [OF settle_loop_from [of E now "(jobs, [])" "index_of jobs" parents]] r
    by simp
  with settle_loop_justified [of "index_of jobs" "(jobs, [])"]
    settle_loop_fixed [of "index_of jobs" "(jobs, [])"] settle_loop_failed [of E now _ _ "(jobs, [])"]
    assms(2) index_of_in [of jobs]
  show ?thesis by (simp add: r)
qed

definition sample_waiting :: "job list" where
  "sample_waiting =
     [job_depends_on (job_new 3 0 ''q'' ''{}'') 2, job_depends_on (job_new 2 0 ''q'' ''{}'') 9,
      job_depends_on (job_new 4 0 ''q'' ''{}'') 1, job_new 1 0 ''q'' ''{}'']"

lemma settle_new_dependents_witness:
  "snd (settle_new_dependents sample_externs sample_waiting [9 \<mapsto> PsFailed] 5) = [2, 3] \<and>
   newly_failed sample_waiting
     (fst (settle_new_dependents sample_externs sample_waiting [9 \<mapsto> PsFailed] 5)) = {2, 3}"
proof -
  have "waiting_unfinished sample_waiting" by code_simp
  from settle_new_dependents_correct [OF prod.collapse [symmetric] this]
  have "set (snd (settle_new_dependents sample_externs sample_waiting [9 \<mapsto> PsFailed] 5)) =
    newly_failed sample_waiting
     (fst (settle_new_dependents sample_externs sample_waiting [9 \<mapsto> PsFailed] 5))" by blast
  moreover have "snd (settle_new_dependents sample_externs sample_waiting [9 \<mapsto> PsFailed] 5) = [2, 3]"
    by code_simp
  ultimately show ?thesis by simp
qed

end
