(* ===== verification/Stable.thy ===== *)
theory Stable
  imports StorageInv Settle
begin

text \<open>
  The interface between a property of the storage and the operations of the queue: what the
  property promises about the primitive changes of a job other than a claim (\<open>quiet\<close>), about
  claims (\<open>stable\<close>) and about the addition and removal of jobs (\<open>quiet_store\<close>,
  \<open>stable_store\<close>), and from that its preservation by the operations of \<open>TestQueue\<close>.
\<close>

lemmas keeps_defs = keeps_run_def keeps_identity_def job_identity_def

lemma keeps_mark_failed: "keeps_identity (mark_failed err now)"
  by (simp add: keeps_defs mark_failed_def Let_def)

lemma keeps_release_job: "keeps_run (release_job E now)"
  by (simp add: keeps_defs release_job_def Let_def)

lemma keeps_if_failure:
  "keeps_identity (\<lambda>j. let j' = f j in if b then j' else g j')"
  if "keeps_identity f" "keeps_identity g"
  using that by (simp add: keeps_defs Let_def)

locale quiet =
  fixes I :: "storage \<Rightarrow> bool"
  assumes leave: "I st \<Longrightarrow> get_stored st i = Some j \<Longrightarrow> s \<noteq> Running \<Longrightarrow> keeps_identity f \<Longrightarrow>
      I (modify_job (remove_lease (set_status st i j s) i) i f)"
    and modify: "I st \<Longrightarrow> keeps_run f \<Longrightarrow> I (modify_job st i f)"
    and renew: "I st \<Longrightarrow> get_stored st i = Some j \<Longrightarrow> j_status j = Running \<Longrightarrow>
      I (set_lease E st i d)"
    and forget: "I st \<Longrightarrow> get_stored st i = None \<Longrightarrow> I (remove_lease st i)"
    and aux: "I st \<Longrightarrow> s_jobs st' = s_jobs st \<Longrightarrow> s_queues st' = s_queues st \<Longrightarrow>
      s_leases st' = s_leases st \<Longrightarrow> s_clock st' = s_clock st \<Longrightarrow> I st'"
begin

lemma keep_try: "I st \<Longrightarrow> (\<And>x. r = Inr x \<Longrightarrow> I (snd (k x))) \<Longrightarrow> I (snd (try_res r st k))"
  by (rule snd_try_res)

lemma keep_bind: "I (snd p) \<Longrightarrow> (\<And>x st. I st \<Longrightarrow> I (snd (k x st))) \<Longrightarrow> I (snd (bind_op p k))"
  by (rule snd_bind_op [of I]) simp_all

lemma keep_pair: "I (fst p) \<Longrightarrow> (\<And>x. I (fst p) \<Longrightarrow> I (snd (g (fst p) x))) \<Longrightarrow>
    I (snd (case p of (st, x) \<Rightarrow> g st x))"
  by (cases p) simp

lemma aux_updates:
  assumes "I st"
  shows "I (st\<lparr>s_workflows := x1\<rparr>)" "I (st\<lparr>s_throttle_configs := x2\<rparr>)"
    "I (st\<lparr>s_job_results := x3\<rparr>)" "I (st\<lparr>s_paused_queues := x4\<rparr>)"
    "I (st\<lparr>s_batches := x5\<rparr>)" "I (st\<lparr>s_batch_jobs := x6\<rparr>)"
    "I (st\<lparr>s_dependencies := x7\<rparr>)" "I (st\<lparr>s_dependents := x8\<rparr>)"
  by (rule aux [OF assms], simp_all)+

lemma leave_updated:
  "I st \<Longrightarrow> update_job_status E st i s = Inr st1 \<Longrightarrow> s \<noteq> Running \<Longrightarrow> keeps_identity f \<Longrightarrow>
     I (modify_job (remove_lease st1 i) i f)"
  by (auto simp: update_job_status_Inr intro: leave)

lemma keep_fail_as_side_effect: "I st \<Longrightarrow> I (fail_as_side_effect E st i err now)"
  by (cases "update_job_status E st i Failed")
    (auto simp: fail_as_side_effect_def intro: leave_updated keeps_mark_failed)

lemma keep_fail_direct: "I (fst s) \<Longrightarrow> I (fst (fail_direct E now c is s))"
  by (induction E now c "is" s rule: fail_direct.induct) (auto intro: keep_fail_as_side_effect)

lemma keep_fail_dependents_loop: "I st \<Longrightarrow> I (fst (fail_dependents_loop E now st failed cs))"
proof (induction E now st failed cs rule: fail_dependents_loop.induct)
  case (2 E now st failed current to_check)
  obtain st' failed' rest where
    d: "fail_direct E now current (direct_dependents st current) (st, failed, to_check)
        = (st', failed', rest)" by (metis prod_cases3)
  have "I st'" using keep_fail_direct [of "(st, failed, to_check)"] 2(2) d by (metis fst_conv)
  then show ?case using 2(1) [OF d [symmetric] refl] d by simp
qed simp

lemma keep_fail_listed: "I (fst s) \<Longrightarrow> I (fst (fail_listed E err now is s))"
  by (induction E err now "is" s rule: fail_listed.induct) (auto intro: keep_fail_as_side_effect)

lemma keep_fail_dependents: "I st \<Longrightarrow> I (fst (fail_dependents E st i now))"
  unfolding fail_dependents_def by (rule keep_fail_dependents_loop)

lemma keep_apply_workflow_failure: "I st \<Longrightarrow> I (fst (apply_workflow_failure E st i now))"
  using keep_fail_listed [of "(st, [])"] keep_fail_dependents
  by (auto simp: apply_workflow_failure_def split_beta split: option.split failure_policy.split)

lemma keep_apply_batch_failure: "I st \<Longrightarrow> I (fst (apply_batch_failure E st i now))"
  by (auto simp: apply_batch_failure_def intro: keep_fail_listed split: option.splits)

lemma keep_resolve_loop: "I (fst s) \<Longrightarrow> I (fst (resolve_loop E now is s))"
  by (induction E now "is" s rule: resolve_loop.induct) (auto intro: modify keeps_release_job)

lemma keep_resolve_dependents: "I st \<Longrightarrow> I (fst (resolve_dependents E st i now))"
  by (simp add: resolve_dependents_def keep_resolve_loop)

lemma keep_reschedule_in_place:
  "I st \<Longrightarrow> reschedule_in_place E st i t b = Inr st' \<Longrightarrow> I st'"
  by (auto simp: reschedule_in_place_def keeps_defs Let_def intro!: leave_updated
      split: sum.splits)

lemma keep_try_reschedule:
  "I st \<Longrightarrow> I (snd (try_res (reschedule_in_place E st i t b) st (\<lambda>st'. (r, st'))))"
  by (rule keep_try) (auto dest: keep_reschedule_in_place)

lemma keep_release_job_run: "I st \<Longrightarrow> I (snd (release_job_run E r st))"
  by (auto simp: release_job_run_def keeps_defs intro!: keep_try leave_updated)

lemma keep_complete_and_resolve: "I st \<Longrightarrow> I (snd (complete_and_resolve E i st))"
  by (auto simp: complete_and_resolve_def Let_def keeps_defs
      intro!: keep_try keep_pair keep_resolve_dependents leave_updated)

lemma keep_fail_job: "I st \<Longrightarrow> I (snd (fail_job E i err st))"
  by (auto simp: fail_job_def Let_def keeps_defs
      intro!: keep_try keep_apply_batch_failure keep_apply_workflow_failure leave_updated)

lemma keep_retry_job: "I st \<Longrightarrow> I (snd (retry_job E i t st))"
  by (auto simp: retry_job_def Let_def keeps_defs intro!: keep_try leave_updated
      split: option.split)

lemma keep_retry_dead_job: "I st \<Longrightarrow> I (snd (retry_dead_job E i st))"
  by (auto simp: retry_dead_job_def keeps_defs intro!: keep_try leave_updated)

lemma keep_end_with_failure:
  "I st \<Longrightarrow> s \<noteq> Running \<Longrightarrow> I (snd (end_with_failure E i s err b st))"
  by (auto simp: end_with_failure_def Let_def keeps_defs
      intro!: keep_try keep_pair keep_apply_batch_failure keep_apply_workflow_failure
      leave_updated)

lemma keep_record_outcome: "I st \<Longrightarrow> I (snd (record_outcome E wall i out b st))"
  by (cases out)
    (auto simp: record_outcome_def Let_def keeps_defs intro!: keep_bind
      keep_complete_and_resolve keep_retry_job keep_end_with_failure modify)

lemma keep_finish_job_run: "I st \<Longrightarrow> I (snd (finish_job_run E wall r out st))"
  by (auto simp: finish_job_run_def Let_def split: option.split
      intro!: keep_bind keep_record_outcome keep_try_reschedule)

lemma keep_heartbeat_job: "I st \<Longrightarrow> I (snd (heartbeat_job E r d st))"
  by (auto simp: heartbeat_job_def runs_as_def is_some_and_iff intro: renew)

lemma keep_start_claimed_run: "I st \<Longrightarrow> I (snd (start_claimed_run E r d st))"
  by (auto simp: start_claimed_run_def Let_def runs_as_def is_some_and_iff keeps_defs
      get_modify_job intro!: renew modify)

text \<open>The recovery removes the lease before the status changes.\<close>

lemma leave_forgotten:
  assumes "I st" and "update_job_status E (remove_lease st i) i s = Inr st1" and "s \<noteq> Running"
    and "keeps_identity f"
  shows "I (modify_job st1 i f)"
  using assms by (auto simp: update_job_status_Inr remove_lease_set_status intro: leave)

lemma forget_missing:
  "I st \<Longrightarrow> update_job_status E (remove_lease st i) i s = Inl e \<Longrightarrow> I (remove_lease st i)"
  by (auto simp: update_job_status_def intro: forget split: option.splits)

lemma keep_kill_stale: "I st \<Longrightarrow> I (snd (kill_stale E now i (remove_lease st i)))"
proof (cases "update_job_status E (remove_lease st i) i Dead")
  case (Inl e)
  moreover assume "I st"
  ultimately show ?thesis by (auto simp: kill_stale_def intro: forget_missing)
next
  case (Inr st1)
  assume "I st"
  with Inr have "I (modify_job st1 i
      (\<lambda>j. j\<lparr>j_failed_at := Some now, j_error_message := Some STALE_JOB_ERROR_MESSAGE\<rparr>))"
    by (auto simp: keeps_defs intro!: leave_forgotten)
  then show ?thesis
    by (auto simp: kill_stale_def Inr Let_def split: option.split intro!: keep_try_reschedule
        keep_apply_batch_failure keep_apply_workflow_failure)
qed

lemma keep_requeue_stale: "I st \<Longrightarrow> I (snd (requeue_stale E now i (remove_lease st i)))"
  by (cases "update_job_status E (remove_lease st i) i Pending")
    (auto simp: requeue_stale_def keeps_defs intro!: leave_forgotten intro: forget_missing)

lemma keep_recover_loop: "I st \<Longrightarrow> I (snd (recover_loop E now xs rcv st))"
proof (induction xs arbitrary: rcv st)
  case (Cons x xs)
  then show ?case
    by (cases x) (auto simp: Let_def intro!: keep_bind keep_kill_stale keep_requeue_stale)
qed simp

lemma keep_requeue_stale_jobs: "I st \<Longrightarrow> I (snd (requeue_stale_jobs E q st))"
  unfolding requeue_stale_jobs_def by (rule keep_recover_loop)

lemma keep_unit: "I (snd p) \<Longrightarrow> I (snd (bind_op p (\<lambda>_ st. (Inr x, st))))"
  by (auto intro: keep_bind)

lemma keep_manual:
  assumes "I st"
  shows "I (snd (complete_job E i st))" "I (snd (mark_job_dead E i err st))"
    "I (snd (mark_job_timed_out E i err st))"
  using assms
  by (auto simp: complete_job_def mark_job_dead_def mark_job_timed_out_def
      intro!: keep_unit keep_complete_and_resolve keep_end_with_failure)

lemma keep_reschedule_cron_job: "I st \<Longrightarrow> I (snd (reschedule_cron_job E i t st))"
  by (auto simp: reschedule_cron_job_def intro!: keep_try_reschedule keep_try)

lemma keep_disable_recurring_job: "I st \<Longrightarrow> I (snd (disable_recurring_job E i st))"
  by (auto simp: disable_recurring_job_def keeps_defs split: option.split intro!: modify)

lemma keep_enable_recurring_job: "I st \<Longrightarrow> I (snd (enable_recurring_job E i st))"
proof -
  assume I: "I st"
  have "keeps_run (\<lambda>j. j\<lparr>j_recurring := True\<rparr>)" "keeps_identity (resume_recurring t)" for t
    by (simp_all add: keeps_defs resume_recurring_def)
  note keeps = this
  have "I (snd (try_res (update_job_status E st i Pending) st (\<lambda>st1.
      (Inr (), modify_job (remove_lease st1 i) i (resume_recurring t)))))" for t
    by (rule keep_try [OF I]) (simp add: leave_updated [OF I _ _ keeps(2)])
  with modify [OF I keeps(1)] I show ?thesis
    by (auto simp: enable_recurring_job_def split: option.split intro!: keep_try)
qed

lemma keep_cancel_jobs: "I st \<Longrightarrow> I (cancel_jobs E now ids st)"
  unfolding cancel_jobs_def
  by (induction ids arbitrary: st) (auto intro: keep_fail_as_side_effect)

lemma keep_workflows:
  assumes "I st"
  shows "I (snd (resolve_job_dependencies E i st))" "I (snd (fail_job_dependencies E i st))"
    "I (snd (cancel_workflow E w st))" "I (join_workflow st w i)"
proof -
  show "I (snd (resolve_job_dependencies E i st))" "I (snd (fail_job_dependencies E i st))"
    using assms by (auto simp: resolve_job_dependencies_def fail_job_dependencies_def
        intro!: keep_pair keep_resolve_dependents keep_apply_workflow_failure)
  show "I (join_workflow st w i)"
    using assms by (auto simp: join_workflow_def split: option.split intro: aux_updates)
  show "I (snd (cancel_workflow E w st))"
    using assms by (auto simp: cancel_workflow_def Let_def split: option.split
        intro!: aux_updates keep_cancel_jobs)
qed

lemma keep_settings:
  assumes "I st"
  shows "I (snd (set_throttle_config q c st))" "I (snd (remove_throttle_config q st))"
    "I (snd (store_job_result E i data x st))" "I (snd (delete_job_result i st))"
    "I (snd (cleanup_expired_results st))" "I (snd (pause_queue q by_whom st))"
    "I (snd (resume_queue q st))"
  using assms
  by (auto simp: set_throttle_config_def remove_throttle_config_def store_job_result_def
      delete_job_result_def cleanup_expired_results_def pause_queue_def resume_queue_def Let_def
      intro!: keep_try aux_updates)

end

subsection \<open>Claims\<close>

locale stable = quiet +
  assumes claim: "I st \<Longrightarrow> get_stored st i = Some j \<Longrightarrow>
      I (modify_job (set_lease E (set_status st i j Running) i d) i (start_run now))"
begin

lemma keep_claimed:
  "I st \<Longrightarrow> update_job_status E' st i Running = Inr st1 \<Longrightarrow>
     I (modify_job (set_lease E st1 i d) i (start_run now))"
  by (auto simp: update_job_status_Inr intro: claim)

lemma keep_claim_one: "I st \<Longrightarrow> I (snd (claim_one E q w d st))"
  by (auto simp: claim_one_def Let_def intro!: keep_try keep_claimed split: option.split)

lemma keep_claim_loop: "I st \<Longrightarrow> I (snd (claim_loop E d is js st))"
proof (induction "is" arbitrary: js st)
  case (Cons i "is")
  then show ?case by (auto simp: Let_def intro!: keep_try Cons.IH keep_claimed)
qed simp

lemma keep_dequeue: "I st \<Longrightarrow> I (snd (dequeue E q opts st))"
  by (auto simp: dequeue_def Let_def claim_many_def intro!: keep_bind keep_claim_one
      keep_claim_loop)


end

subsection \<open>Adding and removing jobs\<close>

text \<open>An id that was never used: no job is stored under it and no lease is held for it.\<close>

definition fresh_id :: "storage \<Rightarrow> job_id \<Rightarrow> bool" where
  "fresh_id st i \<longleftrightarrow> get_stored st i = None \<and> s_leases st i = None"

lemma insert_add_commute:
  "insert_job (add_job_to_queue st j) j = add_job_to_queue (insert_job st j) j"
  by (simp add: insert_job_def add_job_to_queue_def push_status_def Let_def)

lemma fresh_after_add:
  "fresh_id st i \<Longrightarrow> i \<noteq> j_id j \<Longrightarrow> fresh_id (add_job_to_queue (insert_job st j) j) i"
  by (simp add: fresh_id_def add_job_to_queue_def insert_job_def)

text \<open>New jobs: distinct ids never used before, none of them running already.\<close>

definition new_jobs :: "storage \<Rightarrow> job list \<Rightarrow> bool" where
  "new_jobs st jobs \<longleftrightarrow>
     distinct (map j_id jobs) \<and> (\<forall>j \<in> set jobs. fresh_id st (j_id j) \<and> j_status j \<noteq> Running)"

lemma new_jobs_Cons:
  "new_jobs st (j # js) \<Longrightarrow>
     fresh_id st (j_id j) \<and> j_status j \<noteq> Running \<and>
     new_jobs (add_job_to_queue (insert_job st j) j) js"
  by (auto simp: new_jobs_def intro!: fresh_after_add) (metis image_eqI)

lemma new_jobs_map:
  "new_jobs st jobs \<Longrightarrow> (\<And>j. j_id (f j) = j_id j \<and> j_status (f j) = j_status j) \<Longrightarrow>
     new_jobs st (map f jobs)"
  by (auto simp: new_jobs_def o_def)

lemma new_jobs_settled:
  assumes "new_jobs st xs" and "all_settled_from E now xs ys"
  shows "new_jobs st ys"
proof -
  have "list_all2 (\<lambda>x y. j_id y = j_id x) xs ys" "list_all2 (\<lambda>x y. j_status x \<noteq> Running \<longrightarrow> j_status y \<noteq> Running) xs ys"
    using assms(2) by (auto elim!: list_all2_mono dest: settled_from_fields)
  then have "map j_id ys = map j_id xs" "\<forall>y \<in> set ys. j_status y \<noteq> Running"
    using assms(1)
    by (auto simp: list_all2_conv_all_nth new_jobs_def intro!: nth_equalityI)
      (metis in_set_conv_nth)
  moreover from this(1) have "j_id ` set ys = j_id ` set xs" by (metis set_map)
  ultimately show ?thesis using assms(1) unfolding new_jobs_def by (metis image_iff)
qed

lemma storage_settle_from: "all_settled_from E now jobs (fst (storage_settle E st jobs now))"
  using settle_loop_from [of E now "(jobs, [])"]
  by (simp add: storage_settle_def settle_new_dependents_def)

lemma storage_settle_one:
  obtains j' where "fst (storage_settle E st [j] now) = [j']" and "settled_from E now j j'"
  using storage_settle_from [of E now "[j]" st] by (auto simp: list_all2_Cons1)

lemma stamp_enqueued_fields [simp]:
  "j_id (stamp_enqueued E now j) = j_id j" "j_status (stamp_enqueued E now j) = j_status j"
  "j_queue_name (stamp_enqueued E now j) = j_queue_name j"
  by (simp_all add: stamp_enqueued_def)

lemma enqueue_Inr:
  assumes "fst (enqueue E j st) = Inr i"
  obtains j' where "settled_from E (s_clock st) (stamp_enqueued E (s_clock st) j) j'"
    "i = j_id j" "snd (enqueue E j st) = add_job_to_queue (insert_job st j') j'"
proof -
  obtain j' where s: "fst (storage_settle E st [stamp_enqueued E (s_clock st) j] (s_clock st)) = [j']"
    and f: "settled_from E (s_clock st) (stamp_enqueued E (s_clock st) j) j'"
    by (rule storage_settle_one)
  with assms settled_from_fields [OF f] show thesis
    by (intro that [OF f])
      (cases "validate_dependencies E j"; simp add: enqueue_def Let_def)+
qed

lemma enqueue_Inl: "fst (enqueue E j st) = Inl e \<Longrightarrow> snd (enqueue E j st) = st"
  by (cases "validate_dependencies E j") (simp_all add: enqueue_def Let_def)

lemma new_jobs_cong:
  "s_jobs st' = s_jobs st \<Longrightarrow> s_leases st' = s_leases st \<Longrightarrow> new_jobs st' = new_jobs st"
  by (simp add: new_jobs_def fresh_id_def fun_eq_iff)

lemma hold_release_fields [simp]:
  "j_id (hold_dependent E deps j) = j_id j" "j_status (hold_dependent E deps j) = j_status j"
  "j_id (release_settled E now j) = j_id j" "j_status (release_settled E now j) = j_status j"
  by (simp_all add: hold_dependent_def release_settled_def)

lemma push_dependent_fields:
  "s_jobs (push_dependent i d st) = s_jobs st \<and> s_queues (push_dependent i d st) = s_queues st \<and>
   s_leases (push_dependent i d st) = s_leases st \<and> s_clock (push_dependent i d st) = s_clock st"
  by (simp add: push_dependent_def)

lemma push_dependents_fields:
  "s_jobs (fold (push_dependent i) ds st) = s_jobs st \<and>
   s_queues (fold (push_dependent i) ds st) = s_queues st \<and>
   s_leases (fold (push_dependent i) ds st) = s_leases st \<and>
   s_clock (fold (push_dependent i) ds st) = s_clock st"
  by (induction ds arbitrary: st) (simp_all add: push_dependent_fields)

lemma store_dependencies_fields [store_simps]:
  "s_jobs (store_dependencies deps st) = s_jobs st \<and>
   s_queues (store_dependencies deps st) = s_queues st \<and>
   s_leases (store_dependencies deps st) = s_leases st \<and>
   s_clock (store_dependencies deps st) = s_clock st"
  unfolding store_dependencies_def
  by (induction deps arbitrary: st) (auto simp: push_dependents_fields)

lemma new_jobs_enqueue:
  assumes "new_jobs st (c # cs)"
  shows "new_jobs (snd (enqueue E c st)) cs"
proof (cases "fst (enqueue E c st)")
  case (Inl e)
  with enqueue_Inl [OF this] assms show ?thesis by (simp add: new_jobs_def)
next
  case (Inr i)
  then obtain j' where j': "settled_from E (s_clock st) (stamp_enqueued E (s_clock st) c) j'"
    "snd (enqueue E c st) = add_job_to_queue (insert_job st j') j'" by (rule enqueue_Inr)
  have "new_jobs st (j' # cs)"
    using assms settled_from_fields [OF j'(1)] by (auto simp: new_jobs_def)
  with new_jobs_Cons j'(2) show ?thesis by fastforce
qed

lemma join_workflow_fields [store_simps]:
  "s_jobs (join_workflow st w i) = s_jobs st" "s_leases (join_workflow st w i) = s_leases st"
  by (auto simp: join_workflow_def split: option.splits)

locale quiet_store = quiet +
  assumes add: "I st \<Longrightarrow> fresh_id st (j_id j) \<Longrightarrow> j_status j \<noteq> Running \<Longrightarrow>
      I (add_job_to_queue (insert_job st j) j)"
    and drop: "I st \<Longrightarrow> get_stored st i = Some j \<Longrightarrow>
      I (retain_status (st\<lparr>s_jobs := AList.delete i (s_jobs st)\<rparr>) (j_queue_name j) (j_status j) i)"
    and purge: "I st \<Longrightarrow> I (purge_one i st)"
    and purge_in_queue: "I st \<Longrightarrow> get_stored st i = Some j \<Longrightarrow>
      I (purge_one_in_queue (j_queue_name j) i st)"
begin

lemma keep_remove_stored: "I st \<Longrightarrow> I (remove_stored i st)"
  by (auto simp: remove_stored_def intro: drop split: option.split)

lemma keep_remove_all: "I st \<Longrightarrow> I (fold remove_stored ids st)"
  by (induction ids arbitrary: st) (auto intro: keep_remove_stored)

lemma keep_purge_all: "I st \<Longrightarrow> I (fold purge_one ids st)"
  by (induction ids arbitrary: st) (auto intro: purge)

lemma keep_delete:
  assumes "I st"
  shows "I (snd (delete_job E i st))" "I (snd (delete_batch b st))"
    "I (snd (purge_dead_jobs t st))" "I (snd (purge_archived_jobs t st))"
proof -
  show "I (snd (delete_job E i st))"
    using assms by (auto simp: delete_job_def Let_def split: option.split intro!: aux_updates drop)
  show "I (snd (delete_batch b st))" "I (snd (purge_dead_jobs t st))"
    "I (snd (purge_archived_jobs t st))"
    using assms by (auto simp: delete_batch_def purge_dead_jobs_def purge_archived_jobs_def Let_def
        split: option.split intro!: aux_updates keep_remove_all keep_purge_all)
qed

lemma keep_store_jobs: "I st \<Longrightarrow> new_jobs st jobs \<Longrightarrow> I (store_jobs jobs st)"
  unfolding store_jobs_def
proof (induction jobs arbitrary: st)
  case (Cons j js)
  from new_jobs_Cons [OF Cons.prems(2)] Cons show ?case
    by (auto simp: insert_add_commute intro!: Cons.IH add)
qed simp

lemma keep_enqueue: "I st \<Longrightarrow> new_jobs st [j] \<Longrightarrow> I (snd (enqueue E j st))"
proof -
  assume I: "I st" and new: "new_jobs st [j]"
  obtain j' where s: "fst (storage_settle E st [stamp_enqueued E (s_clock st) j] (s_clock st)) = [j']"
    and "settled_from E (s_clock st) (stamp_enqueued E (s_clock st) j) j'"
    by (rule storage_settle_one)
  then have "I (add_job_to_queue (insert_job st j') j')"
    using I new by (auto simp: new_jobs_def dest: settled_from_fields intro!: add)
  with I s show ?thesis by (auto simp: enqueue_def Let_def intro!: keep_try)
qed

lemma keep_enqueue_batch: "I st \<Longrightarrow> new_jobs st (b_jobs b) \<Longrightarrow> I (snd (enqueue_batch E b st))"
  unfolding enqueue_batch_def Let_def
  by (rule keep_try)
    (auto intro!: aux_updates keep_store_jobs new_jobs_settled [OF _ storage_settle_from]
      new_jobs_map)

lemma keep_enqueue_workflow:
  assumes "I st" and "new_jobs st (g_jobs g)"
  shows "I (snd (enqueue_workflow E g st))"
proof -
  let ?st = "store_dependencies (merged_dependencies g) st"
  have "I ?st" by (rule aux [OF assms(1)]) (simp_all add: store_dependencies_fields)
  moreover have "new_jobs ?st (g_jobs g)"
    using assms(2) new_jobs_cong [of ?st st] by (simp add: store_dependencies_fields)
  ultimately show ?thesis
    unfolding enqueue_workflow_def Let_def
    by (intro keep_try [OF assms(1)])
      (auto intro!: aux_updates keep_store_jobs new_jobs_map
        new_jobs_settled [OF _ storage_settle_from])
qed

lemma keep_enqueue_cron_job:
  "I st \<Longrightarrow> new_jobs st [j] \<Longrightarrow> I (snd (enqueue_cron_job E j st))"
  by (auto simp: enqueue_cron_job_def Let_def new_jobs_def split: option.split intro!: keep_enqueue)

lemma keep_spawn_children:
  "I st \<Longrightarrow> new_jobs st cs \<Longrightarrow> I (snd (spawn_children E cs spawned st))"
proof (induction cs arbitrary: spawned st)
  case (Cons c cs)
  let ?st = "snd (enqueue E c st)"
  have "I ?st" using Cons.prems by (auto simp: new_jobs_def intro!: keep_enqueue)
  moreover have "new_jobs ?st cs" by (rule new_jobs_enqueue) (rule Cons.prems)
  moreover from this have "new_jobs (join_workflow ?st w i) cs" for w i
    using new_jobs_cong [of "join_workflow ?st w i" ?st] by (simp add: join_workflow_fields)
  ultimately show ?case
    by (cases "enqueue E c st"; cases "fst (enqueue E c st)")
      (auto intro!: Cons.IH keep_workflows split: option.split)
qed simp

lemma keep_complete_with_children:
  "I st \<Longrightarrow> new_jobs st cs \<Longrightarrow> I (snd (complete_job_run_with_children E wall r cs st))"
  by (auto simp: complete_job_run_with_children_def
      intro!: keep_try keep_bind keep_spawn_children keep_finish_job_run)

end

locale stable_store = stable + quiet_store

end
