(* ===== verification/Invariant.thy ===== *)
theory Invariant
  imports Stable
begin

text \<open>
  The interpretations of \<open>stable\<close> and \<open>stable_store\<close> on the storage of \<open>TestQueue\<close>, the
  operations they do not cover (archiving and restoring, which move several index entries at
  once), and the invariant of every reachable storage: the operations of the queue as commands,
  executed in any order on a new queue.
\<close>

subsection \<open>The index\<close>

lemma keeps_start_run: "keeps_identity (start_run now)"
  by (simp add: keeps_defs start_run_def)

lemma index_ok_move:
  assumes "index_ok st" and "get_stored st i = Some j" and "keeps_identity f"
    and "s_jobs st' = s_jobs (set_status st i j s)" and "s_queues st' = s_queues (set_status st i j s)"
  shows "index_ok (modify_job st' i f)"
  by (rule index_ok_modify [OF index_ok_cong [OF index_ok_set_status [OF assms(1,2)]] assms(3)])
    (simp_all add: assms)

lemma index_ok_add:
  assumes ok: "index_ok st" and new: "get_stored st (j_id j) = None"
  shows "index_ok (add_job_to_queue (insert_job st j) j)"
proof -
  let ?st = "add_job_to_queue (insert_job st j) j"
  have get: "get_stored ?st i = (if i = j_id j then Some j else get_stored st i)" for i
    by (simp add: add_job_to_queue_def insert_job_def)
  have sj: "status_jobs ?st q s = (if q = j_queue_name j \<and> s = j_status j
      then push_new (status_jobs st q s) (j_id j) else status_jobs st q s)" for q s
    by (simp add: add_job_to_queue_def insert_job_def status_jobs_push)
  have "set (status_jobs ?st q s) = indexed ?st q s" for q s
    using index_okD(4) [OF ok, of q s] new by (auto simp: sj indexed_def get)
  moreover have "distinct (map fst (s_jobs ?st))"
    using index_okD(1) [OF ok] by (simp add: add_job_to_queue_def insert_job_def)
  moreover have "distinct (status_jobs ?st q s)" for q s
    using index_okD(3) [OF ok] by (simp add: sj)
  moreover have "j_id k = i" if "get_stored ?st i = Some k" for i k
    using that index_okD(2) [OF ok] by (simp add: get split: if_splits)
  ultimately show ?thesis unfolding index_ok_def by blast
qed

text \<open>Removing a job from the map and from its own status list.\<close>

lemma index_ok_without:
  assumes ok: "index_ok st" and jobs: "s_jobs st' = AList.delete i (s_jobs st)"
    and sj: "\<And>q s. status_jobs st' q s = filter (\<lambda>x. x \<noteq> i) (status_jobs st q s)"
  shows "index_ok st'"
proof -
  have "set (status_jobs st' q s) = indexed st' q s" for q s
    using index_okD(4) [OF ok, of q s] by (auto simp: sj indexed_def jobs)
  then show ?thesis
    using index_okD(1-3) [OF ok] by (auto simp: index_ok_def sj jobs)
qed

lemma status_jobs_other:
  assumes "index_ok st" and "get_stored st i = Some j" and "\<not> (q = j_queue_name j \<and> s = j_status j)"
  shows "filter (\<lambda>x. x \<noteq> i) (status_jobs st q s) = status_jobs st q s"
  using index_okD(4) [OF assms(1), of q s] assms(2,3) by (auto simp: filter_id_conv indexed_def)

lemma index_ok_drop:
  assumes "index_ok st" and "get_stored st i = Some j"
  shows "index_ok (retain_status (st\<lparr>s_jobs := AList.delete i (s_jobs st)\<rparr>)
    (j_queue_name j) (j_status j) i)"
  by (rule index_ok_without [OF assms(1), of _ i])
    (auto simp: status_jobs_retain status_jobs_other [OF assms])

lemma status_jobs_retain_all:
  "s_queues st' q = map_option (retain_all i) (s_queues st q) \<Longrightarrow>
     status_jobs st' q s = filter (\<lambda>x. x \<noteq> i) (status_jobs st q s)"
  by (cases "s_queues st q"; cases "the (s_queues st q) s")
    (simp_all add: status_jobs_def retain_all_def)

lemma index_ok_purge: "index_ok st \<Longrightarrow> index_ok (purge_one i st)"
  by (rule index_ok_without [of st _ i])
    (auto simp: purge_one_def intro!: status_jobs_retain_all)

lemma index_ok_purge_in_queue:
  assumes "index_ok st" and "get_stored st i = Some j"
  shows "index_ok (purge_one_in_queue (j_queue_name j) i st)"
proof (rule index_ok_without [OF assms(1), of _ i])
  fix q s
  show "status_jobs (purge_one_in_queue (j_queue_name j) i st) q s =
      filter (\<lambda>x. x \<noteq> i) (status_jobs st q s)"
  proof (cases "q = j_queue_name j")
    case True
    then show ?thesis by (simp add: purge_one_in_queue_def status_jobs_retain_all)
  next
    case False
    then show ?thesis
      using status_jobs_other [OF assms, of q s]
      by (simp add: purge_one_in_queue_def status_jobs_def)
  qed
qed (simp add: purge_one_in_queue_def)

interpretation idx: stable_store index_ok
proof
  fix st :: storage and i j s f assume "index_ok st" "get_stored st i = Some j" "keeps_identity f"
  then show "index_ok (modify_job (remove_lease (set_status st i j s) i) i f)"
    by (auto intro: index_ok_move)
next
  fix st :: storage and i j E d now assume "index_ok st" "get_stored st i = Some j"
  then show "index_ok (modify_job (set_lease E (set_status st i j Running) i d) i (start_run now))"
    by (auto intro: index_ok_move keeps_start_run)
qed (auto intro: index_ok_modify index_ok_cong index_ok_add index_ok_drop index_ok_purge
    index_ok_purge_in_queue simp: keeps_run_def fresh_id_def)

subsection \<open>Leases\<close>

lemma runs_okD:
  "runs_ok st \<Longrightarrow> get_stored st i = Some j \<Longrightarrow>
     (j_status j = Running \<longleftrightarrow> s_leases st i \<noteq> None) \<and>
     (j_status j = Running \<longrightarrow> j_started_at j \<noteq> None)"
  unfolding runs_ok_def by blast

lemma runs_ok_change:
  assumes "runs_ok st"
    and "\<And>k. k \<noteq> i \<Longrightarrow> get_stored st' k = get_stored st k \<and> s_leases st' k = s_leases st k"
    and "\<And>j. get_stored st' i = Some j \<Longrightarrow> (j_status j = Running \<longleftrightarrow> s_leases st' i \<noteq> None) \<and>
      (j_status j = Running \<longrightarrow> j_started_at j \<noteq> None)"
  shows "runs_ok st'"
  unfolding runs_ok_def using assms runs_okD by metis

lemma runs_ok_without:
  "runs_ok st \<Longrightarrow> (\<And>k j. get_stored st' k = Some j \<Longrightarrow> get_stored st k = Some j) \<Longrightarrow>
     s_leases st' = s_leases st \<Longrightarrow> runs_ok st'"
  unfolding runs_ok_def by metis

interpretation runs: stable_store runs_ok
proof
  fix st :: storage and i j s f
  assume "runs_ok st" "get_stored st i = Some j" "s \<noteq> Running" "keeps_identity f"
  then show "runs_ok (modify_job (remove_lease (set_status st i j s) i) i f)"
    by - (rule runs_ok_change [of st i], simp_all add: get_modify_job get_set_status,
        auto simp: keeps_identityD)
next
  fix st :: storage and i j E d now assume "runs_ok st" "get_stored st i = Some j"
  then show "runs_ok (modify_job (set_lease E (set_status st i j Running) i d) i (start_run now))"
    by - (rule runs_ok_change [of st i], auto simp: get_modify_job get_set_status start_run_def)
next
  fix st :: storage and f i assume "runs_ok st" "keeps_run f"
  then show "runs_ok (modify_job st i f)"
    by - (rule runs_ok_change [of st i],
        auto simp: get_modify_job keeps_run_def keeps_identityD dest: runs_okD)
next
  fix st :: storage and i j E d assume "runs_ok st" "get_stored st i = Some j" "j_status j = Running"
  then show "runs_ok (set_lease E st i d)"
    by - (rule runs_ok_change [of st i], auto dest: runs_okD)
next
  fix st :: storage and j :: job assume "runs_ok st" "fresh_id st (j_id j)" "j_status j \<noteq> Running"
  then show "runs_ok (add_job_to_queue (insert_job st j) j)"
    by - (rule runs_ok_change [of st "j_id j"],
        auto simp: fresh_id_def add_job_to_queue_def insert_job_def)
next
  fix st :: storage and i and j :: job assume "runs_ok st"
  then show "runs_ok (retain_status (st\<lparr>s_jobs := AList.delete i (s_jobs st)\<rparr>)
      (j_queue_name j) (j_status j) i)" "runs_ok (purge_one i st)"
    "runs_ok (purge_one_in_queue (j_queue_name j) i st)"
    by (auto simp: purge_one_def purge_one_in_queue_def intro: runs_ok_without split: if_splits)
qed (auto simp: runs_ok_def)

subsection \<open>Frames\<close>

text \<open>No operation moves the mock clock.\<close>

interpretation clock: stable_store "\<lambda>st. s_clock st = c" for c
  by unfold_locales
    (simp_all add: add_job_to_queue_def insert_job_def purge_one_def purge_one_in_queue_def)

text \<open>No lifecycle operation adds or removes a job or changes what identifies it.\<close>

definition same_jobs :: "(job_id \<Rightarrow> _ option) \<Rightarrow> storage \<Rightarrow> bool" where
  "same_jobs M st \<longleftrightarrow> (\<forall>i. map_option job_identity (get_stored st i) = M i)"

lemma job_identity_status [simp]: "job_identity (j\<lparr>j_status := s\<rparr>) = job_identity j"
  by (simp add: job_identity_def)

lemma same_jobs_modify:
  "same_jobs M st \<Longrightarrow> s_jobs st' = s_jobs st \<Longrightarrow> keeps_identity f \<Longrightarrow> same_jobs M (modify_job st' i f)"
  by (auto simp: same_jobs_def get_modify_job keeps_identity_def option.map_comp o_def)

lemma same_jobs_set_status:
  "same_jobs M st \<Longrightarrow> get_stored st i = Some j \<Longrightarrow> same_jobs M (set_status st i j s)"
  unfolding same_jobs_def by (metis get_set_status job_identity_status option.simps(9))

interpretation same: stable "same_jobs M" for M
proof
  fix st :: storage and i j s f
  assume "same_jobs M st" "get_stored st i = Some j" "keeps_identity f"
  then show "same_jobs M (modify_job (remove_lease (set_status st i j s) i) i f)"
    by (auto intro: same_jobs_modify [OF same_jobs_set_status])
next
  fix st :: storage and i j E d now assume "same_jobs M st" "get_stored st i = Some j"
  then show "same_jobs M (modify_job (set_lease E (set_status st i j Running) i d) i (start_run now))"
    by (auto intro: same_jobs_modify [OF same_jobs_set_status] keeps_start_run)
next
  fix st :: storage and f i assume "same_jobs M st" "keeps_run f"
  then show "same_jobs M (modify_job st i f)"
    by (auto intro: same_jobs_modify simp: keeps_run_def)
qed (simp_all add: same_jobs_def)

subsection \<open>Archiving and restoring\<close>

definition storage_inv :: "storage \<Rightarrow> bool" where
  "storage_inv st \<longleftrightarrow> index_ok st \<and> runs_ok st"

lemma value_ids: "index_ok st \<Longrightarrow> map j_id (values_of (s_jobs st)) = map fst (s_jobs st)"
  using index_okD(1,2) by (force intro: map_of_is_SomeI)

lemma stored_value:
  "index_ok st \<Longrightarrow> j \<in> set (values_of (s_jobs st)) \<Longrightarrow> get_stored st (j_id j) = Some j"
  using index_okD(1,2) by (fastforce intro: map_of_is_SomeI)

lemma value_stored: "get_stored st i = Some j \<Longrightarrow> j \<in> set (values_of (s_jobs st))"
  by (force dest: map_of_SomeD)

lemma distinct_filtered_ids:
  "index_ok st \<Longrightarrow> distinct (map j_id (filter P (values_of (s_jobs st))))"
  using value_ids [of st] index_okD(1) [of st] by (metis distinct_map_filter)

lemma queue_present:
  assumes "index_ok st" and "get_stored st i = Some j"
  shows "s_queues st (j_queue_name j) \<noteq> None"
proof
  assume "s_queues st (j_queue_name j) = None"
  moreover have "i \<in> set (status_jobs st (j_queue_name j) (j_status j))"
    using index_okD(4) [OF assms(1)] assms(2) by (auto simp: indexed_def)
  ultimately show False by (simp add: status_jobs_def)
qed

lemma archive_mark_state:
  "map fst (s_jobs (snd (snd (archive_mark ids (n, b, st))))) = map fst (s_jobs st) \<and>
   s_queues (snd (snd (archive_mark ids (n, b, st)))) = s_queues st \<and>
   s_leases (snd (snd (archive_mark ids (n, b, st)))) = s_leases st \<and>
   s_clock (snd (snd (archive_mark ids (n, b, st)))) = s_clock st \<and>
   (\<forall>k. get_stored (snd (snd (archive_mark ids (n, b, st)))) k =
      (if k \<in> set ids then map_option (\<lambda>j. j\<lparr>j_status := Archived\<rparr>) (get_stored st k)
       else get_stored st k))"
  unfolding archive_mark_def
proof (induction ids arbitrary: n b st)
  case (Cons i ids)
  show ?case
  proof (cases "get_stored st i")
    case None
    with Cons.IH [of n b st] show ?thesis by simp
  next
    case (Some j)
    with Cons.IH [of "n + 1" "b + length (j_payload j)" "modify_job st i (\<lambda>j. j\<lparr>j_status := Archived\<rparr>)"]
    show ?thesis by (simp add: get_modify_job)
  qed
qed simp

lemma move_to_archived_state:
  assumes "s_queues st q \<noteq> None"
  shows "s_jobs (move_to_archived i q st) = s_jobs st"
    and "s_leases (move_to_archived i q st) = s_leases st"
    and "s_queues (move_to_archived i q st) k \<noteq> None \<longleftrightarrow> s_queues st k \<noteq> None"
    and "status_jobs (move_to_archived i q st) k s =
      (if k = q then filter (\<lambda>x. x \<noteq> i) (status_jobs st q s) @ (if s = Archived then [i] else [])
       else status_jobs st k s)"
proof -
  obtain m where m: "s_queues st q = Some m" using assms by auto
  then show "s_jobs (move_to_archived i q st) = s_jobs st"
    "s_leases (move_to_archived i q st) = s_leases st"
    "s_queues (move_to_archived i q st) k \<noteq> None \<longleftrightarrow> s_queues st k \<noteq> None"
    by (simp_all add: move_to_archived_def Let_def)
  show "status_jobs (move_to_archived i q st) k s =
      (if k = q then filter (\<lambda>x. x \<noteq> i) (status_jobs st q s) @ (if s = Archived then [i] else [])
       else status_jobs st k s)"
    using m by (cases "m s")
      (auto simp: move_to_archived_def Let_def status_jobs_def retain_all_def)
qed

lemma move_all_state:
  assumes "\<forall>(i, q) \<in> set names. s_queues st q \<noteq> None" and "distinct (map fst names)"
  shows "s_jobs (fold (\<lambda>(i, q). move_to_archived i q) names st) = s_jobs st \<and>
    s_leases (fold (\<lambda>(i, q). move_to_archived i q) names st) = s_leases st \<and>
    status_jobs (fold (\<lambda>(i, q). move_to_archived i q) names st) q s =
      filter (\<lambda>i. (i, q) \<notin> set names) (status_jobs st q s) @
      (if s = Archived then map fst (filter (\<lambda>(i, n). n = q) names) else [])"
  using assms
proof (induction names arbitrary: st)
  case (Cons x names)
  obtain i n where x: "x = (i, n)" by (cases x)
  let ?st = "move_to_archived i n st"
  have n: "s_queues st n \<noteq> None" using Cons.prems x by simp
  note m = move_to_archived_state [OF n]
  have fresh: "(i, k) \<notin> set names" for k using Cons.prems(2) x by force
  have "\<forall>(i, q) \<in> set names. s_queues ?st q \<noteq> None" using Cons.prems(1) m(3) by auto
  from Cons.IH [OF this] Cons.prems(2) fresh show ?case
    by (auto simp: x m intro!: filter_cong)
qed simp

lemma jobs_to_archive_stored:
  assumes "index_ok st" and "i \<in> set (jobs_to_archive q policy st)"
  shows "\<exists>j. get_stored st i = Some j \<and> archivable q policy (s_clock st) j"
proof -
  from assms(2) obtain j where "j \<in> set (values_of (s_jobs st))" "i = j_id j"
    "archivable q policy (s_clock st) j"
    by (fastforce simp: jobs_to_archive_def dest!: in_set_takeD)
  with stored_value [OF assms(1)] show ?thesis by blast
qed

lemma map_filter_total:
  "(\<And>x. x \<in> set xs \<Longrightarrow> f x = Some (g x)) \<Longrightarrow> List.map_filter f xs = map g xs"
  by (induction xs) (simp_all add: List.map_filter_simps)

lemma archivable_terminal: "archivable q policy now j \<Longrightarrow> j_status j \<in> {Completed, Failed, Dead, TimedOut}"
  using should_archive_terminal by (auto simp: archivable_def is_some_and_iff)

text \<open>The state \<open>archive_jobs\<close> leaves, field by field.\<close>

lemma archive_jobs_state:
  fixes st :: storage and q :: "string option" and policy :: archival_policy
  assumes ok: "index_ok st"
  defines "ids \<equiv> jobs_to_archive q policy st" and "st' \<equiv> snd (archive_jobs q policy st)"
  shows "get_stored st' k = (if k \<in> set ids then map_option (\<lambda>j. j\<lparr>j_status := Archived\<rparr>) (get_stored st k)
      else get_stored st k)"
    and "map fst (s_jobs st') = map fst (s_jobs st)" and "s_leases st' = s_leases st"
    and "status_jobs st' n s =
      filter (\<lambda>i. i \<notin> set ids) (status_jobs st n s) @
      (if s = Archived then filter (\<lambda>i. \<exists>j. get_stored st i = Some j \<and> j_queue_name j = n) ids else [])"
proof -
  obtain a b st1 where m: "archive_mark ids (0, 0, st) = (a, b, st1)" by (metis prod_cases3)
  note mark = archive_mark_state [of ids 0 0 st, unfolded m snd_conv]
  define name where "name = (\<lambda>i. map_option (\<lambda>j. (i, j_queue_name j)) (get_stored st1 i))"
  define names where "names = List.map_filter name ids"
  have stored: "\<exists>j. get_stored st i = Some j" if "i \<in> set ids" for i
    using jobs_to_archive_stored [OF ok] that ids_def by blast
  have dist: "distinct ids"
    unfolding ids_def jobs_to_archive_def by (intro distinct_take distinct_filtered_ids ok)
  have names: "names = map (\<lambda>i. (i, j_queue_name (the (get_stored st i)))) ids"
    unfolding names_def name_def using mark stored by (intro map_filter_total) force
  have "\<forall>(i, n) \<in> set names. s_queues st1 n \<noteq> None"
    using stored queue_present [OF ok] mark by (fastforce simp: names)
  moreover have "map fst names = ids" by (simp add: names o_def)
  ultimately have fin: "s_jobs st' = s_jobs st1 \<and> s_leases st' = s_leases st1 \<and>
    status_jobs st' n s = filter (\<lambda>i. (i, n) \<notin> set names) (status_jobs st1 n s) @
      (if s = Archived then map fst (filter (\<lambda>(i, k). k = n) names) else [])"
    using move_all_state [of names st1 n s] dist
    by (simp add: st'_def archive_jobs_def ids_def [symmetric] m Let_def names_def [symmetric, unfolded name_def] )
  show "get_stored st' k = (if k \<in> set ids then map_option (\<lambda>j. j\<lparr>j_status := Archived\<rparr>) (get_stored st k)
      else get_stored st k)"
    "map fst (s_jobs st') = map fst (s_jobs st)" "s_leases st' = s_leases st"
    using fin mark by simp_all
  have "status_jobs st1 n s = status_jobs st n s"
    using mark status_jobs_cong [of st1 st] by simp
  moreover have "filter (\<lambda>i. (i, n) \<notin> set names) (status_jobs st n s) =
      filter (\<lambda>i. i \<notin> set ids) (status_jobs st n s)"
    using index_okD(4) [OF ok, of n s]
    by (intro filter_cong refl) (auto simp: names indexed_def image_iff)
  moreover have "map fst (filter (\<lambda>(i, k). k = n) names) =
      filter (\<lambda>i. \<exists>j. get_stored st i = Some j \<and> j_queue_name j = n) ids"
    using stored by (auto simp: names filter_map o_def intro!: filter_cong) (metis option.sel)
  ultimately show "status_jobs st' n s =
      filter (\<lambda>i. i \<notin> set ids) (status_jobs st n s) @
      (if s = Archived then filter (\<lambda>i. \<exists>j. get_stored st i = Some j \<and> j_queue_name j = n) ids else [])"
    using fin by simp
qed

lemma archive_jobs_inv:
  assumes "storage_inv st"
  shows "storage_inv (snd (archive_jobs q policy st))"
proof -
  have ok: "index_ok st" and run: "runs_ok st" using assms by (auto simp: storage_inv_def)
  let ?ids = "jobs_to_archive q policy st" and ?st = "snd (archive_jobs q policy st)"
  note s = archive_jobs_state [OF ok, of q policy]
  have dist: "distinct ?ids"
    unfolding jobs_to_archive_def by (intro distinct_take distinct_filtered_ids ok)
  have mem: "set (status_jobs ?st n u) = indexed ?st n u" for n u
    using index_okD(4) [OF ok, of n u] by (auto simp: s(1,4) indexed_def split: if_splits)
  have "distinct (status_jobs ?st n u)" for n u
    using index_okD(3) [OF ok, of n u] dist by (auto simp: s(4))
  moreover have "j_id j = k" if "get_stored ?st k = Some j" for k j
    using that index_okD(2) [OF ok, of k] by (auto simp: s(1) split: if_splits)
  ultimately have "index_ok ?st" using index_okD(1) [OF ok] mem unfolding index_ok_def by (simp add: s(2))
  moreover have "runs_ok ?st"
    using runs_okD [OF run] jobs_to_archive_stored [OF ok, of _ q policy] archivable_terminal
    unfolding runs_ok_def s(1,3) by (fastforce split: if_splits)
  ultimately show ?thesis by (simp add: storage_inv_def)
qed

lemma move_to_pending_status_jobs:
  assumes "s_queues st q \<noteq> None"
  shows "status_jobs (move_to_pending i q st) k s =
    (if k = q \<and> s = Archived then filter (\<lambda>x. x \<noteq> i) (status_jobs st q Archived)
     else if k = q \<and> s = Pending then status_jobs st q Pending @ [i]
     else status_jobs st k s)"
proof -
  obtain m where "s_queues st q = Some m" using assms by auto
  then show ?thesis
    by (cases "m Archived") (auto simp: move_to_pending_def Let_def status_jobs_def)
qed

lemma move_to_pending_fields:
  "s_jobs (move_to_pending i q st) = s_jobs st" "s_leases (move_to_pending i q st) = s_leases st"
  by (simp_all add: move_to_pending_def Let_def split: option.split)

text \<open>What a restored job keeps and what is reset.\<close>

definition restored_from :: "job \<Rightarrow> job \<Rightarrow> time \<Rightarrow> bool" where
  "restored_from j j' now \<longleftrightarrow>
     job_identity j' = job_identity j \<and> j_status j' = Pending \<and> j_attempts j' = 0 \<and>
     j_scheduled_at j' = now \<and> j_started_at j' = None \<and> j_completed_at j' = None \<and>
     j_failed_at j' = None \<and> j_timed_out_at j' = None \<and> j_error_message j' = None"

lemma restore_cases:
  assumes "fst (restore_archived_job E wall i st) = Inr j'"
  obtains j where "get_stored st i = Some j" "j_status j = Archived" "restored_from j j' (s_clock st)"
    "snd (restore_archived_job E wall i st) =
       move_to_pending i (j_queue_name j) (modify_job st i (\<lambda>_. j'))"
proof -
  from assms obtain j where j: "get_stored st i = Some j" "j_status j = Archived"
    by (auto simp: restore_archived_job_def split: option.splits if_splits)
  show thesis
  proof (rule that [OF j])
    show "restored_from j j' (s_clock st)"
      "snd (restore_archived_job E wall i st) =
       move_to_pending i (j_queue_name j) (modify_job st i (\<lambda>_. j'))"
      using assms j
      by (auto simp: restore_archived_job_def restored_from_def reset_for_restore_def
          job_identity_def try_res_def Let_def split: sum.splits if_splits option.splits)
  qed
qed

lemma restore_Inl:
  "fst (restore_archived_job E wall i st) = Inl e \<Longrightarrow> snd (restore_archived_job E wall i st) = st"
  by (auto simp: restore_archived_job_def try_res_def Let_def split: option.splits if_splits sum.splits)

lemma restore_inv:
  assumes "storage_inv st"
  shows "storage_inv (snd (restore_archived_job E wall i st))"
proof (cases "fst (restore_archived_job E wall i st)")
  case (Inl e)
  with restore_Inl [OF this] assms show ?thesis by simp
next
  case (Inr j')
  then obtain j where j: "get_stored st i = Some j" "j_status j = Archived"
    and r: "restored_from j j' (s_clock st)"
    and st': "snd (restore_archived_job E wall i st) =
      move_to_pending i (j_queue_name j) (modify_job st i (\<lambda>_. j'))"
    by (rule restore_cases)
  have ok: "index_ok st" and run: "runs_ok st" using assms by (auto simp: storage_inv_def)
  let ?st = "snd (restore_archived_job E wall i st)"
  have get: "get_stored ?st k = (if k = i then Some j' else get_stored st k)" for k
    using j by (simp add: st' move_to_pending_fields get_modify_job)
  have id: "j_id j' = i" "j_queue_name j' = j_queue_name j" "j_status j' = Pending"
    using r index_okD(2) [OF ok j(1)] by (auto simp: restored_from_def job_identity_def)
  have sj: "status_jobs ?st k s =
    (if k = j_queue_name j \<and> s = Archived then filter (\<lambda>x. x \<noteq> i) (status_jobs st k s)
     else if k = j_queue_name j \<and> s = Pending then status_jobs st k s @ [i]
     else status_jobs st k s)" for k s
    using move_to_pending_status_jobs [of "modify_job st i (\<lambda>_. j')"] queue_present [OF ok j(1)]
    by (simp add: st')
  have mem: "set (status_jobs ?st n u) = indexed ?st n u" for n u
    using index_okD(4) [OF ok, of n u] j id by (auto simp: sj indexed_def get)
  have "distinct (status_jobs ?st n u)" for n u
    using index_okD(3,4) [OF ok, of n u] j by (auto simp: sj indexed_def)
  moreover have "map fst (s_jobs ?st) = map fst (s_jobs st)"
    by (simp add: st' move_to_pending_fields)
  ultimately have "index_ok ?st"
    using index_okD(1,2) [OF ok] mem id unfolding index_ok_def by (simp add: get)
  moreover have "runs_ok ?st"
    by (rule runs_ok_change [OF run, of i])
      (use runs_okD [OF run j(1)] j id in \<open>auto simp: get_modify_job st' move_to_pending_fields\<close>)
  ultimately show ?thesis by (simp add: storage_inv_def)
qed

lemma purge_in_queue_all:
  assumes "storage_inv st" and "distinct ids"
    and "\<forall>i \<in> set ids. \<exists>j. get_stored st i = Some j \<and> j_queue_name j = q"
  shows "storage_inv (fold (purge_one_in_queue q) ids st)"
  using assms
proof (induction ids arbitrary: st)
  case (Cons i ids)
  from Cons.prems(3) obtain j where j: "get_stored st i = Some j" "j_queue_name j = q" by auto
  have "storage_inv (purge_one_in_queue q i st)"
    using idx.purge_in_queue [of st i j] runs.purge_in_queue [of st i j] Cons.prems(1) j
    by (simp add: storage_inv_def)
  moreover have "\<forall>k \<in> set ids. \<exists>j. get_stored (purge_one_in_queue q i st) k = Some j \<and> j_queue_name j = q"
    using Cons.prems(2,3) by (auto simp: purge_one_in_queue_def)
  ultimately show ?case using Cons.IH Cons.prems(2) by simp
qed simp

lemma purge_archived_in_queue_inv:
  assumes "storage_inv st"
  shows "storage_inv (snd (purge_archived_jobs_in_queue q t st))"
proof -
  have ok: "index_ok st" using assms by (simp add: storage_inv_def)
  have "\<forall>i \<in> set (map j_id (filter (\<lambda>j. j_status j = Archived \<and> j_queue_name j = q
      \<and> j_created_at j < t) (values_of (s_jobs st)))). \<exists>j. get_stored st i = Some j \<and> j_queue_name j = q"
    using stored_value [OF ok] by fastforce
  from purge_in_queue_all [OF assms distinct_filtered_ids [OF ok] this] show ?thesis
    by (simp add: purge_archived_jobs_in_queue_def Let_def)
qed

subsection \<open>Every reachable storage\<close>

text \<open>The operations that change the storage, with their arguments.\<close>

datatype command =
    CEnqueue job
  | CDequeue string dequeue_options
  | CRelease job
  | CComplete job_id
  | CFail job_id string
  | CRetry job_id time
  | CMarkDead job_id string
  | CMarkTimedOut job_id string
  | CRetryDead job_id
  | CDelete job_id
  | CFinish time job job_outcome
  | CFinishWithChildren time job "job list"
  | CHeartbeat job duration
  | CStartClaimed job duration
  | CRequeueStale "string option"
  | CEnqueueBatch job_batch
  | CDeleteBatch batch_id
  | CPurgeDead time
  | CEnqueueCron job
  | CRescheduleCron job_id time
  | CDisableRecurring job_id
  | CEnableRecurring job_id
  | CSetThrottle string throttle_config
  | CRemoveThrottle string
  | CStoreResult job_id json "time option"
  | CDeleteResult job_id
  | CCleanupResults
  | CEnqueueWorkflow job_group
  | CResolve job_id
  | CFailDependencies job_id
  | CCancelWorkflow workflow_id
  | CArchive "string option" archival_policy
  | CRestore time job_id
  | CPurgeArchived time
  | CPurgeArchivedIn string time
  | CPause string "string option"
  | CResume string
  | CAdvance int
  | CSetTime time

fun execute :: "externs \<Rightarrow> command \<Rightarrow> storage \<Rightarrow> storage" where
  "execute E (CEnqueue j) st = snd (enqueue E j st)"
| "execute E (CDequeue q opts) st = snd (dequeue E q opts st)"
| "execute E (CRelease r) st = snd (release_job_run E r st)"
| "execute E (CComplete i) st = snd (complete_job E i st)"
| "execute E (CFail i err) st = snd (fail_job E i err st)"
| "execute E (CRetry i t) st = snd (retry_job E i t st)"
| "execute E (CMarkDead i err) st = snd (mark_job_dead E i err st)"
| "execute E (CMarkTimedOut i err) st = snd (mark_job_timed_out E i err st)"
| "execute E (CRetryDead i) st = snd (retry_dead_job E i st)"
| "execute E (CDelete i) st = snd (delete_job E i st)"
| "execute E (CFinish wall r out) st = snd (finish_job_run E wall r out st)"
| "execute E (CFinishWithChildren wall r cs) st =
     snd (complete_job_run_with_children E wall r cs st)"
| "execute E (CHeartbeat r d) st = snd (heartbeat_job E r d st)"
| "execute E (CStartClaimed r d) st = snd (start_claimed_run E r d st)"
| "execute E (CRequeueStale q) st = snd (requeue_stale_jobs E q st)"
| "execute E (CEnqueueBatch b) st = snd (enqueue_batch E b st)"
| "execute E (CDeleteBatch b) st = snd (delete_batch b st)"
| "execute E (CPurgeDead t) st = snd (purge_dead_jobs t st)"
| "execute E (CEnqueueCron j) st = snd (enqueue_cron_job E j st)"
| "execute E (CRescheduleCron i t) st = snd (reschedule_cron_job E i t st)"
| "execute E (CDisableRecurring i) st = snd (disable_recurring_job E i st)"
| "execute E (CEnableRecurring i) st = snd (enable_recurring_job E i st)"
| "execute E (CSetThrottle q c) st = snd (set_throttle_config q c st)"
| "execute E (CRemoveThrottle q) st = snd (remove_throttle_config q st)"
| "execute E (CStoreResult i d t) st = snd (store_job_result E i d t st)"
| "execute E (CDeleteResult i) st = snd (delete_job_result i st)"
| "execute E CCleanupResults st = snd (cleanup_expired_results st)"
| "execute E (CEnqueueWorkflow g) st = snd (enqueue_workflow E g st)"
| "execute E (CResolve i) st = snd (resolve_job_dependencies E i st)"
| "execute E (CFailDependencies i) st = snd (fail_job_dependencies E i st)"
| "execute E (CCancelWorkflow w) st = snd (cancel_workflow E w st)"
| "execute E (CArchive q p) st = snd (archive_jobs q p st)"
| "execute E (CRestore wall i) st = snd (restore_archived_job E wall i st)"
| "execute E (CPurgeArchived t) st = snd (purge_archived_jobs t st)"
| "execute E (CPurgeArchivedIn q t) st = snd (purge_archived_jobs_in_queue q t st)"
| "execute E (CPause q w) st = snd (pause_queue q w st)"
| "execute E (CResume q) st = snd (resume_queue q st)"
| "execute E (CAdvance d) st = clock_advance d st"
| "execute E (CSetTime t) st = clock_set_time t st"

text \<open>The jobs a command adds.\<close>

fun added :: "command \<Rightarrow> job list" where
  "added (CEnqueue j) = [j]"
| "added (CEnqueueCron j) = [j]"
| "added (CEnqueueBatch b) = b_jobs b"
| "added (CEnqueueWorkflow g) = g_jobs g"
| "added (CFinishWithChildren wall r cs) = cs"
| "added _ = []"

text \<open>A step enqueues only jobs with new ids, as \<open>Uuid::new_v4\<close> gives, that do not run yet.\<close>

inductive reachable :: "externs \<Rightarrow> storage \<Rightarrow> bool" for E where
  init: "reachable E (storage_new t)"
| step: "reachable E st \<Longrightarrow> new_jobs st (added c) \<Longrightarrow> reachable E (execute E c st)"

text \<open>The commands that claim jobs.\<close>

fun is_claim :: "command \<Rightarrow> bool" where
  "is_claim (CDequeue q opts) = True"
| "is_claim _ = False"

context quiet_store
begin

lemma keep_execute_quiet:
  assumes "I st" and "new_jobs st (added c)" and "\<not> is_claim c"
    and "\<And>q p. I (snd (archive_jobs q p st))" and "\<And>wall i. I (snd (restore_archived_job E wall i st))"
    and "\<And>q t. I (snd (purge_archived_jobs_in_queue q t st))"
    and "\<And>d. I (clock_advance d st)" and "\<And>t. I (clock_set_time t st)"
  shows "I (execute E c st)"
  using assms
  by (cases c)
    (simp_all add: keep_enqueue keep_release_job_run keep_manual keep_fail_job
      keep_retry_job keep_retry_dead_job keep_delete keep_finish_job_run
      keep_complete_with_children keep_heartbeat_job keep_start_claimed_run
      keep_requeue_stale_jobs keep_enqueue_batch keep_enqueue_cron_job keep_reschedule_cron_job
      keep_disable_recurring_job keep_enable_recurring_job keep_settings keep_enqueue_workflow
      keep_workflows)

end

context stable_store
begin

lemma keep_execute:
  assumes "I st" and "new_jobs st (added c)"
    and "\<And>q p. I (snd (archive_jobs q p st))" and "\<And>wall i. I (snd (restore_archived_job E wall i st))"
    and "\<And>q t. I (snd (purge_archived_jobs_in_queue q t st))"
    and "\<And>d. I (clock_advance d st)" and "\<And>t. I (clock_set_time t st)"
  shows "I (execute E c st)"
proof (cases "is_claim c")
  case True
  then show ?thesis using assms(1) keep_dequeue by (cases c) simp_all
next
  case False
  show ?thesis by (rule keep_execute_quiet [OF assms(1,2) False assms(3-7)])
qed

end

lemma storage_inv_clock:
  "storage_inv st \<Longrightarrow> storage_inv (clock_advance d st) \<and> storage_inv (clock_set_time t st)"
  by (auto simp: storage_inv_def clock_advance_def clock_set_time_def runs_ok_def
      intro: index_ok_cong)

lemma execute_inv:
  assumes "storage_inv st" and "new_jobs st (added c)"
  shows "storage_inv (execute E c st)"
proof -
  have "index_ok st" "runs_ok st" using assms(1) by (auto simp: storage_inv_def)
  note extra = archive_jobs_inv [OF assms(1)] restore_inv [OF assms(1)]
    purge_archived_in_queue_inv [OF assms(1)] storage_inv_clock [OF assms(1)]
  have "index_ok (execute E c st)"
    by (rule idx.keep_execute) (use extra \<open>index_ok st\<close> assms(2) in \<open>auto simp: storage_inv_def\<close>)
  moreover have "runs_ok (execute E c st)"
    by (rule runs.keep_execute) (use extra \<open>runs_ok st\<close> assms(2) in \<open>auto simp: storage_inv_def\<close>)
  ultimately show ?thesis by (simp add: storage_inv_def)
qed

lemma storage_inv_new: "storage_inv (storage_new t)"
  by (simp add: storage_inv_def index_ok_def runs_ok_def storage_new_def status_jobs_def indexed_def)

text \<open>
  C1: In every storage the queue can reach, by any sequence of its operations that enqueues
  only new ids, the index by queue and status lists exactly the stored jobs with that queue and
  status, each once, every job is stored under its own id, and a job is running iff it holds a
  lease, with its start recorded.
\<close>

theorem reachable_inv:
  assumes "reachable E st"
  shows "index_ok st \<and> runs_ok st"
  using assms
proof (induction rule: reachable.induct)
  case init
  then show ?case using storage_inv_new by (simp add: storage_inv_def)
next
  case step
  then show ?case using execute_inv by (auto simp: storage_inv_def)
qed

lemma reachable_inv_witness:
  "let st = execute sample_externs (CDequeue ''q'' (options_batch 2))
         (execute sample_externs (CEnqueue (job_new 1 0 ''q'' ''{}'')) (storage_new 100)) in
   reachable sample_externs st \<and> index_ok st \<and> runs_ok st"
proof -
  let ?c = "CEnqueue (job_new 1 0 ''q'' ''{}'')" and ?d = "CDequeue ''q'' (options_batch 2)"
  have "new_jobs (storage_new 100) (added ?c)"
    by (simp add: new_jobs_def fresh_id_def storage_new_def job_new_def)
  from reachable.step [OF reachable.init this]
  have "reachable sample_externs (execute sample_externs ?c (storage_new 100))" .
  from reachable.step [OF this, of ?d]
  have "reachable sample_externs (execute sample_externs ?d (execute sample_externs ?c (storage_new 100)))"
    by (simp add: new_jobs_def)
  with reachable_inv [OF this] show ?thesis by (simp add: Let_def)
qed

subsection \<open>A small storage for the witnesses\<close>

definition sample_job :: job where
  "sample_job = job_new 1 100 ''q'' ''{}''"

definition sample_high_job :: job where
  "sample_high_job = (job_new 2 100 ''q'' ''{}'')\<lparr>j_priority := High\<rparr>"

definition sample_store :: storage where
  "sample_store =
     (storage_new 100)\<lparr>s_jobs := [(1, sample_job), (2, sample_high_job)],
       s_queues := [''q'' \<mapsto> [Pending \<mapsto> [1, 2]]]\<rparr>"

lemmas sample_defs = sample_job_def sample_high_job_def job_new_def sample_store_def storage_new_def

lemma sample_store_inv: "index_ok sample_store" "runs_ok sample_store"
  by (auto simp: index_ok_def runs_ok_def sample_defs status_jobs_def indexed_def
      split: if_splits option.splits)

end
