(* ===== verification/Claim.thy ===== *)
theory Claim
  imports Invariant
begin

text \<open>
  Correctness of claiming: \<open>eligible_jobs\<close>, \<open>get_next_job\<close>, \<open>get_next_jobs\<close> of \<open>TestStorage\<close> and
  \<open>claim_one\<close>, \<open>claim_many\<close>, \<open>dequeue\<close>, \<open>release_job_run\<close> of \<open>TestQueue\<close>
  (\<open>src/src/queue/test.rs\<close>). The specification is \<open>claimable\<close>: a stored pending job of the queue
  that is due and that neither its dependencies, its cron state nor a pause holds back.
\<close>

definition claimable :: "storage \<Rightarrow> string \<Rightarrow> job \<Rightarrow> bool" where
  "claimable st q j \<longleftrightarrow>
     map_of (s_paused_queues st) q = None \<and> get_stored st (j_id j) = Some j \<and>
     j_queue_name j = q \<and> j_status j = Pending \<and> j_scheduled_at j \<le> s_clock st \<and>
     dependencies_satisfied j \<and> (j_recurring j \<or> j_cron_schedule j = None)"

text \<open>A claimed job: running, started now, with one more attempt.\<close>

definition claimed_as :: "time \<Rightarrow> job \<Rightarrow> job" where
  "claimed_as now j = start_run now (j\<lparr>j_status := Running\<rparr>)"

lemma claimed_as_fields [simp]:
  "j_id (claimed_as now j) = j_id j" "j_status (claimed_as now j) = Running"
  "j_queue_name (claimed_as now j) = j_queue_name j"
  by (simp_all add: claimed_as_def start_run_def)

subsection \<open>Eligible jobs\<close>

lemma eligible_eq:
  "map_of (s_paused_queues st) q = None \<Longrightarrow>
     eligible_jobs st q =
       filter (\<lambda>j. j_scheduled_at j \<le> s_clock st \<and> dependencies_satisfied j \<and>
           (j_recurring j \<or> j_cron_schedule j = None))
         (List.map_filter (get_stored st) (status_jobs st q Pending))"
  by (auto simp: eligible_jobs_def status_jobs_def dependencies_satisfied_def unwrap_or_def
      List.map_filter_simps filter_filter conj_ac split: option.splits intro: filter_cong)

lemma set_map_filter: "set (List.map_filter f xs) = {y. \<exists>x \<in> set xs. f x = Some y}"
  by (induction xs) (auto simp: List.map_filter_simps split: option.splits)

lemma eligible_iff:
  assumes "index_ok st"
  shows "j \<in> set (eligible_jobs st q) \<longleftrightarrow> claimable st q j"
proof (cases "map_of (s_paused_queues st) q")
  case None
  show ?thesis
    using index_okD(2,4) [OF assms]
    by (auto simp: eligible_eq [OF None] claimable_def None set_map_filter indexed_def)
next
  case (Some p)
  then show ?thesis by (simp add: eligible_jobs_def claimable_def)
qed

lemma map_filter_stored:
  assumes "index_ok st" and "\<forall>i \<in> set is. get_stored st i \<noteq> None"
  shows "map j_id (List.map_filter (get_stored st) is) = is"
  using assms(2)
proof (induction "is")
  case (Cons i "is")
  then obtain j where "get_stored st i = Some j" by auto
  with Cons index_okD(2) [OF assms(1)] show ?case by (simp add: List.map_filter_simps)
qed (simp add: List.map_filter_simps)

lemma eligible_distinct:
  assumes "index_ok st"
  shows "distinct (map j_id (eligible_jobs st q))"
proof (cases "map_of (s_paused_queues st) q")
  case None
  have "map j_id (List.map_filter (get_stored st) (status_jobs st q Pending)) = status_jobs st q Pending"
    using index_okD(4) [OF assms] by (intro map_filter_stored [OF assms]) (auto simp: indexed_def)
  with index_okD(3) [OF assms, of q Pending]
  have "distinct (map j_id (List.map_filter (get_stored st) (status_jobs st q Pending)))" by simp
  then show ?thesis unfolding eligible_eq [OF None] by (rule distinct_map_filter)
next
  case (Some p)
  then show ?thesis by (simp add: eligible_jobs_def)
qed

subsection \<open>Choosing one job\<close>

abbreviation strict_order :: "priority_weights option \<Rightarrow> bool" where
  "strict_order w \<equiv> (case w of None \<Rightarrow> True | Some x \<Rightarrow> pw_strict x)"

lemma candidates_empty: "rev (sort (remdups (map f xs))) = [] \<longleftrightarrow> xs = []"
  by (metis length_0_conv length_sort map_is_Nil_conv remdups_eq_nil_iff rev_is_Nil_conv)

lemma get_next_job_None: "get_next_job E st q w = None \<longleftrightarrow> eligible_jobs st q = []"
proof (cases "eligible_jobs st q = []")
  case True
  then show ?thesis by (simp add: get_next_job_def)
next
  case False
  let ?cs = "rev (sort (remdups (map j_priority (eligible_jobs st q))))"
  obtain j where j: "max_by_key strict_key (eligible_jobs st q) = Some j"
    using False by (meson max_by_key_None not_None_eq)
  have "get_next_job E st q (Some v) \<noteq> None" if "\<not> pw_strict v" for v
  proof -
    obtain p where p: "pick_weighted_priority ?cs v (hash_seed E q (s_clock st div 1000000) None) = Some p"
      using False candidates_empty [of j_priority "eligible_jobs st q"]
      by (meson not_None_eq pick_None_iff)
    then have "filter (\<lambda>j. j_priority j = p) (eligible_jobs st q) \<noteq> []"
      using pick_in_candidates [OF p] by (auto simp: filter_empty_conv)
    then obtain k where
      "min_by_key j_scheduled_at (filter (\<lambda>j. j_priority j = p) (eligible_jobs st q)) = Some k"
      by (meson min_by_key_None not_None_eq)
    with p that False show ?thesis by (simp add: get_next_job_def Let_def)
  qed
  with j False show ?thesis
    by (cases w) (simp_all add: get_next_job_def Let_def)
qed

lemma get_next_job_Some:
  assumes "get_next_job E st q w = Some i"
  shows "\<exists>j \<in> set (eligible_jobs st q). j_id j = i \<and>
    (strict_order w \<longrightarrow> (\<forall>k \<in> set (eligible_jobs st q). strict_key k \<le> strict_key j)) \<and>
    (\<forall>k \<in> set (eligible_jobs st q). j_priority k = j_priority j \<longrightarrow> j_scheduled_at j \<le> j_scheduled_at k)"
proof (cases "strict_order w")
  case True
  with assms obtain j where "max_by_key strict_key (eligible_jobs st q) = Some j" "j_id j = i"
    by (auto simp: get_next_job_def Let_def split: option.splits if_splits)
  with max_by_key_Some [OF this(1)] show ?thesis by fastforce
next
  case False
  then obtain v where v: "w = Some v" "\<not> pw_strict v" by (auto split: option.splits)
  with assms obtain p j where "min_by_key j_scheduled_at
      (filter (\<lambda>j. j_priority j = p) (eligible_jobs st q)) = Some j" "j_id j = i"
    by (auto simp: get_next_job_def Let_def split: option.splits if_splits)
  with min_by_key_Some [OF this(1)] False show ?thesis by (intro bexI [of _ j]) auto
qed

subsection \<open>Claiming a job\<close>

text \<open>The state after the claim of a stored job.\<close>

definition claim_state :: "externs \<Rightarrow> duration \<Rightarrow> job \<Rightarrow> storage \<Rightarrow> storage" where
  "claim_state E lease j st =
     modify_job (set_lease E (set_status st (j_id j) j Running) (j_id j) lease) (j_id j)
       (start_run (s_clock st))"

lemma claim_state_get:
  assumes "get_stored st (j_id j) = Some j"
  shows "get_stored (claim_state E lease j st) k =
    (if k = j_id j then Some (claimed_as (s_clock st) j) else get_stored st k)"
  using assms by (simp add: claim_state_def get_modify_job get_set_status claimed_as_def)

lemma claim_state_fields [simp]:
  "s_clock (claim_state E lease j st) = s_clock st"
  "s_leases (claim_state E lease j st) =
     (s_leases st)(j_id j \<mapsto> (s_clock st, lease_expiry E (s_clock st) lease))"
  by (simp_all add: claim_state_def)

lemma claim_one_Some:
  assumes "index_ok st" and "get_next_job E st q w = Some (j_id j)" and "claimable st q j"
  shows "claim_one E q w lease st = (Inr (Some (claimed_as (s_clock st) j)), claim_state E lease j st)"
proof -
  have j: "get_stored st (j_id j) = Some j" using assms(3) by (simp add: claimable_def)
  then have "update_job_status E st (j_id j) Running = Inr (set_status st (j_id j) j Running)"
    by (simp add: update_job_status_def)
  with claim_state_get [OF j] show ?thesis
    by (simp add: claim_one_def assms(2) Let_def claim_state_def)
qed

subsection \<open>Choosing a batch\<close>

lemma length_filter_partition:
  "length (filter (\<lambda>j. f j \<in> A) xs) =
     length (filter (\<lambda>j. f j = p) xs) + length (filter (\<lambda>j. f j \<in> A - {p}) xs)" if "p \<in> A"
  using that by (induction xs) auto

lemma min_fill: "c \<le> M \<Longrightarrow> min M (c + min a (M - c) + b) = min M (c + (a + b))" for M c a b :: nat
  by (auto simp: min_def)

text \<open>The ids of the picked levels, in batches that never exceed \<open>max_jobs\<close>.\<close>

lemma claim_levels_spec:
  assumes "distinct cs" and "length claimed \<le> max_jobs"
    and "distinct (map j_id eligible)" and "distinct claimed"
    and "set claimed \<inter> j_id ` {j \<in> set eligible. j_priority j \<in> set cs} = {}"
  shows "length (claim_levels E st q w max_jobs eligible n cs claimed) =
      min max_jobs (length claimed + length (filter (\<lambda>j. j_priority j \<in> set cs) eligible))
    \<and> distinct (claim_levels E st q w max_jobs eligible n cs claimed)
    \<and> set (claim_levels E st q w max_jobs eligible n cs claimed) \<subseteq>
      set claimed \<union> j_id ` set eligible"
  using assms
proof (induction "length cs" arbitrary: cs claimed n rule: less_induct)
  case less
  let ?pick = "pick_weighted_priority cs w (hash_seed E q (s_clock st div 1000000) (Some n))"
  show ?case
  proof (cases "length claimed < max_jobs \<and> cs \<noteq> []")
    case False
    have "claim_levels E st q w max_jobs eligible n cs claimed = claimed"
      using False by (subst claim_levels.simps) (auto simp: pick_weighted_priority_def)
    with False less.prems show ?thesis by auto
  next
    case True
    then obtain p where p: "?pick = Some p" by (meson not_None_eq pick_None_iff)
    then have pc: "p \<in> set cs" by (rule pick_in_candidates)
    let ?new = "map j_id (take (max_jobs - length claimed) (filter (\<lambda>j. j_priority j = p) eligible))"
    let ?cs = "filter (\<lambda>c. c \<noteq> p) cs"
    have step: "claim_levels E st q w max_jobs eligible n cs claimed =
        claim_levels E st q w max_jobs eligible (Suc n) ?cs (claimed @ ?new)"
      using True p by (subst claim_levels.simps) simp
    have sub: "set ?new \<subseteq> j_id ` {j \<in> set eligible. j_priority j = p}"
      by (auto dest: in_set_takeD)
    have inj: "inj_on j_id (set eligible)" using less.prems(3) by (simp add: distinct_map)
    have "distinct ?new"
      using less.prems(3) by (simp add: take_map [symmetric] distinct_map_filter)
    moreover have "set claimed \<inter> set ?new = {}" using sub less.prems(5) pc by blast
    ultimately have d: "distinct (claimed @ ?new)" using less.prems(4) by simp
    have "j_id ` {j \<in> set eligible. j_priority j = p} \<inter>
        j_id ` {j \<in> set eligible. j_priority j \<in> set ?cs} = {}"
      by (subst inj_on_image_Int [OF inj, symmetric]) auto
    with sub have "set ?new \<inter> j_id ` {j \<in> set eligible. j_priority j \<in> set ?cs} = {}" by blast
    with less.prems(5) have disj:
      "set (claimed @ ?new) \<inter> j_id ` {j \<in> set eligible. j_priority j \<in> set ?cs} = {}" by auto
    have len: "length (claimed @ ?new) \<le> max_jobs" using True by (auto simp: min_def)
    have "length ?cs < length cs" using pc by (simp add: length_filter_less)
    from less.hyps [OF this _ len less.prems(3) d disj, of "Suc n"] less.prems(1)
    have ih: "length (claim_levels E st q w max_jobs eligible (Suc n) ?cs (claimed @ ?new)) =
        min max_jobs (length (claimed @ ?new) + length (filter (\<lambda>j. j_priority j \<in> set ?cs) eligible))"
      "distinct (claim_levels E st q w max_jobs eligible (Suc n) ?cs (claimed @ ?new))"
      "set (claim_levels E st q w max_jobs eligible (Suc n) ?cs (claimed @ ?new)) \<subseteq>
        set (claimed @ ?new) \<union> j_id ` set eligible" by simp_all
    have "set ?cs = set cs - {p}" by auto
    with ih(1) length_filter_partition [OF pc, of j_priority eligible] True
    have "length (claim_levels E st q w max_jobs eligible n cs claimed) =
        min max_jobs (length claimed + length (filter (\<lambda>j. j_priority j \<in> set cs) eligible))"
      using min_fill [of "length claimed" max_jobs] by (simp add: step less_imp_le)
    moreover have "set (claim_levels E st q w max_jobs eligible n cs claimed) \<subseteq>
        set claimed \<union> j_id ` set eligible"
      using ih(3) subset_trans [OF sub, of "j_id ` set eligible"] unfolding step set_append by blast
    ultimately show ?thesis using ih(2) step by simp
  qed
qed

lemma get_next_jobs_spec:
  assumes "index_ok st"
  shows "length (get_next_jobs E st q w max_jobs) = min max_jobs (length (eligible_jobs st q))"
    and "distinct (get_next_jobs E st q w max_jobs)"
    and "set (get_next_jobs E st q w max_jobs) \<subseteq> j_id ` set (eligible_jobs st q)"
proof -
  let ?el = "sort_key batch_key (eligible_jobs st q)"
  let ?cs = "fold (\<lambda>p acc. push_new acc p) (map j_priority ?el) []"
  have d: "distinct (map j_id ?el)"
    using eligible_distinct [OF assms, of q] by (simp add: distinct_map)
  have all: "filter (\<lambda>j. j_priority j \<in> set ?cs) ?el = ?el"
    by (auto simp: filter_id_conv)
  have lev: "length (claim_levels E st q v max_jobs ?el 0 ?cs []) =
      min max_jobs (length (eligible_jobs st q))
    \<and> distinct (claim_levels E st q v max_jobs ?el 0 ?cs [])
    \<and> set (claim_levels E st q v max_jobs ?el 0 ?cs []) \<subseteq> j_id ` set (eligible_jobs st q)" for v
    using claim_levels_spec [of ?cs "[]" max_jobs ?el E st q v 0] d by (simp add: all)
  have strict: "length (map j_id (take max_jobs ?el)) = min max_jobs (length (eligible_jobs st q))"
    "distinct (map j_id (take max_jobs ?el))"
    "set (map j_id (take max_jobs ?el)) \<subseteq> j_id ` set (eligible_jobs st q)"
    using d by (auto simp: take_map [symmetric] dest!: in_set_takeD)
  show "length (get_next_jobs E st q w max_jobs) = min max_jobs (length (eligible_jobs st q))"
    "distinct (get_next_jobs E st q w max_jobs)"
    "set (get_next_jobs E st q w max_jobs) \<subseteq> j_id ` set (eligible_jobs st q)"
    unfolding get_next_jobs_def Let_def
    using lev strict by (simp_all split: option.split)
qed

subsection \<open>Claiming a batch\<close>

lemma claim_step:
  assumes "get_stored st i = Some j" and "j_id j = i"
  shows "claim_loop E lease (i # is) js st =
    claim_loop E lease is (js @ [claimed_as (s_clock st) j]) (claim_state E lease j st)"
proof -
  have "get_stored (claim_state E lease j st) i = Some (claimed_as (s_clock st) j)"
    using claim_state_get [of st j] assms by simp
  with assms show ?thesis by (simp add: update_job_status_def Let_def claim_state_def)
qed

lemma claim_loop_spec:
  assumes "distinct is" and "\<forall>i \<in> set is. \<exists>j. get_stored st i = Some j \<and> j_id j = i"
  shows "\<exists>st'. claim_loop E lease is js st =
      (Inr (js @ map (\<lambda>i. claimed_as (s_clock st) (the (get_stored st i))) is), st') \<and>
    (\<forall>k. get_stored st' k = (if k \<in> set is then Some (claimed_as (s_clock st) (the (get_stored st k)))
       else get_stored st k)) \<and>
    (\<forall>k. s_leases st' k = (if k \<in> set is then Some (s_clock st, lease_expiry E (s_clock st) lease)
       else s_leases st k)) \<and> s_clock st' = s_clock st"
  using assms
proof (induction "is" arbitrary: js st)
  case (Cons i "is")
  from Cons.prems obtain j where j: "get_stored st i = Some j" "j_id j = i" by auto
  let ?st = "claim_state E lease j st"
  have get: "get_stored ?st k = (if k = i then Some (claimed_as (s_clock st) j) else get_stored st k)" for k
    using claim_state_get [of st j] j by simp
  have "\<forall>k \<in> set is. \<exists>j. get_stored ?st k = Some j \<and> j_id j = k"
    using Cons.prems by (auto simp: get)
  from Cons.IH [OF _ this, of "js @ [claimed_as (s_clock st) j]"] Cons.prems(1)
  obtain st' where r: "claim_loop E lease is (js @ [claimed_as (s_clock st) j]) ?st =
      (Inr ((js @ [claimed_as (s_clock st) j]) @
        map (\<lambda>i. claimed_as (s_clock st) (the (get_stored ?st i))) is), st')"
    "\<forall>k. get_stored st' k = (if k \<in> set is then Some (claimed_as (s_clock st) (the (get_stored ?st k)))
       else get_stored ?st k)"
    "\<forall>k. s_leases st' k = (if k \<in> set is then Some (s_clock st, lease_expiry E (s_clock st) lease)
       else s_leases ?st k)" "s_clock st' = s_clock st" by auto
  have other: "get_stored ?st k = get_stored st k" if "k \<in> set is" for k
    using that Cons.prems(1) by (auto simp: get)
  then have "map (\<lambda>i. claimed_as (s_clock st) (the (get_stored ?st i))) is =
      map (\<lambda>i. claimed_as (s_clock st) (the (get_stored st i))) is" by simp
  with r(1) j claim_step [OF j, of E lease "is" js]
  have "claim_loop E lease (i # is) js st =
      (Inr (js @ map (\<lambda>i. claimed_as (s_clock st) (the (get_stored st i))) (i # is)), st')" by simp
  moreover have "get_stored st' k = (if k \<in> set (i # is)
      then Some (claimed_as (s_clock st) (the (get_stored st k))) else get_stored st k)" for k
    using r(2) other [of k] j by (auto simp: get)
  moreover have "s_leases st' k = (if k \<in> set (i # is)
      then Some (s_clock st, lease_expiry E (s_clock st) lease) else s_leases st k)" for k
    using r(3) j by simp
  ultimately show ?case using r(4) by blast
qed simp

subsection \<open>The contract of a dequeue\<close>

text \<open>
  \<open>taken\<close>: the claimed jobs are stored as returned, each with a lease from now, and every other
  job and lease is as before.
\<close>

definition taken :: "externs \<Rightarrow> duration \<Rightarrow> storage \<Rightarrow> job list \<Rightarrow> storage \<Rightarrow> bool" where
  "taken E lease st js st' \<longleftrightarrow>
     (\<forall>j \<in> set js. get_stored st' (j_id j) = Some j \<and>
        s_leases st' (j_id j) = Some (s_clock st, lease_expiry E (s_clock st) lease)) \<and>
     (\<forall>i. i \<notin> j_id ` set js \<longrightarrow> get_stored st' i = get_stored st i \<and> s_leases st' i = s_leases st i)"

definition claims :: "storage \<Rightarrow> string \<Rightarrow> job list \<Rightarrow> bool" where
  "claims st q js \<longleftrightarrow>
     distinct (map j_id js) \<and>
     (\<forall>j' \<in> set js. \<exists>j. claimable st q j \<and> j' = claimed_as (s_clock st) j)"

lemma claimable_card:
  assumes "index_ok st"
  shows "card {j. claimable st q j} = length (eligible_jobs st q)"
proof -
  have "{j. claimable st q j} = set (eligible_jobs st q)" using eligible_iff [OF assms] by blast
  moreover have "distinct (eligible_jobs st q)"
    using eligible_distinct [OF assms, of q] by (simp add: distinct_map)
  ultimately show ?thesis by (simp add: distinct_card)
qed

text \<open>The jobs of a batch before and after the claim.\<close>

lemma claim_many_spec:
  assumes "index_ok st"
  shows "\<exists>st'. claim_many E q w lease n st =
      (Inr (map (\<lambda>i. claimed_as (s_clock st) (the (get_stored st i))) (get_next_jobs E st q w n)), st') \<and>
    taken E lease st
      (map (\<lambda>i. claimed_as (s_clock st) (the (get_stored st i))) (get_next_jobs E st q w n)) st'"
proof -
  let ?is = "get_next_jobs E st q w n"
  note next_jobs = get_next_jobs_spec [OF assms, where E = E and q = q and w = w and max_jobs = n]
  have st: "\<forall>i \<in> set ?is. \<exists>j. get_stored st i = Some j \<and> j_id j = i"
    using next_jobs(3) eligible_iff [OF assms, of _ q] by (fastforce simp: claimable_def)
  then have ids: "j_id (the (get_stored st i)) = i" if "i \<in> set ?is" for i using that by fastforce
  from claim_loop_spec [OF next_jobs(2) st, of E lease "[]"] obtain st' where
    r: "claim_many E q w lease n st =
      (Inr (map (\<lambda>i. claimed_as (s_clock st) (the (get_stored st i))) ?is), st')"
    and g: "\<forall>k. get_stored st' k = (if k \<in> set ?is then Some (claimed_as (s_clock st) (the (get_stored st k)))
       else get_stored st k)"
    and l: "\<forall>k. s_leases st' k = (if k \<in> set ?is then Some (s_clock st, lease_expiry E (s_clock st) lease)
       else s_leases st k)"
    by (auto simp: claim_many_def)
  have "j_id ` set (map (\<lambda>i. claimed_as (s_clock st) (the (get_stored st i))) ?is) = set ?is"
    using ids by (auto simp: image_iff)
  with r g l ids show ?thesis by (auto simp: taken_def)
qed

lemma claim_many_contract:
  assumes "index_ok st"
  shows "\<exists>js st'. claim_many E q w lease n st = (Inr js, st') \<and>
    length js = min n (length (eligible_jobs st q)) \<and> claims st q js \<and> taken E lease st js st'"
proof -
  let ?is = "get_next_jobs E st q w n"
  let ?js = "map (\<lambda>i. claimed_as (s_clock st) (the (get_stored st i))) ?is"
  note next_jobs = get_next_jobs_spec [OF assms, where E = E and q = q and w = w and max_jobs = n]
  have el: "\<exists>j. claimable st q j \<and> j_id j = i \<and> get_stored st i = Some j" if "i \<in> set ?is" for i
    using that next_jobs(3) eligible_iff [OF assms, of _ q] by (fastforce simp: claimable_def)
  then have "j_id (the (get_stored st i)) = i" if "i \<in> set ?is" for i using that by fastforce
  then have "map j_id ?js = ?is" by (auto intro!: map_idI)
  moreover have "\<forall>j' \<in> set ?js. \<exists>j. claimable st q j \<and> j' = claimed_as (s_clock st) j"
    using el by fastforce
  ultimately have "claims st q ?js" using next_jobs(2) by (simp add: claims_def)
  with claim_many_spec [OF assms, of E q w lease n] next_jobs(1) show ?thesis by auto
qed

lemma claim_one_contract:
  assumes "index_ok st"
  shows "\<exists>js st'. claim_one E q w lease st = (Inr (case js of [] \<Rightarrow> None | j # _ \<Rightarrow> Some j), st') \<and>
    length js = min 1 (length (eligible_jobs st q)) \<and> claims st q js \<and> taken E lease st js st'"
proof (cases "get_next_job E st q w")
  case None
  moreover from this have "eligible_jobs st q = []" by (simp only: get_next_job_None)
  ultimately show ?thesis
    by (intro exI [of _ "[]"] exI [of _ st]) (simp add: claim_one_def claims_def taken_def)
next
  case (Some i)
  then obtain j where j: "j \<in> set (eligible_jobs st q)" "j_id j = i"
    using get_next_job_Some by blast
  then have c: "claimable st q j" using eligible_iff [OF assms] by blast
  have ne: "eligible_jobs st q \<noteq> []" using j by auto
  have g: "get_stored st (j_id j) = Some j" using c by (simp add: claimable_def)
  have "taken E lease st [claimed_as (s_clock st) j] (claim_state E lease j st)"
    by (auto simp: taken_def claim_state_get [OF g])
  with claim_one_Some [OF assms _ c, of E w lease] Some j c ne show ?thesis
    by (intro exI [of _ "[claimed_as (s_clock st) j]"] exI [of _ "claim_state E lease j st"])
      (auto simp: claims_def Suc_le_eq)
qed

lemma dequeue_contract:
  assumes "index_ok st"
  shows "\<exists>js st'. dequeue E q opts st = (Inr js, st') \<and>
    length js = min (min (d_max_jobs opts) MAX_DEQUEUE_BATCH_SIZE) (length (eligible_jobs st q)) \<and>
    claims st q js \<and> taken E (options_lease opts) st js st'"
proof -
  let ?n = "min (d_max_jobs opts) MAX_DEQUEUE_BATCH_SIZE"
  consider "?n = 0" | "?n = 1" | "?n \<noteq> 0" "?n \<noteq> 1" by blast
  then show ?thesis
  proof cases
    case 1
    then show ?thesis by (simp add: dequeue_def claims_def taken_def)
  next
    case 2
    from claim_one_contract [OF assms, of E q "d_priority_weights opts" "options_lease opts"]
    obtain js st' where r: "claim_one E q (d_priority_weights opts) (options_lease opts) st =
        (Inr (case js of [] \<Rightarrow> None | j # _ \<Rightarrow> Some j), st')"
      "length js = min 1 (length (eligible_jobs st q))" "claims st q js"
      "taken E (options_lease opts) st js st'" by blast
    from r(2) have "js = [] \<or> (\<exists>j. js = [j])" by (cases js) (auto simp: min_def split: if_splits)
    with r 2 show ?thesis by (intro exI [of _ js] exI [of _ st']) (auto simp: dequeue_def Let_def)
  next
    case 3
    then have "dequeue E q opts st =
        claim_many E q (d_priority_weights opts) (options_lease opts) ?n st"
      unfolding dequeue_def Let_def by (simp only: if_False)
    with claim_many_contract [OF assms] show ?thesis by simp
  qed
qed

subsection \<open>Order\<close>

lemma batch_key_strict: "batch_key j \<le> batch_key k \<Longrightarrow> strict_key k \<le> strict_key j"
  by (auto simp: less_eq_prod_def)

lemma sorted_take_le:
  assumes "sorted (map f xs)" and "x \<in> set (take n xs)" and "y \<in> set xs" and "y \<notin> set (take n xs)"
  shows "f x \<le> f y"
proof -
  have "sorted (map f (take n xs) @ map f (drop n xs))" using assms(1) by (metis append_take_drop_id map_append)
  moreover have "y \<in> set (drop n xs)" using assms(3,4) by (metis Un_iff append_take_drop_id set_append)
  ultimately show ?thesis using assms(2) by (auto simp: sorted_append)
qed

lemma get_next_jobs_strict:
  assumes "strict_order w"
  shows "get_next_jobs E st q w n = map j_id (take n (sort_key batch_key (eligible_jobs st q)))"
  using assms by (auto simp: get_next_jobs_def Let_def split: option.splits)

lemma dequeue_order_aux:
  assumes ok: "index_ok st" and strict: "strict_order (d_priority_weights opts)"
    and r: "dequeue E q opts st = (Inr js, st')" and j: "claimable st q j"
    and cj: "claimed_as (s_clock st) j \<in> set js" and k: "claimable st q k" and left: "j_id k \<notin> j_id ` set js"
  shows "strict_key k \<le> strict_key j"
proof -
  let ?n = "min (d_max_jobs opts) MAX_DEQUEUE_BATCH_SIZE" and ?w = "d_priority_weights opts"
  have jk: "j \<in> set (eligible_jobs st q)" "k \<in> set (eligible_jobs st q)"
    using j k eligible_iff [OF ok] by auto
  consider "?n = 0" | "?n = 1" | "?n \<noteq> 0" "?n \<noteq> 1" by blast
  then show ?thesis
  proof cases
    case 1
    with r cj show ?thesis by (simp add: dequeue_def)
  next
    case 2
    obtain i where i: "get_next_job E st q ?w = Some i"
      using jk get_next_job_None [of E st q ?w] by (cases "get_next_job E st q ?w") auto
    from get_next_job_Some [OF i] strict obtain m where m: "m \<in> set (eligible_jobs st q)" "j_id m = i"
      "\<forall>k \<in> set (eligible_jobs st q). strict_key k \<le> strict_key m" by auto
    have cm: "claimable st q m" using m(1) eligible_iff [OF ok] by blast
    have "js = [claimed_as (s_clock st) m]"
      using r 2 claim_one_Some [OF ok _ cm, of E ?w] i m(2) by (simp add: dequeue_def Let_def)
    then have "j_id j = j_id m" using cj by (metis claimed_as_fields(1) empty_iff list.set(1) set_ConsD)
    then have "j = m" using j cm by (simp add: claimable_def)
    with m(3) jk show ?thesis by blast
  next
    case 3
    then have "dequeue E q opts st = claim_many E q ?w (options_lease opts) ?n st"
      unfolding dequeue_def Let_def by (simp only: if_False)
    with claim_many_spec [OF ok, of E q ?w "options_lease opts" ?n] r
    have js: "js = map (\<lambda>i. claimed_as (s_clock st) (the (get_stored st i))) (get_next_jobs E st q ?w ?n)"
      by auto
    let ?t = "take ?n (sort_key batch_key (eligible_jobs st q))"
    have st: "get_stored st (j_id x) = Some x" if "x \<in> set ?t" for x
      using that eligible_iff [OF ok, of x q] by (auto simp: claimable_def dest: in_set_takeD)
    then have js': "js = map (claimed_as (s_clock st)) ?t"
      unfolding js get_next_jobs_strict [OF strict] by simp
    have "j \<in> set ?t"
    proof -
      obtain x where x: "x \<in> set ?t" "claimed_as (s_clock st) j = claimed_as (s_clock st) x"
        using cj js' by auto
      then have "j_id j = j_id x" by (metis claimed_as_fields(1))
      with st [OF x(1)] j x(1) show ?thesis by (simp add: claimable_def)
    qed
    moreover have "k \<notin> set ?t" using left js' by (auto simp: image_image)
    ultimately have "batch_key j \<le> batch_key k"
      using jk by (intro sorted_take_le [of batch_key "sort_key batch_key (eligible_jobs st q)" _ ?n]) auto
    then show ?thesis by (rule batch_key_strict)
  qed
qed

subsection \<open>Properties\<close>

text \<open>
  C2: Dequeueing never fails and hands out as many jobs as it may: the requested number, at
  most 1000, or all claimable jobs if there are fewer. The jobs are distinct, each was claimable
  (stored, pending, due, not held by dependencies, cron state or a pause), each is now stored as
  running with one more attempt, its start and a lease from now; every other job and lease is
  unchanged.
\<close>

theorem dequeue_claims:
  assumes "index_ok st"
  shows "\<exists>js st'. dequeue E q opts st = (Inr js, st') \<and>
    length js = min (min (d_max_jobs opts) 1000) (card {j. claimable st q j}) \<and>
    distinct (map j_id js) \<and>
    (\<forall>j' \<in> set js. \<exists>j. claimable st q j \<and> j' = claimed_as (s_clock st) j) \<and>
    taken E (options_lease opts) st js st'"
  using dequeue_contract [OF assms, of E q opts] claimable_card [OF assms, of q]
  by (simp add: claims_def MAX_DEQUEUE_BATCH_SIZE_def)

lemma sample_claimable:
  "claimable sample_store ''q'' sample_job" "claimable sample_store ''q'' sample_high_job"
  by (simp_all add: claimable_def sample_defs dependencies_satisfied_def)

lemma sample_eligible: "eligible_jobs sample_store ''q'' = [sample_job, sample_high_job]"
  by (simp add: eligible_jobs_def sample_defs List.map_filter_simps)

lemma sample_next:
  "get_next_job sample_externs sample_store ''q'' None = Some 2"
  "get_next_jobs sample_externs sample_store ''q'' None 5 = [2, 1]"
  by (simp_all add: get_next_job_def get_next_jobs_def sample_eligible Let_def sample_job_def
      sample_high_job_def job_new_def less_eq_prod_def)

lemma dequeue_claims_witness:
  "\<exists>js st'. dequeue sample_externs ''q'' (options_batch 5) sample_store = (Inr js, st') \<and>
     distinct (map j_id js) \<and> map j_id js = [2, 1] \<and>
     taken sample_externs (options_lease (options_batch 5)) sample_store js st'"
proof -
  from dequeue_claims [OF sample_store_inv(1), of sample_externs "''q''" "options_batch 5"]
  obtain js st' where r: "dequeue sample_externs ''q'' (options_batch 5) sample_store = (Inr js, st')"
    "distinct (map j_id js)" "taken sample_externs (options_lease (options_batch 5)) sample_store js st'"
    by blast
  moreover have "dequeue sample_externs ''q'' (options_batch 5) sample_store =
      claim_many sample_externs ''q'' None (options_lease (options_batch 5)) 5 sample_store"
    by (simp add: dequeue_def options_batch_def dequeue_options_default_def
        MAX_DEQUEUE_BATCH_SIZE_def Let_def)
  ultimately have "map j_id js = [2, 1]"
    using sample_next(2) claim_many_spec [OF sample_store_inv(1), of sample_externs "''q''" None
        "options_lease (options_batch 5)" 5] by (auto simp: sample_defs)
  with r show ?thesis by (intro exI [of _ js] exI [of _ st'] conjI)
qed

lemma sample_dequeue:
  "dequeue sample_externs ''q'' (options_batch 1) sample_store =
     (Inr [claimed_as (s_clock sample_store) sample_high_job],
      claim_state sample_externs (options_lease (options_batch 1)) sample_high_job sample_store)"
proof -
  have ids: "j_id sample_high_job = 2" by (simp add: sample_defs)
  from claim_one_Some [OF sample_store_inv(1) _ sample_claimable(2)] ids sample_next(1)
  have "claim_one sample_externs ''q'' None (options_lease (options_batch 1)) sample_store =
      (Inr (Some (claimed_as (s_clock sample_store) sample_high_job)),
       claim_state sample_externs (options_lease (options_batch 1)) sample_high_job sample_store)" by simp
  then show ?thesis
    by (simp add: dequeue_def options_batch_def dequeue_options_default_def
        MAX_DEQUEUE_BATCH_SIZE_def Let_def)
qed





text \<open>
  A paused queue hands out no job and keeps its state, and resuming it restores exactly the
  jobs that were claimable before the pause.
\<close>

theorem paused_queue_holds:
  "dequeue E q opts (snd (pause_queue q who st)) = (Inr [], snd (pause_queue q who st)) \<and>
   is_queue_paused q (snd (pause_queue q who st)) = Inr True \<and>
   (map_of (s_paused_queues st) q = None \<longrightarrow>
     claimable (snd (resume_queue q (snd (pause_queue q who st)))) q = claimable st q)"
proof -
  let ?st = "snd (pause_queue q who st)"
  have e: "eligible_jobs ?st q = []" by (simp add: eligible_jobs_def pause_queue_def)
  have one: "claim_one E q w d ?st = (Inr None, ?st)" for w d
    using get_next_job_None [of E ?st q w] e by (simp add: claim_one_def)
  have "claim_levels E ?st q v n [] 0 [] [] = []" for v n
    by (subst claim_levels.simps) (simp add: pick_weighted_priority_def)
  then have "get_next_jobs E ?st q w n = []" for w n
    using e by (simp add: get_next_jobs_def split: option.split)
  then have "claim_many E q w d n ?st = (Inr [], ?st)" for w d n by (simp add: claim_many_def)
  with one have "dequeue E q opts ?st = (Inr [], ?st)" by (simp add: dequeue_def Let_def)
  then show ?thesis
    by (auto simp: is_queue_paused_def pause_queue_def resume_queue_def claimable_def fun_eq_iff)
qed

lemma paused_queue_witness:
  "map_of (s_paused_queues sample_store) ''q'' = None \<and>
   claimable (snd (resume_queue ''q'' (snd (pause_queue ''q'' None sample_store)))) ''q'' =
     claimable sample_store ''q''"
proof -
  have "map_of (s_paused_queues sample_store) ''q'' = None" by (simp add: sample_defs)
  with paused_queue_holds [where q = "''q''" and st = sample_store and who = None] show ?thesis by blast
qed

end
