(* ===== verification/Failure.thy ===== *)
theory Failure
  imports Invariant
begin

text \<open>
  Correctness of failure propagation and release (\<open>fail_dependents\<close>, \<open>apply_workflow_failure\<close>,
  \<open>apply_batch_failure\<close>, \<open>resolve_dependents\<close> of \<open>src/src/queue/test.rs\<close>). The specification of
  the worklist loop is \<open>doomed\<close>: the pending jobs reachable from the failed job over dependency
  edges through pending jobs.
\<close>

subsection \<open>The specification\<close>

inductive doomed :: "storage \<Rightarrow> job_id \<Rightarrow> job_id \<Rightarrow> bool" for st origin where
  direct: "i \<in> set (direct_dependents st origin) \<Longrightarrow> pending_dependent st i \<Longrightarrow> doomed st origin i"
| further: "doomed st origin p \<Longrightarrow> i \<in> set (direct_dependents st p) \<Longrightarrow> pending_dependent st i \<Longrightarrow>
    doomed st origin i"

definition failed_by :: "externs \<Rightarrow> time \<Rightarrow> job_id \<Rightarrow> job \<Rightarrow> job" where
  "failed_by E now p j = mark_failed (dependency_failed_message E p) now (j\<lparr>j_status := Failed\<rparr>)"

text \<open>A state of the loop: the jobs failed so far, each blaming a job that failed before it.\<close>

definition failed_from ::
  "externs \<Rightarrow> time \<Rightarrow> storage \<Rightarrow> job_id \<Rightarrow> storage \<Rightarrow> job_id list \<Rightarrow> bool" where
  "failed_from E now st0 origin st failed \<longleftrightarrow>
     direct_dependents st = direct_dependents st0 \<and> distinct failed \<and>
     (\<forall>i. i \<notin> set failed \<longrightarrow> get_stored st i = get_stored st0 i) \<and>
     (\<forall>i \<in> set failed. doomed st0 origin i \<and>
        (\<exists>p j. (p = origin \<or> doomed st0 origin p) \<and> i \<in> set (direct_dependents st0 p) \<and>
           get_stored st0 i = Some j \<and> get_stored st i = Some (failed_by E now p j)))"

subsection \<open>The loop\<close>

lemma values_update_map:
  "map_of al k = Some w \<Longrightarrow> f v = f w \<Longrightarrow> map f (values_of (AList.update k v al)) = map f (values_of al)"
  by (induction al) (auto split: if_splits)

lemma direct_dependents_cong:
  assumes "s_dependents st' = s_dependents st"
    and "map (\<lambda>j. (j_id j, j_depends_on j)) (values_of (s_jobs st')) =
      map (\<lambda>j. (j_id j, j_depends_on j)) (values_of (s_jobs st))"
  shows "direct_dependents st' = direct_dependents st"
proof
  fix i :: job_id
  let ?f = "\<lambda>(k, ds) acc. if i \<in> set ds then push_new acc k else acc"
  have eq: "direct_dependents s i = fold ?f (map (\<lambda>j. (j_id j, j_depends_on j)) (values_of (s_jobs s)))
      (unwrap_or (s_dependents s i) [])" for s
    unfolding direct_dependents_def fold_map by (simp add: o_def)
  show "direct_dependents st' i = direct_dependents st i" unfolding eq assms ..
qed

lemma s_dependents_fail_as_side_effect:
  "s_dependents (fail_as_side_effect E st i err now) = s_dependents st"
  by (simp add: fail_as_side_effect_def update_job_status_def set_status_def push_status_def
      retain_status_def modify_job_def remove_lease_def Let_def split: option.split)

lemma direct_dependents_fail:
  "direct_dependents (fail_as_side_effect E st i err now) = direct_dependents st"
proof (cases "get_stored st i")
  case None
  then show ?thesis by (simp add: fail_as_side_effect_def update_job_status_def)
next
  case (Some j)
  show ?thesis
    by (rule direct_dependents_cong)
      (simp_all only: s_dependents_fail_as_side_effect s_jobs_fail_as_side_effect [OF Some],
        rule values_update_map [OF Some], simp add: mark_failed_def Let_def)
qed

lemma get_fail_as_side_effect:
  "get_stored (fail_as_side_effect E st i err now) k =
     (if k = i then map_option (\<lambda>j. mark_failed err now (j\<lparr>j_status := Failed\<rparr>)) (get_stored st i)
      else get_stored st k)"
proof (cases "get_stored st i")
  case None
  then show ?thesis by (simp add: fail_as_side_effect_def update_job_status_def)
next
  case (Some j)
  then show ?thesis by (simp add: s_jobs_fail_as_side_effect)
qed

lemma failed_from_pending:
  "failed_from E now st0 origin st failed \<Longrightarrow> i \<notin> set failed \<Longrightarrow>
     pending_dependent st i = pending_dependent st0 i"
  by (simp add: failed_from_def pending_dependent_def)

lemma failed_from_step:
  assumes inv: "failed_from E now st0 origin st failed" and p: "p = origin \<or> doomed st0 origin p"
    and i: "i \<in> set (direct_dependents st0 p)" "pending_dependent st i" "i \<notin> set failed"
  shows "failed_from E now st0 origin
    (fail_as_side_effect E st i (dependency_failed_message E p) now) (failed @ [i])"
proof -
  let ?st = "fail_as_side_effect E st i (dependency_failed_message E p) now"
  have p0: "pending_dependent st0 i" using failed_from_pending [OF inv i(3)] i(2) by simp
  then have d: "doomed st0 origin i" using p i(1) by (auto intro: doomed.intros)
  obtain j where j: "get_stored st0 i = Some j" using p0 by (auto simp: pending_dependent_def is_some_and_iff)
  have "get_stored st i = Some j" using inv i(3) j by (simp add: failed_from_def)
  then have "get_stored ?st i = Some (failed_by E now p j)"
    by (simp add: get_fail_as_side_effect failed_by_def)
  with inv i p d j show ?thesis
    unfolding failed_from_def
    by (auto simp: direct_dependents_fail get_fail_as_side_effect)
qed

lemma fail_direct_spec:
  assumes "failed_from E now st0 origin st failed" and "p = origin \<or> doomed st0 origin p"
    and "set is \<subseteq> set (direct_dependents st0 p)"
    and "fail_direct E now p is (st, failed, tc) = (st', failed', tc')"
  shows "failed_from E now st0 origin st' failed' \<and> set failed \<subseteq> set failed' \<and>
    (\<forall>i \<in> set is. pending_dependent st0 i \<longrightarrow> i \<in> set failed') \<and>
    set tc' = set tc \<union> (set failed' - set failed)"
  using assms
proof (induction "is" arbitrary: st failed tc)
  case (Cons i "is")
  show ?case
  proof (cases "pending_dependent st i \<and> i \<notin> set failed")
    case True
    with Cons.prems(3) have "failed_from E now st0 origin
        (fail_as_side_effect E st i (dependency_failed_message E p) now) (failed @ [i])"
      by (intro failed_from_step [OF Cons.prems(1,2)]) auto
    from Cons.IH [OF this Cons.prems(2), of "i # tc"] Cons.prems(3,4) True show ?thesis by auto
  next
    case False
    with Cons.IH [OF Cons.prems(1,2), of tc] Cons.prems(3,4) failed_from_pending [OF Cons.prems(1), of i]
    show ?thesis by auto
  qed
qed simp

definition processed :: "storage \<Rightarrow> job_id list \<Rightarrow> job_id \<Rightarrow> bool" where
  "processed st0 failed p \<longleftrightarrow>
     (\<forall>i \<in> set (direct_dependents st0 p). pending_dependent st0 i \<longrightarrow> i \<in> set failed)"

lemma fail_dependents_loop_spec:
  assumes "failed_from E now st0 origin st failed" and "\<forall>p \<in> set tc. p = origin \<or> p \<in> set failed"
    and "\<forall>p. (p = origin \<or> p \<in> set failed) \<and> p \<notin> set tc \<longrightarrow> processed st0 failed p"
    and "fail_dependents_loop E now st failed tc = (st', failed')"
  shows "failed_from E now st0 origin st' failed' \<and>
    (\<forall>p. p = origin \<or> p \<in> set failed' \<longrightarrow> processed st0 failed' p)"
  using assms
proof (induction E now st failed tc rule: fail_dependents_loop.induct)
  case (2 E now st failed current tc)
  obtain st1 failed1 tc1 where
    d: "fail_direct E now current (direct_dependents st current) (st, failed, tc) = (st1, failed1, tc1)"
    by (metis prod_cases3)
  have same: "direct_dependents st = direct_dependents st0"
    and doom: "\<And>p. p \<in> set failed \<Longrightarrow> doomed st0 origin p" using 2(2) by (auto simp: failed_from_def)
  have cur: "current = origin \<or> doomed st0 origin current" using 2(3) doom by auto
  from fail_direct_spec [OF 2(2) cur _ d] same
  have f: "failed_from E now st0 origin st1 failed1" "set failed \<subseteq> set failed1"
    "processed st0 failed1 current" "set tc1 = set tc \<union> (set failed1 - set failed)"
    by (auto simp: processed_def)
  have "processed st0 failed1 p" if "p = origin \<or> p \<in> set failed1" "p \<notin> set tc1" for p
  proof (cases "p = current")
    case False
    then have "processed st0 failed p" using that f(4) 2(4) by auto
    then show ?thesis using f(2) by (auto simp: processed_def)
  qed (use f(3) in simp)
  moreover have "\<forall>p \<in> set tc1. p = origin \<or> p \<in> set failed1" using f(2,4) 2(3) by auto
  ultimately show ?case using 2(1) [OF d [symmetric] refl] f(1) 2(5) d by auto
qed simp

lemma fail_dependents_spec:
  assumes "fail_dependents E st origin now = (st', failed)"
  shows "failed_from E now st origin st' failed" and "set failed = {i. doomed st origin i}"
proof -
  have init: "failed_from E now st origin st []" by (simp add: failed_from_def)
  from fail_dependents_loop_spec [OF init, of "[origin]"] assms
  have r: "failed_from E now st origin st' failed"
    "\<And>p. p = origin \<or> p \<in> set failed \<Longrightarrow> processed st failed p"
    by (auto simp: fail_dependents_def)
  show "failed_from E now st origin st' failed" by (rule r)
  have "i \<in> set failed" if "doomed st origin i" for i
    using that by induction (use r(2) in \<open>auto simp: processed_def\<close>)
  with r(1) show "set failed = {i. doomed st origin i}" by (auto simp: failed_from_def)
qed

text \<open>
  C6: When a job fails for good, exactly the pending jobs that depend on it, directly or through
  other such jobs, are failed. Each is failed once and blames a dependency of its own that
  failed, and no other job changes.
\<close>

theorem fail_dependents_exact:
  assumes "fail_dependents E st origin now = (st', failed)"
  shows "set failed = {i. doomed st origin i} \<and> distinct failed \<and>
    (\<forall>i. \<not> doomed st origin i \<longrightarrow> get_stored st' i = get_stored st i) \<and>
    (\<forall>i. doomed st origin i \<longrightarrow>
       (\<exists>p j. (p = origin \<or> doomed st origin p) \<and> i \<in> set (direct_dependents st p) \<and>
          get_stored st i = Some j \<and> get_stored st' i = Some (failed_by E now p j)))"
  using fail_dependents_spec [OF assms] by (auto simp: failed_from_def)

definition sample_chain :: storage where
  "sample_chain =
     insert_job (insert_job (storage_new 0) (job_new 1 0 ''q'' ''{}''))
       (job_depends_on (job_new 2 0 ''q'' ''{}'') 1)"

lemma sample_chain_dependents: "direct_dependents sample_chain 1 = [2]" "direct_dependents sample_chain 2 = []"
  by (simp_all add: direct_dependents_def sample_chain_def insert_job_def storage_new_def job_depends_on_def
      job_new_def push_new_def)

lemma sample_chain_doomed: "doomed sample_chain 1 2"
proof (rule doomed.direct)
  show "2 \<in> set (direct_dependents sample_chain 1)" unfolding sample_chain_dependents by simp
  show "pending_dependent sample_chain 2"
    by (simp add: pending_dependent_def sample_chain_def insert_job_def storage_new_def job_depends_on_def job_new_def)
qed

lemma fail_dependents_witness:
  "\<exists>st' failed j. fail_dependents sample_externs sample_chain 1 5 = (st', failed) \<and> 2 \<in> set failed \<and>
     get_stored st' 2 = Some j \<and> j_status j = Failed"
proof -
  obtain st' failed where r: "fail_dependents sample_externs sample_chain 1 5 = (st', failed)" by fastforce
  from fail_dependents_exact [OF r] sample_chain_doomed show ?thesis
    using r by (fastforce simp: failed_by_def)
qed

subsection \<open>Fail-fast workflows and batches\<close>

lemma fail_listed_spec:
  assumes "fail_listed E err now is (st, failed) = (st', failed')"
  shows "(\<forall>i. get_stored st' i =
      (if i \<in> set is \<and> unstarted st i
       then map_option (\<lambda>j. mark_failed err now (j\<lparr>j_status := Failed\<rparr>)) (get_stored st i)
       else get_stored st i)) \<and>
    set failed' = set failed \<union> {i \<in> set is. unstarted st i} \<and>
    direct_dependents st' = direct_dependents st"
  using assms
proof (induction "is" arbitrary: st failed)
  case (Cons i "is")
  show ?case
  proof (cases "unstarted st i")
    case True
    let ?st = "fail_as_side_effect E st i err now"
    have u: "unstarted ?st k \<longleftrightarrow> k \<noteq> i \<and> unstarted st k" for k
      using True by (auto simp: unstarted_def is_some_and_iff get_fail_as_side_effect)
    from Cons.IH [of ?st "failed @ [i]"] Cons.prems True show ?thesis
      by (auto simp: u get_fail_as_side_effect direct_dependents_fail)
  next
    case False
    with Cons.IH [of st failed] Cons.prems show ?thesis by auto
  qed
qed simp

lemma doomed_status:
  assumes "fail_dependents E st i now = (st', failed)"
  shows "k \<in> set failed \<Longrightarrow> \<exists>j. get_stored st' k = Some j \<and> j_status j = Failed"
    and "k \<notin> set failed \<Longrightarrow> get_stored st' k = get_stored st k"
    and "k \<in> set failed \<Longrightarrow> unstarted st k"
    and "unstarted st' k \<Longrightarrow> unstarted st k"
proof -
  have f: "failed_from E now st i st' failed" by (rule fail_dependents_spec [OF assms])
  show same: "get_stored st' k = get_stored st k" if "k \<notin> set failed"
    using f that by (simp add: failed_from_def)
  show st: "\<exists>j. get_stored st' k = Some j \<and> j_status j = Failed" if "k \<in> set failed"
    using f that by (auto simp: failed_from_def failed_by_def)
  have "pending_dependent st k" if "doomed st i k" using that by cases auto
  then show "unstarted st k" if "k \<in> set failed"
    using f that by (auto simp: failed_from_def pending_dependent_def unstarted_def is_some_and_iff)
  show "unstarted st k" if "unstarted st' k"
    using that same st by (cases "k \<in> set failed") (auto simp: unstarted_def)
qed

text \<open>
  A failure in a fail-fast workflow stops it: afterwards no other job of the workflow is
  waiting to start, every job that was stopped is failed, only jobs that had not started are
  stopped, and every other job is as before. Under the manual policy nothing changes at all.
\<close>

theorem workflow_failure_policies:
  assumes "workflow_of st i = Some w" and "apply_workflow_failure E st i now = (st', failed)"
  shows "(g_failure_policy w = FailFast \<longrightarrow>
      (\<forall>k \<in> j_id ` set (g_jobs w). k \<noteq> i \<longrightarrow> \<not> unstarted st' k)) \<and>
    (\<forall>k \<in> set failed. unstarted st k \<and> (\<exists>j. get_stored st' k = Some j \<and> j_status j = Failed)) \<and>
    (\<forall>k. k \<notin> set failed \<longrightarrow> get_stored st' k = get_stored st k) \<and>
    (g_failure_policy w = Manual \<longrightarrow> st' = st \<and> failed = [])"
proof (cases "g_failure_policy w")
  case FailFast
  let ?ids = "filter (\<lambda>k. k \<noteq> i) (map j_id (g_jobs w))"
  obtain st1 first where l: "fail_listed E (workflow_failed_message E i) now ?ids (st, []) = (st1, first)"
    by fastforce
  obtain st2 rest where d: "fail_dependents E st1 i now = (st2, rest)" by fastforce
  have r: "st' = st2" "set failed = set first \<union> set rest"
    using assms FailFast l d by (auto simp: apply_workflow_failure_def)
  note ls = fail_listed_spec [OF l] and ds = doomed_status [OF d]
  have first: "set first = {k \<in> set ?ids. unstarted st k}" using ls by simp
  have u1: "unstarted st1 k \<longleftrightarrow> unstarted st k \<and> k \<notin> set first" for k
    using ls by (auto simp: unstarted_def is_some_and_iff first split: if_splits)
  have f1: "\<exists>j. get_stored st1 k = Some j \<and> j_status j = Failed" if "k \<in> set first" for k
    using that ls by (auto simp: first unstarted_def is_some_and_iff)
  have stopped: "\<not> unstarted st' k" if "k \<in> set ?ids" for k
    using ds(4) [of k] u1 [of k] that r(1) by (auto simp: first)
  have "\<exists>j. get_stored st' k = Some j \<and> j_status j = Failed" if "k \<in> set failed" for k
    using that r ds(1) [of k] ds(2) [of k] f1 [of k] by (cases "k \<in> set rest") auto
  moreover have "unstarted st k" if "k \<in> set failed" for k
    using that r(2) ds(3) [of k] u1 [of k] by (auto simp: first)
  moreover have "get_stored st' k = get_stored st k" if "k \<notin> set failed" for k
    using that r ds(2) [of k] ls by (auto simp: first)
  ultimately show ?thesis using stopped FailFast by auto
next
  case ContinueOnFailure
  then have d: "fail_dependents E st i now = (st', failed)"
    using assms by (simp add: apply_workflow_failure_def)
  from doomed_status [OF d] ContinueOnFailure show ?thesis by auto
next
  case Manual
  then show ?thesis using assms by (auto simp: apply_workflow_failure_def)
qed

definition sample_flow :: storage where
  "sample_flow =
     (let j1 = (job_new 1 0 ''q'' ''{}'')\<lparr>j_status := Dead\<rparr>; j2 = job_new 2 0 ''q'' ''{}'' in
      (insert_job (insert_job (storage_new 0) j1) j2)
        \<lparr>s_workflows := [(9, (group_new 9 0 ''w'')\<lparr>g_jobs := [j1, j2]\<rparr>)]\<rparr>)"

lemma workflow_failure_witness:
  "\<exists>st' failed w. workflow_of sample_flow 1 = Some w \<and>
     apply_workflow_failure sample_externs sample_flow 1 5 = (st', failed) \<and> \<not> unstarted st' 2 \<and> unstarted sample_flow 2"
proof -
  obtain st' failed where r: "apply_workflow_failure sample_externs sample_flow 1 5 = (st', failed)" by fastforce
  have w: "workflow_of sample_flow 1 = Some ((group_new 9 0 ''w'')
      \<lparr>g_jobs := [(job_new 1 0 ''q'' ''{}'')\<lparr>j_status := Dead\<rparr>, job_new 2 0 ''q'' ''{}'']\<rparr>)"
    by (simp add: workflow_of_def sample_flow_def insert_job_def storage_new_def job_new_def Let_def)
  have "unstarted sample_flow 2"
    by (simp add: unstarted_def sample_flow_def insert_job_def storage_new_def job_new_def Let_def)
  moreover have "\<not> unstarted st' 2"
    using workflow_failure_policies [OF w r] by (simp add: group_new_def job_new_def)
  ultimately show ?thesis using w r by blast
qed

subsection \<open>Releasing dependents\<close>

definition ready :: "storage \<Rightarrow> job_id \<Rightarrow> bool" where
  "ready st i \<longleftrightarrow> list_all (dependency_completed st) (dependencies_of st i) \<and> get_stored st i \<noteq> None"

lemma release_job_fields [simp]:
  "j_status (release_job E now j) = j_status j" "j_completed_at (release_job E now j) = j_completed_at j"
  "j_depends_on (release_job E now j) = j_depends_on j"
  by (simp_all add: release_job_def Let_def)

lemma s_dependencies_modify [simp]: "s_dependencies (modify_job st i f) = s_dependencies st"
  by (simp add: modify_job_def split: option.split)

lemma released_view:
  "dependency_completed (modify_job st i (release_job E now)) = dependency_completed st"
  "dependencies_of (modify_job st i (release_job E now)) = dependencies_of st"
  by (auto simp: dependency_completed_def dependencies_of_def get_modify_job fun_eq_iff is_some_and_iff
      option.map_comp o_def)

lemma ready_modify: "ready (modify_job st i (release_job E now)) k = ready st k"
  by (simp add: ready_def released_view get_modify_job)

lemma resolve_loop_spec:
  assumes "resolve_loop E now is (st, resolved) = (st', resolved')" and "distinct is"
  shows "resolved' = resolved @ filter (ready st) is \<and>
    (\<forall>k. get_stored st' k =
      (if k \<in> set is \<and> ready st k then map_option (release_job E now) (get_stored st k) else get_stored st k))"
  using assms
proof (induction "is" arbitrary: st resolved)
  case (Cons i "is")
  let ?st = "modify_job st i (release_job E now)"
  show ?case
  proof (cases "ready st i")
    case True
    then have "resolve_loop E now is (?st, resolved @ [i]) = (st', resolved')"
      using Cons.prems(1) by (simp add: ready_def)
    from Cons.IH [OF this] Cons.prems(2) True show ?thesis
      by (auto simp: ready_modify get_modify_job)
  next
    case False
    then have "resolve_loop E now is (st, resolved) = (st', resolved')"
      using Cons.prems(1) by (auto simp: ready_def split: if_splits)
    from Cons.IH [OF this] Cons.prems(2) False show ?thesis by auto
  qed
qed simp

lemma filtered_id_iff:
  assumes "index_ok st"
  shows "i \<in> set (map j_id (filter P (values_of (s_jobs st)))) \<longleftrightarrow> (\<exists>j. get_stored st i = Some j \<and> P j)"
proof
  assume "i \<in> set (map j_id (filter P (values_of (s_jobs st))))"
  then obtain j where "j \<in> set (values_of (s_jobs st))" "P j" "i = j_id j" unfolding set_map set_filter by blast
  then show "\<exists>j. get_stored st i = Some j \<and> P j" using stored_value [OF assms] by blast
next
  assume "\<exists>j. get_stored st i = Some j \<and> P j"
  then obtain j where j: "get_stored st i = Some j" "P j" by blast
  with value_stored [OF j(1)] index_okD(2) [OF assms j(1)]
  show "i \<in> set (map j_id (filter P (values_of (s_jobs st))))" unfolding set_map set_filter by blast
qed

text \<open>
  C35: When a job completes, exactly the held jobs that depend on it and whose dependencies have
  all completed are released, each once: the wait on dependencies ends and a job parked until
  then becomes due. No other job changes.
\<close>

theorem resolve_dependents_exact:
  assumes "index_ok st" and "resolve_dependents E st c now = (st', released)"
  shows "set released = {i. \<exists>j. get_stored st i = Some j \<and> held_candidate E j \<and>
        c \<in> set (dependencies_of st i) \<and> (\<forall>d \<in> set (dependencies_of st i). dependency_completed st d)} \<and>
    distinct released \<and>
    (\<forall>i. get_stored st' i =
      (if i \<in> set released then map_option (release_job E now) (get_stored st i) else get_stored st i))"
proof -
  let ?cs = "resolve_candidates E st c"
  have d: "distinct ?cs"
    using distinct_filtered_ids [OF assms(1), of "held_candidate E"] by (simp add: resolve_candidates_def)
  have "i \<in> set ?cs \<longleftrightarrow> (\<exists>j. get_stored st i = Some j \<and> held_candidate E j) \<and> c \<in> set (dependencies_of st i)" for i
    unfolding resolve_candidates_def set_sort set_filter using filtered_id_iff [OF assms(1)] by blast
  with resolve_loop_spec [OF _ d, of E now st "[]" st' released] assms(2) d show ?thesis
    by (auto simp: resolve_dependents_def ready_def list_all_iff)
qed

definition sample_waiting_store :: storage where
  "sample_waiting_store =
     (let j1 = (job_new 1 0 ''q'' ''{}'')\<lparr>j_status := Completed\<rparr>;
          j2 = job_depends_on (job_new 2 0 ''q'' ''{}'') 1 in
      (insert_job (insert_job (storage_new 0) j1) j2)
        \<lparr>s_queues := [''q'' \<mapsto> [Completed \<mapsto> [1], Pending \<mapsto> [2]]]\<rparr>)"

lemma sample_waiting_get:
  "get_stored sample_waiting_store i =
     (if i = 1 then Some ((job_new 1 0 ''q'' ''{}'')\<lparr>j_status := Completed\<rparr>)
      else if i = 2 then Some (job_depends_on (job_new 2 0 ''q'' ''{}'') 1) else None)"
  by (simp add: sample_waiting_store_def insert_job_def storage_new_def job_depends_on_def job_new_def Let_def)

lemma sample_waiting_ok: "index_ok sample_waiting_store"
proof -
  have st: "status_jobs sample_waiting_store q s =
      (if q = ''q'' \<and> s = Completed then [1] else if q = ''q'' \<and> s = Pending then [2] else [])" for q s
    by (simp add: status_jobs_def sample_waiting_store_def insert_job_def storage_new_def Let_def)
  have "distinct (map fst (s_jobs sample_waiting_store))"
    by (simp add: sample_waiting_store_def insert_job_def storage_new_def job_depends_on_def job_new_def Let_def)
  then show ?thesis
    unfolding index_ok_def indexed_def sample_waiting_get st
    by (auto simp: job_depends_on_def job_new_def split: if_splits)
qed

lemma resolve_dependents_witness:
  "\<exists>st' released. resolve_dependents sample_externs sample_waiting_store 1 5 = (st', released) \<and>
     2 \<in> set released \<and> map_option j_dependency_status (get_stored st' 2) = Some DepSatisfied"
proof -
  obtain st' released where r: "resolve_dependents sample_externs sample_waiting_store 1 5 = (st', released)"
    by fastforce
  have deps: "dependencies_of sample_waiting_store 2 = [1]"
    by (simp add: dependencies_of_def sample_waiting_get)
      (simp add: sample_waiting_store_def insert_job_def storage_new_def job_depends_on_def job_new_def Let_def)
  have "2 \<in> set released"
    using resolve_dependents_exact [OF sample_waiting_ok r] deps
    by (simp add: sample_waiting_get dependency_completed_def held_candidate_def job_depends_on_def job_new_def)
  moreover from this have "get_stored st' 2 = map_option (release_job sample_externs 5) (get_stored sample_waiting_store 2)"
    using resolve_dependents_exact [OF sample_waiting_ok r] by simp
  ultimately show ?thesis using r
    by (auto simp: sample_waiting_get release_job_def job_depends_on_def job_new_def Let_def)
qed

end
