(* ===== verification/Runs.thy ===== *)
theory Runs
  imports Claim Failure
begin

text \<open>
  Correctness of runs and of the manual transitions of the in-memory queue
  (\<open>src/src/queue/test.rs\<close>): only a dequeue starts a run, an outcome is recorded at most once per
  run, a released claim leaves no trace, manual transitions follow the table of
  \<open>src/src/queue/lifecycle.rs\<close>, and the recovery of stale jobs leaves live runs alone.
\<close>

subsection \<open>Only a dequeue starts a run\<close>

definition not_running :: "job_id \<Rightarrow> storage \<Rightarrow> bool" where
  "not_running i st \<longleftrightarrow> (\<forall>j. get_stored st i = Some j \<longrightarrow> j_status j \<noteq> Running)"

lemma not_running_cong: "get_stored st' i = get_stored st i \<Longrightarrow> not_running i st' = not_running i st"
  by (simp add: not_running_def)

lemma not_running_modify:
  "not_running i st \<Longrightarrow> keeps_identity f \<Longrightarrow> not_running i (modify_job st k f)"
  by (auto simp: not_running_def get_modify_job keeps_identity_def)

lemma not_running_left:
  assumes "get_stored st i = Some j" and "s \<noteq> Running" and "keeps_identity f"
  shows "not_running i (modify_job (remove_lease (set_status st i j s) i) i f)"
  using assms by (auto simp: not_running_def get_modify_job get_set_status keeps_identity_def)

interpretation nr: quiet_store "not_running i" for i
proof
  fix st :: storage and k j s f
  assume n: "not_running i st" and g: "get_stored st k = Some j" "s \<noteq> Running" "keeps_identity f"
  show "not_running i (modify_job (remove_lease (set_status st k j s) k) k f)"
  proof (cases "k = i")
    case True
    then show ?thesis using not_running_left g by blast
  next
    case False
    then show ?thesis using n g by (simp add: not_running_def get_modify_job get_set_status)
  qed
next
  fix st :: storage and f k assume "not_running i st" "keeps_run f"
  then show "not_running i (modify_job st k f)" by (simp add: not_running_modify keeps_run_def)
next
  fix st :: storage and j :: job
  assume "not_running i st" "fresh_id st (j_id j)" "j_status j \<noteq> Running"
  then show "not_running i (add_job_to_queue (insert_job st j) j)"
    by (simp add: not_running_def add_job_to_queue_def insert_job_def)
qed (auto simp: not_running_def purge_one_def purge_one_in_queue_def)

lemma not_running_archive: "index_ok st \<Longrightarrow> not_running i st \<Longrightarrow> not_running i (snd (archive_jobs q p st))"
  by (auto simp: not_running_def archive_jobs_state split: if_splits)

lemma not_running_restore:
  assumes "not_running i st"
  shows "not_running i (snd (restore_archived_job E wall k st))"
proof (cases "fst (restore_archived_job E wall k st)")
  case (Inl e)
  with restore_Inl [OF this] assms show ?thesis by simp
next
  case (Inr j')
  then obtain j where "restored_from j j' (s_clock st)" "get_stored st k = Some j"
    and st': "snd (restore_archived_job E wall k st) = move_to_pending k (j_queue_name j) (modify_job st k (\<lambda>_. j'))"
    by (rule restore_cases)
  with assms show ?thesis
    by (auto simp: not_running_def st' move_to_pending_fields get_modify_job restored_from_def)
qed

lemma not_running_purge_one: "not_running i st \<Longrightarrow> not_running i (purge_one_in_queue q k st)"
  by (simp add: not_running_def purge_one_in_queue_def)

lemma not_running_purge: "not_running i st \<Longrightarrow> not_running i (fold (purge_one_in_queue q) ids st)"
  by (induction ids arbitrary: st) (simp_all add: not_running_purge_one)

lemma not_running_clock: "not_running i st \<Longrightarrow> not_running i (clock_advance d st) \<and> not_running i (clock_set_time t st)"
  by (simp add: not_running_def clock_advance_def clock_set_time_def)

lemma not_running_purge_archived:
  "not_running i st \<Longrightarrow> not_running i (snd (purge_archived_jobs_in_queue q t st))"
  by (simp add: purge_archived_jobs_in_queue_def Let_def not_running_purge)

text \<open>
  Only a dequeue starts a run: no other operation of the queue, whatever its arguments,
  turns a job that is not running into a running one.
\<close>

theorem only_dequeue_starts_runs:
  assumes "index_ok st" and "new_jobs st (added c)" and "\<not> is_claim c"
    and "\<forall>j. get_stored st i = Some j \<longrightarrow> j_status j \<noteq> Running"
    and "get_stored (execute E c st) i = Some j'"
  shows "j_status j' \<noteq> Running"
proof -
  have n: "not_running i st" using assms(4) by (simp add: not_running_def)
  have "not_running i (execute E c st)"
    by (rule nr.keep_execute_quiet [OF n assms(2,3)])
      (use n assms(1) in \<open>auto simp: not_running_archive not_running_restore not_running_purge_archived
        not_running_clock\<close>)
  with assms(5) show ?thesis by (simp add: not_running_def)
qed

lemma only_dequeue_witness:
  "\<exists>j'. get_stored (execute sample_externs (CRetryDead 1) sample_store) 1 = Some j' \<and> j_status j' \<noteq> Running"
proof -
  obtain j' where j': "get_stored (execute sample_externs (CRetryDead 1) sample_store) 1 = Some j'"
    by (simp add: sample_defs retry_dead_job_def check_transition_def is_allowed_from_def)
  have "new_jobs sample_store (added (CRetryDead 1))" by (simp add: new_jobs_def)
  from only_dequeue_starts_runs [OF sample_store_inv(1) this _ _ j'] j' show ?thesis
    by (auto simp: sample_defs)
qed

subsection \<open>An outcome is recorded once\<close>

lemma complete_and_resolve_left:
  "fst (complete_and_resolve E i st) = Inr x \<Longrightarrow> not_running i (snd (complete_and_resolve E i st))"
  by (auto simp: complete_and_resolve_def try_res_def update_job_status_def Let_def keeps_defs split_beta
      split: sum.splits option.splits intro!: nr.keep_resolve_dependents not_running_left)

lemma retry_job_left:
  "fst (retry_job E i t st) = Inr x \<Longrightarrow> not_running i (snd (retry_job E i t st))"
  by (auto simp: retry_job_def try_res_def update_job_status_def Let_def keeps_defs
      split: sum.splits option.splits intro!: not_running_left)

lemma end_with_failure_left:
  "s \<noteq> Running \<Longrightarrow> fst (end_with_failure E i s err b st) = Inr x \<Longrightarrow>
     not_running i (snd (end_with_failure E i s err b st))"
  by (auto simp: end_with_failure_def try_res_def update_job_status_def Let_def keeps_defs split_beta
      split: sum.splits if_splits option.splits
      intro!: nr.keep_apply_batch_failure nr.keep_apply_workflow_failure not_running_left)

lemma bind_op_Inr:
  assumes "fst (bind_op p k) = Inr y"
  obtains x where "fst p = Inr x" "bind_op p k = k x (snd p)"
  using assms by (cases p; cases "fst p") auto

lemma record_outcome_left:
  assumes "fst (record_outcome E wall i out True st) = Inr x"
  shows "not_running i (snd (record_outcome E wall i out True st))"
proof (cases out)
  case (OutRetry t err timed_out)
  let ?r = "retry_job E i (unwrap_or (checked_add_signed E (s_clock st) (t - wall)) t) st"
  have "fst ?r = Inr ()" using assms OutRetry by (cases ?r; cases "fst ?r") (auto simp: record_outcome_def)
  from retry_job_left [OF this] show ?thesis
    by (cases ?r; cases "fst ?r") (auto simp: OutRetry record_outcome_def Let_def keeps_defs
        intro!: not_running_modify)
next
  case OutCompleted
  then show ?thesis using assms complete_and_resolve_left [of E i st]
    by (cases "complete_and_resolve E i st"; cases "fst (complete_and_resolve E i st)")
      (auto simp: record_outcome_def)
next
  case (OutDead err)
  then show ?thesis using assms end_with_failure_left [of Dead E i err True st]
    by (cases "end_with_failure E i Dead err True st"; cases "fst (end_with_failure E i Dead err True st)")
      (auto simp: record_outcome_def)
next
  case (OutTimedOut err)
  then show ?thesis using assms end_with_failure_left [of TimedOut E i err True st]
    by (cases "end_with_failure E i TimedOut err True st"; cases "fst (end_with_failure E i TimedOut err True st)")
      (auto simp: record_outcome_def)
qed

lemma reschedule_left: "reschedule_in_place E st i t b = Inr st' \<Longrightarrow> not_running i st'"
  by (auto simp: reschedule_in_place_def update_job_status_def keeps_defs Let_def
      split: sum.splits option.splits intro!: not_running_left)

lemma finish_job_run_left:
  assumes "finish_job_run E wall r out st = (Inr (Some x), st')"
  shows "not_running (j_id r) st'"
proof -
  obtain current where cur: "get_stored st (j_id r) = Some current" "guard_admits (GuardRun r) current"
    using assms by (auto simp: finish_job_run_def split: option.splits if_splits)
  let ?next = "outcome_next_run E current out (s_clock st)"
  let ?p = "record_outcome E wall (j_id r) out (?next = None) st"
  obtain y where y: "fst ?p = Inr y"
    using assms cur by (cases ?p; cases "fst ?p") (auto simp: finish_job_run_def Let_def)
  show ?thesis
  proof (cases ?next)
    case None
    then show ?thesis using assms cur y record_outcome_left [of E wall "j_id r" out st y]
      by (cases ?p) (auto simp: finish_job_run_def Let_def)
  next
    case (Some t)
    then show ?thesis using assms cur y reschedule_left
      by (cases ?p) (auto simp: finish_job_run_def Let_def try_res_def split: sum.splits)
  qed
qed

lemma not_running_runs_as: "not_running (j_id r) st \<Longrightarrow> \<not> runs_as st r"
  by (auto simp: not_running_def runs_as_def is_some_and_iff)


definition sample_run :: job where
  "sample_run =
     (job_new 1 0 ''q'' ''{}'')\<lparr>j_status := Running, j_started_at := Some 0, j_attempts := 1\<rparr>"

definition sample_run_store :: storage where
  "sample_run_store = insert_job (storage_new 9) sample_run"

lemma sample_run_get: "get_stored sample_run_store i = (if i = 1 then Some sample_run else None)"
  by (simp add: sample_run_store_def insert_job_def storage_new_def sample_run_def job_new_def)

lemma sample_run_admitted: "guard_admits (GuardRun sample_run) sample_run" "j_id sample_run = 1"
  by (simp_all add: is_same_run_def sample_run_def job_new_def num_microseconds_def trunc_div_def
      i64_range_def Let_def)


subsection \<open>Manual transitions\<close>

text \<open>The operation behind each manual transition and the status it leads to.\<close>

fun manual_operation ::
  "externs \<Rightarrow> job_transition \<Rightarrow> job_id \<Rightarrow> string \<Rightarrow> time \<Rightarrow> storage \<Rightarrow> unit res \<times> storage" where
  "manual_operation E Complete i err t st = complete_job E i st"
| "manual_operation E Fail i err t st = fail_job E i err st"
| "manual_operation E Retry i err t st = retry_job E i t st"
| "manual_operation E MarkDead i err t st = mark_job_dead E i err st"
| "manual_operation E MarkTimedOut i err t st = mark_job_timed_out E i err st"
| "manual_operation E RescheduleCron i err t st = reschedule_cron_job E i t st"
| "manual_operation E RetryDead i err t st = retry_dead_job E i st"

fun transition_target :: "job_transition \<Rightarrow> job_status" where
  "transition_target Complete = Completed"
| "transition_target Fail = Failed"
| "transition_target Retry = Pending"
| "transition_target MarkDead = Dead"
| "transition_target MarkTimedOut = TimedOut"
| "transition_target RescheduleCron = Pending"
| "transition_target RetryDead = Pending"

lemma check_transition_Inl:
  "check_transition E st i t = Inl e \<Longrightarrow> fst (manual_operation E t i err at_time st) = Inl e \<and>
     snd (manual_operation E t i err at_time st) = st"
  by (cases t) (simp_all add: complete_job_def complete_and_resolve_def fail_job_def retry_job_def
      mark_job_dead_def mark_job_timed_out_def end_with_failure_def reschedule_cron_job_def
      retry_dead_job_def Let_def)

text \<open>A job that has started or ended is left alone by every side effect of a failure.\<close>

lemma started_fail_dependents:
  assumes "\<not> unstarted st i"
  shows "get_stored (fst (fail_dependents E st k now)) i = get_stored st i"
proof -
  obtain st' failed where r: "fail_dependents E st k now = (st', failed)" by fastforce
  then show ?thesis using doomed_status [OF r, of i] assms by auto
qed

lemma started_fail_listed:
  assumes "\<not> unstarted st i"
  shows "get_stored (fst (fail_listed E err now is (st, failed))) i = get_stored st i"
proof -
  obtain st' failed' where r: "fail_listed E err now is (st, failed) = (st', failed')" by fastforce
  then show ?thesis using fail_listed_spec [OF r] assms by auto
qed

lemma started_workflow_failure:
  assumes "\<not> unstarted st i"
  shows "get_stored (fst (apply_workflow_failure E st k now)) i = get_stored st i"
proof -
  let ?l = "\<lambda>w :: job_group. fail_listed E (workflow_failed_message E k) now (filter (\<lambda>x. x \<noteq> k) (map j_id (g_jobs w))) (st, [])"
  have l: "get_stored (fst (?l w)) i = get_stored st i" for w :: job_group
    by (rule started_fail_listed [OF assms])
  then have "\<not> unstarted (fst (?l w)) i" for w :: job_group using assms by (simp add: unstarted_def)
  from started_fail_dependents [OF this] l show ?thesis
    by (auto simp: apply_workflow_failure_def started_fail_dependents [OF assms] split_beta
        split: option.split failure_policy.split)
qed

lemma started_batch_failure:
  assumes "\<not> unstarted st i"
  shows "get_stored (fst (apply_batch_failure E st k now)) i = get_stored st i"
  by (auto simp: apply_batch_failure_def started_fail_listed [OF assms] split: option.split)

lemma started_failures:
  assumes "\<not> unstarted st i"
  shows "get_stored (fst (apply_batch_failure E (fst (apply_workflow_failure E st k now)) k' now')) i = get_stored st i"
  using started_batch_failure [of "fst (apply_workflow_failure E st k now)" i] started_workflow_failure [OF assms] assms
  by (simp add: unstarted_def)

lemma status_resolve_loop:
  "map_option j_status (get_stored (fst (resolve_loop E now is s)) i) = map_option j_status (get_stored (fst s) i)"
  by (induction E now "is" s rule: resolve_loop.induct) (auto simp: get_modify_job option.map_comp o_def)

lemma status_left:
  assumes "get_stored st i = Some j" and "keeps_identity f"
  shows "map_option j_status (get_stored (modify_job (remove_lease (set_status st i j s) i) i f) i) = Some s"
  using assms by (simp add: get_modify_job get_set_status keeps_identity_def)

lemma terminal_left:
  assumes "get_stored st i = Some j" and "keeps_identity f" and "s \<noteq> Pending" and "s \<noteq> Retrying"
  shows "\<not> unstarted (modify_job (remove_lease (set_status st i j s) i) i f) i"
  using assms by (simp add: unstarted_def get_modify_job get_set_status keeps_identity_def)

lemma manual_success:
  assumes "check_transition E st i t = Inr ()" and "t \<noteq> Retry" and "t \<noteq> RescheduleCron"
  shows "fst (manual_operation E t i err at_time st) = Inr () \<and>
    map_option j_status (get_stored (snd (manual_operation E t i err at_time st)) i) = Some (transition_target t)"
proof -
  obtain j where j: "get_stored st i = Some j"
    using assms(1) by (auto simp: check_transition_def split: option.splits)
  note upd = update_job_status_def [of E st i, unfolded j option.case]
  note frame = started_failures [OF terminal_left [OF j]]
  note simps = upd Let_def split_beta keeps_defs frame status_left [OF j]
  show ?thesis
  proof (cases t)
    case Complete
    then show ?thesis using assms(1)
      by (simp add: complete_job_def complete_and_resolve_def simps resolve_dependents_def status_resolve_loop
          del: map_option_eq_Some)
  qed (use assms in \<open>simp_all add: fail_job_def mark_job_dead_def mark_job_timed_out_def
      end_with_failure_def retry_dead_job_def simps del: map_option_eq_Some\<close>)
qed

lemma retry_success:
  assumes "fst (retry_job E i at_time st) = Inr ()"
  shows "map_option j_status (get_stored (snd (retry_job E i at_time st)) i) = Some Pending"
proof -
  have c: "check_transition E st i Retry = Inr ()"
    using assms by (cases "check_transition E st i Retry") (auto simp: retry_job_def)
  then obtain j where j: "get_stored st i = Some j"
    by (auto simp: check_transition_def split: option.splits)
  obtain s where s: "retry_dependency_status E st i = Inr s"
    using assms c by (cases "retry_dependency_status E st i") (auto simp: retry_job_def)
  then show ?thesis
    by (simp add: retry_job_def c s update_job_status_def j Let_def del: map_option_eq_Some, cases s)
      (simp_all add: status_left [OF j] keeps_defs del: map_option_eq_Some)
qed

lemma reschedule_success:
  assumes "fst (reschedule_cron_job E i at_time st) = Inr ()"
  shows "map_option j_status (get_stored (snd (reschedule_cron_job E i at_time st)) i) = Some Pending"
proof -
  obtain j where j: "get_stored st i = Some j" "j_recurring j"
    and c: "check_transition E st i RescheduleCron = Inr ()"
    using assms by (auto simp: reschedule_cron_job_def try_res_def is_some_and_iff split: sum.splits if_splits)
  then show ?thesis
    by (simp add: reschedule_cron_job_def reschedule_in_place_def update_job_status_def Let_def status_left [OF j(1)]
        keeps_defs del: map_option_eq_Some)
qed



subsection \<open>Releasing a claim\<close>

text \<open>
  Giving a claimed job back undoes the claim: the job is stored exactly as before the
  dequeue, pending and with its attempt count, it holds no lease, and no other job changes.
\<close>

theorem release_undoes_claim:
  assumes "index_ok st" and "dequeue E q opts st = (Inr js, st1)" and "claimable st q j"
    and "claimed_as (s_clock st) j \<in> set js"
    and "0 \<le> j_attempts j" and "j_attempts j < 2 ^ 31 - 1" and "j_started_at j = None"
  shows "\<exists>st2. release_job_run E (claimed_as (s_clock st) j) st1 = (Inr True, st2) \<and>
    get_stored st2 (j_id j) = Some j \<and> s_leases st2 (j_id j) = None \<and>
    (\<forall>k. k \<noteq> j_id j \<longrightarrow> get_stored st2 k = get_stored st1 k \<and> s_leases st2 k = s_leases st1 k)"
proof -
  let ?r = "claimed_as (s_clock st) j"
  have g: "get_stored st1 (j_id j) = Some ?r"
    using dequeue_contract [OF assms(1), of E q opts] assms(2,4) by (auto simp: taken_def)
  have same: "is_same_run ?r ?r"
    by (simp add: is_same_run_def claimed_as_def start_run_def num_microseconds_def trunc_div_def i64_range_def Let_def)
  have undone: "?r\<lparr>j_status := Pending, j_started_at := None, j_attempts := max (wrap_i32 (j_attempts ?r - 1)) 0\<rparr> = j"
  proof -
    have "i32_range (j_attempts j + 1)" "i32_range (j_attempts j)"
      using assms(5,6) by (auto simp: i32_range_def)
    then have a: "max (wrap_i32 (j_attempts ?r - 1)) 0 = j_attempts j"
      using assms(5) by (simp add: claimed_as_def start_run_def)
    have "j_status j = Pending" using assms(3) by (simp add: claimable_def)
    with assms(7) show ?thesis unfolding a by (cases j) (simp add: claimed_as_def start_run_def)
  qed
  have run: "runs_as st1 ?r" using g same by (simp add: runs_as_def)
  have upd: "update_job_status E st1 (j_id ?r) Pending = Inr (set_status st1 (j_id j) ?r Pending)"
    using g by (simp add: update_job_status_def)
  show ?thesis
    unfolding release_job_run_def
    using run upd g undone by (simp add: get_modify_job get_set_status)
qed

lemma release_undoes_witness:
  "\<exists>js st1 st2. dequeue sample_externs ''q'' (options_batch 1) sample_store = (Inr js, st1) \<and>
     release_job_run sample_externs (claimed_as (s_clock sample_store) sample_high_job) st1 = (Inr True, st2) \<and>
     get_stored st2 2 = Some sample_high_job"
proof -
  have "j_id sample_high_job = 2" "0 \<le> j_attempts sample_high_job" "j_attempts sample_high_job < 2 ^ 31 - 1"
    "j_started_at sample_high_job = None" by (simp_all add: sample_defs)
  with release_undoes_claim [OF sample_store_inv(1) sample_dequeue sample_claimable(2)] sample_dequeue
  show ?thesis by fastforce
qed

subsection \<open>Recovering stale jobs\<close>

text \<open>A running job and its lease, untouched: every step of the recovery keeps them.\<close>

definition run_kept :: "job_id \<Rightarrow> job \<Rightarrow> (time \<times> time) option \<Rightarrow> storage \<Rightarrow> bool" where
  "run_kept i j l st \<longleftrightarrow> j_status j = Running \<and> get_stored st i = Some j \<and> s_leases st i = l"

lemma kept_fail_as_side_effect:
  "run_kept i j l st \<Longrightarrow> unstarted st k \<Longrightarrow> run_kept i j l (fail_as_side_effect E st k err now)"
  by (auto simp: run_kept_def unstarted_def is_some_and_iff fail_as_side_effect_def update_job_status_def
      get_modify_job get_set_status split: option.split)

lemma pending_unstarted: "pending_dependent st k \<Longrightarrow> unstarted st k"
  by (auto simp: pending_dependent_def unstarted_def is_some_and_iff)

lemma kept_fail_direct: "run_kept i j l (fst s) \<Longrightarrow> run_kept i j l (fst (fail_direct E now c ks s))"
  by (induction E now c ks s rule: fail_direct.induct) (simp_all add: kept_fail_as_side_effect pending_unstarted)

lemma kept_fail_dependents_loop:
  "run_kept i j l st \<Longrightarrow> run_kept i j l (fst (fail_dependents_loop E now st failed cs))"
proof (induction E now st failed cs rule: fail_dependents_loop.induct)
  case (2 E now st failed c cs)
  obtain st1 f1 cs1 where d: "fail_direct E now c (direct_dependents st c) (st, failed, cs) = (st1, f1, cs1)" by (cases "fail_direct E now c (direct_dependents st c) (st, failed, cs)")
  with kept_fail_direct [of i j l "(st, failed, cs)" E now c "direct_dependents st c"] 2
  show ?case by simp
qed simp

lemma kept_fail_dependents: "run_kept i j l st \<Longrightarrow> run_kept i j l (fst (fail_dependents E st k now))"
  unfolding fail_dependents_def by (rule kept_fail_dependents_loop)

lemma kept_fail_listed: "run_kept i j l (fst s) \<Longrightarrow> run_kept i j l (fst (fail_listed E err now ks s))"
  by (induction E err now ks s rule: fail_listed.induct) (simp_all add: kept_fail_as_side_effect)

lemma kept_failures:
  assumes "run_kept i j l st"
  shows "run_kept i j l (fst (apply_batch_failure E (fst (apply_workflow_failure E st k now)) k' now'))"
proof -
  have "run_kept i j l (fst (apply_workflow_failure E st k now))"
    using assms kept_fail_listed [of i j l "(st, [])"]
    by (auto simp: apply_workflow_failure_def kept_fail_dependents split_beta split: option.split failure_policy.split)
  then show ?thesis by (auto simp: apply_batch_failure_def split: option.split intro!: kept_fail_listed)
qed

lemma kept_change:
  "run_kept i j l st \<Longrightarrow> k \<noteq> i \<Longrightarrow> update_job_status E st k s = Inr st1 \<Longrightarrow> run_kept i j l (modify_job st1 k f)"
  by (auto simp: run_kept_def update_job_status_Inr get_modify_job get_set_status)

lemma kept_remove_lease: "run_kept i j l st \<Longrightarrow> k \<noteq> i \<Longrightarrow> run_kept i j l (remove_lease st k)"
  by (simp add: run_kept_def)

lemma kept_reschedule:
  "run_kept i j l st \<Longrightarrow> k \<noteq> i \<Longrightarrow> reschedule_in_place E st k t b = Inr st' \<Longrightarrow> run_kept i j l st'"
  by (auto simp: run_kept_def reschedule_in_place_def update_job_status_def get_modify_job get_set_status
      split: sum.splits option.splits)

lemma kept_kill_stale:
  assumes "run_kept i j l st" and "k \<noteq> i"
  shows "run_kept i j l (snd (kill_stale E now k st))"
proof (cases "update_job_status E st k Dead")
  case (Inr st1)
  let ?st = "modify_job st1 k (\<lambda>j. j\<lparr>j_failed_at := Some now, j_error_message := Some STALE_JOB_ERROR_MESSAGE\<rparr>)"
  have st: "run_kept i j l ?st" by (rule kept_change [OF assms Inr])
  show ?thesis
    using kept_reschedule [OF st assms(2)] st kept_failures [OF st]
    by (auto simp: kill_stale_def Inr Let_def try_res_def split: option.split sum.split)
qed (use assms in \<open>simp add: kill_stale_def\<close>)

lemma kept_requeue_stale:
  "run_kept i j l st \<Longrightarrow> k \<noteq> i \<Longrightarrow> run_kept i j l (snd (requeue_stale E now k st))"
  by (auto simp: requeue_stale_def try_res_def split: sum.split intro: kept_change)

lemma kept_recover_loop:
  "run_kept i j l st \<Longrightarrow> i \<notin> fst ` set xs \<Longrightarrow> run_kept i j l (snd (recover_loop E now xs rcv st))"
proof (induction E now xs rcv st rule: recover_loop.induct)
  case (2 E now k exhausted rest rcv st)
  let ?st = "remove_lease st k"
  have st: "run_kept i j l ?st" "k \<noteq> i" using 2(3,4) by (auto simp: kept_remove_lease)
  show ?case
  proof (cases exhausted)
    case True
    then show ?thesis using 2(1,4) kept_kill_stale [OF st, of E now]
      by (cases "kill_stale E now k ?st"; cases "fst (kill_stale E now k ?st)") auto
  next
    case False
    then show ?thesis using 2(2,4) kept_requeue_stale [OF st, of E now]
      by (cases "requeue_stale E now k ?st"; cases "fst (requeue_stale E now k ?st)") auto
  qed
qed simp

text \<open>
  C5: Recovering stale jobs never touches a live run: a running job whose lease has not expired
  (or whose start is newer than its lease) is stored unchanged, with its lease, whatever other
  jobs are requeued, killed or failed along with them.
\<close>

theorem stale_recovery_spares_live_runs:
  assumes "index_ok st" and "get_stored st i = Some j" and "j_status j = Running" and "\<not> is_stale st j"
  shows "get_stored (snd (requeue_stale_jobs E q st)) i = Some j \<and>
    s_leases (snd (requeue_stale_jobs E q st)) i = s_leases st i"
proof -
  have "i \<notin> fst ` set (stale_jobs st q)"
  proof
    assume "i \<in> fst ` set (stale_jobs st q)"
    then obtain k where k: "k \<in> set (values_of (s_jobs st))" "is_stale st k" "i = j_id k"
      unfolding stale_jobs_def set_map set_filter by force
    with stored_value [OF assms(1) k(1)] assms(2,4) show False by simp
  qed
  then have "run_kept i j (s_leases st i) (snd (requeue_stale_jobs E q st))"
    unfolding requeue_stale_jobs_def
    using assms(2,3) by (intro kept_recover_loop) (simp_all add: run_kept_def)
  then show ?thesis by (simp add: run_kept_def)
qed

text \<open>Two running jobs at time 20: the lease of the first has expired, that of the second has not.\<close>

definition sample_leased_store :: storage where
  "sample_leased_store =
     (let j1 = (job_new 1 0 ''q'' ''{}'')\<lparr>j_status := Running, j_started_at := Some 1\<rparr>;
          j2 = (job_new 2 0 ''q'' ''{}'')\<lparr>j_status := Running, j_started_at := Some 2\<rparr> in
      (insert_job (insert_job (storage_new 20) j1) j2)
        \<lparr>s_queues := [''q'' \<mapsto> [Running \<mapsto> [1, 2]]], s_leases := [1 \<mapsto> (1, 10), 2 \<mapsto> (2, 30)]\<rparr>)"

lemmas sample_leased_defs = sample_leased_store_def insert_job_def storage_new_def job_new_def Let_def

lemma sample_leased_ok: "index_ok sample_leased_store"
proof -
  have g: "get_stored sample_leased_store i =
      (if i = 1 then Some ((job_new 1 0 ''q'' ''{}'')\<lparr>j_status := Running, j_started_at := Some 1\<rparr>)
       else if i = 2 then Some ((job_new 2 0 ''q'' ''{}'')\<lparr>j_status := Running, j_started_at := Some 2\<rparr>)
       else None)" for i
    by (simp add: sample_leased_defs)
  have st: "status_jobs sample_leased_store q s = (if q = ''q'' \<and> s = Running then [1, 2] else [])" for q s
    by (simp add: status_jobs_def sample_leased_defs)
  have "distinct (map fst (s_jobs sample_leased_store))" by (simp add: sample_leased_defs)
  then show ?thesis
    unfolding index_ok_def indexed_def g st by (auto simp: job_new_def split: if_splits)
qed

lemma stale_recovery_witness:
  "is_stale sample_leased_store (the (get_stored sample_leased_store 1)) \<and>
   get_stored (snd (requeue_stale_jobs sample_externs None sample_leased_store)) 2 =
     get_stored sample_leased_store 2"
proof -
  obtain j where j: "get_stored sample_leased_store 2 = Some j" "j_status j = Running"
    "\<not> is_stale sample_leased_store j"
    by (simp add: sample_leased_defs is_stale_def is_some_and_iff)
  have "is_stale sample_leased_store (the (get_stored sample_leased_store 1))"
    by (simp add: sample_leased_defs is_stale_def is_some_and_iff)
  with stale_recovery_spares_live_runs [OF sample_leased_ok j] j(1) show ?thesis by simp
qed

end
