(* ===== verification/Planning.thy ===== *)
theory Planning
  imports Workflow Batch Cron Priority
begin

text \<open>
  What the planning code of a queue promises: a validated workflow can be executed in the order
  of its dependencies, a validated batch splits into chunks without losing or reordering jobs,
  a recurring job moves on past the runs it missed, and the weighted choice of a priority level
  serves every level by its weight.
\<close>

subsection \<open>Workflows\<close>

lemma missing_dependency_None:
  "missing_dependency g = None \<longleftrightarrow> (\<forall>j \<in> set (g_jobs g). set (j_depends_on j) \<subseteq> j_id ` set (g_jobs g))"
  by (fastforce simp: missing_dependency_def find_None_iff Let_def)

lemma group_validate_ok:
  "group_validate E g = Some (Inr ()) \<longleftrightarrow>
     (\<forall>j \<in> set (g_jobs g). within_limits j \<and> set (j_depends_on j) \<subseteq> j_id ` set (g_jobs g)) \<and>
     acyclic (dep_edges g)"
proof -
  have "group_validate E g = Some (Inr ()) \<longleftrightarrow>
      validate_dependency_limits E (g_jobs g) = Inr () \<and> missing_dependency g = None \<and>
      detect_cycles g = Some (Inr ())"
    by (auto simp: group_validate_def split: sum.splits option.splits)
  then show ?thesis
    unfolding validate_dependency_limits_ok missing_dependency_None detect_cycles_correct by blast
qed

lemma group_validate_total: "\<exists>r. group_validate E g = Some r"
  using detect_cycles_total [of g] by (auto simp: group_validate_def split: sum.splits option.splits)

text \<open>The number of jobs a job depends on, directly or not, ranks the jobs of an acyclic workflow.\<close>

definition depth :: "job_group \<Rightarrow> job_id \<Rightarrow> nat" where
  "depth g i = card ((dep_edges g)\<^sup>+ `` {i})"

lemma finite_dep_reach: "finite ((dep_edges g)\<^sup>+ `` {i})"
proof (rule finite_subset)
  show "(dep_edges g)\<^sup>+ `` {i} \<subseteq> group_ids g"
    using group_deps_in_ids by (fastforce simp: dep_edges_def elim: tranclE)
qed simp

lemma depth_decreases:
  assumes "acyclic (dep_edges g)" and "(i, d) \<in> dep_edges g"
  shows "depth g d < depth g i"
  unfolding depth_def
proof (rule psubset_card_mono [OF finite_dep_reach])
  have "d \<in> (dep_edges g)\<^sup>+ `` {i}" "d \<notin> (dep_edges g)\<^sup>+ `` {d}"
    using assms by (auto simp: acyclic_def)
  moreover have "(dep_edges g)\<^sup>+ `` {d} \<subseteq> (dep_edges g)\<^sup>+ `` {i}"
    using assms(2) by (auto intro: trancl_into_trancl2)
  ultimately show "(dep_edges g)\<^sup>+ `` {d} \<subset> (dep_edges g)\<^sup>+ `` {i}" by blast
qed

lemma dep_edge_of_job:
  "distinct (map j_id (g_jobs g)) \<Longrightarrow> j \<in> set (g_jobs g) \<Longrightarrow> d \<in> set (j_depends_on j) \<Longrightarrow>
     (j_id j, d) \<in> dep_edges g"
  by (cases "find (\<lambda>k. j_id k = j_id j) (g_jobs g)")
    (auto simp: dep_edges_def group_deps_def find_None_iff distinct_map dest!: find_SomeD inj_onD)

text \<open>
  C36: Validation of a workflow always returns. It accepts exactly the workflows whose jobs are
  within the dependency limits, depend only on jobs of the workflow, and have no circular
  dependency; and an accepted workflow of distinct jobs can be executed: its jobs can be ranked
  so that every dependency of a job is ranked before it.
\<close>

theorem workflow_validation_decides:
  "(\<exists>r. group_validate E g = Some r) \<and>
   (group_validate E g = Some (Inr ()) \<longleftrightarrow>
      (\<forall>j \<in> set (g_jobs g). within_limits j \<and> set (j_depends_on j) \<subseteq> j_id ` set (g_jobs g)) \<and>
      acyclic (dep_edges g)) \<and>
   (group_validate E g = Some (Inr ()) \<and> distinct (map j_id (g_jobs g)) \<longrightarrow>
      (\<exists>rank :: job_id \<Rightarrow> nat. \<forall>j \<in> set (g_jobs g). \<forall>d \<in> set (j_depends_on j). rank d < rank (j_id j)))"
proof (intro conjI impI)
  assume "group_validate E g = Some (Inr ()) \<and> distinct (map j_id (g_jobs g))"
  then have "acyclic (dep_edges g)" "distinct (map j_id (g_jobs g))" by (simp_all add: group_validate_ok)
  then show "\<exists>rank :: job_id \<Rightarrow> nat. \<forall>j \<in> set (g_jobs g). \<forall>d \<in> set (j_depends_on j). rank d < rank (j_id j)"
    by (intro exI [of _ "depth g"]) (simp add: dep_edge_of_job depth_decreases)
qed (fact group_validate_total group_validate_ok)+

definition sample_group :: job_group where
  "sample_group = group_then (group_add_job (group_new 9 0 ''w'') (job_new 1 0 ''q'' ''{}'')) (job_new 2 0 ''q'' ''{}'')"

lemma workflow_validation_witness:
  "group_validate sample_externs sample_group = Some (Inr ()) \<and>
   (\<exists>rank :: job_id \<Rightarrow> nat. \<forall>j \<in> set (g_jobs sample_group). \<forall>d \<in> set (j_depends_on j). rank d < rank (j_id j)) \<and>
   acyclic (dep_edges sample_group)"
proof -
  have v: "group_validate sample_externs sample_group = Some (Inr ())" by code_simp
  have d: "distinct (map j_id (g_jobs sample_group))" by code_simp
  from workflow_validation_decides [of sample_externs sample_group] v d show ?thesis by blast
qed

subsection \<open>Batches\<close>

text \<open>
  A batch is valid iff it has between 1 and 10,000 jobs, all within the dependency limits
  and for one queue. Splitting it into chunks keeps every job, once and in order; no chunk
  exceeds the chunk size, and every chunk of a valid batch is a valid batch.
\<close>

theorem batch_chunks_valid:
  "(batch_validate E b = Inr () \<longleftrightarrow>
      b_jobs b \<noteq> [] \<and> length (b_jobs b) \<le> 10000 \<and> (\<forall>j \<in> set (b_jobs b). within_limits j) \<and>
      (\<forall>j \<in> set (b_jobs b). \<forall>k \<in> set (b_jobs b). j_queue_name j = j_queue_name k)) \<and>
   concat (map b_jobs (into_chunks uuids b)) = b_jobs b \<and>
   (\<forall>c \<in> set (into_chunks uuids b). length (b_jobs c) \<le> chunk_size b) \<and>
   (batch_validate E b = Inr () \<longrightarrow> (\<forall>c \<in> set (into_chunks uuids b). batch_validate E c = Inr ()))"
proof (intro conjI impI ballI)
  show cat: "concat (map b_jobs (into_chunks uuids b)) = b_jobs b"
    unfolding into_chunks_jobs by (simp add: concat_chunks chunk_size_pos)
  fix c assume c: "c \<in> set (into_chunks uuids b)"
  then have m: "b_jobs c \<in> set (map b_jobs (into_chunks uuids b))" by simp
  show "length (b_jobs c) \<le> chunk_size b"
    using m unfolding into_chunks_jobs by (auto split: if_splits dest: chunks_length)
  assume v: "batch_validate E b = Inr ()"
  have sub: "set (b_jobs c) \<subseteq> set (b_jobs b)"
    using arg_cong [OF cat, of set] c by auto
  have ne: "b_jobs c \<noteq> []"
    using m v unfolding into_chunks_jobs by (auto simp: batch_validate_ok split: if_splits dest: chunks_length)
  have "length (b_jobs c) \<le> length (concat (map b_jobs (into_chunks uuids b)))"
    using c by (simp add: length_concat member_le_sum_list)
  with sub ne v show "batch_validate E c = Inr ()" unfolding batch_validate_ok cat by auto
qed (fact batch_validate_ok)

lemma batch_chunks_witness:
  "batch_validate sample_externs (batch_with_size (batch_with_jobs (batch_new 5 0 ''b'')
       [job_new 1 0 ''q'' ''{}'', job_new 2 0 ''q'' ''{}'', job_new 3 0 ''q'' ''{}'']) 2) = Inr () \<and>
   list_all (\<lambda>c. batch_validate sample_externs c = Inr ())
     (into_chunks (\<lambda>i. 7 + i) (batch_with_size (batch_with_jobs (batch_new 5 0 ''b'')
       [job_new 1 0 ''q'' ''{}'', job_new 2 0 ''q'' ''{}'', job_new 3 0 ''q'' ''{}'']) 2))"
proof -
  have v: "batch_validate sample_externs (batch_with_size (batch_with_jobs (batch_new 5 0 ''b'')
       [job_new 1 0 ''q'' ''{}'', job_new 2 0 ''q'' ''{}'', job_new 3 0 ''q'' ''{}'']) 2) = Inr ()"
    by code_simp
  then show ?thesis
    using batch_chunks_valid [of sample_externs "batch_with_size (batch_with_jobs (batch_new 5 0 ''b'')
       [job_new 1 0 ''q'' ''{}'', job_new 2 0 ''q'' ''{}'', job_new 3 0 ''q'' ''{}'']) 2" "\<lambda>i. 7 + i"]
    unfolding list_all_iff by blast
qed

subsection \<open>Recurring jobs\<close>

text \<open>
  When the schedule of a recurring job has an occurrence after its last run, the job is
  rescheduled strictly after that run, and missed occurrences are run at most once: after the
  rescheduled run no occurrence is left before now. A run in the future is exactly the next
  occurrence; a run in the past is not later than now.
\<close>

theorem next_cron_run_moves_on:
  assumes "cron_laws E" and "get_cron_schedule E j = Some (Inr c)"
    and "next_execution E c (cron_from j) = Some u"
  shows "\<exists>t. next_cron_run E j now = Some t \<and> cron_slot j < t \<and> cron_from j < t \<and>
    (now < u \<longrightarrow> t = u) \<and> (u \<le> now \<longrightarrow> u \<le> t \<and> t \<le> now) \<and>
    (\<forall>v. next_execution E c t = Some v \<longrightarrow> now < v)"
proof -
  have u: "cron_from j < u" "cron_slot j < u"
    using next_execution_after [OF assms(1,3)] cron_slot_le_from [of j] by simp_all
  show ?thesis
  proof (cases "now < u")
    case True
    then show ?thesis
      using assms u next_execution_after [OF assms(1)] by (fastforce simp: next_cron_run_def)
  next
    case False
    let ?t = "catch_up E c now CRON_CATCH_UP_SCAN_LIMIT u"
    have t: "u \<le> ?t" "?t \<le> now" "?t = now \<or> (\<forall>v. next_execution E c ?t = Some v \<longrightarrow> now < v)"
      using catch_up_spec [OF assms(1), of u now c CRON_CATCH_UP_SCAN_LIMIT] False by auto
    then have "\<forall>v. next_execution E c ?t = Some v \<longrightarrow> now < v"
      using next_execution_after [OF assms(1)] by metis
    with t u False assms show ?thesis by (auto simp: next_cron_run_def)
  qed
qed

lemma sample_cron_laws: "cron_laws sample_externs"
proof -
  have "(t div 60 + 1) * 60 = (s div 60 + 1) * 60" if "t \<le> s" "s < (t div 60 + 1) * 60" for s t :: int
  proof -
    have "t div 60 \<le> s div 60" using that(1) by (rule zdiv_mono1) simp
    moreover have "s div 60 < t div 60 + 1" using that(2) by (simp add: div_less_iff_less_mult)
    ultimately have "s div 60 = t div 60" by simp
    then show ?thesis by simp
  qed
  moreover have "t < (t div 60 + 1) * 60" for t :: int
    using pos_mod_bound [of 60 t] div_mult_mod_eq [of t 60] by (simp add: algebra_simps)
  ultimately show ?thesis by (auto simp: cron_laws_def sample_externs_def)
qed

lemma next_cron_run_witness:
  "\<exists>t. next_cron_run sample_externs ((job_new 1 0 ''q'' ''{}'')\<lparr>j_cron_schedule := Some ''* * * * * *'', j_recurring := True\<rparr>) 150 = Some t
     \<and> 60 \<le> t \<and> t \<le> 150"
proof -
  let ?j = "(job_new 1 0 ''q'' ''{}'')\<lparr>j_cron_schedule := Some ''* * * * * *'', j_recurring := True\<rparr>"
  let ?c = "\<lparr>cs_expression = ''* * * * * *'', cs_timezone = ''UTC'', cs_schedule = Some ''* * * * * *'', cs_tz = Some ''UTC''\<rparr>"
  have g: "get_cron_schedule sample_externs ?j = Some (Inr ?c)"
    by (simp add: get_cron_schedule_def cron_new_def cron_with_timezone_def job_new_def sample_externs_def)
  have n: "next_execution sample_externs ?c (cron_from ?j) = Some 60"
    by (simp add: next_execution_def cron_from_def cron_slot_def job_new_def sample_externs_def)
  from next_cron_run_moves_on [OF sample_cron_laws g n, of 150] show ?thesis by auto
qed

subsection \<open>Weighted priorities\<close>

text \<open>
  The weighted choice of a priority level is fair: it picks one of the candidate levels
  whenever there is one, its arithmetic never overflows 64 bits, and among the seeds of one
  period of the total weight every candidate level is chosen exactly as many times as its
  weight, so no level of positive weight is starved.
\<close>

theorem weighted_pick_fair:
  assumes "distinct cs"
  shows "(pick_weighted_priority cs w seed = None \<longleftrightarrow> cs = []) \<and>
    (pick_weighted_priority cs w seed = Some p \<longrightarrow> p \<in> set cs) \<and>
    total_of w cs < 2 ^ 64 \<and>
    (p \<in> set cs \<longrightarrow>
      card {s. s < total_of w cs \<and> pick_weighted_priority cs w s = Some p} = unat (get_weight w p))"
proof -
  have "{s. s < total_of w cs \<and> pick_weighted_priority cs w s = Some p} =
      {s. s < total_of w cs \<and> pick_point w cs s = Some p}"
    by (auto simp: pick_weighted_priority_def)
  then show ?thesis
    using assms pick_in_candidates [of cs w seed p] total_of_bound [of cs w] pick_point_share [of cs p w]
    by auto
qed

lemma weighted_pick_witness:
  "card {s. s < total_of weights_new [Normal, Critical] \<and>
      pick_weighted_priority [Normal, Critical] weights_new s = Some Critical} = unat (default_weight Critical)"
proof -
  have "distinct [Normal, Critical]" by simp
  from weighted_pick_fair [OF this, of weights_new 0 Critical] show ?thesis by simp
qed

end
