(* ===== verification/MemoryResults.thy ===== *)
theory MemoryResults
  imports TestQueueAdmin
begin

text \<open>
  The bounded in-memory result store, \<open>src/src/queue/memory_results.rs\<close>: entries by job id and
  an ordered index of eviction keys (expiry, then sequence number) kept in step. The
  \<open>BTreeMap\<close> is an association list sorted by key; the \<open>u64\<close> sequence number wraps, and the
  invariant counts the stores, so it speaks about the first \<open>2 ^ 64\<close> of them. The interface
  \<open>result_store\<close> states what the users of job results rely on, and both this store and the
  results of \<open>TestQueue\<close> provide it.
\<close>

subsection \<open>Model\<close>

type_synonym eviction_key = "time \<times> nat"

record mem_entry =
  me_value :: json
  me_expires_at :: "time option"
  me_key :: eviction_key

record mem_inner =
  mi_entries :: "(job_id \<times> mem_entry) list"
  mi_order :: "(eviction_key \<times> job_id) list"
  mi_next_seq :: nat

record mem_store =
  ms_capacity :: nat
  ms_inner :: mem_inner

definition DEFAULT_MEMORY_RESULT_CAPACITY :: nat where
  "DEFAULT_MEMORY_RESULT_CAPACITY = 10000"

definition mem_with_capacity :: "nat \<Rightarrow> mem_store" where
  "mem_with_capacity n =
     \<lparr>ms_capacity = n, ms_inner = \<lparr>mi_entries = [], mi_order = [], mi_next_seq = 0\<rparr>\<rparr>"

text \<open>\<open>BTreeMap::insert\<close>.\<close>

fun order_insert :: "'k::linorder \<Rightarrow> 'v \<Rightarrow> ('k \<times> 'v) list \<Rightarrow> ('k \<times> 'v) list" where
  "order_insert k v [] = [(k, v)]"
| "order_insert k v (x # xs) =
     (if k < fst x then (k, v) # x # xs
      else if k = fst x then (k, v) # xs
      else x # order_insert k v xs)"

definition inner_remove :: "job_id \<Rightarrow> mem_inner \<Rightarrow> mem_entry option \<times> mem_inner" where
  "inner_remove i m =
     (case map_of (mi_entries m) i of
        None \<Rightarrow> (None, m)
      | Some e \<Rightarrow>
          (Some e, m\<lparr>mi_entries := AList.delete i (mi_entries m),
                     mi_order := AList.delete (me_key e) (mi_order m)\<rparr>))"

text \<open>The loop of \<open>prune_expired\<close> over the front of the index.\<close>

fun prune_loop ::
  "externs \<Rightarrow> time \<Rightarrow> (eviction_key \<times> job_id) list \<Rightarrow> (job_id \<times> mem_entry) list \<Rightarrow> nat \<Rightarrow>
     (eviction_key \<times> job_id) list \<times> (job_id \<times> mem_entry) list \<times> nat" where
  "prune_loop E now [] entries removed = ([], entries, removed)"
| "prune_loop E now (x # order) entries removed =
     (if fst (fst x) = max_utc E \<or> now < fst (fst x) then (x # order, entries, removed)
      else prune_loop E now order (AList.delete (snd x) entries) (removed + 1))"

definition prune_expired :: "externs \<Rightarrow> time \<Rightarrow> mem_inner \<Rightarrow> nat \<times> mem_inner" where
  "prune_expired E now m =
     (case prune_loop E now (mi_order m) (mi_entries m) 0 of
        (order, entries, removed) \<Rightarrow> (removed, m\<lparr>mi_order := order, mi_entries := entries\<rparr>))"

fun evict_loop ::
  "nat \<Rightarrow> (eviction_key \<times> job_id) list \<Rightarrow> (job_id \<times> mem_entry) list \<Rightarrow>
     (eviction_key \<times> job_id) list \<times> (job_id \<times> mem_entry) list" where
  "evict_loop capacity [] entries = ([], entries)"
| "evict_loop capacity (x # order) entries =
     (if capacity \<le> length entries
      then evict_loop capacity order (AList.delete (snd x) entries)
      else (x # order, entries))"

definition store_at ::
  "externs \<Rightarrow> time \<Rightarrow> job_id \<Rightarrow> json \<Rightarrow> time option \<Rightarrow> mem_store \<Rightarrow> mem_store" where
  "store_at E now i v expires_at s =
     (if ms_capacity s = 0 then s
      else
        (let m1 = snd (inner_remove i (ms_inner s)) in
         if result_expired now expires_at then s\<lparr>ms_inner := m1\<rparr>
         else
           (let m2 = snd (prune_expired E now m1) in
            case evict_loop (ms_capacity s) (mi_order m2) (mi_entries m2) of
              (order, entries) \<Rightarrow>
                (let key = (unwrap_or expires_at (max_utc E), mi_next_seq m2) in
                 s\<lparr>ms_inner :=
                   \<lparr>mi_entries = AList.update i
                      \<lparr>me_value = v, me_expires_at = expires_at, me_key = key\<rparr> entries,
                    mi_order = order_insert key i order,
                    mi_next_seq = (mi_next_seq m2 + 1) mod 2 ^ 64\<rparr>\<rparr>))))"

definition get_at :: "time \<Rightarrow> job_id \<Rightarrow> mem_store \<Rightarrow> json option \<times> mem_store" where
  "get_at now i s =
     (case map_of (mi_entries (ms_inner s)) i of
        None \<Rightarrow> (None, s)
      | Some e \<Rightarrow>
          if result_expired now (me_expires_at e)
          then (None, s\<lparr>ms_inner := snd (inner_remove i (ms_inner s))\<rparr>)
          else (Some (me_value e), s))"

definition mem_remove :: "job_id \<Rightarrow> mem_store \<Rightarrow> bool \<times> mem_store" where
  "mem_remove i s =
     (case inner_remove i (ms_inner s) of (e, m) \<Rightarrow> (e \<noteq> None, s\<lparr>ms_inner := m\<rparr>))"

definition cleanup_expired :: "externs \<Rightarrow> time \<Rightarrow> mem_store \<Rightarrow> nat \<times> mem_store" where
  "cleanup_expired E now s =
     (case prune_expired E now (ms_inner s) of (n, m) \<Rightarrow> (n, s\<lparr>ms_inner := m\<rparr>))"

subsection \<open>Invariant\<close>

text \<open>
  The index lists exactly the keys of the entries, in order; a key is the expiry of its entry
  with a sequence number already used, and no expiry is past the range of times.
\<close>

definition linked :: "(eviction_key \<times> job_id) list \<Rightarrow> (job_id \<times> mem_entry) list \<Rightarrow> bool" where
  "linked order entries \<longleftrightarrow>
     distinct (map fst entries) \<and> sorted_wrt (<) (map fst order) \<and>
     (\<forall>k i. (k, i) \<in> set order \<longleftrightarrow> (\<exists>e. map_of entries i = Some e \<and> me_key e = k))"

definition keyed :: "externs \<Rightarrow> nat \<Rightarrow> (job_id \<times> mem_entry) list \<Rightarrow> bool" where
  "keyed E n entries \<longleftrightarrow>
     (\<forall>i e. map_of entries i = Some e \<longrightarrow>
        fst (me_key e) = unwrap_or (me_expires_at e) (max_utc E) \<and>
        unwrap_or (me_expires_at e) (max_utc E) \<le> max_utc E \<and> snd (me_key e) < n)"

definition mem_ok :: "externs \<Rightarrow> mem_store \<Rightarrow> bool" where
  "mem_ok E s \<longleftrightarrow>
     linked (mi_order (ms_inner s)) (mi_entries (ms_inner s)) \<and>
     keyed E (mi_next_seq (ms_inner s)) (mi_entries (ms_inner s)) \<and>
     length (mi_entries (ms_inner s)) \<le> ms_capacity s"

lemma linkedD:
  assumes "linked order entries"
  shows "(k, i) \<in> set order \<longleftrightarrow> (\<exists>e. map_of entries i = Some e \<and> me_key e = k)"
    and "distinct (map fst entries)" and "distinct (map fst order)"
  using assms strict_sorted_iff [of "map fst order"] unfolding linked_def by blast+

lemma linked_distinct_ids:
  assumes "linked order entries"
  shows "distinct (map snd order)"
proof -
  have "x = y" if "x \<in> set order" "y \<in> set order" "snd x = snd y" for x y
    using that linkedD(1) [OF assms] by (metis option.inject prod.collapse)
  then have "inj_on snd (set order)" by (rule inj_onI)
  moreover have "distinct order" using linkedD(3) [OF assms] by (simp add: distinct_map)
  ultimately show ?thesis by (simp add: distinct_map)
qed

lemma linked_ids:
  assumes "linked order entries"
  shows "set (map snd order) = set (map fst entries)"
proof -
  have "snd ` set order = {i. \<exists>k. (k, i) \<in> set order}" by force
  also have "\<dots> = dom (map_of entries)" unfolding linkedD(1) [OF assms] by blast
  finally show ?thesis by (simp add: dom_map_of_conv_image_fst)
qed

lemma linked_length:
  assumes "linked order entries"
  shows "length order = length entries"
proof -
  have "length (map snd order) = card (set (map snd order))"
    using linked_distinct_ids [OF assms] by (simp only: distinct_card)
  also have "\<dots> = length (map fst entries)"
    using linked_ids [OF assms] assms distinct_card [of "map fst entries"] by (simp add: linked_def)
  finally show ?thesis by simp
qed

lemma linked_pop:
  assumes "linked (x # order) entries"
  shows "linked order (AList.delete (snd x) entries)"
proof -
  have other: "i \<noteq> snd x" if "(k, i) \<in> set order" for k i
    using linked_distinct_ids [OF assms] that by (auto simp: image_iff)
  have "(k, i) \<in> set order \<longleftrightarrow> (\<exists>e. map_of (AList.delete (snd x) entries) i = Some e \<and> me_key e = k)" for k i
    using linkedD(1) [OF assms, of k i] linkedD(1) [OF assms, of "fst x" "snd x"] other [of k i]
    by (cases "i = snd x") auto
  then show ?thesis using assms by (simp add: linked_def)
qed

lemma linked_delete:
  assumes "linked order entries" and "map_of entries i = Some e"
  shows "linked (AList.delete (me_key e) order) (AList.delete i entries)"
proof -
  have mem: "(k, j) \<in> set (AList.delete (me_key e) order) \<longleftrightarrow> (k, j) \<in> set order \<and> k \<noteq> me_key e" for k j
    by (auto simp: AList.delete_eq)
  have same: "j = i" if "map_of entries j = Some e'" "me_key e' = me_key e" for j e'
    using that assms(2) linkedD(1,3) [OF assms(1)] by (metis map_of_is_SomeI option.inject)
  have "(k, j) \<in> set (AList.delete (me_key e) order) \<longleftrightarrow>
      (\<exists>e. map_of (AList.delete i entries) j = Some e \<and> me_key e = k)" for k j
  proof (cases "j = i")
    case True
    then show ?thesis unfolding mem linkedD(1) [OF assms(1)] using assms(2) by simp
  next
    case False
    then have "map_of (AList.delete i entries) j = map_of entries j" by simp
    with False show ?thesis unfolding mem linkedD(1) [OF assms(1)] using same by metis
  qed
  moreover have "sorted_wrt (<) (map fst (AList.delete (me_key e) order))"
    using assms(1) by (simp add: linked_def AList.delete_eq sorted_wrt_map sorted_wrt_filter)
  ultimately show ?thesis using linkedD(2) [OF assms(1)] by (simp add: linked_def)
qed

lemma linked_empty: "linked [] entries \<Longrightarrow> entries = []"
  using linked_length [of "[]" entries] by simp

lemma keyed_delete: "keyed E n entries \<Longrightarrow> keyed E n (AList.delete i entries)"
  unfolding keyed_def map_of_delete by (metis fun_upd_apply option.distinct(1))

lemma keyed_mono: "keyed E n entries \<Longrightarrow> n \<le> m \<Longrightarrow> keyed E m entries"
  unfolding keyed_def by (meson less_le_trans)

lemma inner_remove_spec:
  assumes "linked (mi_order m) (mi_entries m)"
  shows "linked (mi_order (snd (inner_remove i m))) (mi_entries (snd (inner_remove i m)))"
    and "map_of (mi_entries (snd (inner_remove i m))) = (map_of (mi_entries m))(i := None)"
    and "mi_next_seq (snd (inner_remove i m)) = mi_next_seq m"
    and "length (mi_entries (snd (inner_remove i m))) \<le> length (mi_entries m)"
  using assms linked_delete
  by (auto simp: inner_remove_def fun_upd_idem length_delete_le split: option.split)

text \<open>Pruning removes exactly the entries that have expired.\<close>

definition prunable :: "externs \<Rightarrow> time \<Rightarrow> mem_entry \<Rightarrow> bool" where
  "prunable E now e \<longleftrightarrow> fst (me_key e) \<noteq> max_utc E \<and> fst (me_key e) \<le> now"

lemma linked_later_keys:
  assumes "linked (x # order) entries" and "map_of entries i = Some e"
  shows "fst (fst x) \<le> fst (me_key e)"
proof -
  have "(me_key e, i) \<in> set (x # order)" using linkedD(1) [OF assms(1)] assms(2) by blast
  moreover have "\<forall>k \<in> set (map fst order). fst x < k" using assms(1) by (simp add: linked_def)
  ultimately have "fst x \<le> me_key e" by force
  then show ?thesis by (auto simp: less_eq_prod_def)
qed

lemma linked_head:
  assumes "linked (x # order) entries"
  obtains e where "map_of entries (snd x) = Some e" "me_key e = fst x"
  using linkedD(1) [OF assms, of "fst x" "snd x"] by auto

lemma prune_loop_spec:
  assumes "linked order entries" and "keyed E n entries"
    and "prune_loop E now order entries r = (order', entries', r')"
  shows "linked order' entries'"
    and "map_of entries' i = (if is_some_and (map_of entries i) (prunable E now) then None
      else map_of entries i)"
    and "length entries' + r' = length entries + r"
  using assms
proof (induction order arbitrary: entries r)
  case Nil
  {
    case 1
    then show ?case by simp
  next
    case 2
    then show ?case using linked_empty [of entries] by simp
  next
    case 3
    then show ?case by simp
  }
next
  case (Cons x order)
  note lk = linked_pop
  {
    case 1
    with Cons.IH(1) [OF lk [OF 1(1)] keyed_delete [OF 1(2)]] show ?case by (auto split: if_splits)
  next
    case 2
    obtain e where e: "map_of entries (snd x) = Some e" "me_key e = fst x"
      using linked_head [OF 2(1)] by blast
    show ?case
    proof (cases "fst (fst x) = max_utc E \<or> now < fst (fst x)")
      case True
      have "\<not> prunable E now e'" if "map_of entries i = Some e'" for e'
        using linked_later_keys [OF 2(1) that] 2(2) that True by (fastforce simp: prunable_def keyed_def)
      with 2(3) True show ?thesis by (auto simp: is_some_and_iff)
    next
      case False
      with Cons.IH(2) [OF lk [OF 2(1)] keyed_delete [OF 2(2)]] 2(3) e show ?thesis
        by (auto simp: prunable_def)
    qed
  next
    case 3
    obtain e where e: "map_of entries (snd x) = Some e"
      using linked_head [OF 3(1)] by blast
    have "Suc (length (AList.delete (snd x) entries)) = length entries"
      using linked_length [OF 3(1)] linked_length [OF lk [OF 3(1)]] by simp
    with Cons.IH(3) [OF lk [OF 3(1)] keyed_delete [OF 3(2)]] 3(3) show ?case
      by (auto split: if_splits)
  }
qed

text \<open>Eviction makes room, drops entries from the front of the order only, and only if it must.\<close>

lemma evict_loop_spec:
  assumes "linked order entries" and "0 < capacity"
    and "evict_loop capacity order entries = (order', entries')"
  shows "linked order' entries'" and "length entries' < capacity"
    and "map_of entries' i = Some e \<Longrightarrow> map_of entries i = Some e"
    and "length entries < capacity \<Longrightarrow> entries' = entries"
  using assms
proof (induction order arbitrary: entries)
  case Nil
  {
    case 1
    then show ?case by simp
  next
    case 2
    then show ?case using linked_empty [of entries] by simp
  next
    case 3
    then show ?case by simp
  next
    case 4
    then show ?case by simp
  }
next
  case (Cons x order)
  note lk = linked_pop
  {
    case 1
    with Cons.IH(1) [OF lk [OF 1(1)] 1(2)] show ?case by (auto split: if_splits)
  next
    case 2
    with Cons.IH(2) [OF lk [OF 2(1)] 2(2)] show ?case by (auto split: if_splits)
  next
    case 3
    with Cons.IH(3) [OF _ lk [OF 3(2)] 3(3)] show ?case by (auto split: if_splits)
  next
    case 4
    then show ?case by simp
  }
qed

lemma evict_loop_front:
  assumes "linked order entries" and "0 < capacity"
    and "evict_loop capacity order entries = (order', entries')"
    and "map_of entries i = Some e" and "map_of entries' i = None" and "map_of entries' k = Some e'"
  shows "me_key e < me_key e'"
  using assms
proof (induction order arbitrary: entries)
  case Nil
  then show ?case by simp
next
  case (Cons x order)
  show ?case
  proof (cases "capacity \<le> length entries")
    case False
    with Cons.prems show ?thesis by simp
  next
    case True
    then have r: "evict_loop capacity order (AList.delete (snd x) entries) = (order', entries')"
      using Cons.prems(3) by simp
    have lk: "linked order (AList.delete (snd x) entries)" by (rule linked_pop [OF Cons.prems(1)])
    have e': "map_of (AList.delete (snd x) entries) k = Some e'"
      by (rule evict_loop_spec(3) [OF lk Cons.prems(2) r Cons.prems(6)])
    show ?thesis
    proof (cases "i = snd x")
      case True
      then have "me_key e = fst x" using linked_head [OF Cons.prems(1)] Cons.prems(4) by auto
      moreover have "(me_key e', k) \<in> set order" using linkedD(1) [OF lk] e' by blast
      moreover have "\<forall>k \<in> set (map fst order). fst x < k" using Cons.prems(1) by (simp add: linked_def)
      ultimately show ?thesis by force
    next
      case False
      with Cons.IH [OF lk Cons.prems(2) r _ Cons.prems(5,6)] Cons.prems(4) show ?thesis by simp
    qed
  qed
qed

lemma set_order_insert:
  "k \<notin> set (map fst xs) \<Longrightarrow> set (order_insert k v xs) = insert (k, v) (set xs)"
  by (induction xs) auto

lemma sorted_order_insert:
  "sorted_wrt (<) (map fst xs) \<Longrightarrow> k \<notin> set (map fst xs) \<Longrightarrow>
     sorted_wrt (<) (map fst (order_insert k v xs))"
proof (induction xs)
  case (Cons x xs)
  then have "set (map fst (order_insert k v xs)) = insert k (set (map fst xs))"
    using set_order_insert [of k xs v] by force
  with Cons show ?case by auto
qed simp

lemma linked_insert:
  assumes "linked order entries" and "map_of entries i = None" and "me_key e \<notin> set (map fst order)"
  shows "linked (order_insert (me_key e) i order) (AList.update i e entries)"
proof -
  have "(k, j) \<in> set (order_insert (me_key e) i order) \<longleftrightarrow>
      (\<exists>e'. map_of (AList.update i e entries) j = Some e' \<and> me_key e' = k)" for k j
    unfolding set_order_insert [OF assms(3)] using linkedD(1) [OF assms(1), of k j] assms(2)
    by (cases "j = i") auto
  with assms show ?thesis
    by (auto simp: linked_def distinct_update intro: sorted_order_insert)
qed

subsection \<open>Operations keep the invariant\<close>

definition representable :: "externs \<Rightarrow> time option \<Rightarrow> bool" where
  "representable E x \<longleftrightarrow> (case x of None \<Rightarrow> True | Some t \<Rightarrow> t \<le> max_utc E)"

lemma mem_okD:
  "mem_ok E s \<Longrightarrow> linked (mi_order (ms_inner s)) (mi_entries (ms_inner s))"
  "mem_ok E s \<Longrightarrow> keyed E (mi_next_seq (ms_inner s)) (mi_entries (ms_inner s))"
  "mem_ok E s \<Longrightarrow> length (mi_entries (ms_inner s)) \<le> ms_capacity s"
  by (simp_all add: mem_ok_def)

lemma inner_remove_keyed:
  assumes "linked (mi_order m) (mi_entries m)" and "keyed E n (mi_entries m)"
  shows "keyed E n (mi_entries (snd (inner_remove i m)))"
  using assms(2) keyed_delete by (auto simp: inner_remove_def split: option.split)

lemma mem_ok_remove:
  assumes "mem_ok E s"
  shows "mem_ok E (s\<lparr>ms_inner := snd (inner_remove i (ms_inner s))\<rparr>)"
  using inner_remove_spec [OF mem_okD(1) [OF assms], of i]
    inner_remove_keyed [OF mem_okD(1,2) [OF assms], of i] mem_okD(3) [OF assms]
  by (simp add: mem_ok_def)

lemma keyed_sub:
  "keyed E n entries \<Longrightarrow> (\<And>i e. map_of entries' i = Some e \<Longrightarrow> map_of entries i = Some e) \<Longrightarrow>
     keyed E n entries'"
  unfolding keyed_def by blast

lemma prune_expired_spec:
  assumes "linked (mi_order m) (mi_entries m)" and "keyed E n (mi_entries m)"
  shows "linked (mi_order (snd (prune_expired E now m))) (mi_entries (snd (prune_expired E now m)))"
    and "map_of (mi_entries (snd (prune_expired E now m))) i =
      (if is_some_and (map_of (mi_entries m) i) (prunable E now) then None else map_of (mi_entries m) i)"
    and "length (mi_entries (snd (prune_expired E now m))) + fst (prune_expired E now m) =
      length (mi_entries m)"
    and "mi_next_seq (snd (prune_expired E now m)) = mi_next_seq m"
proof -
  obtain order entries r where
    p: "prune_loop E now (mi_order m) (mi_entries m) 0 = (order, entries, r)" by (metis prod_cases3)
  note spec = prune_loop_spec [OF assms p]
  show "linked (mi_order (snd (prune_expired E now m))) (mi_entries (snd (prune_expired E now m)))"
    "map_of (mi_entries (snd (prune_expired E now m))) i =
      (if is_some_and (map_of (mi_entries m) i) (prunable E now) then None else map_of (mi_entries m) i)"
    "length (mi_entries (snd (prune_expired E now m))) + fst (prune_expired E now m) =
      length (mi_entries m)"
    "mi_next_seq (snd (prune_expired E now m)) = mi_next_seq m"
    using spec by (simp_all add: prune_expired_def p)
qed

lemma mem_ok_cleanup:
  assumes "mem_ok E s"
  shows "mem_ok E (snd (cleanup_expired E now s))"
proof -
  let ?m = "snd (prune_expired E now (ms_inner s))"
  note spec = prune_expired_spec [OF mem_okD(1,2) [OF assms], where now = now]
  have "keyed E (mi_next_seq ?m) (mi_entries ?m)"
    unfolding spec(4)
    by (rule keyed_sub [OF mem_okD(2) [OF assms]]) (simp add: spec(2) split: if_splits)
  moreover have "length (mi_entries ?m) \<le> ms_capacity s" using spec(3) mem_okD(3) [OF assms] by simp
  ultimately show ?thesis using spec(1) by (simp add: cleanup_expired_def mem_ok_def split_beta)
qed

text \<open>What a store does to a store that has room for at least one result.\<close>

lemma store_at_cases:
  assumes ok: "mem_ok E s" and cap: "0 < ms_capacity s" and live: "\<not> result_expired now x"
  obtains order entries where
    "linked order entries" "length entries < ms_capacity s" "map_of entries i = None"
    "\<And>k e. map_of entries k = Some e \<Longrightarrow> map_of (mi_entries (ms_inner s)) k = Some e \<and> \<not> prunable E now e"
    "\<And>k e k' e'. map_of (mi_entries (ms_inner s)) k = Some e \<Longrightarrow> k \<noteq> i \<Longrightarrow> \<not> prunable E now e \<Longrightarrow>
       map_of entries k = None \<Longrightarrow> map_of entries k' = Some e' \<Longrightarrow> me_key e < me_key e'"
    "\<And>k e. length (mi_entries (ms_inner s)) < ms_capacity s \<Longrightarrow>
       map_of (mi_entries (ms_inner s)) k = Some e \<Longrightarrow> k \<noteq> i \<Longrightarrow> \<not> prunable E now e \<Longrightarrow>
       map_of entries k = Some e"
    "store_at E now i v x s =
       (let key = (unwrap_or x (max_utc E), mi_next_seq (ms_inner s)) in
        s\<lparr>ms_inner := \<lparr>mi_entries = AList.update i \<lparr>me_value = v, me_expires_at = x, me_key = key\<rparr> entries,
            mi_order = order_insert key i order,
            mi_next_seq = (mi_next_seq (ms_inner s) + 1) mod 2 ^ 64\<rparr>\<rparr>)"
proof -
  let ?m = "ms_inner s" and ?m1 = "snd (inner_remove i (ms_inner s))"
  let ?m2 = "snd (prune_expired E now ?m1)"
  note rm = inner_remove_spec [OF mem_okD(1) [OF ok], of i]
  note kd = inner_remove_keyed [OF mem_okD(1,2) [OF ok], of i]
  note pr = prune_expired_spec [OF rm(1) kd, where now = now]
  obtain order entries where
    ev: "evict_loop (ms_capacity s) (mi_order ?m2) (mi_entries ?m2) = (order, entries)" by fastforce
  note spec = evict_loop_spec [OF pr(1) cap ev]
  have m2: "map_of (mi_entries ?m2) k = Some e \<longleftrightarrow>
      map_of (mi_entries ?m) k = Some e \<and> k \<noteq> i \<and> \<not> prunable E now e" for k e
    unfolding pr(2) rm(2) by (auto simp: is_some_and_iff)
  show thesis
  proof (rule that [OF spec(1,2)])
    show "map_of entries i = None"
    proof (rule ccontr)
      assume "map_of entries i \<noteq> None"
      then obtain e where "map_of entries i = Some e" by blast
      from spec(3) [OF this] m2 show False by blast
    qed
    show "map_of (mi_entries ?m) k = Some e \<and> \<not> prunable E now e" if "map_of entries k = Some e" for k e
      using spec(3) [OF that] m2 by blast
    show "me_key e < me_key e'" if "map_of (mi_entries ?m) k = Some e" "k \<noteq> i" "\<not> prunable E now e"
      "map_of entries k = None" "map_of entries k' = Some e'" for k e k' e'
      using evict_loop_front [OF pr(1) cap ev _ that(4,5)] m2 that(1-3) by blast
    show "map_of entries k = Some e" if "length (mi_entries ?m) < ms_capacity s"
      "map_of (mi_entries ?m) k = Some e" "k \<noteq> i" "\<not> prunable E now e" for k e
      using spec(4) pr(3) rm(4) that m2 by simp
    show "store_at E now i v x s =
       (let key = (unwrap_or x (max_utc E), mi_next_seq (ms_inner s)) in
        s\<lparr>ms_inner := \<lparr>mi_entries = AList.update i \<lparr>me_value = v, me_expires_at = x, me_key = key\<rparr> entries,
            mi_order = order_insert key i order,
            mi_next_seq = (mi_next_seq (ms_inner s) + 1) mod 2 ^ 64\<rparr>\<rparr>)"
      using cap live pr(4) rm(3) by (simp add: store_at_def ev Let_def)
  qed
qed

lemma length_update_le: "length (AList.update k v al) \<le> Suc (length al)"
  by (induction al) auto

lemma mem_ok_store:
  assumes ok: "mem_ok E s" and seq: "mi_next_seq (ms_inner s) + 1 < 2 ^ 64" and x: "representable E x"
  shows "mem_ok E (store_at E now i v x s)"
proof (cases "0 < ms_capacity s \<and> \<not> result_expired now x")
  case False
  then show ?thesis using ok mem_ok_remove [OF ok] by (auto simp: store_at_def Let_def)
next
  case True
  then have cap: "0 < ms_capacity s" and live: "\<not> result_expired now x" by simp_all
  show ?thesis
  proof (rule store_at_cases [OF ok cap live, of i v])
    fix order entries
    let ?n = "mi_next_seq (ms_inner s)"
    let ?e = "\<lparr>me_value = v, me_expires_at = x, me_key = (unwrap_or x (max_utc E), ?n)\<rparr>"
    assume lk: "linked order entries" and len: "length entries < ms_capacity s"
      and new: "map_of entries i = None"
      and sub: "\<And>k e. map_of entries k = Some e \<Longrightarrow>
        map_of (mi_entries (ms_inner s)) k = Some e \<and> \<not> prunable E now e"
      and s': "store_at E now i v x s =
       (let key = (unwrap_or x (max_utc E), mi_next_seq (ms_inner s)) in
        s\<lparr>ms_inner := \<lparr>mi_entries = AList.update i \<lparr>me_value = v, me_expires_at = x, me_key = key\<rparr> entries,
            mi_order = order_insert key i order,
            mi_next_seq = (mi_next_seq (ms_inner s) + 1) mod 2 ^ 64\<rparr>\<rparr>)"
    have k: "keyed E ?n entries" using keyed_sub [OF mem_okD(2) [OF ok]] sub by blast
    have "me_key ?e \<notin> set (map fst order)"
    proof
      assume "me_key ?e \<in> set (map fst order)"
      then obtain j where "(me_key ?e, j) \<in> set order" by auto
      then obtain e where "map_of entries j = Some e" "me_key e = me_key ?e"
        using linkedD(1) [OF lk] by blast
      with k show False by (fastforce simp: keyed_def)
    qed
    from linked_insert [OF lk new this]
    have "linked (order_insert (me_key ?e) i order) (AList.update i ?e entries)" .
    moreover have "keyed E (?n + 1) (AList.update i ?e entries)"
      using keyed_mono [OF k, of "?n + 1"] x
      by (auto simp: keyed_def representable_def split: option.splits)
    moreover have "length (AList.update i ?e entries) \<le> ms_capacity s"
      using len length_update_le [of i ?e entries] by simp
    ultimately show ?thesis using seq by (simp add: s' mem_ok_def Let_def)
  qed
qed

subsection \<open>The interface of a result store\<close>

text \<open>
  What the users of job results rely on: \<open>accepts\<close> says when a store takes the result of a job,
  \<open>put\<close> and \<open>drop\<close> write and delete one, \<open>look\<close> reads one at a given time.
\<close>

locale result_store =
  fixes accepts :: "'s \<Rightarrow> job_id \<Rightarrow> bool"
    and put :: "time \<Rightarrow> job_id \<Rightarrow> json \<Rightarrow> time option \<Rightarrow> 's \<Rightarrow> 's"
    and look :: "time \<Rightarrow> job_id \<Rightarrow> 's \<Rightarrow> json option"
    and drop :: "job_id \<Rightarrow> 's \<Rightarrow> 's"
  assumes look_put: "accepts s i \<Longrightarrow> \<not> result_expired now x \<Longrightarrow>
      look t i (put now i v x s) = (if result_expired t x then None else Some v)"
    and accepts_drop: "accepts s i \<Longrightarrow> accepts (drop i s) i"
    and look_drop: "accepts s i \<Longrightarrow> look t k (drop i s) = (if k = i then None else look t k s)"
begin

lemma put_after_drop:
  "accepts s i \<Longrightarrow> \<not> result_expired now x \<Longrightarrow>
     look t i (put now i v x (drop i s)) = (if result_expired t x then None else Some v)"
  by (simp add: look_put accepts_drop)

lemma never_expires: "accepts s i \<Longrightarrow> look t i (put now i v None s) = Some v"
  by (simp add: look_put result_expired_def)

lemma expires_for_good:
  "accepts s i \<Longrightarrow> \<not> result_expired now x \<Longrightarrow> look t i (put now i v x s) = None \<Longrightarrow> t \<le> t' \<Longrightarrow>
     look t' i (put now i v x s) = None"
  by (auto simp: look_put result_expired_def is_some_and_iff split: if_splits)

end

text \<open>The memory store, less its housekeeping on reads.\<close>

definition mem_accepts :: "externs \<Rightarrow> mem_store \<Rightarrow> job_id \<Rightarrow> bool" where
  "mem_accepts E s i \<longleftrightarrow> mem_ok E s \<and> 0 < ms_capacity s"

lemma get_at_store:
  assumes "mem_ok E s" and "0 < ms_capacity s" and "\<not> result_expired now x"
  shows "fst (get_at t i (store_at E now i v x s)) = (if result_expired t x then None else Some v)"
proof (rule store_at_cases [OF assms, of i v])
  fix order entries
  assume "store_at E now i v x s =
       (let key = (unwrap_or x (max_utc E), mi_next_seq (ms_inner s)) in
        s\<lparr>ms_inner := \<lparr>mi_entries = AList.update i \<lparr>me_value = v, me_expires_at = x, me_key = key\<rparr> entries,
            mi_order = order_insert key i order,
            mi_next_seq = (mi_next_seq (ms_inner s) + 1) mod 2 ^ 64\<rparr>\<rparr>)"
  then show ?thesis by (simp add: get_at_def Let_def)
qed

interpretation mem: result_store "mem_accepts E" "store_at E" "\<lambda>t i s. fst (get_at t i s)"
  "\<lambda>i s. snd (mem_remove i s)" for E
proof
  fix s i now x t v
  assume "mem_accepts E s i" "\<not> result_expired now x"
  then show "fst (get_at t i (store_at E now i v x s)) = (if result_expired t x then None else Some v)"
    by (simp add: mem_accepts_def get_at_store)
next
  fix s i t k
  assume "mem_accepts E s i"
  then have ok: "mem_ok E s" and cap: "0 < ms_capacity s" by (simp_all add: mem_accepts_def)
  show "mem_accepts E (snd (mem_remove i s)) i"
    using mem_ok_remove [OF ok, of i] cap by (simp add: mem_accepts_def mem_remove_def split_beta)
  show "fst (get_at t k (snd (mem_remove i s))) = (if k = i then None else fst (get_at t k s))"
    using inner_remove_spec(2) [OF mem_okD(1) [OF ok], of i]
    by (simp add: mem_remove_def get_at_def split_beta split: option.split)
qed

interpretation tq: result_store "\<lambda>st i. get_stored st i \<noteq> None"
  "\<lambda>now i v x st. snd (store_job_result E i v x st)"
  "\<lambda>t i st. the (ok_of (get_job_result i (clock_set_time t st)))"
  "\<lambda>i st. snd (delete_job_result i st)" for E
  by unfold_locales
    (auto simp: store_job_result_def get_job_result_def delete_job_result_def clock_set_time_def
      split: option.split)

subsection \<open>Properties\<close>

text \<open>
  The memory result store stays consistent and bounded: its ordered index and its entries
  list the same results, and it never holds more than its capacity, after any store (of the
  first 2 to the 64), read, removal or cleanup.
\<close>

theorem memory_store_bounded:
  assumes "mem_ok E s"
  shows "(mi_next_seq (ms_inner s) + 1 < 2 ^ 64 \<and> representable E x \<longrightarrow> mem_ok E (store_at E now i v x s)) \<and>
    mem_ok E (snd (get_at now i s)) \<and> mem_ok E (snd (mem_remove i s)) \<and>
    mem_ok E (snd (cleanup_expired E now s)) \<and>
    length (mi_entries (ms_inner s)) \<le> ms_capacity s"
  using mem_ok_store [OF assms] mem_ok_remove [OF assms, of i] mem_ok_cleanup [OF assms, of now]
    mem_okD(3) [OF assms] assms
  by (auto simp: get_at_def mem_remove_def split_beta split: option.split)

lemma mem_ok_new: "mem_ok E (mem_with_capacity n)"
  by (simp add: mem_ok_def mem_with_capacity_def linked_def keyed_def)

definition sample_memory :: mem_store where
  "sample_memory = store_at sample_externs 0 1 ''a'' (Some 5) (mem_with_capacity 1)"

lemma sample_memory_ok: "mem_ok sample_externs sample_memory"
  unfolding sample_memory_def
  by (rule mem_ok_store [OF mem_ok_new])
    (simp_all add: mem_with_capacity_def representable_def sample_externs_def)

lemma memory_store_bounded_witness:
  "mem_ok sample_externs (store_at sample_externs 0 2 ''b'' None sample_memory) \<and>
   length (mi_entries (ms_inner (store_at sample_externs 0 2 ''b'' None sample_memory))) = 1"
proof -
  have "mi_next_seq (ms_inner sample_memory) + 1 < 2 ^ 64 \<and> representable sample_externs None"
    by (simp add: sample_memory_def store_at_def mem_with_capacity_def inner_remove_def
        prune_expired_def result_expired_def representable_def Let_def)
  with memory_store_bounded [OF sample_memory_ok, where x = None and now = 0 and i = 2 and v = "''b''"]
  have "mem_ok sample_externs (store_at sample_externs 0 2 ''b'' None sample_memory)" by blast
  moreover have "length (mi_entries (ms_inner (store_at sample_externs 0 2 ''b'' None sample_memory))) = 1"
    by (simp add: sample_memory_def store_at_def mem_with_capacity_def inner_remove_def
        prune_expired_def result_expired_def sample_externs_def Let_def)
  ultimately show ?thesis by blast
qed

text \<open>
  A stored result is read back until it expires and never after: storing a result that has
  not expired makes a read return it exactly at the times before its expiry, however full the
  store was, and the store evicts only results that expire before every other result it keeps.
\<close>

theorem memory_store_get:
  assumes "mem_ok E s" and "0 < ms_capacity s" and "\<not> result_expired now x"
  shows "fst (get_at t i (store_at E now i v x s)) = (if result_expired t x then None else Some v) \<and>
    (\<forall>k e k' e'. k \<noteq> i \<and> map_of (mi_entries (ms_inner s)) k = Some e \<and> \<not> prunable E now e \<and>
       map_of (mi_entries (ms_inner (store_at E now i v x s))) k = None \<and> k' \<noteq> i \<and>
       map_of (mi_entries (ms_inner (store_at E now i v x s))) k' = Some e' \<longrightarrow>
       me_key e < me_key e')"
proof (rule store_at_cases [OF assms, of i v])
  fix order entries
  assume front: "\<And>k e k' e'. map_of (mi_entries (ms_inner s)) k = Some e \<Longrightarrow> k \<noteq> i \<Longrightarrow>
       \<not> prunable E now e \<Longrightarrow> map_of entries k = None \<Longrightarrow> map_of entries k' = Some e' \<Longrightarrow> me_key e < me_key e'"
    and s': "store_at E now i v x s =
       (let key = (unwrap_or x (max_utc E), mi_next_seq (ms_inner s)) in
        s\<lparr>ms_inner := \<lparr>mi_entries = AList.update i \<lparr>me_value = v, me_expires_at = x, me_key = key\<rparr> entries,
            mi_order = order_insert key i order,
            mi_next_seq = (mi_next_seq (ms_inner s) + 1) mod 2 ^ 64\<rparr>\<rparr>)"
  have other: "map_of (mi_entries (ms_inner (store_at E now i v x s))) k = map_of entries k"
    if "k \<noteq> i" for k using that by (simp add: s' Let_def)
  have "me_key e < me_key e'"
    if "k \<noteq> i" "map_of (mi_entries (ms_inner s)) k = Some e" "\<not> prunable E now e"
      "map_of (mi_entries (ms_inner (store_at E now i v x s))) k = None" "k' \<noteq> i"
      "map_of (mi_entries (ms_inner (store_at E now i v x s))) k' = Some e'" for k e k' e'
    using front that other by metis
  with mem.look_put [of E s i now x t v] assms show ?thesis by (auto simp: mem_accepts_def)
qed

lemma memory_store_get_witness:
  "fst (get_at 4 2 (store_at sample_externs 0 2 ''b'' (Some 9) sample_memory)) = Some ''b'' \<and>
   fst (get_at 9 2 (store_at sample_externs 0 2 ''b'' (Some 9) sample_memory)) = None"
proof -
  have "0 < ms_capacity sample_memory" "\<not> result_expired 0 (Some 9)"
    by (simp_all add: sample_memory_def store_at_def mem_with_capacity_def inner_remove_def
        prune_expired_def result_expired_def Let_def)
  from memory_store_get [OF sample_memory_ok this, where i = 2 and v = "''b''"]
  show ?thesis by (simp add: result_expired_def)
qed

text \<open>
  The results of the in-memory queue keep the same contract: a result stored for an existing
  job is read back until it expires and never after, and deleting it removes it and no other.
\<close>

theorem queue_result_round_trip:
  assumes "get_stored st i \<noteq> None" and "\<not> result_expired now x"
  shows "get_job_result i (clock_set_time t (snd (store_job_result E i v x st))) =
      Inr (if result_expired t x then None else Some v) \<and>
    get_job_result k (clock_set_time t (snd (delete_job_result i st))) =
      (if k = i then Inr None else get_job_result k (clock_set_time t st))"
proof -
  have inr: "get_job_result a st' = Inr (the (ok_of (get_job_result a st')))" for a st'
    by (simp add: get_job_result_def split: option.split)
  show ?thesis
    using tq.look_put [OF assms, of t E v] tq.look_drop [OF assms(1), of k t] inr
    by metis
qed

lemma queue_result_witness:
  "get_job_result 1 (clock_set_time 8 (snd (store_job_result sample_externs 1 ''r'' (Some 9)
     (insert_job (storage_new 0) (job_new 1 0 ''q'' ''{}''))))) = Inr (Some ''r'')"
proof -
  have "get_stored (insert_job (storage_new 0) (job_new 1 0 ''q'' ''{}'')) 1 \<noteq> None"
    "\<not> result_expired 0 (Some 9)"
    by (simp_all add: insert_job_def storage_new_def job_new_def result_expired_def)
  from queue_result_round_trip [OF this] show ?thesis by (simp add: result_expired_def)
qed

end
