(* ===== verification/TokenBucket.thy ===== *)
theory TokenBucket
  imports RateLimit Complex_Main
begin

text \<open>
  The token bucket behind rate limiting: \<open>TokenBucket\<close> and \<open>RateLimiter\<close> of
  \<open>src/src/rate_limit.rs\<close>. Each operation first reads the monotonic clock, an argument here, and
  refills the bucket. The \<open>f64\<close> token counts are rationals; a poisoned lock is a flag.
\<close>

subsection \<open>The bucket\<close>

record token_bucket =
  tb_tokens :: rat
  tb_capacity :: rat
  tb_refill_rate :: rat
  tb_last_refill :: time

definition bucket_new :: "time \<Rightarrow> rat \<Rightarrow> rat \<Rightarrow> token_bucket" where
  "bucket_new now capacity refill_rate =
     \<lparr>tb_tokens = capacity, tb_capacity = capacity, tb_refill_rate = refill_rate, tb_last_refill = now\<rparr>"

text \<open>\<open>now.duration_since(earlier)\<close>, zero if the clock has not advanced, in seconds.\<close>

definition elapsed_secs :: "time \<Rightarrow> time \<Rightarrow> rat" where
  "elapsed_secs now earlier = of_int (max (now - earlier) 0) / 10 ^ 9"

definition bucket_refill :: "time \<Rightarrow> token_bucket \<Rightarrow> token_bucket" where
  "bucket_refill now b =
     (let tokens_to_add = tb_refill_rate b * elapsed_secs now (tb_last_refill b) * 1000 in
      b\<lparr>tb_tokens := min (tb_tokens b + tokens_to_add) (tb_capacity b), tb_last_refill := now\<rparr>)"

definition try_consume :: "time \<Rightarrow> rat \<Rightarrow> token_bucket \<Rightarrow> bool \<times> token_bucket" where
  "try_consume now tokens b =
     (let b' = bucket_refill now b in
      if tokens \<le> tb_tokens b' then (True, b'\<lparr>tb_tokens := tb_tokens b' - tokens\<rparr>) else (False, b'))"

definition bucket_refund :: "time \<Rightarrow> rat \<Rightarrow> token_bucket \<Rightarrow> token_bucket" where
  "bucket_refund now tokens b =
     (let b' = bucket_refill now b in b'\<lparr>tb_tokens := min (tb_tokens b' + tokens) (tb_capacity b')\<rparr>)"

definition bucket_available :: "time \<Rightarrow> token_bucket \<Rightarrow> rat \<times> token_bucket" where
  "bucket_available now b = (let b' = bucket_refill now b in (tb_tokens b', b'))"

text \<open>The milliseconds are cast to \<open>u64\<close>, which saturates.\<close>

definition time_until_token :: "time \<Rightarrow> token_bucket \<Rightarrow> nat \<times> token_bucket" where
  "time_until_token now b =
     (let b' = bucket_refill now b in
      if 1 \<le> tb_tokens b' then (0, b')
      else (min (nat \<lceil>(1 - tb_tokens b') / tb_refill_rate b'\<rceil>) (2 ^ 64 - 1), b'))"

subsection \<open>The limiter\<close>

record rate_limiter =
  lim_bucket :: token_bucket
  lim_poisoned :: bool
  lim_rate_limit :: rate_limit

definition refill_rate_per_ms :: "rate_limit \<Rightarrow> rat" where
  "refill_rate_per_ms r = of_nat (rl_rate r) / of_nat (rl_per r div 10 ^ 6)"

definition limiter_new :: "time \<Rightarrow> rate_limit \<Rightarrow> rate_limiter" where
  "limiter_new now r =
     \<lparr>lim_bucket = bucket_new now (of_nat (rl_burst_limit r)) (refill_rate_per_ms r),
      lim_poisoned = False, lim_rate_limit = r\<rparr>"

text \<open>A poisoned lock lets the operation pass.\<close>

definition limiter_check :: "time \<Rightarrow> rate_limiter \<Rightarrow> bool \<times> rate_limiter" where
  "limiter_check now l =
     (if lim_poisoned l then (True, l)
      else case try_consume now 1 (lim_bucket l) of (ok, b) \<Rightarrow> (ok, l\<lparr>lim_bucket := b\<rparr>))"

definition limiter_refund :: "time \<Rightarrow> rate_limiter \<Rightarrow> rate_limiter" where
  "limiter_refund now l =
     (if lim_poisoned l then l else l\<lparr>lim_bucket := bucket_refund now 1 (lim_bucket l)\<rparr>)"

definition limiter_available :: "time \<Rightarrow> rate_limiter \<Rightarrow> rat \<times> rate_limiter" where
  "limiter_available now l =
     (if lim_poisoned l then (0, l)
      else case bucket_available now (lim_bucket l) of (t, b) \<Rightarrow> (t, l\<lparr>lim_bucket := b\<rparr>))"

text \<open>
  The loop of \<open>acquire\<close>. A sleep lasts the requested milliseconds and \<open>late n\<close> nanoseconds more;
  the result is the time at which the token was taken. \<open>None\<close> is a loop still running when the
  fuel is spent.
\<close>

fun acquire :: "nat \<Rightarrow> (nat \<Rightarrow> nat) \<Rightarrow> time \<Rightarrow> rate_limiter \<Rightarrow> (time res \<times> rate_limiter) option" where
  "acquire 0 late now l = None"
| "acquire (Suc n) late now l =
     (if lim_poisoned l then Some (Inl (RateLimitError ''Rate limiter lock poisoned''), l)
      else
        (case try_consume now 1 (lim_bucket l) of (ok, b) \<Rightarrow>
           if ok then Some (Inr now, l\<lparr>lim_bucket := b\<rparr>)
           else
             (case time_until_token now b of (wait_ms, b') \<Rightarrow>
                acquire n late (now + int wait_ms * 1000000 + int (late n)) (l\<lparr>lim_bucket := b'\<rparr>))))"

subsection \<open>Invariant\<close>

definition bucket_ok :: "token_bucket \<Rightarrow> bool" where
  "bucket_ok b \<longleftrightarrow> 0 \<le> tb_tokens b \<and> tb_tokens b \<le> tb_capacity b \<and> 0 < tb_refill_rate b"

lemma elapsed_secs_nonneg [simp]: "0 \<le> elapsed_secs now earlier"
  by (simp add: elapsed_secs_def)

lemma refill_fields [simp]:
  "tb_capacity (bucket_refill now b) = tb_capacity b"
  "tb_refill_rate (bucket_refill now b) = tb_refill_rate b"
  "tb_last_refill (bucket_refill now b) = now"
  by (simp_all add: bucket_refill_def Let_def)

lemma bucket_ok_refill [simp, intro]: "bucket_ok b \<Longrightarrow> bucket_ok (bucket_refill now b)"
  by (auto simp: bucket_ok_def bucket_refill_def Let_def)

lemma bucket_ok_consume: "bucket_ok b \<Longrightarrow> bucket_ok (snd (try_consume now 1 b))"
  using bucket_ok_refill [of b now] by (auto simp: try_consume_def Let_def bucket_ok_def)

lemma bucket_ok_refund: "bucket_ok b \<Longrightarrow> bucket_ok (bucket_refund now 1 b)"
  using bucket_ok_refill [of b now] by (auto simp: bucket_refund_def Let_def bucket_ok_def)

lemma bucket_ok_new: "0 \<le> c \<Longrightarrow> 0 < r \<Longrightarrow> bucket_ok (bucket_new now c r)"
  by (simp add: bucket_ok_def bucket_new_def)

subsection \<open>How much a limiter admits\<close>

text \<open>The calls made on a limiter: a check, or the refund of an operation that was not done.\<close>

datatype limiter_op = OpCheck | OpRefund

fun run_ops :: "(time \<times> limiter_op) list \<Rightarrow> rate_limiter \<Rightarrow> bool list \<times> rate_limiter" where
  "run_ops [] l = ([], l)"
| "run_ops ((now, OpCheck) # ops) l =
     (case limiter_check now l of (ok, l1) \<Rightarrow> case run_ops ops l1 of (oks, l2) \<Rightarrow> (ok # oks, l2))"
| "run_ops ((now, OpRefund) # ops) l = run_ops ops (limiter_refund now l)"

definition admitted :: "(time \<times> limiter_op) list \<Rightarrow> rate_limiter \<Rightarrow> nat" where
  "admitted ops l = length (filter (\<lambda>ok. ok) (fst (run_ops ops l)))"

definition refunds :: "(time \<times> limiter_op) list \<Rightarrow> nat" where
  "refunds ops = length (filter (\<lambda>(t, op). op = OpRefund) ops)"

lemma admitted_simps [simp]:
  "admitted [] l = 0"
  "admitted ((now, OpCheck) # ops) l =
     (if fst (limiter_check now l) then 1 else 0) + admitted ops (snd (limiter_check now l))"
  "admitted ((now, OpRefund) # ops) l = admitted ops (limiter_refund now l)"
  by (simp_all add: admitted_def split: prod.split)

lemma refunds_simps [simp]:
  "refunds [] = 0" "refunds ((t, OpCheck) # ops) = refunds ops" "refunds ((t, OpRefund) # ops) = Suc (refunds ops)"
  by (simp_all add: refunds_def)

text \<open>The tokens a stretch of time adds.\<close>

definition refill_over :: "token_bucket \<Rightarrow> time \<Rightarrow> time \<Rightarrow> rat" where
  "refill_over b t u = tb_refill_rate b * of_int (u - t) / 10 ^ 6"

lemma refill_le:
  "tb_last_refill b \<le> now \<Longrightarrow>
     tb_tokens (bucket_refill now b) \<le> tb_tokens b + refill_over b (tb_last_refill b) now"
  by (simp add: bucket_refill_def elapsed_secs_def refill_over_def Let_def)

lemma admitted_bound:
  assumes "bucket_ok (lim_bucket l)" and "\<not> lim_poisoned l"
    and "sorted (tb_last_refill (lim_bucket l) # map fst ops @ [end_time])"
  shows "of_nat (admitted ops l) \<le> tb_tokens (lim_bucket l) + of_nat (refunds ops) +
    refill_over (lim_bucket l) (tb_last_refill (lim_bucket l)) end_time"
  using assms
proof (induction ops arbitrary: l)
  case Nil
  then show ?case by (simp add: bucket_ok_def refill_over_def)
next
  case (Cons p ops)
  obtain t op where p: "p = (t, op)" by (cases p)
  let ?b = "lim_bucket l" and ?b1 = "bucket_refill t (lim_bucket l)"
  have t: "tb_last_refill ?b \<le> t" "sorted (t # map fst ops @ [end_time])"
    using Cons.prems(3) by (auto simp: p)
  note step = refill_le [OF t(1)]
  have glue: "refill_over ?b (tb_last_refill ?b) t + refill_over ?b t end_time =
      refill_over ?b (tb_last_refill ?b) end_time"
    by (simp add: refill_over_def field_simps)
  have same: "refill_over b' u v = refill_over ?b u v" if "tb_refill_rate b' = tb_refill_rate ?b" for b' u v
    using that by (simp add: refill_over_def)
  show ?case
  proof (cases op)
    case OpCheck
    let ?r = "try_consume t 1 ?b" and ?l = "snd (limiter_check t l)"
    have l: "lim_bucket ?l = snd ?r" "\<not> lim_poisoned ?l" "fst (limiter_check t l) = fst ?r"
      using Cons.prems(2) by (simp_all add: limiter_check_def split: prod.split)
    have b: "tb_last_refill (snd ?r) = t" "tb_refill_rate (snd ?r) = tb_refill_rate ?b"
      "tb_tokens (snd ?r) + (if fst ?r then 1 else 0) = tb_tokens ?b1"
      by (auto simp: try_consume_def Let_def)
    have "of_nat (admitted ops ?l) \<le> tb_tokens (snd ?r) + of_nat (refunds ops) +
        refill_over (snd ?r) t end_time"
      using Cons.IH [of ?l] bucket_ok_consume [OF Cons.prems(1), of t] l b t(2) by simp
    with step glue same [OF b(2)] b(3) l(3) show ?thesis
      by (auto simp: p OpCheck split: if_splits)
  next
    case OpRefund
    let ?l = "limiter_refund t l" and ?r = "bucket_refund t 1 ?b"
    have l: "lim_bucket ?l = ?r" "\<not> lim_poisoned ?l"
      using Cons.prems(2) by (simp_all add: limiter_refund_def)
    have b: "tb_last_refill ?r = t" "tb_refill_rate ?r = tb_refill_rate ?b" "tb_tokens ?r \<le> tb_tokens ?b1 + 1"
      by (auto simp: bucket_refund_def Let_def)
    have "of_nat (admitted ops ?l) \<le> tb_tokens ?r + of_nat (refunds ops) + refill_over ?r t end_time"
      using Cons.IH [of ?l] bucket_ok_refund [OF Cons.prems(1), of t] l b t(2) by simp
    with step glue same [OF b(2)] b(3) show ?thesis by (simp add: p OpRefund)
  qed
qed

lemma refill_twice: "bucket_refill t (bucket_refill t b) = bucket_refill t b"
  by (simp add: bucket_refill_def elapsed_secs_def Let_def)

lemma refill_tokens_le: "tb_tokens (bucket_refill t b) \<le> tb_capacity b"
  by (simp add: bucket_refill_def Let_def)

lemma admitted_refill:
  "\<not> lim_poisoned l \<Longrightarrow>
     admitted ((t, op) # ops) (l\<lparr>lim_bucket := bucket_refill t (lim_bucket l)\<rparr>) = admitted ((t, op) # ops) l"
  by (cases op)
    (simp_all add: limiter_check_def limiter_refund_def try_consume_def bucket_refund_def refill_twice
      Let_def)

lemma admitted_window:
  assumes ok: "bucket_ok (lim_bucket l)" "\<not> lim_poisoned l"
    and sorted: "sorted (map fst ((t, op) # ops) @ [u])"
  shows "of_nat (admitted ((t, op) # ops) l) \<le> tb_capacity (lim_bucket l) +
    of_nat (refunds ((t, op) # ops)) + refill_over (lim_bucket l) t u"
proof -
  let ?l = "l\<lparr>lim_bucket := bucket_refill t (lim_bucket l)\<rparr>"
  have "of_nat (admitted ((t, op) # ops) ?l) \<le> tb_tokens (lim_bucket ?l) + of_nat (refunds ((t, op) # ops)) +
      refill_over (lim_bucket ?l) t u"
    using admitted_bound [of ?l "(t, op) # ops" u] ok sorted by simp
  with refill_tokens_le [of t "lim_bucket l"] show ?thesis
    by (simp only: admitted_refill [OF ok(2)]) (simp add: refill_over_def)
qed

text \<open>A limiter keeps its settings and its invariant.\<close>

definition limiter_ok :: "rate_limit \<Rightarrow> rate_limiter \<Rightarrow> bool" where
  "limiter_ok r l \<longleftrightarrow> bucket_ok (lim_bucket l) \<and> \<not> lim_poisoned l \<and>
     tb_capacity (lim_bucket l) = of_nat (rl_burst_limit r) \<and>
     tb_refill_rate (lim_bucket l) = refill_rate_per_ms r"

lemma limiter_ok_check: "limiter_ok r l \<Longrightarrow> limiter_ok r (snd (limiter_check now l))"
  using bucket_ok_consume [of "lim_bucket l" now]
  by (auto simp: limiter_ok_def limiter_check_def try_consume_def Let_def split: if_splits)

lemma limiter_ok_refund: "limiter_ok r l \<Longrightarrow> limiter_ok r (limiter_refund now l)"
  using bucket_ok_refund [of "lim_bucket l" now]
  by (auto simp: limiter_ok_def limiter_refund_def bucket_refund_def Let_def)

lemma limiter_ok_run: "limiter_ok r l \<Longrightarrow> limiter_ok r (snd (run_ops ops l))"
proof (induction ops l rule: run_ops.induct)
  case (2 now ops l)
  then show ?case using limiter_ok_check [of r l now] by (simp split: prod.split) (metis snd_conv)
next
  case (3 now ops l)
  then show ?case using limiter_ok_refund by simp
qed simp

text \<open>The windows the constructors of a rate limit give.\<close>

definition standard_window :: "rate_limit \<Rightarrow> bool" where
  "standard_window r \<longleftrightarrow> rl_per r = seconds 1 \<or> rl_per r = seconds 60 \<or> rl_per r = seconds 3600"

lemma limiter_ok_new:
  assumes "rate_limit_ok r" and "standard_window r"
  shows "limiter_ok r (limiter_new now r)"
  using assms by (auto simp: limiter_ok_def limiter_new_def bucket_ok_def bucket_new_def rate_limit_ok_def
      refill_rate_per_ms_def standard_window_def)

lemma refill_rate_standard:
  "standard_window r \<Longrightarrow> refill_rate_per_ms r = of_nat (rl_rate r) * 10 ^ 6 / of_nat (rl_per r)"
  by (auto simp: refill_rate_per_ms_def standard_window_def)


definition sample_limit :: rate_limit where
  "sample_limit = \<lparr>rl_rate = 2, rl_per = seconds 1, rl_burst_limit = 2\<rparr>"

lemma sample_limit_ok: "rate_limit_ok sample_limit" "standard_window sample_limit"
  by (simp_all add: sample_limit_def rate_limit_ok_def standard_window_def)


subsection \<open>Waiting for a token\<close>

lemma refill_after_wait:
  assumes ok: "bucket_ok b" and cap: "1 \<le> tb_capacity b" and few: "tb_tokens b < 1"
    and rate: "1 / tb_refill_rate b \<le> 2 ^ 64 - 1"
    and later: "tb_last_refill b + int (fst (time_until_token (tb_last_refill b) b)) * 1000000 \<le> now"
  shows "1 \<le> tb_tokens (bucket_refill now b)"
proof -
  let ?t = "tb_last_refill b" and ?need = "(1 - tb_tokens b) / tb_refill_rate b"
  have same: "bucket_refill ?t b = b"
    using ok by (simp add: bucket_refill_def elapsed_secs_def bucket_ok_def Let_def)
  have pos: "0 < tb_refill_rate b" "0 \<le> tb_tokens b" using ok by (auto simp: bucket_ok_def)
  have "?need \<le> 1 / tb_refill_rate b" using pos by (simp add: divide_right_mono)
  then have "?need \<le> 2 ^ 64 - 1" using rate by simp
  then have "\<lceil>?need\<rceil> \<le> 2 ^ 64 - 1" by (simp add: ceiling_le_iff)
  then have "nat \<lceil>?need\<rceil> \<le> nat (2 ^ 64 - 1)" by (rule nat_mono)
  then have "nat \<lceil>?need\<rceil> \<le> 2 ^ 64 - 1" by (simp del: nat_ceiling_le_eq)
  then have "min (nat \<lceil>?need\<rceil>) (2 ^ 64 - 1) = nat \<lceil>?need\<rceil>" by (rule min_absorb1)
  then have w: "fst (time_until_token ?t b) = nat \<lceil>?need\<rceil>"
    using few by (simp add: time_until_token_def same Let_def)
  have need0: "0 \<le> ?need" using few pos by simp
  have le: "of_int \<lceil>?need\<rceil> * 1000000 \<le> (of_int (now - ?t) :: rat)"
  proof -
    have "0 \<le> \<lceil>?need\<rceil>" using need0 ceiling_mono [of 0 ?need] by simp
    then have "\<lceil>?need\<rceil> * 1000000 \<le> now - ?t" using later unfolding w by linarith
    then have "(of_int (\<lceil>?need\<rceil> * 1000000) :: rat) \<le> of_int (now - ?t)" by (simp only: of_int_le_iff)
    then show ?thesis by simp
  qed
  have "?need \<le> of_int \<lceil>?need\<rceil>" by (rule le_of_int_ceiling)
  also have "of_int \<lceil>?need\<rceil> \<le> (of_int (now - ?t) / 1000000 :: rat)"
    using le by (simp only: pos_le_divide_eq zero_less_numeral)
  finally have "?need \<le> of_int (now - ?t) / 1000000" .
  then have "1 - tb_tokens b \<le> tb_refill_rate b * (of_int (now - ?t) / 1000000)"
    using pos(1) by (simp add: field_simps)
  moreover have "?t \<le> now" using later by linarith
  ultimately show ?thesis using cap
    by (simp add: bucket_refill_def elapsed_secs_def Let_def)
qed

lemma limiter_ok_rate:
  assumes "limiter_ok r l" and "rate_limit_ok r" and "standard_window r"
  shows "1 / tb_refill_rate (lim_bucket l) \<le> 2 ^ 64 - 1" "1 \<le> tb_capacity (lim_bucket l)"
proof -
  have n: "1 \<le> (of_nat (rl_rate r) :: rat)" using assms(2) by (simp add: rate_limit_ok_def)
  have "of_nat (rl_per r div 10 ^ 6) / of_nat (rl_rate r) \<le> (of_nat (rl_per r div 10 ^ 6) :: rat)"
    using n by (simp add: divide_le_eq mult_le_cancel_left1)
  also have "\<dots> \<le> 2 ^ 64 - 1" using assms(3) by (auto simp: standard_window_def)
  finally show "1 / tb_refill_rate (lim_bucket l) \<le> 2 ^ 64 - 1"
    using assms(1) by (simp add: limiter_ok_def refill_rate_per_ms_def)
  show "1 \<le> tb_capacity (lim_bucket l)"
    using assms(1,2) by (simp add: limiter_ok_def rate_limit_ok_def)
qed

text \<open>
  Acquiring from a rate limiter that nobody else uses always returns: at once if a token is
  there, and otherwise after a single sleep, which is no longer than the time of one token
  rounded up to a millisecond (and however late the sleep ends).
\<close>

theorem acquire_returns:
  assumes "rate_limit_ok r" and "standard_window r"
    and "l = snd (run_ops before (limiter_new start r))"
  shows "\<exists>t l'. acquire (Suc (Suc n)) late now l = Some (Inr t, l') \<and>
    (t = now \<or> t \<le> now + \<lceil>1 / refill_rate_per_ms r\<rceil> * 1000000 + int (late (Suc n)))"
proof -
  let ?b = "bucket_refill now (lim_bucket l)"
  have ok: "limiter_ok r l" unfolding assms(3) by (rule limiter_ok_run [OF limiter_ok_new [OF assms(1,2)]])
  then have b: "bucket_ok ?b" "\<not> lim_poisoned l" "tb_last_refill ?b = now"
    "tb_refill_rate ?b = refill_rate_per_ms r" by (auto simp: limiter_ok_def)
  note rate = limiter_ok_rate [OF ok assms(1,2)]
  show ?thesis
  proof (cases "1 \<le> tb_tokens ?b")
    case True
    then show ?thesis using b(2) by (simp add: try_consume_def Let_def)
  next
    case False
    obtain w where w: "time_until_token now ?b = (w, ?b)"
      using that by (cases "1 \<le> tb_tokens ?b") (simp_all add: time_until_token_def refill_twice Let_def)
    let ?t = "now + int w * 1000000 + int (late (Suc n))"
    have "1 \<le> tb_tokens (bucket_refill ?t ?b)"
      using False b rate w by (intro refill_after_wait) simp_all
    then have "\<exists>l'. acquire (Suc (Suc n)) late now l = Some (Inr ?t, l')"
      using False b(2) w by (simp add: try_consume_def Let_def)
    moreover have "int w \<le> \<lceil>1 / refill_rate_per_ms r\<rceil>"
    proof -
      have pos: "0 < refill_rate_per_ms r" "0 \<le> tb_tokens ?b" using b by (auto simp: bucket_ok_def)
      then have "(1 - tb_tokens ?b) / refill_rate_per_ms r \<le> 1 / refill_rate_per_ms r"
        by (simp add: divide_right_mono)
      then have "\<lceil>(1 - tb_tokens ?b) / refill_rate_per_ms r\<rceil> \<le> \<lceil>1 / refill_rate_per_ms r\<rceil>"
        by (rule ceiling_mono)
      moreover have "w \<le> nat \<lceil>(1 - tb_tokens ?b) / refill_rate_per_ms r\<rceil>"
        using False b(4) w by (simp add: time_until_token_def refill_twice Let_def)
      moreover have "0 \<le> \<lceil>1 / refill_rate_per_ms r\<rceil>" 
        using pos(1) ceiling_mono [of 0 "1 / refill_rate_per_ms r"] by simp
      ultimately show ?thesis by linarith
    qed
    ultimately show ?thesis by auto
  qed
qed

lemma acquire_returns_witness:
  "\<exists>t l'. acquire 2 (\<lambda>_. 0) 0 (snd (run_ops [(0, OpCheck), (0, OpCheck)] (limiter_new 0 sample_limit))) =
     Some (Inr t, l') \<and> (t = 0 \<or> t \<le> 500 * 1000000)"
  using acquire_returns [OF sample_limit_ok refl, of 0 "\<lambda>_. 0" 0 "[(0, OpCheck), (0, OpCheck)]" 0]
  by (simp add: numeral_2_eq_2 [symmetric] refill_rate_per_ms_def sample_limit_def del: acquire.simps)

end
