(* ===== verification/StatsCollector.thy ===== *)
theory StatsCollector
  imports TestQueueData
begin

text \<open>
  The in-memory statistics collector: \<open>InMemoryStatsCollector\<close> of \<open>src/src/stats.rs\<close> and
  \<open>PriorityStats\<close> of \<open>src/src/priority.rs\<close>. Job events are kept in a bounded buffer ordered by
  time; statistics are computed over the events of a time window. \<open>Utc::now()\<close> is an argument,
  an \<open>f64\<close> or \<open>f32\<close> is a rational, and a poisoned lock is read as the code does, by ignoring it.
\<close>

subsection \<open>Events\<close>

datatype job_event_type = EvStarted | EvCompleted | EvFailed | EvRetried | EvDead | EvTimedOut

record job_event =
  ev_job_id :: job_id
  ev_queue_name :: string
  ev_event_type :: job_event_type
  ev_priority :: job_priority
  ev_processing_time_ms :: "nat option"
  ev_error_message :: "string option"
  ev_timestamp :: time

definition job_event_new :: "time \<Rightarrow> job_id \<Rightarrow> string \<Rightarrow> job_event_type \<Rightarrow> job_priority \<Rightarrow> job_event" where
  "job_event_new now i q t p =
     \<lparr>ev_job_id = i, ev_queue_name = q, ev_event_type = t, ev_priority = p,
      ev_processing_time_ms = None, ev_error_message = None, ev_timestamp = now\<rparr>"

record stats_config =
  sc_max_events :: nat
  sc_max_event_age_secs :: nat
  sc_collect_timing :: bool

definition stats_config_default :: stats_config where
  "stats_config_default = \<lparr>sc_max_events = 100000, sc_max_event_age_secs = 3600, sc_collect_timing = True\<rparr>"

definition cutoff_before :: "externs \<Rightarrow> time \<Rightarrow> duration \<Rightarrow> time" where
  "cutoff_before E now age =
     unwrap_or
       (Option.bind (if int age \<le> max_delta E then Some (int age) else None)
         (\<lambda>d. checked_add_signed E now (- d)))
       (min_utc E)"

subsection \<open>Priority statistics\<close>

record priority_stats =
  ps_job_counts :: "(job_priority \<times> nat) list"
  ps_avg_processing_times :: "(job_priority \<times> rat) list"
  ps_recent_throughput :: "(job_priority \<times> nat) list"
  ps_priority_distribution :: "(job_priority \<times> rat) list"

definition priority_stats_new :: priority_stats where
  "priority_stats_new =
     \<lparr>ps_job_counts = [], ps_avg_processing_times = [], ps_recent_throughput = [],
      ps_priority_distribution = []\<rparr>"

definition calculate_distribution :: "priority_stats \<Rightarrow> priority_stats" where
  "calculate_distribution s =
     (let total = sum_list (values_of (ps_job_counts s)) in
      if 0 < total then
        s\<lparr>ps_priority_distribution :=
            fold (\<lambda>(p, n). AList.update p (of_nat n / of_nat total * 100)) (ps_job_counts s)
              (ps_priority_distribution s)\<rparr>
      else s)"

definition most_active_priority :: "priority_stats \<Rightarrow> job_priority option" where
  "most_active_priority s = map_option fst (max_by_key snd (ps_job_counts s))"

definition check_starvation :: "priority_stats \<Rightarrow> rat \<Rightarrow> job_priority list" where
  "check_starvation s threshold =
     filter (\<lambda>p. is_some_and (map_of (ps_priority_distribution s) p) (\<lambda>x. x < threshold)) [Background, Low]"

subsection \<open>The accumulator\<close>

record priority_totals =
  pt_events :: nat
  pt_timed_events :: nat
  pt_processing_time_ms :: nat

record stats_acc =
  sa_events :: nat
  sa_started :: nat
  sa_completed :: nat
  sa_failed :: nat
  sa_retried :: nat
  sa_dead :: nat
  sa_timed_out :: nat
  sa_timed_events :: nat
  sa_processing_time_ms :: nat
  sa_min_processing_time_ms :: "nat option"
  sa_max_processing_time_ms :: nat
  sa_priorities :: "(job_priority \<times> priority_totals) list"
  sa_last_event :: "(job_id \<times> job_event_type) list"

definition stats_acc_default :: stats_acc where
  "stats_acc_default =
     \<lparr>sa_events = 0, sa_started = 0, sa_completed = 0, sa_failed = 0, sa_retried = 0, sa_dead = 0,
      sa_timed_out = 0, sa_timed_events = 0, sa_processing_time_ms = 0,
      sa_min_processing_time_ms = None, sa_max_processing_time_ms = 0, sa_priorities = [],
      sa_last_event = []\<rparr>"

fun count_event :: "job_event_type \<Rightarrow> stats_acc \<Rightarrow> stats_acc" where
  "count_event EvStarted a = a\<lparr>sa_started := sa_started a + 1\<rparr>"
| "count_event EvCompleted a = a\<lparr>sa_completed := sa_completed a + 1\<rparr>"
| "count_event EvFailed a = a\<lparr>sa_failed := sa_failed a + 1\<rparr>"
| "count_event EvRetried a = a\<lparr>sa_retried := sa_retried a + 1\<rparr>"
| "count_event EvDead a = a\<lparr>sa_dead := sa_dead a + 1\<rparr>"
| "count_event EvTimedOut a = a\<lparr>sa_timed_out := sa_timed_out a + 1\<rparr>"

definition add_timing :: "job_event \<Rightarrow> stats_acc \<Rightarrow> stats_acc" where
  "add_timing ev a =
     (let old = unwrap_or (map_of (sa_priorities a) (ev_priority ev))
            \<lparr>pt_events = 0, pt_timed_events = 0, pt_processing_time_ms = 0\<rparr>;
          p = old\<lparr>pt_events := pt_events old + 1\<rparr> in
      case ev_processing_time_ms ev of
        None \<Rightarrow> a\<lparr>sa_priorities := AList.update (ev_priority ev) p (sa_priorities a)\<rparr>
      | Some t \<Rightarrow>
          a\<lparr>sa_priorities := AList.update (ev_priority ev)
              (p\<lparr>pt_timed_events := pt_timed_events p + 1,
                 pt_processing_time_ms := pt_processing_time_ms p + t\<rparr>) (sa_priorities a),
            sa_timed_events := sa_timed_events a + 1,
            sa_processing_time_ms := sa_processing_time_ms a + t,
            sa_min_processing_time_ms :=
              Some (case sa_min_processing_time_ms a of None \<Rightarrow> t | Some m \<Rightarrow> min m t),
            sa_max_processing_time_ms := max (sa_max_processing_time_ms a) t\<rparr>)"

text \<open>A retry right after the time-out of the same job is the same run, counted already.\<close>

definition stats_add :: "job_event \<Rightarrow> stats_acc \<Rightarrow> stats_acc" where
  "stats_add ev a =
     (let previous = map_of (sa_last_event a) (ev_job_id ev);
          a1 = a\<lparr>sa_last_event := AList.update (ev_job_id ev) (ev_event_type ev) (sa_last_event a)\<rparr> in
      if ev_event_type ev = EvRetried \<and> previous = Some EvTimedOut then a1
      else add_timing ev (count_event (ev_event_type ev) (a1\<lparr>sa_events := sa_events a1 + 1\<rparr>)))"

record window_statistics = job_statistics +
  js_priority_stats :: "priority_stats option"

definition priority_stats_of :: "(job_priority \<times> priority_totals) list \<Rightarrow> priority_stats" where
  "priority_stats_of ps =
     calculate_distribution (fold
       (\<lambda>(p, t) s.
          let s1 = s\<lparr>ps_job_counts := AList.update p (pt_events t) (ps_job_counts s),
                     ps_recent_throughput := AList.update p (pt_events t) (ps_recent_throughput s)\<rparr> in
          if 0 < pt_timed_events t then
            s1\<lparr>ps_avg_processing_times := AList.update p
                 (of_nat (pt_processing_time_ms t) / of_nat (pt_timed_events t)) (ps_avg_processing_times s1)\<rparr>
          else s1)
       ps priority_stats_new)"

definition stats_finish :: "time \<Rightarrow> duration \<Rightarrow> stats_acc \<Rightarrow> window_statistics" where
  "stats_finish now window a =
     (if sa_events a = 0 then
        \<lparr>js_total_processed = 0, js_completed = 0, js_failed = 0, js_dead = 0, js_timed_out = 0,
         js_running = 0, js_avg_processing_time_ms = 0, js_min_processing_time_ms = 0,
         js_max_processing_time_ms = 0, js_throughput_per_minute = 0, js_error_rate = 0,
         js_time_window = window, js_calculated_at = now, js_priority_stats = None\<rparr>
      else
        (let total_processed = sa_events a - sa_started a;
             secs = window div 10 ^ 9 in
         \<lparr>js_total_processed = total_processed, js_completed = sa_completed a,
          js_failed = sa_failed a, js_dead = sa_dead a, js_timed_out = sa_timed_out a,
          js_running = length (filter (\<lambda>t. t = EvStarted) (values_of (sa_last_event a))),
          js_avg_processing_time_ms =
            (if 0 < sa_timed_events a
             then of_nat (sa_processing_time_ms a) / of_nat (sa_timed_events a) else 0),
          js_min_processing_time_ms = unwrap_or (sa_min_processing_time_ms a) 0,
          js_max_processing_time_ms = sa_max_processing_time_ms a,
          js_throughput_per_minute =
            (if 0 < secs then of_nat total_processed * 60 / of_nat secs else 0),
          js_error_rate =
            (if 0 < total_processed
             then of_nat (sa_failed a + sa_dead a + sa_timed_out a + sa_retried a) / of_nat total_processed
             else 0),
          js_time_window = window, js_calculated_at = now,
          js_priority_stats = Some (priority_stats_of (sa_priorities a))\<rparr>))"

subsection \<open>The buffer\<close>

text \<open>\<open>partition_point\<close> on a sequence that the predicate splits in two.\<close>

definition partition_point :: "('a \<Rightarrow> bool) \<Rightarrow> 'a list \<Rightarrow> nat" where
  "partition_point P xs = length (takeWhile P xs)"

definition insert_event :: "job_event \<Rightarrow> job_event list \<Rightarrow> job_event list" where
  "insert_event ev evs =
     (if evs = [] \<or> ev_timestamp (last evs) \<le> ev_timestamp ev then evs @ [ev]
      else
        (let k = partition_point (\<lambda>e. ev_timestamp e \<le> ev_timestamp ev) evs in
         take k evs @ [ev] @ drop k evs))"

definition retention_cutoff :: "externs \<Rightarrow> time \<Rightarrow> stats_config \<Rightarrow> time" where
  "retention_cutoff E now cfg = cutoff_before E now (sc_max_event_age_secs cfg * 10 ^ 9)"

definition record_event ::
  "externs \<Rightarrow> time \<Rightarrow> stats_config \<Rightarrow> job_event \<Rightarrow> job_event list \<Rightarrow> job_event list" where
  "record_event E now cfg ev evs =
     (let ev1 = (if sc_collect_timing cfg then ev else ev\<lparr>ev_processing_time_ms := None\<rparr>);
          cutoff = retention_cutoff E now cfg in
      if ev_timestamp ev1 < cutoff then evs
      else
        (let evs1 = dropWhile (\<lambda>e. ev_timestamp e < cutoff) (insert_event ev1 evs) in
         drop (length evs1 - sc_max_events cfg) evs1))"

definition cleanup_old_events ::
  "externs \<Rightarrow> time \<Rightarrow> stats_config \<Rightarrow> job_event list \<Rightarrow> nat \<times> job_event list" where
  "cleanup_old_events E now cfg evs =
     (let kept = filter (\<lambda>e. retention_cutoff E now cfg \<le> ev_timestamp e) evs;
          kept' = (if sc_max_events cfg < length kept then drop (length kept - sc_max_events cfg) kept else kept) in
      (length evs - length kept', kept'))"

definition cleanup_old_statistics ::
  "externs \<Rightarrow> time \<Rightarrow> duration \<Rightarrow> job_event list \<Rightarrow> nat \<times> job_event list" where
  "cleanup_old_statistics E now older_than evs =
     (let kept = filter (\<lambda>e. cutoff_before E now older_than \<le> ev_timestamp e) evs in
      (length evs - length kept, kept))"

subsection \<open>Queries\<close>

definition aggregate_window ::
  "externs \<Rightarrow> time \<Rightarrow> duration \<Rightarrow> (job_event \<Rightarrow> bool) \<Rightarrow> job_event list \<Rightarrow> stats_acc" where
  "aggregate_window E now window incl evs =
     (let start = partition_point (\<lambda>e. ev_timestamp e < cutoff_before E now window) evs in
      fold stats_add (filter incl (drop start evs)) stats_acc_default)"

definition get_queue_statistics ::
  "externs \<Rightarrow> time \<Rightarrow> string \<Rightarrow> duration \<Rightarrow> job_event list \<Rightarrow> window_statistics" where
  "get_queue_statistics E now q window evs =
     stats_finish now window (aggregate_window E now window (\<lambda>e. ev_queue_name e = q) evs)"

definition get_system_statistics ::
  "externs \<Rightarrow> time \<Rightarrow> duration \<Rightarrow> job_event list \<Rightarrow> window_statistics" where
  "get_system_statistics E now window evs =
     stats_finish now window (aggregate_window E now window (\<lambda>e. True) evs)"

definition add_to_queue ::
  "job_event \<Rightarrow> (string \<times> stats_acc) list \<Rightarrow> (string \<times> stats_acc) list" where
  "add_to_queue ev queues =
     AList.update (ev_queue_name ev)
       (stats_add ev (unwrap_or (map_of queues (ev_queue_name ev)) stats_acc_default)) queues"

record queue_window_stats =
  qw_queue_name :: string
  qw_pending_count :: nat
  qw_running_count :: nat
  qw_dead_count :: nat
  qw_timed_out_count :: nat
  qw_completed_count :: nat
  qw_statistics :: window_statistics

definition queue_window_stats_of :: "string \<Rightarrow> window_statistics \<Rightarrow> queue_window_stats" where
  "queue_window_stats_of q s =
     \<lparr>qw_queue_name = q, qw_pending_count = 0, qw_running_count = js_running s,
      qw_dead_count = js_dead s, qw_timed_out_count = js_timed_out s,
      qw_completed_count = js_completed s, qw_statistics = s\<rparr>"

definition get_all_statistics ::
  "externs \<Rightarrow> time \<Rightarrow> duration \<Rightarrow> job_event list \<Rightarrow> queue_window_stats list" where
  "get_all_statistics E now window evs =
     (let start = partition_point (\<lambda>e. ev_timestamp e < cutoff_before E now window) evs in
      map (\<lambda>(q, a). queue_window_stats_of q (stats_finish now window a))
        (fold add_to_queue (drop start evs) []))"

subsection \<open>The buffer invariant\<close>

definition buffer_ok :: "stats_config \<Rightarrow> job_event list \<Rightarrow> bool" where
  "buffer_ok cfg evs \<longleftrightarrow> sorted (map ev_timestamp evs) \<and> length evs \<le> sc_max_events cfg"

lemma sorted_dropWhile_filter:
  "sorted (map f xs) \<Longrightarrow> dropWhile (\<lambda>x. f x < c) xs = filter (\<lambda>x. c \<le> f x) xs"
proof (induction xs)
  case (Cons x xs)
  have "filter (\<lambda>x. c \<le> f x) xs = xs" if "c \<le> f x"
    using Cons.prems that by (auto simp: filter_id_conv)
  with Cons show ?case by (auto simp: not_less)
qed simp

lemma sorted_takeWhile_filter:
  fixes f :: "'a \<Rightarrow> 'k::linorder"
  assumes "sorted (map f xs)"
  shows "takeWhile (\<lambda>x. f x \<le> c) xs = filter (\<lambda>x. f x \<le> c) xs \<and>
    dropWhile (\<lambda>x. f x \<le> c) xs = filter (\<lambda>x. c < f x) xs"
  using assms
proof (induction xs)
  case (Cons x xs)
  have "filter (\<lambda>x. f x \<le> c) xs = []" "filter (\<lambda>x. c < f x) xs = xs" if "\<not> f x \<le> c"
    using Cons.prems that by (auto simp: filter_id_conv filter_empty_conv not_le intro: less_le_trans)
  with Cons show ?case by (auto simp: not_le)
qed simp

lemma drop_partition_point: "drop (partition_point P xs) xs = dropWhile P xs"
  unfolding partition_point_def by (metis dropWhile_eq_drop)

lemma window_filter:
  "sorted (map ev_timestamp evs) \<Longrightarrow>
     drop (partition_point (\<lambda>e. ev_timestamp e < c) evs) evs = filter (\<lambda>e. c \<le> ev_timestamp e) evs"
  by (simp add: drop_partition_point sorted_dropWhile_filter)

text \<open>The insertion keeps the order and puts the event after those of the same time.\<close>

lemma insert_event_conv:
  assumes "sorted (map ev_timestamp evs)"
  shows "insert_event ev evs =
    filter (\<lambda>e. ev_timestamp e \<le> ev_timestamp ev) evs @ [ev] @
    filter (\<lambda>e. ev_timestamp ev < ev_timestamp e) evs"
proof -
  let ?P = "\<lambda>e. ev_timestamp e \<le> ev_timestamp ev"
  note split = sorted_takeWhile_filter [OF assms, of "ev_timestamp ev"]
  show ?thesis
  proof (cases "evs = [] \<or> ?P (last evs)")
    case True
    have "?P e" if "e \<in> set evs" for e
    proof -
      have "ev_timestamp e \<le> ev_timestamp (last evs)"
        using assms that by (induction evs rule: rev_induct) (auto simp: sorted_append)
      then show ?thesis using True that by auto
    qed
    then have "filter ?P evs = evs" "filter (\<lambda>e. ev_timestamp ev < ev_timestamp e) evs = []"
      by (auto simp: filter_id_conv filter_empty_conv not_less)
    with True show ?thesis by (simp add: insert_event_def)
  next
    case False
    have "take (partition_point ?P evs) evs = filter ?P evs"
      using split by (metis partition_point_def takeWhile_eq_take)
    with False split show ?thesis
      by (simp add: insert_event_def Let_def drop_partition_point not_le)
  qed
qed

lemma sorted_insert_event:
  "sorted (map ev_timestamp evs) \<Longrightarrow> sorted (map ev_timestamp (insert_event ev evs))"
  by (auto simp: insert_event_conv sorted_append sorted_filter less_imp_le)

lemma sorted_map_drop: "sorted (map f xs) \<Longrightarrow> sorted (map f (drop n xs))"
  by (simp add: drop_map [symmetric] sorted_wrt_drop)

lemma buffer_ok_newest:
  "sorted (map ev_timestamp xs) \<Longrightarrow> buffer_ok cfg (drop (length xs - sc_max_events cfg) xs)"
  using sorted_map_drop [of ev_timestamp xs] by (auto simp: buffer_ok_def)

text \<open>
  The event buffer stays ordered by time and within its size limit. Recording an event that
  is recent enough inserts it in time order, drops exactly the expired events and then the
  oldest ones over the limit; an event that is too old changes nothing.
\<close>

theorem stats_buffer:
  assumes "buffer_ok cfg evs"
  shows "buffer_ok cfg (record_event E now cfg ev evs) \<and>
    buffer_ok cfg (snd (cleanup_old_events E now cfg evs)) \<and>
    buffer_ok cfg (snd (cleanup_old_statistics E now age evs)) \<and>
    record_event E now cfg ev evs =
      (if ev_timestamp ev < retention_cutoff E now cfg then evs
       else let kept = filter (\<lambda>e. retention_cutoff E now cfg \<le> ev_timestamp e)
              (insert_event (if sc_collect_timing cfg then ev else ev\<lparr>ev_processing_time_ms := None\<rparr>) evs) in
            drop (length kept - sc_max_events cfg) kept)"
proof -
  have s: "sorted (map ev_timestamp evs)" "length evs \<le> sc_max_events cfg"
    using assms by (auto simp: buffer_ok_def)
  let ?ev = "if sc_collect_timing cfg then ev else ev\<lparr>ev_processing_time_ms := None\<rparr>"
  have ts: "ev_timestamp ?ev = ev_timestamp ev" by simp
  have spec: "record_event E now cfg ev evs =
      (if ev_timestamp ev < retention_cutoff E now cfg then evs
       else let kept = filter (\<lambda>e. retention_cutoff E now cfg \<le> ev_timestamp e) (insert_event ?ev evs) in
            drop (length kept - sc_max_events cfg) kept)"
    using sorted_dropWhile_filter [OF sorted_insert_event [OF s(1), of ?ev]] ts
    unfolding record_event_def Let_def by simp
  have f: "sorted (map ev_timestamp (filter P xs))" if "sorted (map ev_timestamp xs)" for P xs
    using that by (rule sorted_filter)
  have "buffer_ok cfg (record_event E now cfg ev evs)"
    using assms buffer_ok_newest [OF f [OF sorted_insert_event [OF s(1)]]] by (simp add: spec Let_def)
  moreover have "buffer_ok cfg (snd (cleanup_old_events E now cfg evs))"
    using buffer_ok_newest [OF f [OF s(1)]] f [OF s(1)]
    by (auto simp: cleanup_old_events_def Let_def) (simp add: buffer_ok_def)
  moreover have "buffer_ok cfg (snd (cleanup_old_statistics E now age evs))"
    using s f [OF s(1)] le_trans [OF length_filter_le]
    by (simp add: cleanup_old_statistics_def buffer_ok_def Let_def)
  ultimately show ?thesis using spec by simp
qed

definition sample_event :: job_event where
  "sample_event = (job_event_new 50 1 ''q'' EvCompleted Normal)\<lparr>ev_processing_time_ms := Some 7\<rparr>"

definition sample_config :: stats_config where
  "sample_config = \<lparr>sc_max_events = 2, sc_max_event_age_secs = 0, sc_collect_timing = True\<rparr>"

lemma stats_buffer_witness:
  "let evs = [sample_event\<lparr>ev_timestamp := 40\<rparr>, sample_event\<lparr>ev_timestamp := 60\<rparr>] in
   buffer_ok sample_config evs \<and>
   buffer_ok sample_config (record_event sample_externs 50 sample_config sample_event evs) \<and>
   map ev_timestamp (record_event sample_externs 50 sample_config sample_event evs) = [50, 60]"
proof -
  let ?evs = "[sample_event\<lparr>ev_timestamp := 40\<rparr>, sample_event\<lparr>ev_timestamp := 60\<rparr>]"
  have ok: "buffer_ok sample_config ?evs" by (simp add: buffer_ok_def sample_config_def)
  have "map ev_timestamp (record_event sample_externs 50 sample_config sample_event ?evs) = [50, 60]"
    by (simp add: record_event_def sample_event_def sample_config_def job_event_new_def retention_cutoff_def
        cutoff_before_def checked_add_signed_def sample_externs_def insert_event_def partition_point_def Let_def)
  moreover from stats_buffer [OF ok, of sample_externs 50 sample_event]
  have "buffer_ok sample_config (record_event sample_externs 50 sample_config sample_event ?evs)" by (rule conjunct1)
  ultimately show ?thesis using ok unfolding Let_def by blast
qed

subsection \<open>What a window's statistics say\<close>

definition last_of :: "job_event list \<Rightarrow> job_id \<Rightarrow> job_event_type option" where
  "last_of es i =
     (let mine = filter (\<lambda>e. ev_job_id e = i) es in
      if mine = [] then None else Some (ev_event_type (last mine)))"

text \<open>The events that stand for a run of their own.\<close>

definition repeats :: "job_event list \<Rightarrow> job_event \<Rightarrow> bool" where
  "repeats before e \<longleftrightarrow> ev_event_type e = EvRetried \<and> last_of before (ev_job_id e) = Some EvTimedOut"

definition counted :: "job_event list \<Rightarrow> job_event list" where
  "counted es = map (\<lambda>k. es ! k) (filter (\<lambda>k. \<not> repeats (take k es) (es ! k)) [0..<length es])"

definition times :: "job_event list \<Rightarrow> nat list" where
  "times es = List.map_filter ev_processing_time_ms es"

definition of_type :: "job_event_type \<Rightarrow> job_event list \<Rightarrow> nat" where
  "of_type t es = length (filter (\<lambda>e. ev_event_type e = t) es)"

lemma counted_Nil [simp]: "counted [] = []"
  by (simp add: counted_def)

lemma counted_snoc: "counted (es @ [e]) = counted es @ (if repeats es e then [] else [e])"
proof -
  have "filter (\<lambda>k. \<not> repeats (take k (es @ [e])) ((es @ [e]) ! k)) [0..<length es] =
      filter (\<lambda>k. \<not> repeats (take k es) (es ! k)) [0..<length es]"
    by (rule filter_cong) (auto simp: nth_append)
  moreover have "map (\<lambda>k. (es @ [e]) ! k) (filter P [0..<length es]) = map (\<lambda>k. es ! k) (filter P [0..<length es])" for P
    by (rule map_cong) (auto simp: nth_append)
  ultimately show ?thesis by (simp add: counted_def)
qed

lemma last_of_snoc: "last_of (es @ [e]) = (last_of es)(ev_job_id e \<mapsto> ev_event_type e)"
  by (rule ext) (simp add: last_of_def)

lemma times_simps [simp]:
  "times [] = []" "times (es @ fs) = times es @ times fs"
  "times [e] = (case ev_processing_time_ms e of None \<Rightarrow> [] | Some t \<Rightarrow> [t])"
  by (simp_all add: times_def List.map_filter_def split: option.split)

lemma of_type_simps [simp]:
  "of_type t [] = 0" "of_type t (es @ fs) = of_type t es + of_type t fs"
  "of_type t [e] = (if ev_event_type e = t then 1 else 0)"
  by (simp_all add: of_type_def)

abbreviation accumulate :: "job_event list \<Rightarrow> stats_acc" where
  "accumulate es \<equiv> fold stats_add es stats_acc_default"

lemma count_event_fields [simp]:
  "sa_events (count_event t a) = sa_events a" "sa_last_event (count_event t a) = sa_last_event a"
  "sa_timed_events (count_event t a) = sa_timed_events a"
  "sa_processing_time_ms (count_event t a) = sa_processing_time_ms a"
  "sa_min_processing_time_ms (count_event t a) = sa_min_processing_time_ms a"
  "sa_max_processing_time_ms (count_event t a) = sa_max_processing_time_ms a"
  "sa_started (count_event t a) = sa_started a + (if t = EvStarted then 1 else 0)"
  "sa_completed (count_event t a) = sa_completed a + (if t = EvCompleted then 1 else 0)"
  "sa_failed (count_event t a) = sa_failed a + (if t = EvFailed then 1 else 0)"
  "sa_retried (count_event t a) = sa_retried a + (if t = EvRetried then 1 else 0)"
  "sa_dead (count_event t a) = sa_dead a + (if t = EvDead then 1 else 0)"
  "sa_timed_out (count_event t a) = sa_timed_out a + (if t = EvTimedOut then 1 else 0)"
  by (cases t; simp)+

lemma add_timing_fields [simp]:
  "sa_events (add_timing e a) = sa_events a" "sa_last_event (add_timing e a) = sa_last_event a"
  "sa_started (add_timing e a) = sa_started a" "sa_completed (add_timing e a) = sa_completed a"
  "sa_failed (add_timing e a) = sa_failed a" "sa_retried (add_timing e a) = sa_retried a"
  "sa_dead (add_timing e a) = sa_dead a" "sa_timed_out (add_timing e a) = sa_timed_out a"
  by (simp_all add: add_timing_def Let_def split: option.split)

lemma stats_add_last [simp]:
  "sa_last_event (stats_add e a) = AList.update (ev_job_id e) (ev_event_type e) (sa_last_event a)"
  by (simp add: stats_add_def Let_def)

lemma accumulate_last:
  "map_of (sa_last_event (accumulate es)) = last_of es \<and> distinct (map fst (sa_last_event (accumulate es)))"
proof (induction es rule: rev_induct)
  case Nil
  then show ?case by (simp add: stats_acc_default_def last_of_def fun_eq_iff)
next
  case (snoc e es)
  then show ?case by (simp add: last_of_snoc)
qed

lemma stats_add_accumulate:
  "stats_add e (accumulate es) =
     (let a = (accumulate es)\<lparr>sa_last_event := AList.update (ev_job_id e) (ev_event_type e)
            (sa_last_event (accumulate es))\<rparr> in
      if repeats es e then a
      else add_timing e (count_event (ev_event_type e) (a\<lparr>sa_events := sa_events a + 1\<rparr>)))"
  by (simp add: stats_add_def Let_def repeats_def accumulate_last)

lemma accumulate_counts:
  "sa_events (accumulate es) = length (counted es)"
  "sa_started (accumulate es) = of_type EvStarted (counted es)"
  "sa_completed (accumulate es) = of_type EvCompleted (counted es)"
  "sa_failed (accumulate es) = of_type EvFailed (counted es)"
  "sa_retried (accumulate es) = of_type EvRetried (counted es)"
  "sa_dead (accumulate es) = of_type EvDead (counted es)"
  "sa_timed_out (accumulate es) = of_type EvTimedOut (counted es)"
proof (induction es rule: rev_induct)
  case Nil
  { case 1 show ?case by (simp add: stats_acc_default_def) }
  { case 2 show ?case by (simp add: stats_acc_default_def) }
  { case 3 show ?case by (simp add: stats_acc_default_def) }
  { case 4 show ?case by (simp add: stats_acc_default_def) }
  { case 5 show ?case by (simp add: stats_acc_default_def) }
  { case 6 show ?case by (simp add: stats_acc_default_def) }
  { case 7 show ?case by (simp add: stats_acc_default_def) }
next
  case (snoc e es)
  note step = stats_add_accumulate counted_snoc Let_def
  { case 1 show ?case using snoc by (simp add: step) }
  { case 2 show ?case using snoc by (simp add: step) }
  { case 3 show ?case using snoc by (simp add: step) }
  { case 4 show ?case using snoc by (simp add: step) }
  { case 5 show ?case using snoc by (simp add: step) }
  { case 6 show ?case using snoc by (simp add: step) }
  { case 7 show ?case using snoc by (simp add: step) }
qed

definition timing_of :: "nat list \<Rightarrow> stats_acc \<Rightarrow> bool" where
  "timing_of ts a \<longleftrightarrow> sa_timed_events a = length ts \<and> sa_processing_time_ms a = sum_list ts \<and>
     (\<forall>t \<in> set ts. unwrap_or (sa_min_processing_time_ms a) 0 \<le> t \<and> t \<le> sa_max_processing_time_ms a) \<and>
     (sa_min_processing_time_ms a = None \<longleftrightarrow> ts = [])"

lemma timing_of_add:
  "timing_of ts a \<Longrightarrow> timing_of (ts @ times [e]) (add_timing e a)"
  by (auto simp: timing_of_def add_timing_def Let_def min_def max_def split: option.splits)

lemma accumulate_timing: "timing_of (times (counted es)) (accumulate es)"
proof (induction es rule: rev_induct)
  case Nil
  then show ?case by (simp add: timing_of_def stats_acc_default_def)
next
  case (snoc e es)
  then show ?case
    using timing_of_add [of "times (counted es)" _ e]
    by (auto simp: stats_add_accumulate counted_snoc Let_def timing_of_def)
qed

lemma of_type_total:
  "length es = of_type EvStarted es + of_type EvCompleted es + of_type EvFailed es +
     of_type EvRetried es + of_type EvDead es + of_type EvTimedOut es"
proof (induction es rule: rev_induct)
  case (snoc e es)
  then show ?case by (cases "ev_event_type e") simp_all
qed simp

lemma values_of_card:
  "distinct (map fst al) \<Longrightarrow> length (filter P (values_of al)) = card {k. \<exists>v. map_of al k = Some v \<and> P v}"
proof (induction al)
  case (Cons p al)
  let ?S = "{k. \<exists>v. map_of al k = Some v \<and> P v}"
  have fin: "finite ?S" by (rule finite_subset [OF _ finite_dom_map_of [of al]]) auto
  have new: "map_of al (fst p) = None" using Cons.prems by (simp add: map_of_eq_None_iff)
  have "{k. \<exists>v. map_of (p # al) k = Some v \<and> P v} = (if P (snd p) then insert (fst p) ?S else ?S)"
    using new by (cases p) auto
  moreover have "fst p \<notin> ?S" using new by simp
  moreover have "length (filter P (values_of al)) = card ?S" using Cons by simp
  ultimately show ?case by (simp add: fin [simplified])
qed simp

lemma counted_first: "es \<noteq> [] \<Longrightarrow> counted es \<noteq> []"
proof (induction es rule: rev_induct)
  case (snoc e es)
  then show ?case
    using counted_snoc [of "[]" e] by (cases "es = []") (auto simp: counted_snoc repeats_def last_of_def)
qed simp

lemma finish_accumulate:
  fixes es :: "job_event list" and now window
  defines "s \<equiv> stats_finish now window (accumulate es)" and "c \<equiv> counted es"
  shows "js_completed s = of_type EvCompleted c" "js_failed s = of_type EvFailed c"
    "js_dead s = of_type EvDead c" "js_timed_out s = of_type EvTimedOut c"
    "js_total_processed s = length c - of_type EvStarted c"
    "js_running s = card {i. last_of es i = Some EvStarted}"
    "js_error_rate s =
       (if js_total_processed s = 0 then 0
        else of_nat (of_type EvFailed c + of_type EvDead c + of_type EvTimedOut c + of_type EvRetried c) /
          of_nat (js_total_processed s))"
    "\<forall>t \<in> set (times c). js_min_processing_time_ms s \<le> t \<and> t \<le> js_max_processing_time_ms s"
    "times c \<noteq> [] \<Longrightarrow> js_avg_processing_time_ms s = of_nat (sum_list (times c)) / of_nat (length (times c))"
proof -
  note acc = accumulate_counts [of es] accumulate_last [of es]
  have t: "timing_of (times c) (accumulate es)" unfolding c_def by (rule accumulate_timing)
  have r: "length (filter (\<lambda>t. t = EvStarted) (values_of (sa_last_event (accumulate es)))) =
      card {i. last_of es i = Some EvStarted}"
    using values_of_card [of "sa_last_event (accumulate es)" "\<lambda>t. t = EvStarted"] acc(8) by simp
  show "js_completed s = of_type EvCompleted c" "js_failed s = of_type EvFailed c"
    "js_dead s = of_type EvDead c" "js_timed_out s = of_type EvTimedOut c"
    "js_total_processed s = length c - of_type EvStarted c"
    "js_error_rate s =
       (if js_total_processed s = 0 then 0
        else of_nat (of_type EvFailed c + of_type EvDead c + of_type EvTimedOut c + of_type EvRetried c) /
          of_nat (js_total_processed s))"
    unfolding s_def c_def by (auto simp: stats_finish_def Let_def acc)
  show "js_running s = card {i. last_of es i = Some EvStarted}"
  proof (cases "es = []")
    case False
    then show ?thesis using counted_first [OF False] r by (simp add: s_def stats_finish_def Let_def acc)
  qed (simp add: s_def stats_finish_def stats_acc_default_def last_of_def)
  have ne: "sa_events (accumulate es) \<noteq> 0" if "times c \<noteq> []"
    using that by (auto simp: acc c_def)
  show "\<forall>t \<in> set (times c). js_min_processing_time_ms s \<le> t \<and> t \<le> js_max_processing_time_ms s"
    using t ne by (cases "times c = []") (auto simp: s_def stats_finish_def Let_def timing_of_def)
  show "js_avg_processing_time_ms s = of_nat (sum_list (times c)) / of_nat (length (times c))" if "times c \<noteq> []"
    using t ne [OF that] that by (auto simp: s_def stats_finish_def Let_def timing_of_def)
qed

lemma counted_of_type: "t \<noteq> EvRetried \<Longrightarrow> of_type t (counted es) = of_type t es"
  by (induction es rule: rev_induct) (auto simp: counted_snoc repeats_def)

lemma sum_list_between:
  "\<forall>t \<in> set ts. lo \<le> t \<and> t \<le> hi \<Longrightarrow> lo * length ts \<le> sum_list ts \<and> sum_list ts \<le> hi * (length ts :: nat)"
  by (induction ts) auto

lemma average_between:
  assumes "\<forall>t \<in> set ts. lo \<le> t \<and> t \<le> hi" and "ts \<noteq> []"
  shows "of_nat lo \<le> (of_nat (sum_list ts) / of_nat (length ts) :: rat) \<and>
    (of_nat (sum_list ts) / of_nat (length ts) :: rat) \<le> of_nat hi"
proof -
  have "of_nat (lo * length ts) \<le> (of_nat (sum_list ts) :: rat)" "of_nat (sum_list ts) \<le> (of_nat (hi * length ts) :: rat)"
    using sum_list_between [OF assms(1)] by (simp_all only: of_nat_le_iff)
  with assms(2) show ?thesis by (simp add: pos_le_divide_eq pos_divide_le_eq)
qed

lemma aggregate_window_filter:
  "sorted (map ev_timestamp evs) \<Longrightarrow>
     aggregate_window E now window incl evs =
       accumulate (filter (\<lambda>e. incl e \<and> cutoff_before E now window \<le> ev_timestamp e) evs)"
  by (simp add: aggregate_window_def window_filter Let_def conj_commute)

text \<open>
  The statistics of a queue describe exactly its events in the window: the completed,
  failed, dead and timed-out counts are the numbers of those events, the total adds the retries
  that do not just follow the time-out of the same run, the running jobs are those whose last
  event is a start, the error rate lies between 0 and 1, and the average processing time between
  the least and the largest one.
\<close>

theorem queue_statistics_correct:
  assumes "sorted (map ev_timestamp evs)"
    and "s = get_queue_statistics E now q window evs"
    and "es = filter (\<lambda>e. ev_queue_name e = q \<and> cutoff_before E now window \<le> ev_timestamp e) evs"
  shows "js_completed s = of_type EvCompleted es \<and> js_failed s = of_type EvFailed es \<and>
    js_dead s = of_type EvDead es \<and> js_timed_out s = of_type EvTimedOut es \<and>
    js_total_processed s = of_type EvCompleted es + of_type EvFailed es + of_type EvDead es +
      of_type EvTimedOut es + of_type EvRetried (counted es) \<and>
    js_running s = card {i. last_of es i = Some EvStarted} \<and>
    0 \<le> js_error_rate s \<and> js_error_rate s \<le> 1 \<and>
    (times (counted es) \<noteq> [] \<longrightarrow>
      of_nat (js_min_processing_time_ms s) \<le> js_avg_processing_time_ms s \<and>
      js_avg_processing_time_ms s \<le> of_nat (js_max_processing_time_ms s))"
proof -
  have s: "s = stats_finish now window (accumulate es)"
    using assms by (simp add: get_queue_statistics_def aggregate_window_filter)
  note f = finish_accumulate [where es = es and now = now and window = window, folded s]
  have total: "js_total_processed s = of_type EvCompleted es + of_type EvFailed es + of_type EvDead es +
      of_type EvTimedOut es + of_type EvRetried (counted es)"
    using f(5) of_type_total [of "counted es"] by (simp add: counted_of_type)
  have "(of_nat (of_type EvFailed es + of_type EvDead es + of_type EvTimedOut es + of_type EvRetried (counted es)) :: rat)
      \<le> of_nat (js_total_processed s)"
    unfolding total by simp
  then have "0 \<le> js_error_rate s \<and> js_error_rate s \<le> 1"
    using f(7) by (auto simp: counted_of_type divide_le_eq)
  moreover have "of_nat (js_min_processing_time_ms s) \<le> js_avg_processing_time_ms s \<and>
      js_avg_processing_time_ms s \<le> of_nat (js_max_processing_time_ms s)" if "times (counted es) \<noteq> []"
    unfolding f(9) [OF that] by (rule average_between [OF f(8) that])
  ultimately show ?thesis using f(1-4,6) total by (simp add: counted_of_type)
qed

lemma queue_statistics_witness:
  "let evs = [sample_event\<lparr>ev_timestamp := 40\<rparr>, sample_event\<lparr>ev_timestamp := 60\<rparr>];
       s = get_queue_statistics sample_externs 100 ''q'' 50 evs in
   js_completed s = 1 \<and> js_error_rate s \<le> 1"
proof -
  let ?evs = "[sample_event\<lparr>ev_timestamp := 40\<rparr>, sample_event\<lparr>ev_timestamp := 60\<rparr>]"
  have "sorted (map ev_timestamp ?evs)" by simp
  from queue_statistics_correct [OF this refl refl, of sample_externs 100 "''q''" 50]
  have "js_completed (get_queue_statistics sample_externs 100 ''q'' 50 ?evs) =
      of_type EvCompleted (filter (\<lambda>e. ev_queue_name e = ''q'' \<and>
        cutoff_before sample_externs 100 50 \<le> ev_timestamp e) ?evs)"
    and "js_error_rate (get_queue_statistics sample_externs 100 ''q'' 50 ?evs) \<le> 1"
    by blast+
  then show ?thesis
    by (simp add: of_type_def sample_event_def job_event_new_def cutoff_before_def checked_add_signed_def
        sample_externs_def)
qed

lemma map_of_add_to_queue:
  "map_of (fold add_to_queue es []) q =
     (let mine = filter (\<lambda>e. ev_queue_name e = q) es in if mine = [] then None else Some (accumulate mine))"
  "distinct (map fst (fold add_to_queue es []))"
proof (induction es rule: rev_induct)
  case (snoc e es)
  { case 1 show ?case using snoc(1) by (auto simp: add_to_queue_def Let_def) }
  { case 2 show ?case using snoc(2) by (simp add: add_to_queue_def) }
qed simp_all

text \<open>
  C40: The statistics of all queues list every queue with an event in the window once, each with
  exactly the statistics the query for that queue alone returns.
\<close>

theorem all_statistics_agree:
  assumes "sorted (map ev_timestamp evs)"
  shows "distinct (map qw_queue_name (get_all_statistics E now window evs)) \<and>
    qw_queue_name ` set (get_all_statistics E now window evs) =
      ev_queue_name ` {e \<in> set evs. cutoff_before E now window \<le> ev_timestamp e} \<and>
    (\<forall>s \<in> set (get_all_statistics E now window evs).
       s = queue_window_stats_of (qw_queue_name s) (get_queue_statistics E now (qw_queue_name s) window evs))"
proof -
  let ?es = "filter (\<lambda>e. cutoff_before E now window \<le> ev_timestamp e) evs"
  let ?Q = "fold add_to_queue ?es []"
  have all: "get_all_statistics E now window evs =
      map (\<lambda>(q, a). queue_window_stats_of q (stats_finish now window a)) ?Q"
    using assms by (simp add: get_all_statistics_def window_filter Let_def)
  have name: "map qw_queue_name (get_all_statistics E now window evs) = map fst ?Q"
    by (simp add: all queue_window_stats_of_def split_beta)
  have keys: "q \<in> set (map fst ?Q) \<longleftrightarrow> filter (\<lambda>e. ev_queue_name e = q) ?es \<noteq> []" for q
    using map_of_add_to_queue(1) [of ?es q] map_of_eq_None_iff [of ?Q q] by (auto simp: Let_def split: if_splits)
  have "s = queue_window_stats_of (qw_queue_name s) (get_queue_statistics E now (qw_queue_name s) window evs)"
    if mem: "s \<in> set (get_all_statistics E now window evs)" for s
  proof -
    obtain q a where qa: "(q, a) \<in> set ?Q" "s = queue_window_stats_of q (stats_finish now window a)"
      using mem by (auto simp: all)
    then have "map_of ?Q q = Some a" using map_of_add_to_queue(2) [of ?es] by simp
    then have "a = accumulate (filter (\<lambda>e. ev_queue_name e = q) ?es)"
      by (simp add: map_of_add_to_queue Let_def split: if_splits)
    with qa(2) show ?thesis
      by (simp add: queue_window_stats_of_def get_queue_statistics_def aggregate_window_filter [OF assms]
          conj_commute)
  qed
  moreover have "qw_queue_name ` set (get_all_statistics E now window evs) = set (map fst ?Q)"
    using name by (metis list.set_map)
  moreover have "set (map fst ?Q) = ev_queue_name ` {e \<in> set evs. cutoff_before E now window \<le> ev_timestamp e}"
    by (rule set_eqI) (unfold keys, auto simp: filter_empty_conv)
  ultimately show ?thesis using name map_of_add_to_queue(2) [of ?es] by simp
qed

lemma all_statistics_witness:
  "let evs = [sample_event\<lparr>ev_timestamp := 60\<rparr>] in
   qw_queue_name ` set (get_all_statistics sample_externs 100 50 evs) = {''q''}"
proof -
  let ?evs = "[sample_event\<lparr>ev_timestamp := 60\<rparr>]"
  have "sorted (map ev_timestamp ?evs)" by simp
  from all_statistics_agree [OF this, of sample_externs 100 50]
  have "qw_queue_name ` set (get_all_statistics sample_externs 100 50 ?evs) =
    ev_queue_name ` {e \<in> set ?evs. cutoff_before sample_externs 100 50 \<le> ev_timestamp e}" by blast
  moreover have "{e \<in> set ?evs. cutoff_before sample_externs 100 50 \<le> ev_timestamp e} = set ?evs"
    by (auto simp: cutoff_before_def checked_add_signed_def sample_externs_def)
  ultimately show ?thesis by (simp add: sample_event_def job_event_new_def)
qed

end
