(* ===== verification/Autoscale.thy ===== *)
theory Autoscale
  imports RateLimit Complex_Main
begin

text \<open>
  Worker-pool autoscaling: \<open>src/src/worker/autoscale.rs\<close>. The configuration with its builders,
  and the scaling decision taken from the averaged queue depth. An \<open>f64\<close> is a rational, a \<open>usize\<close>
  sum wraps at 64 bits, and the two locks carry a flag for a poisoned one.
\<close>

subsection \<open>Configuration\<close>

record autoscale_config =
  ac_enabled :: bool
  ac_min_workers :: nat
  ac_max_workers :: nat
  ac_scale_up_threshold :: nat
  ac_scale_down_threshold :: nat
  ac_cooldown_period :: duration
  ac_scale_step :: nat
  ac_evaluation_window :: duration

definition autoscale_default :: autoscale_config where
  "autoscale_default =
     \<lparr>ac_enabled = True, ac_min_workers = 1, ac_max_workers = 10, ac_scale_up_threshold = 5,
      ac_scale_down_threshold = 2, ac_cooldown_period = seconds 60, ac_scale_step = 1,
      ac_evaluation_window = seconds 30\<rparr>"

definition autoscale_conservative :: autoscale_config where
  "autoscale_conservative =
     \<lparr>ac_enabled = True, ac_min_workers = 2, ac_max_workers = 5, ac_scale_up_threshold = 10,
      ac_scale_down_threshold = 1, ac_cooldown_period = seconds 300, ac_scale_step = 1,
      ac_evaluation_window = seconds 60\<rparr>"

definition autoscale_aggressive :: autoscale_config where
  "autoscale_aggressive =
     \<lparr>ac_enabled = True, ac_min_workers = 1, ac_max_workers = 20, ac_scale_up_threshold = 3,
      ac_scale_down_threshold = 1, ac_cooldown_period = seconds 30, ac_scale_step = 2,
      ac_evaluation_window = seconds 15\<rparr>"

definition autoscale_disabled :: autoscale_config where
  "autoscale_disabled = autoscale_default\<lparr>ac_enabled := False\<rparr>"

definition with_enabled :: "bool \<Rightarrow> autoscale_config \<Rightarrow> autoscale_config" where
  "with_enabled b c = c\<lparr>ac_enabled := b\<rparr>"

definition with_min_workers :: "nat \<Rightarrow> autoscale_config \<Rightarrow> autoscale_config" where
  "with_min_workers n c =
     (let c1 = c\<lparr>ac_min_workers := max n 1\<rparr> in
      c1\<lparr>ac_max_workers := max (ac_max_workers c1) (ac_min_workers c1)\<rparr>)"

definition with_max_workers :: "nat \<Rightarrow> autoscale_config \<Rightarrow> autoscale_config" where
  "with_max_workers n c = c\<lparr>ac_max_workers := max n (ac_min_workers c)\<rparr>"

definition with_scale_up_threshold :: "nat \<Rightarrow> autoscale_config \<Rightarrow> autoscale_config" where
  "with_scale_up_threshold n c = c\<lparr>ac_scale_up_threshold := max n 1\<rparr>"

definition with_scale_down_threshold :: "nat \<Rightarrow> autoscale_config \<Rightarrow> autoscale_config" where
  "with_scale_down_threshold n c = c\<lparr>ac_scale_down_threshold := n\<rparr>"

definition with_cooldown_period :: "duration \<Rightarrow> autoscale_config \<Rightarrow> autoscale_config" where
  "with_cooldown_period d c = c\<lparr>ac_cooldown_period := d\<rparr>"

definition with_scale_step :: "nat \<Rightarrow> autoscale_config \<Rightarrow> autoscale_config" where
  "with_scale_step n c = c\<lparr>ac_scale_step := max n 1\<rparr>"

definition with_evaluation_window :: "duration \<Rightarrow> autoscale_config \<Rightarrow> autoscale_config" where
  "with_evaluation_window d c = c\<lparr>ac_evaluation_window := d\<rparr>"

subsection \<open>State\<close>

record autoscale_metrics =
  am_active_workers :: nat
  am_avg_queue_depth :: rat
  am_current_queue_depth :: nat
  am_jobs_per_second :: rat
  am_worker_utilization :: rat
  am_time_since_last_scale :: duration
  am_last_scale_time :: "time option"

record autoscale_state =
  as_metrics :: autoscale_metrics
  as_metrics_poisoned :: bool
  as_history :: "(time \<times> nat) list"
  as_history_poisoned :: bool

subsection \<open>The decision\<close>

text \<open>\<open>chrono::Duration::from_std\<close> with a fallback of 30 seconds.\<close>

definition window_duration :: "externs \<Rightarrow> autoscale_config \<Rightarrow> int" where
  "window_duration E c =
     (if int (ac_evaluation_window c) \<le> max_delta E then int (ac_evaluation_window c) else int (seconds 30))"

definition keep_history :: "externs \<Rightarrow> autoscale_config \<Rightarrow> time \<Rightarrow> nat \<Rightarrow> (time \<times> nat) list \<Rightarrow> (time \<times> nat) list" where
  "keep_history E c now depth hist =
     (let cutoff = now - window_duration E c in filter (\<lambda>(t, d). cutoff < t) (hist @ [(now, depth)]))"

definition average_depth :: "nat \<Rightarrow> (time \<times> nat) list \<Rightarrow> rat" where
  "average_depth depth hist =
     (if hist = [] then of_nat depth
      else sum_list (map (\<lambda>(t, d). of_nat d) hist) / of_nat (length hist))"

definition time_since_last :: "autoscale_config \<Rightarrow> time \<Rightarrow> autoscale_metrics \<Rightarrow> duration" where
  "time_since_last c now m =
     (case am_last_scale_time m of
        None \<Rightarrow> ac_cooldown_period c
      | Some t \<Rightarrow> if t \<le> now then nat (now - t) else ac_cooldown_period c)"

definition depth_per_worker :: "rat \<Rightarrow> autoscale_metrics \<Rightarrow> rat" where
  "depth_per_worker avg m =
     (if 0 < am_active_workers m then avg / of_nat (am_active_workers m) else avg)"

datatype scaling_decision = ScaleUp | ScaleDown

definition scaling_decision_of :: "autoscale_config \<Rightarrow> rat \<Rightarrow> nat \<Rightarrow> scaling_decision option" where
  "scaling_decision_of c per_worker active =
     (if of_nat (ac_scale_up_threshold c) < per_worker \<and> active < ac_max_workers c then Some ScaleUp
      else if per_worker < of_nat (ac_scale_down_threshold c) \<and> ac_min_workers c < active then Some ScaleDown
      else None)"

fun new_count :: "autoscale_config \<Rightarrow> nat \<Rightarrow> scaling_decision \<Rightarrow> nat" where
  "new_count c active ScaleUp = min ((active + ac_scale_step c) mod 2 ^ 64) (ac_max_workers c)"
| "new_count c active ScaleDown = max (active - ac_scale_step c) (ac_min_workers c)"

definition apply_queue_depth ::
  "externs \<Rightarrow> nat \<Rightarrow> time \<Rightarrow> autoscale_config \<Rightarrow> autoscale_state \<Rightarrow> nat option \<times> autoscale_state" where
  "apply_queue_depth E depth now c s =
     (let s1 = (if as_history_poisoned s then s
                else s\<lparr>as_history := keep_history E c now depth (as_history s)\<rparr>);
          avg = (if as_history_poisoned s then of_nat depth else average_depth depth (as_history s1)) in
      if as_metrics_poisoned s then (None, s1)
      else
        (let since = time_since_last c now (as_metrics s);
             m = (as_metrics s)\<lparr>am_current_queue_depth := depth, am_avg_queue_depth := avg,
                   am_time_since_last_scale := since\<rparr> in
         if since < ac_cooldown_period c then (None, s1\<lparr>as_metrics := m\<rparr>)
         else
           (case scaling_decision_of c (depth_per_worker avg m) (am_active_workers m) of
              None \<Rightarrow> (None, s1\<lparr>as_metrics := m\<rparr>)
            | Some d \<Rightarrow>
                (let n = new_count c (am_active_workers m) d in
                 (Some n, s1\<lparr>as_metrics := m\<lparr>am_active_workers := n, am_last_scale_time := Some now\<rparr>\<rparr>)))))"

subsection \<open>Configurations are sane\<close>

definition autoscale_ok :: "autoscale_config \<Rightarrow> bool" where
  "autoscale_ok c \<longleftrightarrow> 1 \<le> ac_min_workers c \<and> ac_min_workers c \<le> ac_max_workers c \<and>
     1 \<le> ac_scale_up_threshold c \<and> 1 \<le> ac_scale_step c"

lemma autoscale_presets_ok:
  "autoscale_ok autoscale_default" "autoscale_ok autoscale_conservative"
  "autoscale_ok autoscale_aggressive" "autoscale_ok autoscale_disabled"
  by (simp_all add: autoscale_ok_def autoscale_default_def autoscale_conservative_def
      autoscale_aggressive_def autoscale_disabled_def)

lemma autoscale_builders_ok:
  assumes "autoscale_ok c"
  shows "autoscale_ok (with_enabled b c)" "autoscale_ok (with_min_workers n c)"
    "autoscale_ok (with_max_workers n c)" "autoscale_ok (with_scale_up_threshold n c)"
    "autoscale_ok (with_scale_down_threshold n c)" "autoscale_ok (with_cooldown_period d c)"
    "autoscale_ok (with_scale_step n c)" "autoscale_ok (with_evaluation_window d c)"
  using assms
  by (auto simp: autoscale_ok_def with_enabled_def with_min_workers_def with_max_workers_def
      with_scale_up_threshold_def with_scale_down_threshold_def with_cooldown_period_def
      with_scale_step_def with_evaluation_window_def Let_def)

subsection \<open>The pool\<close>

text \<open>A sequence of evaluations: the observed depths and their times; the result lists the scalings.\<close>

fun evaluate :: "externs \<Rightarrow> autoscale_config \<Rightarrow> (time \<times> nat) list \<Rightarrow> autoscale_state \<Rightarrow> (time \<times> nat) list \<times> autoscale_state" where
  "evaluate E c [] s = ([], s)"
| "evaluate E c ((now, depth) # obs) s =
     (case apply_queue_depth E depth now c s of
        (r, s1) \<Rightarrow>
          (case evaluate E c obs s1 of
             (scaled, s2) \<Rightarrow> ((case r of None \<Rightarrow> scaled | Some n \<Rightarrow> (now, n) # scaled), s2)))"

abbreviation workers :: "autoscale_state \<Rightarrow> nat" where
  "workers s \<equiv> am_active_workers (as_metrics s)"

abbreviation last_scaled :: "autoscale_state \<Rightarrow> time option" where
  "last_scaled s \<equiv> am_last_scale_time (as_metrics s)"

definition pool_ok :: "autoscale_config \<Rightarrow> autoscale_state \<Rightarrow> bool" where
  "pool_ok c s \<longleftrightarrow> ac_min_workers c \<le> workers s \<and> workers s \<le> ac_max_workers c"

lemma apply_queue_depth_cases:
  assumes "apply_queue_depth E depth now c s = (r, s')"
  obtains (unchanged) "r = None" "workers s' = workers s" "last_scaled s' = last_scaled s"
  | (scaled) d where "r = Some (new_count c (workers s) d)" "workers s' = new_count c (workers s) d"
      "last_scaled s' = Some now" "ac_cooldown_period c \<le> time_since_last c now (as_metrics s)"
      "d = ScaleUp \<and> workers s < ac_max_workers c \<or> d = ScaleDown \<and> ac_min_workers c < workers s"
  using assms
  by (auto simp: apply_queue_depth_def scaling_decision_of_def Let_def not_less simp del: new_count.simps
      split: if_splits option.splits)

lemma apply_queue_depth_flags:
  "as_metrics_poisoned (snd (apply_queue_depth E depth now c s)) = as_metrics_poisoned s"
  by (auto simp: apply_queue_depth_def Let_def split: option.split)

lemma new_count_bounds:
  assumes "ac_min_workers c \<le> ac_max_workers c" and "ac_min_workers c \<le> n" and "n \<le> ac_max_workers c"
    and "n + ac_scale_step c < 2 ^ 64"
  shows "ac_min_workers c \<le> new_count c n d \<and> new_count c n d \<le> ac_max_workers c"
  using assms by (cases d) auto

text \<open>Consecutive scalings are a cooldown apart, the first one counted from the last scaling before.\<close>

fun spaced :: "duration \<Rightarrow> time option \<Rightarrow> (time \<times> nat) list \<Rightarrow> bool" where
  "spaced gap prev [] = True"
| "spaced gap prev ((t, n) # xs) =
     ((case prev of None \<Rightarrow> True | Some u \<Rightarrow> u + int gap \<le> t) \<and> spaced gap (Some t) xs)"

lemma evaluate_spec:
  assumes "autoscale_ok c" and "pool_ok c s" and "ac_max_workers c + ac_scale_step c < 2 ^ 64"
    and "sorted (map fst obs)" and "\<forall>t. last_scaled s = Some t \<longrightarrow> (\<forall>p \<in> set obs. t \<le> fst p)"
  shows "pool_ok c (snd (evaluate E c obs s)) \<and>
    (\<forall>(t, n) \<in> set (fst (evaluate E c obs s)). ac_min_workers c \<le> n \<and> n \<le> ac_max_workers c) \<and>
    spaced (ac_cooldown_period c) (last_scaled s) (fst (evaluate E c obs s))"
  using assms
proof (induction obs arbitrary: s)
  case (Cons p obs)
  obtain now depth where p: "p = (now, depth)" by (cases p)
  obtain r s1 where r: "apply_queue_depth E depth now c s = (r, s1)" by fastforce
  have small: "workers s + ac_scale_step c < 2 ^ 64" using Cons.prems by (simp add: pool_ok_def)
  from r show ?case
  proof (cases rule: apply_queue_depth_cases)
    case unchanged
    then have "pool_ok c s1" using Cons.prems(2) by (simp add: pool_ok_def)
    with Cons.IH [of s1] Cons.prems unchanged r p show ?thesis by (auto split: prod.split)
  next
    case (scaled d)
    have n: "ac_min_workers c \<le> new_count c (workers s) d \<and> new_count c (workers s) d \<le> ac_max_workers c"
      using Cons.prems small by (intro new_count_bounds) (auto simp: autoscale_ok_def pool_ok_def)
    then have ok: "pool_ok c s1" using scaled by (simp add: pool_ok_def)
    have "case last_scaled s of None \<Rightarrow> True | Some u \<Rightarrow> u + int (ac_cooldown_period c) \<le> now"
      using scaled(4) Cons.prems(5) p by (auto simp: time_since_last_def split: option.splits)
    with Cons.IH [of s1] Cons.prems ok scaled n r p show ?thesis by (auto split: prod.split)
  qed
qed simp

text \<open>
  Whatever queue depths are observed, the autoscaler keeps the number of workers between the
  configured minimum and maximum, every count it asks for included, and two scalings are never
  closer than the cooldown period.
\<close>

theorem autoscale_bounds:
  assumes "autoscale_ok c" and "pool_ok c s" and "ac_max_workers c + ac_scale_step c < 2 ^ 64"
    and "sorted (map fst obs)" and "\<forall>t. last_scaled s = Some t \<longrightarrow> (\<forall>p \<in> set obs. t \<le> fst p)"
    and "evaluate E c obs s = (scaled, s')"
  shows "ac_min_workers c \<le> workers s' \<and> workers s' \<le> ac_max_workers c \<and>
    (\<forall>(t, n) \<in> set scaled. ac_min_workers c \<le> n \<and> n \<le> ac_max_workers c) \<and>
    spaced (ac_cooldown_period c) (last_scaled s) scaled"
  using evaluate_spec [OF assms(1-5), of E] assms(6) by (simp add: pool_ok_def)

definition sample_pool :: autoscale_state where
  "sample_pool =
     \<lparr>as_metrics = \<lparr>am_active_workers = 1, am_avg_queue_depth = 0, am_current_queue_depth = 0,
        am_jobs_per_second = 0, am_worker_utilization = 0, am_time_since_last_scale = 0,
        am_last_scale_time = None\<rparr>,
      as_metrics_poisoned = False, as_history = [], as_history_poisoned = False\<rparr>"

lemma autoscale_bounds_witness:
  "\<exists>scaled s'. evaluate sample_externs autoscale_default [(0, 50)] sample_pool = (scaled, s') \<and>
     scaled = [(0, 2)] \<and> workers s' \<le> 10 \<and> spaced (seconds 60) None scaled"
proof -
  obtain scaled s' where e: "evaluate sample_externs autoscale_default [(0, 50)] sample_pool = (scaled, s')"
    by fastforce
  have "pool_ok autoscale_default sample_pool"
    by (simp add: pool_ok_def sample_pool_def autoscale_default_def)
  from autoscale_bounds [OF autoscale_presets_ok(1) this _ _ _ e]
  have "workers s' \<le> 10 \<and> spaced (seconds 60) None scaled"
    by (simp add: autoscale_default_def sample_pool_def)
  moreover have "scaled = [(0, 2)]"
    using e by (auto simp: apply_queue_depth_def keep_history_def average_depth_def window_duration_def
        time_since_last_def depth_per_worker_def scaling_decision_of_def sample_pool_def
        autoscale_default_def sample_externs_def Let_def)
  ultimately show ?thesis using e by blast
qed

end
