(* ===== verification/SqlSplit.thy ===== *)
theory SqlSplit
  imports Archive "HOL-Library.Sublist"
begin

text \<open>
  Splitting migration scripts into statements: \<open>src/src/migrations/split.rs\<close>. The code walks an
  index over the characters; here the walk is over the rest of the text, with the text of the
  current statement so far, and a skip returns the skipped text and the rest. Text is ASCII.
\<close>

subsection \<open>Skipping\<close>

datatype dialect = Postgres | MySql

text \<open>After the opening quote: up to and including the closing one.\<close>

fun skip_quoted :: "char \<Rightarrow> bool \<Rightarrow> string \<Rightarrow> string \<times> string" where
  "skip_quoted q bs [] = ([], [])"
| "skip_quoted q bs [c] = ([c], [])"
| "skip_quoted q bs (c # d # cs) =
     (if c = CHR 0x5C \<and> bs then (case skip_quoted q bs cs of (u, r) \<Rightarrow> (c # d # u, r))
      else if c = q then
        (if d = q then (case skip_quoted q bs cs of (u, r) \<Rightarrow> (c # d # u, r)) else ([c], d # cs))
      else (case skip_quoted q bs (d # cs) of (u, r) \<Rightarrow> (c # u, r)))"

text \<open>To the end of the line; the newline stays.\<close>

definition skip_line :: "string \<Rightarrow> string \<times> string" where
  "skip_line cs = (takeWhile (\<lambda>c. c \<noteq> CHR 0x0A) cs, dropWhile (\<lambda>c. c \<noteq> CHR 0x0A) cs)"

text \<open>From a \<open>/*\<close>, with the depth of the comments open so far.\<close>

fun skip_block_comment :: "int \<Rightarrow> string \<Rightarrow> string \<times> string" where
  "skip_block_comment depth [] = ([], [])"
| "skip_block_comment depth [c] = ([c], [])"
| "skip_block_comment depth (c # d # cs) =
     (if c = CHR ''/'' \<and> d = CHR ''*'' then
        (case skip_block_comment (depth + 1) cs of (u, r) \<Rightarrow> (c # d # u, r))
      else if c = CHR ''*'' \<and> d = CHR ''/'' then
        (if depth - 1 = 0 then ([c, d], cs)
         else (case skip_block_comment (depth - 1) cs of (u, r) \<Rightarrow> (c # d # u, r)))
      else (case skip_block_comment depth (d # cs) of (u, r) \<Rightarrow> (c # u, r)))"

definition is_alphanumeric :: "char \<Rightarrow> bool" where
  "is_alphanumeric c =
     (let n = of_char c :: nat in (48 \<le> n \<and> n \<le> 57) \<or> (65 \<le> n \<and> n \<le> 90) \<or> (97 \<le> n \<and> n \<le> 122))"

definition is_ascii_digit :: "char \<Rightarrow> bool" where
  "is_ascii_digit c = (let n = of_char c :: nat in 48 \<le> n \<and> n \<le> 57)"

definition tag_char :: "char \<Rightarrow> bool" where
  "tag_char c \<longleftrightarrow> is_alphanumeric c \<or> c = CHR ''_''"

text \<open>Up to and including the first occurrence of the tag, or everything.\<close>

fun skip_to_tag :: "string \<Rightarrow> string \<Rightarrow> string \<times> string" where
  "skip_to_tag tag [] = ([], [])"
| "skip_to_tag tag (c # cs) =
     (if prefix tag (c # cs) then (tag, drop (length tag) (c # cs))
      else (case skip_to_tag tag cs of (u, r) \<Rightarrow> (c # u, r)))"

text \<open>After the opening \<open>$\<close>.\<close>

definition skip_dollar_quoted :: "string \<Rightarrow> (string \<times> string) option" where
  "skip_dollar_quoted cs =
     (let name = takeWhile tag_char cs; after = dropWhile tag_char cs in
      if after = [] \<or> hd after \<noteq> CHR ''$'' then None
      else if name \<noteq> [] \<and> is_ascii_digit (hd name) then None
      else
        (let tag = CHR ''$'' # name @ [CHR ''$''] in
         case skip_to_tag tag (tl after) of (u, r) \<Rightarrow> Some (name @ CHR ''$'' # u, r)))"

lemma skip_quoted_append: "fst (skip_quoted q bs cs) @ snd (skip_quoted q bs cs) = cs"
  by (induction q bs cs rule: skip_quoted.induct) (auto split: prod.splits)

lemma skip_block_comment_append:
  "fst (skip_block_comment n cs) @ snd (skip_block_comment n cs) = cs"
  by (induction n cs rule: skip_block_comment.induct) (auto split: prod.splits)

lemma skip_to_tag_append: "fst (skip_to_tag tag cs) @ snd (skip_to_tag tag cs) = cs"
  by (induction tag cs rule: skip_to_tag.induct) (auto simp: prefix_def split: prod.splits)

lemma skip_dollar_quoted_append:
  assumes "skip_dollar_quoted cs = Some (u, r)"
  shows "u @ r = cs"
proof -
  let ?name = "takeWhile tag_char cs" and ?after = "dropWhile tag_char cs"
  have "?after \<noteq> []" "hd ?after = CHR ''$''"
    using assms by (auto simp: skip_dollar_quoted_def Let_def split: if_splits)
  then have after: "?after = CHR ''$'' # tl ?after" by (metis list.collapse)
  have "u = ?name @ CHR ''$'' # fst (skip_to_tag (CHR ''$'' # ?name @ [CHR ''$'']) (tl ?after))"
    "r = snd (skip_to_tag (CHR ''$'' # ?name @ [CHR ''$'']) (tl ?after))"
    using assms by (auto simp: skip_dollar_quoted_def Let_def split: if_splits prod.splits)
  then have "u @ r = ?name @ CHR ''$'' # tl ?after" by (simp add: skip_to_tag_append)
  also have "\<dots> = ?name @ ?after" using after by simp
  finally show ?thesis by simp
qed

text \<open>Every skip leaves a suffix.\<close>

lemma skip_lengths:
  "length (snd (skip_quoted q bs cs)) \<le> length cs"
  "length (snd (skip_block_comment n cs)) \<le> length cs"
  "length (snd (skip_line cs)) \<le> length cs"
  "skip_dollar_quoted cs = Some (u, r) \<Longrightarrow> length r \<le> length cs"
  subgoal by (metis skip_quoted_append length_append le_add2)
  subgoal by (metis skip_block_comment_append length_append le_add2)
  subgoal by (simp add: skip_line_def length_dropWhile_le)
  subgoal by (metis skip_dollar_quoted_append length_append le_add2)
  done

subsection \<open>The splitter\<close>

definition flush :: "string \<Rightarrow> bool \<Rightarrow> string list" where
  "flush seg has_code = (if has_code then [str_trim seg] else [])"

function split_loop :: "dialect \<Rightarrow> string \<Rightarrow> bool \<Rightarrow> string \<Rightarrow> string list" where
  "split_loop d seg has_code [] = flush seg has_code"
| "split_loop d seg has_code (c # cs) =
     (if c = CHR 0x27 \<or> c = CHR 0x22 then
        (case skip_quoted c (d = MySql) cs of (u, r) \<Rightarrow> split_loop d (seg @ c # u) True r)
      else if c = CHR 0x60 \<and> d = MySql then
        (case skip_quoted c False cs of (u, r) \<Rightarrow> split_loop d (seg @ c # u) True r)
      else if c = CHR ''-'' \<and> cs \<noteq> [] \<and> hd cs = CHR ''-'' then
        (case skip_line cs of (u, r) \<Rightarrow> split_loop d (seg @ c # u) has_code r)
      else if c = CHR ''#'' \<and> d = MySql then
        (case skip_line cs of (u, r) \<Rightarrow> split_loop d (seg @ c # u) has_code r)
      else if c = CHR ''/'' \<and> cs \<noteq> [] \<and> hd cs = CHR ''*'' then
        (case skip_block_comment 1 (tl cs) of (u, r) \<Rightarrow> split_loop d (seg @ c # hd cs # u) has_code r)
      else if c = CHR ''$'' \<and> d = Postgres then
        (case skip_dollar_quoted cs of
           Some (u, r) \<Rightarrow> split_loop d (seg @ c # u) True r
         | None \<Rightarrow> split_loop d (seg @ [c]) True cs)
      else if c = CHR '';'' then flush seg has_code @ split_loop d [] False cs
      else split_loop d (seg @ [c]) (has_code \<or> \<not> is_ascii_space c) cs)"
  by pat_completeness auto
termination
proof (relation "measure (\<lambda>(d, seg, has_code, cs). length cs)")
qed (auto simp: le_imp_less_Suc dest: sym [of "(_, _)"] intro!: le_imp_less_Suc,
  (metis skip_lengths le_trans length_tl diff_le_self snd_conv)+)

definition split_statements :: "dialect \<Rightarrow> string \<Rightarrow> string list" where
  "split_statements d sql = split_loop d [] False sql"

declare split_loop.simps(2) [simp del]

subsection \<open>Scripts as tokens\<close>

text \<open>
  The lexical structure a script has: a character of its own, a quoted run, a comment to the end
  of the line, a block comment, or a dollar-quoted body.
\<close>

datatype sql_token =
    Plain char
  | Quoted char string
  | LineComment string
  | BlockComment string
  | DollarQuoted string string

definition dollar_tag :: "string \<Rightarrow> string" where
  "dollar_tag name = CHR ''$'' # name @ [CHR ''$'']"

fun token_text :: "sql_token \<Rightarrow> string" where
  "token_text (Plain c) = [c]"
| "token_text (Quoted q body) = q # body @ [q]"
| "token_text (LineComment body) = body"
| "token_text (BlockComment body) = CHR ''/'' # CHR ''*'' # body @ [CHR ''*'', CHR ''/'']"
| "token_text (DollarQuoted name body) = dollar_tag name @ body @ dollar_tag name"

fun token_is_code :: "sql_token \<Rightarrow> bool" where
  "token_is_code (Plain c) = (\<not> is_ascii_space c)"
| "token_is_code (Quoted q body) = True"
| "token_is_code (LineComment body) = False"
| "token_is_code (BlockComment body) = False"
| "token_is_code (DollarQuoted name body) = True"

text \<open>A body whose quotes are doubled or, if the dialect has it, escaped.\<close>

fun quoted_body :: "char \<Rightarrow> bool \<Rightarrow> string \<Rightarrow> bool" where
  "quoted_body q bs [] = True"
| "quoted_body q bs [c] = (c \<noteq> q \<and> \<not> (c = CHR 0x5C \<and> bs))"
| "quoted_body q bs (c # d # cs) =
     (if c = CHR 0x5C \<and> bs then quoted_body q bs cs
      else if c = q then d = q \<and> quoted_body q bs cs
      else quoted_body q bs (d # cs))"

fun no_tag :: "string \<Rightarrow> string \<Rightarrow> bool" where
  "no_tag tag [] = True"
| "no_tag tag (c # body) = (\<not> prefix tag (c # body @ tag) \<and> no_tag tag body)"

fun plain_comment :: "string \<Rightarrow> bool" where
  "plain_comment (c # d # cs) =
     (\<not> (c = CHR ''/'' \<and> d = CHR ''*'') \<and> \<not> (c = CHR ''*'' \<and> d = CHR ''/'') \<and> plain_comment (d # cs))"
| "plain_comment _ = True"

definition starts :: "char \<Rightarrow> string \<Rightarrow> bool" where
  "starts c cs \<longleftrightarrow> cs \<noteq> [] \<and> hd cs = c"

text \<open>When a token is read as itself in front of the given text.\<close>

fun token_fits :: "dialect \<Rightarrow> sql_token \<Rightarrow> string \<Rightarrow> bool" where
  "token_fits d (Plain c) rest \<longleftrightarrow>
     c \<noteq> CHR 0x27 \<and> c \<noteq> CHR 0x22 \<and> c \<noteq> CHR '';'' \<and>
     (d = MySql \<longrightarrow> c \<noteq> CHR 0x60 \<and> c \<noteq> CHR ''#'') \<and>
     (c = CHR ''-'' \<longrightarrow> \<not> starts (CHR ''-'') rest) \<and> (c = CHR ''/'' \<longrightarrow> \<not> starts (CHR ''*'') rest) \<and>
     (d = Postgres \<and> c = CHR ''$'' \<longrightarrow> skip_dollar_quoted rest = None)"
| "token_fits d (Quoted q body) rest \<longleftrightarrow>
     (q = CHR 0x27 \<or> q = CHR 0x22 \<or> q = CHR 0x60 \<and> d = MySql) \<and>
     quoted_body q (d = MySql \<and> q \<noteq> CHR 0x60) body \<and> \<not> starts q rest"
| "token_fits d (LineComment body) rest \<longleftrightarrow>
     (prefix ''--'' body \<or> d = MySql \<and> starts (CHR ''#'') body) \<and> CHR 0x0A \<notin> set body \<and>
     (rest = [] \<or> starts (CHR 0x0A) rest)"
| "token_fits d (BlockComment body) rest \<longleftrightarrow> plain_comment (body @ [CHR ''*''])"
| "token_fits d (DollarQuoted name body) rest \<longleftrightarrow>
     d = Postgres \<and> (\<forall>c \<in> set name. tag_char c) \<and> (name \<noteq> [] \<longrightarrow> \<not> is_ascii_digit (hd name)) \<and>
     no_tag (dollar_tag name) body"

fun tokens_fit :: "dialect \<Rightarrow> sql_token list \<Rightarrow> string \<Rightarrow> bool" where
  "tokens_fit d [] rest = True"
| "tokens_fit d (t # ts) rest =
     (token_fits d t (concat (map token_text ts) @ rest) \<and> tokens_fit d ts rest)"

abbreviation tokens_text :: "sql_token list \<Rightarrow> string" where
  "tokens_text ts \<equiv> concat (map token_text ts)"

subsection \<open>Each token is skipped as a whole\<close>

lemma skip_quoted_body:
  "quoted_body q bs body \<Longrightarrow> \<not> starts q rest \<Longrightarrow> \<not> (bs \<and> q = CHR 0x5C) \<Longrightarrow>
     skip_quoted q bs (body @ q # rest) = (body @ [q], rest)"
proof (induction q bs body rule: quoted_body.induct)
  case (1 q bs)
  then show ?case by (cases rest) (auto simp: starts_def)
next
  case (2 q bs c)
  then show ?case by (cases rest) (auto simp: starts_def)
next
  case (3 q bs c d cs)
  then show ?case by (auto split: if_splits)
qed

lemma skip_block_plain:
  "plain_comment (body @ [CHR ''*'']) \<Longrightarrow>
     skip_block_comment 1 (body @ CHR ''*'' # CHR ''/'' # rest) = (body @ [CHR ''*'', CHR ''/''], rest)"
proof (induction body rule: plain_comment.induct)
  case (1 c d cs)
  then show ?case by auto
next
  case "2_2" then show ?case by auto
qed simp

lemma skip_line_comment:
  "CHR 0x0A \<notin> set body \<Longrightarrow> rest = [] \<or> starts (CHR 0x0A) rest \<Longrightarrow> skip_line (body @ rest) = (body, rest)"
  by (cases rest) (auto simp: skip_line_def starts_def takeWhile_append dropWhile_append)

lemma skip_to_tag_found:
  "no_tag tag body \<Longrightarrow> tag \<noteq> [] \<Longrightarrow> skip_to_tag tag (body @ tag @ rest) = (body @ tag, rest)"
proof (induction body)
  case Nil
  then show ?case by (cases tag) (auto simp: prefix_def)
next
  case (Cons c body)
  have "prefix tag (c # body @ tag @ rest) \<longleftrightarrow> prefix tag (c # body @ tag)"
    using prefix_length_prefix [of tag "c # body @ tag @ rest" "c # body @ tag"] prefix_order.trans
    by (metis append.assoc append_Cons length_Cons length_append le_SucI le_add2 prefixI)
  with Cons show ?case by simp
qed

lemma tag_char_dollar [simp]: "\<not> tag_char (CHR ''$'')"
  by (simp add: tag_char_def is_alphanumeric_def)

lemma skip_dollar_found:
  assumes "\<forall>c \<in> set name. tag_char c" and "name \<noteq> [] \<longrightarrow> \<not> is_ascii_digit (hd name)"
    and "no_tag (dollar_tag name) body"
  shows "skip_dollar_quoted (name @ CHR ''$'' # body @ dollar_tag name @ rest) =
    Some (name @ CHR ''$'' # body @ dollar_tag name, rest)"
proof -
  let ?cs = "name @ CHR ''$'' # body @ dollar_tag name @ rest"
  have tw: "takeWhile tag_char ?cs = name" "dropWhile tag_char ?cs = CHR ''$'' # body @ dollar_tag name @ rest"
    using assms(1) by (simp_all add: takeWhile_append dropWhile_append)
  have "skip_to_tag (dollar_tag name) (body @ dollar_tag name @ rest) = (body @ dollar_tag name, rest)"
    by (rule skip_to_tag_found [OF assms(3)]) (simp add: dollar_tag_def)
  with assms(2) show ?thesis
    unfolding skip_dollar_quoted_def tw Let_def by (auto simp: dollar_tag_def [symmetric])
qed

lemma split_token:
  assumes "token_fits d t rest"
  shows "split_loop d seg h (token_text t @ rest) = split_loop d (seg @ token_text t) (h \<or> token_is_code t) rest"
proof (cases t)
  case (Plain c)
  have "\<not> is_ascii_space (CHR ''$'')" by (simp add: is_ascii_space_def)
  then show ?thesis using assms
    unfolding Plain token_text.simps append.simps split_loop.simps(2) [of d seg h c rest]
    by (cases d) (auto simp: starts_def)
next
  case (Quoted q body)
  have "skip_quoted q (d = MySql \<and> q \<noteq> CHR 0x60) (body @ q # rest) = (body @ [q], rest)"
    using assms Quoted by (intro skip_quoted_body) auto
  moreover have "q = CHR 0x27 \<or> q = CHR 0x22 \<or> q = CHR 0x60 \<and> d = MySql" using assms Quoted by simp
  ultimately show ?thesis
    unfolding Quoted token_text.simps token_is_code.simps append.simps append.assoc split_loop.simps(2) [of d seg h q]
    by (elim disjE conjE) simp_all
next
  case (LineComment body)
  then obtain c cs where body: "body = c # cs" using assms by (cases body) (auto simp: starts_def)
  have "skip_line (cs @ rest) = (cs, rest)"
    using assms LineComment body by (intro skip_line_comment) auto
  moreover have "(\<exists>ds. c = CHR ''-'' \<and> cs = CHR ''-'' # ds) \<or> d = MySql \<and> c = CHR ''#''"
    using assms LineComment body by (auto simp: starts_def prefix_def)
  ultimately show ?thesis
    unfolding LineComment token_text.simps token_is_code.simps body append.simps split_loop.simps(2) [of d seg h c]
    by (elim disjE exE conjE) simp_all
next
  case (BlockComment body)
  then show ?thesis using assms skip_block_plain [of body rest] by (simp add: split_loop.simps(2))
next
  case (DollarQuoted name body)
  then show ?thesis using assms skip_dollar_found [of name body rest]
    by (simp add: split_loop.simps(2) dollar_tag_def)
qed

lemma split_tokens:
  "tokens_fit d ts rest \<Longrightarrow>
     split_loop d seg h (tokens_text ts @ rest) =
       split_loop d (seg @ tokens_text ts) (h \<or> list_ex token_is_code ts) rest"
proof (induction ts arbitrary: seg h)
  case (Cons t ts)
  then show ?case using split_token [of d t "tokens_text ts @ rest" seg h] by (simp add: disj_assoc)
qed simp

fun script_text :: "sql_token list list \<Rightarrow> string" where
  "script_text [] = []"
| "script_text [ts] = tokens_text ts"
| "script_text (ts # us # rest) = tokens_text ts @ CHR '';'' # script_text (us # rest)"

fun script_fits :: "dialect \<Rightarrow> sql_token list list \<Rightarrow> bool" where
  "script_fits d [] = True"
| "script_fits d [ts] = tokens_fit d ts []"
| "script_fits d (ts # us # rest) =
     (tokens_fit d ts (CHR '';'' # script_text (us # rest)) \<and> script_fits d (us # rest))"



end
