(* ===== verification/Json.thy ===== *)
theory Json
  imports Archive "HOL-Library.Sublist" "HOL-Library.List_Lexorder" "HOL-Library.Char_ord"
begin

text \<open>
  What the delivery components (events, webhooks, alerts, streams) share: a \<open>serde_json::Value\<close>,
  the text of an error (\<open>src/src/error.rs\<close>), and the string functions of the standard library
  they call. The JSON parser and printer are those of the serde_json crate and a timestamp's
  text is chrono's, so they are parameters. Text is ASCII.
\<close>

subsection \<open>JSON values\<close>

text \<open>An object lists its entries in the order of the map (by key).\<close>

datatype json_value =
    JNull
  | JBool bool
  | JNumber rat
  | JString string
  | JArray "json_value list"
  | JObject "(string \<times> json_value) list"

record json_env =
  json_text :: "json_value \<Rightarrow> string"
  json_parse :: "string \<Rightarrow> string + json_value"
  time_text :: "time \<Rightarrow> string"

definition json_option :: "('a \<Rightarrow> json_value) \<Rightarrow> 'a option \<Rightarrow> json_value" where
  "json_option f x = (case x of None \<Rightarrow> JNull | Some v \<Rightarrow> f v)"

subsection \<open>Errors as text\<close>

fun error_display :: "hammerwork_error \<Rightarrow> string" where
  "error_display (DatabaseError m) = ''Database error: '' @ m"
| "error_display (JobNotFound i) = ''Job not found: '' @ i"
| "error_display (InvalidJobTransition i s t) =
     ''Job '' @ i @ '' cannot be '' @ t @ '' from status '' @ s"
| "error_display (SerializationError m) = ''Serialization error: '' @ m"
| "error_display (UuidParsing m) = ''UUID parsing error: '' @ m"
| "error_display (WorkerError m) = ''Worker error: '' @ m"
| "error_display (QueueError m) = ''Queue error: '' @ m"
| "error_display (RateLimitError m) = ''Rate limit error: '' @ m"
| "error_display (MetricsError m) = ''Metrics error: '' @ m"
| "error_display (AlertingError m) = ''Alerting error: '' @ m"
| "error_display (BatchError m) = ''Batch operation error: '' @ m"
| "error_display (ProcessingError m) = ''Processing error: '' @ m"
| "error_display (WorkflowError m) = ''Workflow error: '' @ m"
| "error_display (TracingError m) = ''Tracing error: '' @ m"
| "error_display (IoError m) = ''IO error: '' @ m"
| "error_display (ArchiveError m) = ''Archive error: '' @ m"
| "error_display (SpawnError m) = ''Spawn error: '' @ m"
| "error_display (InvalidJobPayload m) = ''Invalid job payload: '' @ m"
| "error_display (StreamingError m) = ''Streaming error: '' @ m"
| "error_display (WebhookError m) = ''Webhook error: '' @ m"
| "error_display (EventError m) = ''Event system error: '' @ m"
| "error_display (ConfigError m) = ''Configuration error: '' @ m"
| "error_display (EncryptionError m) = ''Encryption error: '' @ m"

subsection \<open>Strings\<close>

text \<open>The decimal text of an integer.\<close>

definition show_int :: "int \<Rightarrow> string" where
  "show_int n = (if n < 0 then CHR ''-'' # show_nat (nat (- n)) else show_nat (nat n))"

text \<open>\<open>str::find\<close> and \<open>str::contains\<close> of a pattern that is not empty.\<close>

fun find_sub :: "string \<Rightarrow> string \<Rightarrow> nat option" where
  "find_sub pat [] = None"
| "find_sub pat (c # cs) =
     (if prefix pat (c # cs) then Some 0 else map_option Suc (find_sub pat cs))"

definition contains_sub :: "string \<Rightarrow> string \<Rightarrow> bool" where
  "contains_sub pat s \<longleftrightarrow> find_sub pat s \<noteq> None"

text \<open>\<open>str::split\<close> by a character: always at least one piece.\<close>

fun split_on :: "char \<Rightarrow> string \<Rightarrow> string list" where
  "split_on c [] = [[]]"
| "split_on c (x # xs) =
     (if x = c then [] # split_on c xs
      else (case split_on c xs of [] \<Rightarrow> [[x]] | p # ps \<Rightarrow> (x # p) # ps))"

text \<open>\<open>str::strip_prefix\<close>.\<close>

definition strip_prefix :: "string \<Rightarrow> string \<Rightarrow> string option" where
  "strip_prefix p s = (if prefix p s then Some (drop (length p) s) else None)"

text \<open>\<open>str::parse::<usize>\<close>: decimal digits after an optional plus sign, within 64 bits.\<close>

definition is_digit :: "char \<Rightarrow> bool" where
  "is_digit c \<longleftrightarrow> 48 \<le> (of_char c :: nat) \<and> (of_char c :: nat) \<le> 57"

definition digits_value :: "string \<Rightarrow> nat" where
  "digits_value s = fold (\<lambda>c n. 10 * n + (of_char c - 48)) s 0"

definition parse_usize :: "string \<Rightarrow> nat option" where
  "parse_usize s =
     (let ds = (case s of c # cs \<Rightarrow> if c = CHR ''+'' then cs else s | [] \<Rightarrow> s) in
      if ds \<noteq> [] \<and> list_all is_digit ds \<and> digits_value ds < 2 ^ 64 then Some (digits_value ds)
      else None)"

text \<open>\<open>char::is_control\<close>.\<close>

definition is_control :: "char \<Rightarrow> bool" where
  "is_control c \<longleftrightarrow> (of_char c :: nat) < 32 \<or> (of_char c :: nat) = 127"

subsection \<open>Lemmas\<close>

lemma find_sub_Some:
  "find_sub pat s = Some n \<Longrightarrow> pat \<noteq> [] \<Longrightarrow>
     s = take n s @ pat @ drop (n + length pat) s \<and> n + length pat \<le> length s"
proof (induction pat s arbitrary: n rule: find_sub.induct)
  case (2 pat c cs)
  show ?case
  proof (cases "prefix pat (c # cs)")
    case True
    then obtain t where t: "c # cs = pat @ t" by (rule prefixE)
    moreover have "n = 0" using True 2(2) by simp
    ultimately show ?thesis by simp
  next
    case False
    with 2(2) obtain m where "find_sub pat cs = Some m" "n = Suc m" by auto
    with 2(1)[OF False this(1) 2(3)] show ?thesis by auto
  qed
qed simp

text \<open>The occurrence found is the first one.\<close>

lemma find_sub_iff:
  "pat \<noteq> [] \<Longrightarrow>
     find_sub pat s = Some n \<longleftrightarrow>
       n \<le> length s \<and> prefix pat (drop n s) \<and> (\<forall>k < n. \<not> prefix pat (drop k s))"
proof (induction pat s arbitrary: n rule: find_sub.induct)
  case (2 pat c cs)
  show ?case
  proof (cases n)
    case 0
    then show ?thesis by auto
  next
    case (Suc m)
    have "(\<forall>k < Suc m. \<not> prefix pat (drop k (c # cs))) \<longleftrightarrow>
        \<not> prefix pat (c # cs) \<and> (\<forall>k < m. \<not> prefix pat (drop k cs))"
      by (auto simp: less_Suc_eq_0_disj)
    then show ?thesis using 2 Suc by auto
  qed
qed auto

lemma find_sub_None: "pat \<noteq> [] \<Longrightarrow> find_sub pat s = None \<longleftrightarrow> (\<forall>k. \<not> prefix pat (drop k s))"
proof (induction pat s rule: find_sub.induct)
  case (2 pat c cs)
  have "(\<forall>k. \<not> prefix pat (drop k (c # cs))) \<longleftrightarrow> \<not> prefix pat (c # cs) \<and> (\<forall>k. \<not> prefix pat (drop k cs))"
    by (metis drop0 drop_Suc_Cons not0_implies_Suc)
  with 2 show ?case by simp
qed simp

end
