(* ===== verification/Events.thy ===== *)
theory Events
  imports Json
begin

text \<open>
  Lifecycle events: \<open>src/src/events.rs\<close>. The event record and its constructors, the subscription
  filter, and the event manager: its subscription registry and what it hands to the broadcast
  channel. The channel itself is tokio's; the model keeps the sequence of events sent to it.
  \<open>Uuid::new_v4\<close> and \<open>Utc::now\<close> are arguments.
\<close>

subsection \<open>Events\<close>

datatype lifecycle_event_type =
    LeEnqueued | LeStarted | LeCompleted | LeFailed | LeRetried | LeDead | LeTimedOut | LeCancelled
  | LeArchived | LeRestored

fun lifecycle_event_str :: "lifecycle_event_type \<Rightarrow> string" where
  "lifecycle_event_str LeEnqueued = ''enqueued''"
| "lifecycle_event_str LeStarted = ''started''"
| "lifecycle_event_str LeCompleted = ''completed''"
| "lifecycle_event_str LeFailed = ''failed''"
| "lifecycle_event_str LeRetried = ''retried''"
| "lifecycle_event_str LeDead = ''dead''"
| "lifecycle_event_str LeTimedOut = ''timed_out''"
| "lifecycle_event_str LeCancelled = ''cancelled''"
| "lifecycle_event_str LeArchived = ''archived''"
| "lifecycle_event_str LeRestored = ''restored''"

record job_error =
  je_message :: string
  je_error_type :: "string option"
  je_details :: "string option"
  je_retry_attempt :: "nat option"

definition job_error_new :: "string \<Rightarrow> job_error" where
  "job_error_new message =
     \<lparr>je_message = message, je_error_type = None, je_details = None, je_retry_attempt = None\<rparr>"

record lifecycle_event =
  le_event_id :: uuid
  le_job_id :: job_id
  le_queue_name :: string
  le_event_type :: lifecycle_event_type
  le_priority :: job_priority
  le_timestamp :: time
  le_processing_time_ms :: "nat option"
  le_error :: "job_error option"
  le_payload :: "json_value option"
  le_metadata :: "(string \<times> string) list"

definition lifecycle_event_new ::
  "uuid \<Rightarrow> time \<Rightarrow> job_id \<Rightarrow> string \<Rightarrow> lifecycle_event_type \<Rightarrow> job_priority \<Rightarrow> lifecycle_event" where
  "lifecycle_event_new u now i q t p =
     \<lparr>le_event_id = u, le_job_id = i, le_queue_name = q, le_event_type = t, le_priority = p,
      le_timestamp = now, le_processing_time_ms = None, le_error = None, le_payload = None,
      le_metadata = []\<rparr>"

definition event_enqueued :: "uuid \<Rightarrow> time \<Rightarrow> job_id \<Rightarrow> string \<Rightarrow> job_priority \<Rightarrow> lifecycle_event" where
  "event_enqueued u now i q p =
     \<lparr>le_event_id = u, le_job_id = i, le_queue_name = q, le_event_type = LeEnqueued, le_priority = p,
      le_timestamp = now, le_processing_time_ms = None, le_error = None, le_payload = None,
      le_metadata = []\<rparr>"

definition event_started :: "uuid \<Rightarrow> time \<Rightarrow> job_id \<Rightarrow> string \<Rightarrow> job_priority \<Rightarrow> lifecycle_event" where
  "event_started u now i q p =
     \<lparr>le_event_id = u, le_job_id = i, le_queue_name = q, le_event_type = LeStarted, le_priority = p,
      le_timestamp = now, le_processing_time_ms = None, le_error = None, le_payload = None,
      le_metadata = []\<rparr>"

definition event_completed ::
  "uuid \<Rightarrow> time \<Rightarrow> job_id \<Rightarrow> string \<Rightarrow> job_priority \<Rightarrow> nat \<Rightarrow> lifecycle_event" where
  "event_completed u now i q p processing_time_ms =
     \<lparr>le_event_id = u, le_job_id = i, le_queue_name = q, le_event_type = LeCompleted, le_priority = p,
      le_timestamp = now, le_processing_time_ms = Some processing_time_ms, le_error = None,
      le_payload = None, le_metadata = []\<rparr>"

definition event_failed ::
  "uuid \<Rightarrow> time \<Rightarrow> job_id \<Rightarrow> string \<Rightarrow> job_priority \<Rightarrow> job_error \<Rightarrow> lifecycle_event" where
  "event_failed u now i q p err =
     \<lparr>le_event_id = u, le_job_id = i, le_queue_name = q, le_event_type = LeFailed, le_priority = p,
      le_timestamp = now, le_processing_time_ms = None, le_error = Some err, le_payload = None,
      le_metadata = []\<rparr>"

definition event_dead ::
  "uuid \<Rightarrow> time \<Rightarrow> job_id \<Rightarrow> string \<Rightarrow> job_priority \<Rightarrow> job_error \<Rightarrow> lifecycle_event" where
  "event_dead u now i q p final_error =
     \<lparr>le_event_id = u, le_job_id = i, le_queue_name = q, le_event_type = LeDead, le_priority = p,
      le_timestamp = now, le_processing_time_ms = None, le_error = Some final_error, le_payload = None,
      le_metadata = []\<rparr>"

definition event_timed_out ::
  "uuid \<Rightarrow> time \<Rightarrow> job_id \<Rightarrow> string \<Rightarrow> job_priority \<Rightarrow> nat \<Rightarrow> lifecycle_event" where
  "event_timed_out u now i q p ms =
     \<lparr>le_event_id = u, le_job_id = i, le_queue_name = q, le_event_type = LeTimedOut, le_priority = p,
      le_timestamp = now, le_processing_time_ms = Some ms,
      le_error = Some \<lparr>je_message = ''Job timed out after '' @ show_nat ms @ ''ms'',
        je_error_type = Some ''timeout'', je_details = None, je_retry_attempt = None\<rparr>,
      le_payload = None, le_metadata = [(''timeout_duration_ms'', show_nat ms)]\<rparr>"

text \<open>The derived \<open>Serialize\<close>: what \<open>serde_json::to_value\<close> makes of an event.\<close>

definition job_error_value :: "job_error \<Rightarrow> json_value" where
  "job_error_value e =
     JObject [(''details'', json_option JString (je_details e)),
       (''error_type'', json_option JString (je_error_type e)),
       (''message'', JString (je_message e)),
       (''retry_attempt'', json_option (\<lambda>n. JNumber (of_nat n)) (je_retry_attempt e))]"

fun priority_variant :: "job_priority \<Rightarrow> string" where
  "priority_variant Background = ''Background''"
| "priority_variant Low = ''Low''"
| "priority_variant Normal = ''Normal''"
| "priority_variant High = ''High''"
| "priority_variant Critical = ''Critical''"

definition event_value :: "externs \<Rightarrow> json_env \<Rightarrow> lifecycle_event \<Rightarrow> json_value" where
  "event_value E J e =
     JObject [(''error'', json_option job_error_value (le_error e)),
       (''event_id'', JString (uuid_show E (le_event_id e))),
       (''event_type'', JString (lifecycle_event_str (le_event_type e))),
       (''job_id'', JString (uuid_show E (le_job_id e))),
       (''metadata'', JObject (sort_key fst (map (\<lambda>(k, v). (k, JString v)) (le_metadata e)))),
       (''payload'', json_option (\<lambda>v. v) (le_payload e)),
       (''priority'', JString (priority_variant (le_priority e))),
       (''processing_time_ms'', json_option (\<lambda>n. JNumber (of_nat n)) (le_processing_time_ms e)),
       (''queue_name'', JString (le_queue_name e)),
       (''timestamp'', JString (time_text J (le_timestamp e)))]"

subsection \<open>Filters\<close>

record event_filter =
  ef_event_types :: "lifecycle_event_type list"
  ef_queue_names :: "string list"
  ef_priorities :: "job_priority list"
  ef_min_processing_time_ms :: "nat option"
  ef_max_processing_time_ms :: "nat option"
  ef_metadata_filters :: "(string \<times> string) list"
  ef_include_payload :: bool

definition event_filter_new :: event_filter where
  "event_filter_new =
     \<lparr>ef_event_types = [], ef_queue_names = [], ef_priorities = [], ef_min_processing_time_ms = None,
      ef_max_processing_time_ms = None, ef_metadata_filters = [], ef_include_payload = False\<rparr>"

definition with_event_types :: "lifecycle_event_type list \<Rightarrow> event_filter \<Rightarrow> event_filter" where
  "with_event_types ts f = f\<lparr>ef_event_types := ts\<rparr>"

definition with_queue_names :: "string list \<Rightarrow> event_filter \<Rightarrow> event_filter" where
  "with_queue_names qs f = f\<lparr>ef_queue_names := qs\<rparr>"

definition with_queues :: "string list \<Rightarrow> event_filter \<Rightarrow> event_filter" where
  "with_queues qs f = f\<lparr>ef_queue_names := qs\<rparr>"

definition with_priorities :: "job_priority list \<Rightarrow> event_filter \<Rightarrow> event_filter" where
  "with_priorities ps f = f\<lparr>ef_priorities := ps\<rparr>"

definition with_processing_time_range :: "nat option \<Rightarrow> nat option \<Rightarrow> event_filter \<Rightarrow> event_filter" where
  "with_processing_time_range lo hi f =
     f\<lparr>ef_min_processing_time_ms := lo, ef_max_processing_time_ms := hi\<rparr>"

definition with_metadata_filter :: "string \<Rightarrow> string \<Rightarrow> event_filter \<Rightarrow> event_filter" where
  "with_metadata_filter k v f = f\<lparr>ef_metadata_filters := AList.update k v (ef_metadata_filters f)\<rparr>"

definition include_payload :: "event_filter \<Rightarrow> event_filter" where
  "include_payload f = f\<lparr>ef_include_payload := True\<rparr>"

fun metadata_matches :: "(string \<times> string) list \<Rightarrow> (string \<times> string) list \<Rightarrow> bool" where
  "metadata_matches [] m = True"
| "metadata_matches ((k, expected) # fs) m =
     (case map_of m k of
        Some actual \<Rightarrow> if actual \<noteq> expected then False else metadata_matches fs m
      | None \<Rightarrow> False)"

definition time_matches :: "event_filter \<Rightarrow> nat option \<Rightarrow> bool" where
  "time_matches f time =
     (if ef_min_processing_time_ms f \<noteq> None \<or> ef_max_processing_time_ms f \<noteq> None then
        (case time of
           None \<Rightarrow> False
         | Some t \<Rightarrow>
             if is_some_and (ef_min_processing_time_ms f) (\<lambda>lo. t < lo) then False
             else if is_some_and (ef_max_processing_time_ms f) (\<lambda>hi. hi < t) then False
             else True)
      else True)"

definition filter_matches :: "event_filter \<Rightarrow> lifecycle_event \<Rightarrow> bool" where
  "filter_matches f e =
     (if ef_event_types f \<noteq> [] \<and> le_event_type e \<notin> set (ef_event_types f) then False
      else if ef_queue_names f \<noteq> [] \<and> le_queue_name e \<notin> set (ef_queue_names f) then False
      else if ef_priorities f \<noteq> [] \<and> le_priority e \<notin> set (ef_priorities f) then False
      else if \<not> time_matches f (le_processing_time_ms e) then False
      else metadata_matches (ef_metadata_filters f) (le_metadata e))"

subsection \<open>The manager\<close>

record event_config =
  ec_max_buffer_size :: nat
  ec_include_payload_default :: bool
  ec_max_payload_size_bytes :: nat
  ec_log_events :: bool

definition event_config_default :: event_config where
  "event_config_default =
     \<lparr>ec_max_buffer_size = 10000, ec_include_payload_default = False,
      ec_max_payload_size_bytes = 64 * 1024, ec_log_events = False\<rparr>"

record event_manager =
  em_sent :: "lifecycle_event list"
  em_subscriptions :: "(uuid \<times> event_filter) list"
  em_config :: event_config

definition event_manager_new :: "event_config \<Rightarrow> event_manager" where
  "event_manager_new cfg = \<lparr>em_sent = [], em_subscriptions = [], em_config = cfg\<rparr>"

definition payload_wanted :: "event_manager \<Rightarrow> bool" where
  "payload_wanted m =
     (if ec_include_payload_default (em_config m) then True
      else (\<exists>f \<in> set (values_of (em_subscriptions m)). ef_include_payload f))"

definition delivers_payload :: "event_manager \<Rightarrow> event_filter \<Rightarrow> bool" where
  "delivers_payload m f \<longleftrightarrow> ec_include_payload_default (em_config m) \<or> ef_include_payload f"

definition prepare_event :: "json_env \<Rightarrow> event_manager \<Rightarrow> lifecycle_event \<Rightarrow> lifecycle_event" where
  "prepare_event J m e =
     (if le_payload e \<noteq> None \<and> \<not> payload_wanted m then e\<lparr>le_payload := None\<rparr>
      else
        (case le_payload e of
           None \<Rightarrow> e
         | Some payload \<Rightarrow>
             (let payload_size = length (json_text J payload); limit = ec_max_payload_size_bytes (em_config m) in
              if limit < payload_size then
                e\<lparr>le_payload := None,
                  le_metadata := AList.update ''payload_truncated''
                    (''Payload size '' @ show_nat payload_size @ '' exceeded limit '' @ show_nat limit)
                    (le_metadata e)\<rparr>
              else e)))"

definition publish_event ::
  "json_env \<Rightarrow> lifecycle_event \<Rightarrow> event_manager \<Rightarrow> unit res \<times> event_manager" where
  "publish_event J e m =
     (if ec_max_buffer_size (em_config m) = 0 then (Inr (), m)
      else (Inr (), m\<lparr>em_sent := em_sent m @ [prepare_event J m e]\<rparr>))"

definition subscribe :: "uuid \<Rightarrow> event_filter \<Rightarrow> event_manager \<Rightarrow> uuid res \<times> event_manager" where
  "subscribe u f m = (Inr u, m\<lparr>em_subscriptions := AList.update u f (em_subscriptions m)\<rparr>)"

definition unsubscribe :: "uuid \<Rightarrow> event_manager \<Rightarrow> unit res \<times> event_manager" where
  "unsubscribe u m = (Inr (), m\<lparr>em_subscriptions := AList.delete u (em_subscriptions m)\<rparr>)"

text \<open>Dropping a subscription handle removes it from the registry.\<close>

definition drop_subscription :: "uuid \<Rightarrow> event_manager \<Rightarrow> event_manager" where
  "drop_subscription u m = m\<lparr>em_subscriptions := AList.delete u (em_subscriptions m)\<rparr>"

definition subscription_count :: "event_manager \<Rightarrow> nat" where
  "subscription_count m = length (em_subscriptions m)"

subsection \<open>Correctness\<close>

lemma metadata_matches_iff:
  "metadata_matches fs m \<longleftrightarrow> (\<forall>(k, v) \<in> set fs. map_of m k = Some v)"
  by (induction fs m rule: metadata_matches.induct) (auto split: option.splits)

text \<open>
  An event passes a filter iff it passes each of its criteria: an empty list of types,
  queues or priorities admits all, a bound on the processing time admits only events that have
  one within it, and every metadata filter must be present with its value.
\<close>

theorem filter_matches_iff:
  "filter_matches f e \<longleftrightarrow>
     (ef_event_types f = [] \<or> le_event_type e \<in> set (ef_event_types f)) \<and>
     (ef_queue_names f = [] \<or> le_queue_name e \<in> set (ef_queue_names f)) \<and>
     (ef_priorities f = [] \<or> le_priority e \<in> set (ef_priorities f)) \<and>
     (case (ef_min_processing_time_ms f, ef_max_processing_time_ms f) of
        (None, None) \<Rightarrow> True
      | (lo, hi) \<Rightarrow> (\<exists>t. le_processing_time_ms e = Some t \<and> unwrap_or lo 0 \<le> t \<and> t \<le> unwrap_or hi t)) \<and>
     (\<forall>p \<in> set (ef_metadata_filters f). map_of (le_metadata e) (fst p) = Some (snd p))"
  by (auto simp: filter_matches_def time_matches_def metadata_matches_iff split: option.splits)

lemma filter_matches_witness:
  "filter_matches
     (with_processing_time_range (Some 10) None (with_event_types [LeCompleted] event_filter_new))
     (event_completed 1 0 2 ''q'' Normal 15) \<and>
   \<not> filter_matches
     (with_processing_time_range (Some 10) None (with_event_types [LeCompleted] event_filter_new))
     (event_completed 1 0 2 ''q'' Normal 5)"
  unfolding filter_matches_iff
  by (simp add: with_processing_time_range_def with_event_types_def event_filter_new_def event_completed_def)

text \<open>
  Publishing never fails and hands on exactly one event, equal to the given one up to its
  payload: the payload is kept iff the default or a current subscription asks for it and it is
  within the size limit, and is otherwise removed, with a metadata note iff it was too large.
\<close>

theorem publish_event_payload:
  assumes "ec_max_buffer_size (em_config m) \<noteq> 0"
  shows "\<exists>e'. publish_event J e m = (Inr (), m\<lparr>em_sent := em_sent m @ [e']\<rparr>) \<and>
    e'\<lparr>le_payload := le_payload e, le_metadata := le_metadata e\<rparr> = e \<and>
    le_payload e' =
      (if (ec_include_payload_default (em_config m) \<or>
           (\<exists>f \<in> set (values_of (em_subscriptions m)). delivers_payload m f)) \<and>
          is_some_and (le_payload e) (\<lambda>p. length (json_text J p) \<le> ec_max_payload_size_bytes (em_config m))
       then le_payload e else None) \<and>
    (if (ec_include_payload_default (em_config m) \<or>
         (\<exists>f \<in> set (values_of (em_subscriptions m)). delivers_payload m f)) \<and>
        is_some_and (le_payload e) (\<lambda>p. ec_max_payload_size_bytes (em_config m) < length (json_text J p))
     then \<exists>note. le_metadata e' = AList.update ''payload_truncated'' note (le_metadata e)
     else le_metadata e' = le_metadata e)"
proof -
  have wanted: "payload_wanted m \<longleftrightarrow> ec_include_payload_default (em_config m) \<or>
      (\<exists>f \<in> set (values_of (em_subscriptions m)). delivers_payload m f)"
    by (auto simp: payload_wanted_def delivers_payload_def)
  show ?thesis
    unfolding wanted [symmetric] publish_event_def using assms
    by (intro exI [of _ "prepare_event J m e"], cases "le_payload e") (auto simp: prepare_event_def Let_def)
qed

lemma publish_event_witness:
  "\<exists>e'. publish_event \<lparr>json_text = (\<lambda>_. ''{}''), json_parse = (\<lambda>_. Inr (JObject [])), time_text = (\<lambda>_. [])\<rparr>
       ((event_started 1 0 2 ''q'' Normal)\<lparr>le_payload := Some (JObject [])\<rparr>)
       (event_manager_new event_config_default) =
     (Inr (), (event_manager_new event_config_default)\<lparr>em_sent := [e']\<rparr>) \<and> le_payload e' = None"
proof -
  have "ec_max_buffer_size (em_config (event_manager_new event_config_default)) \<noteq> 0"
    by (simp add: event_manager_new_def event_config_default_def)
  from publish_event_payload [OF this, of
      "\<lparr>json_text = (\<lambda>_. ''{}''), json_parse = (\<lambda>_. Inr (JObject [])), time_text = (\<lambda>_. [])\<rparr>"
      "(event_started 1 0 2 ''q'' Normal)\<lparr>le_payload := Some (JObject [])\<rparr>"]
  show ?thesis by (auto simp: event_manager_new_def event_config_default_def)
qed

end
