(* ===== verification/PayloadTemplate.thy ===== *)
theory PayloadTemplate
  imports Events
begin

text \<open>
  Webhook payload templates: \<open>PayloadTemplate\<close> of \<open>src/src/webhooks.rs\<close>. A template is a JSON
  document whose strings may hold placeholders; it is checked when the webhook is added and
  rendered on the parsed document for every event.
\<close>

subsection \<open>Templates\<close>

datatype template_part = TText string | TPlaceholder "string list"

definition unterminated :: "string \<Rightarrow> hammerwork_error" where
  "unterminated text =
     ConfigError (''payload_template: unterminated '' @ [CHR 0x27] @ ''{{'' @ [CHR 0x27] @ '' in ''
       @ [CHR 0x22] @ text @ [CHR 0x22])"

text \<open>The path of a placeholder: split at the dots, every segment trimmed.\<close>

definition placeholder_path :: "string \<Rightarrow> string list" where
  "placeholder_path s = map str_trim (split_on (CHR ''.'') (str_trim s))"

lemma find_sub_bound: "find_sub pat s = Some n \<Longrightarrow> pat \<noteq> [] \<Longrightarrow> n + length pat \<le> length s"
  using find_sub_Some by blast

text \<open>The loop of \<open>split\<close>; \<open>rest\<close> is what is left of the text.\<close>

function split_parts :: "string \<Rightarrow> string \<Rightarrow> template_part list \<Rightarrow> template_part list res" where
  "split_parts text rest parts =
     (case find_sub ''{{'' rest of
        None \<Rightarrow> Inr (if rest \<noteq> [] then parts @ [TText rest] else parts)
      | Some start \<Rightarrow>
          (let parts1 = (if 0 < start then parts @ [TText (take start rest)] else parts);
               after = drop (start + 2) rest in
           case find_sub ''}}'' after of
             None \<Rightarrow> Inl (unterminated text)
           | Some stop \<Rightarrow>
               split_parts text (drop (stop + 2) after)
                 (parts1 @ [TPlaceholder (placeholder_path (take stop after))])))"
  by pat_completeness auto
termination
  by (relation "measure (\<lambda>(text, rest, parts). length rest)") (auto dest: find_sub_bound)

declare split_parts.simps [simp del]

definition template_split :: "string \<Rightarrow> template_part list res" where
  "template_split text = split_parts text text []"

definition unknown_placeholder :: "string list \<Rightarrow> hammerwork_error" where
  "unknown_placeholder path =
     ConfigError (''payload_template: unknown placeholder '' @ [CHR 0x27] @ ''{{''
       @ join_with ''.'' path @ ''}}'' @ [CHR 0x27])"

definition plain_field :: "string \<Rightarrow> bool" where
  "plain_field f \<longleftrightarrow> f \<in> {''event_id'', ''job_id'', ''queue_name'', ''event_type'', ''priority'',
     ''timestamp'', ''processing_time_ms''}"

definition error_field :: "string \<Rightarrow> bool" where
  "error_field f \<longleftrightarrow> f \<in> {''message'', ''error_type'', ''details'', ''retry_attempt''}"

definition validate_path :: "string list \<Rightarrow> unit res" where
  "validate_path path =
     (if [] \<in> set path then Inl (unknown_placeholder path)
      else
        (case path of
           [] \<Rightarrow> Inl (unknown_placeholder path)
         | head # tail \<Rightarrow>
             if head \<noteq> ''event'' then Inl (unknown_placeholder path)
             else
               (case tail of
                  [] \<Rightarrow> Inr ()
                | field # rest \<Rightarrow>
                    if plain_field field \<and> rest = [] then Inr ()
                    else if field = ''error'' then
                      (case rest of
                         [] \<Rightarrow> Inr ()
                       | [f] \<Rightarrow> if error_field f then Inr () else Inl (unknown_placeholder path)
                       | _ \<Rightarrow> Inl (unknown_placeholder path))
                    else if field = ''metadata'' \<and> length rest \<le> 1 then Inr ()
                    else if field = ''payload'' then Inr ()
                    else Inl (unknown_placeholder path))))"

fun validate_parts :: "template_part list \<Rightarrow> unit res" where
  "validate_parts [] = Inr ()"
| "validate_parts (TText t # ps) = validate_parts ps"
| "validate_parts (TPlaceholder path # ps) =
     (case validate_path path of Inl e \<Rightarrow> Inl e | Inr _ \<Rightarrow> validate_parts ps)"

definition placeholder_in_key :: "string \<Rightarrow> hammerwork_error" where
  "placeholder_in_key key =
     ConfigError (''payload_template: placeholders are not allowed in object keys (''
       @ [CHR 0x27] @ key @ [CHR 0x27] @ '')'')"

fun validate_value :: "json_value \<Rightarrow> unit res"
and validate_items :: "json_value list \<Rightarrow> unit res"
and validate_entries :: "(string \<times> json_value) list \<Rightarrow> unit res" where
  "validate_value (JString text) =
     (case template_split text of Inl e \<Rightarrow> Inl e | Inr parts \<Rightarrow> validate_parts parts)"
| "validate_value (JArray items) = validate_items items"
| "validate_value (JObject entries) = validate_entries entries"
| "validate_value JNull = Inr ()"
| "validate_value (JBool b) = Inr ()"
| "validate_value (JNumber n) = Inr ()"
| "validate_items [] = Inr ()"
| "validate_items (v # vs) = (case validate_value v of Inl e \<Rightarrow> Inl e | Inr _ \<Rightarrow> validate_items vs)"
| "validate_entries [] = Inr ()"
| "validate_entries ((key, v) # kvs) =
     (if contains_sub ''{{'' key then Inl (placeholder_in_key key)
      else (case validate_value v of Inl e \<Rightarrow> Inl e | Inr _ \<Rightarrow> validate_entries kvs))"

definition template_parse :: "json_env \<Rightarrow> string \<Rightarrow> json_value res" where
  "template_parse J template =
     (case json_parse J template of
        Inl e \<Rightarrow> Inl (ConfigError (''payload_template is not valid JSON: '' @ e))
      | Inr doc \<Rightarrow> (case validate_value doc of Inl e \<Rightarrow> Inl e | Inr _ \<Rightarrow> Inr doc))"

fun lookup_from :: "json_value \<Rightarrow> string list \<Rightarrow> json_value option" where
  "lookup_from cur [] = Some cur"
| "lookup_from cur (segment # rest) =
     (case cur of
        JObject entries \<Rightarrow>
          (case map_of entries segment of None \<Rightarrow> None | Some v \<Rightarrow> lookup_from v rest)
      | JArray items \<Rightarrow>
          (case parse_usize segment of
             None \<Rightarrow> None
           | Some n \<Rightarrow> if n < length items then lookup_from (items ! n) rest else None)
      | _ \<Rightarrow> None)"

text \<open>\<open>path.get(1..)?\<close> fails only for the empty path.\<close>

definition lookup :: "json_value \<Rightarrow> string list \<Rightarrow> json_value option" where
  "lookup event path = (case path of [] \<Rightarrow> None | _ # rest \<Rightarrow> lookup_from event rest)"

fun part_text :: "json_env \<Rightarrow> json_value \<Rightarrow> template_part \<Rightarrow> string" where
  "part_text J event (TText t) = t"
| "part_text J event (TPlaceholder path) =
     (case lookup event path of
        None \<Rightarrow> []
      | Some JNull \<Rightarrow> []
      | Some (JString s) \<Rightarrow> s
      | Some other \<Rightarrow> json_text J other)"

definition render_string :: "json_env \<Rightarrow> string \<Rightarrow> json_value \<Rightarrow> json_value" where
  "render_string J text event =
     (case template_split text of
        Inl _ \<Rightarrow> JString text
      | Inr [TPlaceholder path] \<Rightarrow> unwrap_or (lookup event path) JNull
      | Inr parts \<Rightarrow> JString (concat (map (part_text J event) parts)))"

fun render_value :: "json_env \<Rightarrow> json_value \<Rightarrow> json_value \<Rightarrow> json_value" where
  "render_value J (JString text) event = render_string J text event"
| "render_value J (JArray items) event = JArray (map (\<lambda>v. render_value J v event) items)"
| "render_value J (JObject entries) event =
     JObject (map (\<lambda>kv. (fst kv, render_value J (snd kv) event)) entries)"
| "render_value J other event = other"

definition template_render :: "externs \<Rightarrow> json_env \<Rightarrow> json_value \<Rightarrow> lifecycle_event \<Rightarrow> json_value res" where
  "template_render E J doc e = Inr (render_value J doc (event_value E J e))"

subsection \<open>Splitting\<close>

text \<open>
  The grammar of a template string: text without an opening brace pair, then a placeholder up to
  the first closing pair, and so on. A text before a placeholder may not end in a brace that
  would open the placeholder earlier.
\<close>

abbreviation text_part :: "string \<Rightarrow> template_part list" where
  "text_part t \<equiv> (if t = [] then [] else [TText t])"

inductive segments :: "string \<Rightarrow> template_part list \<Rightarrow> bool" where
  seg_end: "\<not> contains_sub ''{{'' t \<Longrightarrow> segments t (text_part t)"
| seg_placeholder:
    "\<not> contains_sub ''{{'' (t @ ''{'') \<Longrightarrow> \<not> contains_sub ''}}'' (p @ ''}'') \<Longrightarrow> segments rest ps \<Longrightarrow>
     segments (t @ ''{{'' @ p @ ''}}'' @ rest) (text_part t @ TPlaceholder (placeholder_path p) # ps)"

inductive_cases segmentsE: "segments rest ps"

lemma find_pair: "find_sub [c, c] (t @ c # c # r) = Some (length t) \<longleftrightarrow> \<not> contains_sub [c, c] (t @ [c])"
proof (induction t)
  case (Cons x t)
  then show ?case by (cases t) (auto simp: contains_sub_def)
qed (simp add: contains_sub_def)

lemma find_pairD:
  assumes "find_sub [c, c] s = Some n"
  shows "s = take n s @ c # c # drop (n + 2) s" "\<not> contains_sub [c, c] (take n s @ [c])"
proof -
  have s: "s = take n s @ c # c # drop (n + 2) s" "n + 2 \<le> length s"
    using find_sub_Some [OF assms] by simp_all
  then have "length (take n s) = n" by simp
  with find_pair [of c "take n s" "drop (n + 2) s"] s assms show "\<not> contains_sub [c, c] (take n s @ [c])"
    by simp
  show "s = take n s @ c # c # drop (n + 2) s" by (fact s)
qed

lemma segments_placeholder:
  assumes "find_sub ''{{'' rest = Some n" and "find_sub ''}}'' (drop (n + 2) rest) = Some m"
  shows "segments rest ps \<longleftrightarrow>
    (\<exists>qs. segments (drop (m + 2) (drop (n + 2) rest)) qs \<and>
      ps = text_part (take n rest) @ TPlaceholder (placeholder_path (take m (drop (n + 2) rest))) # qs)"
proof
  assume "segments rest ps"
  then show "\<exists>qs. segments (drop (m + 2) (drop (n + 2) rest)) qs \<and>
      ps = text_part (take n rest) @ TPlaceholder (placeholder_path (take m (drop (n + 2) rest))) # qs"
  proof (cases rule: segments.cases)
    case seg_end
    then show ?thesis using assms(1) by (simp add: contains_sub_def)
  next
    case (seg_placeholder t p r qs)
    have "n = length t" using find_pair [of "CHR ''{''" t] assms(1) seg_placeholder by simp
    moreover from this have "m = length p" using find_pair [of "CHR ''}''" p] assms(2) seg_placeholder by simp
    ultimately show ?thesis using seg_placeholder by auto
  qed
next
  let ?after = "drop (n + 2) rest"
  assume "\<exists>qs. segments (drop (m + 2) ?after) qs \<and>
      ps = text_part (take n rest) @ TPlaceholder (placeholder_path (take m ?after)) # qs"
  then obtain qs where q: "segments (drop (m + 2) ?after) qs"
    "ps = text_part (take n rest) @ TPlaceholder (placeholder_path (take m ?after)) # qs" by blast
  have "segments (take n rest @ ''{{'' @ take m ?after @ ''}}'' @ drop (m + 2) ?after) ps"
    unfolding q(2) using find_pairD(2) [OF assms(1)] find_pairD(2) [OF assms(2)] q(1)
    by (intro seg_placeholder) simp_all
  then show "segments rest ps"
    using find_pairD(1) [OF assms(1)] find_pairD(1) [OF assms(2)] by simp
qed

lemma segments_unterminated:
  assumes "find_sub ''{{'' rest = Some n" and "find_sub ''}}'' (drop (n + 2) rest) = None"
  shows "\<not> segments rest ps"
proof
  assume "segments rest ps"
  then show False
  proof (cases rule: segments.cases)
    case seg_end
    then show ?thesis using assms(1) by (simp add: contains_sub_def)
  next
    case (seg_placeholder t p r qs)
    have "n = length t" using find_pair [of "CHR ''{''" t] assms(1) seg_placeholder by simp
    then show False using find_pair [of "CHR ''}''" p] assms(2) seg_placeholder by simp
  qed
qed

lemma segments_plain: "find_sub ''{{'' rest = None \<Longrightarrow> segments rest ps \<longleftrightarrow> ps = text_part rest"
proof
  assume n: "find_sub ''{{'' rest = None" and "segments rest ps"
  from this(2) show "ps = text_part rest"
  proof (cases rule: segments.cases)
    case (seg_placeholder t p r qs)
    then show ?thesis using find_pair [of "CHR ''{''" t] n by simp
  qed simp
qed (simp add: seg_end contains_sub_def)

lemma split_parts_iff:
  "(split_parts src rest parts = Inr qs \<longleftrightarrow> (\<exists>ps. segments rest ps \<and> qs = parts @ ps)) \<and>
   (\<forall>e. split_parts src rest parts = Inl e \<longrightarrow> e = unterminated src)"
proof (induction src rest parts rule: split_parts.induct)
  case (1 src rest parts)
  show ?case
  proof (cases "find_sub ''{{'' rest")
    case None
    then show ?thesis by (subst (1 2) split_parts.simps) (auto simp: segments_plain)
  next
    case (Some n)
    show ?thesis
    proof (cases "find_sub ''}}'' (drop (n + 2) rest)")
      case None
      then show ?thesis using Some segments_unterminated [OF Some None]
        by (subst (1 2) split_parts.simps) (auto simp: Let_def)
    next
      case m: (Some m)
      let ?parts = "parts @ text_part (take n rest) @ [TPlaceholder (placeholder_path (take m (drop (n + 2) rest)))]"
      let ?rest = "drop (m + 2) (drop (n + 2) rest)"
      have "n \<le> length rest" "rest \<noteq> []" using find_sub_bound [OF Some] by auto
      then have "split_parts src rest parts = split_parts src ?rest ?parts"
        by (subst split_parts.simps) (simp add: Some m [simplified] Let_def)
      moreover have "(split_parts src ?rest ?parts = Inr qs \<longleftrightarrow> (\<exists>ps. segments ?rest ps \<and> qs = ?parts @ ps)) \<and>
          (\<forall>e. split_parts src ?rest ?parts = Inl e \<longrightarrow> e = unterminated src)"
        using 1 [OF Some refl refl m] \<open>n \<le> length rest\<close> \<open>rest \<noteq> []\<close> by (cases "n = 0") simp_all
      moreover have "(\<exists>ps. segments ?rest ps \<and> qs = ?parts @ ps) \<longleftrightarrow> (\<exists>ps. segments rest ps \<and> qs = parts @ ps)"
        unfolding segments_placeholder [OF Some m] by (auto split del: if_split)
      ultimately show ?thesis by simp
    qed
  qed
qed

lemma template_split_segments: "template_split t = Inr ps \<longleftrightarrow> segments t ps"
  using split_parts_iff [of t t "[]" ps] by (simp add: template_split_def)

subsection \<open>Validation\<close>

text \<open>The documented paths.\<close>

inductive documented :: "string list \<Rightarrow> bool" where
  "documented [''event'']"
| "plain_field f \<Longrightarrow> documented [''event'', f]"
| "documented [''event'', ''error'']"
| "error_field f \<Longrightarrow> documented [''event'', ''error'', f]"
| "documented [''event'', ''metadata'']"
| "k \<noteq> [] \<Longrightarrow> documented [''event'', ''metadata'', k]"
| "[] \<notin> set ks \<Longrightarrow> documented (''event'' # ''payload'' # ks)"

lemma documented_iff:
  "documented path \<longleftrightarrow>
     (\<exists>tail. path = ''event'' # tail \<and> [] \<notin> set tail \<and>
       (case tail of
          [] \<Rightarrow> True
        | field # rest \<Rightarrow>
            (plain_field field \<and> rest = []) \<or>
            (field = ''error'' \<and> (rest = [] \<or> (\<exists>f. rest = [f] \<and> error_field f))) \<or>
            (field = ''metadata'' \<and> length rest \<le> 1) \<or> field = ''payload''))"
  (is "_ \<longleftrightarrow> (\<exists>tail. path = _ # tail \<and> _ \<and> ?c tail)")
proof -
  have ne: "plain_field f \<Longrightarrow> [] \<noteq> f" "error_field f \<Longrightarrow> [] \<noteq> f" for f
    by (auto simp: plain_field_def error_field_def)
  show ?thesis
  proof
    assume "documented path"
    then show "\<exists>tail. path = ''event'' # tail \<and> [] \<notin> set tail \<and> ?c tail" by (cases rule: documented.cases) (simp_all add: ne)
  next
    assume "\<exists>tail. path = ''event'' # tail \<and> [] \<notin> set tail \<and> ?c tail"
    then obtain tail where t: "path = ''event'' # tail" "[] \<notin> set tail" "?c tail" by blast
    show "documented path"
    proof (cases tail)
      case (Cons field rest)
      then consider "plain_field field" "rest = []" | "field = ''error''" "rest = []"
        | f where "field = ''error''" "rest = [f]" "error_field f"
        | "field = ''metadata''" "rest = []" | k where "field = ''metadata''" "rest = [k]"
        | "field = ''payload''"
        using t(3) by (cases rest; cases "tl rest") auto
      then show ?thesis using t Cons by cases (auto intro: documented.intros)
    qed (use t in \<open>simp add: documented.intros\<close>)
  qed
qed

lemma validate_path_ok: "validate_path path = Inr () \<longleftrightarrow> documented path"
  unfolding documented_iff
proof (cases path)
  case (Cons head tail)
  have ne: "error_field f \<Longrightarrow> f \<noteq> []" for f by (auto simp: error_field_def)
  have nf: "\<not> plain_field ''error''" "\<not> plain_field ''metadata''" "\<not> plain_field ''payload''"
    by (simp_all add: plain_field_def)
  show "validate_path path = Inr () \<longleftrightarrow> (\<exists>tail. path = ''event'' # tail \<and> [] \<notin> set tail \<and>
       (case tail of
          [] \<Rightarrow> True
        | field # rest \<Rightarrow>
            (plain_field field \<and> rest = []) \<or>
            (field = ''error'' \<and> (rest = [] \<or> (\<exists>f. rest = [f] \<and> error_field f))) \<or>
            (field = ''metadata'' \<and> length rest \<le> 1) \<or> field = ''payload''))"
    using Cons nf by (auto simp: validate_path_def split: list.splits if_splits)
qed (simp add: validate_path_def)

lemma validate_parts_ok:
  "validate_parts ps = Inr () \<longleftrightarrow> (\<forall>path. TPlaceholder path \<in> set ps \<longrightarrow> documented path)"
  by (induction ps rule: validate_parts.induct) (auto simp: validate_path_ok [symmetric] split: sum.splits)

text \<open>The strings of a document, and its keys.\<close>

fun strings_of :: "json_value \<Rightarrow> string list" where
  "strings_of (JString t) = [t]"
| "strings_of (JArray vs) = concat (map strings_of vs)"
| "strings_of (JObject kvs) = concat (map (\<lambda>kv. strings_of (snd kv)) kvs)"
| "strings_of _ = []"

fun keys_of :: "json_value \<Rightarrow> string list" where
  "keys_of (JArray vs) = concat (map keys_of vs)"
| "keys_of (JObject kvs) = concat (map (\<lambda>kv. fst kv # keys_of (snd kv)) kvs)"
| "keys_of _ = []"

definition valid_string :: "string \<Rightarrow> bool" where
  "valid_string t \<longleftrightarrow> (\<exists>ps. segments t ps \<and> (\<forall>path. TPlaceholder path \<in> set ps \<longrightarrow> documented path))"

lemma validate_string: "validate_value (JString t) = Inr () \<longleftrightarrow> valid_string t"
proof (cases "template_split t")
  case (Inl e)
  then show ?thesis by (metis template_split_segments valid_string_def sum.distinct(1) validate_value.simps(1) sum.case(1))
next
  case (Inr ps)
  then have "segments t qs \<longleftrightarrow> qs = ps" for qs by (metis template_split_segments Inr_inject)
  then show ?thesis using Inr by (simp add: valid_string_def validate_parts_ok)
qed

lemma validate_value_ok:
  "validate_value v = Inr () \<longleftrightarrow>
     (\<forall>t \<in> set (strings_of v). valid_string t) \<and> (\<forall>k \<in> set (keys_of v). \<not> contains_sub ''{{'' k)"
  "validate_items vs = Inr () \<longleftrightarrow>
     (\<forall>v \<in> set vs. (\<forall>t \<in> set (strings_of v). valid_string t) \<and>
       (\<forall>k \<in> set (keys_of v). \<not> contains_sub ''{{'' k))"
  "validate_entries kvs = Inr () \<longleftrightarrow>
     (\<forall>kv \<in> set kvs. \<not> contains_sub ''{{'' (fst kv) \<and> (\<forall>t \<in> set (strings_of (snd kv)). valid_string t) \<and>
       (\<forall>k \<in> set (keys_of (snd kv)). \<not> contains_sub ''{{'' k))"
proof (induction v and vs and kvs rule: validate_value_validate_items_validate_entries.induct)
  case (1 t)
  show ?case unfolding validate_string by simp
next
  case (8 v vs)
  then show ?case by (auto split: sum.split)
next
  case (10 key v kvs)
  then show ?case by (auto split: sum.split)
qed auto

subsection \<open>Rendering\<close>

inductive same_shape :: "json_value \<Rightarrow> json_value \<Rightarrow> bool" where
  "same_shape (JString t) r"
| "same_shape JNull JNull"
| "same_shape (JBool b) (JBool b)"
| "same_shape (JNumber n) (JNumber n)"
| "list_all2 same_shape xs ys \<Longrightarrow> same_shape (JArray xs) (JArray ys)"
| "list_all2 (\<lambda>a b. fst a = fst b \<and> same_shape (snd a) (snd b)) kvs kws \<Longrightarrow>
     same_shape (JObject kvs) (JObject kws)"

lemma render_shape: "same_shape v (render_value J v ev)"
proof (induction v)
  case (JArray vs)
  then show ?case by (auto simp: list_all2_conv_all_nth intro: same_shape.intros)
next
  case (JObject kvs)
  have "same_shape (snd kv) (render_value J (snd kv) ev)" if "kv \<in> set kvs" for kv
    using JObject [of kv "snd kv"] that by (cases kv) auto
  then have "\<forall>i < length kvs. same_shape (snd (kvs ! i)) (render_value J (snd (kvs ! i)) ev)"
    using nth_mem by blast
  then show ?case by (simp add: list_all2_conv_all_nth same_shape.intros)
qed (auto intro: same_shape.intros)

lemma render_plain_string: "\<not> contains_sub ''{{'' t \<Longrightarrow> render_string J t ev = JString t"
proof -
  assume "\<not> contains_sub ''{{'' t"
  then have "template_split t = Inr (text_part t)" by (simp add: template_split_segments seg_end)
  then show ?thesis by (simp add: render_string_def)
qed

lemma render_plain: "(\<forall>t \<in> set (strings_of v). \<not> contains_sub ''{{'' t) \<Longrightarrow> render_value J v ev = v"
proof (induction v)
  case (JArray vs)
  then show ?case by (auto intro: map_idI)
next
  case (JObject kvs)
  have "render_value J (snd kv) ev = snd kv" if "kv \<in> set kvs" for kv
    using JObject(1) [of kv "snd kv"] JObject(2) that by (cases kv) auto
  then show ?case by (auto intro: map_idI)
qed (simp_all add: render_plain_string)


definition sample_json :: json_env where
  "sample_json =
     \<lparr>json_text = (\<lambda>_. ''{}''), json_parse = (\<lambda>s. Inr (JArray [JString s, JNumber 1])),
      time_text = (\<lambda>_. ''now'')\<rparr>"


lemma map_of_sort_key:
  fixes xs :: "('a :: linorder \<times> 'b) list"
  shows "map_of (sort_key fst xs) k = map_of xs k"
proof -
  have m: "map_of ys k = map_option snd (find (\<lambda>kv. fst kv = k) ys)" for ys :: "('a \<times> 'b) list"
    by (induction ys) auto
  have f: "find P ys = (case filter P ys of [] \<Rightarrow> None | y # _ \<Rightarrow> Some y)" for P and ys :: "('a \<times> 'b) list"
    by (induction ys) auto
  show ?thesis unfolding m f sort_key_stable ..
qed

lemma lookup_metadata: "map_of (sort_key fst (map (\<lambda>(k, v). (k, JString v)) m)) k = map_option JString (map_of m k)"
  unfolding map_of_sort_key by (induction m) auto

text \<open>
  The documented placeholders name the documented values: the event itself, its fields,
  the fields of its error (null when it has none), its metadata by key, and whatever its payload
  holds at a path.
\<close>

theorem template_paths_resolve:
  "lookup (event_value E J e) [''event''] = Some (event_value E J e) \<and>
   lookup (event_value E J e) [''event'', ''event_id''] = Some (JString (uuid_show E (le_event_id e))) \<and>
   lookup (event_value E J e) [''event'', ''job_id''] = Some (JString (uuid_show E (le_job_id e))) \<and>
   lookup (event_value E J e) [''event'', ''queue_name''] = Some (JString (le_queue_name e)) \<and>
   lookup (event_value E J e) [''event'', ''event_type''] =
     Some (JString (lifecycle_event_str (le_event_type e))) \<and>
   lookup (event_value E J e) [''event'', ''priority''] = Some (JString (priority_variant (le_priority e))) \<and>
   lookup (event_value E J e) [''event'', ''timestamp''] = Some (JString (time_text J (le_timestamp e))) \<and>
   lookup (event_value E J e) [''event'', ''processing_time_ms''] =
     Some (json_option (\<lambda>n. JNumber (of_nat n)) (le_processing_time_ms e)) \<and>
   unwrap_or (lookup (event_value E J e) [''event'', ''error'', ''message'']) JNull =
     json_option (\<lambda>err. JString (je_message err)) (le_error e) \<and>
   lookup (event_value E J e) [''event'', ''metadata'', k] = map_option JString (map_of (le_metadata e) k) \<and>
   unwrap_or (lookup (event_value E J e) (''event'' # ''payload'' # ks)) JNull =
     (case le_payload e of None \<Rightarrow> JNull | Some v \<Rightarrow> unwrap_or (lookup_from v ks) JNull)"
proof -
  have payload: "unwrap_or (lookup (event_value E J e) (''event'' # ''payload'' # ks)) JNull =
     (case le_payload e of None \<Rightarrow> JNull | Some v \<Rightarrow> unwrap_or (lookup_from v ks) JNull)"
    by (cases ks) (simp_all add: lookup_def event_value_def json_option_def split: option.split)
  have err: "unwrap_or (lookup (event_value E J e) [''event'', ''error'', ''message'']) JNull =
     json_option (\<lambda>err. JString (je_message err)) (le_error e)"
    by (simp add: lookup_def event_value_def json_option_def job_error_value_def split: option.split)
  have meta: "lookup (event_value E J e) [''event'', ''metadata'', k] = map_option JString (map_of (le_metadata e) k)"
    by (simp add: lookup_def event_value_def lookup_metadata split: option.split)
  have "lookup (event_value E J e) [''event''] = Some (event_value E J e)" by (simp add: lookup_def)
  moreover have "lookup (event_value E J e) [''event'', f] =
      (case event_value E J e of JObject kvs \<Rightarrow> map_of kvs f | _ \<Rightarrow> None)" for f
    by (simp add: lookup_def event_value_def split: option.split)
  ultimately show ?thesis using payload err meta by (simp add: event_value_def)
qed

end
