(* ===== verification/Webhooks.thy ===== *)
theory Webhooks
  imports PayloadTemplate Retry
begin

text \<open>
  Webhooks: \<open>src/src/webhooks.rs\<close>. The configuration of a webhook and its retry policy, one
  delivery attempt (the request it sends and the record it makes of the answer), the delivery of
  an event with its retries and statistics, the listener's handling of a received event, the
  operations of the manager on its registry, and the signatures. The HTTP exchange, the HMAC, hex
  and base64 codecs are third-party code: each attempt is given what the exchange returned.
  \<open>Utc::now()\<close>, \<open>Uuid::new_v4()\<close> and the elapsed time are part of that. The semaphores that
  bound concurrent deliveries only delay and are left out.
\<close>

subsection \<open>Configuration\<close>

datatype http_method = Post | Put | Patch

fun http_method_str :: "http_method \<Rightarrow> string" where
  "http_method_str Post = ''POST''"
| "http_method_str Put = ''PUT''"
| "http_method_str Patch = ''PATCH''"

datatype webhook_auth =
    Bearer string
  | Basic string string
  | ApiKey string string
  | CustomHeaders "(string \<times> string) list"

record retry_policy =
  rp_max_attempts :: nat
  rp_initial_delay_secs :: nat
  rp_max_delay_secs :: nat
  rp_backoff_multiplier :: f64
  rp_retry_on_status_codes :: "nat list"

definition retry_policy_default :: retry_policy where
  "retry_policy_default =
     \<lparr>rp_max_attempts = 3, rp_initial_delay_secs = 1, rp_max_delay_secs = 300,
      rp_backoff_multiplier = Fin 2, rp_retry_on_status_codes = [408, 429, 500, 502, 503, 504]\<rparr>"

text \<open>The cast \<open>as u64\<close>: truncated, saturating, and zero for NaN.\<close>

definition f64_to_u64 :: "f64 \<Rightarrow> nat" where
  "f64_to_u64 x =
     (case x of
        NaN \<Rightarrow> 0
      | Inf \<Rightarrow> 2 ^ 64 - 1
      | NegInf \<Rightarrow> 0
      | Fin r \<Rightarrow> if r < 0 then 0 else min (nat \<lfloor>r\<rfloor>) (2 ^ 64 - 1))"

definition policy_delay :: "float_env \<Rightarrow> retry_policy \<Rightarrow> nat \<Rightarrow> duration" where
  "policy_delay F p attempt =
     (let delay_secs = f64_mul F (fl_round F (of_nat (rp_initial_delay_secs p)))
            (fl_powi F (rp_backoff_multiplier p) (int (min attempt (2 ^ 31 - 1))));
          capped = f64_min delay_secs (fl_round F (of_nat (rp_max_delay_secs p))) in
      f64_to_u64 capped * 10 ^ 9)"

definition should_retry_status :: "retry_policy \<Rightarrow> nat \<Rightarrow> bool" where
  "should_retry_status p code \<longleftrightarrow> code \<in> set (rp_retry_on_status_codes p)"

record webhook_config =
  wh_id :: uuid
  wh_name :: string
  wh_url :: string
  wh_method :: http_method
  wh_headers :: "(string \<times> string) list"
  wh_filter :: event_filter
  wh_retry_policy :: retry_policy
  wh_auth :: "webhook_auth option"
  wh_timeout_secs :: nat
  wh_enabled :: bool
  wh_secret :: "string option"
  wh_payload_template :: "string option"

definition webhook_new :: "uuid \<Rightarrow> string \<Rightarrow> string \<Rightarrow> webhook_config" where
  "webhook_new u name url =
     \<lparr>wh_id = u, wh_name = name, wh_url = url, wh_method = Post, wh_headers = [],
      wh_filter = event_filter_new, wh_retry_policy = retry_policy_default, wh_auth = None,
      wh_timeout_secs = 30, wh_enabled = True, wh_secret = None, wh_payload_template = None\<rparr>"

definition webhook_default :: "uuid \<Rightarrow> webhook_config" where
  "webhook_default u = webhook_new u ''Default Webhook'' ''https://example.com/webhook''"

definition with_header :: "string \<Rightarrow> string \<Rightarrow> webhook_config \<Rightarrow> webhook_config" where
  "with_header k v w = w\<lparr>wh_headers := AList.update k v (wh_headers w)\<rparr>"

definition with_secret :: "string \<Rightarrow> webhook_config \<Rightarrow> webhook_config" where
  "with_secret secret w = w\<lparr>wh_secret := Some secret\<rparr>"

definition with_payload_template :: "string \<Rightarrow> webhook_config \<Rightarrow> webhook_config" where
  "with_payload_template t w = w\<lparr>wh_payload_template := Some t\<rparr>"

definition webhook_validate :: "json_env \<Rightarrow> webhook_config \<Rightarrow> unit res" where
  "webhook_validate J w =
     (case wh_payload_template w of
        None \<Rightarrow> Inr ()
      | Some template \<Rightarrow>
          (case template_parse J template of
             Inl e \<Rightarrow> Inl (ConfigError (''webhook '' @ [CHR 0x27] @ wh_name w @ [CHR 0x27] @ '': ''
                @ error_display e))
           | Inr _ \<Rightarrow> Inr ()))"

record webhook_manager_config =
  wc_max_concurrent_deliveries :: nat
  wc_max_response_body_size :: nat
  wc_log_deliveries :: bool
  wc_default_timeout_secs :: nat
  wc_max_pending_deliveries :: nat
  wc_user_agent :: string

text \<open>The permits tokio's semaphore allows are a parameter.\<close>

definition clamp_permits :: "nat \<Rightarrow> nat \<Rightarrow> nat" where
  "clamp_permits max_permits configured = max 1 (min configured max_permits)"

definition attempt_timeout :: "webhook_config \<Rightarrow> webhook_manager_config \<Rightarrow> duration" where
  "attempt_timeout w cfg =
     (if wh_timeout_secs w = 0 then wc_default_timeout_secs cfg else wh_timeout_secs w) * 10 ^ 9"

subsection \<open>One attempt\<close>

record web_env =
  hmac_sha256 :: "string \<Rightarrow> string \<Rightarrow> string"
  hex_encode :: "string \<Rightarrow> string"
  hex_decode :: "string \<Rightarrow> string option"
  basic_auth :: "string \<Rightarrow> string \<Rightarrow> string"

record http_request =
  rq_method :: http_method
  rq_url :: string
  rq_headers :: "(string \<times> string) list"
  rq_body :: json_value

text \<open>How reading the body ends after its chunks: complete, with an error, or at the deadline.\<close>

datatype body_end = BodyComplete | BodyBroken | BodyTimeout

datatype http_outcome =
    HttpTimeout
  | HttpFailed string
  | HttpResponse nat "string list" body_end

text \<open>The loop of \<open>read_body_limited\<close>; \<open>None\<close> when the body could not be read.\<close>

fun read_chunks :: "string list \<Rightarrow> body_end \<Rightarrow> nat \<Rightarrow> string \<Rightarrow> (string \<times> bool) option" where
  "read_chunks [] BodyComplete max_bytes body = Some (body, False)"
| "read_chunks [] _ max_bytes body = None"
| "read_chunks (chunk # cs) e max_bytes body =
     (let room = max_bytes - length body in
      if room < length chunk then Some (body @ take room chunk, True)
      else read_chunks cs e max_bytes (body @ chunk))"

definition response_body_text :: "string \<Rightarrow> bool \<Rightarrow> string" where
  "response_body_text body truncated = (if truncated then body @ ''... [truncated]'' else body)"

definition read_body_limited :: "string list \<Rightarrow> body_end \<Rightarrow> nat \<Rightarrow> string option" where
  "read_body_limited chunks e max_bytes =
     map_option (\<lambda>(body, truncated). response_body_text body truncated) (read_chunks chunks e max_bytes [])"

definition build_payload ::
  "externs \<Rightarrow> json_env \<Rightarrow> webhook_config \<Rightarrow> lifecycle_event \<Rightarrow> json_value res" where
  "build_payload E J w e =
     (case wh_payload_template w of
        Some template \<Rightarrow>
          (case template_parse J template of Inl err \<Rightarrow> Inl err | Inr doc \<Rightarrow> template_render E J doc e)
      | None \<Rightarrow> Inr (event_value E J e))"

fun auth_headers :: "web_env \<Rightarrow> webhook_auth \<Rightarrow> (string \<times> string) list" where
  "auth_headers W (Bearer token) = [(''Authorization'', ''Bearer '' @ token)]"
| "auth_headers W (Basic username password) = [(''Authorization'', basic_auth W username password)]"
| "auth_headers W (ApiKey header_name api_key) = [(header_name, api_key)]"
| "auth_headers W (CustomHeaders headers) = headers"

definition calculate_hmac_signature :: "web_env \<Rightarrow> json_env \<Rightarrow> string \<Rightarrow> json_value \<Rightarrow> string" where
  "calculate_hmac_signature W J secret payload =
     ''sha256='' @ hex_encode W (hmac_sha256 W secret (json_text J payload))"

definition webhook_request ::
  "web_env \<Rightarrow> json_env \<Rightarrow> webhook_config \<Rightarrow> json_value \<Rightarrow> http_request" where
  "webhook_request W J w payload =
     \<lparr>rq_method = wh_method w, rq_url = wh_url w,
      rq_headers = wh_headers w
        @ (case wh_auth w of None \<Rightarrow> [] | Some a \<Rightarrow> auth_headers W a)
        @ (case wh_secret w of
             None \<Rightarrow> []
           | Some secret \<Rightarrow> [(''X-Hammerwork-Signature'', calculate_hmac_signature W J secret payload)])
        @ [(''Content-Type'', ''application/json'')],
      rq_body = payload\<rparr>"

record webhook_delivery =
  wd_delivery_id :: uuid
  wd_webhook_id :: uuid
  wd_event_id :: uuid
  wd_status_code :: "nat option"
  wd_response_body :: "string option"
  wd_error_message :: "string option"
  wd_attempted_at :: time
  wd_duration_ms :: "nat option"
  wd_attempt_number :: nat
  wd_success :: bool

text \<open>
  What one attempt takes from outside: the id, the time and the elapsed milliseconds, and what the
  exchange of a request within a deadline returns.
\<close>

record attempt_io =
  io_uuid :: uuid
  io_now :: time
  io_elapsed_ms :: nat
  io_counted_at :: time
  io_send :: "http_request \<Rightarrow> duration \<Rightarrow> http_outcome"

definition is_success :: "nat \<Rightarrow> bool" where
  "is_success status \<longleftrightarrow> 200 \<le> status \<and> status < 300"

definition attempt_failure ::
  "webhook_config \<Rightarrow> lifecycle_event \<Rightarrow> attempt_io \<Rightarrow> nat \<Rightarrow> nat option \<Rightarrow> string \<Rightarrow> nat \<Rightarrow> webhook_delivery" where
  "attempt_failure w e io n status err ms =
     \<lparr>wd_delivery_id = io_uuid io, wd_webhook_id = wh_id w, wd_event_id = le_event_id e,
      wd_status_code = status, wd_response_body = None, wd_error_message = Some err,
      wd_attempted_at = io_now io, wd_duration_ms = Some ms, wd_attempt_number = n, wd_success = False\<rparr>"

definition attempt_webhook_delivery ::
  "externs \<Rightarrow> json_env \<Rightarrow> web_env \<Rightarrow> webhook_manager_config \<Rightarrow> webhook_config \<Rightarrow> lifecycle_event \<Rightarrow>
     attempt_io \<Rightarrow> nat \<Rightarrow> webhook_delivery" where
  "attempt_webhook_delivery E J W cfg w e io n =
     (case build_payload E J w e of
        Inl err \<Rightarrow> attempt_failure w e io n None (''failed to build payload: '' @ error_display err) 0
      | Inr payload \<Rightarrow>
          (case io_send io (webhook_request W J w payload) (attempt_timeout w cfg) of
             HttpFailed err \<Rightarrow> attempt_failure w e io n None err (io_elapsed_ms io)
           | HttpTimeout \<Rightarrow> attempt_failure w e io n (Some 408) ''Request timeout'' (io_elapsed_ms io)
           | HttpResponse status chunks body_end \<Rightarrow>
               \<lparr>wd_delivery_id = io_uuid io, wd_webhook_id = wh_id w, wd_event_id = le_event_id e,
                wd_status_code = Some status,
                wd_response_body = read_body_limited chunks body_end (wc_max_response_body_size cfg),
                wd_error_message = (if is_success status then None else Some (''HTTP '' @ show_nat status)),
                wd_attempted_at = io_now io, wd_duration_ms = Some (io_elapsed_ms io),
                wd_attempt_number = n, wd_success = is_success status\<rparr>))"

subsection \<open>Statistics\<close>

record webhook_stats =
  ws_webhook_id :: uuid
  ws_total_attempts :: nat
  ws_failed_attempts :: nat
  ws_successful_deliveries :: nat
  ws_failed_deliveries :: nat
  ws_success_rate :: rat
  ws_avg_response_time_ms :: rat
  ws_last_success_at :: "time option"
  ws_last_failure_at :: "time option"
  ws_dropped_events :: nat
  ws_calculated_at :: time

definition stats_empty :: "uuid \<Rightarrow> time \<Rightarrow> webhook_stats" where
  "stats_empty i now =
     \<lparr>ws_webhook_id = i, ws_total_attempts = 0, ws_failed_attempts = 0, ws_successful_deliveries = 0,
      ws_failed_deliveries = 0, ws_success_rate = 0, ws_avg_response_time_ms = 0,
      ws_last_success_at = None, ws_last_failure_at = None, ws_dropped_events = 0,
      ws_calculated_at = now\<rparr>"

definition count_attempt :: "time \<Rightarrow> webhook_delivery \<Rightarrow> webhook_stats \<Rightarrow> webhook_stats" where
  "count_attempt now d s =
     (let s1 = s\<lparr>ws_total_attempts := ws_total_attempts s + 1\<rparr>;
          s2 = (if wd_success d then s1\<lparr>ws_last_success_at := Some (wd_attempted_at d)\<rparr>
                else s1\<lparr>ws_failed_attempts := ws_failed_attempts s1 + 1,
                        ws_last_failure_at := Some (wd_attempted_at d)\<rparr>);
          s3 = (case wd_duration_ms d of
                  None \<Rightarrow> s2
                | Some ms \<Rightarrow>
                    s2\<lparr>ws_avg_response_time_ms :=
                        (ws_avg_response_time_ms s2 * of_nat (ws_total_attempts s2 - 1) + of_nat ms)
                          / of_nat (ws_total_attempts s2)\<rparr>) in
      s3\<lparr>ws_calculated_at := now\<rparr>)"

definition update_webhook_stats ::
  "time \<Rightarrow> uuid \<Rightarrow> webhook_delivery \<Rightarrow> (uuid \<rightharpoonup> webhook_stats) \<Rightarrow> (uuid \<rightharpoonup> webhook_stats)" where
  "update_webhook_stats now i d stats =
     (case stats i of None \<Rightarrow> stats | Some s \<Rightarrow> stats(i \<mapsto> count_attempt now d s))"

definition count_outcome :: "time \<Rightarrow> bool \<Rightarrow> webhook_stats \<Rightarrow> webhook_stats" where
  "count_outcome now success s =
     (let s1 = (if success then s\<lparr>ws_successful_deliveries := ws_successful_deliveries s + 1\<rparr>
                else s\<lparr>ws_failed_deliveries := ws_failed_deliveries s + 1\<rparr>);
          finished = ws_successful_deliveries s1 + ws_failed_deliveries s1 in
      s1\<lparr>ws_success_rate := of_nat (ws_successful_deliveries s1) / of_nat finished,
         ws_calculated_at := now\<rparr>)"

definition record_delivery_outcome ::
  "time \<Rightarrow> uuid \<Rightarrow> bool \<Rightarrow> (uuid \<rightharpoonup> webhook_stats) \<Rightarrow> (uuid \<rightharpoonup> webhook_stats)" where
  "record_delivery_outcome now i success stats =
     (case stats i of None \<Rightarrow> stats | Some s \<Rightarrow> stats(i \<mapsto> count_outcome now success s))"

subsection \<open>Delivery with retries\<close>

definition retryable :: "retry_policy \<Rightarrow> webhook_delivery \<Rightarrow> bool" where
  "retryable p d = (case wd_status_code d of Some code \<Rightarrow> should_retry_status p code | None \<Rightarrow> True)"

text \<open>
  The loop; \<open>attempts n\<close> is what attempt \<open>n\<close> returns, \<open>clock n\<close> when it is counted, and
  \<open>sleeps\<close> collects the delays it waits.
\<close>

function deliver_loop ::
  "float_env \<Rightarrow> webhook_config \<Rightarrow> (nat \<Rightarrow> webhook_delivery) \<Rightarrow> (nat \<Rightarrow> time) \<Rightarrow> nat \<Rightarrow> nat \<Rightarrow> bool option \<Rightarrow> duration list \<Rightarrow>
     (uuid \<rightharpoonup> webhook_stats) \<Rightarrow> bool option \<times> duration list \<times> (uuid \<rightharpoonup> webhook_stats)" where
  "deliver_loop F w attempts clock max_attempts attempt outcome sleeps stats =
     (if attempt < max_attempts then
        (let n = attempt + 1;
             d = attempts n;
             stats1 = update_webhook_stats (clock n) (wh_id w) d stats;
             outcome1 = Some (wd_success d) in
         if wd_success d then (outcome1, sleeps, stats1)
         else if n < max_attempts then
           (if retryable (wh_retry_policy w) d
            then deliver_loop F w attempts clock max_attempts n outcome1
                   (sleeps @ [policy_delay F (wh_retry_policy w) (n - 1)]) stats1
            else (outcome1, sleeps, stats1))
         else deliver_loop F w attempts clock max_attempts n outcome1 sleeps stats1)
      else (outcome, sleeps, stats))"
  by pat_completeness auto
termination
  by (relation "measure (\<lambda>(F, w, attempts, clock, m, n, outcome, sleeps, stats). m - n)") auto

declare deliver_loop.simps [simp del]

definition deliver_webhook_event ::
  "externs \<Rightarrow> json_env \<Rightarrow> web_env \<Rightarrow> float_env \<Rightarrow> webhook_manager_config \<Rightarrow> webhook_config \<Rightarrow>
     lifecycle_event \<Rightarrow> (nat \<Rightarrow> attempt_io) \<Rightarrow> time \<Rightarrow> (uuid \<rightharpoonup> webhook_stats) \<Rightarrow>
     duration list \<times> (uuid \<rightharpoonup> webhook_stats)" where
  "deliver_webhook_event E J W F cfg w e io done_at stats =
     (case deliver_loop F w (\<lambda>n. attempt_webhook_delivery E J W cfg w e (io n) n) (\<lambda>n. io_counted_at (io n))
             (max (rp_max_attempts (wh_retry_policy w)) 1) 0 None [] stats of
        (outcome, sleeps, stats1) \<Rightarrow>
          (sleeps,
           (case outcome of
              Some success \<Rightarrow> record_delivery_outcome done_at (wh_id w) success stats1
            | None \<Rightarrow> stats1)))"

subsection \<open>Lemmas\<close>

abbreviation count_attempts ::
  "uuid \<Rightarrow> (nat \<Rightarrow> webhook_delivery) \<Rightarrow> (nat \<Rightarrow> time) \<Rightarrow> nat list \<Rightarrow> (uuid \<rightharpoonup> webhook_stats) \<Rightarrow> (uuid \<rightharpoonup> webhook_stats)" where
  "count_attempts i A clock ns stats \<equiv> fold (\<lambda>n. update_webhook_stats (clock n) i (A n)) ns stats"

lemma deliver_loop_end: "m \<le> n \<Longrightarrow> deliver_loop F w A clock m n outcome sleeps stats = (outcome, sleeps, stats)"
  by (subst deliver_loop.simps) simp

lemma deliver_loop_spec:
  assumes "attempt < m"
  shows "\<exists>k. attempt < k \<and> k \<le> m \<and>
    (\<forall>n. attempt < n \<and> n < k \<longrightarrow> \<not> wd_success (A n) \<and> retryable (wh_retry_policy w) (A n)) \<and>
    (wd_success (A k) \<or> \<not> retryable (wh_retry_policy w) (A k) \<or> k = m) \<and>
    deliver_loop F w A clock m attempt outcome sleeps stats =
      (Some (wd_success (A k)), sleeps @ map (policy_delay F (wh_retry_policy w)) [attempt..<k - 1],
       count_attempts (wh_id w) A clock [attempt + 1..<k + 1] stats)"
  using assms
proof (induction F w A clock m attempt outcome sleeps stats rule: deliver_loop.induct)
  case (1 F w A clock m a outcome sleeps stats)
  let ?n = "a + 1"
  let ?stats = "update_webhook_stats (clock ?n) (wh_id w) (A ?n) stats"
  show ?case
  proof (cases "wd_success (A ?n) \<or> \<not> retryable (wh_retry_policy w) (A ?n) \<or> ?n = m")
    case True
    then have "deliver_loop F w A clock m a outcome sleeps stats = (Some (wd_success (A ?n)), sleeps, ?stats)"
      using \<open>a < m\<close> by (subst deliver_loop.simps) (auto simp: Let_def deliver_loop_end)
    with True \<open>a < m\<close> show ?thesis by (intro exI [of _ ?n]) auto
  next
    case False
    let ?sleeps = "sleeps @ [policy_delay F (wh_retry_policy w) a]"
    from False \<open>a < m\<close> have n: "?n < m" by simp
    have step: "deliver_loop F w A clock m a outcome sleeps stats =
        deliver_loop F w A clock m ?n (Some False) ?sleeps ?stats"
      using False \<open>a < m\<close> n by (subst deliver_loop.simps) (simp add: Let_def)
    from False 1(1) [OF \<open>a < m\<close> refl refl refl refl _ n _ n] obtain k where
      k: "?n < k" "k \<le> m" "\<forall>n. ?n < n \<and> n < k \<longrightarrow> \<not> wd_success (A n) \<and> retryable (wh_retry_policy w) (A n)"
      "wd_success (A k) \<or> \<not> retryable (wh_retry_policy w) (A k) \<or> k = m"
      "deliver_loop F w A clock m ?n (Some False) ?sleeps ?stats =
        (Some (wd_success (A k)), ?sleeps @ map (policy_delay F (wh_retry_policy w)) [?n..<k - 1],
         count_attempts (wh_id w) A clock [?n + 1..<k + 1] ?stats)"
      by auto
    have "[a..<k - 1] = a # [?n..<k - 1]" "[?n..<k + 1] = ?n # [?n + 1..<k + 1]"
      using k(1) by (simp_all add: upt_conv_Cons)
    moreover have "\<forall>n. a < n \<and> n < k \<longrightarrow> \<not> wd_success (A n) \<and> retryable (wh_retry_policy w) (A n)"
      using k(3) False by (metis Suc_eq_plus1 less_Suc_eq not_less_eq nat_less_le)
    ultimately show ?thesis using k step by (intro exI [of _ k]) auto
  qed
qed

text \<open>The counters after a sequence of attempts.\<close>

lemma count_attempts_Some:
  "stats i = Some s \<Longrightarrow>
     count_attempts i A clock ns stats = stats(i \<mapsto> fold (\<lambda>n. count_attempt (clock n) (A n)) ns s)"
proof (induction ns arbitrary: s stats)
  case (Cons n ns)
  have "update_webhook_stats (clock n) i (A n) stats = stats(i \<mapsto> count_attempt (clock n) (A n) s)"
    using Cons.prems by (simp add: update_webhook_stats_def)
  with Cons.IH [of "stats(i \<mapsto> count_attempt (clock n) (A n) s)" "count_attempt (clock n) (A n) s"]
  show ?case by (simp del: fun_upd_apply add: fun_upd_same)
qed (simp add: fun_upd_idem)

lemma count_attempt_simps [simp]:
  "ws_total_attempts (count_attempt now d s) = ws_total_attempts s + 1"
  "ws_failed_attempts (count_attempt now d s) = ws_failed_attempts s + (if wd_success d then 0 else 1)"
  "ws_successful_deliveries (count_attempt now d s) = ws_successful_deliveries s"
  "ws_failed_deliveries (count_attempt now d s) = ws_failed_deliveries s"
  by (simp_all add: count_attempt_def Let_def split: option.split)

lemma count_attempt_avg:
  "wd_duration_ms d = Some ms \<Longrightarrow>
     ws_avg_response_time_ms (count_attempt now d s) * of_nat (ws_total_attempts s + 1) =
       ws_avg_response_time_ms s * of_nat (ws_total_attempts s) + of_nat ms"
  by (simp add: count_attempt_def Let_def del: of_nat_Suc)

lemma fold_attempts:
  fixes A :: "nat \<Rightarrow> webhook_delivery" and clock :: "nat \<Rightarrow> time" and s :: webhook_stats
  defines "s' ns \<equiv> fold (\<lambda>n. count_attempt (clock n) (A n)) ns s"
  shows "ws_total_attempts (s' ns) = ws_total_attempts s + length ns"
    "ws_failed_attempts (s' ns) = ws_failed_attempts s + length (filter (\<lambda>n. \<not> wd_success (A n)) ns)"
    "ws_successful_deliveries (s' ns) = ws_successful_deliveries s"
    "ws_failed_deliveries (s' ns) = ws_failed_deliveries s"
    "(\<And>n. n \<in> set ns \<Longrightarrow> wd_duration_ms (A n) \<noteq> None) \<Longrightarrow>
       ws_avg_response_time_ms (s' ns) * of_nat (ws_total_attempts (s' ns)) =
       ws_avg_response_time_ms s * of_nat (ws_total_attempts s) + of_nat (sum_list (map (\<lambda>n. the (wd_duration_ms (A n))) ns))"
proof -
  show total_attempts: "ws_total_attempts (s' ns) = ws_total_attempts s + length ns" for ns
    unfolding s'_def by (induction ns rule: rev_induct) simp_all
  show "ws_failed_attempts (s' ns) = ws_failed_attempts s + length (filter (\<lambda>n. \<not> wd_success (A n)) ns)"
    "ws_successful_deliveries (s' ns) = ws_successful_deliveries s"
    "ws_failed_deliveries (s' ns) = ws_failed_deliveries s"
    unfolding s'_def by (induction ns rule: rev_induct) simp_all
  assume "\<And>n. n \<in> set ns \<Longrightarrow> wd_duration_ms (A n) \<noteq> None"
  then show "ws_avg_response_time_ms (s' ns) * of_nat (ws_total_attempts (s' ns)) =
       ws_avg_response_time_ms s * of_nat (ws_total_attempts s) + of_nat (sum_list (map (\<lambda>n. the (wd_duration_ms (A n))) ns))"
  proof (induction ns rule: rev_induct)
    case (snoc n ns)
    then obtain ms where ms: "wd_duration_ms (A n) = Some ms" by fastforce
    have "s' (ns @ [n]) = count_attempt (clock n) (A n) (s' ns)" by (simp add: s'_def)
    with count_attempt_avg [OF ms, of "clock n" "s' ns"] snoc ms show ?case by (simp add: add.assoc)
  qed (simp add: s'_def)
qed

lemma attempt_duration: "wd_duration_ms (attempt_webhook_delivery E J W cfg w e io n) \<noteq> None"
  by (simp add: attempt_webhook_delivery_def attempt_failure_def split: sum.split http_outcome.split)

lemma deliver_all:
  assumes "stats (wh_id w) = Some s" and "A = (\<lambda>n. attempt_webhook_delivery E J W cfg w e (io n) n)"
    and "m = max (rp_max_attempts (wh_retry_policy w)) 1"
  shows "\<exists>k. 1 \<le> k \<and> k \<le> m \<and>
    (\<forall>n. 1 \<le> n \<and> n < k \<longrightarrow> \<not> wd_success (A n) \<and> retryable (wh_retry_policy w) (A n)) \<and>
    (wd_success (A k) \<or> \<not> retryable (wh_retry_policy w) (A k) \<or> k = m) \<and>
    deliver_webhook_event E J W F cfg w e io done_at stats =
      (map (policy_delay F (wh_retry_policy w)) [0..<k - 1],
       stats(wh_id w \<mapsto> count_outcome done_at (wd_success (A k))
         (fold (\<lambda>n. count_attempt (io_counted_at (io n)) (A n)) [1..<k + 1] s)))"
proof -
  have "0 < m" using assms(3) by simp
  from deliver_loop_spec [OF this, of A w F "\<lambda>n. io_counted_at (io n)" None "[]" stats] obtain k where
    k: "0 < k" "k \<le> m" "\<forall>n. 0 < n \<and> n < k \<longrightarrow> \<not> wd_success (A n) \<and> retryable (wh_retry_policy w) (A n)"
    "wd_success (A k) \<or> \<not> retryable (wh_retry_policy w) (A k) \<or> k = m"
    "deliver_loop F w A (\<lambda>n. io_counted_at (io n)) m 0 None [] stats =
      (Some (wd_success (A k)), map (policy_delay F (wh_retry_policy w)) [0..<k - 1],
       count_attempts (wh_id w) A (\<lambda>n. io_counted_at (io n)) [1..<k + 1] stats)"
    by auto
  have "deliver_webhook_event E J W F cfg w e io done_at stats =
      (map (policy_delay F (wh_retry_policy w)) [0..<k - 1],
       record_delivery_outcome done_at (wh_id w) (wd_success (A k))
         (count_attempts (wh_id w) A (\<lambda>n. io_counted_at (io n)) [1..<k + 1] stats))"
    unfolding deliver_webhook_event_def assms(2,3) [symmetric] k(5) by simp
  with k count_attempts_Some [of stats "wh_id w" s "\<lambda>n. io_counted_at (io n)" A "[1..<k + 1]", OF assms(1)]
  show ?thesis by (intro exI [of _ k]) (auto simp: record_delivery_outcome_def)
qed

text \<open>
  C9: Delivering an event makes at least one and at most the policy's number of attempts, going on only
  after a failed attempt whose status may be retried, with the policy's delays in between. Every
  attempt is counted, the average response time is that of all attempts, and the event counts
  as exactly one successful or failed delivery, by its last attempt, whatever its retries; the
  success rate is the share of successful deliveries. Other webhooks' statistics do not change.
\<close>

theorem webhook_delivery_accounted:
  assumes "stats (wh_id w) = Some s" and "A = (\<lambda>n. attempt_webhook_delivery E J W cfg w e (io n) n)"
    and "m = max (rp_max_attempts (wh_retry_policy w)) 1"
  shows "\<exists>k s'. deliver_webhook_event E J W F cfg w e io done_at stats =
      (map (policy_delay F (wh_retry_policy w)) [0..<k - 1], stats(wh_id w \<mapsto> s')) \<and>
    1 \<le> k \<and> k \<le> m \<and>
    (\<forall>n. 1 \<le> n \<and> n < k \<longrightarrow> \<not> wd_success (A n) \<and> retryable (wh_retry_policy w) (A n)) \<and>
    (wd_success (A k) \<or> \<not> retryable (wh_retry_policy w) (A k) \<or> k = m) \<and>
    ws_total_attempts s' = ws_total_attempts s + k \<and>
    ws_failed_attempts s' = ws_failed_attempts s + (if wd_success (A k) then k - 1 else k) \<and>
    ws_successful_deliveries s' = ws_successful_deliveries s + (if wd_success (A k) then 1 else 0) \<and>
    ws_failed_deliveries s' = ws_failed_deliveries s + (if wd_success (A k) then 0 else 1) \<and>
    ws_success_rate s' =
      of_nat (ws_successful_deliveries s') / of_nat (ws_successful_deliveries s' + ws_failed_deliveries s') \<and>
    ws_avg_response_time_ms s' * of_nat (ws_total_attempts s') =
      ws_avg_response_time_ms s * of_nat (ws_total_attempts s)
        + of_nat (sum_list (map (\<lambda>n. the (wd_duration_ms (A n))) [1..<k + 1]))"
proof -
  from deliver_all [where stats = stats and w = w and s = s and io = io, OF assms, of F done_at] obtain k where
    k: "1 \<le> k" "k \<le> m" "\<forall>n. 1 \<le> n \<and> n < k \<longrightarrow> \<not> wd_success (A n) \<and> retryable (wh_retry_policy w) (A n)"
    "wd_success (A k) \<or> \<not> retryable (wh_retry_policy w) (A k) \<or> k = m"
    "deliver_webhook_event E J W F cfg w e io done_at stats =
      (map (policy_delay F (wh_retry_policy w)) [0..<k - 1],
       stats(wh_id w \<mapsto> count_outcome done_at (wd_success (A k))
         (fold (\<lambda>n. count_attempt (io_counted_at (io n)) (A n)) [1..<k + 1] s)))" by blast
  define t where "t = fold (\<lambda>n. count_attempt (io_counted_at (io n)) (A n)) [1..<k + 1] s"
  define s' where "s' = count_outcome done_at (wd_success (A k)) t"
  have "filter (\<lambda>n. \<not> wd_success (A n)) [1..<k] = [1..<k]"
    using k(3) by (auto intro!: filter_True)
  then have f: "length (filter (\<lambda>n. \<not> wd_success (A n)) [1..<k + 1]) = (if wd_success (A k) then k - 1 else k)"
    using k(1) by (simp add: upt_Suc)
  note fold = fold_attempts [where clock = "\<lambda>n. io_counted_at (io n)" and A = A and ns = "[1..<k + 1]" and s = s,
      folded t_def]
  have t: "ws_total_attempts t = ws_total_attempts s + k"
    "ws_failed_attempts t = ws_failed_attempts s + (if wd_success (A k) then k - 1 else k)"
    "ws_successful_deliveries t = ws_successful_deliveries s" "ws_failed_deliveries t = ws_failed_deliveries s"
    unfolding fold(1-4) f by (simp_all only: length_upt add_diff_cancel_right')
  have avg: "ws_avg_response_time_ms t * of_nat (ws_total_attempts t) =
      ws_avg_response_time_ms s * of_nat (ws_total_attempts s)
        + of_nat (sum_list (map (\<lambda>n. the (wd_duration_ms (A n))) [1..<k + 1]))"
    using attempt_duration assms(2) by (intro fold(5)) simp
  have "ws_total_attempts s' = ws_total_attempts t" "ws_failed_attempts s' = ws_failed_attempts t"
    "ws_avg_response_time_ms s' = ws_avg_response_time_ms t"
    "ws_successful_deliveries s' = ws_successful_deliveries t + (if wd_success (A k) then 1 else 0)"
    "ws_failed_deliveries s' = ws_failed_deliveries t + (if wd_success (A k) then 0 else 1)"
    "ws_success_rate s' =
      of_nat (ws_successful_deliveries s') / of_nat (ws_successful_deliveries s' + ws_failed_deliveries s')"
    by (simp_all add: s'_def count_outcome_def Let_def)
  with k(1-4) k(5) [folded t_def, folded s'_def] avg t show ?thesis by metis
qed

text \<open>A webhook whose endpoint answers 503 once and then 200.\<close>

definition sample_io :: "nat \<Rightarrow> attempt_io" where
  "sample_io n =
     \<lparr>io_uuid = n, io_now = int n, io_elapsed_ms = 10, io_counted_at = int n,
      io_send = (\<lambda>_ _. HttpResponse (if n = 1 then 503 else 200) [''ok''] BodyComplete)\<rparr>"

definition sample_web :: web_env where
  "sample_web =
     \<lparr>hmac_sha256 = (\<lambda>k m. k @ m), hex_encode = concat \<circ> map (\<lambda>c. [CHR ''0'', c]),
      hex_decode = (\<lambda>_. None), basic_auth = (\<lambda>u p. u @ p)\<rparr>"

definition sample_webhook_config :: webhook_manager_config where
  "sample_webhook_config =
     \<lparr>wc_max_concurrent_deliveries = 100, wc_max_response_body_size = 65536, wc_log_deliveries = True,
      wc_default_timeout_secs = 30, wc_max_pending_deliveries = 1000, wc_user_agent = ''a''\<rparr>"

lemma sample_attempts:
  "wd_success (attempt_webhook_delivery sample_externs sample_json sample_web sample_webhook_config
     (webhook_new 7 ''w'' ''u'') (event_started 1 0 2 ''q'' Normal) (sample_io n) n) \<longleftrightarrow> n \<noteq> 1"
  "retryable retry_policy_default (attempt_webhook_delivery sample_externs sample_json sample_web
     sample_webhook_config (webhook_new 7 ''w'' ''u'') (event_started 1 0 2 ''q'' Normal) (sample_io 1) 1)"
  by (simp_all add: attempt_webhook_delivery_def build_payload_def webhook_new_def sample_io_def is_success_def
      retryable_def should_retry_status_def retry_policy_default_def)

lemma webhook_delivery_witness:
  "\<exists>s'. snd (deliver_webhook_event sample_externs sample_json sample_web exact_floats sample_webhook_config
       (webhook_new 7 ''w'' ''u'') (event_started 1 0 2 ''q'' Normal) sample_io 5 [7 \<mapsto> stats_empty 7 0])
     = [7 \<mapsto> s'] \<and> ws_total_attempts s' = 2 \<and> ws_failed_attempts s' = 1 \<and> ws_success_rate s' = 1"
proof -
  let ?w = "webhook_new 7 ''w'' ''u''"
  define A where "A = (\<lambda>n. attempt_webhook_delivery sample_externs sample_json sample_web sample_webhook_config
    ?w (event_started 1 0 2 ''q'' Normal) (sample_io n) n)"
  have p: "wh_retry_policy ?w = retry_policy_default" "wh_id ?w = 7" by (simp_all add: webhook_new_def)
  have m: "(3 :: nat) = max (rp_max_attempts (wh_retry_policy ?w)) 1"
    by (simp add: webhook_new_def retry_policy_default_def)
  have s: "[7 \<mapsto> stats_empty 7 0] (wh_id ?w) = Some (stats_empty 7 0)" using p(2) by simp
  have A: "wd_success (A n) \<longleftrightarrow> n \<noteq> 1" "retryable retry_policy_default (A 1)" for n
    unfolding A_def by (rule sample_attempts)+
  obtain k s' where k: "deliver_webhook_event sample_externs sample_json sample_web exact_floats
      sample_webhook_config ?w (event_started 1 0 2 ''q'' Normal) sample_io 5 [7 \<mapsto> stats_empty 7 0] =
      (map (policy_delay exact_floats (wh_retry_policy ?w)) [0..<k - 1], [7 \<mapsto> stats_empty 7 0, wh_id ?w \<mapsto> s'])"
    "1 \<le> k" "k \<le> 3" "\<forall>n. 1 \<le> n \<and> n < k \<longrightarrow> \<not> wd_success (A n) \<and> retryable (wh_retry_policy ?w) (A n)"
    "wd_success (A k) \<or> \<not> retryable (wh_retry_policy ?w) (A k) \<or> k = 3"
    "ws_total_attempts s' = ws_total_attempts (stats_empty 7 0) + k"
    "ws_failed_attempts s' = ws_failed_attempts (stats_empty 7 0) + (if wd_success (A k) then k - 1 else k)"
    "ws_successful_deliveries s' = ws_successful_deliveries (stats_empty 7 0) + (if wd_success (A k) then 1 else 0)"
    "ws_failed_deliveries s' = ws_failed_deliveries (stats_empty 7 0) + (if wd_success (A k) then 0 else 1)"
    "ws_success_rate s' =
      of_nat (ws_successful_deliveries s') / of_nat (ws_successful_deliveries s' + ws_failed_deliveries s')"
    using webhook_delivery_accounted [where stats = "[7 \<mapsto> stats_empty 7 0]" and w = ?w and s = "stats_empty 7 0"
      and io = sample_io and F = exact_floats and done_at = 5, OF s A_def m] by blast
  have "k = 2"
  proof (rule antisym)
    show "k \<le> 2" using k(4) [rule_format, of 2] A(1) [of 2] by (cases "k \<le> 2") auto
    show "2 \<le> k" using k(2,5) A(1) [of k] A(2) p(1) by (cases "k = 1") auto
  qed
  with k(1,6-10) A(1) [of 2] p(2) show ?thesis by (intro exI [of _ s']) (simp add: stats_empty_def)
qed

subsection \<open>Retry delays\<close>

text \<open>The delay never exceeds the maximum, when the maximum is exact as a float.\<close>

lemma policy_delay_le:
  assumes "fl_round F (of_nat (rp_max_delay_secs p)) = Fin (of_nat (rp_max_delay_secs p))"
  shows "policy_delay F p n \<le> rp_max_delay_secs p * 10 ^ 9"
proof -
  have "f64_to_u64 (f64_min x (Fin (of_nat d))) \<le> d" for x d
    by (cases x) (auto simp: f64_min_def f64_to_u64_def min_le_iff_disj nat_le_iff floor_le_iff)
  then show ?thesis using assms by (simp add: policy_delay_def Let_def)
qed

subsection \<open>Signatures\<close>

definition generate_hmac_signature :: "web_env \<Rightarrow> string \<Rightarrow> string \<Rightarrow> string" where
  "generate_hmac_signature W secret payload = hex_encode W (hmac_sha256 W secret payload)"

definition verify_hmac_signature :: "web_env \<Rightarrow> string \<Rightarrow> string \<Rightarrow> string \<Rightarrow> bool" where
  "verify_hmac_signature W secret payload signature =
     (let s = str_trim signature;
          hex_signature = unwrap_or (strip_prefix ''sha256='' s) s in
      case hex_decode W hex_signature of
        None \<Rightarrow> False
      | Some bytes \<Rightarrow> bytes = hmac_sha256 W secret payload)"

text \<open>What the hex crate documents: decoding undoes encoding, and encoded text is hexadecimal digits.\<close>

definition hex_laws :: "web_env \<Rightarrow> bool" where
  "hex_laws W \<longleftrightarrow>
     (\<forall>b. hex_decode W (hex_encode W b) = Some b) \<and>
     (\<forall>b. list_all (\<lambda>c. is_digit c \<or> c \<in> set ''abcdef'') (hex_encode W b))"

lemma hex_char: "is_digit c \<or> c \<in> set ''abcdef'' \<Longrightarrow> \<not> is_ascii_space c \<and> c \<noteq> CHR ''s''"
  by (auto simp: is_ascii_space_def is_digit_def Let_def)

lemma str_trim_between:
  assumes "list_all is_ascii_space a" and "list_all is_ascii_space b" and "list_all (\<lambda>c. \<not> is_ascii_space c) s"
  shows "str_trim (a @ s @ b) = s"
proof -
  have drop: "dropWhile is_ascii_space (x @ y) = dropWhile is_ascii_space y" if "list_all is_ascii_space x" for x y
    using that by (intro dropWhile_append2) (simp add: list_all_iff)
  have keep: "dropWhile is_ascii_space x = x" if "list_all (\<lambda>c. \<not> is_ascii_space c) x" for x
    using that by (cases x) simp_all
  show ?thesis
  proof (cases s)
    case Nil
    have e: "dropWhile is_ascii_space (a @ b) = []" using assms(1,2) by (auto simp: list_all_iff)
    show ?thesis unfolding Nil str_trim_def append_Nil e by simp
  next
    case (Cons c cs)
    then have "dropWhile is_ascii_space (a @ s @ b) = s @ b" using assms drop by simp
    then show ?thesis using assms drop [of "rev b"] keep [of "rev s"] by (simp add: str_trim_def list_all_iff)
  qed
qed

lemma verify_generated:
  assumes "hex_laws W" and "list_all is_ascii_space a" and "list_all is_ascii_space b"
    and "pre = [] \<or> pre = ''sha256=''"
  shows "verify_hmac_signature W secret payload (a @ pre @ hex_encode W m @ b) \<longleftrightarrow> m = hmac_sha256 W secret payload"
proof -
  have h: "list_all (\<lambda>c. \<not> is_ascii_space c \<and> c \<noteq> CHR ''s'') (hex_encode W m)"
    using assms(1) hex_char unfolding hex_laws_def list_all_iff by blast
  have "list_all (\<lambda>c. \<not> is_ascii_space c) (pre @ hex_encode W m)"
  proof -
    have "list_all (\<lambda>c. \<not> is_ascii_space c) pre" using assms(4)
    proof
      assume "pre = ''sha256=''"
      then show ?thesis by (simp add: is_ascii_space_def)
    qed simp
    moreover have "list_all (\<lambda>c. \<not> is_ascii_space c) (hex_encode W m)"
      using h by (rule list.pred_mono_strong) simp
    ultimately show ?thesis by simp
  qed
  from str_trim_between [OF assms(2,3) this] have t: "str_trim (a @ pre @ hex_encode W m @ b) = pre @ hex_encode W m"
    by simp
  have "\<not> prefix ''sha256='' (hex_encode W m)"
    using h by (cases "hex_encode W m") auto
  then have "unwrap_or (strip_prefix ''sha256='' (pre @ hex_encode W m)) (pre @ hex_encode W m) = hex_encode W m"
    using assms(4) by (auto simp: strip_prefix_def)
  with assms(1) t show ?thesis by (simp add: verify_hmac_signature_def Let_def hex_laws_def)
qed

text \<open>
  A receiver accepts the signature header of every delivery, and the bare hexadecimal
  signature, with any white space around them, and accepts a well-formed signature only when it
  is the HMAC of the received payload under its secret.
\<close>

theorem signature_verifies:
  assumes "hex_laws W" and "list_all is_ascii_space a" and "list_all is_ascii_space b"
  shows "verify_hmac_signature W secret (json_text J payload)
      (a @ calculate_hmac_signature W J secret payload @ b) \<and>
    verify_hmac_signature W secret p (a @ generate_hmac_signature W secret p @ b) \<and>
    (verify_hmac_signature W secret p (a @ generate_hmac_signature W secret' p' @ b) \<longleftrightarrow>
      hmac_sha256 W secret' p' = hmac_sha256 W secret p)"
  using verify_generated [OF assms, of "''sha256=''" secret "json_text J payload"]
    verify_generated [OF assms, of "[]" secret p]
  by (simp add: calculate_hmac_signature_def generate_hmac_signature_def)

text \<open>A toy codec that satisfies the laws: the digit 0 repeated as often as the code of each byte says.\<close>

fun unary_encode :: "string \<Rightarrow> string" where
  "unary_encode [] = []"
| "unary_encode (c # cs) = replicate (of_char c) (CHR ''0'') @ CHR ''1'' # unary_encode cs"

fun unary_decode :: "nat \<Rightarrow> string \<Rightarrow> string option" where
  "unary_decode n [] = (if n = 0 then Some [] else None)"
| "unary_decode n (c # cs) =
     (if c = CHR ''0'' then unary_decode (n + 1) cs
      else if c = CHR ''1'' then map_option (\<lambda>s. char_of n # s) (unary_decode 0 cs)
      else None)"

definition unary_web :: web_env where
  "unary_web =
     \<lparr>hmac_sha256 = (\<lambda>k m. k @ m), hex_encode = unary_encode, hex_decode = unary_decode 0,
      basic_auth = (\<lambda>u p. u @ p)\<rparr>"

lemma unary_laws: "hex_laws unary_web"
proof -
  have z: "unary_decode n (replicate k (CHR ''0'') @ CHR ''1'' # s) =
      map_option (\<lambda>t. char_of (n + k) # t) (unary_decode 0 s)" for n k s
    by (induction k arbitrary: n) simp_all
  have "unary_decode 0 (unary_encode b) = Some b" for b
    by (induction b) (simp_all add: z)
  moreover have "list_all (\<lambda>c. is_digit c \<or> c \<in> set ''abcdef'') (unary_encode b)" for b
    by (induction b) (auto simp: is_digit_def list_all_iff)
  ultimately show ?thesis by (simp add: hex_laws_def unary_web_def)
qed

lemma signature_witness:
  "verify_hmac_signature unary_web ''k'' (json_text sample_json JNull)
     ('' '' @ calculate_hmac_signature unary_web sample_json ''k'' JNull @ []) \<and>
   \<not> verify_hmac_signature unary_web ''k'' ''p'' ('' '' @ generate_hmac_signature unary_web ''x'' ''p'' @ [])"
proof -
  have "list_all is_ascii_space '' ''" "list_all is_ascii_space []" by (simp_all add: is_ascii_space_def)
  from signature_verifies [OF unary_laws this, of "''k''" sample_json JNull]
    signature_verifies [OF unary_laws this, of "''k''" sample_json JNull "''p''" "''x''" "''p''"]
  show ?thesis by (simp add: unary_web_def)
qed

subsection \<open>The manager\<close>

text \<open>
  The registries as maps by webhook id; a listener's handle is its subscription's id. \<open>wm_closed\<close>
  tells that the listener tasks were closed by a shutdown.
\<close>

record webhook_manager =
  wm_webhooks :: "uuid \<rightharpoonup> webhook_config"
  wm_subscriptions :: "(uuid \<times> uuid) list"
  wm_stats :: "uuid \<rightharpoonup> webhook_stats"
  wm_events :: event_manager
  wm_config :: webhook_manager_config
  wm_closed :: bool

definition webhook_manager_new :: "event_manager \<Rightarrow> webhook_manager_config \<Rightarrow> webhook_manager" where
  "webhook_manager_new em cfg =
     \<lparr>wm_webhooks = Map.empty, wm_subscriptions = [], wm_stats = Map.empty, wm_events = em,
      wm_config = cfg, wm_closed = False\<rparr>"

text \<open>A listener that cannot be started drops its subscription.\<close>

definition add_webhook :: "json_env \<Rightarrow> uuid \<Rightarrow> time \<Rightarrow> webhook_config \<Rightarrow> webhook_manager \<Rightarrow> unit res \<times> webhook_manager" where
  "add_webhook J u now w m =
     (case webhook_validate J w of
        Inl e \<Rightarrow> (Inl e, m)
      | Inr _ \<Rightarrow>
          (let i = wh_id w;
               em1 = snd (subscribe u (wh_filter w) (wm_events m));
               replaced = map_of (wm_subscriptions m) i;
               em2 = (case replaced of None \<Rightarrow> em1 | Some u' \<Rightarrow> snd (unsubscribe u' em1));
               em3 = (if wm_closed m then drop_subscription u em2 else em2) in
           (Inr (), m\<lparr>wm_webhooks := (wm_webhooks m)(i \<mapsto> w),
                     wm_stats := (wm_stats m)(i \<mapsto> stats_empty i now),
                     wm_subscriptions := AList.update i u (wm_subscriptions m), wm_events := em3\<rparr>)))"

definition remove_webhook :: "uuid \<Rightarrow> webhook_manager \<Rightarrow> unit res \<times> webhook_manager" where
  "remove_webhook i m =
     (Inr (), m\<lparr>wm_webhooks := (wm_webhooks m)(i := None),
               wm_events := (case map_of (wm_subscriptions m) i of
                               None \<Rightarrow> wm_events m
                             | Some u \<Rightarrow> snd (unsubscribe u (wm_events m))),
               wm_subscriptions := AList.delete i (wm_subscriptions m),
               wm_stats := (wm_stats m)(i := None)\<rparr>)"

definition webhook_not_found :: "externs \<Rightarrow> uuid \<Rightarrow> hammerwork_error" where
  "webhook_not_found E i = QueueError (''Webhook '' @ uuid_show E i @ '' not found'')"

definition enable_webhook :: "externs \<Rightarrow> uuid \<Rightarrow> webhook_manager \<Rightarrow> unit res \<times> webhook_manager" where
  "enable_webhook E i m =
     (case wm_webhooks m i of
        Some w \<Rightarrow> (Inr (), m\<lparr>wm_webhooks := (wm_webhooks m)(i \<mapsto> w\<lparr>wh_enabled := True\<rparr>)\<rparr>)
      | None \<Rightarrow> (Inl (webhook_not_found E i), m))"

definition disable_webhook :: "externs \<Rightarrow> uuid \<Rightarrow> webhook_manager \<Rightarrow> unit res \<times> webhook_manager" where
  "disable_webhook E i m =
     (case wm_webhooks m i of
        Some w \<Rightarrow> (Inr (), m\<lparr>wm_webhooks := (wm_webhooks m)(i \<mapsto> w\<lparr>wh_enabled := False\<rparr>)\<rparr>)
      | None \<Rightarrow> (Inl (webhook_not_found E i), m))"

definition update_webhook ::
  "json_env \<Rightarrow> uuid \<Rightarrow> time \<Rightarrow> webhook_config \<Rightarrow> webhook_manager \<Rightarrow> unit res \<times> webhook_manager" where
  "update_webhook J u now w m =
     (case webhook_validate J w of
        Inl e \<Rightarrow> (Inl e, m)
      | Inr _ \<Rightarrow>
          (case wm_webhooks m (wh_id w) of
             Some _ \<Rightarrow> (Inr (), m\<lparr>wm_webhooks := (wm_webhooks m)(wh_id w \<mapsto> w)\<rparr>)
           | None \<Rightarrow> add_webhook J u now w m))"

definition webhook_shutdown :: "webhook_manager \<Rightarrow> webhook_manager" where
  "webhook_shutdown m =
     m\<lparr>wm_closed := True, wm_subscriptions := [],
       wm_events := fold (\<lambda>h em. snd (unsubscribe (snd h) em)) (wm_subscriptions m) (wm_events m)\<rparr>"

text \<open>What the listener of a webhook starts for a received event: a delivery, or nothing.\<close>

definition listener_receive ::
  "uuid \<Rightarrow> lifecycle_event \<Rightarrow> webhook_manager \<Rightarrow> (webhook_config \<times> lifecycle_event) option" where
  "listener_receive i e m =
     (case wm_webhooks m i of
        None \<Rightarrow> None
      | Some w \<Rightarrow>
          if \<not> wh_enabled w \<or> \<not> filter_matches (wh_filter w) e then None
          else Some (w, if delivers_payload (wm_events m) (wh_filter w) then e else e\<lparr>le_payload := None\<rparr>))"

definition listener_lagged :: "uuid \<Rightarrow> nat \<Rightarrow> webhook_manager \<Rightarrow> webhook_manager" where
  "listener_lagged i skipped m =
     (case wm_stats m i of
        None \<Rightarrow> m
      | Some s \<Rightarrow> m\<lparr>wm_stats := (wm_stats m)(i \<mapsto> s\<lparr>ws_dropped_events := ws_dropped_events s + skipped\<rparr>)\<rparr>)"

subsection \<open>The registry\<close>

text \<open>
  Every webhook has statistics; a listener belongs to a webhook and has a subscription of its own,
  registered with the event manager while the manager runs.
\<close>

definition registry_ok :: "webhook_manager \<Rightarrow> bool" where
  "registry_ok m \<longleftrightarrow>
     dom (wm_stats m) = dom (wm_webhooks m) \<and> fst ` set (wm_subscriptions m) \<subseteq> dom (wm_webhooks m) \<and>
     distinct (map fst (wm_subscriptions m)) \<and> distinct (map snd (wm_subscriptions m)) \<and>
     (\<not> wm_closed m \<longrightarrow> fst ` set (wm_subscriptions m) = dom (wm_webhooks m) \<and>
        snd ` set (wm_subscriptions m) \<subseteq> fst ` set (em_subscriptions (wm_events m)))"

definition used_subscription :: "uuid \<Rightarrow> webhook_manager \<Rightarrow> bool" where
  "used_subscription u m \<longleftrightarrow>
     u \<in> snd ` set (wm_subscriptions m) \<or> u \<in> fst ` set (em_subscriptions (wm_events m))"

lemma fst_set_delete [simp]: "fst ` set (AList.delete u al) = fst ` set al - {u}"
  using arg_cong [OF delete_keys [of u al], of set] by simp

lemma subscription_ids [simp]:
  "fst ` set (em_subscriptions (snd (subscribe u f em))) = insert u (fst ` set (em_subscriptions em))"
  "fst ` set (em_subscriptions (snd (unsubscribe u em))) = fst ` set (em_subscriptions em) - {u}"
  "fst ` set (em_subscriptions (drop_subscription u em)) = fst ` set (em_subscriptions em) - {u}"
  by (simp_all add: subscribe_def unsubscribe_def drop_subscription_def dom_update)

lemma handles_update:
  "distinct (map fst al) \<Longrightarrow> distinct (map snd al) \<Longrightarrow> u \<notin> snd ` set al \<Longrightarrow>
     distinct (map snd (AList.update i u al)) \<and>
     snd ` set (AList.update i u al) = insert u (snd ` set al - set_option (map_of al i))"
proof (induction al)
  case (Cons kv al)
  obtain k v where kv: "kv = (k, v)" by (cases kv)
  have "set_option (map_of al i) \<subseteq> snd ` set al" by (force dest: map_of_SomeD)
  with Cons kv show ?case by (auto split: if_splits)
qed simp

lemma handles_delete:
  "distinct (map fst al) \<Longrightarrow> distinct (map snd al) \<Longrightarrow>
     distinct (map snd (AList.delete i al)) \<and>
     snd ` set (AList.delete i al) = snd ` set al - set_option (map_of al i)"
proof (induction al)
  case (Cons kv al)
  obtain k v where kv: "kv = (k, v)" by (cases kv)
  have "set_option (map_of al i) \<subseteq> snd ` set al" by (force dest: map_of_SomeD)
  with Cons kv show ?case by auto
qed simp

lemma registry_add:
  assumes "registry_ok m" and "\<not> used_subscription u m"
  shows "registry_ok (snd (add_webhook J u now w m))"
proof (cases "webhook_validate J w")
  case (Inr x)
  let ?subs = "AList.update (wh_id w) u (wm_subscriptions m)"
  let ?m = "snd (add_webhook J u now w m)"
  have h: "distinct (map snd ?subs)"
    "snd ` set ?subs = insert u (snd ` set (wm_subscriptions m) - set_option (map_of (wm_subscriptions m) (wh_id w)))"
    using handles_update [of "wm_subscriptions m" u "wh_id w"] assms
    by (simp_all add: registry_ok_def used_subscription_def)
  have k: "distinct (map fst ?subs)" "fst ` set ?subs = insert (wh_id w) (fst ` set (wm_subscriptions m))"
    using assms(1) by (simp_all add: registry_ok_def distinct_update dom_update)
  have f: "wm_webhooks ?m = (wm_webhooks m)(wh_id w \<mapsto> w)" "wm_subscriptions ?m = ?subs"
    "dom (wm_stats ?m) = insert (wh_id w) (dom (wm_stats m))" "wm_closed ?m = wm_closed m"
    by (simp_all add: add_webhook_def Inr Let_def)
  have "fst ` set (em_subscriptions (wm_events ?m)) =
      insert u (fst ` set (em_subscriptions (wm_events m))) - set_option (map_of (wm_subscriptions m) (wh_id w))"
    if "\<not> wm_closed m"
    using that by (simp add: add_webhook_def Inr Let_def split: option.split)
  moreover have "u \<notin> set_option (map_of (wm_subscriptions m) (wh_id w))"
    using assms(2) by (force simp: used_subscription_def dest: map_of_SomeD)
  ultimately show ?thesis using assms(1) h k unfolding registry_ok_def f by auto
qed (use assms in \<open>simp add: add_webhook_def\<close>)

lemma registry_remove:
  assumes "registry_ok m"
  shows "registry_ok (snd (remove_webhook i m))"
proof -
  let ?m = "snd (remove_webhook i m)"
  have h: "distinct (map snd (AList.delete i (wm_subscriptions m)))"
    "snd ` set (AList.delete i (wm_subscriptions m)) =
      snd ` set (wm_subscriptions m) - set_option (map_of (wm_subscriptions m) i)"
    using handles_delete [of "wm_subscriptions m" i] assms by (simp_all add: registry_ok_def)
  have "distinct (map fst (AList.delete i (wm_subscriptions m)))"
    using assms by (simp add: registry_ok_def distinct_delete)
  moreover have "fst ` set (em_subscriptions (wm_events ?m)) =
      fst ` set (em_subscriptions (wm_events m)) - set_option (map_of (wm_subscriptions m) i)"
    by (simp add: remove_webhook_def split: option.split)
  moreover have "wm_webhooks ?m = (wm_webhooks m)(i := None)" "wm_closed ?m = wm_closed m"
    "wm_subscriptions ?m = AList.delete i (wm_subscriptions m)" "wm_stats ?m = (wm_stats m)(i := None)"
    by (simp_all add: remove_webhook_def)
  ultimately show ?thesis using assms h unfolding registry_ok_def by auto
qed

text \<open>
  Every operation of the webhook manager keeps its registry consistent: each webhook has
  statistics and, while the manager runs, exactly one listener, whose subscription is its own and
  is registered with the event manager; a rejected operation changes nothing, and after a
  shutdown no listener is left.
\<close>

theorem webhook_registry:
  assumes "registry_ok m" and "\<not> used_subscription u m"
  shows "registry_ok (snd (add_webhook J u now w m)) \<and> registry_ok (snd (update_webhook J u now w m)) \<and>
    registry_ok (snd (remove_webhook i m)) \<and> registry_ok (snd (enable_webhook E i m)) \<and>
    registry_ok (snd (disable_webhook E i m)) \<and> registry_ok (listener_lagged i n m) \<and>
    registry_ok (webhook_shutdown m) \<and> wm_subscriptions (webhook_shutdown m) = [] \<and>
    (\<forall>e. webhook_validate J w = Inl e \<longrightarrow>
       add_webhook J u now w m = (Inl e, m) \<and> update_webhook J u now w m = (Inl e, m)) \<and>
    (wm_webhooks m i = None \<longrightarrow> enable_webhook E i m = (Inl (webhook_not_found E i), m))"
proof (intro conjI allI impI)
  show "registry_ok (snd (add_webhook J u now w m))" by (rule registry_add [OF assms])
  show "registry_ok (snd (remove_webhook i m))" by (rule registry_remove [OF assms(1)])
  show "registry_ok (snd (update_webhook J u now w m))"
    using assms(1) registry_add [OF assms, of J now w]
    by (cases "webhook_validate J w"; cases "wm_webhooks m (wh_id w)")
      (auto simp: update_webhook_def registry_ok_def insert_absorb dom_def)
  show "registry_ok (snd (enable_webhook E i m))" "registry_ok (snd (disable_webhook E i m))"
    using assms(1) by (auto simp: enable_webhook_def disable_webhook_def registry_ok_def split: option.split)
  show "registry_ok (listener_lagged i n m)"
    using assms(1) by (auto simp: listener_lagged_def registry_ok_def split: option.split)
  show "registry_ok (webhook_shutdown m)" using assms(1) by (auto simp: webhook_shutdown_def registry_ok_def)
qed (simp_all add: webhook_shutdown_def add_webhook_def update_webhook_def enable_webhook_def)

lemma registry_new: "registry_ok (webhook_manager_new em cfg)"
  by (simp add: registry_ok_def webhook_manager_new_def)

lemma webhook_registry_witness:
  "registry_ok (snd (add_webhook sample_json 3 0 (webhook_new 7 ''w'' ''u'')
     (webhook_manager_new (event_manager_new event_config_default) sample_webhook_config)))"
proof -
  have "\<not> used_subscription 3 (webhook_manager_new (event_manager_new event_config_default) sample_webhook_config)"
    by (simp add: used_subscription_def webhook_manager_new_def event_manager_new_def)
  from webhook_registry [OF registry_new this] show ?thesis by blast
qed

subsection \<open>Payloads\<close>

text \<open>
  A webhook that is enabled and whose filter admits an event is handed that event, once and
  otherwise unchanged; it gets the payload iff its filter or the event manager's default asks for
  payloads and the payload is within the size limit, provided the filter it subscribed with asks
  for payloads iff its current filter does.
\<close>

theorem webhook_payload_delivered:
  assumes "wm_webhooks m i = Some w" and "wh_enabled w" and "filter_matches (wh_filter w) (prepare_event J (wm_events m) e)"
    and "(u, f) \<in> set (em_subscriptions (wm_events m))"
    and "ef_include_payload f \<longleftrightarrow> ef_include_payload (wh_filter w)"
  shows "\<exists>e'. listener_receive i (prepare_event J (wm_events m) e) m = Some (w, e') \<and>
    le_payload e' =
      (if (ec_include_payload_default (em_config (wm_events m)) \<or> ef_include_payload (wh_filter w)) \<and>
          is_some_and (le_payload e) (\<lambda>p. length (json_text J p) \<le> ec_max_payload_size_bytes (em_config (wm_events m)))
       then le_payload e else None) \<and>
    e'\<lparr>le_payload := le_payload e, le_metadata := le_metadata e\<rparr> = e"
proof -
  have "payload_wanted (wm_events m)" if "delivers_payload (wm_events m) (wh_filter w)"
    using that assms(4,5) by (force simp: payload_wanted_def delivers_payload_def)
  then show ?thesis
    using assms(1-3)
    by (cases "le_payload e")
      (auto simp: listener_receive_def prepare_event_def delivers_payload_def Let_def split: if_splits)
qed

definition sample_manager :: webhook_manager where
  "sample_manager = snd (add_webhook sample_json 3 0
     ((webhook_new 7 ''w'' ''u'')\<lparr>wh_filter := include_payload event_filter_new\<rparr>)
     (webhook_manager_new (event_manager_new event_config_default) sample_webhook_config))"

lemmas sample_manager_defs = sample_manager_def add_webhook_def webhook_validate_def webhook_new_def
  webhook_manager_new_def event_manager_new_def subscribe_def event_config_default_def include_payload_def
  event_filter_new_def Let_def

lemma webhook_payload_witness:
  "\<exists>w e'. listener_receive 7 (prepare_event sample_json (wm_events sample_manager)
       ((event_started 1 0 2 ''q'' Normal)\<lparr>le_payload := Some JNull\<rparr>)) sample_manager = Some (w, e') \<and>
     le_payload e' = Some JNull"
proof -
  let ?e = "(event_started 1 0 2 ''q'' Normal)\<lparr>le_payload := Some JNull\<rparr>"
  let ?w = "(webhook_new 7 ''w'' ''u'')\<lparr>wh_filter := include_payload event_filter_new\<rparr>"
  have w: "wm_webhooks sample_manager 7 = Some ?w" by (simp add: sample_manager_defs)
  have e: "wh_enabled ?w" by (simp add: webhook_new_def)
  have f: "filter_matches (wh_filter ?w) (prepare_event sample_json (wm_events sample_manager) ?e)"
    by (simp add: filter_matches_def time_matches_def include_payload_def event_filter_new_def)
  have s: "(3, include_payload event_filter_new) \<in> set (em_subscriptions (wm_events sample_manager))"
    by (simp add: sample_manager_defs)
  have i: "ef_include_payload (include_payload event_filter_new) \<longleftrightarrow> ef_include_payload (wh_filter ?w)" by simp
  have c: "ec_max_payload_size_bytes (em_config (wm_events sample_manager)) = 65536" "ef_include_payload (wh_filter ?w)"
    by (simp_all add: sample_manager_defs)
  from webhook_payload_delivered [OF w e f s i] c show ?thesis by (auto simp: sample_json_def)
qed

text \<open>
  Updating a webhook to a filter that asks for payloads does not take effect: the event
  manager keeps the filter the webhook subscribed with, so while no other subscriber asks for
  payloads, every event the webhook is handed after the update comes without its payload.
\<close>

theorem updated_webhook_gets_no_payload:
  assumes "wm_webhooks m (wh_id w) = Some w0" and "webhook_validate J w = Inr ()"
    and "\<not> payload_wanted (wm_events m)" and "ef_include_payload (wh_filter w)"
    and "update_webhook J u now w m = (r, m')"
    and "listener_receive (wh_id w) (prepare_event J (wm_events m') e) m' = Some (w', e')"
  shows "r = Inr () \<and> w' = w \<and> delivers_payload (wm_events m') (wh_filter w') \<and> le_payload e' = None"
proof -
  have m': "r = Inr ()" "m' = m\<lparr>wm_webhooks := (wm_webhooks m)(wh_id w \<mapsto> w)\<rparr>"
    using assms(1,2,5) by (simp_all add: update_webhook_def)
  have d: "delivers_payload (wm_events m') (wh_filter w)" using assms(4) by (simp add: delivers_payload_def)
  have "le_payload (prepare_event J (wm_events m') e) = None"
    using assms(3) m'(2) by (simp add: prepare_event_def split: option.split)
  then show ?thesis using assms(6) m' d by (auto simp: listener_receive_def split: if_splits)
qed

definition sample_updated :: webhook_config where
  "sample_updated = (webhook_new 7 ''w'' ''u'')\<lparr>wh_filter := include_payload event_filter_new\<rparr>"

lemma updated_webhook_witness:
  "\<exists>m m' w' e'. snd (add_webhook sample_json 3 0 (webhook_new 7 ''w'' ''u'')
       (webhook_manager_new (event_manager_new event_config_default) sample_webhook_config)) = m \<and>
     update_webhook sample_json 4 0 sample_updated m = (Inr (), m') \<and>
     listener_receive 7 (prepare_event sample_json (wm_events m')
       ((event_started 1 0 2 ''q'' Normal)\<lparr>le_payload := Some JNull\<rparr>)) m' = Some (w', e') \<and>
     ef_include_payload (wh_filter w') \<and> le_payload e' = None"
proof -
  define m where "m = snd (add_webhook sample_json 3 0 (webhook_new 7 ''w'' ''u'')
       (webhook_manager_new (event_manager_new event_config_default) sample_webhook_config))"
  define m' where "m' = m\<lparr>wm_webhooks := (wm_webhooks m)(7 \<mapsto> sample_updated)\<rparr>"
  let ?e = "(event_started 1 0 2 ''q'' Normal)\<lparr>le_payload := Some JNull\<rparr>"
  have i: "wh_id sample_updated = 7" by (simp add: sample_updated_def webhook_new_def)
  have w: "wm_webhooks m (wh_id sample_updated) = Some (webhook_new 7 ''w'' ''u'')"
    unfolding i by (simp add: m_def sample_manager_defs)
  have v: "webhook_validate sample_json sample_updated = Inr ()"
    by (simp add: webhook_validate_def sample_updated_def webhook_new_def)
  have n: "\<not> payload_wanted (wm_events m)" by (simp add: m_def sample_manager_defs payload_wanted_def)
  have inc: "ef_include_payload (wh_filter sample_updated)" by (simp add: sample_updated_def include_payload_def)
  have u: "update_webhook sample_json 4 0 sample_updated m = (Inr (), m')"
    using w v i by (simp add: update_webhook_def m'_def)
  have "filter_matches (wh_filter sample_updated) (prepare_event sample_json (wm_events m') ?e)" "wh_enabled sample_updated"
    by (simp_all add: filter_matches_def time_matches_def sample_updated_def include_payload_def event_filter_new_def webhook_new_def)
  then obtain e' where l: "listener_receive 7 (prepare_event sample_json (wm_events m') ?e) m' = Some (sample_updated, e')"
    by (simp add: listener_receive_def m'_def)
  from updated_webhook_gets_no_payload [OF w v n inc u l [folded i]] u l inc show ?thesis
    unfolding m_def [symmetric] by blast
qed

end
