(* ===== verification/Alerting.thy ===== *)
theory Alerting
  imports Json Retry StatsCollector
begin

text \<open>
  Alerts: \<open>src/src/alerting.rs\<close>. The thresholds and targets of a configuration, the checks that
  raise an alert, and the manager's cooldown: an alert is reserved under the lock, sent to every
  target, and its cooldown is kept or released by whether a target was reached. An \<open>f64\<close> is a
  rational; a \<open>u64\<close> product wraps. The HTTP client, the mail transport and the environment are
  parameters.
\<close>

subsection \<open>Configuration\<close>

datatype secret_source = SecretStatic string | SecretEnvironment string

datatype smtp_tls = StartTls | ImplicitTls | NoTls

record smtp_config =
  sm_host :: string
  sm_port :: "nat option"
  sm_from :: string
  sm_username :: "string option"
  sm_password :: "secret_source option"
  sm_tls :: smtp_tls
  sm_timeout_secs :: nat

definition smtp_new :: "string \<Rightarrow> string \<Rightarrow> smtp_config" where
  "smtp_new host from_address =
     \<lparr>sm_host = host, sm_port = None, sm_from = from_address, sm_username = None, sm_password = None,
      sm_tls = StartTls, sm_timeout_secs = 30\<rparr>"

definition with_credentials :: "string \<Rightarrow> secret_source \<Rightarrow> smtp_config \<Rightarrow> smtp_config" where
  "with_credentials username password s = s\<lparr>sm_username := Some username, sm_password := Some password\<rparr>"

definition effective_port :: "smtp_config \<Rightarrow> nat" where
  "effective_port s =
     unwrap_or (sm_port s) (case sm_tls s of StartTls \<Rightarrow> 587 | ImplicitTls \<Rightarrow> 465 | NoTls \<Rightarrow> 25)"

datatype alert_target =
    WebhookTarget string "(string \<times> string) list"
  | EmailTarget string smtp_config
  | SlackTarget string string

text \<open>
  Third-party code: the error of a rejected mail address, an environment variable, the status of
  an HTTP POST, the text of a status, the delivery of a mail, and the RFC 3339 text of a time.
\<close>

record mail =
  ml_from :: string
  ml_to :: string
  ml_subject :: string
  ml_body :: string
  ml_credentials :: "(string \<times> string) option"

record alert_env =
  mailbox_error :: "string \<Rightarrow> string option"
  env_var :: "string \<Rightarrow> string + string"
  http_post :: "string \<Rightarrow> (string \<times> string) list \<Rightarrow> json_value \<Rightarrow> string + nat"
  status_text :: "nat \<Rightarrow> string"
  smtp_send :: "smtp_config \<Rightarrow> nat \<Rightarrow> mail \<Rightarrow> string option"
  rfc3339 :: "time \<Rightarrow> string"
  serde_time :: "time \<Rightarrow> string"

definition parse_mailbox :: "alert_env \<Rightarrow> string \<Rightarrow> string option" where
  "parse_mailbox V address =
     map_option (\<lambda>e. [CHR 0x27] @ address @ [CHR 0x27] @ '': '' @ e) (mailbox_error V address)"

definition secret_resolve :: "alert_env \<Rightarrow> secret_source \<Rightarrow> string res" where
  "secret_resolve V s =
     (case s of
        SecretStatic v \<Rightarrow> Inr v
      | SecretEnvironment name \<Rightarrow>
          (case env_var V name of
             Inl e \<Rightarrow> Inl (AlertingError (''cannot read SMTP password from $'' @ name @ '': '' @ e))
           | Inr v \<Rightarrow> Inr v))"

definition smtp_invalid :: "string \<Rightarrow> hammerwork_error" where
  "smtp_invalid message = ConfigError (''SMTP settings: '' @ message)"

definition smtp_validate :: "alert_env \<Rightarrow> smtp_config \<Rightarrow> unit res" where
  "smtp_validate V s =
     (if str_trim (sm_host s) = [] then Inl (smtp_invalid ''host is empty'')
      else
        (case parse_mailbox V (sm_from s) of
           Some e \<Rightarrow> Inl (smtp_invalid (''invalid from address: '' @ e))
         | None \<Rightarrow>
             (case (sm_username s, sm_password s) of
                (Some _, None) \<Rightarrow> Inl (smtp_invalid ''username is set without a password'')
              | (None, Some _) \<Rightarrow> Inl (smtp_invalid ''password is set without a username'')
              | _ \<Rightarrow> Inr ())))"

record alerting_config =
  ac_error_rate_threshold :: "rat option"
  ac_queue_depth_threshold :: "nat option"
  ac_worker_starvation_threshold :: "duration option"
  ac_processing_time_threshold :: "duration option"
  ac_targets :: "alert_target list"
  ac_cooldown_period :: duration
  ac_enabled :: bool

definition alerting_default :: alerting_config where
  "alerting_default =
     \<lparr>ac_error_rate_threshold = None, ac_queue_depth_threshold = None,
      ac_worker_starvation_threshold = None, ac_processing_time_threshold = None, ac_targets = [],
      ac_cooldown_period = 300 * 10 ^ 9, ac_enabled = True\<rparr>"

definition alert_on_high_error_rate :: "rat \<Rightarrow> alerting_config \<Rightarrow> alerting_config" where
  "alert_on_high_error_rate t c = c\<lparr>ac_error_rate_threshold := Some (max 0 (min t 1))\<rparr>"

definition alert_on_queue_depth :: "nat \<Rightarrow> alerting_config \<Rightarrow> alerting_config" where
  "alert_on_queue_depth t c = c\<lparr>ac_queue_depth_threshold := Some t\<rparr>"

definition alert_webhook :: "string \<Rightarrow> (string \<times> string) list \<Rightarrow> alerting_config \<Rightarrow> alerting_config" where
  "alert_webhook url headers c = c\<lparr>ac_targets := ac_targets c @ [WebhookTarget url headers]\<rparr>"

definition with_cooldown :: "duration \<Rightarrow> alerting_config \<Rightarrow> alerting_config" where
  "with_cooldown d c = c\<lparr>ac_cooldown_period := d\<rparr>"

fun validate_targets :: "alert_env \<Rightarrow> alert_target list \<Rightarrow> unit res" where
  "validate_targets V [] = Inr ()"
| "validate_targets V (EmailTarget recipient smtp # ts) =
     (case parse_mailbox V recipient of
        Some e \<Rightarrow> Inl (ConfigError (''email alert target: invalid recipient address '' @ e))
      | None \<Rightarrow>
          (case smtp_validate V smtp of
             Inl e \<Rightarrow> Inl (ConfigError (''email alert target '' @ [CHR 0x27] @ recipient @ [CHR 0x27] @ '': ''
               @ error_display e))
           | Inr _ \<Rightarrow> validate_targets V ts))"
| "validate_targets V (_ # ts) = validate_targets V ts"

definition alerting_validate :: "alert_env \<Rightarrow> alerting_config \<Rightarrow> unit res" where
  "alerting_validate V c = validate_targets V (ac_targets c)"

subsection \<open>Alerts\<close>

datatype alert_severity = SevInfo | SevWarning | SevCritical

fun severity_str :: "alert_severity \<Rightarrow> string" where
  "severity_str SevInfo = ''Info''"
| "severity_str SevWarning = ''Warning''"
| "severity_str SevCritical = ''Critical''"

datatype alert_type = HighErrorRate | QueueDepthExceeded | WorkerStarvation | SlowProcessing | CustomAlert string

fun alert_type_str :: "alert_type \<Rightarrow> string" where
  "alert_type_str HighErrorRate = ''High Error Rate''"
| "alert_type_str QueueDepthExceeded = ''Queue Depth Exceeded''"
| "alert_type_str WorkerStarvation = ''Worker Starvation''"
| "alert_type_str SlowProcessing = ''Slow Processing''"
| "alert_type_str (CustomAlert name) = ''Custom: '' @ name"

record alert =
  al_alert_type :: alert_type
  al_severity :: alert_severity
  al_queue_name :: string
  al_message :: string
  al_current_value :: rat
  al_threshold :: rat
  al_timestamp :: time
  al_context :: "(string \<times> string) list"

type_synonym alert_key = "string \<times> alert_type"

definition alert_key_of :: "alert \<Rightarrow> alert_key" where
  "alert_key_of a = (al_queue_name a, al_alert_type a)"

record alert_manager =
  am_config :: alerting_config
  am_last_alerts :: "alert_key \<rightharpoonup> time"
  am_failed_alerts :: "alert_key \<rightharpoonup> time"

definition alert_manager_new :: "alerting_config \<Rightarrow> alert_manager" where
  "alert_manager_new c = \<lparr>am_config = c, am_last_alerts = Map.empty, am_failed_alerts = Map.empty\<rparr>"

definition alert_manager_try_new :: "alert_env \<Rightarrow> alerting_config \<Rightarrow> alert_manager res" where
  "alert_manager_try_new V c =
     (case alerting_validate V c of Inl e \<Rightarrow> Inl e | Inr _ \<Rightarrow> Inr (alert_manager_new c))"

text \<open>\<open>format!\<close> of a float with a fixed number of decimals.\<close>

definition pad_zeros :: "nat \<Rightarrow> string \<Rightarrow> string" where
  "pad_zeros n s = replicate (n - length s) (CHR ''0'') @ s"

definition show_fixed :: "nat \<Rightarrow> rat \<Rightarrow> string" where
  "show_fixed decimals x =
     (let n = nat (round_half_even (\<bar>x\<bar> * 10 ^ decimals));
          digits = show_nat (n div 10 ^ decimals)
            @ (if decimals = 0 then [] else CHR ''.'' # pad_zeros decimals (show_nat (n mod 10 ^ decimals))) in
      if x < 0 then CHR ''-'' # digits else digits)"

subsection \<open>Sending\<close>

definition ALERT_HTTP_TIMEOUT :: duration where
  "ALERT_HTTP_TIMEOUT = 10 * 10 ^ 9"

definition FAILED_ALERT_RETRY_DELAY :: duration where
  "FAILED_ALERT_RETRY_DELAY = 60 * 10 ^ 9"

fun alert_type_value :: "alert_type \<Rightarrow> json_value" where
  "alert_type_value HighErrorRate = JString ''HighErrorRate''"
| "alert_type_value QueueDepthExceeded = JString ''QueueDepthExceeded''"
| "alert_type_value WorkerStarvation = JString ''WorkerStarvation''"
| "alert_type_value SlowProcessing = JString ''SlowProcessing''"
| "alert_type_value (CustomAlert name) = JObject [(''Custom'', JString name)]"

definition send_webhook_alert ::
  "alert_env \<Rightarrow> alert \<Rightarrow> string \<Rightarrow> (string \<times> string) list \<Rightarrow> unit res" where
  "send_webhook_alert V a url headers =
     (case http_post V url headers
             (JObject [(''alert_type'', alert_type_value (al_alert_type a)),
                (''context'', JObject (sort_key fst (map (\<lambda>(k, v). (k, JString v)) (al_context a)))),
                (''current_value'', JNumber (al_current_value a)), (''message'', JString (al_message a)),
                (''queue_name'', JString (al_queue_name a)),
                (''severity'', JString (severity_str (al_severity a))),
                (''threshold'', JNumber (al_threshold a)),
                (''timestamp'', JString (serde_time V (al_timestamp a)))]) of
        Inl e \<Rightarrow> Inl (AlertingError (''Failed to send webhook alert: '' @ e))
      | Inr status \<Rightarrow>
          if \<not> (200 \<le> status \<and> status < 300)
          then Inl (AlertingError (''Webhook alert failed with status: '' @ status_text V status))
          else Inr ())"

definition single_line :: "string \<Rightarrow> string" where
  "single_line s = map (\<lambda>c. if is_control c then CHR '' '' else c) s"

abbreviation newline :: string where
  "newline \<equiv> [CHR 0x0A]"

definition email_body :: "alert_env \<Rightarrow> alert \<Rightarrow> string" where
  "email_body V a =
     al_message a @ newline @ newline @ ''Alert: '' @ alert_type_str (al_alert_type a) @ newline
       @ ''Severity: '' @ severity_str (al_severity a) @ newline @ ''Queue: '' @ al_queue_name a @ newline
       @ ''Current value: '' @ show_fixed 2 (al_current_value a) @ newline
       @ ''Threshold: '' @ show_fixed 2 (al_threshold a) @ newline
       @ ''Time: '' @ rfc3339 V (al_timestamp a) @ newline
       @ (if al_context a = [] then []
          else newline @ ''Context:'' @ newline
            @ concat (map (\<lambda>(k, v). ''  '' @ k @ '': '' @ v @ newline) (sort (al_context a))))"

definition email_failed :: "string \<Rightarrow> string \<Rightarrow> hammerwork_error" where
  "email_failed recipient message =
     AlertingError (''Failed to send email alert to '' @ recipient @ '': '' @ message)"

definition smtp_credentials :: "alert_env \<Rightarrow> smtp_config \<Rightarrow> (string \<times> string) option res" where
  "smtp_credentials V s =
     (case (sm_username s, sm_password s) of
        (Some u, Some p) \<Rightarrow> (case secret_resolve V p of Inl e \<Rightarrow> Inl e | Inr secret \<Rightarrow> Inr (Some (u, secret)))
      | _ \<Rightarrow> Inr None)"

definition send_email_alert :: "alert_env \<Rightarrow> alert \<Rightarrow> string \<Rightarrow> smtp_config \<Rightarrow> unit res" where
  "send_email_alert V a recipient s =
     (case parse_mailbox V (sm_from s) of
        Some e \<Rightarrow> Inl (email_failed recipient e)
      | None \<Rightarrow>
          (case parse_mailbox V recipient of
             Some e \<Rightarrow> Inl (email_failed recipient e)
           | None \<Rightarrow>
               (case smtp_credentials V s of
                  Inl e \<Rightarrow> Inl (email_failed recipient (error_display e))
                | Inr credentials \<Rightarrow>
                    (case smtp_send V s (effective_port s)
                            \<lparr>ml_from = sm_from s, ml_to = recipient,
                             ml_subject = single_line (''[Hammerwork '' @ severity_str (al_severity a) @ ''] ''
                               @ alert_type_str (al_alert_type a) @ '' on queue '' @ al_queue_name a),
                             ml_body = email_body V a, ml_credentials = credentials\<rparr> of
                       Some e \<Rightarrow> Inl (email_failed recipient e)
                     | None \<Rightarrow> Inr ()))))"

fun severity_color :: "alert_severity \<Rightarrow> string" where
  "severity_color SevInfo = ''#36a64f''"
| "severity_color SevWarning = ''#ffaa00''"
| "severity_color SevCritical = ''#ff0000''"

text \<open>\<open>{:?}\<close> of an alert type; the name of a custom one up to escapes.\<close>

fun alert_type_debug :: "alert_type \<Rightarrow> string" where
  "alert_type_debug HighErrorRate = ''HighErrorRate''"
| "alert_type_debug QueueDepthExceeded = ''QueueDepthExceeded''"
| "alert_type_debug WorkerStarvation = ''WorkerStarvation''"
| "alert_type_debug SlowProcessing = ''SlowProcessing''"
| "alert_type_debug (CustomAlert name) = ''Custom('' @ [CHR 0x22] @ name @ [CHR 0x22] @ '')''"

definition slack_field :: "string \<Rightarrow> string \<Rightarrow> json_value" where
  "slack_field title value =
     JObject [(''short'', JBool True), (''title'', JString title), (''value'', JString value)]"

definition send_slack_alert :: "alert_env \<Rightarrow> alert \<Rightarrow> string \<Rightarrow> string \<Rightarrow> unit res" where
  "send_slack_alert V a webhook_url channel =
     (case http_post V webhook_url []
             (JObject [(''attachments'',
                  JArray [JObject [(''color'', JString (severity_color (al_severity a))),
                    (''fields'', JArray [slack_field ''Queue'' (al_queue_name a),
                       slack_field ''Current Value'' (show_fixed 2 (al_current_value a)),
                       slack_field ''Threshold'' (show_fixed 2 (al_threshold a)),
                       slack_field ''Severity'' (severity_str (al_severity a))]),
                    (''text'', JString (al_message a)),
                    (''timestamp'', JNumber (of_int (al_timestamp a div 10 ^ 9))),
                    (''title'', JString (''Hammerwork Alert: '' @ alert_type_debug (al_alert_type a)))]]),
                (''channel'', JString channel)]) of
        Inl e \<Rightarrow> Inl (AlertingError (''Failed to send Slack alert: '' @ e))
      | Inr status \<Rightarrow>
          if \<not> (200 \<le> status \<and> status < 300)
          then Inl (AlertingError (''Slack alert failed with status: '' @ status_text V status))
          else Inr ())"

fun send_to_target :: "alert_env \<Rightarrow> alert \<Rightarrow> alert_target \<Rightarrow> unit res" where
  "send_to_target V a (WebhookTarget url headers) = send_webhook_alert V a url headers"
| "send_to_target V a (EmailTarget recipient smtp) = send_email_alert V a recipient smtp"
| "send_to_target V a (SlackTarget webhook_url channel) = send_slack_alert V a webhook_url channel"

definition send_failures :: "alert_env \<Rightarrow> alert \<Rightarrow> alert_target list \<Rightarrow> string list" where
  "send_failures V a targets =
     concat (map (\<lambda>t. case send_to_target V a t of Inl e \<Rightarrow> [error_display e] | Inr _ \<Rightarrow> []) targets)"

subsection \<open>The cooldown\<close>

text \<open>The section under the write lock: check the cooldown and reserve it.\<close>

definition reserve_alert :: "externs \<Rightarrow> time \<Rightarrow> alert \<Rightarrow> alert_manager \<Rightarrow> bool \<times> alert_manager" where
  "reserve_alert E now a m =
     (let key = alert_key_of a;
          cooldown = saturating_chrono_duration E (ac_cooldown_period (am_config m));
          retry_delay = saturating_chrono_duration E
            (min FAILED_ALERT_RETRY_DELAY (ac_cooldown_period (am_config m))) in
      if is_some_and (am_last_alerts m key) (\<lambda>last_time. now - last_time < cooldown) then (False, m)
      else if is_some_and (am_failed_alerts m key) (\<lambda>failed_at. now - failed_at < retry_delay) then (False, m)
      else (True, m\<lparr>am_last_alerts := (am_last_alerts m)(key \<mapsto> al_timestamp a)\<rparr>))"

definition settle_alert :: "time \<Rightarrow> alert \<Rightarrow> string list \<Rightarrow> alert_manager \<Rightarrow> unit res \<times> alert_manager" where
  "settle_alert now a failures m =
     (let key = alert_key_of a;
          targets = ac_targets (am_config m);
          m1 = (if length failures < length targets \<or> targets = [] then
                  m\<lparr>am_failed_alerts := (am_failed_alerts m)(key := None),
                    am_last_alerts := (am_last_alerts m)(key \<mapsto> al_timestamp a)\<rparr>
                else
                  m\<lparr>am_last_alerts := (am_last_alerts m)(key := None),
                    am_failed_alerts := (am_failed_alerts m)(key \<mapsto> now)\<rparr>) in
      (if failures = [] then Inr ()
       else Inl (AlertingError (show_nat (length failures) @ '' of '' @ show_nat (length targets)
              @ '' alert target(s) failed: '' @ join_with ''; '' failures)),
       m1))"

definition send_alert_if_needed ::
  "externs \<Rightarrow> alert_env \<Rightarrow> time \<Rightarrow> time \<Rightarrow> alert \<Rightarrow> alert_manager \<Rightarrow> unit res \<times> alert_manager" where
  "send_alert_if_needed E V now done_at a m =
     (case reserve_alert E now a m of
        (False, m1) \<Rightarrow> (Inr (), m1)
      | (True, m1) \<Rightarrow> settle_alert done_at a (send_failures V a (ac_targets (am_config m1))) m1)"

subsection \<open>The checks\<close>

definition build_context :: "job_statistics \<Rightarrow> (string \<times> string) list" where
  "build_context s =
     [(''total_processed'', show_nat (js_total_processed s)), (''completed'', show_nat (js_completed s)),
      (''failed'', show_nat (js_failed s)), (''dead'', show_nat (js_dead s)),
      (''timed_out'', show_nat (js_timed_out s)), (''running'', show_nat (js_running s)),
      (''throughput_per_minute'', show_fixed 2 (js_throughput_per_minute s))]"

definition error_rate_alert :: "time \<Rightarrow> string \<Rightarrow> job_statistics \<Rightarrow> rat \<Rightarrow> alert" where
  "error_rate_alert ts q s threshold =
     \<lparr>al_alert_type = HighErrorRate,
      al_severity = (if threshold * 2 < js_error_rate s then SevCritical else SevWarning),
      al_queue_name = q,
      al_message = ''High error rate detected: '' @ show_fixed 2 (js_error_rate s * 100) @ ''% (threshold: ''
        @ show_fixed 2 (threshold * 100) @ ''%)'',
      al_current_value = js_error_rate s, al_threshold = threshold, al_timestamp = ts,
      al_context = build_context s\<rparr>"

definition slow_processing_alert :: "time \<Rightarrow> string \<Rightarrow> job_statistics \<Rightarrow> rat \<Rightarrow> alert" where
  "slow_processing_alert ts q s threshold_ms =
     \<lparr>al_alert_type = SlowProcessing,
      al_severity = (if threshold_ms * 2 < js_avg_processing_time_ms s then SevCritical else SevWarning),
      al_queue_name = q,
      al_message = ''Slow job processing detected: '' @ show_fixed 0 (js_avg_processing_time_ms s)
        @ ''ms average (threshold: '' @ show_fixed 0 threshold_ms @ ''ms)'',
      al_current_value = js_avg_processing_time_ms s, al_threshold = threshold_ms, al_timestamp = ts,
      al_context = build_context s\<rparr>"

text \<open>
  A check reads the clock for the alert's timestamp, for the cooldown and after sending; the
  argument gives the three times of each of its alerts.
\<close>

definition check_thresholds ::
  "externs \<Rightarrow> alert_env \<Rightarrow> (nat \<Rightarrow> time \<times> time \<times> time) \<Rightarrow> string \<Rightarrow> job_statistics \<Rightarrow> alert_manager \<Rightarrow>
     unit res \<times> alert_manager" where
  "check_thresholds E V clock q s m =
     (if \<not> ac_enabled (am_config m) then (Inr (), m)
      else
        bind_op
          (case ac_error_rate_threshold (am_config m) of
             Some threshold \<Rightarrow>
               if threshold < js_error_rate s then
                 (case clock 0 of (ts, now, done_at) \<Rightarrow>
                    send_alert_if_needed E V now done_at (error_rate_alert ts q s threshold) m)
               else (Inr (), m)
           | None \<Rightarrow> (Inr (), m))
          (\<lambda>_ m1.
             case ac_processing_time_threshold (am_config m1) of
               Some threshold \<Rightarrow>
                 (let threshold_ms = of_nat (threshold div 10 ^ 6) in
                  if threshold_ms < js_avg_processing_time_ms s then
                    (case clock 1 of (ts, now, done_at) \<Rightarrow>
                       send_alert_if_needed E V now done_at (slow_processing_alert ts q s threshold_ms) m1)
                  else (Inr (), m1))
             | None \<Rightarrow> (Inr (), m1)))"

definition queue_depth_alert :: "time \<Rightarrow> string \<Rightarrow> nat \<Rightarrow> nat \<Rightarrow> alert" where
  "queue_depth_alert ts q depth threshold =
     \<lparr>al_alert_type = QueueDepthExceeded,
      al_severity = (if (threshold * 2) mod 2 ^ 64 < depth then SevCritical else SevWarning),
      al_queue_name = q,
      al_message = ''Queue depth exceeded: '' @ show_nat depth @ '' jobs (threshold: ''
        @ show_nat threshold @ '')'',
      al_current_value = of_nat depth, al_threshold = of_nat threshold, al_timestamp = ts, al_context = []\<rparr>"

definition check_queue_depth ::
  "externs \<Rightarrow> alert_env \<Rightarrow> time \<times> time \<times> time \<Rightarrow> string \<Rightarrow> nat \<Rightarrow> alert_manager \<Rightarrow> unit res \<times> alert_manager" where
  "check_queue_depth E V clock q depth m =
     (if \<not> ac_enabled (am_config m) then (Inr (), m)
      else
        (case ac_queue_depth_threshold (am_config m) of
           Some threshold \<Rightarrow>
             if threshold < depth then
               (case clock of (ts, now, done_at) \<Rightarrow>
                  send_alert_if_needed E V now done_at (queue_depth_alert ts q depth threshold) m)
             else (Inr (), m)
         | None \<Rightarrow> (Inr (), m)))"

definition num_minutes :: "int \<Rightarrow> int" where
  "num_minutes d = trunc_div d (60 * 10 ^ 9)"

definition starvation_alert :: "time \<Rightarrow> string \<Rightarrow> int \<Rightarrow> int \<Rightarrow> alert" where
  "starvation_alert ts q idle threshold =
     \<lparr>al_alert_type = WorkerStarvation, al_severity = SevWarning, al_queue_name = q,
      al_message = ''Worker starvation detected: no jobs processed for '' @ show_int (num_minutes idle)
        @ '' minutes (threshold: '' @ show_int (num_minutes threshold) @ '' minutes)'',
      al_current_value = of_int (num_minutes idle), al_threshold = of_int (num_minutes threshold),
      al_timestamp = ts, al_context = []\<rparr>"

definition check_worker_starvation ::
  "externs \<Rightarrow> alert_env \<Rightarrow> time \<Rightarrow> time \<times> time \<times> time \<Rightarrow> string \<Rightarrow> time \<Rightarrow> alert_manager \<Rightarrow>
     unit res \<times> alert_manager" where
  "check_worker_starvation E V read_at clock q last_job_time m =
     (if \<not> ac_enabled (am_config m) then (Inr (), m)
      else
        (case ac_worker_starvation_threshold (am_config m) of
           Some threshold \<Rightarrow>
             (let idle = read_at - last_job_time; limit = saturating_chrono_duration E threshold in
              if limit < idle then
                (case clock of (ts, now, done_at) \<Rightarrow>
                   send_alert_if_needed E V now done_at (starvation_alert ts q idle limit) m)
              else (Inr (), m))
         | None \<Rightarrow> (Inr (), m)))"

definition send_custom_alert ::
  "externs \<Rightarrow> alert_env \<Rightarrow> time \<times> time \<times> time \<Rightarrow> string \<Rightarrow> string \<Rightarrow> string \<Rightarrow> rat \<Rightarrow> rat \<Rightarrow> alert_severity \<Rightarrow>
     alert_manager \<Rightarrow> unit res \<times> alert_manager" where
  "send_custom_alert E V clock q name message value threshold severity m =
     (if \<not> ac_enabled (am_config m) then (Inr (), m)
      else
        (case clock of (ts, now, done_at) \<Rightarrow>
           send_alert_if_needed E V now done_at
             \<lparr>al_alert_type = CustomAlert name, al_severity = severity, al_queue_name = q,
              al_message = message, al_current_value = value, al_threshold = threshold,
              al_timestamp = ts, al_context = []\<rparr> m))"

definition alert_update_config :: "alerting_config \<Rightarrow> alert_manager \<Rightarrow> alert_manager" where
  "alert_update_config c m = m\<lparr>am_config := c\<rparr>"

subsection \<open>Concurrent checks\<close>

text \<open>
  A run of concurrent checks: each holds the lock while it reserves and while it settles, and
  sends in between. \<open>ar_inflight\<close> are the alerts reserved and not settled, with the time of their
  reservation; \<open>ar_sent\<close> those that reached a target, in the order they were settled. With
  \<open>prompt\<close> every alert is reserved and settled within its cooldown.
\<close>

record alert_run =
  ar_manager :: alert_manager
  ar_inflight :: "(alert \<times> time) list"
  ar_sent :: "(alert \<times> time) list"
  ar_now :: time

abbreviation cooldown_of :: "externs \<Rightarrow> alerting_config \<Rightarrow> int" where
  "cooldown_of E c \<equiv> saturating_chrono_duration E (ac_cooldown_period c)"

inductive alert_runs :: "externs \<Rightarrow> alerting_config \<Rightarrow> bool \<Rightarrow> alert_run \<Rightarrow> bool" for E c prompt where
  start: "alert_runs E c prompt
    \<lparr>ar_manager = alert_manager_new c, ar_inflight = [], ar_sent = [], ar_now = now\<rparr>"
| tick: "alert_runs E c prompt r \<Longrightarrow> ar_now r \<le> now \<Longrightarrow>
    (prompt \<Longrightarrow> \<forall>a \<in> set (ar_inflight r). now - al_timestamp (fst a) < cooldown_of E c) \<Longrightarrow>
    alert_runs E c prompt (r\<lparr>ar_now := now\<rparr>)"
| reserve: "alert_runs E c prompt r \<Longrightarrow> al_timestamp a \<le> ar_now r \<Longrightarrow>
    (prompt \<Longrightarrow> ar_now r - al_timestamp a < cooldown_of E c) \<Longrightarrow>
    reserve_alert E (ar_now r) a (ar_manager r) = (True, m) \<Longrightarrow>
    alert_runs E c prompt (r\<lparr>ar_manager := m, ar_inflight := (a, ar_now r) # ar_inflight r\<rparr>)"
| settle: "alert_runs E c prompt r \<Longrightarrow> ar_inflight r = before @ (a, t) # after \<Longrightarrow>
    snd (settle_alert (ar_now r) a failures (ar_manager r)) = m \<Longrightarrow>
    alert_runs E c prompt (r\<lparr>ar_manager := m, ar_inflight := before @ after,
      ar_sent := (if length failures < length (ac_targets c) \<or> ac_targets c = []
                  then ar_sent r @ [(a, t)] else ar_sent r)\<rparr>)"

text \<open>The invariant of a prompt run.\<close>

definition run_ok :: "externs \<Rightarrow> alerting_config \<Rightarrow> alert_run \<Rightarrow> bool" where
  "run_ok E c r \<longleftrightarrow>
     am_config (ar_manager r) = c \<and>
     distinct (map (\<lambda>a. alert_key_of (fst a)) (ar_inflight r)) \<and>
     (\<forall>a \<in> set (ar_inflight r).
        ar_now r - al_timestamp (fst a) < cooldown_of E c \<and> snd a \<le> ar_now r \<and>
        am_last_alerts (ar_manager r) (alert_key_of (fst a)) = Some (al_timestamp (fst a)) \<and>
        (\<forall>b \<in> set (ar_sent r). alert_key_of (fst b) = alert_key_of (fst a) \<longrightarrow>
           al_timestamp (fst b) + cooldown_of E c \<le> snd a)) \<and>
     (\<forall>b \<in> set (ar_sent r).
        al_timestamp (fst b) + cooldown_of E c \<le> ar_now r \<or>
        (\<exists>t. am_last_alerts (ar_manager r) (alert_key_of (fst b)) = Some t \<and> al_timestamp (fst b) \<le> t)) \<and>
     sorted_wrt (\<lambda>b a. alert_key_of (fst b) = alert_key_of (fst a) \<longrightarrow>
        al_timestamp (fst b) + cooldown_of E c \<le> snd a) (ar_sent r)"

lemma reserve_alert_True:
  "reserve_alert E now a m = (True, m') \<longleftrightarrow>
     (\<forall>t. am_last_alerts m (alert_key_of a) = Some t \<longrightarrow> cooldown_of E (am_config m) \<le> now - t) \<and>
     (\<forall>t. am_failed_alerts m (alert_key_of a) = Some t \<longrightarrow>
        saturating_chrono_duration E (min FAILED_ALERT_RETRY_DELAY (ac_cooldown_period (am_config m))) \<le> now - t) \<and>
     m' = m\<lparr>am_last_alerts := (am_last_alerts m)(alert_key_of a \<mapsto> al_timestamp a)\<rparr>"
  by (auto simp: reserve_alert_def is_some_and_iff Let_def)

lemma run_okD:
  assumes "run_ok E c r"
  shows "am_config (ar_manager r) = c" "distinct (map (\<lambda>a. alert_key_of (fst a)) (ar_inflight r))"
    "a \<in> set (ar_inflight r) \<Longrightarrow> ar_now r - al_timestamp (fst a) < cooldown_of E c"
    "a \<in> set (ar_inflight r) \<Longrightarrow> snd a \<le> ar_now r"
    "a \<in> set (ar_inflight r) \<Longrightarrow>
       am_last_alerts (ar_manager r) (alert_key_of (fst a)) = Some (al_timestamp (fst a))"
    "a \<in> set (ar_inflight r) \<Longrightarrow> b \<in> set (ar_sent r) \<Longrightarrow> alert_key_of (fst b) = alert_key_of (fst a) \<Longrightarrow>
       al_timestamp (fst b) + cooldown_of E c \<le> snd a"
    "b \<in> set (ar_sent r) \<Longrightarrow> al_timestamp (fst b) + cooldown_of E c \<le> ar_now r \<or>
        (\<exists>t. am_last_alerts (ar_manager r) (alert_key_of (fst b)) = Some t \<and> al_timestamp (fst b) \<le> t)"
    "sorted_wrt (\<lambda>b a. alert_key_of (fst b) = alert_key_of (fst a) \<longrightarrow>
        al_timestamp (fst b) + cooldown_of E c \<le> snd a) (ar_sent r)"
  using assms unfolding run_ok_def by blast+

lemma run_okI:
  assumes "am_config (ar_manager r) = c" and "distinct (map (\<lambda>a. alert_key_of (fst a)) (ar_inflight r))"
    and "\<And>a. a \<in> set (ar_inflight r) \<Longrightarrow>
        ar_now r - al_timestamp (fst a) < cooldown_of E c \<and> snd a \<le> ar_now r \<and>
        am_last_alerts (ar_manager r) (alert_key_of (fst a)) = Some (al_timestamp (fst a))"
    and "\<And>a b. a \<in> set (ar_inflight r) \<Longrightarrow> b \<in> set (ar_sent r) \<Longrightarrow> alert_key_of (fst b) = alert_key_of (fst a) \<Longrightarrow>
       al_timestamp (fst b) + cooldown_of E c \<le> snd a"
    and "\<And>b. b \<in> set (ar_sent r) \<Longrightarrow> al_timestamp (fst b) + cooldown_of E c \<le> ar_now r \<or>
        (\<exists>t. am_last_alerts (ar_manager r) (alert_key_of (fst b)) = Some t \<and> al_timestamp (fst b) \<le> t)"
    and "sorted_wrt (\<lambda>b a. alert_key_of (fst b) = alert_key_of (fst a) \<longrightarrow>
        al_timestamp (fst b) + cooldown_of E c \<le> snd a) (ar_sent r)"
  shows "run_ok E c r"
  using assms unfolding run_ok_def by blast

lemma run_ok_reserve:
  assumes "run_ok E c r" and "ar_now r - al_timestamp a < cooldown_of E c"
    and "reserve_alert E (ar_now r) a (ar_manager r) = (True, m)"
  shows "run_ok E c (r\<lparr>ar_manager := m, ar_inflight := (a, ar_now r) # ar_inflight r\<rparr>)" (is "run_ok E c ?r")
proof -
  let ?k = "alert_key_of a"
  note ok = run_okD [OF assms(1)]
  have m: "am_last_alerts m = (am_last_alerts (ar_manager r))(?k \<mapsto> al_timestamp a)" "am_config m = c"
    and free: "\<And>t. am_last_alerts (ar_manager r) ?k = Some t \<Longrightarrow> cooldown_of E c \<le> ar_now r - t"
    using assms(3) ok(1) unfolding reserve_alert_True by auto
  have other: "alert_key_of (fst b) \<noteq> ?k" if "b \<in> set (ar_inflight r)" for b
    using free [of "al_timestamp (fst b)"] ok(3) [OF that] ok(5) [OF that] by auto
  have spaced: "al_timestamp (fst b) + cooldown_of E c \<le> ar_now r"
    if "b \<in> set (ar_sent r)" "alert_key_of (fst b) = ?k" for b
    using ok(7) [OF that(1)] that(2) free by fastforce
  show ?thesis
  proof (rule run_okI)
    have "?k \<notin> (\<lambda>a. alert_key_of (fst a)) ` set (ar_inflight r)" using other by fastforce
    then show "distinct (map (\<lambda>a. alert_key_of (fst a)) (ar_inflight ?r))" using ok(2) by simp
    fix b assume "b \<in> set (ar_inflight ?r)"
    then consider "b = (a, ar_now r)" | "b \<in> set (ar_inflight r)" by auto
    then show "ar_now ?r - al_timestamp (fst b) < cooldown_of E c \<and> snd b \<le> ar_now ?r \<and>
        am_last_alerts (ar_manager ?r) (alert_key_of (fst b)) = Some (al_timestamp (fst b))"
      by cases (use assms(2) m ok(3,4,5) other in simp_all)
    fix b' assume "b' \<in> set (ar_sent ?r)" "alert_key_of (fst b') = alert_key_of (fst b)"
    then show "al_timestamp (fst b') + cooldown_of E c \<le> snd b"
      using \<open>b \<in> set (ar_inflight ?r)\<close> spaced [of b'] ok(6) [of b b'] by auto
  next
    fix b assume "b \<in> set (ar_sent ?r)"
    then show "al_timestamp (fst b) + cooldown_of E c \<le> ar_now ?r \<or>
        (\<exists>t. am_last_alerts (ar_manager ?r) (alert_key_of (fst b)) = Some t \<and> al_timestamp (fst b) \<le> t)"
      using spaced [of b] ok(7) [of b] m by (cases "alert_key_of (fst b) = ?k") simp_all
  qed (use m ok(8) in simp_all)
qed

lemma run_ok_settle:
  assumes "run_ok E c r" and "ar_inflight r = before @ (a, t) # after"
  shows "run_ok E c (r\<lparr>ar_manager := snd (settle_alert (ar_now r) a failures (ar_manager r)),
      ar_inflight := before @ after,
      ar_sent := (if length failures < length (ac_targets c) \<or> ac_targets c = []
                  then ar_sent r @ [(a, t)] else ar_sent r)\<rparr>)" (is "run_ok E c ?r")
proof -
  let ?k = "alert_key_of a" and ?m = "snd (settle_alert (ar_now r) a failures (ar_manager r))"
  let ?reached = "length failures < length (ac_targets c) \<or> ac_targets c = []"
  note ok = run_okD [OF assms(1)]
  have a: "(a, t) \<in> set (ar_inflight r)" and sub: "\<And>b. b \<in> set (before @ after) \<Longrightarrow> b \<in> set (ar_inflight r)"
    using assms(2) by auto
  have other: "alert_key_of (fst b) \<noteq> ?k" if "b \<in> set (before @ after)" for b
    using ok(2) that unfolding assms(2) by (auto simp: image_iff)
  have spaced: "al_timestamp (fst b) + cooldown_of E c \<le> t" if "b \<in> set (ar_sent r)" "alert_key_of (fst b) = ?k" for b
    using ok(6) [OF a that(1)] that(2) by simp
  have now: "t \<le> ar_now r" "am_last_alerts (ar_manager r) ?k = Some (al_timestamp a)"
    using ok(4) [OF a] ok(5) [OF a] by simp_all
  have m: "am_config ?m = c"
    "am_last_alerts ?m = (am_last_alerts (ar_manager r))(?k := if ?reached then Some (al_timestamp a) else None)"
    using ok(1) by (simp_all add: settle_alert_def Let_def)
  have sent: "b \<in> set (ar_sent ?r) \<Longrightarrow> b \<in> set (ar_sent r) \<or> b = (a, t) \<and> ?reached" for b
    by (auto split: if_splits)
  show ?thesis
  proof (rule run_okI)
    show "distinct (map (\<lambda>a. alert_key_of (fst a)) (ar_inflight ?r))" using ok(2) unfolding assms(2) by auto
    fix b assume b: "b \<in> set (ar_inflight ?r)"
    then show "ar_now ?r - al_timestamp (fst b) < cooldown_of E c \<and> snd b \<le> ar_now ?r \<and>
        am_last_alerts (ar_manager ?r) (alert_key_of (fst b)) = Some (al_timestamp (fst b))"
      using ok(3-5) [OF sub, of b] other [of b] m by simp
    fix b' assume "b' \<in> set (ar_sent ?r)" "alert_key_of (fst b') = alert_key_of (fst b)"
    then show "al_timestamp (fst b') + cooldown_of E c \<le> snd b"
      using ok(6) [OF sub, of b b'] other [of b] b sent [of b'] by auto
  next
    fix b assume "b \<in> set (ar_sent ?r)"
    with sent consider "b \<in> set (ar_sent r)" | "b = (a, t)" ?reached by blast
    then show "al_timestamp (fst b) + cooldown_of E c \<le> ar_now ?r \<or>
        (\<exists>t. am_last_alerts (ar_manager ?r) (alert_key_of (fst b)) = Some t \<and> al_timestamp (fst b) \<le> t)"
    proof cases
      case 1
      then show ?thesis using spaced [of b] ok(7) [of b] now(1) m(2)
        by (cases "alert_key_of (fst b) = ?k") simp_all
    qed (use m(2) in simp)
  next
    show "sorted_wrt (\<lambda>b a. alert_key_of (fst b) = alert_key_of (fst a) \<longrightarrow>
        al_timestamp (fst b) + cooldown_of E c \<le> snd a) (ar_sent ?r)"
      using ok(8) spaced by (simp add: sorted_wrt_append)
  qed (use m in simp)
qed

lemma prompt_run_ok: "alert_runs E c True r \<Longrightarrow> run_ok E c r"
proof (induction r rule: alert_runs.induct)
  case (tick r now)
  note ok = run_okD [OF tick(4)]
  show ?case
  proof (rule run_okI)
    fix a assume "a \<in> set (ar_inflight (r\<lparr>ar_now := now\<rparr>))"
    then show "ar_now (r\<lparr>ar_now := now\<rparr>) - al_timestamp (fst a) < cooldown_of E c \<and>
        snd a \<le> ar_now (r\<lparr>ar_now := now\<rparr>) \<and>
        am_last_alerts (ar_manager (r\<lparr>ar_now := now\<rparr>)) (alert_key_of (fst a)) = Some (al_timestamp (fst a))"
      using tick(2,3) ok(4,5) [of a] by simp
  next
    fix b assume "b \<in> set (ar_sent (r\<lparr>ar_now := now\<rparr>))"
    then show "al_timestamp (fst b) + cooldown_of E c \<le> ar_now (r\<lparr>ar_now := now\<rparr>) \<or>
        (\<exists>t. am_last_alerts (ar_manager (r\<lparr>ar_now := now\<rparr>)) (alert_key_of (fst b)) = Some t \<and> al_timestamp (fst b) \<le> t)"
      using tick(2) ok(7) [of b] by auto
  qed (use ok in simp_all)
next
  case (reserve r a m)
  then show ?case by (intro run_ok_reserve) simp_all
next
  case (settle r before a t after failures m)
  show ?case using run_ok_settle [OF settle(4,2), of failures] unfolding settle(3) .
qed (simp add: run_ok_def alert_manager_new_def)

text \<open>
  C37: However the checks of many queues interleave, as long as every alert is settled within its
  cooldown, an alert of a queue and type that reached a target is not sent again before its
  cooldown has passed, and no two alerts of one queue and type are being sent at the same time.
\<close>

theorem alert_cooldown:
  assumes "alert_runs E c True r"
  shows "sorted_wrt (\<lambda>b a. alert_key_of (fst b) = alert_key_of (fst a) \<longrightarrow>
        al_timestamp (fst b) + cooldown_of E c \<le> snd a) (ar_sent r) \<and>
    distinct (map (\<lambda>a. alert_key_of (fst a)) (ar_inflight r)) \<and>
    (\<forall>a \<in> set (ar_inflight r). \<forall>b \<in> set (ar_sent r). alert_key_of (fst b) = alert_key_of (fst a) \<longrightarrow>
       al_timestamp (fst b) + cooldown_of E c \<le> snd a)"
  using prompt_run_ok [OF assms] unfolding run_ok_def by blast

text \<open>One webhook target and the default cooldown of 300 seconds; the sample alerts are of one queue.\<close>

definition sample_alerting :: alerting_config where
  "sample_alerting = alert_webhook ''u'' [] alerting_default"

definition sample_alert :: "time \<Rightarrow> alert" where
  "sample_alert ts = queue_depth_alert ts ''q'' 5 1"

lemma sample_alert_simps [simp]:
  "alert_key_of (sample_alert ts) = (''q'', QueueDepthExceeded)" "al_timestamp (sample_alert ts) = ts"
  "cooldown_of sample_externs sample_alerting = 300000000000"
  "ac_targets sample_alerting = [WebhookTarget ''u'' []]"
  by (simp_all add: sample_alert_def queue_depth_alert_def alert_key_of_def sample_alerting_def alert_webhook_def
      alerting_default_def saturating_chrono_duration_def sample_externs_def)

lemma sample_retry_delay:
  "saturating_chrono_duration sample_externs
     (min FAILED_ALERT_RETRY_DELAY (ac_cooldown_period sample_alerting)) = 60000000000"
  by (simp add: saturating_chrono_duration_def sample_externs_def FAILED_ALERT_RETRY_DELAY_def
      sample_alerting_def alert_webhook_def alerting_default_def)

text \<open>The manager of a run with one target, by the time of the last alert of the key.\<close>

abbreviation sample_alert_manager :: "time option \<Rightarrow> alert_manager" where
  "sample_alert_manager t \<equiv> \<lparr>am_config = sample_alerting,
     am_last_alerts = Map.empty((''q'', QueueDepthExceeded) := t), am_failed_alerts = Map.empty\<rparr>"

lemma sample_reserve:
  "(\<And>t. last_time = Some t \<Longrightarrow> 300000000000 \<le> now - t) \<Longrightarrow>
     reserve_alert sample_externs now (sample_alert ts) (sample_alert_manager last_time) =
       (True, sample_alert_manager (Some ts))"
  unfolding reserve_alert_True by simp

lemma sample_settle:
  "snd (settle_alert now (sample_alert ts) [] (sample_alert_manager last_time)) = sample_alert_manager (Some ts)"
  by (simp add: settle_alert_def Let_def)

abbreviation sample_alert_run :: "time option \<Rightarrow> (time \<times> time) list \<Rightarrow> (time \<times> time) list \<Rightarrow> time \<Rightarrow> alert_run" where
  "sample_alert_run last_time inflight sent now \<equiv> \<lparr>ar_manager = sample_alert_manager last_time,
     ar_inflight = map (\<lambda>(ts, t). (sample_alert ts, t)) inflight,
     ar_sent = map (\<lambda>(ts, t). (sample_alert ts, t)) sent, ar_now = now\<rparr>"

lemma sample_alert_run_start: "alert_runs sample_externs sample_alerting prompt (sample_alert_run None [] [] now)"
  using start [of sample_externs sample_alerting prompt now] by (simp add: alert_manager_new_def)

lemma sample_alert_run_reserve:
  assumes "alert_runs sample_externs sample_alerting prompt (sample_alert_run last_time inflight sent now)"
    and "\<And>t. last_time = Some t \<Longrightarrow> 300000000000 \<le> now - t"
  shows "alert_runs sample_externs sample_alerting prompt (sample_alert_run (Some now) ((now, now) # inflight) sent now)"
  using reserve [OF assms(1), of "sample_alert now" "sample_alert_manager (Some now)"]
    sample_reserve [OF assms(2)] by simp

lemma sample_alert_run_settle:
  assumes "alert_runs sample_externs sample_alerting prompt (sample_alert_run last_time inflight sent now)"
    and "inflight = before @ (ts, t) # after"
  shows "alert_runs sample_externs sample_alerting prompt
    (sample_alert_run (Some ts) (before @ after) (sent @ [(ts, t)]) now)"
  using settle [OF assms(1), of "map (\<lambda>(ts, t). (sample_alert ts, t)) before" "sample_alert ts" t
      "map (\<lambda>(ts, t). (sample_alert ts, t)) after" "[]"] sample_settle assms(2) by simp

lemma sample_alert_run_tick:
  assumes "alert_runs sample_externs sample_alerting prompt (sample_alert_run last_time inflight sent now)"
    and "now \<le> now'" and "prompt \<Longrightarrow> inflight = []"
  shows "alert_runs sample_externs sample_alerting prompt (sample_alert_run last_time inflight sent now')"
  using tick [OF assms(1), of now'] assms(2,3) by auto

lemma alert_cooldown_witness:
  "\<exists>r. alert_runs sample_externs sample_alerting True r \<and> length (ar_sent r) = 2 \<and>
     al_timestamp (fst (ar_sent r ! 0)) + cooldown_of sample_externs sample_alerting \<le> snd (ar_sent r ! 1)"
proof -
  have "alert_runs sample_externs sample_alerting True (sample_alert_run (Some 0) [] [(0, 0)] 0)"
    using sample_alert_run_settle [OF sample_alert_run_reserve [OF sample_alert_run_start [of _ 0]], where before = "[]"] by simp
  from sample_alert_run_tick [OF this, of 300000000000]
  have "alert_runs sample_externs sample_alerting True (sample_alert_run (Some 0) [] [(0, 0)] 300000000000)" by simp
  from sample_alert_run_settle [OF sample_alert_run_reserve [OF this], where before = "[]"]
  have r: "alert_runs sample_externs sample_alerting True
      (sample_alert_run (Some 300000000000) [] [(0, 0), (300000000000, 300000000000)] 300000000000)" by simp
  let ?r = "sample_alert_run (Some 300000000000) [] [(0, 0), (300000000000, 300000000000)] 300000000000"
  have "al_timestamp (fst (ar_sent ?r ! 0)) + cooldown_of sample_externs sample_alerting \<le> snd (ar_sent ?r ! 1)"
    using alert_cooldown [OF r] by simp
  moreover have "length (ar_sent ?r) = 2" by simp
  ultimately show ?thesis using r by blast
qed

text \<open>
  The cooldown is not kept when a delivery outlasts it: a slow delivery that finally succeeds
  writes its own, older time over the reservation of a newer alert, so a third alert of the
  same queue and type is sent at once after the second.
\<close>

theorem slow_delivery_breaks_cooldown:
  "\<exists>r i j. alert_runs sample_externs sample_alerting False r \<and> i < j \<and> j < length (ar_sent r) \<and>
     alert_key_of (fst (ar_sent r ! i)) = alert_key_of (fst (ar_sent r ! j)) \<and>
     snd (ar_sent r ! j) < al_timestamp (fst (ar_sent r ! i)) + cooldown_of sample_externs sample_alerting"
proof -
  let ?t = "300000000000 :: time"
  have "alert_runs sample_externs sample_alerting False (sample_alert_run (Some 0) [(0, 0)] [] ?t)"
    using sample_alert_run_tick [OF sample_alert_run_reserve [OF sample_alert_run_start [of _ 0]], where now' = ?t] by simp
  then have "alert_runs sample_externs sample_alerting False (sample_alert_run (Some ?t) [(?t, ?t), (0, 0)] [] ?t)"
    by (rule sample_alert_run_reserve) simp
  from sample_alert_run_settle [OF this, where before = "[]"]
  have "alert_runs sample_externs sample_alerting False (sample_alert_run (Some ?t) [(0, 0)] [(?t, ?t)] ?t)" by simp
  from sample_alert_run_settle [OF this, where before = "[]"]
  have "alert_runs sample_externs sample_alerting False (sample_alert_run (Some 0) [] [(?t, ?t), (0, 0)] ?t)" by simp
  then have "alert_runs sample_externs sample_alerting False (sample_alert_run (Some ?t) [(?t, ?t)] [(?t, ?t), (0, 0)] ?t)"
    by (rule sample_alert_run_reserve) simp
  from sample_alert_run_settle [OF this, where before = "[]"]
  have r: "alert_runs sample_externs sample_alerting False (sample_alert_run (Some ?t) [] [(?t, ?t), (0, 0), (?t, ?t)] ?t)"
    by simp
  show ?thesis by (intro exI [of _ 0] exI [of _ 2] exI conjI, rule r) simp_all
qed

end
