(* ===== verification/Streaming.thy ===== *)
theory Streaming
  imports Webhooks "HOL-Library.Word"
begin

text \<open>
  Event streams: \<open>src/src/streaming.rs\<close>. The listener of a stream buffers matching events and
  hands them over in batches; a batch is serialized, sent through the stream's processor, and
  what was not acknowledged is retried; the outcome is folded into the statistics. The
  processors (Kafka, Kinesis, Pub/Sub) and the binary serializers are third-party code: each
  attempt is given what \<open>send_batch\<close> returned. Times of the buffer are tokio instants.
\<close>

unbundle bit_operations_syntax

subsection \<open>Configuration\<close>

datatype partition_field = PfJobId | PfQueueName | PfPriority | PfEventType | PfMetadataKey string

datatype partitioning_strategy =
    PsNone | PsJobId | PsQueueName | PsPriority | PsEventType | PsCustom string | PsHash "partition_field list"

datatype serialization_format = FmtJson | FmtAvro string | FmtProtobuf string | FmtMessagePack

record stream_retry_policy =
  sp_max_attempts :: nat
  sp_initial_delay_secs :: nat
  sp_max_delay_secs :: nat
  sp_backoff_multiplier :: f64
  sp_use_jitter :: bool

definition stream_retry_default :: stream_retry_policy where
  "stream_retry_default =
     \<lparr>sp_max_attempts = 5, sp_initial_delay_secs = 1, sp_max_delay_secs = 300,
      sp_backoff_multiplier = Fin 2, sp_use_jitter = True\<rparr>"

definition f64_half :: "float_env \<Rightarrow> f64 \<Rightarrow> f64" where
  "f64_half F x = (case x of Fin r \<Rightarrow> fl_round F (r / 2) | other \<Rightarrow> other)"

definition delay_for_retry :: "float_env \<Rightarrow> rng \<Rightarrow> stream_retry_policy \<Rightarrow> nat \<Rightarrow> duration" where
  "delay_for_retry F R p retry =
     (let exponent = int (min (retry - 1) (2 ^ 31 - 1));
          multiplier = (if is_finite (sp_backoff_multiplier p) \<and> f64_lt (Fin 0) (sp_backoff_multiplier p)
                        then sp_backoff_multiplier p else Fin 1);
          max_delay = fl_round F (of_nat (sp_max_delay_secs p));
          delay = f64_min (f64_mul F (fl_round F (of_nat (sp_initial_delay_secs p))) (fl_powi F multiplier exponent))
                    max_delay;
          delay1 = (if \<not> is_finite delay \<or> f64_lt delay (Fin 0) then max_delay else delay);
          delay2 = (if sp_use_jitter p \<and> f64_lt (Fin 0) delay1
                    then gen_f64 R (f64_half F delay1) delay1 else delay1) in
      unwrap_or (try_from_secs_f64 delay2) (sp_max_delay_secs p * 10 ^ 9))"

record buffer_config =
  bc_max_events :: nat
  bc_max_buffer_time_secs :: nat
  bc_batch_size :: nat

definition buffer_config_default :: buffer_config where
  "buffer_config_default = \<lparr>bc_max_events = 1000, bc_max_buffer_time_secs = 5, bc_batch_size = 100\<rparr>"

record stream_config =
  st_id :: uuid
  st_name :: string
  st_filter :: event_filter
  st_partitioning :: partitioning_strategy
  st_serialization :: serialization_format
  st_retry_policy :: stream_retry_policy
  st_enabled :: bool
  st_buffer_config :: buffer_config

text \<open>The connection settings of the backend are not kept: only its processor reads them.\<close>

definition stream_new :: "uuid \<Rightarrow> string \<Rightarrow> stream_config" where
  "stream_new u name =
     \<lparr>st_id = u, st_name = name, st_filter = event_filter_new, st_partitioning = PsNone,
      st_serialization = FmtJson, st_retry_policy = stream_retry_default, st_enabled = True,
      st_buffer_config = buffer_config_default\<rparr>"

record stream_manager_config =
  smc_max_concurrent_processors :: nat
  smc_log_operations :: bool
  smc_global_flush_interval_secs :: nat

subsection \<open>Partitions\<close>

definition fnv1a_64 :: "string \<Rightarrow> 64 word" where
  "fnv1a_64 bytes = fold (\<lambda>b h. (h XOR of_nat (of_char b)) * 0x00000100000001b3) bytes 0xcbf29ce484222325"

fun field_text :: "externs \<Rightarrow> lifecycle_event \<Rightarrow> partition_field \<Rightarrow> string" where
  "field_text E e PfJobId = uuid_show E (le_job_id e)"
| "field_text E e PfQueueName = le_queue_name e"
| "field_text E e PfPriority = priority_display (le_priority e)"
| "field_text E e PfEventType = lifecycle_event_str (le_event_type e)"
| "field_text E e (PfMetadataKey key) = unwrap_or (map_of (le_metadata e) key) []"

fun calculate_partition_key :: "externs \<Rightarrow> lifecycle_event \<Rightarrow> partitioning_strategy \<Rightarrow> string option" where
  "calculate_partition_key E e PsNone = None"
| "calculate_partition_key E e PsJobId = Some (uuid_show E (le_job_id e))"
| "calculate_partition_key E e PsQueueName = Some (le_queue_name e)"
| "calculate_partition_key E e PsPriority = Some (priority_display (le_priority e))"
| "calculate_partition_key E e PsEventType = Some (lifecycle_event_str (le_event_type e))"
| "calculate_partition_key E e (PsCustom key) = map_of (le_metadata e) key"
| "calculate_partition_key E e (PsHash parts) =
     Some (show_nat (unat (fnv1a_64 (concat (map (\<lambda>f. field_text E e f @ ''|'') parts))) mod 1000))"

subsection \<open>Preparing an event\<close>

record streamed_event =
  se_event :: lifecycle_event
  se_partition_key :: "string option"
  se_serialized_data :: string
  se_streamed_at :: time
  se_headers :: "(string \<times> string) list"

text \<open>
  The serializers: JSON is serde_json's; the binary ones need the \<open>streaming\<close> feature and may
  fail with their message. \<open>None\<close> is a build without the feature.
\<close>

record stream_env =
  sx_binary :: "(serialization_format \<Rightarrow> lifecycle_event \<Rightarrow> string res) option"
  sx_rfc3339 :: "time \<Rightarrow> string"

definition serialize_event ::
  "externs \<Rightarrow> json_env \<Rightarrow> stream_env \<Rightarrow> serialization_format \<Rightarrow> lifecycle_event \<Rightarrow> string res" where
  "serialize_event E J X fmt e =
     (case fmt of
        FmtJson \<Rightarrow> Inr (json_text J (event_value E J e))
      | _ \<Rightarrow>
          (case sx_binary X of
             Some enc \<Rightarrow> enc fmt e
           | None \<Rightarrow>
               Inl (StreamingError ((case fmt of FmtAvro _ \<Rightarrow> ''Avro'' | FmtProtobuf _ \<Rightarrow> ''Protobuf'' | _ \<Rightarrow> ''MessagePack'')
                 @ '' serialization requires '' @ [CHR 0x27] @ ''streaming'' @ [CHR 0x27] @ '' feature''))))"

definition prepare_streamed_event ::
  "externs \<Rightarrow> json_env \<Rightarrow> stream_env \<Rightarrow> time \<Rightarrow> lifecycle_event \<Rightarrow> stream_config \<Rightarrow> streamed_event res" where
  "prepare_streamed_event E J X now e s =
     (case serialize_event E J X (st_serialization s) e of
        Inl err \<Rightarrow> Inl err
      | Inr bytes \<Rightarrow>
          Inr \<lparr>se_event = e, se_partition_key = calculate_partition_key E e (st_partitioning s),
               se_serialized_data = bytes, se_streamed_at = now,
               se_headers = [(''event_type'', lifecycle_event_str (le_event_type e)),
                 (''queue_name'', le_queue_name e), (''priority'', priority_display (le_priority e)),
                 (''timestamp'', sx_rfc3339 X (le_timestamp e))]\<rparr>)"

subsection \<open>Delivering a batch\<close>

record stream_delivery =
  sd_event_id :: uuid
  sd_success :: bool
  sd_error_message :: "string option"
  sd_duration_ms :: "nat option"

record batch_outcome =
  bo_delivered :: nat
  bo_failed :: nat
  bo_delivery_time_ms_total :: nat
  bo_last_error :: "string option"

definition outcome_default :: batch_outcome where
  "outcome_default =
     \<lparr>bo_delivered = 0, bo_failed = 0, bo_delivery_time_ms_total = 0, bo_last_error = None\<rparr>"

abbreviation event_ids :: "streamed_event list \<Rightarrow> uuid list" where
  "event_ids \<equiv> map (\<lambda>e. le_event_id (se_event e))"

text \<open>The result of the last delivery for an event wins.\<close>

definition by_event :: "stream_delivery list \<Rightarrow> uuid \<rightharpoonup> stream_delivery" where
  "by_event ds = map_of (rev (map (\<lambda>d. (sd_event_id d, d)) ds))"

fun tally_events ::
  "(uuid \<rightharpoonup> stream_delivery) \<Rightarrow> nat \<Rightarrow> uuid list \<Rightarrow> batch_outcome \<times> uuid list \<Rightarrow> batch_outcome \<times> uuid list" where
  "tally_events m elapsed_ms [] acc = acc"
| "tally_events m elapsed_ms (i # ids) (o1, failed) =
     (case m i of
        Some d \<Rightarrow>
          if sd_success d then
            tally_events m elapsed_ms ids
              (o1\<lparr>bo_delivered := bo_delivered o1 + 1,
                  bo_delivery_time_ms_total := bo_delivery_time_ms_total o1 + unwrap_or (sd_duration_ms d) elapsed_ms\<rparr>,
               failed)
          else
            tally_events m elapsed_ms ids
              (o1\<lparr>bo_last_error := Some (unwrap_or (sd_error_message d) ''delivery failed'')\<rparr>,
               List.insert i failed)
      | None \<Rightarrow>
          tally_events m elapsed_ms ids
            (o1\<lparr>bo_last_error := Some ''processor returned no delivery result''\<rparr>, List.insert i failed))"

text \<open>What an attempt is given: the answer of the processor and the elapsed milliseconds.\<close>

type_synonym send_result = "(stream_delivery list) res \<times> nat"

definition tally_attempt :: "send_result \<Rightarrow> uuid list \<Rightarrow> batch_outcome \<Rightarrow> batch_outcome \<times> uuid list" where
  "tally_attempt r ids o1 =
     (case r of
        (Inr ds, elapsed_ms) \<Rightarrow> tally_events (by_event ds) elapsed_ms ids (o1, [])
      | (Inl e, _) \<Rightarrow> (o1\<lparr>bo_last_error := Some (error_display e)\<rparr>, remdups ids))"

definition shutdown_reason :: "nat \<Rightarrow> nat \<Rightarrow> string option \<Rightarrow> string" where
  "shutdown_reason retry max_attempts err =
     ''stream manager shut down before retry '' @ show_nat retry @ '' of '' @ show_nat max_attempts
       @ ''; last error: '' @ unwrap_or err ''unknown error''"

text \<open>
  The loop. \<open>send n batch\<close> is the answer to attempt \<open>n\<close>; \<open>stop n\<close> tells that the manager shuts
  down before the retry after it. The second result lists the batch each attempt sent.
\<close>

function retry_loop ::
  "(nat \<Rightarrow> streamed_event list \<Rightarrow> send_result) \<Rightarrow> (nat \<Rightarrow> bool) \<Rightarrow> nat \<Rightarrow> nat \<Rightarrow> streamed_event list \<Rightarrow>
     batch_outcome \<Rightarrow> batch_outcome \<times> streamed_event list list" where
  "retry_loop send stop max_attempts attempt pending o1 =
     (let n = attempt + 1;
          ids = event_ids pending in
      case tally_attempt (send n pending) ids o1 of
        (o2, failed) \<Rightarrow>
          if failed = [] then (o2, [pending])
          else if max_attempts \<le> n then (o2\<lparr>bo_failed := bo_failed o2 + length failed\<rparr>, [pending])
          else
            (let pending1 = filter (\<lambda>e. le_event_id (se_event e) \<in> set failed) pending in
             if stop n then
               (o2\<lparr>bo_failed := bo_failed o2 + length pending1,
                  bo_last_error := Some (shutdown_reason (n + 1) max_attempts (bo_last_error o2))\<rparr>, [pending])
             else
               (case retry_loop send stop max_attempts n pending1 o2 of
                  (o3, sent) \<Rightarrow> (o3, pending # sent))))"
  by pat_completeness auto
termination
  by (relation "measure (\<lambda>(send, stop, m, n, pending, o1). m - n)") auto

declare retry_loop.simps [simp del]

definition deliver_with_retries ::
  "(nat \<Rightarrow> streamed_event list \<Rightarrow> send_result) \<Rightarrow> (nat \<Rightarrow> bool) \<Rightarrow> stream_retry_policy \<Rightarrow> streamed_event list \<Rightarrow>
     batch_outcome \<Rightarrow> batch_outcome \<times> streamed_event list list" where
  "deliver_with_retries send stop p pending o1 = retry_loop send stop (max (sp_max_attempts p) 1) 0 pending o1"

record stream_stats =
  ss_stream_id :: uuid
  ss_total_events :: nat
  ss_successful_deliveries :: nat
  ss_failed_deliveries :: nat
  ss_success_rate :: rat
  ss_avg_delivery_time_ms :: rat
  ss_buffered_events :: nat
  ss_last_success_at :: "time option"
  ss_last_failure_at :: "time option"
  ss_last_error :: "string option"
  ss_dropped_events :: nat
  ss_calculated_at :: time

definition stream_stats_new :: "uuid \<Rightarrow> time \<Rightarrow> stream_stats" where
  "stream_stats_new i now =
     \<lparr>ss_stream_id = i, ss_total_events = 0, ss_successful_deliveries = 0, ss_failed_deliveries = 0,
      ss_success_rate = 0, ss_avg_delivery_time_ms = 0, ss_buffered_events = 0, ss_last_success_at = None,
      ss_last_failure_at = None, ss_last_error = None, ss_dropped_events = 0, ss_calculated_at = now\<rparr>"

definition fold_outcome :: "time \<Rightarrow> batch_outcome \<Rightarrow> stream_stats \<Rightarrow> stream_stats" where
  "fold_outcome now o1 s =
     (let s1 = s\<lparr>ss_total_events := ss_total_events s + (bo_delivered o1 + bo_failed o1)\<rparr>;
          s2 = (if 0 < bo_delivered o1 then
                  (let done = ss_successful_deliveries s1 + bo_delivered o1 in
                   s1\<lparr>ss_successful_deliveries := done,
                      ss_avg_delivery_time_ms :=
                        (ss_avg_delivery_time_ms s1 * of_nat (ss_successful_deliveries s1)
                          + of_nat (bo_delivery_time_ms_total o1)) / of_nat done,
                      ss_last_success_at := Some now\<rparr>)
                else s1);
          s3 = (if 0 < bo_failed o1 then
                  s2\<lparr>ss_failed_deliveries := ss_failed_deliveries s2 + bo_failed o1,
                     ss_last_failure_at := Some now, ss_last_error := bo_last_error o1\<rparr>
                else s2);
          finished = ss_successful_deliveries s3 + ss_failed_deliveries s3;
          s4 = (if 0 < finished then
                  s3\<lparr>ss_success_rate := of_nat (ss_successful_deliveries s3) / of_nat finished\<rparr>
                else s3) in
      s4\<lparr>ss_calculated_at := now\<rparr>)"

definition record_batch_outcome ::
  "time \<Rightarrow> uuid \<Rightarrow> batch_outcome \<Rightarrow> (uuid \<rightharpoonup> stream_stats) \<Rightarrow> (uuid \<rightharpoonup> stream_stats)" where
  "record_batch_outcome now i o1 stats =
     (case stats i of None \<Rightarrow> stats | Some s \<Rightarrow> stats(i \<mapsto> fold_outcome now o1 s))"

fun prepare_events ::
  "externs \<Rightarrow> json_env \<Rightarrow> stream_env \<Rightarrow> time \<Rightarrow> stream_config \<Rightarrow> lifecycle_event list \<Rightarrow>
     streamed_event list \<times> batch_outcome \<Rightarrow> streamed_event list \<times> batch_outcome" where
  "prepare_events E J X now s [] acc = acc"
| "prepare_events E J X now s (e # es) (streamed, o1) =
     (case prepare_streamed_event E J X now e s of
        Inr se \<Rightarrow> prepare_events E J X now s es (streamed @ [se], o1)
      | Inl err \<Rightarrow>
          prepare_events E J X now s es
            (streamed,
             o1\<lparr>bo_failed := bo_failed o1 + 1,
                bo_last_error := Some (''failed to prepare event for streaming: '' @ error_display err)\<rparr>))"

text \<open>A batch of a stream that was removed meanwhile (no processor) is given up.\<close>

definition process_event_batch ::
  "externs \<Rightarrow> json_env \<Rightarrow> stream_env \<Rightarrow> (uuid \<Rightarrow> bool) \<Rightarrow> (nat \<Rightarrow> streamed_event list \<Rightarrow> send_result) \<Rightarrow>
     (nat \<Rightarrow> bool) \<Rightarrow> time \<Rightarrow> time \<Rightarrow> uuid \<Rightarrow> stream_config \<Rightarrow> lifecycle_event list \<Rightarrow>
     (uuid \<rightharpoonup> stream_stats) \<Rightarrow> (uuid \<rightharpoonup> stream_stats)" where
  "process_event_batch E J X has_processor send stop now done_at i s events stats =
     (if \<not> has_processor i then stats
      else
        (case prepare_events E J X now s events ([], outcome_default) of
           (streamed, o1) \<Rightarrow>
             record_batch_outcome done_at i
               (if streamed \<noteq> [] then fst (deliver_with_retries send stop (st_retry_policy s) streamed o1) else o1)
               stats))"

subsection \<open>Every event is accounted for\<close>

definition acked :: "send_result \<Rightarrow> uuid \<Rightarrow> bool" where
  "acked r i = (case fst r of Inr ds \<Rightarrow> is_some_and (by_event ds i) sd_success | Inl _ \<Rightarrow> False)"

lemma tally_events_spec:
  assumes "distinct ids" and "distinct failed" and "set ids \<inter> set failed = {}"
    and "tally_events m el ids (o1, failed) = (o2, failed')"
  shows "set failed' = set failed \<union> {i \<in> set ids. \<not> is_some_and (m i) sd_success} \<and> distinct failed' \<and>
    bo_delivered o2 = bo_delivered o1 + length (filter (\<lambda>i. is_some_and (m i) sd_success) ids) \<and>
    bo_failed o2 = bo_failed o1"
  using assms
proof (induction m el ids "(o1, failed)" arbitrary: o1 failed rule: tally_events.induct)
  case (2 m el i ids o1 failed)
  show ?case
  proof (cases "is_some_and (m i) sd_success")
    case True
    then obtain d where d: "m i = Some d" "sd_success d" by (auto simp: is_some_and_iff)
    from 2(2) [OF d] 2(4-7) d show ?thesis by (auto simp: is_some_and_iff)
  next
    case False
    show ?thesis
    proof (cases "m i")
      case None
      from 2(1) [OF None] 2(4-7) None show ?thesis by (auto simp: is_some_and_iff)
    next
      case (Some d)
      with False have d: "\<not> sd_success d" by (simp add: is_some_and_iff)
      from 2(3) [OF Some d] 2(4-7) Some d show ?thesis by (auto simp: is_some_and_iff)
    qed
  qed
qed simp

lemma tally_attempt_spec:
  assumes "distinct ids" and "tally_attempt r ids o1 = (o2, failed)"
  shows "set failed = {i \<in> set ids. \<not> acked r i} \<and> distinct failed \<and>
    bo_delivered o2 = bo_delivered o1 + length (filter (acked r) ids) \<and> bo_failed o2 = bo_failed o1"
proof (cases "fst r")
  case (Inl e)
  then show ?thesis using assms by (cases r) (auto simp: tally_attempt_def acked_def)
next
  case (Inr ds)
  then have "tally_events (by_event ds) (snd r) ids (o1, []) = (o2, failed)"
    using assms(2) by (cases r) (simp add: tally_attempt_def)
  moreover have "acked r = (\<lambda>i. is_some_and (by_event ds i) sd_success)"
    using Inr by (simp add: acked_def fun_eq_iff)
  ultimately show ?thesis using tally_events_spec [OF assms(1), of "[]"] by simp
qed

text \<open>What an attempt did not get acknowledged is as many events as are retried.\<close>

lemma failed_pending:
  assumes "distinct (event_ids pending)" and "set failed = {i \<in> set (event_ids pending). \<not> acked r i}"
    and "distinct failed"
  shows "filter (\<lambda>e. le_event_id (se_event e) \<in> set failed) pending =
      filter (\<lambda>e. \<not> acked r (le_event_id (se_event e))) pending"
    "length failed = length (filter (\<lambda>e. \<not> acked r (le_event_id (se_event e))) pending)"
proof -
  show f: "filter (\<lambda>e. le_event_id (se_event e) \<in> set failed) pending =
      filter (\<lambda>e. \<not> acked r (le_event_id (se_event e))) pending"
    using assms(2) by (intro filter_cong) auto
  have "distinct (event_ids (filter (\<lambda>e. \<not> acked r (le_event_id (se_event e))) pending))"
    using assms(1) by (rule distinct_map_filter)
  moreover have "set (event_ids (filter (\<lambda>e. \<not> acked r (le_event_id (se_event e))) pending)) = set failed"
    using assms(2) by auto
  ultimately show "length failed = length (filter (\<lambda>e. \<not> acked r (le_event_id (se_event e))) pending)"
    using assms(3) by (metis distinct_card length_map)
qed

lemma length_filter_acked:
  "length (filter (acked r) (event_ids pending)) +
     length (filter (\<lambda>e. \<not> acked r (le_event_id (se_event e))) pending) = length pending"
  by (induction pending) auto

lemma retry_loop_spec:
  assumes "distinct (event_ids pending)" and "retry_loop send stop m attempt pending o1 = (o2, sent)"
  shows "bo_delivered o2 + bo_failed o2 = bo_delivered o1 + bo_failed o1 + length pending \<and>
    sent \<noteq> [] \<and> sent ! 0 = pending \<and> length sent \<le> max 1 (m - attempt) \<and>
    (\<forall>k. k + 1 < length sent \<longrightarrow>
       sent ! (k + 1) = filter (\<lambda>e. \<not> acked (send (attempt + k + 1) (sent ! k)) (le_event_id (se_event e))) (sent ! k))"
  using assms
proof (induction send stop m attempt pending o1 arbitrary: o2 sent rule: retry_loop.induct)
  case (1 send stop m attempt pending o1)
  let ?r = "send (attempt + 1) pending"
  obtain oa failed where t: "tally_attempt ?r (event_ids pending) o1 = (oa, failed)" by fastforce
  note ta = tally_attempt_spec [OF 1(2) t]
  note fp = failed_pending [OF 1(2), of failed ?r]
  let ?pending = "filter (\<lambda>e. \<not> acked ?r (le_event_id (se_event e))) pending"
  have sum: "bo_delivered oa + bo_failed oa + length failed = bo_delivered o1 + bo_failed o1 + length pending"
    using ta fp(2) length_filter_acked [of ?r pending] by simp
  show ?case
  proof (cases "failed = [] \<or> m \<le> attempt + 1 \<or> stop (attempt + 1)")
    case True
    then have "sent = [pending]" "bo_delivered o2 + bo_failed o2 = bo_delivered oa + bo_failed oa + length failed"
      using 1(3) t ta fp by (auto simp: retry_loop.simps [of send stop m attempt] Let_def split: if_splits)
    then show ?thesis using sum by simp
  next
    case False
    have f: "filter (\<lambda>e. le_event_id (se_event e) \<in> set failed) pending = ?pending" using fp(1) ta by blast
    obtain ob rest where r: "retry_loop send stop m (attempt + 1) ?pending oa = (ob, rest)" by fastforce
    have res: "o2 = ob" "sent = pending # rest"
      using 1(3) False t r f by (auto simp: retry_loop.simps [of send stop m attempt] Let_def split: if_splits)
    have d: "distinct (event_ids ?pending)" using 1(2) by (rule distinct_map_filter)
    have c: "failed \<noteq> []" "\<not> m \<le> attempt + 1" "\<not> stop (attempt + 1)" using False by auto
    from 1(1) [OF refl refl t [symmetric] c(1,2) f [symmetric] c(3) d r]
    have ih: "bo_delivered ob + bo_failed ob = bo_delivered oa + bo_failed oa + length ?pending"
      "rest \<noteq> []" "rest ! 0 = ?pending" "length rest \<le> max 1 (m - (attempt + 1))"
      "\<forall>k. k + 1 < length rest \<longrightarrow> rest ! (k + 1) =
         filter (\<lambda>e. \<not> acked (send (attempt + 1 + k + 1) (rest ! k)) (le_event_id (se_event e))) (rest ! k)"
      by auto
    have "sent ! (k + 1) = filter (\<lambda>e. \<not> acked (send (attempt + k + 1) (sent ! k)) (le_event_id (se_event e))) (sent ! k)"
      if "k + 1 < length sent" for k
      using that ih(3,5) res(2) by (cases k) auto
    moreover have "length failed = length ?pending" using fp(2) ta by blast
    ultimately show ?thesis using ih(1,2,4) res sum False by auto
  qed
qed


definition sample_streamed :: "uuid \<Rightarrow> streamed_event" where
  "sample_streamed u =
     \<lparr>se_event = event_started u 0 2 ''q'' Normal, se_partition_key = None, se_serialized_data = ''{}'',
      se_streamed_at = 0, se_headers = []\<rparr>"

text \<open>A processor that acknowledges one more event with each attempt.\<close>

definition sample_send :: "nat \<Rightarrow> streamed_event list \<Rightarrow> send_result" where
  "sample_send n batch =
     (Inr [\<lparr>sd_event_id = n, sd_success = True, sd_error_message = None, sd_duration_ms = Some 5\<rparr>], 7)"


lemma prepare_events_spec:
  assumes "prepare_events E J X now s es (streamed, o1) = (streamed', o2)"
    and "distinct (event_ids streamed @ map le_event_id es)"
  shows "distinct (event_ids streamed') \<and> bo_delivered o2 = bo_delivered o1 \<and>
    length streamed' + bo_failed o2 = length streamed + bo_failed o1 + length es"
  using assms
proof (induction E J X now s es "(streamed, o1)" arbitrary: streamed o1 rule: prepare_events.induct)
  case (2 E J X now s e es streamed o1)
  show ?case
  proof (cases "prepare_streamed_event E J X now e s")
    case (Inl err)
    from 2(1) [OF Inl] 2(3,4) Inl show ?thesis by auto
  next
    case (Inr se)
    then have "se_event se = e" by (auto simp: prepare_streamed_event_def split: sum.splits)
    with 2(2) [OF Inr] 2(3,4) Inr show ?thesis by auto
  qed
qed simp

lemma fold_outcome_counts:
  "ss_total_events (fold_outcome now o1 s) = ss_total_events s + bo_delivered o1 + bo_failed o1"
  "ss_successful_deliveries (fold_outcome now o1 s) = ss_successful_deliveries s + bo_delivered o1"
  "ss_failed_deliveries (fold_outcome now o1 s) = ss_failed_deliveries s + bo_failed o1"
  by (simp_all add: fold_outcome_def Let_def)

lemma fold_outcome_rate:
  "0 < bo_delivered o1 + bo_failed o1 \<Longrightarrow>
     ss_success_rate (fold_outcome now o1 s) =
       of_nat (ss_successful_deliveries s + bo_delivered o1) /
       of_nat (ss_successful_deliveries s + bo_delivered o1 + (ss_failed_deliveries s + bo_failed o1))"
  by (auto simp: fold_outcome_def Let_def)

text \<open>
  The statistics of a stream account for every event of a batch that is processed: each is
  counted once, as a successful or a failed delivery, whether it could not be serialized, was
  delivered, failed or was given up at a shutdown; and the success rate is the share of successful
  deliveries. The statistics of other streams do not change.
\<close>

theorem stream_batch_accounted:
  assumes "has_processor i" and "stats i = Some s" and "distinct (map le_event_id events)" and "events \<noteq> []"
  shows "\<exists>s'. process_event_batch E J X has_processor send stop now done_at i cfg events stats = stats(i \<mapsto> s') \<and>
    ss_total_events s' = ss_total_events s + length events \<and>
    ss_successful_deliveries s \<le> ss_successful_deliveries s' \<and> ss_failed_deliveries s \<le> ss_failed_deliveries s' \<and>
    ss_successful_deliveries s' + ss_failed_deliveries s' =
      ss_successful_deliveries s + ss_failed_deliveries s + length events \<and>
    ss_success_rate s' =
      of_nat (ss_successful_deliveries s') / of_nat (ss_successful_deliveries s' + ss_failed_deliveries s')"
proof -
  obtain streamed o1 where p: "prepare_events E J X now cfg events ([], outcome_default) = (streamed, o1)"
    by fastforce
  from prepare_events_spec [OF p] assms(3)
  have o1: "distinct (event_ids streamed)" "bo_delivered o1 = 0" "length streamed + bo_failed o1 = length events"
    by (simp_all add: outcome_default_def)
  define o2 where "o2 = (if streamed \<noteq> [] then fst (deliver_with_retries send stop (st_retry_policy cfg) streamed o1) else o1)"
  have n: "bo_delivered o2 + bo_failed o2 = length events"
  proof (cases "streamed = []")
    case True
    then show ?thesis using o1 by (simp add: o2_def)
  next
    case False
    obtain oa sent where d: "deliver_with_retries send stop (st_retry_policy cfg) streamed o1 = (oa, sent)" by fastforce
    from retry_loop_spec [OF o1(1) d [unfolded deliver_with_retries_def]] False o1 d show ?thesis
      by (simp add: o2_def)
  qed
  have "process_event_batch E J X has_processor send stop now done_at i cfg events stats =
      stats(i \<mapsto> fold_outcome done_at o2 s)"
    using assms(1,2) p by (simp add: process_event_batch_def record_batch_outcome_def o2_def)
  moreover have "0 < bo_delivered o2 + bo_failed o2" using n assms(4) by simp
  ultimately show ?thesis
    using n fold_outcome_rate [of o2 done_at s] by (intro exI [of _ "fold_outcome done_at o2 s"]) (simp add: fold_outcome_counts)
qed

lemma stream_batch_witness:
  "\<exists>s'. process_event_batch sample_externs sample_json \<lparr>sx_binary = None, sx_rfc3339 = (\<lambda>_. [])\<rparr> (\<lambda>i. i = 4)
       sample_send (\<lambda>_. False) 0 1 4 (stream_new 4 ''s'')
       [event_started 1 0 2 ''q'' Normal, event_started 2 0 2 ''q'' Normal] [4 \<mapsto> stream_stats_new 4 0] = [4 \<mapsto> s'] \<and>
     ss_total_events s' = 2"
proof -
  have "distinct (map le_event_id [event_started 1 0 2 ''q'' Normal, event_started 2 0 2 ''q'' Normal])"
    by (simp add: event_started_def)
  from stream_batch_accounted [where has_processor = "\<lambda>i. i = 4" and i = 4 and
      stats = "[4 \<mapsto> stream_stats_new 4 0]", OF refl _ this,
      of "stream_stats_new 4 0" sample_externs sample_json "\<lparr>sx_binary = None, sx_rfc3339 = (\<lambda>_. [])\<rparr>"
        sample_send "\<lambda>_. False" 0 1 "stream_new 4 ''s''"]
  show ?thesis by (auto simp: stream_stats_new_def)
qed

subsection \<open>The listener\<close>

record stream_listener =
  sl_buffer :: "lifecycle_event list"
  sl_buffered_since :: "time option"

definition flush_after :: "stream_config \<Rightarrow> stream_manager_config \<Rightarrow> duration" where
  "flush_after s cfg =
     min (bc_max_buffer_time_secs (st_buffer_config s)) (smc_global_flush_interval_secs cfg) * 10 ^ 9"

definition max_buffered :: "nat \<Rightarrow> stream_config \<Rightarrow> nat" where
  "max_buffered max_permits s = clamp_permits max_permits (bc_max_events (st_buffer_config s))"

definition should_flush :: "nat \<Rightarrow> stream_config \<Rightarrow> stream_manager_config \<Rightarrow> time \<Rightarrow> stream_listener \<Rightarrow> bool" where
  "should_flush max_permits s cfg now l \<longleftrightarrow>
     bc_batch_size (st_buffer_config s) \<le> length (sl_buffer l) \<or>
     max_buffered max_permits s \<le> length (sl_buffer l) \<or>
     is_some_and (sl_buffered_since l) (\<lambda>since. since + int (flush_after s cfg) \<le> now)"

text \<open>
  One round of the loop: the batch handed over, or what the wait for the next event brought.
  \<open>enabled\<close> is read again when the event has arrived.
\<close>

datatype stream_input = SiEvent lifecycle_event | SiLagged nat | SiFlushDue

definition listener_round ::
  "nat \<Rightarrow> (event_filter \<Rightarrow> bool) \<Rightarrow> stream_config \<Rightarrow> stream_manager_config \<Rightarrow> time \<Rightarrow> bool \<Rightarrow> stream_input \<Rightarrow>
     stream_listener \<Rightarrow> lifecycle_event list \<times> nat \<times> stream_listener" where
  "listener_round max_permits delivers s cfg now enabled inp l =
     (if should_flush max_permits s cfg now l \<and> sl_buffer l \<noteq> [] then
        (sl_buffer l, 0, l\<lparr>sl_buffer := [], sl_buffered_since := None\<rparr>)
      else
        (case inp of
           SiEvent e \<Rightarrow>
             if enabled \<and> filter_matches (st_filter s) e then
               (let e1 = (if delivers (st_filter s) then e else e\<lparr>le_payload := None\<rparr>) in
                ([], 0, l\<lparr>sl_buffer := sl_buffer l @ [e1],
                         sl_buffered_since := (if sl_buffer l = [] then Some now else sl_buffered_since l)\<rparr>))
             else ([], 0, l)
         | SiLagged skipped \<Rightarrow> ([], skipped, l)
         | SiFlushDue \<Rightarrow> ([], 0, l)))"

text \<open>A round that hands over a batch does not wait; the next one has an empty buffer and waits.\<close>

definition listener_receives ::
  "nat \<Rightarrow> (event_filter \<Rightarrow> bool) \<Rightarrow> stream_config \<Rightarrow> stream_manager_config \<Rightarrow> time \<times> bool \<times> stream_input \<Rightarrow>
     stream_listener \<Rightarrow> lifecycle_event list list \<times> stream_listener" where
  "listener_receives max_permits delivers s cfg x l =
     (case x of (now, enabled, inp) \<Rightarrow>
        (case listener_round max_permits delivers s cfg now enabled inp l of
           (batch, _, l1) \<Rightarrow>
             if batch \<noteq> [] then ([batch], snd (snd (listener_round max_permits delivers s cfg now enabled inp l1)))
             else ([], l1)))"

fun listener_run ::
  "nat \<Rightarrow> (event_filter \<Rightarrow> bool) \<Rightarrow> stream_config \<Rightarrow> stream_manager_config \<Rightarrow> (time \<times> bool \<times> stream_input) list \<Rightarrow>
     stream_listener \<Rightarrow> lifecycle_event list list \<times> stream_listener" where
  "listener_run max_permits delivers s cfg [] l = ([], l)"
| "listener_run max_permits delivers s cfg (x # xs) l =
     (case listener_receives max_permits delivers s cfg x l of
        (bs, l1) \<Rightarrow> (case listener_run max_permits delivers s cfg xs l1 of (bs', l2) \<Rightarrow> (bs @ bs', l2)))"

text \<open>The events a stream accepts, as it is to deliver them.\<close>

fun accepted :: "(event_filter \<Rightarrow> bool) \<Rightarrow> stream_config \<Rightarrow> time \<times> bool \<times> stream_input \<Rightarrow> lifecycle_event list" where
  "accepted delivers s (now, enabled, SiEvent e) =
     (if enabled \<and> filter_matches (st_filter s) e
      then [if delivers (st_filter s) then e else e\<lparr>le_payload := None\<rparr>] else [])"
| "accepted delivers s _ = []"

definition buffer_bound :: "nat \<Rightarrow> stream_config \<Rightarrow> nat" where
  "buffer_bound max_permits s = max 1 (min (bc_batch_size (st_buffer_config s)) (max_buffered max_permits s))"

lemma listener_receives_spec:
  assumes "length (sl_buffer l) \<le> buffer_bound mp s"
    and "listener_receives mp delivers s cfg x l = (bs, l1)"
  shows "concat bs @ sl_buffer l1 = sl_buffer l @ accepted delivers s x \<and>
    length (sl_buffer l1) \<le> buffer_bound mp s \<and> (\<forall>b \<in> set bs. b \<noteq> [] \<and> length b \<le> buffer_bound mp s)"
proof -
  obtain now enabled inp where x: "x = (now, enabled, inp)" by (cases x)
  have wait: "snd (snd (listener_round mp delivers s cfg now enabled inp k)) =
      k\<lparr>sl_buffer := sl_buffer k @ accepted delivers s x,
        sl_buffered_since := sl_buffered_since (snd (snd (listener_round mp delivers s cfg now enabled inp k)))\<rparr>"
    "fst (listener_round mp delivers s cfg now enabled inp k) = []"
    if "\<not> (should_flush mp s cfg now k \<and> sl_buffer k \<noteq> [])" for k
    using that by (cases inp; simp add: listener_round_def x Let_def)+
  have one: "length (accepted delivers s x) \<le> 1"
    by (cases inp) (simp_all add: x)
  show ?thesis
  proof (cases "should_flush mp s cfg now l \<and> sl_buffer l \<noteq> []")
    case True
    let ?l = "l\<lparr>sl_buffer := [], sl_buffered_since := None\<rparr>"
    have "bs = [sl_buffer l]" "l1 = snd (snd (listener_round mp delivers s cfg now enabled inp ?l))"
      using True assms(2) by (simp_all add: listener_receives_def x listener_round_def)
    moreover from this(2) have "sl_buffer l1 = accepted delivers s x"
      using wait(1) [of ?l] by (metis append_Nil list.distinct(1) stream_listener.simps(1,5) stream_listener.surjective
          stream_listener.update_convs(1,2))
    ultimately show ?thesis using assms(1) True one by (auto simp: buffer_bound_def)
  next
    case False
    then have "bs = []" "l1 = snd (snd (listener_round mp delivers s cfg now enabled inp l))"
      using wait(2) [OF False] assms(2) by (auto simp: listener_receives_def x split: prod.splits)
    moreover from this(2) have b: "sl_buffer l1 = sl_buffer l @ accepted delivers s x"
      using arg_cong [OF wait(1) [OF False], of sl_buffer] by simp
    moreover have "length (sl_buffer l1) \<le> buffer_bound mp s"
      using False one b by (auto simp: should_flush_def buffer_bound_def not_le)
    ultimately show ?thesis by simp
  qed
qed

text \<open>
  The listener of a stream hands over every event the stream accepts exactly once and in
  order, in batches that are not empty and not larger than the batch size or the buffer limit
  (one event at least); what is not yet handed over is in its buffer, which keeps the same bound.
\<close>

theorem stream_listener_batches:
  assumes "listener_run mp delivers s cfg xs \<lparr>sl_buffer = [], sl_buffered_since = None\<rparr> = (bs, l)"
  shows "concat bs @ sl_buffer l = concat (map (accepted delivers s) xs) \<and>
    (\<forall>b \<in> set bs. b \<noteq> [] \<and> length b \<le> buffer_bound mp s) \<and> length (sl_buffer l) \<le> buffer_bound mp s"
proof -
  have "concat bs @ sl_buffer l = sl_buffer l0 @ concat (map (accepted delivers s) xs) \<and>
      (\<forall>b \<in> set bs. b \<noteq> [] \<and> length b \<le> buffer_bound mp s) \<and> length (sl_buffer l) \<le> buffer_bound mp s"
    if "listener_run mp delivers s cfg xs l0 = (bs, l)" "length (sl_buffer l0) \<le> buffer_bound mp s" for l0
    using that
  proof (induction xs arbitrary: l0 bs)
    case (Cons x xs)
    obtain bs1 l1 where r: "listener_receives mp delivers s cfg x l0 = (bs1, l1)" by fastforce
    obtain bs2 l2 where r2: "listener_run mp delivers s cfg xs l1 = (bs2, l2)" by fastforce
    have eq: "l2 = l" "bs = bs1 @ bs2" using Cons.prems(1) r r2 by simp_all
    note step = listener_receives_spec [OF Cons.prems(2) r]
    from Cons.IH [of l1 bs2] r2 eq step
    have "concat bs2 @ sl_buffer l = sl_buffer l1 @ concat (map (accepted delivers s) xs)"
      "\<forall>b \<in> set bs2. b \<noteq> [] \<and> length b \<le> buffer_bound mp s" "length (sl_buffer l) \<le> buffer_bound mp s" by simp_all
    moreover from this(1) step have "concat bs @ sl_buffer l = sl_buffer l0 @ concat (map (accepted delivers s) (x # xs))"
      using eq(2) by (metis append_assoc concat.simps(2) concat_append list.simps(9))
    ultimately show ?case using step eq(2) by auto
  qed simp
  from this [OF assms] show ?thesis by simp
qed

lemma stream_listener_witness:
  "\<exists>bs l. listener_run 100 (\<lambda>_. False) (stream_new 4 ''s'')
       \<lparr>smc_max_concurrent_processors = 50, smc_log_operations = True, smc_global_flush_interval_secs = 10\<rparr>
       [(0, True, SiEvent (event_started 1 0 2 ''q'' Normal)), (1, False, SiEvent (event_started 2 0 2 ''q'' Normal)),
        (6000000000, True, SiEvent (event_started 3 0 2 ''q'' Normal))]
       \<lparr>sl_buffer = [], sl_buffered_since = None\<rparr> = (bs, l) \<and>
     map le_event_id (concat bs @ sl_buffer l) = [1, 3]"
proof -
  let ?xs = "[(0, True, SiEvent (event_started 1 0 2 ''q'' Normal)), (1, False, SiEvent (event_started 2 0 2 ''q'' Normal)),
        (6000000000, True, SiEvent (event_started 3 0 2 ''q'' Normal))]"
  obtain bs l where r: "listener_run 100 (\<lambda>_. False) (stream_new 4 ''s'')
       \<lparr>smc_max_concurrent_processors = 50, smc_log_operations = True, smc_global_flush_interval_secs = 10\<rparr>
       ?xs \<lparr>sl_buffer = [], sl_buffered_since = None\<rparr> = (bs, l)" by fastforce
  have "filter_matches (st_filter (stream_new 4 ''s'')) e" for e
    by (simp add: stream_new_def filter_matches_def time_matches_def event_filter_new_def)
  then have "map le_event_id (concat (map (accepted (\<lambda>_. False) (stream_new 4 ''s'')) ?xs)) = [1, 3]"
    by (simp add: event_started_def)
  moreover have "concat bs @ sl_buffer l = concat (map (accepted (\<lambda>_. False) (stream_new 4 ''s'')) ?xs)"
    using stream_listener_batches [OF r] by blast
  ultimately show ?thesis using r by metis
qed

subsection \<open>The manager\<close>

record stream_manager =
  smg_streams :: "uuid \<rightharpoonup> stream_config"
  smg_processors :: "uuid \<Rightarrow> bool"
  smg_subscriptions :: "(uuid \<times> uuid) list"
  smg_stats :: "uuid \<rightharpoonup> stream_stats"
  smg_events :: event_manager
  smg_closed :: bool

text \<open>\<open>created\<close> is the result of connecting the backend's processor.\<close>

definition add_stream ::
  "unit res \<Rightarrow> uuid \<Rightarrow> time \<Rightarrow> stream_config \<Rightarrow> stream_manager \<Rightarrow> unit res \<times> stream_manager" where
  "add_stream created u now s m =
     (case created of
        Inl e \<Rightarrow> (Inl e, m)
      | Inr _ \<Rightarrow>
          (let i = st_id s;
               em1 = snd (subscribe u (st_filter s) (smg_events m));
               em2 = (case map_of (smg_subscriptions m) i of
                        None \<Rightarrow> em1 | Some u' \<Rightarrow> snd (unsubscribe u' em1));
               em3 = (if smg_closed m then drop_subscription u em2 else em2) in
           (Inr (), m\<lparr>smg_streams := (smg_streams m)(i \<mapsto> s), smg_processors := (smg_processors m)(i := True),
                     smg_stats := (smg_stats m)(i \<mapsto> stream_stats_new i now),
                     smg_subscriptions := AList.update i u (smg_subscriptions m), smg_events := em3\<rparr>)))"

text \<open>
  \<open>stopped\<close> is the result of the processor's shutdown; when it fails, the configuration and the
  statistics stay.
\<close>

definition remove_stream :: "unit res \<Rightarrow> uuid \<Rightarrow> stream_manager \<Rightarrow> unit res \<times> stream_manager" where
  "remove_stream stopped i m =
     (let m1 = m\<lparr>smg_events := (case map_of (smg_subscriptions m) i of
                                  None \<Rightarrow> smg_events m
                                | Some u \<Rightarrow> snd (unsubscribe u (smg_events m))),
                smg_subscriptions := AList.delete i (smg_subscriptions m)\<rparr>;
          m2 = m1\<lparr>smg_processors := (smg_processors m1)(i := False)\<rparr> in
      try_res (if smg_processors m1 i then stopped else Inr ()) m2
        (\<lambda>_. (Inr (), m2\<lparr>smg_streams := (smg_streams m2)(i := None), smg_stats := (smg_stats m2)(i := None)\<rparr>)))"

definition stream_not_found :: "externs \<Rightarrow> uuid \<Rightarrow> hammerwork_error" where
  "stream_not_found E i = QueueError (''Stream '' @ uuid_show E i @ '' not found'')"

definition enable_stream :: "externs \<Rightarrow> uuid \<Rightarrow> stream_manager \<Rightarrow> unit res \<times> stream_manager" where
  "enable_stream E i m =
     (case smg_streams m i of
        Some s \<Rightarrow> (Inr (), m\<lparr>smg_streams := (smg_streams m)(i \<mapsto> s\<lparr>st_enabled := True\<rparr>)\<rparr>)
      | None \<Rightarrow> (Inl (stream_not_found E i), m))"

definition disable_stream :: "externs \<Rightarrow> uuid \<Rightarrow> stream_manager \<Rightarrow> unit res \<times> stream_manager" where
  "disable_stream E i m =
     (case smg_streams m i of
        Some s \<Rightarrow> (Inr (), m\<lparr>smg_streams := (smg_streams m)(i \<mapsto> s\<lparr>st_enabled := False\<rparr>)\<rparr>)
      | None \<Rightarrow> (Inl (stream_not_found E i), m))"

definition stream_shutdown :: "stream_manager \<Rightarrow> stream_manager" where
  "stream_shutdown m =
     m\<lparr>smg_closed := True, smg_subscriptions := [], smg_processors := (\<lambda>_. False),
       smg_events := fold (\<lambda>h em. snd (unsubscribe (snd h) em)) (smg_subscriptions m) (smg_events m)\<rparr>"

end
