(* ===== verification/Spawn.thy ===== *)
theory Spawn
  imports Json
begin

text \<open>
  Dynamic job spawning: \<open>src/src/spawn.rs\<close>. The spawn configuration and its place in a job's
  payload, the registry of spawn handlers, and the preparation of the child jobs of a completed
  parent. A handler is user code: each of its functions returns or panics. The derived
  deserializer is serde's: \<open>expected\<close> is the message it gives for a value of the wrong kind. A
  number counts as an integer by its value.
\<close>

subsection \<open>Configuration\<close>

record spawn_config =
  sp_max_spawn_count :: "nat option"
  sp_inherit_priority :: bool
  sp_inherit_retry_strategy :: bool
  sp_inherit_timeout :: bool
  sp_inherit_trace_context :: bool
  sp_operation_id :: "string option"

definition spawn_config_default :: spawn_config where
  "spawn_config_default =
     \<lparr>sp_max_spawn_count = Some 100, sp_inherit_priority = True, sp_inherit_retry_strategy = True,
      sp_inherit_timeout = False, sp_inherit_trace_context = True, sp_operation_id = None\<rparr>"

record spawn_result =
  sr_parent_job_id :: job_id
  sr_spawned_jobs :: "job_id list"
  sr_spawned_at :: time
  sr_spawn_operation_id :: "string option"

datatype spawn_error =
    SpawnLimitExceeded nat nat
  | InvalidConfig string
  | ParentNotEligible string
  | SpawnOperationFailed string

fun spawn_error_display :: "spawn_error \<Rightarrow> string" where
  "spawn_error_display (SpawnLimitExceeded attempted limit) =
     ''Spawn limit exceeded: attempted to spawn '' @ show_nat attempted @ '' jobs, limit is ''
     @ show_nat limit"
| "spawn_error_display (InvalidConfig m) = ''Invalid spawn configuration: '' @ m"
| "spawn_error_display (ParentNotEligible p) = ''Parent job '' @ p @ '' is not eligible for spawning''"
| "spawn_error_display (SpawnOperationFailed m) = ''Spawn operation failed: '' @ m"

subsection \<open>The configuration in the payload\<close>

definition SPAWN_CONFIG_KEY :: string where
  "SPAWN_CONFIG_KEY = ''_spawn_config''"

text \<open>\<open>Map::insert\<close> into the entries of an object, kept in the order of their keys.\<close>

fun object_insert :: "string \<Rightarrow> json_value \<Rightarrow> (string \<times> json_value) list \<Rightarrow> (string \<times> json_value) list" where
  "object_insert k v [] = [(k, v)]"
| "object_insert k v ((k', v') # es) =
     (if k = k' then (k, v) # es
      else if k < k' then (k, v) # (k', v') # es
      else (k', v') # object_insert k v es)"

definition spawn_config_value :: "spawn_config \<Rightarrow> json_value" where
  "spawn_config_value c =
     JObject
       [(''inherit_priority'', JBool (sp_inherit_priority c)),
        (''inherit_retry_strategy'', JBool (sp_inherit_retry_strategy c)),
        (''inherit_timeout'', JBool (sp_inherit_timeout c)),
        (''inherit_trace_context'', JBool (sp_inherit_trace_context c)),
        (''max_spawn_count'', json_option (\<lambda>n. JNumber (of_nat n)) (sp_max_spawn_count c)),
        (''operation_id'', json_option JString (sp_operation_id c))]"

type_synonym expected = "string \<Rightarrow> json_value \<Rightarrow> string"

fun as_bool :: "expected \<Rightarrow> json_value \<Rightarrow> string + bool" where
  "as_bool X (JBool b) = Inr b"
| "as_bool X v = Inl (X ''a boolean'' v)"

fun as_usize :: "expected \<Rightarrow> json_value \<Rightarrow> string + nat" where
  "as_usize X (JNumber q) =
     (if 0 \<le> q \<and> of_int \<lfloor>q\<rfloor> = q \<and> q < 2 ^ 64 then Inr (nat \<lfloor>q\<rfloor>) else Inl (X ''usize'' (JNumber q)))"
| "as_usize X v = Inl (X ''usize'' v)"

fun as_string :: "expected \<Rightarrow> json_value \<Rightarrow> string + string" where
  "as_string X (JString s) = Inr s"
| "as_string X v = Inl (X ''a string'' v)"

fun as_option :: "(json_value \<Rightarrow> string + 'a) \<Rightarrow> json_value \<Rightarrow> string + 'a option" where
  "as_option f JNull = Inr None"
| "as_option f v = map_sum (\<lambda>e. e) Some (f v)"

definition and_then :: "string + 'a \<Rightarrow> ('a \<Rightarrow> string + 'b) \<Rightarrow> string + 'b" where
  "and_then r k = (case r of Inl e \<Rightarrow> Inl e | Inr x \<Rightarrow> k x)"

definition bool_field :: "expected \<Rightarrow> (string \<times> json_value) list \<Rightarrow> string \<Rightarrow> string + bool" where
  "bool_field X es k =
     (case map_of es k of None \<Rightarrow> Inl (''missing field `'' @ k @ ''`'') | Some v \<Rightarrow> as_bool X v)"

definition option_field ::
  "(json_value \<Rightarrow> string + 'a) \<Rightarrow> (string \<times> json_value) list \<Rightarrow> string \<Rightarrow> string + 'a option" where
  "option_field f es k = (case map_of es k of None \<Rightarrow> Inr None | Some v \<Rightarrow> as_option f v)"

text \<open>
  The derived \<open>Deserialize\<close>: from an object, whose other entries are ignored and whose optional
  fields may be missing, or from an array of the six fields in their order.
\<close>

definition spawn_config_of_value :: "expected \<Rightarrow> json_value \<Rightarrow> string + spawn_config" where
  "spawn_config_of_value X v =
     (let build = (\<lambda>m p r t c i.
        and_then m (\<lambda>m'. and_then p (\<lambda>p'. and_then r (\<lambda>r'. and_then t (\<lambda>t'. and_then c (\<lambda>c'.
        and_then i (\<lambda>i'. Inr \<lparr>sp_max_spawn_count = m', sp_inherit_priority = p',
          sp_inherit_retry_strategy = r', sp_inherit_timeout = t', sp_inherit_trace_context = c',
          sp_operation_id = i'\<rparr>))))))) in
      case v of
        JObject es \<Rightarrow>
          build (option_field (as_usize X) es ''max_spawn_count'') (bool_field X es ''inherit_priority'')
            (bool_field X es ''inherit_retry_strategy'') (bool_field X es ''inherit_timeout'')
            (bool_field X es ''inherit_trace_context'') (option_field (as_string X) es ''operation_id'')
      | JArray [m, p, r, t, c, i] \<Rightarrow>
          build (as_option (as_usize X) m) (as_bool X p) (as_bool X r) (as_bool X t) (as_bool X c)
            (as_option (as_string X) i)
      | _ \<Rightarrow> Inl (X ''struct SpawnConfig with 6 elements'' v))"

fun json_kind :: "json_value \<Rightarrow> string" where
  "json_kind JNull = ''null''"
| "json_kind (JBool b) = ''a boolean''"
| "json_kind (JNumber n) = ''a number''"
| "json_kind (JString s) = ''a string''"
| "json_kind (JArray vs) = ''an array''"
| "json_kind (JObject es) = ''an object''"

text \<open>The value of a payload: \<open>serde_json::Value::get\<close> of a key is found in objects only.\<close>

definition payload_value :: "json_env \<Rightarrow> job \<Rightarrow> json_value" where
  "payload_value J j = (case json_parse J (j_payload j) of Inl e \<Rightarrow> JNull | Inr v \<Rightarrow> v)"

definition spawn_config_from_payload :: "expected \<Rightarrow> json_value \<Rightarrow> spawn_config option res" where
  "spawn_config_from_payload X payload =
     (case payload of
        JObject es \<Rightarrow>
          (case map_of es SPAWN_CONFIG_KEY of
             None \<Rightarrow> Inr None
           | Some v \<Rightarrow>
               (case spawn_config_of_value X v of
                  Inl e \<Rightarrow> Inl (InvalidJobPayload
                    (''invalid `'' @ SPAWN_CONFIG_KEY @ ''` in job payload: '' @ e))
                | Inr c \<Rightarrow> Inr (Some c)))
      | _ \<Rightarrow> Inr None)"

definition with_spawn_config :: "json_env \<Rightarrow> job \<Rightarrow> spawn_config \<Rightarrow> job res" where
  "with_spawn_config J j c =
     (case payload_value J j of
        JObject es \<Rightarrow>
          Inr (j\<lparr>j_payload := json_text J (JObject (object_insert SPAWN_CONFIG_KEY (spawn_config_value c) es))\<rparr>)
      | v \<Rightarrow>
          Inl (InvalidJobPayload
            (''a job's spawn configuration is stored in its payload under `'' @ SPAWN_CONFIG_KEY
             @ ''`, so the payload must be a JSON object (got '' @ json_kind v @ '')'')))"

definition with_spawning :: "json_env \<Rightarrow> job \<Rightarrow> job res" where
  "with_spawning J j = with_spawn_config J j spawn_config_default"

subsection \<open>Spawn handlers\<close>

text \<open>What a call of user code does; the payload of a panic may be a string.\<close>

datatype 'a call = Returned 'a | Panicked "string option"

definition call_then :: "'a res call \<Rightarrow> ('a \<Rightarrow> 'b res call) \<Rightarrow> 'b res call" where
  "call_then c k =
     (case c of Panicked m \<Rightarrow> Panicked m | Returned (Inl e) \<Rightarrow> Returned (Inl e) | Returned (Inr x) \<Rightarrow> k x)"

record spawn_handler =
  sh_validate_spawn :: "job \<Rightarrow> spawn_config \<Rightarrow> unit res call"
  sh_spawn_jobs :: "job \<Rightarrow> spawn_config \<Rightarrow> job list res call"
  sh_on_spawn_complete :: "spawn_result \<Rightarrow> unit res call"

text \<open>The handler made of a closure, with the default methods of the trait.\<close>

definition closure_spawn_handler :: "(job \<Rightarrow> spawn_config \<Rightarrow> job list res call) \<Rightarrow> spawn_handler" where
  "closure_spawn_handler f =
     \<lparr>sh_validate_spawn = (\<lambda>_ _. Returned (Inr ())), sh_spawn_jobs = f,
      sh_on_spawn_complete = (\<lambda>_. Returned (Inr ()))\<rparr>"

type_synonym spawn_manager = "(string \<times> spawn_handler) list"

definition register_handler :: "string \<Rightarrow> spawn_handler \<Rightarrow> spawn_manager \<Rightarrow> spawn_manager" where
  "register_handler job_type h m = AList.update job_type h m"

definition has_handler :: "string \<Rightarrow> spawn_manager \<Rightarrow> bool" where
  "has_handler job_type m \<longleftrightarrow> map_of m job_type \<noteq> None"

definition registered_types :: "spawn_manager \<Rightarrow> string list" where
  "registered_types m = map fst m"

definition inherit :: "'a option \<Rightarrow> 'a option \<Rightarrow> 'a option" where
  "inherit child parent = (if parent \<noteq> None then parent else child)"

text \<open>The body of the loop over the children.\<close>

definition inherit_priority_of :: "job \<Rightarrow> spawn_config \<Rightarrow> job \<Rightarrow> job" where
  "inherit_priority_of parent c child =
     (if sp_inherit_priority c then child\<lparr>j_priority := j_priority parent\<rparr> else child)"

definition inherit_retry_of :: "job \<Rightarrow> spawn_config \<Rightarrow> job \<Rightarrow> job" where
  "inherit_retry_of parent c child =
     (if sp_inherit_retry_strategy c
      then child\<lparr>j_retry_strategy := inherit (j_retry_strategy child) (j_retry_strategy parent)\<rparr> else child)"

definition inherit_timeout_of :: "job \<Rightarrow> spawn_config \<Rightarrow> job \<Rightarrow> job" where
  "inherit_timeout_of parent c child =
     (if sp_inherit_timeout c
      then child\<lparr>j_timeout := inherit (j_timeout child) (j_timeout parent)\<rparr> else child)"

definition inherit_trace_of :: "job \<Rightarrow> spawn_config \<Rightarrow> job \<Rightarrow> job" where
  "inherit_trace_of parent c child =
     (if sp_inherit_trace_context c
      then child\<lparr>j_trace_id := inherit (j_trace_id child) (j_trace_id parent),
                 j_correlation_id := inherit (j_correlation_id child) (j_correlation_id parent),
                 j_parent_span_id := inherit (j_parent_span_id child) (j_parent_span_id parent),
                 j_span_context := inherit (j_span_context child) (j_span_context parent)\<rparr>
      else child)"

definition adopt :: "job \<Rightarrow> spawn_config \<Rightarrow> job \<Rightarrow> job" where
  "adopt parent c child =
     (let child1 = inherit_trace_of parent c (inherit_timeout_of parent c
                     (inherit_retry_of parent c (inherit_priority_of parent c child)));
          child2 = (if j_id parent \<in> set (j_depends_on child1) then child1
                    else child1\<lparr>j_depends_on := j_depends_on child1 @ [j_id parent]\<rparr>) in
      child2\<lparr>j_workflow_id := j_workflow_id parent, j_workflow_name := j_workflow_name parent\<rparr>)"

definition prepare_spawn :: "spawn_manager \<Rightarrow> job \<Rightarrow> spawn_config \<Rightarrow> job list option res call" where
  "prepare_spawn m j c =
     (case map_of m (j_queue_name j) of
        None \<Rightarrow> Returned (Inr None)
      | Some h \<Rightarrow>
          call_then (sh_validate_spawn h j c) (\<lambda>_.
          call_then (sh_spawn_jobs h j c) (\<lambda>child_jobs.
            case sp_max_spawn_count c of
              Some max_count \<Rightarrow>
                if max_count < length child_jobs
                then Returned (Inl (SpawnError
                  (spawn_error_display (SpawnLimitExceeded (length child_jobs) max_count))))
                else Returned (Inr (Some (map (adopt j c) child_jobs)))
            | None \<Rightarrow> Returned (Inr (Some (map (adopt j c) child_jobs))))))"

definition notify_spawn_complete :: "spawn_manager \<Rightarrow> job \<Rightarrow> spawn_result \<Rightarrow> unit res call" where
  "notify_spawn_complete m parent r =
     (case map_of m (j_queue_name parent) of
        Some h \<Rightarrow> sh_on_spawn_complete h r
      | None \<Rightarrow> Returned (Inr ()))"

subsection \<open>Correctness\<close>

lemma map_of_object_insert [simp]: "map_of (object_insert k v es) = (map_of es)(k \<mapsto> v)"
  by (induction k v es rule: object_insert.induct) (auto simp: fun_eq_iff)

lemma and_then_simps [simp]: "and_then (Inl e) k = Inl e" "and_then (Inr x) k = k x"
  by (simp_all add: and_then_def)

lemma as_option_json [simp]:
  "as_option (as_string X) (json_option JString s) = Inr s"
  "n < 2 ^ 64 \<Longrightarrow> as_option (as_usize X) (json_option (\<lambda>n. JNumber (of_nat n)) (Some n)) = Inr (Some n)"
  "as_option (as_usize X) (json_option (\<lambda>n. JNumber (of_nat n)) None) = Inr None"
proof -
  assume "n < 2 ^ 64"
  then have "(of_nat n :: rat) < of_nat (2 ^ 64)" by (simp only: of_nat_less_iff)
  then have "(of_nat n :: rat) < 2 ^ 64" by simp
  then show "as_option (as_usize X) (json_option (\<lambda>n. JNumber (of_nat n)) (Some n)) = Inr (Some n)"
    by (simp add: json_option_def)
qed (cases s; simp add: json_option_def)+

text \<open>The \<open>usize\<close> of a configuration is below \<open>2 ^ 64\<close>.\<close>

definition spawn_count_ok :: "spawn_config \<Rightarrow> bool" where
  "spawn_count_ok c \<longleftrightarrow> (\<forall>n. sp_max_spawn_count c = Some n \<longrightarrow> n < 2 ^ 64)"

lemma spawn_config_value_roundtrip:
  assumes "spawn_count_ok c"
  shows "spawn_config_of_value X (spawn_config_value c) = Inr c"
proof -
  have "as_option (as_usize X) (json_option (\<lambda>n. JNumber (of_nat n)) (sp_max_spawn_count c)) = Inr (sp_max_spawn_count c)"
    using assms by (cases "sp_max_spawn_count c") (simp_all add: spawn_count_ok_def)
  then show ?thesis
    by (simp add: spawn_config_of_value_def spawn_config_value_def bool_field_def option_field_def Let_def)
qed

lemma adopt_fields:
  "j_id (adopt p c x) = j_id x" "j_queue_name (adopt p c x) = j_queue_name x"
  "j_payload (adopt p c x) = j_payload x"
  "j_depends_on (adopt p c x) =
     (if j_id p \<in> set (j_depends_on x) then j_depends_on x else j_depends_on x @ [j_id p])"
  "j_workflow_id (adopt p c x) = j_workflow_id p" "j_workflow_name (adopt p c x) = j_workflow_name p"
  "j_priority (adopt p c x) = (if sp_inherit_priority c then j_priority p else j_priority x)"
  "j_timeout (adopt p c x) = (if sp_inherit_timeout c \<and> j_timeout p \<noteq> None then j_timeout p else j_timeout x)"
  "j_retry_strategy (adopt p c x) =
     (if sp_inherit_retry_strategy c \<and> j_retry_strategy p \<noteq> None then j_retry_strategy p else j_retry_strategy x)"
  "j_trace_id (adopt p c x) =
     (if sp_inherit_trace_context c \<and> j_trace_id p \<noteq> None then j_trace_id p else j_trace_id x)"
  by (simp_all add: adopt_def inherit_trace_of_def inherit_timeout_of_def inherit_retry_of_def
      inherit_priority_of_def inherit_def Let_def)

text \<open>
  A spawn configuration put into the payload of a job is the one read back from it, as far as
  the JSON text of the payload parses back to it; the other entries of the payload and the other
  fields of the job are kept. A payload that is not an object is refused, and a payload without
  the entry has no configuration.
\<close>

theorem spawn_config_stored:
  assumes "spawn_count_ok c"
    and "\<forall>es. payload_value J j = JObject es \<longrightarrow>
      (let v = JObject (object_insert SPAWN_CONFIG_KEY (spawn_config_value c) es) in
       json_parse J (json_text J v) = Inr v)"
  shows "case payload_value J j of
      JObject es \<Rightarrow>
        (\<exists>j' es'. with_spawn_config J j c = Inr j' \<and> payload_value J j' = JObject es' \<and>
           spawn_config_from_payload X (payload_value J j') = Inr (Some c) \<and>
           (\<forall>k. k \<noteq> SPAWN_CONFIG_KEY \<longrightarrow> map_of es' k = map_of es k) \<and>
           j' = j\<lparr>j_payload := j_payload j'\<rparr>)
    | v \<Rightarrow> (\<exists>m. with_spawn_config J j c = Inl (InvalidJobPayload m)) \<and>
        spawn_config_from_payload X v = Inr None"
proof (cases "payload_value J j")
  case (JObject es)
  let ?es = "object_insert SPAWN_CONFIG_KEY (spawn_config_value c) es"
  let ?j = "j\<lparr>j_payload := json_text J (JObject ?es)\<rparr>"
  have "payload_value J ?j = JObject ?es"
    using assms(2) JObject by (simp add: Let_def) (simp add: payload_value_def)
  then show ?thesis
    using JObject by (simp add: with_spawn_config_def spawn_config_from_payload_def
        spawn_config_value_roundtrip [OF assms(1)])
qed (simp_all add: with_spawn_config_def spawn_config_from_payload_def)

definition sample_spawn_json :: json_env where
  "sample_spawn_json =
     \<lparr>json_text = (\<lambda>_. ''spawning''),
      json_parse = (\<lambda>s. Inr (JObject (if s = ''spawning''
        then [(SPAWN_CONFIG_KEY, spawn_config_value spawn_config_default), (''a'', JNull)] else [(''a'', JNull)]))),
      time_text = (\<lambda>_. [])\<rparr>"

lemma spawn_config_stored_witness:
  "\<exists>j'. with_spawning sample_spawn_json (job_new 7 0 ''q'' ''{}'') = Inr j' \<and>
     spawn_config_from_payload (\<lambda>e v. e) (payload_value sample_spawn_json j') = Inr (Some spawn_config_default)"
proof -
  let ?j = "job_new 7 0 ''q'' ''{}''"
  have v: "payload_value sample_spawn_json ?j = JObject [(''a'', JNull)]"
    by (simp add: payload_value_def sample_spawn_json_def job_new_def)
  have i: "object_insert SPAWN_CONFIG_KEY w [(''a'', JNull)] = [(SPAWN_CONFIG_KEY, w), (''a'', JNull)]" for w
    by code_simp
  have "spawn_count_ok spawn_config_default" by (simp add: spawn_count_ok_def spawn_config_default_def)
  moreover have "json_parse sample_spawn_json (json_text sample_spawn_json v) =
      Inr (JObject [(SPAWN_CONFIG_KEY, spawn_config_value spawn_config_default), (''a'', JNull)])" for v
    by (simp add: sample_spawn_json_def)
  ultimately show ?thesis
    using spawn_config_stored [of spawn_config_default sample_spawn_json ?j "\<lambda>e v. e"]
    by (auto simp: v i with_spawning_def simp del: object_insert.simps)
qed

lemma prepare_spawn_cases:
  assumes "map_of m (j_queue_name p) = Some h" and "sh_validate_spawn h p c = Returned (Inr ())"
    and "sh_spawn_jobs h p c = Returned (Inr kids)"
  shows "prepare_spawn m p c =
    (if \<exists>n. sp_max_spawn_count c = Some n \<and> n < length kids
     then Returned (Inl (SpawnError (spawn_error_display
       (SpawnLimitExceeded (length kids) (the (sp_max_spawn_count c))))))
     else Returned (Inr (Some (map (adopt p c) kids))))"
  using assms by (auto simp: prepare_spawn_def call_then_def split: option.split)

text \<open>
  The children a handler returns are adopted by their parent or refused as a whole. With a
  handler for the parent's queue that validates the spawn, the prepared children are the
  handler's, in its order and with their own identity, payload and dependencies; each depends on
  the parent exactly as often as needed and joins the parent's workflow, an inherited optional
  setting never wipes the child's own, and there are never more children than the configured
  limit. More children than that are an error and none is prepared; without a handler nothing
  is spawned.
\<close>

theorem prepare_spawn_adopts:
  "(map_of m (j_queue_name p) = None \<longrightarrow> prepare_spawn m p c = Returned (Inr None)) \<and>
   (map_of m (j_queue_name p) = Some h \<and> sh_validate_spawn h p c = Returned (Inr ()) \<and>
      sh_spawn_jobs h p c = Returned (Inr kids) \<longrightarrow>
      (if \<exists>n. sp_max_spawn_count c = Some n \<and> n < length kids
       then (\<exists>e. prepare_spawn m p c = Returned (Inl (SpawnError e)))
       else \<exists>kids'. prepare_spawn m p c = Returned (Inr (Some kids')) \<and> length kids' = length kids \<and>
         (\<forall>i < length kids.
            j_id (kids' ! i) = j_id (kids ! i) \<and> j_queue_name (kids' ! i) = j_queue_name (kids ! i) \<and>
            j_payload (kids' ! i) = j_payload (kids ! i) \<and>
            set (j_depends_on (kids' ! i)) = insert (j_id p) (set (j_depends_on (kids ! i))) \<and>
            (distinct (j_depends_on (kids ! i)) \<longrightarrow> distinct (j_depends_on (kids' ! i))) \<and>
            j_workflow_id (kids' ! i) = j_workflow_id p \<and>
            j_priority (kids' ! i) = (if sp_inherit_priority c then j_priority p else j_priority (kids ! i)) \<and>
            (j_timeout p = None \<longrightarrow> j_timeout (kids' ! i) = j_timeout (kids ! i)) \<and>
            (j_retry_strategy p = None \<longrightarrow> j_retry_strategy (kids' ! i) = j_retry_strategy (kids ! i)) \<and>
            (j_trace_id p = None \<longrightarrow> j_trace_id (kids' ! i) = j_trace_id (kids ! i)))))"
proof (cases "\<exists>n. sp_max_spawn_count c = Some n \<and> n < length kids")
  case True
  then show ?thesis using prepare_spawn_cases [of m p h c kids] by (auto simp: prepare_spawn_def)
next
  case False
  have "length (map (adopt p c) kids) = length kids" by simp
  with False show ?thesis
    using prepare_spawn_cases [of m p h c kids] by (auto simp: adopt_fields) (auto simp: prepare_spawn_def)
qed

lemma prepare_spawn_witness:
  "\<exists>kid. prepare_spawn [(''q'', closure_spawn_handler (\<lambda>p c. Returned (Inr [job_new 2 0 ''r'' ''{}''])))]
       (job_new 1 0 ''q'' ''{}'') spawn_config_default = Returned (Inr (Some [kid])) \<and>
     j_id kid = 2 \<and> set (j_depends_on kid) = {1}"
proof -
  let ?h = "closure_spawn_handler (\<lambda>p c. Returned (Inr [job_new 2 0 ''r'' ''{}'']))"
  obtain kids where "prepare_spawn [(''q'', ?h)] (job_new 1 0 ''q'' ''{}'') spawn_config_default = Returned (Inr (Some kids))"
    and "length kids = 1" "j_id (kids ! 0) = 2" "set (j_depends_on (kids ! 0)) = {1}"
    using prepare_spawn_adopts [of "[(''q'', ?h)]" "job_new 1 0 ''q'' ''{}''" spawn_config_default ?h
        "[job_new 2 0 ''r'' ''{}'']"]
    by (auto simp: closure_spawn_handler_def job_new_def spawn_config_default_def)
  then show ?thesis by (cases kids) auto
qed

end
