(* ===== verification/QueueApi.thy ===== *)
theory QueueApi
  imports TestQueueAdmin
begin

text \<open>
  The queue as its clients see it: the methods of the trait \<open>DatabaseQueue\<close>
  (\<open>src/src/queue/mod.rs\<close>) that workers and worker pools call, as a record of operations on any
  state. The in-memory queue is one instance; a database backend, whose calls may also fail, is
  another, so what is proved of a worker for every instance holds for it.
\<close>

record 's queue_ops =
  qo_dequeue :: "string \<Rightarrow> dequeue_options \<Rightarrow> 's \<Rightarrow> job list res \<times> 's"
  qo_finish_job_run :: "time \<Rightarrow> job \<Rightarrow> job_outcome \<Rightarrow> 's \<Rightarrow> recorded_outcome option res \<times> 's"
  qo_complete_with_children :: "time \<Rightarrow> job \<Rightarrow> job list \<Rightarrow> 's \<Rightarrow> recorded_outcome option res \<times> 's"
  qo_heartbeat_job :: "job \<Rightarrow> duration \<Rightarrow> 's \<Rightarrow> bool res \<times> 's"
  qo_start_claimed_run :: "job \<Rightarrow> duration \<Rightarrow> 's \<Rightarrow> (bool \<times> job) res \<times> 's"
  qo_release_job_run :: "job \<Rightarrow> 's \<Rightarrow> bool res \<times> 's"
  qo_fail_job :: "job_id \<Rightarrow> string \<Rightarrow> 's \<Rightarrow> unit res \<times> 's"
  qo_is_queue_paused :: "string \<Rightarrow> 's \<Rightarrow> bool res"
  qo_get_batch_status :: "batch_id \<Rightarrow> 's \<Rightarrow> batch_result res"
  qo_store_job_result :: "job_id \<Rightarrow> json \<Rightarrow> time option \<Rightarrow> 's \<Rightarrow> unit res \<times> 's"

definition test_ops :: "externs \<Rightarrow> storage queue_ops" where
  "test_ops E =
     \<lparr>qo_dequeue = dequeue E, qo_finish_job_run = finish_job_run E,
      qo_complete_with_children = complete_job_run_with_children E,
      qo_heartbeat_job = heartbeat_job E, qo_start_claimed_run = start_claimed_run E,
      qo_release_job_run = release_job_run E, qo_fail_job = fail_job E,
      qo_is_queue_paused = is_queue_paused, qo_get_batch_status = get_batch_status E,
      qo_store_job_result = store_job_result E\<rparr>"

end
