(* ===== verification/Worker.thy ===== *)
theory Worker
  imports QueueApi Spawn Events StatsCollector MemoryResults TokenBucket
begin

text \<open>
  A worker: \<open>src/src/worker.rs\<close> and \<open>src/src/worker/hooks.rs\<close>. Its configuration, what it does
  with one claimed job (run the handler, decide and record the outcome, announce it), and how it
  acquires jobs. The queue is any record of queue operations. Handlers, hooks, statistics
  collectors and spawn handlers are user code that returns or panics; a handler may also never
  return. While a handler runs the shared state may change: \<open>meanwhile\<close> is that change. Each
  reading of a clock is an argument. Counters are unbounded. The build has no \<open>metrics\<close>, \<open>tracing\<close>
  or \<open>encryption\<close> feature.
\<close>

subsection \<open>Constants and helpers\<close>

definition MAX_RETRY_DELAY :: duration where
  "MAX_RETRY_DELAY = seconds (365 * 24 * 60 * 60)"

definition MAX_ERROR_BACKOFF :: duration where
  "MAX_ERROR_BACKOFF = seconds 60"

definition MIN_ERROR_BACKOFF :: duration where
  "MIN_ERROR_BACKOFF = from_millis 100"

definition MIN_POLL_INTERVAL :: duration where
  "MIN_POLL_INTERVAL = from_millis 10"

definition MIN_HEARTBEAT_INTERVAL :: duration where
  "MIN_HEARTBEAT_INTERVAL = from_millis 100"

definition FINISHED_BATCHES_REMEMBERED :: nat where
  "FINISHED_BATCHES_REMEMBERED = 10000"

definition panic_message :: "string option \<Rightarrow> string" where
  "panic_message payload =
     (case payload of Some m \<Rightarrow> m | None \<Rightarrow> ''non-string panic payload'')"

definition contain_panic :: "string \<Rightarrow> 'a res call \<Rightarrow> 'a res" where
  "contain_panic what c =
     (case c of
        Returned r \<Rightarrow> r
      | Panicked p \<Rightarrow> Inl (WorkerError (what @ '' panicked: '' @ panic_message p)))"

definition handler_panic_error :: "string option \<Rightarrow> hammerwork_error" where
  "handler_panic_error p = WorkerError (''Job handler panicked: '' @ panic_message p)"

definition retry_at_from_delay :: "externs \<Rightarrow> time \<Rightarrow> duration \<Rightarrow> time" where
  "retry_at_from_delay E now retry_delay =
     (let delay = saturating_chrono_duration E (min retry_delay MAX_RETRY_DELAY) in
      unwrap_or (checked_add_signed E now delay) (max_utc E))"

text \<open>\<open>BatchResult::success_rate\<close>, a percentage.\<close>

definition batch_success_percent :: "batch_result \<Rightarrow> rat" where
  "batch_success_percent r =
     (if r_total_jobs r = 0 then 100
      else of_nat (r_completed_jobs r) / of_nat (r_total_jobs r) * 100)"

definition batch_counts_as_successful :: "batch_result \<Rightarrow> bool" where
  "batch_counts_as_successful r \<longleftrightarrow> 95 \<le> batch_success_percent r"

definition effective_attempt_limit :: "int \<Rightarrow> int option \<Rightarrow> int" where
  "effective_attempt_limit job_max_attempts worker_cap =
     (case worker_cap of Some cap \<Rightarrow> min job_max_attempts cap | None \<Rightarrow> job_max_attempts)"

definition job_event_of ::
  "job \<Rightarrow> job_event_type \<Rightarrow> nat option \<Rightarrow> string option \<Rightarrow> time \<Rightarrow> job_event" where
  "job_event_of j t ms err at_time =
     \<lparr>ev_job_id = j_id j, ev_queue_name = j_queue_name j, ev_event_type = t,
      ev_priority = j_priority j, ev_processing_time_ms = ms, ev_error_message = err,
      ev_timestamp = at_time\<rparr>"

definition event_payload :: "json_env \<Rightarrow> job \<Rightarrow> json_value option" where
  "event_payload J j =
     (if j_is_encrypted j \<or> has_encryption j then None else Some (payload_value J j))"

text \<open>The batches a worker has counted as finished, most recent last.\<close>

record finished_batches =
  fb_ids :: "batch_id set"
  fb_order :: "batch_id list"

definition finished_none :: finished_batches where
  "finished_none = \<lparr>fb_ids = {}, fb_order = []\<rparr>"

definition finished_insert :: "batch_id \<Rightarrow> finished_batches \<Rightarrow> bool \<times> finished_batches" where
  "finished_insert b f =
     (if b \<in> fb_ids f then (False, f)
      else
        (let ids = insert b (fb_ids f); order = fb_order f @ [b] in
         if FINISHED_BATCHES_REMEMBERED < length order
         then (True, \<lparr>fb_ids = ids - {hd order}, fb_order = tl order\<rparr>)
         else (True, \<lparr>fb_ids = ids, fb_order = order\<rparr>)))"

definition error_backoff :: "duration \<Rightarrow> nat \<Rightarrow> duration" where
  "error_backoff base0 consecutive_errors =
     (let base = max base0 MIN_ERROR_BACKOFF;
          exponent = min (consecutive_errors - 1) 16 in
      min (unwrap_or (checked_mul base (2 ^ exponent)) MAX_ERROR_BACKOFF) (max MAX_ERROR_BACKOFF base))"

record batch_processing_stats =
  bs_jobs_processed :: nat
  bs_jobs_completed :: nat
  bs_jobs_failed :: nat
  bs_batches_completed :: nat
  bs_batches_successful :: nat
  bs_total_processing_time_ms :: nat
  bs_average_processing_time_ms :: rat
  bs_last_processed_job :: "time option"

definition batch_stats_default :: batch_processing_stats where
  "batch_stats_default =
     \<lparr>bs_jobs_processed = 0, bs_jobs_completed = 0, bs_jobs_failed = 0, bs_batches_completed = 0,
      bs_batches_successful = 0, bs_total_processing_time_ms = 0, bs_average_processing_time_ms = 0,
      bs_last_processed_job = None\<rparr>"

definition stats_success_rate :: "batch_processing_stats \<Rightarrow> rat" where
  "stats_success_rate s =
     (if bs_jobs_processed s = 0 then 0
      else of_nat (bs_jobs_completed s) / of_nat (bs_jobs_processed s))"

definition stats_batch_success_rate :: "batch_processing_stats \<Rightarrow> rat" where
  "stats_batch_success_rate s =
     (if bs_batches_completed s = 0 then 0
      else of_nat (bs_batches_successful s) / of_nat (bs_batches_completed s))"

definition update_average_processing_time :: "batch_processing_stats \<Rightarrow> batch_processing_stats" where
  "update_average_processing_time s =
     (if 0 < bs_jobs_completed s
      then s\<lparr>bs_average_processing_time_ms :=
               of_nat (bs_total_processing_time_ms s) / of_nat (bs_jobs_completed s)\<rparr>
      else s)"

text \<open>
  \<open>{:?}\<close> of a \<open>Duration\<close>: the largest unit with a whole part, its decimals without trailing
  zeros. Text is a string of bytes: the sign of micro is two of them.
\<close>

definition show_decimal :: "nat \<Rightarrow> nat \<Rightarrow> nat \<Rightarrow> string" where
  "show_decimal whole part width =
     (let digits = show_nat part;
          padded = replicate (width - length digits) (CHR ''0'') @ digits;
          decimals = rev (dropWhile (\<lambda>c. c = CHR ''0'') (rev padded)) in
      show_nat whole @ (if decimals = [] then [] else CHR ''.'' # decimals))"

definition duration_debug :: "duration \<Rightarrow> string" where
  "duration_debug d =
     (if 10 ^ 9 \<le> d then show_decimal (d div 10 ^ 9) (d mod 10 ^ 9) 9 @ ''s''
      else if 10 ^ 6 \<le> d then show_decimal (d div 10 ^ 6) (d mod 10 ^ 6) 6 @ ''ms''
      else if 10 ^ 3 \<le> d then show_decimal (d div 10 ^ 3) (d mod 10 ^ 3) 3 @ [char_of (194 :: nat), char_of (181 :: nat)] @ ''s''
      else show_nat d @ ''ns'')"

subsection \<open>Hooks\<close>

datatype hook = OnStart | OnComplete | OnFail | OnTimeout | OnRetry

record job_hook_event =
  he_job :: job
  he_timestamp :: time
  he_duration :: "duration option"
  he_error :: "string option"

type_synonym hook_handler = "job_hook_event \<Rightarrow> unit call"

record job_event_hooks =
  h_on_job_start :: "hook_handler option"
  h_on_job_complete :: "hook_handler option"
  h_on_job_fail :: "hook_handler option"
  h_on_job_timeout :: "hook_handler option"
  h_on_job_retry :: "hook_handler option"

definition hooks_default :: job_event_hooks where
  "hooks_default =
     \<lparr>h_on_job_start = None, h_on_job_complete = None, h_on_job_fail = None,
      h_on_job_timeout = None, h_on_job_retry = None\<rparr>"

text \<open>The calls of hooks made so far, and whether each panicked.\<close>

type_synonym hook_log = "(hook \<times> job_hook_event \<times> bool) list"

definition run_hook :: "hook \<Rightarrow> hook_handler \<Rightarrow> job_hook_event \<Rightarrow> hook_log \<Rightarrow> hook_log" where
  "run_hook name handler ev calls =
     (case handler ev of
        Returned _ \<Rightarrow> calls @ [(name, ev, False)]
      | Panicked payload \<Rightarrow> calls @ [(name, ev, True)])"

definition fire :: "hook \<Rightarrow> hook_handler option \<Rightarrow> job_hook_event \<Rightarrow> hook_log \<Rightarrow> hook_log" where
  "fire name handler ev calls =
     (case handler of None \<Rightarrow> calls | Some h \<Rightarrow> run_hook name h ev calls)"

definition fire_job_start :: "job_event_hooks \<Rightarrow> time \<Rightarrow> job \<Rightarrow> hook_log \<Rightarrow> hook_log" where
  "fire_job_start H now j =
     fire OnStart (h_on_job_start H)
       \<lparr>he_job = j, he_timestamp = now, he_duration = None, he_error = None\<rparr>"

definition fire_job_complete :: "job_event_hooks \<Rightarrow> time \<Rightarrow> job \<Rightarrow> duration \<Rightarrow> hook_log \<Rightarrow> hook_log" where
  "fire_job_complete H now j d =
     fire OnComplete (h_on_job_complete H)
       \<lparr>he_job = j, he_timestamp = now, he_duration = Some d, he_error = None\<rparr>"

definition fire_job_fail :: "job_event_hooks \<Rightarrow> time \<Rightarrow> job \<Rightarrow> string \<Rightarrow> hook_log \<Rightarrow> hook_log" where
  "fire_job_fail H now j err =
     fire OnFail (h_on_job_fail H)
       \<lparr>he_job = j, he_timestamp = now, he_duration = None, he_error = Some err\<rparr>"

definition fire_job_timeout :: "job_event_hooks \<Rightarrow> time \<Rightarrow> job \<Rightarrow> duration \<Rightarrow> hook_log \<Rightarrow> hook_log" where
  "fire_job_timeout H now j d =
     fire OnTimeout (h_on_job_timeout H)
       \<lparr>he_job = j, he_timestamp = now, he_duration = Some d, he_error = Some ''Job timed out''\<rparr>"

definition fire_job_retry :: "job_event_hooks \<Rightarrow> time \<Rightarrow> job \<Rightarrow> string \<Rightarrow> hook_log \<Rightarrow> hook_log" where
  "fire_job_retry H now j err =
     fire OnRetry (h_on_job_retry H)
       \<lparr>he_job = j, he_timestamp = now, he_duration = None, he_error = Some err\<rparr>"

subsection \<open>Handlers\<close>

record job_result =
  jr_data :: "json option"

definition job_result_success :: job_result where
  "job_result_success = \<lparr>jr_data = None\<rparr>"

definition job_result_with_data :: "json \<Rightarrow> job_result" where
  "job_result_with_data d = \<lparr>jr_data = Some d\<rparr>"

text \<open>
  How a handler runs: it panics before it returns a future, its future ends after some time with
  a result or a panic, or it never ends.
\<close>

datatype 'a execution =
    PanicsAtOnce "string option"
  | Ends duration "'a res call"
  | NeverEnds

datatype job_handler_type =
    Legacy "job \<Rightarrow> unit execution"
  | WithResult "job \<Rightarrow> job_result execution"

definition start_handler :: "job_handler_type \<Rightarrow> job \<Rightarrow> job_result execution" where
  "start_handler handler j =
     (case handler of
        Legacy h \<Rightarrow>
          (case h j of
             PanicsAtOnce p \<Rightarrow> PanicsAtOnce p
           | Ends d (Returned r) \<Rightarrow> Ends d (Returned (map_sum (\<lambda>e. e) (\<lambda>_. job_result_success) r))
           | Ends d (Panicked p) \<Rightarrow> Ends d (Panicked p)
           | NeverEnds \<Rightarrow> NeverEnds)
      | WithResult h \<Rightarrow> h j)"

text \<open>The lease renewal that runs beside the handler never completes.\<close>

definition execute_handler :: "job_handler_type \<Rightarrow> job \<Rightarrow> (duration \<times> job_result res) option" where
  "execute_handler handler j =
     (case start_handler handler j of
        PanicsAtOnce p \<Rightarrow> Some (0, Inl (handler_panic_error p))
      | Ends d (Returned r) \<Rightarrow> Some (d, r)
      | Ends d (Panicked p) \<Rightarrow> Some (d, Inl (handler_panic_error p))
      | NeverEnds \<Rightarrow> None)"

datatype handler_outcome = Finished "job_result res" | OutOfTime duration

text \<open>\<open>tokio::time::timeout\<close> polls the handler before the timer.\<close>

definition run_handler :: "job_handler_type \<Rightarrow> duration option \<Rightarrow> job \<Rightarrow> handler_outcome option" where
  "run_handler handler timeout j =
     (case (execute_handler handler j, timeout) of
        (Some (d, r), Some t) \<Rightarrow> Some (if d \<le> t then Finished r else OutOfTime t)
      | (None, Some t) \<Rightarrow> Some (OutOfTime t)
      | (Some (d, r), None) \<Rightarrow> Some (Finished r)
      | (None, None) \<Rightarrow> None)"

subsection \<open>Configuration\<close>

record worker =
  wk_queue_name :: string
  wk_handler :: job_handler_type
  wk_poll_interval :: duration
  wk_attempt_cap :: "int option"
  wk_retry_delay :: duration
  wk_default_retry_strategy :: "retry_strategy option"
  wk_default_timeout :: "duration option"
  wk_priority_weights :: "priority_weights option"
  wk_throttle_config :: "throttle_config option"
  wk_batch_processing_enabled :: bool
  wk_batch_size :: nat
  wk_batch_concurrency :: nat
  wk_event_hooks :: job_event_hooks
  wk_spawn_manager :: "spawn_manager option"
  wk_lease_duration :: duration

definition worker_new :: "string \<Rightarrow> job_handler_type \<Rightarrow> worker" where
  "worker_new q handler =
     \<lparr>wk_queue_name = q, wk_handler = handler, wk_poll_interval = seconds 1, wk_attempt_cap = None,
      wk_retry_delay = seconds 30, wk_default_retry_strategy = None, wk_default_timeout = None,
      wk_priority_weights = None, wk_throttle_config = None, wk_batch_processing_enabled = False,
      wk_batch_size = 1, wk_batch_concurrency = 1, wk_event_hooks = hooks_default,
      wk_spawn_manager = None, wk_lease_duration = DEFAULT_LEASE_DURATION\<rparr>"

definition with_attempt_cap :: "int \<Rightarrow> worker \<Rightarrow> worker res" where
  "with_attempt_cap cap w =
     (if cap < 1 then Inl (ConfigError (''worker attempt cap must be at least 1 (got '' @ show_int cap @ '')''))
      else Inr (w\<lparr>wk_attempt_cap := Some cap\<rparr>))"

definition with_batch_size :: "nat \<Rightarrow> worker \<Rightarrow> worker" where
  "with_batch_size n w = w\<lparr>wk_batch_size := max n 1, wk_batch_processing_enabled := True\<rparr>"

definition with_batch_concurrency :: "nat \<Rightarrow> worker \<Rightarrow> worker" where
  "with_batch_concurrency concurrency w = w\<lparr>wk_batch_concurrency := max concurrency 1\<rparr>"

definition error_backoff_base :: "worker \<Rightarrow> duration" where
  "error_backoff_base w =
     unwrap_or (case wk_throttle_config w of None \<Rightarrow> None | Some t \<Rightarrow> t_backoff_on_error t)
       (wk_poll_interval w)"

definition held_renewal_interval :: "worker \<Rightarrow> duration" where
  "held_renewal_interval w = max (wk_lease_duration w div 3) MIN_HEARTBEAT_INTERVAL"

definition worker_dequeue_options :: "worker \<Rightarrow> nat \<Rightarrow> dequeue_options" where
  "worker_dequeue_options w max_jobs =
     (options_batch max_jobs)\<lparr>d_lease_duration := Some (wk_lease_duration w),
       d_priority_weights := wk_priority_weights w\<rparr>"

definition attempt_limit :: "worker \<Rightarrow> job \<Rightarrow> int" where
  "attempt_limit w j = effective_attempt_limit (j_max_attempts j) (wk_attempt_cap w)"

definition timeout_for :: "worker \<Rightarrow> job \<Rightarrow> duration option" where
  "timeout_for w j =
     (let nonzero = (\<lambda>t. case t of Some d \<Rightarrow> if d = 0 then None else Some d | None \<Rightarrow> None) in
      opt_or (nonzero (j_timeout j)) (nonzero (wk_default_timeout w)))"

text \<open>\<open>u32::try_from\<close> of a positive \<open>i32\<close> never fails.\<close>

definition retry_at_for :: "externs \<Rightarrow> float_env \<Rightarrow> rng \<Rightarrow> time \<Rightarrow> worker \<Rightarrow> job \<Rightarrow> time" where
  "retry_at_for E F R now w j =
     (let retry = nat (max (j_attempts j) 1);
          retry_delay =
            (case j_retry_strategy j of
               Some s \<Rightarrow> calculate_delay F R s retry
             | None \<Rightarrow>
                 (case wk_default_retry_strategy w of
                    Some s \<Rightarrow> calculate_delay F R s retry
                  | None \<Rightarrow> wk_retry_delay w)) in
      retry_at_from_delay E now retry_delay)"

text \<open>\<open>JobQueue::decrypt_job\<close> of the build without the \<open>encryption\<close> feature.\<close>

definition decrypt_job :: "externs \<Rightarrow> job \<Rightarrow> job res" where
  "decrypt_job E j =
     (if \<not> j_is_encrypted j then Inr j
      else if j_status j = Archived then
        Inl (EncryptionError (''Job '' @ uuid_show E (j_id j)
          @ '' is archived and its ciphertext stays in the archive; restore it with restore_archived_job and decrypt the restored job''))
      else
        Inl (EncryptionError (''Job '' @ uuid_show E (j_id j)
          @ '' has an encrypted payload; decrypting it needs the `encryption` feature and an encryption engine (JobQueue::with_encryption)'')))"

subsection \<open>State\<close>

text \<open>
  What a worker shares with its clones and with other parts: the queue, the in-memory results,
  the events given to the statistics collector (if there is one), the event manager, the calls
  of hooks and of spawn completion callbacks, and the batch statistics.
\<close>

record 's worker_state =
  wt_queue :: 's
  wt_memory_results :: mem_store
  wt_collected :: "job_event list option"
  wt_event_manager :: "event_manager option"
  wt_last_job_time :: time
  wt_batch_stats :: batch_processing_stats
  wt_finished_batches :: finished_batches
  wt_hook_calls :: hook_log
  wt_spawn_notices :: "spawn_result list"

text \<open>The readings of \<open>Utc::now()\<close> (and new event ids) while a job is processed.\<close>

datatype reading =
  AtStart | AtEnd | AtResult | AtRetry | AtRecord | AtSpawned | AtOutcome | AtRetried | AtHook

record worker_env =
  we_externs :: externs
  we_json :: json_env
  we_floats :: float_env
  we_rng :: rng
  we_expected :: expected
  we_now :: "reading \<Rightarrow> time"
  we_uuid :: "reading \<Rightarrow> uuid"

subsection \<open>Events\<close>

fun lifecycle_type :: "job_event_type \<Rightarrow> lifecycle_event_type" where
  "lifecycle_type EvStarted = LeStarted"
| "lifecycle_type EvCompleted = LeCompleted"
| "lifecycle_type EvFailed = LeFailed"
| "lifecycle_type EvRetried = LeRetried"
| "lifecycle_type EvDead = LeDead"
| "lifecycle_type EvTimedOut = LeTimedOut"

definition event_error_type :: "job_event_type \<Rightarrow> string option" where
  "event_error_type t =
     (case t of
        EvTimedOut \<Rightarrow> Some ''timeout''
      | EvFailed \<Rightarrow> Some ''processing_error''
      | EvDead \<Rightarrow> Some ''max_retries_exceeded''
      | _ \<Rightarrow> None)"

definition convert_to_lifecycle_event ::
  "worker \<Rightarrow> uuid \<Rightarrow> job_event \<Rightarrow> json_value option \<Rightarrow> lifecycle_event" where
  "convert_to_lifecycle_event w u ev payload =
     \<lparr>le_event_id = u, le_job_id = ev_job_id ev, le_queue_name = ev_queue_name ev,
      le_event_type = lifecycle_type (ev_event_type ev), le_priority = ev_priority ev,
      le_timestamp = ev_timestamp ev, le_processing_time_ms = ev_processing_time_ms ev,
      le_error = map_option (\<lambda>message. \<lparr>je_message = message,
        je_error_type = event_error_type (ev_event_type ev), je_details = None,
        je_retry_attempt = None\<rparr>) (ev_error_message ev),
      le_payload = payload,
      le_metadata = (''worker_queue'', wk_queue_name w) #
        (case ev_processing_time_ms ev of
           None \<Rightarrow> [] | Some ms \<Rightarrow> [(''processing_time_ms'', show_nat ms)])\<rparr>"

text \<open>\<open>Worker::record_event\<close>; a failing or panicking collector is only logged.\<close>

definition worker_record_event ::
  "worker_env \<Rightarrow> worker \<Rightarrow> uuid \<Rightarrow> job \<Rightarrow> job_event \<Rightarrow> 's worker_state \<Rightarrow> 's worker_state" where
  "worker_record_event X w u j ev st =
     (let st1 = st\<lparr>wt_collected := map_option (\<lambda>evs. evs @ [ev]) (wt_collected st)\<rparr>;
          st2 = (case wt_event_manager st1 of
                   None \<Rightarrow> st1
                 | Some m \<Rightarrow>
                     (let payload = (if payload_wanted m then event_payload (we_json X) j else None) in
                      st1\<lparr>wt_event_manager := Some (snd (publish_event (we_json X)
                        (convert_to_lifecycle_event w u ev payload) m))\<rparr>)) in
      if ev_event_type ev \<noteq> EvStarted then st2\<lparr>wt_last_job_time := ev_timestamp ev\<rparr> else st2)"

subsection \<open>Batch statistics\<close>

definition update_batch_stats ::
  "(batch_processing_stats \<Rightarrow> batch_processing_stats) \<Rightarrow> 's worker_state \<Rightarrow> 's worker_state" where
  "update_batch_stats updater st = st\<lparr>wt_batch_stats := updater (wt_batch_stats st)\<rparr>"

definition check_and_update_batch_status ::
  "'s queue_ops \<Rightarrow> batch_id \<Rightarrow> 's worker_state \<Rightarrow> unit res \<times> 's worker_state" where
  "check_and_update_batch_status Q b st =
     try_res (qo_get_batch_status Q b (wt_queue st)) st (\<lambda>r.
       if r_pending_jobs r = 0 then
         (case finished_insert b (wt_finished_batches st) of
            (False, f) \<Rightarrow> (Inr (), st\<lparr>wt_finished_batches := f\<rparr>)
          | (True, f) \<Rightarrow>
              (Inr (), update_batch_stats
                 (\<lambda>s. s\<lparr>bs_batches_completed := bs_batches_completed s + 1,
                        bs_batches_successful := bs_batches_successful s
                          + (if batch_counts_as_successful r then 1 else 0)\<rparr>)
                 (st\<lparr>wt_finished_batches := f\<rparr>)))
       else (Inr (), st))"

definition after_failed_run ::
  "'s queue_ops \<Rightarrow> worker \<Rightarrow> job \<Rightarrow> bool \<Rightarrow> 's worker_state \<Rightarrow> 's worker_state" where
  "after_failed_run Q w j attempts_left st =
     (if \<not> wk_batch_processing_enabled w then st
      else
        (case j_batch_id j of
           None \<Rightarrow> st
         | Some b \<Rightarrow>
             (let st1 = update_batch_stats (\<lambda>s. s\<lparr>bs_jobs_failed := bs_jobs_failed s + 1\<rparr>) st in
              if attempts_left then st1 else snd (check_and_update_batch_status Q b st1))))"

subsection \<open>Recording an outcome\<close>

definition worker_record ::
  "worker_env \<Rightarrow> 's queue_ops \<Rightarrow> job \<Rightarrow> job_outcome \<Rightarrow> job list option \<Rightarrow> 's worker_state \<Rightarrow>
     recorded_outcome option res \<times> 's worker_state" where
  "worker_record X Q j outcome children st =
     (case (case children of
              Some kids \<Rightarrow> qo_complete_with_children Q (we_now X AtRecord) j kids (wt_queue st)
            | None \<Rightarrow> qo_finish_job_run Q (we_now X AtRecord) j outcome (wt_queue st)) of
        (r, q) \<Rightarrow> (r, st\<lparr>wt_queue := q\<rparr>))"

definition announce_retry ::
  "worker_env \<Rightarrow> worker \<Rightarrow> job \<Rightarrow> string \<Rightarrow> 's worker_state \<Rightarrow> 's worker_state" where
  "announce_retry X w j err st =
     (let st1 = st\<lparr>wt_hook_calls :=
          fire_job_retry (wk_event_hooks w) (we_now X AtHook) j err (wt_hook_calls st)\<rparr> in
      worker_record_event X w (we_uuid X AtRetried) j
        (job_event_of j EvRetried None (Some err) (we_now X AtRetried)) st1)"

definition failure_outcome ::
  "worker_env \<Rightarrow> worker \<Rightarrow> job \<Rightarrow> string \<Rightarrow> bool \<Rightarrow> job_outcome" where
  "failure_outcome X w j err attempts_left =
     (if attempts_left
      then OutRetry (retry_at_for (we_externs X) (we_floats X) (we_rng X) (we_now X AtRetry) w j) err False
      else OutDead err)"

definition handle_failure ::
  "worker_env \<Rightarrow> 's queue_ops \<Rightarrow> worker \<Rightarrow> job \<Rightarrow> hammerwork_error \<Rightarrow> bool \<Rightarrow> 's worker_state \<Rightarrow>
     unit res \<times> 's worker_state" where
  "handle_failure X Q w j e attempts_left st =
     (let err = error_display e in
      bind_op (worker_record X Q j (failure_outcome X w j err attempts_left) None st) (\<lambda>recorded st1.
        if recorded = None then (Inr (), st1)
        else
          (let st2 = after_failed_run Q w j attempts_left st1 in
           if attempts_left then (Inr (), announce_retry X w j err st2)
           else
             (let st3 = st2\<lparr>wt_hook_calls :=
                 fire_job_fail (wk_event_hooks w) (we_now X AtHook) j err (wt_hook_calls st2)\<rparr> in
              (Inr (), worker_record_event X w (we_uuid X AtOutcome) j
                 (job_event_of j EvDead None (Some err) (we_now X AtOutcome)) st3)))))"

definition timeout_outcome ::
  "worker_env \<Rightarrow> worker \<Rightarrow> job \<Rightarrow> string \<Rightarrow> bool \<Rightarrow> job_outcome" where
  "timeout_outcome X w j err attempts_left =
     (if attempts_left
      then OutRetry (retry_at_for (we_externs X) (we_floats X) (we_rng X) (we_now X AtRetry) w j) err True
      else OutTimedOut err)"

definition timeout_message :: "duration \<Rightarrow> string" where
  "timeout_message timeout = ''Job timed out after '' @ duration_debug timeout"

definition handle_timeout ::
  "worker_env \<Rightarrow> 's queue_ops \<Rightarrow> worker \<Rightarrow> job \<Rightarrow> duration \<Rightarrow> bool \<Rightarrow> 's worker_state \<Rightarrow>
     unit res \<times> 's worker_state" where
  "handle_timeout X Q w j timeout attempts_left st =
     (let err = timeout_message timeout in
      bind_op (worker_record X Q j (timeout_outcome X w j err attempts_left) None st) (\<lambda>recorded st1.
        if recorded = None then (Inr (), st1)
        else
          (let st2 = after_failed_run Q w j attempts_left st1;
               st3 = st2\<lparr>wt_hook_calls :=
                 fire_job_timeout (wk_event_hooks w) (we_now X AtHook) j timeout (wt_hook_calls st2)\<rparr>;
               st4 = worker_record_event X w (we_uuid X AtOutcome) j
                 (job_event_of j EvTimedOut (Some (millis_u64 timeout)) (Some err) (we_now X AtOutcome)) st3 in
           (Inr (), if attempts_left then announce_retry X w j err st4 else st4))))"

subsection \<open>Success\<close>

definition store_result ::
  "worker_env \<Rightarrow> 's queue_ops \<Rightarrow> job \<Rightarrow> job_result \<Rightarrow> 's worker_state \<Rightarrow> 's worker_state" where
  "store_result X Q j result st =
     (case jr_data result of
        None \<Rightarrow> st
      | Some data \<Rightarrow>
          (let expires_at = map_option (saturating_add_to (we_externs X) (we_now X AtResult))
                 (rc_ttl (j_result_config j)) in
           case rc_storage (j_result_config j) of
             RsDatabase \<Rightarrow>
               st\<lparr>wt_queue := snd (qo_store_job_result Q (j_id j) data expires_at (wt_queue st))\<rparr>
           | RsMemory \<Rightarrow>
               st\<lparr>wt_memory_results := store_at (we_externs X) (we_now X AtResult) (j_id j) data expires_at
                    (wt_memory_results st)\<rparr>
           | RsNone \<Rightarrow> st))"

definition worker_prepare_spawn ::
  "worker_env \<Rightarrow> worker \<Rightarrow> job \<Rightarrow> (job list \<times> spawn_config) option res" where
  "worker_prepare_spawn X w parent =
     (case wk_spawn_manager w of
        None \<Rightarrow> Inr None
      | Some m \<Rightarrow>
          (case spawn_config_from_payload (we_expected X) (payload_value (we_json X) parent) of
             Inl e \<Rightarrow> Inl e
           | Inr None \<Rightarrow> Inr None
           | Inr (Some config) \<Rightarrow>
               (case contain_panic ''Spawn handler'' (prepare_spawn m parent config) of
                  Inl e \<Rightarrow> Inl e
                | Inr None \<Rightarrow> Inr None
                | Inr (Some kids) \<Rightarrow> Inr (Some (kids, config)))))"

text \<open>The completion callback of the handler; a failure or a panic in it is only logged.\<close>

definition notify_spawned ::
  "worker_env \<Rightarrow> worker \<Rightarrow> job \<Rightarrow> spawn_config option \<Rightarrow> recorded_outcome \<Rightarrow> 's worker_state \<Rightarrow>
     's worker_state" where
  "notify_spawned X w j config recorded st =
     (case (config, wk_spawn_manager w) of
        (Some c, Some m) \<Rightarrow>
          (let r = \<lparr>sr_parent_job_id = j_id j, sr_spawned_jobs = o_spawned recorded,
                    sr_spawned_at = we_now X AtSpawned, sr_spawn_operation_id = sp_operation_id c\<rparr> in
           case contain_panic ''Spawn completion callback'' (notify_spawn_complete m j r) of
             _ \<Rightarrow> if has_handler (j_queue_name j) m
                  then st\<lparr>wt_spawn_notices := wt_spawn_notices st @ [r]\<rparr> else st)
      | _ \<Rightarrow> st)"

definition processing_ms :: "worker_env \<Rightarrow> nat" where
  "processing_ms X = nat (max (num_milliseconds (we_now X AtEnd - we_now X AtStart)) 0)"

definition count_completed ::
  "'s queue_ops \<Rightarrow> worker \<Rightarrow> job \<Rightarrow> nat \<Rightarrow> 's worker_state \<Rightarrow> 's worker_state" where
  "count_completed Q w j ms st =
     (if wk_batch_processing_enabled w then
        (case j_batch_id j of
           None \<Rightarrow> st
         | Some b \<Rightarrow>
             snd (check_and_update_batch_status Q b
               (update_batch_stats
                  (\<lambda>s. update_average_processing_time
                         (s\<lparr>bs_jobs_completed := bs_jobs_completed s + 1,
                            bs_total_processing_time_ms := bs_total_processing_time_ms s + ms\<rparr>)) st)))
      else st)"

definition handle_success ::
  "worker_env \<Rightarrow> 's queue_ops \<Rightarrow> worker \<Rightarrow> job \<Rightarrow> job_result \<Rightarrow> bool \<Rightarrow> 's worker_state \<Rightarrow>
     unit res \<times> 's worker_state" where
  "handle_success X Q w j result attempts_left st =
     (let ms = processing_ms X;
          st1 = store_result X Q j result st in
      case worker_prepare_spawn X w j of
        Inl e \<Rightarrow> handle_failure X Q w j e attempts_left st1
      | Inr spawn \<Rightarrow>
          (case worker_record X Q j OutCompleted (map_option fst spawn) st1 of
             (Inl e, st2) \<Rightarrow>
               if spawn \<noteq> None then handle_failure X Q w j e attempts_left st2 else (Inl e, st2)
           | (Inr None, st2) \<Rightarrow> (Inr (), st2)
           | (Inr (Some recorded), st2) \<Rightarrow>
               (let st3 = count_completed Q w j ms
                      (notify_spawned X w j (map_option snd spawn) recorded st2);
                    st4 = st3\<lparr>wt_hook_calls :=
                      fire_job_complete (wk_event_hooks w) (we_now X AtHook) j (from_millis ms)
                        (wt_hook_calls st3)\<rparr> in
                (Inr (), worker_record_event X w (we_uuid X AtOutcome) j
                   (job_event_of j EvCompleted (Some ms) None (we_now X AtOutcome)) st4))))"

subsection \<open>Processing a job\<close>

definition begin_job ::
  "worker_env \<Rightarrow> worker \<Rightarrow> job \<Rightarrow> 's worker_state \<Rightarrow> 's worker_state" where
  "begin_job X w j st =
     (let st1 = (if wk_batch_processing_enabled w \<and> j_batch_id j \<noteq> None
                 then update_batch_stats (\<lambda>s. s\<lparr>bs_jobs_processed := bs_jobs_processed s + 1,
                        bs_last_processed_job := Some (we_now X AtStart)\<rparr>) st
                 else st);
          st2 = st1\<lparr>wt_hook_calls :=
            fire_job_start (wk_event_hooks w) (we_now X AtStart) j (wt_hook_calls st1)\<rparr> in
      worker_record_event X w (we_uuid X AtStart) j
        (job_event_of j EvStarted None None (we_now X AtStart)) st2)"

text \<open>\<open>None\<close> is a handler without a timeout that never ends.\<close>

definition process_job ::
  "worker_env \<Rightarrow> 's queue_ops \<Rightarrow> worker \<Rightarrow> ('s worker_state \<Rightarrow> 's worker_state) \<Rightarrow> job \<Rightarrow>
     's worker_state \<Rightarrow> (unit res \<times> 's worker_state) option" where
  "process_job X Q w meanwhile j st =
     (let st1 = begin_job X w j st;
          attempts_left = (j_attempts j < attempt_limit w j) in
      case decrypt_job (we_externs X) j of
        Inl e \<Rightarrow> Some (handle_failure X Q w j e attempts_left st1)
      | Inr handler_job \<Rightarrow>
          (case run_handler (wk_handler w) (timeout_for w j) handler_job of
             None \<Rightarrow> None
           | Some (Finished (Inr result)) \<Rightarrow>
               Some (handle_success X Q w j result attempts_left (meanwhile st1))
           | Some (Finished (Inl e)) \<Rightarrow>
               Some (handle_failure X Q w j e attempts_left (meanwhile st1))
           | Some (OutOfTime timeout) \<Rightarrow>
               Some (handle_timeout X Q w j timeout attempts_left (meanwhile st1))))"

end
