(* ===== verification/WorkerRuns.thy ===== *)
theory WorkerRuns
  imports Worker Runs
begin

text \<open>
  Correctness of what a worker does with one job: the outcome it offers to the queue, what it
  announces and when, the bounds of its delays, and the end of a run. The locale \<open>run_queue\<close> is
  the contract a worker relies on; the in-memory queue implements it.
\<close>

subsection \<open>What the steps of a worker touch\<close>

lemma record_event_fields [simp]:
  "wt_queue (worker_record_event X w u j ev st) = wt_queue st"
  "wt_memory_results (worker_record_event X w u j ev st) = wt_memory_results st"
  "wt_collected (worker_record_event X w u j ev st) = map_option (\<lambda>evs. evs @ [ev]) (wt_collected st)"
  "wt_batch_stats (worker_record_event X w u j ev st) = wt_batch_stats st"
  "wt_finished_batches (worker_record_event X w u j ev st) = wt_finished_batches st"
  "wt_hook_calls (worker_record_event X w u j ev st) = wt_hook_calls st"
  by (simp_all add: worker_record_event_def Let_def split: option.split)

lemma batch_status_fields [simp]:
  "wt_queue (snd (check_and_update_batch_status Q b st)) = wt_queue st"
  "wt_collected (snd (check_and_update_batch_status Q b st)) = wt_collected st"
  "wt_hook_calls (snd (check_and_update_batch_status Q b st)) = wt_hook_calls st"
  by (simp_all add: check_and_update_batch_status_def try_res_def update_batch_stats_def
      split: sum.split prod.split bool.split)

lemma update_batch_stats_fields [simp]:
  "wt_queue (update_batch_stats f st) = wt_queue st"
  "wt_collected (update_batch_stats f st) = wt_collected st"
  "wt_hook_calls (update_batch_stats f st) = wt_hook_calls st"
  by (simp_all add: update_batch_stats_def)

lemma after_failed_fields [simp]:
  "wt_queue (after_failed_run Q w j b st) = wt_queue st"
  "wt_collected (after_failed_run Q w j b st) = wt_collected st"
  "wt_hook_calls (after_failed_run Q w j b st) = wt_hook_calls st"
  by (simp_all add: after_failed_run_def Let_def split: option.split)

lemma count_completed_fields [simp]:
  "wt_queue (count_completed Q w j ms st) = wt_queue st"
  "wt_collected (count_completed Q w j ms st) = wt_collected st"
  "wt_hook_calls (count_completed Q w j ms st) = wt_hook_calls st"
  by (simp_all add: count_completed_def split: option.split)

lemma notify_spawned_fields [simp]:
  "wt_queue (notify_spawned X w j c r st) = wt_queue st"
  "wt_collected (notify_spawned X w j c r st) = wt_collected st"
  "wt_hook_calls (notify_spawned X w j c r st) = wt_hook_calls st"
  by (simp_all add: notify_spawned_def Let_def split: option.split prod.split sum.split)

lemma announce_retry_fields [simp]:
  "wt_queue (announce_retry X w j err st) = wt_queue st"
  "wt_collected (announce_retry X w j err st) =
     map_option (\<lambda>evs. evs @ [job_event_of j EvRetried None (Some err) (we_now X AtRetried)]) (wt_collected st)"
  by (simp_all add: announce_retry_def Let_def)

lemma begin_job_fields [simp]:
  "wt_queue (begin_job X w j st) = wt_queue st"
  "wt_collected (begin_job X w j st) =
     map_option (\<lambda>evs. evs @ [job_event_of j EvStarted None None (we_now X AtStart)]) (wt_collected st)"
  by (simp_all add: begin_job_def Let_def)

lemma store_result_fields [simp]:
  "wt_collected (store_result X Q j r st) = wt_collected st"
  "wt_hook_calls (store_result X Q j r st) = wt_hook_calls st"
  by (simp_all add: store_result_def Let_def split: option.split result_storage.split)

lemma worker_record_None:
  "worker_record X Q j out None st =
     (case qo_finish_job_run Q (we_now X AtRecord) j out (wt_queue st) of (r, q) \<Rightarrow> (r, st\<lparr>wt_queue := q\<rparr>))"
  by (simp add: worker_record_def)

lemma event_of_type [simp]: "ev_event_type (job_event_of j t ms err at_time) = t"
  by (simp add: job_event_of_def)

subsection \<open>The outcome of a run\<close>

definition attempts_left :: "worker \<Rightarrow> job \<Rightarrow> bool" where
  "attempts_left w j \<longleftrightarrow> j_attempts j < attempt_limit w j"

definition verdict :: "worker_env \<Rightarrow> worker \<Rightarrow> job \<Rightarrow> handler_outcome \<Rightarrow> job_outcome" where
  "verdict X w j outcome =
     (case outcome of
        Finished (Inr result) \<Rightarrow> OutCompleted
      | Finished (Inl e) \<Rightarrow> failure_outcome X w j (error_display e) (attempts_left w j)
      | OutOfTime t \<Rightarrow> timeout_outcome X w j (timeout_message t) (attempts_left w j))"

definition announced :: "bool \<Rightarrow> handler_outcome \<Rightarrow> job_event_type list" where
  "announced more_attempts outcome =
     (case outcome of
        Finished (Inr result) \<Rightarrow> [EvCompleted]
      | Finished (Inl e) \<Rightarrow> if more_attempts then [EvRetried] else [EvDead]
      | OutOfTime t \<Rightarrow> EvTimedOut # (if more_attempts then [EvRetried] else []))"

definition after_handler ::
  "worker_env \<Rightarrow> 's queue_ops \<Rightarrow> worker \<Rightarrow> ('s worker_state \<Rightarrow> 's worker_state) \<Rightarrow> job \<Rightarrow>
     handler_outcome \<Rightarrow> 's worker_state \<Rightarrow> 's worker_state" where
  "after_handler X Q w meanwhile j outcome st =
     (let st1 = meanwhile (begin_job X w j st) in
      case outcome of Finished (Inr r) \<Rightarrow> store_result X Q j r st1 | _ \<Rightarrow> st1)"


subsection \<open>The contract of the queue\<close>

text \<open>
  What a worker relies on: \<open>active s r\<close> says that \<open>r\<close> is the run the queue knows as running. An
  outcome is accepted from the active run only and ends it.
\<close>

locale run_queue =
  fixes Q :: "'s queue_ops" and active :: "'s \<Rightarrow> job \<Rightarrow> bool" and content :: "'s \<Rightarrow> 'c"
  assumes finish_refused: "\<not> active s r \<Longrightarrow> qo_finish_job_run Q t r out s = (Inr None, s)"
    and finish_ends: "qo_finish_job_run Q t r out s = (Inr x, s') \<Longrightarrow> \<not> active s' r"
    and complete_refused: "\<not> active s r \<Longrightarrow>
      qo_complete_with_children Q t r kids s = (y, s') \<Longrightarrow> s' = s \<and> (y = Inr None \<or> (\<exists>e. y = Inl e))"
    and complete_ends: "qo_complete_with_children Q t r kids s = (Inr x, s') \<Longrightarrow> \<not> active s' r"
    and store_keeps: "qo_store_job_result Q i d ex s = (z, s') \<Longrightarrow> active s' r = active s r \<and> content s' = content s"
begin

lemma store_result_keeps:
  "active (wt_queue (store_result X Q j res st)) r = active (wt_queue st) r"
  "content (wt_queue (store_result X Q j res st)) = content (wt_queue st)"
  using store_keeps [OF surjective_pairing]
  by (auto simp: store_result_def Let_def split: option.split result_storage.split)

lemma handle_failure_ends:
  "handle_failure X Q w j e b st = (Inr (), st') \<Longrightarrow> \<not> active (wt_queue st') j"
  by (cases "qo_finish_job_run Q (we_now X AtRecord) j (failure_outcome X w j (error_display e) b) (wt_queue st)";
      cases "fst (qo_finish_job_run Q (we_now X AtRecord) j (failure_outcome X w j (error_display e) b) (wt_queue st))")
    (auto simp: handle_failure_def worker_record_None Let_def dest: finish_ends split: if_splits)

lemma handle_timeout_ends:
  "handle_timeout X Q w j t b st = (Inr (), st') \<Longrightarrow> \<not> active (wt_queue st') j"
  by (cases "qo_finish_job_run Q (we_now X AtRecord) j (timeout_outcome X w j (timeout_message t) b) (wt_queue st)";
      cases "fst (qo_finish_job_run Q (we_now X AtRecord) j (timeout_outcome X w j (timeout_message t) b) (wt_queue st))")
    (auto simp: handle_timeout_def worker_record_None Let_def dest: finish_ends split: if_splits)

lemma record_ends:
  "worker_record X Q j out kids st = (Inr x, st') \<Longrightarrow> \<not> active (wt_queue st') j"
  by (auto simp: worker_record_def dest: finish_ends complete_ends split: option.splits prod.splits)

lemma handle_success_ends:
  assumes "handle_success X Q w j res b st = (Inr (), st')"
  shows "\<not> active (wt_queue st') j"
proof (cases "worker_prepare_spawn X w j")
  case (Inl e)
  with assms show ?thesis by (auto simp: handle_success_def Let_def dest: handle_failure_ends)
next
  case (Inr spawn)
  obtain x st2 where r: "worker_record X Q j OutCompleted (map_option fst spawn) (store_result X Q j res st) = (x, st2)"
    by fastforce
  show ?thesis
  proof (cases x)
    case (Inl e)
    with assms Inr r show ?thesis
      by (auto simp: handle_success_def Let_def \<open>worker_prepare_spawn X w j = Inr spawn\<close> dest: handle_failure_ends split: if_splits)
  next
    case (Inr y)
    with assms r record_ends [of X j OutCompleted "map_option fst spawn" "store_result X Q j res st" y st2] show ?thesis
      by (cases y) (auto simp: handle_success_def Let_def \<open>worker_prepare_spawn X w j = Inr spawn\<close>)
  qed
qed

lemma process_ends:
  "process_job X Q w meanwhile j st = Some (Inr (), st') \<Longrightarrow> \<not> active (wt_queue st') j"
  by (auto simp: process_job_def Let_def split: sum.splits option.splits handler_outcome.splits
      dest: handle_failure_ends handle_timeout_ends handle_success_ends)

lemma handle_failure_refused:
  "\<not> active (wt_queue st) j \<Longrightarrow> handle_failure X Q w j e b st = (Inr (), st)"
  by (simp add: handle_failure_def worker_record_None Let_def finish_refused)

lemma handle_timeout_refused:
  "\<not> active (wt_queue st) j \<Longrightarrow> handle_timeout X Q w j t b st = (Inr (), st)"
  by (simp add: handle_timeout_def worker_record_None Let_def finish_refused)

lemma handle_success_refused:
  assumes "\<not> active (wt_queue st) j"
  shows "handle_success X Q w j res b st = (Inr (), store_result X Q j res st)"
proof -
  let ?st = "store_result X Q j res st"
  have n: "\<not> active (wt_queue ?st) j" using assms by (simp add: store_result_keeps)
  show ?thesis
  proof (cases "worker_prepare_spawn X w j")
    case (Inl e)
    then show ?thesis by (simp add: handle_success_def Let_def handle_failure_refused [OF n])
  next
    case (Inr spawn)
    show ?thesis
    proof (cases spawn)
      case None
      with Inr show ?thesis
        by (simp add: handle_success_def Let_def worker_record_None finish_refused [OF n])
    next
      case (Some p)
      obtain x s where c: "qo_complete_with_children Q (we_now X AtRecord) j (fst p) (wt_queue ?st) = (x, s)" by fastforce
      from complete_refused [OF n c] have "s = wt_queue ?st" "x = Inr None \<or> (\<exists>e. x = Inl e)" by auto
      with Inr Some c show ?thesis
        by (auto simp: handle_success_def Let_def worker_record_def handle_failure_refused [OF n])
    qed
  qed
qed

lemma process_late:
  assumes "\<not> j_is_encrypted j" and "\<not> active (wt_queue (meanwhile (begin_job X w j st))) j"
    and "process_job X Q w meanwhile j st = Some (r, st')"
  shows "r = Inr () \<and> wt_collected st' = wt_collected (meanwhile (begin_job X w j st)) \<and>
    wt_hook_calls st' = wt_hook_calls (meanwhile (begin_job X w j st)) \<and>
    content (wt_queue st') = content (wt_queue (meanwhile (begin_job X w j st)))"
proof -
  have "decrypt_job (we_externs X) j = Inr j" using assms(1) by (simp add: decrypt_job_def)
  with assms(2,3) show ?thesis
    by (auto simp: process_job_def Let_def handle_failure_refused handle_timeout_refused handle_success_refused
        store_result_keeps split: option.splits handler_outcome.splits sum.splits)
qed

end

subsection \<open>The in-memory queue implements the contract\<close>

lemma finish_refused_test: "\<not> runs_as st r \<Longrightarrow> finish_job_run E t r out st = (Inr None, st)"
  by (auto simp: finish_job_run_def runs_as_def split: option.split)

lemma finish_ends_test:
  assumes "finish_job_run E t r out st = (Inr x, st')"
  shows "\<not> runs_as st' r"
proof (cases "runs_as st r")
  case True
  show ?thesis
  proof (cases x)
    case (Some y)
    with assms show ?thesis using finish_job_run_left not_running_runs_as by blast
  next
    case None
    have "\<exists>j. get_stored st (j_id r) = Some j \<and> guard_admits (GuardRun r) j"
      using True by (auto simp: runs_as_def is_some_and_iff)
    with assms None show ?thesis
      by (auto simp: finish_job_run_def Let_def bind_op_def try_res_def split: prod.splits sum.splits option.splits)
  qed
next
  case False
  with assms finish_refused_test [OF this] show ?thesis by auto
qed

lemma complete_refused_test:
  "\<not> runs_as st r \<Longrightarrow> complete_job_run_with_children E t r kids st = (y, st') \<Longrightarrow>
     st' = st \<and> (y = Inr None \<or> (\<exists>e. y = Inl e))"
  by (auto simp: complete_job_run_with_children_def runs_as_def is_some_and_iff try_res_def
      split: sum.splits if_splits)

lemma complete_ends_test:
  assumes "complete_job_run_with_children E t r kids st = (Inr x, st')"
  shows "\<not> runs_as st' r"
proof (cases "runs_as st r")
  case True
  then have g: "is_some_and (get_stored st (j_id r)) (guard_admits (GuardRun r))"
    by (auto simp: runs_as_def is_some_and_iff)
  have v: "validate_dependency_limits E kids = Inr ()"
    using assms by (cases "validate_dependency_limits E kids") (auto simp: complete_job_run_with_children_def)
  obtain s st1 where c: "spawn_children E kids [] st = (s, st1)" by fastforce
  obtain u st2 where f: "finish_job_run E t r OutCompleted st1 = (u, st2)" by fastforce
  from assms g v c f have "\<exists>z. u = Inr z \<and> st' = st2"
    by (cases s; cases u) (auto simp: complete_job_run_with_children_def)
  with f show ?thesis by (auto dest: finish_ends_test)
next
  case False
  from complete_refused_test [OF this assms] False show ?thesis by simp
qed

interpretation tr: run_queue "test_ops E" runs_as "\<lambda>st. st\<lparr>s_job_results := []\<rparr>" for E
proof
  fix s s' :: storage and r out t x
  show "\<not> runs_as s r \<Longrightarrow> qo_finish_job_run (test_ops E) t r out s = (Inr None, s)"
    by (simp add: test_ops_def finish_refused_test)
  show "qo_finish_job_run (test_ops E) t r out s = (Inr x, s') \<Longrightarrow> \<not> runs_as s' r"
    by (simp add: test_ops_def finish_ends_test)
next
  fix s s' :: storage and r kids t y
  assume "\<not> runs_as s r" and "qo_complete_with_children (test_ops E) t r kids s = (y, s')"
  then show "s' = s \<and> (y = Inr None \<or> (\<exists>e. y = Inl e))"
    using complete_refused_test by (simp add: test_ops_def)
next
  fix s s' :: storage and r kids t x
  assume "qo_complete_with_children (test_ops E) t r kids s = (Inr x, s')"
  then show "\<not> runs_as s' r" using complete_ends_test by (simp add: test_ops_def)
next
  fix s s' :: storage and i d ex z r
  assume "qo_store_job_result (test_ops E) i d ex s = (z, s')"
  then show "runs_as s' r = runs_as s r \<and> s'\<lparr>s_job_results := []\<rparr> = s\<lparr>s_job_results := []\<rparr>"
    by (auto simp: test_ops_def store_job_result_def runs_as_def split: if_splits)
qed

text \<open>A worker whose handler always fails, on a queue with one running job.\<close>

definition sample_env :: worker_env where
  "sample_env =
     \<lparr>we_externs = sample_externs,
      we_json = \<lparr>json_text = (\<lambda>_. ''{}''), json_parse = (\<lambda>_. Inr (JObject [])), time_text = (\<lambda>_. [])\<rparr>,
      we_floats = exact_floats, we_rng = sample_rng, we_expected = (\<lambda>e v. e),
      we_now = (\<lambda>_. 0), we_uuid = (\<lambda>_. 0)\<rparr>"

definition failing_worker :: worker where
  "failing_worker = worker_new ''q'' (Legacy (\<lambda>_. Ends 0 (Returned (Inl (ProcessingError ''x'')))))"

definition sample_state :: "storage \<Rightarrow> storage worker_state" where
  "sample_state q =
     \<lparr>wt_queue = q, wt_memory_results = mem_with_capacity 1, wt_collected = Some [],
      wt_event_manager = None, wt_last_job_time = 0, wt_batch_stats = batch_stats_default,
      wt_finished_batches = finished_none, wt_hook_calls = [], wt_spawn_notices = []\<rparr>"

lemma sample_failing:
  "run_handler (wk_handler failing_worker) (timeout_for failing_worker sample_run) sample_run =
     Some (Finished (Inl (ProcessingError ''x'')))"
  "wk_spawn_manager failing_worker = None" "\<not> j_is_encrypted sample_run" "attempts_left failing_worker sample_run"
  "timeout_for failing_worker sample_run = None"
  by (simp_all add: run_handler_def execute_handler_def start_handler_def failing_worker_def worker_new_def
      timeout_for_def sample_run_def job_new_def attempts_left_def attempt_limit_def effective_attempt_limit_def)

lemma sample_run_stored:
  "get_stored sample_run_store (j_id sample_run) = Some sample_run" "j_status sample_run = Running"
  "\<not> j_recurring sample_run" "j_depends_on sample_run = [] \<or> j_dependency_status sample_run = DepSatisfied"
  by (simp_all add: sample_run_get sample_run_admitted(2)) (simp_all add: sample_run_def job_new_def)

lemma sample_state_queue [simp]:
  "wt_queue (sample_state q) = q" "wt_collected (sample_state q) = Some []"
  by (simp_all add: sample_state_def)

lemma sample_process:
  "process_job sample_env (test_ops sample_externs) failing_worker (\<lambda>st. st) sample_run (sample_state q) =
     Some (handle_failure sample_env (test_ops sample_externs) failing_worker sample_run (ProcessingError ''x'') True
       (begin_job sample_env failing_worker sample_run (sample_state q)))"
  using sample_failing by (simp add: process_job_def Let_def decrypt_job_def attempts_left_def)



text \<open>
  When processing a job returns without an error, its run is over: whatever the handler did,
  with or without children, the queue does not know the run as running any more. So a run stays
  running only while its handler runs or after an error of the queue.
\<close>

theorem processed_run_is_over:
  assumes "process_job X (test_ops E) w meanwhile j st = Some (Inr (), st')"
  shows "\<not> runs_as (wt_queue st') j"
  using tr.process_ends [OF assms] .

subsection \<open>A failed run\<close>

lemma same_run_refl: "is_same_run j j"
  by (auto simp: is_same_run_def num_microseconds_def trunc_div_def i64_range_def split: option.split)

lemma finish_test_unfold:
  assumes "get_stored st (j_id j) = Some j" and "j_status j = Running" and "\<not> j_recurring j"
  shows "finish_job_run E t j out st =
    bind_op (record_outcome E t (j_id j) out True st) (\<lambda>recorded st1. (Inr (Some recorded), st1))"
  using assms by (simp add: finish_job_run_def same_run_refl outcome_next_run_def)

lemma finish_retry_test:
  assumes "get_stored st (j_id j) = Some j" and "j_status j = Running" and "\<not> j_recurring j"
    and "j_depends_on j = [] \<or> j_dependency_status j = DepSatisfied"
  shows "\<exists>x st' j'. finish_job_run E t j (OutRetry at_time err timed_out) st = (Inr (Some x), st') \<and>
    get_stored st' (j_id j) = Some j' \<and> j_status j' = Pending \<and> j_attempts j' = j_attempts j \<and>
    j_error_message j' = Some err \<and>
    j_scheduled_at j' = unwrap_or (checked_add_signed E (s_clock st) (at_time - t)) at_time"
proof -
  have "check_transition E st (j_id j) Retry = Inr ()"
    using assms(1,2) by (simp add: check_transition_def is_allowed_from_def)
  moreover obtain d where "retry_dependency_status E st (j_id j) = Inr d"
    using assms(1,4) by (cases "j_depends_on j = []")
      (simp_all add: retry_dependency_status_def reevaluate_dependencies_def)
  ultimately show ?thesis
    using assms(1) by (simp add: finish_test_unfold [OF assms(1-3)] record_outcome_def retry_job_def
        update_job_status_def get_modify_job get_set_status Let_def split: option.split)
qed

lemma finish_end_test:
  assumes "get_stored st (j_id j) = Some j" and "j_status j = Running" and "\<not> j_recurring j"
    and "out = OutDead err \<and> s = Dead \<or> out = OutTimedOut err \<and> s = TimedOut"
  shows "\<exists>x st' j'. finish_job_run E t j out st = (Inr (Some x), st') \<and>
    get_stored st' (j_id j) = Some j' \<and> j_status j' = s \<and> j_attempts j' = j_attempts j \<and>
    j_error_message j' = Some err"
proof -
  let ?f = "\<lambda>x. (if s = TimedOut then x\<lparr>j_timed_out_at := Some (s_clock st)\<rparr>
    else x\<lparr>j_failed_at := Some (s_clock st)\<rparr>)\<lparr>j_error_message := Some err\<rparr>"
  let ?st = "modify_job (remove_lease (set_status st (j_id j) j s) (j_id j)) (j_id j) ?f"
  have s: "s = Dead \<or> s = TimedOut" using assms(4) by blast
  then have "check_transition E st (j_id j) (if s = TimedOut then MarkTimedOut else MarkDead) = Inr ()"
    using assms(1,2) by (auto simp: check_transition_def is_allowed_from_def)
  moreover have clock: "s_clock (set_status st (j_id j) j s) = s_clock st"
    by (simp add: set_status_def push_status_def modify_job_def retain_status_def split: option.split)
  ultimately obtain ids st' where e: "end_with_failure E (j_id j) s err True st = (Inr ids, st')"
    and st': "st' = fst (apply_batch_failure E (fst (apply_workflow_failure E ?st (j_id j) (s_clock st))) (j_id j) (s_clock st))"
    using assms(1) by (simp add: end_with_failure_def update_job_status_def Let_def split_beta cong: if_cong)
  have k: "keeps_identity ?f" by (simp add: keeps_defs)
  have "get_stored st' (j_id j) = get_stored ?st (j_id j)"
    unfolding st' by (rule started_failures [OF terminal_left [OF assms(1) k]]) (use s in auto)
  then have "get_stored st' (j_id j) = Some (?f (j\<lparr>j_status := s\<rparr>))"
    using assms(1) by (simp add: get_modify_job get_set_status)
  moreover have "\<exists>x. finish_job_run E t j out st = (Inr (Some x), st')"
    using assms(4) e by (auto simp: finish_test_unfold [OF assms(1-3)] record_outcome_def)
  ultimately show ?thesis by (auto split: if_splits)
qed

lemma processed_run_witness:
  "\<exists>st'. process_job sample_env (test_ops sample_externs) failing_worker (\<lambda>st. st) sample_run
       (sample_state sample_run_store) = Some (Inr (), st') \<and> \<not> runs_as (wt_queue st') sample_run"
proof -
  obtain t where t: "failure_outcome sample_env failing_worker sample_run (error_display (ProcessingError ''x'')) True =
      OutRetry t (error_display (ProcessingError ''x'')) False"
    by (simp add: failure_outcome_def)
  obtain x q where "finish_job_run sample_externs (we_now sample_env AtRecord) sample_run
      (OutRetry t (error_display (ProcessingError ''x'')) False) sample_run_store = (Inr (Some x), q)"
    using finish_retry_test [OF sample_run_stored] by blast
  then obtain st' where "process_job sample_env (test_ops sample_externs) failing_worker (\<lambda>st. st) sample_run
       (sample_state sample_run_store) = Some (Inr (), st')"
    unfolding sample_process by (simp add: handle_failure_def worker_record_None test_ops_def Let_def t [simplified])
  with processed_run_is_over [OF this] show ?thesis by blast
qed


text \<open>
  A run that fails or times out uses up one attempt of the job and no more. On the in-memory
  queue, a job that is not recurring and is still this worker's run goes back to pending while it
  has attempts left, due at the worker's retry time moved to the queue's clock; on its last
  attempt it is dead or timed out. Either way the claim's attempt count and the error stay on
  the job, so a job that always fails is claimed exactly as often as its limit allows.
\<close>

theorem failed_run_effect:
  assumes "\<not> j_is_encrypted j"
    and "run_handler (wk_handler w) (timeout_for w j) j = Some outcome" and "verdict X w j outcome \<noteq> OutCompleted"
    and "s = wt_queue (meanwhile (begin_job X w j st))"
    and "get_stored s (j_id j) = Some j" and "j_status j = Running" and "\<not> j_recurring j"
    and "j_depends_on j = [] \<or> j_dependency_status j = DepSatisfied"
  shows "\<exists>st' j'. process_job X (test_ops E) w meanwhile j st = Some (Inr (), st') \<and>
    get_stored (wt_queue st') (j_id j) = Some j' \<and> j_attempts j' = j_attempts j \<and>
    j_error_message j' = Some (case outcome of Finished (Inl e) \<Rightarrow> error_display e | OutOfTime t \<Rightarrow> timeout_message t) \<and>
    (if attempts_left w j
     then j_status j' = Pending \<and>
       j_scheduled_at j' = (let t = retry_at_for (we_externs X) (we_floats X) (we_rng X) (we_now X AtRetry) w j in
         unwrap_or (checked_add_signed E (s_clock s) (t - we_now X AtRecord)) t)
     else j_status j' = (case outcome of Finished r \<Rightarrow> Dead | OutOfTime t \<Rightarrow> TimedOut))"
proof -
  let ?st = "meanwhile (begin_job X w j st)"
  have d: "decrypt_job (we_externs X) j = Inr j" using assms(1) by (simp add: decrypt_job_def)
  note retry = finish_retry_test [OF assms(5-8)] and ended = finish_end_test [OF assms(5-7)]
  show ?thesis
  proof (cases outcome)
    case (OutOfTime t)
    let ?out = "timeout_outcome X w j (timeout_message t) (attempts_left w j)"
    obtain x q j' where f: "finish_job_run E (we_now X AtRecord) j ?out s = (Inr (Some x), q)"
      "get_stored q (j_id j) = Some j'" "j_attempts j' = j_attempts j" "j_error_message j' = Some (timeout_message t)"
      "if attempts_left w j
       then j_status j' = Pending \<and>
         j_scheduled_at j' = (let t = retry_at_for (we_externs X) (we_floats X) (we_rng X) (we_now X AtRetry) w j in
           unwrap_or (checked_add_signed E (s_clock s) (t - we_now X AtRecord)) t)
       else j_status j' = TimedOut"
      using retry [of E "we_now X AtRecord"] ended [of ?out "timeout_message t" TimedOut E "we_now X AtRecord"]
      by (cases "attempts_left w j") (force simp: timeout_outcome_def Let_def)+
    then show ?thesis
      using assms(4) unfolding OutOfTime
      by (auto simp: process_job_def d assms(2) OutOfTime Let_def handle_timeout_def worker_record_None test_ops_def
          attempts_left_def)
  next
    case (Finished r)
    then obtain e where r: "r = Inl e" using assms(3) by (cases r) (auto simp: verdict_def)
    let ?out = "failure_outcome X w j (error_display e) (attempts_left w j)"
    obtain x q j' where f: "finish_job_run E (we_now X AtRecord) j ?out s = (Inr (Some x), q)"
      "get_stored q (j_id j) = Some j'" "j_attempts j' = j_attempts j" "j_error_message j' = Some (error_display e)"
      "if attempts_left w j
       then j_status j' = Pending \<and>
         j_scheduled_at j' = (let t = retry_at_for (we_externs X) (we_floats X) (we_rng X) (we_now X AtRetry) w j in
           unwrap_or (checked_add_signed E (s_clock s) (t - we_now X AtRecord)) t)
       else j_status j' = Dead"
      using retry [of E "we_now X AtRecord"] ended [of ?out "error_display e" Dead E "we_now X AtRecord"]
      by (cases "attempts_left w j") (force simp: failure_outcome_def Let_def)+
    then show ?thesis
      using assms(4) unfolding Finished r
      by (auto simp: process_job_def d assms(2) Finished r Let_def handle_failure_def worker_record_None test_ops_def
          attempts_left_def)
  qed
qed

lemma failed_run_witness:
  "\<exists>st' j'. process_job sample_env (test_ops sample_externs) failing_worker (\<lambda>st. st) sample_run
       (sample_state sample_run_store) = Some (Inr (), st') \<and>
     get_stored (wt_queue st') 1 = Some j' \<and> j_status j' = Pending \<and> j_attempts j' = 1"
proof -
  have v: "verdict sample_env failing_worker sample_run (Finished (Inl (ProcessingError ''x''))) \<noteq> OutCompleted"
    by (simp add: verdict_def failure_outcome_def)
  have s: "sample_run_store = wt_queue (begin_job sample_env failing_worker sample_run (sample_state sample_run_store))"
    by simp
  have "j_id sample_run = 1" "j_attempts sample_run = 1" by (simp_all add: sample_run_def job_new_def)
  with failed_run_effect [where meanwhile = "\<lambda>st. st" and E = sample_externs, OF sample_failing(3,1) v s sample_run_stored] sample_failing(4)
  show ?thesis by auto
qed

subsection \<open>Delays\<close>

lemma error_backoff_bounds:
  "min (max base MIN_ERROR_BACKOFF) MAX_ERROR_BACKOFF \<le> error_backoff base n"
  "error_backoff base n \<le> max base MAX_ERROR_BACKOFF"
proof -
  let ?b = "max base MIN_ERROR_BACKOFF"
  have m: "MIN_ERROR_BACKOFF \<le> MAX_ERROR_BACKOFF"
    by (simp add: MIN_ERROR_BACKOFF_def MAX_ERROR_BACKOFF_def from_millis_def)
  show "error_backoff base n \<le> max base MAX_ERROR_BACKOFF"
    using m by (auto simp: error_backoff_def Let_def)
  have "?b * 1 \<le> ?b * 2 ^ k" for k :: nat by (rule mult_le_mono2) simp
  then have "?b \<le> ?b * 2 ^ k" for k :: nat by (simp only: mult_1_right)
  then show "min ?b MAX_ERROR_BACKOFF \<le> error_backoff base n"
    by (auto simp: error_backoff_def Let_def checked_mul_def min_le_iff_disj)
qed

lemma error_backoff_exact:
  assumes "max base MIN_ERROR_BACKOFF * 2 ^ 16 \<le> DURATION_MAX"
  shows "error_backoff base n =
    min (max base MIN_ERROR_BACKOFF * 2 ^ min (n - 1) 16) (max MAX_ERROR_BACKOFF (max base MIN_ERROR_BACKOFF))"
proof -
  let ?b = "max base MIN_ERROR_BACKOFF"
  have "(2 :: nat) ^ min (n - 1) 16 \<le> 2 ^ 16" by (rule power_increasing) auto
  then have "?b * 2 ^ min (n - 1) 16 \<le> ?b * 2 ^ 16" by (rule mult_le_mono2)
  then have "?b * 2 ^ min (n - 1) 16 \<le> DURATION_MAX" using assms by (rule le_trans)
  then show ?thesis by (simp add: error_backoff_def Let_def checked_mul_def)
qed

lemma retry_at_from_delay_eq:
  assumes "min_utc E \<le> now" and "now \<le> max_utc E" and "int MAX_RETRY_DELAY \<le> max_delta E"
  shows "retry_at_from_delay E now d =
    (if now + int (min d MAX_RETRY_DELAY) \<le> max_utc E then now + int (min d MAX_RETRY_DELAY) else max_utc E)"
proof -
  have "int (min d MAX_RETRY_DELAY) \<le> max_delta E" using assms(3) by linarith
  then show ?thesis
    using assms(1,2) by (simp add: retry_at_from_delay_def saturating_chrono_duration_def checked_add_signed_def)
qed

text \<open>
  The delays of a worker stay within their limits. After errors in a row it waits at least its
  base delay (and never less than a tenth of a second) or a minute if that is less, and at most a
  minute or its base delay; as long as the base delay is not astronomic the wait doubles with
  each error and never shrinks. A retry is never due before now, never more than a year ahead,
  and never past the last representable time.
\<close>

theorem worker_delays:
  assumes "min_utc E \<le> now" and "now \<le> max_utc E" and "int MAX_RETRY_DELAY \<le> max_delta E"
  shows "MIN_ERROR_BACKOFF \<le> error_backoff base n \<and>
    min base MAX_ERROR_BACKOFF \<le> error_backoff base n \<and> error_backoff base n \<le> max base MAX_ERROR_BACKOFF \<and>
    (max base MIN_ERROR_BACKOFF * 2 ^ 16 \<le> DURATION_MAX \<and> n \<le> m \<longrightarrow> error_backoff base n \<le> error_backoff base m) \<and>
    now \<le> retry_at_for E F R now w j \<and> retry_at_for E F R now w j \<le> now + int MAX_RETRY_DELAY \<and>
    retry_at_for E F R now w j \<le> max_utc E"
proof (intro conjI impI)
  have m: "MIN_ERROR_BACKOFF \<le> MAX_ERROR_BACKOFF"
    by (simp add: MIN_ERROR_BACKOFF_def MAX_ERROR_BACKOFF_def from_millis_def)
  show "MIN_ERROR_BACKOFF \<le> error_backoff base n" "min base MAX_ERROR_BACKOFF \<le> error_backoff base n"
    "error_backoff base n \<le> max base MAX_ERROR_BACKOFF"
    using error_backoff_bounds [of base n] m by linarith+
  assume *: "max base MIN_ERROR_BACKOFF * 2 ^ 16 \<le> DURATION_MAX \<and> n \<le> m"
  have "(2 :: nat) ^ min (n - 1) 16 \<le> 2 ^ min (m - 1) 16" using * by (intro power_increasing) auto
  then have "max base MIN_ERROR_BACKOFF * 2 ^ min (n - 1) 16 \<le> max base MIN_ERROR_BACKOFF * 2 ^ min (m - 1) 16"
    by (rule mult_le_mono2)
  then show "error_backoff base n \<le> error_backoff base m" using * by (simp add: error_backoff_exact min.coboundedI1)
next
  show "now \<le> retry_at_for E F R now w j" "retry_at_for E F R now w j \<le> now + int MAX_RETRY_DELAY"
    "retry_at_for E F R now w j \<le> max_utc E"
    using assms(2) by (auto simp: retry_at_for_def Let_def retry_at_from_delay_eq [OF assms])
qed

lemma worker_delays_witness:
  "error_backoff (seconds 1) 1 \<le> error_backoff (seconds 1) 2 \<and>
   retry_at_for sample_externs exact_floats sample_rng 0 failing_worker sample_run \<le> int MAX_RETRY_DELAY"
proof -
  have "min_utc sample_externs \<le> 0" "0 \<le> max_utc sample_externs" "int MAX_RETRY_DELAY \<le> max_delta sample_externs"
    by (simp_all add: sample_externs_def MAX_RETRY_DELAY_def)
  from worker_delays [OF this, of "seconds 1" 1 2 exact_floats sample_rng failing_worker sample_run] show ?thesis
    by (simp add: MIN_ERROR_BACKOFF_def DURATION_MAX_def from_millis_def)
qed

text \<open>
  C34: A heartbeat comes in time exactly when the lease is long enough. A run whose lease was
  taken or renewed at some time is, when its next heartbeat is due, already reclaimable as
  stale if and only if the lease is not zero and shorter than the floor of a tenth of a second
  on the heartbeat interval; so with such a lease a run is lost while its worker is alive.
\<close>

theorem heartbeat_in_time:
  assumes "j_started_at j = Some started" and "started \<le> beat"
    and "s_leases st (j_id j) = Some (beat, lease_expiry E beat (wk_lease_duration w))"
    and "s_clock st = beat + int (held_renewal_interval w)" and "s_clock st \<le> max_utc E"
    and "min_utc E \<le> beat" and "int (wk_lease_duration w) \<le> max_delta E"
  shows "is_stale st j \<longleftrightarrow> wk_lease_duration w \<noteq> 0 \<and> wk_lease_duration w < MIN_HEARTBEAT_INTERVAL"
proof -
  let ?l = "wk_lease_duration w"
  have i: "?l < held_renewal_interval w \<longleftrightarrow> ?l < MIN_HEARTBEAT_INTERVAL"
  proof -
    have "\<not> ?l < ?l div 3" by (simp add: not_less)
    then show ?thesis by (simp add: held_renewal_interval_def less_max_iff_disj)
  qed
  have "lease_expiry E beat ?l < s_clock st \<longleftrightarrow> ?l \<noteq> 0 \<and> ?l < held_renewal_interval w"
    using assms(4-7) by (auto simp: lease_expiry_def saturating_add_to_def checked_add_signed_def
        saturating_chrono_duration_def)
  then show ?thesis using assms(1-3) by (simp add: is_stale_def i)
qed

lemma heartbeat_in_time_witness:
  "is_stale ((storage_new 100000000)\<lparr>s_leases := [1 \<mapsto> (0, lease_expiry sample_externs 0 5)]\<rparr>) sample_run"
proof -
  let ?w = "failing_worker\<lparr>wk_lease_duration := 5\<rparr>"
  have "held_renewal_interval ?w = 100000000" "wk_lease_duration ?w < MIN_HEARTBEAT_INTERVAL" "wk_lease_duration ?w = 5"
    by (simp_all add: held_renewal_interval_def MIN_HEARTBEAT_INTERVAL_def from_millis_def)
  with heartbeat_in_time [of sample_run 0 0 "(storage_new 100000000)\<lparr>s_leases := [1 \<mapsto> (0, lease_expiry sample_externs 0 5)]\<rparr>"
      sample_externs ?w]
  show ?thesis by (simp add: sample_run_def job_new_def storage_new_def sample_externs_def)
qed

end
