(* ===== verification/WorkerLoop.thy ===== *)
theory WorkerLoop
  imports WorkerRuns
begin

text \<open>
  How a worker acquires jobs, and its loop (\<open>src/src/worker.rs\<close>): the throttle permits and rate
  limit tokens it takes before a claim and hands back for jobs it did not get, the idle and error
  waits, and the shutdown checks. A wait is given whether shutdown is requested during it; the
  readings of the monotonic clock are arguments. \<open>None\<close> is a worker still waiting for a permit or
  a token.
\<close>

subsection \<open>Acquiring\<close>

datatype 'a acquired = Work 'a | Idle | Shutdown

record 's claim_state =
  cs_queue :: 's
  cs_limiter :: "rate_limiter option"
  cs_permits :: "nat option"

record waits =
  wv_fuel :: nat
  wv_late :: "nat \<Rightarrow> nat"
  wv_acquire_at :: time
  wv_try_at :: "nat \<Rightarrow> time"
  wv_refund_at :: "nat \<Rightarrow> time"
  wv_stop_permit :: bool
  wv_stop_limiter :: bool
  wv_stop_idle :: bool

definition idle_wait :: "waits \<Rightarrow> 'a acquired" where
  "idle_wait V = (if wv_stop_idle V then Shutdown else Idle)"

definition queue_is_paused :: "'s queue_ops \<Rightarrow> worker \<Rightarrow> 's \<Rightarrow> bool" where
  "queue_is_paused Q w s =
     (case qo_is_queue_paused Q (wk_queue_name w) s of Inr b \<Rightarrow> b | Inl e \<Rightarrow> False)"

definition claim_job :: "'s queue_ops \<Rightarrow> worker \<Rightarrow> 's \<Rightarrow> job option res \<times> 's" where
  "claim_job Q w s =
     (if queue_is_paused Q w s then (Inr None, s)
      else bind_op (qo_dequeue Q (wk_queue_name w) (worker_dequeue_options w 1) s)
        (\<lambda>js s'. (Inr (case js of [] \<Rightarrow> None | j # _ \<Rightarrow> Some j), s')))"

definition refund_if :: "bool \<Rightarrow> time \<Rightarrow> rate_limiter option \<Rightarrow> rate_limiter option" where
  "refund_if b t l = (if b then map_option (limiter_refund t) l else l)"

definition claim_with_token ::
  "'s queue_ops \<Rightarrow> worker \<Rightarrow> waits \<Rightarrow> 's claim_state \<Rightarrow> job acquired res \<times> 's claim_state" where
  "claim_with_token Q w V st =
     (case claim_job Q w (cs_queue st) of
        (r, q) \<Rightarrow>
          (let claimed = (case r of Inr (Some j) \<Rightarrow> True | _ \<Rightarrow> False);
               st1 = st\<lparr>cs_queue := q,
                 cs_limiter := refund_if (\<not> claimed) (wv_refund_at V 0) (cs_limiter st)\<rparr> in
           case r of
             Inl e \<Rightarrow> (Inl e, st1)
           | Inr (Some j) \<Rightarrow> (Inr (Work j), st1)
           | Inr None \<Rightarrow> (Inr (idle_wait V), st1)))"

definition acquire_job ::
  "'s queue_ops \<Rightarrow> worker \<Rightarrow> waits \<Rightarrow> 's claim_state \<Rightarrow> (job acquired res \<times> 's claim_state) option" where
  "acquire_job Q w V st =
     (case cs_limiter st of
        None \<Rightarrow> Some (claim_with_token Q w V st)
      | Some l \<Rightarrow>
          if wv_stop_limiter V then Some (Inr Shutdown, st)
          else
            (case acquire (wv_fuel V) (wv_late V) (wv_acquire_at V) l of
               None \<Rightarrow> None
             | Some (Inl e, l') \<Rightarrow> Some (Inr (idle_wait V), st\<lparr>cs_limiter := Some l'\<rparr>)
             | Some (Inr t, l') \<Rightarrow> Some (claim_with_token Q w V (st\<lparr>cs_limiter := Some l'\<rparr>))))"

text \<open>As many more tokens as are free right now, up to the capacity.\<close>

function take_tokens :: "waits \<Rightarrow> nat \<Rightarrow> nat \<Rightarrow> rate_limiter \<Rightarrow> nat \<times> rate_limiter" where
  "take_tokens V capacity tokens l =
     (if tokens < capacity then
        (case limiter_check (wv_try_at V tokens) l of
           (True, l') \<Rightarrow> take_tokens V capacity (tokens + 1) l'
         | (False, l') \<Rightarrow> (tokens, l'))
      else (tokens, l))"
  by pat_completeness auto
termination
  by (relation "measure (\<lambda>(V, capacity, tokens, l). capacity - tokens)") auto

declare take_tokens.simps [simp del]

text \<open>\<open>for _ in used..tokens\<close>.\<close>

definition refund_unused :: "waits \<Rightarrow> nat \<Rightarrow> nat \<Rightarrow> rate_limiter \<Rightarrow> rate_limiter" where
  "refund_unused V used tokens l = fold (\<lambda>k. limiter_refund (wv_refund_at V k)) [used..<tokens] l"

definition claim_batch ::
  "'s queue_ops \<Rightarrow> worker \<Rightarrow> waits \<Rightarrow> nat \<Rightarrow> nat \<Rightarrow> nat \<Rightarrow> 's claim_state \<Rightarrow>
     job list acquired res \<times> 's claim_state" where
  "claim_batch Q w V capacity tokens permits st =
     (case (if queue_is_paused Q w (cs_queue st) then (Inr [], cs_queue st)
            else qo_dequeue Q (wk_queue_name w) (worker_dequeue_options w capacity) (cs_queue st)) of
        (claimed, q) \<Rightarrow>
          (let used = (case claimed of Inr js \<Rightarrow> length js | Inl e \<Rightarrow> 0);
               st1 = st\<lparr>cs_queue := q,
                 cs_limiter := map_option (refund_unused V used tokens) (cs_limiter st)\<rparr> in
           case claimed of
             Inl e \<Rightarrow> (Inl e, st1)
           | Inr [] \<Rightarrow> (Inr (idle_wait V), st1)
           | Inr js \<Rightarrow>
               (Inr (Work js),
                st1\<lparr>cs_permits := map_option (\<lambda>p. p - min (length js) permits) (cs_permits st)\<rparr>)))"

definition acquire_batch ::
  "'s queue_ops \<Rightarrow> worker \<Rightarrow> waits \<Rightarrow> 's claim_state \<Rightarrow> (job list acquired res \<times> 's claim_state) option" where
  "acquire_batch Q w V st =
     (let wanted = max (wk_batch_size w) 1 in
      if cs_permits st \<noteq> None \<and> wv_stop_permit V then Some (Inr Shutdown, st)
      else if cs_permits st = Some 0 then None
      else
        (let permits = (case cs_permits st of None \<Rightarrow> 0 | Some p \<Rightarrow> min p wanted);
             capacity = (case cs_permits st of None \<Rightarrow> wanted | Some p \<Rightarrow> permits) in
         case cs_limiter st of
           None \<Rightarrow> Some (claim_batch Q w V capacity 0 permits st)
         | Some l \<Rightarrow>
             if wv_stop_limiter V then Some (Inr Shutdown, st)
             else
               (case acquire (wv_fuel V) (wv_late V) (wv_acquire_at V) l of
                  None \<Rightarrow> None
                | Some (Inl e, l') \<Rightarrow> Some (Inr (idle_wait V), st\<lparr>cs_limiter := Some l'\<rparr>)
                | Some (Inr t, l') \<Rightarrow>
                    (case take_tokens V capacity 1 l' of
                       (tokens, l'') \<Rightarrow>
                         Some (claim_batch Q w V tokens tokens permits (st\<lparr>cs_limiter := Some l''\<rparr>))))))"

subsection \<open>The traffic on the limiter\<close>

text \<open>
  The calls an acquisition makes on the limiter, as a list of operations: \<open>net ops l n\<close> says that
  they take \<open>n\<close> tokens more than they refund.
\<close>

definition net :: "(time \<times> limiter_op) list \<Rightarrow> rate_limiter \<Rightarrow> nat \<Rightarrow> bool" where
  "net ops l n \<longleftrightarrow> admitted ops l = n + refunds ops"

lemma run_ops_append:
  "run_ops (xs @ ys) l = (let (a, l1) = run_ops xs l; (b, l2) = run_ops ys l1 in (a @ b, l2))"
  by (induction xs l rule: run_ops.induct) (auto simp: Let_def split: prod.split)

lemma admitted_append: "admitted (xs @ ys) l = admitted xs l + admitted ys (snd (run_ops xs l))"
  by (simp add: admitted_def run_ops_append Let_def split: prod.split)

lemma refunds_append [simp]: "refunds (xs @ ys) = refunds xs + refunds ys"
  by (simp add: refunds_def)

lemma refill_same:
  assumes "tb_last_refill b = now" and "bucket_ok b"
  shows "bucket_refill now b = b"
  using assms by (simp add: bucket_refill_def elapsed_secs_def bucket_ok_def Let_def min_def)

lemma acquire_as_ops:
  assumes "acquire n late now l = Some (Inr t, l')" and "bucket_ok (lim_bucket l)" and "\<not> lim_poisoned l"
  shows "\<exists>ops. l' = snd (run_ops ops l) \<and> admitted ops l = 1 \<and> refunds ops = 0 \<and>
    sorted (map fst ops) \<and> (\<forall>x \<in> fst ` set ops. now \<le> x \<and> x \<le> t)"
  using assms
proof (induction n late now l arbitrary: t l' rule: acquire.induct)
  case (2 n late now l)
  obtain ok b where c: "try_consume now 1 (lim_bucket l) = (ok, b)" by fastforce
  have bok: "bucket_ok b" using bucket_ok_consume [OF "2.prems"(2), of now] c by simp
  show ?case
  proof (cases ok)
    case True
    with "2.prems" c have "l' = l\<lparr>lim_bucket := b\<rparr>" "t = now" by auto
    then show ?thesis
      using "2.prems"(3) c True by (intro exI [of _ "[(now, OpCheck)]"]) (simp add: limiter_check_def)
  next
    case False
    have last_refill: "tb_last_refill b = now" using c False by (auto simp: try_consume_def Let_def split: if_splits)
    let ?l = "l\<lparr>lim_bucket := b\<rparr>"
    have "snd (time_until_token now b) = b"
      by (simp add: time_until_token_def refill_same [OF last_refill bok] Let_def)
    then obtain wait where wait: "time_until_token now b = (wait, b)" by (cases "time_until_token now b") auto
    let ?now = "now + int wait * 1000000 + int (late n)"
    have "acquire n late ?now ?l = Some (Inr t, l')" using "2.prems" c False wait by simp
    moreover have "bucket_ok (lim_bucket ?l)" "\<not> lim_poisoned ?l" using bok "2.prems"(3) by simp_all
    ultimately obtain ops where ops: "l' = snd (run_ops ops ?l)" "admitted ops ?l = 1" "refunds ops = 0"
      "sorted (map fst ops)" "\<forall>x \<in> fst ` set ops. ?now \<le> x \<and> x \<le> t"
      using "2.IH" [OF "2.prems"(3) c [symmetric] False wait [symmetric]] by blast
    have "ops \<noteq> []" using ops(2) by auto
    then have "now \<le> t" using ops(5) by (cases ops) force+
    with ops c False "2.prems"(3) show ?thesis
      by (intro exI [of _ "(now, OpCheck) # ops"]) (auto simp: limiter_check_def split: prod.split)
  qed
qed simp

lemma take_tokens_as_ops:
  assumes "take_tokens V capacity tokens l = (n, l')" and "tokens \<le> capacity"
  shows "\<exists>ops m. l' = snd (run_ops ops l) \<and> tokens + admitted ops l = n \<and> refunds ops = 0 \<and> n \<le> capacity \<and>
    tokens \<le> m \<and> map fst ops = map (wv_try_at V) [tokens..<m]"
  using assms
proof (induction V capacity tokens l rule: take_tokens.induct)
  case (1 V capacity tokens l)
  show ?case
  proof (cases "tokens < capacity")
    case True
    obtain ok l1 where c: "limiter_check (wv_try_at V tokens) l = (ok, l1)" by fastforce
    show ?thesis
    proof (cases ok)
      case ok: True
      have "take_tokens V capacity (tokens + 1) l1 = (n, l')"
        using "1.prems"(1) True c ok by (subst (asm) take_tokens.simps) simp
      then obtain ops m where "l' = snd (run_ops ops l1)" "tokens + 1 + admitted ops l1 = n" "refunds ops = 0"
        "n \<le> capacity" "tokens + 1 \<le> m" "map fst ops = map (wv_try_at V) [tokens + 1..<m]"
        using "1.IH" [OF True c [symmetric]] ok True by fastforce
      then show ?thesis using c ok
        by (intro exI [of _ "(wv_try_at V tokens, OpCheck) # ops"] exI [of _ m]) (simp add: upt_conv_Cons split: prod.split)
    next
      case False
      then have "n = tokens" "l' = l1"
        using "1.prems"(1) True c by (subst (asm) take_tokens.simps; simp)+
      then show ?thesis using c False True
        by (intro exI [of _ "[(wv_try_at V tokens, OpCheck)]"] exI [of _ "Suc tokens"]) simp
    qed
  next
    case False
    then have "n = tokens" "l' = l" using "1.prems"(1) by (subst (asm) take_tokens.simps; simp)+
    then show ?thesis using "1.prems"(2) by (intro exI [of _ "[]"] exI [of _ tokens]) simp
  qed
qed

lemma refunds_as_ops:
  "snd (run_ops (map (\<lambda>k. (f k, OpRefund)) ks) l) = fold (\<lambda>k. limiter_refund (f k)) ks l"
  "admitted (map (\<lambda>k. (f k, OpRefund)) ks) l = 0"
  "refunds (map (\<lambda>k. (f k, OpRefund)) ks) = length ks"
  by (induction ks arbitrary: l) simp_all

subsection \<open>Every claimed job is paid for\<close>

definition acquired_count :: "'a list acquired res \<Rightarrow> nat" where
  "acquired_count r = (case r of Inr (Work js) \<Rightarrow> length js | _ \<Rightarrow> 0)"

text \<open>The branch of \<open>run\<close> that acquires work, in single-job or batch mode.\<close>

definition worker_acquire ::
  "'s queue_ops \<Rightarrow> worker \<Rightarrow> waits \<Rightarrow> 's claim_state \<Rightarrow> (job list acquired res \<times> 's claim_state) option" where
  "worker_acquire Q w V st =
     (if wk_batch_processing_enabled w then acquire_batch Q w V st
      else map_option
        (map_prod (map_sum (\<lambda>e. e) (\<lambda>a. case a of Work j \<Rightarrow> Work [j] | Idle \<Rightarrow> Idle | Shutdown \<Rightarrow> Shutdown))
          (\<lambda>s. s)) (acquire_job Q w V st))"

text \<open>The clock does not go back during an acquisition that starts after \<open>t\<close> and ends by \<open>u\<close>.\<close>

definition readings_ok :: "waits \<Rightarrow> rate_limiter \<Rightarrow> time \<Rightarrow> time \<Rightarrow> bool" where
  "readings_ok V l t u \<longleftrightarrow>
     t \<le> u \<and> t \<le> wv_acquire_at V \<and> mono (wv_try_at V) \<and> mono (wv_refund_at V) \<and>
     (\<forall>k m. wv_try_at V k \<le> wv_refund_at V m) \<and> (\<forall>k. wv_refund_at V k \<le> u) \<and>
     (\<forall>g l'. acquire (wv_fuel V) (wv_late V) (wv_acquire_at V) l = Some (Inr g, l') \<longrightarrow> g \<le> wv_try_at V 0)"

lemma sorted_map_mono: "mono f \<Longrightarrow> sorted xs \<Longrightarrow> sorted (map f xs)"
  by (induction xs) (auto simp: mono_def)

lemma sorted_three:
  assumes "sorted a" and "sorted b" and "sorted c" and "\<forall>x \<in> set a. t \<le> x \<and> x \<le> p"
    and "\<forall>x \<in> set b. p \<le> x \<and> x \<le> q" and "\<forall>x \<in> set c. q \<le> x \<and> x \<le> u"
    and "t \<le> p" and "p \<le> q" and "q \<le> (u :: 'a :: linorder)"
  shows "sorted (t # a @ b @ c @ [u])"
proof -
  have "\<forall>x \<in> set (b @ c @ [u]). p \<le> x" "\<forall>x \<in> set (c @ [u]). q \<le> x"
    using assms(5,6,8,9) by (auto intro: order_trans)
  moreover have "sorted (c @ [u])" using assms(3,6) by (auto simp: sorted_append)
  ultimately show ?thesis
    using assms(1,2,4,5,7) by (auto simp: sorted_append intro: order_trans)
qed

lemma sorted_join:
  assumes "sorted (t # a @ [m])" and "sorted (m # b @ [u])"
  shows "sorted (t # a @ b @ [u :: 'a :: linorder])"
proof -
  have "\<forall>x \<in> set a. x \<le> m" "t \<le> m" "\<forall>x \<in> set b. m \<le> x" "m \<le> u"
    using assms by (auto simp: sorted_append)
  with assms show ?thesis by (auto simp: sorted_append intro: order_trans)
qed

lemma acquire_Inl: "acquire n late now l = Some (Inl e, l') \<Longrightarrow> lim_poisoned l"
  by (induction n late now l rule: acquire.induct) (auto split: if_splits prod.splits)

text \<open>
  A worker's acquisitions one after the other: each with its readings, the time it ends by, and
  what others did to the queue before it. The result counts the claimed jobs.
\<close>

fun claim_session ::
  "'s queue_ops \<Rightarrow> worker \<Rightarrow> (waits \<times> time \<times> ('s \<Rightarrow> 's)) list \<Rightarrow> 's claim_state \<Rightarrow> (nat \<times> 's claim_state) option" where
  "claim_session Q w [] st = Some (0, st)"
| "claim_session Q w ((V, m, others) # rest) st =
     (case worker_acquire Q w V (st\<lparr>cs_queue := others (cs_queue st)\<rparr>) of
        None \<Rightarrow> None
      | Some (x, st1) \<Rightarrow>
          map_option (\<lambda>(n, st2). (acquired_count x + n, st2)) (claim_session Q w rest st1))"

fun session_ok ::
  "'s queue_ops \<Rightarrow> worker \<Rightarrow> (waits \<times> time \<times> ('s \<Rightarrow> 's)) list \<Rightarrow> time \<Rightarrow> time \<Rightarrow> 's claim_state \<Rightarrow> bool" where
  "session_ok Q w [] t u st \<longleftrightarrow> t \<le> u"
| "session_ok Q w ((V, m, others) # rest) t u st \<longleftrightarrow>
     is_some_and (cs_limiter st) (\<lambda>l. readings_ok V l t m) \<and>
     (case worker_acquire Q w V (st\<lparr>cs_queue := others (cs_queue st)\<rparr>) of
        None \<Rightarrow> True
      | Some (x, st1) \<Rightarrow> session_ok Q w rest m u st1)"

lemma acquire_batch_granted:
  assumes "\<not> (cs_permits st \<noteq> None \<and> wv_stop_permit V)" and "cs_permits st \<noteq> Some 0"
    and "cs_limiter st = Some l" and "\<not> wv_stop_limiter V"
    and "permits = (case cs_permits st of None \<Rightarrow> 0 | Some p \<Rightarrow> min p (max (wk_batch_size w) 1))"
    and "capacity = (case cs_permits st of None \<Rightarrow> max (wk_batch_size w) 1 | Some p \<Rightarrow> permits)"
  shows "acquire_batch Q w V st =
    (case acquire (wv_fuel V) (wv_late V) (wv_acquire_at V) l of
       None \<Rightarrow> None
     | Some (Inl e, l') \<Rightarrow> Some (Inr (idle_wait V), st\<lparr>cs_limiter := Some l'\<rparr>)
     | Some (Inr t, l') \<Rightarrow>
         (case take_tokens V capacity 1 l' of
            (tokens, l'') \<Rightarrow> Some (claim_batch Q w V tokens tokens permits (st\<lparr>cs_limiter := Some l''\<rparr>))))"
  using assms by (simp only: acquire_batch_def Let_def if_False option.case not_False_eq_True)

locale claim_queue =
  fixes Q :: "'s queue_ops" and inv :: "'s \<Rightarrow> bool"
  assumes dequeue_bound: "inv s \<Longrightarrow> qo_dequeue Q q opts s = (Inr js, s') \<Longrightarrow> length js \<le> d_max_jobs opts"
    and dequeue_keeps: "inv s \<Longrightarrow> inv (snd (qo_dequeue Q q opts s))"
begin

lemma claim_job_keeps: "inv s \<Longrightarrow> inv (snd (claim_job Q w s))"
  using dequeue_keeps by (auto simp: claim_job_def intro: snd_bind_op)

lemma claim_with_token_keeps: "inv (cs_queue st) \<Longrightarrow> inv (cs_queue (snd (claim_with_token Q w V st)))"
  using claim_job_keeps [of "cs_queue st" w]
  by (auto simp: claim_with_token_def Let_def split: prod.split sum.split option.split)

lemma claim_batch_keeps: "inv (cs_queue st) \<Longrightarrow> inv (cs_queue (snd (claim_batch Q w V capacity tokens permits st)))"
  using dequeue_keeps [of "cs_queue st"]
  by (auto simp: claim_batch_def Let_def split: prod.split sum.split list.split) (metis snd_conv)+

lemma worker_acquire_keeps:
  assumes "inv (cs_queue st)" and "worker_acquire Q w V st = Some (x, st')"
  shows "inv (cs_queue st')"
proof -
  have "inv (cs_queue (snd (claim_batch Q w V c tk p (st\<lparr>cs_limiter := l\<rparr>))))"
    "inv (cs_queue (snd (claim_batch Q w V c tk p st)))"
    "inv (cs_queue (snd (claim_with_token Q w V (st\<lparr>cs_limiter := l\<rparr>))))"
    "inv (cs_queue (snd (claim_with_token Q w V st)))" for c tk p l
    using assms(1) by (auto intro!: claim_batch_keeps claim_with_token_keeps)
  with assms show ?thesis
    by (auto simp: worker_acquire_def acquire_batch_def acquire_job_def Let_def
        split: if_splits option.splits prod.splits sum.splits) (metis snd_conv)+
qed

lemma claim_batch_ops:
  assumes "inv (cs_queue st)" and "cs_limiter st = Some l" and "claim_batch Q w V capacity tokens permits st = (x, st')"
    and "capacity \<le> tokens"
  shows "acquired_count x \<le> capacity \<and>
    cs_limiter st' = Some (snd (run_ops (map (\<lambda>k. (wv_refund_at V k, OpRefund)) [acquired_count x..<tokens]) l))"
proof -
  obtain r q where r: "(if queue_is_paused Q w (cs_queue st) then (Inr [], cs_queue st)
      else qo_dequeue Q (wk_queue_name w) (worker_dequeue_options w capacity) (cs_queue st)) = (r, q)"
    by fastforce
  have "length js \<le> capacity" if "r = Inr js" for js
    using r that dequeue_bound [OF assms(1), of "wk_queue_name w" "worker_dequeue_options w capacity" js q]
    by (auto simp: worker_dequeue_options_def options_batch_def split: if_splits)
  with r assms(2,3) show ?thesis
    by (cases r) (auto simp: claim_batch_def Let_def acquired_count_def idle_wait_def refunds_as_ops
        refund_unused_def split: list.splits)
qed

lemma granted_ops:
  assumes "limiter_ok r l" and "readings_ok V l t u"
    and "acquire (wv_fuel V) (wv_late V) (wv_acquire_at V) l = Some (Inr g, l1)"
    and "take_tokens V capacity 1 l1 = (tokens, l2)" and "1 \<le> capacity" and "n \<le> tokens"
  shows "\<exists>ops. snd (run_ops (map (\<lambda>k. (wv_refund_at V k, OpRefund)) [n..<tokens]) l2) = snd (run_ops ops l) \<and>
    net ops l n \<and> sorted (t # map fst ops @ [u])"
proof -
  from assms(1) have ok: "bucket_ok (lim_bucket l)" "\<not> lim_poisoned l" by (auto simp: limiter_ok_def)
  obtain xs where xs: "l1 = snd (run_ops xs l)" "admitted xs l = 1" "refunds xs = 0" "sorted (map fst xs)"
    "\<forall>x \<in> fst ` set xs. wv_acquire_at V \<le> x \<and> x \<le> g"
    using acquire_as_ops [OF assms(3) ok] by blast
  obtain ys m where ys: "l2 = snd (run_ops ys l1)" "1 + admitted ys l1 = tokens" "refunds ys = 0"
    "map fst ys = map (wv_try_at V) [1..<m]"
    using take_tokens_as_ops [OF assms(4,5)] by blast
  let ?zs = "map (\<lambda>k. (wv_refund_at V k, OpRefund)) [n..<tokens]"
  let ?ops = "xs @ ys @ ?zs"
  have "snd (run_ops ?zs l2) = snd (run_ops ?ops l)"
    by (simp add: run_ops_append Let_def xs(1) ys(1) split: prod.split)
  moreover have "net ?ops l n"
    using xs(2,3) ys(2,3) assms(6) by (simp add: net_def admitted_append xs(1) [symmetric] refunds_as_ops)
  moreover have "sorted (t # map fst ?ops @ [u])"
  proof -
    have r: "wv_try_at V k \<le> wv_refund_at V m" "wv_refund_at V k \<le> u" "mono (wv_try_at V)"
      "mono (wv_refund_at V)" "t \<le> wv_acquire_at V" "g \<le> wv_try_at V 0" for k m
      using assms(2,3) by (auto simp: readings_ok_def)
    have "xs \<noteq> []" using xs(2) by auto
    then have "wv_acquire_at V \<le> g" using xs(5) by (cases xs) force+
    then have t: "t \<le> wv_try_at V 0" using r(5,6) by linarith
    have "sorted (t # map fst xs @ map (wv_try_at V) [1..<m] @ map (wv_refund_at V) [n..<tokens] @ [u])"
    proof (rule sorted_three [of _ _ _ _ "wv_try_at V 0" "wv_refund_at V 0"])
      show "\<forall>x \<in> set (map fst xs). t \<le> x \<and> x \<le> wv_try_at V 0" using xs(5) r(5,6) by force
      show "\<forall>x \<in> set (map (wv_try_at V) [1..<m]). wv_try_at V 0 \<le> x \<and> x \<le> wv_refund_at V 0"
        using r(1) monoD [OF r(3)] by auto
      show "\<forall>x \<in> set (map (wv_refund_at V) [n..<tokens]). wv_refund_at V 0 \<le> x \<and> x \<le> u"
        using r(2) monoD [OF r(4)] by auto
    qed (use xs(4) r t in \<open>auto intro: sorted_map_mono\<close>)
    then show ?thesis by (simp add: ys(4) o_def)
  qed
  ultimately show ?thesis by blast
qed

lemma acquire_batch_paid:
  assumes "limiter_ok r l" and "inv (cs_queue st)" and "cs_limiter st = Some l" and "readings_ok V l t u"
    and "acquire_batch Q w V st = Some (x, st')"
  shows "\<exists>ops. cs_limiter st' = Some (snd (run_ops ops l)) \<and> net ops l (acquired_count x) \<and>
    sorted (t # map fst ops @ [u])"
proof -
  let ?wanted = "max (wk_batch_size w) 1"
  let ?permits = "case cs_permits st of None \<Rightarrow> 0 | Some p \<Rightarrow> min p ?wanted"
  let ?capacity = "case cs_permits st of None \<Rightarrow> ?wanted | Some p \<Rightarrow> ?permits"
  have none: "\<exists>ops. Some l = Some (snd (run_ops ops l)) \<and> net ops l 0 \<and> sorted (t # map fst ops @ [u])"
    using assms(4) by (intro exI [of _ "[]"]) (simp add: net_def readings_ok_def)
  show ?thesis
  proof (cases "acquired_count x = 0 \<and> cs_limiter st' = Some l")
    case True
    then show ?thesis using none by simp
  next
    case False
    have wait: "\<not> (cs_permits st \<noteq> None \<and> wv_stop_permit V)" "cs_permits st \<noteq> Some 0" "\<not> wv_stop_limiter V"
      using False assms(3,5) by (auto simp: acquire_batch_def acquired_count_def Let_def split: if_splits)
    obtain g l1 where a: "acquire (wv_fuel V) (wv_late V) (wv_acquire_at V) l = Some (Inr g, l1)"
    proof (cases "acquire (wv_fuel V) (wv_late V) (wv_acquire_at V) l")
      case None
      then show ?thesis using assms(5) acquire_batch_granted [OF wait(1,2) assms(3) wait(3) refl refl] by simp
    next
      case (Some y)
      have "\<not> lim_poisoned l" using assms(1) by (simp add: limiter_ok_def)
      with Some acquire_Inl [of "wv_fuel V" "wv_late V" "wv_acquire_at V" l] that show ?thesis
        by (cases y; cases "fst y") auto
    qed
    obtain tokens l2 where tk: "take_tokens V ?capacity 1 l1 = (tokens, l2)" by fastforce
    have b: "claim_batch Q w V tokens tokens ?permits (st\<lparr>cs_limiter := Some l2\<rparr>) = (x, st')"
      using assms(5) acquire_batch_granted [OF wait(1,2) assms(3) wait(3) refl refl] a tk by simp
    have cap: "1 \<le> ?capacity" using wait(2) by (auto split: option.split)
    from claim_batch_ops [OF _ _ b] assms(2)
    have "acquired_count x \<le> tokens"
      "cs_limiter st' = Some (snd (run_ops (map (\<lambda>k. (wv_refund_at V k, OpRefund)) [acquired_count x..<tokens]) l2))"
      by simp_all
    with granted_ops [OF assms(1,4) a tk cap] show ?thesis by metis
  qed
qed

lemma acquire_job_paid:
  assumes "limiter_ok r l" and "cs_limiter st = Some l" and "readings_ok V l t u"
    and "acquire_job Q w V st = Some (x, st')"
  shows "\<exists>ops. cs_limiter st' = Some (snd (run_ops ops l)) \<and>
    net ops l (case x of Inr (Work j) \<Rightarrow> 1 | _ \<Rightarrow> 0) \<and> sorted (t # map fst ops @ [u])"
proof -
  let ?n = "(case x of Inr (Work j) \<Rightarrow> 1 | _ \<Rightarrow> 0) :: nat"
  have none: "\<exists>ops. Some l = Some (snd (run_ops ops l)) \<and> net ops l 0 \<and> sorted (t # map fst ops @ [u])"
    using assms(3) by (intro exI [of _ "[]"]) (simp add: net_def readings_ok_def)
  show ?thesis
  proof (cases "acquire (wv_fuel V) (wv_late V) (wv_acquire_at V) l")
    case None
    with assms(2,4) none show ?thesis by (auto simp: acquire_job_def split: if_splits)
  next
    case (Some y)
    have "\<not> lim_poisoned l" using assms(1) by (simp add: limiter_ok_def)
    then obtain g l1 where y: "acquire (wv_fuel V) (wv_late V) (wv_acquire_at V) l = Some (Inr g, l1)"
      using Some acquire_Inl [of "wv_fuel V" "wv_late V" "wv_acquire_at V" l] by (cases y; cases "fst y") auto
    have "take_tokens V 1 1 l1 = (1, l1)" by (subst take_tokens.simps) simp
    from granted_ops [OF assms(1,3) y this, of ?n] have g:
      "\<exists>ops. snd (run_ops (map (\<lambda>k. (wv_refund_at V k, OpRefund)) [?n..<1]) l1) = snd (run_ops ops l) \<and>
         net ops l ?n \<and> sorted (t # map fst ops @ [u])"
      by (auto split: sum.split acquired.split)
    show ?thesis
    proof (cases "wv_stop_limiter V")
      case True
      with assms(2,4) none show ?thesis by (auto simp: acquire_job_def)
    next
      case False
      then have "claim_with_token Q w V (st\<lparr>cs_limiter := Some l1\<rparr>) = (x, st')"
        using assms(2,4) y by (simp add: acquire_job_def)
      then have "cs_limiter st' = Some (snd (run_ops (map (\<lambda>k. (wv_refund_at V k, OpRefund)) [?n..<1]) l1))"
        by (auto simp: claim_with_token_def Let_def refund_if_def idle_wait_def
            split: prod.splits sum.splits option.splits if_splits)
      with g show ?thesis by auto
    qed
  qed
qed

lemma worker_acquire_paid:
  assumes "limiter_ok r l" and "inv (cs_queue st)" and "cs_limiter st = Some l" and "readings_ok V l t u"
    and "worker_acquire Q w V st = Some (x, st')"
  shows "\<exists>ops. cs_limiter st' = Some (snd (run_ops ops l)) \<and> net ops l (acquired_count x) \<and>
    sorted (t # map fst ops @ [u])"
proof (cases "wk_batch_processing_enabled w")
  case True
  with assms acquire_batch_paid show ?thesis by (simp add: worker_acquire_def)
next
  case False
  then obtain y where y: "acquire_job Q w V st = Some (y, st')"
    "x = map_sum (\<lambda>e. e) (\<lambda>a. case a of Work j \<Rightarrow> Work [j] | Idle \<Rightarrow> Idle | Shutdown \<Rightarrow> Shutdown) y"
    using assms(5) by (auto simp: worker_acquire_def)
  then have "acquired_count x = (case y of Inr (Work j) \<Rightarrow> 1 | _ \<Rightarrow> 0)"
    by (auto simp: acquired_count_def split: sum.split acquired.split)
  with acquire_job_paid [OF assms(1,3,4) y(1)] show ?thesis by simp
qed

lemma session_paid:
  assumes "limiter_ok r l" and "inv (cs_queue st)" and "cs_limiter st = Some l"
    and "\<forall>(V, m, others) \<in> set acts. \<forall>s. inv s \<longrightarrow> inv (others s)"
    and "session_ok Q w acts t u st" and "claim_session Q w acts st = Some (n, st')"
  shows "\<exists>ops. cs_limiter st' = Some (snd (run_ops ops l)) \<and> net ops l n \<and> sorted (t # map fst ops @ [u])"
  using assms
proof (induction acts arbitrary: st l t n)
  case Nil
  then show ?case by (intro exI [of _ "[]"]) (simp add: net_def)
next
  case (Cons act rest)
  obtain V m others where act: "act = (V, m, others)" by (cases act)
  let ?st = "st\<lparr>cs_queue := others (cs_queue st)\<rparr>"
  obtain x st1 where a: "worker_acquire Q w V ?st = Some (x, st1)"
    using Cons.prems(6) by (auto simp: act split: option.splits)
  then obtain k where k: "claim_session Q w rest st1 = Some (k, st')" "n = acquired_count x + k"
    using Cons.prems(6) by (auto simp: act split: option.splits)
  have i: "inv (cs_queue ?st)" using Cons.prems(2,4) by (simp add: act)
  have rd: "readings_ok V l t m" "session_ok Q w rest m u st1"
    using Cons.prems(3,5) a by (simp_all add: act)
  obtain xs where xs: "cs_limiter st1 = Some (snd (run_ops xs l))" "net xs l (acquired_count x)"
    "sorted (t # map fst xs @ [m])"
    using worker_acquire_paid [OF Cons.prems(1) i _ rd(1) a] Cons.prems(3) by auto
  obtain ys where ys: "cs_limiter st' = Some (snd (run_ops ys (snd (run_ops xs l))))"
    "net ys (snd (run_ops xs l)) k" "sorted (m # map fst ys @ [u])"
    using Cons.IH [OF limiter_ok_run [OF Cons.prems(1)] worker_acquire_keeps [OF i a] xs(1) _ rd(2) k(1)] Cons.prems(4)
    by auto
  have "cs_limiter st' = Some (snd (run_ops (xs @ ys) l))"
    using ys(1) by (simp add: run_ops_append Let_def split: prod.split)
  moreover have "net (xs @ ys) l n" using xs(2) ys(2) k(2) by (simp add: net_def admitted_append)
  moreover have "sorted (t # map fst (xs @ ys) @ [u])"
    using sorted_join [OF xs(3) ys(3)] by simp
  ultimately show ?case by blast
qed

end

interpretation tc: claim_queue "test_ops E" index_ok for E
proof
  fix s s' :: storage and q opts js
  assume "index_ok s" and "qo_dequeue (test_ops E) q opts s = (Inr js, s')"
  with dequeue_contract [of s E q opts] show "length js \<le> d_max_jobs opts" by (auto simp: test_ops_def)
next
  fix s :: storage and q opts
  assume "index_ok s"
  then show "index_ok (snd (qo_dequeue (test_ops E) q opts s))" using idx.keep_dequeue by (simp add: test_ops_def)
qed


definition sample_waits :: waits where
  "sample_waits =
     \<lparr>wv_fuel = 1, wv_late = (\<lambda>_. 0), wv_acquire_at = 0, wv_try_at = (\<lambda>_. 0), wv_refund_at = (\<lambda>_. 0),
      wv_stop_permit = False, wv_stop_limiter = False, wv_stop_idle = False\<rparr>"


end
