(* ===== verification/BatchRun.thy ===== *)
theory BatchRun
  imports WorkerLoop "HOL-Library.Multiset"
begin

text \<open>
  Batch mode of a worker: \<open>run_batch_until_done\<close> of \<open>src/src/worker.rs\<close> and what it calls. The
  claimed jobs wait for their turn, their leases renewed meanwhile; up to the configured number
  run at once; on a pause or a shutdown the ones that have not started are handed back. The
  sections between two waits are functions, and the loop is a step relation over them: at every
  wait a run may finish, the leases may be renewed, shutdown may be requested, and others may
  change the queue. What processing a job does to the queue is left open here.
\<close>

subsection \<open>Held jobs\<close>

record held_jobs =
  hj_waiting :: "job list"
  hj_lost :: "job_id set"
  hj_renewed :: "job_id \<rightharpoonup> time"

datatype held_start = HsLost | HsRun | HsRenewThenRun

definition start_held :: "time \<Rightarrow> duration \<Rightarrow> job_id \<Rightarrow> held_jobs \<Rightarrow> held_start \<times> held_jobs" where
  "start_held now renew_after i h =
     (let h' = h\<lparr>hj_waiting := filter (\<lambda>r. j_id r \<noteq> i) (hj_waiting h),
                 hj_renewed := (hj_renewed h)(i := None)\<rparr> in
      if i \<in> hj_lost h then (HsLost, h')
      else if is_some_and (hj_renewed h i) (\<lambda>renewed_at. now - renewed_at < int renew_after) then (HsRun, h')
      else (HsRenewThenRun, h'))"

text \<open>
  The body of the loop over the waiting runs at one heartbeat, which \<open>maintain_held_leases\<close> runs
  for each of the runs that waited when the heartbeat was due.
\<close>

definition renew_waiting ::
  "'s queue_ops \<Rightarrow> worker \<Rightarrow> time \<Rightarrow> job \<Rightarrow> 's \<times> held_jobs \<Rightarrow> 's \<times> held_jobs" where
  "renew_waiting Q w now r p =
     (case p of (s, h) \<Rightarrow>
        (case qo_heartbeat_job Q r (wk_lease_duration w) s of
           (Inr True, s') \<Rightarrow>
             (s', if \<exists>x \<in> set (hj_waiting h). j_id x = j_id r
                  then h\<lparr>hj_renewed := (hj_renewed h)(j_id r \<mapsto> now)\<rparr> else h)
         | (Inr False, s') \<Rightarrow>
             (s', h\<lparr>hj_waiting := filter (\<lambda>x. j_id x \<noteq> j_id r) (hj_waiting h),
                    hj_lost := insert (j_id r) (hj_lost h)\<rparr>)
         | (Inl e, s') \<Rightarrow> (s', h)))"

subsection \<open>Handing back\<close>

definition BATCH_FAILED_BEFORE_START_MESSAGE :: string where
  "BATCH_FAILED_BEFORE_START_MESSAGE = ''Batch failed (fail-fast mode) before this claimed job started''"

text \<open>The queue with the number of rate limit tokens refunded so far.\<close>

definition fail_held_job ::
  "'s queue_ops \<Rightarrow> worker \<Rightarrow> job \<Rightarrow> 's \<times> nat \<Rightarrow> unit res \<times> 's \<times> nat" where
  "fail_held_job Q w j p =
     (case p of (s, refunded) \<Rightarrow>
        (case qo_heartbeat_job Q j (wk_lease_duration w) s of
           (Inr False, s1) \<Rightarrow> (Inr (), s1, refunded + 1)
         | (_, s1) \<Rightarrow>
             (case qo_fail_job Q (j_id j) BATCH_FAILED_BEFORE_START_MESSAGE s1 of
                (Inr _, s2) \<Rightarrow> (Inr (), s2, refunded + 1)
              | (Inl (InvalidJobTransition i a b), s2) \<Rightarrow> (Inr (), s2, refunded + 1)
              | (Inl (JobNotFound i), s2) \<Rightarrow> (Inr (), s2, refunded + 1)
              | (Inl e, s2) \<Rightarrow> (Inl e, s2, refunded))))"

definition release_one :: "'s queue_ops \<Rightarrow> job \<Rightarrow> 's \<times> nat \<Rightarrow> 's \<times> nat" where
  "release_one Q j p =
     (case p of (s, refunded) \<Rightarrow>
        (case qo_release_job_run Q j s of
           (Inr True, s') \<Rightarrow> (s', refunded + 1)
         | (_, s') \<Rightarrow> (s', refunded)))"

definition release_unstarted :: "'s queue_ops \<Rightarrow> job list \<Rightarrow> 's \<times> nat \<Rightarrow> 's \<times> nat" where
  "release_unstarted Q jobs p = fold (release_one Q) jobs p"

definition batch_failed :: "batch_id set \<Rightarrow> job \<Rightarrow> bool" where
  "batch_failed failed j \<longleftrightarrow> is_some_and (j_batch_id j) (\<lambda>b. b \<in> failed)"

definition hand_back_unstarted ::
  "'s queue_ops \<Rightarrow> worker \<Rightarrow> batch_id set \<Rightarrow> job list \<Rightarrow> 's \<times> nat \<Rightarrow> 's \<times> nat" where
  "hand_back_unstarted Q w failed jobs p =
     (let p1 = fold (\<lambda>j p. snd (fail_held_job Q w j p)) (filter (batch_failed failed) jobs) p in
      release_unstarted Q (filter (\<lambda>j. \<not> batch_failed failed j) jobs) p1)"

definition find_failed_batches ::
  "'s queue_ops \<Rightarrow> job list \<Rightarrow> 's \<Rightarrow> batch_id set \<Rightarrow> batch_id set" where
  "find_failed_batches Q queued s failed =
     (let ids = remdups (sort (filter (\<lambda>b. b \<notin> failed) (List.map_filter j_batch_id queued))) in
      fold (\<lambda>b acc. case qo_get_batch_status Q b s of
              Inr r \<Rightarrow> if r_status r = BatchFailed then insert b acc else acc
            | Inl e \<Rightarrow> acc) ids failed)"

subsection \<open>The loop\<close>

text \<open>A started run, with what its future does first.\<close>

record held_run =
  hr_job :: job
  hr_batch_failed :: bool
  hr_record_start :: bool

text \<open>
  What became of a job that left the waiting queue: it was skipped or handed back, or its run
  ended in one of the last four ways.
\<close>

datatype fate = LeaseLost | HandedBack | StartRefused | BatchFailedFirst | Processed | Cancelled

text \<open>
  Where the loop is: at its top, past the check of the held jobs, at its wait, draining the
  running jobs after a shutdown request, or returned.
\<close>

datatype batch_phase = AtTop | Checked | Waiting | Draining | Ended

record 's batch_run =
  br_phase :: batch_phase
  br_queue :: 's
  br_held :: held_jobs
  br_renewing :: "job list"
  br_queued :: "job list"
  br_running :: "held_run list"
  br_failed_batches :: "batch_id set"
  br_initial_fill :: bool
  br_first_error :: "hammerwork_error option"
  br_refunded :: nat
  br_fates :: "(job \<times> fate) list"

definition batch_run_new :: "time \<Rightarrow> job list \<Rightarrow> 's \<Rightarrow> 's batch_run" where
  "batch_run_new now jobs s =
     \<lparr>br_phase = AtTop, br_queue = s,
      br_held = \<lparr>hj_waiting = jobs, hj_lost = {}, hj_renewed = map_of (map (\<lambda>j. (j_id j, now)) jobs)\<rparr>,
      br_renewing = [], br_queued = jobs, br_running = [], br_failed_batches = {},
      br_initial_fill = True, br_first_error = None, br_refunded = 0, br_fates = []\<rparr>"

definition run_concurrency :: "worker \<Rightarrow> nat" where
  "run_concurrency w = max (wk_batch_concurrency w) 1"

text \<open>The check before starting held jobs, made at most once per poll interval.\<close>

definition check_held :: "'s queue_ops \<Rightarrow> worker \<Rightarrow> 's batch_run \<Rightarrow> 's batch_run" where
  "check_held Q w b =
     (let failed = find_failed_batches Q (br_queued b) (br_queue b) (br_failed_batches b);
          b1 = b\<lparr>br_phase := Checked, br_failed_batches := failed\<rparr> in
      if queue_is_paused Q w (br_queue b) then
        (case hand_back_unstarted Q w failed (br_queued b) (br_queue b, br_refunded b) of
           (s, refunded) \<Rightarrow>
             b1\<lparr>br_queued := [], br_queue := s, br_refunded := refunded,
                br_held := (br_held b)\<lparr>hj_waiting := [], hj_renewed := Map.empty\<rparr>,
                br_fates := br_fates b @ map (\<lambda>j. (j, HandedBack)) (br_queued b)\<rparr>)
      else b1)"

text \<open>The loop that fills the free places; \<open>clock\<close> reads the time at each start.\<close>

fun fill_places :: "worker \<Rightarrow> (nat \<Rightarrow> time) \<Rightarrow> job list \<Rightarrow> 's batch_run \<Rightarrow> 's batch_run" where
  "fill_places w clock [] b = b\<lparr>br_queued := []\<rparr>"
| "fill_places w clock (j # js) b =
     (if length (br_running b) < run_concurrency w then
        (case start_held (clock (length js)) (held_renewal_interval w) (j_id j) (br_held b) of
           (HsLost, h) \<Rightarrow>
             fill_places w clock js
               (b\<lparr>br_held := h, br_refunded := br_refunded b + 1, br_fates := br_fates b @ [(j, LeaseLost)]\<rparr>)
         | (start, h) \<Rightarrow>
             fill_places w clock js
               (b\<lparr>br_held := h,
                  br_running := br_running b @
                    [\<lparr>hr_job = j, hr_batch_failed = batch_failed (br_failed_batches b) j,
                      hr_record_start = (\<not> br_initial_fill b \<or> start = HsRenewThenRun)\<rparr>]\<rparr>))
      else b\<lparr>br_queued := j # js\<rparr>)"

definition fill :: "worker \<Rightarrow> (nat \<Rightarrow> time) \<Rightarrow> 's batch_run \<Rightarrow> 's batch_run" where
  "fill w clock b = (fill_places w clock (br_queued b) b)\<lparr>br_initial_fill := False, br_phase := Waiting\<rparr>"

text \<open>\<open>Vec::swap_remove\<close>, with which \<open>next_finished\<close> takes a finished run off the list.\<close>

definition swap_remove :: "nat \<Rightarrow> 'a list \<Rightarrow> 'a list" where
  "swap_remove i xs = (if i = length xs - 1 then butlast xs else (butlast xs)[i := List.last xs])"

text \<open>
  How a started run ends, with the result its future returns: its batch failed first, its start
  was refused, or it was processed (the change of the queue is left open). A run never starts its
  handler in the first two cases.
\<close>

inductive run_ends ::
  "'s queue_ops \<Rightarrow> worker \<Rightarrow> held_run \<Rightarrow> 's \<times> nat \<Rightarrow> unit res \<Rightarrow> 's \<times> nat \<Rightarrow> fate \<Rightarrow> bool" for Q w where
  failed_first: "hr_batch_failed r \<Longrightarrow> fail_held_job Q w (hr_job r) (s, n) = (x, s', n') \<Longrightarrow>
    run_ends Q w r (s, n) x (s', n') BatchFailedFirst"
| refused: "\<not> hr_batch_failed r \<Longrightarrow> hr_record_start r \<Longrightarrow>
    qo_start_claimed_run Q (hr_job r) (wk_lease_duration w) s = (Inr (False, j'), s') \<Longrightarrow>
    run_ends Q w r (s, n) (Inr ()) (s', n + 1) StartRefused"
| started: "\<not> hr_batch_failed r \<Longrightarrow> hr_record_start r \<Longrightarrow>
    qo_start_claimed_run Q (hr_job r) (wk_lease_duration w) s = (start, s1) \<Longrightarrow>
    (\<forall>j'. start \<noteq> Inr (False, j')) \<Longrightarrow> run_ends Q w r (s, n) x (s', n) Processed"
| straight: "\<not> hr_batch_failed r \<Longrightarrow> \<not> hr_record_start r \<Longrightarrow> run_ends Q w r (s, n) x (s', n) Processed"

definition get_or_insert_error :: "unit res \<Rightarrow> hammerwork_error option \<Rightarrow> hammerwork_error option" where
  "get_or_insert_error outcome first =
     (case (outcome, first) of (Inl e, None) \<Rightarrow> Some e | _ \<Rightarrow> first)"

definition run_finished ::
  "nat \<Rightarrow> unit res \<Rightarrow> 's \<times> nat \<Rightarrow> fate \<Rightarrow> 's batch_run \<Rightarrow> 's batch_run" where
  "run_finished i outcome p f b =
     b\<lparr>br_running := swap_remove i (br_running b), br_queue := fst p, br_refunded := snd p,
       br_first_error := get_or_insert_error outcome (br_first_error b),
       br_fates := br_fates b @ [(hr_job (br_running b ! i), f)]\<rparr>"

inductive batch_step :: "'s queue_ops \<Rightarrow> worker \<Rightarrow> 's batch_run \<Rightarrow> 's batch_run \<Rightarrow> bool" for Q w where
  check: "br_phase b = AtTop \<Longrightarrow> br_queued b \<noteq> [] \<Longrightarrow> length (br_running b) < run_concurrency w \<Longrightarrow>
    batch_step Q w b (check_held Q w b)"
| start: "br_phase b \<in> {AtTop, Checked} \<Longrightarrow> batch_step Q w b (fill w clock b)"
| finish: "br_phase b = Waiting \<Longrightarrow> i < length (br_running b) \<Longrightarrow>
    run_ends Q w (br_running b ! i) (br_queue b, br_refunded b) x p f \<Longrightarrow>
    batch_step Q w b ((run_finished i x p f b)\<lparr>br_phase := AtTop\<rparr>)"
| beat: "br_phase b = Waiting \<Longrightarrow> wk_lease_duration w \<noteq> 0 \<Longrightarrow> br_renewing b = [] \<Longrightarrow>
    batch_step Q w b (b\<lparr>br_renewing := hj_waiting (br_held b)\<rparr>)"
| renew: "br_phase b = Waiting \<Longrightarrow> br_renewing b = r # rs \<Longrightarrow>
    renew_waiting Q w now r (br_queue b, br_held b) = (s', h') \<Longrightarrow>
    batch_step Q w b (b\<lparr>br_renewing := rs, br_queue := s', br_held := h'\<rparr>)"
| all_done: "br_phase b = Waiting \<Longrightarrow> br_running b = [] \<Longrightarrow> batch_step Q w b (b\<lparr>br_phase := Ended\<rparr>)"
| shutdown: "br_phase b = Waiting \<Longrightarrow>
    hand_back_unstarted Q w (br_failed_batches b) (br_queued b) (br_queue b, br_refunded b) = (s', n') \<Longrightarrow>
    batch_step Q w b (b\<lparr>br_phase := Draining, br_queued := [], br_queue := s', br_refunded := n',
      br_fates := br_fates b @ map (\<lambda>j. (j, HandedBack)) (br_queued b)\<rparr>)"
| drained_one: "br_phase b = Draining \<Longrightarrow> i < length (br_running b) \<Longrightarrow>
    run_ends Q w (br_running b ! i) (br_queue b, br_refunded b) x p f \<Longrightarrow>
    batch_step Q w b (run_finished i x p f b)"
| drained: "br_phase b = Draining \<Longrightarrow>
    batch_step Q w b (b\<lparr>br_phase := Ended, br_running := [],
      br_fates := br_fates b @ map (\<lambda>r. (hr_job r, Cancelled)) (br_running b)\<rparr>)"
| others: "batch_step Q w b (b\<lparr>br_queue := s'\<rparr>)"

inductive_cases batch_stepE: "batch_step Q w b b'"
inductive_cases run_endsE: "run_ends Q w r p x p' f"

subsection \<open>Every claimed job is accounted for\<close>

text \<open>The fates of jobs whose handler did not run, and those for which a token is always refunded.\<close>

definition not_run :: "fate \<Rightarrow> bool" where
  "not_run f \<longleftrightarrow> f \<noteq> Processed \<and> f \<noteq> Cancelled"

definition found_lost :: "fate \<Rightarrow> bool" where
  "found_lost f \<longleftrightarrow> f = LeaseLost \<or> f = StartRefused"

definition fates_of :: "(fate \<Rightarrow> bool) \<Rightarrow> 's batch_run \<Rightarrow> nat" where
  "fates_of P b = length (filter (\<lambda>x. P (snd x)) (br_fates b))"

definition batch_jobs :: "'s batch_run \<Rightarrow> job multiset" where
  "batch_jobs b = mset (br_queued b) + mset (map hr_job (br_running b)) + mset (map fst (br_fates b))"

definition held_or_lost :: "job list \<Rightarrow> held_jobs \<Rightarrow> bool" where
  "held_or_lost js h \<longleftrightarrow> list_all (\<lambda>j. j \<in> set (hj_waiting h) \<or> j_id j \<in> hj_lost h) js"

definition phase_ok :: "'s batch_run \<Rightarrow> bool" where
  "phase_ok b \<longleftrightarrow>
     (case br_phase b of
        Waiting \<Rightarrow> held_or_lost (br_queued b) (br_held b) \<and> (br_running b = [] \<longrightarrow> br_queued b = [])
      | Draining \<Rightarrow> br_queued b = []
      | Ended \<Rightarrow> br_queued b = [] \<and> br_running b = []
      | _ \<Rightarrow> held_or_lost (br_queued b) (br_held b))"

definition refunds_ok :: "'s batch_run \<Rightarrow> bool" where
  "refunds_ok b \<longleftrightarrow> fates_of found_lost b \<le> br_refunded b \<and> br_refunded b \<le> fates_of not_run b"

definition batch_inv :: "worker \<Rightarrow> job list \<Rightarrow> 's batch_run \<Rightarrow> bool" where
  "batch_inv w jobs b \<longleftrightarrow> batch_jobs b = mset jobs \<and> length (br_running b) \<le> run_concurrency w
     \<and> phase_ok b \<and> refunds_ok b"

lemma mset_swap_remove: "i < length xs \<Longrightarrow> add_mset (xs ! i) (mset (swap_remove i xs)) = mset xs"
proof (induction xs rule: rev_induct)
  case (snoc x xs)
  then show ?case
    by (auto simp: swap_remove_def nth_append mset_update less_Suc_eq)
qed simp

lemma length_swap_remove: "length (swap_remove i xs) = length xs - 1"
  by (simp add: swap_remove_def)

lemma mset_map_swap_remove:
  "i < length xs \<Longrightarrow> add_mset (f (xs ! i)) (image_mset f (mset (swap_remove i xs))) = image_mset f (mset xs)"
  by (metis image_mset_add_mset mset_swap_remove)

lemma fail_held_job_refunds: "refunded \<le> snd (snd (fail_held_job Q w j (s, refunded)))
  \<and> snd (snd (fail_held_job Q w j (s, refunded))) \<le> refunded + 1"
  by (auto simp: fail_held_job_def split: prod.splits sum.splits bool.splits hammerwork_error.splits)

lemma release_one_refunds: "refunded \<le> snd (release_one Q j (s, refunded))
  \<and> snd (release_one Q j (s, refunded)) \<le> refunded + 1"
  by (auto simp: release_one_def split: prod.splits sum.splits bool.splits)

lemma fold_refunds:
  assumes "\<And>j s n. n \<le> snd (g j (s, n)) \<and> snd (g j (s, n)) \<le> n + 1"
  shows "n \<le> snd (fold g js (s, n)) \<and> snd (fold g js (s, n)) \<le> n + length js"
proof (induction js arbitrary: s n)
  case (Cons j js)
  obtain s1 n1 where g: "g j (s, n) = (s1, n1)" by (cases "g j (s, n)")
  then show ?case using Cons [of n1 s1] assms [of n j s] by simp
qed simp

lemma hand_back_refunds:
  assumes "hand_back_unstarted Q w failed js (s, n) = (s', n')"
  shows "n \<le> n' \<and> n' \<le> n + length js"
proof -
  let ?p1 = "fold (\<lambda>j p. snd (fail_held_job Q w j p)) (filter (batch_failed failed) js) (s, n)"
  obtain s1 n1 where p1: "?p1 = (s1, n1)" by (cases ?p1)
  have "n \<le> n1 \<and> n1 \<le> n + length (filter (batch_failed failed) js)"
    using fold_refunds [of "\<lambda>j p. snd (fail_held_job Q w j p)" n "filter (batch_failed failed) js" s,
      OF fail_held_job_refunds] p1 by simp
  moreover have "n1 \<le> n' \<and> n' \<le> n1 + length (filter (\<lambda>j. \<not> batch_failed failed j) js)"
    using fold_refunds [of "release_one Q" n1 "filter (\<lambda>j. \<not> batch_failed failed j) js" s1,
      OF release_one_refunds] assms p1
    by (simp add: hand_back_unstarted_def release_unstarted_def)
  moreover have "length (filter (batch_failed failed) js) + length (filter (\<lambda>j. \<not> batch_failed failed j) js) = length js"
    by (rule sum_length_filter_compl)
  ultimately show ?thesis by linarith
qed

lemma start_held_cases:
  "start_held now t i h = (st, h') \<Longrightarrow>
     hj_waiting h' = filter (\<lambda>r. j_id r \<noteq> i) (hj_waiting h) \<and> hj_lost h' = hj_lost h \<and> (st = HsLost \<longleftrightarrow> i \<in> hj_lost h)"
  by (auto simp: start_held_def Let_def split: if_splits)

lemma held_or_lost_start:
  assumes "held_or_lost (j # js) h" "distinct (map j_id (j # js))" "start_held now t (j_id j) h = (st, h')"
  shows "held_or_lost js h'"
  unfolding held_or_lost_def list_all_iff
proof
  fix k assume k: "k \<in> set js"
  then have "j_id k \<noteq> j_id j" using assms(2) by (metis distinct.simps(2) image_eqI list.simps(9) set_map)
  then show "k \<in> set (hj_waiting h') \<or> j_id k \<in> hj_lost h'"
    using k assms(1) start_held_cases [OF assms(3)] by (simp add: held_or_lost_def list_all_iff)
qed

text \<open>Filling the free places keeps the account; it leaves jobs waiting only when every place is taken.\<close>

lemma fill_places_keeps:
  assumes "distinct (map j_id js)" "held_or_lost js (br_held b)" "length (br_running b) \<le> run_concurrency w"
    "refunds_ok b" "b' = fill_places w clock js b"
  shows "batch_jobs b' = mset js + mset (map hr_job (br_running b)) + mset (map fst (br_fates b))
    \<and> held_or_lost (br_queued b') (br_held b') \<and> length (br_running b') \<le> run_concurrency w \<and> refunds_ok b'
    \<and> (br_queued b' \<noteq> [] \<longrightarrow> length (br_running b') = run_concurrency w)"
  using assms
proof (induction js arbitrary: b)
  case Nil
  then show ?case by (auto simp: batch_jobs_def held_or_lost_def refunds_ok_def fates_of_def)
next
  case (Cons j js)
  obtain st h where sh: "start_held (clock (length js)) (held_renewal_interval w) (j_id j) (br_held b) = (st, h)"
    by (cases "start_held (clock (length js)) (held_renewal_interval w) (j_id j) (br_held b)")
  note h = held_or_lost_start [OF Cons.prems(2,1) sh]
  show ?case
  proof (cases "length (br_running b) < run_concurrency w")
    case False
    then show ?thesis using Cons.prems by (auto simp: batch_jobs_def refunds_ok_def fates_of_def)
  next
    case True
    let ?lost = "b\<lparr>br_held := h, br_refunded := br_refunded b + 1, br_fates := br_fates b @ [(j, LeaseLost)]\<rparr>"
    let ?run = "b\<lparr>br_held := h, br_running := br_running b @
                    [\<lparr>hr_job = j, hr_batch_failed = batch_failed (br_failed_batches b) j,
                      hr_record_start = (\<not> br_initial_fill b \<or> st = HsRenewThenRun)\<rparr>]\<rparr>"
    have next_b: "b' = fill_places w clock js (if st = HsLost then ?lost else ?run)"
      using Cons.prems(5) True sh by (cases st) simp_all
    have "refunds_ok ?lost" "refunds_ok ?run"
      using Cons.prems(4) by (simp_all add: refunds_ok_def fates_of_def found_lost_def not_run_def)
    then show ?thesis
      using Cons.IH [of ?lost] Cons.IH [of ?run] Cons.prems(1,3) True h next_b by (cases "st = HsLost") simp_all
  qed
qed

lemma mset_distinct_ids:
  "mset js + M = mset jobs \<Longrightarrow> distinct (map j_id jobs) \<Longrightarrow> distinct (map j_id js)"
proof -
  assume a: "mset js + M = mset jobs" and d: "distinct (map j_id jobs)"
  obtain ks where "M = mset ks" using ex_mset [of M] by auto
  then have "mset (map j_id (js @ ks)) = mset (map j_id jobs)" using a by (metis mset_append mset_map)
  then have "distinct (map j_id (js @ ks))" using d mset_eq_imp_distinct_iff by blast
  then show ?thesis by simp
qed

lemma batch_inv_new: "batch_inv w jobs (batch_run_new now jobs s)"
  by (simp add: batch_inv_def batch_run_new_def batch_jobs_def phase_ok_def refunds_ok_def fates_of_def
      held_or_lost_def list_all_iff)

lemma batch_inv_fill:
  assumes "batch_inv w jobs b" "distinct (map j_id jobs)" "br_phase b \<in> {AtTop, Checked}"
  shows "batch_inv w jobs (fill w clock b)"
proof -
  let ?b' = "fill_places w clock (br_queued b) b"
  have d: "distinct (map j_id (br_queued b))"
    using assms(1,2) by (auto simp: batch_inv_def batch_jobs_def ac_simps intro: mset_distinct_ids)
  have "held_or_lost (br_queued b) (br_held b)" using assms(1,3) by (auto simp: batch_inv_def phase_ok_def)
  note k = fill_places_keeps [OF d this _ _ refl, of w clock]
  have "0 < run_concurrency w" by (simp add: run_concurrency_def)
  then show ?thesis using k assms(1)
    by (auto simp: batch_inv_def fill_def batch_jobs_def phase_ok_def refunds_ok_def fates_of_def)
qed

lemma batch_inv_hand_back:
  assumes "batch_inv w jobs b" "hand_back_unstarted Q w failed (br_queued b) (br_queue b, br_refunded b) = (s', n')"
    "b' = b\<lparr>br_phase := ph, br_failed_batches := failed', br_queued := [], br_queue := s', br_refunded := n',
            br_held := h, br_fates := br_fates b @ map (\<lambda>j. (j, HandedBack)) (br_queued b)\<rparr>"
    "ph = Draining \<or> ph = Checked"
  shows "batch_inv w jobs b'"
  using assms(1,3,4) hand_back_refunds [OF assms(2)]
  by (auto simp: batch_inv_def batch_jobs_def phase_ok_def held_or_lost_def refunds_ok_def fates_of_def
      filter_map o_def found_lost_def not_run_def ac_simps)

lemma batch_inv_check: "batch_inv w jobs b \<Longrightarrow> br_phase b = AtTop \<Longrightarrow> batch_inv w jobs (check_held Q w b)"
proof -
  assume b: "batch_inv w jobs b" "br_phase b = AtTop"
  let ?failed = "find_failed_batches Q (br_queued b) (br_queue b) (br_failed_batches b)"
  obtain s' n' where hb: "hand_back_unstarted Q w ?failed (br_queued b) (br_queue b, br_refunded b) = (s', n')"
    by (cases "hand_back_unstarted Q w ?failed (br_queued b) (br_queue b, br_refunded b)")
  show ?thesis
  proof (cases "queue_is_paused Q w (br_queue b)")
    case True
    then show ?thesis
      using batch_inv_hand_back [OF b(1) hb refl, where ph = Checked and failed' = ?failed] hb by (simp add: check_held_def Let_def)
  next
    case False
    then show ?thesis
      using b by (simp add: check_held_def Let_def batch_inv_def batch_jobs_def phase_ok_def refunds_ok_def fates_of_def)
  qed
qed

lemma run_ends_refunds:
  assumes "run_ends Q w r (s, n) x (s', n') f"
  shows "n + (if found_lost f then 1 else 0) \<le> n' \<and> n' \<le> n + (if not_run f then 1 else 0)"
  using assms fail_held_job_refunds [of n Q w "hr_job r" s]
  by (auto elim!: run_endsE simp: found_lost_def not_run_def)

lemma batch_inv_finish:
  assumes "batch_inv w jobs b" "i < length (br_running b)"
    "run_ends Q w (br_running b ! i) (br_queue b, br_refunded b) x p f"
    "br_phase b = Waiting \<and> ph = AtTop \<or> br_phase b = Draining \<and> ph = Draining"
  shows "batch_inv w jobs ((run_finished i x p f b)\<lparr>br_phase := ph\<rparr>)"
proof -
  obtain s' n' where p: "p = (s', n')" by (cases p)
  note refunds = run_ends_refunds [OF assms(3) [unfolded p]]
  have "batch_jobs ((run_finished i x p f b)\<lparr>br_phase := ph\<rparr>) = batch_jobs b"
    using mset_map_swap_remove [OF assms(2), of hr_job] by (simp add: run_finished_def batch_jobs_def)
  moreover have "phase_ok ((run_finished i x p f b)\<lparr>br_phase := ph\<rparr>)"
    using assms(1,4) by (auto simp: batch_inv_def phase_ok_def run_finished_def)
  moreover have "refunds_ok ((run_finished i x p f b)\<lparr>br_phase := ph\<rparr>)"
    using assms(1) refunds p
    by (cases "found_lost f"; cases "not_run f") (simp_all add: batch_inv_def refunds_ok_def fates_of_def run_finished_def)
  moreover have "length (br_running ((run_finished i x p f b)\<lparr>br_phase := ph\<rparr>)) \<le> length (br_running b)"
    by (simp add: run_finished_def length_swap_remove)
  ultimately show ?thesis
    using assms(1) unfolding batch_inv_def by simp
qed

lemma held_or_lost_renew:
  assumes "held_or_lost js h" "renew_waiting Q w now r (s, h) = (s', h')"
  shows "held_or_lost js h'"
  using assms
  by (auto simp: renew_waiting_def held_or_lost_def list_all_iff split: prod.splits sum.splits bool.splits if_splits)

lemma batch_inv_renew:
  assumes "batch_inv w jobs b" "br_phase b = Waiting" "renew_waiting Q w now r (br_queue b, br_held b) = (s', h')"
  shows "batch_inv w jobs (b\<lparr>br_renewing := rs, br_queue := s', br_held := h'\<rparr>)"
  using assms held_or_lost_renew [OF _ assms(3)]
  by (auto simp: batch_inv_def batch_jobs_def phase_ok_def refunds_ok_def fates_of_def)

lemma batch_inv_drained:
  assumes "batch_inv w jobs b" "br_phase b = Draining"
  shows "batch_inv w jobs (b\<lparr>br_phase := Ended, br_running := [],
    br_fates := br_fates b @ map (\<lambda>r. (hr_job r, Cancelled)) (br_running b)\<rparr>)"
  using assms
  by (auto simp: batch_inv_def batch_jobs_def phase_ok_def refunds_ok_def fates_of_def filter_map o_def
      found_lost_def not_run_def ac_simps)

lemma batch_inv_step:
  assumes "batch_step Q w b b'" "batch_inv w jobs b" "distinct (map j_id jobs)"
  shows "batch_inv w jobs b'"
  using assms(1)
proof cases
  case check
  then show ?thesis using batch_inv_check assms(2) by blast
next
  case (start clock)
  then show ?thesis using batch_inv_fill assms(2,3) by blast
next
  case (finish i x p f)
  then show ?thesis using batch_inv_finish [OF assms(2)] by blast
next
  case (renew r rs now s' h')
  then show ?thesis using batch_inv_renew [OF assms(2)] by blast
next
  case (shutdown s' n')
  then show ?thesis
    using batch_inv_hand_back [OF assms(2) shutdown(3) refl, where ph = Draining
      and failed' = "br_failed_batches b" and h = "br_held b"]
    by simp
next
  case (drained_one i x p f)
  then have "b' = (run_finished i x p f b)\<lparr>br_phase := Draining\<rparr>" by (simp add: run_finished_def)
  then show ?thesis using batch_inv_finish [OF assms(2) drained_one(3,4)] drained_one(2) by blast
next
  case drained
  then show ?thesis using batch_inv_drained assms(2) by blast
qed (use assms(2) in \<open>auto simp: batch_inv_def batch_jobs_def phase_ok_def refunds_ok_def fates_of_def
       split: batch_phase.splits\<close>)

lemma batch_inv_reachable:
  assumes "(batch_step Q w)\<^sup>*\<^sup>* (batch_run_new now jobs s) b" "distinct (map j_id jobs)"
  shows "batch_inv w jobs b"
  using assms(1)
  by (induction rule: rtranclp_induct) (auto intro: batch_inv_new batch_inv_step [OF _ _ assms(2)])

text \<open>
  C13: In batch mode no claimed job is lost sight of. Whatever other clients do to the queue,
  whichever runs finish first and whenever the queue is paused or shutdown is requested: at every
  moment each claimed job is in exactly one place, waiting, running, or done with one recorded
  fate; at most the configured number run at once; until shutdown is requested, a waiting job is
  one whose lease the worker renews, or one found to have lost it, which will not be started; the
  loop returns only when every claimed job has its fate; and a rate limit token is refunded for
  each job found to have lost its lease and at most one for each job whose handler did not run,
  none for a job that ran.
\<close>
theorem batch_accounting:
  assumes "(batch_step Q w)\<^sup>*\<^sup>* (batch_run_new now jobs s) b" "distinct (map j_id jobs)"
  shows "mset (br_queued b) + mset (map hr_job (br_running b)) + mset (map fst (br_fates b)) = mset jobs
    \<and> length (br_running b) \<le> max (wk_batch_concurrency w) 1
    \<and> (br_phase b \<noteq> Draining \<longrightarrow>
         (\<forall>j \<in> set (br_queued b). j \<in> set (hj_waiting (br_held b)) \<or> j_id j \<in> hj_lost (br_held b)))
    \<and> (br_phase b = Ended \<longrightarrow> mset (map fst (br_fates b)) = mset jobs)
    \<and> length (filter (\<lambda>(j, f). f = LeaseLost \<or> f = StartRefused) (br_fates b)) \<le> br_refunded b
    \<and> br_refunded b \<le> length (filter (\<lambda>(j, f). f \<noteq> Processed \<and> f \<noteq> Cancelled) (br_fates b))"
proof -
  have i: "batch_inv w jobs b" by (rule batch_inv_reachable [OF assms])
  then have "length (filter (\<lambda>(j, f). f = LeaseLost \<or> f = StartRefused) (br_fates b)) \<le> br_refunded b
    \<and> br_refunded b \<le> length (filter (\<lambda>(j, f). f \<noteq> Processed \<and> f \<noteq> Cancelled) (br_fates b))"
    by (simp add: batch_inv_def refunds_ok_def fates_of_def found_lost_def not_run_def case_prod_unfold)
  moreover have "br_phase b \<noteq> Draining \<longrightarrow> held_or_lost (br_queued b) (br_held b)"
    using i by (auto simp: batch_inv_def phase_ok_def held_or_lost_def split: batch_phase.splits)
  moreover have "br_phase b = Ended \<longrightarrow> br_queued b = [] \<and> br_running b = []"
    using i by (auto simp: batch_inv_def phase_ok_def)
  ultimately show ?thesis
    using i by (auto simp: batch_inv_def batch_jobs_def run_concurrency_def held_or_lost_def list_all_iff)
qed

subsection \<open>The loop ends\<close>

lemma run_can_end: "\<exists>x p f. run_ends Q w r (s, n) x p f \<and> f \<noteq> Cancelled \<and> f \<noteq> HandedBack"
proof -
  obtain x s' n' where fh: "fail_held_job Q w (hr_job r) (s, n) = (x, s', n')"
    by (cases "fail_held_job Q w (hr_job r) (s, n)") auto
  obtain start s1 where st: "qo_start_claimed_run Q (hr_job r) (wk_lease_duration w) s = (start, s1)"
    by (cases "qo_start_claimed_run Q (hr_job r) (wk_lease_duration w) s")
  consider "hr_batch_failed r" | "\<not> hr_batch_failed r" "\<not> hr_record_start r"
    | j' where "\<not> hr_batch_failed r" "hr_record_start r" "start = Inr (False, j')"
    | "\<not> hr_batch_failed r" "hr_record_start r" "\<forall>j'. start \<noteq> Inr (False, j')"
    by blast
  then show ?thesis
  proof cases
    case 1
    then show ?thesis using run_ends.failed_first [OF _ fh] by blast
  next
    case 2
    then show ?thesis using run_ends.straight [OF 2, where Q = Q and s = s and s' = s] by blast
  next
    case 3
    then show ?thesis using run_ends.refused [OF 3(1,2) st [unfolded 3(3)], of n] by blast
  next
    case 4
    then show ?thesis using run_ends.started [OF 4(1,2) st] by blast
  qed
qed

text \<open>The jobs still to be run, and the fates that end a batch early.\<close>

definition batch_left :: "'s batch_run \<Rightarrow> nat" where
  "batch_left b = length (br_queued b) + length (br_running b)"

definition cut_short :: "'s batch_run \<Rightarrow> (job \<times> fate) list" where
  "cut_short b = filter (\<lambda>(j, f). f = Cancelled \<or> f = HandedBack) (br_fates b)"

lemma fill_places_left:
  "batch_left (fill_places w clock js b) \<le> length js + length (br_running b)
   \<and> cut_short (fill_places w clock js b) = cut_short b"
proof (induction w clock js b rule: fill_places.induct)
  case (2 w clock j js b)
  then show ?case
    by (cases "start_held (clock (length js)) (held_renewal_interval w) (j_id j) (br_held b)"; 
        cases "fst (start_held (clock (length js)) (held_renewal_interval w) (j_id j) (br_held b))")
      (fastforce simp: batch_left_def cut_short_def)+
qed (simp add: batch_left_def cut_short_def)

lemma fill_left: "batch_left (fill w clock b) \<le> batch_left b \<and> cut_short (fill w clock b) = cut_short b
  \<and> br_phase (fill w clock b) = Waiting"
  using fill_places_left [of w clock "br_queued b" b] by (simp add: fill_def batch_left_def cut_short_def)

lemma finished_left:
  "br_running b \<noteq> [] \<Longrightarrow> f \<noteq> Cancelled \<Longrightarrow> f \<noteq> HandedBack \<Longrightarrow>
   batch_left (run_finished i x p f b) < batch_left b \<and> cut_short (run_finished i x p f b) = cut_short b"
  by (cases "br_running b") (simp_all add: run_finished_def batch_left_def cut_short_def length_swap_remove)

lemma phase_left [simp]:
  "batch_left (b\<lparr>br_phase := ph\<rparr>) = batch_left b" "cut_short (b\<lparr>br_phase := ph\<rparr>) = cut_short b"
  by (simp_all add: batch_left_def cut_short_def)

lemma waiting_completes:
  assumes "br_phase b = Waiting"
  shows "\<exists>b'. (batch_step Q w)\<^sup>*\<^sup>* b b' \<and> br_phase b' = Ended \<and> cut_short b' = cut_short b"
  using assms
proof (induction "batch_left b" arbitrary: b rule: less_induct)
  case less
  show ?case
  proof (cases "br_running b")
    case Nil
    then have "batch_step Q w b (b\<lparr>br_phase := Ended\<rparr>)" using less.prems by (rule_tac batch_step.all_done)
    then show ?thesis by (intro exI [of _ "b\<lparr>br_phase := Ended\<rparr>"]) auto
  next
    case (Cons r rs)
    obtain x p f where e: "run_ends Q w (br_running b ! 0) (br_queue b, br_refunded b) x p f"
      "f \<noteq> Cancelled" "f \<noteq> HandedBack" using run_can_end [of Q w "br_running b ! 0" "br_queue b" "br_refunded b"] by blast
    let ?b1 = "(run_finished 0 x p f b)\<lparr>br_phase := AtTop\<rparr>"
    let ?b2 = "fill w (\<lambda>_. 0) ?b1"
    have s1: "batch_step Q w b ?b1" using batch_step.finish [OF less.prems _ e(1)] Cons by simp
    have s2: "batch_step Q w ?b1 ?b2" by (rule batch_step.start) simp
    have m1: "batch_left ?b1 < batch_left b" "cut_short ?b1 = cut_short b"
      using finished_left [OF _ e(2,3), of b 0 x p] Cons by simp_all
    have m2: "batch_left ?b2 < batch_left b" "cut_short ?b2 = cut_short b" "br_phase ?b2 = Waiting"
      using fill_left [of w "\<lambda>_. 0" ?b1] m1 by simp_all
    then obtain b' where "(batch_step Q w)\<^sup>*\<^sup>* ?b2 b'" "br_phase b' = Ended" "cut_short b' = cut_short b"
      using less.hyps [of ?b2] by auto
    then show ?thesis
      using s1 s2 by (meson converse_rtranclp_into_rtranclp)
  qed
qed

lemma draining_completes:
  assumes "br_phase b = Draining"
  shows "\<exists>b'. (batch_step Q w)\<^sup>*\<^sup>* b b' \<and> br_phase b' = Ended \<and> cut_short b' = cut_short b"
  using assms
proof (induction "batch_left b" arbitrary: b rule: less_induct)
  case less
  show ?case
  proof (cases "br_running b")
    case Nil
    then have "batch_step Q w b (b\<lparr>br_phase := Ended, br_running := []\<rparr>)"
      using batch_step.drained [OF less.prems] by simp
    then show ?thesis by (intro exI [of _ "b\<lparr>br_phase := Ended, br_running := []\<rparr>"]) (auto simp: cut_short_def)
  next
    case (Cons r rs)
    obtain x p f where e: "run_ends Q w (br_running b ! 0) (br_queue b, br_refunded b) x p f"
      "f \<noteq> Cancelled" "f \<noteq> HandedBack" using run_can_end [of Q w "br_running b ! 0" "br_queue b" "br_refunded b"] by blast
    let ?b1 = "run_finished 0 x p f b"
    have s1: "batch_step Q w b ?b1" using batch_step.drained_one [OF less.prems _ e(1)] Cons by simp
    have "batch_left ?b1 < batch_left b" "cut_short ?b1 = cut_short b" "br_phase ?b1 = Draining"
      using finished_left [OF _ e(2,3), of b 0 x p] Cons less.prems by (simp_all add: run_finished_def)
    then show ?thesis using less.hyps [of ?b1] s1 by (metis converse_rtranclp_into_rtranclp)
  qed
qed

lemma batch_completes:
  "\<exists>b'. (batch_step Q w)\<^sup>*\<^sup>* b b' \<and> br_phase b' = Ended \<and> cut_short b' = cut_short b"
proof (cases "br_phase b \<in> {AtTop, Checked}")
  case True
  then have "batch_step Q w b (fill w (\<lambda>_. 0) b)" by (rule batch_step.start)
  moreover obtain b' where "(batch_step Q w)\<^sup>*\<^sup>* (fill w (\<lambda>_. 0) b) b'" "br_phase b' = Ended" "cut_short b' = cut_short b"
    using waiting_completes [of "fill w (\<lambda>_. 0) b" Q w] fill_left [of w "\<lambda>_. 0" b] by auto
  ultimately show ?thesis by (meson converse_rtranclp_into_rtranclp)
next
  case False
  then consider "br_phase b = Waiting" | "br_phase b = Draining" | "br_phase b = Ended" by (cases "br_phase b") auto
  then show ?thesis
    using waiting_completes [of b Q w] draining_completes [of b Q w] by cases blast+
qed


lemma batch_accounting_witness:
  "\<exists>b. (batch_step (test_ops sample_externs) failing_worker)\<^sup>*\<^sup>*
         (batch_run_new 0 [sample_job, sample_high_job] sample_store) b
     \<and> br_phase b = Ended \<and> mset (map fst (br_fates b)) = {#sample_job, sample_high_job#}"
proof -
  have d: "distinct (map j_id [sample_job, sample_high_job])" by (simp add: sample_defs)
  obtain b where b: "(batch_step (test_ops sample_externs) failing_worker)\<^sup>*\<^sup>*
      (batch_run_new 0 [sample_job, sample_high_job] sample_store) b" "br_phase b = Ended"
    using batch_completes by blast
  then show ?thesis using batch_accounting [OF b(1) d] by (intro exI [of _ b]) (simp add: b)
qed

end
