(* ===== verification/Supervisor.thy ===== *)
theory Supervisor
  imports Worker Autoscale
begin

text \<open>
  The supervisor of a worker pool: \<open>WorkerPool::supervise\<close> of \<open>src/src/worker/pool.rs\<close> and what it
  calls. It keeps one slot per worker in four parallel vectors, restarts workers that stop
  unexpectedly, starts and retires workers of one queue as the autoscaler asks, and on shutdown
  tells every worker to stop and waits for all of them. Each branch of its \<open>select!\<close> is a function,
  and the loop is a step relation over them. The channel that tells a worker to stop is a number,
  and \<open>sv_signalled\<close> holds the channels a stop was sent on.
\<close>

subsection \<open>State\<close>

definition WORKER_RESTART_DELAY :: duration where
  "WORKER_RESTART_DELAY = seconds 1"

text \<open>A task of the join set: the slot it belongs to, its end of the stop channel, its start delay.\<close>

record worker_task =
  tk_index :: nat
  tk_channel :: nat
  tk_worker :: worker
  tk_delay :: "duration option"

record supervisor =
  sv_templates :: "worker list"
  sv_senders :: "nat list"
  sv_retired :: "bool list"
  sv_finished :: "bool list"
  sv_set :: "worker_task list"
  sv_next_channel :: nat
  sv_signalled :: "nat set"
  sv_template :: "worker option"
  sv_desired_rx :: bool
  sv_shutting_down :: bool
  sv_done :: bool

text \<open>How a worker task ends; the last is a task aborted from outside.\<close>

datatype worker_exit =
    WorkerStopped nat
  | WorkerFailed nat hammerwork_error
  | WorkerPanicked nat string
  | TaskAborted

subsection \<open>Operations\<close>

definition spawn_worker :: "nat \<Rightarrow> worker \<Rightarrow> duration option \<Rightarrow> supervisor \<Rightarrow> nat \<times> supervisor" where
  "spawn_worker i w delay s =
     (let tx = sv_next_channel s in
      (tx, s\<lparr>sv_next_channel := tx + 1,
             sv_set := sv_set s @ [\<lparr>tk_index = i, tk_channel = tx, tk_worker = w, tk_delay = delay\<rparr>]\<rparr>))"

definition try_send :: "nat \<Rightarrow> supervisor \<Rightarrow> supervisor" where
  "try_send tx s = s\<lparr>sv_signalled := insert tx (sv_signalled s)\<rparr>"

definition signal_all :: "supervisor \<Rightarrow> supervisor" where
  "signal_all s = fold try_send (sv_senders s) s"

text \<open>What precedes the loop; \<open>scaling\<close> is the autoscaling template, \<open>requested\<close> a shutdown requested already.\<close>

fun spawn_all :: "nat \<Rightarrow> worker list \<Rightarrow> supervisor \<Rightarrow> nat list \<times> supervisor" where
  "spawn_all i [] s = ([], s)"
| "spawn_all i (w # ws) s =
     (let (tx, s1) = spawn_worker i w None s; (txs, s2) = spawn_all (i + 1) ws s1 in (tx # txs, s2))"

definition supervise_start :: "worker list \<Rightarrow> worker option \<Rightarrow> bool \<Rightarrow> supervisor" where
  "supervise_start ws scaling requested =
     (let s0 = \<lparr>sv_templates = ws, sv_senders = [], sv_retired = [], sv_finished = [], sv_set = [],
                sv_next_channel = 0, sv_signalled = {}, sv_template = scaling,
                sv_desired_rx = (scaling \<noteq> None), sv_shutting_down = requested, sv_done = False\<rparr>;
          (txs, s1) = spawn_all 0 ws s0;
          s2 = s1\<lparr>sv_senders := txs, sv_retired := replicate (length txs) False,
                  sv_finished := replicate (length txs) False\<rparr> in
      if requested then signal_all s2 else s2)"

text \<open>The branch of the shutdown signal.\<close>

definition begin_shutdown :: "supervisor \<Rightarrow> supervisor" where
  "begin_shutdown s = signal_all (s\<lparr>sv_shutting_down := True\<rparr>)"

text \<open>The branch of a changed number of desired workers.\<close>

definition active_slots :: "worker \<Rightarrow> supervisor \<Rightarrow> nat list" where
  "active_slots template s =
     filter (\<lambda>i. \<not> sv_retired s ! i \<and> wk_queue_name (sv_templates s ! i) = wk_queue_name template)
       [0..<length (sv_senders s)]"

definition reusable_slot :: "supervisor \<Rightarrow> nat option" where
  "reusable_slot s = find (\<lambda>i. sv_retired s ! i \<and> sv_finished s ! i) [0..<length (sv_senders s)]"

definition start_one :: "worker \<Rightarrow> supervisor \<Rightarrow> supervisor" where
  "start_one template s =
     (let i = (case reusable_slot s of Some i \<Rightarrow> i | None \<Rightarrow> length (sv_senders s));
          (tx, s1) = spawn_worker i template None s in
      if i = length (sv_senders s) then
        s1\<lparr>sv_templates := sv_templates s @ [template], sv_senders := sv_senders s @ [tx],
           sv_retired := sv_retired s @ [False], sv_finished := sv_finished s @ [False]\<rparr>
      else
        s1\<lparr>sv_templates := (sv_templates s)[i := template], sv_senders := (sv_senders s)[i := tx],
           sv_retired := (sv_retired s)[i := False], sv_finished := (sv_finished s)[i := False]\<rparr>)"

definition retire_slot :: "nat \<Rightarrow> supervisor \<Rightarrow> supervisor" where
  "retire_slot i s = try_send (sv_senders s ! i) (s\<lparr>sv_retired := (sv_retired s)[i := True]\<rparr>)"

definition scale_to :: "worker \<Rightarrow> nat \<Rightarrow> supervisor \<Rightarrow> supervisor" where
  "scale_to template desired s =
     (let active = active_slots template s in
      if length active < desired then (start_one template ^^ (desired - length active)) s
      else fold retire_slot (take (length active - desired) (rev active)) s)"

definition desired_changed :: "nat option \<Rightarrow> supervisor \<Rightarrow> supervisor" where
  "desired_changed changed s =
     (case (changed, sv_template s) of
        (Some desired, Some template) \<Rightarrow> scale_to template desired s
      | _ \<Rightarrow> s\<lparr>sv_desired_rx := False\<rparr>)"

text \<open>The branch of a joined task, once it is taken off the set.\<close>

definition worker_gone :: "nat \<Rightarrow> supervisor \<Rightarrow> supervisor" where
  "worker_gone i s =
     (if sv_retired s ! i then s\<lparr>sv_finished := (sv_finished s)[i := True]\<rparr>
      else if \<not> sv_shutting_down s then
        (let (tx, s1) = spawn_worker i (sv_templates s ! i) (Some WORKER_RESTART_DELAY) s in
         s1\<lparr>sv_senders := (sv_senders s)[i := tx]\<rparr>)
      else s)"

fun task_joined :: "worker_exit \<Rightarrow> supervisor \<Rightarrow> supervisor" where
  "task_joined (WorkerStopped i) s =
     (if sv_shutting_down s then s
      else if sv_retired s ! i then s\<lparr>sv_finished := (sv_finished s)[i := True]\<rparr>
      else worker_gone i s)"
| "task_joined (WorkerFailed i e) s = worker_gone i s"
| "task_joined (WorkerPanicked i p) s = worker_gone i s"
| "task_joined TaskAborted s = s"

definition exit_of :: "worker_task \<Rightarrow> worker_exit \<Rightarrow> bool" where
  "exit_of t x \<longleftrightarrow>
     x = WorkerStopped (tk_index t) \<or> (\<exists>e. x = WorkerFailed (tk_index t) e) \<or> (\<exists>p. x = WorkerPanicked (tk_index t) p)"

text \<open>
  The loop. A worker task may end at any time and in any way, only that none is aborted from
  outside, which nothing does. Without a task left, the loop ends.
\<close>

inductive sv_step :: "supervisor \<Rightarrow> supervisor \<Rightarrow> bool" where
  shutdown: "\<not> sv_done s \<Longrightarrow> \<not> sv_shutting_down s \<Longrightarrow> sv_step s (begin_shutdown s)"
| desired: "\<not> sv_done s \<Longrightarrow> \<not> sv_shutting_down s \<Longrightarrow> sv_desired_rx s \<Longrightarrow> sv_step s (desired_changed d s)"
| joined: "\<not> sv_done s \<Longrightarrow> sv_set s = xs @ t # ys \<Longrightarrow> exit_of t x \<Longrightarrow>
    sv_step s (task_joined x (s\<lparr>sv_set := xs @ ys\<rparr>))"
| empty: "\<not> sv_done s \<Longrightarrow> sv_set s = [] \<Longrightarrow> sv_step s (s\<lparr>sv_done := True\<rparr>)"

inductive_cases sv_stepE: "sv_step s s'"

subsection \<open>Invariant\<close>

abbreviation slots :: "supervisor \<Rightarrow> nat" where
  "slots s \<equiv> length (sv_senders s)"

definition has_task :: "supervisor \<Rightarrow> nat \<Rightarrow> bool" where
  "has_task s i \<longleftrightarrow> i \<in> tk_index ` set (sv_set s)"

text \<open>
  A slot is finished only after it was retired; it has a task until it is finished, or, during a
  shutdown, until its worker stopped; its current channel carries a stop exactly when it was retired
  or the pool is shutting down; and only slots of the scaled queue are ever retired.
\<close>

definition slot_ok :: "supervisor \<Rightarrow> nat \<Rightarrow> bool" where
  "slot_ok s i \<longleftrightarrow>
     (sv_finished s ! i \<longrightarrow> sv_retired s ! i \<and> \<not> has_task s i)
     \<and> (\<not> sv_shutting_down s \<and> \<not> sv_finished s ! i \<longrightarrow> has_task s i)
     \<and> (sv_senders s ! i \<in> sv_signalled s \<longleftrightarrow> sv_retired s ! i \<or> sv_shutting_down s)
     \<and> (sv_retired s ! i \<longrightarrow> (\<exists>t. sv_template s = Some t \<and> wk_queue_name (sv_templates s ! i) = wk_queue_name t))"

definition channels_ok :: "supervisor \<Rightarrow> bool" where
  "channels_ok s \<longleftrightarrow> distinct (sv_senders s) \<and> set (sv_senders s) \<subseteq> {..<sv_next_channel s}
     \<and> sv_signalled s \<subseteq> {..<sv_next_channel s}"

definition tasks_ok :: "supervisor \<Rightarrow> bool" where
  "tasks_ok s \<longleftrightarrow> distinct (map tk_index (sv_set s))
     \<and> (\<forall>t \<in> set (sv_set s). tk_index t < slots s \<and> tk_channel t = sv_senders s ! tk_index t
           \<and> tk_worker t = sv_templates s ! tk_index t)"

definition sv_inv :: "supervisor \<Rightarrow> bool" where
  "sv_inv s \<longleftrightarrow> length (sv_templates s) = slots s \<and> length (sv_retired s) = slots s
     \<and> length (sv_finished s) = slots s \<and> channels_ok s \<and> tasks_ok s \<and> (\<forall>i < slots s. slot_ok s i)"

lemma fold_try_send: "fold try_send txs s = s\<lparr>sv_signalled := set txs \<union> sv_signalled s\<rparr>"
  by (induction txs arbitrary: s) (auto simp: try_send_def)

lemma signal_all_eq: "signal_all s = s\<lparr>sv_signalled := set (sv_senders s) \<union> sv_signalled s\<rparr>"
  by (simp add: signal_all_def fold_try_send)

text \<open>Telling every worker to stop.\<close>

lemma sv_inv_shutdown: "sv_inv s \<Longrightarrow> sv_inv (begin_shutdown s)"
  by (auto simp: begin_shutdown_def signal_all_eq sv_inv_def channels_ok_def tasks_ok_def slot_ok_def has_task_def)

text \<open>Starting a worker in a slot without a task: a new slot, a reused one, or a restart.\<close>

definition place_worker :: "nat \<Rightarrow> worker \<Rightarrow> duration option \<Rightarrow> supervisor \<Rightarrow> supervisor" where
  "place_worker i w delay s =
     s\<lparr>sv_templates := (sv_templates s)[i := w], sv_senders := (sv_senders s)[i := sv_next_channel s],
       sv_retired := (sv_retired s)[i := False], sv_finished := (sv_finished s)[i := False],
       sv_next_channel := sv_next_channel s + 1,
       sv_set := sv_set s @ [\<lparr>tk_index = i, tk_channel = sv_next_channel s, tk_worker = w, tk_delay = delay\<rparr>]\<rparr>"

text \<open>The invariant of the slots other than \<open>k\<close>, which is between two tasks.\<close>

definition sv_inv_but :: "nat \<Rightarrow> supervisor \<Rightarrow> bool" where
  "sv_inv_but k s \<longleftrightarrow> length (sv_templates s) = slots s \<and> length (sv_retired s) = slots s
     \<and> length (sv_finished s) = slots s \<and> channels_ok s \<and> tasks_ok s
     \<and> (\<forall>i < slots s. i \<noteq> k \<longrightarrow> slot_ok s i) \<and> k < slots s \<and> \<not> has_task s k"

lemma sv_inv_place:
  assumes "sv_inv_but k s" "\<not> sv_shutting_down s"
  shows "sv_inv (place_worker k w delay s)"
proof -
  let ?s = "place_worker k w delay s"
  have lens: "length (sv_templates ?s) = slots ?s" "length (sv_retired ?s) = slots ?s" "length (sv_finished ?s) = slots ?s"
    using assms by (auto simp: sv_inv_but_def place_worker_def)
  have ch: "channels_ok s" and fresh: "sv_next_channel s \<notin> set (sv_senders s)" "sv_next_channel s \<notin> sv_signalled s"
    using assms by (auto simp: sv_inv_but_def channels_ok_def)
  have "channels_ok ?s"
    using ch fresh by (auto simp: channels_ok_def place_worker_def distinct_list_update dest!: set_update_subset_insert [THEN subsetD])
  moreover have "tasks_ok ?s"
    using assms by (auto simp: sv_inv_but_def tasks_ok_def place_worker_def has_task_def nth_list_update)
  moreover have "slot_ok ?s i" if "i < slots ?s" for i
  proof (cases "i = k")
    case True
    then show ?thesis using assms fresh that
      by (auto simp: slot_ok_def place_worker_def sv_inv_but_def has_task_def)
  next
    case False
    then have "slot_ok s i" using assms that by (simp add: sv_inv_but_def place_worker_def)
    then show ?thesis using False by (auto simp: slot_ok_def place_worker_def has_task_def)
  qed
  ultimately show ?thesis using lens by (simp add: sv_inv_def)
qed

lemma sv_inv_take_task:
  assumes "sv_inv s" "sv_set s = xs @ t # ys"
  shows "sv_inv_but (tk_index t) (s\<lparr>sv_set := xs @ ys\<rparr>) \<and> \<not> sv_finished s ! tk_index t"
proof -
  have d: "distinct (map tk_index (xs @ t # ys))" using assms by (simp add: sv_inv_def tasks_ok_def)
  then have k: "tk_index t < slots s" "\<not> has_task (s\<lparr>sv_set := xs @ ys\<rparr>) (tk_index t)"
    using assms by (auto simp: sv_inv_def tasks_ok_def has_task_def)
  have "slot_ok (s\<lparr>sv_set := xs @ ys\<rparr>) i" if "i < slots s" "i \<noteq> tk_index t" for i
    using assms that by (auto simp: sv_inv_def slot_ok_def has_task_def)
  moreover have "\<not> sv_finished s ! tk_index t"
    using assms k by (auto simp: sv_inv_def slot_ok_def has_task_def)
  ultimately show ?thesis
    using assms d k by (auto simp: sv_inv_def sv_inv_but_def channels_ok_def tasks_ok_def)
qed

lemma sv_inv_close:
  assumes "sv_inv_but k s" "slot_ok s k"
  shows "sv_inv s"
  using assms by (auto simp: sv_inv_but_def sv_inv_def)

text \<open>What a joined task leads to: nothing, a finished slot, or a restarted worker.\<close>

definition finish_slot :: "nat \<Rightarrow> supervisor \<Rightarrow> supervisor" where
  "finish_slot i s = s\<lparr>sv_finished := (sv_finished s)[i := True]\<rparr>"

lemma worker_gone_eq:
  assumes "\<not> sv_finished s ! i"
  shows "worker_gone i s =
     (if sv_retired s ! i then finish_slot i s
      else if sv_shutting_down s then s
      else place_worker i (sv_templates s ! i) (Some WORKER_RESTART_DELAY) s)"
proof -
  have "(sv_retired s)[i := False] = sv_retired s" if "\<not> sv_retired s ! i"
    using that list_update_id [of "sv_retired s" i] by simp
  moreover have "(sv_finished s)[i := False] = sv_finished s"
    using assms list_update_id [of "sv_finished s" i] by simp
  ultimately show ?thesis
    by (simp add: worker_gone_def finish_slot_def place_worker_def spawn_worker_def Let_def)
qed

lemma task_joined_cases:
  assumes "exit_of t x" "\<not> sv_finished s ! tk_index t"
  obtains (quiet) "task_joined x s = s" "sv_shutting_down s"
  | (finished) "task_joined x s = finish_slot (tk_index t) s" "sv_retired s ! tk_index t"
  | (restart) "task_joined x s =
        place_worker (tk_index t) (sv_templates s ! tk_index t) (Some WORKER_RESTART_DELAY) s"
      "\<not> sv_retired s ! tk_index t" "\<not> sv_shutting_down s"
proof -
  have "task_joined x s = s \<and> sv_shutting_down s \<or> task_joined x s = worker_gone (tk_index t) s"
    using assms worker_gone_eq [OF assms(2)] by (auto simp: exit_of_def finish_slot_def)
  then show ?thesis using that worker_gone_eq [OF assms(2)] by (auto split: if_splits)
qed

lemma sv_inv_joined:
  assumes "sv_inv s" "sv_set s = xs @ t # ys" "exit_of t x"
  shows "sv_inv (task_joined x (s\<lparr>sv_set := xs @ ys\<rparr>))"
proof -
  let ?s = "s\<lparr>sv_set := xs @ ys\<rparr>" and ?k = "tk_index t"
  have but: "sv_inv_but ?k ?s" and nf: "\<not> sv_finished ?s ! ?k" using sv_inv_take_task [OF assms(1,2)] by auto
  then have ko: "?k < slots s" "\<not> has_task ?s ?k" "slot_ok s ?k"
    using assms(1) by (auto simp: sv_inv_but_def sv_inv_def)
  from assms(3) nf show ?thesis
  proof (cases rule: task_joined_cases)
    case quiet
    then show ?thesis using sv_inv_close [OF but] ko by (auto simp: slot_ok_def)
  next
    case finished
    have "sv_inv_but ?k (finish_slot ?k ?s)"
      using but by (auto simp: sv_inv_but_def finish_slot_def channels_ok_def tasks_ok_def slot_ok_def has_task_def)
    moreover have "slot_ok (finish_slot ?k ?s) ?k"
      using ko finished assms(1) by (auto simp: slot_ok_def finish_slot_def has_task_def sv_inv_def)
    ultimately show ?thesis using sv_inv_close finished(1) by simp
  next
    case restart
    then show ?thesis using sv_inv_place [OF but] by simp
  qed
qed

subsection \<open>Scaling\<close>

lemma reusable_slot_Some:
  "reusable_slot s = Some i \<Longrightarrow> i < slots s \<and> sv_retired s ! i \<and> sv_finished s ! i"
  by (auto simp: reusable_slot_def find_Some_iff)

definition append_worker :: "worker \<Rightarrow> supervisor \<Rightarrow> supervisor" where
  "append_worker w s =
     s\<lparr>sv_templates := sv_templates s @ [w], sv_senders := sv_senders s @ [sv_next_channel s],
       sv_retired := sv_retired s @ [False], sv_finished := sv_finished s @ [False],
       sv_next_channel := sv_next_channel s + 1,
       sv_set := sv_set s @ [\<lparr>tk_index = slots s, tk_channel = sv_next_channel s, tk_worker = w, tk_delay = None\<rparr>]\<rparr>"

lemma start_one_eq:
  "start_one w s = (case reusable_slot s of Some i \<Rightarrow> place_worker i w None s | None \<Rightarrow> append_worker w s)"
  by (auto simp: start_one_def place_worker_def append_worker_def spawn_worker_def Let_def
      dest: reusable_slot_Some split: option.split)

lemma sv_inv_append:
  assumes "sv_inv s" "\<not> sv_shutting_down s"
  shows "sv_inv (append_worker w s)"
proof -
  let ?s = "append_worker w s"
  have fresh: "sv_next_channel s \<notin> set (sv_senders s)" "sv_next_channel s \<notin> sv_signalled s"
    using assms by (auto simp: sv_inv_def channels_ok_def)
  have "channels_ok ?s" using assms by (auto simp: sv_inv_def channels_ok_def append_worker_def)
  moreover have "tasks_ok ?s" using assms by (fastforce simp: sv_inv_def tasks_ok_def append_worker_def nth_append)
  moreover have "slot_ok ?s i" if "i < slots ?s" for i
  proof (cases "i = slots s")
    case True
    then show ?thesis using assms fresh by (auto simp: slot_ok_def append_worker_def sv_inv_def has_task_def nth_append)
  next
    case False
    then have "i < slots s" using that by (simp add: append_worker_def)
    then show ?thesis using assms False by (auto simp: sv_inv_def slot_ok_def append_worker_def has_task_def nth_append)
  qed
  ultimately show ?thesis using assms by (simp add: sv_inv_def append_worker_def)
qed

lemma sv_inv_start_one:
  assumes "sv_inv s" "\<not> sv_shutting_down s"
  shows "sv_inv (start_one w s)"
proof (cases "reusable_slot s")
  case None
  then show ?thesis using sv_inv_append [OF assms] by (simp add: start_one_eq)
next
  case (Some i)
  then have "sv_inv_but i s" using assms reusable_slot_Some [OF Some] by (auto simp: sv_inv_def sv_inv_but_def slot_ok_def)
  then show ?thesis using sv_inv_place assms(2) Some by (simp add: start_one_eq)
qed

lemma sv_inv_retire:
  assumes "sv_inv s" "i < slots s" "sv_template s = Some t" "wk_queue_name (sv_templates s ! i) = wk_queue_name t"
  shows "sv_inv (retire_slot i s)"
proof -
  have d: "sv_senders s ! k = sv_senders s ! i \<longleftrightarrow> k = i" if "k < slots s" for k
    using assms that by (simp add: sv_inv_def channels_ok_def nth_eq_iff_index_eq)
  have "slot_ok (retire_slot i s) k" if "k < slots s" for k
    using assms that d [OF that] by (auto simp: sv_inv_def slot_ok_def retire_slot_def try_send_def has_task_def nth_list_update)
  moreover have "sv_senders s ! i < sv_next_channel s"
    using assms nth_mem [OF assms(2)] unfolding sv_inv_def channels_ok_def by blast
  ultimately show ?thesis
    using assms by (auto simp: sv_inv_def retire_slot_def try_send_def channels_ok_def tasks_ok_def has_task_def)
qed

text \<open>The number of workers of a queue that are neither retired nor gone.\<close>

definition active_set :: "worker \<Rightarrow> supervisor \<Rightarrow> nat set" where
  "active_set w s = {i. i < slots s \<and> \<not> sv_retired s ! i \<and> wk_queue_name (sv_templates s ! i) = wk_queue_name w}"

lemma active_slots_set: "set (active_slots w s) = active_set w s" "distinct (active_slots w s)"
  by (auto simp: active_slots_def active_set_def)

lemma length_active_slots: "length (active_slots w s) = card (active_set w s)"
  using active_slots_set distinct_card by metis

lemma finite_active_set [simp]: "finite (active_set w s)"
  by (simp add: active_set_def)

lemma active_place:
  assumes "length (sv_templates s) = slots s" "length (sv_retired s) = slots s" "k < slots s"
  shows "active_set w (place_worker k v delay s) =
    (if wk_queue_name v = wk_queue_name w then insert k (active_set w s) else active_set w s - {k})"
  using assms by (auto simp: active_set_def place_worker_def nth_list_update split: if_splits)

lemma active_append:
  assumes "length (sv_templates s) = slots s" "length (sv_retired s) = slots s"
  shows "active_set w (append_worker v s) =
    (if wk_queue_name v = wk_queue_name w then insert (slots s) (active_set w s) else active_set w s)"
  using assms by (auto simp: active_set_def append_worker_def nth_append)

lemma active_start_one:
  assumes "sv_inv s"
  shows "card (active_set w (start_one w s)) = Suc (card (active_set w s))"
proof (cases "reusable_slot s")
  case None
  have "slots s \<notin> active_set w s" by (simp add: active_set_def)
  then show ?thesis using None assms by (simp add: start_one_eq active_append sv_inv_def)
next
  case (Some k)
  then have "k \<notin> active_set w s" "k < slots s" using reusable_slot_Some [OF Some] by (auto simp: active_set_def)
  then show ?thesis using Some assms by (simp add: start_one_eq active_place sv_inv_def)
qed

text \<open>Starting a worker of another queue leaves a queue's workers alone.\<close>

lemma active_start_other:
  assumes "sv_inv s" "wk_queue_name w \<noteq> wk_queue_name v"
  shows "active_set w (start_one v s) = active_set w s"
proof (cases "reusable_slot s")
  case None
  then show ?thesis using assms by (simp add: start_one_eq active_append sv_inv_def)
next
  case (Some k)
  then have "k \<notin> active_set w s" "k < slots s" using reusable_slot_Some [OF Some] by (auto simp: active_set_def)
  then show ?thesis using Some assms by (simp add: start_one_eq active_place sv_inv_def)
qed

lemma start_one_frame:
  "sv_shutting_down (start_one w s) = sv_shutting_down s" "sv_template (start_one w s) = sv_template s"
  "sv_done (start_one w s) = sv_done s"
  by (simp_all add: start_one_eq place_worker_def append_worker_def split: option.split)

lemma start_many:
  assumes "sv_inv s" "\<not> sv_shutting_down s"
  shows "sv_inv ((start_one w ^^ n) s) \<and> card (active_set w ((start_one w ^^ n) s)) = card (active_set w s) + n
    \<and> \<not> sv_shutting_down ((start_one w ^^ n) s)
    \<and> (wk_queue_name v \<noteq> wk_queue_name w \<longrightarrow> active_set v ((start_one w ^^ n) s) = active_set v s)"
proof (induction n)
  case (Suc n)
  then show ?case
    using sv_inv_start_one [of "(start_one w ^^ n) s" w] active_start_one [of "(start_one w ^^ n) s" w]
      active_start_other [of "(start_one w ^^ n) s" v w]
    by (simp add: start_one_frame)
qed (use assms in auto)

lemma retire_frame:
  "slots (retire_slot i s) = slots s" "sv_template (retire_slot i s) = sv_template s"
  "sv_templates (retire_slot i s) = sv_templates s"
  by (simp_all add: retire_slot_def try_send_def)

lemma active_retire:
  "sv_inv s \<Longrightarrow> i < slots s \<Longrightarrow> active_set w (retire_slot i s) = active_set w s - {i}"
  by (auto simp: active_set_def retire_slot_def try_send_def sv_inv_def nth_list_update split: if_splits)

lemma retire_many:
  assumes "sv_inv s" "sv_template s = Some t" "distinct ks" "set ks \<subseteq> active_set t s"
  shows "sv_inv (fold retire_slot ks s) \<and> active_set t (fold retire_slot ks s) = active_set t s - set ks
    \<and> active_set v (fold retire_slot ks s) = active_set v s - set ks"
  using assms
proof (induction ks arbitrary: s)
  case (Cons k ks)
  have k: "k < slots s" "wk_queue_name (sv_templates s ! k) = wk_queue_name t"
    using Cons.prems by (auto simp: active_set_def)
  note a = active_retire [OF Cons.prems(1) k(1), of t]
  have "set ks \<subseteq> active_set t (retire_slot k s)" using Cons.prems(3,4) a by auto
  from Cons.IH [OF sv_inv_retire [OF Cons.prems(1) k(1) Cons.prems(2) k(2)] _ _ this] Cons.prems(2,3)
  show ?case using a active_retire [OF Cons.prems(1) k(1), of v] by (auto simp: retire_frame)
qed simp

lemma scale_to_spec:
  assumes "sv_inv s" "\<not> sv_shutting_down s" "sv_template s = Some t"
  shows "sv_inv (scale_to t n s) \<and> length (active_slots t (scale_to t n s)) = n
    \<and> (wk_queue_name v \<noteq> wk_queue_name t \<longrightarrow> active_set v (scale_to t n s) = active_set v s)"
proof (cases "length (active_slots t s) < n")
  case True
  then show ?thesis
    using start_many [OF assms(1,2), where v = v and w = t and n = "n - length (active_slots t s)"]
    by (simp add: scale_to_def length_active_slots)
next
  case False
  let ?ks = "take (length (active_slots t s) - n) (rev (active_slots t s))"
  have ks: "distinct ?ks" "set ?ks \<subseteq> active_set t s"
    using active_slots_set [of t s] set_take_subset [of _ "rev (active_slots t s)"] by (auto simp: distinct_take)
  have "card (set ?ks) = length (active_slots t s) - n" using distinct_card [OF ks(1)] by simp
  then have "card (active_set t s - set ?ks) = n"
    using False ks(2) card_Diff_subset [of "set ?ks" "active_set t s"] by (simp add: length_active_slots)
  moreover have "active_set v s - set ?ks = active_set v s" if "wk_queue_name v \<noteq> wk_queue_name t"
    using ks(2) that by (auto simp: active_set_def)
  ultimately show ?thesis
    using retire_many [OF assms(1,3) ks, of v] False by (auto simp: scale_to_def Let_def length_active_slots)
qed

lemma sv_inv_desired:
  assumes "sv_inv s" "\<not> sv_shutting_down s"
  shows "sv_inv (desired_changed d s)"
  using assms scale_to_spec [OF assms]
  by (auto simp: desired_changed_def sv_inv_def channels_ok_def tasks_ok_def slot_ok_def has_task_def split: option.split)

subsection \<open>Reachable states\<close>

lemma spawn_all_eq:
  "spawn_all i ws s =
     ([sv_next_channel s..<sv_next_channel s + length ws],
      s\<lparr>sv_next_channel := sv_next_channel s + length ws,
        sv_set := sv_set s @ map (\<lambda>k. \<lparr>tk_index = i + k, tk_channel = sv_next_channel s + k,
                                       tk_worker = ws ! k, tk_delay = None\<rparr>) [0..<length ws]\<rparr>)"
proof (induction ws arbitrary: i s)
  case (Cons w ws)
  have "[0..<Suc (length ws)] = 0 # map Suc [0..<length ws]" by (simp only: upt_conv_Cons map_Suc_upt zero_less_Suc)
  then show ?case
    by (simp add: Cons spawn_worker_def Let_def upt_conv_Cons o_def del: upt_Suc)
qed simp

lemma sv_inv_start: "sv_inv (supervise_start ws scaling requested)"
proof -
  have "tasks_ok (supervise_start ws scaling False) \<and> channels_ok (supervise_start ws scaling False)"
    by (auto simp: supervise_start_def spawn_all_eq tasks_ok_def channels_ok_def o_def)
  moreover have "slot_ok (supervise_start ws scaling False) i" if "i < length ws" for i
    using that by (auto simp: supervise_start_def spawn_all_eq slot_ok_def has_task_def image_image)
  ultimately have "sv_inv (supervise_start ws scaling False)"
    by (auto simp: supervise_start_def spawn_all_eq sv_inv_def)
  moreover have "supervise_start ws scaling True = begin_shutdown (supervise_start ws scaling False)"
    by (simp add: supervise_start_def begin_shutdown_def spawn_all_eq)
  ultimately show ?thesis by (cases requested) (auto intro: sv_inv_shutdown)
qed

lemma sv_inv_step: "sv_step s s' \<Longrightarrow> sv_inv s \<Longrightarrow> sv_inv s'"
proof (induction rule: sv_step.induct)
  case (empty s)
  then show ?case by (auto simp: sv_inv_def channels_ok_def tasks_ok_def slot_ok_def has_task_def)
qed (auto intro: sv_inv_shutdown sv_inv_desired sv_inv_joined)

lemma sv_inv_reachable: "sv_step\<^sup>*\<^sup>* (supervise_start ws scaling requested) s \<Longrightarrow> sv_inv s"
  by (induction rule: rtranclp_induct) (auto intro: sv_inv_start sv_inv_step)

lemma tasks_of_slot:
  assumes "tasks_ok s"
  shows "length (filter (\<lambda>t. tk_index t = i) (sv_set s)) = (if has_task s i then 1 else 0)"
proof -
  have "length (filter (\<lambda>t. tk_index t = i) ts) = (if i \<in> tk_index ` set ts then 1 else 0)"
    if "distinct (map tk_index ts)" for ts :: "worker_task list"
    using that by (induction ts) (auto simp: filter_empty_conv)
  then show ?thesis using assms by (simp add: tasks_ok_def has_task_def)
qed

text \<open>
  C14: A worker pool keeps its workers running and stops only the ones it should. In every state
  the supervisor can reach, whichever workers stop, fail or panic and whatever the autoscaler asks
  for: no slot ever has two workers at once; until shutdown, every slot has its worker, the one of
  the slot's current template, except a slot that was retired and whose worker has finished; the
  stop signal was sent to a running worker exactly when its slot was retired or the pool is shutting
  down, so no worker is told to stop by a signal meant for its predecessor; and only workers of the
  scaled queue are retired.
\<close>
theorem pool_supervised:
  assumes "sv_step\<^sup>*\<^sup>* (supervise_start ws scaling requested) s"
  shows "(\<forall>i < length (sv_senders s).
      length (filter (\<lambda>t. tk_index t = i) (sv_set s)) \<le> 1
      \<and> (\<not> sv_shutting_down s \<longrightarrow>
           (length (filter (\<lambda>t. tk_index t = i) (sv_set s)) = 0 \<longleftrightarrow> sv_retired s ! i \<and> sv_finished s ! i))
      \<and> (sv_retired s ! i \<longrightarrow>
           (\<exists>t. sv_template s = Some t \<and> wk_queue_name (sv_templates s ! i) = wk_queue_name t)))
    \<and> (\<forall>t \<in> set (sv_set s). tk_index t < length (sv_senders s) \<and> tk_worker t = sv_templates s ! tk_index t
      \<and> (tk_channel t \<in> sv_signalled s \<longleftrightarrow> sv_retired s ! tk_index t \<or> sv_shutting_down s))"
proof -
  have inv: "sv_inv s" by (rule sv_inv_reachable [OF assms])
  then have "tasks_ok s" by (simp add: sv_inv_def)
  note count = tasks_of_slot [OF this]
  have "slot_ok s i" if "i < slots s" for i using inv that by (simp add: sv_inv_def)
  then show ?thesis using inv \<open>tasks_ok s\<close> unfolding count by (auto simp: slot_ok_def tasks_ok_def)
qed

lemma pool_supervised_witness:
  "\<exists>s. sv_step\<^sup>*\<^sup>* (supervise_start [worker_new ''q'' (Legacy (\<lambda>_. Ends 0 (Returned (Inr ()))))] None False) s
     \<and> map tk_delay (sv_set s) = [Some (seconds 1)] \<and> list_all (\<lambda>t. tk_channel t \<notin> sv_signalled s) (sv_set s)"
proof -
  let ?w = "worker_new ''q'' (Legacy (\<lambda>_. Ends 0 (Returned (Inr ()))))"
  let ?s = "supervise_start [?w] None False"
  let ?t = "\<lparr>tk_index = 0, tk_channel = 0, tk_worker = ?w, tk_delay = None\<rparr>"
  let ?s' = "task_joined (WorkerPanicked 0 ''x'') (?s\<lparr>sv_set := []\<rparr>)"
  have "sv_step ?s ?s'"
    using sv_step.joined [of ?s "[]" ?t "[]" "WorkerPanicked 0 ''x''"]
    by (simp add: supervise_start_def spawn_worker_def exit_of_def)
  then have r: "sv_step\<^sup>*\<^sup>* ?s ?s'" by blast
  have e: "\<not> sv_shutting_down ?s'" "\<not> sv_retired ?s' ! 0"
    "sv_set ?s' = [\<lparr>tk_index = 0, tk_channel = 1, tk_worker = ?w, tk_delay = Some (seconds 1)\<rparr>]"
    by (simp_all add: supervise_start_def spawn_worker_def worker_gone_def WORKER_RESTART_DELAY_def)
  from pool_supervised [OF r] have "\<forall>t \<in> set (sv_set ?s'). tk_channel t \<in> sv_signalled ?s' \<longleftrightarrow>
      sv_retired ?s' ! tk_index t \<or> sv_shutting_down ?s'" by blast
  then have "list_all (\<lambda>t. tk_channel t \<notin> sv_signalled ?s') (sv_set ?s')" unfolding e(3) using e(1,2) by simp
  with r e(3) show ?thesis by (intro exI [of _ ?s']) simp
qed

subsection \<open>The number of workers\<close>

lemma active_joined:
  assumes "sv_inv s" "sv_set s = xs @ t # ys" "exit_of t x"
  shows "active_set w (task_joined x (s\<lparr>sv_set := xs @ ys\<rparr>)) = active_set w s"
proof -
  let ?s = "s\<lparr>sv_set := xs @ ys\<rparr>" and ?k = "tk_index t"
  have k: "\<not> sv_finished ?s ! ?k" "?k < slots ?s"
    using sv_inv_take_task [OF assms(1,2)] by (auto simp: sv_inv_but_def)
  have same: "active_set w ?s = active_set w s" by (simp add: active_set_def)
  from assms(3) k(1) show ?thesis
  proof (cases rule: task_joined_cases)
    case restart
    then have "?k \<in> active_set w s \<longleftrightarrow> wk_queue_name (sv_templates s ! ?k) = wk_queue_name w"
      using k by (simp add: active_set_def)
    then show ?thesis
      using restart(1) active_place [of ?s ?k w "sv_templates s ! ?k"] assms(1) k(2) same
      by (auto simp: sv_inv_def)
  qed (simp_all add: same, simp add: active_set_def finish_slot_def)
qed

lemma active_slots_eq: "active_slots w s = sorted_list_of_set (active_set w s)"
proof -
  have "sorted (active_slots w s)" using sorted_filter [of "\<lambda>i. i" "[0..<slots s]"] by (simp add: active_slots_def)
  then show ?thesis using active_slots_set [of w s] by (metis sorted_distinct_set_unique
      sorted_list_of_set.sorted_sorted_key_list_of_set sorted_list_of_set.distinct_sorted_key_list_of_set
      sorted_list_of_set.set_sorted_key_list_of_set finite_active_set)
qed

lemma active_step:
  assumes "sv_inv s" "sv_step s s'"
  shows "active_set w s' = active_set w s \<or>
    (\<exists>d t. sv_template s = Some t \<and> wk_queue_name w = wk_queue_name t \<and> s' = scale_to t d s
       \<and> length (active_slots t s') = d)"
  using assms(2)
proof cases
  case (desired d)
  then show ?thesis using scale_to_spec [OF assms(1), of _ _ w]
    by (auto simp: desired_changed_def active_set_def split: option.splits)
next
  case (joined xs t ys x)
  then show ?thesis using active_joined [OF assms(1)] by blast
qed (simp_all add: active_set_def begin_shutdown_def signal_all_eq)

text \<open>
  Autoscaling has exactly the workers it asked for. In every reachable state, no step other
  than applying a new desired number changes which workers of a queue are active, restarts of dead
  workers included; applying a desired number leaves exactly that many active workers on the
  template's queue; and the workers of every other queue are left alone.
\<close>
theorem pool_scales_exactly:
  assumes "sv_step\<^sup>*\<^sup>* (supervise_start ws scaling requested) s" "sv_step s s'"
  shows "(active_slots w s' = active_slots w s \<or>
      (\<exists>d t. sv_template s = Some t \<and> wk_queue_name w = wk_queue_name t \<and> s' = desired_changed (Some d) s))
    \<and> (\<forall>d t. sv_template s = Some t \<and> \<not> sv_shutting_down s \<and> s' = desired_changed (Some d) s \<longrightarrow>
         length (active_slots t s') = d)"
proof -
  note inv = sv_inv_reachable [OF assms(1)]
  have "length (active_slots t s') = d"
    if "sv_template s = Some t" "\<not> sv_shutting_down s" "s' = desired_changed (Some d) s" for d t
    using scale_to_spec [OF inv that(2,1)] that by (simp add: desired_changed_def)
  then show ?thesis
    using active_step [OF inv assms(2), of w] by (auto simp: active_slots_eq desired_changed_def)
qed

lemma pool_scales_exactly_witness:
  "\<exists>s'. sv_step (supervise_start [worker_new ''q'' (Legacy (\<lambda>_. Ends 0 (Returned (Inr ()))))]
            (Some (worker_new ''q'' (Legacy (\<lambda>_. Ends 0 (Returned (Inr ())))))) False) s'
     \<and> length (active_slots (worker_new ''q'' (Legacy (\<lambda>_. Ends 0 (Returned (Inr ()))))) s') = 3"
proof -
  let ?w = "worker_new ''q'' (Legacy (\<lambda>_. Ends 0 (Returned (Inr ()))))"
  let ?s = "supervise_start [?w] (Some ?w) False"
  have i: "sv_template ?s = Some ?w" "\<not> sv_shutting_down ?s" "\<not> sv_done ?s" "sv_desired_rx ?s"
    by (simp_all add: supervise_start_def spawn_worker_def)
  then have st: "sv_step ?s (desired_changed (Some 3) ?s)" by (intro sv_step.desired)
  then show ?thesis using pool_scales_exactly [OF rtranclp.rtrancl_refl st, of ?w] i(1,2) by blast
qed

subsection \<open>Shutdown\<close>

lemma joined_set:
  assumes "exit_of t x" "\<not> sv_finished s ! tk_index t" "sv_shutting_down s"
  shows "sv_set (task_joined x s) = sv_set s \<and> sv_shutting_down (task_joined x s) \<and> sv_done (task_joined x s) = sv_done s"
  using assms by (cases rule: task_joined_cases) (simp_all add: finish_slot_def)

lemma shutdown_step:
  assumes "sv_inv s" "sv_shutting_down s" "sv_step s s'"
  shows "sv_shutting_down s' \<and> (if sv_set s = [] then sv_set s' = [] \<and> sv_done s'
    else length (sv_set s) = Suc (length (sv_set s')) \<and> \<not> sv_done s')"
  using assms(3)
proof cases
  case (joined xs t ys x)
  have "\<not> sv_finished s ! tk_index t" using sv_inv_take_task [OF assms(1) joined(3)] by simp
  then show ?thesis using joined_set [OF joined(4), of "s\<lparr>sv_set := xs @ ys\<rparr>"] assms(2) joined by simp
qed (use assms(2) in auto)

lemma shutdown_steps:
  assumes "sv_inv s" "sv_shutting_down s" "\<not> sv_done s" "(sv_step ^^ n) s s'"
  shows "n \<le> Suc (length (sv_set s)) \<and> (sv_done s' \<longleftrightarrow> n = Suc (length (sv_set s)))"
  using assms
proof (induction n arbitrary: s)
  case (Suc n)
  obtain s1 where s1: "sv_step s s1" "(sv_step ^^ n) s1 s'" using relpowp_Suc_D2 [OF Suc.prems(4)] by blast
  note st = shutdown_step [OF Suc.prems(1,2) s1(1)] and inv = sv_inv_step [OF s1(1) Suc.prems(1)]
  show ?case
  proof (cases "sv_set s = []")
    case True
    then have "\<not> sv_step s1 z" for z using st by (auto elim: sv_stepE)
    then have "n = 0" using s1(2) by (metis not0_implies_Suc relpowp_Suc_D2)
    then show ?thesis using True st s1(2) by simp
  next
    case False
    then show ?thesis using st Suc.IH [OF inv _ _ s1(2)] by simp
  qed
qed simp

lemma shutdown_can_step:
  assumes "\<not> sv_done s" shows "\<exists>s'. sv_step s s'"
proof (cases "sv_set s")
  case Nil
  then show ?thesis using sv_step.empty assms by blast
next
  case (Cons t ts)
  then show ?thesis using sv_step.joined [of s "[]" t ts "WorkerStopped (tk_index t)"] assms by (auto simp: exit_of_def)
qed

lemma done_frame:
  "sv_done (scale_to w n s) = sv_done s" "sv_done (desired_changed d s) = sv_done s"
  "sv_done (worker_gone i s) = sv_done s" "sv_done (task_joined x s) = sv_done s"
proof -
  have "sv_done (fold retire_slot ks s) = sv_done s" for ks
    by (induction ks arbitrary: s) (simp_all add: retire_slot_def try_send_def)
  moreover have "sv_done ((start_one w ^^ k) s) = sv_done s" for k w
    by (induction k) (simp_all add: start_one_frame)
  ultimately show scale: "sv_done (scale_to w n s) = sv_done s" for w n by (simp add: scale_to_def Let_def)
  show "sv_done (desired_changed d s) = sv_done s" by (auto simp: desired_changed_def scale split: option.split)
  show gone: "sv_done (worker_gone i s) = sv_done s" for i by (simp add: worker_gone_def spawn_worker_def Let_def)
  show "sv_done (task_joined x s) = sv_done s" by (cases x) (simp_all add: gone)
qed

lemma done_step:
  assumes "sv_step s s'" "\<not> sv_done s" "sv_done s'"
  shows "s' = s\<lparr>sv_done := True\<rparr> \<and> sv_set s = []"
  using assms by cases (simp_all add: done_frame begin_shutdown_def signal_all_eq)

lemma no_task_no_active:
  assumes "sv_inv s" "sv_set s = []" "\<not> sv_shutting_down s"
  shows "active_slots w s = []"
  using assms by (auto simp: active_slots_def filter_empty_conv sv_inv_def slot_ok_def has_task_def)

text \<open>
  C32: Shutting a pool down ends. Once shutdown was requested, every worker still running has been
  told to stop; no worker is started any more, so each step of the supervisor sees one of them
  gone; it returns exactly when it has seen the last one, after as many steps as there were workers
  left and one more; and it is never stuck while a worker can still end. Before shutdown it returns
  only when the pool has no active worker.
\<close>
theorem pool_shutdown_ends:
  assumes "sv_step\<^sup>*\<^sup>* (supervise_start ws scaling requested) s" "\<not> sv_done s"
  shows "(sv_shutting_down s \<longrightarrow>
      (\<forall>t \<in> set (sv_set s). tk_channel t \<in> sv_signalled s)
      \<and> (\<forall>n s'. (sv_step ^^ n) s s' \<longrightarrow>
           n \<le> Suc (length (sv_set s)) \<and> (sv_done s' \<longleftrightarrow> n = Suc (length (sv_set s)))))
    \<and> (\<exists>s'. sv_step s s')
    \<and> (\<forall>s' w. sv_step s s' \<and> sv_done s' \<longrightarrow> sv_set s' = [] \<and> (sv_shutting_down s' \<or> active_slots w s' = []))"
proof (intro conjI impI ballI allI)
  note inv = sv_inv_reachable [OF assms(1)]
  show "\<exists>s'. sv_step s s'" by (rule shutdown_can_step [OF assms(2)])
  show "tk_channel t \<in> sv_signalled s" if "sv_shutting_down s" "t \<in> set (sv_set s)" for t
    using inv that by (auto simp: sv_inv_def tasks_ok_def slot_ok_def)
  show "n \<le> Suc (length (sv_set s))" "sv_done s' \<longleftrightarrow> n = Suc (length (sv_set s))"
    if "sv_shutting_down s" "(sv_step ^^ n) s s'" for n s'
    using shutdown_steps [OF inv that(1) assms(2) that(2)] by auto
next
  fix s' w assume d: "sv_step s s' \<and> sv_done s'"
  then have s': "s' = s\<lparr>sv_done := True\<rparr>" "sv_set s = []" using done_step assms(2) by blast+
  then show "sv_set s' = []" by simp
  have "active_slots w s' = active_slots w s" by (simp add: s' active_slots_def)
  then show "sv_shutting_down s' \<or> active_slots w s' = []"
    using no_task_no_active [OF sv_inv_reachable [OF assms(1)] s'(2), of w] s'(1) by auto
qed

lemma pool_shutdown_ends_witness:
  "\<exists>s. sv_step\<^sup>*\<^sup>* (supervise_start [worker_new ''q'' (Legacy (\<lambda>_. Ends 0 (Returned (Inr ()))))] None False) s
     \<and> sv_shutting_down s \<and> length (sv_set s) = 1
     \<and> list_all (\<lambda>t. tk_channel t \<in> sv_signalled s) (sv_set s) \<and> (\<exists>s'. sv_step s s')"
proof -
  let ?s = "supervise_start [worker_new ''q'' (Legacy (\<lambda>_. Ends 0 (Returned (Inr ()))))] None False"
  let ?s' = "begin_shutdown ?s"
  have "sv_step ?s ?s'" by (rule sv_step.shutdown) (simp_all add: supervise_start_def spawn_worker_def)
  then have r: "sv_step\<^sup>*\<^sup>* ?s ?s'" by blast
  have e: "\<not> sv_done ?s'" "sv_shutting_down ?s'" "length (sv_set ?s') = 1"
    by (simp_all add: supervise_start_def spawn_worker_def begin_shutdown_def signal_all_eq)
  show ?thesis using pool_shutdown_ends [OF r e(1)] e r by (intro exI [of _ ?s']) (simp add: list_all_iff)
qed

text \<open>
  A pool started without a worker of its own, with a template and autoscaling on, returns at once:
  the supervisor ends on an empty set of tasks and never applies the autoscaler's number.
\<close>

lemma pool_without_workers_ends:
  "sv_step (supervise_start [] scaling False) ((supervise_start [] scaling False)\<lparr>sv_done := True\<rparr>)"
  by (rule sv_step.empty) (simp_all add: supervise_start_def)

end
