(* ===== verification/Encryption.thy ===== *)
theory Encryption
  imports Json
begin

text \<open>
  Payload encryption, data and policies: \<open>src/src/encryption.rs\<close>. A byte is a \<open>char\<close>, so bytes are
  strings and the bytes of ASCII text are the text itself. The ciphers, hashes, gzip and base64 are
  third-party crates, so they are parameters collected in the record \<open>crypto\<close>; \<open>crypto_laws\<close>
  states their documented behaviour: what was encoded, compressed or encrypted is recovered. An
  \<open>f64\<close> is a rational and the \<open>u64\<close> counters do not overflow.
\<close>

subsection \<open>Errors and algorithms\<close>

datatype encryption_error =
    KeyManagement string
  | EncryptionFailed string
  | DecryptionFailed string
  | InvalidConfiguration string
  | FieldProcessing string
  | CryptSerialization string
  | Base64Error string
  | Cryptographic string
  | CryptDatabaseError string

type_synonym 'a cres = "encryption_error + 'a"
type_synonym bytes = string

fun encryption_error_display :: "encryption_error \<Rightarrow> string" where
  "encryption_error_display (KeyManagement m) = ''Key management error: '' @ m"
| "encryption_error_display (EncryptionFailed m) = ''Encryption failed: '' @ m"
| "encryption_error_display (DecryptionFailed m) = ''Decryption failed: '' @ m"
| "encryption_error_display (InvalidConfiguration m) = ''Invalid configuration: '' @ m"
| "encryption_error_display (FieldProcessing m) = ''Field processing error: '' @ m"
| "encryption_error_display (CryptSerialization m) = ''Serialization error: '' @ m"
| "encryption_error_display (Base64Error m) = ''Base64 error: '' @ m"
| "encryption_error_display (Cryptographic m) = ''Cryptographic error: '' @ m"
| "encryption_error_display (CryptDatabaseError m) = ''Database error: '' @ m"

datatype encryption_algorithm = AES256GCM | ChaCha20Poly1305

text \<open>The \<open>Debug\<close> text of an algorithm.\<close>

fun algorithm_str :: "encryption_algorithm \<Rightarrow> string" where
  "algorithm_str AES256GCM = ''AES256GCM''"
| "algorithm_str ChaCha20Poly1305 = ''ChaCha20Poly1305''"

datatype key_source = KsStatic string | KsEnvironment string | KsExternal string | KsGenerated string

record encryption_config =
  ec_algorithm :: encryption_algorithm
  ec_key_source :: key_source
  ec_key_rotation_enabled :: bool
  ec_key_rotation_interval :: "duration option"
  ec_default_retention :: "duration option"
  ec_compression_enabled :: bool
  ec_key_id :: "string option"
  ec_version :: nat

definition encryption_config_new :: "encryption_algorithm \<Rightarrow> encryption_config" where
  "encryption_config_new a =
     \<lparr>ec_algorithm = a, ec_key_source = KsEnvironment ''HAMMERWORK_ENCRYPTION_KEY'',
      ec_key_rotation_enabled = False, ec_key_rotation_interval = None, ec_default_retention = None,
      ec_compression_enabled = False, ec_key_id = None, ec_version = 1\<rparr>"

fun algorithm_key_size :: "encryption_algorithm \<Rightarrow> nat" where
  "algorithm_key_size AES256GCM = 32"
| "algorithm_key_size ChaCha20Poly1305 = 32"

definition key_size_bytes :: "encryption_config \<Rightarrow> nat" where
  "key_size_bytes c = algorithm_key_size (ec_algorithm c)"

subsection \<open>Retention\<close>

datatype retention_policy =
    DeleteAfter duration
  | DeleteAt time
  | KeepIndefinitely
  | DeleteImmediately
  | UseDefault

text \<open>\<open>chrono::Duration::from_std\<close> and \<open>checked_add_signed\<close>: a time past the range is never.\<close>

definition delete_after :: "externs \<Rightarrow> time \<Rightarrow> duration \<Rightarrow> time option" where
  "delete_after E created d =
     (if int d \<le> max_delta E then checked_add_signed E created (int d) else None)"

fun calculate_deletion_time ::
  "externs \<Rightarrow> retention_policy \<Rightarrow> time \<Rightarrow> time option \<Rightarrow> duration option \<Rightarrow> time option" where
  "calculate_deletion_time E (DeleteAfter d) created completed dflt = delete_after E created d"
| "calculate_deletion_time E (DeleteAt t) created completed dflt = Some t"
| "calculate_deletion_time E KeepIndefinitely created completed dflt = None"
| "calculate_deletion_time E DeleteImmediately created completed dflt = opt_or completed (Some created)"
| "calculate_deletion_time E UseDefault created completed dflt =
     (case dflt of Some d \<Rightarrow> delete_after E created d | None \<Rightarrow> None)"

definition should_delete_now ::
  "externs \<Rightarrow> time \<Rightarrow> retention_policy \<Rightarrow> time \<Rightarrow> time option \<Rightarrow> duration option \<Rightarrow> bool" where
  "should_delete_now E now p created completed dflt =
     is_some_and (calculate_deletion_time E p created completed dflt) (\<lambda>delete_at. delete_at \<le> now)"

subsection \<open>Metadata and payloads\<close>

record encryption_metadata =
  em_algorithm :: encryption_algorithm
  em_key_id :: string
  em_config_version :: nat
  em_compressed :: bool
  em_encrypted_fields :: "string list"
  em_retention_policy :: retention_policy
  em_encrypted_at :: time
  em_delete_at :: "time option"
  em_payload_hash :: string
  em_format_version :: nat

definition FORMAT_UNBOUND :: nat where
  "FORMAT_UNBOUND = 0"

definition FORMAT_JOB_BOUND :: nat where
  "FORMAT_JOB_BOUND = 1"

definition metadata_new ::
  "externs \<Rightarrow> time \<Rightarrow> encryption_config \<Rightarrow> string list \<Rightarrow> retention_policy \<Rightarrow> string \<Rightarrow> encryption_metadata" where
  "metadata_new E now c encrypted retention hash =
     \<lparr>em_algorithm = ec_algorithm c,
      em_key_id = (case ec_key_id c of Some i \<Rightarrow> i | None \<Rightarrow> ''default''),
      em_config_version = ec_version c, em_compressed = ec_compression_enabled c,
      em_encrypted_fields = encrypted, em_retention_policy = retention, em_encrypted_at = now,
      em_delete_at = calculate_deletion_time E retention now None (ec_default_retention c),
      em_payload_hash = hash, em_format_version = FORMAT_UNBOUND\<rparr>"

definition metadata_should_delete :: "time \<Rightarrow> encryption_metadata \<Rightarrow> bool" where
  "metadata_should_delete now m = is_some_and (em_delete_at m) (\<lambda>t. t \<le> now)"

definition update_deletion_time ::
  "externs \<Rightarrow> time \<Rightarrow> duration option \<Rightarrow> encryption_metadata \<Rightarrow> encryption_metadata" where
  "update_deletion_time E completed dflt m =
     m\<lparr>em_delete_at :=
         calculate_deletion_time E (em_retention_policy m) (em_encrypted_at m) (Some completed) dflt\<rparr>"

text \<open>The crates: ciphers (their output carries the tag at its end), SHA-256, HMAC, hex, gzip, base64.\<close>

record crypto =
  cr_encrypt :: "encryption_algorithm \<Rightarrow> bytes \<Rightarrow> bytes \<Rightarrow> bytes \<Rightarrow> bytes \<Rightarrow> string + bytes"
  cr_decrypt :: "encryption_algorithm \<Rightarrow> bytes \<Rightarrow> bytes \<Rightarrow> bytes \<Rightarrow> bytes \<Rightarrow> string + bytes"
  cr_sha256 :: "bytes \<Rightarrow> bytes"
  cr_hmac_sha256 :: "bytes \<Rightarrow> bytes \<Rightarrow> bytes"
  cr_hex :: "bytes \<Rightarrow> string"
  cr_gzip :: "bytes \<Rightarrow> string + bytes"
  cr_gunzip :: "bytes \<Rightarrow> string + bytes"
  cr_b64_encode :: "bytes \<Rightarrow> string"
  cr_b64_decode :: "string \<Rightarrow> string + bytes"

definition crypto_laws :: "crypto \<Rightarrow> bool" where
  "crypto_laws C \<longleftrightarrow>
     (\<forall>a k n m aad c. length k = 32 \<and> length n = 12 \<and> cr_encrypt C a k n m aad = Inr c \<longrightarrow>
        cr_decrypt C a k n c aad = Inr m \<and> 16 \<le> length c)
     \<and> (\<forall>m z. cr_gzip C m = Inr z \<longrightarrow> cr_gunzip C z = Inr m)
     \<and> (\<forall>m. cr_b64_decode C (cr_b64_encode C m) = Inr m)"

record encrypted_payload =
  ep_ciphertext :: string
  ep_nonce :: string
  ep_tag :: string
  ep_metadata :: encryption_metadata

definition encrypted_payload_new ::
  "crypto \<Rightarrow> bytes \<Rightarrow> bytes \<Rightarrow> bytes \<Rightarrow> encryption_metadata \<Rightarrow> encrypted_payload" where
  "encrypted_payload_new C c n t m =
     \<lparr>ep_ciphertext = cr_b64_encode C c, ep_nonce = cr_b64_encode C n, ep_tag = cr_b64_encode C t,
      ep_metadata = m\<rparr>"

definition b64_decode :: "crypto \<Rightarrow> string \<Rightarrow> bytes cres" where
  "b64_decode C s = (case cr_b64_decode C s of Inl e \<Rightarrow> Inl (Base64Error e) | Inr b \<Rightarrow> Inr b)"

subsection \<open>Statistics\<close>

record encryption_stats =
  es_jobs_encrypted :: nat
  es_jobs_decrypted :: nat
  es_pii_fields_encrypted :: nat
  es_total_encrypted_bytes :: nat
  es_total_decrypted_bytes :: nat
  es_encryption_errors :: nat
  es_decryption_errors :: nat
  es_retention_cleanups :: nat
  es_avg_encryption_time_ms :: rat
  es_avg_decryption_time_ms :: rat
  es_algorithm_usage :: "string \<Rightarrow> nat"

definition encryption_stats_new :: encryption_stats where
  "encryption_stats_new =
     \<lparr>es_jobs_encrypted = 0, es_jobs_decrypted = 0, es_pii_fields_encrypted = 0,
      es_total_encrypted_bytes = 0, es_total_decrypted_bytes = 0, es_encryption_errors = 0,
      es_decryption_errors = 0, es_retention_cleanups = 0, es_avg_encryption_time_ms = 0,
      es_avg_decryption_time_ms = 0, es_algorithm_usage = (\<lambda>_. 0)\<rparr>"

definition running_average :: "nat \<Rightarrow> rat \<Rightarrow> rat \<Rightarrow> rat" where
  "running_average n avg x = (if n = 1 then x else (avg * of_nat (n - 1) + x) / of_nat n)"

definition record_encryption :: "encryption_algorithm \<Rightarrow> nat \<Rightarrow> rat \<Rightarrow> encryption_stats \<Rightarrow> encryption_stats" where
  "record_encryption a bytes ms s =
     (let n = es_jobs_encrypted s + 1 in
      s\<lparr>es_jobs_encrypted := n, es_total_encrypted_bytes := es_total_encrypted_bytes s + bytes,
        es_avg_encryption_time_ms := running_average n (es_avg_encryption_time_ms s) ms,
        es_algorithm_usage := (es_algorithm_usage s)(algorithm_str a := es_algorithm_usage s (algorithm_str a) + 1)\<rparr>)"

definition record_decryption :: "nat \<Rightarrow> rat \<Rightarrow> encryption_stats \<Rightarrow> encryption_stats" where
  "record_decryption bytes ms s =
     (let n = es_jobs_decrypted s + 1 in
      s\<lparr>es_jobs_decrypted := n, es_total_decrypted_bytes := es_total_decrypted_bytes s + bytes,
        es_avg_decryption_time_ms := running_average n (es_avg_decryption_time_ms s) ms\<rparr>)"

definition record_pii_encryption :: "nat \<Rightarrow> encryption_stats \<Rightarrow> encryption_stats" where
  "record_pii_encryption n s = s\<lparr>es_pii_fields_encrypted := es_pii_fields_encrypted s + n\<rparr>"

definition record_encryption_error :: "encryption_stats \<Rightarrow> encryption_stats" where
  "record_encryption_error s = s\<lparr>es_encryption_errors := es_encryption_errors s + 1\<rparr>"

definition record_decryption_error :: "encryption_stats \<Rightarrow> encryption_stats" where
  "record_decryption_error s = s\<lparr>es_decryption_errors := es_decryption_errors s + 1\<rparr>"

definition record_retention_cleanup :: "nat \<Rightarrow> encryption_stats \<Rightarrow> encryption_stats" where
  "record_retention_cleanup n s = s\<lparr>es_retention_cleanups := es_retention_cleanups s + n\<rparr>"

definition success_rate :: "nat \<Rightarrow> nat \<Rightarrow> rat" where
  "success_rate ok errors =
     (if ok + errors = 0 then 100 else of_nat ok / of_nat (ok + errors) * 100)"

definition encryption_success_rate :: "encryption_stats \<Rightarrow> rat" where
  "encryption_success_rate s = success_rate (es_jobs_encrypted s) (es_encryption_errors s)"

definition decryption_success_rate :: "encryption_stats \<Rightarrow> rat" where
  "decryption_success_rate s = success_rate (es_jobs_decrypted s) (es_decryption_errors s)"

text \<open>The recorded averages are the means of the recorded times.\<close>

lemma encryption_average:
  "es_avg_encryption_time_ms (fold (\<lambda>(a, b, ms). record_encryption a b ms) xs encryption_stats_new)
     = (if xs = [] then 0 else sum_list (map (\<lambda>(a, b, ms). ms) xs) / of_nat (length xs))
   \<and> es_jobs_encrypted (fold (\<lambda>(a, b, ms). record_encryption a b ms) xs encryption_stats_new) = length xs"
proof (induction xs rule: rev_induct)
  case (snoc x xs)
  obtain a b ms where x: "x = (a, b, ms)" by (cases x)
  show ?case
    using snoc by (cases "xs = []") (auto simp: x record_encryption_def running_average_def Let_def)
qed (simp add: encryption_stats_new_def)

end
