(* ===== verification/Envelope.thy ===== *)
theory Envelope
  imports Encryption
begin

text \<open>
  Envelope encryption with a key management service: \<open>src/src/encryption/envelope.rs\<close>. Data keys
  are generated by the service; only their wrapped form is stored, in versions per key name. The
  table of wrapped keys is the one \<open>DbStore\<close> reads and writes (\<open>encryption/key_manager.rs\<close> and
  migration 017: the version is unique within a scope, and each method is one statement or one
  transaction), here one scope of it. The service is a parameter; \<open>kms_laws\<close> states that it
  unwraps what it wrapped. Between the calls of one process others may use the table, so a
  function that makes several calls takes what they do in between as arguments.
\<close>

subsection \<open>The service and the table\<close>

record data_key =
  dk_plaintext :: bytes
  dk_ciphertext :: bytes

text \<open>\<open>km_generate\<close> takes a number that identifies the call: every call gives another key.\<close>

record kms =
  km_provider :: string
  km_key_id :: string
  km_generate :: "nat \<Rightarrow> nat \<Rightarrow> string \<Rightarrow> data_key cres"
  km_decrypt :: "bytes \<Rightarrow> string \<Rightarrow> bytes cres"

definition kms_laws :: "kms \<Rightarrow> bool" where
  "kms_laws K \<longleftrightarrow>
     (\<forall>call sz context k. km_generate K call sz context = Inr k \<longrightarrow>
        km_decrypt K (dk_ciphertext k) context = Inr (dk_plaintext k))"

record kms_wrapped_key =
  kw_id :: uuid
  kw_key_name :: string
  kw_kms_provider :: string
  kw_kms_key_id :: string
  kw_version :: nat
  kw_key_size :: nat
  kw_wrapped_key :: bytes
  kw_active :: bool
  kw_created_at :: time
  kw_retired_at :: "time option"

text \<open>The rows of one scope, in the order of \<open>load_versions\<close>: newest first.\<close>

type_synonym key_table = "kms_wrapped_key list"

definition has_version :: "nat \<Rightarrow> key_table \<Rightarrow> bool" where
  "has_version v t \<longleftrightarrow> (\<exists>r \<in> set t. kw_version r = v)"

definition insert_row :: "kms_wrapped_key \<Rightarrow> key_table \<Rightarrow> key_table" where
  "insert_row r t = takeWhile (\<lambda>x. kw_version r < kw_version x) t @ r # dropWhile (\<lambda>x. kw_version r < kw_version x) t"

definition insert_if_absent :: "kms_wrapped_key \<Rightarrow> key_table \<Rightarrow> key_table" where
  "insert_if_absent r t = (if has_version (kw_version r) t then t else insert_row r t)"

definition retire_row :: "time \<Rightarrow> kms_wrapped_key \<Rightarrow> kms_wrapped_key" where
  "retire_row now r = (if kw_active r then r\<lparr>kw_active := False, kw_retired_at := Some now\<rparr> else r)"

text \<open>A failed insert rolls the whole transaction back.\<close>

definition insert_rotated :: "time \<Rightarrow> kms_wrapped_key \<Rightarrow> key_table \<Rightarrow> unit cres \<times> key_table" where
  "insert_rotated now r t =
     (if has_version (kw_version r) t then (Inl (CryptDatabaseError ''Failed to store KMS data key''), t)
      else (Inr (), insert_row r (map (retire_row now) t)))"

definition active_record :: "key_table \<Rightarrow> kms_wrapped_key option" where
  "active_record t = find kw_active t"

subsection \<open>Operations\<close>

record envelope_key =
  ek_version :: nat
  ek_key :: bytes
  ek_active :: bool

definition new_record :: "kms \<Rightarrow> uuid \<Rightarrow> time \<Rightarrow> string \<Rightarrow> nat \<Rightarrow> nat \<Rightarrow> bytes \<Rightarrow> kms_wrapped_key cres" where
  "new_record K i now name version sz wrapped =
     (if sz < 2 ^ 32 then
        Inr \<lparr>kw_id = i, kw_key_name = name, kw_kms_provider = km_provider K, kw_kms_key_id = km_key_id K,
             kw_version = version, kw_key_size = sz, kw_wrapped_key = wrapped, kw_active = True,
             kw_created_at = now, kw_retired_at = None\<rparr>
      else Inl (KeyManagement (''Unsupported key size '' @ show_nat sz)))"

definition unwrap_key :: "kms \<Rightarrow> kms_wrapped_key \<Rightarrow> nat \<Rightarrow> envelope_key cres" where
  "unwrap_key K r sz =
     (if kw_key_size r \<noteq> sz then
        Inl (KeyManagement (''Stored KMS data key '' @ kw_key_name r @ '' version '' @ show_nat (kw_version r)
             @ '' is '' @ show_nat (kw_key_size r) @ '' bytes, expected '' @ show_nat sz))
      else
        (case km_decrypt K (kw_wrapped_key r) (kw_key_name r) of
           Inl e \<Rightarrow>
             Inl (KeyManagement (''Failed to decrypt stored data key '' @ kw_key_name r @ '' version ''
                  @ show_nat (kw_version r) @ '' with '' @ kw_kms_provider r @ '' KMS key '' @ kw_kms_key_id r
                  @ '': '' @ encryption_error_display e))
         | Inr key \<Rightarrow>
             if length key \<noteq> sz then
               Inl (KeyManagement (''KMS returned a '' @ show_nat (length key) @ ''-byte key for '' @ kw_key_name r
                    @ '' version '' @ show_nat (kw_version r) @ '', expected '' @ show_nat sz))
             else Inr \<lparr>ek_version = kw_version r, ek_key = key, ek_active = kw_active r\<rparr>))"

definition generate_checked :: "kms \<Rightarrow> nat \<Rightarrow> nat \<Rightarrow> string \<Rightarrow> data_key cres" where
  "generate_checked K call sz name =
     (case km_generate K call sz name of
        Inl e \<Rightarrow> Inl e
      | Inr k \<Rightarrow>
          if length (dk_plaintext k) \<noteq> sz then
            Inl (KeyManagement (''KMS generated a '' @ show_nat (length (dk_plaintext k)) @ ''-byte key, expected ''
                 @ show_nat sz))
          else Inr k)"

text \<open>
  \<open>meanwhile\<close> and \<open>after\<close> are what others do to the table between the first read and the insert,
  and between the insert and the second read.
\<close>

definition load_or_create ::
  "kms \<Rightarrow> nat \<Rightarrow> uuid \<Rightarrow> time \<Rightarrow> (key_table \<Rightarrow> key_table) \<Rightarrow> (key_table \<Rightarrow> key_table) \<Rightarrow> string \<Rightarrow> nat \<Rightarrow>
     key_table \<Rightarrow> envelope_key cres \<times> key_table" where
  "load_or_create K call i now meanwhile after name sz t =
     (case active_record t of
        Some r \<Rightarrow> (unwrap_key K r sz, t)
      | None \<Rightarrow>
          if t \<noteq> [] then
            (Inl (KeyManagement (''No active KMS data key for '' @ name @ '' ('' @ km_provider K @ '' key ''
               @ km_key_id K @ ''); refusing to generate a new one while retired versions exist'')), t)
          else
            (case generate_checked K call sz name of
               Inl e \<Rightarrow> (Inl e, t)
             | Inr k \<Rightarrow>
                 (case new_record K i now name 1 sz (dk_ciphertext k) of
                    Inl e \<Rightarrow> (Inl e, t)
                  | Inr r \<Rightarrow>
                      (let t2 = after (insert_if_absent r (meanwhile t)) in
                       case active_record t2 of
                         None \<Rightarrow>
                           (Inl (KeyManagement (''KMS data key for '' @ name @ '' was not found after storing it'')), t2)
                       | Some winner \<Rightarrow>
                           if kw_id winner = kw_id r then
                             (Inr \<lparr>ek_version = kw_version r, ek_key = dk_plaintext k, ek_active = True\<rparr>, t2)
                           else (unwrap_key K winner sz, t2)))))"

definition next_version :: "key_table \<Rightarrow> nat" where
  "next_version t = (if t = [] then 0 else Max (kw_version ` set t)) + 1"

definition rotate_key ::
  "kms \<Rightarrow> nat \<Rightarrow> uuid \<Rightarrow> time \<Rightarrow> (key_table \<Rightarrow> key_table) \<Rightarrow> string \<Rightarrow> nat \<Rightarrow> key_table \<Rightarrow>
     envelope_key cres \<times> key_table" where
  "rotate_key K call i now meanwhile name sz t =
     (case generate_checked K call sz name of
        Inl e \<Rightarrow> (Inl e, t)
      | Inr k \<Rightarrow>
          (case new_record K i now name (next_version t) sz (dk_ciphertext k) of
             Inl e \<Rightarrow> (Inl e, t)
           | Inr r \<Rightarrow>
               (case insert_rotated now r (meanwhile t) of
                  (Inl e, t') \<Rightarrow> (Inl e, t')
                | (Inr _, t') \<Rightarrow>
                    (Inr \<lparr>ek_version = next_version t, ek_key = dk_plaintext k, ek_active = True\<rparr>, t'))))"

fun unwrap_all :: "kms \<Rightarrow> nat \<Rightarrow> (nat \<Rightarrow> bool) \<Rightarrow> key_table \<Rightarrow> envelope_key list cres" where
  "unwrap_all K sz known [] = Inr []"
| "unwrap_all K sz known (r # rs) =
     (if known (kw_version r) then unwrap_all K sz known rs
      else
        (case unwrap_key K r sz of
           Inl e \<Rightarrow> Inl e
         | Inr k \<Rightarrow> (case unwrap_all K sz known rs of Inl e \<Rightarrow> Inl e | Inr ks \<Rightarrow> Inr (k # ks))))"

definition load_new :: "kms \<Rightarrow> nat \<Rightarrow> (nat \<Rightarrow> bool) \<Rightarrow> key_table \<Rightarrow> envelope_key list cres" where
  "load_new K sz known t = unwrap_all K sz known t"

subsection \<open>What the table promises\<close>

text \<open>A row that the service can unwrap, and a table of such rows: versions count down to 1, the newest is active.\<close>

definition row_ok :: "kms \<Rightarrow> string \<Rightarrow> nat \<Rightarrow> kms_wrapped_key \<Rightarrow> bool" where
  "row_ok K name sz r \<longleftrightarrow> kw_key_name r = name \<and> kw_key_size r = sz
     \<and> (\<exists>k. km_decrypt K (kw_wrapped_key r) name = Inr k \<and> length k = sz)"

definition scope_ok :: "kms \<Rightarrow> string \<Rightarrow> nat \<Rightarrow> key_table \<Rightarrow> bool" where
  "scope_ok K name sz t \<longleftrightarrow> map kw_version t = rev [1..<Suc (length t)]
     \<and> (\<forall>r \<in> set t. row_ok K name sz r \<and> (kw_active r \<longleftrightarrow> kw_version r = length t))"

definition stored_key :: "kms \<Rightarrow> key_table \<Rightarrow> nat \<Rightarrow> bytes \<Rightarrow> bool" where
  "stored_key K t v k \<longleftrightarrow>
     (\<exists>r \<in> set t. kw_version r = v \<and> km_decrypt K (kw_wrapped_key r) (kw_key_name r) = Inr k)"

text \<open>
  What other processes do, those whose fresh row identifier is not \<open>i\<close>: store a first version, or
  rotate to the version after one they read before.
\<close>

inductive table_step :: "kms \<Rightarrow> string \<Rightarrow> nat \<Rightarrow> uuid \<Rightarrow> key_table \<Rightarrow> key_table \<Rightarrow> bool" for K name sz i where
  created: "row_ok K name sz r \<Longrightarrow> kw_active r \<Longrightarrow> kw_id r \<noteq> i \<Longrightarrow> kw_version r = 1 \<Longrightarrow>
    table_step K name sz i t (insert_if_absent r t)"
| rotated: "row_ok K name sz r \<Longrightarrow> kw_active r \<Longrightarrow> kw_id r \<noteq> i \<Longrightarrow> 1 \<le> kw_version r \<Longrightarrow>
    kw_version r \<le> next_version t \<Longrightarrow> table_step K name sz i t (snd (insert_rotated now r t))"

lemma scope_versions: "scope_ok K name sz t \<Longrightarrow> kw_version ` set t = {1..length t}"
proof -
  assume "scope_ok K name sz t"
  then have "set (map kw_version t) = set (rev [1..<Suc (length t)])" by (simp only: scope_ok_def)
  then show ?thesis by auto
qed

lemma has_version_iff: "scope_ok K name sz t \<Longrightarrow> has_version v t \<longleftrightarrow> 1 \<le> v \<and> v \<le> length t"
  using scope_versions [of K name sz t] unfolding has_version_def by (metis atLeastAtMost_iff image_iff)

lemma next_version_length: "scope_ok K name sz t \<Longrightarrow> next_version t = Suc (length t)"
proof -
  assume s: "scope_ok K name sz t"
  have "Max {1..length t} = length t" if "t \<noteq> []" using that by (intro Max_eqI) (auto simp: Suc_le_eq)
  then show ?thesis using scope_versions [OF s] by (auto simp: next_version_def)
qed

lemma scope_distinct: "scope_ok K name sz t \<Longrightarrow> distinct (map kw_version t)"
  by (simp add: scope_ok_def)

lemma retire_row_fields [simp]:
  "kw_version (retire_row now r) = kw_version r" "kw_wrapped_key (retire_row now r) = kw_wrapped_key r"
  "kw_key_name (retire_row now r) = kw_key_name r" "kw_key_size (retire_row now r) = kw_key_size r"
  "kw_id (retire_row now r) = kw_id r" "\<not> kw_active (retire_row now r)"
  by (simp_all add: retire_row_def)

lemma insert_row_newest: "\<forall>x \<in> set t. kw_version x < kw_version r \<Longrightarrow> insert_row r t = r # t"
  by (cases t) (auto simp: insert_row_def)

lemma upt_Suc_rev: "rev [1..<Suc (Suc n)] = Suc n # rev [1..<Suc n]"
  by simp

lemma created_eq:
  assumes "scope_ok K name sz t" "kw_version r = 1"
  shows "insert_if_absent r t = (if t = [] then [r] else t)"
  using has_version_iff [OF assms(1)] assms(2) by (cases t) (auto simp: insert_if_absent_def insert_row_def)

lemma rotated_eq:
  assumes "scope_ok K name sz t" "1 \<le> kw_version r" "kw_version r \<le> next_version t"
  shows "insert_rotated now r t =
    (if kw_version r = next_version t then (Inr (), r # map (retire_row now) t)
     else (Inl (CryptDatabaseError ''Failed to store KMS data key''), t))"
proof -
  have n: "next_version t = Suc (length t)" by (rule next_version_length [OF assms(1)])
  have "\<forall>x \<in> set t. kw_version x \<le> length t" using scope_versions [OF assms(1)] by fastforce
  then have "insert_row r (map (retire_row now) t) = r # map (retire_row now) t" if "kw_version r = Suc (length t)"
    using that by (intro insert_row_newest) auto
  then show ?thesis using has_version_iff [OF assms(1), of "kw_version r"] assms(2,3) n
    by (auto simp: insert_rotated_def)
qed

lemma scope_ok_first: "row_ok K name sz r \<Longrightarrow> kw_active r \<Longrightarrow> kw_version r = 1 \<Longrightarrow> scope_ok K name sz [r]"
  by (simp add: scope_ok_def)

lemma scope_ok_rotated:
  assumes "scope_ok K name sz t" "row_ok K name sz r" "kw_active r" "kw_version r = Suc (length t)"
  shows "scope_ok K name sz (r # map (retire_row now) t)"
proof -
  have v: "map kw_version (map (retire_row now) t) = rev [1..<Suc (length t)]"
    using assms(1) by (simp add: scope_ok_def o_def)
  have rows: "row_ok K name sz x \<and> (kw_active x \<longleftrightarrow> kw_version x = Suc (length t))"
    if x: "x \<in> set (map (retire_row now) t)" for x
  proof -
    obtain y where y: "y \<in> set t" "x = retire_row now y" using x by auto
    then have "kw_version y \<le> length t" using scope_versions [OF assms(1)] by fastforce
    then show ?thesis using assms(1) y by (auto simp: scope_ok_def row_ok_def)
  qed
  have "map kw_version (r # map (retire_row now) t) = rev [1..<Suc (Suc (length t))]"
    unfolding upt_Suc_rev using v assms(4) by simp
  then show ?thesis using assms(2-4) rows unfolding scope_ok_def by auto
qed

lemma scope_ok_step: "table_step K name sz i t t' \<Longrightarrow> scope_ok K name sz t \<Longrightarrow> scope_ok K name sz t'"
proof (induction rule: table_step.induct)
  case (created r t)
  then show ?case using created_eq [of K name sz t r] scope_ok_first by simp
next
  case (rotated r t now)
  then show ?case
    using rotated_eq [of K name sz t r now] scope_ok_rotated [of K name sz t r now] next_version_length [of K name sz t]
    by (simp add: row_ok_def)
qed

lemma stored_key_step:
  "table_step K name sz i t t' \<Longrightarrow> scope_ok K name sz t \<Longrightarrow> stored_key K t v k \<Longrightarrow> stored_key K t' v k"
proof (induction rule: table_step.induct)
  case (created r t)
  then show ?case using created_eq [of K name sz t r] by (auto simp: stored_key_def)
next
  case (rotated r t now)
  then show ?case using rotated_eq [of K name sz t r now] by (auto simp: stored_key_def)
qed

lemma length_step: "table_step K name sz i t t' \<Longrightarrow> scope_ok K name sz t \<Longrightarrow> length t \<le> length t'"
proof (induction rule: table_step.induct)
  case (created r t)
  then show ?case using created_eq [of K name sz t r] by simp
next
  case (rotated r t now)
  then show ?case using rotated_eq [of K name sz t r now] by simp
qed

definition same_key_rows :: "uuid \<Rightarrow> key_table \<Rightarrow> key_table \<Rightarrow> bool" where
  "same_key_rows i t t' \<longleftrightarrow> (\<forall>r \<in> set t'. kw_id r = i \<longrightarrow>
     (\<exists>r' \<in> set t. kw_id r' = i \<and> kw_version r' = kw_version r \<and> kw_wrapped_key r' = kw_wrapped_key r))"

lemma same_key_rows_step:
  "table_step K name sz i t t' \<Longrightarrow> scope_ok K name sz t \<Longrightarrow> same_key_rows i t t'"
proof (induction rule: table_step.induct)
  case (created r t)
  then show ?case using created_eq [of K name sz t r] by (auto simp: same_key_rows_def)
next
  case (rotated r t now)
  then show ?case using rotated_eq [of K name sz t r now] by (auto simp: same_key_rows_def)
qed

text \<open>What holds after any number of steps of others.\<close>

lemma table_steps:
  assumes "(table_step K name sz i)\<^sup>*\<^sup>* t t'" "scope_ok K name sz t"
  shows "scope_ok K name sz t' \<and> length t \<le> length t' \<and> same_key_rows i t t'
    \<and> (\<forall>v k. stored_key K t v k \<longrightarrow> stored_key K t' v k)"
  using assms
proof (induction rule: rtranclp_induct)
  case base
  then show ?case by (auto simp: same_key_rows_def)
next
  case (step t' t'')
  then have ok: "scope_ok K name sz t'" by blast
  have "same_key_rows i t t''"
    using step same_key_rows_step [OF step(2) ok] unfolding same_key_rows_def by metis
  then show ?case
    using step scope_ok_step [OF step(2) ok] length_step [OF step(2) ok] stored_key_step [OF step(2) ok]
    by (meson order_trans)
qed

subsection \<open>Every process gets the same keys\<close>

lemma active_record_ok:
  assumes "scope_ok K name sz t"
  shows "(case active_record t of None \<Rightarrow> t = [] | Some r \<Rightarrow> r \<in> set t \<and> kw_version r = length t \<and> kw_active r)"
proof (cases t)
  case (Cons r rs)
  have "rev [1..<Suc (length t)] = length t # rev [1..<length t]" using Cons by simp
  then have "kw_version r = length t" using assms Cons by (simp add: scope_ok_def del: upt_Suc)
  then have "kw_active r" using assms Cons by (simp add: scope_ok_def)
  then show ?thesis using Cons \<open>kw_version r = length t\<close> by (simp add: active_record_def)
qed (simp add: active_record_def)

lemma unwrap_ok:
  assumes "row_ok K name sz r"
  obtains k where "unwrap_key K r sz = Inr \<lparr>ek_version = kw_version r, ek_key = k, ek_active = kw_active r\<rparr>"
    "km_decrypt K (kw_wrapped_key r) (kw_key_name r) = Inr k" "length k = sz"
  using assms by (auto simp: row_ok_def unwrap_key_def)

lemma unwrap_stored:
  assumes "scope_ok K name sz t" "r \<in> set t" "unwrap_key K r sz = Inr e"
  shows "stored_key K t (ek_version e) (ek_key e) \<and> ek_version e = kw_version r \<and> ek_active e = kw_active r
    \<and> length (ek_key e) = sz"
proof -
  have "row_ok K name sz r" using assms(1,2) by (simp add: scope_ok_def)
  then obtain k where "unwrap_key K r sz = Inr \<lparr>ek_version = kw_version r, ek_key = k, ek_active = kw_active r\<rparr>"
    "km_decrypt K (kw_wrapped_key r) (kw_key_name r) = Inr k" "length k = sz" by (rule unwrap_ok)
  then show ?thesis using assms(2,3) by (auto simp: stored_key_def)
qed

lemma stored_key_unique:
  assumes "scope_ok K name sz t" "stored_key K t v k" "stored_key K t v k'"
  shows "k = k'"
proof -
  obtain r r' where r: "r \<in> set t" "r' \<in> set t" "kw_version r = kw_version r'"
    "km_decrypt K (kw_wrapped_key r) (kw_key_name r) = Inr k" "km_decrypt K (kw_wrapped_key r') (kw_key_name r') = Inr k'"
    using assms(2,3) by (auto simp: stored_key_def)
  moreover have "r = r'" using scope_distinct [OF assms(1)] r(1-3) by (auto simp: distinct_map inj_on_def)
  ultimately show ?thesis by simp
qed

lemma stored_version: "scope_ok K name sz t \<Longrightarrow> stored_key K t v k \<Longrightarrow> 1 \<le> v \<and> v \<le> length t"
  using scope_versions [of K name sz t] by (fastforce simp: stored_key_def)

lemma generate_checked_ok:
  assumes "kms_laws K" "generate_checked K call sz name = Inr k"
  shows "km_decrypt K (dk_ciphertext k) name = Inr (dk_plaintext k) \<and> length (dk_plaintext k) = sz"
  using assms by (auto simp: generate_checked_def kms_laws_def split: sum.splits if_splits)

lemma new_record_ok:
  assumes "kms_laws K" "generate_checked K call sz name = Inr k" "new_record K i now name v sz (dk_ciphertext k) = Inr r"
  shows "row_ok K name sz r \<and> kw_active r \<and> kw_version r = v \<and> kw_id r = i \<and> kw_wrapped_key r = dk_ciphertext k
    \<and> kw_key_name r = name"
  using assms generate_checked_ok [OF assms(1,2)] by (auto simp: new_record_def row_ok_def split: if_splits)

text \<open>The others respect the table and never draw this process's row identifier.\<close>

definition others_ok :: "kms \<Rightarrow> string \<Rightarrow> nat \<Rightarrow> uuid \<Rightarrow> (key_table \<Rightarrow> key_table) \<Rightarrow> bool" where
  "others_ok K name sz i f \<longleftrightarrow> (\<forall>t. (table_step K name sz i)\<^sup>*\<^sup>* t (f t))"

lemma load_or_create_spec:
  assumes "kms_laws K" "scope_ok K name sz t" "others_ok K name sz i f" "others_ok K name sz i g"
    "load_or_create K call i now f g name sz t = (Inr e, t')"
  shows "scope_ok K name sz t' \<and> stored_key K t' (ek_version e) (ek_key e) \<and> ek_version e = length t' \<and> ek_active e
    \<and> length (ek_key e) = sz \<and> length t \<le> length t' \<and> (\<forall>v k. stored_key K t v k \<longrightarrow> stored_key K t' v k)"
proof (cases "active_record t")
  case (Some r)
  then have "r \<in> set t" "kw_version r = length t" "kw_active r" using active_record_ok [OF assms(2)] by auto
  moreover have "unwrap_key K r sz = Inr e" "t' = t" using Some assms(5) by (simp_all add: load_or_create_def)
  ultimately show ?thesis using unwrap_stored [OF assms(2), of r e] assms(2) by (metis order_refl)
next
  case None
  then have t: "t = []" using active_record_ok [OF assms(2)] by simp
  obtain k r where k: "generate_checked K call sz name = Inr k"
    "new_record K i now name 1 sz (dk_ciphertext k) = Inr r"
    using assms(5) None t by (auto simp: load_or_create_def split: sum.splits)
  note r = new_record_ok [OF assms(1) k]
  let ?t0 = "f t" and ?t1 = "insert_if_absent r (f t)" and ?t2 = "g (insert_if_absent r (f t))"
  have t0: "scope_ok K name sz ?t0" "same_key_rows i t ?t0"
    using table_steps [of K name sz i t ?t0] assms(2,3) by (auto simp: others_ok_def)
  have t1: "?t1 = (if ?t0 = [] then [r] else ?t0)" using created_eq [OF t0(1)] r by simp
  then have ok1: "scope_ok K name sz ?t1" using t0(1) r scope_ok_first by simp
  have t2: "scope_ok K name sz ?t2" "same_key_rows i ?t1 ?t2"
    using table_steps [of K name sz i ?t1 ?t2] ok1 assms(4) by (auto simp: others_ok_def)
  have t': "t' = ?t2" and winner: "active_record ?t2 \<noteq> None"
    using assms(5) None t k by (auto simp: load_or_create_def Let_def split: option.splits if_splits)
  obtain w where w: "active_record ?t2 = Some w" using winner by auto
  then have w': "w \<in> set ?t2" "kw_version w = length ?t2" "kw_active w" using active_record_ok [OF t2(1)] by auto
  have old: "stored_key K t v k' \<longrightarrow> stored_key K t' v k'" for v k' using t by (simp add: stored_key_def)
  show ?thesis
  proof (cases "kw_id w = i")
    case True
    then have e: "e = \<lparr>ek_version = 1, ek_key = dk_plaintext k, ek_active = True\<rparr>"
      using assms(5) None t k w r by (auto simp: load_or_create_def Let_def)
    obtain w0 where w0: "w0 \<in> set ?t1" "kw_id w0 = i" "kw_version w0 = kw_version w" "kw_wrapped_key w0 = kw_wrapped_key w"
      using t2(2) w'(1) True by (auto simp: same_key_rows_def)
    moreover have "\<forall>x \<in> set ?t0. kw_id x \<noteq> i" using t0(2) t by (simp add: same_key_rows_def)
    ultimately have "w0 = r" using t1 by (auto split: if_splits)
    then have "kw_version w = 1" "kw_wrapped_key w = dk_ciphertext k" using w0 r by auto
    moreover have "kw_key_name w = name" using t2(1) w'(1) by (simp add: scope_ok_def row_ok_def)
    ultimately have "stored_key K ?t2 1 (dk_plaintext k)"
      using w'(1) generate_checked_ok [OF assms(1) k(1)] by (auto simp: stored_key_def)
    then show ?thesis
      using t' e t2(1) w'(2) \<open>kw_version w = 1\<close> generate_checked_ok [OF assms(1) k(1)] t old by simp
  next
    case False
    then have "unwrap_key K w sz = Inr e" using assms(5) None t k w r by (auto simp: load_or_create_def Let_def)
    then show ?thesis using unwrap_stored [OF t2(1) w'(1)] t' t2(1) w'(2,3) t old by auto
  qed
qed

text \<open>Whether it succeeds or not, the table stays in order and keeps its keys.\<close>

lemma load_or_create_table:
  assumes "kms_laws K" "scope_ok K name sz t" "others_ok K name sz i f" "others_ok K name sz i g"
    "load_or_create K call i now f g name sz t = (x, t')"
  shows "scope_ok K name sz t' \<and> (\<forall>v k. stored_key K t v k \<longrightarrow> stored_key K t' v k)"
proof (cases "active_record t = None \<and> (\<exists>k r. generate_checked K call sz name = Inr k
    \<and> new_record K i now name 1 sz (dk_ciphertext k) = Inr r)")
  case True
  then obtain k r where k: "generate_checked K call sz name = Inr k" "new_record K i now name 1 sz (dk_ciphertext k) = Inr r"
    and none: "active_record t = None" by blast
  note r = new_record_ok [OF assms(1) k]
  have t: "t = []" using active_record_ok [OF assms(2)] none by simp
  have "t' = g (insert_if_absent r (f t))"
    using assms(5) none t k by (auto simp: load_or_create_def Let_def split: option.splits if_splits)
  moreover have "scope_ok K name sz (f t)" using table_steps [of K name sz i t "f t"] assms(2,3) by (auto simp: others_ok_def)
  then have "scope_ok K name sz (insert_if_absent r (f t))" using created_eq [of K name sz "f t" r] r scope_ok_first by simp
  ultimately have "scope_ok K name sz t'"
    using table_steps [of K name sz i "insert_if_absent r (f t)" t'] assms(4) by (auto simp: others_ok_def)
  then show ?thesis using t by (simp add: stored_key_def)
next
  case False
  then have "t' = t" using assms(5) by (auto simp: load_or_create_def Let_def split: option.splits sum.splits if_splits)
  then show ?thesis using assms(2) by simp
qed

lemma rotate_spec:
  assumes "kms_laws K" "scope_ok K name sz t" "others_ok K name sz i f"
    "rotate_key K call i now f name sz t = (x, t')"
  shows "scope_ok K name sz t' \<and> (\<forall>v k. stored_key K t v k \<longrightarrow> stored_key K t' v k)
    \<and> (\<forall>e. x = Inr e \<longrightarrow> stored_key K t' (ek_version e) (ek_key e) \<and> ek_version e = Suc (length t)
         \<and> ek_version e = length t' \<and> ek_active e \<and> length (ek_key e) = sz)"
proof (cases "\<exists>k r. generate_checked K call sz name = Inr k \<and> new_record K i now name (next_version t) sz (dk_ciphertext k) = Inr r")
  case False
  then have "t' = t \<and> (\<forall>e. x \<noteq> Inr e)" using assms(4) by (auto simp: rotate_key_def split: sum.splits)
  then show ?thesis using assms(2) by simp
next
  case True
  then obtain k r where k: "generate_checked K call sz name = Inr k"
    "new_record K i now name (next_version t) sz (dk_ciphertext k) = Inr r" by blast
  note r = new_record_ok [OF assms(1) k] and n = next_version_length [OF assms(2)]
  have f: "scope_ok K name sz (f t)" "length t \<le> length (f t)" "\<forall>v k. stored_key K t v k \<longrightarrow> stored_key K (f t) v k"
    using table_steps [of K name sz i t "f t"] assms(2,3) by (auto simp: others_ok_def)
  note n' = next_version_length [OF f(1)]
  have rot: "insert_rotated now r (f t) =
      (if kw_version r = next_version (f t) then (Inr (), r # map (retire_row now) (f t))
       else (Inl (CryptDatabaseError ''Failed to store KMS data key''), f t))"
    using rotated_eq [OF f(1)] r n n' f(2) by simp
  show ?thesis
  proof (cases "kw_version r = next_version (f t)")
    case True
    then have e: "x = Inr \<lparr>ek_version = next_version t, ek_key = dk_plaintext k, ek_active = True\<rparr>"
      "t' = r # map (retire_row now) (f t)"
      using assms(4) k rot by (auto simp: rotate_key_def)
    moreover have "scope_ok K name sz t'" using e scope_ok_rotated [OF f(1)] r True n' by simp
    moreover have "stored_key K t' (kw_version r) (dk_plaintext k)"
      using e r generate_checked_ok [OF assms(1) k(1)] by (auto simp: stored_key_def)
    moreover have "stored_key K t v k' \<longrightarrow> stored_key K t' v k'" for v k' using f(3) e by (force simp: stored_key_def)
    ultimately show ?thesis using r True n n' generate_checked_ok [OF assms(1) k(1)] by auto
  next
    case False
    then have "t' = f t \<and> (\<forall>e. x \<noteq> Inr e)" using assms(4) k rot by (auto simp: rotate_key_def)
    then show ?thesis using f by simp
  qed
qed

text \<open>Loading gives every version that is not known yet, newest first.\<close>

lemma load_new_spec:
  assumes "scope_ok K name sz t"
  obtains ks where "load_new K sz known t = Inr ks"
    "map ek_version ks = filter (\<lambda>v. \<not> known v) (rev [1..<Suc (length t)])"
    "\<forall>e \<in> set ks. stored_key K t (ek_version e) (ek_key e) \<and> length (ek_key e) = sz \<and> (ek_active e \<longleftrightarrow> ek_version e = length t)"
proof -
  have "\<exists>ks. unwrap_all K sz known rs = Inr ks \<and> map ek_version ks = filter (\<lambda>v. \<not> known v) (map kw_version rs)
      \<and> (\<forall>e \<in> set ks. \<exists>r \<in> set rs. unwrap_key K r sz = Inr e)" if rs: "set rs \<subseteq> set t" for rs
    using rs
  proof (induction rs)
    case (Cons r rs)
    then have "row_ok K name sz r" using assms by (simp add: scope_ok_def)
    then obtain k where "unwrap_key K r sz = Inr \<lparr>ek_version = kw_version r, ek_key = k, ek_active = kw_active r\<rparr>"
      by (rule unwrap_ok)
    then show ?case using Cons by auto
  qed simp
  then obtain ks where ks: "unwrap_all K sz known t = Inr ks"
    "map ek_version ks = filter (\<lambda>v. \<not> known v) (map kw_version t)"
    "\<forall>e \<in> set ks. \<exists>r \<in> set t. unwrap_key K r sz = Inr e" by blast
  have "\<forall>e \<in> set ks. stored_key K t (ek_version e) (ek_key e) \<and> length (ek_key e) = sz \<and> (ek_active e \<longleftrightarrow> ek_version e = length t)"
  proof
    fix e assume "e \<in> set ks"
    then obtain r where r: "r \<in> set t" "unwrap_key K r sz = Inr e" using ks(3) by blast
    then show "stored_key K t (ek_version e) (ek_key e) \<and> length (ek_key e) = sz \<and> (ek_active e \<longleftrightarrow> ek_version e = length t)"
      using unwrap_stored [OF assms r] assms r(1) unfolding scope_ok_def by metis
  qed
  then show ?thesis using that ks(1,2) assms by (simp add: load_new_def scope_ok_def)
qed

text \<open>
  C18: Processes converge on the same data keys. However many processes start at once and rotate
  the key, whatever they do between the calls of one of them: a process that starts gets the
  version that is active then, a later one gets the same or a newer version, two that got the same
  version got the same key, and the later one can also load the version of the earlier one.
\<close>
theorem kms_keys_converge:
  assumes "kms_laws K" and "scope_ok K name sz t"
    and "others_ok K name sz i1 f1" and "others_ok K name sz i1 g1" and "others_ok K name sz i2 f2" and "others_ok K name sz i2 g2"
    and "load_or_create K c1 i1 now1 f1 g1 name sz t = (Inr e1, t1)" and "(table_step K name sz j)\<^sup>*\<^sup>* t1 t2"
    and "load_or_create K c2 i2 now2 f2 g2 name sz t2 = (Inr e2, t3)"
  shows "ek_version e1 = length t1 \<and> ek_version e2 = length t3 \<and> ek_version e1 \<le> ek_version e2
    \<and> (ek_version e1 = ek_version e2 \<longrightarrow> ek_key e1 = ek_key e2)
    \<and> (\<exists>es. load_new K sz (\<lambda>_. False) t3 = Inr es \<and> (\<exists>e \<in> set es. ek_version e = ek_version e1 \<and> ek_key e = ek_key e1))"
proof -
  note one = load_or_create_spec [OF assms(1-4,7)]
  note two = table_steps [OF assms(8)]
  have t2: "scope_ok K name sz t2" "length t1 \<le> length t2" "\<forall>v k. stored_key K t1 v k \<longrightarrow> stored_key K t2 v k"
    using two one by auto
  note three = load_or_create_spec [OF assms(1) t2(1) assms(5,6,9)]
  have st: "stored_key K t3 (ek_version e1) (ek_key e1)" "stored_key K t3 (ek_version e2) (ek_key e2)" "scope_ok K name sz t3"
    using one t2 three by blast+
  obtain es where es: "load_new K sz (\<lambda>_. False) t3 = Inr es" "map ek_version es = rev [1..<Suc (length t3)]"
    "\<forall>e \<in> set es. stored_key K t3 (ek_version e) (ek_key e) \<and> length (ek_key e) = sz \<and> (ek_active e \<longleftrightarrow> ek_version e = length t3)"
    by (rule load_new_spec [OF st(3), of "\<lambda>_. False"]) (simp del: upt_Suc)
  have "ek_version e1 \<in> set (map ek_version es)"
    unfolding es(2) using stored_version [OF st(3,1)] by auto
  then obtain e where e: "e \<in> set es" "ek_version e = ek_version e1" by auto
  have "stored_key K t3 (ek_version e1) (ek_key e)" using es(3) e by force
  then have "ek_key e = ek_key e1" by (rule stored_key_unique [OF st(3) _ st(1)])
  moreover have "ek_key e1 = ek_key e2" if "ek_version e1 = ek_version e2"
    by (rule stored_key_unique [OF st(3) st(1)]) (use st(2) that in simp)
  moreover have "ek_version e1 = length t1" "ek_version e2 = length t3" "length t2 \<le> length t3" using one three by blast+
  ultimately show ?thesis using es(1) e t2(2) by auto
qed

definition sample_kms :: kms where
  "sample_kms =
     \<lparr>km_provider = ''aws'', km_key_id = ''k'',
      km_generate = (\<lambda>call sz context. let k = replicate sz (char_of call) in Inr \<lparr>dk_plaintext = k, dk_ciphertext = k\<rparr>),
      km_decrypt = (\<lambda>c context. Inr c)\<rparr>"

lemma sample_kms_laws: "kms_laws sample_kms"
  by (simp add: kms_laws_def sample_kms_def Let_def)

lemma kms_keys_converge_witness:
  "\<exists>e1 t1 e2 t3. load_or_create sample_kms 5 1 0 (\<lambda>t. t) (\<lambda>t. t) ''n'' 2 [] = (Inr e1, t1)
     \<and> load_or_create sample_kms 6 2 0 (\<lambda>t. t) (\<lambda>t. t) ''n'' 2 t1 = (Inr e2, t3) \<and> ek_key e1 = ek_key e2"
proof -
  have o: "others_ok sample_kms ''n'' 2 i (\<lambda>t. t)" for i by (simp add: others_ok_def)
  have s: "scope_ok sample_kms ''n'' 2 []" by (simp add: scope_ok_def)
  obtain e1 t1 where one: "load_or_create sample_kms 5 1 0 (\<lambda>t. t) (\<lambda>t. t) ''n'' 2 [] = (Inr e1, t1)" "ek_version e1 = 1"
    by (simp add: load_or_create_def active_record_def generate_checked_def new_record_def sample_kms_def Let_def
        insert_if_absent_def has_version_def insert_row_def)
  obtain e2 t3 where two: "load_or_create sample_kms 6 2 0 (\<lambda>t. t) (\<lambda>t. t) ''n'' 2 t1 = (Inr e2, t3)" "ek_version e2 = 1"
    using one(1)
    by (auto simp: load_or_create_def active_record_def generate_checked_def new_record_def sample_kms_def Let_def
        insert_if_absent_def has_version_def insert_row_def unwrap_key_def)
  have "ek_key e1 = ek_key e2"
    using kms_keys_converge [OF sample_kms_laws s o o o o one(1) rtranclp.rtrancl_refl two(1)] one(2) two(2) by simp
  then show ?thesis using one(1) two(1) by blast
qed

end
