(* ===== verification/Engine.thy ===== *)
theory Engine
  imports Envelope
begin

text \<open>
  The encryption engine: \<open>src/src/encryption/engine.rs\<close>. An engine encrypts with the active version
  of its key and decrypts with any version it holds; one backed by a key management service keeps
  the versions of \<open>Envelope\<close> and reloads them when a payload cannot be decrypted. The store of
  wrapped keys is an argument, since all processes share it; the fresh nonce and the measured
  time are arguments too. A flag stands for a poisoned mutex.
\<close>

subsection \<open>Key versions\<close>

record key_versions =
  kv_active :: bytes
  kv_active_version :: nat
  kv_previous :: "(nat \<times> bytes) list"

definition kv_single :: "bytes \<Rightarrow> key_versions" where
  "kv_single k = \<lparr>kv_active = k, kv_active_version = 0, kv_previous = []\<rparr>"

definition kv_versions :: "key_versions \<Rightarrow> nat list" where
  "kv_versions kv = kv_active_version kv # map fst (kv_previous kv)"

definition kv_add_one :: "envelope_key \<Rightarrow> key_versions \<Rightarrow> key_versions" where
  "kv_add_one e kv =
     (if ek_version e \<in> set (kv_versions kv) then kv
      else if ek_active e \<and> kv_active_version kv < ek_version e then
        kv\<lparr>kv_active := ek_key e, kv_active_version := ek_version e,
           kv_previous := kv_previous kv @ [(kv_active_version kv, kv_active kv)]\<rparr>
      else kv\<lparr>kv_previous := kv_previous kv @ [(ek_version e, ek_key e)]\<rparr>)"

definition kv_add :: "envelope_key list \<Rightarrow> key_versions \<Rightarrow> key_versions" where
  "kv_add es kv =
     (let kv' = fold kv_add_one es kv in
      kv'\<lparr>kv_previous := rev (sort_key fst (rev (kv_previous kv')))\<rparr>)"

fun from_envelope_keys :: "envelope_key list \<Rightarrow> key_versions option" where
  "from_envelope_keys [] = None"
| "from_envelope_keys (e # es) =
     Some (kv_add es \<lparr>kv_active = ek_key e, kv_active_version = ek_version e, kv_previous = []\<rparr>)"

definition kv_candidates :: "key_versions \<Rightarrow> bytes list" where
  "kv_candidates kv = kv_active kv # map snd (kv_previous kv)"

subsection \<open>The engine\<close>

record engine =
  en_config :: encryption_config
  en_keys :: "string \<rightharpoonup> key_versions"
  en_keys_poisoned :: bool
  en_kms :: "kms option"
  en_stats :: encryption_stats

type_synonym key_store = "string \<Rightarrow> key_table"

definition key_lock_error :: encryption_error where
  "key_lock_error = KeyManagement ''Failed to acquire key lock''"

definition config_key_id :: "encryption_config \<Rightarrow> string" where
  "config_key_id c = (case ec_key_id c of Some i \<Rightarrow> i | None \<Rightarrow> ''default'')"

definition engine_key_id :: "engine \<Rightarrow> string" where
  "engine_key_id en = config_key_id (en_config en)"

definition kms_key_name :: "string \<Rightarrow> string" where
  "kms_key_name i = ''engine/'' @ i"

definition add_versions :: "string \<Rightarrow> envelope_key list \<Rightarrow> engine \<Rightarrow> engine" where
  "add_versions i es en =
     (case en_keys en i of
        Some kv \<Rightarrow> en\<lparr>en_keys := (en_keys en)(i \<mapsto> kv_add es kv)\<rparr>
      | None \<Rightarrow>
          (case from_envelope_keys es of
             Some kv \<Rightarrow> en\<lparr>en_keys := (en_keys en)(i \<mapsto> kv)\<rparr>
           | None \<Rightarrow> en))"

text \<open>\<open>f\<close>, \<open>g\<close> and \<open>h\<close> are what others do to the stored versions between the calls.\<close>

definition with_kms_store ::
  "kms \<Rightarrow> nat \<Rightarrow> uuid \<Rightarrow> time \<Rightarrow> (key_table \<Rightarrow> key_table) \<Rightarrow> (key_table \<Rightarrow> key_table) \<Rightarrow> (key_table \<Rightarrow> key_table) \<Rightarrow>
     encryption_config \<Rightarrow> key_store \<Rightarrow> engine cres \<times> key_store" where
  "with_kms_store K call i now f g h c s =
     (let key_id = config_key_id c; name = kms_key_name key_id; sz = key_size_bytes c in
      case load_or_create K call i now f g name sz (s name) of
        (Inl e, t) \<Rightarrow> (Inl e, s(name := t))
      | (Inr active, t) \<Rightarrow>
          (let kv = \<lparr>kv_active = ek_key active, kv_active_version = ek_version active, kv_previous = []\<rparr>;
               make = (\<lambda>kv. \<lparr>en_config = c, en_keys = [key_id \<mapsto> kv], en_keys_poisoned = False,
                             en_kms = Some K, en_stats = encryption_stats_new\<rparr>) in
           if 1 < ek_version active then
             (let t' = h t in
              case load_new K sz (\<lambda>v. v = ek_version active) t' of
                Inl e \<Rightarrow> (Inl e, s(name := t'))
              | Inr es \<Rightarrow> (Inr (make (kv_add es kv)), s(name := t')))
           else (Inr (make kv), s(name := t))))"

definition rotate_kms_key ::
  "nat \<Rightarrow> uuid \<Rightarrow> time \<Rightarrow> (key_table \<Rightarrow> key_table) \<Rightarrow> key_store \<Rightarrow> engine \<Rightarrow> nat cres \<times> key_store \<times> engine" where
  "rotate_kms_key call i now f s en =
     (case en_kms en of
        None \<Rightarrow>
          (Inl (InvalidConfiguration ''rotate_kms_key needs an engine created by new_with_pool with an aws:// or gcp:// key source''), s, en)
      | Some K \<Rightarrow>
          (let key_id = engine_key_id en; name = kms_key_name key_id in
           case rotate_key K call i now f name (key_size_bytes (en_config en)) (s name) of
             (Inl e, t) \<Rightarrow> (Inl e, s(name := t), en)
           | (Inr rotated, t) \<Rightarrow>
               if en_keys_poisoned en then (Inl key_lock_error, s(name := t), en)
               else (Inr (ek_version rotated), s(name := t), add_versions key_id [rotated] en)))"

definition reload_kms_key :: "key_store \<Rightarrow> string \<Rightarrow> engine \<Rightarrow> bool cres \<times> engine" where
  "reload_kms_key s key_id en =
     (case en_kms en of
        None \<Rightarrow> (Inr False, en)
      | Some K \<Rightarrow>
          if en_keys_poisoned en then (Inl key_lock_error, en)
          else
            (let known = (case en_keys en key_id of Some kv \<Rightarrow> kv_versions kv | None \<Rightarrow> []) in
             case load_new K (key_size_bytes (en_config en)) (\<lambda>v. v \<in> set known) (s (kms_key_name key_id)) of
               Inl e \<Rightarrow> (Inl e, en)
             | Inr es \<Rightarrow> if es = [] then (Inr False, en) else (Inr True, add_versions key_id es en)))"

definition engine_from_key :: "encryption_config \<Rightarrow> bytes \<Rightarrow> engine" where
  "engine_from_key c k =
     \<lparr>en_config = c, en_keys = [config_key_id c \<mapsto> kv_single k], en_keys_poisoned = False, en_kms = None,
      en_stats = encryption_stats_new\<rparr>"

text \<open>\<open>loaded\<close> is what \<open>load_key\<close> gives for the source.\<close>

definition with_decryption_key :: "string \<Rightarrow> bytes cres \<Rightarrow> engine \<Rightarrow> engine cres" where
  "with_decryption_key key_id loaded en =
     (if key_id = engine_key_id en then
        Inl (InvalidConfiguration (''Key id '' @ CHR 0x27 # key_id @ CHR 0x27 # '' is the engine'' @ CHR 0x27 # ''s encryption key''))
      else
        (case loaded of
           Inl e \<Rightarrow> Inl e
         | Inr k \<Rightarrow>
             if en_keys_poisoned en then Inl key_lock_error
             else Inr (en\<lparr>en_keys := (en_keys en)(key_id \<mapsto> kv_single k)\<rparr>)))"

definition active_key :: "engine \<Rightarrow> bytes cres" where
  "active_key en =
     (if en_keys_poisoned en then Inl key_lock_error
      else (case en_keys en (engine_key_id en) of
              Some kv \<Rightarrow> Inr (kv_active kv)
            | None \<Rightarrow> Inl (KeyManagement (''Key not found: '' @ engine_key_id en))))"

subsection \<open>Ciphers and hashes\<close>

definition NONCE_SIZE :: nat where "NONCE_SIZE = 12"
definition TAG_SIZE :: nat where "TAG_SIZE = 16"
definition KEY_SIZE :: nat where "KEY_SIZE = 32"

definition KEYED_HASH_PREFIX :: string where
  "KEYED_HASH_PREFIX = ''hmac-sha256:''"

definition check_key_size :: "bytes \<Rightarrow> unit cres" where
  "check_key_size k =
     (if length k = KEY_SIZE then Inr ()
      else Inl (KeyManagement (''Invalid key size: expected '' @ show_nat KEY_SIZE @ '' bytes, got '' @ show_nat (length k))))"

definition keyed_payload_hash :: "crypto \<Rightarrow> bytes \<Rightarrow> bytes \<Rightarrow> string" where
  "keyed_payload_hash C k data =
     (let mac_key = cr_sha256 C (''hammerwork payload hash v1'' @ k) in
      KEYED_HASH_PREFIX @ cr_hex C (cr_hmac_sha256 C mac_key data))"

definition calculate_payload_hash :: "crypto \<Rightarrow> bytes \<Rightarrow> string" where
  "calculate_payload_hash C data = cr_hex C (cr_sha256 C data)"

fun cipher_name :: "encryption_algorithm \<Rightarrow> string" where
  "cipher_name AES256GCM = ''AES''"
| "cipher_name ChaCha20Poly1305 = ''ChaCha20''"

definition encrypt_data ::
  "crypto \<Rightarrow> encryption_algorithm \<Rightarrow> bytes \<Rightarrow> bytes \<Rightarrow> bytes \<Rightarrow> bytes \<Rightarrow> (bytes \<times> bytes \<times> bytes) cres" where
  "encrypt_data C a nonce k data aad =
     (case check_key_size k of
        Inl e \<Rightarrow> Inl e
      | Inr _ \<Rightarrow>
          (case cr_encrypt C a k nonce data aad of
             Inl e \<Rightarrow> Inl (EncryptionFailed (cipher_name a @ '' encryption failed: '' @ e))
           | Inr c \<Rightarrow> Inr (take (length c - TAG_SIZE) c, nonce, drop (length c - TAG_SIZE) c)))"

definition decrypt_data ::
  "crypto \<Rightarrow> bytes \<Rightarrow> bytes \<Rightarrow> bytes \<Rightarrow> bytes \<Rightarrow> encryption_algorithm \<Rightarrow> bytes \<Rightarrow> bytes cres" where
  "decrypt_data C ciphertext nonce tag k a aad =
     (case check_key_size k of
        Inl e \<Rightarrow> Inl e
      | Inr _ \<Rightarrow>
          if length nonce \<noteq> NONCE_SIZE \<or> length tag \<noteq> TAG_SIZE then
            Inl (DecryptionFailed (''Invalid nonce or tag size ('' @ show_nat (length nonce) @ '' and ''
              @ show_nat (length tag) @ '' bytes, expected '' @ show_nat NONCE_SIZE @ '' and '' @ show_nat TAG_SIZE @ '')''))
          else
            (case cr_decrypt C a k nonce (ciphertext @ tag) aad of
               Inl e \<Rightarrow> Inl (DecryptionFailed (cipher_name a @ '' decryption failed: '' @ e))
             | Inr m \<Rightarrow> Inr m))"

definition compress_data :: "crypto \<Rightarrow> bytes \<Rightarrow> bytes cres" where
  "compress_data C data =
     (case cr_gzip C data of Inl e \<Rightarrow> Inl (FieldProcessing (''Compression failed: '' @ e)) | Inr z \<Rightarrow> Inr z)"

definition decompress_data :: "crypto \<Rightarrow> bytes \<Rightarrow> bytes cres" where
  "decompress_data C data =
     (case cr_gunzip C data of Inl e \<Rightarrow> Inl (FieldProcessing (''Decompression failed: '' @ e)) | Inr z \<Rightarrow> Inr z)"

subsection \<open>Payloads\<close>

text \<open>What a call reads: the time, the fresh nonce and the measured milliseconds.\<close>

record call_reading =
  cl_now :: time
  cl_nonce :: bytes
  cl_ms :: rat

definition encrypt_value ::
  "externs \<Rightarrow> crypto \<Rightarrow> json_env \<Rightarrow> call_reading \<Rightarrow> json_value \<Rightarrow> string list \<Rightarrow> retention_policy \<Rightarrow> bytes \<Rightarrow>
     engine \<Rightarrow> encrypted_payload cres \<times> engine" where
  "encrypt_value E C J rd payload pii retention aad en =
     (case active_key en of
        Inl e \<Rightarrow> (Inl e, en)
      | Inr k \<Rightarrow>
          (let c = en_config en;
               payload_bytes = json_text J payload;
               hash = keyed_payload_hash C k payload_bytes in
           case (if ec_compression_enabled c then compress_data C payload_bytes else Inr payload_bytes) of
             Inl e \<Rightarrow> (Inl e, en)
           | Inr data \<Rightarrow>
               (case encrypt_data C (ec_algorithm c) (cl_nonce rd) k data aad of
                  Inl e \<Rightarrow> (Inl e, en)
                | Inr (ct, nonce, tag) \<Rightarrow>
                    (let m0 = (metadata_new E (cl_now rd) c pii retention hash)\<lparr>em_key_id := engine_key_id en\<rparr>;
                         m = m0\<lparr>em_delete_at := calculate_deletion_time E (em_retention_policy m0) (em_encrypted_at m0)
                                                  None (ec_default_retention c)\<rparr>;
                         st = record_pii_encryption (length pii)
                                (record_encryption (ec_algorithm c) (length data) (cl_ms rd) (en_stats en)) in
                     (Inr (encrypted_payload_new C ct nonce tag m), en\<lparr>en_stats := st\<rparr>)))))"

definition encrypt_payload_with_associated_data ::
  "externs \<Rightarrow> crypto \<Rightarrow> json_env \<Rightarrow> call_reading \<Rightarrow> json_value \<Rightarrow> string list \<Rightarrow> retention_policy \<Rightarrow> bytes \<Rightarrow>
     engine \<Rightarrow> encrypted_payload cres \<times> engine" where
  "encrypt_payload_with_associated_data E C J rd payload pii retention aad en =
     (case encrypt_value E C J rd payload pii retention aad en of
        (Inl e, en') \<Rightarrow> (Inl e, en'\<lparr>en_stats := record_encryption_error (en_stats en')\<rparr>)
      | (Inr x, en') \<Rightarrow> (Inr x, en'))"

text \<open>The loop over the candidate keys: the first key that decrypts, or the first error.\<close>

fun try_candidates ::
  "(bytes \<Rightarrow> bytes cres) \<Rightarrow> bytes list \<Rightarrow> encryption_error option \<Rightarrow> (bytes \<times> bytes) cres" where
  "try_candidates dec [] first =
     Inl (case first of Some e \<Rightarrow> e | None \<Rightarrow> DecryptionFailed ''no key could decrypt the payload'')"
| "try_candidates dec (k # ks) first =
     (case dec k of
        Inr data \<Rightarrow> Inr (k, data)
      | Inl e \<Rightarrow> try_candidates dec ks (Some (case first of Some e0 \<Rightarrow> e0 | None \<Rightarrow> e)))"

definition decrypt_value ::
  "crypto \<Rightarrow> json_env \<Rightarrow> rat \<Rightarrow> encrypted_payload \<Rightarrow> bytes \<Rightarrow> engine \<Rightarrow> json_value cres \<times> engine" where
  "decrypt_value C J ms ep aad en =
     (let m = ep_metadata ep in
      if en_keys_poisoned en then (Inl key_lock_error, en)
      else
        (case en_keys en (em_key_id m) of
           None \<Rightarrow>
             (Inl (KeyManagement (''Key not found: '' @ em_key_id m
                @ '' (the payload was encrypted with a key this engine does not have; see EncryptionEngine::with_decryption_key)'')), en)
         | Some kv \<Rightarrow>
             (case b64_decode C (ep_ciphertext ep) of
                Inl e \<Rightarrow> (Inl e, en)
              | Inr ct \<Rightarrow>
             (case b64_decode C (ep_nonce ep) of
                Inl e \<Rightarrow> (Inl e, en)
              | Inr nonce \<Rightarrow>
             (case b64_decode C (ep_tag ep) of
                Inl e \<Rightarrow> (Inl e, en)
              | Inr tag \<Rightarrow>
             (case try_candidates (\<lambda>k. decrypt_data C ct nonce tag k (em_algorithm m) aad) (kv_candidates kv) None of
                Inl e \<Rightarrow> (Inl e, en)
              | Inr (k, data) \<Rightarrow>
             (case (if em_compressed m then decompress_data C data else Inr data) of
                Inl e \<Rightarrow> (Inl e, en)
              | Inr payload_bytes \<Rightarrow>
                  (let calculated = (if prefix KEYED_HASH_PREFIX (em_payload_hash m)
                                     then keyed_payload_hash C k payload_bytes
                                     else calculate_payload_hash C payload_bytes) in
                   if calculated \<noteq> em_payload_hash m then
                     (Inl (DecryptionFailed ''Payload integrity check failed''), en)
                   else
                     (case json_parse J payload_bytes of
                        Inl e \<Rightarrow> (Inl (CryptSerialization e), en)
                      | Inr v \<Rightarrow>
                          (Inr v, en\<lparr>en_stats := record_decryption (length payload_bytes) ms (en_stats en)\<rparr>))))))))))"

definition decrypt_payload_with_associated_data ::
  "crypto \<Rightarrow> json_env \<Rightarrow> rat \<Rightarrow> key_store \<Rightarrow> encrypted_payload \<Rightarrow> bytes \<Rightarrow> engine \<Rightarrow> json_value cres \<times> engine" where
  "decrypt_payload_with_associated_data C J ms s ep aad en =
     (let (result, en1) = decrypt_value C J ms ep aad en;
          (result, en2) =
            (case result of
               Inr v \<Rightarrow> (Inr v, en1)
             | Inl e \<Rightarrow>
                 if en_kms en1 = None then (Inl e, en1)
                 else
                   (case reload_kms_key s (em_key_id (ep_metadata ep)) en1 of
                      (Inr True, en') \<Rightarrow> decrypt_value C J ms ep aad en'
                    | (_, en') \<Rightarrow> (Inl e, en')))
      in case result of
           Inl e \<Rightarrow> (Inl e, en2\<lparr>en_stats := record_decryption_error (en_stats en2)\<rparr>)
         | Inr v \<Rightarrow> (Inr v, en2))"

definition cleanup_expired_data :: "time \<Rightarrow> encrypted_payload list \<Rightarrow> engine \<Rightarrow> nat \<times> engine" where
  "cleanup_expired_data now eps en =
     (let n = length (filter (\<lambda>ep. metadata_should_delete now (ep_metadata ep)) eps) in
      (n, if 0 < n then en\<lparr>en_stats := record_retention_cleanup n (en_stats en)\<rparr> else en))"

subsection \<open>Fields that look personal\<close>

definition pii_patterns :: "string list" where
  "pii_patterns =
     [''ssn'', ''social_security'', ''social_security_number'', ''credit_card'', ''credit_card_number'',
      ''card_number'', ''cc_number'', ''email'', ''email_address'', ''e_mail'', ''phone'', ''phone_number'',
      ''telephone'', ''mobile'', ''passport'', ''passport_number'', ''driver_license'', ''drivers_license'',
      ''license_number'', ''bank_account'', ''account_number'', ''routing_number'', ''password'', ''secret'',
      ''private_key'', ''address'', ''street_address'', ''home_address'', ''date_of_birth'', ''birth_date'',
      ''dob'', ''tax_id'', ''taxpayer_id'', ''ein'']"

definition without_underscores :: "string \<Rightarrow> string" where
  "without_underscores s = filter (\<lambda>c. c \<noteq> CHR ''_'') s"

definition matches_pii :: "string list \<Rightarrow> string \<Rightarrow> bool" where
  "matches_pii patterns key =
     (let key_lower = map ascii_lower key in
      list_ex (\<lambda>p. contains_sub p key_lower \<or> contains_sub (without_underscores p) (without_underscores key_lower)) patterns)"

fun nested :: "json_value \<Rightarrow> bool" where
  "nested (JObject _) = True"
| "nested (JArray _) = True"
| "nested _ = False"

fun scan_object_for_pii :: "string list \<Rightarrow> string \<Rightarrow> json_value \<Rightarrow> string list"
and scan_entries :: "string list \<Rightarrow> string \<Rightarrow> (string \<times> json_value) list \<Rightarrow> string list"
and scan_items :: "string list \<Rightarrow> string \<Rightarrow> nat \<Rightarrow> json_value list \<Rightarrow> string list" where
  "scan_object_for_pii patterns pre (JObject entries) = scan_entries patterns pre entries"
| "scan_object_for_pii patterns pre (JArray items) = scan_items patterns pre 0 items"
| "scan_object_for_pii patterns pre _ = []"
| "scan_entries patterns pre [] = []"
| "scan_entries patterns pre ((key, val) # entries) =
     (let field_name = (if pre = [] then key else pre @ ''.'' @ key) in
      (if matches_pii patterns key then [field_name] else [])
      @ (if nested val then scan_object_for_pii patterns field_name val else [])
      @ scan_entries patterns pre entries)"
| "scan_items patterns pre i [] = []"
| "scan_items patterns pre i (val # items) =
     (let field_name = pre @ ''['' @ show_nat i @ '']'' in
      (if nested val then scan_object_for_pii patterns field_name val else [])
      @ scan_items patterns pre (i + 1) items)"

definition identify_pii_fields :: "json_value \<Rightarrow> string list" where
  "identify_pii_fields payload = scan_object_for_pii pii_patterns [] payload"

subsection \<open>The versions an engine holds\<close>

definition kv_all :: "key_versions \<Rightarrow> (nat \<times> bytes) list" where
  "kv_all kv = (kv_active_version kv, kv_active kv) # kv_previous kv"

lemma kv_candidates_all: "kv_candidates kv = map snd (kv_all kv)"
  by (simp add: kv_candidates_def kv_all_def)

lemma kv_versions_all: "kv_versions kv = map fst (kv_all kv)"
  by (simp add: kv_versions_def kv_all_def)

definition new_versions :: "envelope_key list \<Rightarrow> key_versions \<Rightarrow> (nat \<times> bytes) set" where
  "new_versions es kv = (\<lambda>e. (ek_version e, ek_key e)) ` {e \<in> set es. ek_version e \<notin> set (kv_versions kv)}"

lemma kv_add_one_all:
  "set (kv_all (kv_add_one e kv)) =
     set (kv_all kv) \<union> (if ek_version e \<in> set (kv_versions kv) then {} else {(ek_version e, ek_key e)})"
  by (auto simp: kv_add_one_def kv_all_def)

lemma fold_add_all:
  "distinct (map ek_version es) \<Longrightarrow> set (kv_all (fold kv_add_one es kv)) = set (kv_all kv) \<union> new_versions es kv"
proof (induction es arbitrary: kv)
  case (Cons e es)
  let ?kv = "kv_add_one e kv"
  have versions: "set (kv_versions ?kv) = insert (ek_version e) (set (kv_versions kv))"
    unfolding kv_versions_all set_map kv_add_one_all by (simp add: image_Un insert_absorb)
  have "ek_version e \<notin> ek_version ` set es" using Cons.prems by simp
  then have "new_versions es ?kv = new_versions es kv"
    unfolding new_versions_def versions by (intro arg_cong2 [where f = image]) (auto simp: image_iff)
  moreover have "new_versions (e # es) kv = (if ek_version e \<in> set (kv_versions kv) then {} else {(ek_version e, ek_key e)})
      \<union> new_versions es kv"
    by (auto simp: new_versions_def)
  ultimately show ?case using Cons kv_add_one_all [of e kv] by auto
qed (simp add: new_versions_def)

lemma kv_add_all:
  "distinct (map ek_version es) \<Longrightarrow> set (kv_all (kv_add es kv)) = set (kv_all kv) \<union> new_versions es kv"
  using fold_add_all [of es kv] by (simp add: kv_add_def kv_all_def Let_def)

text \<open>
  What an engine holds of a stored key: keys of the right size, those with a version the ones
  stored under it, and no version newer than the active one.
\<close>

definition kv_ok :: "kms \<Rightarrow> key_table \<Rightarrow> key_versions \<Rightarrow> bool" where
  "kv_ok K t kv \<longleftrightarrow>
     (\<forall>(v, k) \<in> set (kv_all kv). length k = KEY_SIZE \<and> (v \<noteq> 0 \<longrightarrow> stored_key K t v k) \<and> v \<le> kv_active_version kv)"

definition engine_ok :: "kms \<Rightarrow> key_store \<Rightarrow> engine \<Rightarrow> bool" where
  "engine_ok K s en \<longleftrightarrow> en_kms en = Some K \<and> \<not> en_keys_poisoned en
     \<and> (\<forall>i kv. en_keys en i = Some kv \<longrightarrow> kv_ok K (s (kms_key_name i)) kv)"

lemma kv_ok_add_one:
  assumes "kv_ok K t kv" "length (ek_key e) = KEY_SIZE" "stored_key K t (ek_version e) (ek_key e)"
    "ek_active e \<or> ek_version e \<le> kv_active_version kv"
  shows "kv_ok K t (kv_add_one e kv) \<and> kv_active_version kv \<le> kv_active_version (kv_add_one e kv)"
  using assms by (force simp: kv_ok_def kv_add_one_def kv_all_def)

text \<open>Newly loaded versions come newest first, so only the first of them can be the active one.\<close>

definition loaded_ok :: "kms \<Rightarrow> key_table \<Rightarrow> envelope_key list \<Rightarrow> bool" where
  "loaded_ok K t es \<longleftrightarrow> sorted_wrt (\<lambda>e e'. ek_version e' < ek_version e) es
     \<and> (\<forall>e \<in> set es. length (ek_key e) = KEY_SIZE \<and> stored_key K t (ek_version e) (ek_key e)
           \<and> (ek_active e \<longleftrightarrow> ek_version e = length t))"

lemma kv_ok_fold_older:
  assumes "kv_ok K t kv" "\<forall>e \<in> set es. length (ek_key e) = KEY_SIZE \<and> stored_key K t (ek_version e) (ek_key e)
      \<and> ek_version e \<le> kv_active_version kv"
  shows "kv_ok K t (fold kv_add_one es kv) \<and> kv_active_version kv \<le> kv_active_version (fold kv_add_one es kv)"
  using assms
proof (induction es arbitrary: kv)
  case (Cons e es)
  have one: "kv_ok K t (kv_add_one e kv) \<and> kv_active_version kv \<le> kv_active_version (kv_add_one e kv)"
    using Cons.prems by (intro kv_ok_add_one) auto
  then show ?case using Cons.IH [of "kv_add_one e kv"] Cons.prems(2) by (auto intro: order_trans)
qed simp

lemma kv_ok_add:
  assumes "kv_ok K t kv" "loaded_ok K t es" "length t \<in> set (kv_versions kv) \<or> length t \<in> ek_version ` set es"
    "\<forall>e \<in> set es. ek_version e \<le> length t"
  shows "kv_ok K t (kv_add es kv) \<and> length t \<le> kv_active_version (kv_add es kv)"
proof -
  have "kv_ok K t (fold kv_add_one es kv) \<and> length t \<le> kv_active_version (fold kv_add_one es kv)"
  proof (cases "length t \<in> set (kv_versions kv)")
    case True
    then have "length t \<le> kv_active_version kv"
      using assms(1) by (auto simp: kv_ok_def kv_versions_all)
    then show ?thesis
      using kv_ok_fold_older [OF assms(1), of es] assms(2,4) by (auto simp: loaded_ok_def intro: order_trans)
  next
    case False
    then obtain e es' where es: "es = e # es'" using assms(3) by (cases es) auto
    have top: "ek_version e = length t"
      using assms(2-4) False by (fastforce simp: es loaded_ok_def)
    have one: "kv_ok K t (kv_add_one e kv)" using kv_ok_add_one [OF assms(1), of e] assms(2) top by (auto simp: es loaded_ok_def)
    have act: "length t \<le> kv_active_version (kv_add_one e kv)"
      using False top assms(2) by (auto simp: kv_add_one_def es loaded_ok_def)
    show ?thesis
      using kv_ok_fold_older [OF one, of es'] act assms(2,4) by (fastforce simp: es loaded_ok_def)
  qed
  moreover have "set (kv_all (kv_add es kv)) = set (kv_all (fold kv_add_one es kv))"
    "kv_active_version (kv_add es kv) = kv_active_version (fold kv_add_one es kv)"
    by (simp_all add: kv_add_def Let_def kv_all_def)
  ultimately show ?thesis by (simp add: kv_ok_def)
qed

lemma kv_add_Nil [simp]: "kv_active_version (kv_add [] kv) = kv_active_version kv"
  by (simp add: kv_add_def)

lemma sorted_filter_rev_upt: "sorted_wrt (>) (filter P (rev [1..<n]))"
proof -
  have "sorted_wrt (>) (rev [1..<n])" by (simp add: sorted_wrt_rev)
  then show ?thesis by (rule sorted_wrt_filter)
qed

lemma load_new_loaded:
  assumes "scope_ok K name KEY_SIZE t"
  obtains es where "load_new K KEY_SIZE known t = Inr es" "loaded_ok K t es"
    "ek_version ` set es = {v. 1 \<le> v \<and> v \<le> length t \<and> \<not> known v}" "distinct (map ek_version es)"
proof -
  obtain es where es: "load_new K KEY_SIZE known t = Inr es"
    "map ek_version es = filter (\<lambda>v. \<not> known v) (rev [1..<Suc (length t)])"
    "\<forall>e \<in> set es. stored_key K t (ek_version e) (ek_key e) \<and> length (ek_key e) = KEY_SIZE \<and> (ek_active e \<longleftrightarrow> ek_version e = length t)"
    by (rule load_new_spec [OF assms])
  have "sorted_wrt (>) (map ek_version es)" unfolding es(2) by (rule sorted_filter_rev_upt)
  then have "loaded_ok K t es" using es(3) by (simp add: loaded_ok_def sorted_wrt_map)
  moreover have "ek_version ` set es = {v. 1 \<le> v \<and> v \<le> length t \<and> \<not> known v}"
    using arg_cong [OF es(2), of set] by auto
  moreover have "distinct (map ek_version es)" unfolding es(2) by simp
  ultimately show ?thesis using that es(1) by blast
qed

text \<open>
  Reloading: the engine then holds every stored version, encrypts with the newest, and keeps what
  it held.
\<close>

lemma reload_spec:
  assumes "engine_ok K s en" "scope_ok K (kms_key_name i) KEY_SIZE (s (kms_key_name i))"
    "key_size_bytes (en_config en) = KEY_SIZE"
  obtains b en' where "reload_kms_key s i en = (Inr b, en')" "engine_ok K s en'"
    "en_config en' = en_config en" "en_stats en' = en_stats en"
    "\<not> b \<longrightarrow> en' = en"
    "s (kms_key_name i) \<noteq> [] \<longrightarrow> (\<exists>kv. en_keys en' i = Some kv \<and> length (s (kms_key_name i)) \<le> kv_active_version kv)"
    "\<forall>v k. stored_key K (s (kms_key_name i)) v k \<longrightarrow> (\<exists>kv. en_keys en' i = Some kv \<and> (v, k) \<in> set (kv_all kv))"
proof -
  let ?t = "s (kms_key_name i)"
  let ?known = "case en_keys en i of Some kv \<Rightarrow> kv_versions kv | None \<Rightarrow> []"
  obtain es where es: "load_new K KEY_SIZE (\<lambda>v. v \<in> set ?known) ?t = Inr es" "loaded_ok K ?t es"
    "ek_version ` set es = {v. 1 \<le> v \<and> v \<le> length ?t \<and> v \<notin> set ?known}" "distinct (map ek_version es)"
    by (rule load_new_loaded [OF assms(2)])
  let ?en = "if es = [] then en else add_versions i es en"
  have r: "reload_kms_key s i en = (Inr (es \<noteq> []), ?en)"
    using assms(1,3) es(1) by (auto simp: reload_kms_key_def engine_ok_def Let_def)
  have le: "\<forall>e \<in> set es. ek_version e \<le> length ?t" using es(3) by auto
  have held: "1 \<le> v \<and> v \<le> length ?t" if "stored_key K ?t v k" for v k
    using stored_version [OF assms(2)] that by blast
  have new: "(\<exists>e \<in> set es. ek_version e = v \<and> ek_key e = k)" if st: "stored_key K ?t v k" "v \<notin> set ?known" for v k
  proof -
    have "v \<in> ek_version ` set es" using es(3) held [OF st(1)] st(2) by simp
    then obtain e where e: "e \<in> set es" "ek_version e = v" by blast
    then have "ek_key e = k" using es(2) stored_key_unique [OF assms(2) _ st(1)] by (auto simp: loaded_ok_def)
    then show ?thesis using e by blast
  qed
  show ?thesis
  proof (cases "en_keys en i")
    case (Some kv)
    have kv: "kv_ok K ?t kv" using assms(1) Some by (simp add: engine_ok_def)
    have newest: "length ?t \<in> set (kv_versions kv) \<or> length ?t \<in> ek_version ` set es" if "?t \<noteq> []"
      using es(3) Some that by (auto simp: Suc_le_eq)
    have all: "set (kv_all (kv_add es kv)) = set (kv_all kv) \<union> new_versions es kv" by (rule kv_add_all [OF es(4)])
    have en': "en_keys ?en i = Some (if es = [] then kv else kv_add es kv)" using Some by (simp add: add_versions_def)
    have nil: "es = []" if "?t = []"
    proof -
      have "ek_version ` set es = {}" unfolding es(3) using that by auto
      then show ?thesis by simp
    qed
    have kv': "kv_ok K ?t (if es = [] then kv else kv_add es kv)"
      "?t \<noteq> [] \<longrightarrow> length ?t \<le> kv_active_version (if es = [] then kv else kv_add es kv)"
      using kv kv_ok_add [OF kv es(2) newest le] newest nil by (auto simp: kv_ok_def kv_versions_all)
    have ok': "engine_ok K s ?en" using assms(1) Some kv'(1) by (auto simp: engine_ok_def add_versions_def)
    have stored: "(v, k) \<in> set (kv_all (if es = [] then kv else kv_add es kv))" if st: "stored_key K ?t v k" for v k
    proof (cases "v \<in> set (kv_versions kv)")
      case True
      then obtain k' where k': "(v, k') \<in> set (kv_all kv)" by (auto simp: kv_versions_all)
      then have "stored_key K ?t v k'" using kv held [OF st] by (auto simp: kv_ok_def)
      then show ?thesis using stored_key_unique [OF assms(2) _ st] k' all by auto
    next
      case False
      then show ?thesis using new [OF st] Some all by (auto simp: new_versions_def)
    qed
    show ?thesis
      by (rule that [OF r ok']) (use en' kv' stored in \<open>auto simp: add_versions_def split: option.splits\<close>)
  next
    case None
    show ?thesis
    proof (cases es)
      case Nil
      then have "?t = []" using es(3) None by (auto simp: Suc_le_eq)
      then show ?thesis using that [OF r] Nil assms(1) held by (auto simp: stored_key_def)
    next
      case (Cons e es')
      let ?kv0 = "\<lparr>kv_active = ek_key e, kv_active_version = ek_version e, kv_previous = []\<rparr>"
      have all_new: "ek_version ` set es = {1..length ?t}" using es(3) None by auto
      have "length ?t \<in> ek_version ` set es" unfolding all_new using Cons all_new by (cases ?t) auto
      then have e: "ek_version e = length ?t" using es(2) le Cons by (fastforce simp: loaded_ok_def)
      have tail: "loaded_ok K ?t es'" "\<forall>x \<in> set es'. ek_version x \<le> length ?t" "distinct (map ek_version es')"
        using es(2,4) le Cons by (auto simp: loaded_ok_def)
      have kv0: "kv_ok K ?t ?kv0" using es(2) Cons by (simp add: kv_ok_def kv_all_def loaded_ok_def)
      have kv': "kv_ok K ?t (kv_add es' ?kv0) \<and> length ?t \<le> kv_active_version (kv_add es' ?kv0)"
        using kv_ok_add [OF kv0 tail(1) _ tail(2)] e by (simp add: kv_versions_def)
      have all: "set (kv_all (kv_add es' ?kv0)) = insert (ek_version e, ek_key e) (new_versions es' ?kv0)"
        using kv_add_all [OF tail(3), of ?kv0] by (simp add: kv_all_def)
      have en': "en_keys ?en i = Some (kv_add es' ?kv0)" using None Cons by (simp add: add_versions_def)
      have ok': "engine_ok K s ?en" using assms(1) None kv' Cons by (auto simp: engine_ok_def add_versions_def)
      have stored: "(v, k) \<in> set (kv_all (kv_add es' ?kv0))" if st: "stored_key K ?t v k" for v k
      proof -
        have "{x \<in> set es'. ek_version x \<notin> set (kv_versions ?kv0)} = set es'"
          using es(4) Cons by (auto simp: kv_versions_def image_iff)
        then have "set (kv_all (kv_add es' ?kv0)) = (\<lambda>x. (ek_version x, ek_key x)) ` set es"
          using all Cons by (simp add: new_versions_def)
        moreover obtain x where "x \<in> set es" "ek_version x = v" "ek_key x = k" using new [OF st] None by auto
        ultimately show ?thesis by blast
      qed
      show ?thesis
        by (rule that [OF r ok']) (use en' kv' stored Cons in \<open>auto simp: add_versions_def split: option.splits\<close>)
    qed
  qed
qed

subsection \<open>Round trip\<close>

text \<open>
  The ideal of an authenticated cipher: a ciphertext is accepted, with its nonce, only by the
  algorithm and under the key and associated data it was made with.
\<close>

definition aead_ideal :: "crypto \<Rightarrow> bool" where
  "aead_ideal C \<longleftrightarrow>
     (\<forall>a k n m aad c a' k' aad' m'. length k = 32 \<and> length n = 12 \<and> cr_encrypt C a k n m aad = Inr c
        \<and> cr_decrypt C a' k' n c aad' = Inr m' \<longrightarrow> a' = a \<and> k' = k \<and> aad' = aad)"

text \<open>\<open>serde_json\<close> reads back what it wrote, for a value without repeated keys.\<close>

definition json_round_trips :: "json_env \<Rightarrow> json_value \<Rightarrow> bool" where
  "json_round_trips J v \<longleftrightarrow> json_parse J (json_text J v) = Inr v"

text \<open>What a payload made by \<open>encrypt_value\<close> consists of.\<close>

lemma encrypt_value_Inr:
  assumes "encrypt_value E C J rd payload pii retention aad en = (Inr ep, en')"
  obtains k data c where "active_key en = Inr k" "length k = 32"
    "(if ec_compression_enabled (en_config en) then compress_data C (json_text J payload) else Inr (json_text J payload)) = Inr data"
    "cr_encrypt C (ec_algorithm (en_config en)) k (cl_nonce rd) data aad = Inr c"
    "ep_ciphertext ep = cr_b64_encode C (take (length c - 16) c)" "ep_nonce ep = cr_b64_encode C (cl_nonce rd)"
    "ep_tag ep = cr_b64_encode C (drop (length c - 16) c)"
    "em_algorithm (ep_metadata ep) = ec_algorithm (en_config en)" "em_key_id (ep_metadata ep) = engine_key_id en"
    "em_compressed (ep_metadata ep) = ec_compression_enabled (en_config en)" "em_encrypted_fields (ep_metadata ep) = pii"
    "em_payload_hash (ep_metadata ep) = keyed_payload_hash C k (json_text J payload)"
    "em_retention_policy (ep_metadata ep) = retention"
    "em_delete_at (ep_metadata ep) = calculate_deletion_time E retention (cl_now rd) None (ec_default_retention (en_config en))"
    "en_config en' = en_config en" "en_keys en' = en_keys en"
proof -
  obtain k where k: "active_key en = Inr k" using assms by (cases "active_key en") (simp_all add: encrypt_value_def)
  let ?packed = "if ec_compression_enabled (en_config en) then compress_data C (json_text J payload) else Inr (json_text J payload)"
  obtain data where data: "?packed = Inr data"
    using assms k by (cases ?packed) (simp_all add: encrypt_value_def Let_def)
  let ?enc = "encrypt_data C (ec_algorithm (en_config en)) (cl_nonce rd) k data aad"
  obtain ct nonce tag where enc: "?enc = Inr (ct, nonce, tag)"
    using assms k data by (cases ?enc) (auto simp: encrypt_value_def Let_def)
  obtain c where c: "length k = 32" "cr_encrypt C (ec_algorithm (en_config en)) k (cl_nonce rd) data aad = Inr c"
    "ct = take (length c - 16) c" "nonce = cl_nonce rd" "tag = drop (length c - 16) c"
    using enc by (auto simp: encrypt_data_def check_key_size_def KEY_SIZE_def TAG_SIZE_def split: sum.splits if_splits)
  show ?thesis
    by (rule that [OF k c(1) data c(2)])
      (use assms k data enc c(3-5) in \<open>auto simp: encrypt_value_def Let_def encrypted_payload_new_def metadata_new_def\<close>)
qed

lemma try_candidates_found:
  assumes "k \<in> set ks" "dec k = Inr m" "\<And>k' m'. dec k' = Inr m' \<Longrightarrow> k' = k"
  shows "try_candidates dec ks first = Inr (k, m)"
  using assms(1)
proof (induction ks arbitrary: first)
  case (Cons k' ks)
  show ?case
  proof (cases "dec k'")
    case (Inl e)
    then have "k' \<noteq> k" using assms(2) by auto
    then show ?thesis using Cons Inl by simp
  next
    case (Inr x)
    then have "k' = k" using assms(3) by blast
    then show ?thesis using Inr assms(2) by simp
  qed
qed simp

lemma try_candidates_none:
  assumes "\<And>k m. k \<in> set ks \<Longrightarrow> dec k \<noteq> Inr m"
  shows "\<exists>e. try_candidates dec ks first = Inl e"
  using assms
proof (induction ks arbitrary: first)
  case (Cons k ks)
  then have "\<exists>e. dec k = Inl e" by (cases "dec k") auto
  then show ?case using Cons by auto
qed simp

text \<open>An engine decrypts a payload exactly when it holds the key, and then gets it back.\<close>

lemma decrypt_value_spec:
  assumes "crypto_laws C" "aead_ideal C" "json_round_trips J payload" "length (cl_nonce rd) = 12"
    and enc: "encrypt_value E C J rd payload pii retention aad en = (Inr ep, en')" "active_key en = Inr k"
    and dec: "\<not> en_keys_poisoned en2"
    and m': "ep' = ep\<lparr>ep_metadata := m'\<rparr>" "em_algorithm m' = em_algorithm (ep_metadata ep)"
      "em_compressed m' = em_compressed (ep_metadata ep)" "em_payload_hash m' = em_payload_hash (ep_metadata ep)"
  shows "fst (decrypt_value C J ms ep' aad' en2) = Inr payload \<and> aad' = aad \<and> (\<exists>kv. en_keys en2 (em_key_id m') = Some kv \<and> k \<in> set (kv_candidates kv))
    \<or> (\<exists>e. fst (decrypt_value C J ms ep' aad' en2) = Inl e \<and> snd (decrypt_value C J ms ep' aad' en2) = en2)
      \<and> (aad' = aad \<longrightarrow> (\<forall>kv. en_keys en2 (em_key_id m') = Some kv \<longrightarrow> k \<notin> set (kv_candidates kv)))"
proof -
  obtain k0 data c where ep: "active_key en = Inr k0" "length k0 = 32"
    "(if ec_compression_enabled (en_config en) then compress_data C (json_text J payload) else Inr (json_text J payload)) = Inr data"
    "cr_encrypt C (ec_algorithm (en_config en)) k0 (cl_nonce rd) data aad = Inr c"
    "ep_ciphertext ep = cr_b64_encode C (take (length c - 16) c)" "ep_nonce ep = cr_b64_encode C (cl_nonce rd)"
    "ep_tag ep = cr_b64_encode C (drop (length c - 16) c)"
    "em_algorithm (ep_metadata ep) = ec_algorithm (en_config en)"
    "em_compressed (ep_metadata ep) = ec_compression_enabled (en_config en)"
    "em_payload_hash (ep_metadata ep) = keyed_payload_hash C k0 (json_text J payload)"
    using encrypt_value_Inr [OF enc(1)] by metis
  have k: "k0 = k" using ep(1) enc(2) by simp
  have c: "16 \<le> length c" "cr_decrypt C (ec_algorithm (en_config en)) k (cl_nonce rd) c aad = Inr data"
    using assms(1,4) ep(2,4) k unfolding crypto_laws_def by blast+
  have b64: "b64_decode C (cr_b64_encode C x) = Inr x" for x using assms(1) by (simp add: crypto_laws_def b64_decode_def)
  let ?dec = "\<lambda>k'. decrypt_data C (take (length c - 16) c) (cl_nonce rd) (drop (length c - 16) c) k' (ec_algorithm (en_config en)) aad'"
  have only: "?dec k' = Inr x \<Longrightarrow> k' = k \<and> aad' = aad \<and> x = data" for k' x
  proof -
    assume "?dec k' = Inr x"
    then have x: "cr_decrypt C (ec_algorithm (en_config en)) k' (cl_nonce rd) c aad' = Inr x"
      by (auto simp: decrypt_data_def check_key_size_def split: sum.splits if_splits)
    then have "k' = k \<and> aad' = aad" using assms(2,4) ep(2,4) k unfolding aead_ideal_def by blast
    then show ?thesis using c(2) x by simp
  qed
  have self: "?dec k = Inr data" if "aad' = aad"
    using c ep(2) k assms(4) that by (simp add: decrypt_data_def check_key_size_def KEY_SIZE_def NONCE_SIZE_def TAG_SIZE_def)
  have unpack: "(if ec_compression_enabled (en_config en) then decompress_data C data else Inr data) = Inr (json_text J payload)"
    using ep(3) assms(1) by (auto simp: compress_data_def decompress_data_def crypto_laws_def split: sum.splits if_splits)
  show ?thesis
  proof (cases "\<exists>kv. en_keys en2 (em_key_id m') = Some kv \<and> k \<in> set (kv_candidates kv) \<and> aad' = aad")
    case True
    then obtain kv where kv: "en_keys en2 (em_key_id m') = Some kv" "k \<in> set (kv_candidates kv)" "aad' = aad" by blast
    have "try_candidates ?dec (kv_candidates kv) None = Inr (k, data)"
      using try_candidates_found [of k "kv_candidates kv" ?dec data] kv(2,3) self only by blast
    then have "fst (decrypt_value C J ms ep' aad' en2) = Inr payload"
      using kv dec m' ep(5-10) b64 unpack k assms(3)
      by (simp add: decrypt_value_def Let_def json_round_trips_def keyed_payload_hash_def)
    then show ?thesis using kv by blast
  next
    case False
    have "\<exists>e. decrypt_value C J ms ep' aad' en2 = (Inl e, en2)"
    proof (cases "en_keys en2 (em_key_id m')")
      case None
      then show ?thesis using dec m'(1) by (simp add: decrypt_value_def)
    next
      case (Some kv)
      have "\<exists>e. try_candidates ?dec (kv_candidates kv) None = Inl e"
        using False Some only by (intro try_candidates_none) blast
      then show ?thesis using Some dec m' ep(5-8) b64 by (auto simp: decrypt_value_def Let_def)
    qed
    then show ?thesis using False by auto
  qed
qed

lemma config_key_size: "key_size_bytes c = KEY_SIZE"
  by (cases "ec_algorithm c") (simp_all add: key_size_bytes_def KEY_SIZE_def)

lemma encrypt_associated_Inr:
  "encrypt_payload_with_associated_data E C J rd payload pii retention aad en = (Inr ep, en') \<Longrightarrow>
     encrypt_value E C J rd payload pii retention aad en = (Inr ep, en')"
  by (auto simp: encrypt_payload_with_associated_data_def split: prod.splits sum.splits)

text \<open>Decrypting with a reload, for an engine that holds or can load the key.\<close>

lemma decrypt_with_reload:
  assumes "crypto_laws C" "aead_ideal C" "json_round_trips J payload" "length (cl_nonce rd) = 12"
    and enc: "encrypt_value E C J rd payload pii retention aad en = (Inr ep, en')" "active_key en = Inr k"
    and B: "engine_ok K s B" "scope_ok K (kms_key_name i) KEY_SIZE (s (kms_key_name i))" "stored_key K (s (kms_key_name i)) v k"
    and m': "ep' = ep\<lparr>ep_metadata := m'\<rparr>" "em_algorithm m' = em_algorithm (ep_metadata ep)"
      "em_compressed m' = em_compressed (ep_metadata ep)" "em_payload_hash m' = em_payload_hash (ep_metadata ep)"
      "em_key_id m' = i"
  shows "fst (decrypt_payload_with_associated_data C J ms s ep' aad B) = Inr payload"
proof -
  note spec = decrypt_value_spec [OF assms(1-4) enc _ m'(1-4), where aad' = aad and ms = ms]
  have nB: "\<not> en_keys_poisoned B" "en_kms B = Some K" using B(1) by (auto simp: engine_ok_def)
  consider "fst (decrypt_value C J ms ep' aad B) = Inr payload"
    | e where "decrypt_value C J ms ep' aad B = (Inl e, B)"
      "\<forall>kv. en_keys B i = Some kv \<longrightarrow> k \<notin> set (kv_candidates kv)"
    using spec [OF nB(1)] m'(5) by (metis prod.collapse)
  then show ?thesis
  proof cases
    case 1
    then show ?thesis by (auto simp: decrypt_payload_with_associated_data_def split: prod.splits sum.splits)
  next
    case 2
    obtain b B' where r: "reload_kms_key s i B = (Inr b, B')" "engine_ok K s B'" "\<not> b \<longrightarrow> B' = B"
      "\<forall>v k. stored_key K (s (kms_key_name i)) v k \<longrightarrow> (\<exists>kv. en_keys B' i = Some kv \<and> (v, k) \<in> set (kv_all kv))"
      using reload_spec [OF B(1,2) config_key_size] by metis
    obtain kv where kv: "en_keys B' i = Some kv" "(v, k) \<in> set (kv_all kv)" using r(4) B(3) by blast
    then have k: "k \<in> set (kv_candidates kv)" by (force simp: kv_candidates_all)
    then have b: b using r(3) kv(1) 2(2) by auto
    have "\<not> en_keys_poisoned B'" using r(2) by (simp add: engine_ok_def)
    then have "fst (decrypt_value C J ms ep' aad B') = Inr payload" using spec k kv(1) m'(5) by blast
    then show ?thesis
      using 2(1) r(1) b nB(2) m'(1,5)
      by (auto simp: decrypt_payload_with_associated_data_def split: prod.splits sum.splits)
  qed
qed

text \<open>Whatever else of the stored metadata was changed, only the original context is accepted.\<close>

lemma decrypt_value_authentic:
  assumes "crypto_laws C" "aead_ideal C" "length (cl_nonce rd) = 12"
    and enc: "encrypt_value E C J rd payload pii retention aad en = (Inr ep, en')"
    and dec: "fst (decrypt_value C J ms (ep\<lparr>ep_metadata := m'\<rparr>) aad' B) = Inr v"
  shows "aad' = aad \<and> em_algorithm m' = em_algorithm (ep_metadata ep)"
proof -
  obtain k data c where ep: "length k = 32" "cr_encrypt C (ec_algorithm (en_config en)) k (cl_nonce rd) data aad = Inr c"
    "ep_ciphertext ep = cr_b64_encode C (take (length c - 16) c)" "ep_nonce ep = cr_b64_encode C (cl_nonce rd)"
    "ep_tag ep = cr_b64_encode C (drop (length c - 16) c)"
    "em_algorithm (ep_metadata ep) = ec_algorithm (en_config en)"
    using encrypt_value_Inr [OF enc] by metis
  have b64: "b64_decode C (cr_b64_encode C x) = Inr x" for x using assms(1) by (simp add: crypto_laws_def b64_decode_def)
  let ?dec = "\<lambda>k'. decrypt_data C (take (length c - 16) c) (cl_nonce rd) (drop (length c - 16) c) k' (em_algorithm m') aad'"
  obtain kv where kv: "en_keys B (em_key_id m') = Some kv" "\<exists>x. try_candidates ?dec (kv_candidates kv) None = Inr x"
    using dec ep(3-5) b64 by (auto simp: decrypt_value_def Let_def split: if_splits option.splits sum.splits)
  obtain k' x where "?dec k' = Inr x" using try_candidates_none [of "kv_candidates kv" ?dec None] kv(2) by fastforce
  then have "cr_decrypt C (em_algorithm m') k' (cl_nonce rd) c aad' = Inr x"
    by (auto simp: decrypt_data_def check_key_size_def split: sum.splits if_splits)
  then show ?thesis using assms(2,3) ep(1,2,6) unfolding aead_ideal_def by metis
qed

lemma decrypt_authentic:
  assumes "crypto_laws C" "aead_ideal C" "length (cl_nonce rd) = 12"
    "encrypt_value E C J rd payload pii retention aad en = (Inr ep, en')"
    and dec: "fst (decrypt_payload_with_associated_data C J ms s (ep\<lparr>ep_metadata := m'\<rparr>) aad' B) = Inr v"
  shows "aad' = aad \<and> em_algorithm m' = em_algorithm (ep_metadata ep)"
proof -
  have "\<exists>B. fst (decrypt_value C J ms (ep\<lparr>ep_metadata := m'\<rparr>) aad' B) = Inr v"
    using dec by (auto simp: decrypt_payload_with_associated_data_def split: prod.splits sum.splits bool.splits if_splits)
      (metis fst_conv)+
  then show ?thesis using decrypt_value_authentic [OF assms(1-4)] by blast
qed

subsection \<open>How engines come to hold the stored keys\<close>

lemma kv_ok_later:
  "kv_ok K t kv \<Longrightarrow> (\<forall>v k. stored_key K t v k \<longrightarrow> stored_key K t' v k) \<Longrightarrow> kv_ok K t' kv"
  by (auto simp: kv_ok_def)

lemma kms_key_name_eq [simp]: "kms_key_name i = kms_key_name j \<longleftrightarrow> i = j"
  by (simp add: kms_key_name_def)

lemma engine_okD: "engine_ok K s en \<Longrightarrow> en_keys en i = Some kv \<Longrightarrow> kv_ok K (s (kms_key_name i)) kv"
  by (simp add: engine_ok_def)

text \<open>An engine that holds one key.\<close>

lemma engine_ok_single:
  assumes "en_keys en = [i \<mapsto> kv]" "en_kms en = Some K" "\<not> en_keys_poisoned en" "kv_ok K (s (kms_key_name i)) kv"
  shows "engine_ok K s en"
  using assms by (auto simp: engine_ok_def split: if_splits)

lemma engine_ok_later:
  assumes "engine_ok K s en" "\<forall>v k. stored_key K (s (kms_key_name i)) v k \<longrightarrow> stored_key K t v k"
  shows "engine_ok K (s(kms_key_name i := t)) en"
proof -
  have "kv_ok K ((s(kms_key_name i := t)) (kms_key_name j)) kv" if "en_keys en j = Some kv" for j kv
    using engine_okD [OF assms(1) that] kv_ok_later [OF _ assms(2)] by (cases "j = i") auto
  then show ?thesis using assms(1) by (simp add: engine_ok_def)
qed

lemma engine_ok_add:
  assumes "engine_ok K s en" "loaded_ok K (s (kms_key_name i)) es" "length (s (kms_key_name i)) \<in> ek_version ` set es"
    "\<forall>e \<in> set es. ek_version e \<le> length (s (kms_key_name i))" "es = [e]"
  shows "engine_ok K s (add_versions i es en)"
proof (cases "en_keys en i")
  case (Some kv)
  then have "kv_ok K (s (kms_key_name i)) kv" using assms(1) by (simp add: engine_ok_def)
  then have "kv_ok K (s (kms_key_name i)) (kv_add es kv)" using kv_ok_add [OF _ assms(2) _ assms(4)] assms(3) by blast
  then show ?thesis using assms(1) Some by (auto simp: engine_ok_def add_versions_def)
next
  case None
  have "kv_ok K (s (kms_key_name i)) (kv_add [] \<lparr>kv_active = ek_key e, kv_active_version = ek_version e, kv_previous = []\<rparr>)"
    using assms(2,5) by (simp add: kv_ok_def kv_add_def kv_all_def loaded_ok_def)
  then show ?thesis using assms(1,5) None by (auto simp: engine_ok_def add_versions_def)
qed

lemma with_kms_store_ok:
  assumes "kms_laws K" "name = kms_key_name (config_key_id c)" "scope_ok K name KEY_SIZE (s name)"
    "others_ok K name KEY_SIZE i f" "others_ok K name KEY_SIZE i g" "others_ok K name KEY_SIZE i h"
    "with_kms_store K call i now f g h c s = (Inr en, s')"
  shows "engine_ok K s' en \<and> scope_ok K name KEY_SIZE (s' name) \<and> en_config en = c
    \<and> (\<exists>kv. en_keys en (config_key_id c) = Some kv \<and> kv_active_version kv \<noteq> 0)"
proof -
  obtain e t where l: "load_or_create K call i now f g name KEY_SIZE (s name) = (Inr e, t)"
    using assms(2,7) by (auto simp: with_kms_store_def Let_def config_key_size split: prod.splits sum.splits)
  note e = load_or_create_spec [OF assms(1,3-5) l]
  let ?kv = "\<lparr>kv_active = ek_key e, kv_active_version = ek_version e, kv_previous = []\<rparr>"
  have pos: "1 \<le> ek_version e" using stored_version [of K name KEY_SIZE t] e by blast
  have "stored_key K t (ek_version e) (ek_key e)" "length (ek_key e) = KEY_SIZE" using e by blast+
  then have kv: "kv_ok K t ?kv" by (simp add: kv_ok_def kv_all_def)
  show ?thesis
  proof (cases "1 < ek_version e")
    case False
    then have en: "en_keys en = [config_key_id c \<mapsto> ?kv]" "s' = s(name := t)" "en_kms en = Some K" "\<not> en_keys_poisoned en" "en_config en = c"
      using assms(2,7) l by (simp_all add: with_kms_store_def Let_def config_key_size, auto)
    have "engine_ok K s' en" by (rule engine_ok_single [OF en(1,3,4)]) (use kv en(2) assms(2) in simp)
    then show ?thesis using en pos conjunct1 [OF e] by simp
  next
    case True
    have h: "scope_ok K name KEY_SIZE (h t)" "length t \<le> length (h t)" "\<forall>v k. stored_key K t v k \<longrightarrow> stored_key K (h t) v k"
      using table_steps [of K name KEY_SIZE i t "h t"] e assms(6) by (auto simp: others_ok_def)
    obtain es where es: "load_new K KEY_SIZE (\<lambda>v. v = ek_version e) (h t) = Inr es" "loaded_ok K (h t) es"
      "ek_version ` set es = {v. 1 \<le> v \<and> v \<le> length (h t) \<and> \<not> v = ek_version e}"
      by (rule load_new_loaded [OF h(1)])
    have "kv_ok K (h t) (kv_add es ?kv) \<and> length (h t) \<le> kv_active_version (kv_add es ?kv)"
    proof (rule kv_ok_add [OF kv_ok_later [OF kv h(3)] es(2)])
      show "length (h t) \<in> set (kv_versions ?kv) \<or> length (h t) \<in> ek_version ` set es"
        unfolding es(3) using h(2) e pos by (auto simp: kv_versions_def)
      show "\<forall>x \<in> set es. ek_version x \<le> length (h t)" using es(3) by auto
    qed
    then have kv': "kv_ok K (h t) (kv_add es ?kv)" "kv_active_version (kv_add es ?kv) \<noteq> 0" using h(2) e pos by auto
    have en: "en_keys en = [config_key_id c \<mapsto> kv_add es ?kv]" "s' = s(name := h t)" "en_kms en = Some K"
      "\<not> en_keys_poisoned en" "en_config en = c"
      using assms(2,7) l True es(1) by (simp_all add: with_kms_store_def Let_def config_key_size, auto)
    have "engine_ok K s' en" by (rule engine_ok_single [OF en(1,3,4)]) (use kv' en(2) assms(2) in simp)
    then show ?thesis using en kv'(2) h(1) by simp
  qed
qed

lemma rotate_kms_key_ok:
  assumes "kms_laws K" "name = kms_key_name (engine_key_id en)" "scope_ok K name KEY_SIZE (s name)"
    "others_ok K name KEY_SIZE i f" "engine_ok K s en" "rotate_kms_key call i now f s en = (x, s', en')"
  shows "engine_ok K s' en' \<and> scope_ok K name KEY_SIZE (s' name)
    \<and> (\<forall>B. engine_ok K s B \<longrightarrow> engine_ok K s' B)
    \<and> (\<forall>v. x = Inr v \<longrightarrow> v = length (s' name) \<and> v = Suc (length (s name))
         \<and> (\<exists>kv. en_keys en' (engine_key_id en) = Some kv \<and> v \<le> kv_active_version kv))"
proof -
  have K: "en_kms en = Some K" "\<not> en_keys_poisoned en" using assms(5) by (auto simp: engine_ok_def)
  obtain y t where rot: "rotate_key K call i now f name KEY_SIZE (s name) = (y, t)" by fastforce
  note spec = rotate_spec [OF assms(1,3,4) rot]
  have later: "engine_ok K (s(name := t)) B" if "engine_ok K s B" for B
    using engine_ok_later [OF that] spec assms(2) by blast
  show ?thesis
  proof (cases y)
    case (Inl e)
    then have "x = Inl e" "s' = s(name := t)" "en' = en"
      using assms(2,6) K rot by (auto simp: rotate_kms_key_def Let_def config_key_size)
    then show ?thesis using spec later assms(5) by auto
  next
    case (Inr e)
    then have r: "x = Inr (ek_version e)" "s' = s(name := t)" "en' = add_versions (engine_key_id en) [e] en"
      using assms(2,6) K rot by (auto simp: rotate_kms_key_def Let_def config_key_size)
    have e: "stored_key K t (ek_version e) (ek_key e)" "ek_version e = length t" "ek_version e = Suc (length (s name))"
      "ek_active e" "length (ek_key e) = KEY_SIZE" using spec Inr by auto
    have "engine_ok K s' en'" unfolding r(3)
      by (rule engine_ok_add) (use later [OF assms(5)] r(2) e assms(2) in \<open>auto simp: loaded_ok_def\<close>)
    moreover have "\<exists>kv. en_keys en' (engine_key_id en) = Some kv \<and> ek_version e \<le> kv_active_version kv"
    proof (cases "en_keys en (engine_key_id en)")
      case None
      then show ?thesis using r(3) by (simp add: add_versions_def)
    next
      case (Some kv)
      then have "kv_ok K t kv" using engine_okD [OF later [OF assms(5)] Some] assms(2) by simp
      then have "length t \<le> kv_active_version (kv_add [e] kv)"
        using kv_ok_add [of K t kv "[e]"] e by (simp add: loaded_ok_def)
      then show ?thesis using r(3) Some e(2) by (simp add: add_versions_def)
    qed
    ultimately show ?thesis using r later e spec by auto
  qed
qed

end
