(* ===== verification/EngineSystem.thy ===== *)
theory EngineSystem
  imports Engine
begin

text \<open>
  Engines of several processes on one key management service and one database. The system's state
  is the store of wrapped keys and the engines; a step is one call of one engine, or a process
  starting or failing to start one, with other calls possible between the database accesses of a
  call. What one engine encrypts, every engine of every later state decrypts.
\<close>

record key_system =
  sy_store :: key_store
  sy_engines :: "engine list"

definition system_new :: key_system where
  "system_new = \<lparr>sy_store = (\<lambda>_. []), sy_engines = []\<rparr>"

inductive kms_step :: "kms \<Rightarrow> key_system \<Rightarrow> key_system \<Rightarrow> bool" for K where
  start: "with_kms_store K call i now f g h c (sy_store y) = (x, s') \<Longrightarrow>
    others_ok K (kms_key_name (config_key_id c)) KEY_SIZE i f \<Longrightarrow>
    others_ok K (kms_key_name (config_key_id c)) KEY_SIZE i g \<Longrightarrow>
    others_ok K (kms_key_name (config_key_id c)) KEY_SIZE i h \<Longrightarrow>
    kms_step K y \<lparr>sy_store = s', sy_engines = (case x of Inr en \<Rightarrow> en # sy_engines y | Inl e \<Rightarrow> sy_engines y)\<rparr>"
| rotate: "n < length (sy_engines y) \<Longrightarrow> rotate_kms_key call i now f (sy_store y) (sy_engines y ! n) = (x, s', en') \<Longrightarrow>
    others_ok K (kms_key_name (engine_key_id (sy_engines y ! n))) KEY_SIZE i f \<Longrightarrow>
    kms_step K y \<lparr>sy_store = s', sy_engines = (sy_engines y)[n := en']\<rparr>"
| reload: "n < length (sy_engines y) \<Longrightarrow> reload_kms_key (sy_store y) key_id (sy_engines y ! n) = (b, en') \<Longrightarrow>
    kms_step K y (y\<lparr>sy_engines := (sy_engines y)[n := en']\<rparr>)"
| encrypt: "n < length (sy_engines y) \<Longrightarrow>
    encrypt_payload_with_associated_data E C J rd payload pii retention aad (sy_engines y ! n) = (r, en') \<Longrightarrow>
    kms_step K y (y\<lparr>sy_engines := (sy_engines y)[n := en']\<rparr>)"
| decrypt: "n < length (sy_engines y) \<Longrightarrow>
    decrypt_payload_with_associated_data C J ms (sy_store y) ep aad (sy_engines y ! n) = (v, en') \<Longrightarrow>
    kms_step K y (y\<lparr>sy_engines := (sy_engines y)[n := en']\<rparr>)"
| add_key: "n < length (sy_engines y) \<Longrightarrow> with_decryption_key key_id (Inr k) (sy_engines y ! n) = Inr en' \<Longrightarrow>
    length k = KEY_SIZE \<Longrightarrow> kms_step K y (y\<lparr>sy_engines := (sy_engines y)[n := en']\<rparr>)"

subsection \<open>Invariant\<close>

definition own_key :: "engine \<Rightarrow> bool" where
  "own_key en \<longleftrightarrow> (\<exists>kv. en_keys en (engine_key_id en) = Some kv \<and> kv_active_version kv \<noteq> 0)"

definition store_ok :: "kms \<Rightarrow> key_store \<Rightarrow> bool" where
  "store_ok K s \<longleftrightarrow> (\<forall>i. scope_ok K (kms_key_name i) KEY_SIZE (s (kms_key_name i)))"

definition system_ok :: "kms \<Rightarrow> key_system \<Rightarrow> bool" where
  "system_ok K y \<longleftrightarrow> store_ok K (sy_store y) \<and> (\<forall>en \<in> set (sy_engines y). engine_ok K (sy_store y) en \<and> own_key en)"

definition store_grows :: "kms \<Rightarrow> key_store \<Rightarrow> key_store \<Rightarrow> bool" where
  "store_grows K s s' \<longleftrightarrow> (\<forall>i v k. stored_key K (s (kms_key_name i)) v k \<longrightarrow> stored_key K (s' (kms_key_name i)) v k)"

lemma engine_ok_grows: "engine_ok K s en \<Longrightarrow> store_grows K s s' \<Longrightarrow> engine_ok K s' en"
proof -
  assume en: "engine_ok K s en" and grows: "store_grows K s s'"
  have "kv_ok K (s' (kms_key_name j)) kv" if "en_keys en j = Some kv" for j kv
    using engine_okD [OF en that] kv_ok_later [of K "s (kms_key_name j)"] grows by (auto simp: store_grows_def)
  then show ?thesis using en by (simp add: engine_ok_def)
qed

lemma own_key_add:
  assumes "own_key en" "engine_ok K s (add_versions i es en)" "engine_ok K s en" "distinct (map ek_version es)"
  shows "own_key (add_versions i es en)"
proof -
  obtain kv where kv: "en_keys en (engine_key_id en) = Some kv" "kv_active_version kv \<noteq> 0" using assms(1) by (auto simp: own_key_def)
  have i: "engine_key_id (add_versions i es en) = engine_key_id en"
    by (simp add: add_versions_def engine_key_id_def split: option.split)
  show ?thesis
  proof (cases "i = engine_key_id en")
    case True
    then have kv': "en_keys (add_versions i es en) i = Some (kv_add es kv)" using kv by (simp add: add_versions_def)
    have "(kv_active_version kv, kv_active kv) \<in> set (kv_all (kv_add es kv))"
      unfolding kv_add_all [OF assms(4)] by (simp add: kv_all_def)
    then have "kv_active_version kv \<le> kv_active_version (kv_add es kv)"
      using engine_okD [OF assms(2) kv'] by (auto simp: kv_ok_def)
    then show ?thesis using kv kv' i True by (auto simp: own_key_def)
  next
    case False
    then have "en_keys (add_versions i es en) (engine_key_id en) = Some kv"
      using kv by (simp add: add_versions_def split: option.split)
    then show ?thesis using kv i by (auto simp: own_key_def)
  qed
qed

lemma reload_own_key:
  assumes "engine_ok K s en" "store_ok K s" "own_key en"
  shows "engine_ok K s (snd (reload_kms_key s i en)) \<and> own_key (snd (reload_kms_key s i en))"
proof -
  have sc: "scope_ok K (kms_key_name i) KEY_SIZE (s (kms_key_name i))" using assms(2) by (simp add: store_ok_def)
  have ok: "engine_ok K s (snd (reload_kms_key s i en))" by (rule reload_spec [OF assms(1) sc config_key_size]) simp
  let ?known = "case en_keys en i of Some kv \<Rightarrow> kv_versions kv | None \<Rightarrow> []"
  obtain es where es: "load_new K KEY_SIZE (\<lambda>v. v \<in> set ?known) (s (kms_key_name i)) = Inr es" "distinct (map ek_version es)"
    by (rule load_new_loaded [OF sc])
  then have "snd (reload_kms_key s i en) = (if es = [] then en else add_versions i es en)"
    using assms(1) by (auto simp: reload_kms_key_def engine_ok_def Let_def config_key_size)
  then show ?thesis using ok own_key_add [OF assms(3) _ assms(1) es(2)] assms(3) by (auto split: if_splits)
qed

lemma same_keys_ok:
  "en_config en' = en_config en \<Longrightarrow> en_keys en' = en_keys en \<Longrightarrow> en_kms en' = en_kms en \<Longrightarrow>
   en_keys_poisoned en' = en_keys_poisoned en \<Longrightarrow>
   (engine_ok K s en' \<longleftrightarrow> engine_ok K s en) \<and> (own_key en' \<longleftrightarrow> own_key en)"
  by (simp add: engine_ok_def own_key_def engine_key_id_def)

lemma decrypt_value_keys:
  "en_config (snd (decrypt_value C J ms ep aad en)) = en_config en"
  "en_keys (snd (decrypt_value C J ms ep aad en)) = en_keys en"
  "en_kms (snd (decrypt_value C J ms ep aad en)) = en_kms en"
  "en_keys_poisoned (snd (decrypt_value C J ms ep aad en)) = en_keys_poisoned en"
  by (simp_all add: decrypt_value_def Let_def split: option.split sum.split prod.split)

lemma encrypt_value_keys:
  "en_config (snd (encrypt_value E C J rd payload pii retention aad en)) = en_config en"
  "en_keys (snd (encrypt_value E C J rd payload pii retention aad en)) = en_keys en"
  "en_kms (snd (encrypt_value E C J rd payload pii retention aad en)) = en_kms en"
  "en_keys_poisoned (snd (encrypt_value E C J rd payload pii retention aad en)) = en_keys_poisoned en"
  by (simp_all add: encrypt_value_def Let_def split: option.split sum.split prod.split)

text \<open>A table that keeps its keys in order, put in the store.\<close>

lemma store_update:
  assumes "store_ok K s" "scope_ok K (kms_key_name i) KEY_SIZE t"
    "\<forall>v k. stored_key K (s (kms_key_name i)) v k \<longrightarrow> stored_key K t v k"
  shows "store_ok K (s(kms_key_name i := t)) \<and> store_grows K s (s(kms_key_name i := t))"
  using assms by (simp add: store_ok_def store_grows_def)

lemma with_kms_store_table:
  assumes "kms_laws K" "name = kms_key_name (config_key_id c)" "store_ok K s"
    "others_ok K name KEY_SIZE i f" "others_ok K name KEY_SIZE i g" "others_ok K name KEY_SIZE i h"
    "with_kms_store K call i now f g h c s = (x, s')"
  shows "store_ok K s' \<and> store_grows K s s'"
proof -
  have sc: "scope_ok K name KEY_SIZE (s name)" using assms(2,3) by (simp add: store_ok_def)
  obtain z t where l: "load_or_create K call i now f g name KEY_SIZE (s name) = (z, t)" by fastforce
  note t = load_or_create_table [OF assms(1) sc assms(4,5) l]
  have h: "scope_ok K name KEY_SIZE (h t)" "\<forall>v k. stored_key K t v k \<longrightarrow> stored_key K (h t) v k"
    using table_steps [of K name KEY_SIZE i t "h t"] t assms(6) by (auto simp: others_ok_def)
  have "s' = s(name := t) \<or> s' = s(name := h t)"
    using assms(2,7) l
    by (auto simp: with_kms_store_def Let_def config_key_size split: sum.splits if_splits)
  moreover have "store_ok K (s(name := t)) \<and> store_grows K s (s(name := t))"
    unfolding assms(2) by (rule store_update [OF assms(3)]) (use t assms(2) in auto)
  moreover have "store_ok K (s(name := h t)) \<and> store_grows K s (s(name := h t))"
    unfolding assms(2) by (rule store_update [OF assms(3)]) (use t h assms(2) in auto)
  ultimately show ?thesis by auto
qed

lemma rotate_kms_key_table:
  assumes "kms_laws K" "name = kms_key_name (engine_key_id en)" "store_ok K s" "others_ok K name KEY_SIZE i f"
    "engine_ok K s en" "own_key en" "rotate_kms_key call i now f s en = (x, s', en')"
  shows "store_ok K s' \<and> store_grows K s s' \<and> engine_ok K s' en' \<and> own_key en'"
proof -
  have K: "en_kms en = Some K" "\<not> en_keys_poisoned en" using assms(5) by (auto simp: engine_ok_def)
  have sc: "scope_ok K name KEY_SIZE (s name)" using assms(2,3) by (simp add: store_ok_def)
  obtain y t where rot: "rotate_key K call i now f name KEY_SIZE (s name) = (y, t)" by fastforce
  note spec = rotate_spec [OF assms(1) sc assms(4) rot]
  note ok = rotate_kms_key_ok [OF assms(1,2) sc assms(4,5,7)]
  have s': "s' = s(name := t)"
    using assms(2,7) K rot by (auto simp: rotate_kms_key_def Let_def config_key_size split: sum.splits)
  have "store_ok K (s(name := t)) \<and> store_grows K s (s(name := t))"
    unfolding assms(2) by (rule store_update [OF assms(3)]) (use spec assms(2) in auto)
  moreover have "own_key en'"
  proof (cases y)
    case (Inl e)
    then show ?thesis using assms(2,6,7) K rot by (simp add: rotate_kms_key_def Let_def config_key_size)
  next
    case (Inr e)
    then have "x = Inr (ek_version e)" "en' = add_versions (engine_key_id en) [e] en"
      using assms(2,7) K rot by (auto simp: rotate_kms_key_def Let_def config_key_size)
    moreover have "engine_key_id (add_versions (engine_key_id en) [e] en) = engine_key_id en"
      by (simp add: add_versions_def engine_key_id_def split: option.split)
    ultimately show ?thesis using ok by (auto simp: own_key_def)
  qed
  ultimately show ?thesis using s' ok by simp
qed

lemma decrypt_keys_ok:
  assumes "engine_ok K s en" "store_ok K s" "own_key en"
    "decrypt_payload_with_associated_data C J ms s ep aad en = (v, en')"
  shows "engine_ok K s en' \<and> own_key en'"
proof -
  let ?i = "em_key_id (ep_metadata ep)"
  have stats: "engine_ok K s (en1\<lparr>en_stats := st\<rparr>) = engine_ok K s en1" "own_key (en1\<lparr>en_stats := st\<rparr>) = own_key en1" for en1 st
    using same_keys_ok [of "en1\<lparr>en_stats := st\<rparr>" en1] by simp_all
  have value_ok: "engine_ok K s (snd (decrypt_value C J ms ep aad en1)) = engine_ok K s en1"
    "own_key (snd (decrypt_value C J ms ep aad en1)) = own_key en1" for en1
    using same_keys_ok [OF decrypt_value_keys] by blast+
  obtain r en1 where one: "decrypt_value C J ms ep aad en = (r, en1)" by fastforce
  then have ok1: "engine_ok K s en1" "own_key en1" using value_ok [of en] assms(1,3) by simp_all
  obtain b en2 where two: "reload_kms_key s ?i en1 = (b, en2)" by fastforce
  then have ok2: "engine_ok K s en2" "own_key en2" using reload_own_key [OF ok1(1) assms(2) ok1(2), of ?i] by simp_all
  obtain r3 en3 where three: "decrypt_value C J ms ep aad en2 = (r3, en3)" by fastforce
  then have ok3: "engine_ok K s en3" "own_key en3" using value_ok [of en2] ok2 by simp_all
  have "\<exists>x \<in> {en1, en2, en3}. en' = x \<or> en' = x\<lparr>en_stats := record_decryption_error (en_stats x)\<rparr>"
    using assms(4) one two three
    by (auto simp: decrypt_payload_with_associated_data_def split: sum.splits if_splits bool.splits)
  then show ?thesis using ok1 ok2 ok3 stats by auto
qed

lemma encrypt_keys_ok:
  assumes "encrypt_payload_with_associated_data E C J rd payload pii retention aad en = (r, en')"
  shows "(engine_ok K s en' \<longleftrightarrow> engine_ok K s en) \<and> (own_key en' \<longleftrightarrow> own_key en)"
proof -
  obtain r1 en1 where one: "encrypt_value E C J rd payload pii retention aad en = (r1, en1)" by fastforce
  have "en_config en1 = en_config en" "en_keys en1 = en_keys en" "en_kms en1 = en_kms en" "en_keys_poisoned en1 = en_keys_poisoned en"
    using encrypt_value_keys [of E C J rd payload pii retention aad en] one by simp_all
  then show ?thesis
    using assms one by (intro same_keys_ok) (auto simp: encrypt_payload_with_associated_data_def split: sum.splits)
qed

lemma add_key_ok:
  assumes "with_decryption_key key_id (Inr k) en = Inr en'" "length k = KEY_SIZE" "engine_ok K s en" "own_key en"
  shows "engine_ok K s en' \<and> own_key en'"
proof -
  have en': "en' = en\<lparr>en_keys := (en_keys en)(key_id \<mapsto> kv_single k)\<rparr>" "key_id \<noteq> engine_key_id en"
    using assms(1) by (auto simp: with_decryption_key_def split: if_splits)
  have "kv_ok K t (kv_single k)" for t using assms(2) by (simp add: kv_ok_def kv_all_def kv_single_def)
  then show ?thesis using en' assms(3,4) by (auto simp: engine_ok_def own_key_def engine_key_id_def)
qed

text \<open>Replacing one engine of a sound system.\<close>

lemma system_replace:
  assumes "system_ok K y" "engine_ok K (sy_store y) en' \<and> own_key en'"
  shows "system_ok K (y\<lparr>sy_engines := (sy_engines y)[n := en']\<rparr>)"
  using assms set_update_subset_insert [of "sy_engines y" n en'] by (auto simp: system_ok_def)

lemma system_grow:
  assumes "system_ok K y" "store_ok K s'" "store_grows K (sy_store y) s'" "\<forall>en \<in> set ens. en \<in> set (sy_engines y) \<or> engine_ok K s' en \<and> own_key en"
  shows "system_ok K \<lparr>sy_store = s', sy_engines = ens\<rparr>"
  using assms(1,2,4) engine_ok_grows [OF _ assms(3)] unfolding system_ok_def by simp blast

lemma kms_step_ok:
  assumes "kms_step K y y'" "kms_laws K" "system_ok K y"
  shows "system_ok K y' \<and> store_grows K (sy_store y) (sy_store y')"
  using assms
proof (induction rule: kms_step.induct)
  case (start call i now f g h c y x s')
  have st: "store_ok K (sy_store y)" using start.prems by (simp add: system_ok_def)
  note table = with_kms_store_table [OF start.prems(1) refl st start.hyps(2-4,1)]
  have new: "engine_ok K s' en \<and> own_key en" if "x = Inr en" for en
    using with_kms_store_ok [OF start.prems(1) refl _ start.hyps(2-4) start.hyps(1) [unfolded that]] st
    by (auto simp: store_ok_def own_key_def engine_key_id_def)
  have "system_ok K \<lparr>sy_store = s', sy_engines = (case x of Inr en \<Rightarrow> en # sy_engines y | Inl e \<Rightarrow> sy_engines y)\<rparr>"
    by (rule system_grow [OF start.prems(2)]) (use table new in \<open>auto split: sum.splits\<close>)
  then show ?case using table by simp
next
  case (rotate n y call i now f x s' en')
  have st: "store_ok K (sy_store y)" and en: "engine_ok K (sy_store y) (sy_engines y ! n)" "own_key (sy_engines y ! n)"
    using rotate by (auto simp: system_ok_def)
  note table = rotate_kms_key_table [OF rotate.prems(1) refl st rotate.hyps(3) en rotate.hyps(2)]
  have "system_ok K \<lparr>sy_store = s', sy_engines = (sy_engines y)[n := en']\<rparr>"
    by (rule system_grow [OF rotate.prems(2)])
      (use table set_update_subset_insert [of "sy_engines y" n en'] in auto)
  then show ?case using table by simp
next
  case (reload n y key_id b en')
  then have "engine_ok K (sy_store y) en' \<and> own_key en'"
    using reload_own_key [of K "sy_store y" "sy_engines y ! n" key_id] by (auto simp: system_ok_def)
  then show ?case using system_replace [OF reload.prems(2)] by (simp add: store_grows_def)
next
  case (encrypt n y E C J rd payload pii retention aad r en')
  then have "engine_ok K (sy_store y) en' \<and> own_key en'"
    using encrypt_keys_ok [OF encrypt.hyps(2), of K "sy_store y"] by (auto simp: system_ok_def)
  then show ?case using system_replace [OF encrypt.prems(2)] by (simp add: store_grows_def)
next
  case (decrypt n y C J ms ep aad v en')
  then have "engine_ok K (sy_store y) en' \<and> own_key en'"
    using decrypt_keys_ok [OF _ _ _ decrypt.hyps(2), of K] by (auto simp: system_ok_def)
  then show ?case using system_replace [OF decrypt.prems(2)] by (simp add: store_grows_def)
next
  case (add_key n y key_id k en')
  then have "engine_ok K (sy_store y) en' \<and> own_key en'"
    using add_key_ok [OF add_key.hyps(2,3), of K "sy_store y"] by (auto simp: system_ok_def)
  then show ?case using system_replace [OF add_key.prems(2)] by (simp add: store_grows_def)
qed

lemma kms_steps_ok:
  assumes "(kms_step K)\<^sup>*\<^sup>* y y'" "kms_laws K" "system_ok K y"
  shows "system_ok K y' \<and> store_grows K (sy_store y) (sy_store y')"
  using assms
proof (induction rule: rtranclp_induct)
  case base
  then show ?case by (simp add: store_grows_def)
next
  case (step y' y'')
  then have "system_ok K y''" "store_grows K (sy_store y') (sy_store y'')" using kms_step_ok [of K y' y''] by auto
  then show ?case using step by (auto simp: store_grows_def)
qed

lemma system_new_ok: "system_ok K system_new"
  by (simp add: system_ok_def system_new_def store_ok_def scope_ok_def)

text \<open>
  What an engine encrypted, an engine of a later state decrypts; the fields of the metadata that
  decryption does not read may have changed.
\<close>

lemma later_engine_decrypts:
  assumes "crypto_laws C" "aead_ideal C" "json_round_trips J payload" "length (cl_nonce rd) = NONCE_SIZE"
    "kms_laws K" "(kms_step K)\<^sup>*\<^sup>* system_new y" "n < length (sy_engines y)"
    "encrypt_payload_with_associated_data E C J rd payload pii retention aad (sy_engines y ! n) = (Inr ep, A)"
    "(kms_step K)\<^sup>*\<^sup>* (y\<lparr>sy_engines := (sy_engines y)[n := A]\<rparr>) y'" "m < length (sy_engines y')"
    and m': "em_algorithm m' = em_algorithm (ep_metadata ep)" "em_compressed m' = em_compressed (ep_metadata ep)"
      "em_payload_hash m' = em_payload_hash (ep_metadata ep)" "em_key_id m' = em_key_id (ep_metadata ep)"
  shows "fst (decrypt_payload_with_associated_data C J ms (sy_store y') (ep\<lparr>ep_metadata := m'\<rparr>) aad (sy_engines y' ! m)) = Inr payload"
proof -
  let ?A = "sy_engines y ! n" and ?B = "sy_engines y' ! m"
  have nonce: "length (cl_nonce rd) = 12" using assms(4) by (simp add: NONCE_SIZE_def)
  note enc = encrypt_associated_Inr [OF assms(8)]
  have ok: "system_ok K y" using kms_steps_ok [OF assms(6,5) system_new_ok] by blast
  then have A: "engine_ok K (sy_store y) ?A" "own_key ?A" using assms(7) by (auto simp: system_ok_def)
  have "kms_step K y (y\<lparr>sy_engines := (sy_engines y)[n := A]\<rparr>)" by (rule kms_step.encrypt [OF assms(7,8)])
  then have later: "system_ok K y' \<and> store_grows K (sy_store y) (sy_store y')"
    using kms_steps_ok [OF converse_rtranclp_into_rtranclp assms(5) ok] assms(9) by blast
  obtain kv where kv: "en_keys ?A (engine_key_id ?A) = Some kv" "kv_active_version kv \<noteq> 0" using A(2) by (auto simp: own_key_def)
  have k: "active_key ?A = Inr (kv_active kv)" using A(1) kv(1) by (simp add: active_key_def engine_ok_def)
  have "stored_key K (sy_store y (kms_key_name (engine_key_id ?A))) (kv_active_version kv) (kv_active kv)"
    using engine_okD [OF A(1) kv(1)] kv(2) by (simp add: kv_ok_def kv_all_def)
  then have st: "stored_key K (sy_store y' (kms_key_name (engine_key_id ?A))) (kv_active_version kv) (kv_active kv)"
    using later by (simp add: store_grows_def)
  have B: "engine_ok K (sy_store y') ?B" using later assms(10) by (simp add: system_ok_def)
  have sc: "scope_ok K (kms_key_name (engine_key_id ?A)) KEY_SIZE (sy_store y' (kms_key_name (engine_key_id ?A)))"
    using later by (simp add: system_ok_def store_ok_def)
  have i: "em_key_id m' = engine_key_id ?A" using encrypt_value_Inr [OF enc] m'(4) by metis
  show ?thesis by (rule decrypt_with_reload [OF assms(1-3) nonce enc k B sc st refl m'(1-3) i])
qed

text \<open>
  C15: Key rotation locks nobody out. In every reachable state of the processes that share a key
  management service and a database, what one engine encrypts is decrypted to the same payload by
  every engine of every later state: also by one that started before the rotation and never loaded
  that version, or by one with another key that only finds the versions in the database, however
  many processes started and rotated keys meanwhile. With other associated data it is refused.
\<close>
theorem rotation_locks_nobody_out:
  assumes "crypto_laws C" and "aead_ideal C" and "json_round_trips J payload" and "length (cl_nonce rd) = NONCE_SIZE"
    and "kms_laws K" and "(kms_step K)\<^sup>*\<^sup>* system_new y" and "n < length (sy_engines y)"
    and "encrypt_payload_with_associated_data E C J rd payload pii retention aad (sy_engines y ! n) = (Inr ep, A)"
    and "(kms_step K)\<^sup>*\<^sup>* (y\<lparr>sy_engines := (sy_engines y)[n := A]\<rparr>) y'" and "m < length (sy_engines y')"
  shows "fst (decrypt_payload_with_associated_data C J ms (sy_store y') ep aad (sy_engines y' ! m)) = Inr payload
    \<and> (\<forall>aad'. aad' \<noteq> aad \<longrightarrow>
         (\<exists>e. fst (decrypt_payload_with_associated_data C J ms (sy_store y') ep aad' (sy_engines y' ! m)) = Inl e))"
proof -
  have nonce: "length (cl_nonce rd) = 12" using assms(4) by (simp add: NONCE_SIZE_def)
  have "\<exists>e. fst (decrypt_payload_with_associated_data C J ms (sy_store y') ep aad' (sy_engines y' ! m)) = Inl e" if other: "aad' \<noteq> aad" for aad'
  proof (cases "fst (decrypt_payload_with_associated_data C J ms (sy_store y') ep aad' (sy_engines y' ! m))")
    case (Inr v)
    then show ?thesis
      using decrypt_authentic [OF assms(1,2) nonce encrypt_associated_Inr [OF assms(8)], where m' = "ep_metadata ep"] other by simp
  qed simp
  moreover have "fst (decrypt_payload_with_associated_data C J ms (sy_store y') ep aad (sy_engines y' ! m)) = Inr payload"
    using later_engine_decrypts [OF assms refl refl refl refl, of ms] by simp
  ultimately show ?thesis by simp
qed

subsection \<open>A sample\<close>

text \<open>A cipher that writes the key and the associated data in front of the message.\<close>

definition sample_decrypt :: "encryption_algorithm \<Rightarrow> bytes \<Rightarrow> bytes \<Rightarrow> bytes \<Rightarrow> string + bytes" where
  "sample_decrypt a k c aad =
     (let r = drop 32 (tl c); n = length (takeWhile (\<lambda>x. x = CHR 0x01) r); r = drop (Suc n) r in
      if length k = 32 \<and> hd c = hd (algorithm_str a) \<and> take 32 (tl c) = k \<and> take n r = aad then Inr (take (length r - n - 16) (drop n r)) else Inl ''refused'')"

definition sample_crypto :: crypto where
  "sample_crypto =
     \<lparr>cr_encrypt = (\<lambda>a k n m aad. Inr (hd (algorithm_str a) # k @ replicate (length aad) (CHR 0x01) @ CHR 0x00 # aad @ m @ replicate 16 (CHR 0x00))),
      cr_decrypt = (\<lambda>a k n c aad. sample_decrypt a k c aad),
      cr_sha256 = (\<lambda>m. m), cr_hmac_sha256 = (\<lambda>k m. m), cr_hex = (\<lambda>m. m), cr_gzip = Inr, cr_gunzip = Inr,
      cr_b64_encode = (\<lambda>m. m), cr_b64_decode = Inr\<rparr>"

lemma takeWhile_replicate_stop: "\<not> P y \<Longrightarrow> P x \<Longrightarrow> takeWhile P (replicate n x @ y # zs) = replicate n x"
  by (induction n) auto

lemma sample_decrypt_iff:
  "length k = 32 \<Longrightarrow>
     sample_decrypt a' k' (hd (algorithm_str a) # k @ replicate (length aad) (CHR 0x01) @ CHR 0x00 # aad @ m @ replicate 16 (CHR 0x00)) aad' =
       (if a' = a \<and> k' = k \<and> aad' = aad then Inr m else Inl ''refused'')"
  by (cases a; cases a') (auto simp: sample_decrypt_def Let_def takeWhile_replicate_stop)

lemma sample_crypto_laws: "crypto_laws sample_crypto" "aead_ideal sample_crypto"
  by (auto simp: crypto_laws_def aead_ideal_def sample_crypto_def sample_decrypt_iff split: if_splits)

definition sample_null_json :: json_env where
  "sample_null_json = \<lparr>json_text = (\<lambda>v. ''null''), json_parse = (\<lambda>t. Inr JNull), time_text = (\<lambda>t. [])\<rparr>"

definition sample_reading :: call_reading where
  "sample_reading = \<lparr>cl_now = 0, cl_nonce = replicate 12 (CHR 0x07), cl_ms = 1\<rparr>"

definition sample_row :: "uuid \<Rightarrow> nat \<Rightarrow> nat \<Rightarrow> bool \<Rightarrow> time option \<Rightarrow> kms_wrapped_key" where
  "sample_row i v c active retired =
     \<lparr>kw_id = i, kw_key_name = ''engine/default'', kw_kms_provider = ''aws'', kw_kms_key_id = ''k'', kw_version = v,
      kw_key_size = 32, kw_wrapped_key = replicate 32 (char_of c), kw_active = active, kw_created_at = 0, kw_retired_at = retired\<rparr>"

definition sample_engine :: "key_versions \<Rightarrow> engine" where
  "sample_engine kv =
     \<lparr>en_config = encryption_config_new AES256GCM, en_keys = [''default'' \<mapsto> kv], en_keys_poisoned = False,
      en_kms = Some sample_kms, en_stats = encryption_stats_new\<rparr>"

definition sample_v1 :: key_versions where
  "sample_v1 = \<lparr>kv_active = replicate 32 (char_of (5 :: nat)), kv_active_version = 1, kv_previous = []\<rparr>"

definition sample_v2 :: key_versions where
  "sample_v2 = \<lparr>kv_active = replicate 32 (char_of (6 :: nat)), kv_active_version = Suc 1, kv_previous = [(1, replicate 32 (char_of (5 :: nat)))]\<rparr>"

definition sample_keys :: "key_table \<Rightarrow> key_store" where
  "sample_keys t = (\<lambda>_. [])(''engine/default'' := t)"

lemmas sample_start_simps = with_kms_store_def load_or_create_def active_record_def generate_checked_def new_record_def
  sample_kms_def Let_def insert_if_absent_def has_version_def insert_row_def unwrap_key_def config_key_id_def
  encryption_config_new_def kms_key_name_def key_size_bytes_def sample_keys_def sample_row_def sample_engine_def sample_v1_def

lemma sample_first:
  "with_kms_store sample_kms 5 1 0 (\<lambda>t. t) (\<lambda>t. t) (\<lambda>t. t) (encryption_config_new AES256GCM) (\<lambda>_. []) =
     (Inr (sample_engine sample_v1), sample_keys [sample_row 1 1 5 True None])"
  by (simp add: sample_start_simps)

lemma sample_second:
  "with_kms_store sample_kms 6 2 0 (\<lambda>t. t) (\<lambda>t. t) (\<lambda>t. t) (encryption_config_new AES256GCM)
       (sample_keys [sample_row 1 1 5 True None]) =
     (Inr (sample_engine sample_v1), sample_keys [sample_row 1 1 5 True None])"
  by (simp add: sample_start_simps)

lemma sample_rotate:
  "rotate_kms_key 6 3 0 (\<lambda>t. t) (sample_keys [sample_row 1 1 5 True None]) (sample_engine sample_v1) =
     (Inr (Suc 1), sample_keys [sample_row 3 (Suc 1) 6 True None, sample_row 1 1 5 False (Some 0)], sample_engine sample_v2)"
  by (simp add: sample_start_simps sample_v2_def rotate_kms_key_def rotate_key_def engine_key_id_def next_version_def
      insert_rotated_def retire_row_def add_versions_def kv_add_def kv_add_one_def kv_versions_def)

text \<open>Two processes start and the first of them rotates the key; the second has not noticed.\<close>

definition sample_system :: key_system where
  "sample_system =
     \<lparr>sy_store = sample_keys [sample_row 3 (Suc 1) 6 True None, sample_row 1 1 5 False (Some 0)],
      sy_engines = [sample_engine sample_v2, sample_engine sample_v1]\<rparr>"

lemma sample_run: "(kms_step sample_kms)\<^sup>*\<^sup>* system_new sample_system"
proof -
  let ?t = "[sample_row 1 1 5 True None]" and ?t' = "[sample_row 3 (Suc 1) 6 True None, sample_row 1 1 5 False (Some 0)]"
  let ?c = "encryption_config_new AES256GCM"
  let ?y1 = "\<lparr>sy_store = sample_keys ?t, sy_engines = [sample_engine sample_v1]\<rparr>"
  let ?y2 = "\<lparr>sy_store = sample_keys ?t, sy_engines = [sample_engine sample_v1, sample_engine sample_v1]\<rparr>"
  have o: "others_ok sample_kms name sz i (\<lambda>t. t)" for name sz i by (simp add: others_ok_def)
  have "with_kms_store sample_kms 5 1 0 (\<lambda>t. t) (\<lambda>t. t) (\<lambda>t. t) ?c (sy_store system_new) = (Inr (sample_engine sample_v1), sample_keys ?t)"
    using sample_first by (simp add: system_new_def)
  from kms_step.start [OF this o o o] have "kms_step sample_kms system_new ?y1" by (simp add: system_new_def)
  moreover have "with_kms_store sample_kms 6 2 0 (\<lambda>t. t) (\<lambda>t. t) (\<lambda>t. t) ?c (sy_store ?y1) = (Inr (sample_engine sample_v1), sample_keys ?t)"
    using sample_second by simp
  from kms_step.start [OF this o o o] have "kms_step sample_kms ?y1 ?y2" by simp
  moreover have "rotate_kms_key 6 3 0 (\<lambda>t. t) (sy_store ?y2) (sy_engines ?y2 ! 0) = (Inr (Suc 1), sample_keys ?t', sample_engine sample_v2)"
    using sample_rotate by simp
  from kms_step.rotate [OF _ this o] have "kms_step sample_kms ?y2 sample_system" by (simp add: sample_system_def)
  ultimately show ?thesis by (meson rtranclp.rtrancl_into_rtrancl rtranclp.rtrancl_refl)
qed

text \<open>The first engine encrypts.\<close>

lemmas sample_encrypt_simps = encrypt_payload_with_associated_data_def encrypt_value_def active_key_def sample_engine_def
  engine_key_id_def config_key_id_def encryption_config_new_def sample_v2_def encrypt_data_def check_key_size_def KEY_SIZE_def
  sample_crypto_def Let_def sample_system_def

lemma rotation_locks_nobody_out_witness:
  "\<exists>ep A. encrypt_payload_with_associated_data sample_externs sample_crypto sample_null_json sample_reading JNull [] UseDefault ''job''
         (sample_engine sample_v2) = (Inr ep, A)
     \<and> fst (decrypt_payload_with_associated_data sample_crypto sample_null_json 1 (sy_store sample_system) ep ''job'' (sample_engine sample_v1)) = Inr JNull"
proof -
  let ?y = sample_system
  obtain ep A where enc: "encrypt_payload_with_associated_data sample_externs sample_crypto sample_null_json sample_reading JNull [] UseDefault ''job''
      (sy_engines ?y ! 0) = (Inr ep, A)"
    by (simp add: sample_encrypt_simps)
  have json: "json_round_trips sample_null_json JNull" and nonce: "length (cl_nonce sample_reading) = NONCE_SIZE"
    by (simp_all add: json_round_trips_def sample_null_json_def sample_reading_def NONCE_SIZE_def)
  have len: "0 < length (sy_engines ?y)" "1 < length (sy_engines (?y\<lparr>sy_engines := (sy_engines ?y)[0 := A]\<rparr>))"
    by (simp_all add: sample_system_def)
  have "fst (decrypt_payload_with_associated_data sample_crypto sample_null_json 1 (sy_store (?y\<lparr>sy_engines := (sy_engines ?y)[0 := A]\<rparr>)) ep ''job''
      (sy_engines (?y\<lparr>sy_engines := (sy_engines ?y)[0 := A]\<rparr>) ! 1)) = Inr JNull"
    using rotation_locks_nobody_out [OF sample_crypto_laws json nonce sample_kms_laws sample_run len(1) enc rtranclp.rtrancl_refl len(2)] by simp
  then show ?thesis using enc by (auto simp: sample_system_def)
qed

end
