(* ===== verification/ConfigText.thy ===== *)
theory ConfigText
  imports Json
begin

text \<open>
  Text in configuration files and logs: the duration formats and the URL redaction of
  \<open>src/src/config.rs\<close>. A \<open>std::time::Duration\<close> is a number of nanoseconds, its seconds below
  \<open>2 ^ 64\<close>; the largest \<open>chrono::Duration\<close> is a parameter (\<open>max_delta\<close>). A value that serde has
  already told apart is a \<open>duration_repr\<close>.
\<close>

subsection \<open>Strings\<close>

text \<open>\<open>str::split_once\<close> and \<open>str::rfind\<close>.\<close>

definition split_once :: "string \<Rightarrow> string \<Rightarrow> (string \<times> string) option" where
  "split_once pat s = map_option (\<lambda>i. (take i s, drop (i + length pat) s)) (find_sub pat s)"

definition rfind_char :: "char \<Rightarrow> string \<Rightarrow> nat option" where
  "rfind_char c s = (if c \<in> set s then Some (length s - Suc (length (takeWhile (\<lambda>x. x \<noteq> c) (rev s)))) else None)"

definition strip_suffix :: "string \<Rightarrow> string \<Rightarrow> string option" where
  "strip_suffix p s = (if suffix p s then Some (take (length s - length p) s) else None)"

text \<open>\<open>str::parse::<i64>\<close>.\<close>

definition parse_i64 :: "string \<Rightarrow> int option" where
  "parse_i64 s =
     (case s of
        [] \<Rightarrow> None
      | c # cs \<Rightarrow>
          let neg = (c = CHR ''-''); ds = (if neg \<or> c = CHR ''+'' then cs else s);
              n = (if neg then - int (digits_value ds) else int (digits_value ds)) in
          if ds \<noteq> [] \<and> list_all is_digit ds \<and> - (2 ^ 63) \<le> n \<and> n < 2 ^ 63 then Some n else None)"

subsection \<open>Durations as text\<close>

definition serde_duration_serialize :: "duration \<Rightarrow> string" where
  "serde_duration_serialize d =
     (let secs = d div 10 ^ 9 in
      if d mod 10 ^ 9 \<noteq> 0 then show_nat (max (d div 10 ^ 6) 1) @ ''ms''
      else if secs = 0 then ''0s''
      else if secs mod 3600 = 0 then show_nat (secs div 3600) @ ''h''
      else if secs mod 60 = 0 then show_nat (secs div 60) @ ''m''
      else show_nat secs @ ''s'')"

definition checked_secs :: "nat \<Rightarrow> nat \<Rightarrow> string + duration" where
  "checked_secs num unit =
     (if num * unit < 2 ^ 64 then Inr (num * unit * 10 ^ 9)
      else Inl (''Duration too large: '' @ show_nat num @ '' x '' @ show_nat unit @ ''s''))"

definition parse_duration :: "string \<Rightarrow> string + duration" where
  "parse_duration s0 =
     (let s = str_trim s0 in
      case parse_usize s of
        Some secs \<Rightarrow> Inr (secs * 10 ^ 9)
      | None \<Rightarrow>
          (case strip_suffix ''ms'' s of
             Some millis \<Rightarrow>
               (case parse_usize (str_trim millis) of
                  None \<Rightarrow> Inl (''Invalid number in duration: '' @ millis)
                | Some n \<Rightarrow> Inr (n * 10 ^ 6))
           | None \<Rightarrow>
               if length s < 2 then Inl (''Invalid duration format: '' @ s)
               else
                 (let num_str = butlast s; suf = [last s] in
                  case parse_usize num_str of
                    None \<Rightarrow> Inl (''Invalid number in duration: '' @ num_str)
                  | Some num \<Rightarrow>
                      if suf = ''s'' then Inr (num * 10 ^ 9)
                      else if suf = ''m'' then checked_secs num 60
                      else if suf = ''h'' then checked_secs num 3600
                      else if suf = ''d'' then checked_secs num 86400
                      else Inl (''Invalid duration suffix: '' @ suf @ ''. Use s, m, h, or d''))))"

datatype duration_repr = ReprText string | ReprSeconds nat | ReprTable nat nat

fun serde_duration_deserialize :: "duration_repr \<Rightarrow> string + duration" where
  "serde_duration_deserialize (ReprText s) = parse_duration s"
| "serde_duration_deserialize (ReprSeconds secs) = Inr (secs * 10 ^ 9)"
| "serde_duration_deserialize (ReprTable secs nanos) =
     (if 10 ^ 9 \<le> nanos then Inl ''nanos must be below 1000000000'' else Inr (secs * 10 ^ 9 + nanos))"

text \<open>\<open>chrono::Duration::num_seconds\<close> rounds toward zero.\<close>

definition num_seconds :: "int \<Rightarrow> int" where
  "num_seconds d = (if d < 0 then - ((- d) div 10 ^ 9) else d div 10 ^ 9)"

definition format_chrono_duration :: "int \<Rightarrow> string" where
  "format_chrono_duration d =
     (let secs = num_seconds d in
      if secs mod 86400 = 0 then show_int (secs div 86400) @ ''d''
      else if secs mod 3600 = 0 then show_int (secs div 3600) @ ''h''
      else if secs mod 60 = 0 then show_int (secs div 60) @ ''m''
      else show_int secs @ ''s'')"

definition chrono_unit_secs :: "string \<Rightarrow> int option" where
  "chrono_unit_secs suf =
     (if suf = ''d'' then Some 86400 else if suf = ''h'' then Some 3600 else if suf = ''m'' then Some 60
      else if suf = ''s'' then Some 1 else None)"

definition parse_chrono_duration :: "externs \<Rightarrow> string \<Rightarrow> string + int" where
  "parse_chrono_duration E s0 =
     (let s = str_trim s0;
          finish = (\<lambda>num_str unit.
            case parse_i64 num_str of
              None \<Rightarrow> Inl (''Invalid number in duration: '' @ num_str)
            | Some num \<Rightarrow>
                if num < 0 then Inl (''Duration must not be negative: '' @ s)
                else if num * unit < 2 ^ 63 \<and> num * unit * 10 ^ 9 \<le> max_delta E then Inr (num * unit * 10 ^ 9)
                else Inl (''Duration too large: '' @ s)) in
      if parse_i64 s \<noteq> None then finish s 86400
      else if length s < 2 then Inl (''Invalid duration format: '' @ s)
      else
        (case chrono_unit_secs [last s] of
           None \<Rightarrow> Inl (''Invalid duration suffix: '' @ [last s] @ ''. Use d, h, m or s'')
         | Some unit \<Rightarrow> finish (butlast s) unit))"

subsection \<open>URLs in logs\<close>

definition redact_url :: "string \<Rightarrow> string" where
  "redact_url url =
     (case split_once ''://'' url of
        None \<Rightarrow> url
      | Some (scheme, rest) \<Rightarrow>
          (let authority = takeWhile (\<lambda>c. c \<noteq> CHR ''/'') rest in
           case rfind_char (CHR ''@'') authority of
             None \<Rightarrow> url
           | Some p \<Rightarrow>
               (case split_once '':'' (take p rest) of
                  Some (user, password) \<Rightarrow> scheme @ ''://'' @ user @ '':***'' @ drop p rest
                | None \<Rightarrow> url)))"

definition redact_url_path :: "string \<Rightarrow> string" where
  "redact_url_path url =
     (case split_once ''://'' url of
        None \<Rightarrow> ''***''
      | Some (scheme, rest) \<Rightarrow>
          (let authority = takeWhile (\<lambda>c. c \<notin> set ''/?#'') rest;
               host = (case rfind_char (CHR ''@'') authority of None \<Rightarrow> authority | Some p \<Rightarrow> drop (Suc p) authority);
               tail = drop (length authority) rest in
           if tail = [] \<or> tail = ''/'' then scheme @ ''://'' @ host else scheme @ ''://'' @ host @ ''/***''))"

subsection \<open>Reading what was written\<close>

lemma of_char_digit: "n < 10 \<Longrightarrow> of_char (char_of (48 + n)) = (48 + n :: nat)"
  by (simp add: of_char_of)

lemma show_nat_digits: "list_all is_digit (show_nat n) \<and> show_nat n \<noteq> []"
proof (induction n rule: show_nat.induct)
  case (1 n)
  have "is_digit (char_of (48 + m))" if "m < 10" for m :: nat using that by (simp add: is_digit_def of_char_digit)
  then show ?case using 1 by (simp add: show_nat.simps [of n])
qed

lemma digits_value_snoc: "digits_value (s @ [c]) = 10 * digits_value s + (of_char c - 48)"
  by (simp add: digits_value_def)

lemma digits_value_show: "digits_value (show_nat n) = n"
proof (induction n rule: show_nat.induct)
  case (1 n)
  show ?case
  proof (cases "n < 10")
    case True
    then show ?thesis by (simp add: show_nat.simps [of n] digits_value_def of_char_digit)
  next
    case False
    then have "digits_value (show_nat n) = 10 * digits_value (show_nat (n div 10)) + n mod 10"
      by (simp add: show_nat.simps [of n] digits_value_snoc of_char_digit)
    then show ?thesis using 1 False by simp
  qed
qed

lemma digit_no_sign: "is_digit c \<Longrightarrow> c \<noteq> CHR ''+'' \<and> c \<noteq> CHR ''-'' \<and> \<not> is_ascii_space c"
  by (auto simp: is_digit_def is_ascii_space_def Let_def)

lemma parse_digits:
  assumes "list_all is_digit ds" "ds \<noteq> []"
  shows "digits_value ds < 2 ^ 64 \<Longrightarrow> parse_usize ds = Some (digits_value ds)"
    "digits_value ds < 2 ^ 63 \<Longrightarrow> parse_i64 ds = Some (int (digits_value ds))"
  using assms digit_no_sign [of "hd ds"] by (cases ds; force simp: parse_usize_def parse_i64_def Let_def)+

lemma parse_not_number:
  assumes "s \<noteq> []" "\<not> is_digit (last s)" "length s \<ge> 2"
  shows "parse_usize s = None" "parse_i64 s = None"
proof -
  obtain c cs where s: "s = c # cs" "cs \<noteq> []" using assms by (cases s) (auto simp: Suc_le_eq)
  have "\<not> list_all is_digit cs" "\<not> list_all is_digit s"
    using assms(2) s by (auto simp: list_all_iff)
  then show "parse_usize s = None" "parse_i64 s = None" using s by (auto simp: parse_usize_def parse_i64_def Let_def)
qed

text \<open>A number and its unit have no white space around them.\<close>

lemma trim_number:
  assumes "list_all is_digit ds" "ds \<noteq> []" "u = [] \<or> \<not> is_ascii_space (last u)"
  shows "str_trim (ds @ u) = ds @ u"
proof -
  have "\<not> is_ascii_space (hd (ds @ u))" using assms digit_no_sign [of "hd ds"] by (cases ds) auto
  then have front: "dropWhile is_ascii_space (ds @ u) = ds @ u" using assms(2) by (cases "ds @ u") auto
  have "\<not> is_ascii_space (last (ds @ u))"
    using assms digit_no_sign [of "last ds"] by (cases "u = []") (auto simp: list_all_iff)
  then have "dropWhile is_ascii_space (rev (ds @ u)) = rev (ds @ u)" using assms(2) by (cases "ds @ u" rule: rev_cases) auto
  then show ?thesis unfolding str_trim_def front by simp
qed

text \<open>A number with a unit of one letter.\<close>

lemma unit_text:
  assumes "u \<in> {CHR ''s'', CHR ''m'', CHR ''h'', CHR ''d''}"
  shows "str_trim (show_nat n @ [u]) = show_nat n @ [u]" "parse_usize (show_nat n @ [u]) = None"
    "parse_i64 (show_nat n @ [u]) = None" "2 \<le> length (show_nat n @ [u])"
proof -
  have ds: "list_all is_digit (show_nat n)" "show_nat n \<noteq> []" using show_nat_digits by auto
  have u: "\<not> is_digit u" "\<not> is_ascii_space u" using assms by (auto simp: is_digit_def is_ascii_space_def Let_def)
  show "str_trim (show_nat n @ [u]) = show_nat n @ [u]" by (rule trim_number [OF ds]) (simp add: u)
  show len: "2 \<le> length (show_nat n @ [u])" using ds(2) by (cases "show_nat n") auto
  show "parse_usize (show_nat n @ [u]) = None" "parse_i64 (show_nat n @ [u]) = None"
    using parse_not_number [of "show_nat n @ [u]"] u len by simp_all
qed

lemma parse_show: "n < 2 ^ 64 \<Longrightarrow> parse_usize (show_nat n) = Some n" "n < 2 ^ 63 \<Longrightarrow> parse_i64 (show_nat n) = Some (int n)"
  using parse_digits [of "show_nat n"] show_nat_digits [of n] digits_value_show [of n] by auto

lemma not_ms_suffix:
  assumes "u \<in> {CHR ''s'', CHR ''m'', CHR ''h'', CHR ''d''}"
  shows "strip_suffix ''ms'' (show_nat n @ [u]) = None"
proof -
  have "is_digit (last (show_nat n))" using show_nat_digits [of n] by (simp add: list_all_iff)
  then have "last (show_nat n) \<noteq> CHR ''m''" by (auto simp: is_digit_def)
  moreover have "last (show_nat n) = CHR ''m''" if ms: "suffix ''ms'' (show_nat n @ [u])"
  proof -
    obtain zs where "show_nat n @ [u] = (zs @ [CHR ''m'']) @ [CHR ''s'']" using ms by (auto simp: suffix_def)
    then have "show_nat n = zs @ [CHR ''m'']" unfolding append1_eq_conv by simp
    then show ?thesis by simp
  qed
  ultimately have "\<not> suffix ''ms'' (show_nat n @ [u])" by blast
  then show ?thesis by (simp add: strip_suffix_def)
qed

lemma parse_duration_unit:
  assumes "n < 2 ^ 64" "u \<in> {CHR ''s'', CHR ''m'', CHR ''h'', CHR ''d''}"
  shows "parse_duration (show_nat n @ [u]) =
    (if u = CHR ''s'' then Inr (n * 10 ^ 9) else if u = CHR ''m'' then checked_secs n 60
     else if u = CHR ''h'' then checked_secs n 3600 else checked_secs n 86400)"
  using unit_text [OF assms(2), of n] not_ms_suffix [OF assms(2), of n] parse_show(1) [OF assms(1)] assms(2)
  by (auto simp: parse_duration_def Let_def)

lemma parse_duration_ms:
  assumes "n < 2 ^ 64"
  shows "parse_duration (show_nat n @ ''ms'') = Inr (n * 10 ^ 6)"
proof -
  have ds: "list_all is_digit (show_nat n)" "show_nat n \<noteq> []" using show_nat_digits by auto
  have sp: "\<not> is_ascii_space (CHR ''s'')" "\<not> is_digit (CHR ''s'')" by (simp_all add: is_ascii_space_def is_digit_def Let_def)
  have trim: "str_trim (show_nat n @ ''ms'') = show_nat n @ ''ms''" "str_trim (show_nat n) = show_nat n"
    using trim_number [OF ds, of "''ms''"] trim_number [OF ds, of "[]"] sp by simp_all
  have none: "parse_usize (show_nat n @ ''ms'') = None"
    using parse_not_number(1) [of "show_nat n @ ''ms''"] sp by simp
  have "strip_suffix ''ms'' (show_nat n @ ''ms'') = Some (show_nat n)" by (simp add: strip_suffix_def suffix_def)
  then show ?thesis using trim none parse_show(1) [OF assms] by (simp add: parse_duration_def Let_def)
qed

lemma parse_chrono_unit:
  assumes "n < 2 ^ 63" "u \<in> {CHR ''s'', CHR ''m'', CHR ''h'', CHR ''d''}" "chrono_unit_secs [u] = Some k"
    "int n * k < 2 ^ 63" "int n * k * 10 ^ 9 \<le> max_delta E"
  shows "parse_chrono_duration E (show_nat n @ [u]) = Inr (int n * k * 10 ^ 9)"
  using unit_text [OF assms(2), of n] parse_show(2) [OF assms(1)] show_nat_digits [of n] assms(3-5)
  by (simp add: parse_chrono_duration_def Let_def)

text \<open>
  Durations survive saving a configuration. Reading the text that was written for a duration
  gives that duration to the millisecond, and never zero for one that was not zero; a retention
  period in the form of the archive section is read back to the second. Nothing overflows on the
  way.
\<close>
theorem duration_text_round_trip:
  assumes "d < 2 ^ 64 * 10 ^ 6" and "0 \<le> p" and "p \<le> max_delta E" and "max_delta E < 2 ^ 63 * 10 ^ 9"
  shows "serde_duration_deserialize (ReprText (serde_duration_serialize d)) =
      Inr (if d mod 10 ^ 9 = 0 then d else max (d div 10 ^ 6) 1 * 10 ^ 6)
    \<and> parse_chrono_duration E (format_chrono_duration p) = Inr (p div 10 ^ 9 * 10 ^ 9)"
proof
  let ?secs = "d div 10 ^ 9"
  have ms: "max (d div 10 ^ 6) 1 < 2 ^ 64" using assms(1) by (simp add: less_mult_imp_div_less)
  have secs: "?secs < 2 ^ 64" using assms(1) by (intro less_mult_imp_div_less) (simp add: less_le_trans [OF assms(1)])
  have whole: "d = ?secs * 10 ^ 9" if "d mod 10 ^ 9 = 0" using that by (metis add.right_neutral div_mult_mod_eq)
  have part: "parse_duration (show_nat (?secs div u) @ [c]) = Inr (?secs * 10 ^ 9)"
    if u: "?secs mod u = 0" and c: "(c, u) \<in> {(CHR ''h'', 3600), (CHR ''m'', 60), (CHR ''s'', 1)}" for u c
  proof -
    have "?secs div u * u = ?secs" using u by (metis add.right_neutral div_mult_mod_eq)
    moreover have "?secs div u < 2 ^ 64" using secs by (meson div_le_dividend le_less_trans)
    ultimately show ?thesis using parse_duration_unit [of "?secs div u" c] c secs by (auto simp: checked_secs_def)
  qed
  show "serde_duration_deserialize (ReprText (serde_duration_serialize d)) =
      Inr (if d mod 10 ^ 9 = 0 then d else max (d div 10 ^ 6) 1 * 10 ^ 6)"
  proof (cases "d mod 10 ^ 9 = 0")
    case False
    then show ?thesis using parse_duration_ms [OF ms] by (simp add: serde_duration_serialize_def)
  next
    case True
    have "parse_duration (serde_duration_serialize d) = Inr (?secs * 10 ^ 9)"
    proof (cases "?secs = 0")
      case True
      have "show_nat 0 = ''0''" by code_simp
      then show ?thesis using \<open>d mod 10 ^ 9 = 0\<close> True parse_duration_unit [of 0 "CHR ''s''"] by (simp add: serde_duration_serialize_def)
    next
      case False
      then show ?thesis
        using True part [of 3600 "CHR ''h''"] part [of 60 "CHR ''m''"] part [of 1 "CHR ''s''"]
        by (auto simp: serde_duration_serialize_def Let_def)
    qed
    then show ?thesis using True whole by simp
  qed
  have "0 \<le> p div 10 ^ 9" "p div 10 ^ 9 < 2 ^ 63" using assms(2-4) by (simp_all add: pos_imp_zdiv_nonneg_iff)
  then obtain n where n: "p div 10 ^ 9 = int n" "n < 2 ^ 63" by (metis nonneg_int_cases of_nat_less_numeral_power_cancel_iff)
  then have p: "num_seconds p = int n" "int n * 10 ^ 9 \<le> max_delta E"
    using assms(2,3) by (simp_all add: num_seconds_def)
  have part: "parse_chrono_duration E (show_nat (n div u) @ [c]) = Inr (int n * 10 ^ 9)"
    if u: "n mod u = 0" and c: "(c, u) \<in> {(CHR ''d'', 86400), (CHR ''h'', 3600), (CHR ''m'', 60), (CHR ''s'', 1)}" for u c
  proof -
    have "n div u * u = n" using u by (metis add.right_neutral div_mult_mod_eq)
    then have eq: "int (n div u) * int u = int n" by (metis of_nat_mult)
    have "n div u < 2 ^ 63" using n(2) by (meson div_le_dividend le_less_trans)
    then show ?thesis
      using parse_chrono_unit [of "n div u" c "int u" E] c n(2) p(2) unfolding eq by (auto simp: chrono_unit_secs_def)
  qed
  have shown: "show_int (int k) = show_nat k" for k by (simp add: show_int_def)
  have units: "int n mod numeral k = int (n mod numeral k)" "int n div numeral k = int (n div numeral k)" for k
    by (simp_all add: zmod_int zdiv_int)
  have "format_chrono_duration p = (if n mod 86400 = 0 then show_nat (n div 86400) @ ''d'' else if n mod 3600 = 0 then show_nat (n div 3600) @ ''h''
      else if n mod 60 = 0 then show_nat (n div 60) @ ''m'' else show_nat n @ ''s'')"
    unfolding format_chrono_duration_def p(1) Let_def units shown of_nat_eq_0_iff by (rule refl)
  then show "parse_chrono_duration E (format_chrono_duration p) = Inr (p div 10 ^ 9 * 10 ^ 9)"
    using part [of 86400 "CHR ''d''"] part [of 3600 "CHR ''h''"] part [of 60 "CHR ''m''"] part [of 1 "CHR ''s''"] n(1) by simp
qed

lemma duration_text_round_trip_witness:
  "serde_duration_deserialize (ReprText (serde_duration_serialize 1500000000)) = Inr 1500000000
   \<and> parse_chrono_duration sample_externs (format_chrono_duration (90 * 86400 * 10 ^ 9)) = Inr (90 * 86400 * 10 ^ 9)"
  using duration_text_round_trip [of 1500000000 "90 * 86400 * 10 ^ 9" sample_externs] by (simp add: sample_externs_def)

subsection \<open>What logs show\<close>

lemma find_sub_first: "c \<notin> set xs \<Longrightarrow> find_sub (c # p) (xs @ (c # p) @ r) = Some (length xs)"
  by (induction xs) auto

lemma split_once_first: "c \<notin> set xs \<Longrightarrow> split_once (c # p) (xs @ (c # p) @ r) = Some (xs, r)"
  using find_sub_first [of c xs p r] by (simp add: split_once_def)

lemma find_sub_split: "pat \<noteq> [] \<Longrightarrow> find_sub pat s = Some i \<Longrightarrow> s = take i s @ pat @ drop (i + length pat) s"
proof (induction s arbitrary: i)
  case (Cons c s)
  show ?case
  proof (cases "prefix pat (c # s)")
    case True
    then have "i = 0" using Cons.prems by simp
    then show ?thesis using True by (auto simp: prefix_def)
  next
    case False
    then obtain j where "find_sub pat s = Some j" "i = Suc j" using Cons.prems by auto
    then show ?thesis using Cons.IH [of j] Cons.prems(1) by simp
  qed
qed simp

lemma split_once_Some: "pat \<noteq> [] \<Longrightarrow> split_once pat s = Some (a, b) \<Longrightarrow> s = a @ pat @ b"
  using find_sub_split [of pat s] by (auto simp: split_once_def)

lemma takeWhile_until: "c \<notin> set zs \<Longrightarrow> takeWhile (\<lambda>x. x \<noteq> c) (zs @ c # ws) = zs"
  by (induction zs) auto

lemma rfind_char_last: "c \<notin> set ys \<Longrightarrow> rfind_char c (xs @ c # ys) = Some (length xs)"
proof -
  assume "c \<notin> set ys"
  then have "takeWhile (\<lambda>x. x \<noteq> c) (rev ys @ c # rev xs) = rev ys" by (intro takeWhile_until) simp
  then show ?thesis by (simp add: rfind_char_def)
qed

lemma rfind_char_Some: "rfind_char c s = Some i \<Longrightarrow> i < length s \<and> s ! i = c"
proof -
  assume r: "rfind_char c s = Some i"
  then have "c \<in> set s" by (simp add: rfind_char_def split: if_splits)
  then obtain xs ys where s: "s = xs @ c # ys" "c \<notin> set ys" using split_list_last by metis
  then have "i = length xs" using r rfind_char_last [of c ys xs] by simp
  then show ?thesis using s by simp
qed

text \<open>
  A logged database URL shows no password. Whatever the password is (it may itself contain
  colons and at signs), the redacted URL is the same text with the password replaced by three
  asterisks; and a URL is changed by redaction only in that way, so one without a password is
  shown as it is.
\<close>
theorem url_password_hidden:
  assumes "CHR '':'' \<notin> set scheme" and "CHR '':'' \<notin> set user" and "CHR ''/'' \<notin> set user" and "CHR ''/'' \<notin> set password"
    and "CHR ''@'' \<notin> set (takeWhile (\<lambda>c. c \<noteq> CHR ''/'') host)"
  shows "redact_url (scheme @ ''://'' @ user @ '':'' @ password @ ''@'' @ host) = scheme @ ''://'' @ user @ '':***@'' @ host
    \<and> (redact_url url = url \<or> (\<exists>s u p h. url = s @ ''://'' @ u @ '':'' @ p @ ''@'' @ h \<and> redact_url url = s @ ''://'' @ u @ '':***@'' @ h))"
proof
  let ?cred = "user @ '':'' @ password" and ?h = "takeWhile (\<lambda>c. c \<noteq> CHR ''/'') host"
  have url: "split_once ''://'' (scheme @ ''://'' @ ?cred @ ''@'' @ host) = Some (scheme, ?cred @ ''@'' @ host)"
    using split_once_first [OF assms(1), of "''//''" "?cred @ ''@'' @ host"] by simp
  have authority: "takeWhile (\<lambda>c. c \<noteq> CHR ''/'') (?cred @ ''@'' @ host) = ?cred @ CHR ''@'' # ?h"
  proof -
    have "\<forall>c \<in> set (?cred @ ''@''). c \<noteq> CHR ''/''" using assms(3,4) by auto
    then show ?thesis using takeWhile_append2 [of "?cred @ ''@''" "\<lambda>c. c \<noteq> CHR ''/''" host] by simp
  qed
  have at_sign: "rfind_char (CHR ''@'') (?cred @ CHR ''@'' # ?h) = Some (length ?cred)" by (rule rfind_char_last [OF assms(5)])
  have "split_once '':'' ?cred = Some (user, password)" using split_once_first [OF assms(2), of "[]" password] by simp
  then show "redact_url (scheme @ ''://'' @ user @ '':'' @ password @ ''@'' @ host) = scheme @ ''://'' @ user @ '':***@'' @ host"
    using url authority at_sign by (simp add: redact_url_def Let_def)
next
  show "redact_url url = url \<or> (\<exists>s u p h. url = s @ ''://'' @ u @ '':'' @ p @ ''@'' @ h \<and> redact_url url = s @ ''://'' @ u @ '':***@'' @ h)"
  proof (cases "redact_url url = url")
    case False
    then obtain s rest i u p where parts: "split_once ''://'' url = Some (s, rest)"
      "rfind_char (CHR ''@'') (takeWhile (\<lambda>c. c \<noteq> CHR ''/'') rest) = Some i" "split_once '':'' (take i rest) = Some (u, p)"
      by (auto simp: redact_url_def Let_def split: option.splits)
    have "i < length rest" "rest ! i = CHR ''@''"
      using rfind_char_Some [OF parts(2)] length_takeWhile_le [of _ rest] by (auto simp: takeWhile_nth intro: less_le_trans)
    then have drop: "drop i rest = ''@'' @ drop (Suc i) rest" by (metis Cons_nth_drop_Suc append_Cons append_Nil)
    have "url = s @ ''://'' @ rest" "take i rest = u @ '':'' @ p"
      using split_once_Some [of "''://''" url s rest] split_once_Some [of "'':''" "take i rest" u p] parts(1,3) by simp_all
    then have "url = s @ ''://'' @ u @ '':'' @ p @ ''@'' @ drop (Suc i) rest"
      using drop append_take_drop_id [of i rest] by simp
    moreover have "redact_url url = s @ ''://'' @ u @ '':***@'' @ drop (Suc i) rest" using parts drop by (simp add: redact_url_def Let_def)
    ultimately show ?thesis by blast
  qed simp
qed

lemma url_password_hidden_witness:
  "redact_url ''postgres://app:s@c:ret@db/jobs'' = ''postgres://app:***@db/jobs''"
proof -
  have "redact_url (''postgres'' @ ''://'' @ ''app'' @ '':'' @ ''s@c:ret'' @ ''@'' @ ''db/jobs'') = ''postgres'' @ ''://'' @ ''app'' @ '':***@'' @ ''db/jobs''"
    using url_password_hidden [of "''postgres''" "''app''" "''s@c:ret''" "''db/jobs''"] by simp
  then show ?thesis by simp
qed

end
