(* ===== verification/KeyLoad.thy ===== *)
theory KeyLoad
  imports EngineSystem ConfigText
begin

text \<open>
  Where an engine gets its key from: \<open>src/src/encryption/kms.rs\<close>, the key sources of
  \<open>src/src/encryption/envelope.rs\<close> and the loaders of \<open>src/src/encryption/engine.rs\<close>. The environment
  and the files that hold keys are state; the answers of the key services, the errors of the file
  system and a fresh random key are parameters, and so are the cargo features of the build.
\<close>

subsection \<open>Key services\<close>

record kms_features =
  fe_aws :: bool
  fe_gcp :: bool
  fe_vault :: bool
  fe_azure :: bool

definition parse_service_config :: "string \<Rightarrow> string \<Rightarrow> string \<times> (string \<rightharpoonup> string)" where
  "parse_service_config service_config scheme =
     (let rest = (case strip_prefix scheme service_config of Some r \<Rightarrow> r | None \<Rightarrow> service_config);
          (resource, query) = (case split_once ''?'' rest of Some p \<Rightarrow> p | None \<Rightarrow> (rest, []));
          pairs = map (\<lambda>pair. case split_once ''='' pair of Some p \<Rightarrow> p | None \<Rightarrow> (pair, []))
                    (filter (\<lambda>pair. pair \<noteq> []) (split_on (CHR ''&'') query)) in
      (resource, map_of (rev pairs)))"

definition kms_feature_disabled :: "string \<Rightarrow> string \<Rightarrow> encryption_error" where
  "kms_feature_disabled scheme feature =
     InvalidConfiguration (scheme @ '' key sources require the `'' @ feature @ ''` cargo feature, which is not enabled'')"

definition not_empty :: "string option \<Rightarrow> string option" where
  "not_empty x = (case x of Some s \<Rightarrow> if s = [] then None else Some s | None \<Rightarrow> None)"

definition aws_key_config :: "string \<Rightarrow> (string \<times> string \<times> string option) cres" where
  "aws_key_config service_config =
     (let (key_id, params) = parse_service_config service_config ''aws://'' in
      if key_id = [] then Inl (InvalidConfiguration ''AWS KMS key source needs a key id: aws://<key-id>?region=<region>'')
      else
        Inr (key_id, (case not_empty (params ''region'') of Some r \<Rightarrow> r | None \<Rightarrow> ''us-east-1''), not_empty (params ''endpoint'')))"

definition vault_address :: "(string \<rightharpoonup> string) \<Rightarrow> (string \<rightharpoonup> string) \<Rightarrow> string cres" where
  "vault_address env params =
     (case not_empty (opt_or (params ''addr'') (env ''VAULT_ADDR'')) of
        Some a \<Rightarrow> Inr a
      | None \<Rightarrow> Inl (InvalidConfiguration ''Vault key source needs an address: add ?addr=<url> or set VAULT_ADDR''))"

text \<open>The \<open>Debug\<close> text of a string without characters that need escaping.\<close>

definition debug_str :: "string \<Rightarrow> string" where
  "debug_str s = CHR 0x22 # s @ [CHR 0x22]"

definition vault_mount_and_path :: "string \<Rightarrow> (string \<times> string) cres" where
  "vault_mount_and_path secret_path =
     (let invalid = Inl (InvalidConfiguration (''Invalid Vault secret path '' @ debug_str secret_path @ '': expected vault://<mount>/<path>'')) in
      case split_once ''/'' secret_path of
        Some (mount, path) \<Rightarrow> if mount \<noteq> [] \<and> path \<noteq> [] then Inr (mount, path) else invalid
      | None \<Rightarrow> invalid)"

definition exact_size :: "bytes \<Rightarrow> nat \<Rightarrow> string \<Rightarrow> bytes cres" where
  "exact_size material sz what =
     (if length material = sz then Inr material
      else
        Inl (InvalidConfiguration (what @ '' holds a '' @ show_nat (length material) @ ''-byte key, expected exactly '' @ show_nat sz
          @ '' bytes; key material of the wrong size is rejected rather than padded or truncated'')))"

definition exact_vault_key :: "crypto \<Rightarrow> string \<Rightarrow> nat \<Rightarrow> bytes cres" where
  "exact_vault_key C key_str sz =
     (case cr_b64_decode C (str_trim key_str) of
        Inl e \<Rightarrow>
          Inl (InvalidConfiguration (''The Vault secret'' @ CHR 0x27 # ''s `key` field is not base64; it must be a base64-encoded ''
            @ show_nat sz @ ''-byte key (passphrases are not accepted)''))
      | Inr decoded \<Rightarrow> exact_size decoded sz (''The Vault secret'' @ CHR 0x27 # ''s `key` field''))"

definition gcp_location :: "string \<Rightarrow> string cres" where
  "gcp_location key_resource =
     (let invalid = Inl (InvalidConfiguration (''Invalid GCP KMS resource '' @ debug_str key_resource
            @ '': expected gcp://projects/<project>/locations/<location>/keyRings/<ring>/cryptoKeys/<key>'')) in
      case split_on (CHR ''/'') key_resource of
        p # project # l # location # rest \<Rightarrow>
          if p = ''projects'' \<and> l = ''locations'' \<and> project \<noteq> [] \<and> location \<noteq> [] then
            Inr (''projects/'' @ project @ ''/locations/'' @ location)
          else invalid
      | _ \<Rightarrow> invalid)"

definition azure_vault_and_key :: "string \<Rightarrow> string \<Rightarrow> (string \<times> string) cres" where
  "azure_vault_and_key service_config default_key_name =
     (let (resource, params) = parse_service_config service_config ''azure://'';
          parts = split_on (CHR ''/'') resource;
          host = (case parts of h # hs \<Rightarrow> h | [] \<Rightarrow> []) in
      if host = [] then
        Inl (InvalidConfiguration (''Invalid Azure Key Vault source '' @ debug_str service_config
          @ '': expected azure://<vault-host>/keys/<key-name>''))
      else
        Inr (''https://'' @ host,
             (case not_empty (if 2 < length parts then Some (parts ! 2) else None) of Some n \<Rightarrow> n | None \<Rightarrow> default_key_name)))"

datatype kms_source = AwsSource string string "string option" | GcpSource string string

fun parse_kms_source :: "kms_features \<Rightarrow> key_source \<Rightarrow> kms_source option cres" where
  "parse_kms_source F (KsExternal service_config) =
     (if prefix ''aws://'' service_config then
        (case aws_key_config service_config of
           Inl e \<Rightarrow> Inl e
         | Inr (key_id, region, endpoint) \<Rightarrow>
             if \<not> fe_aws F then Inl (kms_feature_disabled ''aws://'' ''aws-kms'')
             else Inr (Some (AwsSource key_id region endpoint)))
      else if prefix ''gcp://'' service_config then
        (let resource = fst (parse_service_config service_config ''gcp://'') in
         case gcp_location resource of
           Inl e \<Rightarrow> Inl e
         | Inr location \<Rightarrow>
             if \<not> fe_gcp F then Inl (kms_feature_disabled ''gcp://'' ''gcp-kms'')
             else Inr (Some (GcpSource resource location)))
      else Inr None)"
| "parse_kms_source F _ = Inr None"

subsection \<open>Loading a key\<close>

text \<open>
  The places that hold keys. The file system fails where an error is given: creating the
  directory, opening, reading, or writing after that many bytes.
\<close>

record key_places =
  kp_env :: "string \<rightharpoonup> string"
  kp_files :: "string \<rightharpoonup> string"
  kp_dir_error :: "string \<Rightarrow> string option"
  kp_open_error :: "string \<Rightarrow> string option"
  kp_read_error :: "string \<Rightarrow> string option"
  kp_write_error :: "string \<Rightarrow> (nat \<times> string) option"

text \<open>What the services answer: a secret's key field, key material, a connected service.\<close>

record key_services =
  ks_vault_read :: "string \<Rightarrow> string \<Rightarrow> string \<Rightarrow> string \<Rightarrow> string cres"
  ks_azure_fetch :: "string \<Rightarrow> string \<Rightarrow> encryption_error + bytes"
  ks_connect :: "kms_source \<Rightarrow> kms cres"

record key_env =
  ke_crypto :: crypto
  ke_features :: kms_features
  ke_services :: key_services
  ke_fresh :: bytes

definition decode_stored :: "crypto \<Rightarrow> string \<Rightarrow> string \<Rightarrow> nat \<Rightarrow> bytes cres" where
  "decode_stored C stored place sz =
     (case cr_b64_decode C (str_trim stored) of
        Inl e \<Rightarrow> Inl (KeyManagement (''Invalid base64 key stored in '' @ place @ '': '' @ e))
      | Inr k \<Rightarrow>
          if length k \<noteq> sz then
            Inl (KeyManagement (''Key size mismatch in '' @ place @ '': expected '' @ show_nat sz @ '' bytes, got '' @ show_nat (length k)))
          else Inr k)"

definition storage_error :: "string \<Rightarrow> string \<Rightarrow> encryption_error" where
  "storage_error location e = KeyManagement (''Failed to store generated key at '' @ location @ '': '' @ e)"

definition load_or_generate_key :: "key_env \<Rightarrow> string \<Rightarrow> nat \<Rightarrow> key_places \<Rightarrow> bytes cres \<times> key_places" where
  "load_or_generate_key V location sz P =
     (let C = ke_crypto V; k = ke_fresh V; encoded = cr_b64_encode C k in
      case strip_prefix ''env://'' location of
        Some var_name \<Rightarrow>
          (case kp_env P var_name of
             Some stored \<Rightarrow> (decode_stored C stored var_name sz, P)
           | None \<Rightarrow> (Inr k, P\<lparr>kp_env := (kp_env P)(var_name \<mapsto> encoded)\<rparr>))
      | None \<Rightarrow>
          if prefix ''stdout://'' location then (Inr k, P)
          else
            (let file_path = (case strip_prefix ''file://'' location of Some p \<Rightarrow> p | None \<Rightarrow> location) in
             case kp_dir_error P file_path of
               Some e \<Rightarrow> (Inl (storage_error location e), P)
             | None \<Rightarrow>
                 (case kp_files P file_path of
                    Some stored \<Rightarrow>
                      (case kp_read_error P file_path of
                         Some e \<Rightarrow> (Inl (KeyManagement (''Failed to read stored key '' @ file_path @ '': '' @ e)), P)
                       | None \<Rightarrow> (decode_stored C stored file_path sz, P))
                  | None \<Rightarrow>
                      (case kp_open_error P file_path of
                         Some e \<Rightarrow> (Inl (storage_error location e), P)
                       | None \<Rightarrow>
                           (case kp_write_error P file_path of
                              Some (n, e) \<Rightarrow>
                                (Inl (storage_error location e), P\<lparr>kp_files := (kp_files P)(file_path \<mapsto> take n encoded)\<rparr>)
                            | None \<Rightarrow> (Inr k, P\<lparr>kp_files := (kp_files P)(file_path \<mapsto> encoded)\<rparr>))))))"

definition vault_read_key_field :: "key_services \<Rightarrow> (string \<rightharpoonup> string) \<Rightarrow> string \<Rightarrow> string \<Rightarrow> string \<Rightarrow> string cres" where
  "vault_read_key_field S env addr mount path =
     (case not_empty (env ''VAULT_TOKEN'') of
        None \<Rightarrow> Inl (KeyManagement ''VAULT_TOKEN is not set; cannot read the key from HashiCorp Vault'')
      | Some token \<Rightarrow> ks_vault_read S addr token mount path)"

definition load_from_vault :: "key_env \<Rightarrow> (string \<rightharpoonup> string) \<Rightarrow> string \<Rightarrow> nat \<Rightarrow> bytes cres" where
  "load_from_vault V env service_config sz =
     (let (secret_path, params) = parse_service_config service_config ''vault://'' in
      case vault_address env params of
        Inl e \<Rightarrow> Inl e
      | Inr addr \<Rightarrow>
          (case vault_mount_and_path secret_path of
             Inl e \<Rightarrow> Inl e
           | Inr (mount, secret) \<Rightarrow>
               if \<not> fe_vault (ke_features V) then Inl (kms_feature_disabled ''vault://'' ''vault-kms'')
               else
                 (case vault_read_key_field (ke_services V) env addr mount secret of
                    Inl e \<Rightarrow> Inl e
                  | Inr key_str \<Rightarrow> exact_vault_key (ke_crypto V) key_str sz)))"

definition load_from_azure_kms :: "key_env \<Rightarrow> string \<Rightarrow> nat \<Rightarrow> bytes cres" where
  "load_from_azure_kms V service_config sz =
     (case azure_vault_and_key service_config ''encryption-key'' of
        Inl e \<Rightarrow> Inl e
      | Inr (vault_url, key_name) \<Rightarrow>
          if \<not> fe_azure (ke_features V) then Inl (kms_feature_disabled ''azure://'' ''azure-kms'')
          else
            (case ks_azure_fetch (ke_services V) vault_url key_name of
               Inl e \<Rightarrow> Inl (KeyManagement (''Failed to load key from Azure Key Vault: '' @ encryption_error_display e))
             | Inr decoded \<Rightarrow> exact_size decoded sz (''Azure Key Vault key '' @ key_name @ '' in '' @ vault_url)))"

definition load_external_key :: "key_env \<Rightarrow> (string \<rightharpoonup> string) \<Rightarrow> string \<Rightarrow> nat \<Rightarrow> bytes cres" where
  "load_external_key V env service_config sz =
     (if prefix ''aws://'' service_config \<or> prefix ''gcp://'' service_config then
        (case parse_kms_source (ke_features V) (KsExternal service_config) of
           Inl e \<Rightarrow> Inl e
         | Inr _ \<Rightarrow>
             Inl (InvalidConfiguration (take ((case find_sub ''://'' service_config of Some i \<Rightarrow> i | None \<Rightarrow> 0) + 3) service_config
               @ '' keys are generated once by the KMS and stored KMS-encrypted in the database; create the engine with EncryptionEngine::new_with_pool'')))
      else if prefix ''vault://'' service_config then load_from_vault V env service_config sz
      else if prefix ''azure://'' service_config then load_from_azure_kms V service_config sz
      else Inl (KeyManagement (''Unknown external key management service: '' @ service_config)))"

fun load_key :: "key_env \<Rightarrow> key_source \<Rightarrow> nat \<Rightarrow> key_places \<Rightarrow> bytes cres \<times> key_places" where
  "load_key V (KsStatic key_str) sz P =
     ((case cr_b64_decode (ke_crypto V) key_str of
         Inl e \<Rightarrow> Inl (KeyManagement (''Invalid base64 key: '' @ e))
       | Inr k \<Rightarrow>
           if length k \<noteq> sz then
             Inl (KeyManagement (''Key size mismatch: expected '' @ show_nat sz @ '' bytes, got '' @ show_nat (length k)))
           else Inr k), P)"
| "load_key V (KsEnvironment var_name) sz P =
     ((case kp_env P var_name of
         None \<Rightarrow> Inl (KeyManagement (''Environment variable '' @ var_name @ '' not found''))
       | Some key_str \<Rightarrow>
           (case cr_b64_decode (ke_crypto V) key_str of
              Inl e \<Rightarrow> Inl (KeyManagement (''Invalid base64 key in '' @ var_name @ '': '' @ e))
            | Inr k \<Rightarrow>
                if length k \<noteq> sz then
                  Inl (KeyManagement (''Key size mismatch in '' @ var_name @ '': expected '' @ show_nat sz @ '' bytes, got '' @ show_nat (length k)))
                else Inr k)), P)"
| "load_key V (KsExternal service_config) sz P = (load_external_key V (kp_env P) service_config sz, P)"
| "load_key V (KsGenerated location) sz P = load_or_generate_key V location sz P"

definition engine_from_config :: "key_env \<Rightarrow> encryption_config \<Rightarrow> key_places \<Rightarrow> engine cres \<times> key_places" where
  "engine_from_config V c P =
     (case load_key V (ec_key_source c) (key_size_bytes c) P of
        (Inl e, P') \<Rightarrow> (Inl e, P')
      | (Inr k, P') \<Rightarrow> (Inr (engine_from_key c k), P'))"

text \<open>What a start with a key management service reads and what others do meanwhile.\<close>

record start_call =
  sc_call :: nat
  sc_id :: uuid
  sc_now :: time
  sc_before :: "key_table \<Rightarrow> key_table"
  sc_between :: "key_table \<Rightarrow> key_table"
  sc_after :: "key_table \<Rightarrow> key_table"

definition new_with_pool ::
  "key_env \<Rightarrow> start_call \<Rightarrow> encryption_config \<Rightarrow> key_places \<Rightarrow> key_store \<Rightarrow> engine cres \<times> key_places \<times> key_store" where
  "new_with_pool V A c P s =
     (case parse_kms_source (ke_features V) (ec_key_source c) of
        Inl e \<Rightarrow> (Inl e, P, s)
      | Inr None \<Rightarrow> (case engine_from_config V c P of (r, P') \<Rightarrow> (r, P', s))
      | Inr (Some source) \<Rightarrow>
          (case ks_connect (ke_services V) source of
             Inl e \<Rightarrow> (Inl e, P, s)
           | Inr K \<Rightarrow>
               (case with_kms_store K (sc_call A) (sc_id A) (sc_now A) (sc_before A) (sc_between A) (sc_after A) c s of
                  (r, s') \<Rightarrow> (r, P, s'))))"

definition with_decryption_key_from ::
  "key_env \<Rightarrow> string \<Rightarrow> key_source \<Rightarrow> engine \<Rightarrow> key_places \<Rightarrow> engine cres \<times> key_places" where
  "with_decryption_key_from V key_id source en P =
     (if key_id = engine_key_id en then (with_decryption_key key_id (Inr []) en, P)
      else (case load_key V source (key_size_bytes (en_config en)) P of (r, P') \<Rightarrow> (with_decryption_key key_id r en, P')))"

subsection \<open>Keys have their size\<close>

lemma exact_size_Inr: "exact_size m sz what = Inr k \<Longrightarrow> length k = sz"
  by (simp add: exact_size_def split: if_splits)

lemma decode_stored_size: "decode_stored C stored place sz = Inr k \<Longrightarrow> length k = sz"
  by (simp add: decode_stored_def split: sum.splits if_splits)

lemma load_external_size: "load_external_key V env service_config sz = Inr k \<Longrightarrow> length k = sz"
  by (auto simp: load_external_key_def load_from_vault_def load_from_azure_kms_def exact_vault_key_def exact_size_Inr
      split: if_splits sum.splits prod.splits)

lemma generated_size:
  assumes "load_or_generate_key V location sz P = (Inr k, P')" "length (ke_fresh V) = sz"
  shows "length k = sz"
proof (cases "strip_prefix ''env://'' location")
  case (Some v)
  then show ?thesis using assms decode_stored_size
    by (cases "kp_env P v") (auto simp: load_or_generate_key_def Let_def)
next
  case None
  then show ?thesis using assms decode_stored_size
    by (auto simp: load_or_generate_key_def Let_def split: if_splits option.splits)
qed

lemma load_key_size:
  assumes "load_key V source sz P = (Inr k, P')" "length (ke_fresh V) = sz"
  shows "length k = sz"
  using assms generated_size load_external_size by (cases source) (auto split: sum.splits if_splits option.splits)

definition kv_sized :: "key_versions \<Rightarrow> bool" where
  "kv_sized kv \<longleftrightarrow> list_all (\<lambda>k. length k = KEY_SIZE) (kv_candidates kv)"

lemma unwrap_key_size: "unwrap_key K r sz = Inr e \<Longrightarrow> length (ek_key e) = sz"
  by (auto simp: unwrap_key_def split: if_splits sum.splits)

lemma load_new_size: "load_new K sz known t = Inr es \<Longrightarrow> e \<in> set es \<Longrightarrow> length (ek_key e) = sz"
  unfolding load_new_def
  by (induction t arbitrary: es) (auto split: if_splits sum.splits dest: unwrap_key_size)

lemma load_or_create_size: "load_or_create K call i now f g name sz t = (Inr e, t') \<Longrightarrow> length (ek_key e) = sz"
  by (auto simp: load_or_create_def generate_checked_def Let_def split: option.splits if_splits sum.splits dest: unwrap_key_size)

lemma rotate_key_size: "rotate_key K call i now f name sz t = (Inr e, t') \<Longrightarrow> length (ek_key e) = sz"
  by (auto simp: rotate_key_def generate_checked_def split: if_splits sum.splits prod.splits)

lemma kv_add_one_sized: "kv_sized kv \<Longrightarrow> length (ek_key e) = KEY_SIZE \<Longrightarrow> kv_sized (kv_add_one e kv)"
  by (auto simp: kv_sized_def kv_add_one_def kv_candidates_def list_all_iff)

lemma kv_add_sized: "kv_sized kv \<Longrightarrow> \<forall>e \<in> set es. length (ek_key e) = KEY_SIZE \<Longrightarrow> kv_sized (kv_add es kv)"
proof -
  assume "kv_sized kv" "\<forall>e \<in> set es. length (ek_key e) = KEY_SIZE"
  then have "kv_sized (fold kv_add_one es kv)"
    by (induction es arbitrary: kv) (auto simp: kv_add_one_sized)
  then show ?thesis by (simp add: kv_add_def Let_def kv_sized_def kv_candidates_def list_all_iff)
qed

definition engine_typed :: "engine \<Rightarrow> bool" where
  "engine_typed en \<longleftrightarrow> \<not> en_keys_poisoned en \<and> en_keys en (engine_key_id en) \<noteq> None
     \<and> (\<forall>i kv. en_keys en i = Some kv \<longrightarrow> kv_sized kv)"

lemma add_versions_typed:
  assumes "engine_typed en" "\<forall>e \<in> set es. length (ek_key e) = KEY_SIZE"
  shows "engine_typed (add_versions i es en)"
proof -
  have first: "kv_sized kv" if "from_envelope_keys es = Some kv" for kv
    using that assms(2) kv_add_sized by (cases es) (auto simp: kv_sized_def kv_candidates_def)
  show ?thesis
    using assms first kv_add_sized
    by (auto simp: engine_typed_def add_versions_def engine_key_id_def split: option.splits if_splits)
qed

lemma rotate_typed: "engine_typed en \<Longrightarrow> rotate_kms_key call i now f s en = (x, s', en') \<Longrightarrow> engine_typed en'"
  using add_versions_typed [of en] rotate_key_size
  by (fastforce simp: rotate_kms_key_def Let_def config_key_size split: option.splits sum.splits prod.splits if_splits)

lemma reload_typed: "engine_typed en \<Longrightarrow> reload_kms_key s i en = (x, en') \<Longrightarrow> engine_typed en'"
  using add_versions_typed [of en] load_new_size
  by (fastforce simp: reload_kms_key_def Let_def config_key_size split: option.splits sum.splits if_splits)

lemma same_keys_typed:
  "en_config en' = en_config en \<Longrightarrow> en_keys en' = en_keys en \<Longrightarrow> en_keys_poisoned en' = en_keys_poisoned en \<Longrightarrow>
   engine_typed en' \<longleftrightarrow> engine_typed en"
  by (simp add: engine_typed_def engine_key_id_def)

lemma with_kms_store_typed:
  assumes "with_kms_store K call i now f g h c s = (Inr en, s')"
  shows "engine_typed en"
proof -
  obtain e t where l: "load_or_create K call i now f g (kms_key_name (config_key_id c)) KEY_SIZE (s (kms_key_name (config_key_id c))) = (Inr e, t)"
    using assms by (auto simp: with_kms_store_def Let_def config_key_size split: prod.splits sum.splits)
  let ?kv = "\<lparr>kv_active = ek_key e, kv_active_version = ek_version e, kv_previous = []\<rparr>"
  have kv: "kv_sized ?kv" using load_or_create_size [OF l] by (simp add: kv_sized_def kv_candidates_def)
  have "\<exists>kv. en_keys en = [config_key_id c \<mapsto> kv] \<and> kv_sized kv"
    using assms l kv kv_add_sized [OF kv] load_new_size
    by (fastforce simp: with_kms_store_def Let_def config_key_size split: sum.splits if_splits)
  moreover have "en_config en = c" "\<not> en_keys_poisoned en"
    using assms l by (auto simp: with_kms_store_def Let_def config_key_size split: sum.splits if_splits)
  ultimately show ?thesis by (auto simp: engine_typed_def engine_key_id_def split: if_splits)
qed

lemma new_with_pool_typed:
  assumes "new_with_pool V A c P s = (Inr en, P', s')" "length (ke_fresh V) = KEY_SIZE"
  shows "engine_typed en"
proof -
  have "engine_typed (engine_from_key c k)" if "length k = KEY_SIZE" for k
    using that by (simp add: engine_typed_def engine_from_key_def engine_key_id_def kv_sized_def kv_candidates_def kv_single_def)
  then have "engine_typed en" if "engine_from_config V c P = (Inr en, P')"
    using that load_key_size [of V "ec_key_source c" KEY_SIZE P] assms(2)
    by (auto simp: engine_from_config_def config_key_size split: prod.splits sum.splits)
  then show ?thesis
    using assms(1) with_kms_store_typed by (fastforce simp: new_with_pool_def split: sum.splits option.splits prod.splits)
qed

text \<open>
  An engine from its start on, with any services, any stored keys and any answers: the calls of
  its interface that can change what it holds.
\<close>

inductive engine_history :: "engine \<Rightarrow> bool" where
  started: "new_with_pool V A c P s = (Inr en, P', s') \<Longrightarrow> length (ke_fresh V) = KEY_SIZE \<Longrightarrow> engine_history en"
| rotated: "engine_history en \<Longrightarrow> rotate_kms_key call i now f s en = (x, s', en') \<Longrightarrow> engine_history en'"
| reloaded: "engine_history en \<Longrightarrow> reload_kms_key s key_id en = (b, en') \<Longrightarrow> engine_history en'"
| encrypted: "engine_history en \<Longrightarrow>
    encrypt_payload_with_associated_data E C J rd payload pii retention aad en = (r, en') \<Longrightarrow> engine_history en'"
| decrypted: "engine_history en \<Longrightarrow>
    decrypt_payload_with_associated_data C J ms s ep aad en = (v, en') \<Longrightarrow> engine_history en'"
| key_added: "engine_history en \<Longrightarrow> length (ke_fresh V) = KEY_SIZE \<Longrightarrow>
    with_decryption_key_from V key_id source en P = (Inr en', P') \<Longrightarrow> engine_history en'"

lemma stats_typed [simp]: "engine_typed (en\<lparr>en_stats := st\<rparr>) = engine_typed en"
  by (rule same_keys_typed) simp_all

lemma decrypt_typed:
  assumes "engine_typed en" "decrypt_payload_with_associated_data C J ms s ep aad en = (v, en')"
  shows "engine_typed en'"
proof -
  have step: "engine_typed en2" if "decrypt_value C J ms ep aad en1 = (r, en2)" "engine_typed en1" for r en1 en2
    using that same_keys_typed [of en2 en1] decrypt_value_keys [of C J ms ep aad en1] by simp
  obtain r en1 where one: "decrypt_value C J ms ep aad en = (r, en1)" by fastforce
  obtain b en2 where two: "reload_kms_key s (em_key_id (ep_metadata ep)) en1 = (b, en2)" by fastforce
  obtain r3 en3 where three: "decrypt_value C J ms ep aad en2 = (r3, en3)" by fastforce
  have ok: "engine_typed en1" "engine_typed en2" "engine_typed en3"
    using step [OF one assms(1)] reload_typed [OF _ two] step [OF three] by blast+
  have "\<exists>x \<in> {en1, en2, en3}. en' = x \<or> en' = x\<lparr>en_stats := record_decryption_error (en_stats x)\<rparr>"
    using assms(2) one two three
    by (auto simp: decrypt_payload_with_associated_data_def split: sum.splits if_splits bool.splits)
  then show ?thesis using ok by auto
qed

lemma encrypt_typed:
  assumes "encrypt_payload_with_associated_data E C J rd payload pii retention aad en = (r, en')"
  shows "engine_typed en' \<longleftrightarrow> engine_typed en"
proof -
  obtain r1 en1 where one: "encrypt_value E C J rd payload pii retention aad en = (r1, en1)" by fastforce
  have "engine_typed en1 \<longleftrightarrow> engine_typed en"
    using same_keys_typed [of en1 en] encrypt_value_keys [of E C J rd payload pii retention aad en] one by simp
  then show ?thesis
    using assms one by (auto simp: encrypt_payload_with_associated_data_def split: sum.splits)
qed

lemma key_added_typed:
  assumes "engine_typed en" "length (ke_fresh V) = KEY_SIZE" "with_decryption_key_from V key_id source en P = (Inr en', P')"
  shows "engine_typed en'"
proof -
  obtain k where k: "key_id \<noteq> engine_key_id en" "load_key V source KEY_SIZE P = (Inr k, P')"
    "en' = en\<lparr>en_keys := (en_keys en)(key_id \<mapsto> kv_single k)\<rparr>"
    using assms(3)
    by (auto simp: with_decryption_key_from_def with_decryption_key_def config_key_size split: if_splits prod.splits sum.splits)
  then have "kv_sized (kv_single k)"
    using load_key_size assms(2) by (simp add: kv_sized_def kv_candidates_def kv_single_def)
  then show ?thesis using assms(1) k by (auto simp: engine_typed_def engine_key_id_def split: if_splits)
qed

lemma engine_history_typed: "engine_history en \<Longrightarrow> engine_typed en"
proof (induction rule: engine_history.induct)
  case (started V A c P s en P' s')
  then show ?case by (blast intro: new_with_pool_typed)
next
  case (rotated en call i now f s x s' en')
  show ?case by (rule rotate_typed [OF rotated(3,2)])
next
  case (reloaded en s key_id b en')
  show ?case by (rule reload_typed [OF reloaded(3,2)])
next
  case (encrypted en E C J rd payload pii retention aad r en')
  then show ?case using encrypt_typed [OF encrypted(2)] by simp
next
  case (decrypted en C J ms s ep aad v en')
  show ?case by (rule decrypt_typed [OF decrypted(3,2)])
next
  case (key_added en V key_id source P en' P')
  show ?case by (rule key_added_typed [OF key_added(4,2,3)])
qed

text \<open>
  C23: An engine always has its key, and only keys of the right size. Whatever the environment, the
  files, the key services and the database give it, and whatever is rotated, reloaded or added
  later, an engine that could be started holds a key under its own key id, encrypts with a key of
  exactly the size of its cipher, and has no key of another size to try; so it never fails for a
  missing or malformed key.
\<close>
theorem engine_always_has_its_key:
  assumes "engine_history en"
  shows "\<exists>k. active_key en = Inr k \<and> check_key_size k = Inr ()
    \<and> (\<forall>i kv. en_keys en i = Some kv \<longrightarrow> list_all (\<lambda>k. check_key_size k = Inr ()) (kv_candidates kv))"
proof -
  have en: "engine_typed en" using assms by (rule engine_history_typed)
  then obtain kv where kv: "en_keys en (engine_key_id en) = Some kv" by (auto simp: engine_typed_def)
  have "list_all (\<lambda>k. check_key_size k = Inr ()) (kv_candidates kv)" if "en_keys en i = Some kv" for i kv
    using en that by (auto simp: engine_typed_def kv_sized_def check_key_size_def list_all_iff)
  then show ?thesis using en kv by (auto simp: active_key_def engine_typed_def kv_candidates_def)
qed

subsection \<open>Generated keys\<close>

text \<open>The text of a key has no white space around it.\<close>

definition b64_text_laws :: "crypto \<Rightarrow> bool" where
  "b64_text_laws C \<longleftrightarrow> (\<forall>m. str_trim (cr_b64_encode C m) = cr_b64_encode C m)"

lemma decode_stored_encoded:
  "crypto_laws C \<Longrightarrow> b64_text_laws C \<Longrightarrow> length k = sz \<Longrightarrow> decode_stored C (cr_b64_encode C k) place sz = Inr k"
  by (simp add: decode_stored_def crypto_laws_def b64_text_laws_def)

text \<open>
  A generated key is generated once. When a key was generated into a variable or a file, every
  later start with the same location gets that key, whatever fresh key it would have generated, and
  changes nothing; and whatever is stored at the location, a key or not, is never overwritten.
\<close>
theorem generated_key_stable:
  assumes "crypto_laws (ke_crypto V)" and "b64_text_laws (ke_crypto V)" and "length (ke_fresh V) = sz"
    and "\<not> prefix ''stdout://'' location" and "load_or_generate_key V location sz P = (Inr k, P')"
    and "ke_crypto V' = ke_crypto V" and "\<forall>f. kp_read_error P f = None"
  shows "load_or_generate_key V' location sz P' = (Inr k, P')
    \<and> (\<forall>v x. kp_env P v = Some x \<longrightarrow> kp_env P' v = Some x) \<and> (\<forall>f x. kp_files P f = Some x \<longrightarrow> kp_files P' f = Some x)"
proof (cases "strip_prefix ''env://'' location")
  case (Some v)
  then show ?thesis
    using assms decode_stored_encoded [OF assms(1,2,3)]
    by (cases "kp_env P v") (auto simp: load_or_generate_key_def Let_def)
next
  case None
  let ?f = "case strip_prefix ''file://'' location of Some p \<Rightarrow> p | None \<Rightarrow> location"
  show ?thesis
  proof (cases "kp_files P ?f")
    case (Some stored)
    then show ?thesis using None assms by (auto simp: load_or_generate_key_def Let_def split: option.splits)
  next
    case missing: None
    then have ok: "kp_dir_error P ?f = None" "kp_open_error P ?f = None" "kp_write_error P ?f = None"
      using None assms(4,5) by (auto simp: load_or_generate_key_def Let_def split: option.splits)
    then have "k = ke_fresh V" "P' = P\<lparr>kp_files := (kp_files P)(?f \<mapsto> cr_b64_encode (ke_crypto V) (ke_fresh V))\<rparr>"
      using None assms(4,5) missing by (auto simp: load_or_generate_key_def Let_def)
    then show ?thesis
      using None assms(4,6,7) ok missing decode_stored_encoded [OF assms(1,2,3)]
      by (auto simp: load_or_generate_key_def Let_def)
  qed
qed

subsection \<open>A sample\<close>

definition sample_text_crypto :: crypto where
  "sample_text_crypto =
     sample_crypto\<lparr>cr_b64_encode := (\<lambda>m. CHR ''='' # m @ ''=''), cr_b64_decode := (\<lambda>t. Inr (butlast (tl t)))\<rparr>"

lemma sample_text_crypto_laws: "crypto_laws sample_text_crypto" "b64_text_laws sample_text_crypto"
proof -
  show "crypto_laws sample_text_crypto"
    using sample_crypto_laws(1) by (simp add: crypto_laws_def sample_text_crypto_def)
  have "\<not> is_ascii_space (CHR ''='')" by (simp add: is_ascii_space_def Let_def)
  then show "b64_text_laws sample_text_crypto" by (simp add: b64_text_laws_def sample_text_crypto_def str_trim_def)
qed

definition sample_key_env :: "char \<Rightarrow> key_env" where
  "sample_key_env c =
     \<lparr>ke_crypto = sample_text_crypto, ke_features = \<lparr>fe_aws = True, fe_gcp = True, fe_vault = True, fe_azure = True\<rparr>,
      ke_services = \<lparr>ks_vault_read = (\<lambda>_ _ _ _. Inl (KeyManagement ''down'')), ks_azure_fetch = (\<lambda>_ _. Inl (KeyManagement ''down'')),
                     ks_connect = (\<lambda>_. Inl (KeyManagement ''down''))\<rparr>,
      ke_fresh = replicate 32 c\<rparr>"

definition sample_places :: key_places where
  "sample_places =
     \<lparr>kp_env = (\<lambda>_. None), kp_files = (\<lambda>_. None), kp_dir_error = (\<lambda>_. None), kp_open_error = (\<lambda>_. None),
      kp_read_error = (\<lambda>_. None), kp_write_error = (\<lambda>_. None)\<rparr>"

lemma sample_generated:
  "load_or_generate_key (sample_key_env c) ''file:///keys/k'' 32 sample_places =
     (Inr (replicate 32 c), sample_places\<lparr>kp_files := [''/keys/k'' \<mapsto> CHR ''='' # replicate 32 c @ ''='']\<rparr>)"
  by (simp add: load_or_generate_key_def sample_key_env_def sample_places_def sample_text_crypto_def strip_prefix_def Let_def)

lemma generated_key_stable_witness:
  "load_or_generate_key (sample_key_env (CHR ''b'')) ''file:///keys/k'' 32
       (snd (load_or_generate_key (sample_key_env (CHR ''a'')) ''file:///keys/k'' 32 sample_places)) =
     (Inr (replicate 32 (CHR ''a'')), snd (load_or_generate_key (sample_key_env (CHR ''a'')) ''file:///keys/k'' 32 sample_places))"
proof -
  have V: "ke_crypto (sample_key_env c) = sample_text_crypto" "length (ke_fresh (sample_key_env c)) = 32" for c
    by (simp_all add: sample_key_env_def)
  have "\<forall>f. kp_read_error sample_places f = None" by (simp add: sample_places_def)
  then show ?thesis
    using generated_key_stable [of "sample_key_env (CHR ''a'')" 32 "''file:///keys/k''" sample_places _ _ "sample_key_env (CHR ''b'')"]
      sample_generated [of "CHR ''a''"] sample_text_crypto_laws V by simp
qed

definition sample_start :: start_call where
  "sample_start = \<lparr>sc_call = 0, sc_id = 0, sc_now = 0, sc_before = (\<lambda>t. t), sc_between = (\<lambda>t. t), sc_after = (\<lambda>t. t)\<rparr>"

lemma engine_always_has_its_key_witness:
  "\<exists>en P s k. new_with_pool (sample_key_env (CHR ''a'')) sample_start
       ((encryption_config_new AES256GCM)\<lparr>ec_key_source := KsGenerated ''file:///keys/k''\<rparr>) sample_places (\<lambda>_. []) = (Inr en, P, s)
     \<and> active_key en = Inr k \<and> check_key_size k = Inr ()"
proof -
  let ?V = "sample_key_env (CHR ''a'')" and ?c = "(encryption_config_new AES256GCM)\<lparr>ec_key_source := KsGenerated ''file:///keys/k''\<rparr>"
  have "key_size_bytes ?c = 32" by (simp add: config_key_size KEY_SIZE_def)
  then obtain en P s where en: "new_with_pool ?V sample_start ?c sample_places (\<lambda>_. []) = (Inr en, P, s)"
    using sample_generated [of "CHR ''a''"] by (simp add: new_with_pool_def engine_from_config_def)
  have "engine_history en" by (rule engine_history.started [OF en]) (simp add: sample_key_env_def KEY_SIZE_def)
  then show ?thesis using engine_always_has_its_key [of en] en by blast
qed

end
