(* ===== verification/JobSeal.thy ===== *)
theory JobSeal
  imports EngineSystem
begin

text \<open>
  Job payloads at rest: \<open>src/src/encryption/job_payload.rs\<close> and \<open>src/src/queue/payload_encryption.rs\<close>
  with the \<open>encryption\<close> feature. A queue seals jobs before it stores them and opens them for a
  handler. A job is here the part of it these functions read and write. A reference into a
  payload is the list of keys that leads to it.
\<close>

record crypt_job =
  cj_id :: uuid
  cj_queue_name :: string
  cj_payload :: json_value
  cj_status :: job_status
  cj_encryption_config :: "encryption_config option"
  cj_pii_fields :: "string list"
  cj_retention_policy :: "retention_policy option"
  cj_is_encrypted :: bool
  cj_encrypted_payload :: "encrypted_payload option"

definition asks_encryption :: "crypt_job \<Rightarrow> bool" where
  "asks_encryption j \<longleftrightarrow> cj_encryption_config j \<noteq> None"

subsection \<open>Associated data\<close>

text \<open>\<open>u64::to_be_bytes\<close> (\<open>n = 8\<close>) and \<open>Uuid::as_bytes\<close> (\<open>n = 16\<close>).\<close>

fun be_bytes :: "nat \<Rightarrow> nat \<Rightarrow> bytes" where
  "be_bytes 0 v = []"
| "be_bytes (Suc n) v = be_bytes n (v div 256) @ [char_of (v mod 256)]"

definition push_bytes :: "bytes \<Rightarrow> bytes \<Rightarrow> bytes" where
  "push_bytes out b = out @ be_bytes 8 (length b) @ b"

definition push_list :: "bytes \<Rightarrow> string list \<Rightarrow> bytes" where
  "push_list out items = foldl push_bytes (out @ be_bytes 8 (length items)) items"

definition JOB_AAD_CONTEXT :: bytes where
  "JOB_AAD_CONTEXT = ''hammerwork/job-payload/v1''"

definition job_associated_data ::
  "uuid \<Rightarrow> string \<Rightarrow> string \<Rightarrow> encryption_algorithm \<Rightarrow> string list \<Rightarrow> string list \<Rightarrow> bytes" where
  "job_associated_data i queue_name key_id a pii encrypted =
     (let out = push_bytes [] JOB_AAD_CONTEXT;
          out = push_bytes out (be_bytes 16 i);
          out = push_bytes out queue_name;
          out = push_bytes out key_id;
          out = push_bytes out (algorithm_str a);
          out = push_list out pii
      in push_list out encrypted)"

subsection \<open>Fields\<close>

definition REDACTED_FIELD_VALUE :: string where
  "REDACTED_FIELD_VALUE = ''[ENCRYPTED]''"

definition encrypted_payload_placeholder :: json_value where
  "encrypted_payload_placeholder = JObject [(''encrypted'', JBool True)]"

fun get_slot :: "json_value \<Rightarrow> string list \<Rightarrow> json_value option" where
  "get_slot v [] = Some v"
| "get_slot (JObject kvs) (k # ks) = (case map_of kvs k of None \<Rightarrow> None | Some v \<Rightarrow> get_slot v ks)"
| "get_slot _ (k # ks) = None"

fun set_entry :: "string \<Rightarrow> json_value \<Rightarrow> (string \<times> json_value) list \<Rightarrow> (string \<times> json_value) list" where
  "set_entry k v [] = []"
| "set_entry k v ((k', v') # kvs) = (if k' = k then (k', v) # kvs else (k', v') # set_entry k v kvs)"

fun set_slot :: "json_value \<Rightarrow> string list \<Rightarrow> json_value \<Rightarrow> json_value" where
  "set_slot v [] w = w"
| "set_slot (JObject kvs) (k # ks) w =
     (case map_of kvs k of None \<Rightarrow> JObject kvs | Some v \<Rightarrow> JObject (set_entry k (set_slot v ks w) kvs))"
| "set_slot v (k # ks) w = v"

fun slot_keys :: "json_value \<Rightarrow> string \<Rightarrow> string list" where
  "slot_keys (JObject kvs) path = (if map_of kvs path \<noteq> None then [path] else split_on (CHR ''.'') path)"
| "slot_keys _ path = split_on (CHR ''.'') path"

definition resolve_mut :: "json_value \<Rightarrow> string \<Rightarrow> string list option" where
  "resolve_mut v path =
     (if get_slot v (slot_keys v path) = None then None else Some (slot_keys v path))"

fun redact_loop :: "string list \<Rightarrow> json_value \<Rightarrow> json_value list \<Rightarrow> string list \<Rightarrow> json_value \<times> json_value list \<times> string list" where
  "redact_loop [] redacted removed found = (redacted, removed, found)"
| "redact_loop (field # rest) redacted removed found =
     (if field \<in> set found then redact_loop rest redacted removed found
      else
        (case resolve_mut redacted field of
           None \<Rightarrow> redact_loop rest redacted removed found
         | Some slot \<Rightarrow>
             redact_loop rest (set_slot redacted slot (JString REDACTED_FIELD_VALUE))
               (removed @ [JArray [JString field, the (get_slot redacted slot)]]) (found @ [field])))"

fun is_object :: "json_value \<Rightarrow> bool" where
  "is_object (JObject kvs) = True"
| "is_object _ = False"

definition redact_fields :: "json_value \<Rightarrow> string list \<Rightarrow> (json_value \<times> json_value \<times> string list) cres" where
  "redact_fields payload pii =
     (if \<not> is_object payload then
        Inl (FieldProcessing (''PII field encryption needs a JSON object payload; use whole-payload encryption ''
          @ ''(no PII fields) for other payloads''))
      else
        (let (redacted, removed, found) = redact_loop pii payload [] [] in Inr (redacted, JArray removed, found)))"

definition invalid_removed :: encryption_error where
  "invalid_removed = FieldProcessing ''Decrypted PII fields are not in the expected [[path, value], ...] form''"

fun restore_loop :: "json_value list \<Rightarrow> json_value \<Rightarrow> json_value cres" where
  "restore_loop [] payload = Inr payload"
| "restore_loop (JArray [JString path, v] # rest) payload =
     (case resolve_mut payload path of
        None \<Rightarrow> Inl (FieldProcessing (''Encrypted PII field '' @ CHR 0x27 # path @ CHR 0x27 # '' is missing from the stored payload''))
      | Some slot \<Rightarrow> restore_loop rest (set_slot payload slot v))"
| "restore_loop (_ # rest) payload = Inl invalid_removed"

fun restore_fields :: "json_value \<Rightarrow> json_value \<Rightarrow> json_value cres" where
  "restore_fields redacted (JArray entries) = restore_loop (rev entries) redacted"
| "restore_fields redacted _ = Inl invalid_removed"

subsection \<open>Sealing and opening\<close>

text \<open>The parameters of a call: the crates, the JSON text and what the call reads.\<close>

record seal_env =
  se_externs :: externs
  se_crypto :: crypto
  se_json :: json_env
  se_reading :: call_reading

definition seal_encrypt ::
  "seal_env \<Rightarrow> engine \<Rightarrow> crypt_job \<Rightarrow> json_value \<Rightarrow> string list \<Rightarrow> encrypted_payload cres \<times> engine" where
  "seal_encrypt S en j v found =
     encrypt_payload_with_associated_data (se_externs S) (se_crypto S) (se_json S) (se_reading S) v found
       (case cj_retention_policy j of Some p \<Rightarrow> p | None \<Rightarrow> UseDefault)
       (job_associated_data (cj_id j) (cj_queue_name j) (engine_key_id en) (ec_algorithm (en_config en)) (cj_pii_fields j) found)
       en"

definition sealed_job :: "json_value \<Rightarrow> encrypted_payload \<Rightarrow> crypt_job \<Rightarrow> crypt_job" where
  "sealed_job stored ep j =
     j\<lparr>cj_payload := stored, cj_is_encrypted := True,
       cj_encrypted_payload := Some (ep\<lparr>ep_metadata := (ep_metadata ep)\<lparr>em_format_version := FORMAT_JOB_BOUND\<rparr>\<rparr>)\<rparr>"

definition seal_job :: "seal_env \<Rightarrow> engine \<Rightarrow> crypt_job \<Rightarrow> unit cres \<times> crypt_job \<times> engine" where
  "seal_job S en j =
     (case cj_encryption_config j of
        None \<Rightarrow> (Inr (), j, en)
      | Some c \<Rightarrow>
          if cj_is_encrypted j then (Inr (), j, en)
          else if ec_algorithm c \<noteq> ec_algorithm (en_config en) then
            (Inl (InvalidConfiguration (''Job '' @ uuid_show (se_externs S) (cj_id j) @ '' asks for '' @ algorithm_str (ec_algorithm c)
               @ '' but the queue'' @ CHR 0x27 # ''s encryption engine uses '' @ algorithm_str (ec_algorithm (en_config en)))), j, en)
          else if is_some_and (ec_key_id c) (\<lambda>key_id. key_id \<noteq> engine_key_id en) then
            (Inl (InvalidConfiguration (''Job '' @ uuid_show (se_externs S) (cj_id j) @ '' asks for key '' @ CHR 0x27 # the (ec_key_id c)
               @ CHR 0x27 # '' but the queue'' @ CHR 0x27 # ''s encryption engine encrypts with key '' @ CHR 0x27 # engine_key_id en
               @ [CHR 0x27])), j, en)
          else if cj_pii_fields j = [] then
            (case seal_encrypt S en j (cj_payload j) [] of
               (Inl e, en') \<Rightarrow> (Inl e, j, en')
             | (Inr ep, en') \<Rightarrow> (Inr (), sealed_job encrypted_payload_placeholder ep j, en'))
          else
            (case redact_fields (cj_payload j) (cj_pii_fields j) of
               Inl e \<Rightarrow> (Inl e, j, en)
             | Inr (redacted, removed, found) \<Rightarrow>
                 (case seal_encrypt S en j removed found of
                    (Inl e, en') \<Rightarrow> (Inl e, j, en')
                  | (Inr ep, en') \<Rightarrow> (Inr (), sealed_job redacted ep j, en'))))"

text \<open>\<open>decrypt_payload\<close> is the call without associated data.\<close>

definition decrypt_payload ::
  "crypto \<Rightarrow> json_env \<Rightarrow> rat \<Rightarrow> key_store \<Rightarrow> encrypted_payload \<Rightarrow> engine \<Rightarrow> json_value cres \<times> engine" where
  "decrypt_payload C J ms s ep en = decrypt_payload_with_associated_data C J ms s ep [] en"

definition open_decrypt :: "seal_env \<Rightarrow> key_store \<Rightarrow> engine \<Rightarrow> crypt_job \<Rightarrow> encrypted_payload \<Rightarrow> json_value cres \<times> engine" where
  "open_decrypt S s en j ep =
     (let m = ep_metadata ep in
      if em_format_version m = FORMAT_UNBOUND then
        decrypt_payload (se_crypto S) (se_json S) (cl_ms (se_reading S)) s ep en
      else if em_format_version m = FORMAT_JOB_BOUND then
        decrypt_payload_with_associated_data (se_crypto S) (se_json S) (cl_ms (se_reading S)) s ep
          (job_associated_data (cj_id j) (cj_queue_name j) (em_key_id m) (em_algorithm m) (cj_pii_fields j) (em_encrypted_fields m)) en
      else
        (Inl (DecryptionFailed (''Job '' @ uuid_show (se_externs S) (cj_id j) @ '' has an encrypted payload in an unknown format (''
           @ show_nat (em_format_version m) @ ''); it was written by a newer version of hammerwork'')), en))"

definition open_job :: "seal_env \<Rightarrow> key_store \<Rightarrow> engine \<Rightarrow> crypt_job \<Rightarrow> crypt_job cres \<times> engine" where
  "open_job S s en j =
     (if \<not> cj_is_encrypted j then (Inr j, en)
      else
        (case cj_encrypted_payload j of
           None \<Rightarrow>
             (Inl (DecryptionFailed (''Job '' @ uuid_show (se_externs S) (cj_id j)
                @ '' is marked encrypted but has no encrypted payload'')), en)
         | Some ep \<Rightarrow>
             (case open_decrypt S s en j ep of
                (Inl e, en') \<Rightarrow> (Inl e, en')
              | (Inr v, en') \<Rightarrow>
                  (case (if cj_pii_fields j = [] then Inr v else restore_fields (cj_payload j) v) of
                     Inl e \<Rightarrow> (Inl e, en')
                   | Inr payload \<Rightarrow>
                       (Inr (j\<lparr>cj_payload := payload, cj_is_encrypted := False, cj_encrypted_payload := None\<rparr>), en')))))"

subsection \<open>The queue's settings\<close>

record payload_encryption =
  pe_engine :: "engine option"
  pe_encrypted_queues :: "string list"
  pe_plaintext_guard :: bool

definition guarded_queues :: "payload_encryption \<Rightarrow> crypt_job list \<Rightarrow> string list" where
  "guarded_queues pe jobs =
     (if \<not> pe_plaintext_guard pe then []
      else remdups_adj (sort (map cj_queue_name (filter (\<lambda>j. \<not> cj_is_encrypted j) jobs))))"

definition plaintext_refused :: "string \<Rightarrow> hammerwork_error" where
  "plaintext_refused queue_name =
     EncryptionError (''Queue '' @ CHR 0x27 # queue_name @ CHR 0x27 # '' holds encrypted jobs, but this queue handle would store the new ''
       @ ''job in plaintext; refusing. Give it the application'' @ CHR 0x27 # ''s encryption settings ''
       @ ''(the [encryption] section and its key), or encrypt the job explicitly'')"

definition encrypts_queue :: "payload_encryption \<Rightarrow> string \<Rightarrow> bool" where
  "encrypts_queue pe queue_name = list_ex (\<lambda>q. q = ''*'' \<or> q = queue_name) (pe_encrypted_queues pe)"

definition engine_job_config :: "engine \<Rightarrow> encryption_config" where
  "engine_job_config en =
     (encryption_config_new (ec_algorithm (en_config en)))
       \<lparr>ec_key_id := Some (engine_key_id en), ec_compression_enabled := ec_compression_enabled (en_config en)\<rparr>"

definition add_queue_config :: "payload_encryption \<Rightarrow> crypt_job \<Rightarrow> crypt_job" where
  "add_queue_config pe j =
     (case (cj_encryption_config j, pe_engine pe) of
        (None, Some en) \<Rightarrow>
          if encrypts_queue pe (cj_queue_name j) then j\<lparr>cj_encryption_config := Some (engine_job_config en)\<rparr> else j
      | _ \<Rightarrow> j)"

text \<open>\<open>impl From<EncryptionError> for HammerworkError\<close>.\<close>

definition encryption_failure :: "encryption_error \<Rightarrow> hammerwork_error" where
  "encryption_failure e = EncryptionError (encryption_error_display e)"

text \<open>Each encryption reads the time and a fresh nonce; the environment gives them per job.\<close>

fun seal :: "(nat \<Rightarrow> seal_env) \<Rightarrow> payload_encryption \<Rightarrow> crypt_job list \<Rightarrow> unit res \<times> crypt_job list \<times> payload_encryption" where
  "seal S pe [] = (Inr (), [], pe)"
| "seal S pe (j # jobs) =
     (let continue = (\<lambda>j pe. let (r, js, pe') = seal (\<lambda>n. S (Suc n)) pe jobs in (r, j # js, pe')) in
      if cj_is_encrypted j then continue j pe
      else
        (let j' = add_queue_config pe j in
         if \<not> asks_encryption j' then continue j' pe
         else
           (case pe_engine pe of
              None \<Rightarrow>
                (Inl (EncryptionError (''Job '' @ uuid_show (se_externs (S 0)) (cj_id j)
                   @ '' has an encryption config but the queue has no encryption engine; configure one with JobQueue::with_encryption'')),
                 j' # jobs, pe)
            | Some en \<Rightarrow>
                (case seal_job (S 0) en j' of
                   (Inl e, j'', en') \<Rightarrow> (Inl (encryption_failure e), j'' # jobs, pe\<lparr>pe_engine := Some en'\<rparr>)
                 | (Inr _, j'', en') \<Rightarrow> continue j'' (pe\<lparr>pe_engine := Some en'\<rparr>)))))"

definition has_ciphertext :: "crypt_job \<Rightarrow> bool" where
  "has_ciphertext j \<longleftrightarrow> cj_encrypted_payload j \<noteq> None"

definition open_stored :: "seal_env \<Rightarrow> key_store \<Rightarrow> payload_encryption \<Rightarrow> crypt_job \<Rightarrow> crypt_job res \<times> payload_encryption" where
  "open_stored S s pe j =
     (if \<not> cj_is_encrypted j then (Inr j, pe)
      else if cj_status j = Archived \<and> \<not> has_ciphertext j then
        (Inl (EncryptionError (''Job '' @ uuid_show (se_externs S) (cj_id j)
           @ '' is archived and its ciphertext stays in the archive; restore it with restore_archived_job and decrypt the restored job'')), pe)
      else
        (case pe_engine pe of
           None \<Rightarrow>
             (Inl (EncryptionError (''Job '' @ uuid_show (se_externs S) (cj_id j)
                @ '' has an encrypted payload but the queue has no encryption engine; configure one with JobQueue::with_encryption'')), pe)
         | Some en \<Rightarrow>
             (case open_job S s en j of
                (Inl e, en') \<Rightarrow>
                  (Inl (EncryptionError (''Cannot decrypt the payload of job '' @ uuid_show (se_externs S) (cj_id j) @ '': ''
                     @ encryption_error_display e)), pe\<lparr>pe_engine := Some en'\<rparr>)
              | (Inr j', en') \<Rightarrow> (Inr j', pe\<lparr>pe_engine := Some en'\<rparr>))))"

subsection \<open>The associated data identifies the job\<close>

lemma length_be_bytes [simp]: "length (be_bytes n v) = n"
  by (induction n arbitrary: v) auto

lemma be_bytes_inj: "v < 256 ^ n \<Longrightarrow> w < 256 ^ n \<Longrightarrow> be_bytes n v = be_bytes n w \<longleftrightarrow> v = w"
proof (induction n arbitrary: v w)
  case (Suc n)
  have "v div 256 < 256 ^ n" "w div 256 < 256 ^ n" using Suc.prems by (simp_all add: less_mult_imp_div_less mult.commute)
  moreover have "(char_of (v mod 256) :: char) = char_of (w mod 256) \<longleftrightarrow> v mod 256 = w mod 256"
    by (metis char_of_eq_iff mod_mod_trivial of_char_of take_bit_eq_mod)
  ultimately have "be_bytes (Suc n) v = be_bytes (Suc n) w \<longleftrightarrow> v div 256 = w div 256 \<and> v mod 256 = w mod 256"
    using Suc.IH [of "v div 256" "w div 256"] by simp
  also have "\<dots> \<longleftrightarrow> v = w" by (metis div_mult_mod_eq)
  finally show ?case .
qed simp

text \<open>What fits the 8 bytes of a length.\<close>

definition fits :: "'a list \<Rightarrow> bool" where
  "fits x \<longleftrightarrow> length x < 2 ^ 64"

lemma push_inj:
  assumes "fits x" "fits y" "be_bytes 8 (length x) @ x @ r = be_bytes 8 (length y) @ y @ s"
  shows "x = y \<and> r = s"
proof -
  have "be_bytes 8 (length x) = be_bytes 8 (length y)" "x @ r = y @ s" using assms(3) by simp_all
  moreover have "length x < 256 ^ 8" "length y < 256 ^ 8" using assms(1,2) by (simp_all add: fits_def)
  ultimately have "length x = length y" using be_bytes_inj [of "length x" 8 "length y"] by blast
  then show ?thesis using \<open>x @ r = y @ s\<close> by simp
qed

lemma push_bytes_append: "foldl push_bytes out items = out @ concat (map (\<lambda>x. be_bytes 8 (length x) @ x) items)"
  by (induction items arbitrary: out) (simp_all add: push_bytes_def)

lemma items_inj:
  assumes "length xs = length ys" "list_all fits xs" "list_all fits ys"
    "concat (map (\<lambda>x. be_bytes 8 (length x) @ x) xs) @ r = concat (map (\<lambda>x. be_bytes 8 (length x) @ x) ys) @ s"
  shows "xs = ys \<and> r = s"
  using assms
proof (induction xs ys rule: list_induct2)
  case (Cons x xs y ys)
  then have "x = y \<and> concat (map (\<lambda>x. be_bytes 8 (length x) @ x) xs) @ r = concat (map (\<lambda>x. be_bytes 8 (length x) @ x) ys) @ s"
    by (intro push_inj) simp_all
  then show ?case using Cons by simp
qed simp

definition list_code :: "string list \<Rightarrow> bytes" where
  "list_code items = be_bytes 8 (length items) @ concat (map (\<lambda>x. be_bytes 8 (length x) @ x) items)"

lemma push_list_code: "push_list out items = out @ list_code items"
  by (simp add: push_list_def push_bytes_append list_code_def)

lemma list_code_inj:
  assumes "fits xs" "fits ys" "list_all fits xs" "list_all fits ys" "list_code xs @ r = list_code ys @ s"
  shows "xs = ys \<and> r = s"
proof -
  have "be_bytes 8 (length xs) = be_bytes 8 (length ys)" using assms(5) by (simp add: list_code_def)
  moreover have "length xs < 256 ^ 8" "length ys < 256 ^ 8" using assms(1,2) by (simp_all add: fits_def)
  ultimately have "length xs = length ys" using be_bytes_inj [of "length xs" 8 "length ys"] by blast
  then show ?thesis using items_inj [of xs ys r s] assms(3-5) by (simp add: list_code_def)
qed

text \<open>Values that a Rust program can hold.\<close>

definition context_ok :: "uuid \<Rightarrow> string \<Rightarrow> string \<Rightarrow> string list \<Rightarrow> string list \<Rightarrow> bool" where
  "context_ok i queue_name key_id pii encrypted \<longleftrightarrow>
     i < 2 ^ 128 \<and> fits queue_name \<and> fits key_id \<and> fits pii \<and> list_all fits pii \<and> fits encrypted \<and> list_all fits encrypted"

lemma algorithm_str_inj: "algorithm_str a = algorithm_str b \<longleftrightarrow> a = b"
  by (cases a; cases b) simp_all

lemma job_associated_data_inj:
  assumes "context_ok i q k pii enc" "context_ok i' q' k' pii' enc'"
    "job_associated_data i q k a pii enc = job_associated_data i' q' k' a' pii' enc'"
  shows "i = i' \<and> q = q' \<and> k = k' \<and> a = a' \<and> pii = pii' \<and> enc = enc'"
proof -
  have code: "job_associated_data i q k a pii enc =
      be_bytes 8 (length JOB_AAD_CONTEXT) @ JOB_AAD_CONTEXT @ be_bytes 8 16 @ be_bytes 16 i @ be_bytes 8 (length q) @ q
        @ be_bytes 8 (length k) @ k @ be_bytes 8 (length (algorithm_str a)) @ algorithm_str a @ list_code pii @ list_code enc"
    for i q k a pii enc
    by (simp add: job_associated_data_def push_bytes_def push_list_code)
  have i: "be_bytes 16 i = be_bytes 16 i'" using assms(3) unfolding code by simp
  moreover have "i < 256 ^ 16" "i' < 256 ^ 16" using assms(1,2) by (simp_all add: context_ok_def)
  ultimately have "i = i'" using be_bytes_inj [of i 16 i'] by blast
  have q: "q = q' \<and> be_bytes 8 (length k) @ k @ be_bytes 8 (length (algorithm_str a)) @ algorithm_str a @ list_code pii @ list_code enc
      = be_bytes 8 (length k') @ k' @ be_bytes 8 (length (algorithm_str a')) @ algorithm_str a' @ list_code pii' @ list_code enc'"
    by (rule push_inj) (use assms i in \<open>simp_all add: code context_ok_def\<close>)
  have k: "k = k' \<and> be_bytes 8 (length (algorithm_str a)) @ algorithm_str a @ list_code pii @ list_code enc
      = be_bytes 8 (length (algorithm_str a')) @ algorithm_str a' @ list_code pii' @ list_code enc'"
    by (rule push_inj [OF _ _ conjunct2 [OF q]]) (use assms in \<open>simp_all add: context_ok_def\<close>)
  have short: "fits (algorithm_str b)" for b by (cases b) (simp_all add: fits_def)
  have a: "algorithm_str a = algorithm_str a' \<and> list_code pii @ list_code enc = list_code pii' @ list_code enc'"
    by (rule push_inj [OF short short conjunct2 [OF k]])
  have pii: "pii = pii' \<and> list_code enc = list_code enc'"
    by (rule list_code_inj [OF _ _ _ _ conjunct2 [OF a]]) (use assms in \<open>simp_all add: context_ok_def\<close>)
  have "enc = enc' \<and> ([] :: bytes) = []"
    by (rule list_code_inj) (use pii assms in \<open>simp_all add: context_ok_def\<close>)
  then show ?thesis using \<open>i = i'\<close> q k a pii algorithm_str_inj by blast
qed

lemma job_associated_data_nonempty: "job_associated_data i q k a pii enc \<noteq> []"
  by (simp add: job_associated_data_def push_bytes_def push_list_code JOB_AAD_CONTEXT_def)

subsection \<open>Fields are taken out and put back\<close>

lemma map_of_set_entry: "map_of (set_entry k v kvs) k' = (if k' = k \<and> map_of kvs k \<noteq> None then Some v else map_of kvs k')"
  by (induction kvs) auto

lemma set_entry_twice [simp]: "set_entry k w (set_entry k v kvs) = set_entry k w kvs"
  by (induction kvs) auto

lemma set_entry_same: "map_of kvs k = Some v \<Longrightarrow> set_entry k v kvs = kvs"
  by (induction kvs) (auto split: if_splits)

lemma get_set_slot: "get_slot v ks \<noteq> None \<Longrightarrow> get_slot (set_slot v ks w) ks = Some w"
  by (induction v ks rule: get_slot.induct) (auto simp: map_of_set_entry split: option.splits)

lemma set_slot_back: "get_slot v ks = Some x \<Longrightarrow> set_slot (set_slot v ks w) ks x = v"
  by (induction v ks rule: get_slot.induct) (auto simp: map_of_set_entry set_entry_same split: option.splits)

lemma slot_keys_set: "slot_keys (set_slot v (k # ks) w) path = slot_keys v path"
  by (cases v) (auto simp: map_of_set_entry split: option.splits)

lemma split_on_nonempty: "split_on c s \<noteq> []"
  by (cases s) (auto split: list.splits)

lemma slot_keys_nonempty: "slot_keys v path \<noteq> []"
  by (cases v) (auto simp: split_on_nonempty)

lemma resolve_after_set:
  assumes "resolve_mut v path = Some ks"
  shows "resolve_mut (set_slot v ks w) path = Some ks \<and> get_slot (set_slot v ks w) ks = Some w
    \<and> set_slot (set_slot v ks w) ks (the (get_slot v ks)) = v"
proof -
  have ks: "ks = slot_keys v path" "get_slot v ks \<noteq> None" using assms by (auto simp: resolve_mut_def split: if_splits)
  have "slot_keys (set_slot v ks w) path = ks" using slot_keys_set slot_keys_nonempty [of v path] ks(1) by (metis list.exhaust)
  then show ?thesis using ks(2) get_set_slot [of v ks w] set_slot_back [of v ks] by (auto simp: resolve_mut_def)
qed

lemma redact_restore_loop:
  assumes "redact_loop pii v removed found = (v', removed', found')"
  shows "\<exists>new. removed' = removed @ new \<and> (\<forall>rest. restore_loop (rev new @ rest) v' = restore_loop rest v)"
  using assms
proof (induction pii v removed found rule: redact_loop.induct)
  case (2 field fs v removed found)
  show ?case
  proof (cases "field \<in> set found \<or> resolve_mut v field = None")
    case True
    then show ?thesis using 2 by (auto split: if_splits)
  next
    case False
    then obtain ks where ks: "resolve_mut v field = Some ks" by auto
    let ?x = "JArray [JString field, the (get_slot v ks)]" and ?v = "set_slot v ks (JString REDACTED_FIELD_VALUE)"
    have "redact_loop fs ?v (removed @ [?x]) (found @ [field]) = (v', removed', found')" using 2(4) False ks by simp
    then obtain new where new: "removed' = removed @ [?x] @ new" "\<forall>rest. restore_loop (rev new @ rest) v' = restore_loop rest ?v"
      using 2(3) [OF _ ks] False by auto
    have "restore_loop (rev (?x # new) @ rest) v' = restore_loop rest v" for rest
      using new(2) resolve_after_set [OF ks, of "JString REDACTED_FIELD_VALUE"] by simp
    then show ?thesis using new(1) by (intro exI [of _ "?x # new"]) simp
  qed
qed simp

lemma redact_restore:
  assumes "redact_fields payload pii = Inr (redacted, removed, found)"
  shows "restore_fields redacted removed = Inr payload"
proof -
  obtain rs where rs: "redact_loop pii payload [] [] = (redacted, rs, found)" "removed = JArray rs"
    using assms by (auto simp: redact_fields_def split: if_splits prod.splits)
  then show ?thesis using redact_restore_loop [OF rs(1)] by (metis append_Nil append_Nil2 restore_fields.simps(1) restore_loop.simps(1))
qed

text \<open>A field that is missing or redacted stays so: its value cannot be read in the stored payload.\<close>

definition hidden_slot :: "json_value \<Rightarrow> string list \<Rightarrow> bool" where
  "hidden_slot v ks \<longleftrightarrow> get_slot v ks = None \<or> get_slot v ks = Some (JString REDACTED_FIELD_VALUE)"

definition hidden_field :: "json_value \<Rightarrow> string \<Rightarrow> bool" where
  "hidden_field v path \<longleftrightarrow> hidden_slot v (slot_keys v path)"

lemma hidden_slot_set: "hidden_slot v ps \<Longrightarrow> hidden_slot (set_slot v ks (JString REDACTED_FIELD_VALUE)) ps"
proof (induction v ks arbitrary: ps rule: get_slot.induct)
  case (1 v)
  then show ?case by (cases ps) (auto simp: hidden_slot_def)
next
  case (2 kvs k ks)
  show ?case
  proof (cases "map_of kvs k")
    case (Some x)
    then have x: "hidden_slot x ps' \<Longrightarrow> hidden_slot (set_slot x ks (JString REDACTED_FIELD_VALUE)) ps'" for ps'
      using 2(1) by blast
    show ?thesis
    proof (cases ps)
      case (Cons p ps')
      then show ?thesis using Some 2(2) x [of ps'] by (auto simp: hidden_slot_def map_of_set_entry)
    qed (use 2(2) in \<open>simp add: hidden_slot_def\<close>)
  qed (use 2(2) in simp)
qed (auto simp: hidden_slot_def)

lemma resolve_hidden:
  assumes "resolve_mut v path = Some ks"
  shows "hidden_field v f \<Longrightarrow> hidden_field (set_slot v ks (JString REDACTED_FIELD_VALUE)) f"
    "hidden_field (set_slot v ks (JString REDACTED_FIELD_VALUE)) path"
proof -
  have ks: "ks = slot_keys v path" using assms by (auto simp: resolve_mut_def split: if_splits)
  have keys: "slot_keys (set_slot v ks w) g = slot_keys v g" for w g
    using slot_keys_set slot_keys_nonempty [of v path] ks by (metis list.exhaust)
  show "hidden_field v f \<Longrightarrow> hidden_field (set_slot v ks (JString REDACTED_FIELD_VALUE)) f"
    using hidden_slot_set by (simp add: hidden_field_def keys)
  show "hidden_field (set_slot v ks (JString REDACTED_FIELD_VALUE)) path"
    unfolding hidden_field_def keys using resolve_after_set [OF assms] ks by (simp add: hidden_slot_def)
qed

lemma redact_loop_hides:
  assumes "redact_loop pii v removed found = (v', removed', found')" "list_all (hidden_field v) found"
  shows "(\<forall>f. hidden_field v f \<longrightarrow> hidden_field v' f) \<and> list_all (hidden_field v') pii"
  using assms
proof (induction pii v removed found rule: redact_loop.induct)
  case (2 field fs v removed found)
  consider "field \<in> set found" | "field \<notin> set found" "resolve_mut v field = None"
    | ks where "field \<notin> set found" "resolve_mut v field = Some ks" by auto
  then show ?case
  proof cases
    case 1
    then have "hidden_field v field" using 2(5) by (auto simp: list_all_iff)
    then show ?thesis using 2(1,4,5) 1 by auto
  next
    case 2
    then have "hidden_field v field" by (auto simp: resolve_mut_def hidden_field_def hidden_slot_def split: if_splits)
    then show ?thesis using 2 "2.IH"(2) "2.prems" by auto
  next
    case 3
    let ?v = "set_slot v ks (JString REDACTED_FIELD_VALUE)"
    have "list_all (hidden_field ?v) (found @ [field])"
      using "2.prems"(2) resolve_hidden [OF 3(2)] by (auto simp: list_all_iff)
    then have "(\<forall>f. hidden_field ?v f \<longrightarrow> hidden_field v' f) \<and> list_all (hidden_field v') fs"
      using "2.IH"(3) [OF 3] "2.prems"(1) 3 by simp
    then show ?thesis using resolve_hidden [OF 3(2)] by auto
  qed
qed simp

lemma redact_hides:
  "redact_fields payload pii = Inr (redacted, removed, found) \<Longrightarrow> list_all (hidden_field redacted) pii"
  using redact_loop_hides [of pii payload "[]" "[]"] by (auto simp: redact_fields_def split: if_splits prod.splits)

subsection \<open>Sealed jobs\<close>

lemma seal_job_Inr:
  assumes "seal_job S en j = (Inr u, j', en')" "cj_encryption_config j \<noteq> None" "\<not> cj_is_encrypted j"
  obtains v stored found ep where "seal_encrypt S en j v found = (Inr ep, en')" "j' = sealed_job stored ep j"
    "cj_pii_fields j = [] \<Longrightarrow> v = cj_payload j \<and> stored = encrypted_payload_placeholder \<and> found = []"
    "cj_pii_fields j \<noteq> [] \<Longrightarrow> redact_fields (cj_payload j) (cj_pii_fields j) = Inr (stored, v, found)"
proof -
  obtain c where c: "cj_encryption_config j = Some c" using assms(2) by auto
  have ok: "ec_algorithm c = ec_algorithm (en_config en)" "\<not> is_some_and (ec_key_id c) (\<lambda>key_id. key_id \<noteq> engine_key_id en)"
    using assms(1,3) c by (simp_all add: seal_job_def split: if_splits)
  note seal = assms(1) [unfolded seal_job_def c option.case, simplified assms(3) ok if_False simp_thms]
  show ?thesis
  proof (cases "cj_pii_fields j = []")
    case True
    then obtain ep where "seal_encrypt S en j (cj_payload j) [] = (Inr ep, en')" "j' = sealed_job encrypted_payload_placeholder ep j"
      using seal by (cases "seal_encrypt S en j (cj_payload j) []") (auto split: sum.splits)
    then show ?thesis using that True by blast
  next
    case False
    then obtain redacted removed found where red: "redact_fields (cj_payload j) (cj_pii_fields j) = Inr (redacted, removed, found)"
      using seal by (cases "redact_fields (cj_payload j) (cj_pii_fields j)") auto
    then obtain ep where "seal_encrypt S en j removed found = (Inr ep, en')" "j' = sealed_job redacted ep j"
      using seal False by (cases "seal_encrypt S en j removed found") (auto split: sum.splits)
    then show ?thesis using that False red by blast
  qed
qed

text \<open>What the ciphertext of a job holds.\<close>

definition sealed_value :: "crypt_job \<Rightarrow> json_value" where
  "sealed_value j =
     (if cj_pii_fields j = [] then cj_payload j
      else (case redact_fields (cj_payload j) (cj_pii_fields j) of Inr (redacted, removed, found) \<Rightarrow> removed | Inl e \<Rightarrow> JNull))"

lemma sealed_metadata:
  assumes "seal_encrypt S en j v found = (Inr ep, en')"
  shows "em_key_id (ep_metadata ep) = engine_key_id en \<and> em_algorithm (ep_metadata ep) = ec_algorithm (en_config en)
    \<and> em_encrypted_fields (ep_metadata ep) = found"
  using encrypt_value_Inr [OF encrypt_associated_Inr [OF assms [unfolded seal_encrypt_def]]] by metis

text \<open>Whoever decrypts the ciphertext gets the job back.\<close>

lemma open_sealed:
  assumes seal: "seal_encrypt S en j v found = (Inr ep, en')" "j' = sealed_job stored ep j"
    "cj_pii_fields j = [] \<Longrightarrow> v = cj_payload j \<and> stored = encrypted_payload_placeholder \<and> found = []"
    "cj_pii_fields j \<noteq> [] \<Longrightarrow> redact_fields (cj_payload j) (cj_pii_fields j) = Inr (stored, v, found)"
    and j: "\<not> cj_is_encrypted j" "cj_encrypted_payload j = None"
    and dec: "\<And>m' ms. em_algorithm m' = em_algorithm (ep_metadata ep) \<Longrightarrow> em_compressed m' = em_compressed (ep_metadata ep) \<Longrightarrow>
      em_payload_hash m' = em_payload_hash (ep_metadata ep) \<Longrightarrow> em_key_id m' = em_key_id (ep_metadata ep) \<Longrightarrow>
      fst (decrypt_payload_with_associated_data (se_crypto S') (se_json S') ms s (ep\<lparr>ep_metadata := m'\<rparr>)
        (job_associated_data (cj_id j) (cj_queue_name j) (engine_key_id en) (ec_algorithm (en_config en)) (cj_pii_fields j) found) B) = Inr v"
  shows "fst (open_job S' s B j') = Inr j"
proof -
  let ?m = "(ep_metadata ep)\<lparr>em_format_version := FORMAT_JOB_BOUND\<rparr>"
  have "fst (open_decrypt S' s B j' (ep\<lparr>ep_metadata := ?m\<rparr>)) = Inr v"
    using dec [of ?m "cl_ms (se_reading S')"] sealed_metadata [OF seal(1)] seal(2)
    by (simp add: open_decrypt_def Let_def FORMAT_UNBOUND_def FORMAT_JOB_BOUND_def sealed_job_def)
  then obtain B' where d: "open_decrypt S' s B j' (ep\<lparr>ep_metadata := ?m\<rparr>) = (Inr v, B')"
    by (metis prod.collapse)
  have "(if cj_pii_fields j = [] then Inr v else restore_fields stored v) = Inr (cj_payload j)"
    using seal(3) redact_restore [OF seal(4)] by simp
  then show ?thesis using d j seal(2) by (auto simp: open_job_def sealed_job_def split: if_splits)
qed

text \<open>An engine that holds the key under the same id, as its own or for decryption, opens the job.\<close>

lemma held_key_opens:
  assumes "crypto_laws (se_crypto S)" "aead_ideal (se_crypto S)" "json_round_trips (se_json S) (sealed_value j)"
    "length (cl_nonce (se_reading S)) = NONCE_SIZE" "cj_encryption_config j \<noteq> None" "\<not> cj_is_encrypted j" "cj_encrypted_payload j = None"
    "seal_job S en j = (Inr (), j', en')" "se_crypto S' = se_crypto S" "se_json S' = se_json S"
    and key: "active_key en = Inr k" "\<not> en_keys_poisoned B" "en_keys B (engine_key_id en) = Some kv" "k \<in> set (kv_candidates kv)"
  shows "fst (open_job S' s B j') = Inr j"
proof -
  obtain v stored found ep where seal: "seal_encrypt S en j v found = (Inr ep, en')" "j' = sealed_job stored ep j"
    "cj_pii_fields j = [] \<Longrightarrow> v = cj_payload j \<and> stored = encrypted_payload_placeholder \<and> found = []"
    "cj_pii_fields j \<noteq> [] \<Longrightarrow> redact_fields (cj_payload j) (cj_pii_fields j) = Inr (stored, v, found)"
    using seal_job_Inr [OF assms(8,5,6)] by metis
  have v: "json_round_trips (se_json S) v" using assms(3) seal(3,4) by (auto simp: sealed_value_def split: if_splits)
  have nonce: "length (cl_nonce (se_reading S)) = 12" using assms(4) by (simp add: NONCE_SIZE_def)
  note enc = encrypt_associated_Inr [OF seal(1) [unfolded seal_encrypt_def]]
  show ?thesis
  proof (rule open_sealed [OF seal assms(6,7)])
    fix m' :: encryption_metadata and ms :: rat
    assume m': "em_algorithm m' = em_algorithm (ep_metadata ep)" "em_compressed m' = em_compressed (ep_metadata ep)"
      "em_payload_hash m' = em_payload_hash (ep_metadata ep)" "em_key_id m' = em_key_id (ep_metadata ep)"
    let ?aad = "job_associated_data (cj_id j) (cj_queue_name j) (engine_key_id en) (ec_algorithm (en_config en)) (cj_pii_fields j) found"
    have "fst (decrypt_value (se_crypto S) (se_json S) ms (ep\<lparr>ep_metadata := m'\<rparr>) ?aad B) = Inr v"
      using decrypt_value_spec [OF assms(1,2) v nonce enc key(1,2) refl m'(1-3), of ms ?aad] key(3,4) m'(4) sealed_metadata [OF seal(1)]
      by auto
    then show "fst (decrypt_payload_with_associated_data (se_crypto S') (se_json S') ms s (ep\<lparr>ep_metadata := m'\<rparr>) ?aad B) = Inr v"
      using assms(9,10) by (auto simp: decrypt_payload_with_associated_data_def split: prod.splits sum.splits)
  qed
qed


text \<open>
  C17: A ciphertext is bound to its job. Whoever can write to the database and puts the ciphertext
  of a sealed job, with its nonce and tag and whatever metadata, into any row, an engine opens that
  row only if it has the identifier, queue and PII fields of the sealed job and the metadata still
  names its key, algorithm, encrypted fields and format; in particular not after a move to another
  job or queue, and not as a payload of the older format without associated data.
\<close>
theorem ciphertext_bound_to_job:
  assumes "crypto_laws (se_crypto S)" and "aead_ideal (se_crypto S)" and "length (cl_nonce (se_reading S)) = NONCE_SIZE"
    and "cj_encryption_config j \<noteq> None" and "\<not> cj_is_encrypted j" and "seal_job S A j = (Inr (), j', A')"
    and "cj_encrypted_payload j' = Some ep" and "cj_is_encrypted x" and "cj_encrypted_payload x = Some (ep\<lparr>ep_metadata := m\<rparr>)"
    and "context_ok (cj_id j) (cj_queue_name j) (em_key_id (ep_metadata ep)) (cj_pii_fields j) (em_encrypted_fields (ep_metadata ep))"
    and "context_ok (cj_id x) (cj_queue_name x) (em_key_id m) (cj_pii_fields x) (em_encrypted_fields m)"
    and "se_crypto S' = se_crypto S" and "se_json S' = se_json S" and "fst (open_job S' s B x) = Inr z"
  shows "cj_id x = cj_id j \<and> cj_queue_name x = cj_queue_name j \<and> cj_pii_fields x = cj_pii_fields j
    \<and> em_key_id m = em_key_id (ep_metadata ep) \<and> em_algorithm m = em_algorithm (ep_metadata ep)
    \<and> em_encrypted_fields m = em_encrypted_fields (ep_metadata ep) \<and> em_format_version m = FORMAT_JOB_BOUND"
proof -
  obtain v stored found ep0 where seal: "seal_encrypt S A j v found = (Inr ep0, A')" "j' = sealed_job stored ep0 j"
    using seal_job_Inr [OF assms(6,4,5)] by metis
  have ep: "ep = ep0\<lparr>ep_metadata := (ep_metadata ep0)\<lparr>em_format_version := FORMAT_JOB_BOUND\<rparr>\<rparr>"
    using assms(7) seal(2) by (simp add: sealed_job_def)
  note meta = sealed_metadata [OF seal(1)]
  have nonce: "length (cl_nonce (se_reading S)) = 12" using assms(3) by (simp add: NONCE_SIZE_def)
  note enc = encrypt_associated_Inr [OF seal(1) [unfolded seal_encrypt_def]]
  obtain w where w: "fst (open_decrypt S' s B x (ep0\<lparr>ep_metadata := m\<rparr>)) = Inr w"
    using assms(8,9,14) ep by (auto simp: open_job_def split: prod.splits sum.splits)
  let ?aad = "job_associated_data (cj_id j) (cj_queue_name j) (engine_key_id A) (ec_algorithm (en_config A)) (cj_pii_fields j) found"
  have only: "aad' = ?aad"
    if "fst (decrypt_payload_with_associated_data (se_crypto S) (se_json S) ms s (ep0\<lparr>ep_metadata := m\<rparr>) aad' B) = Inr w" for ms aad'
    using decrypt_authentic [OF assms(1,2) nonce enc that] by blast
  have "em_format_version m \<noteq> FORMAT_UNBOUND"
  proof
    assume "em_format_version m = FORMAT_UNBOUND"
    then have "[] = ?aad" using w assms(12,13) by (intro only [of "cl_ms (se_reading S')"]) (simp add: open_decrypt_def decrypt_payload_def)
    then show False using job_associated_data_nonempty by metis
  qed
  then have fmt: "em_format_version m = FORMAT_JOB_BOUND" using w by (simp add: open_decrypt_def Let_def split: if_splits)
  have "job_associated_data (cj_id x) (cj_queue_name x) (em_key_id m) (em_algorithm m) (cj_pii_fields x) (em_encrypted_fields m) = ?aad"
    by (rule only [of "cl_ms (se_reading S')"])
      (use w fmt assms(12,13) in \<open>simp add: open_decrypt_def FORMAT_UNBOUND_def FORMAT_JOB_BOUND_def\<close>)
  then have "cj_id x = cj_id j \<and> cj_queue_name x = cj_queue_name j \<and> em_key_id m = engine_key_id A
      \<and> em_algorithm m = ec_algorithm (en_config A) \<and> cj_pii_fields x = cj_pii_fields j \<and> em_encrypted_fields m = found"
    using job_associated_data_inj assms(10,11) meta ep by simp
  then show ?thesis using fmt meta ep by simp
qed

subsection \<open>What a queue stores\<close>

text \<open>Of a job that a queue seals: encrypted, with nothing readable of what should be secret.\<close>

definition sealed_well :: "payload_encryption \<Rightarrow> crypt_job \<Rightarrow> crypt_job \<Rightarrow> bool" where
  "sealed_well pe j j' \<longleftrightarrow>
     (if cj_is_encrypted j then j' = j
      else if cj_encryption_config j = None \<and> (pe_engine pe = None \<or> \<not> encrypts_queue pe (cj_queue_name j)) then j' = j
      else cj_is_encrypted j' \<and> has_ciphertext j' \<and> cj_id j' = cj_id j \<and> cj_queue_name j' = cj_queue_name j
        \<and> (if cj_pii_fields j = [] then cj_payload j' = encrypted_payload_placeholder
           else list_all (hidden_field (cj_payload j')) (cj_pii_fields j)))"

lemma add_queue_config_fields [simp]:
  "cj_is_encrypted (add_queue_config pe j) = cj_is_encrypted j" "cj_pii_fields (add_queue_config pe j) = cj_pii_fields j"
  "cj_id (add_queue_config pe j) = cj_id j" "cj_queue_name (add_queue_config pe j) = cj_queue_name j"
  by (simp_all add: add_queue_config_def split: option.split)

lemma asks_encryption_added:
  "asks_encryption (add_queue_config pe j) \<longleftrightarrow>
     \<not> (cj_encryption_config j = None \<and> (pe_engine pe = None \<or> \<not> encrypts_queue pe (cj_queue_name j)))"
  "\<not> asks_encryption (add_queue_config pe j) \<Longrightarrow> add_queue_config pe j = j"
  by (auto simp: asks_encryption_def add_queue_config_def split: option.splits if_splits)

lemma sealed_well_one:
  assumes "\<not> cj_is_encrypted j" "asks_encryption (add_queue_config pe j)" "seal_job S en (add_queue_config pe j) = (Inr u, j', en')"
  shows "sealed_well pe j j'"
proof -
  have c: "cj_encryption_config (add_queue_config pe j) \<noteq> None" "\<not> cj_is_encrypted (add_queue_config pe j)"
    using assms(1,2) by (simp_all add: asks_encryption_def)
  obtain v stored found ep where seal: "j' = sealed_job stored ep (add_queue_config pe j)"
    "cj_pii_fields j = [] \<Longrightarrow> stored = encrypted_payload_placeholder"
    "cj_pii_fields j \<noteq> [] \<Longrightarrow> redact_fields (cj_payload (add_queue_config pe j)) (cj_pii_fields j) = Inr (stored, v, found)"
    using seal_job_Inr [OF assms(3) c] by (metis add_queue_config_fields(2))
  then show ?thesis
    using assms(1,2) asks_encryption_added(1) [of pe j] redact_hides
    by (auto simp: sealed_well_def sealed_job_def has_ciphertext_def)
qed

text \<open>The engine counts what it encrypts; what it holds stays the same.\<close>

definition same_keys :: "engine \<Rightarrow> engine \<Rightarrow> bool" where
  "same_keys en en' \<longleftrightarrow> en_config en' = en_config en \<and> en_keys en' = en_keys en \<and> en_keys_poisoned en' = en_keys_poisoned en"

lemma seal_job_keys:
  assumes "seal_job S en j = (r, j', en')"
  shows "same_keys en en'"
proof -
  have "same_keys en (snd (seal_encrypt S en j v found))" for v found
    by (auto simp: same_keys_def seal_encrypt_def encrypt_payload_with_associated_data_def split: sum.split prod.split)
      (metis encrypt_value_keys snd_conv)+
  then show ?thesis
    using assms unfolding seal_job_def
    by (auto simp: same_keys_def split: option.splits if_splits sum.splits prod.splits) (metis snd_conv)+
qed

text \<open>How \<open>seal\<close> treats one job of the list.\<close>

definition sealed_by :: "(nat \<Rightarrow> seal_env) \<Rightarrow> payload_encryption \<Rightarrow> crypt_job \<Rightarrow> crypt_job \<Rightarrow> bool" where
  "sealed_by S pe j j' \<longleftrightarrow>
     (if cj_is_encrypted j \<or> \<not> asks_encryption (add_queue_config pe j) then j' = j
      else \<exists>n en0 en en'. pe_engine pe = Some en0 \<and> same_keys en0 en \<and> seal_job (S n) en (add_queue_config pe j) = (Inr (), j', en'))"

lemma sealed_by_later:
  assumes "sealed_by (\<lambda>n. S (Suc n)) (pe\<lparr>pe_engine := Some en1\<rparr>) j j'" "pe_engine pe = Some en" "same_keys en en1"
  shows "sealed_by S pe j j'"
proof -
  have add: "add_queue_config (pe\<lparr>pe_engine := Some en1\<rparr>) j = add_queue_config pe j"
    using assms(2,3)
    by (simp add: add_queue_config_def encrypts_queue_def engine_job_config_def engine_key_id_def same_keys_def split: option.split)
  have "same_keys en en2" if "same_keys en1 en2" for en2 using that assms(3) by (simp add: same_keys_def)
  then show ?thesis using assms(1,2) unfolding sealed_by_def add by (auto split: if_splits)
qed

lemma seal_each: "seal S pe jobs = (Inr u, jobs', pe') \<Longrightarrow> list_all2 (sealed_by S pe) jobs jobs'"
proof (induction jobs arbitrary: S pe jobs' u)
  case (Cons j jobs)
  have rest: "\<exists>js. jobs' = j1 # js \<and> list_all2 (sealed_by (\<lambda>n. S (Suc n)) pe1) jobs js"
    if "(let (r, js, pe') = seal (\<lambda>n. S (Suc n)) pe1 jobs in (r, j1 # js, pe')) = (Inr u, jobs', pe')" for j1 pe1
    using that Cons.IH [of "\<lambda>n. S (Suc n)" pe1] by (auto split: prod.splits)
  have shift: "list_all2 (sealed_by S pe) jobs js" if "list_all2 (sealed_by (\<lambda>n. S (Suc n)) pe) jobs js" for js
    using that by (rule list_all2_mono) (auto simp: sealed_by_def split: if_splits)
  show ?case
  proof (cases "cj_is_encrypted j \<or> \<not> asks_encryption (add_queue_config pe j)")
    case True
    then have "sealed_by S pe j j" by (simp add: sealed_by_def)
    then show ?thesis
      using True rest [of pe j] shift Cons.prems asks_encryption_added(2) [of pe j] by (auto simp: Let_def split: if_splits)
  next
    case False
    then obtain en where en: "pe_engine pe = Some en" using Cons.prems by (auto simp: Let_def split: option.splits)
    obtain r j1 en1 where sj: "seal_job (S 0) en (add_queue_config pe j) = (r, j1, en1)" by (metis prod_cases3)
    have r: "r = Inr ()" using Cons.prems False en sj by (auto simp: Let_def split: sum.splits)
    obtain js where js: "jobs' = j1 # js" "list_all2 (sealed_by (\<lambda>n. S (Suc n)) (pe\<lparr>pe_engine := Some en1\<rparr>)) jobs js"
      using rest [of "pe\<lparr>pe_engine := Some en1\<rparr>" j1] Cons.prems False en sj r by (auto simp: Let_def)
    have "list_all2 (sealed_by S pe) jobs js"
      using js(2) by (rule list_all2_mono) (rule sealed_by_later [OF _ en seal_job_keys [OF sj]])
    moreover have "sealed_by S pe j j1" using False en sj r by (auto simp: sealed_by_def same_keys_def)
    ultimately show ?thesis using js(1) by simp
  qed
qed simp

lemma seal_sealed_well: "seal S pe jobs = (Inr u, jobs', pe') \<Longrightarrow> list_all2 (sealed_well pe) jobs jobs'"
proof -
  assume "seal S pe jobs = (Inr u, jobs', pe')"
  then have "list_all2 (sealed_by S pe) jobs jobs'" by (rule seal_each)
  then show ?thesis
  proof (rule list_all2_mono)
    fix j j'
    assume sb: "sealed_by S pe j j'"
    show "sealed_well pe j j'"
    proof (cases "cj_is_encrypted j \<or> \<not> asks_encryption (add_queue_config pe j)")
      case True
      then show ?thesis using sb asks_encryption_added(1) [of pe j] by (auto simp: sealed_by_def sealed_well_def)
    next
      case False
      then show ?thesis using sb sealed_well_one by (auto simp: sealed_by_def)
    qed
  qed
qed

text \<open>What a queue stored is opened by every queue whose engine holds the key under its id.\<close>

lemma sealed_jobs_open:
  assumes "crypto_laws C" "aead_ideal C" "\<forall>n. se_crypto (S n) = C \<and> se_json (S n) = J \<and> length (cl_nonce (se_reading (S n))) = NONCE_SIZE"
    "se_crypto S' = C" "se_json S' = J" "pe_engine pe = Some en" "active_key en = Inr k"
    "pe_engine q = Some B" "\<not> en_keys_poisoned B" "en_keys B (engine_key_id en) = Some kv" "k \<in> set (kv_candidates kv)"
    "seal S pe jobs = (Inr u, jobs', pe')"
  shows "list_all2 (\<lambda>j j'. \<not> cj_is_encrypted j \<longrightarrow> cj_encrypted_payload j = None \<longrightarrow> json_round_trips J (sealed_value j) \<longrightarrow>
    fst (open_stored S' s q j') = Inr (add_queue_config pe j)) jobs jobs'"
  using seal_each [OF assms(12)]
proof (rule list_all2_mono, intro impI)
  fix j j'
  assume sb: "sealed_by S pe j j'" and j: "\<not> cj_is_encrypted j" "cj_encrypted_payload j = None" "json_round_trips J (sealed_value j)"
  show "fst (open_stored S' s q j') = Inr (add_queue_config pe j)"
  proof (cases "asks_encryption (add_queue_config pe j)")
    case False
    then show ?thesis using sb j asks_encryption_added(2) [of pe j] by (simp add: sealed_by_def open_stored_def)
  next
    case True
    let ?j = "add_queue_config pe j"
    obtain n en1 en2 where one: "same_keys en en1" "seal_job (S n) en1 ?j = (Inr (), j', en2)"
      using sb True j(1) assms(6) by (auto simp: sealed_by_def)
    have jj: "cj_encryption_config ?j \<noteq> None" "\<not> cj_is_encrypted ?j" "cj_encrypted_payload ?j = None" "sealed_value ?j = sealed_value j"
      using True j by (auto simp: asks_encryption_def add_queue_config_def sealed_value_def split: option.splits)
    have id1: "engine_key_id en1 = engine_key_id en" using one(1) by (simp add: same_keys_def engine_key_id_def)
    have en1: "active_key en1 = active_key en" unfolding active_key_def id1 using one(1) by (simp add: same_keys_def)
    have "fst (open_job S' s B j') = Inr ?j"
      by (rule held_key_opens [OF _ _ _ _ jj(1-3) one(2)]) (use assms j(3) jj(4) id1 en1 in auto)
    moreover have "cj_is_encrypted j' \<and> has_ciphertext j'"
      using sealed_well_one [OF j(1) True one(2)] True j(1) asks_encryption_added(1) [of pe j] by (auto simp: sealed_well_def split: if_splits)
    ultimately show ?thesis using assms(8) by (auto simp: open_stored_def split: prod.splits sum.splits)
  qed
qed

text \<open>
  Nothing secret is stored in the clear. When sealing a list of jobs succeeds, every job that
  asked for encryption, or whose queue is one the engine encrypts, is stored encrypted with its
  ciphertext: its payload is the placeholder, or none of its listed fields can be read in it. Every
  other job is stored as it came. (When sealing fails for one job nothing is stored.)
\<close>
theorem seal_leaves_nothing_readable:
  assumes "seal S pe jobs = (Inr u, jobs', pe')"
  shows "list_all2 (sealed_well pe) jobs jobs'"
  using assms by (rule seal_sealed_well)

text \<open>
  A field of an object inside an array is reported with its index, a path that leads nowhere when
  fields are redacted: a job with the reported fields is stored with that value in the clear.
\<close>

lemma array_fields_not_redacted:
  "identify_pii_fields (JObject [(''items'', JArray [JObject [(''ssn'', JString ''1'')]])]) = [''items[0].ssn'']
   \<and> redact_fields (JObject [(''items'', JArray [JObject [(''ssn'', JString ''1'')]])]) [''items[0].ssn''] =
       Inr (JObject [(''items'', JArray [JObject [(''ssn'', JString ''1'')]])], JArray [], [])"
  by code_simp

subsection \<open>A sealed sample\<close>

definition sample_secret :: crypt_job where
  "sample_secret =
     \<lparr>cj_id = 9, cj_queue_name = ''mail'', cj_payload = JObject [(''name'', JString ''Ada''), (''ssn'', JString ''1'')], cj_status = Pending,
      cj_encryption_config = Some (encryption_config_new AES256GCM), cj_pii_fields = [''ssn''], cj_retention_policy = None,
      cj_is_encrypted = False, cj_encrypted_payload = None\<rparr>"

definition sample_seal_env :: seal_env where
  "sample_seal_env =
     \<lparr>se_externs = sample_externs, se_crypto = sample_crypto,
      se_json = \<lparr>json_text = (\<lambda>v. ''x''), json_parse = (\<lambda>t. Inr (JArray [JArray [JString ''ssn'', JString ''1'']])), time_text = (\<lambda>t. [])\<rparr>,
      se_reading = sample_reading\<rparr>"

lemma sample_redacted:
  "redact_fields (cj_payload sample_secret) [''ssn''] =
     Inr (JObject [(''name'', JString ''Ada''), (''ssn'', JString REDACTED_FIELD_VALUE)], JArray [JArray [JString ''ssn'', JString ''1'']], [''ssn''])"
  by (simp add: sample_secret_def redact_fields_def resolve_mut_def)

lemma sample_sealed: "\<exists>j' A. seal_job sample_seal_env (sample_engine sample_v2) sample_secret = (Inr (), j', A)"
proof -
  obtain ep A where "seal_encrypt sample_seal_env (sample_engine sample_v2) sample_secret
      (JArray [JArray [JString ''ssn'', JString ''1'']]) [''ssn''] = (Inr ep, A)"
    by (simp add: seal_encrypt_def sample_seal_env_def sample_encrypt_simps)
  moreover have "cj_encryption_config sample_secret = Some (encryption_config_new AES256GCM)" "\<not> cj_is_encrypted sample_secret"
    "cj_pii_fields sample_secret = [''ssn'']" by (simp_all add: sample_secret_def)
  moreover have "en_config (sample_engine sample_v2) = encryption_config_new AES256GCM" by (simp add: sample_engine_def)
  moreover have "ec_key_id (encryption_config_new AES256GCM) = None" by (simp add: encryption_config_new_def)
  ultimately show ?thesis using sample_redacted by (simp add: seal_job_def)
qed


lemma sample_context:
  assumes "seal_job sample_seal_env (sample_engine sample_v2) sample_secret = (Inr (), j', A)" "cj_encrypted_payload j' = Some ep"
  shows "context_ok (cj_id sample_secret) (cj_queue_name sample_secret) (em_key_id (ep_metadata ep)) (cj_pii_fields sample_secret)
    (em_encrypted_fields (ep_metadata ep))"
proof -
  have job: "cj_encryption_config sample_secret \<noteq> None" "\<not> cj_is_encrypted sample_secret" "cj_pii_fields sample_secret = [''ssn'']"
    by (simp_all add: sample_secret_def)
  obtain v stored found ep0 where seal: "seal_encrypt sample_seal_env (sample_engine sample_v2) sample_secret v found = (Inr ep0, A)"
    "j' = sealed_job stored ep0 sample_secret" "redact_fields (cj_payload sample_secret) [''ssn''] = Inr (stored, v, found)"
    using seal_job_Inr [OF assms(1) job(1,2)] job(3) by (metis list.distinct(1))
  then show ?thesis
    using sealed_metadata [OF seal(1)] sample_redacted assms(2)
    by (auto simp: sealed_job_def context_ok_def fits_def sample_secret_def sample_engine_def engine_key_id_def config_key_id_def
        encryption_config_new_def)
qed

lemma ciphertext_bound_to_job_witness:
  "\<exists>j' A. seal_job sample_seal_env (sample_engine sample_v2) sample_secret = (Inr (), j', A)
     \<and> (\<exists>e. fst (open_job sample_seal_env (sy_store sample_system) (sample_engine sample_v2) (j'\<lparr>cj_queue_name := ''other''\<rparr>)) = Inl e)"
proof -
  obtain j' A where seal: "seal_job sample_seal_env (sample_engine sample_v2) sample_secret = (Inr (), j', A)"
    using sample_sealed by blast
  have job: "cj_encryption_config sample_secret \<noteq> None" "\<not> cj_is_encrypted sample_secret" by (simp_all add: sample_secret_def)
  obtain stored ep0 where "j' = sealed_job stored ep0 sample_secret" using seal_job_Inr [OF seal job] by metis
  then obtain ep where ep: "cj_encrypted_payload j' = Some ep" "cj_is_encrypted j'" "cj_id j' = cj_id sample_secret"
    "cj_pii_fields j' = cj_pii_fields sample_secret" by (simp add: sealed_job_def)
  let ?x = "j'\<lparr>cj_queue_name := ''other''\<rparr>"
  have laws: "crypto_laws (se_crypto sample_seal_env)" "aead_ideal (se_crypto sample_seal_env)"
    "length (cl_nonce (se_reading sample_seal_env)) = NONCE_SIZE"
    using sample_crypto_laws by (simp_all add: sample_seal_env_def sample_reading_def NONCE_SIZE_def)
  note ctx = sample_context [OF seal ep(1)]
  have x: "cj_is_encrypted ?x" "cj_encrypted_payload ?x = Some (ep\<lparr>ep_metadata := ep_metadata ep\<rparr>)"
    "context_ok (cj_id ?x) (cj_queue_name ?x) (em_key_id (ep_metadata ep)) (cj_pii_fields ?x) (em_encrypted_fields (ep_metadata ep))"
    using ep ctx by (simp_all add: context_ok_def fits_def)
  have "\<exists>e. fst (open_job sample_seal_env (sy_store sample_system) (sample_engine sample_v2) ?x) = Inl e"
  proof (cases "fst (open_job sample_seal_env (sy_store sample_system) (sample_engine sample_v2) ?x)")
    case (Inr z)
    have "cj_queue_name ?x = cj_queue_name sample_secret"
      using ciphertext_bound_to_job [OF laws job seal ep(1) x(1,2) ctx x(3) refl refl Inr] by blast
    then show ?thesis by (simp add: sample_secret_def)
  qed simp
  then show ?thesis using seal by blast
qed

lemma seal_leaves_nothing_readable_witness:
  "\<exists>jobs' pe'. seal (\<lambda>n. sample_seal_env) \<lparr>pe_engine = Some (sample_engine sample_v2), pe_encrypted_queues = [], pe_plaintext_guard = False\<rparr>
       [sample_secret] = (Inr (), jobs', pe')
     \<and> list_all2 (sealed_well \<lparr>pe_engine = Some (sample_engine sample_v2), pe_encrypted_queues = [], pe_plaintext_guard = False\<rparr>) [sample_secret] jobs'"
proof -
  let ?pe = "\<lparr>pe_engine = Some (sample_engine sample_v2), pe_encrypted_queues = [], pe_plaintext_guard = False\<rparr>"
  have "add_queue_config ?pe sample_secret = sample_secret" "asks_encryption sample_secret" "\<not> cj_is_encrypted sample_secret"
    by (simp_all add: add_queue_config_def sample_secret_def asks_encryption_def)
  then obtain jobs' pe' where "seal (\<lambda>n. sample_seal_env) ?pe [sample_secret] = (Inr (), jobs', pe')"
    using sample_sealed by auto
  then show ?thesis using seal_leaves_nothing_readable [of "\<lambda>n. sample_seal_env" ?pe "[sample_secret]"] by blast
qed

end
