(* ===== verification/Config.thy ===== *)
theory Config
  imports KeyLoad JobSeal Autoscale Alerting Webhooks Streaming
begin

text \<open>
  Configuration: the sections of \<open>src/src/config.rs\<close>, their validation and environment variables,
  and what \<open>JobQueue\<close> (\<open>src/src/queue/mod.rs\<close>) builds from them. The TOML reader is a parameter
  that gives the sections of a file; environment variables are a map. The build has the webhook,
  streaming, alerting and encryption features and not the metrics feature; a section of a feature
  that was left out is passed on by its name.
\<close>

subsection \<open>Sections\<close>

record database_config =
  dc_url :: string
  dc_pool_size :: nat
  dc_connection_timeout_secs :: nat
  dc_auto_migrate :: bool

definition database_config_default :: database_config where
  "database_config_default =
     \<lparr>dc_url = ''postgresql://localhost/hammerwork'', dc_pool_size = 10, dc_connection_timeout_secs = 30, dc_auto_migrate = False\<rparr>"

definition connection_timeout :: "database_config \<Rightarrow> duration" where
  "connection_timeout c = dc_connection_timeout_secs c * 10 ^ 9"

record worker_config =
  wo_pool_size :: nat
  wo_polling_interval :: duration
  wo_job_timeout :: duration
  wo_priority_weights :: priority_weights
  wo_retry_strategy :: retry_strategy
  wo_autoscaling_enabled :: bool
  wo_min_workers :: nat
  wo_max_workers :: nat
  wo_result_cleanup_enabled :: bool
  wo_result_cleanup_interval :: duration
  wo_batch_size :: "nat option"
  wo_batch_concurrency :: "nat option"

definition DEFAULT_RESULT_CLEANUP_INTERVAL :: duration where
  "DEFAULT_RESULT_CLEANUP_INTERVAL = 300 * 10 ^ 9"

definition worker_config_default :: worker_config where
  "worker_config_default =
     \<lparr>wo_pool_size = 4, wo_polling_interval = 500 * 10 ^ 6, wo_job_timeout = 300 * 10 ^ 9,
      wo_priority_weights = weights_new, wo_retry_strategy = Exponential (10 ^ 9) (Fin 2) (Some (300 * 10 ^ 9)) None,
      wo_autoscaling_enabled = False, wo_min_workers = 1, wo_max_workers = 16, wo_result_cleanup_enabled = True,
      wo_result_cleanup_interval = DEFAULT_RESULT_CLEANUP_INTERVAL, wo_batch_size = None, wo_batch_concurrency = None\<rparr>"

definition worker_config_validate :: "worker_config \<Rightarrow> unit res" where
  "worker_config_validate c =
     (if wo_polling_interval c = 0 then Inl (ConfigError ''worker.polling_interval must be greater than zero'')
      else if wo_job_timeout c = 0 then Inl (ConfigError ''worker.job_timeout must be greater than zero'')
      else if wo_result_cleanup_enabled c \<and> wo_result_cleanup_interval c = 0 then
        Inl (ConfigError ''worker.result_cleanup_interval must be greater than zero'')
      else if is_some_and (wo_batch_size c) (\<lambda>n. \<not> (1 \<le> n \<and> n \<le> MAX_DEQUEUE_BATCH_SIZE)) then
        Inl (ConfigError (''worker.batch_size must be between 1 and '' @ show_nat MAX_DEQUEUE_BATCH_SIZE @ '' (got ''
          @ show_nat (the (wo_batch_size c)) @ '')''))
      else if wo_batch_concurrency c = Some 0 then Inl (ConfigError ''worker.batch_concurrency must be greater than zero'')
      else Inr ())"

definition autoscale_config_of :: "worker_config \<Rightarrow> autoscale_config" where
  "autoscale_config_of c =
     (if \<not> wo_autoscaling_enabled c then autoscale_disabled
      else with_max_workers (wo_max_workers c) (with_min_workers (wo_min_workers c) autoscale_default))"

record archive_config =
  ar_enabled :: bool
  ar_compression_level :: nat
  ar_archive_after :: int
  ar_delete_after :: "int option"
  ar_check_interval :: duration

definition DEFAULT_ARCHIVE_CHECK_INTERVAL :: duration where
  "DEFAULT_ARCHIVE_CHECK_INTERVAL = 3600 * 10 ^ 9"

definition archive_config_default :: archive_config where
  "archive_config_default =
     \<lparr>ar_enabled = False, ar_compression_level = 6, ar_archive_after = days 30, ar_delete_after = Some (days 365),
      ar_check_interval = DEFAULT_ARCHIVE_CHECK_INTERVAL\<rparr>"

definition archive_config_validate :: "archive_config \<Rightarrow> unit res" where
  "archive_config_validate c =
     (if ar_enabled c \<and> ar_check_interval c = 0 then Inl (ConfigError ''archive.check_interval must be greater than zero'')
      else Inr ())"

definition archival_policy_of :: "archive_config \<Rightarrow> archival_policy" where
  "archival_policy_of c =
     archival_policy_default
       \<lparr>ap_archive_completed_after := Some (ar_archive_after c), ap_archive_failed_after := Some (ar_archive_after c),
        ap_archive_dead_after := Some (ar_archive_after c), ap_archive_timed_out_after := Some (ar_archive_after c),
        ap_purge_archived_after := ar_delete_after c, ap_compress_payloads := (0 < ar_compression_level c), ap_enabled := ar_enabled c\<rparr>"

record rate_limiting_config =
  rc_enabled :: bool
  rc_default_throttle :: throttle_config
  rc_queue_throttles :: "(string \<times> throttle_config) list"

definition rate_limiting_default :: rate_limiting_config where
  "rate_limiting_default = \<lparr>rc_enabled = False, rc_default_throttle = throttle_new, rc_queue_throttles = []\<rparr>"

definition throttle_for :: "rate_limiting_config \<Rightarrow> string \<Rightarrow> throttle_config option" where
  "throttle_for c queue_name =
     (if \<not> rc_enabled c then None
      else
        (let t = (case map_of (rc_queue_throttles c) queue_name of Some t \<Rightarrow> t | None \<Rightarrow> rc_default_throttle c) in
         if t_enabled t then Some t else None))"

fun validate_throttles :: "(string \<times> throttle_config) list \<Rightarrow> unit res" where
  "validate_throttles [] = Inr ()"
| "validate_throttles ((queue_name, t) # rest) =
     (case throttle_validate t of
        Inl e \<Rightarrow> Inl (ConfigError (''rate_limiting.queue_throttles.'' @ queue_name @ '': '' @ error_display e))
      | Inr _ \<Rightarrow> validate_throttles rest)"

definition rate_limiting_validate :: "rate_limiting_config \<Rightarrow> unit res" where
  "rate_limiting_validate c =
     (case throttle_validate (rc_default_throttle c) of
        Inl e \<Rightarrow> Inl (ConfigError (''rate_limiting.default_throttle: '' @ error_display e))
      | Inr _ \<Rightarrow> validate_throttles (rc_queue_throttles c))"

definition with_queue_throttle :: "string \<Rightarrow> throttle_config \<Rightarrow> rate_limiting_config \<Rightarrow> rate_limiting_config" where
  "with_queue_throttle queue_name t c =
     c\<lparr>rc_queue_throttles := (queue_name, t) # filter (\<lambda>p. fst p \<noteq> queue_name) (rc_queue_throttles c)\<rparr>"

record logging_config =
  lg_level :: string
  lg_json_format :: bool
  lg_include_location :: bool
  lg_enable_tracing :: bool
  lg_tracing_endpoint :: "string option"
  lg_service_name :: string

definition logging_config_default :: logging_config where
  "logging_config_default =
     \<lparr>lg_level = ''info'', lg_json_format = False, lg_include_location = False, lg_enable_tracing = False,
      lg_tracing_endpoint = None, lg_service_name = ''hammerwork''\<rparr>"

subsection \<open>Key references\<close>

datatype key_source_ref = KeySourceRef (ref_str: string)

definition EXTERNAL_SCHEMES :: "string list" where
  "EXTERNAL_SCHEMES = [''aws://'', ''gcp://'', ''vault://'', ''azure://'']"

definition is_ascii_alphanumeric :: "char \<Rightarrow> bool" where
  "is_ascii_alphanumeric c =
     (let n = of_char c :: nat in (48 \<le> n \<and> n \<le> 57) \<or> (65 \<le> n \<and> n \<le> 90) \<or> (97 \<le> n \<and> n \<le> 122))"

definition key_source_ref_parse :: "string \<Rightarrow> key_source_ref res" where
  "key_source_ref_parse source =
     (case strip_prefix ''env://'' source of
        Some var \<Rightarrow>
          if var \<noteq> [] \<and> list_all (\<lambda>c. is_ascii_alphanumeric c \<or> c = CHR ''_'') var then Inr (KeySourceRef source)
          else
            Inl (ConfigError (''Invalid encryption key source: env:// needs an environment variable name ''
              @ ''(letters, digits and underscores)''))
      | None \<Rightarrow>
          (case find (\<lambda>scheme. prefix scheme source) EXTERNAL_SCHEMES of
             Some scheme \<Rightarrow>
               if length source = length scheme then
                 Inl (ConfigError (''Invalid encryption key source: '' @ scheme @ '' needs a key reference''))
               else Inr (KeySourceRef source)
           | None \<Rightarrow>
               Inl (ConfigError (''Invalid encryption key source: expected env://VAR, aws://, gcp://, vault:// or ''
                 @ ''azure://; keys cannot be written in the configuration''))))"

definition key_source_of_ref :: "key_source_ref \<Rightarrow> key_source" where
  "key_source_of_ref r =
     (case strip_prefix ''env://'' (ref_str r) of Some var \<Rightarrow> KsEnvironment var | None \<Rightarrow> KsExternal (ref_str r))"

definition key_source_ref_default :: key_source_ref where
  "key_source_ref_default = KeySourceRef ''env://HAMMERWORK_ENCRYPTION_KEY''"

subsection \<open>The encryption section\<close>

definition algorithm_from_str :: "string \<Rightarrow> encryption_algorithm res" where
  "algorithm_from_str s =
     (if s = ''AES256GCM'' then Inr AES256GCM
      else if s = ''ChaCha20Poly1305'' then Inr ChaCha20Poly1305
      else Inl (ConfigError (''Unknown encryption algorithm '' @ CHR 0x27 # s @ CHR 0x27 # '' (expected AES256GCM or ChaCha20Poly1305)'')))"

interpretation algorithm_text: codec algorithm_str "\<lambda>s. ok_of (algorithm_from_str s)"
proof
  show "ok_of (algorithm_from_str (algorithm_str a)) = Some a" for a by (cases a) (simp_all add: algorithm_from_str_def)
qed

record key_rotation_config =
  kr_enabled :: bool
  kr_master_key_source :: key_source_ref
  kr_check_interval_secs :: nat
  kr_max_key_versions :: nat

definition key_rotation_default :: key_rotation_config where
  "key_rotation_default =
     \<lparr>kr_enabled = False, kr_master_key_source = KeySourceRef ''env://HAMMERWORK_MASTER_KEY'', kr_check_interval_secs = 3600,
      kr_max_key_versions = 10\<rparr>"

record payload_encryption_config =
  px_enabled :: bool
  px_algorithm :: encryption_algorithm
  px_key_source :: key_source_ref
  px_key_id :: "string option"
  px_compression :: bool
  px_default_retention_secs :: "nat option"
  px_purge_interval_secs :: "nat option"
  px_encrypted_queues :: "string list"
  px_decryption_keys :: "(string \<times> key_source_ref) list"
  px_key_rotation :: key_rotation_config

definition payload_encryption_default :: payload_encryption_config where
  "payload_encryption_default =
     \<lparr>px_enabled = False, px_algorithm = AES256GCM, px_key_source = key_source_ref_default, px_key_id = None, px_compression = False,
      px_default_retention_secs = None, px_purge_interval_secs = None, px_encrypted_queues = [], px_decryption_keys = [],
      px_key_rotation = key_rotation_default\<rparr>"

definition payload_encryption_validate :: "payload_encryption_config \<Rightarrow> unit res" where
  "payload_encryption_validate c =
     (if px_purge_interval_secs c = Some 0 then Inl (ConfigError ''encryption.purge_interval_secs must be greater than zero'')
      else if kr_enabled (px_key_rotation c) \<and> kr_check_interval_secs (px_key_rotation c) = 0 then
        Inl (ConfigError ''encryption.key_rotation.check_interval_secs must be greater than zero'')
      else if \<not> px_enabled c then
        (if px_encrypted_queues c \<noteq> [] then
           Inl (ConfigError (''encryption.encrypted_queues is set but encryption.enabled is false; ''
             @ ''jobs on those queues would be stored in plaintext''))
         else Inr ())
      else if px_key_id c = Some [] then Inl (ConfigError ''encryption.key_id must not be empty'')
      else if (case px_key_id c of Some i \<Rightarrow> i | None \<Rightarrow> ''default'') \<in> set (map fst (px_decryption_keys c)) then
        Inl (ConfigError ''encryption.decryption_keys must not contain the encryption key id'')
      else if [] \<in> set (map fst (px_decryption_keys c)) then Inl (ConfigError ''encryption.decryption_keys has an empty key id'')
      else if [] \<in> set (px_encrypted_queues c) then Inl (ConfigError ''encryption.encrypted_queues has an empty queue name'')
      else Inr ())"

definition section_encrypts_queue :: "payload_encryption_config \<Rightarrow> string \<Rightarrow> bool" where
  "section_encrypts_queue c queue_name \<longleftrightarrow> px_enabled c \<and> list_ex (\<lambda>q. q = ''*'' \<or> q = queue_name) (px_encrypted_queues c)"

definition purge_interval :: "payload_encryption_config \<Rightarrow> duration option" where
  "purge_interval c = map_option (\<lambda>n. n * 10 ^ 9) (px_purge_interval_secs c)"

definition section_encryption_config :: "payload_encryption_config \<Rightarrow> encryption_config res" where
  "section_encryption_config c =
     (case payload_encryption_validate c of
        Inl e \<Rightarrow> Inl e
      | Inr _ \<Rightarrow>
          Inr ((encryption_config_new (px_algorithm c))
                 \<lparr>ec_key_source := key_source_of_ref (px_key_source c), ec_compression_enabled := px_compression c,
                  ec_key_id := px_key_id c,
                  ec_default_retention := map_option (\<lambda>n. n * 10 ^ 9) (px_default_retention_secs c)\<rparr>))"

text \<open>\<open>BTreeMap::insert\<close>.\<close>

fun btree_insert :: "string \<Rightarrow> 'v \<Rightarrow> (string \<times> 'v) list \<Rightarrow> (string \<times> 'v) list" where
  "btree_insert k v [] = [(k, v)]"
| "btree_insert k v ((k', v') # kvs) =
     (if k = k' then (k, v) # kvs else if k < k' then (k, v) # (k', v') # kvs else (k', v') # btree_insert k v kvs)"

definition section_with_decryption_key :: "string \<Rightarrow> key_source_ref \<Rightarrow> payload_encryption_config \<Rightarrow> payload_encryption_config" where
  "section_with_decryption_key key_id r c = c\<lparr>px_decryption_keys := btree_insert key_id r (px_decryption_keys c)\<rparr>"

subsection \<open>Environment variables\<close>

definition invalid_var :: "string \<Rightarrow> hammerwork_error" where
  "invalid_var name = ConfigError (''Invalid value for '' @ name)"

definition parse_bool_var :: "string \<Rightarrow> string \<Rightarrow> bool res" where
  "parse_bool_var name v =
     (let t = map ascii_lower (str_trim v) in
      if t \<in> {''1'', ''true'', ''yes'', ''on''} then Inr True
      else if t \<in> {''0'', ''false'', ''no'', ''off''} then Inr False
      else Inl (invalid_var name))"

definition parse_secs_var :: "string \<Rightarrow> string \<Rightarrow> nat res" where
  "parse_secs_var name v = (case parse_usize (str_trim v) of Some n \<Rightarrow> Inr n | None \<Rightarrow> Inl (invalid_var name))"

fun parse_decryption_keys :: "string list \<Rightarrow> (string \<times> key_source_ref) list \<Rightarrow> (string \<times> key_source_ref) list res" where
  "parse_decryption_keys [] keys = Inr keys"
| "parse_decryption_keys (entry # rest) keys =
     (case split_once ''='' entry of
        None \<Rightarrow> Inl (invalid_var ''HAMMERWORK_ENCRYPTION_DECRYPTION_KEYS'')
      | Some (key_id, source) \<Rightarrow>
          (case key_source_ref_parse (str_trim source) of
             Inl e \<Rightarrow> Inl e
           | Inr r \<Rightarrow> parse_decryption_keys rest (btree_insert (str_trim key_id) r keys)))"

text \<open>One variable: unset leaves the section, a bad value is an error.\<close>

definition on_var ::
  "(string \<rightharpoonup> string) \<Rightarrow> string \<Rightarrow> (string \<Rightarrow> 'a res) \<Rightarrow> ('a \<Rightarrow> payload_encryption_config \<Rightarrow> payload_encryption_config) \<Rightarrow>
     payload_encryption_config \<Rightarrow> payload_encryption_config res" where
  "on_var var name parse upd c =
     (case var name of
        None \<Rightarrow> Inr c
      | Some v \<Rightarrow> (case parse v of Inl e \<Rightarrow> Inl e | Inr x \<Rightarrow> Inr (upd x c)))"

definition bind_section ::
  "payload_encryption_config res \<Rightarrow> (payload_encryption_config \<Rightarrow> payload_encryption_config res) \<Rightarrow> payload_encryption_config res" where
  "bind_section r f = (case r of Inl e \<Rightarrow> Inl e | Inr c \<Rightarrow> f c)"

definition list_var :: "string \<Rightarrow> string list" where
  "list_var v = filter (\<lambda>x. x \<noteq> []) (map str_trim (split_on (CHR '','') v))"

definition apply_vars :: "(string \<rightharpoonup> string) \<Rightarrow> payload_encryption_config \<Rightarrow> payload_encryption_config res" where
  "apply_vars var c =
     foldl bind_section (Inr c)
       [on_var var ''HAMMERWORK_ENCRYPTION_ENABLED'' (parse_bool_var ''HAMMERWORK_ENCRYPTION_ENABLED'') (\<lambda>b c. c\<lparr>px_enabled := b\<rparr>),
        on_var var ''HAMMERWORK_ENCRYPTION_ALGORITHM'' (\<lambda>v. algorithm_from_str (str_trim v)) (\<lambda>a c. c\<lparr>px_algorithm := a\<rparr>),
        on_var var ''HAMMERWORK_ENCRYPTION_KEY_SOURCE'' (\<lambda>v. key_source_ref_parse (str_trim v)) (\<lambda>r c. c\<lparr>px_key_source := r\<rparr>),
        on_var var ''HAMMERWORK_ENCRYPTION_KEY_ID'' (\<lambda>v. Inr (str_trim v)) (\<lambda>i c. c\<lparr>px_key_id := Some i\<rparr>),
        on_var var ''HAMMERWORK_ENCRYPTION_COMPRESSION'' (parse_bool_var ''HAMMERWORK_ENCRYPTION_COMPRESSION'') (\<lambda>b c. c\<lparr>px_compression := b\<rparr>),
        on_var var ''HAMMERWORK_ENCRYPTION_DEFAULT_RETENTION_SECS'' (parse_secs_var ''HAMMERWORK_ENCRYPTION_DEFAULT_RETENTION_SECS'')
          (\<lambda>n c. c\<lparr>px_default_retention_secs := Some n\<rparr>),
        on_var var ''HAMMERWORK_ENCRYPTION_PURGE_INTERVAL_SECS'' (parse_secs_var ''HAMMERWORK_ENCRYPTION_PURGE_INTERVAL_SECS'')
          (\<lambda>n c. c\<lparr>px_purge_interval_secs := Some n\<rparr>),
        on_var var ''HAMMERWORK_ENCRYPTION_ENCRYPTED_QUEUES'' (\<lambda>v. Inr (list_var v)) (\<lambda>qs c. c\<lparr>px_encrypted_queues := qs\<rparr>),
        on_var var ''HAMMERWORK_ENCRYPTION_DECRYPTION_KEYS'' (\<lambda>v. parse_decryption_keys (list_var v) []) (\<lambda>ks c. c\<lparr>px_decryption_keys := ks\<rparr>),
        on_var var ''HAMMERWORK_ENCRYPTION_KEY_ROTATION_ENABLED'' (parse_bool_var ''HAMMERWORK_ENCRYPTION_KEY_ROTATION_ENABLED'')
          (\<lambda>b c. c\<lparr>px_key_rotation := (px_key_rotation c)\<lparr>kr_enabled := b\<rparr>\<rparr>),
        on_var var ''HAMMERWORK_ENCRYPTION_KEY_ROTATION_MASTER_KEY_SOURCE'' (\<lambda>v. key_source_ref_parse (str_trim v))
          (\<lambda>r c. c\<lparr>px_key_rotation := (px_key_rotation c)\<lparr>kr_master_key_source := r\<rparr>\<rparr>),
        on_var var ''HAMMERWORK_ENCRYPTION_KEY_ROTATION_CHECK_INTERVAL_SECS''
          (parse_secs_var ''HAMMERWORK_ENCRYPTION_KEY_ROTATION_CHECK_INTERVAL_SECS'')
          (\<lambda>n c. c\<lparr>px_key_rotation := (px_key_rotation c)\<lparr>kr_check_interval_secs := n\<rparr>\<rparr>)]"

text \<open>
  \<open>load\<close> for tools: the section of a file (what the reader made of it, or the default without a
  path), then the environment, then validation.
\<close>

definition payload_encryption_load :: "(string \<rightharpoonup> string) \<Rightarrow> string \<Rightarrow> (string + payload_encryption_config) option \<Rightarrow> payload_encryption_config res" where
  "payload_encryption_load var path file =
     (case (case file of
              None \<Rightarrow> Inr payload_encryption_default
            | Some (Inl e) \<Rightarrow> Inl (ConfigError (path @ '': '' @ e))
            | Some (Inr c) \<Rightarrow> Inr c) of
        Inl e \<Rightarrow> Inl e
      | Inr c \<Rightarrow>
          (case apply_vars var c of
             Inl e \<Rightarrow> Inl e
           | Inr c' \<Rightarrow> (case payload_encryption_validate c' of Inl e \<Rightarrow> Inl e | Inr _ \<Rightarrow> Inr c')))"

subsection \<open>The whole configuration\<close>

record webhook_global_settings =
  wg_max_concurrent_deliveries :: nat
  wg_max_response_body_size :: nat
  wg_log_deliveries :: bool
  wg_user_agent :: string
  wg_default_timeout_secs :: nat
  wg_max_pending_deliveries :: nat

definition webhook_global_default :: webhook_global_settings where
  "webhook_global_default =
     \<lparr>wg_max_concurrent_deliveries = 100, wg_max_response_body_size = 64 * 1024, wg_log_deliveries = True,
      wg_user_agent = ''hammerwork-webhooks/3.0.0'', wg_default_timeout_secs = 30, wg_max_pending_deliveries = 1000\<rparr>"

record webhook_configs =
  wc_webhooks :: "webhook_config list"
  wc_global_settings :: webhook_global_settings

record streaming_global_settings =
  sg_max_concurrent_processors :: nat
  sg_log_operations :: bool
  sg_global_flush_interval_secs :: nat

definition streaming_global_default :: streaming_global_settings where
  "streaming_global_default =
     \<lparr>sg_max_concurrent_processors = 50, sg_log_operations = True, sg_global_flush_interval_secs = 10\<rparr>"

record streaming_configs =
  sk_streams :: "stream_config list"
  sk_global_settings :: streaming_global_settings

record hammerwork_config =
  hc_database :: database_config
  hc_worker :: worker_config
  hc_events :: event_config
  hc_webhooks :: webhook_configs
  hc_streaming :: streaming_configs
  hc_alerting :: alerting_config
  hc_archive :: archive_config
  hc_rate_limiting :: rate_limiting_config
  hc_logging :: logging_config
  hc_encryption :: payload_encryption_config

definition hammerwork_config_default :: hammerwork_config where
  "hammerwork_config_default =
     \<lparr>hc_database = database_config_default, hc_worker = worker_config_default, hc_events = event_config_default,
      hc_webhooks = \<lparr>wc_webhooks = [], wc_global_settings = webhook_global_default\<rparr>,
      hc_streaming = \<lparr>sk_streams = [], sk_global_settings = streaming_global_default\<rparr>, hc_alerting = alerting_default, hc_archive = archive_config_default, hc_rate_limiting = rate_limiting_default,
      hc_logging = logging_config_default, hc_encryption = payload_encryption_default\<rparr>"

definition with_events_enabled :: "bool \<Rightarrow> hammerwork_config \<Rightarrow> hammerwork_config" where
  "with_events_enabled b c = c\<lparr>hc_events := (hc_events c)\<lparr>ec_max_buffer_size := (if b then 10000 else 0)\<rparr>\<rparr>"

definition development :: hammerwork_config where
  "development =
     hammerwork_config_default
       \<lparr>hc_database := database_config_default\<lparr>dc_url := ''postgresql://localhost/hammerwork_dev'', dc_pool_size := 5, dc_auto_migrate := True\<rparr>,
        hc_worker := worker_config_default\<lparr>wo_pool_size := 2, wo_polling_interval := 100 * 10 ^ 6\<rparr>,
        hc_events := event_config_default\<lparr>ec_max_buffer_size := 1000, ec_log_events := True\<rparr>,
        hc_logging := logging_config_default\<lparr>lg_level := ''debug'', lg_include_location := True\<rparr>\<rparr>"

definition production :: hammerwork_config where
  "production =
     hammerwork_config_default
       \<lparr>hc_database := database_config_default\<lparr>dc_pool_size := 20, dc_connection_timeout_secs := 60, dc_auto_migrate := False\<rparr>,
        hc_worker := worker_config_default\<lparr>wo_pool_size := 8, wo_autoscaling_enabled := True, wo_min_workers := 4, wo_max_workers := 32\<rparr>,
        hc_events := event_config_default\<lparr>ec_max_buffer_size := 50000, ec_log_events := False\<rparr>,
        hc_archive := archive_config_default\<lparr>ar_enabled := True, ar_compression_level := 9\<rparr>,
        hc_rate_limiting := rate_limiting_default\<lparr>rc_enabled := True\<rparr>,
        hc_logging := logging_config_default\<lparr>lg_level := ''info'', lg_json_format := True, lg_enable_tracing := True\<rparr>\<rparr>"

definition config_add_webhook :: "webhook_config \<Rightarrow> hammerwork_config \<Rightarrow> hammerwork_config" where
  "config_add_webhook w c = c\<lparr>hc_webhooks := (hc_webhooks c)\<lparr>wc_webhooks := wc_webhooks (hc_webhooks c) @ [w]\<rparr>\<rparr>"

definition config_add_stream :: "stream_config \<Rightarrow> hammerwork_config \<Rightarrow> hammerwork_config" where
  "config_add_stream st c = c\<lparr>hc_streaming := (hc_streaming c)\<lparr>sk_streams := sk_streams (hc_streaming c) @ [st]\<rparr>\<rparr>"

text \<open>\<open>compiled_out\<close> lists the sections the build has no feature for, and whether the file has them.\<close>

definition reject_compiled_out_sections :: "(string \<times> bool) list \<Rightarrow> unit res" where
  "reject_compiled_out_sections compiled_out =
     (case find snd compiled_out of
        Some (section, _) \<Rightarrow>
          Inl (ConfigError (''['' @ section @ ''] is set but hammerwork was built without the `'' @ section @ ''` feature''))
      | None \<Rightarrow> Inr ())"

fun validate_webhooks :: "json_env \<Rightarrow> webhook_config list \<Rightarrow> unit res" where
  "validate_webhooks J [] = Inr ()"
| "validate_webhooks J (w # ws) = (case webhook_validate J w of Inl e \<Rightarrow> Inl e | Inr _ \<Rightarrow> validate_webhooks J ws)"

definition validate_delivery_targets :: "alert_env \<Rightarrow> json_env \<Rightarrow> hammerwork_config \<Rightarrow> unit res" where
  "validate_delivery_targets A J c =
     (case alerting_validate A (hc_alerting c) of Inl e \<Rightarrow> Inl e | Inr _ \<Rightarrow> validate_webhooks J (wc_webhooks (hc_webhooks c)))"

text \<open>What reading and parsing the file gave: an error, or the configuration and the sections left out.\<close>

definition from_file :: "alert_env \<Rightarrow> json_env \<Rightarrow> hammerwork_error + (hammerwork_config \<times> (string \<times> bool) list) \<Rightarrow> hammerwork_config res" where
  "from_file A J file =
     (case file of
        Inl e \<Rightarrow> Inl e
      | Inr (c, compiled_out) \<Rightarrow>
          (case reject_compiled_out_sections compiled_out of Inl e \<Rightarrow> Inl e | Inr _ \<Rightarrow>
           (case worker_config_validate (hc_worker c) of Inl e \<Rightarrow> Inl e | Inr _ \<Rightarrow>
           (case archive_config_validate (hc_archive c) of Inl e \<Rightarrow> Inl e | Inr _ \<Rightarrow>
           (case payload_encryption_validate (hc_encryption c) of Inl e \<Rightarrow> Inl e | Inr _ \<Rightarrow>
           (case rate_limiting_validate (hc_rate_limiting c) of Inl e \<Rightarrow> Inl e | Inr _ \<Rightarrow>
           (case validate_delivery_targets A J c of Inl e \<Rightarrow> Inl e | Inr _ \<Rightarrow> Inr c)))))))"

text \<open>A numeric variable below a bound: \<open>u32\<close> or \<open>u64\<close> and \<open>usize\<close>.\<close>

definition parse_number_var :: "(string \<rightharpoonup> string) \<Rightarrow> nat \<Rightarrow> string \<Rightarrow> nat option res" where
  "parse_number_var var bound name =
     (case var name of
        None \<Rightarrow> Inr None
      | Some v \<Rightarrow>
          (case parse_usize (str_trim v) of
             Some n \<Rightarrow> if n < bound then Inr (Some n) else Inl (ConfigError (''Invalid value for '' @ name @ '': '' @ v))
           | None \<Rightarrow> Inl (ConfigError (''Invalid value for '' @ name @ '': '' @ v))))"

definition set_number ::
  "(string \<rightharpoonup> string) \<Rightarrow> nat \<Rightarrow> string \<Rightarrow> (nat \<Rightarrow> hammerwork_config \<Rightarrow> hammerwork_config) \<Rightarrow> hammerwork_config \<Rightarrow> hammerwork_config res" where
  "set_number var bound name upd c =
     (case parse_number_var var bound name of Inl e \<Rightarrow> Inl e | Inr None \<Rightarrow> Inr c | Inr (Some n) \<Rightarrow> Inr (upd n c))"

definition from_env :: "(string \<rightharpoonup> string) \<Rightarrow> hammerwork_config res" where
  "from_env var =
     (let c0 = hammerwork_config_default;
          c1 = (case var ''HAMMERWORK_DATABASE_URL'' of None \<Rightarrow> c0 | Some u \<Rightarrow> c0\<lparr>hc_database := (hc_database c0)\<lparr>dc_url := u\<rparr>\<rparr>) in
      case set_number var (2 ^ 32) ''HAMMERWORK_DATABASE_POOL_SIZE'' (\<lambda>n c. c\<lparr>hc_database := (hc_database c)\<lparr>dc_pool_size := n\<rparr>\<rparr>) c1 of
        Inl e \<Rightarrow> Inl e | Inr c2 \<Rightarrow>
      (case set_number var (2 ^ 64) ''HAMMERWORK_WORKER_POOL_SIZE'' (\<lambda>n c. c\<lparr>hc_worker := (hc_worker c)\<lparr>wo_pool_size := n\<rparr>\<rparr>) c2 of
        Inl e \<Rightarrow> Inl e | Inr c3 \<Rightarrow>
      (case set_number var (2 ^ 64) ''HAMMERWORK_JOB_TIMEOUT_SECONDS'' (\<lambda>n c. c\<lparr>hc_worker := (hc_worker c)\<lparr>wo_job_timeout := n * 10 ^ 9\<rparr>\<rparr>) c3 of
        Inl e \<Rightarrow> Inl e | Inr c4 \<Rightarrow>
      (case set_number var (2 ^ 64) ''HAMMERWORK_EVENT_BUFFER_SIZE'' (\<lambda>n c. c\<lparr>hc_events := (hc_events c)\<lparr>ec_max_buffer_size := n\<rparr>\<rparr>) c4 of
        Inl e \<Rightarrow> Inl e | Inr c5 \<Rightarrow>
      (case apply_vars var (hc_encryption c5) of
        Inl e \<Rightarrow> Inl e | Inr x \<Rightarrow>
      (let c6 = c5\<lparr>hc_encryption := x\<rparr> in
       case worker_config_validate (hc_worker c6) of Inl e \<Rightarrow> Inl e | Inr _ \<Rightarrow> Inr c6))))))"

subsection \<open>What a queue is built from\<close>

fun add_decryption_keys ::
  "key_env \<Rightarrow> (string \<times> key_source_ref) list \<Rightarrow> engine \<Rightarrow> key_places \<Rightarrow> engine cres \<times> key_places" where
  "add_decryption_keys V [] en P = (Inr en, P)"
| "add_decryption_keys V ((key_id, r) # rest) en P =
     (case with_decryption_key_from V key_id (key_source_of_ref r) en P of
        (Inl e, P') \<Rightarrow> (Inl e, P')
      | (Inr en', P') \<Rightarrow> add_decryption_keys V rest en' P')"

definition apply_encryption_config ::
  "key_env \<Rightarrow> start_call \<Rightarrow> payload_encryption_config \<Rightarrow> payload_encryption \<Rightarrow> key_places \<Rightarrow> key_store \<Rightarrow>
     payload_encryption res \<times> key_places \<times> key_store" where
  "apply_encryption_config V A c pe P s =
     (case payload_encryption_validate c of
        Inl e \<Rightarrow> (Inl e, P, s)
      | Inr _ \<Rightarrow>
          if \<not> px_enabled c then (Inr pe, P, s)
          else
            (case section_encryption_config c of
               Inl e \<Rightarrow> (Inl e, P, s)
             | Inr ec \<Rightarrow>
                 (case new_with_pool V A ec P s of
                    (Inl e, P', s') \<Rightarrow> (Inl (encryption_failure e), P', s')
                  | (Inr en, P', s') \<Rightarrow>
                      (case add_decryption_keys V (px_decryption_keys c) en P' of
                         (Inl e, P'') \<Rightarrow> (Inl (encryption_failure e), P'', s')
                       | (Inr en', P'') \<Rightarrow>
                           (Inr (pe\<lparr>pe_engine := Some en', pe_encrypted_queues := px_encrypted_queues c\<rparr>), P'', s')))))"

subsection \<open>Validation\<close>

text \<open>A pool's bounds make sense whatever the file says.\<close>

lemma autoscale_config_of_ok:
  "1 \<le> Autoscale.ac_min_workers (autoscale_config_of c) \<and> Autoscale.ac_min_workers (autoscale_config_of c) \<le> Autoscale.ac_max_workers (autoscale_config_of c)"
  by (auto simp: autoscale_config_of_def autoscale_disabled_def autoscale_default_def with_max_workers_def with_min_workers_def Let_def)

lemma worker_config_validate_ok:
  "worker_config_validate c = Inr () \<longleftrightarrow>
     0 < wo_polling_interval c \<and> 0 < wo_job_timeout c \<and> (wo_result_cleanup_enabled c \<longrightarrow> 0 < wo_result_cleanup_interval c)
     \<and> (\<forall>n. wo_batch_size c = Some n \<longrightarrow> 1 \<le> n \<and> n \<le> MAX_DEQUEUE_BATCH_SIZE) \<and> wo_batch_concurrency c \<noteq> Some 0"
  by (cases "wo_batch_size c") (auto simp: worker_config_validate_def)

lemma validate_throttles_ok:
  "validate_throttles ts = Inr () \<longleftrightarrow> (\<forall>(q, t) \<in> set ts. t_enabled t \<longrightarrow> t_rate_per_minute t \<noteq> Some 0)"
proof (induction ts)
  case (Cons p ts)
  obtain q t where p: "p = (q, t)" by fastforce
  have "throttle_validate t = Inr () \<longleftrightarrow> t_enabled t \<longrightarrow> t_rate_per_minute t \<noteq> Some 0" by (rule throttle_validate_ok)
  then show ?case using Cons p by (cases "throttle_validate t") auto
qed simp

text \<open>Whatever throttle a valid section selects for a queue lets jobs through.\<close>

lemma throttle_for_runs:
  assumes "rate_limiting_validate c = Inr ()" "throttle_for c queue = Some t"
  shows "t_enabled t \<and> t_rate_per_minute t \<noteq> Some 0"
proof -
  have all: "\<forall>(q, t) \<in> set (rc_queue_throttles c). t_enabled t \<longrightarrow> t_rate_per_minute t \<noteq> Some 0"
    "t_enabled (rc_default_throttle c) \<longrightarrow> t_rate_per_minute (rc_default_throttle c) \<noteq> Some 0"
    using assms(1) validate_throttles_ok throttle_validate_ok [of "rc_default_throttle c"]
    by (auto simp: rate_limiting_validate_def split: sum.splits)
  show ?thesis
  proof (cases "map_of (rc_queue_throttles c) queue")
    case None
    then show ?thesis using assms(2) all(2) by (auto simp: throttle_for_def Let_def split: if_splits)
  next
    case (Some t')
    then have "(queue, t') \<in> set (rc_queue_throttles c)" by (rule map_of_SomeD)
    then show ?thesis using assms(2) all(1) Some by (auto simp: throttle_for_def Let_def split: if_splits)
  qed
qed

lemma from_file_ok:
  assumes "worker_config_validate (hc_worker c) = Inr ()" "archive_config_validate (hc_archive c) = Inr ()"
    "payload_encryption_validate (hc_encryption c) = Inr ()" "rate_limiting_validate (hc_rate_limiting c) = Inr ()"
    "hc_alerting c = alerting_default" "wc_webhooks (hc_webhooks c) = []"
  shows "from_file A J (Inr (c, [])) = Inr c"
  using assms
  by (simp add: from_file_def reject_compiled_out_sections_def validate_delivery_targets_def alerting_validate_def alerting_default_def)

lemma default_sections_valid:
  "payload_encryption_validate payload_encryption_default = Inr ()" "rate_limiting_validate rate_limiting_default = Inr ()"
  "rate_limiting_validate (rate_limiting_default\<lparr>rc_enabled := True\<rparr>) = Inr ()"
  by (simp_all add: payload_encryption_validate_def payload_encryption_default_def key_rotation_default_def rate_limiting_validate_def
      rate_limiting_default_def throttle_validate_def throttle_new_def to_rate_limit_def)

lemma presets_load:
  "from_file A J (Inr (hammerwork_config_default, [])) = Inr hammerwork_config_default"
  "from_file A J (Inr (development, [])) = Inr development"
  "from_file A J (Inr (production, [])) = Inr production"
proof -
  show "from_file A J (Inr (hammerwork_config_default, [])) = Inr hammerwork_config_default"
    by (rule from_file_ok) (simp_all add: hammerwork_config_default_def default_sections_valid worker_config_validate_def worker_config_default_def
        archive_config_validate_def archive_config_default_def DEFAULT_RESULT_CLEANUP_INTERVAL_def)
  show "from_file A J (Inr (development, [])) = Inr development"
    by (rule from_file_ok) (simp_all add: development_def hammerwork_config_default_def default_sections_valid worker_config_validate_def
        worker_config_default_def archive_config_validate_def archive_config_default_def DEFAULT_RESULT_CLEANUP_INTERVAL_def)
  show "from_file A J (Inr (production, [])) = Inr production"
    by (rule from_file_ok) (simp_all add: production_def hammerwork_config_default_def default_sections_valid worker_config_validate_def
        worker_config_default_def archive_config_validate_def archive_config_default_def DEFAULT_RESULT_CLEANUP_INTERVAL_def
        DEFAULT_ARCHIVE_CHECK_INTERVAL_def)
qed

subsection \<open>Key references\<close>

text \<open>The texts that name a key without being one.\<close>

definition names_key :: "string \<Rightarrow> bool" where
  "names_key s \<longleftrightarrow> (\<exists>var. s = ''env://'' @ var \<and> var \<noteq> [] \<and> list_all (\<lambda>c. is_ascii_alphanumeric c \<or> c = CHR ''_'') var)
     \<or> (\<exists>scheme \<in> set EXTERNAL_SCHEMES. \<exists>rest. s = scheme @ rest \<and> rest \<noteq> [])"

definition key_source_errors :: "string list" where
  "key_source_errors =
     [''Invalid encryption key source: env:// needs an environment variable name (letters, digits and underscores)'',
      ''Invalid encryption key source: expected env://VAR, aws://, gcp://, vault:// or azure://; keys cannot be written in the configuration'']
     @ map (\<lambda>scheme. ''Invalid encryption key source: '' @ scheme @ '' needs a key reference'') EXTERNAL_SCHEMES"

lemma prefix_of_schemes:
  "a \<in> set EXTERNAL_SCHEMES \<Longrightarrow> b \<in> set EXTERNAL_SCHEMES \<Longrightarrow> prefix a s \<Longrightarrow> prefix b s \<Longrightarrow> a = b"
  "a \<in> set EXTERNAL_SCHEMES \<Longrightarrow> prefix a s \<Longrightarrow> \<not> prefix ''env://'' s"
  by (auto simp: EXTERNAL_SCHEMES_def prefix_def)

lemma find_scheme:
  "find (\<lambda>scheme. prefix scheme s) EXTERNAL_SCHEMES = Some a \<longleftrightarrow> a \<in> set EXTERNAL_SCHEMES \<and> prefix a s"
proof
  assume "find (\<lambda>scheme. prefix scheme s) EXTERNAL_SCHEMES = Some a"
  then show "a \<in> set EXTERNAL_SCHEMES \<and> prefix a s" by (auto simp: find_Some_iff in_set_conv_nth)
next
  assume a: "a \<in> set EXTERNAL_SCHEMES \<and> prefix a s"
  then obtain b where b: "find (\<lambda>scheme. prefix scheme s) EXTERNAL_SCHEMES = Some b"
    by (cases "find (\<lambda>scheme. prefix scheme s) EXTERNAL_SCHEMES") (auto simp: find_None_iff)
  then have "b \<in> set EXTERNAL_SCHEMES \<and> prefix b s" by (auto simp: find_Some_iff in_set_conv_nth)
  then show "find (\<lambda>scheme. prefix scheme s) EXTERNAL_SCHEMES = Some a" using a b prefix_of_schemes(1) by blast
qed

lemma key_source_ref_parse_spec:
  "key_source_ref_parse s = Inr r \<longleftrightarrow> r = KeySourceRef s \<and> names_key s"
  "key_source_ref_parse s = Inl e \<Longrightarrow> e \<in> ConfigError ` set key_source_errors"
proof -
  show "key_source_ref_parse s = Inr r \<longleftrightarrow> r = KeySourceRef s \<and> names_key s"
  proof (cases "prefix ''env://'' s")
    case True
    then have "names_key s \<longleftrightarrow> (\<exists>var. s = ''env://'' @ var \<and> var \<noteq> [] \<and> list_all (\<lambda>c. is_ascii_alphanumeric c \<or> c = CHR ''_'') var)"
      using prefix_of_schemes(2) by (auto simp: names_key_def prefix_def)
    then show ?thesis using True by (auto simp: key_source_ref_parse_def strip_prefix_def prefix_def)
  next
    case False
    then have env: "names_key s \<longleftrightarrow> (\<exists>scheme \<in> set EXTERNAL_SCHEMES. \<exists>rest. s = scheme @ rest \<and> rest \<noteq> [])"
      by (auto simp: names_key_def)
    show ?thesis
    proof (cases "find (\<lambda>scheme. prefix scheme s) EXTERNAL_SCHEMES")
      case None
      then have "\<not> names_key s" using env by (auto simp: find_None_iff prefix_def)
      then show ?thesis using False None by (simp add: key_source_ref_parse_def strip_prefix_def)
    next
      case (Some a)
      then have a: "a \<in> set EXTERNAL_SCHEMES" "prefix a s" using find_scheme by blast+
      then obtain r' where r': "s = a @ r'" by (auto simp: prefix_def)
      have "r' \<noteq> []" if n: "names_key s"
      proof -
        obtain b r'' where b: "b \<in> set EXTERNAL_SCHEMES" "s = b @ r''" "r'' \<noteq> []" using n env by blast
        then have "b = a" using prefix_of_schemes(1) [OF _ a(1) _ a(2)] by simp
        then show ?thesis using b(2,3) r' by simp
      qed
      then have "names_key s \<longleftrightarrow> length s \<noteq> length a" using env a(1) r' by auto
      then show ?thesis using False Some by (auto simp: key_source_ref_parse_def strip_prefix_def)
    qed
  qed
  show "e \<in> ConfigError ` set key_source_errors" if "key_source_ref_parse s = Inl e"
    using that by (auto simp: key_source_ref_parse_def key_source_errors_def find_scheme split: option.splits if_splits)
qed

text \<open>A section whose keys are all references, its map a map.\<close>

definition section_ok :: "payload_encryption_config \<Rightarrow> bool" where
  "section_ok c \<longleftrightarrow> names_key (ref_str (px_key_source c)) \<and> names_key (ref_str (kr_master_key_source (px_key_rotation c)))
     \<and> list_all (\<lambda>(i, r). names_key (ref_str r)) (px_decryption_keys c) \<and> sorted_wrt (<) (map fst (px_decryption_keys c))"

text \<open>What a variable makes of a field: its value when set, the field when not.\<close>

definition var_or :: "(string \<rightharpoonup> string) \<Rightarrow> string \<Rightarrow> (string \<Rightarrow> 'a res) \<Rightarrow> 'a \<Rightarrow> 'a res" where
  "var_or var name parse d = (case var name of None \<Rightarrow> Inr d | Some v \<Rightarrow> parse v)"

definition in_some :: "'a res \<Rightarrow> 'a option res" where
  "in_some r = (case r of Inl e \<Rightarrow> Inl e | Inr x \<Rightarrow> Inr (Some x))"

lemma on_var_reading:
  "upd (get c) c = c \<Longrightarrow> on_var var name parse upd c = (case var_or var name parse (get c) of Inl e \<Rightarrow> Inl e | Inr x \<Rightarrow> Inr (upd x c))"
  "upd' (get' c) c = c \<Longrightarrow>
     on_var var name parse (\<lambda>x. upd' (Some x)) c =
       (case var_or var name (\<lambda>v. in_some (parse v)) (get' c) of Inl e \<Rightarrow> Inl e | Inr x \<Rightarrow> Inr (upd' x c))"
  by (simp_all add: on_var_def var_or_def in_some_def split: option.split sum.split)

text \<open>The fields of a section that variables set, each as its variable says.\<close>

definition reads_section :: "(string \<rightharpoonup> string) \<Rightarrow> payload_encryption_config \<Rightarrow> payload_encryption_config \<Rightarrow> bool" where
  "reads_section var c c' \<longleftrightarrow>
     var_or var ''HAMMERWORK_ENCRYPTION_ENABLED'' (parse_bool_var ''HAMMERWORK_ENCRYPTION_ENABLED'') (px_enabled c) = Inr (px_enabled c')
     \<and> var_or var ''HAMMERWORK_ENCRYPTION_ALGORITHM'' (\<lambda>v. algorithm_from_str (str_trim v)) (px_algorithm c) = Inr (px_algorithm c')
     \<and> var_or var ''HAMMERWORK_ENCRYPTION_KEY_SOURCE'' (\<lambda>v. key_source_ref_parse (str_trim v)) (px_key_source c) = Inr (px_key_source c')
     \<and> var_or var ''HAMMERWORK_ENCRYPTION_KEY_ID'' (\<lambda>v. Inr (Some (str_trim v))) (px_key_id c) = Inr (px_key_id c')
     \<and> var_or var ''HAMMERWORK_ENCRYPTION_COMPRESSION'' (parse_bool_var ''HAMMERWORK_ENCRYPTION_COMPRESSION'') (px_compression c)
         = Inr (px_compression c')
     \<and> var_or var ''HAMMERWORK_ENCRYPTION_DEFAULT_RETENTION_SECS''
         (\<lambda>v. in_some (parse_secs_var ''HAMMERWORK_ENCRYPTION_DEFAULT_RETENTION_SECS'' v)) (px_default_retention_secs c)
         = Inr (px_default_retention_secs c')
     \<and> var_or var ''HAMMERWORK_ENCRYPTION_PURGE_INTERVAL_SECS''
         (\<lambda>v. in_some (parse_secs_var ''HAMMERWORK_ENCRYPTION_PURGE_INTERVAL_SECS'' v)) (px_purge_interval_secs c)
         = Inr (px_purge_interval_secs c')
     \<and> var_or var ''HAMMERWORK_ENCRYPTION_ENCRYPTED_QUEUES'' (\<lambda>v. Inr (list_var v)) (px_encrypted_queues c) = Inr (px_encrypted_queues c')
     \<and> var_or var ''HAMMERWORK_ENCRYPTION_DECRYPTION_KEYS'' (\<lambda>v. parse_decryption_keys (list_var v) []) (px_decryption_keys c)
         = Inr (px_decryption_keys c')
     \<and> var_or var ''HAMMERWORK_ENCRYPTION_KEY_ROTATION_ENABLED'' (parse_bool_var ''HAMMERWORK_ENCRYPTION_KEY_ROTATION_ENABLED'')
         (kr_enabled (px_key_rotation c)) = Inr (kr_enabled (px_key_rotation c'))
     \<and> var_or var ''HAMMERWORK_ENCRYPTION_KEY_ROTATION_MASTER_KEY_SOURCE'' (\<lambda>v. key_source_ref_parse (str_trim v))
         (kr_master_key_source (px_key_rotation c)) = Inr (kr_master_key_source (px_key_rotation c'))
     \<and> var_or var ''HAMMERWORK_ENCRYPTION_KEY_ROTATION_CHECK_INTERVAL_SECS''
         (parse_secs_var ''HAMMERWORK_ENCRYPTION_KEY_ROTATION_CHECK_INTERVAL_SECS'') (kr_check_interval_secs (px_key_rotation c))
         = Inr (kr_check_interval_secs (px_key_rotation c'))
     \<and> kr_max_key_versions (px_key_rotation c') = kr_max_key_versions (px_key_rotation c)"

lemmas section_readings =
  on_var_reading(1) [where get = px_enabled and upd = "\<lambda>b c. c\<lparr>px_enabled := b\<rparr>", simplified]
  on_var_reading(1) [where get = px_algorithm and upd = "\<lambda>b c. c\<lparr>px_algorithm := b\<rparr>", simplified]
  on_var_reading(1) [where get = px_key_source and upd = "\<lambda>b c. c\<lparr>px_key_source := b\<rparr>", simplified]
  on_var_reading(2) [where get' = px_key_id and upd' = "\<lambda>b c. c\<lparr>px_key_id := b\<rparr>", simplified]
  on_var_reading(1) [where get = px_compression and upd = "\<lambda>b c. c\<lparr>px_compression := b\<rparr>", simplified]
  on_var_reading(2) [where get' = px_default_retention_secs and upd' = "\<lambda>b c. c\<lparr>px_default_retention_secs := b\<rparr>", simplified]
  on_var_reading(2) [where get' = px_purge_interval_secs and upd' = "\<lambda>b c. c\<lparr>px_purge_interval_secs := b\<rparr>", simplified]
  on_var_reading(1) [where get = px_encrypted_queues and upd = "\<lambda>b c. c\<lparr>px_encrypted_queues := b\<rparr>", simplified]
  on_var_reading(1) [where get = px_decryption_keys and upd = "\<lambda>b c. c\<lparr>px_decryption_keys := b\<rparr>", simplified]
  on_var_reading(1) [where get = "\<lambda>c. kr_enabled (px_key_rotation c)"
    and upd = "\<lambda>b c. c\<lparr>px_key_rotation := (px_key_rotation c)\<lparr>kr_enabled := b\<rparr>\<rparr>", simplified]
  on_var_reading(1) [where get = "\<lambda>c. kr_master_key_source (px_key_rotation c)"
    and upd = "\<lambda>b c. c\<lparr>px_key_rotation := (px_key_rotation c)\<lparr>kr_master_key_source := b\<rparr>\<rparr>", simplified]
  on_var_reading(1) [where get = "\<lambda>c. kr_check_interval_secs (px_key_rotation c)"
    and upd = "\<lambda>b c. c\<lparr>px_key_rotation := (px_key_rotation c)\<lparr>kr_check_interval_secs := b\<rparr>\<rparr>", simplified]

lemma section_ext:
  "c = (c' :: payload_encryption_config) \<longleftrightarrow>
     px_enabled c = px_enabled c' \<and> px_algorithm c = px_algorithm c' \<and> px_key_source c = px_key_source c' \<and> px_key_id c = px_key_id c'
     \<and> px_compression c = px_compression c' \<and> px_default_retention_secs c = px_default_retention_secs c'
     \<and> px_purge_interval_secs c = px_purge_interval_secs c' \<and> px_encrypted_queues c = px_encrypted_queues c'
     \<and> px_decryption_keys c = px_decryption_keys c' \<and> kr_enabled (px_key_rotation c) = kr_enabled (px_key_rotation c')
     \<and> kr_master_key_source (px_key_rotation c) = kr_master_key_source (px_key_rotation c')
     \<and> kr_check_interval_secs (px_key_rotation c) = kr_check_interval_secs (px_key_rotation c')
     \<and> kr_max_key_versions (px_key_rotation c) = kr_max_key_versions (px_key_rotation c')"
  by (cases c; cases c'; cases "px_key_rotation c"; cases "px_key_rotation c'") auto

lemma bind_section_simps [simp]:
  "bind_section (Inl e) f = Inl e" "bind_section (Inr c) f = f c"
  "bind_section (case r of Inl e \<Rightarrow> Inl e | Inr x \<Rightarrow> g x) f = (case r of Inl e \<Rightarrow> Inl e | Inr x \<Rightarrow> bind_section (g x) f)"
  by (simp_all add: bind_section_def split: sum.split)

lemma case_res_Inr:
  "(case r of Inl e \<Rightarrow> Inl e | Inr x \<Rightarrow> f x) = Inr y \<longleftrightarrow> (\<exists>x. r = Inr x \<and> f x = Inr y)"
  by (cases r) auto

lemma in_some_Inr [simp]: "in_some (Inr x) = Inr (Some x)"
  by (simp add: in_some_def)

lemma apply_vars_reads: "apply_vars var c = Inr c' \<longleftrightarrow> reads_section var c c'"
  by (simp add: apply_vars_def section_readings reads_section_def case_res_Inr section_ext) auto

lemma btree_insert_keys: "set (map fst (btree_insert k v kvs)) = insert k (set (map fst kvs))"
  by (induction k v kvs rule: btree_insert.induct) auto

lemma btree_insert_sorted: "sorted_wrt (<) (map fst kvs) \<Longrightarrow> sorted_wrt (<) (map fst (btree_insert k v kvs))"
proof (induction k v kvs rule: btree_insert.induct)
  case (2 k v k' v' kvs)
  consider "k = k'" | "k < k'" | "k' < k" by (rule linorder_cases)
  then show ?case using 2 btree_insert_keys [of k v kvs] by cases (auto simp del: set_map intro: less_trans)
qed simp

lemma btree_insert_all: "list_all P kvs \<Longrightarrow> P (k, v) \<Longrightarrow> list_all P (btree_insert k v kvs)"
  by (induction k v kvs rule: btree_insert.induct) auto

lemma btree_insert_lookup:
  "sorted_wrt (<) (map fst kvs) \<Longrightarrow> map_of (btree_insert k v kvs) = (map_of kvs)(k \<mapsto> v)"
  by (induction k v kvs rule: btree_insert.induct) (auto simp: fun_eq_iff)

lemma parse_decryption_keys_ok:
  assumes "parse_decryption_keys es kvs = Inr kvs'" "list_all (\<lambda>(i, r). names_key (ref_str r)) kvs" "sorted_wrt (<) (map fst kvs)"
  shows "list_all (\<lambda>(i, r). names_key (ref_str r)) kvs' \<and> sorted_wrt (<) (map fst kvs')"
  using assms
  by (induction es kvs rule: parse_decryption_keys.induct)
    (auto simp: btree_insert_sorted btree_insert_all key_source_ref_parse_spec(1) split: option.splits sum.splits prod.splits)

lemma var_or_Inr: "var_or var name parse d = Inr x \<Longrightarrow> P d \<Longrightarrow> (\<And>v. parse v = Inr x \<Longrightarrow> P x) \<Longrightarrow> P x"
  by (auto simp: var_or_def split: option.splits)

lemma reads_section_ok:
  assumes "reads_section var c c'" "section_ok c"
  shows "section_ok c'"
proof -
  have "names_key (ref_str (px_key_source c'))"
    by (rule var_or_Inr [where P = "\<lambda>r. names_key (ref_str r)"])
      (use assms in \<open>auto simp: reads_section_def section_ok_def key_source_ref_parse_spec(1)\<close>)
  moreover have "names_key (ref_str (kr_master_key_source (px_key_rotation c')))"
    by (rule var_or_Inr [where P = "\<lambda>r. names_key (ref_str r)" and name = "''HAMMERWORK_ENCRYPTION_KEY_ROTATION_MASTER_KEY_SOURCE''"])
      (use assms in \<open>auto simp: reads_section_def section_ok_def key_source_ref_parse_spec(1)\<close>)
  moreover have "list_all (\<lambda>(i, r). names_key (ref_str r)) (px_decryption_keys c') \<and> sorted_wrt (<) (map fst (px_decryption_keys c'))"
    by (rule var_or_Inr [where P = "\<lambda>ks. list_all (\<lambda>(i, r). names_key (ref_str r)) ks \<and> sorted_wrt (<) (map fst ks)"])
      (use assms parse_decryption_keys_ok in \<open>fastforce simp: reads_section_def section_ok_def\<close>)+
  ultimately show ?thesis by (simp add: section_ok_def)
qed

lemma section_ok_default: "section_ok payload_encryption_default"
  by (auto simp: section_ok_def payload_encryption_default_def key_source_ref_default_def key_rotation_default_def names_key_def
      is_ascii_alphanumeric_def)

lemma section_with_decryption_key_ok:
  "section_ok c \<Longrightarrow> names_key (ref_str r) \<Longrightarrow> section_ok (section_with_decryption_key i r c)"
  by (simp add: section_ok_def section_with_decryption_key_def btree_insert_sorted btree_insert_all)

text \<open>The section that variables are applied to.\<close>

definition section_of_file :: "(string + payload_encryption_config) option \<Rightarrow> payload_encryption_config option" where
  "section_of_file file =
     (case file of None \<Rightarrow> Some payload_encryption_default | Some (Inl e) \<Rightarrow> None | Some (Inr c) \<Rightarrow> Some c)"

definition section_key_id :: "payload_encryption_config \<Rightarrow> string" where
  "section_key_id c = (case px_key_id c of Some i \<Rightarrow> i | None \<Rightarrow> ''default'')"

lemma section_validD:
  assumes "payload_encryption_validate c = Inr u"
  shows "px_encrypted_queues c \<noteq> [] \<Longrightarrow> px_enabled c" "px_purge_interval_secs c \<noteq> Some 0"
    "px_enabled c \<Longrightarrow> section_key_id c \<noteq> [] \<and> section_key_id c \<notin> set (map fst (px_decryption_keys c))"
  using assms by (auto simp: payload_encryption_validate_def section_key_id_def split: if_splits option.splits)



subsection \<open>Queues built from a section\<close>

text \<open>A reference is loaded without writing anything.\<close>

lemma load_ref_places: "load_key V (key_source_of_ref r) sz P = (x, P') \<Longrightarrow> P' = P"
  by (auto simp: key_source_of_ref_def split: option.splits)

lemma with_decryption_key_from_Inr:
  assumes "with_decryption_key_from V key_id (key_source_of_ref r) en P = (Inr en', P')"
  obtains k where "key_id \<noteq> engine_key_id en" "P' = P" "fst (load_key V (key_source_of_ref r) KEY_SIZE P) = Inr k"
    "en' = en\<lparr>en_keys := (en_keys en)(key_id \<mapsto> kv_single k)\<rparr>"
  using assms load_ref_places
  by (fastforce simp: with_decryption_key_from_def with_decryption_key_def config_key_size split: if_splits prod.splits sum.splits)

lemma add_decryption_keys_Inr:
  assumes "add_decryption_keys V kvs en P = (Inr en', P')" "distinct (map fst kvs)"
  shows "en_config en' = en_config en \<and> en_keys_poisoned en' = en_keys_poisoned en \<and> en_kms en' = en_kms en \<and> P' = P
    \<and> (\<forall>i. i \<notin> set (map fst kvs) \<longrightarrow> en_keys en' i = en_keys en i)
    \<and> (\<forall>i r. (i, r) \<in> set kvs \<longrightarrow> (\<exists>k. fst (load_key V (key_source_of_ref r) KEY_SIZE P) = Inr k \<and> en_keys en' i = Some (kv_single k)))"
  using assms
proof (induction kvs arbitrary: en)
  case (Cons x kvs)
  obtain i r where x: "x = (i, r)" by fastforce
  obtain en1 P1 where one: "with_decryption_key_from V i (key_source_of_ref r) en P = (Inr en1, P1)"
    and rest: "add_decryption_keys V kvs en1 P1 = (Inr en', P')"
    using Cons.prems(1) x by (auto split: prod.splits sum.splits)
  obtain k where k: "P1 = P" "fst (load_key V (key_source_of_ref r) KEY_SIZE P) = Inr k"
    "en1 = en\<lparr>en_keys := (en_keys en)(i \<mapsto> kv_single k)\<rparr>"
    using with_decryption_key_from_Inr [OF one] by metis
  have d: "distinct (map fst kvs)" "i \<notin> set (map fst kvs)" using Cons.prems(2) x by auto
  note IH = Cons.IH [OF rest [unfolded k(1)] d(1)]
  have "en_keys en' i = Some (kv_single k)" using IH d(2) k(3) by simp
  then show ?case using IH k x by auto
qed simp

lemma new_with_pool_engine:
  assumes "new_with_pool V A c P s = (Inr en, P', s')"
  shows "en_config en = c \<and> \<not> en_keys_poisoned en"
proof -
  have "en_config en = c \<and> \<not> en_keys_poisoned en" if "engine_from_config V c P = (Inr en, P')"
    using that by (auto simp: engine_from_config_def engine_from_key_def split: prod.splits sum.splits)
  moreover have "en_config en = c \<and> \<not> en_keys_poisoned en" if "with_kms_store K call i now f g h c s = (Inr en, s')" for K call i now f g h
    using that by (auto simp: with_kms_store_def Let_def split: prod.splits sum.splits if_splits)
  ultimately show ?thesis
    using assms by (auto simp: new_with_pool_def split: sum.splits option.splits prod.splits)
qed

lemma new_with_pool_env:
  assumes "new_with_pool V A c P s = (Inr en, P', s')" "ec_key_source c = KsEnvironment var"
  obtains k where "fst (load_key V (KsEnvironment var) KEY_SIZE P) = Inr k" "P' = P" "en_keys en = [config_key_id c \<mapsto> kv_single k]"
proof -
  have "engine_from_config V c P = (Inr en, P')"
    using assms by (auto simp: new_with_pool_def split: prod.splits)
  then show ?thesis
    using that assms(2)
    by (auto simp: engine_from_config_def engine_from_key_def config_key_size split: prod.splits sum.splits option.splits if_splits)
qed

lemma apply_encryption_config_Inr:
  assumes "apply_encryption_config V A c pe P s = (Inr pe', P', s')" "px_enabled c"
  obtains ec en0 P1 en where "section_encryption_config c = Inr ec" "new_with_pool V A ec P s = (Inr en0, P1, s')"
    "add_decryption_keys V (px_decryption_keys c) en0 P1 = (Inr en, P')"
    "pe' = pe\<lparr>pe_engine := Some en, pe_encrypted_queues := px_encrypted_queues c\<rparr>"
    "payload_encryption_validate c = Inr ()"
  using assms(1,2)
  by (auto simp: apply_encryption_config_def split: sum.splits if_splits prod.splits intro: that)

end
