(* ===== verification/ConfigSave.thy ===== *)
theory ConfigSave
  imports Config
begin

text \<open>
  \<open>HammerworkConfig::save_to_file\<close> of \<open>src/src/config.rs\<close>: the configuration is written to a
  temporary file that is renamed over the target. The TOML writer and the failures of the file
  system are parameters; the definition returns, with the result, the files after each call of the
  operating system, so that a crash between two calls is one of these states. Renaming within a
  directory replaces the target in one step.
\<close>

subsection \<open>Files\<close>

record stored_file =
  fi_content :: string
  fi_mode :: nat

type_synonym files = "string \<rightharpoonup> stored_file"

text \<open>\<open>Path::file_name\<close> and the directory before it: trailing slashes and \<open>/.\<close> do not count.\<close>

fun strip_end :: "string \<Rightarrow> string" where
  "strip_end (a # b # r) =
     (if a = CHR ''/'' then strip_end (b # r)
      else if a = CHR ''.'' \<and> b = CHR ''/'' then strip_end (b # r)
      else a # b # r)"
| "strip_end r = r"

definition path_parts :: "string \<Rightarrow> string \<times> string" where
  "path_parts path =
     (let r = strip_end (rev path); name = rev (takeWhile (\<lambda>c. c \<noteq> CHR ''/'') r) in
      (rev (dropWhile (\<lambda>c. c \<noteq> CHR ''/'') r), name))"

definition file_name :: "string \<Rightarrow> string option" where
  "file_name path = (let name = snd (path_parts path) in if name \<in> {[], ''.'', ''..''} then None else Some name)"

definition with_file_name :: "string \<Rightarrow> string \<Rightarrow> string" where
  "with_file_name path name = fst (path_parts path) @ name"

text \<open>What may go wrong: opening, writing (after some characters), syncing, renaming, removing.\<close>

record save_faults =
  sf_open :: "string option"
  sf_write :: "(nat \<times> string) option"
  sf_sync :: "string option"
  sf_rename :: "string option"
  sf_remove :: "string option"

text \<open>The steps inside the closure: open a new file, write, sync, rename.\<close>

definition write_and_rename :: "save_faults \<Rightarrow> string \<Rightarrow> string \<Rightarrow> string \<Rightarrow> files \<Rightarrow> (string + unit) \<times> files list" where
  "write_and_rename F content temp target fs =
     (case (sf_open F, fs temp) of
        (Some e, _) \<Rightarrow> (Inl e, [])
      | (None, Some f) \<Rightarrow> (Inl ''File exists'', [])
      | (None, None) \<Rightarrow>
          (let opened = fs(temp \<mapsto> \<lparr>fi_content = [], fi_mode = 0x180\<rparr>) in
           case sf_write F of
             Some (n, e) \<Rightarrow> (Inl e, [opened, fs(temp \<mapsto> \<lparr>fi_content = take n content, fi_mode = 0x180\<rparr>)])
           | None \<Rightarrow>
               (let written = fs(temp \<mapsto> \<lparr>fi_content = content, fi_mode = 0x180\<rparr>) in
                case sf_sync F of
                  Some e \<Rightarrow> (Inl e, [opened, written])
                | None \<Rightarrow>
                    (case sf_rename F of
                       Some e \<Rightarrow> (Inl e, [opened, written])
                     | None \<Rightarrow> (Inr (), [opened, written, written(temp := None, target := written temp)])))))"

definition save_to_file ::
  "(hammerwork_config \<Rightarrow> hammerwork_error + string) \<Rightarrow> string \<Rightarrow> save_faults \<Rightarrow> string \<Rightarrow> hammerwork_config \<Rightarrow> files \<Rightarrow> unit res \<times> files list" where
  "save_to_file to_toml uuid F path c fs =
     (case to_toml c of
        Inl e \<Rightarrow> (Inl e, [])
      | Inr content \<Rightarrow>
          (case file_name path of
             None \<Rightarrow> (Inl (ConfigError (''Invalid config path: '' @ path)), [])
           | Some name \<Rightarrow>
               (let temp = with_file_name path (''.'' @ name @ ''.'' @ uuid @ ''.tmp''); target = with_file_name path name in
                case write_and_rename F content temp target fs of
                  (Inr _, states) \<Rightarrow> (Inr (), states)
                | (Inl e, states) \<Rightarrow>
                    (Inl (IoError e),
                     if sf_remove F = None then states @ [(if states = [] then fs else List.last states)(temp := None)] else states))))"

subsection \<open>Saving is atomic\<close>

lemma temp_not_target: "with_file_name path (''.'' @ name @ ''.'' @ uuid @ ''.tmp'') \<noteq> with_file_name path name"
proof
  assume "with_file_name path (''.'' @ name @ ''.'' @ uuid @ ''.tmp'') = with_file_name path name"
  then have "length (''.'' @ name @ ''.'' @ uuid @ ''.tmp'') = length name" unfolding with_file_name_def by (metis same_append_eq)
  then show False by simp
qed

text \<open>What a state may look like on the way.\<close>

definition half_saved :: "string \<Rightarrow> string \<Rightarrow> string \<Rightarrow> files \<Rightarrow> files \<Rightarrow> bool" where
  "half_saved content temp target fs fs' \<longleftrightarrow>
     (fs' target = fs target \<or> fs' target = Some \<lparr>fi_content = content, fi_mode = 0x180\<rparr>)
     \<and> (\<forall>p. p \<noteq> target \<and> p \<noteq> temp \<longrightarrow> fs' p = fs p)"

lemma write_and_rename_states:
  assumes "write_and_rename F content temp target fs = (r, states)" "temp \<noteq> target"
  shows "list_all (half_saved content temp target fs) states"
    "r = Inr u \<Longrightarrow> states \<noteq> [] \<and> List.last states temp = None \<and> List.last states target = Some \<lparr>fi_content = content, fi_mode = 0x180\<rparr>"
    "r = Inl e \<Longrightarrow> list_all (\<lambda>fs'. fs' target = fs target) states"
  using assms by (auto simp: write_and_rename_def Let_def half_saved_def split: option.splits)

lemma remove_temp_states:
  assumes "list_all (half_saved content temp target fs) states" "list_all (\<lambda>fs'. fs' target = fs target) states" "temp \<noteq> target"
    and "fs' = (if states = [] then fs else List.last states)(temp := None)"
  shows "half_saved content temp target fs fs' \<and> fs' target = fs target"
proof (cases "states = []")
  case False
  then have "List.last states \<in> set states" by simp
  then show ?thesis using assms False by (auto simp: list_all_iff half_saved_def)
qed (use assms in \<open>simp add: half_saved_def\<close>)

text \<open>
  C25: Saving a configuration is all or nothing. In every state the file system goes through, also
  where it is cut off by a crash or an error, the target is as it was or has the whole new
  configuration, readable by its owner only, and no file but the target and the temporary one is
  touched. When saving reports success the target has the new configuration and the temporary file
  is gone; when it reports an error the target is as it was.
\<close>
theorem save_to_file_atomic:
  assumes "save_to_file to_toml uuid F path c fs = (r, states)" and "file_name path = Some name"
    and "target = with_file_name path name" and "temp = with_file_name path (''.'' @ name @ ''.'' @ uuid @ ''.tmp'')"
  shows "list_all (\<lambda>fs'. (fs' target = fs target \<or> (\<exists>content. to_toml c = Inr content \<and> fs' target = Some \<lparr>fi_content = content, fi_mode = 0x180\<rparr>))
        \<and> (\<forall>p. p \<noteq> target \<and> p \<noteq> temp \<longrightarrow> fs' p = fs p)) states
    \<and> (case r of
         Inr _ \<Rightarrow> states \<noteq> [] \<and> List.last states temp = None
           \<and> (\<exists>content. to_toml c = Inr content \<and> List.last states target = Some \<lparr>fi_content = content, fi_mode = 0x180\<rparr>)
       | Inl e \<Rightarrow> list_all (\<lambda>fs'. fs' target = fs target) states)"
proof (cases "to_toml c")
  case (Inl e)
  then show ?thesis using assms(1) by (auto simp: save_to_file_def)
next
  case (Inr content)
  have ne: "temp \<noteq> target" using temp_not_target assms(3,4) by simp
  obtain w ss where w: "write_and_rename F content temp target fs = (w, ss)" by fastforce
  note steps = write_and_rename_states [OF w ne]
  have half: "list_all (\<lambda>fs'. (fs' target = fs target \<or> (\<exists>content. to_toml c = Inr content \<and> fs' target = Some \<lparr>fi_content = content, fi_mode = 0x180\<rparr>))
        \<and> (\<forall>p. p \<noteq> target \<and> p \<noteq> temp \<longrightarrow> fs' p = fs p)) xs" if "list_all (half_saved content temp target fs) xs" for xs
    using that Inr by (auto simp: half_saved_def list_all_iff)
  show ?thesis
  proof (cases w)
    case (Inr u)
    then have "r = Inr () \<and> states = ss" using assms w \<open>to_toml c = Inr content\<close> by (simp add: save_to_file_def Let_def)
    then show ?thesis using half [OF steps(1)] steps(2) [OF Inr] \<open>to_toml c = Inr content\<close> by simp
  next
    case (Inl e)
    let ?fs' = "(if ss = [] then fs else List.last ss)(temp := None)"
    have r: "r = Inl (IoError e) \<and> states = (if sf_remove F = None then ss @ [?fs'] else ss)"
      using assms w Inl \<open>to_toml c = Inr content\<close> by (auto simp: save_to_file_def Let_def)
    note removed = remove_temp_states [OF steps(1) steps(3) [OF Inl] ne refl]
    have "list_all (half_saved content temp target fs) states" "list_all (\<lambda>fs'. fs' target = fs target) states"
      using r steps(1) steps(3) [OF Inl] removed by simp_all
    then show ?thesis using r half by simp
  qed
qed

lemma save_to_file_witness:
  "\<exists>states. save_to_file (\<lambda>c. Inr ''x = 1'') ''0a'' \<lparr>sf_open = None, sf_write = Some (3, ''disk full''), sf_sync = None, sf_rename = None, sf_remove = None\<rparr>
       ''etc/app.toml'' hammerwork_config_default [''etc/app.toml'' \<mapsto> \<lparr>fi_content = ''old'', fi_mode = 0x1A4\<rparr>] = (Inl (IoError ''disk full''), states)
     \<and> List.last states ''etc/app.toml'' = Some \<lparr>fi_content = ''old'', fi_mode = 0x1A4\<rparr>"
proof -
  let ?F = "\<lparr>sf_open = None, sf_write = Some (3, ''disk full''), sf_sync = None, sf_rename = None, sf_remove = None\<rparr>"
    and ?fs = "[''etc/app.toml'' \<mapsto> \<lparr>fi_content = ''old'', fi_mode = 0x1A4\<rparr>]"
  have name: "file_name ''etc/app.toml'' = Some ''app.toml''" "with_file_name ''etc/app.toml'' ''app.toml'' = ''etc/app.toml''"
    by (simp_all add: file_name_def with_file_name_def path_parts_def)
  obtain states where saved: "save_to_file (\<lambda>c. Inr ''x = 1'') ''0a'' ?F ''etc/app.toml'' hammerwork_config_default ?fs = (Inl (IoError ''disk full''), states)"
    "states \<noteq> []"
    using name by (simp add: save_to_file_def write_and_rename_def with_file_name_def path_parts_def Let_def)
  have "list_all (\<lambda>fs'. fs' ''etc/app.toml'' = ?fs ''etc/app.toml'') states"
    using save_to_file_atomic [OF saved(1) name(1) name(2) [symmetric] refl] by simp
  then show ?thesis using saved by (auto simp: list_all_iff)
qed

end
