(* ===== verification/WebAuth.thy ===== *)
theory WebAuth
  imports JobSeal ConfigText
begin

text \<open>
  Logins of the web dashboard: \<open>src/hammerwork-web/src/auth.rs\<close>. Basic authentication against a
  bcrypt hash, the cache of verified credentials and the lockout after repeated failures. The HMAC, bcrypt and base64 are parameters. Instants are natural numbers of
  nanoseconds, whose difference is zero when it would be negative, as \<open>duration_since\<close> has it.
  A check releases its locks between its parts, so requests are steps of a system in which many
  of them are under way at once.
\<close>

subsection \<open>State\<close>

record auth_config =
  au_enabled :: bool
  au_username :: string
  au_password_hash :: string
  au_session_timeout :: duration
  au_max_failed_attempts :: nat
  au_lockout_duration :: duration

definition auth_config_default :: auth_config where
  "auth_config_default =
     \<lparr>au_enabled = True, au_username = ''admin'', au_password_hash = [], au_session_timeout = 8 * 60 * 60 * 10 ^ 9,
      au_max_failed_attempts = 5, au_lockout_duration = 15 * 60 * 10 ^ 9\<rparr>"

text \<open>Parameters: HMAC-SHA256, bcrypt, base64, and whether the build has the \<open>auth\<close> feature.\<close>

record auth_env =
  ae_hmac :: "bytes \<Rightarrow> bytes \<Rightarrow> bytes"
  ae_bcrypt_verify :: "string \<Rightarrow> string \<Rightarrow> string + bool"
  ae_base64_decode :: "string \<Rightarrow> string + bytes"
  ae_feature :: bool

definition MAX_TRACKED_CLIENTS :: nat where
  "MAX_TRACKED_CLIENTS = 10000"

definition VERIFIED_CREDENTIALS_TTL :: duration where
  "VERIFIED_CREDENTIALS_TTL = 60 * 10 ^ 9"

definition MAX_VERIFIED_CREDENTIALS :: nat where
  "MAX_VERIFIED_CREDENTIALS = 64"

text \<open>An IPv4 address as a number, an IPv6 address as its eight segments.\<close>

datatype ip_addr = V4 nat | V6 "nat list"

record attempt_key =
  ak_client :: "ip_addr option"
  ak_configured_user :: bool

record failures =
  fl_count :: nat
  fl_last :: nat

datatype auth_verdict = Accepted | Rejected | LockedOut

record auth_state =
  as_config :: auth_config
  as_key :: bytes
  as_username_digest :: bytes
  as_failed :: "(attempt_key \<times> failures) list"
  as_verified :: "(bytes \<times> nat) list"

definition keyed_digest :: "auth_env \<Rightarrow> bytes \<Rightarrow> bytes list \<Rightarrow> bytes" where
  "keyed_digest E key parts = ae_hmac E key (foldl push_bytes [] parts)"

fun to_canonical :: "ip_addr \<Rightarrow> ip_addr" where
  "to_canonical (V4 a) = V4 a"
| "to_canonical (V6 s) = (if take 6 s = [0, 0, 0, 0, 0, 0xFFFF] then V4 (s ! 6 * 2 ^ 16 + s ! 7) else V6 s)"

definition client_key :: "ip_addr \<Rightarrow> ip_addr" where
  "client_key addr = (case to_canonical addr of V6 s \<Rightarrow> V6 (take 4 s @ replicate (length s - 4) 0) | v4 \<Rightarrow> v4)"

definition auth_new :: "auth_env \<Rightarrow> bytes \<Rightarrow> auth_config \<Rightarrow> auth_state" where
  "auth_new E key config =
     \<lparr>as_config = config, as_key = key, as_username_digest = keyed_digest E key [''username'', au_username config],
      as_failed = [], as_verified = []\<rparr>"

definition username_matches :: "auth_env \<Rightarrow> auth_state \<Rightarrow> string \<Rightarrow> bool" where
  "username_matches E S username \<longleftrightarrow> keyed_digest E (as_key S) [''username'', username] = as_username_digest S"

definition attempt_key_of :: "auth_env \<Rightarrow> auth_state \<Rightarrow> ip_addr option \<Rightarrow> string \<Rightarrow> attempt_key" where
  "attempt_key_of E S client username =
     \<lparr>ak_client = map_option client_key client, ak_configured_user = username_matches E S username\<rparr>"

definition key_locked_out :: "nat \<Rightarrow> attempt_key \<Rightarrow> auth_state \<Rightarrow> bool" where
  "key_locked_out now key S =
     is_some_and (map_of (as_failed S) key)
       (\<lambda>f. au_max_failed_attempts (as_config S) \<le> fl_count f \<and> now - fl_last f < au_lockout_duration (as_config S))"

definition credentials_digest :: "auth_env \<Rightarrow> auth_state \<Rightarrow> string \<Rightarrow> string \<Rightarrow> bytes" where
  "credentials_digest E S username password = keyed_digest E (as_key S) [''credentials'', username, password]"

definition recently_verified :: "nat \<Rightarrow> bytes \<Rightarrow> auth_state \<Rightarrow> bool \<times> auth_state" where
  "recently_verified now credentials S =
     (case map_of (as_verified S) credentials of
        Some expires \<Rightarrow> if now < expires then (True, S) else (False, S\<lparr>as_verified := AList.delete credentials (as_verified S)\<rparr>)
      | None \<Rightarrow> (False, S))"

definition verify_password :: "auth_env \<Rightarrow> auth_state \<Rightarrow> string \<Rightarrow> bool" where
  "verify_password E S password \<longleftrightarrow>
     au_password_hash (as_config S) \<noteq> [] \<and> ae_feature E \<and> ae_bcrypt_verify E password (au_password_hash (as_config S)) = Inr True"

definition verified_ttl :: "auth_state \<Rightarrow> duration" where
  "verified_ttl S = min VERIFIED_CREDENTIALS_TTL (au_session_timeout (as_config S))"

definition remember_verified :: "nat \<Rightarrow> bytes \<Rightarrow> auth_state \<Rightarrow> auth_state" where
  "remember_verified now credentials S =
     (if verified_ttl S = 0 then S
      else
        (let verified = as_verified S;
             verified = (if MAX_VERIFIED_CREDENTIALS \<le> length verified then
                           (let alive = filter (\<lambda>(_, expires). now < expires) verified in
                            if MAX_VERIFIED_CREDENTIALS \<le> length alive then [] else alive)
                         else verified) in
         S\<lparr>as_verified := AList.update credentials (now + verified_ttl S) verified\<rparr>))"

definition alive_failures :: "nat \<Rightarrow> duration \<Rightarrow> (attempt_key \<times> failures) list \<Rightarrow> (attempt_key \<times> failures) list" where
  "alive_failures now lockout attempts = filter (\<lambda>(_, f). now - fl_last f < lockout) attempts"

definition make_room :: "nat \<Rightarrow> attempt_key \<Rightarrow> duration \<Rightarrow> (attempt_key \<times> failures) list \<Rightarrow> (attempt_key \<times> failures) list" where
  "make_room now key lockout attempts =
     (if map_of attempts key = None \<and> MAX_TRACKED_CLIENTS \<le> length attempts then
        (let alive = alive_failures now lockout attempts in
         if MAX_TRACKED_CLIENTS \<le> length alive then
           (case min_by_key (\<lambda>(_, f). fl_last f) alive of Some (stalest, _) \<Rightarrow> AList.delete stalest alive | None \<Rightarrow> alive)
         else alive)
      else attempts)"

definition record_failed_attempt :: "nat \<Rightarrow> attempt_key \<Rightarrow> auth_state \<Rightarrow> auth_state" where
  "record_failed_attempt now key S =
     (let lockout = au_lockout_duration (as_config S); attempts = make_room now key lockout (as_failed S);
          f = unwrap_or (map_of attempts key) \<lparr>fl_count = 0, fl_last = now\<rparr>;
          count = (if lockout \<le> now - fl_last f then 0 else fl_count f) in
      S\<lparr>as_failed := AList.update key \<lparr>fl_count = min (count + 1) u32_max, fl_last = now\<rparr> attempts\<rparr>)"

definition clear_failed_attempts :: "attempt_key \<Rightarrow> auth_state \<Rightarrow> auth_state" where
  "clear_failed_attempts key S = S\<lparr>as_failed := AList.delete key (as_failed S)\<rparr>"

definition cleanup_expired_attempts :: "nat \<Rightarrow> auth_state \<Rightarrow> auth_state" where
  "cleanup_expired_attempts now S =
     S\<lparr>as_failed := alive_failures now (au_lockout_duration (as_config S)) (as_failed S),
       as_verified := filter (\<lambda>(_, expires). now < expires) (as_verified S)\<rparr>"

subsection \<open>Checking credentials\<close>

text \<open>The part of \<open>check\<close> that looks into the cache, and the part after bcrypt.\<close>

definition check_cache :: "auth_env \<Rightarrow> nat \<Rightarrow> attempt_key \<Rightarrow> string \<Rightarrow> string \<Rightarrow> auth_state \<Rightarrow> auth_verdict option \<times> auth_state" where
  "check_cache E now key username password S =
     (case recently_verified now (credentials_digest E S username password) S of
        (True, S') \<Rightarrow> (Some Accepted, clear_failed_attempts key S')
      | (False, S') \<Rightarrow> (None, S'))"

definition check_password :: "auth_env \<Rightarrow> nat \<Rightarrow> attempt_key \<Rightarrow> string \<Rightarrow> string \<Rightarrow> auth_state \<Rightarrow> auth_verdict \<times> auth_state" where
  "check_password E now key username password S =
     (if ak_configured_user key \<and> verify_password E S password then
        (Accepted, clear_failed_attempts key (remember_verified now (credentials_digest E S username password) S))
      else (Rejected, record_failed_attempt now key S))"

text \<open>A check that nothing interrupts; each part reads the time.\<close>

definition auth_check ::
  "auth_env \<Rightarrow> nat \<Rightarrow> nat \<Rightarrow> nat \<Rightarrow> ip_addr option \<Rightarrow> string \<Rightarrow> string \<Rightarrow> auth_state \<Rightarrow> auth_verdict \<times> auth_state" where
  "auth_check E t1 t2 t3 client username password S =
     (if \<not> au_enabled (as_config S) then (Accepted, S)
      else
        (let key = attempt_key_of E S client username in
         if key_locked_out t1 key S then (LockedOut, S)
         else
           (case check_cache E t2 key username password S of
              (Some v, S') \<Rightarrow> (v, S')
            | (None, S') \<Rightarrow> check_password E t3 key username password S')))"

definition extract_basic_auth :: "auth_env \<Rightarrow> string \<Rightarrow> (string \<times> string) option" where
  "extract_basic_auth E auth_header =
     (if \<not> prefix ''Basic '' auth_header then None
      else (case ae_base64_decode E (drop 6 auth_header) of Inl _ \<Rightarrow> None | Inr decoded \<Rightarrow> split_once '':'' decoded))"

datatype auth_error = MissingCredentials | InvalidFormat | InvalidCredentials | AccountLocked

definition auth_filter ::
  "auth_env \<Rightarrow> nat \<Rightarrow> nat \<Rightarrow> nat \<Rightarrow> string option \<Rightarrow> ip_addr option \<Rightarrow> auth_state \<Rightarrow> (auth_error + unit) \<times> auth_state" where
  "auth_filter E t1 t2 t3 auth_header remote S =
     (if \<not> au_enabled (as_config S) then (Inr (), S)
      else
        (case auth_header of
           None \<Rightarrow> (Inl MissingCredentials, S)
         | Some h \<Rightarrow>
             (case extract_basic_auth E h of
                None \<Rightarrow> (Inl InvalidFormat, S)
              | Some (username, password) \<Rightarrow>
                  (case auth_check E t1 t2 t3 remote username password S of
                     (Accepted, S') \<Rightarrow> (Inr (), S')
                   | (Rejected, S') \<Rightarrow> (Inl InvalidCredentials, S')
                   | (LockedOut, S') \<Rightarrow> (Inl AccountLocked, S')))))"

subsection \<open>Requests under way\<close>

text \<open>
  A request that passed the lockout check; \<open>rq_uncached\<close> when the cache was asked and bcrypt runs.
  Text of a request has fewer than \<open>2 ^ 64\<close> bytes.
\<close>

record request =
  rq_key :: attempt_key
  rq_username :: string
  rq_password :: string
  rq_uncached :: bool

record auth_system =
  ay_state :: auth_state
  ay_now :: nat
  ay_open :: "request list"
  ay_answers :: "(request \<times> auth_verdict) list"

definition drop_nth :: "nat \<Rightarrow> 'a list \<Rightarrow> 'a list" where
  "drop_nth i xs = take i xs @ drop (Suc i) xs"

inductive auth_step :: "auth_env \<Rightarrow> auth_system \<Rightarrow> auth_system \<Rightarrow> bool" for E where
  tick: "ay_now y \<le> t \<Longrightarrow> auth_step E y (y\<lparr>ay_now := t\<rparr>)"
| cleanup: "auth_step E y (y\<lparr>ay_state := cleanup_expired_attempts (ay_now y) (ay_state y)\<rparr>)"
| arrive: "au_enabled (as_config (ay_state y)) \<Longrightarrow> fits u \<Longrightarrow> fits p \<Longrightarrow> key = attempt_key_of E (ay_state y) client u \<Longrightarrow>
    \<not> key_locked_out (ay_now y) key (ay_state y) \<Longrightarrow>
    auth_step E y (y\<lparr>ay_open := \<lparr>rq_key = key, rq_username = u, rq_password = p, rq_uncached = False\<rparr> # ay_open y\<rparr>)"
| refuse: "au_enabled (as_config (ay_state y)) \<Longrightarrow> fits u \<Longrightarrow> fits p \<Longrightarrow> key = attempt_key_of E (ay_state y) client u \<Longrightarrow>
    key_locked_out (ay_now y) key (ay_state y) \<Longrightarrow>
    auth_step E y (y\<lparr>ay_answers := (\<lparr>rq_key = key, rq_username = u, rq_password = p, rq_uncached = False\<rparr>, LockedOut) # ay_answers y\<rparr>)"
| cache_hit: "i < length (ay_open y) \<Longrightarrow> r = ay_open y ! i \<Longrightarrow> \<not> rq_uncached r \<Longrightarrow>
    check_cache E (ay_now y) (rq_key r) (rq_username r) (rq_password r) (ay_state y) = (Some v, S') \<Longrightarrow>
    auth_step E y (y\<lparr>ay_state := S', ay_open := drop_nth i (ay_open y), ay_answers := (r, v) # ay_answers y\<rparr>)"
| cache_miss: "i < length (ay_open y) \<Longrightarrow> r = ay_open y ! i \<Longrightarrow> \<not> rq_uncached r \<Longrightarrow>
    check_cache E (ay_now y) (rq_key r) (rq_username r) (rq_password r) (ay_state y) = (None, S') \<Longrightarrow>
    auth_step E y (y\<lparr>ay_state := S', ay_open := (ay_open y)[i := r\<lparr>rq_uncached := True\<rparr>]\<rparr>)"
| finish: "i < length (ay_open y) \<Longrightarrow> r = ay_open y ! i \<Longrightarrow> rq_uncached r \<Longrightarrow>
    check_password E (ay_now y) (rq_key r) (rq_username r) (rq_password r) (ay_state y) = (v, S') \<Longrightarrow>
    auth_step E y (y\<lparr>ay_state := S', ay_open := drop_nth i (ay_open y), ay_answers := (r, v) # ay_answers y\<rparr>)"

definition auth_system_new :: "auth_env \<Rightarrow> bytes \<Rightarrow> auth_config \<Rightarrow> auth_system" where
  "auth_system_new E key config = \<lparr>ay_state = auth_new E key config, ay_now = 0, ay_open = [], ay_answers = []\<rparr>"

subsection \<open>Only the password opens the door\<close>

text \<open>The HMAC as a collision-free function of its message.\<close>

definition hmac_collision_free :: "auth_env \<Rightarrow> bool" where
  "hmac_collision_free E \<longleftrightarrow> (\<forall>k m m'. ae_hmac E k m = ae_hmac E k m' \<longrightarrow> m = m')"

lemma keyed_digest_inj:
  assumes "hmac_collision_free E" "length xs = length ys" "list_all fits xs" "list_all fits ys"
  shows "keyed_digest E k xs = keyed_digest E k ys \<longleftrightarrow> xs = ys"
proof
  assume "keyed_digest E k xs = keyed_digest E k ys"
  then have "foldl push_bytes [] xs = foldl push_bytes [] ys"
    using assms(1) unfolding hmac_collision_free_def keyed_digest_def by blast
  then show "xs = ys" using items_inj [OF assms(2-4), of "[]" "[]"] by (simp add: push_bytes_append)
qed simp

lemma fits_labels [simp]: "fits ''username''" "fits ''credentials''"
  by (simp_all add: fits_def)

definition right_credentials :: "auth_env \<Rightarrow> auth_state \<Rightarrow> string \<Rightarrow> string \<Rightarrow> bool" where
  "right_credentials E S u p \<longleftrightarrow> u = au_username (as_config S) \<and> verify_password E S p"

text \<open>What a check never changes.\<close>

definition same_setup :: "auth_state \<Rightarrow> auth_state \<Rightarrow> bool" where
  "same_setup S S' \<longleftrightarrow> as_config S' = as_config S \<and> as_key S' = as_key S \<and> as_username_digest S' = as_username_digest S"

lemma same_setupD:
  assumes "same_setup S S'"
  shows "right_credentials E S' = right_credentials E S" "credentials_digest E S' = credentials_digest E S"
    "username_matches E S' = username_matches E S" "verify_password E S' = verify_password E S"
  using assms by (auto simp: same_setup_def right_credentials_def verify_password_def credentials_digest_def username_matches_def fun_eq_iff)

lemma same_setup_ops [simp]:
  "same_setup S S" "same_setup S (clear_failed_attempts key S)" "same_setup S (record_failed_attempt now key S)"
  "same_setup S (cleanup_expired_attempts now S)" "same_setup S (remember_verified now d S)"
  by (simp_all add: same_setup_def clear_failed_attempts_def record_failed_attempt_def cleanup_expired_attempts_def remember_verified_def Let_def)

lemma same_setup_trans [trans]: "same_setup S S' \<Longrightarrow> same_setup S' S'' \<Longrightarrow> same_setup S S''"
  by (simp add: same_setup_def)

lemma same_setup_check:
  "check_cache E now key u p S = (v, S') \<Longrightarrow> same_setup S S'" "check_password E now key u p S = (w, S') \<Longrightarrow> same_setup S S'"
  using same_setup_trans [OF same_setup_ops(5,2)]
  by (auto simp: check_cache_def recently_verified_def check_password_def split: option.splits if_splits prod.splits bool.splits)
    (auto simp: same_setup_def clear_failed_attempts_def)

lemma keys_update: "fst ` set (AList.update k v al) = insert k (fst ` set al)"
  by (induction al) auto

lemma delete_subset: "set (AList.delete k al) \<subseteq> set al"
  by (induction al) auto

text \<open>Only right credentials are remembered.\<close>

definition cache_right :: "auth_env \<Rightarrow> auth_state \<Rightarrow> bool" where
  "cache_right E S \<longleftrightarrow>
     (\<forall>d \<in> set (map fst (as_verified S)). \<exists>u p. fits u \<and> fits p \<and> d = credentials_digest E S u p \<and> right_credentials E S u p)"

lemma cache_right_less:
  assumes "cache_right E S" "same_setup S S'" "set (map fst (as_verified S')) \<subseteq> set (map fst (as_verified S))"
  shows "cache_right E S'"
  using assms(1,3) unfolding cache_right_def same_setupD [OF assms(2)] by blast

lemma remember_right:
  assumes "cache_right E S" "fits u" "fits p" "right_credentials E S u p"
  shows "cache_right E (remember_verified now (credentials_digest E S u p) S)"
proof -
  let ?S' = "remember_verified now (credentials_digest E S u p) S"
  have "set (map fst (as_verified ?S')) \<subseteq> insert (credentials_digest E S u p) (set (map fst (as_verified S)))"
    by (auto simp: remember_verified_def Let_def keys_update split: if_splits)
  then show ?thesis
    using assms unfolding cache_right_def same_setupD [OF same_setup_ops(5) [of S now "credentials_digest E S u p"]] by blast
qed

lemma check_cache_right:
  assumes "hmac_collision_free E" "cache_right E S" "fits u" "fits p" "check_cache E now key u p S = (v, S')"
  shows "cache_right E S' \<and> (v = Some Accepted \<longrightarrow> right_credentials E S u p) \<and> (v = Some w \<longrightarrow> w = Accepted)"
proof -
  have "set (map fst (as_verified S')) \<subseteq> set (map fst (as_verified S))"
    using assms(5)
    by (auto simp: check_cache_def recently_verified_def clear_failed_attempts_def split: option.splits if_splits)
      (use delete_subset in \<open>fastforce intro: rev_image_eqI\<close>)
  then have "cache_right E S'" using cache_right_less [OF assms(2) same_setup_check(1) [OF assms(5)]] by blast
  moreover have "right_credentials E S u p" if "v = Some Accepted"
  proof -
    have "credentials_digest E S u p \<in> set (map fst (as_verified S))"
      using assms(5) that
      by (auto simp: check_cache_def recently_verified_def split: option.splits if_splits) (force dest: map_of_SomeD)
    then obtain u' p' where c: "fits u'" "fits p'" "credentials_digest E S u p = credentials_digest E S u' p'" "right_credentials E S u' p'"
      using assms(2) by (auto simp: cache_right_def)
    then have "[''credentials'', u, p] = [''credentials'', u', p']"
      using keyed_digest_inj [OF assms(1), of "[''credentials'', u, p]" "[''credentials'', u', p']" "as_key S"] assms(3,4)
      by (simp add: credentials_digest_def)
    then show ?thesis using c(4) by simp
  qed
  moreover have "v = Some w \<longrightarrow> w = Accepted"
    using assms(5) by (auto simp: check_cache_def recently_verified_def split: option.splits if_splits)
  ultimately show ?thesis by blast
qed

lemma username_matches_iff:
  assumes "hmac_collision_free E" "fits u" "fits (au_username (as_config S))"
    "as_username_digest S = keyed_digest E (as_key S) [''username'', au_username (as_config S)]"
  shows "username_matches E S u \<longleftrightarrow> u = au_username (as_config S)"
  using keyed_digest_inj [OF assms(1), of "[''username'', u]" "[''username'', au_username (as_config S)]" "as_key S"] assms(2-4)
  by (simp add: username_matches_def)

definition login_inv :: "auth_env \<Rightarrow> auth_system \<Rightarrow> bool" where
  "login_inv E y \<longleftrightarrow>
     (let S = ay_state y in
      as_username_digest S = keyed_digest E (as_key S) [''username'', au_username (as_config S)] \<and> cache_right E S
      \<and> (\<forall>r \<in> set (ay_open y). ak_configured_user (rq_key r) = username_matches E S (rq_username r)
           \<and> fits (rq_username r) \<and> fits (rq_password r))
      \<and> (\<forall>(r, v) \<in> set (ay_answers y). v = Accepted \<longrightarrow> right_credentials E S (rq_username r) (rq_password r)))"

lemma drop_nth_set: "set (drop_nth i xs) \<subseteq> set xs"
  by (auto simp: drop_nth_def dest: in_set_takeD in_set_dropD)

text \<open>A step that keeps the setup keeps the invariant if it keeps the cache and answers rightly.\<close>

lemma login_inv_step:
  assumes "login_inv E y" "same_setup (ay_state y) (ay_state y')" "cache_right E (ay_state y')"
    "\<forall>r \<in> set (ay_open y'). \<exists>r0 \<in> set (ay_open y). rq_key r = rq_key r0 \<and> rq_username r = rq_username r0 \<and> rq_password r = rq_password r0"
    "\<forall>(r, v) \<in> set (ay_answers y') - set (ay_answers y). v = Accepted \<longrightarrow> right_credentials E (ay_state y) (rq_username r) (rq_password r)"
  shows "login_inv E y'"
proof -
  note same = same_setupD [OF assms(2), of E]
  have digest: "as_username_digest (ay_state y') = keyed_digest E (as_key (ay_state y')) [''username'', au_username (as_config (ay_state y'))]"
    using assms(1,2) by (simp add: login_inv_def same_setup_def Let_def)
  have "\<forall>r \<in> set (ay_open y'). ak_configured_user (rq_key r) = username_matches E (ay_state y) (rq_username r)
      \<and> fits (rq_username r) \<and> fits (rq_password r)"
    using assms(1,4) unfolding login_inv_def Let_def by metis
  moreover have "\<forall>(r, v) \<in> set (ay_answers y'). v = Accepted \<longrightarrow> right_credentials E (ay_state y) (rq_username r) (rq_password r)"
    using assms(1,5) unfolding login_inv_def Let_def by blast
  ultimately show ?thesis using digest assms(3) unfolding login_inv_def Let_def same by blast
qed

lemma login_inv_auth_step:
  assumes "auth_step E y y'" "hmac_collision_free E" "fits (au_username (as_config (ay_state y)))" "login_inv E y"
  shows "login_inv E y'"
  using assms(1)
proof cases
  case (tick t)
  then show ?thesis using assms(4) by (simp add: login_inv_def)
next
  case cleanup
  have "cache_right E (cleanup_expired_attempts (ay_now y) (ay_state y))"
    by (rule cache_right_less [OF _ same_setup_ops(4)]) (use assms(4) in \<open>auto simp: login_inv_def Let_def cleanup_expired_attempts_def\<close>)
  then show ?thesis using cleanup by (intro login_inv_step [OF assms(4)]) auto
next
  case (arrive u p key client)
  then show ?thesis using assms(4) by (auto simp: login_inv_def Let_def attempt_key_of_def)
next
  case (refuse u p key client)
  then show ?thesis using assms(4) by (auto simp: login_inv_def Let_def)
next
  case (cache_hit i r v S')
  then have r: "r \<in> set (ay_open y)" by simp
  have "cache_right E S' \<and> (v = Accepted \<longrightarrow> right_credentials E (ay_state y) (rq_username r) (rq_password r))"
    using check_cache_right [OF assms(2) _ _ _ cache_hit(5)] assms(4) r unfolding login_inv_def Let_def by blast
  then show ?thesis
    using cache_hit same_setup_check(1) [OF cache_hit(5)] drop_nth_set [of i "ay_open y"] by (intro login_inv_step [OF assms(4)]) auto
next
  case (cache_miss i r S')
  then have r: "r \<in> set (ay_open y)" by simp
  have "cache_right E S'"
    using check_cache_right [OF assms(2) _ _ _ cache_miss(5)] assms(4) r unfolding login_inv_def Let_def by blast
  then show ?thesis
    using cache_miss r same_setup_check(1) [OF cache_miss(5)]
    by (intro login_inv_step [OF assms(4)]) (auto dest!: set_update_subset_insert [THEN subsetD])
next
  case (finish i r v S')
  then have r: "r \<in> set (ay_open y)" by simp
  have inv: "cache_right E (ay_state y)" "fits (rq_username r)" "fits (rq_password r)"
    "ak_configured_user (rq_key r) = (rq_username r = au_username (as_config (ay_state y)))"
    using assms(4) r username_matches_iff [OF assms(2) _ assms(3)] unfolding login_inv_def Let_def by blast+
  have "cache_right E S' \<and> (v = Accepted \<longrightarrow> right_credentials E (ay_state y) (rq_username r) (rq_password r))"
  proof (cases "ak_configured_user (rq_key r) \<and> verify_password E (ay_state y) (rq_password r)")
    case True
    then have right: "right_credentials E (ay_state y) (rq_username r) (rq_password r)" using inv(4) by (simp add: right_credentials_def)
    have "S' = clear_failed_attempts (rq_key r)
        (remember_verified (ay_now y) (credentials_digest E (ay_state y) (rq_username r) (rq_password r)) (ay_state y))"
      using finish(5) True by (simp add: check_password_def)
    then show ?thesis
      using right cache_right_less [OF remember_right [OF inv(1-3) right] same_setup_ops(2)] by (simp add: clear_failed_attempts_def)
  next
    case False
    then have "S' = record_failed_attempt (ay_now y) (rq_key r) (ay_state y)" "v = Rejected"
      using finish(5) by (auto simp: check_password_def split: if_splits)
    then show ?thesis
      using cache_right_less [OF inv(1) same_setup_ops(3)] by (simp add: record_failed_attempt_def Let_def)
  qed
  then show ?thesis
    using finish same_setup_check(2) [OF finish(5)] drop_nth_set [of i "ay_open y"] by (intro login_inv_step [OF assms(4)]) auto
qed

lemma auth_step_setup: "auth_step E y y' \<Longrightarrow> same_setup (ay_state y) (ay_state y')"
  by (erule auth_step.cases) (auto dest: same_setup_check)

lemma auth_steps_setup: "(auth_step E)\<^sup>*\<^sup>* y y' \<Longrightarrow> same_setup (ay_state y) (ay_state y')"
  by (induction rule: rtranclp_induct) (auto dest: auth_step_setup intro: same_setup_trans)

text \<open>
  C27: Only the configured user with the right password is let in. However many requests are under
  way at once, from whatever addresses, whatever is remembered, cleaned up or locked out, a request
  that is accepted named the configured user and a password that bcrypt verifies against the
  configured hash; so nobody is let in when no hash is configured or the build cannot verify one.
\<close>
theorem only_right_credentials_accepted:
  assumes "hmac_collision_free E" and "fits (au_username config)" and "(auth_step E)\<^sup>*\<^sup>* (auth_system_new E key config) y"
    and "(r, Accepted) \<in> set (ay_answers y)"
  shows "rq_username r = au_username config \<and> au_password_hash config \<noteq> [] \<and> ae_feature E
    \<and> ae_bcrypt_verify E (rq_password r) (au_password_hash config) = Inr True"
proof -
  have start: "as_config (ay_state (auth_system_new E key config)) = config" by (simp add: auth_system_new_def auth_new_def)
  have "login_inv E (auth_system_new E key config)"
    by (simp add: login_inv_def auth_system_new_def auth_new_def cache_right_def)
  with assms(3) have "login_inv E y"
  proof (induction rule: rtranclp_induct)
    case (step y y')
    have "as_config (ay_state y) = config" using auth_steps_setup [OF step(1)] start by (simp add: same_setup_def)
    then show ?case using login_inv_auth_step [OF step(2) assms(1)] assms(2) step by simp
  qed
  moreover have "as_config (ay_state y) = config" using auth_steps_setup [OF assms(3)] start by (simp add: same_setup_def)
  ultimately show ?thesis
    using assms(4) by (auto simp: login_inv_def Let_def right_credentials_def verify_password_def)
qed

subsection \<open>Lockouts\<close>

definition rejections :: "attempt_key \<Rightarrow> auth_system \<Rightarrow> nat" where
  "rejections k y = length (filter (\<lambda>(r, v). rq_key r = k \<and> v = Rejected) (ay_answers y))"

definition acceptances :: "attempt_key \<Rightarrow> auth_system \<Rightarrow> nat" where
  "acceptances k y = length (filter (\<lambda>(r, v). rq_key r = k \<and> v = Accepted) (ay_answers y))"

definition open_of :: "attempt_key \<Rightarrow> auth_system \<Rightarrow> nat" where
  "open_of k y = length (filter (\<lambda>r. rq_key r = k) (ay_open y))"

lemma map_of_filter_value:
  "distinct (map fst al) \<Longrightarrow> map_of (filter (\<lambda>(_, v). P v) al) k = (case map_of al k of Some v \<Rightarrow> if P v then Some v else None | None \<Rightarrow> None)"
proof (induction al)
  case (Cons x al)
  have "map_of (filter (\<lambda>(_, v). P v) al) (fst x) = None" using Cons.prems by (auto simp: map_of_eq_None_iff)
  then show ?case using Cons by (cases x) auto
qed simp

lemma distinct_filter_fst: "distinct (map fst al) \<Longrightarrow> distinct (map fst (filter P al))"
  by (rule distinct_map_filter)

text \<open>Making room only ever forgets others, and keeps a table that has room.\<close>

lemma make_room_get:
  assumes "distinct (map fst al)"
  shows "map_of (make_room now key l al) k = map_of al k \<or> k \<noteq> key \<and> map_of (make_room now key l al) k = None"
proof (cases "map_of al key = None \<and> MAX_TRACKED_CLIENTS \<le> length al")
  case True
  have "map_of (alive_failures now l al) k = map_of al k \<or> map_of (alive_failures now l al) k = None"
    using map_of_filter_value [OF assms] by (auto simp: alive_failures_def split: option.splits)
  then show ?thesis using True by (cases "k = key") (auto simp: make_room_def Let_def split: option.splits)
qed (auto simp: make_room_def)

lemma make_room_size:
  assumes "distinct (map fst al)" "length al \<le> MAX_TRACKED_CLIENTS"
  shows "distinct (map fst (make_room now key l al))
    \<and> length (make_room now key l al) + (if map_of (make_room now key l al) key = None then 1 else 0) \<le> MAX_TRACKED_CLIENTS"
proof (cases "map_of al key = None \<and> MAX_TRACKED_CLIENTS \<le> length al")
  case True
  let ?alive = "alive_failures now l al"
  have d: "distinct (map fst ?alive)" using assms(1) by (simp add: alive_failures_def distinct_filter_fst)
  have len: "length ?alive \<le> MAX_TRACKED_CLIENTS" using assms(2) le_trans [OF length_filter_le] by (auto simp: alive_failures_def)
  show ?thesis
  proof (cases "MAX_TRACKED_CLIENTS \<le> length ?alive")
    case full: True
    then have "?alive \<noteq> []" by (auto simp: MAX_TRACKED_CLIENTS_def)
    then obtain st f where st: "min_by_key (\<lambda>(_, f). fl_last f) ?alive = Some (st, f)"
      by (cases "min_by_key (\<lambda>(_, f). fl_last f) ?alive") auto
    then have "(st, f) \<in> set ?alive" using min_by_key_Some by fast
    then have "length (AList.delete st ?alive) < length ?alive"
      unfolding AList.delete_eq by (rule length_filter_less) simp
    then show ?thesis using True full st d len by (simp add: make_room_def Let_def)
  qed (use True d in \<open>simp add: make_room_def Let_def\<close>)
qed (use assms in \<open>auto simp: make_room_def\<close>)

lemma length_update: "length (AList.update k v al) = length al + (if map_of al k = None then 1 else 0)"
  by (induction al) auto

text \<open>The count a failure starts from.\<close>

definition counted_failures :: "nat \<Rightarrow> attempt_key \<Rightarrow> auth_state \<Rightarrow> nat" where
  "counted_failures now key S =
     (case map_of (as_failed S) key of
        Some f \<Rightarrow> if au_lockout_duration (as_config S) \<le> now - fl_last f then 0 else fl_count f
      | None \<Rightarrow> 0)"

lemma record_failed_get:
  assumes "distinct (map fst (as_failed S))"
  shows "map_of (as_failed (record_failed_attempt now key S)) key = Some \<lparr>fl_count = min (counted_failures now key S + 1) u32_max, fl_last = now\<rparr>"
    "k \<noteq> key \<Longrightarrow> map_of (as_failed (record_failed_attempt now key S)) k \<in> {map_of (as_failed S) k, None}"
    "k \<noteq> key \<Longrightarrow> length (as_failed S) < MAX_TRACKED_CLIENTS \<Longrightarrow>
       map_of (as_failed (record_failed_attempt now key S)) k = map_of (as_failed S) k"
proof -
  have "map_of (make_room now key (au_lockout_duration (as_config S)) (as_failed S)) key = map_of (as_failed S) key"
    using make_room_get [OF assms] by blast
  then show "map_of (as_failed (record_failed_attempt now key S)) key = Some \<lparr>fl_count = min (counted_failures now key S + 1) u32_max, fl_last = now\<rparr>"
    by (cases "map_of (as_failed S) key") (simp_all add: record_failed_attempt_def Let_def counted_failures_def)
  show "map_of (as_failed (record_failed_attempt now key S)) k \<in> {map_of (as_failed S) k, None}" if "k \<noteq> key"
    using that make_room_get [OF assms, of now key "au_lockout_duration (as_config S)" k] by (auto simp: record_failed_attempt_def Let_def)
  show "map_of (as_failed (record_failed_attempt now key S)) k = map_of (as_failed S) k"
    if "k \<noteq> key" "length (as_failed S) < MAX_TRACKED_CLIENTS"
    using that by (simp add: record_failed_attempt_def Let_def make_room_def)
qed

text \<open>The tables stay tables, within their size, and count no more than the client failed.\<close>

definition tables_ok :: "auth_system \<Rightarrow> bool" where
  "tables_ok y \<longleftrightarrow>
     distinct (map fst (as_failed (ay_state y))) \<and> distinct (map fst (as_verified (ay_state y)))
     \<and> length (as_failed (ay_state y)) \<le> MAX_TRACKED_CLIENTS \<and> length (as_verified (ay_state y)) \<le> MAX_VERIFIED_CREDENTIALS
     \<and> (\<forall>k f. map_of (as_failed (ay_state y)) k = Some f \<longrightarrow> fl_count f \<le> rejections k y)"

lemma remember_tables:
  assumes "distinct (map fst (as_verified S))" "length (as_verified S) \<le> MAX_VERIFIED_CREDENTIALS"
  shows "distinct (map fst (as_verified (remember_verified now d S))) \<and> length (as_verified (remember_verified now d S)) \<le> MAX_VERIFIED_CREDENTIALS
    \<and> as_failed (remember_verified now d S) = as_failed S"
proof -
  have "MAX_VERIFIED_CREDENTIALS \<noteq> 0" by (simp add: MAX_VERIFIED_CREDENTIALS_def)
  then show ?thesis
    using assms by (auto simp: remember_verified_def Let_def length_update distinct_filter_fst)
qed

text \<open>What the parts of a check do to the table of failures.\<close>

lemma check_cache_failed:
  assumes "check_cache E now key u p S = (v, S')"
  shows "as_failed S' = (if v = None then as_failed S else AList.delete key (as_failed S))" "v = None \<or> v = Some Accepted"
    "distinct (map fst (as_verified S)) \<Longrightarrow> distinct (map fst (as_verified S'))"
    "length (as_verified S') \<le> length (as_verified S)"
  using assms length_delete_le
  by (auto simp: check_cache_def recently_verified_def clear_failed_attempts_def split: option.splits if_splits)

lemma check_password_failed:
  assumes "check_password E now key u p S = (v, S')"
  shows "v = Accepted \<and> as_failed S' = AList.delete key (as_failed S)
      \<and> as_verified S' = as_verified (remember_verified now (credentials_digest E S u p) S)
    \<or> v = Rejected \<and> S' = record_failed_attempt now key S"
  using assms by (auto simp: check_password_def clear_failed_attempts_def remember_verified_def Let_def split: if_splits)

lemma rejections_answer:
  "rejections k (y\<lparr>ay_state := S, ay_open := rs, ay_answers := (r, v) # ay_answers y\<rparr>) =
     rejections k y + (if rq_key r = k \<and> v = Rejected then 1 else 0)"
  "acceptances k (y\<lparr>ay_state := S, ay_open := rs, ay_answers := (r, v) # ay_answers y\<rparr>) =
     acceptances k y + (if rq_key r = k \<and> v = Accepted then 1 else 0)"
  "rejections k (y\<lparr>ay_answers := (r, LockedOut) # ay_answers y\<rparr>) = rejections k y"
  "acceptances k (y\<lparr>ay_answers := (r, LockedOut) # ay_answers y\<rparr>) = acceptances k y"
  "rejections k (y\<lparr>ay_state := S, ay_open := rs\<rparr>) = rejections k y" "rejections k (y\<lparr>ay_open := rs\<rparr>) = rejections k y"
  "rejections k (y\<lparr>ay_state := S\<rparr>) = rejections k y" "rejections k (y\<lparr>ay_now := t\<rparr>) = rejections k y"
  by (simp_all add: rejections_def acceptances_def)

lemma tables_ok_step:
  assumes "auth_step E y y'" "tables_ok y"
  shows "tables_ok y'"
  using assms(1)
proof cases
  case (tick t)
  then show ?thesis using assms(2) by (simp add: tables_ok_def rejections_answer)
next
  case cleanup
  have "map_of (alive_failures (ay_now y) l (as_failed (ay_state y))) k = Some f \<Longrightarrow> fl_count f \<le> rejections k y" for k f l
    using assms(2) map_of_filter_value [of "as_failed (ay_state y)"] by (auto simp: alive_failures_def tables_ok_def split: option.splits if_splits)
  then show ?thesis
    using cleanup assms(2)
    by (auto simp: tables_ok_def rejections_answer cleanup_expired_attempts_def alive_failures_def distinct_filter_fst
        intro: le_trans [OF length_filter_le])
next
  case (arrive u p key client)
  then show ?thesis using assms(2) by (simp add: tables_ok_def rejections_answer)
next
  case (refuse u p key client)
  then show ?thesis using assms(2) by (simp add: tables_ok_def rejections_answer)
next
  case (cache_hit i r v S')
  note f = check_cache_failed [OF cache_hit(5)]
  then show ?thesis
    using cache_hit(1) assms(2) le_trans [OF length_delete_le]
    by (auto simp: tables_ok_def rejections_answer split: if_splits)
next
  case (cache_miss i r S')
  note f = check_cache_failed [OF cache_miss(5)]
  then show ?thesis using cache_miss(1) assms(2) by (auto simp: tables_ok_def rejections_answer)
next
  case (finish i r v S')
  consider "v = Accepted" "as_failed S' = AList.delete (rq_key r) (as_failed (ay_state y))"
      "as_verified S' = as_verified (remember_verified (ay_now y) (credentials_digest E (ay_state y) (rq_username r) (rq_password r)) (ay_state y))"
    | "v = Rejected" "S' = record_failed_attempt (ay_now y) (rq_key r) (ay_state y)"
    using check_password_failed [OF finish(5)] by blast
  then show ?thesis
  proof cases
    case 1
    then show ?thesis
      using finish(1) assms(2) le_trans [OF length_delete_le] remember_tables
      by (auto simp: tables_ok_def rejections_answer split: if_splits)
  next
    case 2
    have d: "distinct (map fst (as_failed (ay_state y)))" "length (as_failed (ay_state y)) \<le> MAX_TRACKED_CLIENTS"
      using assms(2) by (simp_all add: tables_ok_def)
    have size: "distinct (map fst (as_failed S')) \<and> length (as_failed S') \<le> MAX_TRACKED_CLIENTS"
      using make_room_size [OF d] 2(2) by (auto simp: record_failed_attempt_def Let_def length_update)
    have cnt: "counted_failures (ay_now y) (rq_key r) (ay_state y) \<le> rejections (rq_key r) y"
      using assms(2) by (auto simp: counted_failures_def tables_ok_def split: option.split)
    have "fl_count f \<le> rejections k y + (if rq_key r = k then 1 else 0)" if "map_of (as_failed S') k = Some f" for k f
    proof (cases "k = rq_key r")
      case True
      then show ?thesis using that 2(2) record_failed_get(1) [OF d(1), of "ay_now y" "rq_key r"] cnt by auto
    next
      case False
      then have "map_of (as_failed (ay_state y)) k = Some f" using that 2(2) record_failed_get(2) [OF d(1) False, of "ay_now y"] by auto
      then show ?thesis using assms(2) False by (simp add: tables_ok_def)
    qed
    moreover have "as_verified S' = as_verified (ay_state y)" using 2(2) by (simp add: record_failed_attempt_def Let_def)
    ultimately show ?thesis
      using size finish(1) 2(1) assms(2) by (simp add: tables_ok_def rejections_answer)
  qed
qed

lemma tables_ok_new: "tables_ok (auth_system_new E key config)"
  by (simp add: tables_ok_def auth_system_new_def auth_new_def)

lemma tables_ok_steps: "(auth_step E)\<^sup>*\<^sup>* y y' \<Longrightarrow> tables_ok y \<Longrightarrow> tables_ok y'"
  by (induction rule: rtranclp_induct) (auto intro: tables_ok_step)

text \<open>
  A client is locked out only by its own failures. In every state the dashboard can reach,
  whoever is locked out at any time, as the configured user or as anybody else, had at least the
  allowed number of requests rejected from its own address (or its own IPv6 network) and under the
  same kind of name; what other addresses do never counts. The tables of failures and of remembered
  credentials stay within their bounds whatever is tried.
\<close>
theorem lockout_by_own_failures:
  assumes "(auth_step E)\<^sup>*\<^sup>* (auth_system_new E key config) y"
  shows "(key_locked_out t k (ay_state y) \<longrightarrow> au_max_failed_attempts config \<le> rejections k y \<and> 0 < au_lockout_duration config)
    \<and> length (as_failed (ay_state y)) \<le> MAX_TRACKED_CLIENTS \<and> length (as_verified (ay_state y)) \<le> MAX_VERIFIED_CREDENTIALS"
proof -
  have ok: "tables_ok y" using tables_ok_steps [OF assms tables_ok_new] .
  have "as_config (ay_state y) = config"
    using auth_steps_setup [OF assms] by (simp add: same_setup_def auth_system_new_def auth_new_def)
  then show ?thesis using ok by (fastforce simp: tables_ok_def key_locked_out_def is_some_and_iff)
qed

subsection \<open>How many passwords can be tried\<close>

text \<open>
  A stretch of time shorter than a lockout in which the client is not accepted, has at most
  \<open>c\<close> requests under way at once, and the table of failures has room.
\<close>

definition calm :: "attempt_key \<Rightarrow> nat \<Rightarrow> auth_system \<Rightarrow> auth_system \<Rightarrow> bool" where
  "calm k c y0 y \<longleftrightarrow>
     ay_now y - ay_now y0 < au_lockout_duration (as_config (ay_state y0)) \<and> open_of k y \<le> c
     \<and> acceptances k y = acceptances k y0 \<and> length (as_failed (ay_state y)) < MAX_TRACKED_CLIENTS"

definition calm_step :: "auth_env \<Rightarrow> attempt_key \<Rightarrow> nat \<Rightarrow> auth_system \<Rightarrow> auth_system \<Rightarrow> auth_system \<Rightarrow> bool" where
  "calm_step E k c y0 y y' \<longleftrightarrow> auth_step E y y' \<and> calm k c y0 y'"

definition allowed_guesses :: "auth_system \<Rightarrow> nat" where
  "allowed_guesses y = max 1 (au_max_failed_attempts (as_config (ay_state y)))"

text \<open>While the client's failures of this stretch are counted, it is refused after the last allowed one.\<close>

definition guess_inv :: "attempt_key \<Rightarrow> nat \<Rightarrow> auth_system \<Rightarrow> auth_system \<Rightarrow> bool" where
  "guess_inv k c y0 y \<longleftrightarrow>
     ay_now y0 \<le> ay_now y \<and> rejections k y0 \<le> rejections k y \<and> distinct (map fst (as_failed (ay_state y)))
     \<and> as_config (ay_state y) = as_config (ay_state y0)
     \<and> (rejections k y0 < rejections k y \<longrightarrow>
          (\<exists>f. map_of (as_failed (ay_state y)) k = Some f \<and> min (rejections k y - rejections k y0) u32_max \<le> fl_count f
             \<and> ay_now y0 \<le> fl_last f \<and> fl_last f \<le> ay_now y))
     \<and> (allowed_guesses y0 \<le> rejections k y - rejections k y0 \<longrightarrow>
          rejections k y - rejections k y0 + open_of k y \<le> allowed_guesses y0 - 1 + c)"

lemma guessed_out:
  assumes "guess_inv k c y0 y" "calm k c y0 y" "allowed_guesses y0 \<le> rejections k y - rejections k y0"
    "au_max_failed_attempts (as_config (ay_state y0)) \<le> u32_max"
  shows "key_locked_out (ay_now y) k (ay_state y)"
proof -
  have R: "rejections k y0 < rejections k y" "au_max_failed_attempts (as_config (ay_state y0)) \<le> rejections k y - rejections k y0"
    using assms(3) unfolding allowed_guesses_def by linarith+
  then obtain f where f: "map_of (as_failed (ay_state y)) k = Some f" "min (rejections k y - rejections k y0) u32_max \<le> fl_count f"
    "ay_now y0 \<le> fl_last f" using assms(1) by (auto simp: guess_inv_def)
  then have "ay_now y - fl_last f < au_lockout_duration (as_config (ay_state y0))" using assms(2) unfolding calm_def by linarith
  then show ?thesis using f R assms(1,4) by (simp add: key_locked_out_def guess_inv_def)
qed

lemma count_drop_nth:
  "i < length xs \<Longrightarrow> length (filter P (drop_nth i xs)) + (if P (xs ! i) then 1 else 0) = length (filter P xs)"
proof (induction xs arbitrary: i)
  case (Cons x xs)
  then show ?case by (cases i) (auto simp: drop_nth_def)
qed simp

lemma open_drop:
  "i < length (ay_open y) \<Longrightarrow>
     open_of k (y\<lparr>ay_state := S, ay_open := drop_nth i (ay_open y), ay_answers := as\<rparr>) + (if rq_key (ay_open y ! i) = k then 1 else 0) = open_of k y"
  using count_drop_nth [of i "ay_open y" "\<lambda>r. rq_key r = k"] by (simp add: open_of_def)

lemma open_update:
  "i < length (ay_open y) \<Longrightarrow> rq_key r = rq_key (ay_open y ! i) \<Longrightarrow>
     open_of k (y\<lparr>ay_state := S, ay_open := (ay_open y)[i := r]\<rparr>) = open_of k y"
proof -
  assume i: "i < length (ay_open y)" "rq_key r = rq_key (ay_open y ! i)"
  have "map rq_key ((ay_open y)[i := r]) = map rq_key (ay_open y)" using i by (simp add: map_update list_update_same_conv)
  moreover have "open_of k z = count_list (map rq_key (ay_open z)) k" for z :: auth_system
    by (simp add: open_of_def count_list_eq_length_filter filter_map comp_def) (metis (mono_tags, lifting))
  ultimately show ?thesis by simp
qed

text \<open>A step that leaves the client's record and answers alone.\<close>

lemma guess_inv_frame:
  assumes "guess_inv k c y0 y" "ay_now y \<le> ay_now y'" "rejections k y' = rejections k y" "distinct (map fst (as_failed (ay_state y')))"
    "as_config (ay_state y') = as_config (ay_state y)" "map_of (as_failed (ay_state y')) k = map_of (as_failed (ay_state y)) k"
    "allowed_guesses y0 \<le> rejections k y - rejections k y0 \<Longrightarrow> open_of k y' \<le> open_of k y"
  shows "guess_inv k c y0 y'"
  using assms unfolding guess_inv_def by (smt (verit) add_left_mono le_trans)

lemma guess_rejected:
  assumes "guess_inv k c y0 y" "calm k c y0 y"
  shows "min (rejections k y - rejections k y0) u32_max \<le> counted_failures (ay_now y) k (ay_state y)"
proof (cases "rejections k y0 < rejections k y")
  case True
  then obtain f where f: "map_of (as_failed (ay_state y)) k = Some f" "min (rejections k y - rejections k y0) u32_max \<le> fl_count f"
    "ay_now y0 \<le> fl_last f" "as_config (ay_state y) = as_config (ay_state y0)" using assms(1) by (auto simp: guess_inv_def)
  then have "ay_now y - fl_last f < au_lockout_duration (as_config (ay_state y0))" using assms(2) unfolding calm_def by linarith
  then show ?thesis using f by (simp add: counted_failures_def)
qed simp

lemma guess_inv_step:
  assumes "auth_step E y y'" "guess_inv k c y0 y" "calm k c y0 y" "calm k c y0 y'" "tables_ok y'"
    and u32: "au_max_failed_attempts (as_config (ay_state y0)) \<le> u32_max"
  shows "guess_inv k c y0 y'"
proof -
  have d': "distinct (map fst (as_failed (ay_state y')))" using assms(5) by (simp add: tables_ok_def)
  have d: "distinct (map fst (as_failed (ay_state y)))" using assms(2) by (simp add: guess_inv_def)
  have conf: "as_config (ay_state y') = as_config (ay_state y)" using auth_step_setup [OF assms(1)] by (simp add: same_setup_def)
  note frame = guess_inv_frame [OF assms(2) _ _ d' conf]
  show ?thesis
    using assms(1)
  proof cases
    case (tick t)
    then show ?thesis by (intro frame) (simp_all add: rejections_answer open_of_def)
  next
    case cleanup
    show ?thesis
    proof (cases "rejections k y0 < rejections k y")
      case True
      then obtain f where f: "map_of (as_failed (ay_state y)) k = Some f" "ay_now y0 \<le> fl_last f"
        "as_config (ay_state y) = as_config (ay_state y0)" using assms(2) by (auto simp: guess_inv_def)
      have "ay_now y - fl_last f < au_lockout_duration (as_config (ay_state y0))" using assms(3) f(2) unfolding calm_def by linarith
      then have "map_of (as_failed (ay_state y')) k = map_of (as_failed (ay_state y)) k"
        using cleanup f map_of_filter_value [OF d] by (simp add: cleanup_expired_attempts_def alive_failures_def)
      then show ?thesis using cleanup by (intro frame) (simp_all add: rejections_answer open_of_def)
    next
      case False
      then have "rejections k y = rejections k y0" using assms(2) by (simp add: guess_inv_def)
      then show ?thesis
        using cleanup assms(2) d' conf by (simp add: guess_inv_def rejections_answer open_of_def allowed_guesses_def)
    qed
  next
    case (arrive u p key client)
    have "key \<noteq> k" if "allowed_guesses y0 \<le> rejections k y - rejections k y0"
      using guessed_out [OF assms(2,3) that u32] arrive(6) by auto
    then show ?thesis using arrive(1) by (intro frame) (auto simp: rejections_answer open_of_def)
  next
    case (refuse u p key client)
    then show ?thesis by (intro frame) (simp_all add: rejections_answer open_of_def)
  next
    case (cache_hit i r v S')
    note f = check_cache_failed [OF cache_hit(5)]
    have "rq_key r \<noteq> k" using assms(3,4) cache_hit(1) f(2) by (auto simp: calm_def rejections_answer)
    then show ?thesis
      using cache_hit(1,2,3) f(1,2) open_drop [OF cache_hit(2), where k = k and S = S' and as = "(r, v) # ay_answers y"]
      by (intro frame) (auto simp: rejections_answer)
  next
    case (cache_miss i r S')
    note f = check_cache_failed [OF cache_miss(5)]
    then show ?thesis
      using cache_miss(1,2,3) open_update [OF cache_miss(2), where r = "r\<lparr>rq_uncached := True\<rparr>" and k = k and S = S']
      by (intro frame) (auto simp: rejections_answer)
  next
    case (finish i r v S')
    have open': "open_of k y' + (if rq_key r = k then 1 else 0) = open_of k y"
      using open_drop [OF finish(2), where k = k and S = S' and as = "(r, v) # ay_answers y"] finish(1,3) by simp
    have acc: "\<not> (rq_key r = k \<and> v = Accepted)" using assms(3,4) finish(1) by (auto simp: calm_def rejections_answer)
    show ?thesis
    proof (cases "rq_key r = k")
      case False
      have "map_of (as_failed S') k = map_of (as_failed (ay_state y)) k"
        using check_password_failed [OF finish(5)] False record_failed_get(3) [OF d] assms(3) by (auto simp: calm_def)
      then show ?thesis using finish(1) open' False by (intro frame) (auto simp: rejections_answer)
    next
      case True
      then have v: "v = Rejected" "S' = record_failed_attempt (ay_now y) k (ay_state y)"
        using check_password_failed [OF finish(5)] acc by auto
      have R: "rejections k y' = rejections k y + 1" using finish(1) True v(1) by (simp add: rejections_answer)
      have rec: "map_of (as_failed (ay_state y')) k = Some \<lparr>fl_count = min (counted_failures (ay_now y) k (ay_state y) + 1) u32_max, fl_last = ay_now y\<rparr>"
        using record_failed_get(1) [OF d] v(2) finish(1) by simp
      have now: "ay_now y' = ay_now y" using finish(1) by simp
      have le: "rejections k y0 \<le> rejections k y" "ay_now y0 \<le> ay_now y" using assms(2) by (simp_all add: guess_inv_def)
      have "min (rejections k y' - rejections k y0) u32_max \<le> min (counted_failures (ay_now y) k (ay_state y) + 1) u32_max"
        using guess_rejected [OF assms(2,3)] R le(1) by linarith
      moreover have "rejections k y' - rejections k y0 + open_of k y' \<le> allowed_guesses y0 - 1 + c"
        if "allowed_guesses y0 \<le> rejections k y' - rejections k y0"
      proof (cases "allowed_guesses y0 \<le> rejections k y - rejections k y0")
        case out: True
        then have "rejections k y - rejections k y0 + open_of k y \<le> allowed_guesses y0 - 1 + c" using assms(2) unfolding guess_inv_def by blast
        then show ?thesis using open' R True le(1) by simp
      next
        case False
        then have "rejections k y' - rejections k y0 = allowed_guesses y0" using that R le(1) by linarith
        moreover have "open_of k y \<le> c" using assms(3) by (simp add: calm_def)
        moreover have "1 \<le> allowed_guesses y0" by (simp add: allowed_guesses_def)
        ultimately show ?thesis using open' True by simp
      qed
      ultimately show ?thesis
        using rec R now le d' conf assms(2) unfolding guess_inv_def by simp
    qed
  qed
qed

lemma calm_steps:
  assumes "(calm_step E k c y0)\<^sup>*\<^sup>* y0 y" "tables_ok y0" "calm k c y0 y0"
    "au_max_failed_attempts (as_config (ay_state y0)) \<le> u32_max"
  shows "guess_inv k c y0 y \<and> calm k c y0 y \<and> tables_ok y"
  using assms(1)
proof (induction rule: rtranclp_induct)
  case base
  have "guess_inv k c y0 y0" using assms(2) by (simp add: guess_inv_def tables_ok_def allowed_guesses_def)
  then show ?case using assms(2,3) by blast
next
  case (step y y')
  then have s: "auth_step E y y'" "calm k c y0 y'" by (simp_all add: calm_step_def)
  have "tables_ok y'" using tables_ok_step [OF s(1)] step.IH by blast
  then show ?case using guess_inv_step [OF s(1) _ _ s(2) _ assms(4)] step.IH s(2) by blast
qed


subsection \<open>Two requests at once\<close>

text \<open>
  The lockout is checked before bcrypt runs and a failure is counted after it, so requests sent
  together are all verified: with one failure allowed, two passwords are rejected at one instant.
\<close>

definition sample_auth_env :: auth_env where
  "sample_auth_env = \<lparr>ae_hmac = (\<lambda>k m. m), ae_bcrypt_verify = (\<lambda>p h. Inr (p = ''secret'')), ae_base64_decode = Inr, ae_feature = True\<rparr>"

definition sample_auth_config :: auth_config where
  "sample_auth_config = auth_config_default\<lparr>au_password_hash := ''hash'', au_max_failed_attempts := 1\<rparr>"

definition sample_attempt_key :: attempt_key where
  "sample_attempt_key = \<lparr>ak_client = Some (V4 1), ak_configured_user = True\<rparr>"

definition sample_request :: "string \<Rightarrow> bool \<Rightarrow> request" where
  "sample_request p b = \<lparr>rq_key = sample_attempt_key, rq_username = ''admin'', rq_password = p, rq_uncached = b\<rparr>"

definition sample_dashboard :: auth_system where
  "sample_dashboard = auth_system_new sample_auth_env [] sample_auth_config"

definition sample_failed :: "nat \<Rightarrow> auth_state" where
  "sample_failed n = (ay_state sample_dashboard)\<lparr>as_failed := [(sample_attempt_key, \<lparr>fl_count = n, fl_last = 0\<rparr>)]\<rparr>"

lemmas sample_auth_simps = sample_dashboard_def auth_system_new_def auth_new_def sample_auth_env_def sample_auth_config_def
  auth_config_default_def sample_attempt_key_def sample_request_def sample_failed_def

lemma sample_arrives:
  assumes "ay_state y = ay_state sample_dashboard" "fits p"
  shows "auth_step sample_auth_env y (y\<lparr>ay_open := sample_request p False # ay_open y\<rparr>)"
  unfolding sample_request_def
  by (rule auth_step.arrive [where client = "Some (V4 1)"])
    (use assms in \<open>simp_all add: sample_auth_simps attempt_key_of_def username_matches_def client_key_def key_locked_out_def fits_def\<close>)

lemma sample_misses:
  assumes "ay_state y = ay_state sample_dashboard" "i < length (ay_open y)" "ay_open y ! i = sample_request p False"
  shows "auth_step sample_auth_env y (y\<lparr>ay_state := ay_state sample_dashboard, ay_open := (ay_open y)[i := sample_request p True]\<rparr>)"
proof -
  have "sample_request p True = sample_request p False\<lparr>rq_uncached := True\<rparr>" by (simp add: sample_request_def)
  then show ?thesis
    using auth_step.cache_miss [OF assms(2) assms(3) [symmetric], where S' = "ay_state sample_dashboard"] assms(1)
    by (simp add: sample_request_def check_cache_def recently_verified_def) (simp add: sample_auth_simps)
qed

definition sample_both_rejected :: auth_system where
  "sample_both_rejected =
     sample_dashboard\<lparr>ay_state := sample_failed (Suc 1), ay_open := [],
       ay_answers := [(sample_request ''b'' True, Rejected), (sample_request ''a'' True, Rejected)]\<rparr>"

lemma sample_calm:
  assumes "as_failed (ay_state y) = [] \<or> length (as_failed (ay_state y)) = 1" "length (ay_open y) \<le> 2" "ay_now y = 0"
    "list_all (\<lambda>(r, v). v = Rejected) (ay_answers y)"
  shows "calm sample_attempt_key 2 sample_dashboard y"
proof -
  have "filter (\<lambda>(r, v). rq_key r = sample_attempt_key \<and> v = Accepted) (ay_answers y) = []"
    using assms(4) by (auto simp: filter_empty_conv list_all_iff)
  moreover have "open_of sample_attempt_key y \<le> 2" using assms(2) le_trans [OF length_filter_le] by (auto simp: open_of_def)
  moreover have "length (as_failed (ay_state y)) < MAX_TRACKED_CLIENTS" using assms(1) by (auto simp: MAX_TRACKED_CLIENTS_def)
  ultimately show ?thesis using assms(3) by (simp add: calm_def acceptances_def) (simp add: sample_auth_simps)
qed

lemma sample_finishes:
  assumes "i < length (ay_open y)" "ay_open y ! i = sample_request p True" "p \<noteq> ''secret''" "ay_now y = 0"
    "ay_state y = sample_failed n \<or> n = 0 \<and> ay_state y = ay_state sample_dashboard" "n < 2"
  shows "auth_step sample_auth_env y (y\<lparr>ay_state := sample_failed (Suc n), ay_open := drop_nth i (ay_open y),
    ay_answers := (sample_request p True, Rejected) # ay_answers y\<rparr>)"
proof -
  have "check_password sample_auth_env (ay_now y) (rq_key (sample_request p True)) (rq_username (sample_request p True))
      (rq_password (sample_request p True)) (ay_state y) = (Rejected, sample_failed (Suc n))"
    using assms(3-6)
    by (auto simp: check_password_def verify_password_def record_failed_attempt_def make_room_def Let_def MAX_TRACKED_CLIENTS_def
        u32_max_def sample_auth_simps)
  then show ?thesis
    using auth_step.finish [OF assms(1) assms(2) [symmetric]] by (simp add: sample_request_def)
qed

lemma sample_two_at_once:
  "(calm_step sample_auth_env sample_attempt_key 2 sample_dashboard)\<^sup>*\<^sup>* sample_dashboard sample_both_rejected"
proof -
  let ?y = "\<lambda>rs. sample_dashboard\<lparr>ay_open := rs\<rparr>" and ?step = "calm_step sample_auth_env sample_attempt_key 2 sample_dashboard"
  let ?z = "sample_dashboard\<lparr>ay_state := sample_failed 1, ay_open := [sample_request ''b'' True], ay_answers := [(sample_request ''a'' True, Rejected)]\<rparr>"
  have calm: "calm sample_attempt_key 2 sample_dashboard (?y rs)" if "length rs \<le> 2" for rs
    by (rule sample_calm) (use that in \<open>simp_all add: sample_auth_simps\<close>)
  have new: "ay_open sample_dashboard = []" "ay_now sample_dashboard = 0" "ay_answers sample_dashboard = []" by (simp_all add: sample_auth_simps)
  have s1: "?step sample_dashboard (?y [sample_request ''a'' False])"
    using sample_arrives [of sample_dashboard "''a''"] calm new by (simp add: calm_step_def fits_def)
  have s2: "?step (?y [sample_request ''a'' False]) (?y [sample_request ''b'' False, sample_request ''a'' False])"
    using sample_arrives [of "?y [sample_request ''a'' False]" "''b''"] calm by (simp add: calm_step_def fits_def)
  have s3: "?step (?y [sample_request ''b'' False, sample_request ''a'' False]) (?y [sample_request ''b'' True, sample_request ''a'' False])"
    using sample_misses [of "?y [sample_request ''b'' False, sample_request ''a'' False]" 0 "''b''"] calm by (simp add: calm_step_def)
  have s4: "?step (?y [sample_request ''b'' True, sample_request ''a'' False]) (?y [sample_request ''b'' True, sample_request ''a'' True])"
    using sample_misses [of "?y [sample_request ''b'' True, sample_request ''a'' False]" 1 "''a''"] calm by (simp add: calm_step_def)
  have s5: "?step (?y [sample_request ''b'' True, sample_request ''a'' True]) ?z"
    using sample_finishes [of 1 "?y [sample_request ''b'' True, sample_request ''a'' True]" "''a''" 0] new
      sample_calm [of ?z] by (simp add: calm_step_def drop_nth_def sample_failed_def)
  have s6: "?step ?z sample_both_rejected"
    using sample_finishes [of 0 ?z "''b''" 1] new sample_calm [of sample_both_rejected]
    by (simp add: calm_step_def drop_nth_def sample_both_rejected_def sample_failed_def)
  note cons = converse_rtranclp_into_rtranclp [where r = ?step]
  show ?thesis
    by (rule cons [OF s1 cons [OF s2 cons [OF s3 cons [OF s4 cons [OF s5 cons [OF s6 rtranclp.rtrancl_refl]]]]]])
qed


lemma lockout_by_own_failures_witness:
  "key_locked_out 5 sample_attempt_key (ay_state sample_both_rejected)
   \<and> au_max_failed_attempts sample_auth_config \<le> rejections sample_attempt_key sample_both_rejected"
proof -
  have "(auth_step sample_auth_env)\<^sup>*\<^sup>* sample_dashboard sample_both_rejected"
    using sample_two_at_once by (rule rtranclp_mono [THEN predicate2D, rotated]) (auto simp: calm_step_def)
  moreover have "key_locked_out 5 sample_attempt_key (ay_state sample_both_rejected)"
    by (simp add: key_locked_out_def sample_both_rejected_def sample_auth_simps)
  ultimately show ?thesis using lockout_by_own_failures [of sample_auth_env "[]" sample_auth_config] by (simp add: sample_dashboard_def)
qed

lemma only_right_credentials_accepted_witness:
  "\<exists>y. (auth_step sample_auth_env)\<^sup>*\<^sup>* sample_dashboard y \<and> (sample_request ''secret'' True, Accepted) \<in> set (ay_answers y)
     \<and> ae_bcrypt_verify sample_auth_env ''secret'' ''hash'' = Inr True"
proof -
  let ?y = "\<lambda>rs. sample_dashboard\<lparr>ay_open := rs\<rparr>" and ?step = "auth_step sample_auth_env"
  have new: "ay_open sample_dashboard = []" "ay_answers sample_dashboard = []" by (simp_all add: sample_auth_simps)
  have s1: "?step sample_dashboard (?y [sample_request ''secret'' False])"
    using sample_arrives [of sample_dashboard "''secret''"] new by (simp add: fits_def)
  have s2: "?step (?y [sample_request ''secret'' False]) (?y [sample_request ''secret'' True])"
    using sample_misses [of "?y [sample_request ''secret'' False]" 0 "''secret''"] by simp
  obtain S' where "check_password sample_auth_env 0 sample_attempt_key ''admin'' ''secret'' (ay_state sample_dashboard) = (Accepted, S')"
    by (simp add: check_password_def verify_password_def sample_auth_simps)
  then have s3: "\<exists>y. ?step (?y [sample_request ''secret'' True]) y \<and> (sample_request ''secret'' True, Accepted) \<in> set (ay_answers y)"
    using auth_step.finish [of 0 "?y [sample_request ''secret'' True]" "sample_request ''secret'' True" sample_auth_env Accepted S']
    by (fastforce simp: sample_auth_simps)
  then obtain y where y: "?step\<^sup>*\<^sup>* sample_dashboard y" "(sample_request ''secret'' True, Accepted) \<in> set (ay_answers y)"
    using s1 s2 by (meson converse_rtranclp_into_rtranclp rtranclp.rtrancl_refl)
  have "hmac_collision_free sample_auth_env" "fits (au_username sample_auth_config)"
    by (simp_all add: hmac_collision_free_def fits_def sample_auth_simps)
  then have "ae_bcrypt_verify sample_auth_env (rq_password (sample_request ''secret'' True)) (au_password_hash sample_auth_config) = Inr True"
    using only_right_credentials_accepted [of sample_auth_env sample_auth_config "[]" y "sample_request ''secret'' True"] y
    unfolding sample_dashboard_def by blast
  then show ?thesis using y by (auto simp: sample_request_def sample_auth_config_def)
qed

end
