(* ===== verification/WebGuard.thy ===== *)
theory WebGuard
  imports WebAuth
begin

text \<open>
  The filters in front of the web dashboard's API: the origin check against cross-site requests of
  \<open>src/hammerwork-web/src/security.rs\<close>, and its composition with the login of \<open>WebAuth\<close> in
  \<open>src/hammerwork-web/src/server.rs\<close>.
\<close>

subsection \<open>Origins\<close>

datatype request_refused = CrossOrigin | UnsupportedMediaType

definition rsplit_once :: "char \<Rightarrow> string \<Rightarrow> (string \<times> string) option" where
  "rsplit_once c s = map_option (\<lambda>i. (take i s, drop (Suc i) s)) (rfind_char c s)"

definition normalize_origin :: "string \<Rightarrow> string option" where
  "normalize_origin origin =
     (let origin = map ascii_lower (str_trim origin);
          origin = (case strip_suffix ''/'' origin of Some o' \<Rightarrow> o' | None \<Rightarrow> origin) in
      case split_once ''://'' origin of
        None \<Rightarrow> None
      | Some (scheme, authority) \<Rightarrow>
          if scheme \<notin> {''http'', ''https''} \<or> authority = [] then None
          else if list_ex (\<lambda>c. c \<in> set ''/?#@ '') authority then None
          else
            (let host =
               (case rsplit_once (CHR '':'') authority of
                  Some (host, port) \<Rightarrow>
                    if port \<noteq> [] \<and> last port = CHR '']'' then Some authority
                    else if port = [] \<or> \<not> list_all is_digit port then None
                    else (case parse_usize port of Some n \<Rightarrow> if n < 2 ^ 16 then Some host else None | None \<Rightarrow> None)
                | None \<Rightarrow> Some authority)
             in case host of None \<Rightarrow> None | Some [] \<Rightarrow> None | Some _ \<Rightarrow> Some (scheme @ ''://'' @ authority)))"

fun allowed_origins_new :: "string list \<Rightarrow> string + string list" where
  "allowed_origins_new [] = Inr []"
| "allowed_origins_new (origin # rest) =
     (case normalize_origin origin of
        None \<Rightarrow> Inl (''invalid origin '' @ CHR 0x22 # origin @ CHR 0x22 # '': expected scheme://host[:port], for example https://ops.example.com'')
      | Some n \<Rightarrow> (case allowed_origins_new rest of Inl e \<Rightarrow> Inl e | Inr ns \<Rightarrow> Inr (n # ns)))"

definition origins_contain :: "string list \<Rightarrow> string \<Rightarrow> bool" where
  "origins_contain allowed origin = is_some_and (normalize_origin origin) (\<lambda>n. n \<in> set allowed)"

definition without_default_port :: "string \<Rightarrow> string \<Rightarrow> string" where
  "without_default_port scheme authority =
     (let authority = map ascii_lower authority; default_port = (if scheme = ''https'' then '':443'' else '':80'') in
      case strip_suffix default_port authority of Some a \<Rightarrow> a | None \<Rightarrow> authority)"

definition request_allowed :: "string option \<Rightarrow> string option \<Rightarrow> string option \<Rightarrow> string list \<Rightarrow> bool" where
  "request_allowed origin fetch_site host allowed =
     (if is_some_and origin (origins_contain allowed) then True
      else
        (case fetch_site of
           Some site \<Rightarrow> map ascii_lower (str_trim site) \<in> {''same-origin'', ''none''}
         | None \<Rightarrow>
             (case origin of
                None \<Rightarrow> True
              | Some o' \<Rightarrow>
                  (case normalize_origin o' of
                     None \<Rightarrow> False
                   | Some normalized \<Rightarrow>
                       (case split_once ''://'' normalized of
                          None \<Rightarrow> False
                        | Some (scheme, authority) \<Rightarrow>
                            is_some_and host (\<lambda>h. without_default_port scheme h = without_default_port scheme authority))))))"

definition origin_guard :: "string list \<Rightarrow> bool \<Rightarrow> string \<Rightarrow> string option \<Rightarrow> string option \<Rightarrow> string option \<Rightarrow> request_refused + unit" where
  "origin_guard allowed writes_only meth origin fetch_site host =
     (if (writes_only \<and> meth \<in> {''GET'', ''HEAD'', ''OPTIONS''}) \<or> request_allowed origin fetch_site host allowed then Inr ()
      else Inl CrossOrigin)"

definition is_json :: "string \<Rightarrow> bool" where
  "is_json content_type = (map ascii_lower (str_trim (hd (split_on (CHR '';'') content_type))) = ''application/json'')"

text \<open>The filters in front of the API and of the WebSocket (\<open>server.rs\<close>): origin first, then credentials.\<close>

definition guarded_request ::
  "auth_env \<Rightarrow> nat \<Rightarrow> nat \<Rightarrow> nat \<Rightarrow> string list \<Rightarrow> bool \<Rightarrow> string \<Rightarrow> string option \<Rightarrow> string option \<Rightarrow> string option \<Rightarrow>
     string option \<Rightarrow> ip_addr option \<Rightarrow> auth_state \<Rightarrow> ((request_refused + auth_error) + unit) \<times> auth_state" where
  "guarded_request E t1 t2 t3 allowed writes_only meth origin fetch_site host auth_header remote S =
     (case origin_guard allowed writes_only meth origin fetch_site host of
        Inl e \<Rightarrow> (Inl (Inl e), S)
      | Inr _ \<Rightarrow>
          (case auth_filter E t1 t2 t3 auth_header remote S of
             (Inl e, S') \<Rightarrow> (Inl (Inr e), S')
           | (Inr _, S') \<Rightarrow> (Inr (), S')))"

lemma allowed_origins_contain:
  "allowed_origins_new os = Inr allowed \<Longrightarrow>
     origins_contain allowed origin \<longleftrightarrow> (\<exists>o' \<in> set os. normalize_origin o' \<noteq> None \<and> normalize_origin o' = normalize_origin origin)"
proof (induction os arbitrary: allowed)
  case Nil
  then show ?case by (simp add: origins_contain_def is_some_and_iff)
next
  case (Cons o' os)
  obtain n ns where n: "normalize_origin o' = Some n" "allowed_origins_new os = Inr ns" "allowed = n # ns"
    using Cons.prems by (auto split: option.splits sum.splits)
  then show ?case using Cons.IH [OF n(2)] by (cases "normalize_origin origin") (auto simp: origins_contain_def)
qed

text \<open>
  A page of another site cannot write: its request is refused before credentials are looked at,
  when the browser says where it comes from, and when only its origin is known and names another
  host or none.
\<close>

lemma cross_site_writes_refused:
  assumes "allowed_origins_new os = Inr allowed" "meth \<notin> {''GET'', ''HEAD'', ''OPTIONS''}"
    "\<forall>o' \<in> set os. normalize_origin o' \<noteq> normalize_origin origin \<or> normalize_origin o' = None"
    "case fetch_site of
       Some site \<Rightarrow> map ascii_lower (str_trim site) \<notin> {''same-origin'', ''none''}
     | None \<Rightarrow> (\<forall>scheme authority h. normalize_origin origin = Some (scheme @ ''://'' @ authority) \<and> host = Some h \<longrightarrow>
         without_default_port scheme h \<noteq> without_default_port scheme authority)"
  shows "guarded_request E t1 t2 t3 allowed True meth (Some origin) fetch_site host auth_header remote S = (Inl (Inl CrossOrigin), S)"
proof -
  have no: "\<not> origins_contain allowed origin" using allowed_origins_contain [OF assms(1)] assms(3) by auto
  have split: "s = a @ ''://'' @ b" if "split_once ''://'' s = Some (a, b)" for s a b
    using that find_sub_split [of "''://''" s] by (auto simp: split_once_def)
  have "\<not> request_allowed (Some origin) fetch_site host allowed"
    using no assms(4) by (auto simp: request_allowed_def is_some_and_iff split: option.splits dest: split)
  then show ?thesis using assms(2) by (auto simp: guarded_request_def origin_guard_def)
qed

text \<open>What passes the filters has the right credentials.\<close>

lemma guarded_request_right:
  assumes "guarded_request E t1 t2 t3 allowed w meth origin fetch_site host auth_header remote (ay_state y) = (Inr u, S')"
    "login_inv E y" "hmac_collision_free E" "fits (au_username (as_config (ay_state y)))" "au_enabled (as_config (ay_state y))"
    "\<And>name pw. Option.bind auth_header (extract_basic_auth E) = Some (name, pw) \<Longrightarrow> fits name \<and> fits pw"
  shows "\<exists>name pw. Option.bind auth_header (extract_basic_auth E) = Some (name, pw) \<and> right_credentials E (ay_state y) name pw"
proof -
  let ?S = "ay_state y"
  obtain name pw where h: "Option.bind auth_header (extract_basic_auth E) = Some (name, pw)"
    and ok: "auth_check E t1 t2 t3 remote name pw ?S = (Accepted, S')"
    using assms(1,5)
    by (auto simp: guarded_request_def auth_filter_def split: sum.splits prod.splits option.splits auth_verdict.splits)
  have inv: "cache_right E ?S" "as_username_digest ?S = keyed_digest E (as_key ?S) [''username'', au_username (as_config ?S)]"
    using assms(2) by (simp_all add: login_inv_def Let_def)
  have fits: "fits name" "fits pw" using assms(6) [OF h] by simp_all
  let ?key = "attempt_key_of E ?S remote name"
  obtain v S1 where c: "check_cache E t2 ?key name pw ?S = (v, S1)" by fastforce
  note cached = check_cache_right [OF assms(3) inv(1) fits c]
  note same = same_setupD [OF same_setup_check(1) [OF c], of E]
  have "right_credentials E ?S name pw"
  proof (cases v)
    case None
    then have "check_password E t3 ?key name pw S1 = (Accepted, S')"
      using ok c assms(5) by (auto simp: auth_check_def Let_def split: if_splits)
    then have "ak_configured_user ?key" "verify_password E S1 pw" by (auto simp: check_password_def split: if_splits)
    then show ?thesis
      using username_matches_iff [OF assms(3) fits(1) assms(4) inv(2)] same by (simp add: attempt_key_of_def right_credentials_def)
  next
    case (Some w)
    then show ?thesis using cached by blast
  qed
  then show ?thesis using h by blast
qed

end
