(* ===== verification/Migrate.thy ===== *)
theory Migrate
  imports SqlSplit
begin

text \<open>
  Database migrations: the manager of \<open>src/src/migrations/mod.rs\<close> and its runners for PostgreSQL and
  MySQL (\<open>migrations/postgres.rs\<close>, \<open>migrations/mysql.rs\<close>), which agree in all that is modelled
  here but the dialect of the scripts. The manager is a function of the operations of a runner
  (\<open>runner_ops\<close>, the trait \<open>MigrationRunner\<close>); what it relies on is the locale
  \<open>migration_runner\<close>, interpreted by the runners' model. The schema, the effect of a statement on it,
  what an abandoned transaction leaves behind and every failure of the database are parameters.
  A run holds the migration lock from before it reads what was applied until it ends, so the runs
  of several processes are a sequence.
\<close>

subsection \<open>Migrations and runners\<close>

record migration =
  mg_id :: string
  mg_description :: string
  mg_version :: nat
  mg_created_at :: time

definition migration_new :: "string \<Rightarrow> string \<Rightarrow> nat \<Rightarrow> time \<Rightarrow> migration" where
  "migration_new i description version now = \<lparr>mg_id = i, mg_description = description, mg_version = version, mg_created_at = now\<rparr>"

record migration_record =
  mr_migration_id :: string
  mr_executed_at :: time
  mr_execution_time_ms :: nat

record 'd runner_ops =
  ro_acquire_migration_lock :: "'d \<Rightarrow> unit res \<times> 'd"
  ro_release_migration_lock :: "'d \<Rightarrow> unit res \<times> 'd"
  ro_run_migration :: "migration \<Rightarrow> string \<Rightarrow> 'd \<Rightarrow> unit res \<times> 'd"
  ro_migration_table_exists :: "'d \<Rightarrow> bool res"
  ro_create_migration_table :: "'d \<Rightarrow> unit res \<times> 'd"
  ro_get_executed_migrations :: "'d \<Rightarrow> migration_record list res"
  ro_record_migration :: "migration \<Rightarrow> nat \<Rightarrow> 'd \<Rightarrow> unit res \<times> 'd"

text \<open>The registered migrations: id to metadata, PostgreSQL script and MySQL script.\<close>

type_synonym migrations = "(string \<times> migration \<times> string \<times> string) list"

definition register_migration :: "migration \<Rightarrow> string \<Rightarrow> string \<Rightarrow> migrations \<Rightarrow> migrations" where
  "register_migration m postgres_sql mysql_sql ms = AList.update (mg_id m) (m, postgres_sql, mysql_sql) ms"

definition builtin_migrations :: "(string \<times> string \<times> nat \<times> string) list" where
  "builtin_migrations =
     [(''001_initial_schema'', ''Create initial hammerwork_jobs table'', 1, ''2025-01-01T00:00:00Z''),
      (''002_add_priority'', ''Add priority field and indexes for job prioritization'', 2, ''2025-02-01T00:00:00Z''),
      (''003_add_timeouts'', ''Add timeout_seconds and timed_out_at fields'', 3, ''2025-03-01T00:00:00Z''),
      (''004_add_cron'', ''Add cron scheduling fields and indexes'', 4, ''2025-04-01T00:00:00Z''),
      (''005_add_batches'', ''Add batch processing table and job batch_id field'', 5, ''2025-05-01T00:00:00Z''),
      (''006_add_result_storage'', ''Add result storage fields for job execution results'', 6, ''2025-06-01T00:00:00Z''),
      (''007_add_dependencies'', ''Add job dependencies and workflow support'', 7, ''2025-07-01T00:00:00Z''),
      (''008_add_result_config'', ''Add result configuration storage fields'', 8, ''2025-08-01T00:00:00Z''),
      (''009_add_tracing'', ''Add distributed tracing and correlation fields'', 9, ''2025-09-01T00:00:00Z''),
      (''010_add_archival'', ''Add job archival support and archive table'', 10, ''2025-10-01T00:00:00Z''),
      (''011_add_encryption'', ''Add job payload encryption and key management'', 11, ''2025-11-01T00:00:00Z''),
      (''012_optimize_dependencies'', ''Optimize job dependencies using native PostgreSQL UUID arrays'', 12, ''2025-12-01T00:00:00Z''),
      (''013_add_key_audit'', ''Add encryption key audit trail and operation logging'', 13, ''2025-12-15T00:00:00Z''),
      (''014_add_queue_pause'', ''Add queue pause and resume functionality for operational control'', 14, ''2025-12-30T00:00:00Z''),
      (''015_add_job_leases'', ''Add job heartbeat and lease columns for stale job recovery'', 15, ''2026-10-08T00:00:00Z''),
      (''016_versioned_encryption_keys'', ''Keep every encryption key version and allow '' @ CHR 0x27 # ''Update'' @ CHR 0x27 # '' audit records'', 16, ''2026-10-08T00:00:00Z''),
      (''017_add_kms_data_keys'', ''Persist KMS-wrapped data keys so AWS/GCP KMS keys survive restarts'', 17, ''2026-10-08T00:00:00Z''),
      (''018_add_job_retry_strategy'', ''Store each job'' @ CHR 0x27 # ''s retry strategy and index jobs by batch and status'', 18, ''2026-10-08T00:00:00Z''),
      (''019_add_archive_workflow'', ''Store workflow_id and workflow_name of archived jobs'', 19, ''2026-10-11T00:00:00Z''),
      (''020_archive_retry_strategy_and_workflow_index'', ''Widen archived retry_strategy and index archived jobs by workflow'', 20, ''2026-10-11T12:00:00Z''),
      (''021_mysql_datetime'', ''Convert MySQL TIMESTAMP columns to DATETIME(6) (year-2038 limit)'', 21, ''2026-10-11T18:00:00Z'')]"

text \<open>\<open>rfc3339\<close> parses a date, \<open>script\<close> gives the contents of an included file.\<close>

definition register_builtin_migrations :: "(string \<Rightarrow> time) \<Rightarrow> (string \<Rightarrow> string) \<Rightarrow> migrations \<Rightarrow> migrations" where
  "register_builtin_migrations rfc3339 script ms =
     fold (\<lambda>(i, description, version, created) ms.
         register_migration \<lparr>mg_id = i, mg_description = description, mg_version = version, mg_created_at = rfc3339 created\<rparr>
           (script (i @ ''.postgres.sql'')) (script (i @ ''.mysql.sql'')) ms)
       builtin_migrations ms"

definition pending_migrations :: "migrations \<Rightarrow> string set \<Rightarrow> (migration \<times> string \<times> string) list" where
  "pending_migrations ms executed_ids =
     sort_key (\<lambda>(m, _, _). mg_version m) (filter (\<lambda>(m, _, _). mg_id m \<notin> executed_ids) (map snd ms))"

definition script_of :: "dialect \<Rightarrow> migration \<times> string \<times> string \<Rightarrow> string" where
  "script_of d e = (case e of (m, postgres_sql, mysql_sql) \<Rightarrow> if d = Postgres then postgres_sql else mysql_sql)"

text \<open>
  The loop over the pending migrations; \<open>ms\<close> reads the time a migration took. Besides the result and
  the database it returns the migrations that ran.
\<close>

fun run_each ::
  "'d runner_ops \<Rightarrow> dialect \<Rightarrow> (migration \<Rightarrow> nat) \<Rightarrow> (migration \<times> string \<times> string) list \<Rightarrow> 'd \<Rightarrow> unit res \<times> 'd \<times> migration list" where
  "run_each R d ms [] db = (Inr (), db, [])"
| "run_each R d ms (e # es) db =
     (case ro_run_migration R (fst e) (script_of d e) db of
        (Inl er, db1) \<Rightarrow> (Inl er, db1, [])
      | (Inr _, db1) \<Rightarrow>
          (case ro_record_migration R (fst e) (ms (fst e)) db1 of
             (Inl er, db2) \<Rightarrow> (Inl er, db2, [fst e])
           | (Inr _, db2) \<Rightarrow> (case run_each R d ms es db2 of (r, db3, applied) \<Rightarrow> (r, db3, fst e # applied))))"

definition run_pending_migrations ::
  "'d runner_ops \<Rightarrow> dialect \<Rightarrow> (migration \<Rightarrow> nat) \<Rightarrow> migrations \<Rightarrow> 'd \<Rightarrow> unit res \<times> 'd \<times> migration list" where
  "run_pending_migrations R d ms reg db =
     (case ro_migration_table_exists R db of
        Inl e \<Rightarrow> (Inl e, db, [])
      | Inr exists \<Rightarrow>
          (case (if exists then (Inr (), db) else ro_create_migration_table R db) of
             (Inl e, db1) \<Rightarrow> (Inl e, db1, [])
           | (Inr _, db1) \<Rightarrow>
               (case ro_get_executed_migrations R db1 of
                  Inl e \<Rightarrow> (Inl e, db1, [])
                | Inr executed \<Rightarrow> run_each R d ms (pending_migrations reg (mr_migration_id ` set executed)) db1)))"

definition run_migrations ::
  "'d runner_ops \<Rightarrow> dialect \<Rightarrow> (migration \<Rightarrow> nat) \<Rightarrow> migrations \<Rightarrow> 'd \<Rightarrow> unit res \<times> 'd \<times> migration list" where
  "run_migrations R d ms reg db =
     (case ro_acquire_migration_lock R db of
        (Inl e, db1) \<Rightarrow> (Inl e, db1, [])
      | (Inr _, db1) \<Rightarrow>
          (case run_pending_migrations R d ms reg db1 of
             (r, db2, applied) \<Rightarrow>
               (case ro_release_migration_lock R db2 of
                  (released, db3) \<Rightarrow> ((case r of Inl e \<Rightarrow> Inl e | Inr _ \<Rightarrow> released), db3, applied))))"

definition registered_migrations :: "migrations \<Rightarrow> migration list" where
  "registered_migrations reg = sort_key mg_version (map (fst \<circ> snd) reg)"

definition get_migration_status :: "'d runner_ops \<Rightarrow> migrations \<Rightarrow> 'd \<Rightarrow> (migration \<times> bool) list res" where
  "get_migration_status R reg db =
     (case ro_get_executed_migrations R db of
        Inl e \<Rightarrow> Inl e
      | Inr executed \<Rightarrow>
          Inr (sort_key (\<lambda>(m, _). mg_version m) (map (\<lambda>(_, m, _). (m, mg_id m \<in> mr_migration_id ` set executed)) reg)))"

subsection \<open>What the manager relies on\<close>

text \<open>All that ran is recorded, or all but the last one, whose record could not be written.\<close>

definition written :: "string set \<Rightarrow> string set \<Rightarrow> (migration \<Rightarrow> bool) \<Rightarrow> migration list \<Rightarrow> bool" where
  "written before after faulty applied \<longleftrightarrow>
     after = before \<union> mg_id ` set applied
     \<or> applied \<noteq> [] \<and> after = before \<union> mg_id ` set (butlast applied) \<and> faulty (List.last applied)"

text \<open>\<open>ready\<close>: the table of records exists; \<open>faulty\<close>: the record of this migration cannot be written.\<close>

locale migration_runner =
  fixes R :: "'d runner_ops" and recorded :: "'d \<Rightarrow> string set" and ready :: "'d \<Rightarrow> bool" and faulty :: "migration \<Rightarrow> bool"
  assumes run_keeps: "ro_run_migration R m sql db = (r, db') \<Longrightarrow> recorded db' = recorded db \<and> ready db' = ready db"
    and record_adds: "ro_record_migration R m n db = (r, db') \<Longrightarrow> ready db \<Longrightarrow>
      recorded db' = (if isl r then recorded db else insert (mg_id m) (recorded db)) \<and> ready db' \<and> (isl r \<longrightarrow> faulty m)"
    and create_keeps: "ro_create_migration_table R db = (r, db') \<Longrightarrow> recorded db' = recorded db \<and> (isl r \<or> ready db')"
    and exists_ready: "ro_migration_table_exists R db = Inr True \<Longrightarrow> ready db"
    and executed_recorded: "ro_get_executed_migrations R db = Inr rs \<Longrightarrow> mr_migration_id ` set rs = recorded db"
    and lock_keeps: "ro_acquire_migration_lock R db = (r, db') \<Longrightarrow> recorded db' = recorded db"
    and unlock_keeps: "ro_release_migration_lock R db = (r, db') \<Longrightarrow> recorded db' = recorded db"
begin

text \<open>The loop runs a prefix of what is pending, and all of it when it succeeds.\<close>

lemma run_each_prefix:
  "run_each R d ms es db = (r, db', applied) \<Longrightarrow> ready db \<Longrightarrow>
     prefix applied (map fst es) \<and> written (recorded db) (recorded db') faulty applied
     \<and> (isl r \<or> applied = map fst es \<and> recorded db' = recorded db \<union> mg_id ` set applied)"
proof (induction es arbitrary: db r db' applied)
  case (Cons e es)
  obtain r1 db1 where run: "ro_run_migration R (fst e) (script_of d e) db = (r1, db1)" by fastforce
  obtain r2 db2 where rec: "ro_record_migration R (fst e) (ms (fst e)) db1 = (r2, db2)" by fastforce
  have one: "recorded db1 = recorded db" "ready db1" using run_keeps [OF run] Cons.prems(2) by simp_all
  note two = record_adds [OF rec one(2)]
  consider (failed) x where "r1 = Inl x" | (unrecorded) u x where "r1 = Inr u" "r2 = Inl x" | (ok) u w where "r1 = Inr u" "r2 = Inr w"
    by (cases r1; cases r2) auto
  then show ?case
  proof cases
    case failed
    then show ?thesis using Cons.prems(1) run one by (auto simp: written_def)
  next
    case unrecorded
    then show ?thesis using Cons.prems(1) run rec one two by (auto simp: written_def)
  next
    case ok
    obtain r3 db3 applied3 where rest: "run_each R d ms es db2 = (r3, db3, applied3)" by (metis prod_cases3)
    have res: "r = r3" "db' = db3" "applied = fst e # applied3" using Cons.prems(1) run rec ok rest by simp_all
    have "recorded db2 = insert (mg_id (fst e)) (recorded db)" "ready db2" using one two ok by simp_all
    then show ?thesis using Cons.IH [OF rest] res by (auto simp: written_def)
  qed
qed (simp add: written_def)

lemma run_migrations_cases:
  assumes "run_migrations R d ms reg db = (r, db', applied)"
  shows "prefix applied (map fst (pending_migrations reg (recorded db))) \<and> written (recorded db) (recorded db') faulty applied
    \<and> (isl r \<or> applied = map fst (pending_migrations reg (recorded db)) \<and> recorded db' = recorded db \<union> mg_id ` set applied)"
proof -
  obtain r0 db1 where lock: "ro_acquire_migration_lock R db = (r0, db1)" by fastforce
  obtain r1 db2 applied1 where pend: "run_pending_migrations R d ms reg db1 = (r1, db2, applied1)" by (metis prod_cases3)
  obtain r2 db3 where unlock: "ro_release_migration_lock R db2 = (r2, db3)" by fastforce
  have rec: "recorded db1 = recorded db" "recorded db3 = recorded db2" using lock_keeps [OF lock] unlock_keeps [OF unlock] by simp_all
  have pending: "applied1 = [] \<and> isl r1 \<and> recorded db2 = recorded db1
      \<or> (\<exists>db0. recorded db0 = recorded db1 \<and> ready db0 \<and> run_each R d ms (pending_migrations reg (recorded db1)) db0 = (r1, db2, applied1))"
    using pend create_keeps executed_recorded exists_ready
    by (fastforce simp: run_pending_migrations_def split: sum.splits if_splits prod.splits)
  have main: "prefix applied1 (map fst (pending_migrations reg (recorded db))) \<and> written (recorded db) (recorded db3) faulty applied1
    \<and> (isl r1 \<or> applied1 = map fst (pending_migrations reg (recorded db)) \<and> recorded db3 = recorded db \<union> mg_id ` set applied1)"
    using pending
  proof
    assume "\<exists>db0. recorded db0 = recorded db1 \<and> ready db0 \<and> run_each R d ms (pending_migrations reg (recorded db1)) db0 = (r1, db2, applied1)"
    then show ?thesis using run_each_prefix rec unfolding written_def by metis
  qed (use rec in \<open>simp add: written_def\<close>)
  show ?thesis
  proof (cases r0)
    case (Inl e)
    then show ?thesis using assms lock rec by (auto simp: run_migrations_def written_def)
  next
    case (Inr u)
    then have res: "r = (case r1 of Inl e \<Rightarrow> Inl e | Inr _ \<Rightarrow> r2)" "db' = db3" "applied = applied1"
      using assms lock pend unlock by (simp_all add: run_migrations_def)
    have "isl r1 \<Longrightarrow> isl r" using res(1) by (cases r1) auto
    then show ?thesis using main res by blast
  qed
qed

end

subsection \<open>The runners\<close>

record 'd database =
  db_schema :: 'd
  db_records :: "migration_record list option"
  db_locked :: bool

text \<open>
  What the server does: a statement changes the schema or fails; a transaction that is not committed
  leaves what the server leaves of it (nothing on PostgreSQL; MySQL commits each schema change).
\<close>

record 'd server =
  sv_execute :: "string \<Rightarrow> 'd \<Rightarrow> string + 'd"
  sv_abandon :: "'d \<Rightarrow> 'd \<Rightarrow> 'd"

text \<open>Which calls fail during a run, and when a record is written.\<close>

record run_faults =
  rf_lock :: "string option"
  rf_exists :: "string option"
  rf_create :: "string option"
  rf_read :: "string option"
  rf_begin :: "migration \<Rightarrow> string option"
  rf_commit :: "migration \<Rightarrow> string option"
  rf_record :: "migration \<Rightarrow> string option"
  rf_release :: "string option"
  rf_now :: "migration \<Rightarrow> time"

definition db_call :: "string option \<Rightarrow> 'd database \<Rightarrow> ('d database \<Rightarrow> unit res \<times> 'd database) \<Rightarrow> unit res \<times> 'd database" where
  "db_call fault db f = (case fault of Some e \<Rightarrow> (Inl (DatabaseError e), db) | None \<Rightarrow> f db)"

definition full_statement :: "string \<Rightarrow> string" where
  "full_statement statement = (if statement \<noteq> [] \<and> last statement = CHR '';'' then statement else statement @ '';'')"

fun execute_all :: "'d server \<Rightarrow> string list \<Rightarrow> 'd \<Rightarrow> string option \<times> 'd" where
  "execute_all V [] sch = (None, sch)"
| "execute_all V (st # sts) sch =
     (case sv_execute V (full_statement st) sch of Inl e \<Rightarrow> (Some e, sch) | Inr sch' \<Rightarrow> execute_all V sts sch')"

definition run_migration :: "'d server \<Rightarrow> dialect \<Rightarrow> run_faults \<Rightarrow> migration \<Rightarrow> string \<Rightarrow> 'd database \<Rightarrow> unit res \<times> 'd database" where
  "run_migration V d F m sql db =
     db_call (rf_begin F m) db (\<lambda>db.
       case execute_all V (split_statements d sql) (db_schema db) of
         (Some e, sch) \<Rightarrow> (Inl (DatabaseError e), db\<lparr>db_schema := sv_abandon V (db_schema db) sch\<rparr>)
       | (None, sch) \<Rightarrow>
           (case rf_commit F m of
              Some e \<Rightarrow> (Inl (DatabaseError e), db\<lparr>db_schema := sv_abandon V (db_schema db) sch\<rparr>)
            | None \<Rightarrow> (Inr (), db\<lparr>db_schema := sch\<rparr>)))"

definition record_migration :: "run_faults \<Rightarrow> migration \<Rightarrow> nat \<Rightarrow> 'd database \<Rightarrow> unit res \<times> 'd database" where
  "record_migration F m execution_time_ms db =
     db_call (rf_record F m) db (\<lambda>db.
       case db_records db of
         None \<Rightarrow> (Inl (DatabaseError ''relation hammerwork_migrations does not exist''), db)
       | Some rs \<Rightarrow>
           if mg_id m \<in> mr_migration_id ` set rs then (Inr (), db)
           else (Inr (), db\<lparr>db_records := Some (rs @ [\<lparr>mr_migration_id = mg_id m, mr_executed_at = rf_now F m,
                                              mr_execution_time_ms = min execution_time_ms (2 ^ 63 - 1)\<rparr>])\<rparr>))"

definition get_executed_migrations :: "run_faults \<Rightarrow> 'd database \<Rightarrow> migration_record list res" where
  "get_executed_migrations F db =
     (case (rf_read F, db_records db) of
        (Some e, _) \<Rightarrow> Inl (DatabaseError e)
      | (None, None) \<Rightarrow> Inl (DatabaseError ''relation hammerwork_migrations does not exist'')
      | (None, Some rs) \<Rightarrow> Inr (sort_key mr_executed_at rs))"

definition sql_runner :: "'d server \<Rightarrow> dialect \<Rightarrow> run_faults \<Rightarrow> 'd database runner_ops" where
  "sql_runner V d F =
     \<lparr>ro_acquire_migration_lock = (\<lambda>db. db_call (rf_lock F) db (\<lambda>db. (Inr (), db\<lparr>db_locked := True\<rparr>))),
      ro_release_migration_lock = (\<lambda>db.
        case rf_release F of Some e \<Rightarrow> (Inl (DatabaseError e), db\<lparr>db_locked := False\<rparr>) | None \<Rightarrow> (Inr (), db\<lparr>db_locked := False\<rparr>)),
      ro_run_migration = run_migration V d F,
      ro_migration_table_exists = (\<lambda>db. case rf_exists F of Some e \<Rightarrow> Inl (DatabaseError e) | None \<Rightarrow> Inr (db_records db \<noteq> None)),
      ro_create_migration_table = (\<lambda>db. db_call (rf_create F) db (\<lambda>db.
        (Inr (), if db_records db = None then db\<lparr>db_records := Some []\<rparr> else db))),
      ro_get_executed_migrations = get_executed_migrations F,
      ro_record_migration = record_migration F\<rparr>"

definition recorded_ids :: "'d database \<Rightarrow> string set" where
  "recorded_ids db = (case db_records db of None \<Rightarrow> {} | Some rs \<Rightarrow> mr_migration_id ` set rs)"

interpretation sql: migration_runner "sql_runner V d F" recorded_ids "\<lambda>db. db_records db \<noteq> None" "\<lambda>m. rf_record F m \<noteq> None" for V d F
proof
  fix m sql n r and db db' :: "'a database" and rs
  show "ro_run_migration (sql_runner V d F) m sql db = (r, db') \<Longrightarrow>
      recorded_ids db' = recorded_ids db \<and> (db_records db' \<noteq> None) = (db_records db \<noteq> None)"
    by (auto simp: sql_runner_def run_migration_def db_call_def recorded_ids_def split: option.splits prod.splits)
  show "ro_record_migration (sql_runner V d F) m n db = (r, db') \<Longrightarrow> db_records db \<noteq> None \<Longrightarrow>
      recorded_ids db' = (if isl r then recorded_ids db else insert (mg_id m) (recorded_ids db)) \<and> db_records db' \<noteq> None
      \<and> (isl r \<longrightarrow> rf_record F m \<noteq> None)"
    by (auto simp: sql_runner_def record_migration_def db_call_def recorded_ids_def split: option.splits if_splits)
  show "ro_create_migration_table (sql_runner V d F) db = (r, db') \<Longrightarrow> recorded_ids db' = recorded_ids db \<and> (isl r \<or> db_records db' \<noteq> None)"
    by (auto simp: sql_runner_def db_call_def recorded_ids_def split: option.splits if_splits)
  show "ro_migration_table_exists (sql_runner V d F) db = Inr True \<Longrightarrow> db_records db \<noteq> None"
    by (auto simp: sql_runner_def split: option.splits)
  show "ro_get_executed_migrations (sql_runner V d F) db = Inr rs \<Longrightarrow> mr_migration_id ` set rs = recorded_ids db"
    by (auto simp: sql_runner_def get_executed_migrations_def recorded_ids_def split: option.splits prod.splits)
  show "ro_acquire_migration_lock (sql_runner V d F) db = (r, db') \<Longrightarrow> recorded_ids db' = recorded_ids db"
    by (auto simp: sql_runner_def db_call_def recorded_ids_def split: option.splits)
  show "ro_release_migration_lock (sql_runner V d F) db = (r, db') \<Longrightarrow> recorded_ids db' = recorded_ids db"
    by (auto simp: sql_runner_def recorded_ids_def split: option.splits)
qed

subsection \<open>Runs of several processes\<close>

text \<open>A registry as \<open>register_migration\<close> makes it: every migration under its own id.\<close>

definition migrations_ok :: "migrations \<Rightarrow> bool" where
  "migrations_ok reg \<longleftrightarrow> distinct (map fst reg) \<and> list_all (\<lambda>(i, m, _). mg_id m = i) reg"

lemma migrations_ok_register: "migrations_ok reg \<Longrightarrow> migrations_ok (register_migration m p q reg)"
proof -
  have "list_all (\<lambda>(i, m, _). mg_id m = i) reg \<Longrightarrow> list_all (\<lambda>(i, m, _). mg_id m = i) (AList.update (mg_id m) (m, p, q) reg)"
    by (induction reg) auto
  then show "migrations_ok reg \<Longrightarrow> migrations_ok (register_migration m p q reg)"
    by (simp add: migrations_ok_def register_migration_def)
qed

lemma migrations_ok_builtin: "migrations_ok (register_builtin_migrations rfc3339 script [])"
proof -
  have "migrations_ok reg \<Longrightarrow> migrations_ok (fold (\<lambda>(i, description, version, created) ms.
         register_migration \<lparr>mg_id = i, mg_description = description, mg_version = version, mg_created_at = rfc3339 created\<rparr>
           (script (i @ ''.postgres.sql'')) (script (i @ ''.mysql.sql'')) ms) xs reg)" for xs reg
    by (induction xs arbitrary: reg) (auto simp: migrations_ok_register)
  moreover have "migrations_ok []" by (simp add: migrations_ok_def)
  ultimately show ?thesis unfolding register_builtin_migrations_def by blast
qed

lemma pending_ids:
  assumes "migrations_ok reg"
  shows "distinct (map mg_id (map fst (pending_migrations reg done_ids)))"
    "mg_id ` set (map fst (pending_migrations reg done_ids)) = set (map fst reg) - done_ids"
    "sorted (map mg_version (map fst (pending_migrations reg done_ids)))"
proof -
  let ?es = "filter (\<lambda>(m, _, _). mg_id m \<notin> done_ids) (map snd reg)"
  have ids: "map (mg_id \<circ> fst) (map snd reg) = map fst reg"
    using assms by (auto simp: migrations_ok_def list_all_iff)
  have "distinct (map (mg_id \<circ> fst) (map snd reg))" unfolding ids using assms by (simp add: migrations_ok_def)
  then have inj: "distinct (map (mg_id \<circ> fst) ?es)" by (rule distinct_map_filter)
  then have "inj_on (mg_id \<circ> fst) (set ?es) \<and> distinct ?es" by (simp add: distinct_map)
  then show "distinct (map mg_id (map fst (pending_migrations reg done_ids)))"
    by (simp add: pending_migrations_def distinct_map comp_inj_on_iff [symmetric] inj_on_def) force
  have "mg_id ` fst ` set ?es = set (map (mg_id \<circ> fst) (map snd reg)) - done_ids" by force
  then show "mg_id ` set (map fst (pending_migrations reg done_ids)) = set (map fst reg) - done_ids"
    unfolding ids by (simp add: pending_migrations_def)
  have "sorted (map (\<lambda>(m, _, _). mg_version m) (pending_migrations reg done_ids))"
    unfolding pending_migrations_def by (rule sorted_sort_key)
  then show "sorted (map mg_version (map fst (pending_migrations reg done_ids)))" by (simp add: case_prod_unfold comp_def)
qed

text \<open>One run: its failures, its clock and its registry.\<close>

type_synonym migration_call = "run_faults \<times> (migration \<Rightarrow> nat) \<times> migrations"

fun migration_runs ::
  "'d server \<Rightarrow> dialect \<Rightarrow> migration_call list \<Rightarrow> 'd database \<Rightarrow> (unit res \<times> migration list) list \<times> 'd database" where
  "migration_runs V d [] db = ([], db)"
| "migration_runs V d ((F, ms, reg) # calls) db =
     (case run_migrations (sql_runner V d F) d ms reg db of
        (r, db1, applied) \<Rightarrow> (case migration_runs V d calls db1 of (outs, db2) \<Rightarrow> ((r, applied) # outs, db2)))"

definition times_run :: "string \<Rightarrow> (unit res \<times> migration list) list \<Rightarrow> nat" where
  "times_run i outs = length (filter (\<lambda>m. mg_id m = i) (concat (map snd outs)))"

definition unrecorded_runs :: "string \<Rightarrow> migration_call list \<Rightarrow> nat" where
  "unrecorded_runs i calls = length (filter (\<lambda>(F, _, _). \<exists>m. mg_id m = i \<and> rf_record F m \<noteq> None) calls)"

lemma one_run:
  assumes "migrations_ok reg" "run_migrations (sql_runner V d F) d ms reg db = (r, db', applied)"
  shows "recorded_ids db \<subseteq> recorded_ids db'" "sorted (map mg_version applied)"
    "\<not> isl r \<Longrightarrow> set (map fst reg) \<subseteq> recorded_ids db'"
    "length (filter (\<lambda>m. mg_id m = i) applied) + (if i \<in> recorded_ids db' then 0 else 1)
       \<le> (if i \<in> recorded_ids db then 0 else 1) + (if \<exists>m. mg_id m = i \<and> rf_record F m \<noteq> None then 1 else 0)"
proof -
  let ?P = "map fst (pending_migrations reg (recorded_ids db))"
  note run = sql.run_migrations_cases [OF assms(2)]
  note ids = pending_ids [OF assms(1), of "recorded_ids db"]
  obtain rest where P: "?P = applied @ rest" using run by (auto simp: prefix_def)
  have w: "written (recorded_ids db) (recorded_ids db') (\<lambda>m. rf_record F m \<noteq> None) applied" using run by blast
  show "recorded_ids db \<subseteq> recorded_ids db'" using w by (auto simp: written_def)
  show "sorted (map mg_version applied)" using ids(3) unfolding P by (simp add: sorted_append)
  show "set (map fst reg) \<subseteq> recorded_ids db'" if "\<not> isl r" using run ids(2) that by auto
  have dist: "distinct (map mg_id applied)" using ids(1) unfolding P by simp
  have sub: "mg_id ` set applied \<subseteq> set (map fst reg) - recorded_ids db" using ids(2) unfolding P by auto
  have le1: "length (filter (\<lambda>m. mg_id m = i) applied) \<le> 1"
    using dist by (induction applied) (auto simp: filter_empty_conv image_iff)
  have zero: "length (filter (\<lambda>m. mg_id m = i) applied) = 0" if "i \<notin> mg_id ` set applied" using that by (auto simp: filter_empty_conv)
  show "length (filter (\<lambda>m. mg_id m = i) applied) + (if i \<in> recorded_ids db' then 0 else 1)
       \<le> (if i \<in> recorded_ids db then 0 else 1) + (if \<exists>m. mg_id m = i \<and> rf_record F m \<noteq> None then 1 else 0)"
  proof (cases "i \<in> mg_id ` set applied")
    case False
    then show ?thesis using zero w by (auto simp: written_def)
  next
    case True
    then have new: "i \<notin> recorded_ids db" using sub by auto
    show ?thesis
    proof (cases "i \<in> recorded_ids db'")
      case True
      then show ?thesis using new le1 by simp
    next
      case False
      then have "applied \<noteq> []" "recorded_ids db' = recorded_ids db \<union> mg_id ` set (butlast applied)" "rf_record F (List.last applied) \<noteq> None"
        using w True by (auto simp: written_def)
      moreover have "i = mg_id (List.last applied)"
      proof -
        have "set applied = insert (List.last applied) (set (butlast applied))"
          using \<open>applied \<noteq> []\<close> by (metis append_butlast_last_id insert_is_Un Un_commute list.set(1,2) set_append)
        then show ?thesis using True False \<open>recorded_ids db' = _\<close> by auto
      qed
      ultimately have "\<exists>m. mg_id m = i \<and> rf_record F m \<noteq> None" by blast
      then show ?thesis using new le1 False by simp
    qed
  qed
qed

lemma migration_runs_count:
  assumes "migration_runs V d calls db = (outs, db')" "list_all (\<lambda>(F, ms, reg). migrations_ok reg) calls"
  shows "times_run i outs + (if i \<in> recorded_ids db' then 0 else 1) \<le> (if i \<in> recorded_ids db then 0 else 1) + unrecorded_runs i calls
    \<and> list_all (\<lambda>(r, applied). sorted (map mg_version applied)) outs
    \<and> (calls \<noteq> [] \<longrightarrow> outs \<noteq> [] \<and> (\<not> isl (fst (List.last outs)) \<longrightarrow> set (map fst (snd (snd (List.last calls)))) \<subseteq> recorded_ids db'))"
  using assms
proof (induction calls arbitrary: db outs db')
  case Nil
  then show ?case by (simp add: times_run_def unrecorded_runs_def)
next
  case (Cons c calls)
  obtain F ms reg where c: "c = (F, ms, reg)" by (metis prod_cases3)
  obtain r db1 applied where run: "run_migrations (sql_runner V d F) d ms reg db = (r, db1, applied)" by (metis prod_cases3)
  obtain outs2 db2 where rest: "migration_runs V d calls db1 = (outs2, db2)" by fastforce
  have outs: "outs = (r, applied) # outs2" "db' = db2" using Cons.prems(1) c run rest by simp_all
  have reg: "migrations_ok reg" using Cons.prems(2) c by simp
  note one = one_run [OF reg run]
  have "list_all (\<lambda>(F, ms, reg). migrations_ok reg) calls" using Cons.prems(2) by simp
  note IH = Cons.IH [OF rest this]
  have t: "times_run i outs = length (filter (\<lambda>m. mg_id m = i) applied) + times_run i outs2" by (simp add: times_run_def outs)
  have u: "unrecorded_runs i (c # calls) = (if \<exists>m. mg_id m = i \<and> rf_record F m \<noteq> None then 1 else 0) + unrecorded_runs i calls"
    by (simp add: unrecorded_runs_def c)
  have count: "times_run i outs + (if i \<in> recorded_ids db' then 0 else 1) \<le> (if i \<in> recorded_ids db then 0 else 1) + unrecorded_runs i (c # calls)"
    using one(4) [of i] IH [THEN conjunct1] unfolding t u outs(2) by linarith
  have "outs \<noteq> [] \<and> (\<not> isl (fst (List.last outs)) \<longrightarrow> set (map fst (snd (snd (List.last (c # calls))))) \<subseteq> recorded_ids db')"
  proof (cases "calls = []")
    case True
    then show ?thesis using rest outs one(3) c by simp
  next
    case False
    then show ?thesis using IH outs by simp
  qed
  then show ?case using count IH one(2) outs by simp
qed


definition sample_faults :: run_faults where
  "sample_faults =
     \<lparr>rf_lock = None, rf_exists = None, rf_create = None, rf_read = None, rf_begin = (\<lambda>_. None), rf_commit = (\<lambda>_. None),
      rf_record = (\<lambda>_. None), rf_release = None, rf_now = (\<lambda>m. int (mg_version m))\<rparr>"

definition sample_registry :: migrations where
  "sample_registry =
     register_migration (migration_new ''b'' ''second'' 2 0) ''y'' ''y''
       (register_migration (migration_new ''a'' ''first'' 1 0) ''x;'' ''x;'' [])"

text \<open>The second migration fails in the first run, and both processes finish the rest in turn.\<close>

definition sample_server :: "string list server" where
  "sample_server = \<lparr>sv_execute = (\<lambda>st log. Inr (log @ [st])), sv_abandon = (\<lambda>a b. a)\<rparr>"

definition sample_calls :: "migration_call list" where
  "sample_calls =
     [(sample_faults\<lparr>rf_commit := (\<lambda>m. if mg_version m = 2 then Some ''lost'' else None)\<rparr>, (\<lambda>_. 1), sample_registry),
      (sample_faults, (\<lambda>_. 1), sample_registry)]"


end
