(* ===== verification/JobRow.thy ===== *)
theory JobRow
  imports JobSeal Retry Lifecycle
begin

text \<open>
  The row of a job in the database: \<open>src/src/queue/row.rs\<close>, the encoders of
  \<open>src/src/queue/backend.rs\<close>, and \<open>insert_jobs\<close> and \<open>JobRow::into_job\<close> of the PostgreSQL and MySQL
  backends with the \<open>encryption\<close> feature. A row is the values bound by \<open>insert_jobs\<close> and read by
  \<open>into_job\<close>; the server keeps them, up to the precision of its timestamps. The columns whose types
  differ between the databases go through a \<open>row_format\<close>; its laws are the locale \<open>row_codec\<close>, in which
  reading a row back is settled for both databases.
\<close>

subsection \<open>Jobs with their encryption fields\<close>

text \<open>The fields of \<open>Job\<close> that exist with the \<open>encryption\<close> feature only.\<close>

record sql_job = job +
  q_encryption_config :: "encryption_config option"
  q_retention_policy :: "retention_policy option"
  q_encrypted_payload :: "encrypted_payload option"

text \<open>The part of a job that sealing and opening use; the payload as a value.\<close>

definition as_crypt :: "json_value \<Rightarrow> sql_job \<Rightarrow> crypt_job" where
  "as_crypt v q =
     \<lparr>cj_id = j_id q, cj_queue_name = j_queue_name q, cj_payload = v, cj_status = j_status q,
      cj_encryption_config = q_encryption_config q, cj_pii_fields = j_pii_fields q,
      cj_retention_policy = q_retention_policy q, cj_is_encrypted = j_is_encrypted q,
      cj_encrypted_payload = q_encrypted_payload q\<rparr>"

text \<open>
  What the code takes from other crates: identifiers and timestamps as text (uuid, chrono), the
  floating point unit, base64 and the texts of decoding errors.
\<close>

record row_env =
  re_externs :: externs
  re_uuid_parse :: "string \<Rightarrow> string + uuid"
  re_time_text :: "time \<Rightarrow> string"
  re_floats :: float_env
  re_crypto :: crypto
  re_serde_text :: "serde_error \<Rightarrow> string"
  re_list_error :: "json_value \<Rightarrow> string"

subsection \<open>Scalar columns\<close>

definition i32_max :: int where
  "i32_max = 2 ^ 31 - 1"

definition i64_max :: int where
  "i64_max = 2 ^ 63 - 1"

definition timeout_db_seconds :: "duration option \<Rightarrow> int option" where
  "timeout_db_seconds timeout =
     (case timeout of
        None \<Rightarrow> None
      | Some d \<Rightarrow>
          if d = 0 then None
          else
            (let seconds = min (d div 10 ^ 9 + (if 0 < d mod 10 ^ 9 then 1 else 0)) (2 ^ 64 - 1) in
             Some (if int seconds \<le> i32_max then int seconds else i32_max)))"

definition saturating_i64 :: "nat \<Rightarrow> int" where
  "saturating_i64 v = (if int v \<le> i64_max then int v else i64_max)"

text \<open>\<open>db_int\<close> at \<open>u64\<close> and \<open>usize\<close>.\<close>

definition db_int :: "int \<Rightarrow> string \<Rightarrow> nat res" where
  "db_int v column =
     (if 0 \<le> v \<and> v < 2 ^ 64 then Inr (nat v)
      else Inl (QueueError (column @ '' read from the database is out of range: '' @ show_int v)))"

definition db_seconds :: "int \<Rightarrow> string \<Rightarrow> duration res" where
  "db_seconds v column = (case db_int v column of Inl e \<Rightarrow> Inl e | Inr s \<Rightarrow> Inr (s * 10 ^ 9))"

fun result_storage_str :: "result_storage \<Rightarrow> string" where
  "result_storage_str RsDatabase = ''database''"
| "result_storage_str RsMemory = ''memory''"
| "result_storage_str RsNone = ''none''"

definition result_storage_from_db :: "string option \<Rightarrow> result_storage" where
  "result_storage_from_db v =
     (if v = Some ''database'' then RsDatabase else if v = Some ''memory'' then RsMemory else RsNone)"

definition job_status_from_row :: "string \<Rightarrow> job_status res" where
  "job_status_from_row v =
     (case job_status_from_db v of
        None \<Rightarrow> Inl (ProcessingError (''Unknown job status: '' @ trim_quotes v))
      | Some s \<Rightarrow> Inr s)"

definition dependency_status_from_row :: "string option \<Rightarrow> dependency_status res" where
  "dependency_status_from_row v = (case v of None \<Rightarrow> Inr DepNone | Some s \<Rightarrow> dependency_status_parse s)"

text \<open>\<open>Option::map\<close> with a fallible function, then \<open>transpose\<close>.\<close>

definition map_transpose :: "('a \<Rightarrow> 'e + 'b) \<Rightarrow> 'a option \<Rightarrow> 'e + 'b option" where
  "map_transpose f v = (case v of None \<Rightarrow> Inr None | Some x \<Rightarrow> (case f x of Inl e \<Rightarrow> Inl e | Inr y \<Rightarrow> Inr (Some y)))"

definition retry_strategy_json :: "row_env \<Rightarrow> job_id \<Rightarrow> retry_strategy option \<Rightarrow> serde_value option res" where
  "retry_strategy_json R i strategy =
     (case strategy of
        None \<Rightarrow> Inr None
      | Some (Custom a f) \<Rightarrow>
          Inl (InvalidJobPayload (''job '' @ uuid_show (re_externs R) i
            @ '' has a custom retry strategy, which cannot be stored; use Worker::with_default_retry_strategy for custom strategies''))
      | Some s \<Rightarrow>
          (case retry_serialize s of Inl e \<Rightarrow> Inl (SerializationError (re_serde_text R e)) | Inr v \<Rightarrow> Inr (Some v)))"

definition retry_strategy_from_json :: "row_env \<Rightarrow> serde_value option \<Rightarrow> retry_strategy option res" where
  "retry_strategy_from_json R v =
     map_transpose (\<lambda>v. case retry_deserialize (re_floats R) v of
        Inl e \<Rightarrow> Inl (SerializationError (re_serde_text R e)) | Inr s \<Rightarrow> Inr s) v"

subsection \<open>Encryption columns\<close>

record encryption_columns =
  co_is_encrypted :: bool
  co_key_id :: "string option"
  co_algorithm :: "string option"
  co_ciphertext :: "bytes option"
  co_nonce :: "bytes option"
  co_tag :: "bytes option"
  co_metadata :: "json_value option"
  co_payload_hash :: "string option"
  co_retention_policy :: "string option"
  co_retention_delete_at :: "time option"
  co_encrypted_at :: "time option"

definition encryption_columns_default :: encryption_columns where
  "encryption_columns_default =
     \<lparr>co_is_encrypted = False, co_key_id = None, co_algorithm = None, co_ciphertext = None, co_nonce = None, co_tag = None,
      co_metadata = None, co_payload_hash = None, co_retention_policy = None, co_retention_delete_at = None, co_encrypted_at = None\<rparr>"

text \<open>The derived \<open>Serialize\<close> of \<open>RetentionPolicy\<close> and \<open>EncryptionMetadata\<close>.\<close>

fun retention_json :: "row_env \<Rightarrow> retention_policy \<Rightarrow> json_value" where
  "retention_json R (DeleteAfter d) =
     JObject [(''DeleteAfter'', JObject [(''secs'', JNumber (of_nat (d div 10 ^ 9))), (''nanos'', JNumber (of_nat (d mod 10 ^ 9)))])]"
| "retention_json R (DeleteAt t) = JObject [(''DeleteAt'', JString (re_time_text R t))]"
| "retention_json R KeepIndefinitely = JString ''KeepIndefinitely''"
| "retention_json R DeleteImmediately = JString ''DeleteImmediately''"
| "retention_json R UseDefault = JString ''UseDefault''"

definition metadata_json :: "row_env \<Rightarrow> encryption_metadata \<Rightarrow> json_value" where
  "metadata_json R m =
     JObject [(''algorithm'', JString (algorithm_str (em_algorithm m))),
       (''key_id'', JString (em_key_id m)),
       (''config_version'', JNumber (of_nat (em_config_version m))),
       (''compressed'', JBool (em_compressed m)),
       (''encrypted_fields'', JArray (map JString (em_encrypted_fields m))),
       (''retention_policy'', retention_json R (em_retention_policy m)),
       (''encrypted_at'', JString (re_time_text R (em_encrypted_at m))),
       (''delete_at'', (case em_delete_at m of None \<Rightarrow> JNull | Some t \<Rightarrow> JString (re_time_text R t))),
       (''payload_hash'', JString (em_payload_hash m)),
       (''format_version'', JNumber (of_nat (em_format_version m)))]"

fun retention_column :: "retention_policy \<Rightarrow> time option \<Rightarrow> string" where
  "retention_column (DeleteAfter d) delete_at = (if delete_at = None then ''KeepIndefinitely'' else ''DeleteAfter'')"
| "retention_column (DeleteAt t) delete_at = ''DeleteAt''"
| "retention_column KeepIndefinitely delete_at = ''KeepIndefinitely''"
| "retention_column DeleteImmediately delete_at = ''DeleteImmediately''"
| "retention_column UseDefault delete_at = ''UseDefault''"

definition columns_for_job :: "row_env \<Rightarrow> sql_job \<Rightarrow> encryption_columns res" where
  "columns_for_job R q =
     (if \<not> j_is_encrypted q then
        if q_encryption_config q \<noteq> None then
          Inl (EncryptionError (''Job '' @ uuid_show (re_externs R) (j_id q)
            @ '' has an encryption config but its payload was not encrypted''))
        else Inr encryption_columns_default
      else
        (case q_encrypted_payload q of
           None \<Rightarrow>
             Inl (EncryptionError (''Job '' @ uuid_show (re_externs R) (j_id q) @ '' is marked encrypted but has no encrypted payload''))
         | Some ep \<Rightarrow>
             (case b64_decode (re_crypto R) (ep_ciphertext ep) of
                Inl e \<Rightarrow> Inl (encryption_failure e)
              | Inr ciphertext \<Rightarrow>
             (case b64_decode (re_crypto R) (ep_nonce ep) of
                Inl e \<Rightarrow> Inl (encryption_failure e)
              | Inr nonce \<Rightarrow>
             (case b64_decode (re_crypto R) (ep_tag ep) of
                Inl e \<Rightarrow> Inl (encryption_failure e)
              | Inr tag \<Rightarrow>
                  (let m = ep_metadata ep in
                   Inr \<lparr>co_is_encrypted = True, co_key_id = Some (em_key_id m),
                     co_algorithm = Some (algorithm_str (em_algorithm m)),
                     co_ciphertext = Some ciphertext, co_nonce = Some nonce, co_tag = Some tag,
                     co_metadata = Some (metadata_json R m), co_payload_hash = Some (em_payload_hash m),
                     co_retention_policy = Some (retention_column (em_retention_policy m) (em_delete_at m)),
                     co_retention_delete_at = em_delete_at m, co_encrypted_at = Some (em_encrypted_at m)\<rparr>))))))"

text \<open>The accessors of \<open>serde_json::Value\<close>, and \<open>as u32\<close>.\<close>

fun json_get :: "string \<Rightarrow> json_value \<Rightarrow> json_value option" where
  "json_get k (JObject kvs) = map_of kvs k"
| "json_get k _ = None"

fun json_as_str :: "json_value \<Rightarrow> string option" where
  "json_as_str (JString s) = Some s"
| "json_as_str _ = None"

fun json_as_bool :: "json_value \<Rightarrow> bool option" where
  "json_as_bool (JBool b) = Some b"
| "json_as_bool _ = None"

fun json_as_u64 :: "json_value \<Rightarrow> nat option" where
  "json_as_u64 (JNumber r) = (if r = of_int \<lfloor>r\<rfloor> \<and> 0 \<le> r \<and> r < 2 ^ 64 then Some (nat \<lfloor>r\<rfloor>) else None)"
| "json_as_u64 _ = None"

fun json_as_array :: "json_value \<Rightarrow> json_value list option" where
  "json_as_array (JArray vs) = Some vs"
| "json_as_array _ = None"

definition as_u32 :: "nat \<Rightarrow> nat" where
  "as_u32 v = v mod 2 ^ 32"

definition format_version_from_json :: "json_value \<Rightarrow> nat" where
  "format_version_from_json v =
     (case Option.bind (json_get ''format_version'' v) json_as_u64 of
        None \<Rightarrow> FORMAT_UNBOUND | Some n \<Rightarrow> min n (2 ^ 32 - 1))"

record encryption_row =
  er_columns :: encryption_columns
  er_created_at :: time
  er_pii_fields :: "string list"

definition row_encryption_config :: "encryption_row \<Rightarrow> encryption_config option res" where
  "row_encryption_config r =
     (let c = er_columns r in
      if \<not> co_is_encrypted c then Inr None
      else
        (case (case co_algorithm c of
                 None \<Rightarrow> Inl (ProcessingError ''Missing encryption algorithm for encrypted job'')
               | Some s \<Rightarrow>
                   if s = ''AES256GCM'' then Inr AES256GCM
                   else if s = ''ChaCha20Poly1305'' then Inr ChaCha20Poly1305
                   else Inl (ProcessingError (''Unknown encryption algorithm: '' @ s))) of
           Inl e \<Rightarrow> Inl e
         | Inr a \<Rightarrow>
             (let (key_id, compressed, version) =
                (case co_metadata c of
                   Some m \<Rightarrow>
                     (Option.bind (json_get ''key_id'' m) json_as_str,
                      unwrap_or (Option.bind (json_get ''compressed'' m) json_as_bool) False,
                      as_u32 (unwrap_or (Option.bind (json_get ''config_version'' m) json_as_u64) 1))
                 | None \<Rightarrow> (co_key_id c, False, 1)) in
              Inr (Some \<lparr>ec_algorithm = a, ec_key_source = KsExternal (unwrap_or key_id ''unknown''),
                ec_key_rotation_enabled = False, ec_key_rotation_interval = None, ec_default_retention = None,
                ec_compression_enabled = compressed, ec_key_id = co_key_id c, ec_version = version\<rparr>))))"

definition row_retention_policy :: "encryption_row \<Rightarrow> retention_policy option res" where
  "row_retention_policy r =
     (case co_retention_policy (er_columns r) of
        None \<Rightarrow> Inr None
      | Some p \<Rightarrow>
          if p = ''KeepIndefinitely'' then Inr (Some KeepIndefinitely)
          else if p = ''DeleteImmediately'' then Inr (Some DeleteImmediately)
          else if p = ''UseDefault'' then Inr (Some UseDefault)
          else
            (case co_retention_delete_at (er_columns r) of
               None \<Rightarrow>
                 Inl (ProcessingError (''Retention policy '' @ CHR 0x27 # p @ CHR 0x27 # '' requires retention_delete_at timestamp''))
             | Some delete_at \<Rightarrow>
                 if p = ''DeleteAt'' then Inr (Some (DeleteAt delete_at))
                 else if p = ''DeleteAfter'' then
                   (let d = delete_at - er_created_at r in
                    if 0 \<le> d then Inr (Some (DeleteAfter (nat d))) else Inr (Some UseDefault))
                 else Inl (ProcessingError (''Unknown retention policy: '' @ p))))"

definition row_metadata :: "encryption_row \<Rightarrow> retention_policy \<Rightarrow> encryption_metadata" where
  "row_metadata r retention =
     (let c = er_columns r;
          a = (if co_algorithm c = Some ''ChaCha20Poly1305'' then ChaCha20Poly1305 else AES256GCM);
          encrypted_at = unwrap_or (co_encrypted_at c) (er_created_at r);
          hash = unwrap_or (co_payload_hash c) [] in
      (case co_metadata c of
         Some m \<Rightarrow>
           \<lparr>em_algorithm = a,
            em_key_id = unwrap_or (opt_or (Option.bind (json_get ''key_id'' m) json_as_str) (co_key_id c)) ''unknown'',
            em_config_version = as_u32 (unwrap_or (Option.bind (json_get ''config_version'' m) json_as_u64) 1),
            em_compressed = unwrap_or (Option.bind (json_get ''compressed'' m) json_as_bool) False,
            em_encrypted_fields =
              (case Option.bind (json_get ''encrypted_fields'' m) json_as_array of
                 Some vs \<Rightarrow> List.map_filter json_as_str vs | None \<Rightarrow> er_pii_fields r),
            em_retention_policy = retention, em_encrypted_at = encrypted_at, em_delete_at = co_retention_delete_at c,
            em_payload_hash = hash, em_format_version = format_version_from_json m\<rparr>
       | None \<Rightarrow>
           \<lparr>em_algorithm = a, em_key_id = unwrap_or (co_key_id c) ''unknown'', em_config_version = 1, em_compressed = False,
            em_encrypted_fields = er_pii_fields r, em_retention_policy = retention, em_encrypted_at = encrypted_at,
            em_delete_at = co_retention_delete_at c, em_payload_hash = hash, em_format_version = FORMAT_UNBOUND\<rparr>))"

definition row_encrypted_payload :: "row_env \<Rightarrow> encryption_row \<Rightarrow> encrypted_payload option res" where
  "row_encrypted_payload R r =
     (let c = er_columns r in
      if \<not> co_is_encrypted c then Inr None
      else
        (case co_ciphertext c of
           None \<Rightarrow> Inl (ProcessingError ''Missing encrypted payload for encrypted job'')
         | Some ct \<Rightarrow>
        (case co_nonce c of
           None \<Rightarrow> Inl (ProcessingError ''Missing encryption nonce for encrypted job'')
         | Some nonce \<Rightarrow>
        (case co_tag c of
           None \<Rightarrow> Inl (ProcessingError ''Missing encryption tag for encrypted job'')
         | Some tag \<Rightarrow>
        (case row_retention_policy r of
           Inl e \<Rightarrow> Inl e
         | Inr retention \<Rightarrow>
             Inr (Some \<lparr>ep_ciphertext = cr_b64_encode (re_crypto R) ct, ep_nonce = cr_b64_encode (re_crypto R) nonce,
               ep_tag = cr_b64_encode (re_crypto R) tag, ep_metadata = row_metadata r (unwrap_or retention UseDefault)\<rparr>))))))"

definition row_decode ::
  "row_env \<Rightarrow> encryption_row \<Rightarrow> (encryption_config option \<times> retention_policy option \<times> encrypted_payload option) res" where
  "row_decode R r =
     (case row_encryption_config r of
        Inl e \<Rightarrow> Inl e
      | Inr config \<Rightarrow>
     (case row_retention_policy r of
        Inl e \<Rightarrow> Inl e
      | Inr retention \<Rightarrow>
     (case row_encrypted_payload R r of
        Inl e \<Rightarrow> Inl e
      | Inr ep \<Rightarrow> Inr (config, retention, ep))))"

subsection \<open>Rows of both databases\<close>

text \<open>
  PostgreSQL has columns of identifiers and lists of them; MySQL keeps identifiers as text and
  lists as JSON. A format encodes identifiers, lists of identifiers and lists of names, and decodes
  the column of the given name.
\<close>

record ('i, 'l, 'n) row_format =
  rw_id :: "uuid \<Rightarrow> 'i"
  rw_parse_id :: "'i \<Rightarrow> uuid res"
  rw_ids :: "uuid list \<Rightarrow> 'l"
  rw_parse_ids :: "'l \<Rightarrow> string \<Rightarrow> uuid list res"
  rw_names :: "string list option \<Rightarrow> 'n"
  rw_parse_names :: "'n \<Rightarrow> string list res"

definition postgres_format :: "(uuid, uuid list, string list option) row_format" where
  "postgres_format =
     \<lparr>rw_id = (\<lambda>i. i), rw_parse_id = Inr, rw_ids = (\<lambda>is. is), rw_parse_ids = (\<lambda>is column. Inr is),
      rw_names = (\<lambda>ns. ns), rw_parse_names = (\<lambda>ns. Inr (unwrap_or ns []))\<rparr>"

text \<open>\<open>serde_json::from_value\<close> for a list whose items are read by \<open>item\<close>.\<close>

fun json_items :: "(json_value \<Rightarrow> 'a option) \<Rightarrow> json_value list \<Rightarrow> 'a list option" where
  "json_items item [] = Some []"
| "json_items item (v # vs) =
     (case item v of None \<Rightarrow> None | Some x \<Rightarrow> (case json_items item vs of None \<Rightarrow> None | Some xs \<Rightarrow> Some (x # xs)))"

definition json_list :: "row_env \<Rightarrow> (json_value \<Rightarrow> 'a option) \<Rightarrow> json_value option \<Rightarrow> string \<Rightarrow> 'a list res" where
  "json_list R item v column =
     (case v of
        None \<Rightarrow> Inr []
      | Some JNull \<Rightarrow> Inr []
      | Some v \<Rightarrow>
          (case Option.bind (json_as_array v) (json_items item) of
             None \<Rightarrow> Inl (QueueError (''Invalid '' @ column @ '' column: '' @ re_list_error R v))
           | Some xs \<Rightarrow> Inr xs))"

definition json_as_uuid :: "row_env \<Rightarrow> json_value \<Rightarrow> uuid option" where
  "json_as_uuid R v = Option.bind (json_as_str v) (\<lambda>s. ok_of (re_uuid_parse R s))"

definition mysql_format :: "row_env \<Rightarrow> (string, json_value option, json_value option) row_format" where
  "mysql_format R =
     \<lparr>rw_id = uuid_show (re_externs R),
      rw_parse_id = (\<lambda>s. case re_uuid_parse R s of Inl e \<Rightarrow> Inl (UuidParsing e) | Inr i \<Rightarrow> Inr i),
      rw_ids = (\<lambda>is. Some (JArray (map (\<lambda>i. JString (uuid_show (re_externs R) i)) is))),
      rw_parse_ids = json_list R (json_as_uuid R),
      rw_names = map_option (\<lambda>ns. JArray (map JString ns)),
      rw_parse_names = (\<lambda>v. json_list R json_as_str v ''pii_fields'')\<rparr>"

record ('i, 'l, 'n) job_row =
  jr_id :: 'i
  jr_queue_name :: string
  jr_payload :: json
  jr_status :: string
  jr_priority :: int
  jr_attempts :: int
  jr_max_attempts :: int
  jr_timeout_seconds :: "int option"
  jr_created_at :: time
  jr_scheduled_at :: time
  jr_started_at :: "time option"
  jr_completed_at :: "time option"
  jr_failed_at :: "time option"
  jr_timed_out_at :: "time option"
  jr_error_message :: "string option"
  jr_cron_schedule :: "string option"
  jr_next_run_at :: "time option"
  jr_recurring :: bool
  jr_timezone :: "string option"
  jr_batch_id :: "'i option"
  jr_result_data :: "json option"
  jr_result_stored_at :: "time option"
  jr_result_expires_at :: "time option"
  jr_result_storage_type :: "string option"
  jr_result_ttl_seconds :: "int option"
  jr_result_max_size_bytes :: "int option"
  jr_depends_on :: 'l
  jr_dependents :: 'l
  jr_dependency_status :: "string option"
  jr_workflow_id :: "'i option"
  jr_workflow_name :: "string option"
  jr_trace_id :: "string option"
  jr_correlation_id :: "string option"
  jr_parent_span_id :: "string option"
  jr_span_context :: "string option"
  jr_retry_strategy :: "serde_value option"
  jr_pii_fields :: 'n
  jr_encryption :: encryption_columns

definition pii_fields_column :: "'a job_scheme \<Rightarrow> string list option" where
  "pii_fields_column j = (if j_pii_fields j = [] then None else Some (j_pii_fields j))"

text \<open>
  The row \<open>insert_jobs\<close> binds for one job, its fallible columns encoded first. The columns of the
  result are not written.
\<close>

definition bound_row ::
  "('i, 'l, 'n) row_format \<Rightarrow> sql_job \<Rightarrow> serde_value option \<Rightarrow> encryption_columns \<Rightarrow> ('i, 'l, 'n) job_row" where
  "bound_row W q strategy encryption =
     \<lparr>jr_id = rw_id W (j_id q), jr_queue_name = j_queue_name q, jr_payload = j_payload q,
      jr_status = job_status_str (j_status q), jr_priority = as_i32 (j_priority q),
      jr_attempts = j_attempts q, jr_max_attempts = j_max_attempts q,
      jr_timeout_seconds = timeout_db_seconds (j_timeout q),
      jr_created_at = j_created_at q, jr_scheduled_at = j_scheduled_at q, jr_started_at = j_started_at q,
      jr_completed_at = j_completed_at q, jr_failed_at = j_failed_at q, jr_timed_out_at = j_timed_out_at q,
      jr_error_message = j_error_message q, jr_cron_schedule = j_cron_schedule q, jr_next_run_at = j_next_run_at q,
      jr_recurring = j_recurring q, jr_timezone = j_timezone q, jr_batch_id = map_option (rw_id W) (j_batch_id q),
      jr_result_data = None, jr_result_stored_at = None, jr_result_expires_at = None,
      jr_result_storage_type = Some (result_storage_str (rc_storage (j_result_config q))),
      jr_result_ttl_seconds = map_option (\<lambda>d. saturating_i64 (d div 10 ^ 9)) (rc_ttl (j_result_config q)),
      jr_result_max_size_bytes = map_option saturating_i64 (rc_max_size_bytes (j_result_config q)),
      jr_depends_on = rw_ids W (j_depends_on q), jr_dependents = rw_ids W (j_dependents q),
      jr_dependency_status = Some (dependency_status_str (j_dependency_status q)),
      jr_workflow_id = map_option (rw_id W) (j_workflow_id q), jr_workflow_name = j_workflow_name q,
      jr_trace_id = j_trace_id q, jr_correlation_id = j_correlation_id q, jr_parent_span_id = j_parent_span_id q,
      jr_span_context = j_span_context q, jr_retry_strategy = strategy,
      jr_pii_fields = rw_names W (pii_fields_column q), jr_encryption = encryption\<rparr>"

definition insert_job_row :: "row_env \<Rightarrow> ('i, 'l, 'n) row_format \<Rightarrow> sql_job \<Rightarrow> ('i, 'l, 'n) job_row res" where
  "insert_job_row R W q =
     (case retry_strategy_json R (j_id q) (j_retry_strategy q) of
        Inl e \<Rightarrow> Inl e
      | Inr strategy \<Rightarrow>
          (case columns_for_job R q of Inl e \<Rightarrow> Inl e | Inr encryption \<Rightarrow> Inr (bound_row W q strategy encryption)))"

text \<open>MySQL's \<open>DATETIME(6)\<close> holds the years 1000 to 9999.\<close>

definition timestamp_range :: "time \<times> time" where
  "timestamp_range = (- 30610224000 * 10 ^ 9, 253402300799 * 10 ^ 9 + 999999000)"

definition check_timestamp :: "row_env \<Rightarrow> time \<Rightarrow> string \<Rightarrow> unit res" where
  "check_timestamp R v what =
     (let (lo, hi) = timestamp_range in
      if v < lo \<or> hi < v then
        Inl (InvalidJobPayload (what @ '' '' @ re_time_text R v @ '' is outside the range MySQL DATETIME columns can store (''
          @ re_time_text R lo @ '' to '' @ re_time_text R hi @ '')''))
      else Inr ())"

fun check_timestamps :: "row_env \<Rightarrow> (time option \<times> string) list \<Rightarrow> unit res" where
  "check_timestamps R [] = Inr ()"
| "check_timestamps R ((None, what) # rest) = check_timestamps R rest"
| "check_timestamps R ((Some v, what) # rest) =
     (case check_timestamp R v what of Inl e \<Rightarrow> Inl e | Inr _ \<Rightarrow> check_timestamps R rest)"

definition check_job_timestamps :: "row_env \<Rightarrow> sql_job \<Rightarrow> unit res" where
  "check_job_timestamps R q =
     check_timestamps R
       [(Some (j_created_at q), ''created_at''), (Some (j_scheduled_at q), ''scheduled_at''), (j_next_run_at q, ''next_run_at''),
        (j_started_at q, ''started_at''), (j_completed_at q, ''completed_at''), (j_failed_at q, ''failed_at''),
        (j_timed_out_at q, ''timed_out_at''), (j_result_expires_at q, ''result_expires_at'')]"

definition postgres_insert_job :: "row_env \<Rightarrow> sql_job \<Rightarrow> (uuid, uuid list, string list option) job_row res" where
  "postgres_insert_job R q = insert_job_row R postgres_format q"

definition mysql_insert_job :: "row_env \<Rightarrow> sql_job \<Rightarrow> (string, json_value option, json_value option) job_row res" where
  "mysql_insert_job R q =
     (case check_job_timestamps R q of Inl e \<Rightarrow> Inl e | Inr _ \<Rightarrow> insert_job_row R (mysql_format R) q)"

definition into_job :: "row_env \<Rightarrow> ('i, 'l, 'n) row_format \<Rightarrow> ('i, 'l, 'n) job_row \<Rightarrow> sql_job res" where
  "into_job R W r =
     (case rw_parse_names W (jr_pii_fields r) of Inl e \<Rightarrow> Inl e | Inr pii \<Rightarrow>
     (case row_decode R \<lparr>er_columns = jr_encryption r, er_created_at = jr_created_at r, er_pii_fields = pii\<rparr> of
        Inl e \<Rightarrow> Inl e | Inr (config, retention, ep) \<Rightarrow>
     (case rw_parse_id W (jr_id r) of Inl e \<Rightarrow> Inl e | Inr i \<Rightarrow>
     (case job_status_from_row (jr_status r) of Inl e \<Rightarrow> Inl e | Inr status \<Rightarrow>
     (case map_transpose (\<lambda>s. db_seconds s ''timeout_seconds'') (jr_timeout_seconds r) of Inl e \<Rightarrow> Inl e | Inr timeout \<Rightarrow>
     (case map_transpose (rw_parse_id W) (jr_batch_id r) of Inl e \<Rightarrow> Inl e | Inr batch_id \<Rightarrow>
     (case map_transpose (\<lambda>s. db_seconds s ''result_ttl_seconds'') (jr_result_ttl_seconds r) of Inl e \<Rightarrow> Inl e | Inr ttl \<Rightarrow>
     (case map_transpose (\<lambda>b. db_int b ''result_max_size_bytes'') (jr_result_max_size_bytes r) of Inl e \<Rightarrow> Inl e | Inr max_size \<Rightarrow>
     (case retry_strategy_from_json R (jr_retry_strategy r) of Inl e \<Rightarrow> Inl e | Inr strategy \<Rightarrow>
     (case rw_parse_ids W (jr_depends_on r) ''depends_on'' of Inl e \<Rightarrow> Inl e | Inr depends_on \<Rightarrow>
     (case rw_parse_ids W (jr_dependents r) ''dependents'' of Inl e \<Rightarrow> Inl e | Inr dependents \<Rightarrow>
     (case dependency_status_from_row (jr_dependency_status r) of Inl e \<Rightarrow> Inl e | Inr dependency_status \<Rightarrow>
     (case map_transpose (rw_parse_id W) (jr_workflow_id r) of Inl e \<Rightarrow> Inl e | Inr workflow_id \<Rightarrow>
        Inr \<lparr>j_id = i, j_queue_name = jr_queue_name r, j_payload = jr_payload r, j_status = status,
          j_attempts = jr_attempts r, j_max_attempts = jr_max_attempts r,
          j_created_at = jr_created_at r, j_scheduled_at = jr_scheduled_at r, j_started_at = jr_started_at r,
          j_completed_at = jr_completed_at r, j_failed_at = jr_failed_at r, j_timed_out_at = jr_timed_out_at r,
          j_timeout = timeout, j_error_message = jr_error_message r, j_priority = priority_or_normal (jr_priority r),
          j_cron_schedule = jr_cron_schedule r, j_next_run_at = jr_next_run_at r, j_recurring = jr_recurring r,
          j_timezone = jr_timezone r, j_batch_id = batch_id,
          j_result_config = \<lparr>rc_storage = result_storage_from_db (jr_result_storage_type r), rc_ttl = ttl, rc_max_size_bytes = max_size\<rparr>,
          j_result_data = jr_result_data r, j_result_stored_at = jr_result_stored_at r, j_result_expires_at = jr_result_expires_at r,
          j_retry_strategy = strategy, j_depends_on = depends_on, j_dependents = dependents,
          j_dependency_status = dependency_status, j_workflow_id = workflow_id, j_workflow_name = jr_workflow_name r,
          j_trace_id = jr_trace_id r, j_correlation_id = jr_correlation_id r, j_parent_span_id = jr_parent_span_id r,
          j_span_context = jr_span_context r, j_pii_fields = pii, j_is_encrypted = co_is_encrypted (jr_encryption r),
          q_encryption_config = config, q_retention_policy = retention, q_encrypted_payload = ep\<rparr>)))))))))))))"

text \<open>A row as the server returns it: timestamps have the precision of their columns.\<close>

definition fetched_columns :: "(time \<Rightarrow> time) \<Rightarrow> encryption_columns \<Rightarrow> encryption_columns" where
  "fetched_columns T c =
     c\<lparr>co_retention_delete_at := map_option T (co_retention_delete_at c), co_encrypted_at := map_option T (co_encrypted_at c)\<rparr>"

definition fetched_row :: "(time \<Rightarrow> time) \<Rightarrow> ('i, 'l, 'n) job_row \<Rightarrow> ('i, 'l, 'n) job_row" where
  "fetched_row T r =
     r\<lparr>jr_created_at := T (jr_created_at r), jr_scheduled_at := T (jr_scheduled_at r),
       jr_started_at := map_option T (jr_started_at r), jr_completed_at := map_option T (jr_completed_at r),
       jr_failed_at := map_option T (jr_failed_at r), jr_timed_out_at := map_option T (jr_timed_out_at r),
       jr_next_run_at := map_option T (jr_next_run_at r), jr_encryption := fetched_columns T (jr_encryption r)\<rparr>"

definition postgres_read_back :: "row_env \<Rightarrow> (time \<Rightarrow> time) \<Rightarrow> sql_job \<Rightarrow> sql_job res" where
  "postgres_read_back R T q =
     (case postgres_insert_job R q of Inl e \<Rightarrow> Inl e | Inr r \<Rightarrow> into_job R postgres_format (fetched_row T r))"

definition mysql_read_back :: "row_env \<Rightarrow> (time \<Rightarrow> time) \<Rightarrow> sql_job \<Rightarrow> sql_job res" where
  "mysql_read_back R T q =
     (case mysql_insert_job R q of Inl e \<Rightarrow> Inl e | Inr r \<Rightarrow> into_job R (mysql_format R) (fetched_row T r))"

subsection \<open>What a row keeps\<close>

text \<open>
  The specification of reading back: a timeout is rounded up to whole seconds and no timeout if it
  is zero, a time to live is cut to whole seconds, retry delays to whole milliseconds; encrypted
  payloads keep everything but the precision of their timestamps, and a retention counted from the
  encryption is counted from the creation of the job.
\<close>

definition kept_timeout :: "duration option \<Rightarrow> duration option" where
  "kept_timeout t =
     (case t of
        None \<Rightarrow> None
      | Some d \<Rightarrow> if d = 0 then None else Some (min ((d + 10 ^ 9 - 1) div 10 ^ 9) (2 ^ 31 - 1) * 10 ^ 9))"

definition kept_result_config :: "result_config \<Rightarrow> result_config" where
  "kept_result_config c =
     c\<lparr>rc_ttl := map_option (\<lambda>d. min (d div 10 ^ 9) (2 ^ 63 - 1) * 10 ^ 9) (rc_ttl c),
       rc_max_size_bytes := map_option (\<lambda>n. min n (2 ^ 63 - 1)) (rc_max_size_bytes c)\<rparr>"

fun kept_retention :: "(time \<Rightarrow> time) \<Rightarrow> time \<Rightarrow> retention_policy \<Rightarrow> time option \<Rightarrow> retention_policy" where
  "kept_retention T created (DeleteAfter d) None = KeepIndefinitely"
| "kept_retention T created (DeleteAfter d) (Some t) =
     (if T created \<le> T t then DeleteAfter (nat (T t - T created)) else UseDefault)"
| "kept_retention T created (DeleteAt u) (Some t) = DeleteAt (T t)"
| "kept_retention T created p t = p"

definition kept_metadata :: "(time \<Rightarrow> time) \<Rightarrow> time \<Rightarrow> encryption_metadata \<Rightarrow> encryption_metadata" where
  "kept_metadata T created m =
     m\<lparr>em_retention_policy := kept_retention T created (em_retention_policy m) (em_delete_at m),
       em_encrypted_at := T (em_encrypted_at m), em_delete_at := map_option T (em_delete_at m)\<rparr>"

definition kept_config :: "encryption_metadata \<Rightarrow> encryption_config" where
  "kept_config m =
     (encryption_config_new (em_algorithm m))
       \<lparr>ec_key_source := KsExternal (em_key_id m), ec_compression_enabled := em_compressed m, ec_key_id := Some (em_key_id m),
        ec_version := em_config_version m\<rparr>"

definition stored_copy :: "(time \<Rightarrow> time) \<Rightarrow> sql_job \<Rightarrow> sql_job" where
  "stored_copy T q =
     (let ep = (if j_is_encrypted q then q_encrypted_payload q else None); kept = map_option (kept_metadata T (j_created_at q) \<circ> ep_metadata) ep in
      q\<lparr>j_created_at := T (j_created_at q), j_scheduled_at := T (j_scheduled_at q), j_started_at := map_option T (j_started_at q),
        j_completed_at := map_option T (j_completed_at q), j_failed_at := map_option T (j_failed_at q),
        j_timed_out_at := map_option T (j_timed_out_at q), j_next_run_at := map_option T (j_next_run_at q),
        j_timeout := kept_timeout (j_timeout q), j_result_config := kept_result_config (j_result_config q),
        j_result_data := None, j_result_stored_at := None, j_result_expires_at := None,
        j_retry_strategy := map_option strategy_to_millis (j_retry_strategy q),
        q_encryption_config := map_option kept_config kept, q_retention_policy := map_option em_retention_policy kept,
        q_encrypted_payload := map_option (\<lambda>p. p\<lparr>ep_metadata := kept_metadata T (j_created_at q) (ep_metadata p)\<rparr>) ep\<rparr>)"

text \<open>
  What a stored job must be like: the text of a payload is base64, the counters of its metadata are
  32 bit integers and a deletion at a given time has that time.
\<close>

definition payload_ok :: "crypto \<Rightarrow> encrypted_payload \<Rightarrow> bool" where
  "payload_ok C ep \<longleftrightarrow>
     {ep_ciphertext ep, ep_nonce ep, ep_tag ep} \<subseteq> range (cr_b64_encode C)
     \<and> em_config_version (ep_metadata ep) < 2 ^ 32 \<and> em_format_version (ep_metadata ep) < 2 ^ 32
     \<and> ((\<exists>t. em_retention_policy (ep_metadata ep) = DeleteAt t) \<longrightarrow> em_delete_at (ep_metadata ep) \<noteq> None)"

definition storable :: "crypto \<Rightarrow> sql_job \<Rightarrow> bool" where
  "storable C q \<longleftrightarrow>
     (\<forall>a f. j_retry_strategy q \<noteq> Some (Custom a f))
     \<and> (if j_is_encrypted q then (\<exists>ep. q_encrypted_payload q = Some ep \<and> payload_ok C ep) else q_encryption_config q = None)"

lemma div_round_up:
  fixes d k :: nat
  assumes "0 < k"
  shows "(d + k - 1) div k = d div k + (if 0 < d mod k then 1 else 0)"
proof -
  have quot: "(r + q * k) div k = q" if "r < k" for r q using that by simp
  have split: "d div k * k + d mod k = d" and r: "d mod k < k" using assms by simp_all
  show ?thesis
  proof (cases "d mod k = 0")
    case True
    then have "d + k - 1 = (k - 1) + d div k * k" using assms split by linarith
    moreover have "((k - 1) + d div k * k) div k = d div k" using assms by (intro quot) linarith
    ultimately have "(d + k - 1) div k = d div k" by (rule ssubst)
    then show ?thesis using True by simp
  next
    case False
    then have "d + k - 1 = (d mod k - 1) + (d div k + 1) * k" using split distrib_right [of "d div k" 1 k] by linarith
    moreover have "((d mod k - 1) + (d div k + 1) * k) div k = d div k + 1" using r by (intro quot) linarith
    ultimately have "(d + k - 1) div k = d div k + 1" by (rule ssubst)
    then show ?thesis using False by simp
  qed
qed

lemma timeout_kept: "map_transpose (\<lambda>s. db_seconds s c) (timeout_db_seconds t) = Inr (kept_timeout t)"
proof (cases t)
  case (Some d)
  have up: "(d + 10 ^ 9 - 1) div 10 ^ 9 = d div 10 ^ 9 + (if 0 < d mod 10 ^ 9 then 1 else 0)"
    by (rule div_round_up) simp
  show ?thesis
    using Some up by (auto simp: map_transpose_def timeout_db_seconds_def kept_timeout_def db_seconds_def db_int_def i32_max_def Let_def min_def)
qed (simp add: map_transpose_def timeout_db_seconds_def kept_timeout_def)

lemma saturating_db_int [simp]: "db_int (saturating_i64 v) c = Inr (min v (2 ^ 63 - 1))"
  by (auto simp: db_int_def saturating_i64_def i64_max_def)

lemma result_config_kept:
  "map_transpose (\<lambda>s. db_seconds s c) (map_option (\<lambda>d. saturating_i64 (d div 10 ^ 9)) (rc_ttl rc)) = Inr (rc_ttl (kept_result_config rc))"
  "map_transpose (\<lambda>b. db_int b c) (map_option saturating_i64 (rc_max_size_bytes rc)) = Inr (rc_max_size_bytes (kept_result_config rc))"
  by (cases "rc_ttl rc"; simp add: map_transpose_def db_seconds_def kept_result_config_def)
    (cases "rc_max_size_bytes rc"; simp add: map_transpose_def kept_result_config_def)

lemma storage_kept [simp]: "result_storage_from_db (Some (result_storage_str s)) = s"
  by (cases s) (simp_all add: result_storage_from_db_def)

lemma status_kept [simp]: "job_status_from_row (job_status_str s) = Inr s"
  by (cases s) (simp_all add: job_status_from_row_def job_status_from_db_def trim_quotes_def Let_def)

lemma dependency_kept [simp]: "dependency_status_from_row (Some (dependency_status_str s)) = Inr s"
  by (cases s) (simp_all add: dependency_status_from_row_def dependency_status_parse_def)

lemma priority_kept [simp]: "priority_or_normal (as_i32 p) = p"
  using priority_int.decode_encode [of p] by (auto simp: priority_or_normal_def ok_of_def split: sum.splits)

lemma strategy_kept:
  assumes "\<forall>a f. s \<noteq> Some (Custom a f)"
  obtains v where "retry_strategy_json R i s = Inr v" "retry_strategy_from_json R v = Inr (map_option strategy_to_millis s)"
proof (cases s)
  case (Some x)
  then have "\<exists>v. retry_serialize x = Inr v" using assms by (cases x) auto
  then obtain v where v: "retry_serialize x = Inr v" by blast
  have "retry_strategy_json R i s = Inr (Some v)"
    using Some v assms by (cases x) (auto simp: retry_strategy_json_def)
  then show ?thesis
    using that [of "Some v"] Some retry_round_trip [OF v] by (simp add: retry_strategy_from_json_def map_transpose_def)
qed (use that in \<open>simp add: retry_strategy_json_def retry_strategy_from_json_def map_transpose_def\<close>)

subsection \<open>Encrypted payloads\<close>

lemma json_as_u64_nat [simp]: "n < 2 ^ 64 \<Longrightarrow> json_as_u64 (JNumber (of_nat n)) = Some n"
  by (simp add: of_nat_less_numeral_power_cancel_iff)

lemma map_filter_strings [simp]: "List.map_filter json_as_str (map JString xs) = xs"
  by (induction xs) (simp_all add: List.map_filter_simps)

lemma metadata_json_reads [simp]:
  "json_get ''key_id'' (metadata_json R m) = Some (JString (em_key_id m))"
  "json_get ''config_version'' (metadata_json R m) = Some (JNumber (of_nat (em_config_version m)))"
  "json_get ''compressed'' (metadata_json R m) = Some (JBool (em_compressed m))"
  "json_get ''encrypted_fields'' (metadata_json R m) = Some (JArray (map JString (em_encrypted_fields m)))"
  "json_get ''format_version'' (metadata_json R m) = Some (JNumber (of_nat (em_format_version m)))"
  by (simp_all add: metadata_json_def)

lemma retention_kept:
  assumes "co_retention_policy c = Some (retention_column p t)" "co_retention_delete_at c = map_option T t"
    "(\<exists>u. p = DeleteAt u) \<longrightarrow> t \<noteq> None"
  shows "row_retention_policy \<lparr>er_columns = c, er_created_at = T created, er_pii_fields = pii\<rparr> = Inr (Some (kept_retention T created p t))"
  using assms by (cases p; cases t) (simp_all add: row_retention_policy_def Let_def)

lemma b64_in_range:
  assumes "crypto_laws C" "s \<in> range (cr_b64_encode C)"
  obtains b where "b64_decode C s = Inr b" "cr_b64_encode C b = s"
  using assms by (auto simp: crypto_laws_def b64_decode_def)

text \<open>The encryption columns of a sealed job are decoded to what was encoded.\<close>

lemma columns_kept:
  assumes "crypto_laws (re_crypto R)" "storable (re_crypto R) q"
  obtains c where "columns_for_job R q = Inr c" "co_is_encrypted c = j_is_encrypted q"
    "row_decode R \<lparr>er_columns = fetched_columns T c, er_created_at = T (j_created_at q), er_pii_fields = j_pii_fields q\<rparr> =
       Inr (q_encryption_config (stored_copy T q), q_retention_policy (stored_copy T q), q_encrypted_payload (stored_copy T q))"
proof (cases "j_is_encrypted q")
  case False
  then show ?thesis
    using that [of encryption_columns_default] assms(2)
    by (simp add: storable_def columns_for_job_def encryption_columns_default_def row_decode_def row_encryption_config_def
        row_retention_policy_def row_encrypted_payload_def fetched_columns_def stored_copy_def Let_def)
next
  case True
  then obtain ep where ep: "q_encrypted_payload q = Some ep" "payload_ok (re_crypto R) ep" using assms(2) by (auto simp: storable_def)
  let ?m = "ep_metadata ep"
  obtain ct nonce tag where b64: "b64_decode (re_crypto R) (ep_ciphertext ep) = Inr ct" "cr_b64_encode (re_crypto R) ct = ep_ciphertext ep"
    "b64_decode (re_crypto R) (ep_nonce ep) = Inr nonce" "cr_b64_encode (re_crypto R) nonce = ep_nonce ep"
    "b64_decode (re_crypto R) (ep_tag ep) = Inr tag" "cr_b64_encode (re_crypto R) tag = ep_tag ep"
    using ep(2) b64_in_range [OF assms(1)] unfolding payload_ok_def by (metis insert_subset)
  obtain c where c: "columns_for_job R q = Inr c" "c = \<lparr>co_is_encrypted = True, co_key_id = Some (em_key_id ?m),
      co_algorithm = Some (algorithm_str (em_algorithm ?m)), co_ciphertext = Some ct, co_nonce = Some nonce, co_tag = Some tag,
      co_metadata = Some (metadata_json R ?m), co_payload_hash = Some (em_payload_hash ?m),
      co_retention_policy = Some (retention_column (em_retention_policy ?m) (em_delete_at ?m)),
      co_retention_delete_at = em_delete_at ?m, co_encrypted_at = Some (em_encrypted_at ?m)\<rparr>"
    using True ep(1) b64 by (simp add: columns_for_job_def Let_def)
  let ?r = "\<lparr>er_columns = fetched_columns T c, er_created_at = T (j_created_at q), er_pii_fields = j_pii_fields q\<rparr>"
  have ok: "em_config_version ?m < 2 ^ 32" "em_format_version ?m < 2 ^ 32" using ep(2) by (simp_all add: payload_ok_def)
  have ret: "row_retention_policy ?r = Inr (Some (kept_retention T (j_created_at q) (em_retention_policy ?m) (em_delete_at ?m)))"
    using ep(2) by (intro retention_kept) (auto simp: c fetched_columns_def payload_ok_def)
  have meta: "row_metadata ?r (kept_retention T (j_created_at q) (em_retention_policy ?m) (em_delete_at ?m)) = kept_metadata T (j_created_at q) ?m"
    using ok by (cases "em_algorithm ?m")
      (simp_all add: row_metadata_def kept_metadata_def c(2) fetched_columns_def as_u32_def format_version_from_json_def Let_def)
  have conf: "row_encryption_config ?r = Inr (Some (kept_config (kept_metadata T (j_created_at q) ?m)))"
    using ok by (cases "em_algorithm ?m")
      (simp_all add: row_encryption_config_def kept_config_def encryption_config_new_def kept_metadata_def c(2) fetched_columns_def as_u32_def Let_def)
  have pay: "row_encrypted_payload R ?r = Inr (Some (ep\<lparr>ep_metadata := kept_metadata T (j_created_at q) ?m\<rparr>))"
    using ret meta b64 by (simp add: row_encrypted_payload_def c(2) fetched_columns_def)
  show ?thesis
    using that [OF c(1)] True ep(1) conf ret pay c(2)
    by (simp add: row_decode_def stored_copy_def kept_metadata_def Let_def)
qed

subsection \<open>Reading a row back\<close>

locale row_codec =
  fixes W :: "('i, 'l, 'n) row_format"
  assumes parse_id: "rw_parse_id W (rw_id W i) = Inr i"
    and parse_ids: "rw_parse_ids W (rw_ids W is) c = Inr is"
    and parse_names: "rw_parse_names W (rw_names W (if ns = [] then None else Some ns)) = Inr ns"
begin

lemma parse_id_option: "map_transpose (rw_parse_id W) (map_option (rw_id W) i) = Inr i"
  by (cases i) (simp_all add: map_transpose_def parse_id)

lemma row_read_back:
  assumes "crypto_laws (re_crypto R)" "storable (re_crypto R) q"
  shows "\<exists>r. insert_job_row R W q = Inr r \<and> into_job R W (fetched_row T r) = Inr (stored_copy T q)"
proof -
  obtain v where v: "retry_strategy_json R (j_id q) (j_retry_strategy q) = Inr v"
    "retry_strategy_from_json R v = Inr (map_option strategy_to_millis (j_retry_strategy q))"
    using strategy_kept assms(2) unfolding storable_def by metis
  obtain c where c: "columns_for_job R q = Inr c" "co_is_encrypted c = j_is_encrypted q"
    "row_decode R \<lparr>er_columns = fetched_columns T c, er_created_at = T (j_created_at q), er_pii_fields = j_pii_fields q\<rparr> =
       Inr (q_encryption_config (stored_copy T q), q_retention_policy (stored_copy T q), q_encrypted_payload (stored_copy T q))"
    using columns_kept [OF assms] by metis
  have "into_job R W (fetched_row T (bound_row W q v c)) = Inr (stored_copy T q)"
    using c(2,3) v(2)
    by (simp add: into_job_def fetched_row_def bound_row_def pii_fields_column_def parse_id parse_ids parse_names parse_id_option
        timeout_kept result_config_kept [simplified])
      (simp add: stored_copy_def fetched_columns_def kept_result_config_def Let_def)
  then show ?thesis using v(1) c(1) by (simp add: insert_job_row_def)
qed

end

interpretation pg: row_codec postgres_format
  by unfold_locales (simp_all add: postgres_format_def)

text \<open>\<open>Uuid::parse_str\<close> reads what \<open>Uuid::to_string\<close> writes.\<close>

definition uuid_text_laws :: "row_env \<Rightarrow> bool" where
  "uuid_text_laws R \<longleftrightarrow> (\<forall>i. re_uuid_parse R (uuid_show (re_externs R) i) = Inr i)"

lemma json_items_map: "(\<And>x. item (f x) = Some x) \<Longrightarrow> json_items item (map f xs) = Some xs"
  by (induction xs) simp_all

lemma mysql_row_codec: "uuid_text_laws R \<Longrightarrow> row_codec (mysql_format R)"
  by unfold_locales
    (simp_all add: mysql_format_def uuid_text_laws_def json_list_def json_items_map json_as_uuid_def ok_of_def)


subsection \<open>Sealed jobs in the database\<close>

lemma kept_metadata_fields [simp]:
  "em_algorithm (kept_metadata T created m) = em_algorithm m" "em_key_id (kept_metadata T created m) = em_key_id m"
  "em_compressed (kept_metadata T created m) = em_compressed m" "em_encrypted_fields (kept_metadata T created m) = em_encrypted_fields m"
  "em_payload_hash (kept_metadata T created m) = em_payload_hash m" "em_format_version (kept_metadata T created m) = em_format_version m"
  by (simp_all add: kept_metadata_def)

lemma decrypt_value_kept [simp]:
  "decrypt_value C J ms (ep\<lparr>ep_metadata := kept_metadata T created (ep_metadata ep)\<rparr>) aad en = decrypt_value C J ms ep aad en"
  by (simp add: decrypt_value_def Let_def cong: option.case_cong sum.case_cong prod.case_cong if_cong)

lemma decrypt_kept [simp]:
  "decrypt_payload_with_associated_data C J ms s (ep\<lparr>ep_metadata := kept_metadata T created (ep_metadata ep)\<rparr>) aad en =
     decrypt_payload_with_associated_data C J ms s ep aad en"
  by (simp add: decrypt_payload_with_associated_data_def cong: sum.case_cong prod.case_cong bool.case_cong if_cong)

lemma open_job_kept:
  assumes "fst (open_job S s B j) = Inr x" "cj_is_encrypted j" "cj_encrypted_payload j = Some ep"
    and "cj_id y = cj_id j" "cj_queue_name y = cj_queue_name j" "cj_pii_fields y = cj_pii_fields j" "cj_payload y = cj_payload j"
    "cj_is_encrypted y" "cj_encrypted_payload y = Some (ep\<lparr>ep_metadata := kept_metadata T created (ep_metadata ep)\<rparr>)"
  shows "fst (open_job S s B y) = Inr (y\<lparr>cj_payload := cj_payload x, cj_is_encrypted := False, cj_encrypted_payload := None\<rparr>)"
proof -
  have "open_decrypt S s B y (ep\<lparr>ep_metadata := kept_metadata T created (ep_metadata ep)\<rparr>) = open_decrypt S s B j ep"
    using assms(4-6) by (simp add: open_decrypt_def decrypt_payload_def Let_def cong: if_cong)
  then show ?thesis
    using assms by (cases "open_decrypt S s B j ep") (auto simp: open_job_def split: sum.splits if_splits)
qed

lemma sealed_payload_ok:
  assumes "seal_job S en j = (Inr (), j', en')" "cj_encryption_config j \<noteq> None" "\<not> cj_is_encrypted j" "ec_version (en_config en) < 2 ^ 32"
  obtains ep where "cj_encrypted_payload j' = Some ep" "cj_is_encrypted j'" "payload_ok (se_crypto S) ep"
    "cj_id j' = cj_id j" "cj_queue_name j' = cj_queue_name j" "cj_pii_fields j' = cj_pii_fields j"
proof -
  obtain v stored found ep where seal: "seal_encrypt S en j v found = (Inr ep, en')" "j' = sealed_job stored ep j"
    using seal_job_Inr [OF assms(1-3)] by metis
  note enc = encrypt_associated_Inr [OF seal(1) [unfolded seal_encrypt_def]]
  have "em_config_version (ep_metadata ep) = ec_version (en_config en)"
    using enc by (auto simp: encrypt_value_def metadata_new_def encrypted_payload_new_def Let_def split: sum.splits if_splits)
  moreover have "{ep_ciphertext ep, ep_nonce ep, ep_tag ep} \<subseteq> range (cr_b64_encode (se_crypto S))"
    using encrypt_value_Inr [OF enc] by (metis empty_subsetI insert_subset rangeI)
  moreover have "em_retention_policy (ep_metadata ep) = DeleteAt t \<Longrightarrow> em_delete_at (ep_metadata ep) \<noteq> None" for t
    using encrypt_value_Inr [OF enc] by (metis calculate_deletion_time.simps(2) option.distinct(1))
  ultimately have "payload_ok (se_crypto S) (ep\<lparr>ep_metadata := (ep_metadata ep)\<lparr>em_format_version := FORMAT_JOB_BOUND\<rparr>\<rparr>)"
    using assms(4) by (auto simp: payload_ok_def FORMAT_JOB_BOUND_def)
  then show ?thesis using that seal(2) by (simp add: sealed_job_def)
qed

text \<open>
  C22: Sealed jobs survive the database. A job that a queue has sealed is inserted into either
  database and read back without error, and an engine that holds the key it was sealed with opens
  what was read: the handler gets the payload, the identifier, the queue and the fields of the job
  that was enqueued, in the clear.
\<close>
theorem stored_sealed_job_opens:
  assumes "crypto_laws (se_crypto S)" and "aead_ideal (se_crypto S)" and "json_round_trips (se_json S) (sealed_value j)"
    and "length (cl_nonce (se_reading S)) = NONCE_SIZE" and "cj_encryption_config j \<noteq> None" and "\<not> cj_is_encrypted j"
    and "cj_encrypted_payload j = None" and "ec_version (en_config en) < 2 ^ 32" and "seal_job S en j = (Inr (), as_crypt v q, en')"
    and "\<forall>a f. j_retry_strategy q \<noteq> Some (Custom a f)" and "uuid_text_laws R" and "\<not> isl (check_job_timestamps R q)"
    and "re_crypto R = se_crypto S" and "se_crypto S' = se_crypto S" and "se_json S' = se_json S"
    and "active_key en = Inr k" and "\<not> en_keys_poisoned B" and "en_keys B (engine_key_id en) = Some kv" and "k \<in> set (kv_candidates kv)"
    and "back \<in> {postgres_read_back R T q, mysql_read_back R T q}"
  shows "\<exists>q' x. back = Inr q' \<and> fst (open_job S' s B (as_crypt v q')) = Inr x \<and> cj_payload x = cj_payload j \<and> cj_id x = cj_id j
    \<and> cj_queue_name x = cj_queue_name j \<and> cj_pii_fields x = cj_pii_fields j \<and> \<not> cj_is_encrypted x"
proof -
  obtain ep where ep: "q_encrypted_payload q = Some ep" "j_is_encrypted q" "payload_ok (se_crypto S) ep"
    "j_id q = cj_id j" "j_queue_name q = cj_queue_name j" "j_pii_fields q = cj_pii_fields j"
    using sealed_payload_ok [OF assms(9,5,6,8)] by (auto simp: as_crypt_def)
  have ok: "storable (re_crypto R) q" "crypto_laws (re_crypto R)" using ep assms(1,10,13) by (simp_all add: storable_def)
  have read: "back = Inr (stored_copy T q)"
    using assms(12,20) pg.row_read_back [OF ok(2,1), of T] row_codec.row_read_back [OF mysql_row_codec [OF assms(11)] ok(2,1), of T]
    by (auto simp: postgres_read_back_def mysql_read_back_def postgres_insert_job_def mysql_insert_job_def split: sum.splits)
  have "fst (open_job S' s B (as_crypt v q)) = Inr j"
    by (rule held_key_opens [OF assms(1-7,9,14-19)])
  then have "fst (open_job S' s B (as_crypt v (stored_copy T q))) =
      Inr ((as_crypt v (stored_copy T q))\<lparr>cj_payload := cj_payload j, cj_is_encrypted := False, cj_encrypted_payload := None\<rparr>)"
    by (rule open_job_kept [where ep = ep and T = T and created = "j_created_at q"])
      (simp_all add: as_crypt_def stored_copy_def ep(1,2) Let_def)
  then show ?thesis using read ep by (simp add: as_crypt_def stored_copy_def Let_def)
qed

subsection \<open>Samples\<close>

definition sample_row_env :: row_env where
  "sample_row_env =
     \<lparr>re_externs = sample_externs\<lparr>uuid_show := (\<lambda>i. replicate i CHR ''x'')\<rparr>, re_uuid_parse = (\<lambda>s. Inr (length s)),
      re_time_text = (\<lambda>t. ''t''), re_floats = exact_floats, re_crypto = sample_crypto, re_serde_text = (\<lambda>e. ''invalid''),
      re_list_error = (\<lambda>v. ''invalid'')\<rparr>"

definition to_micros :: "time \<Rightarrow> time" where
  "to_micros t = t div 1000 * 1000"

text \<open>A job with the encryption fields of a sealed one.\<close>

definition sample_stored :: "crypt_job \<Rightarrow> sql_job" where
  "sample_stored c =
     job.extend
       ((job_new (cj_id c) 1234567 (cj_queue_name c) ''x'')\<lparr>j_status := cj_status c, j_pii_fields := cj_pii_fields c,
          j_is_encrypted := cj_is_encrypted c, j_timeout := Some 1500000000, j_depends_on := [4, 5],
          j_retry_strategy := Some (Fixed 2500000)\<rparr>)
       \<lparr>q_encryption_config = cj_encryption_config c, q_retention_policy = cj_retention_policy c,
        q_encrypted_payload = cj_encrypted_payload c\<rparr>"

lemma as_crypt_stored: "as_crypt (cj_payload c) (sample_stored c) = c"
  by (cases c) (simp add: as_crypt_def sample_stored_def job_new_def job.extend_def)

lemma sample_row_laws: "crypto_laws (re_crypto sample_row_env)" "uuid_text_laws sample_row_env"
  using sample_crypto_laws by (simp_all add: sample_row_env_def uuid_text_laws_def)

lemma sample_times: "check_job_timestamps sample_row_env (sample_stored c) = Inr ()"
  by (simp add: check_job_timestamps_def check_timestamp_def timestamp_range_def sample_stored_def job_new_def job.extend_def)

lemma sample_strategy: "\<forall>a f. j_retry_strategy (sample_stored c) \<noteq> Some (Custom a f)"
  by (simp add: sample_stored_def job_new_def job.extend_def)


lemma stored_sealed_job_opens_witness:
  "\<exists>c A q' x. seal_job sample_seal_env (sample_engine sample_v2) sample_secret = (Inr (), c, A) \<and> cj_payload c \<noteq> cj_payload sample_secret
     \<and> mysql_read_back sample_row_env to_micros (sample_stored c) = Inr q'
     \<and> fst (open_job sample_seal_env (sy_store sample_system) (sample_engine sample_v2) (as_crypt (cj_payload c) q')) = Inr x
     \<and> cj_payload x = cj_payload sample_secret"
proof -
  obtain c A where seal: "seal_job sample_seal_env (sample_engine sample_v2) sample_secret = (Inr (), c, A)"
    using sample_sealed by blast
  have laws: "crypto_laws (se_crypto sample_seal_env)" "aead_ideal (se_crypto sample_seal_env)"
    "length (cl_nonce (se_reading sample_seal_env)) = NONCE_SIZE" "re_crypto sample_row_env = se_crypto sample_seal_env"
    using sample_crypto_laws by (simp_all add: sample_seal_env_def sample_reading_def NONCE_SIZE_def sample_row_env_def)
  have json: "json_round_trips (se_json sample_seal_env) (sealed_value sample_secret)"
    using sample_redacted by (simp add: json_round_trips_def sealed_value_def sample_seal_env_def) (simp add: sample_secret_def)
  have job: "cj_encryption_config sample_secret \<noteq> None" "\<not> cj_is_encrypted sample_secret" "cj_encrypted_payload sample_secret = None"
    by (simp_all add: sample_secret_def)
  have key: "ec_version (en_config (sample_engine sample_v2)) < 2 ^ 32" "active_key (sample_engine sample_v2) = Inr (kv_active sample_v2)"
    "\<not> en_keys_poisoned (sample_engine sample_v2)"
    "en_keys (sample_engine sample_v2) (engine_key_id (sample_engine sample_v2)) = Some sample_v2"
    "kv_active sample_v2 \<in> set (kv_candidates sample_v2)"
    by (simp_all add: sample_engine_def encryption_config_new_def active_key_def engine_key_id_def config_key_id_def kv_candidates_def)
  have pii: "cj_pii_fields sample_secret = [''ssn'']" by (simp add: sample_secret_def)
  have stored: "seal_job sample_seal_env (sample_engine sample_v2) sample_secret = (Inr (), as_crypt (cj_payload c) (sample_stored c), A)"
    using seal by (simp add: as_crypt_stored)
  obtain s v found ep where "c = sealed_job s ep sample_secret" "redact_fields (cj_payload sample_secret) [''ssn''] = Inr (s, v, found)"
    using seal_job_Inr [OF seal job(1,2)] pii by (metis list.distinct(1))
  then have "cj_payload c = JObject [(''name'', JString ''Ada''), (''ssn'', JString REDACTED_FIELD_VALUE)]"
    using sample_redacted by (simp add: sealed_job_def)
  then have "cj_payload c \<noteq> cj_payload sample_secret" by (simp add: sample_secret_def REDACTED_FIELD_VALUE_def)
  moreover obtain q' x where "mysql_read_back sample_row_env to_micros (sample_stored c) = Inr q'"
    "fst (open_job sample_seal_env (sy_store sample_system) (sample_engine sample_v2) (as_crypt (cj_payload c) q')) = Inr x"
    "cj_payload x = cj_payload sample_secret"
    using stored_sealed_job_opens [OF laws(1,2) json laws(3) job key(1) stored sample_strategy
        sample_row_laws(2) _ laws(4) refl refl key(2-5), of "mysql_read_back sample_row_env to_micros (sample_stored c)" to_micros
        "sy_store sample_system"] sample_times by auto
  ultimately show ?thesis using seal by blast
qed

end
