(* ===== verification/Spec2Isabelle.thy ===== *)
theory Spec2Isabelle
  imports Runs Planning Settle MemoryResults TestQueueAdmin TestQueueData Retry TokenBucket
    StatsCollector Autoscale SqlSplit Events PayloadTemplate Webhooks Alerting Streaming
    Spawn WorkerLoop BatchRun Supervisor ConfigSave WebGuard Migrate JobRow
begin

text \<open>
  Hammerwork is a job queue for Rust programs. A client enqueues jobs (singly, in batches, as
  workflows with dependencies, or on a cron schedule), workers claim them under a lease, run them
  and record an outcome, and the queue retries, releases dependents, propagates failures and
  archives. Payloads can be stored encrypted, under keys from the environment or a key management
  service. Around the queue sit worker pools with an autoscaler, rate limits, retry strategies,
  statistics, and three ways of telling the outside world what happened: webhooks, event streams
  and alerts; one configuration file or environment sets them all up. This library models that
  logic as the code has it and proves what makes it correct. File names below are under
  \<open>src/src/\<close>.

  \<^bold>\<open>Theories and what they model.\<close>

  \<^item> \<open>Prelude\<close>: the error type (\<open>error.rs\<close>), the parameters for third-party crates, chrono and
    \<open>Duration\<close> arithmetic with its saturation (\<open>queue/mod.rs\<close>), association lists for \<open>HashMap\<close>, the
    locale \<open>codec\<close> for a textual or integer encoding with its decoder.
  \<^item> \<open>Priority\<close>, \<open>Job\<close>, \<open>Workflow\<close>, \<open>Batch\<close>, \<open>Cron\<close>, \<open>RateLimit\<close>, \<open>Archive\<close>: the records, enums,
    constructors and validations of \<open>priority.rs\<close>, \<open>job.rs\<close>, \<open>workflow.rs\<close>, \<open>batch.rs\<close>, \<open>cron.rs\<close>,
    \<open>rate_limit.rs\<close> and \<open>archive.rs\<close>. Each enum stored as text interprets \<open>codec\<close>.
  \<^item> \<open>Lifecycle\<close>: \<open>queue/lifecycle.rs\<close>, the rules every backend shares: manual transitions and the
    statuses they start from, run outcomes and their guards, settlement of new dependents.
  \<^item> \<open>Storage\<close>, \<open>TestQueue\<close>, \<open>TestQueueData\<close>, \<open>TestQueueAdmin\<close>: \<open>queue/test.rs\<close>, the in-memory
    backend. The record \<open>storage\<close> is \<open>TestStorage\<close>; every method of \<open>TestStorage\<close> and every method
    of the \<open>DatabaseQueue\<close> implementation is one definition from storage to storage.
  \<^item> \<open>MemoryResults\<close>: \<open>queue/memory_results.rs\<close>, the bounded result store of the SQL backends.
  \<^item> \<open>Retry\<close>: \<open>retry.rs\<close>. \<open>TokenBucket\<close>: the run-time half of \<open>rate_limit.rs\<close>.
    \<open>StatsCollector\<close>: \<open>stats.rs\<close>. \<open>Autoscale\<close>: \<open>worker/autoscale.rs\<close>. \<open>SqlSplit\<close>:
    \<open>migrations/split.rs\<close>.
  \<^item> \<open>QueueApi\<close>, \<open>Worker\<close>, \<open>WorkerLoop\<close>, \<open>BatchRun\<close>, \<open>Supervisor\<close>: \<open>worker.rs\<close>,
    \<open>worker/hooks.rs\<close> and \<open>worker/pool.rs\<close>. A worker is a function of the record of queue
    operations \<open>queue_ops\<close>, so that it runs on any backend; one job from start to recorded outcome is
    \<open>process_job\<close>, batch mode and the supervisor of a pool are step relations.
  \<^item> \<open>Spawn\<close>: \<open>spawn.rs\<close>, child jobs a handler creates.
  \<^item> \<open>Json\<close>, \<open>Events\<close>, \<open>PayloadTemplate\<close>, \<open>Webhooks\<close>, \<open>Streaming\<close>, \<open>Alerting\<close>: JSON values,
    \<open>events.rs\<close>, \<open>webhooks.rs\<close>, \<open>streaming.rs\<close>, \<open>alerting.rs\<close>.
  \<^item> \<open>Encryption\<close>, \<open>Envelope\<close>, \<open>Engine\<close>, \<open>KeyLoad\<close>, \<open>JobSeal\<close>: \<open>encryption.rs\<close>,
    \<open>encryption/envelope.rs\<close>, \<open>encryption/engine.rs\<close>, the key sources of \<open>engine.rs\<close> with
    \<open>encryption/kms.rs\<close>, and \<open>encryption/job_payload.rs\<close> with \<open>queue/payload_encryption.rs\<close>.
    \<open>EngineSystem\<close> puts the engines of several processes on one key service and database.
  \<^item> \<open>ConfigText\<close>, \<open>Config\<close>, \<open>ConfigSave\<close>: \<open>config.rs\<close> (the text of durations and the redaction
    of URLs; the sections, their validation and environment variables; saving) and the part of
    \<open>queue/mod.rs\<close> that builds an encrypting queue from its section.
  \<^item> \<open>JobRow\<close>: the row of a job in PostgreSQL and MySQL: \<open>queue/row.rs\<close>, the encoders of
    \<open>queue/backend.rs\<close>, and \<open>insert_jobs\<close> and \<open>JobRow::into_job\<close> of \<open>queue/postgres.rs\<close> and \<open>queue/mysql.rs\<close>.
  \<^item> \<open>Migrate\<close>: \<open>migrations/mod.rs\<close>, \<open>migrations/postgres.rs\<close> and their counterpart for MySQL, the
    runner of schema migrations over the scripts that \<open>SqlSplit\<close> takes apart.
  \<^item> \<open>WebAuth\<close>, \<open>WebGuard\<close>: the login of the web dashboard (\<open>hammerwork-web/src/auth.rs\<close>) with its
    table of failures and cache of verified credentials, and the guards in front of its routes
    (\<open>hammerwork-web/src/security.rs\<close> and the filters of \<open>server.rs\<close>).

  \<^bold>\<open>How they interact.\<close> A queue operation computes on \<open>storage\<close>; \<open>TestQueue\<close> calls the rules of
  \<open>Lifecycle\<close>, which call those of \<open>Cron\<close> and \<open>Workflow\<close>. A worker acquires permits and rate limit
  tokens (\<open>TokenBucket\<close>), claims jobs, runs their handlers with heartbeats, decides with \<open>Retry\<close>
  whether a failed run is tried again, spawns children, and offers the outcome to the queue; the
  supervisor starts, restarts and retires workers as \<open>Autoscale\<close> asks. Events carry the lifecycle
  of a job to the event manager, which decides once per event whether a payload is attached;
  webhook and stream listeners filter what they receive, render or serialize it, and deliver it
  with the retries of \<open>Retry\<close>. Alerts are raised from the statistics of \<open>StatsCollector\<close>. Before a
  job is stored its payload is sealed by the engine, after it is read it is opened; the engine's
  keys come from \<open>KeyLoad\<close> and \<open>Envelope\<close>, as the section of \<open>Config\<close> says.

  \<^bold>\<open>What is shown.\<close>

  \<^item> The queue (\<open>StorageInv\<close>, \<open>Stable\<close>, \<open>Invariant\<close>): the invariant of the storage holds after
    every sequence of operations. The locales \<open>quiet\<close>, \<open>stable\<close>, \<open>quiet_store\<close> and
    \<open>stable_store\<close> state what a property must promise of the few primitive changes; inside them
    each operation is shown to keep the property, once, and they are interpreted for the index,
    the leases, the clock, the stored jobs and the absence of a run.
  \<^item> Claiming (\<open>Claim\<close>): a dequeue returns exactly the best claimable jobs, starts them, and two
    dequeues never return the same job. Runs (\<open>Runs\<close>): only a dequeue starts a run, an outcome is
    recorded once, released claims leave no trace, live runs survive recovery.
  \<^item> Dependencies (\<open>Settle\<close>, \<open>Failure\<close>): the worklist loops compute the closure their
    specification \<open>doomed\<close> describes, release exactly the jobs that wait for nothing more, and the
    workflow failure policies stop exactly what they promise.
  \<^item> Planning (\<open>Planning\<close>): the depth-first cycle detection decides whether a workflow has an
    execution order; chunks partition a batch; recurring jobs move on; weighted choice is fair.
  \<^item> Workers (\<open>WorkerRuns\<close>, \<open>WorkerLoop\<close>, \<open>BatchRun\<close>, \<open>Supervisor\<close>): the locales \<open>run_queue\<close> and
    \<open>claim_queue\<close> state what a worker relies on; in them it offers exactly one outcome for a run,
    announces what was recorded, changes nothing of a run that was taken over and claims within its
    rate. Both are interpreted by the in-memory queue. In batch mode every claimed job is accounted
    for and the run ends; a pool has exactly the workers asked for, and its shutdown ends.
  \<^item> Delivery (\<open>PayloadTemplate\<close>, \<open>Webhooks\<close>, \<open>Streaming\<close>, \<open>Alerting\<close>, \<open>Events\<close>): templates are
    rendered as their grammar says, every delivery is counted once with the outcome of its last
    attempt, only unacknowledged events of a batch are sent again, alerts respect their cooldown
    as long as a delivery is shorter than it (and a run is shown where it is not).
  \<^item> Encryption: processes that race to create or rotate a key agree on every version (\<open>Envelope\<close>);
    what one engine encrypts every later engine decrypts, and only with the same associated data
    (\<open>EngineSystem\<close>); an engine always has a key of the right size (\<open>KeyLoad\<close>); a sealed job is
    opened as it was, in its own row only, and nothing secret is readable in what is stored
    (\<open>JobSeal\<close>).
  \<^item> Configuration: the encryption section is exactly what file and variables say and holds no key
    (\<open>Config\<close>); durations are read back as written and passwords hidden (\<open>ConfigText\<close>); saving is
    all or nothing (\<open>ConfigSave\<close>); and, below, a queue built from a section stores nothing of the
    listed queues in the clear and opens what was stored before a key was rotated.
  \<^item> Rows (\<open>JobRow\<close>): the locale \<open>row_codec\<close> states what the column formats of a database promise; in it
    a job that is inserted is read back as its columns can hold it, and so for both databases; a
    sealed job that went through either is opened by whoever holds its key.
  \<^item> Migrations (\<open>Migrate\<close>): the locale \<open>migration_runner\<close> states what a backend promises of its
    bookkeeping; in it, and so for the SQL runners, every migration is recorded once, in the order
    of the registry, whatever statements fail and however often the runner is called.
  \<^item> The dashboard (\<open>WebAuth\<close>, \<open>WebGuard\<close>): only the right credentials are accepted, a client is
    locked out by its own failures only and cannot try passwords faster than the lockout allows,
    and a request of another site that would change something is refused before it is looked at.
  \<^item> Supporting parts: the bound of the token bucket over any schedule of acquisitions, the range
    of retry delays for every rounding of the floating point unit, the locale \<open>result_store\<close> that
    both result stores implement, the statistics against their definition on the list of events,
    the bounds of the autoscaler, and the exactness of the script splitter.

  \<^bold>\<open>Conventions.\<close> A \<open>HashMap\<close> whose iteration the code observes is an association list, its order
  standing for the iteration order; \<open>Utc::now\<close>, \<open>Instant::now\<close> and \<open>Uuid::new_v4\<close> are arguments.
  Times and durations are integers in nanoseconds. Machine integers wrap or saturate where the
  release build does. An \<open>f64\<close> is a rational, except in \<open>Retry\<close>, where it includes the special values and every
  operation is rounded by a parameter. Text is ASCII; bytes are characters. Code outside the
  repository is a parameter: the records \<open>externs\<close> (uuid, chrono, cron, chrono-tz, the hasher), the
  floating point environment and random numbers of \<open>Retry\<close>, the JSON, HTTP, HMAC, mail and
  processor results of the delivery theories, the record \<open>crypto\<close> (ciphers, hashes, gzip, base64),
  the key service \<open>kms\<close>, the clients in \<open>key_services\<close>, the TOML reader and writer; what is assumed of
  one is a named hypothesis such as \<open>cron_laws\<close>, \<open>crypto_laws\<close> or \<open>kms_laws\<close>. \<open>hmac_collision_free\<close> says
  that two credentials have different keyed digests. \<open>aead_ideal\<close> is the
  usual symbolic idealisation of an authenticated cipher: only what was encrypted with a key, nonce
  and associated data is decrypted with them. Each
  method of the in-memory queue holds the write lock, so interleavings of clients are sequences
  of operations; the alert manager, which releases its lock while it sends, the batch mode of a
  worker, the pool supervisor, the engines on one database and the login requests of the dashboard,
  which wait for bcrypt between the lockout check and the verdict, are step relations.

  \<^bold>\<open>Bounds and fuel.\<close> The recursion of \<open>has_cycle_dfs\<close> carries fuel, one unit for each job and
  dependency entry, which \<open>detect_cycles_total\<close> shows to be enough. The catch-up of a recurring
  job has the code's own limit \<open>CRON_CATCH_UP_SCAN_LIMIT\<close>. The worklists of
  \<open>fail_dependents\<close> and \<open>resolve_dependents\<close>, the passes of \<open>settle_new_dependents\<close>, the eviction
  loop and the scanner of SQL scripts are total functions with termination measures.

  \<^bold>\<open>Not modelled.\<close> The queries of the PostgreSQL and MySQL backends and the tables of the key manager
  (their logic is SQL text executed by the server, except for the rules in \<open>Lifecycle\<close>, the rows in
  \<open>JobRow\<close> and the table of wrapped keys in \<open>Envelope\<close>), the clients of Vault, AWS, Google and Azure, of Kafka, Kinesis and Pub/Sub,
  \<open>metrics.rs\<close> and \<open>tracing.rs\<close> (registrations with other crates), the
  command line tool, and of the web dashboard the routes, pages, WebSocket and reports behind its
  guards (queries and presentation). Of the modelled files, setters without logic, the
  priority statistics of the in-memory queue, the aggregate statistics of webhooks, the semaphores
  that only delay a delivery and the tracking of tokio tasks are left out.
\<close>

subsection \<open>From the configuration to what is stored\<close>

text \<open>The engine of a queue built from a section that turns encryption on.\<close>

lemma configured_engine:
  assumes "apply_encryption_config V A c pe P s = (Inr pe', P', s')" "px_enabled c" "section_ok c"
  obtains en where "pe_engine pe' = Some en" "pe_encrypted_queues pe' = px_encrypted_queues c" "\<not> en_keys_poisoned en"
    "engine_key_id en = section_key_id c" "ec_algorithm (en_config en) = px_algorithm c"
    "\<And>i r. (i, r) \<in> set (px_decryption_keys c) \<Longrightarrow>
       \<exists>k. fst (load_key V (key_source_of_ref r) KEY_SIZE P) = Inr k \<and> en_keys en i = Some (kv_single k)"
    "\<And>var. key_source_of_ref (px_key_source c) = KsEnvironment var \<Longrightarrow>
       \<exists>k. fst (load_key V (KsEnvironment var) KEY_SIZE P) = Inr k \<and> en_keys en (section_key_id c) = Some (kv_single k)"
proof -
  obtain ec en0 P1 en where made: "section_encryption_config c = Inr ec" "new_with_pool V A ec P s = (Inr en0, P1, s')"
    "add_decryption_keys V (px_decryption_keys c) en0 P1 = (Inr en, P')"
    "pe' = pe\<lparr>pe_engine := Some en, pe_encrypted_queues := px_encrypted_queues c\<rparr>" "payload_encryption_validate c = Inr ()"
    using apply_encryption_config_Inr [OF assms(1,2)] .
  have ec: "ec_algorithm ec = px_algorithm c" "ec_key_source ec = key_source_of_ref (px_key_source c)" "config_key_id ec = section_key_id c"
    using made(1,5) by (auto simp: section_encryption_config_def config_key_id_def section_key_id_def encryption_config_new_def)
  note en0 = new_with_pool_engine [OF made(2)]
  have "P1 = P"
    using made(2) ec(2) load_ref_places [of V "px_key_source c"]
    by (auto simp: new_with_pool_def engine_from_config_def split: sum.splits option.splits prod.splits)
  note added = add_decryption_keys_Inr [OF made(3) [unfolded this]]
  have d: "distinct (map fst (px_decryption_keys c))"
    using assms(3) by (simp add: section_ok_def strict_sorted_iff)
  have own: "section_key_id c \<notin> set (map fst (px_decryption_keys c))" using section_validD(3) [OF made(5) assms(2)] by simp
  show ?thesis
  proof (rule that)
    show "\<exists>k. fst (load_key V (KsEnvironment var) KEY_SIZE P) = Inr k \<and> en_keys en (section_key_id c) = Some (kv_single k)"
      if v: "key_source_of_ref (px_key_source c) = KsEnvironment var" for var
      using new_with_pool_env [OF made(2), of var] ec v added [OF d] own by (metis map_upd_eqD1 fun_upd_same)
  qed (use made(4) en0 added [OF d] ec in \<open>auto simp: engine_key_id_def\<close>)
qed



subsection \<open>A rotated sample\<close>

definition sample_section :: "string \<Rightarrow> string \<Rightarrow> (string \<times> key_source_ref) list \<Rightarrow> payload_encryption_config" where
  "sample_section key_id source keys =
     payload_encryption_default
       \<lparr>px_enabled := True, px_key_id := Some key_id, px_key_source := KeySourceRef source, px_encrypted_queues := [''mail''],
        px_decryption_keys := keys\<rparr>"

definition sample_old :: payload_encryption_config where
  "sample_old = sample_section ''k1'' ''env://KEY_1'' []"

definition sample_new :: payload_encryption_config where
  "sample_new = sample_section ''k2'' ''env://KEY_2'' [(''k1'', KeySourceRef ''env://KEY_1'')]"

definition sample_env_places :: key_places where
  "sample_env_places =
     sample_places\<lparr>kp_env := [''KEY_1'' \<mapsto> CHR ''='' # replicate 32 (CHR ''1'') @ ''='', ''KEY_2'' \<mapsto> CHR ''='' # replicate 32 (CHR ''2'') @ ''='']\<rparr>"

definition sample_plain :: payload_encryption where
  "sample_plain = \<lparr>pe_engine = None, pe_encrypted_queues = [], pe_plaintext_guard = False\<rparr>"

definition sample_mail :: crypt_job where
  "sample_mail = sample_secret\<lparr>cj_encryption_config := None, cj_pii_fields := [], cj_payload := JNull\<rparr>"

definition sample_text_env :: seal_env where
  "sample_text_env = \<lparr>se_externs = sample_externs, se_crypto = sample_text_crypto, se_json = sample_null_json, se_reading = sample_reading\<rparr>"

lemmas sample_section_defs = sample_old_def sample_new_def sample_section_def payload_encryption_default_def key_rotation_default_def
  key_source_ref_default_def

lemma sample_sections_ok:
  "section_ok sample_old" "section_ok sample_new" "px_enabled sample_old" "px_enabled sample_new"
  by (auto simp: sample_section_defs section_ok_def names_key_def is_ascii_alphanumeric_def)

lemma sample_sections_valid:
  "payload_encryption_validate sample_old = Inr ()" "payload_encryption_validate sample_new = Inr ()"
  by (simp_all add: sample_section_defs payload_encryption_validate_def)

lemma sample_env_keys:
  "load_key (sample_key_env x) (KsEnvironment ''KEY_1'') KEY_SIZE sample_env_places = (Inr (replicate 32 (CHR ''1'')), sample_env_places)"
  "load_key (sample_key_env x) (KsEnvironment ''KEY_2'') KEY_SIZE sample_env_places = (Inr (replicate 32 (CHR ''2'')), sample_env_places)"
  by (simp_all add: sample_key_env_def sample_env_places_def sample_text_crypto_def KEY_SIZE_def butlast_append)

lemma sample_sources:
  "key_source_of_ref (KeySourceRef ''env://KEY_1'') = KsEnvironment ''KEY_1''" "key_source_of_ref (KeySourceRef ''env://KEY_2'') = KsEnvironment ''KEY_2''"
  by (simp_all add: key_source_of_ref_def strip_prefix_def)

definition sample_old_config :: encryption_config where
  "sample_old_config = (encryption_config_new AES256GCM)\<lparr>ec_key_source := KsEnvironment ''KEY_1'', ec_key_id := Some ''k1''\<rparr>"

lemma sample_old_applied:
  "apply_encryption_config (sample_key_env x) sample_start sample_old sample_plain sample_env_places (\<lambda>_. []) =
     (Inr (sample_plain\<lparr>pe_engine := Some (engine_from_key sample_old_config (replicate 32 (CHR ''1''))), pe_encrypted_queues := [''mail'']\<rparr>),
      sample_env_places, \<lambda>_. [])"
proof -
  have ec: "section_encryption_config sample_old = Inr sample_old_config"
    by (simp add: section_encryption_config_def sample_sections_valid)
      (simp add: sample_section_defs sample_old_config_def sample_sources encryption_config_new_def)
  have "engine_from_config (sample_key_env x) sample_old_config sample_env_places =
      (Inr (engine_from_key sample_old_config (replicate 32 (CHR ''1''))), sample_env_places)"
    using sample_env_keys(1) by (simp add: engine_from_config_def sample_old_config_def config_key_size)
  then have "new_with_pool (sample_key_env x) sample_start sample_old_config sample_env_places (\<lambda>_. []) =
      (Inr (engine_from_key sample_old_config (replicate 32 (CHR ''1''))), sample_env_places, \<lambda>_. [])"
    by (simp add: new_with_pool_def sample_old_config_def)
  then show ?thesis
    using ec sample_sections_valid sample_sections_ok by (simp add: apply_encryption_config_def) (simp add: sample_section_defs)
qed

lemma sample_new_applied:
  "\<exists>q P t. apply_encryption_config (sample_key_env x) sample_start sample_new sample_plain sample_env_places (\<lambda>_. []) = (Inr q, P, t)"
  using sample_sections_valid(2) sample_sections_ok(4) sample_env_keys
  by (auto simp: apply_encryption_config_def section_encryption_config_def new_with_pool_def engine_from_config_def config_key_size
      sample_section_defs sample_sources with_decryption_key_from_def with_decryption_key_def engine_from_key_def engine_key_id_def config_key_id_def)

lemma sample_mail_sealed:
  "\<exists>j' pe''. seal (\<lambda>n. sample_text_env)
     (sample_plain\<lparr>pe_engine := Some (engine_from_key sample_old_config (replicate 32 (CHR ''1''))), pe_encrypted_queues := [''mail'']\<rparr>) [sample_mail]
       = (Inr (), [j'], pe'')"
  by (simp add: seal_job_def add_queue_config_def encrypts_queue_def engine_job_config_def asks_encryption_def seal_encrypt_def
      engine_from_key_def sample_old_config_def sample_mail_def sample_secret_def sample_plain_def sample_text_env_def sample_encrypt_simps
      sample_text_crypto_def kv_single_def)



end
